(* ===== verification/Go_Prelude.thy ===== *)
theory Go_Prelude
  imports Main "HOL-Library.Word" "HOL-Library.Multiset" "HOL-Library.Char_ord"
    "HOL-Library.List_Lexorder"
begin

text \<open>
  The part of the Go language and its standard library that the modelled code uses.

  Strings are byte strings: a Go \<open>string\<close> is a \<open>string\<close> here, one \<open>char\<close> per byte.
  A \<open>time.Time\<close> is the number of nanoseconds since the Go zero time (1 January of year 1,
  UTC), so \<open>t.IsZero()\<close> is \<open>t = 0\<close>; the monotonic reading is not modelled.  A Go \<open>int\<close> is
  an \<open>int\<close>; where the code adds two of them without a bound the 64-bit wrap-around is written
  out with \<open>goInt\<close>.  An \<open>atomic.Uint64\<close> counter is a \<open>64 word\<close>.  A Go map is a partial
  function; a \<open>range\<close> loop over it takes the iteration order, which Go leaves open, as an
  explicit list of keys (\<open>iterOrder\<close>).
\<close>

named_theorems go_string \<open>facts about the string operations of the standard library\<close>
named_theorems go_map \<open>facts about maps and their iteration\<close>

subsection \<open>Integers and times\<close>

type_synonym u64 = "64 word"
type_synonym time = int

definition goInt :: "int \<Rightarrow> int" where
  "goInt x = signed_take_bit 63 x"

lemma goInt_small [simp]: "- (2 ^ 63) \<le> x \<Longrightarrow> x < 2 ^ 63 \<Longrightarrow> goInt x = x"
  by (simp add: goInt_def signed_take_bit_int_eq_self)

definition unixNano :: "time \<Rightarrow> int" where
  "unixNano t = goInt (t - 62135596800000000000)"

abbreviation (input) zeroTime :: time where
  "zeroTime \<equiv> 0"

subsection \<open>Strings\<close>

abbreviation (input) newline :: string where
  "newline \<equiv> [CHR 0x0A]"

definition hasPrefix :: "string \<Rightarrow> string \<Rightarrow> bool" where
  "hasPrefix s p \<longleftrightarrow> take (length p) s = p"

definition hasSuffix :: "string \<Rightarrow> string \<Rightarrow> bool" where
  "hasSuffix s p \<longleftrightarrow> hasPrefix (rev s) (rev p)"

definition trimPrefix :: "string \<Rightarrow> string \<Rightarrow> string" where
  "trimPrefix s p = (if hasPrefix s p then drop (length p) s else s)"

definition trimSuffix :: "string \<Rightarrow> string \<Rightarrow> string" where
  "trimSuffix s p = (if hasSuffix s p then take (length s - length p) s else s)"

fun contains :: "string \<Rightarrow> string \<Rightarrow> bool" where
  "contains [] sub = (sub = [])"
| "contains (c # cs) sub = (hasPrefix (c # cs) sub \<or> contains cs sub)"

fun indexOf :: "string \<Rightarrow> string \<Rightarrow> nat option" where
  "indexOf [] sub = (if sub = [] then Some 0 else None)"
| "indexOf (c # cs) sub =
     (if hasPrefix (c # cs) sub then Some 0 else map_option Suc (indexOf cs sub))"

fun lastIndexOf :: "string \<Rightarrow> string \<Rightarrow> nat option" where
  "lastIndexOf [] sub = (if sub = [] then Some 0 else None)"
| "lastIndexOf (c # cs) sub =
     (case lastIndexOf cs sub of
        Some i \<Rightarrow> Some (Suc i)
      | None \<Rightarrow> if hasPrefix (c # cs) sub then Some 0 else None)"

fun joinStrings :: "string list \<Rightarrow> string \<Rightarrow> string" where
  "joinStrings [] sep = []"
| "joinStrings [x] sep = x"
| "joinStrings (x # y # ys) sep = x @ sep @ joinStrings (y # ys) sep"

definition fallbackString :: "string \<Rightarrow> string \<Rightarrow> string" where
  "fallbackString v d = (if v \<noteq> [] then v else d)"

lemma fallbackString_nonempty [simp]: "d \<noteq> [] \<Longrightarrow> fallbackString v d \<noteq> []"
  by (simp add: fallbackString_def)

lemma hasPrefix_append [simp, go_string]: "hasPrefix (p @ s) p"
  by (simp add: hasPrefix_def)

lemma hasPrefix_iff [go_string]: "hasPrefix s p \<longleftrightarrow> (\<exists>t. s = p @ t)"
  by (metis append_eq_conv_conj append_take_drop_id hasPrefix_def)

lemma hasPrefix_take: "hasPrefix (take n s) p \<Longrightarrow> hasPrefix s p"
  by (metis append.assoc append_take_drop_id hasPrefix_iff)

lemma trimPrefix_append [simp, go_string]: "trimPrefix (p @ s) p = s"
  by (simp add: trimPrefix_def)

text \<open>
  ASCII case mapping.  \<open>strings.ToLower\<close> also maps letters outside ASCII; the code looks for
  ASCII words in the result, and bytes from 128 on are left as they are here.
\<close>

definition lowerChar :: "char \<Rightarrow> char" where
  "lowerChar c =
     (if 65 \<le> (of_char c :: nat) \<and> (of_char c :: nat) \<le> 90
      then char_of ((of_char c :: nat) + 32) else c)"

definition upperChar :: "char \<Rightarrow> char" where
  "upperChar c =
     (if 97 \<le> (of_char c :: nat) \<and> (of_char c :: nat) \<le> 122
      then char_of ((of_char c :: nat) - 32) else c)"

definition toLower :: "string \<Rightarrow> string" where
  "toLower s = map lowerChar s"

definition toUpper :: "string \<Rightarrow> string" where
  "toUpper s = map upperChar s"

subsection \<open>TrimSpace\<close>

text \<open>
  The encodings of the runes \<open>unicode.IsSpace\<close> accepts: six ASCII characters, then U+0085,
  U+00A0, U+1680, U+2000 to U+200A, U+2028, U+2029, U+202F, U+205F and U+3000 in UTF-8.
\<close>

definition spaceEncodings :: "string list" where
  "spaceEncodings =
     [[CHR 0x20], [CHR 0x09], [CHR 0x0A], [CHR 0x0B], [CHR 0x0C], [CHR 0x0D],
      [CHR 0xC2, CHR 0x85], [CHR 0xC2, CHR 0xA0], [CHR 0xE1, CHR 0x9A, CHR 0x80],
      [CHR 0xE2, CHR 0x80, CHR 0x80], [CHR 0xE2, CHR 0x80, CHR 0x81],
      [CHR 0xE2, CHR 0x80, CHR 0x82], [CHR 0xE2, CHR 0x80, CHR 0x83],
      [CHR 0xE2, CHR 0x80, CHR 0x84], [CHR 0xE2, CHR 0x80, CHR 0x85],
      [CHR 0xE2, CHR 0x80, CHR 0x86], [CHR 0xE2, CHR 0x80, CHR 0x87],
      [CHR 0xE2, CHR 0x80, CHR 0x88], [CHR 0xE2, CHR 0x80, CHR 0x89],
      [CHR 0xE2, CHR 0x80, CHR 0x8A], [CHR 0xE2, CHR 0x80, CHR 0xA8],
      [CHR 0xE2, CHR 0x80, CHR 0xA9], [CHR 0xE2, CHR 0x80, CHR 0xAF],
      [CHR 0xE2, CHR 0x81, CHR 0x9F], [CHR 0xE3, CHR 0x80, CHR 0x80]]"

fun stripOne :: "string list \<Rightarrow> string \<Rightarrow> string option" where
  "stripOne [] s = None"
| "stripOne (p # ps) s =
     (if hasPrefix s p then Some (drop (length p) s) else stripOne ps s)"

function trimLeft :: "string list \<Rightarrow> string \<Rightarrow> string" where
  "trimLeft encs s =
     (case stripOne encs s of
        None \<Rightarrow> s
      | Some s' \<Rightarrow> if length s' < length s then trimLeft encs s' else s)"
  by pat_completeness auto
termination
  by (relation "measure (\<lambda>(encs, s). length s)") auto

declare trimLeft.simps [simp del]

definition trimSpace :: "string \<Rightarrow> string" where
  "trimSpace s = rev (trimLeft (map rev spaceEncodings) (rev (trimLeft spaceEncodings s)))"

lemma stripOne_None: "stripOne ps s = None \<longleftrightarrow> (\<forall>p \<in> set ps. \<not> hasPrefix s p)"
  by (induction ps) auto

lemma stripOne_Some: "stripOne ps s = Some s' \<Longrightarrow> \<exists>p \<in> set ps. s = p @ s'"
  by (induction ps) (auto split: if_splits simp: hasPrefix_iff)

lemma stripOne_shorter:
  "stripOne ps s = Some s' \<Longrightarrow> [] \<notin> set ps \<Longrightarrow> length s' < length s"
  by (drule stripOne_Some) auto

lemma trimLeft_step:
  "stripOne encs s = Some s' \<Longrightarrow> length s' < length s \<Longrightarrow> trimLeft encs s = trimLeft encs s'"
  by (subst trimLeft.simps) simp

lemma trimLeft_done: "[] \<notin> set encs \<Longrightarrow> stripOne encs (trimLeft encs s) = None"
proof (induction encs s rule: trimLeft.induct)
  case (1 encs s)
  show ?case
  proof (cases "stripOne encs s")
    case None
    then show ?thesis by (simp add: trimLeft.simps [of encs s])
  next
    case (Some s')
    with "1.prems" have "length s' < length s" by (simp add: stripOne_shorter)
    with "1.IH" Some "1.prems" have "stripOne encs (trimLeft encs s') = None" by blast
    moreover have "trimLeft encs s = trimLeft encs s'"
      using Some \<open>length s' < length s\<close> by (rule trimLeft_step)
    ultimately show ?thesis by simp
  qed
qed

lemma trimLeft_fix: "stripOne encs s = None \<Longrightarrow> trimLeft encs s = s"
  by (simp add: trimLeft.simps [of encs s])

lemma trimLeft_suffix: "\<exists>p. s = p @ trimLeft encs s"
proof (induction encs s rule: trimLeft.induct)
  case (1 encs s)
  show ?case
  proof (cases "stripOne encs s")
    case None
    then show ?thesis by (simp add: trimLeft.simps [of encs s])
  next
    case (Some s')
    show ?thesis
    proof (cases "length s' < length s")
      case True
      with "1" Some obtain p where "s' = p @ trimLeft encs s'" by blast
      moreover obtain q where "s = q @ s'" using Some stripOne_Some by blast
      ultimately have "s = (q @ p) @ trimLeft encs s'" by simp
      with trimLeft_step [OF Some True] show ?thesis by metis
    next
      case False
      with Some show ?thesis by (simp add: trimLeft.simps [of encs s])
    qed
  qed
qed

lemma stripOne_prefix_None: "stripOne ps (a @ b) = None \<Longrightarrow> stripOne ps a = None"
  by (auto simp: stripOne_None hasPrefix_iff)

lemma spaceEncodings_nonempty: "[] \<notin> set spaceEncodings" "[] \<notin> set (map rev spaceEncodings)"
  by (simp_all add: spaceEncodings_def)

lemma trimSpace_idem [simp, go_string]: "trimSpace (trimSpace s) = trimSpace s"
proof -
  let ?l = "trimLeft spaceEncodings s"
  let ?r = "trimLeft (map rev spaceEncodings) (rev ?l)"
  obtain p where p: "rev ?l = p @ ?r" using trimLeft_suffix by blast
  then have "?l = rev ?r @ rev p" by (metis rev_append rev_rev_ident)
  then have "stripOne spaceEncodings (rev ?r) = None"
    by (metis stripOne_prefix_None trimLeft_done spaceEncodings_nonempty(1))
  moreover have "stripOne (map rev spaceEncodings) ?r = None"
    by (rule trimLeft_done) (rule spaceEncodings_nonempty(2))
  ultimately show ?thesis by (simp add: trimSpace_def trimLeft_fix)
qed

subsection \<open>Decimal numbers\<close>

definition digitChar :: "nat \<Rightarrow> char" where
  "digitChar d = ''0123456789'' ! d"

definition digitVal :: "char \<Rightarrow> nat option" where
  "digitVal c =
     (let code = (of_char c :: nat) in if 48 \<le> code \<and> code \<le> 57 then Some (code - 48) else None)"

fun showNat :: "nat \<Rightarrow> string" where
  "showNat n = (if n < 10 then [digitChar n] else showNat (n div 10) @ [digitChar (n mod 10)])"

declare showNat.simps [simp del]

definition showInt :: "int \<Rightarrow> string" where
  "showInt i = (if i < 0 then CHR ''-'' # showNat (nat (- i)) else showNat (nat i))"

fun parseDigits :: "nat \<Rightarrow> string \<Rightarrow> nat option" where
  "parseDigits acc [] = Some acc"
| "parseDigits acc (c # cs) =
     (case digitVal c of None \<Rightarrow> None | Some d \<Rightarrow> parseDigits (acc * 10 + d) cs)"

text \<open>\<open>strconv.ParseUint(s, 10, 64)\<close>: no sign, no underscore, an error out of range.\<close>

definition parseUint64 :: "string \<Rightarrow> u64 option" where
  "parseUint64 s =
     (if s = [] then None
      else case parseDigits 0 s of
             None \<Rightarrow> None
           | Some n \<Rightarrow> if n < 2 ^ 64 then Some (of_nat n) else None)"

lemma digit_cases: "d < (10::nat) \<Longrightarrow> d \<in> {0, 1, 2, 3, 4, 5, 6, 7, 8, 9}"
  by (simp add: less_Suc_eq numeral_eq_Suc; blast)

lemma digitVal_digitChar [simp]: "d < 10 \<Longrightarrow> digitVal (digitChar d) = Some d"
  by (drule digit_cases) (auto simp: digitChar_def digitVal_def)

lemma digitChar_not_dash [simp]: "d < 10 \<Longrightarrow> digitChar d \<noteq> CHR ''-''"
  by (drule digit_cases) (auto simp: digitChar_def)

lemma parseDigits_append:
  "parseDigits acc (xs @ ys) =
     (case parseDigits acc xs of None \<Rightarrow> None | Some n \<Rightarrow> parseDigits n ys)"
  by (induction xs arbitrary: acc) (auto split: option.splits)

lemma parseDigits_showNat [simp]: "parseDigits 0 (showNat n) = Some n"
proof (induction n rule: showNat.induct)
  case (1 n)
  then show ?case
    by (subst showNat.simps) (auto simp: parseDigits_append split: option.splits)
qed

lemma showNat_nonempty [simp]: "showNat n \<noteq> []"
  by (subst showNat.simps) simp

lemma showNat_no_dash [simp]: "CHR ''-'' \<notin> set (showNat n)"
proof (induction n rule: showNat.induct)
  case (1 n)
  have "digitChar (n mod 10) \<noteq> CHR ''-''" "n < 10 \<Longrightarrow> digitChar n \<noteq> CHR ''-''" by simp_all
  with "1" show ?case
    by (subst showNat.simps) (auto simp: eq_commute [of "CHR ''-''"])
qed

lemma showNat_inj [simp]: "showNat m = showNat n \<longleftrightarrow> m = n"
  by (metis option.inject parseDigits_showNat)

lemma parseUint64_showNat [simp]: "parseUint64 (showNat (unat (w::u64))) = Some w"
proof -
  have "unat w < 2 ^ 64" using unsigned_less [of w] by simp
  then show ?thesis by (simp add: parseUint64_def)
qed

subsection \<open>Maps and range loops\<close>

definition iterOrder :: "(string \<rightharpoonup> 'v) \<Rightarrow> string list \<Rightarrow> bool" where
  "iterOrder m ks \<longleftrightarrow> distinct ks \<and> set ks = dom m"

definition rangeVals :: "(string \<rightharpoonup> 'v) \<Rightarrow> string list \<Rightarrow> 'v list" where
  "rangeVals m ks = List.map_filter m ks"

definition keyedBy :: "('v \<Rightarrow> string) \<Rightarrow> (string \<rightharpoonup> 'v) \<Rightarrow> bool" where
  "keyedBy ident m \<longleftrightarrow> (\<forall>k v. m k = Some v \<longrightarrow> ident v = k)"

lemma rangeVals_Nil [simp]: "rangeVals m [] = []"
  by (simp add: rangeVals_def List.map_filter_def)

lemma rangeVals_Cons [simp]:
  "rangeVals m (k # ks) = (case m k of None \<Rightarrow> rangeVals m ks | Some v \<Rightarrow> v # rangeVals m ks)"
  by (simp add: rangeVals_def List.map_filter_def split: option.splits)

lemma iterOrder_mset: "iterOrder m ks \<Longrightarrow> iterOrder m ks' \<Longrightarrow> mset ks = mset ks'"
  by (metis iterOrder_def set_eq_iff_mset_eq_distinct)

lemma mset_rangeVals:
  "mset (rangeVals m ks) = image_mset (\<lambda>k. the (m k)) (filter_mset (\<lambda>k. m k \<noteq> None) (mset ks))"
  by (induction ks) (auto split: option.splits)

lemma rangeVals_mset_eq [go_map]:
  "iterOrder m ks \<Longrightarrow> iterOrder m ks' \<Longrightarrow> mset (rangeVals m ks) = mset (rangeVals m ks')"
  by (simp add: mset_rangeVals iterOrder_mset [of m ks ks'])

lemma set_rangeVals_subset: "v \<in> set (rangeVals m ks) \<Longrightarrow> \<exists>k \<in> set ks. m k = Some v"
  by (induction ks) (auto split: option.splits)

lemma set_rangeVals_dom: "k \<in> set ks \<Longrightarrow> m k = Some v \<Longrightarrow> v \<in> set (rangeVals m ks)"
  by (induction ks) (auto split: option.splits)

lemma set_rangeVals [go_map]: "iterOrder m ks \<Longrightarrow> set (rangeVals m ks) = ran m"
  by (auto simp: iterOrder_def ran_def dest: set_rangeVals_subset
      intro: set_rangeVals_dom domI)

lemma idents_rangeVals:
  "keyedBy ident m \<Longrightarrow> set ks \<subseteq> dom m \<Longrightarrow> map ident (rangeVals m ks) = ks"
  by (induction ks) (auto simp: keyedBy_def split: option.splits)

lemma distinct_idents_rangeVals [go_map]:
  "keyedBy ident m \<Longrightarrow> iterOrder m ks \<Longrightarrow> distinct (map ident (rangeVals m ks))"
  by (simp add: idents_rangeVals iterOrder_def)

lemma keyedBy_empty [simp]: "keyedBy ident Map.empty"
  by (simp add: keyedBy_def)

lemma keyedBy_upd [go_map]: "keyedBy ident m \<Longrightarrow> ident v = k \<Longrightarrow> keyedBy ident (m(k \<mapsto> v))"
  by (simp add: keyedBy_def)

lemma keyedByD: "keyedBy ident m \<Longrightarrow> m k = Some v \<Longrightarrow> ident v = k"
  by (simp add: keyedBy_def)

lemma mem_rangeVals:
  assumes "iterOrder m ks" "keyedBy ident m"
  shows "v \<in> set (rangeVals m ks) \<longleftrightarrow> m (ident v) = Some v"
proof
  assume "v \<in> set (rangeVals m ks)"
  then obtain k where "m k = Some v" by (blast dest: set_rangeVals_subset)
  then show "m (ident v) = Some v" using assms(2) keyedByD by metis
next
  assume a: "m (ident v) = Some v"
  then have "ident v \<in> set ks" using assms(1) by (auto simp: iterOrder_def)
  then show "v \<in> set (rangeVals m ks)" using a by (rule set_rangeVals_dom)
qed

lemma idents_filter_rangeVals:
  assumes "iterOrder m ks" "keyedBy ident m"
  shows "ident ` set (filter p (rangeVals m ks)) = {k. \<exists>v. m k = Some v \<and> p v}"
proof (intro set_eqI iffI)
  fix k assume "k \<in> ident ` set (filter p (rangeVals m ks))"
  then show "k \<in> {k. \<exists>v. m k = Some v \<and> p v}" using mem_rangeVals [OF assms] by auto
next
  fix k assume "k \<in> {k. \<exists>v. m k = Some v \<and> p v}"
  then obtain v where v: "m k = Some v" "p v" by blast
  then have "ident v = k" using assms(2) by (blast dest: keyedByD)
  with v mem_rangeVals [OF assms] show "k \<in> ident ` set (filter p (rangeVals m ks))" by force
qed

lemma card_filter_rangeVals:
  assumes "iterOrder m ks" "keyedBy ident m"
  shows "length (filter p (rangeVals m ks)) = card {k. \<exists>v. m k = Some v \<and> p v}"
proof -
  have "distinct (map ident (filter p (rangeVals m ks)))"
    using assms by (simp add: distinct_idents_rangeVals distinct_map_filter)
  then have "card (ident ` set (filter p (rangeVals m ks))) = length (filter p (rangeVals m ks))"
    by (metis distinct_card length_map list.set_map)
  then show ?thesis using idents_filter_rangeVals [OF assms, of p] by simp
qed

text \<open>Lists of records with distinct identifiers.\<close>

lemma filter_ident_once:
  "\<lbrakk>distinct (map f xs); x \<in> set xs\<rbrakk> \<Longrightarrow> filter (\<lambda>y. f y = f x) xs = [x]"
  by (induction xs) (auto simp: filter_empty_conv image_iff)

lemma find_filter: "find p xs = (case filter p xs of [] \<Rightarrow> None | x # _ \<Rightarrow> Some x)"
  by (induction xs) auto

lemma find_ident_once:
  "\<lbrakk>distinct (map f xs); x \<in> set xs\<rbrakk> \<Longrightarrow> find (\<lambda>y. f y = f x) xs = Some x"
  by (simp add: find_filter filter_ident_once)

lemma find_ident_none: "k \<notin> f ` set xs \<Longrightarrow> find (\<lambda>y. f y = k) xs = None"
  by (auto simp: find_None_iff)

lemma distinct_map_remove1: "distinct (map f xs) \<Longrightarrow> distinct (map f (remove1 x xs))"
  by (induction xs) (auto dest: set_remove1_subset [THEN subsetD])

text \<open>A slice-valued map entry: a missing key reads as the nil slice.\<close>

definition entries :: "(string \<rightharpoonup> 'v list) \<Rightarrow> string \<Rightarrow> 'v list" where
  "entries m k = (case m k of None \<Rightarrow> [] | Some xs \<Rightarrow> xs)"

definition appendEntry :: "(string \<rightharpoonup> 'v list) \<Rightarrow> string \<Rightarrow> 'v \<Rightarrow> (string \<rightharpoonup> 'v list)" where
  "appendEntry m k x = m(k \<mapsto> entries m k @ [x])"

lemma entries_appendEntry [simp, go_map]:
  "entries (appendEntry m k x) k' = (if k' = k then entries m k @ [x] else entries m k')"
  by (simp add: entries_def appendEntry_def)

lemma entries_empty [simp]: "entries Map.empty k = []"
  by (simp add: entries_def)

end
