(* ===== verification/Go_Sort.thy ===== *)
theory Go_Sort
  imports Go_Prelude
begin

text \<open>
  Sorting and pagination as the stores use them.

  \<open>goSort\<close> is the insertion sort that \<open>sort.Slice\<close> runs on up to twelve elements and whose
  result \<open>sort.SliceStable\<close> and \<open>slices.SortFunc\<close> share wherever the comparator is a strict
  weak order.  The locale \<open>record_order\<close> is the interface between a store and its comparator:
  on records with distinct identifiers the comparator is a strict total order.  Inside it the
  sorted permutation is shown to be unique, so neither the sorting algorithm nor the order in
  which a map was iterated can be observed.  \<open>pageWindow\<close> is the limit/offset window the memory
  stores cut out of the sorted rows.
\<close>

named_theorems paging \<open>facts about page windows\<close>

subsection \<open>Insertion sort\<close>

fun insertRev :: "('a \<Rightarrow> 'a \<Rightarrow> bool) \<Rightarrow> 'a \<Rightarrow> 'a list \<Rightarrow> 'a list" where
  "insertRev lt x [] = [x]"
| "insertRev lt x (y # ys) = (if lt x y then y # insertRev lt x ys else x # y # ys)"

fun sortRev :: "('a \<Rightarrow> 'a \<Rightarrow> bool) \<Rightarrow> 'a list \<Rightarrow> 'a list \<Rightarrow> 'a list" where
  "sortRev lt [] acc = acc"
| "sortRev lt (x # xs) acc = sortRev lt xs (insertRev lt x acc)"

definition goSort :: "('a \<Rightarrow> 'a \<Rightarrow> bool) \<Rightarrow> 'a list \<Rightarrow> 'a list" where
  "goSort lt xs = rev (sortRev lt xs [])"

lemma mset_insertRev [simp]: "mset (insertRev lt x ys) = add_mset x (mset ys)"
  by (induction ys) auto

lemma set_insertRev [simp]: "set (insertRev lt x ys) = insert x (set ys)"
  by (induction ys) auto

lemma mset_sortRev: "mset (sortRev lt xs acc) = mset xs + mset acc"
  by (induction xs arbitrary: acc) auto

lemma mset_goSort [simp]: "mset (goSort lt xs) = mset xs"
  by (simp add: goSort_def mset_sortRev)

lemma set_goSort [simp]: "set (goSort lt xs) = set xs"
  by (metis mset_goSort set_mset_mset)

lemma length_goSort [simp]: "length (goSort lt xs) = length xs"
  by (metis mset_goSort size_mset)

lemma distinct_map_goSort [simp]: "distinct (map f (goSort lt xs)) = distinct (map f xs)"
  by (metis mset_goSort mset_map mset_eq_imp_distinct_iff)

lemma goSort_Nil [simp]: "goSort lt [] = []"
  by (simp add: goSort_def)

subsection \<open>The interface to a comparator\<close>

locale record_order =
  fixes lt :: "'a \<Rightarrow> 'a \<Rightarrow> bool"
    and ident :: "'a \<Rightarrow> string"
    and carrier :: "'a \<Rightarrow> bool"
  assumes lt_irrefl: "carrier x \<Longrightarrow> \<not> lt x x"
    and lt_trans: "\<lbrakk>carrier x; carrier y; carrier z; lt x y; lt y z\<rbrakk> \<Longrightarrow> lt x z"
    and lt_total: "\<lbrakk>carrier x; carrier y; ident x \<noteq> ident y\<rbrakk> \<Longrightarrow> lt x y \<or> lt y x"
begin

lemma lt_asym: "\<lbrakk>carrier x; carrier y; lt x y\<rbrakk> \<Longrightarrow> \<not> lt y x"
  using lt_irrefl lt_trans by blast

lemma insertRev_sorted:
  "\<lbrakk>\<forall>y \<in> set (x # ys). carrier y; distinct (map ident (x # ys));
    sorted_wrt (\<lambda>a b. lt b a) ys\<rbrakk>
   \<Longrightarrow> sorted_wrt (\<lambda>a b. lt b a) (insertRev lt x ys)"
proof (induction ys)
  case Nil
  then show ?case by simp
next
  case (Cons y ys)
  show ?case
  proof (cases "lt x y")
    case True
    with Cons show ?thesis by auto
  next
    case False
    with Cons.prems lt_total have "lt y x" by auto
    moreover have "lt z x" if "z \<in> set ys" for z
      using Cons.prems that lt_trans [of z y x] \<open>lt y x\<close> by auto
    ultimately show ?thesis using False Cons.prems by auto
  qed
qed

lemma sortRev_sorted:
  "\<lbrakk>\<forall>y \<in> set (xs @ acc). carrier y; distinct (map ident (xs @ acc));
    sorted_wrt (\<lambda>a b. lt b a) acc\<rbrakk>
   \<Longrightarrow> sorted_wrt (\<lambda>a b. lt b a) (sortRev lt xs acc)"
proof (induction xs arbitrary: acc)
  case Nil
  then show ?case by simp
next
  case (Cons x xs)
  have "sorted_wrt (\<lambda>a b. lt b a) (insertRev lt x acc)"
    using Cons.prems by (intro insertRev_sorted) auto
  moreover have "distinct (map ident (xs @ insertRev lt x acc))"
    using Cons.prems by (metis (no_types, opaque_lifting) append_Cons mset_append mset_eq_imp_distinct_iff
        mset_insertRev mset_map union_mset_add_mset_left union_mset_add_mset_right mset.simps(2))
  ultimately show ?case using Cons.prems by (auto intro!: Cons.IH)
qed

lemma goSort_sorted:
  "\<lbrakk>\<forall>y \<in> set xs. carrier y; distinct (map ident xs)\<rbrakk> \<Longrightarrow> sorted_wrt lt (goSort lt xs)"
  using sortRev_sorted [of xs "[]"] by (simp add: goSort_def sorted_wrt_rev)

lemma sorted_unique:
  "\<lbrakk>sorted_wrt lt xs; sorted_wrt lt ys; mset xs = mset ys; \<forall>x \<in> set xs. carrier x\<rbrakk>
   \<Longrightarrow> xs = ys"
proof (induction xs arbitrary: ys)
  case Nil
  then show ?case by simp
next
  case (Cons x xs)
  then obtain y ys' where ys: "ys = y # ys'" by (cases ys) auto
  have sets: "set (x # xs) = set (y # ys')" using Cons.prems(3) ys by (metis set_mset_mset)
  have "x = y"
  proof (rule ccontr)
    assume "x \<noteq> y"
    with sets have "y \<in> set xs" "x \<in> set ys'" by auto
    then have "lt x y" "lt y x" using Cons.prems ys by auto
    moreover have "carrier x" "carrier y" using Cons.prems \<open>y \<in> set xs\<close> by auto
    ultimately show False using lt_asym by blast
  qed
  with Cons ys show ?case by auto
qed

lemma goSort_unique:
  "\<lbrakk>\<forall>y \<in> set xs. carrier y; distinct (map ident xs); sorted_wrt lt ys; mset ys = mset xs\<rbrakk>
   \<Longrightarrow> ys = goSort lt xs"
  by (rule sorted_unique) (auto simp: goSort_sorted dest: mset_eq_setD)

lemma goSort_order_independent:
  "\<lbrakk>\<forall>y \<in> set xs. carrier y; distinct (map ident xs); mset ys = mset xs\<rbrakk>
   \<Longrightarrow> goSort lt ys = goSort lt xs"
proof (rule goSort_unique)
  assume a: "\<forall>y \<in> set xs. carrier y" "distinct (map ident xs)" "mset ys = mset xs"
  then have "mset (map ident ys) = mset (map ident xs)" by simp
  with a have "distinct (map ident ys)" by (metis mset_eq_imp_distinct_iff)
  moreover have "\<forall>y \<in> set ys. carrier y" using a by (metis mset_eq_setD)
  ultimately show "sorted_wrt lt (goSort lt ys)" by (intro goSort_sorted)
  show "mset (goSort lt ys) = mset xs" using a by simp
qed

lemma goSort_range:
  assumes "keyedBy ident m" "iterOrder m ks" "iterOrder m ks'" "\<forall>v \<in> ran m. carrier v"
  shows "goSort lt (filter p (rangeVals m ks)) = goSort lt (filter p (rangeVals m ks'))"
proof (rule goSort_order_independent)
  show "\<forall>y \<in> set (filter p (rangeVals m ks')). carrier y"
    using assms by (auto simp: set_rangeVals)
  show "distinct (map ident (filter p (rangeVals m ks')))"
    using assms by (simp add: distinct_idents_rangeVals distinct_map_filter)
  show "mset (filter p (rangeVals m ks)) = mset (filter p (rangeVals m ks'))"
    by (simp add: rangeVals_mset_eq [OF assms(2,3)])
qed

lemma goSort_range_sorted:
  assumes "keyedBy ident m" "iterOrder m ks" "\<forall>v \<in> ran m. carrier v"
  shows "sorted_wrt lt (goSort lt (filter p (rangeVals m ks)))"
  using assms
  by (intro goSort_sorted) (auto simp: set_rangeVals distinct_idents_rangeVals distinct_map_filter)

end

text \<open>
  A comparator that looks at one key only is a strict weak order: the sort is weakly sorted and
  keeps the order of equal rows.
\<close>

locale weak_order =
  fixes lt :: "'a \<Rightarrow> 'a \<Rightarrow> bool"
  assumes weak_asym: "lt x y \<Longrightarrow> \<not> lt y x"
    and weak_cotrans: "lt x z \<Longrightarrow> lt x y \<or> lt y z"
begin

lemma insertRev_weak:
  "sorted_wrt (\<lambda>a b. \<not> lt a b) ys \<Longrightarrow> sorted_wrt (\<lambda>a b. \<not> lt a b) (insertRev lt x ys)"
proof (induction ys)
  case Nil
  then show ?case by simp
next
  case (Cons y ys)
  then show ?case using weak_asym weak_cotrans by (auto; blast)
qed

lemma sortRev_weak:
  "sorted_wrt (\<lambda>a b. \<not> lt a b) acc \<Longrightarrow> sorted_wrt (\<lambda>a b. \<not> lt a b) (sortRev lt xs acc)"
  by (induction xs arbitrary: acc) (auto simp: insertRev_weak)

lemma goSort_weak: "sorted_wrt (\<lambda>a b. \<not> lt b a) (goSort lt xs)"
  using sortRev_weak [of "[]" xs] by (simp add: goSort_def sorted_wrt_rev)

lemma goSort_split_weak:
  "\<lbrakk>x \<in> set (take n (goSort lt xs)); y \<in> set (drop n (goSort lt xs))\<rbrakk> \<Longrightarrow> \<not> lt y x"
  using goSort_weak [of xs] sorted_wrt_append [of _ "take n (goSort lt xs)" "drop n (goSort lt xs)"]
  by (metis append_take_drop_id)

end

subsection \<open>Pages\<close>

record 'a listPage =
  pageItems :: "'a list"
  pageHasMore :: bool
  pageNextOffset :: int

text \<open>A slice expression \<open>xs[lo:hi]\<close>; \<open>None\<close> is the runtime panic.\<close>

definition sliceRange :: "int \<Rightarrow> int \<Rightarrow> 'a list \<Rightarrow> 'a list option" where
  "sliceRange lo hi xs =
     (if 0 \<le> lo \<and> lo \<le> hi \<and> hi \<le> int (length xs)
      then Some (take (nat (hi - lo)) (drop (nat lo) xs)) else None)"

definition cutPage :: "int \<Rightarrow> int \<Rightarrow> 'a list \<Rightarrow> 'a listPage option" where
  "cutPage limit offset items =
     (if offset \<ge> int (length items)
      then Some \<lparr>pageItems = [], pageHasMore = False, pageNextOffset = 0\<rparr>
      else
        let end0 = goInt (offset + limit);
            hasMore = end0 < int (length items);
            end1 = (if end0 > int (length items) then int (length items) else end0)
        in case sliceRange offset end1 items of
             None \<Rightarrow> None
           | Some xs \<Rightarrow>
               Some \<lparr>pageItems = xs, pageHasMore = hasMore,
                     pageNextOffset = (if hasMore then end1 else 0)\<rparr>)"

definition pageWindow :: "int \<Rightarrow> int \<Rightarrow> 'a list \<Rightarrow> 'a listPage option" where
  "pageWindow limit offset items =
     cutPage (if limit \<le> 0 then 20 else limit) (if offset < 0 then 0 else offset) items"

lemma cutPage_in_range [paging]:
  assumes "0 \<le> offset" "0 < limit" "offset + limit < 2 ^ 63"
  shows "cutPage limit offset xs =
    Some \<lparr>pageItems = take (nat limit) (drop (nat offset) xs),
          pageHasMore = (offset + limit < int (length xs)),
          pageNextOffset = (if offset + limit < int (length xs) then offset + limit else 0)\<rparr>"
proof (cases "offset \<ge> int (length xs)")
  case True
  with assms show ?thesis by (simp add: cutPage_def)
next
  case False
  moreover have "goInt (offset + limit) = offset + limit" using assms by (intro goInt_small) auto
  moreover have "nat (int (length xs) - offset) = length xs - nat offset"
    using assms False by (simp add: nat_diff_distrib)
  ultimately show ?thesis
    using assms
    by (auto simp: cutPage_def sliceRange_def Let_def)
qed

lemma cutPage_panics [paging]:
  assumes "0 < offset" "offset < int (length xs)" "0 < limit" "limit < 2 ^ 63" "offset < 2 ^ 63"
    "2 ^ 63 \<le> offset + limit"
  shows "cutPage limit offset xs = None"
proof -
  have "goInt (offset + limit) = offset + limit - 2 ^ 64"
  proof -
    have "goInt (offset + limit) = goInt (offset + limit - 2 ^ 64)"
      by (simp add: goInt_def signed_take_bit_eq_iff_take_bit_eq take_bit_eq_mod)
    also have "\<dots> = offset + limit - 2 ^ 64" using assms by (intro goInt_small) auto
    finally show ?thesis .
  qed
  with assms show ?thesis by (simp add: cutPage_def sliceRange_def Let_def)
qed

lemma cutPage_None_iff [paging]:
  assumes "0 \<le> offset" "offset < 2 ^ 63" "0 < limit" "limit < 2 ^ 63"
    "int (length xs) < 2 ^ 63"
  shows "cutPage limit offset xs = None \<longleftrightarrow>
    0 < offset \<and> offset < int (length xs) \<and> 2 ^ 63 \<le> offset + limit"
proof (cases "offset + limit < 2 ^ 63")
  case True
  with assms show ?thesis by (simp add: cutPage_in_range)
next
  case False
  then have "0 < offset" using assms by linarith
  show ?thesis
  proof (cases "offset < int (length xs)")
    case True
    with False assms \<open>0 < offset\<close> show ?thesis by (simp add: cutPage_panics)
  next
    case beyond: False
    then show ?thesis by (simp add: cutPage_def)
  qed
qed

lemma pageWindow_None_iff [paging]:
  assumes "offset < 2 ^ 63" "limit < 2 ^ 63" "int (length xs) + 20 < 2 ^ 63"
  shows "pageWindow limit offset xs = None \<longleftrightarrow>
    0 < offset \<and> offset < int (length xs) \<and> 2 ^ 63 \<le> offset + limit"
  using assms by (auto simp: pageWindow_def cutPage_None_iff)

text \<open>
  A client that follows \<open>NextOffset\<close> from page to page; \<open>fetch\<close> is the list call.  The fuel
  bounds the number of pages: every page but the last is not empty, so one more than the number
  of rows is enough.
\<close>

fun walkPages :: "nat \<Rightarrow> (int \<Rightarrow> 'a listPage option) \<Rightarrow> int \<Rightarrow> 'a list option" where
  "walkPages 0 fetch off = None"
| "walkPages (Suc n) fetch off =
     (case fetch off of
        None \<Rightarrow> None
      | Some p \<Rightarrow>
          if pageHasMore p
          then map_option (\<lambda>r. pageItems p @ r) (walkPages n fetch (pageNextOffset p))
          else Some (pageItems p))"

lemma walk_cutPage:
  assumes "0 < limit" "int (length xs) + limit < 2 ^ 63"
  shows "\<lbrakk>0 \<le> off; nat off \<le> length xs; length xs - nat off < n\<rbrakk>
    \<Longrightarrow> walkPages n (\<lambda>off'. cutPage limit off' xs) off = Some (drop (nat off) xs)"
proof (induction n arbitrary: off)
  case 0
  then show ?case by simp
next
  case (Suc n)
  have page: "cutPage limit off xs =
    Some \<lparr>pageItems = take (nat limit) (drop (nat off) xs),
          pageHasMore = (off + limit < int (length xs)),
          pageNextOffset = (if off + limit < int (length xs) then off + limit else 0)\<rparr>"
    using assms Suc.prems by (intro cutPage_in_range) auto
  show ?case
  proof (cases "off + limit < int (length xs)")
    case True
    then have "walkPages n (\<lambda>off'. cutPage limit off' xs) (off + limit)
        = Some (drop (nat (off + limit)) xs)"
      using Suc.prems assms by (intro Suc.IH) auto
    moreover have "take (nat limit) (drop (nat off) xs) @ drop (nat (off + limit)) xs
        = drop (nat off) xs"
      using assms Suc.prems
      by (metis append_take_drop_id drop_drop nat_add_distrib order_less_imp_le add.commute)
    ultimately show ?thesis using page True by simp
  next
    case False
    with page Suc.prems assms show ?thesis by simp
  qed
qed

lemma walk_pageWindow:
  assumes "0 < limit" "int (length xs) + limit < 2 ^ 63"
  shows "walkPages (Suc (length xs)) (\<lambda>off'. pageWindow limit off' xs) 0 = Some xs"
proof -
  have "walkPages n (\<lambda>off'. pageWindow limit off' xs) off = walkPages n (\<lambda>off'. cutPage limit off' xs) off"
    if "0 \<le> off" for n off
    using that
  proof (induction n arbitrary: off)
    case 0
    then show ?case by simp
  next
    case (Suc n)
    have "pageWindow limit off xs = cutPage limit off xs"
      using assms Suc.prems by (simp add: pageWindow_def)
    moreover have "0 \<le> pageNextOffset p" if "cutPage limit off xs = Some p" for p
      using that Suc.prems
      by (auto simp: cutPage_def sliceRange_def Let_def split: if_splits option.splits)
    ultimately show ?case using Suc.IH by (auto split: option.splits)
  qed
  then have "walkPages (Suc (length xs)) (\<lambda>off'. pageWindow limit off' xs) 0
      = walkPages (Suc (length xs)) (\<lambda>off'. cutPage limit off' xs) 0" by blast
  also have "\<dots> = Some xs" using walk_cutPage [OF assms, of 0 "Suc (length xs)"] by simp
  finally show ?thesis .
qed

text \<open>
  A client that follows \<open>NextOffset\<close> over the sorted rows of a map that match a filter, whatever
  the order of the map at each call.
\<close>

context record_order
begin

lemma walk_rows:
  assumes "keyedBy ident m" "\<forall>v \<in> ran m. carrier v" "\<And>off. iterOrder m (order off)" "0 < limit"
    and "int (card (dom m)) + limit < 2 ^ 63"
    and "\<And>off xs. 0 \<le> off \<Longrightarrow> length xs \<le> card (dom m) \<Longrightarrow> window off xs = cutPage limit off xs"
  shows "\<exists>rows. walkPages (Suc (length rows))
        (\<lambda>off. window off (goSort lt (filter p (rangeVals m (order off))))) 0 = Some rows
    \<and> sorted_wrt lt rows \<and> distinct (map ident rows) \<and> set rows = {v. m (ident v) = Some v \<and> p v}"
proof -
  let ?rows = "goSort lt (filter p (rangeVals m (order 0)))"
  have "length ?rows \<le> length (rangeVals m (order 0))" by simp
  also have "\<dots> = card (dom m)"
    using card_filter_rangeVals [OF assms(3,1), of "\<lambda>_. True" 0] by (simp add: dom_def)
  finally have len: "length ?rows \<le> card (dom m)" .
  have rows: "(\<lambda>off. window off (goSort lt (filter p (rangeVals m (order off))))) = (\<lambda>off. window off ?rows)"
    by (rule ext) (rule arg_cong [OF goSort_range [OF assms(1,3,3,2)]])
  have "walkPages n (\<lambda>off. window off ?rows) off = walkPages n (\<lambda>off. cutPage limit off ?rows) off"
    if "0 \<le> off" for n off
    using that
  proof (induction n arbitrary: off)
    case (Suc n)
    have "0 \<le> pageNextOffset q" if "cutPage limit off ?rows = Some q" for q
      using that Suc.prems by (auto simp: cutPage_def sliceRange_def Let_def split: if_splits option.splits)
    then show ?case using Suc len by (auto simp: assms(6) split: option.splits)
  qed simp
  then have "walkPages (Suc (length ?rows)) (\<lambda>off. window off ?rows) 0
      = walkPages (Suc (length ?rows)) (\<lambda>off. cutPage limit off ?rows) 0" by blast
  also have "\<dots> = Some ?rows" using walk_cutPage [of limit ?rows 0 "Suc (length ?rows)"] assms(4,5) len by simp
  finally have "walkPages (Suc (length ?rows)) (\<lambda>off. window off ?rows) 0 = Some ?rows" .
  moreover have "sorted_wrt lt ?rows" by (rule goSort_range_sorted [OF assms(1,3,2)])
  moreover have "distinct (map ident ?rows)"
    using assms(1,3) by (simp add: distinct_idents_rangeVals distinct_map_filter)
  moreover have "set ?rows = {v. m (ident v) = Some v \<and> p v}"
    using mem_rangeVals [OF assms(3,1)] by auto
  ultimately show ?thesis unfolding rows by blast
qed

end

end
