(* ===== verification/Go_Store.thy ===== *)
theory Go_Store
  imports Go_Sort
begin

text \<open>
  Interfaces between the services and their stores.

  \<open>keyed_store\<close> is what a service relies on when it saves and loads records by identifier;
  \<open>audited_store\<close> extends it with the append-only event history that the workflow store keeps
  beside the records.  \<open>id_source\<close> is the contract of the identifier generators, a decimal
  clock reading and a process-wide counter behind a prefix.  The client lemmas are proved once
  here and used through the interpretations each store theory gives.
\<close>

subsection \<open>Records by identifier\<close>

locale keyed_store =
  fixes get :: "'s \<Rightarrow> string \<Rightarrow> 'a option"
    and put :: "'s \<Rightarrow> 'a \<Rightarrow> 's"
    and ident :: "'a \<Rightarrow> string"
  assumes get_put: "get (put s x) k = (if k = ident x then Some x else get s k)"
begin

lemma get_put_same [simp]: "get (put s x) (ident x) = Some x"
  by (simp add: get_put)

lemma get_put_other [simp]: "k \<noteq> ident x \<Longrightarrow> get (put s x) k = get s k"
  by (simp add: get_put)

lemma get_put_twice: "ident y = ident x \<Longrightarrow> get (put (put s x) y) k = get (put s y) k"
  by (simp add: get_put)

lemma get_fold_untouched:
  "k \<notin> ident ` set xs \<Longrightarrow> get (fold (\<lambda>x s. put s x) xs s) k = get s k"
  by (induction xs arbitrary: s) (auto simp: get_put)

lemma get_fold_written:
  "\<lbrakk>distinct (map ident xs); x \<in> set xs\<rbrakk>
   \<Longrightarrow> get (fold (\<lambda>x s. put s x) xs s) (ident x) = Some x"
proof (induction xs arbitrary: s)
  case Nil
  then show ?case by simp
next
  case (Cons y ys)
  show ?case
  proof (cases "x = y")
    case True
    with Cons.prems have "ident x \<notin> ident ` set ys" by simp
    with True show ?thesis by (simp add: get_fold_untouched get_put)
  next
    case False
    with Cons show ?thesis by simp
  qed
qed

end

subsection \<open>Event histories\<close>

text \<open>
  A store whose events are numbered: in every history the numbers grow, and none is above the
  counter.
\<close>

definition numbered :: "('s \<Rightarrow> string \<Rightarrow> 'e list) \<Rightarrow> ('s \<Rightarrow> int) \<Rightarrow> ('e \<Rightarrow> int) \<Rightarrow> 's \<Rightarrow> bool" where
  "numbered hist counter num s \<longleftrightarrow>
     (\<forall>k. sorted_wrt (<) (map num (hist s k)) \<and> (\<forall>e \<in> set (hist s k). num e \<le> counter s))"

locale audited_store = keyed_store get put ident
  for get :: "'s \<Rightarrow> string \<Rightarrow> 'a option"
    and put :: "'s \<Rightarrow> 'a \<Rightarrow> 's"
    and ident :: "'a \<Rightarrow> string" +
  fixes addEvent :: "'s \<Rightarrow> 'e \<Rightarrow> 's"
    and hist :: "'s \<Rightarrow> string \<Rightarrow> 'e list"
    and counter :: "'s \<Rightarrow> int"
    and num :: "'e \<Rightarrow> int"
    and owner :: "'e \<Rightarrow> string"
    and stamp :: "int \<Rightarrow> 'e \<Rightarrow> 'e"
  assumes hist_addEvent: "hist (addEvent s e) k =
      hist s k @ (if k = owner e then [stamp (counter s + 1) e] else [])"
    and counter_addEvent: "counter (addEvent s e) = counter s + 1"
    and get_addEvent: "get (addEvent s e) k = get s k"
    and hist_put: "hist (put s x) k = hist s k"
    and counter_put: "counter (put s x) = counter s"
    and num_stamp: "num (stamp n e) = n"
begin

lemma numbered_addEvent: "numbered hist counter num s \<Longrightarrow> numbered hist counter num (addEvent s e)"
  by (fastforce simp: numbered_def hist_addEvent counter_addEvent num_stamp sorted_wrt_append)

lemma numbered_put: "numbered hist counter num s \<Longrightarrow> numbered hist counter num (put s x)"
  by (simp add: numbered_def hist_put counter_put)

lemma numbered_fold:
  "numbered hist counter num s
   \<Longrightarrow> numbered hist counter num (fold (\<lambda>(x, e) s. addEvent (put s x) e) xs s)"
  by (induction xs arbitrary: s) (auto simp: numbered_addEvent numbered_put)

lemma hist_fold_prefix:
  "\<exists>es. hist (fold (\<lambda>(x, e) s. addEvent (put s x) e) xs s) k = hist s k @ es"
proof (induction xs arbitrary: s)
  case Nil
  then show ?case by simp
next
  case (Cons p xs)
  obtain x e where "p = (x, e)" by force
  moreover have "hist (addEvent (put s x) e) k
      = hist s k @ (if k = owner e then [stamp (counter s + 1) e] else [])"
    by (simp add: hist_addEvent hist_put counter_put)
  ultimately show ?case using Cons [of "addEvent (put s x) e"] by auto
qed

lemma get_fold_noted:
  "get (fold (\<lambda>(x, e) s. addEvent (put s x) e) xs s) k
   = get (fold (\<lambda>x s. put s x) (map fst xs) s) k"
proof -
  have cong: "get (fold (\<lambda>x s. put s x) ys s) k = get (fold (\<lambda>x s. put s x) ys t) k"
    if "\<And>k. get s k = get t k" for ys s t k
    using that
  proof (induction ys arbitrary: s t)
    case Nil
    then show ?case by simp
  next
    case (Cons y ys)
    show ?case using Cons.prems by (simp add: get_put Cons.IH [of "put s y" "put t y"])
  qed
  show ?thesis
  proof (induction xs arbitrary: s)
    case Nil
    then show ?case by simp
  next
    case (Cons p xs)
    obtain x e where "p = (x, e)" by force
    then show ?case
      using Cons [of "addEvent (put s x) e"] cong [of "addEvent (put s x) e" "put s x" "map fst xs" k]
      by (simp add: get_addEvent)
  qed
qed

end

subsection \<open>Identifier generators\<close>

definition sequencedID :: "string \<Rightarrow> time \<Rightarrow> u64 \<Rightarrow> string" where
  "sequencedID prefix now n = prefix @ showInt (unixNano now) @ ''-'' @ showNat (unat n)"

definition idSuffix :: "string \<Rightarrow> string" where
  "idSuffix s = rev (takeWhile (\<lambda>c. c \<noteq> CHR ''-'') (rev s))"

lemma takeWhile_rev_suffix:
  "CHR ''-'' \<notin> set s \<Longrightarrow> takeWhile (\<lambda>c. c \<noteq> CHR ''-'') (rev s @ CHR ''-'' # t) = rev s"
  by (subst takeWhile_append2) auto

lemma idSuffix_dash [simp]: "CHR ''-'' \<notin> set s \<Longrightarrow> idSuffix (p @ CHR ''-'' # s) = s"
  by (simp add: idSuffix_def takeWhile_rev_suffix)

lemma idSuffix_sequencedID [simp]: "idSuffix (sequencedID p now n) = showNat (unat n)"
  using idSuffix_dash [of "showNat (unat n)" "p @ showInt (unixNano now)"]
  by (simp add: sequencedID_def del: idSuffix_dash)

text \<open>The counter does not wrap around below its maximum.\<close>

lemma counter_grows:
  assumes "(w::u64) < - 1"
  shows "w < w + 1"
proof -
  have "1 + w \<noteq> 0"
  proof
    assume "1 + w = 0"
    then have "w = - 1" by (simp add: eq_neg_iff_add_eq_0 add.commute)
    with assms show False by simp
  qed
  then have "unat (1 + w) = Suc (unat w)" by (rule unatSuc)
  then show ?thesis by (simp add: word_less_nat_alt add.commute)
qed

locale id_source =
  fixes mkID :: "time \<Rightarrow> u64 \<Rightarrow> string"
    and seqOf :: "string \<Rightarrow> u64 option"
  assumes seqOf_mkID: "seqOf (mkID now n) = Some n"
begin

lemma mkID_distinct: "m \<noteq> n \<Longrightarrow> mkID t m \<noteq> mkID t' n"
  by (metis option.inject seqOf_mkID)

text \<open>Every identifier in the store was drawn at a counter value not above the current one.\<close>

lemma mkID_fresh:
  assumes "\<And>k. k \<in> dom m \<Longrightarrow> \<exists>t w. k = mkID t w \<and> w \<le> n" "n < w'"
  shows "mkID t w' \<notin> dom m"
  using assms mkID_distinct by (metis leD)

end

definition sequenceOf :: "string \<Rightarrow> u64 option" where
  "sequenceOf s = parseUint64 (idSuffix s)"

lemma sequenceOf_sequencedID [simp]: "sequenceOf (sequencedID p now n) = Some n"
  by (simp add: sequenceOf_def)

end
