(* ===== verification/Workflow_Tasks.thy ===== *)
theory Workflow_Tasks
  imports Go_Store
begin

text \<open>
  Asynchronous workflow tasks: the types of \<open>workflow/types.go\<close>, the memory store of
  \<open>workflow/memory_store.go\<close> and the service of \<open>workflow/service.go\<close>.

  Every operation takes the store and returns the result with the new store.  The clock readings
  and the iteration order of a \<open>range\<close> loop are arguments; \<open>nextEventID\<close> is an \<open>int\<close>, the
  2^63 events that would wrap it are out of reach.  The task starter and the version source are
  interfaces implemented elsewhere, so a call of them is a function argument or the outcome of
  the call.
\<close>

subsection \<open>Types\<close>

abbreviation (input) "StatusDraft \<equiv> ''draft''"
abbreviation (input) "StatusQueued \<equiv> ''queued''"
abbreviation (input) "StatusRunning \<equiv> ''running''"
abbreviation (input) "StatusSucceeded \<equiv> ''succeeded''"
abbreviation (input) "StatusFailed \<equiv> ''failed''"
abbreviation (input) "StatusWaitingApproval \<equiv> ''waiting_approval''"

abbreviation (input) "TaskTypeReportGeneration \<equiv> ''report_generation''"
abbreviation (input) "TaskTypeApprovedToolExecution \<equiv> ''approved_tool_execution''"

abbreviation (input) "PromotionReasonWorkflowRequired \<equiv> ''workflow_required''"
abbreviation (input) "PromotionReasonApprovalRequired \<equiv> ''approval_required''"

abbreviation (input) "AuditActionCreated \<equiv> ''created''"
abbreviation (input) "AuditActionClaimed \<equiv> ''claimed''"
abbreviation (input) "AuditActionApproved \<equiv> ''approved''"
abbreviation (input) "AuditActionRetried \<equiv> ''retried''"
abbreviation (input) "AuditActionSucceeded \<equiv> ''succeeded''"
abbreviation (input) "AuditActionFailed \<equiv> ''failed''"

record promoteRequest =
  prq_RequestID :: string
  prq_TenantID :: string
  prq_SessionID :: string
  prq_TaskType :: string
  prq_Reason :: string
  prq_RequiresApproval :: bool
  prq_ToolName :: string
  prq_ToolArguments :: string

record task =
  task_ID :: string
  task_RequestID :: string
  task_TenantID :: string
  task_SessionID :: string
  task_TaskType :: string
  task_VersionID :: string
  task_ToolName :: string
  task_ToolArguments :: string
  task_Status :: string
  task_Reason :: string
  task_ErrorReason :: string
  task_AuditRef :: string
  task_RequiresApproval :: bool
  task_CreatedAt :: time
  task_UpdatedAt :: time

record auditEvent =
  aev_ID :: int
  aev_TaskID :: string
  aev_Action :: string
  aev_Actor :: string
  aev_Detail :: string
  aev_CreatedAt :: time

record taskListFilter =
  tlf_TenantID :: string
  tlf_Status :: string
  tlf_TaskType :: string
  tlf_Reason :: string
  tlf_RequiresApproval :: "bool option"
  tlf_CreatedAfter :: "time option"
  tlf_CreatedBefore :: "time option"
  tlf_UpdatedAfter :: "time option"
  tlf_UpdatedBefore :: "time option"
  tlf_Limit :: int
  tlf_Offset :: int

datatype workflowError =
    ErrTaskNotFound string
  | ErrApproveFrom string
  | ErrRetryFrom string
  | ErrVersionSource string

text \<open>What the errors print as.\<close>

definition workflowErrorText :: "workflowError \<Rightarrow> string" where
  "workflowErrorText err =
     (case err of
        ErrTaskNotFound i \<Rightarrow> ''workflow task not found: '' @ i
      | ErrApproveFrom status \<Rightarrow> ''invalid workflow task transition: approve from '' @ status
      | ErrRetryFrom status \<Rightarrow> ''invalid workflow task transition: retry from '' @ status
      | ErrVersionSource message \<Rightarrow> message)"

subsection \<open>MemoryStore\<close>

record taskStore =
  ts_tasks :: "string \<rightharpoonup> task"
  ts_events :: "string \<rightharpoonup> auditEvent list"
  ts_nextEventID :: int

definition NewMemoryStore :: taskStore where
  "NewMemoryStore = \<lparr>ts_tasks = Map.empty, ts_events = Map.empty, ts_nextEventID = 0\<rparr>"

definition SaveTask :: "task \<Rightarrow> taskStore \<Rightarrow> task \<times> taskStore" where
  "SaveTask t s = (t, s\<lparr>ts_tasks := (ts_tasks s)(task_ID t \<mapsto> t)\<rparr>)"

text \<open>The numbering and appending of an event that four of the operations share.\<close>

definition logTaskEvent :: "auditEvent \<Rightarrow> taskStore \<Rightarrow> taskStore" where
  "logTaskEvent e s =
     (let n = ts_nextEventID s + 1 in
      s\<lparr>ts_nextEventID := n,
        ts_events := appendEntry (ts_events s) (aev_TaskID e) (e\<lparr>aev_ID := n\<rparr>)\<rparr>)"

definition CreateTaskWithEvent :: "task \<Rightarrow> auditEvent \<Rightarrow> taskStore \<Rightarrow> task \<times> taskStore" where
  "CreateTaskWithEvent t e s =
     (t, logTaskEvent e (s\<lparr>ts_tasks := (ts_tasks s)(task_ID t \<mapsto> t)\<rparr>))"

definition GetTask :: "string \<Rightarrow> taskStore \<Rightarrow> workflowError + task" where
  "GetTask taskID s =
     (case ts_tasks s taskID of
        None \<Rightarrow> Inl (ErrTaskNotFound taskID)
      | Some t \<Rightarrow> Inr t)"

definition claimOne :: "time \<Rightarrow> task \<Rightarrow> taskStore \<Rightarrow> taskStore" where
  "claimOne now t s =
     logTaskEvent
       \<lparr>aev_ID = 0, aev_TaskID = task_ID t, aev_Action = AuditActionClaimed,
        aev_Actor = ''worker'', aev_Detail = task_Status t, aev_CreatedAt = task_UpdatedAt t\<rparr>
       (s\<lparr>ts_tasks := (ts_tasks s)(task_ID t \<mapsto> t)\<rparr>)"

definition queuedTasks :: "string list \<Rightarrow> int \<Rightarrow> taskStore \<Rightarrow> task list" where
  "queuedTasks ks limit s =
     (let queued = goSort (\<lambda>a b. task_CreatedAt a < task_CreatedAt b)
                     (filter (\<lambda>t. task_Status t = StatusQueued) (rangeVals (ts_tasks s) ks))
      in if int (length queued) > limit then take (nat limit) queued else queued)"

definition ClaimQueuedTasks ::
    "string list \<Rightarrow> time \<Rightarrow> int \<Rightarrow> taskStore \<Rightarrow> task list \<times> taskStore" where
  "ClaimQueuedTasks ks now limit s =
     (if limit \<le> 0 then ([], s)
      else
        let claimed = map (\<lambda>t. t\<lparr>task_Status := StatusRunning, task_UpdatedAt := now\<rparr>)
                        (queuedTasks ks limit s)
        in (claimed, fold (claimOne now) claimed s))"

definition UpdateTask :: "task \<Rightarrow> taskStore \<Rightarrow> (workflowError + task) \<times> taskStore" where
  "UpdateTask t s =
     (case ts_tasks s (task_ID t) of
        None \<Rightarrow> (Inl (ErrTaskNotFound (task_ID t)), s)
      | Some _ \<Rightarrow> (Inr t, s\<lparr>ts_tasks := (ts_tasks s)(task_ID t \<mapsto> t)\<rparr>))"

definition UpdateTaskWithEvent ::
    "task \<Rightarrow> auditEvent \<Rightarrow> taskStore \<Rightarrow> (workflowError + task) \<times> taskStore" where
  "UpdateTaskWithEvent t e s =
     (case ts_tasks s (task_ID t) of
        None \<Rightarrow> (Inl (ErrTaskNotFound (task_ID t)), s)
      | Some _ \<Rightarrow>
          (Inr t, logTaskEvent e (s\<lparr>ts_tasks := (ts_tasks s)(task_ID t \<mapsto> t)\<rparr>)))"

definition AppendTaskEvent :: "auditEvent \<Rightarrow> taskStore \<Rightarrow> auditEvent \<times> taskStore" where
  "AppendTaskEvent e s = (e\<lparr>aev_ID := ts_nextEventID s + 1\<rparr>, logTaskEvent e s)"

definition ListTaskEvents :: "string \<Rightarrow> taskStore \<Rightarrow> auditEvent list" where
  "ListTaskEvents taskID s = entries (ts_events s) taskID"

fun taskMatches :: "taskListFilter \<Rightarrow> task \<Rightarrow> bool" where
  "taskMatches f t \<longleftrightarrow>
     \<not> (tlf_TenantID f \<noteq> [] \<and> task_TenantID t \<noteq> tlf_TenantID f)
   \<and> \<not> (tlf_Status f \<noteq> [] \<and> task_Status t \<noteq> tlf_Status f)
   \<and> \<not> (tlf_TaskType f \<noteq> [] \<and> task_TaskType t \<noteq> tlf_TaskType f)
   \<and> \<not> (tlf_Reason f \<noteq> [] \<and> task_Reason t \<noteq> tlf_Reason f)
   \<and> (case tlf_RequiresApproval f of None \<Rightarrow> True | Some b \<Rightarrow> task_RequiresApproval t = b)
   \<and> (case tlf_CreatedAfter f of None \<Rightarrow> True | Some x \<Rightarrow> task_CreatedAt t > x)
   \<and> (case tlf_CreatedBefore f of None \<Rightarrow> True | Some x \<Rightarrow> task_CreatedAt t < x)
   \<and> (case tlf_UpdatedAfter f of None \<Rightarrow> True | Some x \<Rightarrow> task_UpdatedAt t > x)
   \<and> (case tlf_UpdatedBefore f of None \<Rightarrow> True | Some x \<Rightarrow> task_UpdatedAt t < x)"

definition taskSortsBefore :: "task \<Rightarrow> task \<Rightarrow> bool" where
  "taskSortsBefore a b =
     (if task_UpdatedAt a = task_UpdatedAt b then
        if task_CreatedAt a = task_CreatedAt b then task_ID b < task_ID a
        else task_CreatedAt a > task_CreatedAt b
      else task_UpdatedAt a > task_UpdatedAt b)"

definition ListTasks ::
    "string list \<Rightarrow> taskListFilter \<Rightarrow> taskStore \<Rightarrow> task listPage option" where
  "ListTasks ks f s =
     pageWindow (tlf_Limit f) (tlf_Offset f)
       (goSort taskSortsBefore (filter (taskMatches f) (rangeVals (ts_tasks s) ks)))"

declare taskMatches.simps [simp del]

subsection \<open>Service\<close>

record workflowService =
  ws_store :: taskStore
  ws_seq :: u64

definition newTaskID :: "time \<Rightarrow> u64 \<Rightarrow> string" where
  "newTaskID now n = sequencedID ''task-'' now n"

definition shouldStartTaskOnPromote :: "task \<Rightarrow> bool" where
  "shouldStartTaskOnPromote t \<longleftrightarrow>
     task_TaskType t = TaskTypeApprovedToolExecution \<and> task_RequiresApproval t"

definition promotedTask :: "string \<Rightarrow> time \<Rightarrow> u64 \<Rightarrow> promoteRequest \<Rightarrow> task" where
  "promotedTask versionID now n req =
     \<lparr>task_ID = newTaskID now n, task_RequestID = prq_RequestID req,
      task_TenantID = prq_TenantID req, task_SessionID = prq_SessionID req,
      task_TaskType = prq_TaskType req, task_VersionID = versionID,
      task_ToolName = prq_ToolName req, task_ToolArguments = prq_ToolArguments req,
      task_Status = (if prq_RequiresApproval req then StatusWaitingApproval else StatusQueued),
      task_Reason = prq_Reason req, task_ErrorReason = [], task_AuditRef = [],
      task_RequiresApproval = prq_RequiresApproval req,
      task_CreatedAt = now, task_UpdatedAt = now\<rparr>"

definition createdEvent :: "task \<Rightarrow> auditEvent" where
  "createdEvent t =
     \<lparr>aev_ID = 0, aev_TaskID = task_ID t, aev_Action = AuditActionCreated,
      aev_Actor = ''api'', aev_Detail = task_Status t, aev_CreatedAt = task_CreatedAt t\<rparr>"

definition startFailedTask :: "string \<Rightarrow> time \<Rightarrow> task \<Rightarrow> task" where
  "startFailedTask err later t =
     t\<lparr>task_Status := StatusFailed, task_ErrorReason := err,
       task_AuditRef := ''temporal:start_failed'', task_UpdatedAt := later\<rparr>"

definition startFailedEvent :: "task \<Rightarrow> auditEvent" where
  "startFailedEvent t =
     \<lparr>aev_ID = 0, aev_TaskID = task_ID t, aev_Action = AuditActionFailed, aev_Actor = ''api'',
      aev_Detail = task_ErrorReason t, aev_CreatedAt = task_UpdatedAt t\<rparr>"

text \<open>
  \<open>version\<close> is the outcome of \<open>CurrentVersionID\<close> where a version source is configured;
  \<open>starter\<close> maps a task to the error text of \<open>StartTask\<close>, \<open>None\<close> for success.
\<close>

definition Promote ::
    "(string + string) option \<Rightarrow> (task \<Rightarrow> string option) option \<Rightarrow> time \<Rightarrow> time
     \<Rightarrow> promoteRequest \<Rightarrow> workflowService \<Rightarrow> (workflowError + task) \<times> workflowService" where
  "Promote version starter now later req svc =
     (case version of
        Some (Inl err) \<Rightarrow> (Inl (ErrVersionSource err), svc)
      | _ \<Rightarrow>
        let versionID = (case version of Some (Inr v) \<Rightarrow> v | _ \<Rightarrow> []);
            n = ws_seq svc + 1;
            t = promotedTask versionID now n req;
            (created, s1) = CreateTaskWithEvent t (createdEvent t) (ws_store svc);
            startErr = (if shouldStartTaskOnPromote created
                        then (case starter of None \<Rightarrow> None | Some start \<Rightarrow> start created)
                        else None)
        in case startErr of
             None \<Rightarrow> (Inr created, \<lparr>ws_store = s1, ws_seq = n\<rparr>)
           | Some err \<Rightarrow>
               let failed = startFailedTask err later created;
                   (r, s2) = UpdateTaskWithEvent failed (startFailedEvent failed) s1
               in (r, \<lparr>ws_store = s2, ws_seq = n\<rparr>))"

definition service_UpdateTask ::
    "time \<Rightarrow> task \<Rightarrow> taskStore \<Rightarrow> (workflowError + task) \<times> taskStore" where
  "service_UpdateTask now t s = UpdateTask (t\<lparr>task_UpdatedAt := now\<rparr>) s"

definition ApproveTask ::
    "time \<Rightarrow> string \<Rightarrow> string \<Rightarrow> taskStore \<Rightarrow> (workflowError + task) \<times> taskStore" where
  "ApproveTask now taskID approvedBy s =
     (case GetTask taskID s of
        Inl err \<Rightarrow> (Inl err, s)
      | Inr t \<Rightarrow>
          if task_Status t \<noteq> StatusWaitingApproval
          then (Inl (ErrApproveFrom (task_Status t)), s)
          else
            let t' = t\<lparr>task_Status := StatusQueued, task_ErrorReason := [],
                       task_AuditRef := ''approval:'' @ approvedBy, task_UpdatedAt := now\<rparr>
            in UpdateTaskWithEvent t'
                 \<lparr>aev_ID = 0, aev_TaskID = task_ID t', aev_Action = AuditActionApproved,
                  aev_Actor = approvedBy, aev_Detail = task_Status t',
                  aev_CreatedAt = task_UpdatedAt t'\<rparr> s)"

definition RetryTask ::
    "time \<Rightarrow> string \<Rightarrow> string \<Rightarrow> taskStore \<Rightarrow> (workflowError + task) \<times> taskStore" where
  "RetryTask now taskID retriedBy s =
     (case GetTask taskID s of
        Inl err \<Rightarrow> (Inl err, s)
      | Inr t \<Rightarrow>
          if task_Status t \<noteq> StatusFailed
          then (Inl (ErrRetryFrom (task_Status t)), s)
          else
            let t' = t\<lparr>task_Status := StatusQueued, task_ErrorReason := [],
                       task_AuditRef := ''retry:'' @ retriedBy, task_UpdatedAt := now\<rparr>
            in UpdateTaskWithEvent t'
                 \<lparr>aev_ID = 0, aev_TaskID = task_ID t', aev_Action = AuditActionRetried,
                  aev_Actor = retriedBy, aev_Detail = task_Status t',
                  aev_CreatedAt = task_UpdatedAt t'\<rparr> s)"

subsection \<open>The interfaces of the store and the identifiers\<close>

named_theorems task_ops \<open>the store operations on tasks\<close>

declare GetTask_def [task_ops] SaveTask_def [task_ops] CreateTaskWithEvent_def [task_ops]
  UpdateTaskWithEvent_def [task_ops] ListTaskEvents_def [task_ops]

interpretation task_store: audited_store
  "\<lambda>s k. ts_tasks s k" "\<lambda>s t. snd (SaveTask t s)" task_ID
  "\<lambda>s e. logTaskEvent e s" "\<lambda>s k. ListTaskEvents k s" ts_nextEventID aev_ID aev_TaskID
  "\<lambda>n e. e\<lparr>aev_ID := n\<rparr>"
  by unfold_locales
    (auto simp: SaveTask_def logTaskEvent_def ListTaskEvents_def Let_def)

interpretation task_ids: id_source newTaskID sequenceOf
  by unfold_locales (simp add: newTaskID_def)

interpretation task_order: record_order taskSortsBefore task_ID "\<lambda>_. True"
  by unfold_locales (auto simp: taskSortsBefore_def split: if_splits)

interpretation claim_order: weak_order "\<lambda>a b. task_CreatedAt a < task_CreatedAt b"
  by unfold_locales auto

text \<open>
  The store invariant: tasks are stored under their identifier, events under the task they
  name, and the events are numbered upwards.
\<close>

definition taskStoreOK :: "taskStore \<Rightarrow> bool" where
  "taskStoreOK s \<longleftrightarrow>
     keyedBy task_ID (ts_tasks s)
   \<and> (\<forall>k. \<forall>e \<in> set (ListTaskEvents k s). aev_TaskID e = k)
   \<and> numbered (\<lambda>s k. ListTaskEvents k s) ts_nextEventID aev_ID s"

lemma taskStoreOK_new [simp]: "taskStoreOK NewMemoryStore"
  by (simp add: taskStoreOK_def NewMemoryStore_def ListTaskEvents_def numbered_def)

lemma taskStoreOK_keyed: "taskStoreOK s \<Longrightarrow> keyedBy task_ID (ts_tasks s)"
  by (simp add: taskStoreOK_def)

lemma ListTaskEvents_log [task_ops]:
  "ListTaskEvents k (logTaskEvent e s) =
     ListTaskEvents k s @ (if k = aev_TaskID e then [e\<lparr>aev_ID := ts_nextEventID s + 1\<rparr>] else [])"
  by (rule task_store.hist_addEvent)

lemma tasks_log [simp]: "ts_tasks (logTaskEvent e s) = ts_tasks s"
  by (simp add: logTaskEvent_def Let_def)

lemma nextEventID_log [simp]: "ts_nextEventID (logTaskEvent e s) = ts_nextEventID s + 1"
  by (simp add: logTaskEvent_def Let_def)

lemma taskStoreOK_log [intro]: "taskStoreOK s \<Longrightarrow> taskStoreOK (logTaskEvent e s)"
  using task_store.numbered_addEvent [of s e]
  by (auto simp: taskStoreOK_def ListTaskEvents_log)

lemma taskStoreOK_put [intro]:
  "taskStoreOK s \<Longrightarrow> taskStoreOK (s\<lparr>ts_tasks := (ts_tasks s)(task_ID t \<mapsto> t)\<rparr>)"
  using task_store.numbered_put [of s t]
  by (simp add: taskStoreOK_def SaveTask_def keyedBy_upd ListTaskEvents_def)

lemma taskStoreOK_create [intro]: "taskStoreOK s \<Longrightarrow> taskStoreOK (snd (CreateTaskWithEvent t e s))"
  by (simp add: CreateTaskWithEvent_def taskStoreOK_log taskStoreOK_put)

lemma taskStoreOK_update [intro]: "taskStoreOK s \<Longrightarrow> taskStoreOK (snd (UpdateTaskWithEvent t e s))"
  by (simp add: UpdateTaskWithEvent_def taskStoreOK_log taskStoreOK_put split: option.split)

lemma UpdateTaskWithEvent_present:
  "ts_tasks s (task_ID t) = Some t0 \<Longrightarrow>
   UpdateTaskWithEvent t e s =
     (Inr t, logTaskEvent e (s\<lparr>ts_tasks := (ts_tasks s)(task_ID t \<mapsto> t)\<rparr>))"
  by (simp add: UpdateTaskWithEvent_def)

lemma taskStoreOK_claimOne [intro]: "taskStoreOK s \<Longrightarrow> taskStoreOK (claimOne now t s)"
  by (simp add: claimOne_def taskStoreOK_log taskStoreOK_put)

lemma taskStoreOK_claim [intro]:
  "taskStoreOK s \<Longrightarrow> taskStoreOK (snd (ClaimQueuedTasks ks now limit s))"
proof -
  have "taskStoreOK s \<Longrightarrow> taskStoreOK (fold (claimOne now) ts s)" for ts
    by (induction ts arbitrary: s) auto
  then show "taskStoreOK s \<Longrightarrow> taskStoreOK (snd (ClaimQueuedTasks ks now limit s))"
    by (simp add: ClaimQueuedTasks_def Let_def)
qed

subsection \<open>Claiming\<close>

lemma mset_queuedTasks_drop:
  "0 < limit \<Longrightarrow> mset (queuedTasks ks limit s)
     + mset (drop (nat limit) (goSort (\<lambda>a b. task_CreatedAt a < task_CreatedAt b)
         (filter (\<lambda>t. task_Status t = StatusQueued) (rangeVals (ts_tasks s) ks))))
   = mset (filter (\<lambda>t. task_Status t = StatusQueued) (rangeVals (ts_tasks s) ks))"
  unfolding queuedTasks_def Let_def
  by (auto simp flip: mset_append)

lemma queuedTasks_take:
  "0 < limit \<Longrightarrow> queuedTasks ks limit s =
     take (nat limit) (goSort (\<lambda>a b. task_CreatedAt a < task_CreatedAt b)
       (filter (\<lambda>t. task_Status t = StatusQueued) (rangeVals (ts_tasks s) ks)))"
  by (auto simp: queuedTasks_def Let_def)

lemma queuedTasks_stored:
  assumes "t \<in> set (queuedTasks ks limit s)" "keyedBy task_ID (ts_tasks s)" "0 < limit"
  shows "ts_tasks s (task_ID t) = Some t" "task_Status t = StatusQueued"
proof -
  have "t \<in> set (filter (\<lambda>t. task_Status t = StatusQueued) (rangeVals (ts_tasks s) ks))"
    using assms(1,3) by (auto simp: queuedTasks_take dest!: in_set_takeD)
  then show "ts_tasks s (task_ID t) = Some t" "task_Status t = StatusQueued"
    using assms(2) by (auto dest!: set_rangeVals_subset simp: keyedBy_def)
qed

lemma distinct_queuedTasks:
  assumes "iterOrder (ts_tasks s) ks" "keyedBy task_ID (ts_tasks s)" "0 < limit"
  shows "distinct (map task_ID (queuedTasks ks limit s))"
proof -
  have "distinct (map task_ID (rangeVals (ts_tasks s) ks))"
    using assms by (intro distinct_idents_rangeVals)
  then have "distinct (map task_ID (goSort (\<lambda>a b. task_CreatedAt a < task_CreatedAt b)
       (filter (\<lambda>t. task_Status t = StatusQueued) (rangeVals (ts_tasks s) ks))))"
    by (simp add: distinct_map_filter)
  then show ?thesis using assms(3) by (simp add: queuedTasks_take flip: take_map)
qed

lemma fold_claimOne_task:
  assumes "distinct (map task_ID ts)"
  shows "ts_tasks (fold (claimOne now) ts s) k =
    (case find (\<lambda>t. task_ID t = k) ts of None \<Rightarrow> ts_tasks s k | Some t \<Rightarrow> Some t)"
  using assms
proof (induction ts arbitrary: s)
  case Nil
  then show ?case by simp
next
  case (Cons t ts)
  have "find (\<lambda>t. task_ID t = k) ts = None" if "task_ID t = k"
    using Cons.prems that by (simp add: find_None_iff) (metis image_eqI)
  with Cons show ?case by (auto simp: claimOne_def split: option.splits)
qed

lemma ListTaskEvents_put [simp]: "ListTaskEvents k (s\<lparr>ts_tasks := m\<rparr>) = ListTaskEvents k s"
  by (simp add: ListTaskEvents_def)

lemma ListTaskEvents_claimOne:
  "ListTaskEvents k (claimOne now t s) = ListTaskEvents k s @
     (if k = task_ID t
      then [\<lparr>aev_ID = ts_nextEventID s + 1, aev_TaskID = task_ID t,
             aev_Action = AuditActionClaimed, aev_Actor = ''worker'',
             aev_Detail = task_Status t, aev_CreatedAt = task_UpdatedAt t\<rparr>] else [])"
  by (simp add: claimOne_def ListTaskEvents_log)

lemma fold_claimOne_events:
  "\<exists>es. ListTaskEvents k (fold (claimOne now) ts s) = ListTaskEvents k s @ es
     \<and> map aev_Action es = map (\<lambda>t. AuditActionClaimed) (filter (\<lambda>t. task_ID t = k) ts)"
proof (induction ts arbitrary: s)
  case Nil
  then show ?case by simp
next
  case (Cons t ts)
  from Cons [of "claimOne now t s"] show ?case
    by (auto simp: ListTaskEvents_claimOne)
qed

lemma claimed_length:
  assumes "iterOrder (ts_tasks s) ks" "keyedBy task_ID (ts_tasks s)" "0 < limit"
  shows "length (queuedTasks ks limit s) =
    min (nat limit) (card {k. \<exists>t. ts_tasks s k = Some t \<and> task_Status t = StatusQueued})"
  using assms by (simp add: queuedTasks_take card_filter_rangeVals)

lemma queuedTasks_oldest:
  assumes "iterOrder (ts_tasks s) ks" "keyedBy task_ID (ts_tasks s)" "0 < limit"
    "t \<in> set (queuedTasks ks limit s)" "ts_tasks s k = Some u" "task_Status u = StatusQueued"
    "k \<notin> task_ID ` set (queuedTasks ks limit s)"
  shows "task_CreatedAt t \<le> task_CreatedAt u"
proof -
  let ?q = "goSort (\<lambda>a b. task_CreatedAt a < task_CreatedAt b)
    (filter (\<lambda>t. task_Status t = StatusQueued) (rangeVals (ts_tasks s) ks))"
  have take: "queuedTasks ks limit s = take (nat limit) ?q"
    using assms(3) by (rule queuedTasks_take)
  have "task_ID u = k" using assms(2,5) by (rule keyedByD)
  then have "u \<in> set (rangeVals (ts_tasks s) ks)"
    using assms(5) mem_rangeVals [OF assms(1,2)] by blast
  then have "u \<in> set ?q" using assms(6) by (subst set_goSort) simp
  moreover have "u \<notin> set (take (nat limit) ?q)"
    using assms(7) \<open>task_ID u = k\<close> unfolding take by blast
  ultimately have "u \<in> set (drop (nat limit) ?q)"
    using set_append [of "take (nat limit) ?q" "drop (nat limit) ?q"] by auto
  with assms(4) take have "\<not> task_CreatedAt u < task_CreatedAt t"
    by (intro claim_order.goSort_split_weak) auto
  then show ?thesis by simp
qed

lemma queuedTasks_sorted:
  "0 < limit \<Longrightarrow> sorted_wrt (\<lambda>a b. task_CreatedAt a \<le> task_CreatedAt b) (queuedTasks ks limit s)"
  using claim_order.goSort_weak sorted_wrt_take by (auto simp: queuedTasks_take not_less)

lemma ClaimQueuedTasks_eq:
  assumes "0 < limit" "ClaimQueuedTasks ks now limit s = (claimed, s')"
  shows "claimed = map (\<lambda>t. t\<lparr>task_Status := StatusRunning, task_UpdatedAt := now\<rparr>)
      (queuedTasks ks limit s)"
    and "s' = fold (claimOne now) claimed s"
    and "map task_ID claimed = map task_ID (queuedTasks ks limit s)"
  using assms by (auto simp: ClaimQueuedTasks_def Let_def)

lemma claim_events:
  assumes "distinct (map task_ID ts)"
  shows "t \<in> set ts \<Longrightarrow> \<exists>e. ListTaskEvents (task_ID t) (fold (claimOne now) ts s)
      = ListTaskEvents (task_ID t) s @ [e] \<and> aev_Action e = AuditActionClaimed"
    and "k \<notin> task_ID ` set ts \<Longrightarrow>
      ListTaskEvents k (fold (claimOne now) ts s) = ListTaskEvents k s"
proof -
  assume "t \<in> set ts"
  with assms have "filter (\<lambda>y. task_ID y = task_ID t) ts = [t]" by (rule filter_ident_once)
  with fold_claimOne_events [of "task_ID t" now ts s] show
    "\<exists>e. ListTaskEvents (task_ID t) (fold (claimOne now) ts s)
      = ListTaskEvents (task_ID t) s @ [e] \<and> aev_Action e = AuditActionClaimed" by auto
next
  assume "k \<notin> task_ID ` set ts"
  then have "filter (\<lambda>t. task_ID t = k) ts = []" by (auto simp: filter_empty_conv)
  with fold_claimOne_events [of k now ts s] show
    "ListTaskEvents k (fold (claimOne now) ts s) = ListTaskEvents k s" by auto
qed

text \<open>
  C24: A claim takes the oldest queued tasks, as many as the limit allows, in creation order.  It
  stores each of them as running with one claimed event appended, never returns a task twice,
  and leaves every other task and every other event log as it was.  This holds for every
  iteration order of the task map.
\<close>

theorem ClaimQueuedTasks_correct:
  assumes "iterOrder (ts_tasks s) ks" "taskStoreOK s" "0 < limit"
    and "ClaimQueuedTasks ks now limit s = (claimed, s')"
  shows "length claimed =
        min (nat limit) (card {k. \<exists>t. ts_tasks s k = Some t \<and> task_Status t = StatusQueued})
    \<and> distinct (map task_ID claimed)
    \<and> sorted_wrt (\<lambda>a b. task_CreatedAt a \<le> task_CreatedAt b) claimed
    \<and> (\<forall>c \<in> set claimed. (\<exists>t. ts_tasks s (task_ID c) = Some t \<and> task_Status t = StatusQueued
          \<and> c = t\<lparr>task_Status := StatusRunning, task_UpdatedAt := now\<rparr>)
        \<and> ts_tasks s' (task_ID c) = Some c
        \<and> (\<exists>e. ListTaskEvents (task_ID c) s' = ListTaskEvents (task_ID c) s @ [e]
              \<and> aev_Action e = AuditActionClaimed)
        \<and> (\<forall>k u. ts_tasks s k = Some u \<and> task_Status u = StatusQueued
              \<and> k \<notin> task_ID ` set claimed \<longrightarrow> task_CreatedAt c \<le> task_CreatedAt u))
    \<and> (\<forall>k. k \<notin> task_ID ` set claimed \<longrightarrow>
          ts_tasks s' k = ts_tasks s k \<and> ListTaskEvents k s' = ListTaskEvents k s)"
proof -
  let ?q = "queuedTasks ks limit s"
  note eq = ClaimQueuedTasks_eq [OF assms(3,4)]
  have keyed: "keyedBy task_ID (ts_tasks s)" using assms(2) by (rule taskStoreOK_keyed)
  have dist: "distinct (map task_ID claimed)"
    using distinct_queuedTasks [OF assms(1) keyed assms(3)] eq(3) by simp
  have ids: "task_ID ` set claimed = task_ID ` set ?q" using eq(3) by (metis list.set_map)
  have len: "length claimed = length ?q" using eq(1) by simp
  have one: "(\<exists>t. ts_tasks s (task_ID c) = Some t \<and> task_Status t = StatusQueued
          \<and> c = t\<lparr>task_Status := StatusRunning, task_UpdatedAt := now\<rparr>)
      \<and> ts_tasks s' (task_ID c) = Some c
      \<and> (\<forall>k u. ts_tasks s k = Some u \<and> task_Status u = StatusQueued
            \<and> k \<notin> task_ID ` set claimed \<longrightarrow> task_CreatedAt c \<le> task_CreatedAt u)"
    if c: "c \<in> set claimed" for c
  proof -
    obtain t where t: "t \<in> set ?q" "c = t\<lparr>task_Status := StatusRunning, task_UpdatedAt := now\<rparr>"
      using c eq(1) by auto
    have "find (\<lambda>t. task_ID t = task_ID c) claimed = Some c"
      using dist c by (rule find_ident_once)
    with fold_claimOne_task [OF dist] eq(2) have "ts_tasks s' (task_ID c) = Some c" by simp
    moreover have "task_CreatedAt c \<le> task_CreatedAt u"
      if "ts_tasks s k = Some u" "task_Status u = StatusQueued" "k \<notin> task_ID ` set claimed" for k u
      using queuedTasks_oldest [OF assms(1) keyed assms(3) t(1)] that ids t(2) by simp
    ultimately show ?thesis using queuedTasks_stored [OF t(1) keyed assms(3)] t(2) by auto
  qed
  have rest: "ts_tasks s' k = ts_tasks s k" if "k \<notin> task_ID ` set claimed" for k
  proof -
    have "find (\<lambda>t. task_ID t = k) claimed = None" using that by (rule find_ident_none)
    then show ?thesis using fold_claimOne_task [OF dist, of now s k] eq(2) by simp
  qed
  have sorted: "sorted_wrt (\<lambda>a b. task_CreatedAt a \<le> task_CreatedAt b) claimed"
    using queuedTasks_sorted [OF assms(3)] by (simp add: eq(1) sorted_wrt_map)
  show ?thesis
    using claimed_length [OF assms(1) keyed assms(3)] len dist one rest sorted
      claim_events [OF dist, of _ now s] eq(2) by auto
qed

text \<open>A small store for the concrete instances below.\<close>

definition demoTask :: "string \<Rightarrow> string \<Rightarrow> time \<Rightarrow> task" where
  "demoTask i status t =
     \<lparr>task_ID = i, task_RequestID = ''r'', task_TenantID = ''acme'', task_SessionID = [],
      task_TaskType = TaskTypeReportGeneration, task_VersionID = [], task_ToolName = [],
      task_ToolArguments = [], task_Status = status, task_Reason = [], task_ErrorReason = [],
      task_AuditRef = [], task_RequiresApproval = False, task_CreatedAt = t, task_UpdatedAt = t\<rparr>"

definition demoStore :: taskStore where
  "demoStore =
     \<lparr>ts_tasks = [''a'' \<mapsto> demoTask ''a'' StatusQueued 7, ''b'' \<mapsto> demoTask ''b'' StatusQueued 3,
                   ''c'' \<mapsto> demoTask ''c'' StatusFailed 1],
      ts_events = Map.empty, ts_nextEventID = 0\<rparr>"

lemma demoStore_ok [simp]: "taskStoreOK demoStore"
  by (simp add: taskStoreOK_def keyedBy_def demoStore_def demoTask_def ListTaskEvents_def
      numbered_def)

lemma demoStore_order [simp]: "iterOrder (ts_tasks demoStore) [''b'', ''c'', ''a'']"
  by (auto simp: iterOrder_def demoStore_def)

lemma ClaimQueuedTasks_correct_witness:
  "fst (ClaimQueuedTasks [''b'', ''c'', ''a''] 9 1 demoStore)
     = [(demoTask ''b'' StatusRunning 3)\<lparr>task_UpdatedAt := 9\<rparr>]
   \<and> ts_tasks (snd (ClaimQueuedTasks [''b'', ''c'', ''a''] 9 1 demoStore)) ''a''
     = Some (demoTask ''a'' StatusQueued 7)"
proof -
  let ?c = "ClaimQueuedTasks [''b'', ''c'', ''a''] 9 1 demoStore"
  have first: "fst ?c = [(demoTask ''b'' StatusRunning 3)\<lparr>task_UpdatedAt := 9\<rparr>]"
    by (simp add: ClaimQueuedTasks_def queuedTasks_def goSort_def demoStore_def demoTask_def)
  have "''a'' \<notin> task_ID ` set (fst ?c) \<longrightarrow> ts_tasks (snd ?c) ''a'' = ts_tasks demoStore ''a''"
    using ClaimQueuedTasks_correct [of demoStore "[''b'', ''c'', ''a'']" 1 9 "fst ?c" "snd ?c"]
    by simp
  then show ?thesis unfolding first by (simp add: demoTask_def demoStore_def)
qed

subsection \<open>Listing\<close>

lemma taskMatches_window [simp]:
  "taskMatches (f\<lparr>tlf_Offset := off\<rparr>) = taskMatches f"
  "taskMatches (f\<lparr>tlf_Limit := lim\<rparr>) = taskMatches f"
  by (simp_all add: taskMatches.simps fun_eq_iff)

lemma ListTasks_order_independent:
  assumes "taskStoreOK s" "iterOrder (ts_tasks s) ks" "iterOrder (ts_tasks s) ks'"
  shows "ListTasks ks f s = ListTasks ks' f s"
  using task_order.goSort_range [of "ts_tasks s" ks ks' "taskMatches f"] assms
  by (simp add: ListTasks_def taskStoreOK_keyed)

text \<open>
  A client that follows \<open>NextOffset\<close> from the first page gets every task the filter accepts
  exactly once, newest update first, for every limit and whatever order Go iterates the map in
  at each call.
\<close>

theorem ListTasks_walk:
  assumes "taskStoreOK s" "\<And>off. iterOrder (ts_tasks s) (order off)" "0 < tlf_Limit f"
    and "int (card (dom (ts_tasks s))) + tlf_Limit f < 2 ^ 63"
  shows "\<exists>rows. walkPages (Suc (length rows))
        (\<lambda>off. ListTasks (order off) (f\<lparr>tlf_Offset := off\<rparr>) s) 0 = Some rows
    \<and> sorted_wrt taskSortsBefore rows \<and> distinct (map task_ID rows)
    \<and> set rows = {t. ts_tasks s (task_ID t) = Some t \<and> taskMatches f t}"
proof -
  let ?all = "filter (taskMatches f) (rangeVals (ts_tasks s) (order 0))"
  let ?rows = "goSort taskSortsBefore ?all"
  have keyed: "keyedBy task_ID (ts_tasks s)" using assms(1) by (rule taskStoreOK_keyed)
  have page: "ListTasks (order off) (f\<lparr>tlf_Offset := off\<rparr>) s = pageWindow (tlf_Limit f) off ?rows"
    for off
    using ListTasks_order_independent
      [OF assms(1) assms(2) [of off] assms(2) [of 0], of "f\<lparr>tlf_Offset := off\<rparr>"]
    by (simp add: ListTasks_def)
  have "length ?rows \<le> length (rangeVals (ts_tasks s) (order 0))" by simp
  also have "\<dots> = card (dom (ts_tasks s))"
    using card_filter_rangeVals [OF assms(2) keyed, of "\<lambda>_. True" 0] by (simp add: dom_def)
  finally have "int (length ?rows) + tlf_Limit f < 2 ^ 63" using assms(4) by linarith
  with assms(3) have "walkPages (Suc (length ?rows)) (\<lambda>off. pageWindow (tlf_Limit f) off ?rows) 0
      = Some ?rows" by (intro walk_pageWindow)
  moreover have "sorted_wrt taskSortsBefore ?rows"
    using task_order.goSort_range_sorted [OF keyed assms(2)] by simp
  moreover have "distinct (map task_ID ?rows)"
    using assms(2) keyed by (simp add: distinct_idents_rangeVals distinct_map_filter)
  moreover have "set ?rows = {t. ts_tasks s (task_ID t) = Some t \<and> taskMatches f t}"
    using mem_rangeVals [OF assms(2) keyed] by auto
  ultimately show ?thesis unfolding page by blast
qed

definition demoFilter :: taskListFilter where
  "demoFilter = \<lparr>tlf_TenantID = ''acme'', tlf_Status = StatusQueued, tlf_TaskType = [],
     tlf_Reason = [], tlf_RequiresApproval = None, tlf_CreatedAfter = None,
     tlf_CreatedBefore = None, tlf_UpdatedAfter = None, tlf_UpdatedBefore = None,
     tlf_Limit = 1, tlf_Offset = 0\<rparr>"

lemma ListTasks_walk_witness:
  "\<exists>rows. set rows = {t. ts_tasks demoStore (task_ID t) = Some t \<and> taskMatches demoFilter t}
     \<and> walkPages (Suc (length rows))
         (\<lambda>off. ListTasks [''b'', ''c'', ''a''] (demoFilter\<lparr>tlf_Offset := off\<rparr>) demoStore) 0
       = Some rows"
proof -
  have "card (dom (ts_tasks demoStore)) = 3" by (simp add: demoStore_def)
  then show ?thesis
    using ListTasks_walk [of demoStore "\<lambda>_. [''b'', ''c'', ''a'']" demoFilter]
    by (auto simp: demoFilter_def)
qed

text \<open>
  A list call fails in exactly one way: the window arithmetic \<open>offset + limit\<close> wraps around
  at 2^63 while the offset is inside the result, and the slice expression panics.
\<close>

theorem ListTasks_panic_iff:
  assumes "taskStoreOK s" "iterOrder (ts_tasks s) ks"
    and "tlf_Offset f < 2 ^ 63" "tlf_Limit f < 2 ^ 63" "int (card (dom (ts_tasks s))) + 20 < 2 ^ 63"
  shows "ListTasks ks f s = None \<longleftrightarrow>
    0 < tlf_Offset f
    \<and> tlf_Offset f < int (card {k. \<exists>t. ts_tasks s k = Some t \<and> taskMatches f t})
    \<and> 2 ^ 63 \<le> tlf_Offset f + tlf_Limit f"
proof -
  have keyed: "keyedBy task_ID (ts_tasks s)" using assms(1) by (rule taskStoreOK_keyed)
  let ?rows = "goSort taskSortsBefore (filter (taskMatches f) (rangeVals (ts_tasks s) ks))"
  have len: "length ?rows = card {k. \<exists>t. ts_tasks s k = Some t \<and> taskMatches f t}"
    using card_filter_rangeVals [OF assms(2) keyed] by simp
  have "finite (dom (ts_tasks s))" using assms(2) by (metis iterOrder_def finite_set)
  then have "card {k. \<exists>t. ts_tasks s k = Some t \<and> taskMatches f t} \<le> card (dom (ts_tasks s))"
    by (intro card_mono) auto
  with len assms(5) have "int (length ?rows) + 20 < 2 ^ 63" by linarith
  with assms(3,4) show ?thesis
    unfolding ListTasks_def len [symmetric] by (intro pageWindow_None_iff)
qed

lemma ListTasks_panic_iff_witness:
  "ListTasks [''b'', ''c'', ''a'']
     (demoFilter\<lparr>tlf_Offset := 1, tlf_Limit := 9223372036854775807\<rparr>) demoStore = None"
proof -
  let ?f = "demoFilter\<lparr>tlf_Offset := 1, tlf_Limit := 9223372036854775807\<rparr>"
  have "{k. \<exists>t. ts_tasks demoStore k = Some t \<and> taskMatches ?f t} = {''a'', ''b''}"
    by (auto simp: demoStore_def demoFilter_def demoTask_def taskMatches.simps split: if_splits)
  moreover have "card (dom (ts_tasks demoStore)) = 3" by (simp add: demoStore_def)
  ultimately show ?thesis
    using ListTasks_panic_iff [of demoStore "[''b'', ''c'', ''a'']" ?f] by (simp add: demoFilter_def)
qed

end
