(* ===== verification/Workflow_Runner.thy ===== *)
theory Workflow_Runner
  imports Workflow_Tasks
begin

text \<open>
  The worker of \<open>workflow/runner.go\<close> and the executors behind it: the placeholder executor and
  the routing executor of \<open>workflow/temporal_executor.go\<close>.

  The executor, the version source and the report recorder are interfaces.  They are fields of
  \<open>runnerEnv\<close> and act on a world of type \<open>'w\<close>, which also provides the clock.  The result of an
  execution is the pair Go returns: a result and an error text, \<open>None\<close> for \<open>nil\<close>.
\<close>

subsection \<open>Types and helpers\<close>

record executionResult =
  er_AuditRef :: string
  er_Detail :: string

type_synonym 'w executor = "task \<Rightarrow> 'w \<Rightarrow> (executionResult \<times> string option) \<times> 'w"

definition fallbackAuditRef :: "string \<Rightarrow> string \<Rightarrow> string" where
  "fallbackAuditRef v d = (if v \<noteq> [] then v else d)"

definition summarizeExecutionError :: "string \<Rightarrow> string" where
  "summarizeExecutionError err =
     (let message = trimSpace err in
      if message = [] then []
      else
        let m1 = (case lastIndexOf message ''): '' of
                    Some i \<Rightarrow> if i + 3 < length message then drop (i + 3) message else message
                  | None \<Rightarrow> message);
            m2 = (case indexOf m1 '' (type: '' of Some i \<Rightarrow> take i m1 | None \<Rightarrow> m1)
        in trimSpace m2)"

definition classifyExecutionFailure :: "string \<Rightarrow> string" where
  "classifyExecutionFailure s =
     (let summary = trimSpace s in
      if summary = [] then []
      else
        let low = toLower summary in
        if contains low ''fault injection'' then ''injected_failure: '' @ summary
        else if contains low ''requires ticket_'' \<or> contains low ''requires comment''
              \<or> contains low ''requires query'' \<or> contains low ''decode ticket_''
        then ''validation_error: '' @ summary
        else if contains low ''status 401'' \<or> contains low ''status 403''
              \<or> contains low ''unauthorized''
        then ''authorization_error: '' @ summary
        else if contains low ''status 4'' then ''request_error: '' @ summary
        else if contains low ''status 5'' \<or> contains low ''call ticket_''
        then ''upstream_error: '' @ summary
        else ''execution_error: '' @ summary)"

definition successOrFailureDetail :: "string \<Rightarrow> string \<Rightarrow> string \<Rightarrow> string \<Rightarrow> string" where
  "successOrFailureDetail action successDetail failureDetail fallback =
     (if action = AuditActionSucceeded then fallbackAuditRef successDetail fallback
      else fallbackAuditRef (classifyExecutionFailure failureDetail) fallback)"

subsection \<open>Executors\<close>

definition PlaceholderExecute :: "'w executor" where
  "PlaceholderExecute t w =
     (if task_TaskType t = TaskTypeReportGeneration
      then ((\<lparr>er_AuditRef = ''worker:placeholder_report_generation'',
              er_Detail = ''report_generation completed''\<rparr>, None), w)
      else if task_TaskType t = TaskTypeApprovedToolExecution
      then ((\<lparr>er_AuditRef = ''worker:placeholder_approved_tool_execution'',
              er_Detail = ''approved_tool_execution completed''\<rparr>, None), w)
      else ((\<lparr>er_AuditRef = ''worker:placeholder_failed'', er_Detail = []\<rparr>,
             Some (''unsupported task type: '' @ task_TaskType t)), w))"

record 'w temporalExecutor =
  te_reportRunner :: "'w executor option"
  te_approvalRunner :: "'w executor option"
  te_fallback :: "'w executor"

definition TemporalExecute :: "'w temporalExecutor \<Rightarrow> 'w executor" where
  "TemporalExecute e t w =
     (if task_TaskType t = TaskTypeReportGeneration \<and> te_reportRunner e \<noteq> None
      then the (te_reportRunner e) t w
      else if task_TaskType t = TaskTypeApprovedToolExecution \<and> te_approvalRunner e \<noteq> None
           \<and> (hasPrefix (task_AuditRef t) ''approval:'' \<or> hasPrefix (task_AuditRef t) ''retry:'')
      then the (te_approvalRunner e) t w
      else te_fallback e t w)"

subsection \<open>ProcessNextBatch\<close>

text \<open>
  \<open>rec_atomic\<close> tells whether the recorder is an \<open>AtomicReportRecorder\<close> that supports atomic
  finalization; \<open>rec_finalize\<close> then writes the report and the task in one storage operation, so
  it acts on the task store as well.
\<close>

record 'w reportRecorder =
  rec_atomic :: bool
  rec_record :: "task \<Rightarrow> executionResult \<Rightarrow> 'w \<Rightarrow> (string + string) \<times> 'w"
  rec_finalize :: "task \<Rightarrow> executionResult \<Rightarrow> auditEvent \<Rightarrow> taskStore \<Rightarrow> 'w
                   \<Rightarrow> string option \<times> taskStore \<times> 'w"

record 'w runnerEnv =
  env_now :: "'w \<Rightarrow> time \<times> 'w"
  env_execute :: "'w executor"
  env_version :: "('w \<Rightarrow> (string + string) \<times> 'w) option"
  env_reports :: "'w reportRecorder option"

definition markFailed :: "string \<Rightarrow> executionResult \<Rightarrow> time \<Rightarrow> task \<Rightarrow> task" where
  "markFailed err result now t =
     t\<lparr>task_Status := StatusFailed, task_ErrorReason := summarizeExecutionError err,
       task_AuditRef := fallbackAuditRef (er_AuditRef result) ''worker:placeholder_failed'',
       task_UpdatedAt := now\<rparr>"

definition workerEvent :: "string \<Rightarrow> executionResult \<Rightarrow> string \<Rightarrow> task \<Rightarrow> auditEvent" where
  "workerEvent action result failureDetail t =
     \<lparr>aev_ID = 0, aev_TaskID = task_ID t, aev_Action = action, aev_Actor = ''worker'',
      aev_Detail = successOrFailureDetail action (er_Detail result) failureDetail (task_Status t),
      aev_CreatedAt = task_UpdatedAt t\<rparr>"

definition finishTask ::
    "string \<Rightarrow> executionResult \<Rightarrow> task \<Rightarrow> taskStore \<Rightarrow> workflowError option \<times> taskStore" where
  "finishTask action result t s =
     (case UpdateTaskWithEvent t (workerEvent action result (task_ErrorReason t) t) s of
        (Inl err, s') \<Rightarrow> (Some err, s')
      | (Inr _, s') \<Rightarrow> (None, s'))"

definition resolveVersion ::
    "'w runnerEnv \<Rightarrow> executionResult \<Rightarrow> task \<Rightarrow> 'w \<Rightarrow> (task \<times> string) \<times> 'w" where
  "resolveVersion env result t w =
     (if task_VersionID t = [] then
        (case env_version env of
           None \<Rightarrow> ((t, AuditActionSucceeded), w)
         | Some current \<Rightarrow>
             (case current w of
                (Inl err, w1) \<Rightarrow>
                  (let (now, w2) = env_now env w1
                   in ((markFailed err result now t, AuditActionFailed), w2))
              | (Inr v, w1) \<Rightarrow> ((t\<lparr>task_VersionID := v\<rparr>, AuditActionSucceeded), w1)))
      else ((t, AuditActionSucceeded), w))"

definition recordReport ::
    "'w runnerEnv \<Rightarrow> 'w reportRecorder \<Rightarrow> executionResult \<Rightarrow> task \<Rightarrow> string \<Rightarrow> taskStore \<Rightarrow> 'w
     \<Rightarrow> workflowError option \<times> taskStore \<times> 'w" where
  "recordReport env r result t action s w =
     (let successEvent = workerEvent AuditActionSucceeded result [] t in
      if rec_atomic r then
        (case rec_finalize r t result successEvent s w of
           (None, s', w1) \<Rightarrow> (None, s', w1)
         | (Some err, s', w1) \<Rightarrow>
             (let (now, w2) = env_now env w1;
                  (e, s'') = finishTask AuditActionFailed result (markFailed err result now t) s'
              in (e, s'', w2)))
      else
        (case rec_record r t result w of
           (Inl err, w1) \<Rightarrow>
             (let (now, w2) = env_now env w1;
                  (e, s') = finishTask AuditActionFailed result (markFailed err result now t) s
              in (e, s', w2))
         | (Inr _, w1) \<Rightarrow> (let (e, s') = finishTask action result t s in (e, s', w1))))"

definition processTask ::
    "'w runnerEnv \<Rightarrow> task \<Rightarrow> taskStore \<Rightarrow> 'w \<Rightarrow> workflowError option \<times> taskStore \<times> 'w" where
  "processTask env t s w =
     (let ((result, execErr), w1) = env_execute env t w;
          t1 = (case execErr of
                  Some err \<Rightarrow>
                    t\<lparr>task_Status := StatusFailed,
                      task_ErrorReason := summarizeExecutionError err,
                      task_AuditRef := fallbackAuditRef (er_AuditRef result)
                        ''worker:placeholder_failed''\<rparr>
                | None \<Rightarrow>
                    t\<lparr>task_Status := StatusSucceeded, task_ErrorReason := [],
                      task_AuditRef := fallbackAuditRef (er_AuditRef result)
                        ''worker:placeholder_succeeded''\<rparr>);
          (now, w2) = env_now env w1;
          t2 = t1\<lparr>task_UpdatedAt := now\<rparr>
      in case (execErr, env_reports env) of
           (None, Some r) \<Rightarrow>
             if task_TaskType t2 = TaskTypeReportGeneration
             then (let ((t3, action), w3) = resolveVersion env result t2 w2
                   in recordReport env r result t3 action s w3)
             else (let (e, s') = finishTask AuditActionSucceeded result t2 s in (e, s', w2))
         | (None, None) \<Rightarrow>
             (let (e, s') = finishTask AuditActionSucceeded result t2 s in (e, s', w2))
         | (Some _, _) \<Rightarrow>
             (let (e, s') = finishTask AuditActionFailed result t2 s in (e, s', w2)))"

fun processTasks ::
    "'w runnerEnv \<Rightarrow> task list \<Rightarrow> taskStore \<Rightarrow> 'w \<Rightarrow> workflowError option \<times> taskStore \<times> 'w" where
  "processTasks env [] s w = (None, s, w)"
| "processTasks env (t # ts) s w =
     (case processTask env t s w of
        (None, s', w') \<Rightarrow> processTasks env ts s' w'
      | (Some err, s', w') \<Rightarrow> (Some err, s', w'))"

definition ProcessNextBatch ::
    "'w runnerEnv \<Rightarrow> string list \<Rightarrow> int \<Rightarrow> taskStore \<Rightarrow> 'w
     \<Rightarrow> (workflowError + int) \<times> taskStore \<times> 'w" where
  "ProcessNextBatch env ks limit s w =
     (let (now, w1) = env_now env w;
          (tasks, s1) = ClaimQueuedTasks ks now limit s
      in case processTasks env tasks s1 w1 of
           (Some err, s2, w2) \<Rightarrow> (Inl err, s2, w2)
         | (None, s2, w2) \<Rightarrow> (Inr (int (length tasks)), s2, w2))"

subsection \<open>What one task execution does to the store\<close>

named_theorems worker \<open>the worker's field updates\<close>

text \<open>
  The documented behaviour of an atomic finalizer: on success it stores the task it was given
  and appends the event it was given; on an error the transaction is rolled back.
\<close>

definition finalizerOK :: "'w reportRecorder \<Rightarrow> bool" where
  "finalizerOK r \<longleftrightarrow>
     (\<forall>t result e s w. case rec_finalize r t result e s w of
        (None, s', _) \<Rightarrow> s' = snd (CreateTaskWithEvent t e s)
      | (Some _, s', _) \<Rightarrow> s' = s)"

definition envOK :: "'w runnerEnv \<Rightarrow> bool" where
  "envOK env \<longleftrightarrow>
     (case env_reports env of None \<Rightarrow> True | Some r \<Rightarrow> rec_atomic r \<longrightarrow> finalizerOK r)"

text \<open>What the worker may change of a task: the outcome fields, the clock and the version.\<close>

definition sameRequest :: "task \<Rightarrow> task \<Rightarrow> bool" where
  "sameRequest t t' \<longleftrightarrow>
     task_ID t' = task_ID t \<and> task_RequestID t' = task_RequestID t
   \<and> task_TenantID t' = task_TenantID t \<and> task_SessionID t' = task_SessionID t
   \<and> task_TaskType t' = task_TaskType t \<and> task_ToolName t' = task_ToolName t
   \<and> task_ToolArguments t' = task_ToolArguments t \<and> task_Reason t' = task_Reason t
   \<and> task_RequiresApproval t' = task_RequiresApproval t \<and> task_CreatedAt t' = task_CreatedAt t"

definition terminal :: "task \<Rightarrow> bool" where
  "terminal t \<longleftrightarrow> task_Status t = StatusSucceeded \<or> task_Status t = StatusFailed"

definition workerOutcome :: "task \<Rightarrow> taskStore \<Rightarrow> taskStore \<Rightarrow> bool" where
  "workerOutcome t s s' \<longleftrightarrow>
     (\<exists>t' e. sameRequest t t' \<and> terminal t' \<and> aev_TaskID e = task_ID t
        \<and> aev_Actor e = ''worker''
        \<and> (aev_Action e = AuditActionSucceeded \<or> aev_Action e = AuditActionFailed)
        \<and> s' = snd (CreateTaskWithEvent t' e s))"

lemma markFailed_fields [worker]:
  "task_ID (markFailed err result now t) = task_ID t"
  "task_Status (markFailed err result now t) = StatusFailed"
  "terminal (markFailed err result now t)"
  "sameRequest t0 t \<Longrightarrow> sameRequest t0 (markFailed err result now t)"
  by (auto simp: markFailed_def terminal_def sameRequest_def)

lemma workerEvent_fields [worker]:
  "aev_TaskID (workerEvent a result f t) = task_ID t"
  "aev_Action (workerEvent a result f t) = a"
  "aev_Actor (workerEvent a result f t) = ''worker''"
  by (simp_all add: workerEvent_def)

lemma sameRequest_ID [worker]: "sameRequest t t' \<Longrightarrow> task_ID t' = task_ID t"
  by (simp add: sameRequest_def)

lemma finishTask_outcome:
  assumes "ts_tasks s (task_ID t) = Some t0" "sameRequest t t'" "terminal t'"
    and "action = AuditActionSucceeded \<or> action = AuditActionFailed"
  shows "\<exists>s'. finishTask action result t' s = (None, s') \<and> workerOutcome t s s'"
proof -
  let ?e = "workerEvent action result (task_ErrorReason t') t'"
  have "ts_tasks s (task_ID t') = Some t0" using assms by (simp add: sameRequest_ID)
  then have "finishTask action result t' s = (None, snd (CreateTaskWithEvent t' ?e s))"
    by (simp add: finishTask_def UpdateTaskWithEvent_present CreateTaskWithEvent_def)
  moreover have "workerOutcome t s (snd (CreateTaskWithEvent t' ?e s))"
    unfolding workerOutcome_def
    using assms by (intro exI [of _ t'] exI [of _ ?e]) (auto simp: worker)
  ultimately show ?thesis by blast
qed

lemma resolveVersion_outcome:
  assumes "sameRequest t t2" "terminal t2" "task_Status t2 = StatusSucceeded"
    and "resolveVersion env result t2 w = ((t3, action), w3)"
  shows "sameRequest t t3" "terminal t3"
    "action = AuditActionSucceeded \<or> action = AuditActionFailed"
  using assms
  by (auto simp: resolveVersion_def terminal_def sameRequest_def markFailed_def
      split: if_splits option.splits prod.splits sum.splits)

lemma finalize_outcome:
  assumes "finalizerOK r" "rec_finalize r t3 result (workerEvent action result f t3) s w = (None, s', w1)"
    and "sameRequest t t3" "terminal t3"
    and "action = AuditActionSucceeded \<or> action = AuditActionFailed"
  shows "workerOutcome t s s'"
proof -
  let ?e = "workerEvent action result f t3"
  have "s' = snd (CreateTaskWithEvent t3 ?e s)"
    using assms(1) unfolding finalizerOK_def
    by (auto dest!: spec [of _ t3] spec [of _ result] spec [of _ ?e] spec [of _ s] spec [of _ w]
        simp: assms(2))
  with assms(3-5) show ?thesis
    unfolding workerOutcome_def
    by (intro exI [of _ t3] exI [of _ ?e]) (auto simp: worker)
qed

lemma recordReport_outcome:
  assumes present: "ts_tasks s (task_ID t) = Some t0"
    and ok: "rec_atomic r \<longrightarrow> finalizerOK r"
    and t3: "sameRequest t t3" "terminal t3" "action = AuditActionSucceeded \<or> action = AuditActionFailed"
  shows "\<exists>s' w'. recordReport env r result t3 action s w = (None, s', w') \<and> workerOutcome t s s'"
proof (cases "rec_atomic r")
  case True
  let ?e = "workerEvent AuditActionSucceeded result [] t3"
  obtain res s1 w1 where fin: "rec_finalize r t3 result ?e s w = (res, s1, w1)"
    by (cases "rec_finalize r t3 result ?e s w") auto
  show ?thesis
  proof (cases res)
    case None
    with fin ok True t3 have "workerOutcome t s s1"
      using finalize_outcome [of r t3 result AuditActionSucceeded "[]" s w s1 w1 t] by simp
    with fin None True show ?thesis by (simp add: recordReport_def)
  next
    case (Some err)
    have s1: "s1 = s"
      using ok True fin Some unfolding finalizerOK_def
      by (auto dest!: spec [of _ t3] spec [of _ result] spec [of _ ?e] spec [of _ s] spec [of _ w])
    obtain now w2 where now: "env_now env w1 = (now, w2)" by force
    obtain s2 where "finishTask AuditActionFailed result (markFailed err result now t3) s = (None, s2)"
      and "workerOutcome t s s2"
      using finishTask_outcome [OF present, of "markFailed err result now t3" AuditActionFailed result] t3
      by (auto simp: worker)
    with fin Some True now s1 show ?thesis by (simp add: recordReport_def)
  qed
next
  case False
  obtain res w1 where recd: "rec_record r t3 result w = (res, w1)" by force
  show ?thesis
  proof (cases res)
    case (Inl err)
    obtain now w2 where now: "env_now env w1 = (now, w2)" by force
    obtain s2 where "finishTask AuditActionFailed result (markFailed err result now t3) s = (None, s2)"
      and "workerOutcome t s s2"
      using finishTask_outcome [OF present, of "markFailed err result now t3" AuditActionFailed result] t3
      by (auto simp: worker)
    with recd Inl False now show ?thesis by (simp add: recordReport_def)
  next
    case (Inr x)
    obtain s2 where "finishTask action result t3 s = (None, s2)" "workerOutcome t s s2"
      using finishTask_outcome [OF present t3] by blast
    with recd Inr False show ?thesis by (simp add: recordReport_def)
  qed
qed

lemma processTask_outcome:
  assumes present: "ts_tasks s (task_ID t) = Some t0" and ok: "envOK env"
  shows "\<exists>s' w'. processTask env t s w = (None, s', w') \<and> workerOutcome t s s'"
proof -
  obtain result execErr w1 where exec: "env_execute env t w = ((result, execErr), w1)"
    by (metis surj_pair)
  obtain now w2 where now: "env_now env w1 = (now, w2)" by force
  show ?thesis
  proof (cases execErr)
    case (Some err)
    let ?t2 = "t\<lparr>task_Status := StatusFailed, task_ErrorReason := summarizeExecutionError err,
      task_AuditRef := fallbackAuditRef (er_AuditRef result) ''worker:placeholder_failed'',
      task_UpdatedAt := now\<rparr>"
    have "sameRequest t ?t2" "terminal ?t2" by (auto simp: sameRequest_def terminal_def)
    then obtain s' where "finishTask AuditActionFailed result ?t2 s = (None, s')" "workerOutcome t s s'"
      using finishTask_outcome [OF present] by blast
    then show ?thesis by (simp add: processTask_def exec now Some)
  next
    case None
    let ?t2 = "t\<lparr>task_Status := StatusSucceeded, task_ErrorReason := [],
      task_AuditRef := fallbackAuditRef (er_AuditRef result) ''worker:placeholder_succeeded'',
      task_UpdatedAt := now\<rparr>"
    have t2: "sameRequest t ?t2" "terminal ?t2" by (auto simp: sameRequest_def terminal_def)
    then obtain s' where plain: "finishTask AuditActionSucceeded result ?t2 s = (None, s')"
      "workerOutcome t s s'"
      using finishTask_outcome [OF present] by blast
    show ?thesis
    proof (cases "env_reports env")
      case none: None
      with plain show ?thesis by (simp add: processTask_def exec now None)
    next
      case (Some r)
      obtain t3 action w3 where rv: "resolveVersion env result ?t2 w2 = ((t3, action), w3)"
        by (metis surj_pair)
      then have t3: "sameRequest t t3" "terminal t3"
        "action = AuditActionSucceeded \<or> action = AuditActionFailed"
        using resolveVersion_outcome [OF t2 _ rv] by simp_all
      have "rec_atomic r \<longrightarrow> finalizerOK r" using ok Some by (simp add: envOK_def)
      from recordReport_outcome [OF present this t3, of env result w3] obtain s' w' where
        "recordReport env r result t3 action s w3 = (None, s', w')" "workerOutcome t s s'" by blast
      with plain show ?thesis
        by (cases "task_TaskType t = TaskTypeReportGeneration")
          (simp_all add: processTask_def exec now None Some rv Let_def)
    qed
  qed
qed

lemma workerOutcome_store:
  "workerOutcome t s s' \<Longrightarrow> taskStoreOK s \<Longrightarrow> taskStoreOK s'"
  "workerOutcome t s s' \<Longrightarrow> k \<noteq> task_ID t \<Longrightarrow>
     ts_tasks s' k = ts_tasks s k \<and> ListTaskEvents k s' = ListTaskEvents k s"
  "workerOutcome t s s' \<Longrightarrow>
     \<exists>t' e. ts_tasks s' (task_ID t) = Some t' \<and> sameRequest t t' \<and> terminal t'
       \<and> ListTaskEvents (task_ID t) s' = ListTaskEvents (task_ID t) s @ [e]
       \<and> (aev_Action e = AuditActionSucceeded \<or> aev_Action e = AuditActionFailed)"
proof -
  assume "workerOutcome t s s'"
  then obtain t' e where *: "sameRequest t t'" "terminal t'" "aev_TaskID e = task_ID t"
    "aev_Action e = AuditActionSucceeded \<or> aev_Action e = AuditActionFailed"
    "s' = snd (CreateTaskWithEvent t' e s)" by (auto simp: workerOutcome_def)
  show "taskStoreOK s \<Longrightarrow> taskStoreOK s'" using * by auto
  show "k \<noteq> task_ID t \<Longrightarrow>
     ts_tasks s' k = ts_tasks s k \<and> ListTaskEvents k s' = ListTaskEvents k s"
    using * by (simp add: CreateTaskWithEvent_def ListTaskEvents_log sameRequest_ID)
  show "\<exists>t' e. ts_tasks s' (task_ID t) = Some t' \<and> sameRequest t t' \<and> terminal t'
       \<and> ListTaskEvents (task_ID t) s' = ListTaskEvents (task_ID t) s @ [e]
       \<and> (aev_Action e = AuditActionSucceeded \<or> aev_Action e = AuditActionFailed)"
    using * by (simp add: CreateTaskWithEvent_def ListTaskEvents_log sameRequest_ID)
qed

lemma processTasks_outcome:
  assumes "envOK env" "distinct (map task_ID ts)" "\<forall>t \<in> set ts. ts_tasks s (task_ID t) \<noteq> None"
  shows "\<exists>s' w'. processTasks env ts s w = (None, s', w')
    \<and> (\<forall>t \<in> set ts. \<exists>t' e. ts_tasks s' (task_ID t) = Some t' \<and> sameRequest t t' \<and> terminal t'
       \<and> ListTaskEvents (task_ID t) s' = ListTaskEvents (task_ID t) s @ [e]
       \<and> (aev_Action e = AuditActionSucceeded \<or> aev_Action e = AuditActionFailed))
    \<and> (\<forall>k. k \<notin> task_ID ` set ts \<longrightarrow>
         ts_tasks s' k = ts_tasks s k \<and> ListTaskEvents k s' = ListTaskEvents k s)"
  using assms(2,3)
proof (induction ts arbitrary: s w)
  case Nil
  then show ?case by simp
next
  case (Cons t ts)
  from Cons.prems obtain t0 where "ts_tasks s (task_ID t) = Some t0" by auto
  then obtain s1 w1 where one: "processTask env t s w = (None, s1, w1)" "workerOutcome t s s1"
    using processTask_outcome [OF _ assms(1)] by blast
  note st = workerOutcome_store [OF one(2)]
  have new: "task_ID t \<notin> task_ID ` set ts" "distinct (map task_ID ts)" using Cons.prems by auto
  have other: "task_ID u \<noteq> task_ID t" if "u \<in> set ts" for u using new(1) that by (metis image_eqI)
  have "\<forall>u \<in> set ts. ts_tasks s1 (task_ID u) \<noteq> None"
    using Cons.prems(2) st(2) other by simp
  from Cons.IH [OF new(2) this, of w1] obtain s2 w2 where
    two: "processTasks env ts s1 w1 = (None, s2, w2)"
    and ended: "\<forall>u \<in> set ts. \<exists>t' e. ts_tasks s2 (task_ID u) = Some t' \<and> sameRequest u t'
       \<and> terminal t' \<and> ListTaskEvents (task_ID u) s2 = ListTaskEvents (task_ID u) s1 @ [e]
       \<and> (aev_Action e = AuditActionSucceeded \<or> aev_Action e = AuditActionFailed)"
    and rest: "\<forall>k. k \<notin> task_ID ` set ts \<longrightarrow>
         ts_tasks s2 k = ts_tasks s1 k \<and> ListTaskEvents k s2 = ListTaskEvents k s1" by blast
  have here: "\<exists>t' e. ts_tasks s2 (task_ID t) = Some t' \<and> sameRequest t t' \<and> terminal t'
       \<and> ListTaskEvents (task_ID t) s2 = ListTaskEvents (task_ID t) s @ [e]
       \<and> (aev_Action e = AuditActionSucceeded \<or> aev_Action e = AuditActionFailed)"
    using st(3) rest new(1) by simp
  have ended': "\<forall>u \<in> set ts. \<exists>t' e. ts_tasks s2 (task_ID u) = Some t' \<and> sameRequest u t'
       \<and> terminal t' \<and> ListTaskEvents (task_ID u) s2 = ListTaskEvents (task_ID u) s @ [e]
       \<and> (aev_Action e = AuditActionSucceeded \<or> aev_Action e = AuditActionFailed)"
    using ended st(2) other by simp
  have "\<forall>k. k \<notin> task_ID ` set (t # ts) \<longrightarrow>
         ts_tasks s2 k = ts_tasks s k \<and> ListTaskEvents k s2 = ListTaskEvents k s"
    using rest st(2) by simp
  with one(1) two here ended' show ?case by simp
qed

text \<open>
  C12: A batch never fails on the memory store and leaves no claimed task behind: it returns the
  number of claimed tasks, each of them ends as succeeded or failed with its request fields
  untouched and exactly one claimed and one outcome event appended, and no other task or event
  log changes.
\<close>

theorem ProcessNextBatch_completes:
  assumes "taskStoreOK s" "iterOrder (ts_tasks s) ks" "0 < limit" "envOK env"
    and "env_now env w = (now, w1)"
  shows "\<exists>s' w'. ProcessNextBatch env ks limit s w
      = (Inr (int (length (fst (ClaimQueuedTasks ks now limit s)))), s', w')
    \<and> (\<forall>c \<in> set (fst (ClaimQueuedTasks ks now limit s)).
         \<exists>t e1 e2. ts_tasks s' (task_ID c) = Some t \<and> sameRequest c t \<and> terminal t
           \<and> ListTaskEvents (task_ID c) s' = ListTaskEvents (task_ID c) s @ [e1, e2]
           \<and> aev_Action e1 = AuditActionClaimed
           \<and> (aev_Action e2 = AuditActionSucceeded \<or> aev_Action e2 = AuditActionFailed))
    \<and> (\<forall>k. k \<notin> task_ID ` set (fst (ClaimQueuedTasks ks now limit s)) \<longrightarrow>
         ts_tasks s' k = ts_tasks s k \<and> ListTaskEvents k s' = ListTaskEvents k s)"
proof -
  obtain claimed s1 where claim: "ClaimQueuedTasks ks now limit s = (claimed, s1)" by force
  note eq = ClaimQueuedTasks_eq [OF assms(3) claim]
  have keyed: "keyedBy task_ID (ts_tasks s)" using assms(1) by (rule taskStoreOK_keyed)
  have dist: "distinct (map task_ID claimed)"
    using distinct_queuedTasks [OF assms(2) keyed assms(3)] eq(3) by simp
  have held: "ts_tasks s1 (task_ID c) = Some c" if "c \<in> set claimed" for c
    using fold_claimOne_task [OF dist, of now s "task_ID c"] find_ident_once [OF dist that] eq(2)
    by simp
  have away: "ts_tasks s1 k = ts_tasks s k" if "k \<notin> task_ID ` set claimed" for k
    using fold_claimOne_task [OF dist, of now s k] find_ident_none [OF that] eq(2) by simp
  have ev: "\<exists>e. ListTaskEvents (task_ID c) s1 = ListTaskEvents (task_ID c) s @ [e]
      \<and> aev_Action e = AuditActionClaimed" if "c \<in> set claimed" for c
    using claim_events(1) [OF dist that] eq(2) by simp
  have ev': "ListTaskEvents k s1 = ListTaskEvents k s" if "k \<notin> task_ID ` set claimed" for k
    using claim_events(2) [OF dist that] eq(2) by simp
  have "\<forall>t \<in> set claimed. ts_tasks s1 (task_ID t) \<noteq> None" using held by simp
  from processTasks_outcome [OF assms(4) dist this, of w1] obtain s2 w2 where
    run: "processTasks env claimed s1 w1 = (None, s2, w2)"
    and ended: "\<forall>t \<in> set claimed. \<exists>t' e. ts_tasks s2 (task_ID t) = Some t' \<and> sameRequest t t'
       \<and> terminal t' \<and> ListTaskEvents (task_ID t) s2 = ListTaskEvents (task_ID t) s1 @ [e]
       \<and> (aev_Action e = AuditActionSucceeded \<or> aev_Action e = AuditActionFailed)"
    and rest: "\<forall>k. k \<notin> task_ID ` set claimed \<longrightarrow>
         ts_tasks s2 k = ts_tasks s1 k \<and> ListTaskEvents k s2 = ListTaskEvents k s1" by blast
  have "\<exists>t e1 e2. ts_tasks s2 (task_ID c) = Some t \<and> sameRequest c t \<and> terminal t
           \<and> ListTaskEvents (task_ID c) s2 = ListTaskEvents (task_ID c) s @ [e1, e2]
           \<and> aev_Action e1 = AuditActionClaimed
           \<and> (aev_Action e2 = AuditActionSucceeded \<or> aev_Action e2 = AuditActionFailed)"
    if "c \<in> set claimed" for c
    using ev [OF that] ended that by fastforce
  then show ?thesis
    using assms(5) claim run rest away ev' by (simp add: ProcessNextBatch_def)
qed

subsection \<open>A version source that fails\<close>

text \<open>
  When a report task without a version is executed and the version source fails, the runner
  has already marked the task as failed, yet it still hands it to the atomic finalizer with the
  success event: the task ends as failed while its event log says it succeeded.
\<close>

theorem version_failure_logged_as_success:
  assumes "env_execute env t w = ((result, None), w1)"
    and "task_TaskType t = TaskTypeReportGeneration" "task_VersionID t = []"
    and "env_version env = Some current" "\<forall>w. \<exists>err w'. current w = (Inl err, w')"
    and "env_reports env = Some r" "rec_atomic r" "finalizerOK r"
    and "\<forall>t result e s w. fst (rec_finalize r t result e s w) = None"
  shows "\<exists>s' w' t' e. processTask env t s w = (None, s', w')
    \<and> ts_tasks s' (task_ID t) = Some t' \<and> task_Status t' = StatusFailed
    \<and> ListTaskEvents (task_ID t) s' = ListTaskEvents (task_ID t) s @ [e]
    \<and> aev_Action e = AuditActionSucceeded"
proof -
  obtain now w2 where now: "env_now env w1 = (now, w2)" by force
  obtain err w3 where cur: "current w2 = (Inl err, w3)" using assms(5) by blast
  obtain now' w4 where now': "env_now env w3 = (now', w4)" by force
  let ?t2 = "t\<lparr>task_Status := StatusSucceeded, task_ErrorReason := [],
      task_AuditRef := fallbackAuditRef (er_AuditRef result) ''worker:placeholder_succeeded'',
      task_UpdatedAt := now\<rparr>"
  let ?t3 = "markFailed err result now' ?t2"
  let ?e = "workerEvent AuditActionSucceeded result [] ?t3"
  obtain x s' w5 where fin: "rec_finalize r ?t3 result ?e s w4 = (x, s', w5)"
    by (cases "rec_finalize r ?t3 result ?e s w4") auto
  have x: "x = None" using assms(9) fin by (metis fst_conv)
  have s': "s' = snd (CreateTaskWithEvent ?t3 ?e s)"
    using assms(8) unfolding finalizerOK_def
    by (auto dest!: spec [of _ ?t3] spec [of _ result] spec [of _ ?e] spec [of _ s] spec [of _ w4]
        simp: fin x)
  have "resolveVersion env result ?t2 w2 = ((?t3, AuditActionFailed), w4)"
    using assms(3,4) cur now' by (simp add: resolveVersion_def)
  then have "processTask env t s w = (None, s', w5)"
    using assms(1,2,6,7) now fin x by (simp add: processTask_def recordReport_def Let_def)
  moreover have "ts_tasks s' (task_ID t) = Some ?t3"
    by (simp add: s' CreateTaskWithEvent_def worker)
  moreover have "ListTaskEvents (task_ID t) s'
      = ListTaskEvents (task_ID t) s @ [?e\<lparr>aev_ID := ts_nextEventID s + 1\<rparr>]"
    by (simp add: s' CreateTaskWithEvent_def ListTaskEvents_log worker)
  ultimately show ?thesis by (auto simp: worker)
qed

text \<open>An environment for the concrete instances: the world is the clock.\<close>

definition demoRecorder :: "time reportRecorder" where
  "demoRecorder =
     \<lparr>rec_atomic = True, rec_record = (\<lambda>t result w. (Inr ''report'', w)),
      rec_finalize = (\<lambda>t result e s w. (None, snd (CreateTaskWithEvent t e s), w))\<rparr>"

definition demoEnv :: "time runnerEnv" where
  "demoEnv =
     \<lparr>env_now = (\<lambda>w. (w, w + 1)), env_execute = PlaceholderExecute,
      env_version = Some (\<lambda>w. (Inl ''version store down'', w)), env_reports = Some demoRecorder\<rparr>"

lemma demoEnv_ok [simp]: "finalizerOK demoRecorder" "envOK demoEnv"
  by (simp_all add: finalizerOK_def demoRecorder_def envOK_def demoEnv_def)

lemma ProcessNextBatch_completes_witness:
  "\<exists>s' w'. ProcessNextBatch demoEnv [''b'', ''c'', ''a''] 5 demoStore 9 = (Inr 2, s', w')
     \<and> ts_tasks s' ''c'' = Some (demoTask ''c'' StatusFailed 1)"
proof -
  have claimed: "map task_ID (fst (ClaimQueuedTasks [''b'', ''c'', ''a''] 9 5 demoStore)) = [''b'', ''a'']"
    by (simp add: ClaimQueuedTasks_def queuedTasks_def goSort_def demoStore_def demoTask_def)
  then have "length (fst (ClaimQueuedTasks [''b'', ''c'', ''a''] 9 5 demoStore)) = 2"
    by (metis length_map length_Cons list.size(3) numeral_2_eq_2)
  moreover have "''c'' \<notin> task_ID ` set (fst (ClaimQueuedTasks [''b'', ''c'', ''a''] 9 5 demoStore))"
    using arg_cong [OF claimed, of set] by simp
  moreover have "ts_tasks demoStore ''c'' = Some (demoTask ''c'' StatusFailed 1)"
    by (simp add: demoStore_def)
  ultimately show ?thesis
    using ProcessNextBatch_completes [of demoStore "[''b'', ''c'', ''a'']" 5 demoEnv 9 9 10]
    by (auto simp: demoEnv_def [THEN arg_cong, of env_now])
qed

lemma version_failure_logged_as_success_witness:
  "\<exists>s' w' t' e. processTask demoEnv (demoTask ''a'' StatusRunning 7) demoStore 9 = (None, s', w')
    \<and> ts_tasks s' ''a'' = Some t' \<and> task_Status t' = StatusFailed
    \<and> ListTaskEvents ''a'' s' = [e] \<and> aev_Action e = AuditActionSucceeded"
  using version_failure_logged_as_success
    [of demoEnv "demoTask ''a'' StatusRunning 7" 9
      "\<lparr>er_AuditRef = ''worker:placeholder_report_generation'',
        er_Detail = ''report_generation completed''\<rparr>" 9 "\<lambda>w. (Inl ''version store down'', w)"
      demoRecorder demoStore] demoEnv_ok(1)
  by (simp add: demoEnv_def demoTask_def PlaceholderExecute_def demoRecorder_def demoStore_def
      ListTaskEvents_def)

end
