(* ===== verification/Workflow_Safety.thy ===== *)
theory Workflow_Safety
  imports Workflow_Runner
begin

text \<open>
  The API handlers and the workers as one transition system over the shared task store.

  A step is a whole call: a promotion, an approval, a retry, a claim by a worker, or the end of the
  execution of one claimed task.  Between a claim and the end of an execution any other step may
  come in; the copies the workers hold in the meantime are \<open>sy_inflight\<close>.  A promotion, an approval
  and a retry are atomic here, although the code reads and writes in two transactions:
  \<open>Workflow_Races\<close> takes them apart and shows what is left when such calls overlap.
  Invariants are proved by rule induction over the reachable states.
\<close>

record wfSystem =
  sy_svc :: workflowService
  sy_inflight :: "task list"

abbreviation sy_store :: "wfSystem \<Rightarrow> taskStore" where
  "sy_store y \<equiv> ws_store (sy_svc y)"

definition initSystem :: wfSystem where
  "initSystem = \<lparr>sy_svc = \<lparr>ws_store = NewMemoryStore, ws_seq = 0\<rparr>, sy_inflight = []\<rparr>"

definition withStore :: "taskStore \<Rightarrow> wfSystem \<Rightarrow> wfSystem" where
  "withStore st y = y\<lparr>sy_svc := (sy_svc y)\<lparr>ws_store := st\<rparr>\<rparr>"

definition neverFails :: "(task \<Rightarrow> string option) option \<Rightarrow> bool" where
  "neverFails starter \<longleftrightarrow> (case starter of None \<Rightarrow> True | Some f \<Rightarrow> \<forall>t. f t = None)"

text \<open>\<open>mayFail\<close> says whether the external start of an approval workflow can fail.\<close>

inductive wfStep :: "'w runnerEnv \<Rightarrow> bool \<Rightarrow> wfSystem \<Rightarrow> wfSystem \<Rightarrow> bool"
  for env :: "'w runnerEnv" and mayFail :: bool where
  promote: "\<lbrakk>Promote version starter now later req (sy_svc y) = (r, svc');
      mayFail \<or> neverFails starter; ws_seq (sy_svc y) < - 1\<rbrakk>
    \<Longrightarrow> wfStep env mayFail y (y\<lparr>sy_svc := svc'\<rparr>)"
| approve: "ApproveTask now i who (sy_store y) = (r, st)
    \<Longrightarrow> wfStep env mayFail y (withStore st y)"
| retry: "RetryTask now i who (sy_store y) = (r, st)
    \<Longrightarrow> wfStep env mayFail y (withStore st y)"
| claim: "\<lbrakk>iterOrder (ts_tasks (sy_store y)) ks;
      ClaimQueuedTasks ks now limit (sy_store y) = (claimed, st)\<rbrakk>
    \<Longrightarrow> wfStep env mayFail y ((withStore st y)\<lparr>sy_inflight := sy_inflight y @ claimed\<rparr>)"
| finish: "\<lbrakk>t \<in> set (sy_inflight y); processTask env t (sy_store y) w = (r, st, w')\<rbrakk>
    \<Longrightarrow> wfStep env mayFail y ((withStore st y)\<lparr>sy_inflight := remove1 t (sy_inflight y)\<rparr>)"

inductive wfReach :: "'w runnerEnv \<Rightarrow> bool \<Rightarrow> wfSystem \<Rightarrow> bool"
  for env :: "'w runnerEnv" and mayFail :: bool where
  start: "wfReach env mayFail initSystem"
| step: "wfReach env mayFail y \<Longrightarrow> wfStep env mayFail y y' \<Longrightarrow> wfReach env mayFail y'"

subsection \<open>Changing one task\<close>

text \<open>
  Every transaction but the claim writes one task and appends one event to its log.
\<close>

definition writes :: "task \<Rightarrow> auditEvent \<Rightarrow> taskStore \<Rightarrow> taskStore \<Rightarrow> bool" where
  "writes t e s s' \<longleftrightarrow> aev_TaskID e = task_ID t \<and> s' = snd (CreateTaskWithEvent t e s)"

lemma writes_store [worker]:
  assumes "writes t e s s'"
  shows "ts_tasks s' k = (if k = task_ID t then Some t else ts_tasks s k)"
    and "ListTaskEvents k s' = ListTaskEvents k s
      @ (if k = task_ID t then [e\<lparr>aev_ID := ts_nextEventID s + 1\<rparr>] else [])"
  using assms by (auto simp: writes_def CreateTaskWithEvent_def ListTaskEvents_log)

lemma writes_ok: "writes t e s s' \<Longrightarrow> taskStoreOK s \<Longrightarrow> taskStoreOK s'"
  by (auto simp: writes_def)

lemma ApproveTask_store:
  assumes "ApproveTask now i who s = (r, s')" "taskStoreOK s"
  shows "s' = s \<and> (\<forall>x. r \<noteq> Inr x) \<or>
    (\<exists>t e. ts_tasks s i = Some t \<and> task_Status t = StatusWaitingApproval
      \<and> writes (t\<lparr>task_Status := StatusQueued, task_ErrorReason := [],
                   task_AuditRef := ''approval:'' @ who, task_UpdatedAt := now\<rparr>) e s s'
      \<and> aev_Action e = AuditActionApproved \<and> aev_Actor e = who)"
proof (cases "ts_tasks s i")
  case None
  with assms(1) show ?thesis by (auto simp: ApproveTask_def GetTask_def)
next
  case (Some t)
  then have "task_ID t = i" using assms(2) taskStoreOK_keyed keyedByD by metis
  show ?thesis
  proof (cases "task_Status t = StatusWaitingApproval")
    case True
    let ?t' = "t\<lparr>task_Status := StatusQueued, task_ErrorReason := [],
      task_AuditRef := ''approval:'' @ who, task_UpdatedAt := now\<rparr>"
    let ?e = "\<lparr>aev_ID = 0, aev_TaskID = task_ID ?t', aev_Action = AuditActionApproved,
      aev_Actor = who, aev_Detail = task_Status ?t', aev_CreatedAt = task_UpdatedAt ?t'\<rparr>"
    have "ts_tasks s (task_ID ?t') = Some t" using Some \<open>task_ID t = i\<close> by simp
    with assms(1) Some True have "s' = snd (CreateTaskWithEvent ?t' ?e s)"
      by (simp add: ApproveTask_def GetTask_def UpdateTaskWithEvent_present CreateTaskWithEvent_def)
    with Some True show ?thesis
      by (intro disjI2 exI [of _ t] exI [of _ ?e]) (simp add: writes_def)
  next
    case False
    with Some assms(1) show ?thesis by (auto simp: ApproveTask_def GetTask_def)
  qed
qed

lemma RetryTask_store:
  assumes "RetryTask now i who s = (r, s')" "taskStoreOK s"
  shows "s' = s \<and> (\<forall>x. r \<noteq> Inr x) \<or>
    (\<exists>t e. ts_tasks s i = Some t \<and> task_Status t = StatusFailed
      \<and> writes (t\<lparr>task_Status := StatusQueued, task_ErrorReason := [],
                   task_AuditRef := ''retry:'' @ who, task_UpdatedAt := now\<rparr>) e s s'
      \<and> aev_Action e = AuditActionRetried \<and> aev_Actor e = who)"
proof (cases "ts_tasks s i")
  case None
  with assms(1) show ?thesis by (auto simp: RetryTask_def GetTask_def)
next
  case (Some t)
  then have "task_ID t = i" using assms(2) taskStoreOK_keyed keyedByD by metis
  show ?thesis
  proof (cases "task_Status t = StatusFailed")
    case True
    let ?t' = "t\<lparr>task_Status := StatusQueued, task_ErrorReason := [],
      task_AuditRef := ''retry:'' @ who, task_UpdatedAt := now\<rparr>"
    let ?e = "\<lparr>aev_ID = 0, aev_TaskID = task_ID ?t', aev_Action = AuditActionRetried,
      aev_Actor = who, aev_Detail = task_Status ?t', aev_CreatedAt = task_UpdatedAt ?t'\<rparr>"
    have "ts_tasks s (task_ID ?t') = Some t" using Some \<open>task_ID t = i\<close> by simp
    with assms(1) Some True have "s' = snd (CreateTaskWithEvent ?t' ?e s)"
      by (simp add: RetryTask_def GetTask_def UpdateTaskWithEvent_present CreateTaskWithEvent_def)
    with Some True show ?thesis
      by (intro disjI2 exI [of _ t] exI [of _ ?e]) (simp add: writes_def)
  next
    case False
    with Some assms(1) show ?thesis by (auto simp: RetryTask_def GetTask_def)
  qed
qed

lemma promoted_fields [worker]:
  "task_ID (promotedTask v now n req) = newTaskID now n"
  "task_RequiresApproval (promotedTask v now n req) = prq_RequiresApproval req"
  "task_Status (promotedTask v now n req) =
     (if prq_RequiresApproval req then StatusWaitingApproval else StatusQueued)"
  "aev_TaskID (createdEvent t) = task_ID t" "aev_Action (createdEvent t) = AuditActionCreated"
  "task_ID (startFailedTask err later t) = task_ID t"
  "task_Status (startFailedTask err later t) = StatusFailed"
  "task_RequiresApproval (startFailedTask err later t) = task_RequiresApproval t"
  "aev_TaskID (startFailedEvent t) = task_ID t"
  "aev_Action (startFailedEvent t) = AuditActionFailed"
  "aev_Actor (startFailedEvent t) = ''api''"
  by (simp_all add: promotedTask_def createdEvent_def startFailedTask_def startFailedEvent_def)

lemma Promote_store:
  assumes "Promote version starter now later req svc = (r, svc')"
  shows "svc' = svc \<or>
    (ws_seq svc' = ws_seq svc + 1 \<and>
     (\<exists>t e s1. task_ID t = newTaskID now (ws_seq svc + 1)
        \<and> task_Status t = (if task_RequiresApproval t then StatusWaitingApproval else StatusQueued)
        \<and> writes t e (ws_store svc) s1 \<and> aev_Action e = AuditActionCreated
        \<and> (ws_store svc' = s1 \<or>
           (\<not> neverFails starter \<and> task_RequiresApproval t \<and>
            (\<exists>err e'. writes (startFailedTask err later t) e' s1 (ws_store svc')
               \<and> aev_Action e' = AuditActionFailed \<and> aev_Actor e' = ''api'')))))"
proof (cases "\<exists>err. version = Some (Inl err)")
  case True
  with assms show ?thesis by (auto simp: Promote_def)
next
  case False
  define t where "t = promotedTask (case version of Some (Inr v) \<Rightarrow> v | _ \<Rightarrow> []) now (ws_seq svc + 1) req"
  define s1 where "s1 = snd (CreateTaskWithEvent t (createdEvent t) (ws_store svc))"
  define startErr where "startErr = (if shouldStartTaskOnPromote t
    then (case starter of None \<Rightarrow> None | Some start \<Rightarrow> start t) else None)"
  have create: "writes t (createdEvent t) (ws_store svc) s1" "ts_tasks s1 (task_ID t) = Some t"
    by (simp_all add: writes_def s1_def CreateTaskWithEvent_def worker)
  have fields: "task_ID t = newTaskID now (ws_seq svc + 1)"
    "task_Status t = (if task_RequiresApproval t then StatusWaitingApproval else StatusQueued)"
    by (simp_all add: t_def worker)
  have "Promote version starter now later req svc = (case startErr of
       None \<Rightarrow> (Inr t, \<lparr>ws_store = s1, ws_seq = ws_seq svc + 1\<rparr>)
     | Some err \<Rightarrow> (let failed = startFailedTask err later t;
                        (r, s2) = UpdateTaskWithEvent failed (startFailedEvent failed) s1
                    in (r, \<lparr>ws_store = s2, ws_seq = ws_seq svc + 1\<rparr>)))"
  proof (cases version)
    case None
    show ?thesis unfolding startErr_def s1_def t_def None
      by (simp add: Promote_def CreateTaskWithEvent_def Let_def cong: option.case_cong)
  next
    case (Some v)
    with False obtain x where "v = Inr x" by (cases v) auto
    with Some have v: "version = Some (Inr x)" by simp
    show ?thesis unfolding startErr_def s1_def t_def v
      by (simp add: Promote_def CreateTaskWithEvent_def Let_def cong: option.case_cong)
  qed
  note run = this [unfolded assms]
  show ?thesis
  proof (cases startErr)
    case None
    with run create(1) fields show ?thesis
      by - (rule disjI2, intro conjI exI [of _ t] exI [of _ "createdEvent t"] exI [of _ s1] disjI1,
          simp_all add: worker)
  next
    case (Some err)
    let ?f = "startFailedTask err later t"
    have "ts_tasks s1 (task_ID ?f) = Some t" using create(2) by (simp add: worker)
    with run Some have svc': "svc' = \<lparr>ws_store = snd (CreateTaskWithEvent ?f (startFailedEvent ?f) s1),
        ws_seq = ws_seq svc + 1\<rparr>"
      by (simp add: UpdateTaskWithEvent_present CreateTaskWithEvent_def Let_def)
    have "\<not> neverFails starter" "task_RequiresApproval t"
      using Some by (auto simp: startErr_def neverFails_def shouldStartTaskOnPromote_def
          split: option.splits if_splits)
    with create(1) fields svc' show ?thesis
      by (intro disjI2 conjI exI [of _ t] exI [of _ "createdEvent t"] exI [of _ s1] exI [of _ err]
          exI [of _ "startFailedEvent ?f"]) (simp_all add: worker writes_def)
  qed
qed

subsection \<open>The invariant\<close>

definition legalStatus :: "string \<Rightarrow> bool" where
  "legalStatus st \<longleftrightarrow>
     st \<in> {StatusQueued, StatusRunning, StatusSucceeded, StatusFailed, StatusWaitingApproval}"

definition approvedIn :: "auditEvent list \<Rightarrow> bool" where
  "approvedIn es \<longleftrightarrow> (\<exists>e \<in> set es. aev_Action e = AuditActionApproved)"

definition startFailedIn :: "auditEvent list \<Rightarrow> bool" where
  "startFailedIn es \<longleftrightarrow>
     (\<exists>e \<in> set es. aev_Action e = AuditActionFailed \<and> aev_Actor e = ''api'')"

text \<open>A task that needs approval has left \<open>waiting_approval\<close> by an approval or by a failed start.\<close>

definition taskOK :: "bool \<Rightarrow> taskStore \<Rightarrow> task \<Rightarrow> bool" where
  "taskOK mayFail s t \<longleftrightarrow>
     legalStatus (task_Status t)
   \<and> (\<exists>e es. ListTaskEvents (task_ID t) s = e # es \<and> aev_Action e = AuditActionCreated)
   \<and> (task_RequiresApproval t \<and> task_Status t \<noteq> StatusWaitingApproval \<longrightarrow>
        approvedIn (ListTaskEvents (task_ID t) s)
        \<or> mayFail \<and> startFailedIn (ListTaskEvents (task_ID t) s))"

definition drawnUpTo :: "u64 \<Rightarrow> string \<Rightarrow> bool" where
  "drawnUpTo n k \<longleftrightarrow> (\<exists>t w. k = newTaskID t w \<and> w \<le> n)"

definition wfInv :: "bool \<Rightarrow> wfSystem \<Rightarrow> bool" where
  "wfInv mayFail y \<longleftrightarrow>
     taskStoreOK (sy_store y)
   \<and> (\<forall>k \<in> dom (ts_tasks (sy_store y)). drawnUpTo (ws_seq (sy_svc y)) k)
   \<and> (\<forall>k. k \<notin> dom (ts_tasks (sy_store y)) \<longrightarrow> ListTaskEvents k (sy_store y) = [])
   \<and> (\<forall>k t. ts_tasks (sy_store y) k = Some t \<longrightarrow> taskOK mayFail (sy_store y) t)
   \<and> distinct (map task_ID (sy_inflight y))
   \<and> (\<forall>t. t \<in> set (sy_inflight y) \<longleftrightarrow>
          ts_tasks (sy_store y) (task_ID t) = Some t \<and> task_Status t = StatusRunning)"

lemma wfInvD:
  assumes "wfInv mayFail y"
  shows "taskStoreOK (sy_store y)"
    and "k \<in> dom (ts_tasks (sy_store y)) \<Longrightarrow> drawnUpTo (ws_seq (sy_svc y)) k"
    and "k \<notin> dom (ts_tasks (sy_store y)) \<Longrightarrow> ListTaskEvents k (sy_store y) = []"
    and "ts_tasks (sy_store y) k = Some t \<Longrightarrow> taskOK mayFail (sy_store y) t"
    and "distinct (map task_ID (sy_inflight y))"
    and "t \<in> set (sy_inflight y) \<longleftrightarrow>
          ts_tasks (sy_store y) (task_ID t) = Some t \<and> task_Status t = StatusRunning"
  using assms unfolding wfInv_def by blast+

lemma wfInv_init: "wfInv mayFail initSystem"
  by (simp add: wfInv_def initSystem_def NewMemoryStore_def ListTaskEvents_def taskStoreOK_def
      numbered_def)

lemma approvedIn_append [simp]: "approvedIn (xs @ ys) \<longleftrightarrow> approvedIn xs \<or> approvedIn ys"
  by (auto simp: approvedIn_def)

lemma startFailedIn_append [simp]: "startFailedIn (xs @ ys) \<longleftrightarrow> startFailedIn xs \<or> startFailedIn ys"
  by (auto simp: startFailedIn_def)

lemma taskOK_cong:
  "taskOK mf s t \<Longrightarrow> ListTaskEvents (task_ID t) s' = ListTaskEvents (task_ID t) s \<Longrightarrow> taskOK mf s' t"
  by (simp add: taskOK_def)

text \<open>Rewriting one stored task that is not in flight, and that does not become running.\<close>

lemma wfInv_rewrite:
  assumes inv: "wfInv mf y" and old: "ts_tasks (sy_store y) (task_ID t') = Some t"
    and quiet: "task_Status t \<noteq> StatusRunning" "task_Status t' \<noteq> StatusRunning"
    and w: "writes t' e (sy_store y) st" and ok: "taskOK mf st t'"
  shows "wfInv mf (withStore st y)"
proof -
  note d = wfInvD [OF inv]
  note w1 = writes_store [OF w]
  have k: "taskOK mf st u" if "ts_tasks st k = Some u" for k u
  proof (cases "k = task_ID t'")
    case True
    with that w1 ok show ?thesis by simp
  next
    case False
    with that w1 have u: "ts_tasks (sy_store y) k = Some u" by simp
    then have "task_ID u = k" using d(1) taskStoreOK_keyed keyedByD by metis
    with False have "ListTaskEvents (task_ID u) st = ListTaskEvents (task_ID u) (sy_store y)"
      by (simp add: w1)
    with d(4) [OF u] show ?thesis by (rule taskOK_cong)
  qed
  have fl: "u \<in> set (sy_inflight y) \<longleftrightarrow> ts_tasks st (task_ID u) = Some u
      \<and> task_Status u = StatusRunning" for u
    using d(6) [of u] quiet old by (auto simp: w1)
  have dom: "dom (ts_tasks st) = dom (ts_tasks (sy_store y))" using old by (auto simp: w1 dom_def)
  show ?thesis
    unfolding wfInv_def withStore_def
    using writes_ok [OF w d(1)] d(2,3,5) k fl old by (auto simp: dom w1)
qed

lemma taskOK_requeued:
  assumes "taskOK mf s t" "writes t' e s s'" "sameRequest t t'" "legalStatus (task_Status t')"
    and "task_Status t \<noteq> StatusWaitingApproval \<or> aev_Action e = AuditActionApproved"
  shows "taskOK mf s' t'"
  using assms(1,3-5)
  by (auto simp: taskOK_def writes_store [OF assms(2)] sameRequest_def approvedIn_def startFailedIn_def)

lemma legalStatus_all [simp]:
  "legalStatus StatusQueued" "legalStatus StatusRunning" "legalStatus StatusSucceeded"
  "legalStatus StatusFailed" "legalStatus StatusWaitingApproval"
  by (simp_all add: legalStatus_def)

lemma wfInv_approve:
  assumes "wfInv mf y" "ApproveTask now i who (sy_store y) = (r, st)"
  shows "wfInv mf (withStore st y)"
proof -
  note d = wfInvD [OF assms(1)]
  from ApproveTask_store [OF assms(2) d(1)] show ?thesis
  proof (elim disjE exE conjE)
    assume "st = sy_store y"
    with assms(1) show ?thesis by (simp add: withStore_def)
  next
    fix t :: task and e
    let ?t' = "t\<lparr>task_Status := StatusQueued, task_ErrorReason := [],
      task_AuditRef := ''approval:'' @ who, task_UpdatedAt := now\<rparr>"
    assume a: "ts_tasks (sy_store y) i = Some t" "task_Status t = StatusWaitingApproval"
      "writes ?t' e (sy_store y) st" "aev_Action e = AuditActionApproved"
    have "task_ID t = i" using d(1) a(1) taskStoreOK_keyed keyedByD by metis
    moreover have "taskOK mf st ?t'"
      using d(4) [OF a(1)] a(3) by (rule taskOK_requeued) (auto simp: sameRequest_def a(4))
    ultimately show ?thesis using a(1,2) wfInv_rewrite [OF assms(1) _ _ _ a(3), of t] by simp
  qed
qed

lemma wfInv_retry:
  assumes "wfInv mf y" "RetryTask now i who (sy_store y) = (r, st)"
  shows "wfInv mf (withStore st y)"
proof -
  note d = wfInvD [OF assms(1)]
  from RetryTask_store [OF assms(2) d(1)] show ?thesis
  proof (elim disjE exE conjE)
    assume "st = sy_store y"
    with assms(1) show ?thesis by (simp add: withStore_def)
  next
    fix t :: task and e
    let ?t' = "t\<lparr>task_Status := StatusQueued, task_ErrorReason := [],
      task_AuditRef := ''retry:'' @ who, task_UpdatedAt := now\<rparr>"
    assume a: "ts_tasks (sy_store y) i = Some t" "task_Status t = StatusFailed"
      "writes ?t' e (sy_store y) st" "aev_Action e = AuditActionRetried"
    have "task_ID t = i" using d(1) a(1) taskStoreOK_keyed keyedByD by metis
    moreover have "taskOK mf st ?t'"
      using d(4) [OF a(1)] a(3) by (rule taskOK_requeued) (auto simp: sameRequest_def a(2))
    ultimately show ?thesis using a(1,2) wfInv_rewrite [OF assms(1) _ _ _ a(3), of t] by simp
  qed
qed

lemma taskOK_elsewhere:
  assumes "taskStoreOK s" "ts_tasks s k = Some u" "taskOK mf s u"
    and "ListTaskEvents k s' = ListTaskEvents k s"
  shows "taskOK mf s' u"
proof -
  have "task_ID u = k" using assms(1,2) taskStoreOK_keyed keyedByD by metis
  with assms(3,4) show ?thesis by (simp add: taskOK_cong)
qed

lemma wfInv_insert:
  assumes inv: "wfInv mf y" and fresh: "task_ID t \<notin> dom (ts_tasks (sy_store y))"
    and quiet: "task_Status t \<noteq> StatusRunning" and w: "writes t e (sy_store y) st"
    and ok: "taskOK mf st t" and id: "drawnUpTo n (task_ID t)" "ws_seq (sy_svc y) \<le> n"
  shows "wfInv mf (y\<lparr>sy_svc := \<lparr>ws_store = st, ws_seq = n\<rparr>\<rparr>)"
proof -
  note d = wfInvD [OF inv]
  note w1 = writes_store [OF w]
  have k: "taskOK mf st u" if "ts_tasks st k = Some u" for k u
  proof (cases "k = task_ID t")
    case True
    with that w1 ok show ?thesis by simp
  next
    case False
    with that have u: "ts_tasks (sy_store y) k = Some u" by (simp add: w1)
    with False show ?thesis
      by (intro taskOK_elsewhere [OF d(1) u d(4) [OF u]]) (simp add: w1)
  qed
  have fl: "u \<in> set (sy_inflight y) \<longleftrightarrow> ts_tasks st (task_ID u) = Some u
      \<and> task_Status u = StatusRunning" for u
    using d(6) [of u] quiet fresh by (auto simp: w1)
  have seq: "drawnUpTo n k" if "k \<in> dom (ts_tasks st)" for k
    using that d(2) [of k] id by (fastforce simp: drawnUpTo_def w1 dom_def split: if_splits)
  show ?thesis
    unfolding wfInv_def
    using writes_ok [OF w d(1)] d(3,5) k fl seq by (auto simp: w1 dom_def)
qed

lemma fresh_task_ID:
  assumes "wfInv mf y" "ws_seq (sy_svc y) < - 1"
  shows "newTaskID now (ws_seq (sy_svc y) + 1) \<notin> dom (ts_tasks (sy_store y))"
proof (rule task_ids.mkID_fresh)
  show "\<exists>t w. k = newTaskID t w \<and> w \<le> ws_seq (sy_svc y)"
    if "k \<in> dom (ts_tasks (sy_store y))" for k
    using wfInvD(2) [OF assms(1) that] by (simp add: drawnUpTo_def)
  show "ws_seq (sy_svc y) < ws_seq (sy_svc y) + 1"
    using assms(2) by (rule counter_grows)
qed

lemma wfInv_promote:
  assumes inv: "wfInv mf y" and run: "Promote version starter now later req (sy_svc y) = (r, svc')"
    and start: "mf \<or> neverFails starter" and seq: "ws_seq (sy_svc y) < - 1"
  shows "wfInv mf (y\<lparr>sy_svc := svc'\<rparr>)"
proof -
  let ?n = "ws_seq (sy_svc y) + 1"
  show ?thesis
  proof (cases "svc' = sy_svc y")
    case True
    with inv show ?thesis by simp
  next
    case False
    with Promote_store [OF run] obtain t e s1 where
      n: "ws_seq svc' = ?n" and t: "task_ID t = newTaskID now ?n"
      and st: "task_Status t = (if task_RequiresApproval t then StatusWaitingApproval else StatusQueued)"
      and w: "writes t e (sy_store y) s1" and e: "aev_Action e = AuditActionCreated"
      and res: "ws_store svc' = s1 \<or> \<not> neverFails starter \<and> task_RequiresApproval t \<and>
         (\<exists>err e'. writes (startFailedTask err later t) e' s1 (ws_store svc')
            \<and> aev_Action e' = AuditActionFailed \<and> aev_Actor e' = ''api'')" by blast
    have fresh: "task_ID t \<notin> dom (ts_tasks (sy_store y))"
      using fresh_task_ID [OF inv seq] t by simp
    then have ok: "taskOK mf s1 t"
      using wfInvD(3) [OF inv] st e by (simp add: taskOK_def writes_store [OF w])
    let ?y1 = "y\<lparr>sy_svc := \<lparr>ws_store = s1, ws_seq = ?n\<rparr>\<rparr>"
    have "drawnUpTo ?n (task_ID t)" using t by (auto simp: drawnUpTo_def)
    with ok fresh st have inv1: "wfInv mf ?y1"
      by (intro wfInv_insert [OF inv _ _ w]) (auto simp: less_imp_le [OF counter_grows [OF seq]])
    from res show ?thesis
    proof (elim disjE exE conjE)
      assume "ws_store svc' = s1"
      with n have "svc' = \<lparr>ws_store = s1, ws_seq = ?n\<rparr>" by simp
      with inv1 show ?thesis by simp
    next
      fix err e'
      assume a: "\<not> neverFails starter" "task_RequiresApproval t"
        "writes (startFailedTask err later t) e' s1 (ws_store svc')"
        "aev_Action e' = AuditActionFailed" "aev_Actor e' = ''api''"
      have "taskOK mf (ws_store svc') (startFailedTask err later t)"
        using ok start a(1,4,5)
        by (auto simp: taskOK_def writes_store [OF a(3)] worker startFailedIn_def)
      then have "wfInv mf (withStore (ws_store svc') ?y1)"
        using a(3) st a(2) writes_store(1) [OF w]
        by (intro wfInv_rewrite [OF inv1, of _ t]) (auto simp: worker)
      moreover have "withStore (ws_store svc') ?y1 = y\<lparr>sy_svc := svc'\<rparr>"
        using n by (simp add: withStore_def)
      ultimately show ?thesis by simp
    qed
  qed
qed

lemma wfInv_finish:
  assumes inv: "wfInv mf y" and t: "t \<in> set (sy_inflight y)" and out: "workerOutcome t (sy_store y) st"
  shows "wfInv mf ((withStore st y)\<lparr>sy_inflight := remove1 t (sy_inflight y)\<rparr>)"
proof -
  note d = wfInvD [OF inv]
  have old: "ts_tasks (sy_store y) (task_ID t) = Some t" "task_Status t = StatusRunning"
    using d(6) t by auto
  obtain t' e where t': "sameRequest t t'" "terminal t'" "aev_TaskID e = task_ID t"
    "st = snd (CreateTaskWithEvent t' e (sy_store y))" using out by (auto simp: workerOutcome_def)
  then have w: "writes t' e (sy_store y) st" and id: "task_ID t' = task_ID t"
    by (auto simp: writes_def sameRequest_ID)
  note w1 = writes_store [OF w, unfolded id]
  have ok: "taskOK mf st t'"
    using d(4) [OF old(1)] w t'(1,2) old(2)
    by (intro taskOK_requeued [OF _ w t'(1)]) (auto simp: terminal_def)
  have k: "taskOK mf st u" if "ts_tasks st k = Some u" for k u
  proof (cases "k = task_ID t")
    case True
    with that w1 ok show ?thesis by simp
  next
    case False
    with that have u: "ts_tasks (sy_store y) k = Some u" by (simp add: w1)
    with False show ?thesis
      by (intro taskOK_elsewhere [OF d(1) u d(4) [OF u]]) (simp add: w1)
  qed
  have "distinct (sy_inflight y)" using d(5) by (simp add: distinct_map)
  then have fl: "u \<in> set (remove1 t (sy_inflight y)) \<longleftrightarrow> ts_tasks st (task_ID u) = Some u
      \<and> task_Status u = StatusRunning" for u
    using d(6) [of u] old t'(2) by (auto simp: w1 terminal_def id)
  have dom: "dom (ts_tasks st) = dom (ts_tasks (sy_store y))" using old by (auto simp: w1 dom_def)
  show ?thesis
    unfolding wfInv_def withStore_def
    using writes_ok [OF w d(1)] d(2,3,5) k fl old by (auto simp: dom w1 distinct_map_remove1)
qed

lemma claim_facts:
  assumes "taskStoreOK s" "iterOrder (ts_tasks s) ks" "0 < limit"
    and "ClaimQueuedTasks ks now limit s = (claimed, s')"
  shows "distinct (map task_ID claimed)"
    and "c \<in> set claimed \<Longrightarrow> \<exists>t. ts_tasks s (task_ID c) = Some t \<and> task_Status t = StatusQueued
      \<and> c = t\<lparr>task_Status := StatusRunning, task_UpdatedAt := now\<rparr>"
    and "c \<in> set claimed \<Longrightarrow> ts_tasks s' (task_ID c) = Some c"
    and "k \<notin> task_ID ` set claimed \<Longrightarrow> ts_tasks s' k = ts_tasks s k"
    and "\<exists>es. ListTaskEvents k s' = ListTaskEvents k s @ es
      \<and> (\<forall>e \<in> set es. aev_Action e = AuditActionClaimed)
      \<and> (k \<notin> task_ID ` set claimed \<longrightarrow> es = [])"
proof -
  note eq = ClaimQueuedTasks_eq [OF assms(3,4)]
  have keyed: "keyedBy task_ID (ts_tasks s)" using assms(1) by (rule taskStoreOK_keyed)
  show dist: "distinct (map task_ID claimed)"
    using distinct_queuedTasks [OF assms(2) keyed assms(3)] eq(3) by simp
  show "c \<in> set claimed \<Longrightarrow> \<exists>t. ts_tasks s (task_ID c) = Some t \<and> task_Status t = StatusQueued
      \<and> c = t\<lparr>task_Status := StatusRunning, task_UpdatedAt := now\<rparr>"
    using eq(1) queuedTasks_stored [OF _ keyed assms(3)] by fastforce
  show "c \<in> set claimed \<Longrightarrow> ts_tasks s' (task_ID c) = Some c"
    using fold_claimOne_task [OF dist, of now s "task_ID c"] find_ident_once [OF dist, of c] eq(2)
    by simp
  show "k \<notin> task_ID ` set claimed \<Longrightarrow> ts_tasks s' k = ts_tasks s k"
    using fold_claimOne_task [OF dist, of now s k] find_ident_none [of k task_ID claimed] eq(2)
    by simp
  obtain es where es: "ListTaskEvents k s' = ListTaskEvents k s @ es"
    "map aev_Action es = map (\<lambda>t. AuditActionClaimed) (filter (\<lambda>t. task_ID t = k) claimed)"
    using fold_claimOne_events [of k now claimed s] eq(2) by blast
  have "aev_Action e = AuditActionClaimed" if "e \<in> set es" for e
  proof -
    have "aev_Action e \<in> set (map aev_Action es)" using that by simp
    then show ?thesis unfolding es(2) by auto
  qed
  moreover have "es = []" if "k \<notin> task_ID ` set claimed"
  proof -
    have "filter (\<lambda>t. task_ID t = k) claimed = []" using that by (auto simp: filter_empty_conv)
    then show ?thesis using es(2) by simp
  qed
  ultimately show "\<exists>es. ListTaskEvents k s' = ListTaskEvents k s @ es
      \<and> (\<forall>e \<in> set es. aev_Action e = AuditActionClaimed)
      \<and> (k \<notin> task_ID ` set claimed \<longrightarrow> es = [])" using es(1) by blast
qed

lemma taskOK_claimed:
  assumes "taskOK mf s t" "ListTaskEvents (task_ID t) s' = ListTaskEvents (task_ID t) s @ es"
    and "task_Status t = StatusQueued"
  shows "taskOK mf s' (t\<lparr>task_Status := StatusRunning, task_UpdatedAt := now\<rparr>)"
  using assms by (auto simp: taskOK_def)

lemma wfInv_claim:
  assumes inv: "wfInv mf y" and ks: "iterOrder (ts_tasks (sy_store y)) ks"
    and run: "ClaimQueuedTasks ks now limit (sy_store y) = (claimed, st)"
  shows "wfInv mf ((withStore st y)\<lparr>sy_inflight := sy_inflight y @ claimed\<rparr>)"
proof (cases "0 < limit")
  case False
  with run have "st = sy_store y" "claimed = []" by (auto simp: ClaimQueuedTasks_def)
  with inv show ?thesis by (simp add: withStore_def)
next
  case True
  note d = wfInvD [OF inv]
  note c = claim_facts [OF d(1) ks True run]
  have stOK: "taskStoreOK st" using taskStoreOK_claim [OF d(1), of ks now limit] run by simp
  have fresh: "task_ID ` set (sy_inflight y) \<inter> task_ID ` set claimed = {}"
  proof -
    have "task_ID u \<noteq> task_ID v" if "u \<in> set (sy_inflight y)" "v \<in> set claimed" for u v
      using d(6) [of u] c(2) [OF that(2)] that(1) by auto
    then show ?thesis by blast
  qed
  have k: "taskOK mf st u" if u: "ts_tasks st k = Some u" for k u
  proof (cases "k \<in> task_ID ` set claimed")
    case True
    then obtain v where v: "v \<in> set claimed" "k = task_ID v" by blast
    with u c(3) have "u = v" by simp
    obtain t where t: "ts_tasks (sy_store y) (task_ID v) = Some t" "task_Status t = StatusQueued"
      "v = t\<lparr>task_Status := StatusRunning, task_UpdatedAt := now\<rparr>" using c(2) [OF v(1)] by blast
    then have "task_ID v = task_ID t" by simp
    then obtain es where "ListTaskEvents (task_ID t) st = ListTaskEvents (task_ID t) (sy_store y) @ es"
      using c(5) [of "task_ID t"] by blast
    with t d(4) [OF t(1)] \<open>u = v\<close> show ?thesis by (simp add: taskOK_claimed)
  next
    case False
    with c(4) u have u': "ts_tasks (sy_store y) k = Some u" by simp
    with False c(5) [of k] show ?thesis by (auto intro: taskOK_elsewhere [OF d(1) u' d(4) [OF u']])
  qed
  have fl: "u \<in> set (sy_inflight y @ claimed) \<longleftrightarrow> ts_tasks st (task_ID u) = Some u
      \<and> task_Status u = StatusRunning" for u
  proof (cases "task_ID u \<in> task_ID ` set claimed")
    case True
    then obtain v where v: "v \<in> set claimed" "task_ID u = task_ID v" by blast
    have "u \<notin> set (sy_inflight y)" using fresh True by blast
    moreover have "task_Status v = StatusRunning" using c(2) [OF v(1)] by auto
    moreover have "u \<in> set claimed \<longleftrightarrow> u = v"
      using c(3) v by (metis option.inject)
    ultimately show ?thesis using c(3) [OF v(1)] v by auto
  next
    case False
    then have "u \<notin> set claimed" by blast
    with False c(4) d(6) [of u] show ?thesis by simp
  qed
  have dom: "dom (ts_tasks st) = dom (ts_tasks (sy_store y))"
  proof (intro set_eqI)
    fix k show "k \<in> dom (ts_tasks st) \<longleftrightarrow> k \<in> dom (ts_tasks (sy_store y))"
      using c(2-4) by (cases "k \<in> task_ID ` set claimed") (auto simp: domIff)
  qed
  have quiet: "ListTaskEvents k st = []" if "k \<notin> dom (ts_tasks (sy_store y))" for k
  proof -
    have "k \<notin> task_ID ` set claimed" using that c(2) by (fastforce simp: domIff)
    with c(5) [of k] d(3) [OF that] show ?thesis by auto
  qed
  show ?thesis
    unfolding wfInv_def withStore_def using stOK d(2,5) k fl quiet c(1) fresh by (simp add: dom)
qed

theorem wfInv_reach:
  assumes "wfReach env mf y" "envOK env"
  shows "wfInv mf y"
  using assms(1)
proof induction
  case start
  show ?case by (rule wfInv_init)
next
  case (step y y')
  from step(2,3) show ?case
  proof cases
    case (finish t w r st w')
    have "ts_tasks (sy_store y) (task_ID t) = Some t" using wfInvD(6) [OF step(3)] finish(2) by blast
    from processTask_outcome [OF this assms(2)] finish(3) have "workerOutcome t (sy_store y) st"
      by (metis prod.inject)
    with step(3) finish(1,2) show ?thesis by (simp add: wfInv_finish)
  qed (auto intro: wfInv_promote wfInv_approve wfInv_retry wfInv_claim)
qed

text \<open>
  Whatever the API does, one call at a time, while workers are busy, the copies they hold are exactly the running
  tasks of the store, each held once and each equal to its stored row.  So the row a worker
  writes back never overwrites an update it has not seen.
\<close>

theorem inflight_is_running:
  assumes "wfReach env mayFail y" "envOK env"
  shows "distinct (map task_ID (sy_inflight y)) \<and>
    (\<forall>t. t \<in> set (sy_inflight y) \<longleftrightarrow>
       ts_tasks (sy_store y) (task_ID t) = Some t \<and> task_Status t = StatusRunning)"
  using wfInvD(5,6) [OF wfInv_reach [OF assms]] by simp

text \<open>
  C1: The approval gate.  As long as the external start of approval workflows does not fail, a
  task that requires approval is never queued, executed or finished without an approval event
  in its log.
\<close>

theorem approval_gate:
  assumes "wfReach env False y" "envOK env"
    and "ts_tasks (sy_store y) k = Some t" "task_RequiresApproval t"
    and "task_Status t \<noteq> StatusWaitingApproval"
  shows "\<exists>e \<in> set (ListTaskEvents k (sy_store y)). aev_Action e = AuditActionApproved"
proof -
  note inv = wfInv_reach [OF assms(1,2)]
  have "task_ID t = k" using wfInvD(1) [OF inv] assms(3) taskStoreOK_keyed keyedByD by metis
  with wfInvD(4) [OF inv assms(3)] assms(4,5) show ?thesis
    by (simp add: taskOK_def approvedIn_def)
qed

subsection \<open>Concrete runs\<close>

definition demoRequest :: promoteRequest where
  "demoRequest =
     \<lparr>prq_RequestID = ''r'', prq_TenantID = ''acme'', prq_SessionID = [],
      prq_TaskType = TaskTypeApprovedToolExecution, prq_Reason = PromotionReasonApprovalRequired,
      prq_RequiresApproval = True, prq_ToolName = ''ticket_comment_create'',
      prq_ToolArguments = ''{}''\<rparr>"

abbreviation (input) demoID :: string where
  "demoID \<equiv> newTaskID 5 1"

definition promotedSystem :: "(task \<Rightarrow> string option) option \<Rightarrow> wfSystem" where
  "promotedSystem starter =
     \<lparr>sy_svc = snd (Promote None starter 5 6 demoRequest (sy_svc initSystem)), sy_inflight = []\<rparr>"

definition requeuedSystem :: "(task \<Rightarrow> string option) option \<Rightarrow> bool \<Rightarrow> wfSystem" where
  "requeuedSystem starter viaApproval =
     (let y = promotedSystem starter in
      withStore (snd (if viaApproval then ApproveTask 7 demoID ''ops'' (sy_store y)
                      else RetryTask 7 demoID ''ops'' (sy_store y))) y)"

definition claimedSystem :: "(task \<Rightarrow> string option) option \<Rightarrow> bool \<Rightarrow> wfSystem" where
  "claimedSystem starter viaApproval =
     (let y = requeuedSystem starter viaApproval;
          (claimed, st) = ClaimQueuedTasks [demoID] 8 1 (sy_store y)
      in (withStore st y)\<lparr>sy_inflight := sy_inflight y @ claimed\<rparr>)"

lemma promotedSystem_reach:
  "mf \<or> neverFails starter \<Longrightarrow> wfReach env mf (promotedSystem starter)"
proof -
  assume a: "mf \<or> neverFails starter"
  obtain r svc' where p: "Promote None starter 5 6 demoRequest (sy_svc initSystem) = (r, svc')"
    by force
  have "wfStep env mf initSystem (initSystem\<lparr>sy_svc := svc'\<rparr>)"
    using a by (intro wfStep.promote [OF p]) (auto simp: initSystem_def word_gt_0)
  with wfReach.start have "wfReach env mf (initSystem\<lparr>sy_svc := svc'\<rparr>)" by (rule wfReach.step)
  with p show ?thesis by (simp add: promotedSystem_def initSystem_def)
qed

lemma requeuedSystem_reach:
  "mf \<or> neverFails starter \<Longrightarrow> wfReach env mf (requeuedSystem starter viaApproval)"
proof -
  assume "mf \<or> neverFails starter"
  then have r: "wfReach env mf (promotedSystem starter)" by (rule promotedSystem_reach)
  have "wfStep env mf (promotedSystem starter) (requeuedSystem starter viaApproval)"
    by (auto simp: requeuedSystem_def Let_def intro: wfStep.approve wfStep.retry prod.collapse [symmetric])
  with r show ?thesis by (rule wfReach.step)
qed

lemma claimedSystem_reach:
  assumes "mf \<or> neverFails starter"
    and "dom (ts_tasks (sy_store (requeuedSystem starter viaApproval))) = {demoID}"
  shows "wfReach env mf (claimedSystem starter viaApproval)"
proof -
  have r: "wfReach env mf (requeuedSystem starter viaApproval)"
    using assms(1) by (rule requeuedSystem_reach)
  obtain claimed st where c:
    "ClaimQueuedTasks [demoID] 8 1 (sy_store (requeuedSystem starter viaApproval)) = (claimed, st)"
    by force
  have "iterOrder (ts_tasks (sy_store (requeuedSystem starter viaApproval))) [demoID]"
    using assms(2) by (simp add: iterOrder_def)
  then have "wfStep env mf (requeuedSystem starter viaApproval) (claimedSystem starter viaApproval)"
    unfolding claimedSystem_def Let_def c prod.case by (rule wfStep.claim [OF _ c])
  with r show ?thesis by (rule wfReach.step)
qed

lemmas runDefs = claimedSystem_def requeuedSystem_def promotedSystem_def withStore_def
  initSystem_def NewMemoryStore_def Promote_def CreateTaskWithEvent_def promotedTask_def
  createdEvent_def shouldStartTaskOnPromote_def startFailedTask_def startFailedEvent_def
  UpdateTaskWithEvent_def ApproveTask_def RetryTask_def GetTask_def logTaskEvent_def
  ClaimQueuedTasks_def queuedTasks_def goSort_def claimOne_def demoRequest_def Let_def

lemma bypass_run:
  "dom (ts_tasks (sy_store (requeuedSystem (Some (\<lambda>t. Some ''temporal down'')) False))) = {demoID}"
  "map task_ID (sy_inflight (claimedSystem (Some (\<lambda>t. Some ''temporal down'')) False)) = [demoID]"
  "map task_RequiresApproval (sy_inflight (claimedSystem (Some (\<lambda>t. Some ''temporal down'')) False))
     = [True]"
  "map aev_Action (ListTaskEvents demoID (sy_store (claimedSystem (Some (\<lambda>t. Some ''temporal down'')) False)))
     = [AuditActionCreated, AuditActionFailed, AuditActionRetried, AuditActionClaimed]"
  by (simp_all add: runDefs ListTaskEvents_def appendEntry_def entries_def)

lemma approved_run:
  "dom (ts_tasks (sy_store (requeuedSystem None True))) = {demoID}"
  "map task_ID (sy_inflight (claimedSystem None True)) = [demoID]"
  "map task_Status (sy_inflight (claimedSystem None True)) = [StatusRunning]"
  "map task_RequiresApproval (sy_inflight (claimedSystem None True)) = [True]"
  by (simp_all add: runDefs)

text \<open>
  C40: The gate does not hold when the external start fails: promotion then marks the task as
  failed, and a retry queues it, so that a worker executes a task that requires approval although
  nobody ever approved it.
\<close>

theorem approval_bypass:
  "\<exists>y t. wfReach demoEnv True y \<and> t \<in> set (sy_inflight y) \<and> task_RequiresApproval t
     \<and> AuditActionApproved \<notin> set (map aev_Action (ListTaskEvents (task_ID t) (sy_store y)))"
proof -
  let ?starter = "Some (\<lambda>t::task. Some ''temporal down'')"
  let ?y = "claimedSystem ?starter False"
  obtain t where t: "sy_inflight ?y = [t]" "task_ID t = demoID" "task_RequiresApproval t"
    using bypass_run(2,3) by (auto simp: map_eq_Cons_conv)
  have "AuditActionApproved \<notin> set (map aev_Action (ListTaskEvents demoID (sy_store ?y)))"
    unfolding bypass_run(4) by simp
  moreover have "wfReach demoEnv True ?y" by (rule claimedSystem_reach) (simp_all add: bypass_run(1))
  ultimately show ?thesis
    unfolding t(2) [symmetric] using t(1,3) by (intro exI [of _ ?y] exI [of _ t]) simp
qed

lemma inflight_is_running_witness:
  "distinct (map task_ID (sy_inflight (claimedSystem None True)))
   \<and> (\<forall>t. t \<in> set (sy_inflight (claimedSystem None True)) \<longleftrightarrow>
       ts_tasks (sy_store (claimedSystem None True)) (task_ID t) = Some t
       \<and> task_Status t = StatusRunning)"
proof -
  have "wfReach demoEnv False (claimedSystem None True)"
    by (rule claimedSystem_reach) (simp_all add: approved_run(1) neverFails_def)
  from inflight_is_running [OF this demoEnv_ok(2)] show ?thesis .
qed

lemma approval_gate_witness:
  "\<exists>e \<in> set (ListTaskEvents demoID (sy_store (claimedSystem None True))).
     aev_Action e = AuditActionApproved"
proof -
  let ?y = "claimedSystem None True"
  have r: "wfReach demoEnv False ?y"
    by (rule claimedSystem_reach) (simp_all add: approved_run(1) neverFails_def)
  obtain t where t: "sy_inflight ?y = [t]" "task_ID t = demoID" "task_RequiresApproval t"
    "task_Status t = StatusRunning"
    using approved_run(2-4) by (auto simp: map_eq_Cons_conv)
  then have "ts_tasks (sy_store ?y) demoID = Some t"
    using wfInvD(6) [OF wfInv_reach [OF r demoEnv_ok(2)], of t] by simp
  from approval_gate [OF r demoEnv_ok(2) this] t(3,4) show ?thesis by simp
qed

subsection \<open>Transitions and the audit log\<close>

text \<open>The status of a task as a state machine; \<open>None\<close> is a task that does not exist.\<close>

definition legalMove :: "string option \<Rightarrow> string option \<Rightarrow> bool" where
  "legalMove a b \<longleftrightarrow> a = b \<or>
     (a, b) \<in> {(None, Some StatusQueued), (None, Some StatusWaitingApproval), (None, Some StatusFailed),
               (Some StatusWaitingApproval, Some StatusQueued), (Some StatusFailed, Some StatusQueued),
               (Some StatusQueued, Some StatusRunning), (Some StatusRunning, Some StatusSucceeded),
               (Some StatusRunning, Some StatusFailed)}"

definition statusOf :: "taskStore \<Rightarrow> string \<Rightarrow> string option" where
  "statusOf s k = map_option task_Status (ts_tasks s k)"

lemma legalMove_refl [simp]: "legalMove a a"
  by (simp add: legalMove_def)

definition extends :: "taskStore \<Rightarrow> taskStore \<Rightarrow> bool" where
  "extends s s' \<longleftrightarrow>
     (\<forall>k. legalMove (statusOf s k) (statusOf s' k)
        \<and> (\<exists>es. ListTaskEvents k s' = ListTaskEvents k s @ es))"

lemma extends_refl [simp]: "extends s s"
  by (simp add: extends_def)

lemma extends_writes:
  assumes "writes t e s s'" "legalMove (statusOf s (task_ID t)) (Some (task_Status t))"
  shows "extends s s'"
  using assms(2) by (auto simp: extends_def statusOf_def writes_store [OF assms(1)])

lemma extends_writes_twice:
  assumes "writes t e s s1" "writes t' e' s1 s2" "task_ID t' = task_ID t"
    and "legalMove (statusOf s (task_ID t)) (Some (task_Status t'))"
  shows "extends s s2"
  using assms(3,4)
  by (auto simp: extends_def statusOf_def writes_store [OF assms(1)] writes_store [OF assms(2)])

lemma extends_claim:
  assumes "taskStoreOK s" "iterOrder (ts_tasks s) ks"
    and "ClaimQueuedTasks ks now limit s = (claimed, s')"
  shows "extends s s'"
proof (cases "0 < limit")
  case False
  with assms(3) show ?thesis by (auto simp: ClaimQueuedTasks_def)
next
  case True
  note c = claim_facts [OF assms(1,2) True assms(3)]
  have "legalMove (statusOf s k) (statusOf s' k)" for k
  proof (cases "k \<in> task_ID ` set claimed")
    case True
    then obtain v where v: "v \<in> set claimed" "k = task_ID v" by blast
    then have "statusOf s k = Some StatusQueued" "statusOf s' k = Some StatusRunning"
      using c(2,3) [OF v(1)] by (auto simp: statusOf_def)
    then show ?thesis by (simp add: legalMove_def)
  next
    case False
    with c(4) show ?thesis by (simp add: statusOf_def)
  qed
  then show ?thesis using c(5) unfolding extends_def by blast
qed

lemma step_extends:
  assumes inv: "wfInv mf y" and step: "wfStep env mf y y'" and env: "envOK env"
  shows "extends (sy_store y) (sy_store y')"
proof -
  note d = wfInvD [OF inv]
  from step show ?thesis
  proof cases
    case (promote version starter now later req r svc')
    from Promote_store [OF promote(2)] have "extends (sy_store y) (ws_store svc')"
    proof (elim disjE [of "svc' = sy_svc y"] exE conjE)
      assume "svc' = sy_svc y"
      then show ?thesis by simp
    next
      fix t :: task and e s1
      assume t: "task_ID t = newTaskID now (ws_seq (sy_svc y) + 1)"
        "task_Status t = (if task_RequiresApproval t then StatusWaitingApproval else StatusQueued)"
        "writes t e (sy_store y) s1"
        and res: "ws_store svc' = s1 \<or> \<not> neverFails starter \<and> task_RequiresApproval t \<and>
         (\<exists>err e'. writes (startFailedTask err later t) e' s1 (ws_store svc')
            \<and> aev_Action e' = AuditActionFailed \<and> aev_Actor e' = ''api'')"
      have none: "statusOf (sy_store y) (task_ID t) = None"
        using fresh_task_ID [OF inv promote(4)] t(1) by (simp add: statusOf_def domIff)
      from res show ?thesis
      proof (elim disjE exE conjE)
        assume "ws_store svc' = s1"
        then show ?thesis using extends_writes [OF t(3)] none t(2) by (simp add: legalMove_def)
      next
        fix err e' assume "writes (startFailedTask err later t) e' s1 (ws_store svc')"
        from extends_writes_twice [OF t(3) this] none show ?thesis
          by (simp add: worker legalMove_def)
      qed
    qed
    with promote(1) show ?thesis by simp
  next
    case (approve now i who r st)
    from ApproveTask_store [OF approve(2) d(1)] show ?thesis
    proof (elim disjE exE conjE)
      fix t :: task and e
      assume a: "ts_tasks (sy_store y) i = Some t" "task_Status t = StatusWaitingApproval"
        "writes (t\<lparr>task_Status := StatusQueued, task_ErrorReason := [],
                   task_AuditRef := ''approval:'' @ who, task_UpdatedAt := now\<rparr>) e (sy_store y) st"
      have "task_ID t = i" using d(1) a(1) taskStoreOK_keyed keyedByD by metis
      with extends_writes [OF a(3)] a(1,2) approve(1) show ?thesis
        by (simp add: statusOf_def legalMove_def withStore_def)
    qed (simp add: approve(1) withStore_def)
  next
    case (retry now i who r st)
    from RetryTask_store [OF retry(2) d(1)] show ?thesis
    proof (elim disjE exE conjE)
      fix t :: task and e
      assume a: "ts_tasks (sy_store y) i = Some t" "task_Status t = StatusFailed"
        "writes (t\<lparr>task_Status := StatusQueued, task_ErrorReason := [],
                   task_AuditRef := ''retry:'' @ who, task_UpdatedAt := now\<rparr>) e (sy_store y) st"
      have "task_ID t = i" using d(1) a(1) taskStoreOK_keyed keyedByD by metis
      with extends_writes [OF a(3)] a(1,2) retry(1) show ?thesis
        by (simp add: statusOf_def legalMove_def withStore_def)
    qed (simp add: retry(1) withStore_def)
  next
    case (claim ks now limit claimed st)
    then show ?thesis using extends_claim [OF d(1)] by (simp add: withStore_def)
  next
    case (finish t w r st w')
    have old: "ts_tasks (sy_store y) (task_ID t) = Some t" "task_Status t = StatusRunning"
      using d(6) finish(2) by auto
    from processTask_outcome [OF old(1) env] finish(3) have "workerOutcome t (sy_store y) st"
      by (metis prod.inject)
    then obtain t' e where "sameRequest t t'" "terminal t'" "writes t' e (sy_store y) st"
      by (auto simp: workerOutcome_def writes_def sameRequest_ID)
    with extends_writes [of t' e] old finish(1) show ?thesis
      by (auto simp: statusOf_def terminal_def sameRequest_ID legalMove_def withStore_def)
  qed
qed

text \<open>
  With calls one at a time, in every step of the system the status of each task follows the state machine, and its
  event log is only ever appended to, with event numbers that grow along the log.
\<close>

theorem transitions_are_legal:
  assumes "wfReach env mayFail y" "envOK env" "wfStep env mayFail y y'"
  shows "legalMove (statusOf (sy_store y) k) (statusOf (sy_store y') k)
    \<and> (\<exists>es. ListTaskEvents k (sy_store y') = ListTaskEvents k (sy_store y) @ es)
    \<and> sorted_wrt (<) (map aev_ID (ListTaskEvents k (sy_store y')))"
proof -
  have "wfReach env mayFail y'" using assms(1,3) by (rule wfReach.step)
  then have "taskStoreOK (sy_store y')" using wfInv_reach [OF _ assms(2)] wfInvD(1) by blast
  then have "sorted_wrt (<) (map aev_ID (ListTaskEvents k (sy_store y')))"
    by (simp add: taskStoreOK_def numbered_def)
  with step_extends [OF wfInv_reach [OF assms(1,2)] assms(3,2)] show ?thesis
    by (simp add: extends_def)
qed

lemma transitions_are_legal_witness:
  "legalMove (statusOf NewMemoryStore demoID)
     (statusOf (sy_store (promotedSystem None)) demoID)"
proof -
  obtain r svc' where p: "Promote None None 5 6 demoRequest (sy_svc initSystem) = (r, svc')"
    by force
  have step: "wfStep demoEnv False initSystem (initSystem\<lparr>sy_svc := svc'\<rparr>)"
    by (intro wfStep.promote [OF p]) (auto simp: initSystem_def word_gt_0 neverFails_def)
  from transitions_are_legal [OF wfReach.start demoEnv_ok(2) step, of demoID] p show ?thesis
    by (simp add: promotedSystem_def initSystem_def)
qed

end
