(* ===== verification/Cases.thy ===== *)
theory Cases
  imports Go_Store
begin

text \<open>
  Operator cases: \<open>case/types.go\<close>, the row order of \<open>case/order.go\<close>, the memory store of
  \<open>case/memory_store.go\<close> and the service of \<open>case/service.go\<close>.

  \<open>caseState\<close> holds the two maps of the store and the two process-wide counters that number
  cases and notes.  A range loop over the record map takes the iteration order \<open>ks\<close>.
\<close>

subsection \<open>Types\<close>

abbreviation (input) "CaseStatusOpen \<equiv> ''open''"
abbreviation (input) "CaseStatusClosed \<equiv> ''closed''"

datatype caseError =
    ErrCaseNotFound string
  | ErrInvalidCaseState
  | ErrCaseConflict
  | ErrInvalidNote

record compareOrigin =
  co_LeftEvalReportID :: string
  co_RightEvalReportID :: string
  co_SelectedSide :: string

record caseRec =
  cs_ID :: string
  cs_TenantID :: string
  cs_Status :: string
  cs_Title :: string
  cs_Summary :: string
  cs_SourceTaskID :: string
  cs_SourceReportID :: string
  cs_SourceEvalReportID :: string
  cs_SourceEvalCaseID :: string
  cs_SourceEvalRunID :: string
  cs_CompareOrigin :: compareOrigin
  cs_CreatedBy :: string
  cs_AssignedTo :: string
  cs_AssignedAt :: time
  cs_ClosedBy :: string
  cs_CreatedAt :: time
  cs_UpdatedAt :: time

record caseNote =
  cn_ID :: string
  cn_TenantID :: string
  cn_CaseID :: string
  cn_Body :: string
  cn_CreatedBy :: string
  cn_CreatedAt :: time

record caseInput =
  cin_TenantID :: string
  cin_Title :: string
  cin_Summary :: string
  cin_SourceTaskID :: string
  cin_SourceReportID :: string
  cin_SourceEvalReportID :: string
  cin_SourceEvalCaseID :: string
  cin_SourceEvalRunID :: string
  cin_CompareOrigin :: compareOrigin
  cin_CreatedBy :: string

record caseFilter =
  cf_TenantID :: string
  cf_Status :: string
  cf_AssignedTo :: string
  cf_UnassignedOnly :: bool
  cf_EvalBackedOnly :: bool
  cf_RunBackedOnly :: bool
  cf_CompareOriginOnly :: bool
  cf_ExcludeCompareOrigin :: bool
  cf_PlainEvalReportOnly :: bool
  cf_SourceTaskID :: string
  cf_SourceReportID :: string
  cf_SourceEvalReportID :: string
  cf_SourceEvalReportIDs :: "string list"
  cf_SourceEvalCaseID :: string
  cf_SourceEvalRunID :: string
  cf_Limit :: int
  cf_Offset :: int

text \<open>
  The four follow-up summaries have the same fields up to their names; the one of eval runs has
  the assignee of the latest case in addition.
\<close>

record followUpSummary =
  fus_SourceID :: string
  fus_CaseCount :: int
  fus_OpenCaseCount :: int
  fus_LatestCaseID :: string
  fus_LatestCaseStatus :: string

record runFollowUpSummary = followUpSummary +
  fus_LatestAssignedTo :: string

record caseState =
  cst_records :: "string \<rightharpoonup> caseRec"
  cst_notes :: "string \<rightharpoonup> caseNote list"
  cst_caseSeq :: u64
  cst_noteSeq :: u64

definition newCaseStore :: caseState where
  "newCaseStore =
     \<lparr>cst_records = Map.empty, cst_notes = Map.empty, cst_caseSeq = 0, cst_noteSeq = 0\<rparr>"

subsection \<open>The row order\<close>

definition caseIDNumericSuffix :: "string \<Rightarrow> u64 option" where
  "caseIDNumericSuffix i =
     (case lastIndexOf i ''-'' of
        None \<Rightarrow> None
      | Some lastDash \<Rightarrow>
          if lastDash + 1 = length i then None else parseUint64 (drop (lastDash + 1) i))"

definition caseSortsAfter :: "caseRec \<Rightarrow> caseRec \<Rightarrow> bool" where
  "caseSortsAfter left right =
     (if cs_UpdatedAt left \<noteq> cs_UpdatedAt right then cs_UpdatedAt left > cs_UpdatedAt right
      else if cs_CreatedAt left \<noteq> cs_CreatedAt right then cs_CreatedAt left > cs_CreatedAt right
      else case (caseIDNumericSuffix (cs_ID left), caseIDNumericSuffix (cs_ID right)) of
             (Some l, Some r) \<Rightarrow> if l \<noteq> r then l > r else cs_ID left > cs_ID right
           | _ \<Rightarrow> cs_ID left > cs_ID right)"

subsection \<open>The memory store\<close>

definition case_Save :: "caseRec \<Rightarrow> caseState \<Rightarrow> caseRec \<times> caseState" where
  "case_Save item s = (item, s\<lparr>cst_records := (cst_records s)(cs_ID item \<mapsto> item)\<rparr>)"

definition SaveOrReuseOpenEvalRunCase ::
    "string list \<Rightarrow> caseRec \<Rightarrow> caseState \<Rightarrow> (caseRec \<times> bool) \<times> caseState" where
  "SaveOrReuseOpenEvalRunCase ks item s =
     (case find (\<lambda>e. \<not> (cs_TenantID e \<noteq> cs_TenantID item \<or> cs_Status e \<noteq> CaseStatusOpen
                        \<or> cs_SourceEvalRunID e \<noteq> cs_SourceEvalRunID item))
                (rangeVals (cst_records s) ks) of
        Some existing \<Rightarrow> ((existing, False), s)
      | None \<Rightarrow> ((item, True), s\<lparr>cst_records := (cst_records s)(cs_ID item \<mapsto> item)\<rparr>))"

definition case_Get :: "string \<Rightarrow> caseState \<Rightarrow> caseError + caseRec" where
  "case_Get caseID s =
     (case cst_records s caseID of
        None \<Rightarrow> Inl (ErrCaseNotFound caseID)
      | Some item \<Rightarrow> Inr item)"

definition compareOriginMissing :: "caseRec \<Rightarrow> bool" where
  "compareOriginMissing item \<longleftrightarrow>
     co_LeftEvalReportID (cs_CompareOrigin item) = []
     \<or> co_RightEvalReportID (cs_CompareOrigin item) = []
     \<or> co_SelectedSide (cs_CompareOrigin item) = []"

definition caseMatches :: "caseFilter \<Rightarrow> caseRec \<Rightarrow> bool" where
  "caseMatches f item \<longleftrightarrow>
     (let allowed = filter (\<lambda>r. r \<noteq> []) (cf_SourceEvalReportIDs f) in
     \<not> (cf_TenantID f \<noteq> [] \<and> cs_TenantID item \<noteq> cf_TenantID f)
   \<and> \<not> (cf_Status f \<noteq> [] \<and> cs_Status item \<noteq> cf_Status f)
   \<and> \<not> (cf_AssignedTo f \<noteq> [] \<and> cs_AssignedTo item \<noteq> cf_AssignedTo f)
   \<and> \<not> (cf_UnassignedOnly f \<and> cs_AssignedTo item \<noteq> [])
   \<and> \<not> (cf_EvalBackedOnly f \<and> cs_SourceEvalReportID item = [])
   \<and> \<not> (cf_RunBackedOnly f \<and> cs_SourceEvalRunID item = [])
   \<and> \<not> (cf_CompareOriginOnly f \<and> compareOriginMissing item)
   \<and> \<not> (cf_ExcludeCompareOrigin f \<and> co_SelectedSide (cs_CompareOrigin item) \<noteq> [])
   \<and> \<not> (cf_PlainEvalReportOnly f \<and> cs_SourceEvalCaseID item \<noteq> [])
   \<and> \<not> (cf_SourceTaskID f \<noteq> [] \<and> cs_SourceTaskID item \<noteq> cf_SourceTaskID f)
   \<and> \<not> (cf_SourceReportID f \<noteq> [] \<and> cs_SourceReportID item \<noteq> cf_SourceReportID f)
   \<and> \<not> (cf_SourceEvalReportID f \<noteq> [] \<and> cs_SourceEvalReportID item \<noteq> cf_SourceEvalReportID f)
   \<and> \<not> (allowed \<noteq> [] \<and> cs_SourceEvalReportID item \<notin> set allowed)
   \<and> \<not> (cf_SourceEvalCaseID f \<noteq> [] \<and> cs_SourceEvalCaseID item \<noteq> cf_SourceEvalCaseID f)
   \<and> \<not> (cf_SourceEvalRunID f \<noteq> [] \<and> cs_SourceEvalRunID item \<noteq> cf_SourceEvalRunID f))"

definition case_List :: "string list \<Rightarrow> caseFilter \<Rightarrow> caseState \<Rightarrow> caseRec listPage option" where
  "case_List ks f s =
     pageWindow (cf_Limit f) (cf_Offset f)
       (goSort caseSortsAfter (filter (caseMatches f) (rangeVals (cst_records s) ks)))"

definition latestCase :: "caseRec \<Rightarrow> caseRec option \<Rightarrow> caseRec option" where
  "latestCase item best =
     (case best of None \<Rightarrow> Some item
                 | Some b \<Rightarrow> if caseSortsAfter item b then Some item else best)"

definition FindOpenByCompareOrigin ::
    "string list \<Rightarrow> string \<Rightarrow> string \<Rightarrow> compareOrigin \<Rightarrow> caseState \<Rightarrow> caseRec option" where
  "FindOpenByCompareOrigin ks tenantID sourceEvalReportID origin s =
     fold latestCase
       (filter (\<lambda>item. cs_TenantID item = tenantID \<and> cs_Status item = CaseStatusOpen
                  \<and> cs_SourceEvalReportID item = sourceEvalReportID
                  \<and> co_LeftEvalReportID (cs_CompareOrigin item) = co_LeftEvalReportID origin
                  \<and> co_RightEvalReportID (cs_CompareOrigin item) = co_RightEvalReportID origin
                  \<and> co_SelectedSide (cs_CompareOrigin item) = co_SelectedSide origin)
         (rangeVals (cst_records s) ks)) None"

subsection \<open>Follow-up summaries\<close>

text \<open>
  One iteration of the summary loops: \<open>zero\<close> is the zero value of the summary type, \<open>key\<close> the
  source identifier the cases are grouped by and \<open>mark\<close> what else the latest case sets.
\<close>

type_synonym 'z summaryLoop =
  "(string \<rightharpoonup> 'z followUpSummary_scheme) \<times> (string \<rightharpoonup> caseRec)"

definition summaryStep ::
    "'z followUpSummary_scheme \<Rightarrow> (caseRec \<Rightarrow> string)
     \<Rightarrow> (caseRec \<Rightarrow> 'z followUpSummary_scheme \<Rightarrow> 'z followUpSummary_scheme)
     \<Rightarrow> caseRec \<Rightarrow> 'z summaryLoop \<Rightarrow> 'z summaryLoop" where
  "summaryStep zero key mark item = (\<lambda>(summaries, latestCases).
     let sm0 = (case summaries (key item) of None \<Rightarrow> zero | Some x \<Rightarrow> x);
         sm1 = sm0\<lparr>fus_SourceID := key item, fus_CaseCount := fus_CaseCount sm0 + 1,
                   fus_OpenCaseCount := fus_OpenCaseCount sm0
                     + (if cs_Status item = CaseStatusOpen then 1 else 0)\<rparr>
     in if (case latestCases (key item) of None \<Rightarrow> True | Some l \<Rightarrow> caseSortsAfter item l)
        then (summaries(key item \<mapsto> mark item
                (sm1\<lparr>fus_LatestCaseID := cs_ID item, fus_LatestCaseStatus := cs_Status item\<rparr>)),
              latestCases(key item \<mapsto> item))
        else (summaries(key item \<mapsto> sm1), latestCases))"

definition summarizeBy ::
    "'z followUpSummary_scheme \<Rightarrow> (caseRec \<Rightarrow> string)
     \<Rightarrow> (caseRec \<Rightarrow> 'z followUpSummary_scheme \<Rightarrow> 'z followUpSummary_scheme)
     \<Rightarrow> (caseRec \<Rightarrow> bool) \<Rightarrow> string list \<Rightarrow> caseRec list \<Rightarrow> string \<rightharpoonup> 'z followUpSummary_scheme" where
  "summarizeBy zero key mark eligible ids items =
     (let allowed = filter (\<lambda>i. i \<noteq> []) ids;
          (summaries, _) = fold (summaryStep zero key mark)
             (filter (\<lambda>item. eligible item \<and> key item \<noteq> [] \<and> key item \<in> set allowed) items)
             (Map.empty, Map.empty)
      in (\<lambda>i. if i \<in> set allowed
              then (case summaries i of None \<Rightarrow> Some (zero\<lparr>fus_SourceID := i\<rparr>) | Some x \<Rightarrow> Some x)
              else summaries i))"

definition zeroSummary :: followUpSummary where
  "zeroSummary = \<lparr>fus_SourceID = [], fus_CaseCount = 0, fus_OpenCaseCount = 0,
     fus_LatestCaseID = [], fus_LatestCaseStatus = []\<rparr>"

definition zeroRunSummary :: runFollowUpSummary where
  "zeroRunSummary = \<lparr>fus_SourceID = [], fus_CaseCount = 0, fus_OpenCaseCount = 0,
     fus_LatestCaseID = [], fus_LatestCaseStatus = [], fus_LatestAssignedTo = []\<rparr>"

definition SummarizeBySourceEvalReportIDs ::
    "string list \<Rightarrow> string \<Rightarrow> string list \<Rightarrow> caseState \<Rightarrow> string \<rightharpoonup> followUpSummary" where
  "SummarizeBySourceEvalReportIDs ks tenantID reportIDs s =
     (if reportIDs = [] then Map.empty
      else summarizeBy zeroSummary cs_SourceEvalReportID (\<lambda>_ x. x)
             (\<lambda>item. cs_TenantID item = tenantID) reportIDs (rangeVals (cst_records s) ks))"

definition SummarizeCompareOriginBySourceEvalReportIDs ::
    "string list \<Rightarrow> string \<Rightarrow> string list \<Rightarrow> caseState \<Rightarrow> string \<rightharpoonup> followUpSummary" where
  "SummarizeCompareOriginBySourceEvalReportIDs ks tenantID reportIDs s =
     (if reportIDs = [] then Map.empty
      else summarizeBy zeroSummary cs_SourceEvalReportID (\<lambda>_ x. x)
             (\<lambda>item. cs_TenantID item = tenantID \<and> \<not> compareOriginMissing item)
             reportIDs (rangeVals (cst_records s) ks))"

definition SummarizeBySourceEvalCaseIDs ::
    "string list \<Rightarrow> string \<Rightarrow> string list \<Rightarrow> caseState \<Rightarrow> string \<rightharpoonup> followUpSummary" where
  "SummarizeBySourceEvalCaseIDs ks tenantID evalCaseIDs s =
     (if evalCaseIDs = [] then Map.empty
      else summarizeBy zeroSummary cs_SourceEvalCaseID (\<lambda>_ x. x)
             (\<lambda>item. cs_TenantID item = tenantID) evalCaseIDs (rangeVals (cst_records s) ks))"

definition SummarizeBySourceEvalRunIDs ::
    "string list \<Rightarrow> string \<Rightarrow> string list \<Rightarrow> caseState \<Rightarrow> string \<rightharpoonup> runFollowUpSummary" where
  "SummarizeBySourceEvalRunIDs ks tenantID runIDs s =
     (if runIDs = [] then Map.empty
      else summarizeBy zeroRunSummary cs_SourceEvalRunID
             (\<lambda>item x. x\<lparr>fus_LatestAssignedTo := cs_AssignedTo item\<rparr>)
             (\<lambda>item. cs_TenantID item = tenantID) runIDs (rangeVals (cst_records s) ks))"

subsection \<open>Notes and lifecycle\<close>

definition newCaseID :: "time \<Rightarrow> u64 \<Rightarrow> string" where
  "newCaseID now n = sequencedID ''case-'' now n"

definition newCaseNoteID :: "time \<Rightarrow> u64 \<Rightarrow> string" where
  "newCaseNoteID now n = sequencedID ''case-note-'' now n"

definition AppendNote :: "caseNote \<Rightarrow> caseState \<Rightarrow> (caseError + caseNote) \<times> caseState" where
  "AppendNote n s =
     (case cst_records s (cn_CaseID n) of
        None \<Rightarrow> (Inl (ErrCaseNotFound (cn_CaseID n)), s)
      | Some item \<Rightarrow>
          (Inr n, s\<lparr>cst_records := (cst_records s)(cn_CaseID n \<mapsto>
                       item\<lparr>cs_UpdatedAt := cn_CreatedAt n\<rparr>),
                    cst_notes := appendEntry (cst_notes s) (cn_CaseID n) n\<rparr>))"

fun newestNotes :: "nat \<Rightarrow> caseNote list \<Rightarrow> caseNote list" where
  "newestNotes 0 source = []"
| "newestNotes (Suc c) source =
     (if source = [] then [] else last source # newestNotes c (butlast source))"

definition ListNotes :: "string \<Rightarrow> int \<Rightarrow> caseState \<Rightarrow> caseError + caseNote list" where
  "ListNotes caseID limit s =
     (case cst_records s caseID of
        None \<Rightarrow> Inl (ErrCaseNotFound caseID)
      | Some _ \<Rightarrow>
          let limit' = (if limit \<le> 0 then 20 else limit);
              source = entries (cst_notes s) caseID
          in if source = [] then Inr []
             else
               let count = (if int (length source) > limit' then limit' else int (length source))
               in Inr (newestNotes (nat count) source))"

definition case_Close :: "string \<Rightarrow> string \<Rightarrow> time \<Rightarrow> caseState \<Rightarrow> (caseError + caseRec) \<times> caseState" where
  "case_Close caseID closedBy closedAt s =
     (case cst_records s caseID of
        None \<Rightarrow> (Inl (ErrCaseNotFound caseID), s)
      | Some item \<Rightarrow>
          if cs_Status item = CaseStatusClosed then (Inl ErrInvalidCaseState, s)
          else
            let item' = item\<lparr>cs_Status := CaseStatusClosed, cs_ClosedBy := closedBy,
                             cs_UpdatedAt := closedAt\<rparr>
            in (Inr item', s\<lparr>cst_records := (cst_records s)(caseID \<mapsto> item')\<rparr>))"

text \<open>The audit note that reopening and unassigning append; it draws a note identifier.\<close>

definition systemNote :: "time \<Rightarrow> caseRec \<Rightarrow> string \<Rightarrow> string \<Rightarrow> caseState \<Rightarrow> caseState" where
  "systemNote at item body author s =
     (let n = cst_noteSeq s + 1 in
      s\<lparr>cst_noteSeq := n,
        cst_notes := appendEntry (cst_notes s) (cs_ID item)
          \<lparr>cn_ID = newCaseNoteID at n, cn_TenantID = cs_TenantID item, cn_CaseID = cs_ID item,
           cn_Body = body, cn_CreatedBy = author, cn_CreatedAt = at\<rparr>\<rparr>)"

definition case_Reopen :: "string \<Rightarrow> string \<Rightarrow> time \<Rightarrow> caseState \<Rightarrow> (caseError + caseRec) \<times> caseState" where
  "case_Reopen caseID reopenedBy reopenedAt s =
     (case cst_records s caseID of
        None \<Rightarrow> (Inl (ErrCaseNotFound caseID), s)
      | Some item \<Rightarrow>
          if cs_Status item \<noteq> CaseStatusClosed then (Inl ErrInvalidCaseState, s)
          else
            let item' = item\<lparr>cs_Status := CaseStatusOpen, cs_ClosedBy := [],
                             cs_UpdatedAt := reopenedAt\<rparr>
            in (Inr item',
                systemNote reopenedAt item' (''case reopened by '' @ reopenedBy) reopenedBy
                  (s\<lparr>cst_records := (cst_records s)(caseID \<mapsto> item')\<rparr>)))"

definition case_Assign ::
    "string \<Rightarrow> string \<Rightarrow> time \<Rightarrow> time \<Rightarrow> caseState \<Rightarrow> (caseError + caseRec) \<times> caseState" where
  "case_Assign caseID assignedTo assignedAt expectedUpdatedAt s =
     (case cst_records s caseID of
        None \<Rightarrow> (Inl (ErrCaseNotFound caseID), s)
      | Some item \<Rightarrow>
          if cs_Status item = CaseStatusClosed then (Inl ErrInvalidCaseState, s)
          else if cs_UpdatedAt item \<noteq> expectedUpdatedAt then (Inl ErrCaseConflict, s)
          else
            let item' = item\<lparr>cs_AssignedTo := assignedTo, cs_AssignedAt := assignedAt,
                             cs_UpdatedAt := assignedAt\<rparr>
            in (Inr item', s\<lparr>cst_records := (cst_records s)(caseID \<mapsto> item')\<rparr>))"

definition case_Unassign ::
    "string \<Rightarrow> string \<Rightarrow> time \<Rightarrow> time \<Rightarrow> caseState \<Rightarrow> (caseError + caseRec) \<times> caseState" where
  "case_Unassign caseID unassignedBy unassignedAt expectedUpdatedAt s =
     (case cst_records s caseID of
        None \<Rightarrow> (Inl (ErrCaseNotFound caseID), s)
      | Some item \<Rightarrow>
          if cs_Status item = CaseStatusClosed then (Inl ErrInvalidCaseState, s)
          else if cs_AssignedTo item = [] then (Inl ErrInvalidCaseState, s)
          else if cs_UpdatedAt item \<noteq> expectedUpdatedAt then (Inl ErrCaseConflict, s)
          else
            let item' = item\<lparr>cs_AssignedTo := [], cs_AssignedAt := zeroTime,
                             cs_UpdatedAt := unassignedAt\<rparr>
            in (Inr item',
                systemNote unassignedAt item' (''case returned to queue by '' @ unassignedBy)
                  unassignedBy (s\<lparr>cst_records := (cst_records s)(caseID \<mapsto> item')\<rparr>)))"

subsection \<open>The service\<close>

definition CreateCaseWithOutcome ::
    "string list \<Rightarrow> time \<Rightarrow> caseInput \<Rightarrow> caseState \<Rightarrow> (caseRec \<times> bool) \<times> caseState" where
  "CreateCaseWithOutcome ks now input s =
     (let n = cst_caseSeq s + 1;
          s1 = s\<lparr>cst_caseSeq := n\<rparr>;
          item = \<lparr>cs_ID = newCaseID now n, cs_TenantID = cin_TenantID input,
                  cs_Status = CaseStatusOpen, cs_Title = cin_Title input,
                  cs_Summary = cin_Summary input, cs_SourceTaskID = cin_SourceTaskID input,
                  cs_SourceReportID = cin_SourceReportID input,
                  cs_SourceEvalReportID = cin_SourceEvalReportID input,
                  cs_SourceEvalCaseID = cin_SourceEvalCaseID input,
                  cs_SourceEvalRunID = cin_SourceEvalRunID input,
                  cs_CompareOrigin = cin_CompareOrigin input,
                  cs_CreatedBy = fallbackString (cin_CreatedBy input) ''operator'',
                  cs_AssignedTo = [], cs_AssignedAt = zeroTime, cs_ClosedBy = [],
                  cs_CreatedAt = now, cs_UpdatedAt = now\<rparr>
      in if cs_SourceEvalRunID item \<noteq> [] then SaveOrReuseOpenEvalRunCase ks item s1
         else let (saved, s2) = case_Save item s1 in ((saved, True), s2))"

definition emptyCaseFilter :: caseFilter where
  "emptyCaseFilter = \<lparr>cf_TenantID = [], cf_Status = [], cf_AssignedTo = [],
     cf_UnassignedOnly = False, cf_EvalBackedOnly = False, cf_RunBackedOnly = False,
     cf_CompareOriginOnly = False, cf_ExcludeCompareOrigin = False,
     cf_PlainEvalReportOnly = False, cf_SourceTaskID = [], cf_SourceReportID = [],
     cf_SourceEvalReportID = [], cf_SourceEvalReportIDs = [], cf_SourceEvalCaseID = [],
     cf_SourceEvalRunID = [], cf_Limit = 0, cf_Offset = 0\<rparr>"

definition firstOfPage :: "caseRec listPage option \<Rightarrow> caseRec option option" where
  "firstOfPage = map_option (\<lambda>p. case pageItems p of [] \<Rightarrow> None | c # _ \<Rightarrow> Some c)"

definition FindOpenCaseBySourceEvalCase ::
    "string list \<Rightarrow> string \<Rightarrow> string \<Rightarrow> caseState \<Rightarrow> caseRec option option" where
  "FindOpenCaseBySourceEvalCase ks tenantID sourceEvalCaseID s =
     firstOfPage (case_List ks (emptyCaseFilter\<lparr>cf_TenantID := tenantID,
       cf_Status := CaseStatusOpen, cf_ExcludeCompareOrigin := True,
       cf_SourceEvalCaseID := sourceEvalCaseID, cf_Limit := 1\<rparr>) s)"

definition FindOpenCaseBySourceEvalRun ::
    "string list \<Rightarrow> string \<Rightarrow> string \<Rightarrow> caseState \<Rightarrow> caseRec option option" where
  "FindOpenCaseBySourceEvalRun ks tenantID sourceEvalRunID s =
     firstOfPage (case_List ks (emptyCaseFilter\<lparr>cf_TenantID := tenantID,
       cf_Status := CaseStatusOpen, cf_SourceEvalRunID := sourceEvalRunID, cf_Limit := 1\<rparr>) s)"

definition FindOpenCaseBySourceEvalReport ::
    "string list \<Rightarrow> string \<Rightarrow> string \<Rightarrow> caseState \<Rightarrow> caseRec option option" where
  "FindOpenCaseBySourceEvalReport ks tenantID sourceEvalReportID s =
     firstOfPage (case_List ks (emptyCaseFilter\<lparr>cf_TenantID := tenantID,
       cf_Status := CaseStatusOpen, cf_ExcludeCompareOrigin := True,
       cf_PlainEvalReportOnly := True, cf_SourceEvalReportID := sourceEvalReportID,
       cf_Limit := 1\<rparr>) s)"

definition CloseCase :: "time \<Rightarrow> string \<Rightarrow> string \<Rightarrow> caseState \<Rightarrow> (caseError + caseRec) \<times> caseState" where
  "CloseCase now caseID closedBy s = case_Close caseID (fallbackString closedBy ''operator'') now s"

definition ReopenCase :: "time \<Rightarrow> string \<Rightarrow> string \<Rightarrow> caseState \<Rightarrow> (caseError + caseRec) \<times> caseState" where
  "ReopenCase now caseID reopenedBy s =
     case_Reopen caseID (fallbackString (trimSpace reopenedBy) ''operator'') now s"

definition AssignCase :: "time \<Rightarrow> caseRec \<Rightarrow> string \<Rightarrow> caseState \<Rightarrow> (caseError + caseRec) \<times> caseState" where
  "AssignCase now existing assignedTo s =
     case_Assign (cs_ID existing) (fallbackString (trimSpace assignedTo) ''operator'') now
       (cs_UpdatedAt existing) s"

definition UnassignCase :: "time \<Rightarrow> caseRec \<Rightarrow> string \<Rightarrow> caseState \<Rightarrow> (caseError + caseRec) \<times> caseState" where
  "UnassignCase now existing unassignedBy s =
     (if cs_Status existing \<noteq> CaseStatusOpen \<or> trimSpace (cs_AssignedTo existing) = []
      then (Inl ErrInvalidCaseState, s)
      else case_Unassign (cs_ID existing) (fallbackString (trimSpace unassignedBy) ''operator'') now
             (cs_UpdatedAt existing) s)"

definition AddNote ::
    "time \<Rightarrow> caseRec \<Rightarrow> string \<Rightarrow> string \<Rightarrow> caseState \<Rightarrow> (caseError + caseNote) \<times> caseState" where
  "AddNote now existing body createdBy s =
     (let body' = trimSpace body in
      if body' = [] then (Inl ErrInvalidNote, s)
      else
        let n = cst_noteSeq s + 1
        in AppendNote
             \<lparr>cn_ID = newCaseNoteID now n, cn_TenantID = cs_TenantID existing,
              cn_CaseID = cs_ID existing, cn_Body = body',
              cn_CreatedBy = fallbackString (trimSpace createdBy) ''operator'',
              cn_CreatedAt = now\<rparr> (s\<lparr>cst_noteSeq := n\<rparr>))"

end
