(* ===== verification/Case_Laws.thy ===== *)
theory Case_Laws
  imports Cases
begin

text \<open>
  What the case store and service guarantee: the row order on generated identifiers, listing,
  follow-up summaries, the lifecycle with its optimistic concurrency, the append-only notes, and
  the rule of one open case per evaluation run.
\<close>

subsection \<open>Identifiers and the row order\<close>

lemma lastIndexOf_char_none: "c \<notin> set s \<Longrightarrow> lastIndexOf s [c] = None"
  by (induction s) (auto simp: hasPrefix_def)

lemma lastIndexOf_char: "c \<notin> set s \<Longrightarrow> lastIndexOf (p @ c # s) [c] = Some (length p)"
  by (induction p) (auto simp: lastIndexOf_char_none hasPrefix_def)

lemma caseIDNumericSuffix_newCaseID [simp]: "caseIDNumericSuffix (newCaseID now n) = Some n"
proof -
  have "newCaseID now n = (''case-'' @ showInt (unixNano now)) @ CHR ''-'' # showNat (unat n)"
    by (simp add: newCaseID_def sequencedID_def)
  then show ?thesis
    unfolding caseIDNumericSuffix_def
    by (simp only: lastIndexOf_char [OF showNat_no_dash]) simp
qed

interpretation case_ids: id_source newCaseID caseIDNumericSuffix
  by unfold_locales simp

interpretation note_ids: id_source newCaseNoteID sequenceOf
  by unfold_locales (simp add: newCaseNoteID_def)

definition hasSuffixID :: "caseRec \<Rightarrow> bool" where
  "hasSuffixID c \<longleftrightarrow> caseIDNumericSuffix (cs_ID c) \<noteq> None"

interpretation case_order: record_order caseSortsAfter cs_ID hasSuffixID
  by unfold_locales
    (auto simp: caseSortsAfter_def hasSuffixID_def split: if_splits option.splits)

interpretation case_store: keyed_store
  "\<lambda>s k. cst_records s k" "\<lambda>s c. snd (case_Save c s)" cs_ID
  by unfold_locales (simp add: case_Save_def)

text \<open>
  On generated identifiers the row order is a strict total order, the later number first
  among rows of the same age; on arbitrary identifiers it is not even transitive.
\<close>

theorem caseSortsAfter_order:
  "(hasSuffixID a \<and> hasSuffixID b \<and> hasSuffixID c \<longrightarrow>
      \<not> caseSortsAfter a a
    \<and> (caseSortsAfter a b \<and> caseSortsAfter b c \<longrightarrow> caseSortsAfter a c)
    \<and> (cs_ID a \<noteq> cs_ID b \<longrightarrow> caseSortsAfter a b \<or> caseSortsAfter b a))
   \<and> (\<exists>x y z. caseSortsAfter x y \<and> caseSortsAfter y z \<and> caseSortsAfter z x)"
proof (intro conjI impI)
  assume a: "hasSuffixID a \<and> hasSuffixID b \<and> hasSuffixID c"
  show "\<not> caseSortsAfter a a" using a case_order.lt_irrefl by blast
  show "caseSortsAfter a b \<and> caseSortsAfter b c \<Longrightarrow> caseSortsAfter a c"
    using a case_order.lt_trans by blast
  show "cs_ID a \<noteq> cs_ID b \<Longrightarrow> caseSortsAfter a b \<or> caseSortsAfter b a"
    using a case_order.lt_total by blast
next
  obtain r :: caseRec where "cs_CreatedAt r = 0" "cs_UpdatedAt r = 0"
    by (metis caseRec.select_convs(16,17))
  let ?x = "r\<lparr>cs_ID := ''a-2''\<rparr>" and ?y = "r\<lparr>cs_ID := ''b-1''\<rparr>" and ?z = "r\<lparr>cs_ID := ''ab''\<rparr>"
  have "caseIDNumericSuffix ''a-2'' = Some 2" "caseIDNumericSuffix ''b-1'' = Some 1"
    "caseIDNumericSuffix ''ab'' = None"
    by (simp_all add: caseIDNumericSuffix_def hasPrefix_def parseUint64_def digitVal_def)
  moreover have "''b-1'' > ''ab''" "''ab'' > ''a-2''" by (simp_all add: less_char_def)
  ultimately have "caseSortsAfter ?x ?y" "caseSortsAfter ?y ?z" "caseSortsAfter ?z ?x"
    by (simp_all add: caseSortsAfter_def)
  then show "\<exists>x y z. caseSortsAfter x y \<and> caseSortsAfter y z \<and> caseSortsAfter z x" by blast
qed

text \<open>Rows for the concrete instances.\<close>

definition demoCase :: "u64 \<Rightarrow> string \<Rightarrow> string \<Rightarrow> time \<Rightarrow> caseRec" where
  "demoCase n status run t =
     \<lparr>cs_ID = newCaseID 0 n, cs_TenantID = ''acme'', cs_Status = status, cs_Title = [],
      cs_Summary = [], cs_SourceTaskID = [], cs_SourceReportID = [],
      cs_SourceEvalReportID = ''rep'', cs_SourceEvalCaseID = [], cs_SourceEvalRunID = run,
      cs_CompareOrigin = \<lparr>co_LeftEvalReportID = [], co_RightEvalReportID = [],
        co_SelectedSide = []\<rparr>,
      cs_CreatedBy = ''operator'', cs_AssignedTo = [], cs_AssignedAt = 0, cs_ClosedBy = [],
      cs_CreatedAt = t, cs_UpdatedAt = t\<rparr>"

lemma demoCase_suffix [simp]: "hasSuffixID (demoCase n status run t)"
  by (simp add: demoCase_def hasSuffixID_def)

lemma newCaseID_inj [simp]: "newCaseID t m = newCaseID t n \<longleftrightarrow> m = n"
  using case_ids.mkID_distinct by blast

lemma caseSortsAfter_order_witness:
  "caseSortsAfter (demoCase 3 ''open'' [] 5) (demoCase 2 ''open'' [] 5)
   \<or> caseSortsAfter (demoCase 2 ''open'' [] 5) (demoCase 3 ''open'' [] 5)"
  using caseSortsAfter_order [of "demoCase 3 ''open'' [] 5" "demoCase 2 ''open'' [] 5"
      "demoCase 2 ''open'' [] 5"]
  by (simp add: demoCase_def hasSuffixID_def)

subsection \<open>The store invariant\<close>

definition caseStateOK :: "caseState \<Rightarrow> bool" where
  "caseStateOK s \<longleftrightarrow>
     keyedBy cs_ID (cst_records s)
   \<and> (\<forall>k \<in> dom (cst_records s). \<exists>t w. k = newCaseID t w \<and> w \<le> cst_caseSeq s)
   \<and> (\<forall>k c. cst_records s k = Some c \<longrightarrow> cs_Status c \<in> {CaseStatusOpen, CaseStatusClosed})"

lemma caseStateOK_suffix:
  assumes "caseStateOK s" "cst_records s k = Some c"
  shows "hasSuffixID c" "cs_ID c = k"
proof -
  show "cs_ID c = k" using assms keyedByD unfolding caseStateOK_def by metis
  moreover obtain t w where "k = newCaseID t w" using assms unfolding caseStateOK_def by blast
  ultimately show "hasSuffixID c" by (simp add: hasSuffixID_def)
qed

lemma caseStateOK_ran: "caseStateOK s \<Longrightarrow> \<forall>c \<in> ran (cst_records s). hasSuffixID c"
  by (auto simp: ran_def dest: caseStateOK_suffix)

lemma caseStateOK_keyed: "caseStateOK s \<Longrightarrow> keyedBy cs_ID (cst_records s)"
  by (simp add: caseStateOK_def)

lemma caseStateOK_new [simp]: "caseStateOK newCaseStore"
  by (simp add: caseStateOK_def newCaseStore_def)

lemma caseStateOK_put:
  assumes "caseStateOK s" "cst_records s k = Some c" "cs_ID c' = cs_ID c"
    "cs_Status c' \<in> {CaseStatusOpen, CaseStatusClosed}"
    "cst_records s' = (cst_records s)(k \<mapsto> c')" "cst_caseSeq s' = cst_caseSeq s"
  shows "caseStateOK s'"
proof -
  have id: "cs_ID c' = k" using assms caseStateOK_suffix by metis
  have "keyedBy cs_ID (cst_records s')"
    using assms(1,5) id by (simp add: caseStateOK_def keyedBy_upd)
  moreover have "\<exists>t w. x = newCaseID t w \<and> w \<le> cst_caseSeq s'" if "x \<in> dom (cst_records s')" for x
    using assms(1,2,5,6) that unfolding caseStateOK_def by (auto split: if_splits)
  ultimately show ?thesis
    using assms(1,4,5) unfolding caseStateOK_def by simp
qed

subsection \<open>Listing\<close>

lemma caseMatches_window [simp]:
  "caseMatches (f\<lparr>cf_Offset := off\<rparr>) = caseMatches f"
  "caseMatches (f\<lparr>cf_Limit := lim\<rparr>) = caseMatches f"
  by (simp_all add: caseMatches_def fun_eq_iff)

definition caseRows :: "string list \<Rightarrow> caseFilter \<Rightarrow> caseState \<Rightarrow> caseRec list" where
  "caseRows ks f s = goSort caseSortsAfter (filter (caseMatches f) (rangeVals (cst_records s) ks))"

lemma caseRows_spec:
  assumes "caseStateOK s" "iterOrder (cst_records s) ks"
  shows "sorted_wrt caseSortsAfter (caseRows ks f s)"
    and "distinct (map cs_ID (caseRows ks f s))"
    and "set (caseRows ks f s) = {c. cst_records s (cs_ID c) = Some c \<and> caseMatches f c}"
    and "iterOrder (cst_records s) ks' \<Longrightarrow> caseRows ks' f s = caseRows ks f s"
    and "length (caseRows ks f s) \<le> card (dom (cst_records s))"
proof -
  have keyed: "keyedBy cs_ID (cst_records s)" using assms(1) by (rule caseStateOK_keyed)
  show "sorted_wrt caseSortsAfter (caseRows ks f s)"
    unfolding caseRows_def
    using case_order.goSort_range_sorted [OF keyed assms(2) caseStateOK_ran [OF assms(1)]] .
  show "distinct (map cs_ID (caseRows ks f s))"
    using assms(2) keyed by (simp add: caseRows_def distinct_idents_rangeVals distinct_map_filter)
  show "set (caseRows ks f s) = {c. cst_records s (cs_ID c) = Some c \<and> caseMatches f c}"
    using mem_rangeVals [OF assms(2) keyed] by (auto simp: caseRows_def)
  show "iterOrder (cst_records s) ks' \<Longrightarrow> caseRows ks' f s = caseRows ks f s"
    unfolding caseRows_def
    using case_order.goSort_range [OF keyed _ assms(2) caseStateOK_ran [OF assms(1)]] by blast
  have "length (caseRows ks f s) = card {k. \<exists>c. cst_records s k = Some c \<and> caseMatches f c}"
    unfolding caseRows_def using card_filter_rangeVals [OF assms(2) keyed] by simp
  also have "\<dots> \<le> card (dom (cst_records s))"
    using assms(2) unfolding iterOrder_def by (intro card_mono) (metis finite_set, auto)
  finally show "length (caseRows ks f s) \<le> card (dom (cst_records s))" .
qed

lemma case_List_rows: "case_List ks f s = pageWindow (cf_Limit f) (cf_Offset f) (caseRows ks f s)"
  by (simp add: case_List_def caseRows_def)

text \<open>
  Following \<open>NextOffset\<close> from the first page returns every case the filter accepts exactly
  once, newest first, although Go may iterate the record map in a new order at every page.
\<close>

theorem case_List_walk:
  assumes "caseStateOK s" "\<And>off. iterOrder (cst_records s) (order off)" "0 < cf_Limit f"
    and "int (card (dom (cst_records s))) + cf_Limit f < 2 ^ 63"
  shows "\<exists>rows. walkPages (Suc (length rows))
        (\<lambda>off. case_List (order off) (f\<lparr>cf_Offset := off\<rparr>) s) 0 = Some rows
    \<and> sorted_wrt caseSortsAfter rows \<and> distinct (map cs_ID rows)
    \<and> set rows = {c. cst_records s (cs_ID c) = Some c \<and> caseMatches f c}"
proof -
  let ?rows = "caseRows (order 0) f s"
  note spec = caseRows_spec [OF assms(1) assms(2) [of 0]]
  have "case_List (order off) (f\<lparr>cf_Offset := off\<rparr>) s = pageWindow (cf_Limit f) off ?rows" for off
    using spec(4) [OF assms(2) [of off], of f] by (simp add: case_List_def caseRows_def)
  moreover have "walkPages (Suc (length ?rows)) (\<lambda>off. pageWindow (cf_Limit f) off ?rows) 0
      = Some ?rows"
    using assms(3,4) spec(5) [of f] by (intro walk_pageWindow) linarith+
  ultimately show ?thesis using spec(1-3) by (intro exI [of _ ?rows]) simp
qed

definition demoCases :: caseState where
  "demoCases = newCaseStore
     \<lparr>cst_records := [newCaseID 0 1 \<mapsto> demoCase 1 ''closed'' ''run'' 4,
                      newCaseID 0 2 \<mapsto> demoCase 2 ''open'' ''run'' 6],
      cst_caseSeq := 2\<rparr>"

lemma demoCases_ok [simp]: "caseStateOK demoCases"
proof -
  have "\<exists>t w. newCaseID 0 1 = newCaseID t w \<and> w \<le> (2::u64)"
    by (intro exI [of _ 0] exI [of _ 1]) simp
  moreover have "\<exists>t w. newCaseID 0 2 = newCaseID t w \<and> w \<le> (2::u64)"
    by (intro exI [of _ 0] exI [of _ 2]) simp
  ultimately show ?thesis
    by (auto simp: caseStateOK_def demoCases_def keyedBy_def demoCase_def newCaseStore_def)
qed

lemma demoCases_order [simp]: "iterOrder (cst_records demoCases) [newCaseID 0 2, newCaseID 0 1]"
  by (auto simp: iterOrder_def demoCases_def newCaseStore_def)

lemma demoCases_card [simp]: "card (dom (cst_records demoCases)) = 2"
  by (simp add: demoCases_def newCaseStore_def)

lemma case_List_walk_witness:
  "\<exists>rows. walkPages (Suc (length rows)) (\<lambda>off. case_List [newCaseID 0 2, newCaseID 0 1]
      (emptyCaseFilter\<lparr>cf_Limit := 1, cf_Offset := off\<rparr>) demoCases) 0 = Some rows
    \<and> set rows = {c. cst_records demoCases (cs_ID c) = Some c
        \<and> caseMatches (emptyCaseFilter\<lparr>cf_Limit := 1\<rparr>) c}"
  using case_List_walk [of demoCases "\<lambda>_. [newCaseID 0 2, newCaseID 0 1]"
      "emptyCaseFilter\<lparr>cf_Limit := 1\<rparr>"] by (auto simp: emptyCaseFilter_def)

subsection \<open>Latest cases and follow-up summaries\<close>

definition isLatest :: "caseRec set \<Rightarrow> caseRec \<Rightarrow> bool" where
  "isLatest C c \<longleftrightarrow> c \<in> C \<and> (\<forall>x \<in> C. x = c \<or> caseSortsAfter c x)"

lemma latestCase_simps [simp]:
  "latestCase x None = Some x"
  "latestCase x (Some b) = Some (if caseSortsAfter x b then x else b)"
  by (simp_all add: latestCase_def)

lemma fold_latestCase:
  assumes "\<forall>x \<in> set xs. hasSuffixID x" "distinct (map cs_ID xs)"
  shows "case fold latestCase xs None of None \<Rightarrow> xs = [] | Some c \<Rightarrow> isLatest (set xs) c"
  using assms
proof (induction xs rule: rev_induct)
  case Nil
  then show ?case by simp
next
  case (snoc x xs)
  show ?case
  proof (cases "fold latestCase xs None")
    case None
    with snoc have "xs = []" by simp
    then show ?thesis by (simp add: isLatest_def)
  next
    case (Some b)
    with snoc have b: "isLatest (set xs) b" by simp
    then have ids: "cs_ID x \<noteq> cs_ID b" "hasSuffixID x" "hasSuffixID b"
      using snoc.prems by (force simp: isLatest_def)+
    show ?thesis
    proof (cases "caseSortsAfter x b")
      case True
      have "caseSortsAfter x y" if "y \<in> set xs" for y
        using b True ids snoc.prems(1) that case_order.lt_trans [of x b y]
        unfolding isLatest_def by auto
      with Some True show ?thesis by (simp add: isLatest_def)
    next
      case False
      then have "caseSortsAfter b x" using ids case_order.lt_total by metis
      with b Some False show ?thesis by (auto simp: isLatest_def)
    qed
  qed
qed

definition marks :: "(caseRec \<Rightarrow> 'z followUpSummary_scheme \<Rightarrow> 'z followUpSummary_scheme) \<Rightarrow> bool" where
  "marks mark \<longleftrightarrow> (\<forall>c x. fus_SourceID (mark c x) = fus_SourceID x
     \<and> fus_CaseCount (mark c x) = fus_CaseCount x
     \<and> fus_OpenCaseCount (mark c x) = fus_OpenCaseCount x
     \<and> fus_LatestCaseID (mark c x) = fus_LatestCaseID x
     \<and> fus_LatestCaseStatus (mark c x) = fus_LatestCaseStatus x)"

definition summaryOf :: "string \<Rightarrow> caseRec list \<Rightarrow> 'z followUpSummary_scheme \<Rightarrow> bool" where
  "summaryOf k cs y \<longleftrightarrow>
     fus_SourceID y = k \<and> fus_CaseCount y = int (length cs)
   \<and> fus_OpenCaseCount y = int (length (filter (\<lambda>c. cs_Status c = CaseStatusOpen) cs))
   \<and> (case fold latestCase cs None of
        None \<Rightarrow> fus_LatestCaseID y = [] \<and> fus_LatestCaseStatus y = []
      | Some l \<Rightarrow> fus_LatestCaseID y = cs_ID l \<and> fus_LatestCaseStatus y = cs_Status l)"

lemma fold_latestCase_some: "fold latestCase xs (Some b) \<noteq> None"
  by (induction xs arbitrary: b) auto

lemma fold_latestCase_none [simp]: "fold latestCase xs None = None \<longleftrightarrow> xs = []"
proof (cases xs)
  case (Cons x xs')
  then show ?thesis using fold_latestCase_some [of xs' x] by simp
qed simp

lemma summary_fold:
  assumes "marks mark" "fus_CaseCount zero = 0" "fus_OpenCaseCount zero = 0"
  shows "snd (fold (summaryStep zero key mark) xs (Map.empty, Map.empty)) k
      = fold latestCase (filter (\<lambda>c. key c = k) xs) None
    \<and> (case fst (fold (summaryStep zero key mark) xs (Map.empty, Map.empty)) k of
         None \<Rightarrow> filter (\<lambda>c. key c = k) xs = []
       | Some y \<Rightarrow> filter (\<lambda>c. key c = k) xs \<noteq> [] \<and> summaryOf k (filter (\<lambda>c. key c = k) xs) y)"
proof (induction xs rule: rev_induct)
  case Nil
  then show ?case by simp
next
  case (snoc x xs)
  obtain S L where SL: "fold (summaryStep zero key mark) xs (Map.empty, Map.empty) = (S, L)"
    by force
  then have st: "fold (summaryStep zero key mark) (xs @ [x]) (Map.empty, Map.empty)
      = summaryStep zero key mark x (S, L)" by simp
  have old: "L k = fold latestCase (filter (\<lambda>c. key c = k) xs) None"
    "case S k of None \<Rightarrow> filter (\<lambda>c. key c = k) xs = []
       | Some y \<Rightarrow> filter (\<lambda>c. key c = k) xs \<noteq> [] \<and> summaryOf k (filter (\<lambda>c. key c = k) xs) y"
    using snoc SL by simp_all
  show ?case
  proof (cases "key x = k")
    case False
    have "fst (summaryStep zero key mark x (S, L)) k = S k"
      "snd (summaryStep zero key mark x (S, L)) k = L k"
      using False by (auto simp: summaryStep_def Let_def)
    moreover have "filter (\<lambda>c. key c = k) (xs @ [x]) = filter (\<lambda>c. key c = k) xs"
      using False by simp
    ultimately show ?thesis unfolding st using old by (cases "S k") (simp_all del: filter_append)
  next
    case True
    let ?ys = "filter (\<lambda>c. key c = k) xs"
    have ys: "filter (\<lambda>c. key c = k) (xs @ [x]) = ?ys @ [x]" using True by simp
    show ?thesis
    proof (cases "S k")
      case None
      with old have "?ys = []" "L k = None" by simp_all
      moreover from this None True have "snd (summaryStep zero key mark x (S, L)) k = Some x"
        "\<exists>y. fst (summaryStep zero key mark x (S, L)) k = Some y \<and> summaryOf k [x] y"
        using assms by (auto simp: summaryStep_def summaryOf_def marks_def Let_def)
      ultimately show ?thesis unfolding st ys by auto
    next
      case (Some y)
      with old have y: "?ys \<noteq> []" "summaryOf k ?ys y" by simp_all
      then obtain l where l: "fold latestCase ?ys None = Some l"
        by (cases "fold latestCase ?ys None") auto
      with old(1) have "L k = Some l" by simp
      with Some True y(2) l have
        "snd (summaryStep zero key mark x (S, L)) k = Some (if caseSortsAfter x l then x else l)"
        "\<exists>y'. fst (summaryStep zero key mark x (S, L)) k = Some y' \<and> summaryOf k (?ys @ [x]) y'"
        using assms(1) by (auto simp: summaryStep_def summaryOf_def marks_def Let_def)
      with l show ?thesis unfolding st ys by auto
    qed
  qed
qed

text \<open>What a summary says of the stored cases of one source.\<close>

definition summaryCorrect ::
    "(caseRec \<Rightarrow> string) \<Rightarrow> (caseRec \<Rightarrow> bool) \<Rightarrow> caseState \<Rightarrow> string
     \<Rightarrow> 'z followUpSummary_scheme \<Rightarrow> bool" where
  "summaryCorrect key eligible s k y \<longleftrightarrow>
     (let C = {c. cst_records s (cs_ID c) = Some c \<and> eligible c \<and> key c = k} in
        fus_SourceID y = k
      \<and> fus_CaseCount y = int (card C)
      \<and> fus_OpenCaseCount y = int (card {c \<in> C. cs_Status c = CaseStatusOpen})
      \<and> (if C = {} then fus_LatestCaseID y = [] \<and> fus_LatestCaseStatus y = []
          else \<exists>l. isLatest C l \<and> fus_LatestCaseID y = cs_ID l
                 \<and> fus_LatestCaseStatus y = cs_Status l))"

lemma summaryOf_correct:
  assumes "distinct (map cs_ID cs)" "\<forall>c \<in> set cs. hasSuffixID c" "summaryOf k cs y"
    and "set cs = {c. cst_records s (cs_ID c) = Some c \<and> eligible c \<and> key c = k}"
  shows "summaryCorrect key eligible s k y"
proof -
  define C where "C = {c. cst_records s (cs_ID c) = Some c \<and> eligible c \<and> key c = k}"
  have C: "set cs = C" using assms(4) by (simp add: C_def)
  have d: "distinct cs" using assms(1) by (simp add: distinct_map)
  then have "int (length cs) = int (card C)" using C by (simp add: distinct_card [symmetric])
  moreover have "int (length (filter (\<lambda>c. cs_Status c = CaseStatusOpen) cs))
      = int (card {c \<in> C. cs_Status c = CaseStatusOpen})"
    using distinct_card [OF distinct_filter [OF d]] C by simp
  moreover have "(case fold latestCase cs None of None \<Rightarrow> cs = [] | Some c \<Rightarrow> isLatest C c)"
    using fold_latestCase [OF assms(2,1)] unfolding C .
  moreover have "cs = [] \<longleftrightarrow> C = {}" using C by auto
  ultimately show ?thesis
    using assms(3) unfolding summaryCorrect_def summaryOf_def C_def [symmetric] Let_def
    by (cases "fold latestCase cs None") auto
qed

lemma summarizeBy_correct:
  assumes "caseStateOK s" "iterOrder (cst_records s) ks" "marks mark"
    and zero: "fus_CaseCount zero = 0" "fus_OpenCaseCount zero = 0"
      "fus_LatestCaseID zero = []" "fus_LatestCaseStatus zero = []"
  shows "case summarizeBy zero key mark eligible ids (rangeVals (cst_records s) ks) k of
      None \<Rightarrow> k = [] \<or> k \<notin> set ids
    | Some y \<Rightarrow> k \<noteq> [] \<and> k \<in> set ids \<and> summaryCorrect key eligible s k y"
proof -
  have keyed: "keyedBy cs_ID (cst_records s)" using assms(1) by (rule caseStateOK_keyed)
  let ?allowed = "filter (\<lambda>i. i \<noteq> []) ids"
  let ?rows = "rangeVals (cst_records s) ks"
  let ?xs = "filter (\<lambda>item. eligible item \<and> key item \<noteq> [] \<and> key item \<in> set ?allowed) ?rows"
  let ?ys = "filter (\<lambda>c. key c = k) ?xs"
  obtain S L where SL: "fold (summaryStep zero key mark) ?xs (Map.empty, Map.empty) = (S, L)"
    by force
  have res: "summarizeBy zero key mark eligible ids ?rows k =
    (if k \<in> set ?allowed
     then (case S k of None \<Rightarrow> Some (zero\<lparr>fus_SourceID := k\<rparr>) | Some x \<Rightarrow> Some x) else S k)"
    unfolding summarizeBy_def Let_def SL by simp
  have st: "case S k of None \<Rightarrow> ?ys = [] | Some y \<Rightarrow> ?ys \<noteq> [] \<and> summaryOf k ?ys y"
    using summary_fold [OF assms(3) zero(1,2), where key = key and xs = ?xs and k = k]
    unfolding SL by (simp only: fst_conv)
  have in_rows: "c \<in> set ?rows \<longleftrightarrow> cst_records s (cs_ID c) = Some c" for c
    by (rule mem_rangeVals [OF assms(2) keyed])
  show ?thesis
  proof (cases "k \<in> set ?allowed")
    case False
    then have "?ys = []" by (auto simp: filter_empty_conv)
    with st have "S k = None" by (cases "S k") auto
    with res False show ?thesis by auto
  next
    case True
    have "set ?ys = {c. cst_records s (cs_ID c) = Some c \<and> eligible c \<and> key c = k}"
      using True in_rows by auto
    moreover have "distinct (map cs_ID ?ys)"
      using distinct_idents_rangeVals [OF keyed assms(2)] by (simp add: distinct_map_filter)
    moreover have "\<forall>c \<in> set ?ys. hasSuffixID c"
      using in_rows caseStateOK_suffix(1) [OF assms(1)] by auto
    ultimately have corr: "summaryOf k ?ys y \<Longrightarrow> summaryCorrect key eligible s k y" for y :: "'a followUpSummary_scheme"
      by (intro summaryOf_correct)
    show ?thesis
    proof (cases "S k")
      case None
      with st have "?ys = []" by simp
      then have "summaryOf k ?ys (zero\<lparr>fus_SourceID := k\<rparr>)" using zero by (simp add: summaryOf_def)
      with res None True corr show ?thesis by auto
    next
      case (Some y)
      with st have "summaryOf k ?ys y" by simp
      with res Some True corr show ?thesis by auto
    qed
  qed
qed

text \<open>
  C25: The four follow-up summaries cover exactly the requested non-empty source identifiers.
  Each counts the cases of the tenant with that source and the open ones among them, and names
  the latest of them, whatever order the record map is iterated in.
\<close>

theorem summaries_correct:
  assumes "caseStateOK s" "iterOrder (cst_records s) ks" "k \<in> set ids" "k \<noteq> []"
  shows "(\<exists>y. SummarizeBySourceEvalReportIDs ks tenant ids s k = Some y
        \<and> summaryCorrect cs_SourceEvalReportID (\<lambda>c. cs_TenantID c = tenant) s k y)
    \<and> (\<exists>y. SummarizeCompareOriginBySourceEvalReportIDs ks tenant ids s k = Some y
        \<and> summaryCorrect cs_SourceEvalReportID
             (\<lambda>c. cs_TenantID c = tenant \<and> \<not> compareOriginMissing c) s k y)
    \<and> (\<exists>y. SummarizeBySourceEvalCaseIDs ks tenant ids s k = Some y
        \<and> summaryCorrect cs_SourceEvalCaseID (\<lambda>c. cs_TenantID c = tenant) s k y)
    \<and> (\<exists>y. SummarizeBySourceEvalRunIDs ks tenant ids s k = Some y
        \<and> summaryCorrect cs_SourceEvalRunID (\<lambda>c. cs_TenantID c = tenant) s k y)"
proof -
  have ids: "ids \<noteq> []" using assms(3) by auto
  have m: "marks (\<lambda>_ x. x)" "marks (\<lambda>item x. x\<lparr>fus_LatestAssignedTo := cs_AssignedTo item\<rparr>)"
    by (simp_all add: marks_def)
  have z: "\<exists>y. summarizeBy zeroSummary key (\<lambda>_ x. x) eligible ids (rangeVals (cst_records s) ks) k
      = Some y \<and> summaryCorrect key eligible s k y" for key eligible
    using summarizeBy_correct [OF assms(1,2) m(1), where zero = zeroSummary and key = key
        and eligible = eligible and ids = ids and k = k] assms(3,4)
    by (auto simp: zeroSummary_def split: option.splits)
  have r: "\<exists>y. summarizeBy zeroRunSummary key (\<lambda>item x. x\<lparr>fus_LatestAssignedTo := cs_AssignedTo item\<rparr>)
      eligible ids (rangeVals (cst_records s) ks) k
      = Some y \<and> summaryCorrect key eligible s k y" for key eligible
    using summarizeBy_correct [OF assms(1,2) m(2), where zero = zeroRunSummary and key = key
        and eligible = eligible and ids = ids and k = k] assms(3,4)
    by (auto simp: zeroRunSummary_def split: option.splits)
  show ?thesis
    unfolding SummarizeBySourceEvalReportIDs_def SummarizeCompareOriginBySourceEvalReportIDs_def
      SummarizeBySourceEvalCaseIDs_def SummarizeBySourceEvalRunIDs_def
    using z r ids by simp
qed

lemma summaries_correct_witness:
  "\<exists>y. SummarizeBySourceEvalRunIDs [newCaseID 0 2, newCaseID 0 1] ''acme'' [''run''] demoCases ''run''
     = Some y
   \<and> summaryCorrect cs_SourceEvalRunID (\<lambda>c. cs_TenantID c = ''acme'') demoCases ''run'' y"
  using summaries_correct [OF demoCases_ok demoCases_order, of "''run''" "[''run'']" "''acme''"]
  by simp

definition openWithOrigin :: "caseState \<Rightarrow> string \<Rightarrow> string \<Rightarrow> compareOrigin \<Rightarrow> caseRec set" where
  "openWithOrigin s tenant rep origin =
     {c. cst_records s (cs_ID c) = Some c \<and> cs_TenantID c = tenant
       \<and> cs_Status c = CaseStatusOpen \<and> cs_SourceEvalReportID c = rep \<and> cs_CompareOrigin c = origin}"

text \<open>
  The lookup by compare lineage returns the latest open case of that tenant, report and
  lineage when there is one, and nothing otherwise.
\<close>

theorem FindOpenByCompareOrigin_latest:
  assumes "caseStateOK s" "iterOrder (cst_records s) ks"
  shows "case FindOpenByCompareOrigin ks tenant rep origin s of
      None \<Rightarrow> openWithOrigin s tenant rep origin = {}
    | Some c \<Rightarrow> isLatest (openWithOrigin s tenant rep origin) c"
proof -
  have keyed: "keyedBy cs_ID (cst_records s)" using assms(1) by (rule caseStateOK_keyed)
  let ?p = "\<lambda>item. cs_TenantID item = tenant \<and> cs_Status item = CaseStatusOpen
                  \<and> cs_SourceEvalReportID item = rep
                  \<and> co_LeftEvalReportID (cs_CompareOrigin item) = co_LeftEvalReportID origin
                  \<and> co_RightEvalReportID (cs_CompareOrigin item) = co_RightEvalReportID origin
                  \<and> co_SelectedSide (cs_CompareOrigin item) = co_SelectedSide origin"
  let ?xs = "filter ?p (rangeVals (cst_records s) ks)"
  have mem: "c \<in> set (rangeVals (cst_records s) ks) \<longleftrightarrow> cst_records s (cs_ID c) = Some c" for c
    by (rule mem_rangeVals [OF assms(2) keyed])
  have C: "set ?xs = openWithOrigin s tenant rep origin"
    unfolding openWithOrigin_def by (auto simp: mem)
  have "\<forall>c \<in> set ?xs. hasSuffixID c" using mem caseStateOK_suffix(1) [OF assms(1)] by auto
  moreover have "distinct (map cs_ID ?xs)"
    using distinct_idents_rangeVals [OF keyed assms(2)] by (simp add: distinct_map_filter)
  ultimately have "case fold latestCase ?xs None of None \<Rightarrow> ?xs = [] | Some c \<Rightarrow> isLatest (set ?xs) c"
    by (rule fold_latestCase)
  moreover have "?xs = [] \<longleftrightarrow> openWithOrigin s tenant rep origin = {}"
    unfolding C [symmetric] by (rule set_empty [symmetric])
  ultimately show ?thesis unfolding FindOpenByCompareOrigin_def C by (simp split: option.splits)
qed

lemma FindOpenByCompareOrigin_latest_witness:
  "case FindOpenByCompareOrigin [newCaseID 0 2, newCaseID 0 1] ''acme'' ''rep''
       (cs_CompareOrigin (demoCase 1 [] [] 0)) demoCases of
     None \<Rightarrow> openWithOrigin demoCases ''acme'' ''rep'' (cs_CompareOrigin (demoCase 1 [] [] 0)) = {}
   | Some c \<Rightarrow> isLatest (openWithOrigin demoCases ''acme'' ''rep''
                  (cs_CompareOrigin (demoCase 1 [] [] 0))) c"
  by (rule FindOpenByCompareOrigin_latest) simp_all

end
