(* ===== verification/Case_Lifecycle.thy ===== *)
theory Case_Lifecycle
  imports Case_Laws
begin

text \<open>
  The life of a case: its operations as a transition system, the rule of one open case per
  evaluation run, optimistic concurrency of assignments, and notes.
\<close>

subsection \<open>The transition system\<close>

inductive caseStep :: "bool \<Rightarrow> caseState \<Rightarrow> caseState \<Rightarrow> bool" for mayReopen :: bool where
  create: "\<lbrakk>iterOrder (cst_records s) ks; cst_caseSeq s < - 1;
      CreateCaseWithOutcome ks now input s = (r, s')\<rbrakk> \<Longrightarrow> caseStep mayReopen s s'"
| close: "CloseCase now i who s = (r', s') \<Longrightarrow> caseStep mayReopen s s'"
| reopen: "mayReopen \<Longrightarrow> ReopenCase now i who s = (r', s') \<Longrightarrow> caseStep mayReopen s s'"
| assign: "AssignCase now e who s = (r', s') \<Longrightarrow> caseStep mayReopen s s'"
| unassign: "UnassignCase now e who s = (r', s') \<Longrightarrow> caseStep mayReopen s s'"
| addNote: "AddNote now e body who s = (r'', s') \<Longrightarrow> caseStep mayReopen s s'"

inductive caseReach :: "bool \<Rightarrow> caseState \<Rightarrow> bool" for mayReopen :: bool where
  start: "caseReach mayReopen newCaseStore"
| step: "caseReach mayReopen s \<Longrightarrow> caseStep mayReopen s s' \<Longrightarrow> caseReach mayReopen s'"

text \<open>What the operations on an existing case may do to the store.\<close>

definition sameSource :: "caseRec \<Rightarrow> caseRec \<Rightarrow> bool" where
  "sameSource c c' \<longleftrightarrow> (\<exists>st a at cl up. c' = c\<lparr>cs_Status := st, cs_AssignedTo := a,
     cs_AssignedAt := at, cs_ClosedBy := cl, cs_UpdatedAt := up\<rparr>)"

definition notesGrow :: "caseState \<Rightarrow> caseState \<Rightarrow> bool" where
  "notesGrow s s' \<longleftrightarrow> (\<forall>k. \<exists>ns. entries (cst_notes s') k = entries (cst_notes s) k @ ns)"

definition updatesOne :: "bool \<Rightarrow> caseState \<Rightarrow> caseState \<Rightarrow> bool" where
  "updatesOne mayReopen s s' \<longleftrightarrow>
     cst_caseSeq s' = cst_caseSeq s \<and> notesGrow s s'
   \<and> (cst_records s' = cst_records s \<or>
      (\<exists>k c c'. cst_records s k = Some c \<and> cst_records s' = (cst_records s)(k \<mapsto> c')
         \<and> sameSource c c' \<and> cs_Status c' \<in> {CaseStatusOpen, cs_Status c, CaseStatusClosed}
         \<and> (cs_Status c' = CaseStatusOpen \<longrightarrow> mayReopen \<or> cs_Status c = CaseStatusOpen)))"

lemma sameSource_fields:
  "sameSource c c' \<Longrightarrow> cs_ID c' = cs_ID c \<and> cs_TenantID c' = cs_TenantID c
     \<and> cs_SourceEvalRunID c' = cs_SourceEvalRunID c \<and> cs_CreatedAt c' = cs_CreatedAt c"
  by (auto simp: sameSource_def)

lemma notesGrow_refl [simp]: "notesGrow s s"
  by (simp add: notesGrow_def)

lemma notesGrow_same: "cst_notes s' = cst_notes s \<Longrightarrow> notesGrow s s'"
  by (simp add: notesGrow_def)

lemma notesGrow_append: "cst_notes s' = appendEntry (cst_notes s) k n \<Longrightarrow> notesGrow s s'"
  by (auto simp: notesGrow_def)

lemma notesGrow_trans: "notesGrow s s1 \<Longrightarrow> notesGrow s1 s2 \<Longrightarrow> notesGrow s s2"
  unfolding notesGrow_def by (metis append.assoc)

lemma updatesOne_refl [simp]: "updatesOne m s s"
  by (simp add: updatesOne_def)

lemma systemNote_fields [simp]:
  "cst_records (systemNote at c body who s) = cst_records s"
  "cst_caseSeq (systemNote at c body who s) = cst_caseSeq s"
  "cst_notes (systemNote at c body who s) = appendEntry (cst_notes s) (cs_ID c)
     \<lparr>cn_ID = newCaseNoteID at (cst_noteSeq s + 1), cn_TenantID = cs_TenantID c, cn_CaseID = cs_ID c,
      cn_Body = body, cn_CreatedBy = who, cn_CreatedAt = at\<rparr>"
  by (simp_all add: systemNote_def Let_def)

lemma updatesOne_put:
  assumes "cst_records s k = Some c" "cst_records s' = (cst_records s)(k \<mapsto> c')" "sameSource c c'"
    and "cst_caseSeq s' = cst_caseSeq s" "notesGrow s s'"
    and "cs_Status c' \<in> {CaseStatusOpen, cs_Status c, CaseStatusClosed}"
    and "cs_Status c' = CaseStatusOpen \<longrightarrow> m \<or> cs_Status c = CaseStatusOpen"
  shows "updatesOne m s s'"
  unfolding updatesOne_def using assms by blast

lemma sameSource_all: "sameSource c (c\<lparr>cs_Status := st, cs_AssignedTo := a, cs_AssignedAt := at,
    cs_ClosedBy := cl, cs_UpdatedAt := up\<rparr>)"
  unfolding sameSource_def by blast

lemma sameSource_updates [simp]:
  "sameSource c (c\<lparr>cs_Status := st, cs_ClosedBy := cl, cs_UpdatedAt := up\<rparr>)"
  "sameSource c (c\<lparr>cs_AssignedTo := a, cs_AssignedAt := at, cs_UpdatedAt := up\<rparr>)"
  "sameSource c (c\<lparr>cs_UpdatedAt := up\<rparr>)"
  using sameSource_all [where c = c and st = st and a = "cs_AssignedTo c" and at = "cs_AssignedAt c"
      and cl = cl and up = up]
    sameSource_all [where c = c and st = "cs_Status c" and a = a and at = at
      and cl = "cs_ClosedBy c" and up = up]
    sameSource_all [where c = c and st = "cs_Status c" and a = "cs_AssignedTo c"
      and at = "cs_AssignedAt c" and cl = "cs_ClosedBy c" and up = up]
  by simp_all

lemma Close_updates: "case_Close i who now s = (r, s') \<Longrightarrow> updatesOne m s s'"
  by (auto simp: case_Close_def Let_def split: option.splits if_splits
      intro!: updatesOne_put notesGrow_same)

lemma Reopen_updates: "case_Reopen i who now s = (r, s') \<Longrightarrow> updatesOne True s s'"
  by (auto simp: case_Reopen_def Let_def split: option.splits if_splits
      intro!: updatesOne_put notesGrow_append)

lemma Assign_updates: "case_Assign i who now ex s = (r, s') \<Longrightarrow> updatesOne m s s'"
  by (auto simp: case_Assign_def Let_def split: option.splits if_splits
      intro!: updatesOne_put notesGrow_same)

lemma Unassign_updates: "case_Unassign i who now ex s = (r, s') \<Longrightarrow> updatesOne m s s'"
  by (auto simp: case_Unassign_def Let_def split: option.splits if_splits
      intro!: updatesOne_put notesGrow_append)

lemma AddNote_updates:
  assumes "AddNote now e body who s = (r, s')"
  shows "updatesOne m s s'"
proof (cases "cst_records s (cs_ID e)")
  case None
  with assms show ?thesis
    by (auto simp: AddNote_def AppendNote_def Let_def updatesOne_def split: if_splits
        intro: notesGrow_same)
next
  case (Some c)
  with assms show ?thesis
    by (auto simp: AddNote_def AppendNote_def Let_def split: if_splits
        intro!: updatesOne_put [OF Some] notesGrow_append)
qed

lemma step_updates:
  assumes "caseStep m s s'"
  shows "updatesOne m s s' \<or> (\<exists>ks now input r. iterOrder (cst_records s) ks
    \<and> cst_caseSeq s < - 1 \<and> CreateCaseWithOutcome ks now input s = (r, s'))"
  using assms
  by cases
    (auto simp: CloseCase_def ReopenCase_def AssignCase_def UnassignCase_def
      split: if_splits intro: Close_updates Reopen_updates Assign_updates Unassign_updates
        AddNote_updates)

subsection \<open>One open case per evaluation run\<close>

definition oneOpenIn :: "(string \<rightharpoonup> caseRec) \<Rightarrow> bool" where
  "oneOpenIn m \<longleftrightarrow>
     (\<forall>k k' c c'. m k = Some c \<and> m k' = Some c'
        \<and> cs_Status c = CaseStatusOpen \<and> cs_Status c' = CaseStatusOpen
        \<and> cs_TenantID c = cs_TenantID c' \<and> cs_SourceEvalRunID c = cs_SourceEvalRunID c'
        \<and> cs_SourceEvalRunID c \<noteq> [] \<longrightarrow> k = k')"

lemma oneOpenInI:
  assumes "\<And>k k' c c'. \<lbrakk>m k = Some c; m k' = Some c'; cs_Status c = CaseStatusOpen;
      cs_Status c' = CaseStatusOpen; cs_TenantID c = cs_TenantID c';
      cs_SourceEvalRunID c = cs_SourceEvalRunID c'; cs_SourceEvalRunID c \<noteq> []\<rbrakk> \<Longrightarrow> k = k'"
  shows "oneOpenIn m"
  unfolding oneOpenIn_def using assms by blast

lemma oneOpenInD:
  "\<lbrakk>oneOpenIn m; m k = Some c; m k' = Some c'; cs_Status c = CaseStatusOpen;
    cs_Status c' = CaseStatusOpen; cs_TenantID c = cs_TenantID c';
    cs_SourceEvalRunID c = cs_SourceEvalRunID c'; cs_SourceEvalRunID c \<noteq> []\<rbrakk> \<Longrightarrow> k = k'"
  unfolding oneOpenIn_def by blast

lemma updatesOneE:
  assumes "updatesOne m s s'" "cst_records s' \<noteq> cst_records s"
  shows "\<exists>k c c'. cst_records s k = Some c \<and> cst_records s' = (cst_records s)(k \<mapsto> c')
    \<and> sameSource c c' \<and> cs_Status c' \<in> {CaseStatusOpen, cs_Status c, CaseStatusClosed}
    \<and> (cs_Status c' = CaseStatusOpen \<longrightarrow> m \<or> cs_Status c = CaseStatusOpen)"
  using assms unfolding updatesOne_def by simp

lemma updatesOne_OK:
  assumes "updatesOne m s s'" "caseStateOK s"
  shows "caseStateOK s'"
proof (cases "cst_records s' = cst_records s")
  case True
  with assms show ?thesis by (simp add: caseStateOK_def updatesOne_def)
next
  case False
  with assms(1) obtain k c c' where u: "cst_records s k = Some c"
    "cst_records s' = (cst_records s)(k \<mapsto> c')" "sameSource c c'"
    "cs_Status c' \<in> {CaseStatusOpen, cs_Status c, CaseStatusClosed}" "cst_caseSeq s' = cst_caseSeq s"
    unfolding updatesOne_def by blast
  have "cs_Status c \<in> {CaseStatusOpen, CaseStatusClosed}"
    using u(1) assms(2) unfolding caseStateOK_def by blast
  with u(4) have "cs_Status c' \<in> {CaseStatusOpen, CaseStatusClosed}" by auto
  with u sameSource_fields [OF u(3)] show ?thesis
    by (intro caseStateOK_put [OF assms(2) u(1) _ _ u(2)]) simp_all
qed

lemma updatesOne_oneOpen:
  assumes "updatesOne False s s'" "oneOpenIn (cst_records s)"
  shows "oneOpenIn (cst_records s')"
proof (cases "cst_records s' = cst_records s")
  case True
  with assms(2) show ?thesis by simp
next
  case False
  obtain k c c' where u: "cst_records s k = Some c"
    "cst_records s' = (cst_records s)(k \<mapsto> c')" "sameSource c c'"
    "cs_Status c' = CaseStatusOpen \<longrightarrow> cs_Status c = CaseStatusOpen"
    using updatesOneE [OF assms(1) False] by metis
  have was: "\<exists>d. cst_records s z = Some d \<and> cs_Status d = CaseStatusOpen
      \<and> cs_TenantID d = cs_TenantID w \<and> cs_SourceEvalRunID d = cs_SourceEvalRunID w"
    if "cst_records s' z = Some w" "cs_Status w = CaseStatusOpen" for z w
    using that u sameSource_fields [OF u(3)] by (cases "z = k") auto
  show ?thesis
  proof (rule oneOpenInI)
    fix x y d e
    assume a: "cst_records s' x = Some d" "cst_records s' y = Some e"
      "cs_Status d = CaseStatusOpen" "cs_Status e = CaseStatusOpen" "cs_TenantID d = cs_TenantID e"
      "cs_SourceEvalRunID d = cs_SourceEvalRunID e" "cs_SourceEvalRunID d \<noteq> []"
    obtain d0 where d0: "cst_records s x = Some d0" "cs_Status d0 = CaseStatusOpen"
      "cs_TenantID d0 = cs_TenantID d" "cs_SourceEvalRunID d0 = cs_SourceEvalRunID d"
      using was [OF a(1,3)] by blast
    obtain e0 where e0: "cst_records s y = Some e0" "cs_Status e0 = CaseStatusOpen"
      "cs_TenantID e0 = cs_TenantID e" "cs_SourceEvalRunID e0 = cs_SourceEvalRunID e"
      using was [OF a(2,4)] by blast
    show "x = y"
      by (rule oneOpenInD [OF assms(2) d0(1) e0(1) d0(2) e0(2)])
        (use d0(3,4) e0(3,4) a(5-7) in simp_all)
  qed
qed

lemma create_cases:
  assumes "CreateCaseWithOutcome ks now input s = (r, s')" "caseStateOK s"
    "iterOrder (cst_records s) ks"
  shows "(\<exists>c. r = (c, False) \<and> s' = s\<lparr>cst_caseSeq := cst_caseSeq s + 1\<rparr>
        \<and> cin_SourceEvalRunID input \<noteq> [] \<and> cst_records s (cs_ID c) = Some c
        \<and> cs_Status c = CaseStatusOpen \<and> cs_TenantID c = cin_TenantID input
        \<and> cs_SourceEvalRunID c = cin_SourceEvalRunID input)
    \<or> (\<exists>c. r = (c, True) \<and> cs_ID c = newCaseID now (cst_caseSeq s + 1)
        \<and> s' = s\<lparr>cst_caseSeq := cst_caseSeq s + 1,
                 cst_records := (cst_records s)(cs_ID c \<mapsto> c)\<rparr>
        \<and> cs_Status c = CaseStatusOpen \<and> cs_TenantID c = cin_TenantID input
        \<and> cs_SourceEvalRunID c = cin_SourceEvalRunID input
        \<and> (cin_SourceEvalRunID input \<noteq> [] \<longrightarrow>
             (\<forall>k d. cst_records s k = Some d \<longrightarrow> \<not> (cs_Status d = CaseStatusOpen
                \<and> cs_TenantID d = cs_TenantID c \<and> cs_SourceEvalRunID d = cs_SourceEvalRunID c))))"
proof -
  have keyed: "keyedBy cs_ID (cst_records s)" using assms(2) by (rule caseStateOK_keyed)
  let ?p = "\<lambda>e. \<not> (cs_TenantID e \<noteq> cin_TenantID input \<or> cs_Status e \<noteq> CaseStatusOpen
                        \<or> cs_SourceEvalRunID e \<noteq> cin_SourceEvalRunID input)"
  show ?thesis
  proof (cases "cin_SourceEvalRunID input = []")
    case True
    with assms(1) show ?thesis by (auto simp: CreateCaseWithOutcome_def case_Save_def Let_def)
  next
    case run: False
    show ?thesis
    proof (cases "find ?p (rangeVals (cst_records s) ks)")
      case (Some c)
      then have "c \<in> set (rangeVals (cst_records s) ks)" "?p c"
        by (auto simp: find_Some_iff)
      then have "cst_records s (cs_ID c) = Some c" using mem_rangeVals [OF assms(3) keyed] by blast
      with Some run \<open>?p c\<close> assms(1) show ?thesis
        by (auto simp: CreateCaseWithOutcome_def SaveOrReuseOpenEvalRunCase_def Let_def)
    next
      case None
      have "\<not> ?p d" if "cst_records s k = Some d" for k d
      proof -
        have "cs_ID d = k" using keyed that by (rule keyedByD)
        with that have "d \<in> set (rangeVals (cst_records s) ks)"
          using mem_rangeVals [OF assms(3) keyed] by blast
        with None show ?thesis by (auto simp: find_None_iff)
      qed
      with None run assms(1) show ?thesis
        by (auto simp: CreateCaseWithOutcome_def SaveOrReuseOpenEvalRunCase_def Let_def)
    qed
  qed
qed

lemma create_invariant:
  assumes "CreateCaseWithOutcome ks now input s = (r, s')" "caseStateOK s"
    "iterOrder (cst_records s) ks" "cst_caseSeq s < - 1"
  shows "caseStateOK s'" "oneOpenIn (cst_records s) \<Longrightarrow> oneOpenIn (cst_records s')" "notesGrow s s'"
proof -
  let ?n = "cst_caseSeq s + 1"
  have seq: "w \<le> ?n" if "w \<le> cst_caseSeq s" for w
    using counter_grows [OF assms(4)] that by simp
  have old: "\<exists>t w. x = newCaseID t w \<and> w \<le> ?n" if "x \<in> dom (cst_records s)" for x
    using assms(2) that seq unfolding caseStateOK_def by blast
  from create_cases [OF assms(1-3)]
  have "caseStateOK s' \<and> (oneOpenIn (cst_records s) \<longrightarrow> oneOpenIn (cst_records s')) \<and> notesGrow s s'"
  proof (elim disjE exE conjE)
    fix c assume "s' = s\<lparr>cst_caseSeq := ?n\<rparr>"
    then show ?thesis using assms(2) old by (simp add: caseStateOK_def notesGrow_def)
  next
    fix c
    assume a: "cs_ID c = newCaseID now ?n"
      "s' = s\<lparr>cst_caseSeq := ?n, cst_records := (cst_records s)(cs_ID c \<mapsto> c)\<rparr>"
      "cs_Status c = CaseStatusOpen" "cs_TenantID c = cin_TenantID input"
      "cs_SourceEvalRunID c = cin_SourceEvalRunID input"
      "cin_SourceEvalRunID input \<noteq> [] \<longrightarrow>
             (\<forall>k d. cst_records s k = Some d \<longrightarrow> \<not> (cs_Status d = CaseStatusOpen
                \<and> cs_TenantID d = cs_TenantID c \<and> cs_SourceEvalRunID d = cs_SourceEvalRunID c))"
    have "\<exists>t w. x = newCaseID t w \<and> w \<le> ?n" if "x \<in> dom (cst_records s')" for x
      using that old a(1,2) by (cases "x = cs_ID c") (auto simp del: newCaseID_inj)
    then have "caseStateOK s'"
      using assms(2) a(2,3) by (simp add: caseStateOK_def keyedBy_upd)
    moreover have "oneOpenIn (cst_records s')" if "oneOpenIn (cst_records s)"
    proof (rule oneOpenInI)
      fix x y d e
      assume b: "cst_records s' x = Some d" "cst_records s' y = Some e"
        "cs_Status d = CaseStatusOpen" "cs_Status e = CaseStatusOpen" "cs_TenantID d = cs_TenantID e"
        "cs_SourceEvalRunID d = cs_SourceEvalRunID e" "cs_SourceEvalRunID d \<noteq> []"
      have "x \<noteq> cs_ID c \<Longrightarrow> y \<noteq> cs_ID c \<Longrightarrow> x = y"
        using oneOpenInD [OF that _ _ b(3-7)] b(1,2) a(2) by simp
      moreover have "x = cs_ID c \<longleftrightarrow> y = cs_ID c"
        using a(2,5,6) b by (auto split: if_splits)
      ultimately show "x = y" by metis
    qed
    ultimately show ?thesis using a(2) by (simp add: notesGrow_def)
  qed
  then show "caseStateOK s'" "oneOpenIn (cst_records s) \<Longrightarrow> oneOpenIn (cst_records s')"
    "notesGrow s s'" by blast+
qed

lemma caseReach_invariant:
  assumes "caseReach m s"
  shows "caseStateOK s \<and> (\<not> m \<longrightarrow> oneOpenIn (cst_records s))"
  using assms
proof induction
  case start
  show ?case by (simp add: newCaseStore_def oneOpenIn_def caseStateOK_new [unfolded newCaseStore_def])
next
  case (step s s')
  from step_updates [OF step(2)] show ?case
  proof (elim disjE exE conjE)
    assume u: "updatesOne m s s'"
    then show ?thesis using step updatesOne_OK updatesOne_oneOpen [of s s'] by (cases m) auto
  next
    fix ks now input r
    assume "iterOrder (cst_records s) ks" "cst_caseSeq s < - 1"
      "CreateCaseWithOutcome ks now input s = (r, s')"
    then show ?thesis using step create_invariant [of ks now input s r s'] by blast
  qed
qed

text \<open>
  C16: As long as no case is reopened, a tenant never has two open cases for the same
  evaluation run, however creation, closing, assignment and notes interleave.
\<close>

theorem one_open_case_per_run:
  assumes "caseReach False s" "cst_records s k = Some c" "cst_records s k' = Some c'"
    and "cs_Status c = CaseStatusOpen" "cs_Status c' = CaseStatusOpen"
    and "cs_TenantID c = cs_TenantID c'" "cs_SourceEvalRunID c = cs_SourceEvalRunID c'"
    and "cs_SourceEvalRunID c \<noteq> []"
  shows "k = k'"
proof -
  have "oneOpenIn (cst_records s)" using caseReach_invariant [OF assms(1)] by simp
  then show ?thesis using assms(2-8) by (rule oneOpenInD)
qed

definition runInput :: caseInput where
  "runInput = \<lparr>cin_TenantID = ''acme'', cin_Title = ''t'', cin_Summary = [],
     cin_SourceTaskID = [], cin_SourceReportID = [], cin_SourceEvalReportID = [],
     cin_SourceEvalCaseID = [], cin_SourceEvalRunID = ''run'',
     cin_CompareOrigin = \<lparr>co_LeftEvalReportID = [], co_RightEvalReportID = [], co_SelectedSide = []\<rparr>,
     cin_CreatedBy = []\<rparr>"

definition twiceOpened :: "nat \<Rightarrow> caseState" where
  "twiceOpened n =
     (let s1 = snd (CreateCaseWithOutcome [] 5 runInput newCaseStore);
          s2 = snd (CloseCase 6 (newCaseID 5 1) [] s1);
          s3 = snd (CreateCaseWithOutcome [newCaseID 5 1] 7 runInput s2);
          s4 = snd (ReopenCase 8 (newCaseID 5 1) [] s3)
      in [newCaseStore, s1, s2, s3, s4] ! n)"

lemmas caseRunDefs = twiceOpened_def CreateCaseWithOutcome_def runInput_def newCaseStore_def
  SaveOrReuseOpenEvalRunCase_def CloseCase_def case_Close_def ReopenCase_def case_Reopen_def
  systemNote_def Let_def

lemma twiceOpened_rows:
  "iterOrder (cst_records (twiceOpened 0)) []"
  "iterOrder (cst_records (twiceOpened 2)) [newCaseID 5 1]"
  "cst_caseSeq (twiceOpened 0) = 0" "cst_caseSeq (twiceOpened 2) = 1"
  by (simp_all add: caseRunDefs iterOrder_def)

lemma twiceOpened_reach:
  "caseReach m (twiceOpened 1)" "caseReach m (twiceOpened 3)" "caseReach True (twiceOpened 4)"
proof -
  have steps: "twiceOpened 1 = snd (CreateCaseWithOutcome [] 5 runInput (twiceOpened 0))"
    "twiceOpened 2 = snd (CloseCase 6 (newCaseID 5 1) [] (twiceOpened 1))"
    "twiceOpened 3 = snd (CreateCaseWithOutcome [newCaseID 5 1] 7 runInput (twiceOpened 2))"
    "twiceOpened 4 = snd (ReopenCase 8 (newCaseID 5 1) [] (twiceOpened 3))"
    "twiceOpened 0 = newCaseStore"
    by (simp_all add: twiceOpened_def Let_def numeral_eq_Suc)
  have one: "caseReach m (twiceOpened 1)" for m
    unfolding steps(1)
    by (rule caseReach.step [OF caseReach.start [folded steps(5)]],
        rule caseStep.create [OF twiceOpened_rows(1) _ prod.collapse [symmetric]])
      (simp add: twiceOpened_rows word_gt_0)
  have two: "caseReach m (twiceOpened 2)" for m
    unfolding steps(2)
    by (rule caseReach.step [OF one], rule caseStep.close [OF prod.collapse [symmetric]])
  have three: "caseReach m (twiceOpened 3)" for m
    unfolding steps(3)
    by (rule caseReach.step [OF two],
        rule caseStep.create [OF twiceOpened_rows(2) _ prod.collapse [symmetric]])
      (simp add: twiceOpened_rows less_le)
  show "caseReach m (twiceOpened 1)" "caseReach m (twiceOpened 3)" by (rule one three)+
  show "caseReach True (twiceOpened 4)"
    unfolding steps(4)
    by (rule caseReach.step [OF three], rule caseStep.reopen [OF TrueI prod.collapse [symmetric]])
qed

lemma one_open_case_per_run_witness:
  "\<exists>c. cst_records (twiceOpened 3) (newCaseID 7 2) = Some c \<and> newCaseID 7 2 = newCaseID 7 2"
proof -
  obtain c where c: "cst_records (twiceOpened 3) (newCaseID 7 2) = Some c"
    "cs_Status c = CaseStatusOpen" "cs_SourceEvalRunID c = ''run''"
    by (simp add: caseRunDefs numeral_eq_Suc)
  have "newCaseID 7 2 = newCaseID 7 2"
    by (rule one_open_case_per_run [OF twiceOpened_reach(2) c(1) c(1) c(2) c(2)]) (simp_all add: c(3))
  with c show ?thesis by blast
qed

text \<open>
  Reopening does not look for another open case: after create, close, create and reopen the
  tenant has two open cases for one evaluation run.
\<close>

theorem reopen_breaks_one_open_case:
  "\<exists>s k k' c c'. caseReach True s \<and> k \<noteq> k' \<and> cst_records s k = Some c
     \<and> cst_records s k' = Some c' \<and> cs_Status c = CaseStatusOpen \<and> cs_Status c' = CaseStatusOpen
     \<and> cs_TenantID c = cs_TenantID c' \<and> cs_SourceEvalRunID c = cs_SourceEvalRunID c'
     \<and> cs_SourceEvalRunID c \<noteq> []"
proof -
  have "cst_records (twiceOpened 4) (newCaseID 5 1) \<noteq> None"
    "cst_records (twiceOpened 4) (newCaseID 7 2) \<noteq> None"
    "map_option cs_Status (cst_records (twiceOpened 4) (newCaseID 5 1)) = Some CaseStatusOpen"
    "map_option cs_Status (cst_records (twiceOpened 4) (newCaseID 7 2)) = Some CaseStatusOpen"
    "map_option cs_TenantID (cst_records (twiceOpened 4) (newCaseID 5 1)) = Some ''acme''"
    "map_option cs_TenantID (cst_records (twiceOpened 4) (newCaseID 7 2)) = Some ''acme''"
    "map_option cs_SourceEvalRunID (cst_records (twiceOpened 4) (newCaseID 5 1)) = Some ''run''"
    "map_option cs_SourceEvalRunID (cst_records (twiceOpened 4) (newCaseID 7 2)) = Some ''run''"
    using case_ids.mkID_distinct [of 1 2 5 7] by (simp_all add: caseRunDefs numeral_eq_Suc)
  moreover have "newCaseID 5 1 \<noteq> newCaseID 7 2" using case_ids.mkID_distinct [of 1 2 5 7] by simp
  ultimately show ?thesis
    using twiceOpened_reach(3)
    by (intro exI [of _ "twiceOpened 4"] exI [of _ "newCaseID 5 1"] exI [of _ "newCaseID 7 2"]) auto
qed

subsection \<open>Optimistic concurrency\<close>

text \<open>
  C22: An assignment succeeds exactly on an open case that nobody changed since the snapshot was
  read, and it touches only the assignment.  Every later write that still carries that snapshot
  is refused and changes nothing, as long as the clock moved.
\<close>

theorem assignment_is_optimistic:
  assumes "caseStateOK s" "AssignCase now e who s = (r, s')"
  shows "(case cst_records s (cs_ID e) of
      None \<Rightarrow> r = Inl (ErrCaseNotFound (cs_ID e)) \<and> s' = s
    | Some c \<Rightarrow>
        if cs_Status c = CaseStatusOpen \<and> cs_UpdatedAt c = cs_UpdatedAt e
        then (\<exists>c'. r = Inr c' \<and> cst_records s' = (cst_records s)(cs_ID e \<mapsto> c')
               \<and> c' = c\<lparr>cs_AssignedTo := fallbackString (trimSpace who) ''operator'',
                          cs_AssignedAt := now, cs_UpdatedAt := now\<rparr>
               \<and> cs_AssignedTo c' \<noteq> []
               \<and> (now \<noteq> cs_UpdatedAt e \<longrightarrow>
                    AssignCase now2 e who2 s' = (Inl ErrCaseConflict, s')
                  \<and> fst (UnassignCase now2 e who2 s') \<in> {Inl ErrInvalidCaseState, Inl ErrCaseConflict}
                  \<and> snd (UnassignCase now2 e who2 s') = s'))
        else (r = Inl ErrInvalidCaseState \<or> r = Inl ErrCaseConflict) \<and> s' = s)"
proof (cases "cst_records s (cs_ID e)")
  case None
  with assms(2) show ?thesis by (simp add: AssignCase_def case_Assign_def)
next
  case (Some c)
  have st: "cs_Status c = CaseStatusOpen \<or> cs_Status c = CaseStatusClosed"
    using assms(1) Some unfolding caseStateOK_def by blast
  show ?thesis
  proof (cases "cs_Status c = CaseStatusOpen \<and> cs_UpdatedAt c = cs_UpdatedAt e")
    case True
    with assms(2) Some show ?thesis
      by (auto simp: AssignCase_def case_Assign_def UnassignCase_def case_Unassign_def Let_def)
  next
    case False
    with assms(2) Some st show ?thesis by (auto simp: AssignCase_def case_Assign_def)
  qed
qed

lemma assignment_is_optimistic_witness:
  "fst (AssignCase 9 (demoCase 2 ''open'' ''run'' 6) ''ann'' demoCases)
     = Inr ((demoCase 2 ''open'' ''run'' 6)\<lparr>cs_AssignedTo := ''ann'', cs_AssignedAt := 9,
              cs_UpdatedAt := 9\<rparr>)
   \<and> AssignCase 10 (demoCase 2 ''open'' ''run'' 6) ''bob''
       (snd (AssignCase 9 (demoCase 2 ''open'' ''run'' 6) ''ann'' demoCases))
     = (Inl ErrCaseConflict, snd (AssignCase 9 (demoCase 2 ''open'' ''run'' 6) ''ann'' demoCases))"
proof -
  let ?e = "demoCase 2 ''open'' ''run'' 6"
  have "trimSpace ''ann'' = ''ann''"
    by (simp add: trimSpace_def spaceEncodings_def trimLeft_fix hasPrefix_def)
  moreover have "cst_records demoCases (cs_ID ?e) = Some ?e" "cs_UpdatedAt ?e = 6"
    "cs_Status ?e = CaseStatusOpen"
    by (simp_all add: demoCases_def demoCase_def)
  ultimately show ?thesis
    using assignment_is_optimistic [OF demoCases_ok prod.collapse [symmetric], of 9 ?e "''ann''" 10 "''bob''"]
    by (simp add: fallbackString_def)
qed

subsection \<open>Notes\<close>

lemma newestNotes_take: "newestNotes c xs = take c (rev xs)"
proof (induction c xs rule: newestNotes.induct)
  case (2 c source)
  then show ?case by (cases source rule: rev_cases) simp_all
qed simp

text \<open>
  The notes of a case are append-only in every step of the system, and the note list shows
  the latest notes first, as many as the limit allows.
\<close>

theorem notes_append_only:
  assumes "caseReach mayReopen s" "caseStep mayReopen s s'"
  shows "(\<exists>ns. entries (cst_notes s') k = entries (cst_notes s) k @ ns)
    \<and> (cst_records s' k \<noteq> None \<longrightarrow>
        ListNotes k limit s' = Inr (take (nat (if limit \<le> 0 then 20 else limit))
          (rev (entries (cst_notes s') k))))"
proof
  have "notesGrow s s'"
    using step_updates [OF assms(2)] create_invariant(3) caseReach_invariant [OF assms(1)]
    by (auto simp: updatesOne_def)
  then show "\<exists>ns. entries (cst_notes s') k = entries (cst_notes s) k @ ns"
    unfolding notesGrow_def by blast
  show "cst_records s' k \<noteq> None \<longrightarrow>
        ListNotes k limit s' = Inr (take (nat (if limit \<le> 0 then 20 else limit))
          (rev (entries (cst_notes s') k)))"
    by (auto simp: ListNotes_def newestNotes_take Let_def)
qed

lemma notes_append_only_witness:
  "\<exists>ns. entries (cst_notes (snd (AddNote 9 (demoCase 1 [] [] 0) ''hello'' [] newCaseStore))) ''k''
     = entries (cst_notes newCaseStore) ''k'' @ ns"
proof -
  let ?s = "snd (AddNote 9 (demoCase 1 [] [] 0) ''hello'' [] newCaseStore)"
  have "caseStep False newCaseStore ?s" by (rule caseStep.addNote [OF prod.collapse [symmetric]])
  from notes_append_only [OF caseReach.start this] show ?thesis by blast
qed

end
