(* ===== verification/Context_Engine.thy ===== *)
theory Context_Engine
  imports Go_Sort Complex_Main "HOL-Library.Sublist"
begin

text \<open>
  Context assembly: \<open>contextengine/types.go\<close>, \<open>contextengine/service.go\<close> and the scorers of
  \<open>contextengine/scorer.go\<close>.

  A \<open>float64\<close> score is a rational number and \<open>%.3f\<close> is the correctly rounded decimal of that
  number, as \<open>strconv\<close> defines it.  The summarizer is an interface and so a function argument;
  for the embedding scorer the cosine similarity of query and block is the argument.
\<close>

subsection \<open>Types\<close>

abbreviation (input) "BlockKindUserProfile \<equiv> ''user_profile''"
abbreviation (input) "BlockKindRecentTurns \<equiv> ''recent_turns''"
abbreviation (input) "BlockKindSessionSummary \<equiv> ''session_summary''"
abbreviation (input) "BlockKindTaskScratchpad \<equiv> ''task_scratchpad''"
abbreviation (input) "BlockKindRetrievalEvidence \<equiv> ''retrieval_evidence''"
abbreviation (input) "BlockKindToolResult \<equiv> ''tool_result''"

record contextConfig =
  cc_MaxBlocks :: int
  cc_Budget :: int
  cc_PlannerBudget :: int
  cc_RetrievalBudget :: int
  cc_CriticBudget :: int
  cc_SummaryTurnThreshold :: int

record turn =
  tn_Role :: string
  tn_Content :: string

record evidenceSnippet =
  es_SourceTitle :: string
  es_Snippet :: string
  es_CitationLabel :: string
  es_Score :: rat

record toolResultSnippet =
  trs_ToolName :: string
  trs_Status :: string
  trs_OutputSummary :: string

record buildInput =
  bi_RequestID :: string
  bi_SessionID :: string
  bi_TenantID :: string
  bi_UserID :: string
  bi_Mode :: string
  bi_UserMessage :: string
  bi_RecentTurns :: "turn list"
  bi_SessionSummary :: string
  bi_TaskScratchpad :: string
  bi_RetrievalResults :: "evidenceSnippet list"
  bi_ToolResults :: "toolResultSnippet list"

record block =
  bk_Kind :: string
  bk_Content :: string
  bk_IncludeReason :: string
  bk_EstimatedTokens :: int
  bk_Priority :: int

record assemblyLog =
  al_RequestID :: string
  al_IncludedBlocks :: "string list"
  al_DroppedBlocks :: "string list"
  al_BudgetUsed :: int
  al_BudgetLimit :: int

record buildResult =
  br_Planner :: "block list"
  br_Retrieval :: "block list"
  br_Critic :: "block list"
  br_Log :: assemblyLog

type_synonym summarizer = "turn list \<Rightarrow> string + string"
type_synonym scorer = "string \<Rightarrow> block list \<Rightarrow> block list"

record contextService =
  cx_config :: contextConfig
  cx_summarizer :: "summarizer option"
  cx_scorer :: "scorer option"

subsection \<open>Decimal formatting\<close>

definition roundHalfEven :: "rat \<Rightarrow> int" where
  "roundHalfEven x =
     (let f = \<lfloor>x\<rfloor>; d = x - of_int f
      in if d < 1 / 2 then f else if d > 1 / 2 then f + 1 else if even f then f else f + 1)"

definition padDigits :: "nat \<Rightarrow> string \<Rightarrow> string" where
  "padDigits w s = replicate (w - length s) (CHR ''0'') @ s"

definition fixedDecimal :: "nat \<Rightarrow> rat \<Rightarrow> string" where
  "fixedDecimal p x =
     (let n = nat \<bar>roundHalfEven (x * 10 ^ p)\<bar>
      in (if x < 0 then ''-'' else []) @ showNat (n div 10 ^ p) @ ''.'' @
         padDigits p (showNat (n mod 10 ^ p)))"

subsection \<open>Candidate blocks\<close>

definition newContextService ::
    "contextConfig \<Rightarrow> summarizer option \<Rightarrow> scorer option \<Rightarrow> contextService" where
  "newContextService config summ score =
     \<lparr>cx_config = config
        \<lparr>cc_MaxBlocks := (if cc_MaxBlocks config \<le> 0 then 8 else cc_MaxBlocks config),
         cc_Budget := (if cc_Budget config \<le> 0 then 128 else cc_Budget config)\<rparr>,
      cx_summarizer = summ, cx_scorer = score\<rparr>"

definition estimateTokens :: "string \<Rightarrow> int" where
  "estimateTokens content = (if content = [] then 0 else (int (length content) + 3) div 4)"

definition newBlock :: "string \<Rightarrow> string \<Rightarrow> string \<Rightarrow> int \<Rightarrow> block" where
  "newBlock kind content reason priority =
     \<lparr>bk_Kind = kind, bk_Content = content, bk_IncludeReason = reason,
      bk_EstimatedTokens = estimateTokens content, bk_Priority = priority\<rparr>"

definition formatUserProfile :: "buildInput \<Rightarrow> string" where
  "formatUserProfile input =
     joinStrings
       ((if bi_TenantID input \<noteq> [] then [''tenant_id='' @ bi_TenantID input] else []) @
        (if bi_UserID input \<noteq> [] then [''user_id='' @ bi_UserID input] else []) @
        (if bi_Mode input \<noteq> [] then [''mode='' @ bi_Mode input] else [])) newline"

definition formatRecentTurns :: "turn list \<Rightarrow> string" where
  "formatRecentTurns turns =
     joinStrings (map (\<lambda>t. tn_Role t @ '': '' @ tn_Content t)
       (filter (\<lambda>t. \<not> (tn_Role t = [] \<and> tn_Content t = [])) turns)) newline"

definition sortEvidenceByScoreDesc :: "evidenceSnippet list \<Rightarrow> evidenceSnippet list" where
  "sortEvidenceByScoreDesc evidence = goSort (\<lambda>a b. es_Score a > es_Score b) evidence"

definition evidenceBlock :: "nat \<Rightarrow> evidenceSnippet \<Rightarrow> block" where
  "evidenceBlock i ev =
     (let label = (if es_CitationLabel ev = [] then ''['' @ showNat (i + 1) @ '']''
                   else es_CitationLabel ev);
          score = fixedDecimal 3 (es_Score ev);
          content = label @ '' '' @ es_SourceTitle ev @ '': '' @ es_Snippet ev @
                    '' (score='' @ score @ '')'';
          p = 80 - int i
      in newBlock BlockKindRetrievalEvidence content
           (''evidence snippet '' @ label @ '' (score='' @ score @ '')'')
           (if p < 60 then 60 else p))"

definition toolBlock :: "toolResultSnippet \<Rightarrow> block" where
  "toolBlock tr =
     newBlock BlockKindToolResult
       (''['' @ trs_Status tr @ ''] '' @ trs_ToolName tr @ '': '' @ trs_OutputSummary tr)
       (''tool output from '' @ trs_ToolName tr @ '' ('' @ trs_Status tr @ '')'') 70"

fun indexed :: "nat \<Rightarrow> 'a list \<Rightarrow> (nat \<times> 'a) list" where
  "indexed i [] = []"
| "indexed i (x # xs) = (i, x) # indexed (Suc i) xs"

definition candidateBlocks :: "buildInput \<Rightarrow> block list" where
  "candidateBlocks input =
     (let profile = formatUserProfile input; turns = formatRecentTurns (bi_RecentTurns input) in
      (if profile \<noteq> []
       then [newBlock BlockKindUserProfile profile ''request tenant and user scope'' 100] else []) @
      (if turns \<noteq> []
       then [newBlock BlockKindRecentTurns turns ''recent session turns'' 90] else []) @
      (if bi_SessionSummary input \<noteq> []
       then [newBlock BlockKindSessionSummary (bi_SessionSummary input)
               ''replaceable session summary'' 50] else []) @
      (if bi_TaskScratchpad input \<noteq> []
       then [newBlock BlockKindTaskScratchpad (bi_TaskScratchpad input)
               ''active task notes'' 40] else []) @
      map (\<lambda>(i, ev). evidenceBlock i ev)
        (indexed 0 (sortEvidenceByScoreDesc (bi_RetrievalResults input))) @
      map toolBlock (bi_ToolResults input))"

subsection \<open>Budgets\<close>

definition plannerBudget :: "contextConfig \<Rightarrow> int" where
  "plannerBudget c = (if cc_PlannerBudget c > 0 then cc_PlannerBudget c else cc_Budget c)"

definition retrievalBudget :: "contextConfig \<Rightarrow> int" where
  "retrievalBudget c = (if cc_RetrievalBudget c > 0 then cc_RetrievalBudget c else cc_Budget c)"

definition criticBudget :: "contextConfig \<Rightarrow> int" where
  "criticBudget c = (if cc_CriticBudget c > 0 then cc_CriticBudget c else cc_Budget c)"

definition totalEstimatedTokens :: "block list \<Rightarrow> int" where
  "totalEstimatedTokens blocks = fold (\<lambda>b total. total + bk_EstimatedTokens b) blocks 0"

fun lowestFrom :: "block list \<Rightarrow> nat \<Rightarrow> nat \<Rightarrow> block list \<Rightarrow> nat" where
  "lowestFrom blocks idx i [] = idx"
| "lowestFrom blocks idx i (b # bs) =
     lowestFrom blocks (if bk_Priority b < bk_Priority (blocks ! idx) then i else idx) (Suc i) bs"

definition lowestPriorityIndex :: "block list \<Rightarrow> nat" where
  "lowestPriorityIndex blocks = lowestFrom blocks 0 1 (tl blocks)"

definition removeBlock :: "block list \<Rightarrow> nat \<Rightarrow> block list" where
  "removeBlock blocks idx = take idx blocks @ drop (idx + 1) blocks"

lemma lowestFrom_bound:
  "idx < length blocks \<Longrightarrow> i + length bs = length blocks \<Longrightarrow> lowestFrom blocks idx i bs < length blocks"
  by (induction blocks idx i bs rule: lowestFrom.induct) auto

lemma lowestPriorityIndex_bound [simp]:
  "blocks \<noteq> [] \<Longrightarrow> lowestPriorityIndex blocks < length blocks"
  unfolding lowestPriorityIndex_def by (rule lowestFrom_bound) (auto simp: Suc_leI)

lemma length_removeBlock [simp]:
  "idx < length blocks \<Longrightarrow> length (removeBlock blocks idx) = length blocks - 1"
  by (simp add: removeBlock_def)

function dropLowest ::
    "(block list \<Rightarrow> bool) \<Rightarrow> block list \<Rightarrow> block list \<Rightarrow> block list \<times> block list" where
  "dropLowest over included dropped =
     (if included \<noteq> [] \<and> over included
      then let idx = lowestPriorityIndex included
           in dropLowest over (removeBlock included idx) (dropped @ [included ! idx])
      else (included, dropped))"
  by pat_completeness auto
termination
  by (relation "measure (\<lambda>(over, included, dropped). length included)") auto

declare dropLowest.simps [simp del]

definition applyBudget :: "contextConfig \<Rightarrow> block list \<Rightarrow> int \<Rightarrow> block list \<times> block list" where
  "applyBudget c blocks budget =
     (let (inc1, drop1) = dropLowest (\<lambda>bs. int (length bs) > cc_MaxBlocks c) blocks [];
          (inc2, drop2) = dropLowest (\<lambda>bs. totalEstimatedTokens bs > budget) inc1 drop1
      in if inc2 = [] \<and> blocks \<noteq> [] then ([hd blocks], drop2) else (inc2, drop2))"

definition filterByKinds :: "block list \<Rightarrow> string list \<Rightarrow> block list" where
  "filterByKinds blocks kinds = filter (\<lambda>b. bk_Kind b \<in> set kinds) blocks"

definition blockKinds :: "block list \<Rightarrow> string list" where
  "blockKinds blocks = map bk_Kind blocks"

subsection \<open>Build\<close>

definition maybeSummarize :: "contextService \<Rightarrow> buildInput \<Rightarrow> buildInput" where
  "maybeSummarize s input =
     (let threshold = cc_SummaryTurnThreshold (cx_config s) in
      case cx_summarizer s of
        None \<Rightarrow> input
      | Some summarize \<Rightarrow>
          if threshold \<le> 0 \<or> int (length (bi_RecentTurns input)) \<le> threshold then input
          else
            let splitAt = length (bi_RecentTurns input) - nat threshold;
                olderTurns = take splitAt (bi_RecentTurns input);
                recentTurns = drop splitAt (bi_RecentTurns input)
            in case summarize olderTurns of
                 Inl _ \<Rightarrow> input
               | Inr summary \<Rightarrow>
                   let newSummary =
                     (if bi_SessionSummary input \<noteq> [] then
                        let merged = bi_SessionSummary input @ newline @ newline @ summary in
                        if estimateTokens merged > 200 then
                          (case summarize [\<lparr>tn_Role = ''system'', tn_Content = merged\<rparr>] of
                             Inr recompressed \<Rightarrow> if recompressed \<noteq> [] then recompressed else merged
                           | Inl _ \<Rightarrow> merged)
                        else merged
                      else summary)
                   in input\<lparr>bi_SessionSummary := newSummary, bi_RecentTurns := recentTurns\<rparr>)"

definition scoredBlocks :: "contextService \<Rightarrow> buildInput \<Rightarrow> block list" where
  "scoredBlocks s input =
     (let candidates = candidateBlocks input
      in case cx_scorer s of
           Some score \<Rightarrow> if bi_UserMessage input \<noteq> [] then score (bi_UserMessage input) candidates
                         else candidates
         | None \<Rightarrow> candidates)"

definition Build :: "contextService \<Rightarrow> buildInput \<Rightarrow> buildResult" where
  "Build s input0 =
     (let input = maybeSummarize s input0;
          c = cx_config s;
          allBlocks = scoredBlocks s input;
          (plannerBlocks, plannerDropped) =
            applyBudget c (filterByKinds allBlocks [BlockKindUserProfile, BlockKindRecentTurns,
              BlockKindSessionSummary, BlockKindTaskScratchpad]) (plannerBudget c);
          (retrievalBlocks, retrievalDropped) =
            applyBudget c (filterByKinds allBlocks [BlockKindUserProfile, BlockKindRecentTurns,
              BlockKindSessionSummary]) (retrievalBudget c);
          (criticBlocks, criticDropped) = applyBudget c allBlocks (criticBudget c)
      in \<lparr>br_Planner = plannerBlocks, br_Retrieval = retrievalBlocks, br_Critic = criticBlocks,
          br_Log = \<lparr>al_RequestID = bi_RequestID input,
                    al_IncludedBlocks = blockKinds plannerBlocks,
                    al_DroppedBlocks = blockKinds plannerDropped @ blockKinds retrievalDropped @
                      blockKinds criticDropped,
                    al_BudgetUsed = totalEstimatedTokens criticBlocks,
                    al_BudgetLimit = criticBudget c\<rparr>\<rparr>)"

subsection \<open>Importance scorers\<close>

fun splitWordsFrom :: "string \<Rightarrow> string \<Rightarrow> string list" where
  "splitWordsFrom word [] = (if length word \<ge> 3 then [word] else [])"
| "splitWordsFrom word (ch # s) =
     (if ch = CHR '' '' \<or> ch = CHR 0x09 \<or> ch = CHR 0x0A
      then (if length word \<ge> 3 then [word] else []) @ splitWordsFrom [] s
      else splitWordsFrom (word @ [ch]) s)"

definition splitWords :: "string \<Rightarrow> string list" where
  "splitWords s = splitWordsFrom [] s"

definition containsWord :: "string \<Rightarrow> string \<Rightarrow> bool" where
  "containsWord content word = contains (toLower content) (toLower word)"

definition keywordBoost :: "string list \<Rightarrow> block \<Rightarrow> block" where
  "keywordBoost words b =
     (let matchCount = int (length (filter (containsWord (bk_Content b)) words)) in
      if matchCount > 0 then
        let boost0 = 10 + matchCount * 5;
            boost = (if boost0 > 30 then 30 else boost0)
        in b\<lparr>bk_Priority := bk_Priority b + boost,
             bk_IncludeReason := bk_IncludeReason b @ '' (keyword boost)''\<rparr>
      else b)"

definition KeywordScoreBlocks :: scorer where
  "KeywordScoreBlocks query blocks =
     (if query = [] \<or> blocks = [] then blocks
      else let words = splitWords query in if words = [] then blocks else map (keywordBoost words) blocks)"

definition embeddingBase :: "string \<Rightarrow> int" where
  "embeddingBase kind =
     (if kind = BlockKindUserProfile then 80
      else if kind = BlockKindRecentTurns then 70
      else if kind = BlockKindRetrievalEvidence then 50
      else if kind = BlockKindToolResult then 50
      else if kind = BlockKindSessionSummary then 30
      else if kind = BlockKindTaskScratchpad then 30 else 40)"

text \<open>\<open>similarity query content\<close> is \<open>None\<close> when embedding fails.\<close>

definition EmbeddingScoreBlocks :: "bool \<Rightarrow> (string \<Rightarrow> string \<Rightarrow> rat option) \<Rightarrow> scorer" where
  "EmbeddingScoreBlocks queryEmbedded similarity query blocks =
     (if blocks = [] \<or> query = [] \<or> \<not> queryEmbedded then blocks
      else map (\<lambda>b. case similarity query (bk_Content b) of
                      None \<Rightarrow> b
                    | Some sim \<Rightarrow>
                        let clamped = (if sim < 0 then 0 else if sim > 1 then 1 else sim)
                        in b\<lparr>bk_Priority := embeddingBase (bk_Kind b) + \<lfloor>clamped * 40\<rfloor>,
                             bk_IncludeReason := bk_IncludeReason b @ '' (dynamic priority)''\<rparr>)
             blocks)"

end
