(* ===== verification/Context_Laws.thy ===== *)
theory Context_Laws
  imports Context_Engine
begin

text \<open>
  What context assembly guarantees: eviction stays within the limits, removes the least important
  blocks and loses none; the stages only see their kinds of blocks; summarizing keeps the newest
  turns; the scorers keep the blocks and move priorities within their bands.
\<close>

interpretation score_order: weak_order "\<lambda>a b. es_Score a > es_Score b"
  by unfold_locales auto

subsection \<open>Eviction\<close>

lemma lowestFrom_least:
  "\<lbrakk>i + length bs = length blocks; bs = drop i blocks; idx < i;
    \<forall>j < i. bk_Priority (blocks ! idx) \<le> bk_Priority (blocks ! j); j < length blocks\<rbrakk>
   \<Longrightarrow> bk_Priority (blocks ! lowestFrom blocks idx i bs) \<le> bk_Priority (blocks ! j)"
proof (induction blocks idx i bs rule: lowestFrom.induct)
  case (1 blocks idx i)
  then show ?case by simp
next
  case (2 blocks idx i b bs)
  have i: "i < length blocks" using "2.prems"(1) by simp
  then have b: "b = blocks ! i" "bs = drop (Suc i) blocks"
    using "2.prems"(2) Cons_nth_drop_Suc [OF i] by (metis list.inject)+
  show ?case
    unfolding lowestFrom.simps
    by (rule "2.IH") (use "2.prems" b in \<open>auto simp: less_Suc_eq\<close>)
qed

lemma lowestPriority_least:
  assumes "b \<in> set blocks"
  shows "bk_Priority (blocks ! lowestPriorityIndex blocks) \<le> bk_Priority b"
proof -
  obtain j where j: "j < length blocks" "blocks ! j = b" using assms by (metis in_set_conv_nth)
  have "bk_Priority (blocks ! lowestFrom blocks 0 1 (tl blocks)) \<le> bk_Priority (blocks ! j)"
    by (rule lowestFrom_least) (use j in \<open>auto simp: drop_Suc\<close>)
  with j show ?thesis by (simp add: lowestPriorityIndex_def)
qed

lemma mset_removeBlock:
  assumes "idx < length blocks"
  shows "add_mset (blocks ! idx) (mset (removeBlock blocks idx)) = mset blocks"
proof -
  have "blocks = take idx blocks @ blocks ! idx # drop (Suc idx) blocks"
    using assms by (simp add: id_take_nth_drop)
  then have "mset blocks = mset (take idx blocks @ blocks ! idx # drop (Suc idx) blocks)" by simp
  then show ?thesis by (simp add: removeBlock_def)
qed

lemma subseq_removeBlock:
  assumes "idx < length blocks"
  shows "subseq (removeBlock blocks idx) blocks"
proof -
  have "subseq (take idx blocks @ drop (Suc idx) blocks)
      (take idx blocks @ blocks ! idx # drop (Suc idx) blocks)"
    by (intro list_emb_append_mono) (auto intro: subseq_Cons')
  then show ?thesis using assms by (simp add: removeBlock_def id_take_nth_drop [symmetric])
qed

lemma dropLowest_step:
  "inc \<noteq> [] \<Longrightarrow> over inc \<Longrightarrow> dropLowest over inc dr =
     dropLowest over (removeBlock inc (lowestPriorityIndex inc)) (dr @ [inc ! lowestPriorityIndex inc])"
  by (subst dropLowest.simps) (simp add: Let_def)

lemma dropLowest_stop: "inc = [] \<or> \<not> over inc \<Longrightarrow> dropLowest over inc dr = (inc, dr)"
  by (subst dropLowest.simps) auto

definition evicts :: "block list \<Rightarrow> block list \<Rightarrow> block list \<Rightarrow> bool" where
  "evicts blocks inc ds \<longleftrightarrow>
     subseq inc blocks \<and> mset inc + mset ds = mset blocks
   \<and> (\<forall>d \<in> set ds. \<forall>b \<in> set inc. bk_Priority d \<le> bk_Priority b)"

lemma evicts_set:
  assumes "evicts blocks inc ds"
  shows "set inc \<union> set ds = set blocks"
proof -
  have "set_mset (mset inc + mset ds) = set_mset (mset blocks)"
    using assms unfolding evicts_def by simp
  then show ?thesis by simp
qed

lemma subseq_set_subset: "subseq xs ys \<Longrightarrow> set xs \<subseteq> set ys"
  by (induction rule: list_emb.induct) auto

lemma evicts_lowest:
  assumes "i < length inc" "i = lowestPriorityIndex inc" "evicts (removeBlock inc i) inc' ds"
  shows "evicts inc inc' (inc ! i # ds)"
proof -
  have sub: "subseq inc' inc"
    using assms(3) subseq_removeBlock [OF assms(1)] unfolding evicts_def
    by (blast intro: subseq_order.trans)
  moreover have "mset inc' + mset (inc ! i # ds) = mset inc"
    using assms(3) mset_removeBlock [OF assms(1)] unfolding evicts_def by simp
  moreover have "set inc' \<subseteq> set inc" using sub by (rule subseq_set_subset)
  ultimately show ?thesis
    using assms(2,3) lowestPriority_least unfolding evicts_def by auto
qed

lemma dropLowest_spec:
  assumes "dropLowest over inc dr = (inc', dr')"
  shows "\<exists>ds. dr' = dr @ ds \<and> evicts inc inc' ds \<and> (inc' = [] \<or> \<not> over inc')
     \<and> (\<not> over inc \<longrightarrow> ds = [])"
  using assms
proof (induction over inc dr rule: dropLowest.induct)
  case (1 over inc dr)
  show ?case
  proof (cases "inc \<noteq> [] \<and> over inc")
    case False
    with "1.prems" show ?thesis by (auto simp: dropLowest_stop evicts_def)
  next
    case True
    let ?i = "lowestPriorityIndex inc"
    let ?rest = "removeBlock inc ?i"
    have i: "?i < length inc" using True by simp
    have "dropLowest over ?rest (dr @ [inc ! ?i]) = (inc', dr')"
      using "1.prems" True by (simp add: dropLowest_step)
    from "1.IH" [OF True refl this] obtain ds where ds: "dr' = (dr @ [inc ! ?i]) @ ds"
      "evicts ?rest inc' ds" "inc' = [] \<or> \<not> over inc'" by blast
    have "evicts inc inc' (inc ! ?i # ds)" by (rule evicts_lowest [OF i refl ds(2)])
    with ds(1,3) True show ?thesis by auto
  qed
qed

lemma evicts_trans:
  assumes "evicts blocks inc1 ds1" "evicts inc1 inc2 ds2"
  shows "evicts blocks inc2 (ds1 @ ds2)"
proof -
  have "subseq inc2 blocks" using assms unfolding evicts_def by (blast intro: subseq_order.trans)
  moreover have "mset inc2 + mset (ds1 @ ds2) = mset blocks"
    using assms unfolding evicts_def by (simp add: ac_simps)
  moreover have "set inc2 \<subseteq> set inc1" "set ds2 \<subseteq> set inc1" using evicts_set [OF assms(2)] by auto
  ultimately show ?thesis using assms unfolding evicts_def by auto
qed

subsection \<open>Budgets\<close>

lemma applyBudget_evicts:
  assumes "applyBudget c blocks budget = (inc, dr)" "0 < cc_MaxBlocks c" "blocks \<noteq> []"
  obtains kept where "evicts blocks kept dr" "int (length kept) \<le> cc_MaxBlocks c"
    "kept = [] \<or> totalEstimatedTokens kept \<le> budget"
    "inc = (if kept = [] then [hd blocks] else kept)"
    "int (length blocks) \<le> cc_MaxBlocks c \<Longrightarrow> totalEstimatedTokens blocks \<le> budget
       \<Longrightarrow> kept = blocks \<and> dr = []"
proof -
  let ?o1 = "\<lambda>bs. int (length bs) > cc_MaxBlocks c"
  let ?o2 = "\<lambda>bs. totalEstimatedTokens bs > budget"
  obtain inc1 d1 where r1: "dropLowest ?o1 blocks [] = (inc1, d1)" by force
  obtain inc2 d2 where r2: "dropLowest ?o2 inc1 d1 = (inc2, d2)" by force
  obtain e1: "evicts blocks inc1 d1" and l1: "int (length inc1) \<le> cc_MaxBlocks c"
    using dropLowest_spec [OF r1] assms(2) by fastforce
  obtain ds where ds: "d2 = d1 @ ds" "evicts inc1 inc2 ds" "inc2 = [] \<or> \<not> ?o2 inc2"
    using dropLowest_spec [OF r2] by blast
  have ev: "evicts blocks inc2 d2" unfolding ds(1) by (rule evicts_trans [OF e1 ds(2)])
  have "length inc2 \<le> length inc1" using ds(2) unfolding evicts_def by (blast dest: list_emb_length)
  with l1 have l2: "int (length inc2) \<le> cc_MaxBlocks c" by linarith
  have res: "(inc, dr) = (if inc2 = [] then ([hd blocks], d2) else (inc2, d2))"
    using assms(1,3) unfolding applyBudget_def r1 by (simp add: r2)
  have none: "inc2 = blocks \<and> d2 = []" if "\<not> ?o1 blocks" "\<not> ?o2 blocks"
  proof -
    have "inc1 = blocks" "d1 = []" using r1 that(1) by (simp_all add: dropLowest_stop)
    then show ?thesis using r2 that(2) by (simp add: dropLowest_stop)
  qed
  show thesis
    by (rule that [of inc2]) (use ev l2 ds(3) none res in \<open>auto split: if_splits\<close>)
qed


definition sizedBlock :: "int \<Rightarrow> int \<Rightarrow> block" where
  "sizedBlock prio tokens = \<lparr>bk_Kind = BlockKindToolResult, bk_Content = [], bk_IncludeReason = [],
     bk_EstimatedTokens = tokens, bk_Priority = prio\<rparr>"

definition demoConfig :: contextConfig where
  "demoConfig = \<lparr>cc_MaxBlocks = 2, cc_Budget = 10, cc_PlannerBudget = 0, cc_RetrievalBudget = 0,
     cc_CriticBudget = 0, cc_SummaryTurnThreshold = 1\<rparr>"

lemmas evictDefs = applyBudget_def dropLowest.simps [of _ "_ # _"] dropLowest.simps [of _ "[]"]
  lowestPriorityIndex_def removeBlock_def totalEstimatedTokens_def


text \<open>
  The safety net does not keep the most important block: it returns the first one, which
  may be the least important, and the log lists that block as dropped although it is included.
\<close>

theorem safety_net_keeps_first:
  "\<exists>c blocks budget inc dr b. applyBudget c blocks budget = (inc, dr) \<and> 0 < cc_MaxBlocks c
     \<and> inc = [hd blocks] \<and> hd blocks \<in> set dr \<and> b \<in> set blocks
     \<and> bk_Priority (hd blocks) < bk_Priority b"
proof -
  have "applyBudget demoConfig [sizedBlock 5 30, sizedBlock 9 40] 10
     = ([sizedBlock 5 30], [sizedBlock 5 30, sizedBlock 9 40])"
    by (simp add: evictDefs demoConfig_def sizedBlock_def)
  then show ?thesis
    by (intro exI [of _ demoConfig] exI [of _ "[sizedBlock 5 30, sizedBlock 9 40]"] exI [of _ 10]
        exI [of _ "[sizedBlock 5 30]"] exI [of _ "[sizedBlock 5 30, sizedBlock 9 40]"]
        exI [of _ "sizedBlock 9 40"]) (simp add: demoConfig_def sizedBlock_def)
qed

subsection \<open>Stages\<close>

definition stageOK :: "contextConfig \<Rightarrow> int \<Rightarrow> block list \<Rightarrow> block list \<Rightarrow> bool" where
  "stageOK c budget candidates bs \<longleftrightarrow>
     set bs \<subseteq> set candidates \<and> (candidates \<noteq> [] \<longrightarrow> bs \<noteq> [])
   \<and> int (length bs) \<le> cc_MaxBlocks c \<and> (totalEstimatedTokens bs \<le> budget \<or> length bs = 1)"

lemma applyBudget_stageOK:
  assumes "0 < cc_MaxBlocks c" "0 < budget"
  shows "stageOK c budget blocks (fst (applyBudget c blocks budget))"
proof (cases "blocks = []")
  case True
  then show ?thesis
    using assms by (simp add: stageOK_def evictDefs)
next
  case False
  obtain inc dr where r: "applyBudget c blocks budget = (inc, dr)" by force
  from applyBudget_evicts [OF this assms(1) False] obtain kept where
    "evicts blocks kept dr" "int (length kept) \<le> cc_MaxBlocks c"
    "kept = [] \<or> totalEstimatedTokens kept \<le> budget"
    "inc = (if kept = [] then [hd blocks] else kept)" by metis
  then show ?thesis
    unfolding stageOK_def r evicts_def using False assms(1)
    by (auto dest: subseq_set_subset)
qed

text \<open>
  Every stage of a built context is non-empty when it has a candidate, has at most
  \<open>MaxBlocks\<close> blocks, and is within its budget unless a single block is left.  The planner never
  sees evidence or tool results, the retrieval stage in addition no task notes.
\<close>

theorem Build_stages:
  assumes "s = newContextService config summ score" "r = Build s input"
    and "allBlocks = scoredBlocks s (maybeSummarize s input)"
  shows "stageOK (cx_config s) (plannerBudget (cx_config s))
        (filterByKinds allBlocks [BlockKindUserProfile, BlockKindRecentTurns,
           BlockKindSessionSummary, BlockKindTaskScratchpad]) (br_Planner r)
    \<and> stageOK (cx_config s) (retrievalBudget (cx_config s))
        (filterByKinds allBlocks [BlockKindUserProfile, BlockKindRecentTurns,
           BlockKindSessionSummary]) (br_Retrieval r)
    \<and> stageOK (cx_config s) (criticBudget (cx_config s)) allBlocks (br_Critic r)
    \<and> al_IncludedBlocks (br_Log r) = map bk_Kind (br_Planner r)
    \<and> BlockKindRetrievalEvidence \<notin> set (al_IncludedBlocks (br_Log r))
    \<and> BlockKindToolResult \<notin> set (al_IncludedBlocks (br_Log r))
    \<and> BlockKindTaskScratchpad \<notin> bk_Kind ` set (br_Retrieval r)"
proof -
  let ?c = "cx_config s"
  let ?p = "filterByKinds allBlocks [BlockKindUserProfile, BlockKindRecentTurns,
           BlockKindSessionSummary, BlockKindTaskScratchpad]"
  let ?q = "filterByKinds allBlocks [BlockKindUserProfile, BlockKindRecentTurns, BlockKindSessionSummary]"
  have c: "0 < cc_MaxBlocks ?c" "0 < cc_Budget ?c"
    using assms(1) by (simp_all add: newContextService_def)
  have b: "0 < plannerBudget ?c" "0 < retrievalBudget ?c" "0 < criticBudget ?c"
    using c by (simp_all add: plannerBudget_def retrievalBudget_def criticBudget_def)
  have r: "br_Planner r = fst (applyBudget ?c ?p (plannerBudget ?c))"
    "br_Retrieval r = fst (applyBudget ?c ?q (retrievalBudget ?c))"
    "br_Critic r = fst (applyBudget ?c allBlocks (criticBudget ?c))"
    "al_IncludedBlocks (br_Log r) = map bk_Kind (br_Planner r)"
    unfolding assms(2,3) by (simp_all add: Build_def Let_def blockKinds_def split: prod.splits)
  note st = applyBudget_stageOK [OF c(1) b(1), of ?p] applyBudget_stageOK [OF c(1) b(2), of ?q]
    applyBudget_stageOK [OF c(1) b(3), of allBlocks]
  have "set (br_Planner r) \<subseteq> set ?p" "set (br_Retrieval r) \<subseteq> set ?q"
    using st(1,2) r(1,2) by (simp_all add: stageOK_def)
  then have "BlockKindRetrievalEvidence \<notin> bk_Kind ` set (br_Planner r)"
    "BlockKindToolResult \<notin> bk_Kind ` set (br_Planner r)"
    "BlockKindTaskScratchpad \<notin> bk_Kind ` set (br_Retrieval r)"
    unfolding filterByKinds_def by fastforce+
  with st r show ?thesis by simp
qed

definition demoInput :: buildInput where
  "demoInput = \<lparr>bi_RequestID = ''r'', bi_SessionID = ''s'', bi_TenantID = ''acme'', bi_UserID = [],
     bi_Mode = ''chat'', bi_UserMessage = ''ticket'',
     bi_RecentTurns = [\<lparr>tn_Role = ''user'', tn_Content = ''a''\<rparr>, \<lparr>tn_Role = ''user'', tn_Content = ''b''\<rparr>],
     bi_SessionSummary = [], bi_TaskScratchpad = [], bi_RetrievalResults = [], bi_ToolResults = []\<rparr>"

lemma Build_stages_witness:
  "BlockKindToolResult \<notin> set (al_IncludedBlocks (br_Log
     (Build (newContextService demoConfig None (Some KeywordScoreBlocks)) demoInput)))"
  using Build_stages [OF refl refl refl, of demoConfig None "Some KeywordScoreBlocks" demoInput]
  by blast

subsection \<open>Summaries and scorers\<close>

text \<open>
  Summarizing replaces the turns by exactly the newest ones up to the threshold, and only
  after a summary of all older turns was produced; it keeps an earlier session summary unless
  the two together were compressed again.  In every other case the input is left alone.
\<close>

theorem maybeSummarize_correct:
  assumes "cx_summarizer s = Some summarize" "threshold = cc_SummaryTurnThreshold (cx_config s)"
    and "out = maybeSummarize s input"
  shows "if 0 < threshold \<and> threshold < int (length (bi_RecentTurns input))
    then (case summarize (take (length (bi_RecentTurns input) - nat threshold) (bi_RecentTurns input)) of
        Inl err \<Rightarrow> out = input
      | Inr summary \<Rightarrow>
          bi_RecentTurns out = drop (length (bi_RecentTurns input) - nat threshold) (bi_RecentTurns input)
        \<and> int (length (bi_RecentTurns out)) = threshold
        \<and> (bi_SessionSummary input = [] \<longrightarrow> bi_SessionSummary out = summary)
        \<and> (bi_SessionSummary input \<noteq> [] \<longrightarrow>
             (let merged = bi_SessionSummary input @ newline @ newline @ summary
              in bi_SessionSummary out = merged
                 \<or> (estimateTokens merged > 200 \<and> bi_SessionSummary out \<noteq> []
                    \<and> summarize [\<lparr>tn_Role = ''system'', tn_Content = merged\<rparr>]
                        = Inr (bi_SessionSummary out)))))
    else out = input"
proof (cases "0 < threshold \<and> threshold < int (length (bi_RecentTurns input))")
  case False
  then show ?thesis using assms by (auto simp: maybeSummarize_def Let_def)
next
  case True
  let ?older = "take (length (bi_RecentTurns input) - nat threshold) (bi_RecentTurns input)"
  show ?thesis
  proof (cases "summarize ?older")
    case (Inl err)
    with True assms show ?thesis by (auto simp: maybeSummarize_def Let_def)
  next
    case (Inr summary)
    let ?merged = "bi_SessionSummary input @ newline @ newline @ summary"
    show ?thesis
      using True assms Inr
      by (cases "summarize [\<lparr>tn_Role = ''system'', tn_Content = ?merged\<rparr>]")
        (auto simp: maybeSummarize_def Let_def)
  qed
qed

lemma maybeSummarize_correct_witness:
  "bi_SessionSummary (maybeSummarize
     (newContextService demoConfig (Some (\<lambda>_. Inr ''sum'')) None) demoInput) = ''sum''"
  using maybeSummarize_correct [of "newContextService demoConfig (Some (\<lambda>_. Inr ''sum'')) None"
      "\<lambda>_. Inr ''sum''" 1 "maybeSummarize (newContextService demoConfig (Some (\<lambda>_. Inr ''sum'')) None) demoInput"
      demoInput]
  by (simp add: newContextService_def demoConfig_def demoInput_def)

text \<open>
  The keyword scorer keeps the blocks, their order and their content, and raises a priority
  by 15 to 30: never by 10 or less, and by 20 only for two matching words.
\<close>

theorem keyword_scorer_band:
  "length (KeywordScoreBlocks query blocks) = length blocks
   \<and> (\<forall>i < length blocks.
        (let b = blocks ! i; b' = KeywordScoreBlocks query blocks ! i;
             m = length (filter (containsWord (bk_Content b)) (splitWords query))
         in bk_Kind b' = bk_Kind b \<and> bk_Content b' = bk_Content b
          \<and> bk_EstimatedTokens b' = bk_EstimatedTokens b
          \<and> bk_Priority b' = bk_Priority b + (if m = 0 then 0 else min 30 (10 + 5 * int m))))"
proof (cases "query = [] \<or> blocks = [] \<or> splitWords query = []")
  case True
  have "splitWords [] = []" by (simp add: splitWords_def)
  with True show ?thesis by (auto simp: KeywordScoreBlocks_def Let_def)
next
  case False
  then have run: "KeywordScoreBlocks query blocks = map (keywordBoost (splitWords query)) blocks"
    by (simp add: KeywordScoreBlocks_def)
  have one: "bk_Kind (keywordBoost ws b) = bk_Kind b \<and> bk_Content (keywordBoost ws b) = bk_Content b
      \<and> bk_EstimatedTokens (keywordBoost ws b) = bk_EstimatedTokens b
      \<and> bk_Priority (keywordBoost ws b) = bk_Priority b
         + (if length (filter (containsWord (bk_Content b)) ws) = 0 then 0
            else min 30 (10 + 5 * int (length (filter (containsWord (bk_Content b)) ws))))" for ws b
    by (auto simp: keywordBoost_def Let_def min_def)
  show ?thesis unfolding run Let_def using one by simp
qed

lemma keyword_scorer_band_witness:
  "bk_Priority (KeywordScoreBlocks ''ticket'' [newBlock BlockKindToolResult ''Ticket INC-1'' [] 70] ! 0)
     = 85"
proof -
  have "containsWord ''Ticket INC-1'' ''ticket''" "splitWords ''ticket'' = [''ticket'']"
    by code_simp+
  then show ?thesis
    using keyword_scorer_band [of "''ticket''" "[newBlock BlockKindToolResult ''Ticket INC-1'' [] 70]"]
    by (simp add: newBlock_def Let_def)
qed

end
