(* ===== verification/Planner.thy ===== *)
theory Planner
  imports Context_Engine
begin

text \<open>
  The planner: \<open>agent/planner/types.go\<close>, the policy merge of \<open>policy.go\<close>, the keyword planner and
  the LLM planner of \<open>service.go\<close> with the validation of \<open>prompt.go\<close>.

  The LLM provider and \<open>json.Unmarshal\<close> are function arguments; a \<open>json.RawMessage\<close> is its bytes,
  with \<open>[]\<close> for a nil one.  The system prompts are constants and enter the provider call as an
  argument; the user messages are built here, with \<open>json.Marshal\<close> of one tool as an argument.
\<close>

subsection \<open>Types\<close>

abbreviation (input) "IntentKnowledgeQA \<equiv> ''knowledge_qa''"
abbreviation (input) "IntentIncidentAssist \<equiv> ''incident_assist''"
abbreviation (input) "IntentReportRequest \<equiv> ''report_request''"

abbreviation (input) "StepKindRetrieve \<equiv> ''retrieve''"
abbreviation (input) "StepKindTool \<equiv> ''tool''"
abbreviation (input) "StepKindSynthesize \<equiv> ''synthesize''"
abbreviation (input) "StepKindCritic \<equiv> ''critic''"
abbreviation (input) "StepKindPromoteWorkflow \<equiv> ''promote_workflow''"

abbreviation (input) "PlanSourceReplan \<equiv> ''replan''"
abbreviation (input) "PlanSourceKeyword \<equiv> ''keyword''"
abbreviation (input) "PlanSourceLLM \<equiv> ''llm''"
abbreviation (input) "PlannerPromptVersion \<equiv> ''planner-v2''"

record toolParameterDesc =
  tpd_Name :: string
  tpd_Type :: string
  tpd_Required :: bool
  tpd_Description :: string

record toolDescriptor =
  td_Name :: string
  td_Description :: string
  td_ReadOnly :: bool
  td_RequiresApproval :: bool
  td_AsyncOnly :: bool
  td_Parameters :: "toolParameterDesc list"

record tenantPolicy =
  tp_Configured :: bool
  tp_AllowToolUse :: bool
  tp_AllowToolUseExplicit :: bool
  tp_AllowedTools :: "string list"
  tp_ForbiddenTools :: "string list"
  tp_MaxSteps :: int
  tp_RequireApprovalForWrite :: bool

record planInput =
  pin_RequestID :: string
  pin_TraceID :: string
  pin_TenantID :: string
  pin_SessionID :: string
  pin_Mode :: string
  pin_UserMessage :: string
  pin_Context :: "block list"
  pin_AvailableTools :: "toolDescriptor list"
  pin_TenantPolicy :: tenantPolicy
  pin_UserPermissions :: "string list"

record planStep =
  ps_StepID :: string
  ps_Kind :: string
  ps_Name :: string
  ps_DependsOn :: "string list"
  ps_ToolName :: string
  ps_ToolArguments :: string
  ps_ReadOnly :: bool
  ps_NeedsApproval :: bool

record executionPlan =
  ep_PlanID :: string
  ep_Intent :: string
  ep_RequiresRetrieval :: bool
  ep_RequiresTool :: bool
  ep_RequiresWorkflow :: bool
  ep_RequiresApproval :: bool
  ep_MaxSteps :: int
  ep_OutputSchema :: string
  ep_Steps :: "planStep list"
  ep_PlannerReasoningShort :: string
  ep_Source :: string
  ep_PromptVersion :: string

record executedStep =
  xs_StepID :: string
  xs_Kind :: string
  xs_ToolName :: string
  xs_Status :: string
  xs_Summary :: string

record replanInput =
  rpi_OriginalPlan :: executionPlan
  rpi_ExecutedSteps :: "executedStep list"
  rpi_Input :: planInput
  rpi_ReplanReason :: string

record llmPlanStep =
  ls_Kind :: string
  ls_Name :: string
  ls_DependsOn :: "string list"
  ls_ToolName :: string
  ls_ToolArguments :: string
  ls_ReadOnly :: bool
  ls_NeedsApproval :: bool

record llmPlanResponse =
  lr_Intent :: string
  lr_Reasoning :: string
  lr_RequiresRetrieval :: bool
  lr_RequiresTool :: bool
  lr_RequiresWorkflow :: bool
  lr_RequiresApproval :: bool
  lr_OutputSchema :: string
  lr_Steps :: "llmPlanStep list"

definition noTool :: toolDescriptor where
  "noTool = \<lparr>td_Name = [], td_Description = [], td_ReadOnly = False, td_RequiresApproval = False,
     td_AsyncOnly = False, td_Parameters = []\<rparr>"

definition noPolicy :: tenantPolicy where
  "noPolicy = \<lparr>tp_Configured = False, tp_AllowToolUse = False, tp_AllowToolUseExplicit = False,
     tp_AllowedTools = [], tp_ForbiddenTools = [], tp_MaxSteps = 0,
     tp_RequireApprovalForWrite = False\<rparr>"

subsection \<open>Policy inheritance\<close>

definition unionStrings :: "string list \<Rightarrow> string list \<Rightarrow> string list" where
  "unionStrings a b = goSort (\<lambda>x y. x < y) (remdups (a @ b))"

definition mergeLayer :: "tenantPolicy \<Rightarrow> tenantPolicy \<Rightarrow> tenantPolicy" where
  "mergeLayer layer result =
     (if \<not> tp_Configured layer then result
      else
        result\<lparr>tp_Configured := True,
          tp_AllowToolUse := (if tp_AllowToolUseExplicit layer then tp_AllowToolUse layer
                              else tp_AllowToolUse result),
          tp_AllowToolUseExplicit := (tp_AllowToolUseExplicit layer \<or> tp_AllowToolUseExplicit result),
          tp_AllowedTools := (if tp_AllowedTools layer \<noteq> [] then tp_AllowedTools layer
                              else tp_AllowedTools result),
          tp_ForbiddenTools := (if tp_ForbiddenTools layer \<noteq> []
                                then unionStrings (tp_ForbiddenTools result) (tp_ForbiddenTools layer)
                                else tp_ForbiddenTools result),
          tp_MaxSteps := (if tp_MaxSteps layer > 0 then tp_MaxSteps layer else tp_MaxSteps result),
          tp_RequireApprovalForWrite :=
            (tp_RequireApprovalForWrite layer \<or> tp_RequireApprovalForWrite result)\<rparr>)"

definition MergePolicies :: "tenantPolicy \<Rightarrow> tenantPolicy \<Rightarrow> tenantPolicy \<Rightarrow> tenantPolicy" where
  "MergePolicies org tenant user = fold mergeLayer [org, tenant, user] noPolicy"

subsection \<open>The keyword planner\<close>

definition planMaxSteps :: nat where
  "planMaxSteps = 6"

definition classifyIntent :: "planInput \<Rightarrow> string" where
  "classifyIntent input =
     (let message = toLower (pin_UserMessage input) in
      if pin_Mode input = ''task'' then IntentReportRequest
      else if contains message ''report'' \<or> contains message ''export'' then IntentReportRequest
      else if contains message ''ticket'' then IntentIncidentAssist
      else IntentKnowledgeQA)"

definition shouldPromoteWorkflow :: "planInput \<Rightarrow> string \<Rightarrow> bool" where
  "shouldPromoteWorkflow input intent \<longleftrightarrow>
     pin_Mode input = ''task'' \<or> intent = IntentReportRequest"

definition isTenantToolAllowed :: "string \<Rightarrow> tenantPolicy \<Rightarrow> bool" where
  "isTenantToolAllowed toolName policy =
     (if \<not> tp_Configured policy then True
      else if toolName \<in> set (tp_ForbiddenTools policy) then False
      else if tp_AllowedTools policy \<noteq> [] then toolName \<in> set (tp_AllowedTools policy)
      else True)"

definition selectTool :: "planInput \<Rightarrow> toolDescriptor" where
  "selectTool input =
     (let policy = pin_TenantPolicy input in
      if tp_Configured policy \<and> \<not> tp_AllowToolUse policy then noTool
      else
        let message = toLower (pin_UserMessage input);
            search = (if contains message ''ticket''
                         \<and> (contains message ''search'' \<or> contains message ''history''
                            \<or> contains message ''query'')
                      then find (\<lambda>t. td_Name t = ''ticket_search''
                                   \<and> isTenantToolAllowed (td_Name t) policy)
                             (pin_AvailableTools input)
                      else None)
        in case search of
             Some t \<Rightarrow> t
           | None \<Rightarrow>
               (case find (\<lambda>t. contains message ''ticket'' \<and> contains (td_Name t) ''ticket''
                             \<and> isTenantToolAllowed (td_Name t) policy)
                       (pin_AvailableTools input) of
                  Some t \<Rightarrow> t
                | None \<Rightarrow> noTool))"

definition emptyStep :: planStep where
  "emptyStep = \<lparr>ps_StepID = [], ps_Kind = [], ps_Name = [], ps_DependsOn = [], ps_ToolName = [],
     ps_ToolArguments = [], ps_ReadOnly = False, ps_NeedsApproval = False\<rparr>"

definition stepName :: "nat \<Rightarrow> string" where
  "stepName n = ''step-'' @ showNat n"

definition buildSteps :: "bool \<Rightarrow> toolDescriptor \<Rightarrow> planStep list" where
  "buildSteps requiresWorkflow tool =
     (if requiresWorkflow then
        [emptyStep\<lparr>ps_StepID := ''step-1'', ps_Kind := StepKindPromoteWorkflow,
           ps_Name := ''promote to workflow'', ps_ToolName := td_Name tool\<rparr>]
      else
        let steps = [emptyStep\<lparr>ps_StepID := ''step-1'', ps_Kind := StepKindRetrieve,
                       ps_Name := ''retrieve supporting evidence''\<rparr>] @
              (if td_Name tool \<noteq> [] then
                 [emptyStep\<lparr>ps_StepID := ''step-2'', ps_Kind := StepKindTool,
                    ps_Name := ''run '' @ td_Name tool, ps_DependsOn := [''step-1''],
                    ps_ToolName := td_Name tool, ps_ReadOnly := td_ReadOnly tool,
                    ps_NeedsApproval := td_RequiresApproval tool\<rparr>] else []);
            n = length steps
        in steps @
           [emptyStep\<lparr>ps_StepID := stepName (n + 1), ps_Kind := StepKindSynthesize,
              ps_Name := ''compose grounded answer'', ps_DependsOn := [ps_StepID (last steps)]\<rparr>,
            emptyStep\<lparr>ps_StepID := stepName (n + 2), ps_Kind := StepKindCritic,
              ps_Name := ''validate response'', ps_DependsOn := [stepName (n + 1)]\<rparr>])"

definition selectOutputSchema :: "string \<Rightarrow> string" where
  "selectOutputSchema intent =
     (if intent = IntentReportRequest then ''structured_summary'' else ''markdown'')"

definition summarizeReasoning :: "string \<Rightarrow> bool \<Rightarrow> bool \<Rightarrow> string" where
  "summarizeReasoning intent requiresTool requiresWorkflow =
     joinStrings ([intent] @ (if requiresTool then [''tool''] else []) @
       (if requiresWorkflow then [''workflow''] else [])) '', ''"

definition derivePlanID :: "planInput \<Rightarrow> string" where
  "derivePlanID input =
     (if pin_RequestID input \<noteq> [] then ''plan-'' @ pin_RequestID input
      else if pin_SessionID input \<noteq> [] then ''plan-'' @ pin_SessionID input
      else ''plan-generated'')"

definition policyMaxSteps :: "tenantPolicy \<Rightarrow> nat" where
  "policyMaxSteps policy =
     (if tp_Configured policy \<and> tp_MaxSteps policy > 0 \<and> tp_MaxSteps policy < int planMaxSteps
      then nat (tp_MaxSteps policy) else planMaxSteps)"

definition planWithKeywords :: "planInput \<Rightarrow> string \<Rightarrow> executionPlan" where
  "planWithKeywords input planID =
     (let intent = classifyIntent input;
          requiresWorkflow = shouldPromoteWorkflow input intent;
          tool0 = selectTool input;
          requiresTool = (td_Name tool0 \<noteq> []);
          escalate = (requiresTool \<and> \<not> td_ReadOnly tool0
                      \<and> tp_RequireApprovalForWrite (pin_TenantPolicy input));
          requiresApproval = (td_RequiresApproval tool0 \<or> escalate);
          tool = (if escalate then tool0\<lparr>td_RequiresApproval := True\<rparr> else tool0);
          requiresRetrieval = (\<not> requiresWorkflow \<and> \<not> (requiresTool \<and> td_ReadOnly tool));
          workflow = (requiresWorkflow \<or> td_AsyncOnly tool);
          steps = buildSteps workflow tool;
          effectiveMax = policyMaxSteps (pin_TenantPolicy input)
      in \<lparr>ep_PlanID = planID, ep_Intent = intent, ep_RequiresRetrieval = requiresRetrieval,
          ep_RequiresTool = requiresTool, ep_RequiresWorkflow = workflow,
          ep_RequiresApproval = requiresApproval,
          ep_MaxSteps = int (if length steps > effectiveMax then effectiveMax else length steps),
          ep_OutputSchema = selectOutputSchema intent,
          ep_Steps = (if length steps > effectiveMax then take effectiveMax steps else steps),
          ep_PlannerReasoningShort = summarizeReasoning intent requiresTool workflow,
          ep_Source = PlanSourceKeyword, ep_PromptVersion = []\<rparr>)"

end
