(* ===== verification/Planner_LLM.thy ===== *)
theory Planner_LLM
  imports Planner
begin

text \<open>
  The LLM planner of \<open>planner/service.go\<close> and \<open>planner/prompt.go\<close>: the user messages, the
  validation of a parsed plan against structure, tenant policy and tool registry, the conversion
  to an execution plan, planning with fallback, and replanning.

  \<open>ask\<close> is the provider call for a user message (the system prompt and the sampling options
  are constants of the call); \<open>unmarshal\<close> is \<open>json.Unmarshal\<close> into \<open>llmPlanResponse\<close>.
\<close>

datatype planError =
    PlanInvalidIntent string
  | PlanNoSteps
  | PlanInvalidKind nat string
  | PlanEmptyToolName nat
  | PlanUnknownTool nat string
  | PlanEmptyName nat
  | PlanDuplicateName nat string
  | PlanUnknownDependency nat string string
  | PlanWorkflowShape nat
  | PlanUnexpectedPromotion nat
  | PolicyDisallowsTools nat string
  | PolicyTooManySteps nat nat
  | PolicyForbiddenTool nat string
  | PolicyToolNotAllowed nat string
  | PolicyWriteNeedsApproval nat string
  | RegistryAsyncOnly nat string
  | RegistryNeedsApproval nat string
  | RegistryNotReadOnly nat string
  | PlanCompleteError string
  | PlanUnmarshalError string string
  | ReplanNeedsProvider

subsection \<open>Messages\<close>

definition goBool :: "bool \<Rightarrow> string" where
  "goBool b = (if b then ''true'' else ''false'')"

definition toolLines :: "(toolDescriptor \<Rightarrow> string) \<Rightarrow> toolDescriptor list \<Rightarrow> string" where
  "toolLines marshal tools =
     (if tools \<noteq> [] then newline @ ''Available tools:'' @ newline @
        concat (map (\<lambda>t. marshal t @ newline) tools) else [])"

definition buildPlannerUserMessage :: "(toolDescriptor \<Rightarrow> string) \<Rightarrow> planInput \<Rightarrow> string" where
  "buildPlannerUserMessage marshal input =
     (let policy = pin_TenantPolicy input in
      ''Request mode: '' @ pin_Mode input @ newline @ newline @ ''User message: '' @
      pin_UserMessage input @
      (if pin_Context input \<noteq> [] then newline @ newline @ ''Context blocks:'' @ newline @
         concat (map (\<lambda>b. ''- ['' @ bk_Kind b @ ''] '' @ bk_Content b @ newline) (pin_Context input))
       else []) @
      toolLines marshal (pin_AvailableTools input) @
      (if tp_Configured policy then
         newline @ ''Tenant policy: allow_tool_use='' @ goBool (tp_AllowToolUse policy) @
         (if tp_AllowedTools policy \<noteq> []
          then '', allowed_tools=['' @ joinStrings (tp_AllowedTools policy) '','' @ '']'' else []) @
         (if tp_ForbiddenTools policy \<noteq> []
          then '', forbidden_tools=['' @ joinStrings (tp_ForbiddenTools policy) '','' @ '']'' else []) @
         (if tp_MaxSteps policy > 0 then '', max_steps='' @ showInt (tp_MaxSteps policy) else []) @
         (if tp_RequireApprovalForWrite policy then '', require_approval_for_write=true'' else [])
       else newline @ ''Tenant policy: not configured (permissive defaults)''))"

definition buildReplanUserMessage :: "(toolDescriptor \<Rightarrow> string) \<Rightarrow> replanInput \<Rightarrow> string" where
  "buildReplanUserMessage marshal ri =
     (let input = rpi_Input ri; policy = pin_TenantPolicy input in
      ''Original intent: '' @ ep_Intent (rpi_OriginalPlan ri) @ newline @
      ''Original reasoning: '' @ ep_PlannerReasoningShort (rpi_OriginalPlan ri) @ newline @ newline @
      ''User message: '' @ pin_UserMessage input @ newline @ newline @
      ''Replan reason: '' @ rpi_ReplanReason ri @
      (if rpi_ExecutedSteps ri \<noteq> [] then newline @ newline @ ''Already executed steps:'' @ newline @
         concat (map (\<lambda>x. ''- ['' @ xs_Kind x @ ''] '' @ xs_StepID x @ '' (tool='' @ xs_ToolName x @
                        '', status='' @ xs_Status x @ ''): '' @ xs_Summary x @ newline)
                  (rpi_ExecutedSteps ri)) else []) @
      toolLines marshal (pin_AvailableTools input) @
      (if tp_Configured policy
       then newline @ ''Tenant policy: allow_tool_use='' @ goBool (tp_AllowToolUse policy) else []))"

definition stripCodeFences :: "string \<Rightarrow> string" where
  "stripCodeFences s =
     (let s0 = trimSpace s;
          s1 = (if hasPrefix s0 ''```json'' then trimPrefix s0 ''```json''
                else if hasPrefix s0 ''```'' then trimPrefix s0 ''```'' else s0);
          s2 = (if hasSuffix s1 ''```'' then trimSuffix s1 ''```'' else s1)
      in trimSpace s2)"

definition truncate_bytes :: "string \<Rightarrow> nat \<Rightarrow> string" where
  "truncate_bytes s n = (if length s \<le> n then s else take n s @ ''...'')"

subsection \<open>Validation\<close>

definition validIntents :: "string list" where
  "validIntents = [IntentKnowledgeQA, IntentIncidentAssist, IntentReportRequest]"

definition validKinds :: "string list" where
  "validKinds = [StepKindRetrieve, StepKindTool, StepKindSynthesize, StepKindCritic,
     StepKindPromoteWorkflow]"

fun checkSteps :: "string list \<Rightarrow> string list \<Rightarrow> nat \<Rightarrow> llmPlanStep list \<Rightarrow> planError option" where
  "checkSteps available names i [] = None"
| "checkSteps available names i (s # ss) =
     (if ls_Kind s \<notin> set validKinds then Some (PlanInvalidKind i (ls_Kind s))
      else if ls_Kind s = StepKindTool \<and> ls_ToolName s = [] then Some (PlanEmptyToolName i)
      else if ls_Kind s = StepKindTool \<and> available \<noteq> [] \<and> ls_ToolName s \<notin> set available
      then Some (PlanUnknownTool i (ls_ToolName s))
      else if ls_Name s = [] then Some (PlanEmptyName i)
      else if ls_Name s \<in> set names then Some (PlanDuplicateName i (ls_Name s))
      else checkSteps available (ls_Name s # names) (Suc i) ss)"

fun checkDependencies :: "string list \<Rightarrow> nat \<Rightarrow> llmPlanStep list \<Rightarrow> planError option" where
  "checkDependencies names i [] = None"
| "checkDependencies names i (s # ss) =
     (case find (\<lambda>d. d \<notin> set names) (ls_DependsOn s) of
        Some d \<Rightarrow> Some (PlanUnknownDependency i (ls_Name s) d)
      | None \<Rightarrow> checkDependencies names (Suc i) ss)"

fun firstStep :: "(llmPlanStep \<Rightarrow> bool) \<Rightarrow> nat \<Rightarrow> llmPlanStep list \<Rightarrow> (nat \<times> llmPlanStep) option" where
  "firstStep p i [] = None"
| "firstStep p i (s # ss) = (if p s then Some (i, s) else firstStep p (Suc i) ss)"

definition validateLLMPlan :: "llmPlanResponse \<Rightarrow> string list \<Rightarrow> planError option" where
  "validateLLMPlan resp available =
     (let steps = lr_Steps resp in
      if lr_Intent resp \<notin> set validIntents then Some (PlanInvalidIntent (lr_Intent resp))
      else if steps = [] then Some PlanNoSteps
      else case checkSteps available [] 0 steps of
        Some e \<Rightarrow> Some e
      | None \<Rightarrow>
          (case checkDependencies (map ls_Name steps) 0 steps of
             Some e \<Rightarrow> Some e
           | None \<Rightarrow>
               if lr_RequiresWorkflow resp
                  \<and> (length steps \<noteq> 1 \<or> ls_Kind (steps ! 0) \<noteq> StepKindPromoteWorkflow)
               then Some (PlanWorkflowShape (length steps))
               else if \<not> lr_RequiresWorkflow resp
               then (case firstStep (\<lambda>s. ls_Kind s = StepKindPromoteWorkflow) 0 steps of
                       Some (i, _) \<Rightarrow> Some (PlanUnexpectedPromotion i)
                     | None \<Rightarrow> None)
               else None))"

definition toolMap :: "toolDescriptor list \<Rightarrow> string \<rightharpoonup> toolDescriptor" where
  "toolMap tools = fold (\<lambda>t m. m(td_Name t \<mapsto> t)) tools Map.empty"

fun checkTenantSteps ::
    "(string \<rightharpoonup> toolDescriptor) \<Rightarrow> tenantPolicy \<Rightarrow> nat \<Rightarrow> llmPlanStep list \<Rightarrow> planError option" where
  "checkTenantSteps tools policy i [] = None"
| "checkTenantSteps tools policy i (s # ss) =
     (if ls_Kind s \<noteq> StepKindTool then checkTenantSteps tools policy (Suc i) ss
      else if ls_ToolName s \<in> set (tp_ForbiddenTools policy)
      then Some (PolicyForbiddenTool i (ls_ToolName s))
      else if tp_AllowedTools policy \<noteq> [] \<and> ls_ToolName s \<notin> set (tp_AllowedTools policy)
      then Some (PolicyToolNotAllowed i (ls_ToolName s))
      else if tp_RequireApprovalForWrite policy
           \<and> (case tools (ls_ToolName s) of
                 None \<Rightarrow> False | Some d \<Rightarrow> \<not> td_ReadOnly d \<and> \<not> ls_NeedsApproval s)
      then Some (PolicyWriteNeedsApproval i (ls_ToolName s))
      else checkTenantSteps tools policy (Suc i) ss)"

fun checkRegistrySteps ::
    "(string \<rightharpoonup> toolDescriptor) \<Rightarrow> bool \<Rightarrow> nat \<Rightarrow> llmPlanStep list \<Rightarrow> planError option" where
  "checkRegistrySteps tools workflow i [] = None"
| "checkRegistrySteps tools workflow i (s # ss) =
     (if ls_Kind s \<noteq> StepKindTool then checkRegistrySteps tools workflow (Suc i) ss
      else case tools (ls_ToolName s) of
        None \<Rightarrow> checkRegistrySteps tools workflow (Suc i) ss
      | Some d \<Rightarrow>
          if td_AsyncOnly d \<and> \<not> workflow then Some (RegistryAsyncOnly i (ls_ToolName s))
          else if \<not> td_ReadOnly d \<and> td_RequiresApproval d \<and> \<not> ls_NeedsApproval s
          then Some (RegistryNeedsApproval i (ls_ToolName s))
          else if \<not> td_ReadOnly d \<and> ls_ReadOnly s then Some (RegistryNotReadOnly i (ls_ToolName s))
          else checkRegistrySteps tools workflow (Suc i) ss)"

definition checkTenantPolicy ::
    "llmPlanResponse \<Rightarrow> (string \<rightharpoonup> toolDescriptor) \<Rightarrow> tenantPolicy \<Rightarrow> planError option" where
  "checkTenantPolicy resp tools policy =
     (let steps = lr_Steps resp;
          toolStep = firstStep (\<lambda>s. ls_Kind s = StepKindTool) 0 steps;
          effectiveMax = (if tp_MaxSteps policy > 0 \<and> tp_MaxSteps policy < int planMaxSteps
                          then nat (tp_MaxSteps policy) else planMaxSteps)
      in if \<not> tp_Configured policy then None
         else case (if tp_AllowToolUse policy then None else toolStep) of
           Some (i, s) \<Rightarrow> Some (PolicyDisallowsTools i (ls_ToolName s))
         | None \<Rightarrow>
             if length steps > effectiveMax
             then Some (PolicyTooManySteps (length steps) effectiveMax)
             else checkTenantSteps tools policy 0 steps)"

definition validatePlanPolicy ::
    "llmPlanResponse \<Rightarrow> (string \<rightharpoonup> toolDescriptor) \<Rightarrow> tenantPolicy \<Rightarrow> planError option" where
  "validatePlanPolicy resp tools policy =
     (case checkTenantPolicy resp tools policy of
        Some e \<Rightarrow> Some e
      | None \<Rightarrow> checkRegistrySteps tools (lr_RequiresWorkflow resp) 0 (lr_Steps resp))"

subsection \<open>Planning\<close>

definition toPlanStep :: "nat \<Rightarrow> llmPlanStep \<Rightarrow> planStep" where
  "toPlanStep i s =
     \<lparr>ps_StepID = stepName (i + 1), ps_Kind = ls_Kind s, ps_Name = ls_Name s,
      ps_DependsOn = ls_DependsOn s, ps_ToolName = ls_ToolName s,
      ps_ToolArguments = ls_ToolArguments s, ps_ReadOnly = ls_ReadOnly s,
      ps_NeedsApproval = ls_NeedsApproval s\<rparr>"

definition toLLMPlanResponse :: "string \<Rightarrow> llmPlanResponse \<Rightarrow> executionPlan" where
  "toLLMPlanResponse planID resp =
     (let steps = map (\<lambda>(i, s). toPlanStep i s) (indexed 0 (lr_Steps resp)) in
      \<lparr>ep_PlanID = planID, ep_Intent = lr_Intent resp,
       ep_RequiresRetrieval = lr_RequiresRetrieval resp, ep_RequiresTool = lr_RequiresTool resp,
       ep_RequiresWorkflow = lr_RequiresWorkflow resp, ep_RequiresApproval = lr_RequiresApproval resp,
       ep_MaxSteps = int (if length steps > planMaxSteps then planMaxSteps else length steps),
       ep_OutputSchema = lr_OutputSchema resp,
       ep_Steps = (if length steps > planMaxSteps then take planMaxSteps steps else steps),
       ep_PlannerReasoningShort = lr_Reasoning resp, ep_Source = [], ep_PromptVersion = []\<rparr>)"

definition acceptResponse ::
    "(string \<Rightarrow> string + llmPlanResponse) \<Rightarrow> planInput \<Rightarrow> string \<Rightarrow> string \<Rightarrow> string + string
     \<Rightarrow> planError + executionPlan" where
  "acceptResponse unmarshal input planID source reply =
     (case reply of
        Inl err \<Rightarrow> Inl (PlanCompleteError err)
      | Inr raw \<Rightarrow>
          let content = stripCodeFences (trimSpace raw) in
          case unmarshal content of
            Inl err \<Rightarrow> Inl (PlanUnmarshalError err (truncate_bytes content 200))
          | Inr resp \<Rightarrow>
              (case validateLLMPlan resp (map td_Name (pin_AvailableTools input)) of
                 Some e \<Rightarrow> Inl e
               | None \<Rightarrow>
                   (case validatePlanPolicy resp (toolMap (pin_AvailableTools input))
                           (pin_TenantPolicy input) of
                      Some e \<Rightarrow> Inl e
                    | None \<Rightarrow>
                        Inr ((toLLMPlanResponse planID resp)
                               \<lparr>ep_Source := source, ep_PromptVersion := PlannerPromptVersion\<rparr>))))"

definition planWithLLM ::
    "(toolDescriptor \<Rightarrow> string) \<Rightarrow> (string \<Rightarrow> string + string) \<Rightarrow> (string \<Rightarrow> string + llmPlanResponse)
     \<Rightarrow> string \<Rightarrow> planInput \<Rightarrow> planError + executionPlan" where
  "planWithLLM marshal ask unmarshal planID input =
     acceptResponse unmarshal input planID PlanSourceLLM
       (ask (buildPlannerUserMessage marshal input))"

definition Plan ::
    "(toolDescriptor \<Rightarrow> string) \<Rightarrow> (string \<Rightarrow> string + string) option
     \<Rightarrow> (string \<Rightarrow> string + llmPlanResponse) \<Rightarrow> planInput \<Rightarrow> executionPlan" where
  "Plan marshal llm unmarshal input =
     (let planID = derivePlanID input in
      case llm of
        None \<Rightarrow> planWithKeywords input planID
      | Some ask \<Rightarrow>
          (case planWithLLM marshal ask unmarshal planID input of
             Inl _ \<Rightarrow> planWithKeywords input planID
           | Inr plan \<Rightarrow> plan))"

definition Replan ::
    "(toolDescriptor \<Rightarrow> string) \<Rightarrow> (string \<Rightarrow> string + string) option
     \<Rightarrow> (string \<Rightarrow> string + llmPlanResponse) \<Rightarrow> replanInput \<Rightarrow> planError + executionPlan" where
  "Replan marshal llm unmarshal ri =
     (case llm of
        None \<Rightarrow> Inl ReplanNeedsProvider
      | Some ask \<Rightarrow>
          acceptResponse unmarshal (rpi_Input ri) (ep_PlanID (rpi_OriginalPlan ri) @ ''-replan'')
            PlanSourceReplan (ask (buildReplanUserMessage marshal ri)))"

end
