(* ===== verification/Planner_Laws.thy ===== *)
theory Planner_Laws
  imports Planner_LLM
begin

text \<open>
  The planner's guarantees: whatever the model answers, the plan that is returned respects the
  tenant policy and the tool registry; policies merge as documented, up to the case of partial
  layers; the keyword plan has a fixed, well-ordered shape.
\<close>

named_theorems planner \<open>what a passed check says of the steps\<close>

subsection \<open>Passed checks\<close>

lemma firstStep_None [planner]: "firstStep p i ss = None \<longleftrightarrow> (\<forall>s \<in> set ss. \<not> p s)"
  by (induction ss arbitrary: i) auto

lemma checkTenantSteps_None:
  "checkTenantSteps tools policy i ss = None \<Longrightarrow> tp_Configured policy \<Longrightarrow> s \<in> set ss
   \<Longrightarrow> ls_Kind s = StepKindTool
   \<Longrightarrow> isTenantToolAllowed (ls_ToolName s) policy
     \<and> (tp_RequireApprovalForWrite policy \<longrightarrow>
          (\<forall>d. tools (ls_ToolName s) = Some d \<and> \<not> td_ReadOnly d \<longrightarrow> ls_NeedsApproval s))"
  by (induction tools policy i ss rule: checkTenantSteps.induct)
    (auto simp: isTenantToolAllowed_def split: if_splits option.splits)

lemma checkRegistrySteps_None:
  "checkRegistrySteps tools workflow i ss = None \<Longrightarrow> s \<in> set ss \<Longrightarrow> ls_Kind s = StepKindTool
   \<Longrightarrow> tools (ls_ToolName s) = Some d
   \<Longrightarrow> (td_AsyncOnly d \<longrightarrow> workflow)
     \<and> (\<not> td_ReadOnly d \<longrightarrow> (td_RequiresApproval d \<longrightarrow> ls_NeedsApproval s) \<and> \<not> ls_ReadOnly s)"
  by (induction tools workflow i ss rule: checkRegistrySteps.induct)
    (auto split: if_splits option.splits)

definition stepWellFormed :: "string list \<Rightarrow> llmPlanStep \<Rightarrow> bool" where
  "stepWellFormed available s \<longleftrightarrow>
     ls_Kind s \<in> set validKinds \<and> ls_Name s \<noteq> []
   \<and> (ls_Kind s = StepKindTool \<longrightarrow> ls_ToolName s \<noteq> []
        \<and> (available \<noteq> [] \<longrightarrow> ls_ToolName s \<in> set available))"

lemma checkSteps_Cons:
  assumes "checkSteps available names i (s # ss) = None"
  shows "stepWellFormed available s" "ls_Name s \<notin> set names"
    "checkSteps available (ls_Name s # names) (Suc i) ss = None"
proof -
  have k: "ls_Kind s \<in> set validKinds" using assms by (rule contrapos_pp) simp
  have t: "\<not> (ls_Kind s = StepKindTool \<and> ls_ToolName s = [])"
    using assms k by (rule_tac notI) simp
  have u: "\<not> (ls_Kind s = StepKindTool \<and> available \<noteq> [] \<and> ls_ToolName s \<notin> set available)"
    using assms k t by (rule_tac notI) simp
  have n: "ls_Name s \<noteq> []" using assms k t u by (rule_tac notI) (simp split: if_splits)
  have d: "ls_Name s \<notin> set names" using assms k t u n by (rule_tac notI) (simp split: if_splits)
  show "stepWellFormed available s" using k t u n unfolding stepWellFormed_def by blast
  show "ls_Name s \<notin> set names" by (rule d)
  show "checkSteps available (ls_Name s # names) (Suc i) ss = None"
    using assms k t u n d by (simp split: if_splits)
qed

lemma checkSteps_None:
  "checkSteps available names i ss = None \<Longrightarrow>
     (\<forall>s \<in> set ss. stepWellFormed available s)
     \<and> distinct (map ls_Name ss) \<and> set (map ls_Name ss) \<inter> set names = {}"
proof (induction ss arbitrary: names i)
  case Nil
  then show ?case by simp
next
  case (Cons s ss)
  note c = checkSteps_Cons [OF Cons.prems]
  from Cons.IH [OF c(3)] c(1,2) show ?case by auto
qed

lemma indexed_steps: "map ps_Kind (map (\<lambda>(i, s). toPlanStep i s) (indexed n ss)) = map ls_Kind ss"
  "length (indexed n ss) = length ss"
  by (induction ss arbitrary: n) (auto simp: toPlanStep_def)

lemma toPlanStep_origin:
  assumes "p \<in> set (map (\<lambda>(i, s). toPlanStep i s) (indexed n ss))"
  shows "\<exists>i. \<exists>s \<in> set ss. p = toPlanStep i s"
proof -
  have "(i, s) \<in> set (indexed n ss) \<Longrightarrow> s \<in> set ss" for i s
    by (induction ss arbitrary: n) auto
  with assms show ?thesis by auto
qed

subsection \<open>Safe plans\<close>

text \<open>
  What the runtime relies on: few enough steps, a promotion step exactly in workflow plans, and
  tool steps that the tenant allows, that are not reserved for workflows, and that carry
  approval wherever the registry or the tenant demands it.
\<close>

definition toolStepSafe :: "planInput \<Rightarrow> planStep \<Rightarrow> bool" where
  "toolStepSafe input p \<longleftrightarrow>
     (let policy = pin_TenantPolicy input in
        ps_ToolName p \<noteq> []
      \<and> (pin_AvailableTools input \<noteq> [] \<longrightarrow> ps_ToolName p \<in> td_Name ` set (pin_AvailableTools input))
      \<and> isTenantToolAllowed (ps_ToolName p) policy
      \<and> (tp_Configured policy \<longrightarrow> tp_AllowToolUse policy)
      \<and> (\<forall>d. toolMap (pin_AvailableTools input) (ps_ToolName p) = Some d \<longrightarrow>
           \<not> td_AsyncOnly d
         \<and> (\<not> td_ReadOnly d \<longrightarrow> \<not> ps_ReadOnly p
              \<and> (td_RequiresApproval d \<or> tp_Configured policy \<and> tp_RequireApprovalForWrite policy
                 \<longrightarrow> ps_NeedsApproval p))))"

definition planSafe :: "planInput \<Rightarrow> executionPlan \<Rightarrow> bool" where
  "planSafe input plan \<longleftrightarrow>
     ep_Steps plan \<noteq> [] \<and> length (ep_Steps plan) \<le> policyMaxSteps (pin_TenantPolicy input)
   \<and> ep_MaxSteps plan = int (length (ep_Steps plan))
   \<and> (if ep_RequiresWorkflow plan then map ps_Kind (ep_Steps plan) = [StepKindPromoteWorkflow]
      else StepKindPromoteWorkflow \<notin> set (map ps_Kind (ep_Steps plan)))
   \<and> (\<forall>p \<in> set (ep_Steps plan). ps_Kind p = StepKindTool \<longrightarrow> toolStepSafe input p)"

lemma policyMaxSteps_pos [simp]: "0 < policyMaxSteps policy" "policyMaxSteps policy \<le> planMaxSteps"
  by (auto simp: policyMaxSteps_def planMaxSteps_def)

lemma checkTenantPolicy_None:
  assumes "checkTenantPolicy resp tools policy = None" "tp_Configured policy"
  shows "length (lr_Steps resp) \<le> policyMaxSteps policy"
    and "s \<in> set (lr_Steps resp) \<Longrightarrow> ls_Kind s = StepKindTool \<Longrightarrow> tp_AllowToolUse policy"
    and "checkTenantSteps tools policy 0 (lr_Steps resp) = None"
proof -
  have use: "(if tp_AllowToolUse policy then None
      else firstStep (\<lambda>s. ls_Kind s = StepKindTool) 0 (lr_Steps resp)) = None"
    and rest: "\<not> length (lr_Steps resp) > (if tp_MaxSteps policy > 0 \<and> tp_MaxSteps policy < int planMaxSteps
          then nat (tp_MaxSteps policy) else planMaxSteps)"
      "checkTenantSteps tools policy 0 (lr_Steps resp) = None"
    using assms by (auto simp: checkTenantPolicy_def Let_def split: option.splits if_splits)
  show "length (lr_Steps resp) \<le> policyMaxSteps policy"
    using rest(1) assms(2) by (simp add: policyMaxSteps_def not_less split: if_splits)
  show "s \<in> set (lr_Steps resp) \<Longrightarrow> ls_Kind s = StepKindTool \<Longrightarrow> tp_AllowToolUse policy"
    using use by (auto simp: firstStep_None split: if_splits)
  show "checkTenantSteps tools policy 0 (lr_Steps resp) = None" by (rule rest(2))
qed

lemma validateLLMPlan_None:
  assumes "validateLLMPlan resp available = None"
  shows "lr_Steps resp \<noteq> []" "checkSteps available [] 0 (lr_Steps resp) = None"
    and "lr_RequiresWorkflow resp \<Longrightarrow> map ls_Kind (lr_Steps resp) = [StepKindPromoteWorkflow]"
    and "\<not> lr_RequiresWorkflow resp \<Longrightarrow> StepKindPromoteWorkflow \<notin> set (map ls_Kind (lr_Steps resp))"
proof -
  show "lr_Steps resp \<noteq> []" "checkSteps available [] 0 (lr_Steps resp) = None"
    using assms by (auto simp: validateLLMPlan_def Let_def split: if_splits option.splits)
  show "map ls_Kind (lr_Steps resp) = [StepKindPromoteWorkflow]" if "lr_RequiresWorkflow resp"
  proof -
    have "length (lr_Steps resp) = 1 \<and> ls_Kind (lr_Steps resp ! 0) = StepKindPromoteWorkflow"
      using assms that by (auto simp: validateLLMPlan_def Let_def split: if_splits option.splits)
    then show ?thesis by (cases "lr_Steps resp") auto
  qed
  show "StepKindPromoteWorkflow \<notin> set (map ls_Kind (lr_Steps resp))" if "\<not> lr_RequiresWorkflow resp"
  proof -
    have "firstStep (\<lambda>s. ls_Kind s = StepKindPromoteWorkflow) 0 (lr_Steps resp) = None"
      using assms that by (auto simp: validateLLMPlan_def Let_def split: if_splits option.splits)
    then show ?thesis by (auto simp: firstStep_None)
  qed
qed

lemma llm_step_safe:
  assumes valid: "validateLLMPlan resp (map td_Name (pin_AvailableTools input)) = None"
    and policy: "validatePlanPolicy resp (toolMap (pin_AvailableTools input)) (pin_TenantPolicy input) = None"
    and s: "s \<in> set (lr_Steps resp)" "ls_Kind s = StepKindTool"
  shows "toolStepSafe input (toPlanStep i s)"
proof -
  let ?p = "pin_TenantPolicy input" and ?m = "toolMap (pin_AvailableTools input)"
  note v = validateLLMPlan_None [OF valid]
  have sub: "checkTenantPolicy resp ?m ?p = None"
    "checkRegistrySteps ?m (lr_RequiresWorkflow resp) 0 (lr_Steps resp) = None"
    using policy by (auto simp: validatePlanPolicy_def split: option.splits)
  have wf: "stepWellFormed (map td_Name (pin_AvailableTools input)) s"
    using checkSteps_None [OF v(2)] s(1) by blast
  have sync: "\<not> lr_RequiresWorkflow resp"
  proof
    assume "lr_RequiresWorkflow resp"
    from v(3) [OF this] s have "StepKindTool \<in> {StepKindPromoteWorkflow}"
      by (metis imageI list.set_map list.simps(15) empty_set)
    then show False by simp
  qed
  have t: "isTenantToolAllowed (ls_ToolName s) ?p \<and> (tp_Configured ?p \<longrightarrow> tp_AllowToolUse ?p)
      \<and> (tp_Configured ?p \<and> tp_RequireApprovalForWrite ?p \<longrightarrow>
          (\<forall>d. ?m (ls_ToolName s) = Some d \<and> \<not> td_ReadOnly d \<longrightarrow> ls_NeedsApproval s))"
  proof (cases "tp_Configured ?p")
    case True
    note c = checkTenantPolicy_None [OF sub(1) True]
    from checkTenantSteps_None [OF c(3) True s] c(2) [OF s] show ?thesis by blast
  next
    case False
    then show ?thesis by (simp add: isTenantToolAllowed_def)
  qed
  have "\<forall>d. ?m (ls_ToolName s) = Some d \<longrightarrow> \<not> td_AsyncOnly d
      \<and> (\<not> td_ReadOnly d \<longrightarrow> (td_RequiresApproval d \<longrightarrow> ls_NeedsApproval s) \<and> \<not> ls_ReadOnly s)"
    using checkRegistrySteps_None [OF sub(2) s] sync by blast
  with t wf s(2) show ?thesis
    unfolding toolStepSafe_def stepWellFormed_def Let_def by (simp add: toPlanStep_def)
qed

lemma acceptResponse_safe:
  assumes "acceptResponse unmarshal input planID source reply = Inr plan"
  shows "planSafe input plan"
proof -
  obtain resp where valid: "validateLLMPlan resp (map td_Name (pin_AvailableTools input)) = None"
    and policy: "validatePlanPolicy resp (toolMap (pin_AvailableTools input)) (pin_TenantPolicy input) = None"
    and plan: "plan = (toLLMPlanResponse planID resp)
        \<lparr>ep_Source := source, ep_PromptVersion := PlannerPromptVersion\<rparr>"
    using assms unfolding acceptResponse_def Let_def by (auto split: sum.splits option.splits)
  let ?all = "map (\<lambda>(i, s). toPlanStep i s) (indexed 0 (lr_Steps resp))"
  have steps: "ep_Steps plan = take planMaxSteps ?all"
    "ep_MaxSteps plan = int (length (ep_Steps plan))"
    "ep_RequiresWorkflow plan = lr_RequiresWorkflow resp"
    by (auto simp: plan toLLMPlanResponse_def Let_def)
  note v = validateLLMPlan_None [OF valid]
  have len: "length ?all = length (lr_Steps resp)" by (simp add: indexed_steps(2))
  have ne: "ep_Steps plan \<noteq> []"
    using v(1) len by (auto simp: steps(1) planMaxSteps_def simp del: length_map)
  have short: "length (ep_Steps plan) \<le> policyMaxSteps (pin_TenantPolicy input)"
  proof (cases "tp_Configured (pin_TenantPolicy input)")
    case True
    have "checkTenantPolicy resp (toolMap (pin_AvailableTools input)) (pin_TenantPolicy input) = None"
      using policy by (auto simp: validatePlanPolicy_def split: option.splits)
    from checkTenantPolicy_None(1) [OF this True] len show ?thesis by (simp add: steps(1) min_def)
  next
    case False
    then show ?thesis by (simp add: steps(1) policyMaxSteps_def)
  qed
  have kinds: "map ps_Kind (ep_Steps plan) = take planMaxSteps (map ls_Kind (lr_Steps resp))"
    unfolding steps(1) take_map [symmetric] indexed_steps(1) ..
  have "toolStepSafe input p" if p: "p \<in> set (ep_Steps plan)" "ps_Kind p = StepKindTool" for p
  proof -
    have "p \<in> set ?all" using p(1) unfolding steps(1) by (rule in_set_takeD)
    then obtain i s where s: "s \<in> set (lr_Steps resp)" "p = toPlanStep i s"
      using toPlanStep_origin by blast
    with p(2) have "ls_Kind s = StepKindTool" by (simp add: toPlanStep_def)
    with llm_step_safe [OF valid policy s(1)] s(2) show ?thesis by simp
  qed
  moreover have "if ep_RequiresWorkflow plan then map ps_Kind (ep_Steps plan) = [StepKindPromoteWorkflow]
      else StepKindPromoteWorkflow \<notin> set (map ps_Kind (ep_Steps plan))"
  proof (cases "lr_RequiresWorkflow resp")
    case True
    with v(3) show ?thesis by (simp only: kinds steps(3)) (simp add: planMaxSteps_def)
  next
    case False
    with v(4) show ?thesis by (simp only: kinds steps(3)) (auto dest: in_set_takeD)
  qed
  ultimately show ?thesis unfolding planSafe_def using ne short steps(2) by blast
qed

lemma toolMap_distinct:
  assumes "distinct (map td_Name tools)" "t \<in> set tools"
  shows "toolMap tools (td_Name t) = Some t"
proof -
  have "fold (\<lambda>t m. m(td_Name t \<mapsto> t)) ts Map.empty k
      = (case find (\<lambda>t. td_Name t = k) (rev ts) of None \<Rightarrow> None | Some t \<Rightarrow> Some t)" for ts k
    by (induction ts rule: rev_induct) auto
  from this [of tools "td_Name t"] have "toolMap tools (td_Name t)
      = (case find (\<lambda>u. td_Name u = td_Name t) (rev tools) of None \<Rightarrow> None | Some t \<Rightarrow> Some t)"
    by (simp only: toolMap_def)
  moreover have "find (\<lambda>u. td_Name u = td_Name t) (rev tools) = Some t"
    using assms by (intro find_ident_once) (simp_all add: rev_map [symmetric])
  ultimately show ?thesis by simp
qed

lemma find_member: "find p xs = Some x \<Longrightarrow> x \<in> set xs \<and> p x"
  by (induction xs) (auto split: if_splits)

lemma selectTool_spec:
  assumes "td_Name (selectTool input) \<noteq> []"
  shows "selectTool input \<in> set (pin_AvailableTools input)"
    and "isTenantToolAllowed (td_Name (selectTool input)) (pin_TenantPolicy input)"
    and "tp_Configured (pin_TenantPolicy input) \<Longrightarrow> tp_AllowToolUse (pin_TenantPolicy input)"
proof -
  let ?ok = "\<lambda>t. isTenantToolAllowed (td_Name t) (pin_TenantPolicy input)"
  have allowed: "\<not> (tp_Configured (pin_TenantPolicy input) \<and> \<not> tp_AllowToolUse (pin_TenantPolicy input))"
    using assms by (rule_tac notI) (simp add: selectTool_def noTool_def)
  have "\<exists>p q. selectTool input = (case p of Some t \<Rightarrow> t | None \<Rightarrow> (case q of Some t \<Rightarrow> t | None \<Rightarrow> noTool))
      \<and> (\<forall>t. p = Some t \<longrightarrow> t \<in> set (pin_AvailableTools input) \<and> ?ok t)
      \<and> (\<forall>t. q = Some t \<longrightarrow> t \<in> set (pin_AvailableTools input) \<and> ?ok t)"
    unfolding selectTool_def Let_def if_not_P [OF allowed]
    by (rule exI, rule exI, rule conjI, rule refl) (auto dest!: find_member split: if_splits)
  then obtain p q where pq: "selectTool input
        = (case p of Some t \<Rightarrow> t | None \<Rightarrow> (case q of Some t \<Rightarrow> t | None \<Rightarrow> noTool))"
    "\<forall>t. p = Some t \<longrightarrow> t \<in> set (pin_AvailableTools input) \<and> ?ok t"
    "\<forall>t. q = Some t \<longrightarrow> t \<in> set (pin_AvailableTools input) \<and> ?ok t" by blast
  have "p \<noteq> None \<or> q \<noteq> None" using assms pq(1) by (cases p; cases q) (auto simp: noTool_def)
  with pq show "selectTool input \<in> set (pin_AvailableTools input)" "?ok (selectTool input)"
    by (cases p; cases q; simp)+
  show "tp_Configured (pin_TenantPolicy input) \<Longrightarrow> tp_AllowToolUse (pin_TenantPolicy input)"
    using allowed by blast
qed

subsection \<open>The keyword plan\<close>

definition keywordTool :: "planInput \<Rightarrow> toolDescriptor" where
  "keywordTool input =
     (let t = selectTool input in
      if td_Name t \<noteq> [] \<and> \<not> td_ReadOnly t \<and> tp_RequireApprovalForWrite (pin_TenantPolicy input)
      then t\<lparr>td_RequiresApproval := True\<rparr> else t)"

definition keywordWorkflow :: "planInput \<Rightarrow> bool" where
  "keywordWorkflow input \<longleftrightarrow>
     shouldPromoteWorkflow input (classifyIntent input) \<or> td_AsyncOnly (selectTool input)"

lemma keyword_plan_fields:
  "ep_Steps (planWithKeywords input i) =
     take (policyMaxSteps (pin_TenantPolicy input)) (buildSteps (keywordWorkflow input) (keywordTool input))"
  "ep_MaxSteps (planWithKeywords input i) = int (length (ep_Steps (planWithKeywords input i)))"
  "ep_RequiresWorkflow (planWithKeywords input i) = keywordWorkflow input"
  by (auto simp: planWithKeywords_def keywordTool_def keywordWorkflow_def Let_def)

lemma keywordTool_fields [simp]:
  "td_Name (keywordTool input) = td_Name (selectTool input)"
  "td_ReadOnly (keywordTool input) = td_ReadOnly (selectTool input)"
  by (auto simp: keywordTool_def Let_def)

lemma buildSteps_kinds:
  "map ps_Kind (buildSteps workflow tool) =
     (if workflow then [StepKindPromoteWorkflow]
      else [StepKindRetrieve] @ (if td_Name tool \<noteq> [] then [StepKindTool] else [])
           @ [StepKindSynthesize, StepKindCritic])"
  by (simp add: buildSteps_def Let_def)

lemma buildSteps_tool:
  "p \<in> set (buildSteps workflow tool) \<Longrightarrow> ps_Kind p = StepKindTool \<Longrightarrow>
     \<not> workflow \<and> ps_ToolName p = td_Name tool \<and> td_Name tool \<noteq> []
     \<and> ps_ReadOnly p = td_ReadOnly tool \<and> ps_NeedsApproval p = td_RequiresApproval tool"
  by (auto simp: buildSteps_def Let_def emptyStep_def split: if_splits)

lemma keyword_plan_safe:
  assumes "distinct (map td_Name (pin_AvailableTools input))"
  shows "planSafe input (planWithKeywords input i)"
proof -
  let ?plan = "planWithKeywords input i" and ?t = "keywordTool input"
  let ?all = "buildSteps (keywordWorkflow input) ?t"
  note f = keyword_plan_fields [of input i]
  have "?all \<noteq> []" using buildSteps_kinds [of "keywordWorkflow input" ?t] by (auto split: if_splits)
  then have ne: "ep_Steps ?plan \<noteq> []" by (simp add: f(1))
  have kinds: "map ps_Kind (ep_Steps ?plan)
      = take (policyMaxSteps (pin_TenantPolicy input)) (map ps_Kind ?all)"
    by (simp add: f(1) take_map)
  have shape: "if ep_RequiresWorkflow ?plan then map ps_Kind (ep_Steps ?plan) = [StepKindPromoteWorkflow]
      else StepKindPromoteWorkflow \<notin> set (map ps_Kind (ep_Steps ?plan))"
  proof (cases "keywordWorkflow input")
    case True
    have "take (policyMaxSteps (pin_TenantPolicy input)) [StepKindPromoteWorkflow] = [StepKindPromoteWorkflow]"
      using policyMaxSteps_pos(1) [of "pin_TenantPolicy input"]
      by (cases "policyMaxSteps (pin_TenantPolicy input)") auto
    with True show ?thesis by (simp only: kinds f(3) buildSteps_kinds if_True)
  next
    case False
    have "StepKindPromoteWorkflow \<notin> set (map ps_Kind ?all)"
      using False by (simp add: buildSteps_kinds del: list.set_map)
    with False show ?thesis by (simp only: kinds f(3)) (auto dest: in_set_takeD)
  qed
  have "toolStepSafe input p" if p: "p \<in> set (ep_Steps ?plan)" "ps_Kind p = StepKindTool" for p
  proof -
    have "p \<in> set ?all" using p(1) unfolding f(1) by (rule in_set_takeD)
    from buildSteps_tool [OF this p(2)] have b: "\<not> keywordWorkflow input"
      "ps_ToolName p = td_Name (selectTool input)" "td_Name (selectTool input) \<noteq> []"
      "ps_ReadOnly p = td_ReadOnly (selectTool input)" "ps_NeedsApproval p = td_RequiresApproval ?t"
      by simp_all
    note sel = selectTool_spec [OF b(3)]
    have m: "toolMap (pin_AvailableTools input) (td_Name (selectTool input)) = Some (selectTool input)"
      by (rule toolMap_distinct [OF assms sel(1)])
    have "\<not> td_AsyncOnly (selectTool input)" using b(1) by (simp add: keywordWorkflow_def)
    moreover have "\<not> td_ReadOnly (selectTool input) \<Longrightarrow>
        td_RequiresApproval (selectTool input) \<or> tp_RequireApprovalForWrite (pin_TenantPolicy input)
        \<Longrightarrow> td_RequiresApproval ?t"
      using b(3) by (auto simp: keywordTool_def Let_def)
    ultimately show ?thesis
      unfolding toolStepSafe_def Let_def using b sel m by auto
  qed
  then show ?thesis
    unfolding planSafe_def using ne shape f(2) by (simp add: f(1))
qed

text \<open>
  C2: Whatever the language model answers and however its answer is parsed, the plan that the
  planner returns is safe: within the step limit, with a promotion step exactly in workflow
  plans, and with tool steps only for tools the tenant allows, approved where registry or
  tenant demand it.
\<close>

theorem Plan_safe:
  assumes "distinct (map td_Name (pin_AvailableTools input))"
  shows "planSafe input (Plan marshal llm unmarshal input)"
proof (cases llm)
  case None
  with keyword_plan_safe [OF assms] show ?thesis by (simp add: Plan_def)
next
  case (Some ask)
  show ?thesis
  proof (cases "planWithLLM marshal ask unmarshal (derivePlanID input) input")
    case (Inl e)
    with Some keyword_plan_safe [OF assms] show ?thesis by (simp add: Plan_def)
  next
    case (Inr plan)
    then have "planSafe input plan" unfolding planWithLLM_def by (rule acceptResponse_safe)
    with Some Inr show ?thesis by (simp add: Plan_def)
  qed
qed

definition ticketTool :: toolDescriptor where
  "ticketTool = noTool\<lparr>td_Name := ''ticket_comment_create'', td_RequiresApproval := True\<rparr>"

definition demoPlanInput :: planInput where
  "demoPlanInput = \<lparr>pin_RequestID = ''r1'', pin_TraceID = [], pin_TenantID = ''acme'',
     pin_SessionID = ''s1'', pin_Mode = ''chat'', pin_UserMessage = ''comment on ticket'',
     pin_Context = [], pin_AvailableTools = [ticketTool], pin_TenantPolicy = noPolicy,
     pin_UserPermissions = []\<rparr>"

lemma Plan_safe_witness:
  "planSafe demoPlanInput (Plan (\<lambda>_. []) None (\<lambda>_. Inl []) demoPlanInput)"
  by (rule Plan_safe) (simp add: demoPlanInput_def)

text \<open>The same holds for every plan that replanning accepts, under the original request.\<close>

theorem Replan_safe:
  assumes "Replan marshal llm unmarshal ri = Inr plan"
  shows "planSafe (rpi_Input ri) plan"
  using assms unfolding Replan_def by (auto split: option.splits intro: acceptResponse_safe)

text \<open>
  The steps of a keyword plan are numbered in order and depend only on earlier steps.  An
  unabridged plan either is the single promotion step or retrieves, runs the selected tool when
  there is one, composes the answer and validates it.
\<close>

theorem keyword_plan_shape:
  "(\<forall>i < length (ep_Steps (planWithKeywords input pid)).
       ps_StepID (ep_Steps (planWithKeywords input pid) ! i) = stepName (i + 1)
     \<and> set (ps_DependsOn (ep_Steps (planWithKeywords input pid) ! i))
         \<subseteq> set (map stepName [1..<i + 1]))
   \<and> map ps_Kind (ep_Steps (planWithKeywords input pid)) =
       take (policyMaxSteps (pin_TenantPolicy input))
         (if keywordWorkflow input then [StepKindPromoteWorkflow]
          else [StepKindRetrieve] @ (if td_Name (selectTool input) \<noteq> [] then [StepKindTool] else [])
               @ [StepKindSynthesize, StepKindCritic])"
proof
  let ?all = "buildSteps (keywordWorkflow input) (keywordTool input)"
  note f = keyword_plan_fields(1) [of input pid]
  have num: "stepName 1 = ''step-1''" "stepName 2 = ''step-2''"
    by (simp_all add: stepName_def showNat.simps digitChar_def)
  have "\<forall>i < length ?all. ps_StepID (?all ! i) = stepName (i + 1)
      \<and> set (ps_DependsOn (?all ! i)) \<subseteq> set (map stepName [1..<i + 1])"
    by (auto simp: buildSteps_def Let_def emptyStep_def num [symmetric] less_Suc_eq numeral_eq_Suc
        simp del: One_nat_def)
  then show "\<forall>i < length (ep_Steps (planWithKeywords input pid)).
       ps_StepID (ep_Steps (planWithKeywords input pid) ! i) = stepName (i + 1)
     \<and> set (ps_DependsOn (ep_Steps (planWithKeywords input pid) ! i))
         \<subseteq> set (map stepName [1..<i + 1])"
    unfolding f by simp
  show "map ps_Kind (ep_Steps (planWithKeywords input pid)) =
       take (policyMaxSteps (pin_TenantPolicy input))
         (if keywordWorkflow input then [StepKindPromoteWorkflow]
          else [StepKindRetrieve] @ (if td_Name (selectTool input) \<noteq> [] then [StepKindTool] else [])
               @ [StepKindSynthesize, StepKindCritic])"
    unfolding f take_map [symmetric] buildSteps_kinds by simp
qed

lemma keyword_plan_shape_witness:
  "ps_StepID (ep_Steps (planWithKeywords demoPlanInput ''p'') ! 0) = stepName 1"
proof -
  have "0 < length (ep_Steps (planWithKeywords demoPlanInput ''p''))"
    using keyword_plan_safe [of demoPlanInput "''p''"] by (simp add: planSafe_def demoPlanInput_def)
  then show ?thesis using keyword_plan_shape [of demoPlanInput "''p''"] by fastforce
qed

definition modelStep :: "string \<Rightarrow> string \<Rightarrow> string list \<Rightarrow> llmPlanStep" where
  "modelStep kind name deps = \<lparr>ls_Kind = kind, ls_Name = name, ls_DependsOn = deps,
     ls_ToolName = [], ls_ToolArguments = [], ls_ReadOnly = False, ls_NeedsApproval = False\<rparr>"

definition modelResponse :: "llmPlanStep list \<Rightarrow> llmPlanResponse" where
  "modelResponse steps = \<lparr>lr_Intent = IntentKnowledgeQA, lr_Reasoning = [],
     lr_RequiresRetrieval = False, lr_RequiresTool = False, lr_RequiresWorkflow = False,
     lr_RequiresApproval = False, lr_OutputSchema = ''markdown'', lr_Steps = steps\<rparr>"

definition demoReplan :: replanInput where
  "demoReplan = \<lparr>rpi_OriginalPlan = planWithKeywords demoPlanInput ''plan-r1'',
     rpi_ExecutedSteps = [], rpi_Input = demoPlanInput, rpi_ReplanReason = ''tool failed''\<rparr>"

lemma Replan_safe_witness:
  "\<exists>plan. Replan (\<lambda>_. []) (Some (\<lambda>_. Inr [])) (\<lambda>_. Inr (modelResponse [modelStep StepKindCritic ''c'' []]))
       demoReplan = Inr plan \<and> planSafe demoPlanInput plan"
proof -
  let ?r = "modelResponse [modelStep StepKindCritic ''c'' []]"
  have "validateLLMPlan ?r (map td_Name (pin_AvailableTools demoPlanInput)) = None"
    by (simp add: validateLLMPlan_def modelResponse_def modelStep_def validIntents_def validKinds_def)
  moreover have "validatePlanPolicy ?r m (pin_TenantPolicy demoPlanInput) = None" for m
    by (simp add: validatePlanPolicy_def checkTenantPolicy_def modelResponse_def modelStep_def
        demoPlanInput_def noPolicy_def)
  ultimately obtain plan where "Replan (\<lambda>_. []) (Some (\<lambda>_. Inr [])) (\<lambda>_. Inr ?r) demoReplan = Inr plan"
    by (simp add: Replan_def acceptResponse_def Let_def demoReplan_def)
  with Replan_safe [OF this] show ?thesis by (simp add: demoReplan_def)
qed

subsection \<open>Dependencies of accepted plans\<close>

text \<open>
  The dependency check accepts any name of the plan, so a step may depend on itself or on a
  later step; and where no tenant policy bounds the plan, steps beyond the sixth are cut off
  after the check, so that a returned step may depend on one that is no longer in the plan.
\<close>

theorem dependencies_not_ordered:
  "(\<exists>resp s. validateLLMPlan resp [] = None \<and> lr_Steps resp = [s] \<and> ls_DependsOn s = [ls_Name s])
   \<and> (\<exists>unmarshal reply input plan s d.
        acceptResponse unmarshal input [] PlanSourceLLM reply = Inr plan
      \<and> s \<in> set (ep_Steps plan) \<and> d \<in> set (ps_DependsOn s)
      \<and> d \<notin> set (map ps_Name (ep_Steps plan)))"
proof
  show "\<exists>resp s. validateLLMPlan resp [] = None \<and> lr_Steps resp = [s] \<and> ls_DependsOn s = [ls_Name s]"
    by (intro exI [of _ "modelResponse [modelStep StepKindCritic ''c'' [''c'']]"]
        exI [of _ "modelStep StepKindCritic ''c'' [''c'']"])
      (simp add: validateLLMPlan_def modelResponse_def modelStep_def validIntents_def validKinds_def)
next
  let ?steps = "[modelStep StepKindCritic ''a'' [''g''], modelStep StepKindCritic ''b'' [],
    modelStep StepKindCritic ''c'' [], modelStep StepKindCritic ''d'' [], modelStep StepKindCritic ''e'' [],
    modelStep StepKindCritic ''f'' [], modelStep StepKindCritic ''g'' []]"
  let ?r = "modelResponse ?steps"
  have "validateLLMPlan ?r (map td_Name (pin_AvailableTools demoPlanInput)) = None"
    by (simp add: validateLLMPlan_def modelResponse_def modelStep_def validIntents_def validKinds_def)
  moreover have "validatePlanPolicy ?r m (pin_TenantPolicy demoPlanInput) = None" for m
    by (simp add: validatePlanPolicy_def checkTenantPolicy_def modelResponse_def modelStep_def
        demoPlanInput_def noPolicy_def)
  ultimately have "acceptResponse (\<lambda>_. Inr ?r) demoPlanInput [] PlanSourceLLM (Inr [])
      = Inr ((toLLMPlanResponse [] ?r)\<lparr>ep_Source := PlanSourceLLM, ep_PromptVersion := PlannerPromptVersion\<rparr>)"
    by (simp add: acceptResponse_def Let_def)
  moreover have "ep_Steps ((toLLMPlanResponse [] ?r)\<lparr>ep_Source := PlanSourceLLM, ep_PromptVersion := PlannerPromptVersion\<rparr>)
      = map (\<lambda>(i, s). toPlanStep i s) (indexed 0 (butlast ?steps))"
    by (simp add: toLLMPlanResponse_def modelResponse_def Let_def planMaxSteps_def)
  ultimately show "\<exists>unmarshal reply input plan s d.
        acceptResponse unmarshal input [] PlanSourceLLM reply = Inr plan
      \<and> s \<in> set (ep_Steps plan) \<and> d \<in> set (ps_DependsOn s)
      \<and> d \<notin> set (map ps_Name (ep_Steps plan))"
    by (intro exI [of _ "\<lambda>_. Inr ?r"] exI [of _ "Inr []"] exI [of _ demoPlanInput] exI
        exI [of _ "toPlanStep 0 (modelStep StepKindCritic ''a'' [''g''])"] exI [of _ "''g''"] conjI)
      (assumption, simp_all add: toPlanStep_def modelStep_def)
qed

subsection \<open>Merged policies\<close>

lemma unionStrings_set [simp]: "set (unionStrings a b) = set a \<union> set b"
  by (simp add: unionStrings_def)

interpretation string_order: record_order "\<lambda>x y. x < (y::string)" "\<lambda>x. x" "\<lambda>_. True"
  by unfold_locales auto

lemma unionStrings_sorted: "sorted_wrt (<) (unionStrings a b)"
  using string_order.goSort_sorted [of "remdups (a @ b)"] by (simp add: unionStrings_def)

definition lastWhere :: "('a \<Rightarrow> bool) \<Rightarrow> 'a list \<Rightarrow> 'a option" where
  "lastWhere p xs = find p (rev xs)"

text \<open>
  Merging the policies of organization, tenant and user takes the union of the forbidden
  tools, demands approval for writes as soon as one layer does, and otherwise takes the most
  specific layer that says something; so a tool that one configured layer forbids stays
  forbidden.
\<close>

theorem MergePolicies_correct:
  assumes "layers = filter tp_Configured [org, tenant, user]"
    and "m = MergePolicies org tenant user"
  shows "(tp_Configured m \<longleftrightarrow> layers \<noteq> [])
    \<and> set (tp_ForbiddenTools m) = (\<Union>l \<in> set layers. set (tp_ForbiddenTools l))
    \<and> sorted_wrt (<) (tp_ForbiddenTools m)
    \<and> (tp_RequireApprovalForWrite m \<longleftrightarrow> (\<exists>l \<in> set layers. tp_RequireApprovalForWrite l))
    \<and> tp_AllowedTools m = (case lastWhere (\<lambda>l. tp_AllowedTools l \<noteq> []) layers of
         None \<Rightarrow> [] | Some l \<Rightarrow> tp_AllowedTools l)
    \<and> tp_MaxSteps m = (case lastWhere (\<lambda>l. tp_MaxSteps l > 0) layers of
         None \<Rightarrow> 0 | Some l \<Rightarrow> tp_MaxSteps l)
    \<and> tp_AllowToolUse m = (case lastWhere tp_AllowToolUseExplicit layers of
         None \<Rightarrow> False | Some l \<Rightarrow> tp_AllowToolUse l)
    \<and> (\<forall>l \<in> set layers. \<forall>t \<in> set (tp_ForbiddenTools l). \<not> isTenantToolAllowed t m)"
proof -
  have step: "tp_Configured (mergeLayer l r) = (tp_Configured l \<or> tp_Configured r)"
    "set (tp_ForbiddenTools (mergeLayer l r)) =
       (if tp_Configured l then set (tp_ForbiddenTools l) else {}) \<union> set (tp_ForbiddenTools r)"
    "tp_RequireApprovalForWrite (mergeLayer l r) =
       (tp_Configured l \<and> tp_RequireApprovalForWrite l \<or> tp_RequireApprovalForWrite r)"
    "sorted_wrt (<) (tp_ForbiddenTools r) \<Longrightarrow> sorted_wrt (<) (tp_ForbiddenTools (mergeLayer l r))"
    for l r
    by (auto simp: mergeLayer_def unionStrings_sorted)
  have m: "m = mergeLayer user (mergeLayer tenant (mergeLayer org noPolicy))"
    using assms(2) by (simp add: MergePolicies_def)
  have forb: "set (tp_ForbiddenTools m) = (\<Union>l \<in> set layers. set (tp_ForbiddenTools l))"
    unfolding m assms(1) step by (auto simp: noPolicy_def)
  have conf: "tp_Configured m \<longleftrightarrow> layers \<noteq> []"
    unfolding m assms(1) step by (simp add: noPolicy_def)
  have last: "tp_AllowedTools m = (case lastWhere (\<lambda>l. tp_AllowedTools l \<noteq> []) layers of
         None \<Rightarrow> [] | Some l \<Rightarrow> tp_AllowedTools l)"
    "tp_MaxSteps m = (case lastWhere (\<lambda>l. tp_MaxSteps l > 0) layers of
         None \<Rightarrow> 0 | Some l \<Rightarrow> tp_MaxSteps l)"
    "tp_AllowToolUse m = (case lastWhere tp_AllowToolUseExplicit layers of
         None \<Rightarrow> False | Some l \<Rightarrow> tp_AllowToolUse l)"
    unfolding m assms(1) by (simp_all add: lastWhere_def mergeLayer_def noPolicy_def)
  have "\<not> isTenantToolAllowed t m" if "l \<in> set layers" "t \<in> set (tp_ForbiddenTools l)" for l t
  proof -
    have "layers \<noteq> []" using that(1) by auto
    with that forb conf show ?thesis unfolding isTenantToolAllowed_def by auto
  qed
  moreover have "sorted_wrt (<) (tp_ForbiddenTools m)"
    unfolding m by (intro step(4)) (simp add: noPolicy_def)
  moreover have "tp_RequireApprovalForWrite m \<longleftrightarrow> (\<exists>l \<in> set layers. tp_RequireApprovalForWrite l)"
    unfolding m assms(1) step by (auto simp: noPolicy_def)
  ultimately show ?thesis using conf forb last by blast
qed

lemma MergePolicies_correct_witness:
  "\<not> isTenantToolAllowed ''rm'' (MergePolicies
     (noPolicy\<lparr>tp_Configured := True, tp_ForbiddenTools := [''rm'']\<rparr>) noPolicy
     (noPolicy\<lparr>tp_Configured := True, tp_AllowedTools := [''rm'']\<rparr>))"
  using MergePolicies_correct [OF refl refl,
      of "noPolicy\<lparr>tp_Configured := True, tp_ForbiddenTools := [''rm'']\<rparr>" noPolicy
        "noPolicy\<lparr>tp_Configured := True, tp_AllowedTools := [''rm'']\<rparr>"]
  by (simp add: noPolicy_def)

text \<open>
  A configured policy that says nothing about tool use, for instance one that only bounds
  the steps, still switches every tool off: the merge leaves \<open>AllowToolUse\<close> at its zero value
  and neither the tool selection nor the plan validation looks at \<open>AllowToolUseExplicit\<close>.
\<close>

theorem partial_policy_disables_tools:
  assumes "\<forall>l \<in> {org, tenant, user}. tp_Configured l \<longrightarrow> \<not> tp_AllowToolUseExplicit l"
    and "tp_Configured org \<or> tp_Configured tenant \<or> tp_Configured user"
    and "pin_TenantPolicy input = MergePolicies org tenant user"
  shows "selectTool input = noTool
    \<and> (\<forall>resp tools. (\<exists>s \<in> set (lr_Steps resp). ls_Kind s = StepKindTool)
         \<longrightarrow> validatePlanPolicy resp tools (MergePolicies org tenant user) \<noteq> None)"
proof -
  let ?m = "MergePolicies org tenant user"
  have "tp_Configured ?m" "\<not> tp_AllowToolUse ?m"
    using assms(1,2) by (auto simp: MergePolicies_def mergeLayer_def noPolicy_def)
  moreover have "validatePlanPolicy resp tools ?m \<noteq> None"
    if "s \<in> set (lr_Steps resp)" "ls_Kind s = StepKindTool" "tp_Configured ?m" "\<not> tp_AllowToolUse ?m"
    for resp tools s
  proof
    assume "validatePlanPolicy resp tools ?m = None"
    then have "checkTenantPolicy resp tools ?m = None"
      by (auto simp: validatePlanPolicy_def split: option.splits)
    from checkTenantPolicy_None(2) [OF this that(3,1,2)] that(4) show False by simp
  qed
  ultimately show ?thesis using assms(3) by (auto simp: selectTool_def Let_def)
qed

lemma partial_policy_disables_tools_witness:
  "selectTool (demoPlanInput\<lparr>pin_TenantPolicy :=
     MergePolicies noPolicy (noPolicy\<lparr>tp_Configured := True, tp_MaxSteps := 4\<rparr>) noPolicy\<rparr>) = noTool"
  using partial_policy_disables_tools [of noPolicy "noPolicy\<lparr>tp_Configured := True, tp_MaxSteps := 4\<rparr>"
      noPolicy "demoPlanInput\<lparr>pin_TenantPolicy :=
     MergePolicies noPolicy (noPolicy\<lparr>tp_Configured := True, tp_MaxSteps := 4\<rparr>) noPolicy\<rparr>"]
  by (simp add: noPolicy_def)

end
