(* ===== verification/Tools.thy ===== *)
theory Tools
  imports Go_Store
begin

text \<open>
  The tool registry (\<open>internal/tools/registry\<close>), the execution service
  (\<open>internal/agent/tool\<close>) and the built-in ticket adapters (\<open>internal/tools/http/tickets\<close>).

  An executor is a function of the raw arguments and of a world \<open>'w\<close> on which it may act; it
  answers with an error text or with a payload \<open>'p\<close>.  Encoding a payload and decoding arguments
  is JSON and appears as an argument.
\<close>

subsection \<open>Registry\<close>

abbreviation (input) "ActionClassRead \<equiv> ''read''"
abbreviation (input) "ActionClassWrite \<equiv> ''write''"
abbreviation (input) "ActionClassAdmin \<equiv> ''admin''"

abbreviation (input) "ToolSucceeded \<equiv> ''succeeded''"
abbreviation (input) "ToolFailed \<equiv> ''failed''"
abbreviation (input) "ToolApprovalRequired \<equiv> ''approval_required''"

type_synonym ('w, 'p) toolExecutor = "string \<Rightarrow> 'w \<Rightarrow> (string + 'p) \<times> 'w"

record parameterDef =
  pd_Name :: string
  pd_Type :: string
  pd_Required :: bool
  pd_Description :: string

record ('w, 'p) toolDefinition =
  def_Name :: string
  def_Description :: string
  def_ActionClass :: string
  def_ReadOnly :: bool
  def_RequiresApproval :: bool
  def_AsyncOnly :: bool
  def_Parameters :: "parameterDef list"
  def_StubResponse :: 'p
  def_Executor :: "('w, 'p) toolExecutor option"

type_synonym ('w, 'p) toolRegistry = "string \<rightharpoonup> ('w, 'p) toolDefinition"

definition newRegistry :: "('w, 'p) toolRegistry" where
  "newRegistry = Map.empty"

definition Register :: "('w, 'p) toolDefinition \<Rightarrow> ('w, 'p) toolRegistry \<Rightarrow> ('w, 'p) toolRegistry" where
  "Register def r = r(def_Name def \<mapsto> def)"

definition Lookup :: "string \<Rightarrow> ('w, 'p) toolRegistry \<Rightarrow> ('w, 'p) toolDefinition option" where
  "Lookup name r = r name"

definition ListTools :: "string list \<Rightarrow> ('w, 'p) toolRegistry \<Rightarrow> ('w, 'p) toolDefinition list" where
  "ListTools ks r = goSort (\<lambda>a b. def_Name a < def_Name b) (rangeVals r ks)"

subsection \<open>Execution\<close>

record toolInvocation =
  inv_RequestID :: string
  inv_TraceID :: string
  inv_TenantID :: string
  inv_SessionID :: string
  inv_TaskID :: string
  inv_PlanID :: string
  inv_StepID :: string
  inv_ToolName :: string
  inv_ActionClass :: string
  inv_RequiresApproval :: bool
  inv_ApprovalGranted :: bool
  inv_Arguments :: string
  inv_DryRun :: bool

record toolResult =
  tr_ToolCallID :: string
  tr_ToolName :: string
  tr_Status :: string
  tr_OutputSummary :: string
  tr_StructuredData :: string
  tr_ErrorCode :: string
  tr_ErrorMessage :: string
  tr_ApprovalRef :: string
  tr_AuditRef :: string

datatype toolError =
    ToolNotFound string
  | ToolExecutionFailed string string
  | ToolMarshalFailed string

definition toolCallRef :: "string \<Rightarrow> string \<Rightarrow> string \<Rightarrow> string" where
  "toolCallRef prefix planID stepID = prefix @ ''-'' @ planID @ ''-'' @ stepID"

definition baseResult :: "toolInvocation \<Rightarrow> toolResult" where
  "baseResult ivk =
     \<lparr>tr_ToolCallID = toolCallRef ''toolcall'' (inv_PlanID ivk) (inv_StepID ivk),
      tr_ToolName = inv_ToolName ivk, tr_Status = [], tr_OutputSummary = [],
      tr_StructuredData = [], tr_ErrorCode = [], tr_ErrorMessage = [], tr_ApprovalRef = [],
      tr_AuditRef = toolCallRef ''audit'' (inv_PlanID ivk) (inv_StepID ivk)\<rparr>"

definition needsApproval :: "('w, 'p) toolDefinition \<Rightarrow> bool \<Rightarrow> bool" where
  "needsApproval def requested \<longleftrightarrow>
     requested \<or> def_RequiresApproval def \<or> def_ActionClass def = ActionClassWrite
     \<or> def_ActionClass def = ActionClassAdmin"

definition runTool ::
    "('w, 'p) toolDefinition \<Rightarrow> toolInvocation \<Rightarrow> 'w \<Rightarrow> (toolError + 'p \<times> string) \<times> 'w" where
  "runTool def ivk w =
     (case def_Executor def of
        None \<Rightarrow> (Inr (def_StubResponse def, ''stub tool execution completed''), w)
      | Some f \<Rightarrow>
          (case f (inv_Arguments ivk) w of
             (Inl err, w') \<Rightarrow> (Inl (ToolExecutionFailed (inv_ToolName ivk) err), w')
           | (Inr payload, w') \<Rightarrow> (Inr (payload, ''tool execution completed''), w')))"

definition Execute ::
    "('p \<Rightarrow> string + string) \<Rightarrow> ('w, 'p) toolRegistry \<Rightarrow> toolInvocation \<Rightarrow> 'w
     \<Rightarrow> (toolError + toolResult) \<times> 'w" where
  "Execute marshal r ivk w =
     (case Lookup (inv_ToolName ivk) r of
        None \<Rightarrow> (Inl (ToolNotFound (inv_ToolName ivk)), w)
      | Some def \<Rightarrow>
          if \<not> inv_ApprovalGranted ivk \<and> needsApproval def (inv_RequiresApproval ivk)
          then (Inr ((baseResult ivk)
                  \<lparr>tr_Status := ToolApprovalRequired,
                   tr_OutputSummary := ''approval required before tool execution'',
                   tr_ApprovalRef := toolCallRef ''approval'' (inv_PlanID ivk) (inv_StepID ivk)\<rparr>), w)
          else
            (case runTool def ivk w of
               (Inl err, w') \<Rightarrow> (Inl err, w')
             | (Inr (payload, summary), w') \<Rightarrow>
                 (case marshal payload of
                    Inl err \<Rightarrow> (Inl (ToolMarshalFailed err), w')
                  | Inr data \<Rightarrow>
                      (Inr ((baseResult ivk)
                         \<lparr>tr_Status := ToolSucceeded, tr_OutputSummary := summary,
                          tr_StructuredData := data\<rparr>), w'))))"

subsection \<open>Ticket adapters\<close>

text \<open>
  The pattern \<open>(?i)\b[A-Z]+-\d+\b\<close> on ASCII text: a run of letters that does not continue a word,
  a hyphen and a run of digits after which no word character follows.  The first match counts.
\<close>

definition isDigit :: "char \<Rightarrow> bool" where
  "isDigit c \<longleftrightarrow> CHR ''0'' \<le> c \<and> c \<le> CHR ''9''"

definition isLetter :: "char \<Rightarrow> bool" where
  "isLetter c \<longleftrightarrow> (CHR ''A'' \<le> c \<and> c \<le> CHR ''Z'') \<or> (CHR ''a'' \<le> c \<and> c \<le> CHR ''z'')"

definition isWordChar :: "char \<Rightarrow> bool" where
  "isWordChar c \<longleftrightarrow> isLetter c \<or> isDigit c \<or> c = CHR ''_''"

definition ticketAt :: "string \<Rightarrow> string option" where
  "ticketAt s =
     (let letters = takeWhile isLetter s; rest = dropWhile isLetter s;
          digits = takeWhile isDigit (tl rest); after = dropWhile isDigit (tl rest)
      in if letters \<noteq> [] \<and> rest \<noteq> [] \<and> hd rest = CHR ''-'' \<and> digits \<noteq> []
            \<and> (after = [] \<or> \<not> isWordChar (hd after))
         then Some (letters @ CHR ''-'' # digits) else None)"

fun findTicketFrom :: "bool \<Rightarrow> string \<Rightarrow> string" where
  "findTicketFrom inWord [] = []"
| "findTicketFrom inWord (c # cs) =
     (case (if inWord then None else ticketAt (c # cs)) of
        Some t \<Rightarrow> t
      | None \<Rightarrow> findTicketFrom (isWordChar c) cs)"

definition findTicketID :: "string \<Rightarrow> string" where
  "findTicketID s = findTicketFrom False s"

record searchMatch =
  sm_TicketID :: string
  sm_Summary :: string

record commentRequest =
  cr_TicketID :: string
  cr_Comment :: string

datatype ticketPayload =
    NoStub
  | SearchResponse "searchMatch list"
  | CommentCreateResponse string string string

definition SearchExecutor :: "(string \<Rightarrow> string + string) \<Rightarrow> ('w, ticketPayload) toolExecutor" where
  "SearchExecutor decode args w =
     (case decode args of
        Inl err \<Rightarrow> (Inl (''decode ticket_search arguments: '' @ err), w)
      | Inr raw \<Rightarrow>
          let query = trimSpace raw in
          if query = [] then (Inl ''ticket_search requires query'', w)
          else
            let found = toUpper (findTicketID query);
                ticketID = (if found = [] then ''INC-100'' else found)
            in (Inr (SearchResponse [\<lparr>sm_TicketID = ticketID,
                       sm_Summary = ''deterministic match for '' @ query\<rparr>]), w))"

definition CommentCreateExecutor ::
    "(string \<Rightarrow> string + commentRequest) \<Rightarrow> ('w, ticketPayload) toolExecutor" where
  "CommentCreateExecutor decode args w =
     (case decode args of
        Inl err \<Rightarrow> (Inl (''decode ticket_comment_create arguments: '' @ err), w)
      | Inr req \<Rightarrow>
          let ticketID = toUpper (trimSpace (cr_TicketID req)); comment = trimSpace (cr_Comment req)
          in if ticketID = [] then (Inl ''ticket_comment_create requires ticket_id'', w)
             else if comment = [] then (Inl ''ticket_comment_create requires comment'', w)
             else (Inr (CommentCreateResponse ticketID ''comment_created'' comment), w))"

definition NewDefaultRegistry ::
    "'p \<Rightarrow> ('w, 'p) toolExecutor \<Rightarrow> ('w, 'p) toolExecutor \<Rightarrow> ('w, 'p) toolRegistry" where
  "NewDefaultRegistry noStub search comment =
     Register
       \<lparr>def_Name = ''ticket_comment_create'',
        def_Description = ''Create a comment on an existing ticket'',
        def_ActionClass = ActionClassWrite, def_ReadOnly = False, def_RequiresApproval = True,
        def_AsyncOnly = False,
        def_Parameters =
          [\<lparr>pd_Name = ''ticket_id'', pd_Type = ''string'', pd_Required = True,
            pd_Description = ''ticket identifier (e.g. INC-100)''\<rparr>,
           \<lparr>pd_Name = ''comment'', pd_Type = ''string'', pd_Required = True,
            pd_Description = ''comment text to add''\<rparr>],
        def_StubResponse = noStub, def_Executor = Some comment\<rparr>
       (Register
          \<lparr>def_Name = ''ticket_search'', def_Description = ''Search tickets by keyword query'',
           def_ActionClass = ActionClassRead, def_ReadOnly = True, def_RequiresApproval = False,
           def_AsyncOnly = False,
           def_Parameters =
             [\<lparr>pd_Name = ''query'', pd_Type = ''string'', pd_Required = True,
               pd_Description = ''search keywords or ticket ID pattern''\<rparr>],
           def_StubResponse = noStub, def_Executor = Some search\<rparr>
          newRegistry)"

subsection \<open>The registry as a store\<close>

interpretation tool_store: keyed_store "\<lambda>r k. Lookup k r" "\<lambda>r d. Register d r" def_Name
  by unfold_locales (simp add: Lookup_def Register_def)

lemma default_search:
  "Lookup ''ticket_search'' (NewDefaultRegistry noStub search comment) = Some def
   \<Longrightarrow> def_Executor def = Some search \<and> \<not> needsApproval def False"
  by (auto simp: NewDefaultRegistry_def Lookup_def Register_def needsApproval_def)

lemma default_ungated:
  "\<lbrakk>NewDefaultRegistry noStub search comment name = Some def; \<not> needsApproval def False\<rbrakk>
   \<Longrightarrow> def_Executor def = Some search"
  by (auto simp: NewDefaultRegistry_def Register_def newRegistry_def needsApproval_def split: if_splits)

subsection \<open>The approval gate of the execution service\<close>

lemma Execute_gated:
  assumes "Lookup (inv_ToolName ivk) r = Some def"
    and "\<not> inv_ApprovalGranted ivk" "needsApproval def (inv_RequiresApproval ivk)"
  shows "\<exists>res. Execute marshal r ivk w = (Inr res, w) \<and> tr_Status res = ToolApprovalRequired
     \<and> tr_ToolName res = inv_ToolName ivk \<and> tr_StructuredData res = []"
  using assms by (simp add: Execute_def baseResult_def)

lemma needsApproval_mono: "needsApproval def False \<Longrightarrow> needsApproval def b"
  by (auto simp: needsApproval_def)

text \<open>
  The contract between the execution service and its callers: without an approval only the
  executors of ungated tools act on the world, so what those keep is kept.
\<close>

locale gated_tools =
  fixes r :: "('w, 'p) toolRegistry"
    and Keep :: "'w \<Rightarrow> bool"
  assumes ungated_keeps:
    "\<lbrakk>r name = Some def; def_Executor def = Some f; \<not> needsApproval def False; Keep w\<rbrakk>
     \<Longrightarrow> Keep (snd (f args w))"
begin

lemma Execute_keeps:
  assumes "\<not> inv_ApprovalGranted ivk" "Keep w"
  shows "Keep (snd (Execute marshal r ivk w))"
proof (cases "Lookup (inv_ToolName ivk) r")
  case None
  then show ?thesis using assms by (simp add: Execute_def)
next
  case (Some def)
  show ?thesis
  proof (cases "needsApproval def (inv_RequiresApproval ivk)")
    case True
    then show ?thesis using Some assms by (simp add: Execute_def)
  next
    case False
    then have "\<not> needsApproval def False" using needsApproval_mono by blast
    then have "Keep (snd (runTool def ivk w))"
      using ungated_keeps [of "inv_ToolName ivk" def _ w "inv_Arguments ivk"] Some assms(2)
      by (auto simp: runTool_def Lookup_def split: option.splits sum.splits prod.splits)
    then show ?thesis
      using Some False assms
      by (auto simp: Execute_def split: sum.splits prod.splits)
  qed
qed

end

interpretation default_tools:
  gated_tools "NewDefaultRegistry noStub (SearchExecutor decode) comment" Keep
  for noStub decode comment Keep
  by unfold_locales (auto dest!: default_ungated simp: SearchExecutor_def Let_def split: sum.splits)

end
