(* ===== verification/Retrieval.thy ===== *)
theory Retrieval
  imports Go_Sort Complex_Main
begin

text \<open>
  Retrieval (\<open>internal/retrieval\<close>): the in-memory search service, query rewriting, re-ranking,
  compression, the relevance filter and the final reordering.

  A language model is a provider that may be absent, the built-in placeholder, or live.  A live
  provider answers the call with index \<open>n\<close> of a stage; the index keeps apart the calls that the
  code makes concurrently, so that two calls with the same text may be answered differently.
  A call may also find its context cancelled.  Scores are rational numbers, except where the
  code reads a number from a reply: \<open>strconv.ParseFloat\<close> also reads infinities and NaN, and is an
  argument of the model.
\<close>

subsection \<open>Types\<close>

datatype goFloat = Finite rat | PosInf | NegInf | NotANumber

fun floatLess :: "goFloat \<Rightarrow> goFloat \<Rightarrow> bool" where
  "floatLess (Finite a) (Finite b) \<longleftrightarrow> a < b"
| "floatLess (Finite a) PosInf \<longleftrightarrow> True"
| "floatLess NegInf (Finite a) \<longleftrightarrow> True"
| "floatLess NegInf PosInf \<longleftrightarrow> True"
| "floatLess a b \<longleftrightarrow> False"

definition floatEq :: "goFloat \<Rightarrow> goFloat \<Rightarrow> bool" where
  "floatEq a b \<longleftrightarrow> a = b \<and> a \<noteq> NotANumber"

datatype llmReply = Cancelled | CallFailed string | Reply string

datatype llmProvider =
    NoProvider
  | PlaceholderProvider
  | LiveProvider "string \<Rightarrow> nat \<Rightarrow> string \<Rightarrow> llmReply"

definition PlaceholderContent :: string where
  "PlaceholderContent = ''Milestone 1 placeholder response.''"

text \<open>A call at a stage; no code calls an absent provider.\<close>

definition Complete :: "llmProvider \<Rightarrow> string \<Rightarrow> nat \<Rightarrow> string \<Rightarrow> llmReply" where
  "Complete provider stage i prompt =
     (case provider of
        NoProvider \<Rightarrow> CallFailed ''nil provider''
      | PlaceholderProvider \<Rightarrow> Reply PlaceholderContent
      | LiveProvider ask \<Rightarrow> ask stage i prompt)"

record retrievalRequest =
  rr_RequestID :: string
  rr_TraceID :: string
  rr_TenantID :: string
  rr_SessionID :: string
  rr_PlanID :: string
  rr_QueryText :: string
  rr_RewrittenQuery :: string
  rr_PermissionsScope :: string
  rr_TopK :: int
  rr_UseRerank :: bool

record evidenceBlock =
  eb_EvidenceID :: string
  eb_TenantID :: string
  eb_DocumentID :: string
  eb_DocumentVersion :: int
  eb_ChunkID :: string
  eb_SourceTitle :: string
  eb_SourceURI :: string
  eb_Snippet :: string
  eb_Score :: rat
  eb_RerankScore :: goFloat
  eb_PublishedAt :: "time option"
  eb_CitationLabel :: string
  eb_PermissionsScope :: string

record retrievalResult =
  rres_RequestID :: string
  rres_PlanID :: string
  rres_QueryUsed :: string
  rres_EvidenceBlocks :: "evidenceBlock list"
  rres_CoverageScore :: rat
  rres_MissingQuestions :: "string list"

subsection \<open>Search\<close>

text \<open>\<open>strings.Fields\<close>: the maximal runs of bytes between white space.\<close>

function fieldsFrom :: "string \<Rightarrow> string \<Rightarrow> string list" where
  "fieldsFrom word s =
     (let flush = (if word = [] then [] else [word])
      in if s = [] then flush
         else case stripOne spaceEncodings s of
                Some s' \<Rightarrow> flush @ (if length s' < length s then fieldsFrom [] s' else [])
              | None \<Rightarrow> fieldsFrom (word @ [hd s]) (tl s))"
  by pat_completeness auto
termination
  by (relation "measure (\<lambda>(word, s). length s)") auto

declare fieldsFrom.simps [simp del]

definition fields :: "string \<Rightarrow> string list" where
  "fields s = fieldsFrom [] s"

definition scoreCandidate :: "string \<Rightarrow> evidenceBlock \<Rightarrow> nat" where
  "scoreCandidate query0 candidate =
     (let query = toLower (trimSpace query0);
          haystacks = [toLower (eb_SourceTitle candidate), toLower (eb_Snippet candidate)]
      in if query = [] then 0
         else length (filter (\<lambda>term. term \<noteq> [] \<and> (\<exists>h \<in> set haystacks. contains h term))
                        (fields query)))"

definition normalizeTopK :: "int \<Rightarrow> nat" where
  "normalizeTopK topK = (if topK \<le> 0 then 8 else if topK > 12 then 12 else nat topK)"

definition evidenceLess :: "evidenceBlock \<Rightarrow> evidenceBlock \<Rightarrow> bool" where
  "evidenceLess a b \<longleftrightarrow>
     (if eb_Score a = eb_Score b then eb_EvidenceID a < eb_EvidenceID b else eb_Score a > eb_Score b)"

definition queryUsed :: "retrievalRequest \<Rightarrow> string" where
  "queryUsed req =
     (let q = trimSpace (rr_RewrittenQuery req)
      in if q = [] then trimSpace (rr_QueryText req) else q)"

definition scoredHits :: "evidenceBlock list \<Rightarrow> retrievalRequest \<Rightarrow> evidenceBlock list" where
  "scoredHits catalog req =
     concat (map (\<lambda>c.
       if eb_TenantID c \<noteq> rr_TenantID req then []
       else let score = scoreCandidate (queryUsed req) c
            in if score = 0 then []
               else [c\<lparr>eb_Score := of_nat score,
                       eb_RerankScore := (if rr_UseRerank req then Finite (of_nat score)
                                          else eb_RerankScore c)\<rparr>]) catalog)"

definition labelled :: "string \<Rightarrow> nat \<Rightarrow> evidenceBlock \<Rightarrow> evidenceBlock" where
  "labelled tenantID i b =
     b\<lparr>eb_CitationLabel := (if eb_CitationLabel b = [] then ''['' @ showNat (i + 1) @ '']''
                            else eb_CitationLabel b),
       eb_PermissionsScope := (if eb_PermissionsScope b = [] then ''tenant:'' @ tenantID
                               else eb_PermissionsScope b)\<rparr>"

definition Search :: "evidenceBlock list \<Rightarrow> retrievalRequest \<Rightarrow> retrievalResult" where
  "Search catalog req =
     (let ranked = goSort evidenceLess (scoredHits catalog req);
          topK = normalizeTopK (rr_TopK req);
          cut = (if length ranked > topK then take topK ranked else ranked);
          blocks = map (\<lambda>(i, b). labelled (rr_TenantID req) i b) (zip [0..<length cut] cut)
      in \<lparr>rres_RequestID = rr_RequestID req, rres_PlanID = rr_PlanID req,
          rres_QueryUsed = queryUsed req, rres_EvidenceBlocks = blocks,
          rres_CoverageScore = (if blocks \<noteq> [] then 1 else 0),
          rres_MissingQuestions =
            (if blocks \<noteq> [] then [] else if queryUsed req \<noteq> [] then [queryUsed req] else [])\<rparr>)"

subsection \<open>Query rewriting\<close>

definition HyDE_Rewrite :: "llmProvider \<Rightarrow> string \<Rightarrow> string" where
  "HyDE_Rewrite provider query0 =
     (let query = trimSpace query0 in
      if query = [] then []
      else case provider of
             LiveProvider ask \<Rightarrow>
               (case ask ''hyde'' 0 (''Question: '' @ query) of
                  Reply content \<Rightarrow>
                    let rewritten = trimSpace content in if rewritten = [] then query else rewritten
                | _ \<Rightarrow> query)
           | _ \<Rightarrow> query)"

subsection \<open>Re-ranking\<close>

definition rerankMaxBlocks :: nat where "rerankMaxBlocks = 15"

definition neutralScore :: goFloat where "neutralScore = Finite 5"

definition parseRerankerScore :: "(string \<Rightarrow> goFloat option) \<Rightarrow> string \<Rightarrow> goFloat" where
  "parseRerankerScore parseFloat content =
     (case parseFloat (trimSpace content) of
        None \<Rightarrow> neutralScore
      | Some score \<Rightarrow>
          if floatLess score (Finite 0) then Finite 0
          else if floatLess (Finite 10) score then Finite 10 else score)"

definition passagePrompt :: "string \<Rightarrow> evidenceBlock \<Rightarrow> string" where
  "passagePrompt query b =
     ''Query: '' @ query @ newline @ newline @ ''Passage: '' @ eb_Snippet b"

definition scoreOf :: "(string \<Rightarrow> goFloat option) \<Rightarrow> llmReply \<Rightarrow> goFloat" where
  "scoreOf parseFloat reply =
     (case reply of Reply content \<Rightarrow> parseRerankerScore parseFloat content | _ \<Rightarrow> neutralScore)"

definition scoredLess :: "evidenceBlock \<times> goFloat \<Rightarrow> evidenceBlock \<times> goFloat \<Rightarrow> bool" where
  "scoredLess a b \<longleftrightarrow>
     (if \<not> floatEq (snd a) (snd b) then floatLess (snd b) (snd a)
      else eb_EvidenceID (fst a) < eb_EvidenceID (fst b))"

fun floatDiv10 :: "goFloat \<Rightarrow> goFloat" where
  "floatDiv10 (Finite a) = Finite (a / 10)"
| "floatDiv10 x = x"

definition Rerank ::
    "(string \<Rightarrow> goFloat option) \<Rightarrow> llmProvider \<Rightarrow> string \<Rightarrow> evidenceBlock list \<Rightarrow> evidenceBlock list" where
  "Rerank parseFloat provider query blocks =
     (if blocks = [] \<or> provider = NoProvider then blocks
      else
        let candidates = take rerankMaxBlocks blocks;
            scored = map (\<lambda>(i, b).
                (b, scoreOf parseFloat (Complete provider ''rerank'' i (passagePrompt query b))))
              (zip [0..<length candidates] candidates)
        in map (\<lambda>(b, score). b\<lparr>eb_RerankScore := floatDiv10 score\<rparr>) (goSort scoredLess scored))"

subsection \<open>Compression\<close>

definition compressPrompt :: "string \<Rightarrow> evidenceBlock \<Rightarrow> string" where
  "compressPrompt query b =
     ''Query: '' @ query @ newline @ newline @ ''Passage ['' @ eb_CitationLabel b @ ''] '' @
     eb_SourceTitle b @ '':'' @ newline @ eb_Snippet b"

definition compressOne :: "llmReply \<Rightarrow> evidenceBlock \<Rightarrow> evidenceBlock option" where
  "compressOne reply b =
     (case reply of
        Reply raw \<Rightarrow>
          let content = trimSpace raw
          in if content = [] \<or> toUpper content = ''IRRELEVANT'' then None
             else Some (b\<lparr>eb_Snippet := content\<rparr>)
      | _ \<Rightarrow> Some b)"

definition Compress :: "llmProvider \<Rightarrow> string \<Rightarrow> evidenceBlock list \<Rightarrow> evidenceBlock list" where
  "Compress provider query blocks =
     (case provider of
        LiveProvider ask \<Rightarrow>
          if blocks = [] then blocks
          else List.map_filter (\<lambda>(i, b). compressOne (ask ''compress'' i (compressPrompt query b)) b)
                 (zip [0..<length blocks] blocks)
      | _ \<Rightarrow> blocks)"

subsection \<open>Relevance filter\<close>

datatype relevanceVerdict = VerdictRelevant | VerdictAmbiguous | VerdictIrrelevant

record cragStats =
  crag_Total :: nat
  crag_Relevant :: nat
  crag_Ambiguous :: nat
  crag_Irrelevant :: nat
  crag_Errors :: nat

definition parseVerdict :: "string \<Rightarrow> relevanceVerdict" where
  "parseVerdict content =
     (let lower = toLower (trimSpace content) in
      if lower = ''relevant'' then VerdictRelevant
      else if lower = ''irrelevant'' then VerdictIrrelevant
      else if lower = ''ambiguous'' then VerdictAmbiguous
      else if contains lower ''irrelevant'' \<or> contains lower ''not relevant'' then VerdictIrrelevant
      else if contains lower ''relevant'' then VerdictRelevant
      else VerdictAmbiguous)"

definition classify :: "llmReply \<Rightarrow> relevanceVerdict \<times> bool" where
  "classify reply =
     (case reply of
        Cancelled \<Rightarrow> (VerdictAmbiguous, False)
      | CallFailed _ \<Rightarrow> (VerdictAmbiguous, True)
      | Reply content \<Rightarrow> (parseVerdict content, False))"

definition cragStep ::
    "evidenceBlock \<times> relevanceVerdict \<times> bool \<Rightarrow> evidenceBlock list \<times> cragStats
     \<Rightarrow> evidenceBlock list \<times> cragStats" where
  "cragStep = (\<lambda>(b, verdict, llmError) (filtered, st0).
     let st = (if llmError then st0\<lparr>crag_Errors := crag_Errors st0 + 1\<rparr> else st0)
     in case verdict of
          VerdictRelevant \<Rightarrow> (filtered @ [b], st\<lparr>crag_Relevant := crag_Relevant st + 1\<rparr>)
        | VerdictAmbiguous \<Rightarrow>
            (filtered @ [b\<lparr>eb_Score := eb_Score b / 2\<rparr>], st\<lparr>crag_Ambiguous := crag_Ambiguous st + 1\<rparr>)
        | VerdictIrrelevant \<Rightarrow> (filtered, st\<lparr>crag_Irrelevant := crag_Irrelevant st + 1\<rparr>))"

definition noStats :: cragStats where
  "noStats = \<lparr>crag_Total = 0, crag_Relevant = 0, crag_Ambiguous = 0, crag_Irrelevant = 0,
     crag_Errors = 0\<rparr>"

definition CRAG_Filter ::
    "llmProvider \<Rightarrow> string \<Rightarrow> evidenceBlock list \<Rightarrow> evidenceBlock list \<times> cragStats" where
  "CRAG_Filter provider query blocks =
     (if blocks = [] then (blocks, noStats)
      else case provider of
             NoProvider \<Rightarrow> (blocks, noStats)
           | PlaceholderProvider \<Rightarrow>
               (blocks, noStats\<lparr>crag_Total := length blocks, crag_Relevant := length blocks\<rparr>)
           | LiveProvider ask \<Rightarrow>
               fold cragStep
                 (map (\<lambda>(i, b). (b, classify (ask ''crag'' i (passagePrompt query b))))
                    (zip [0..<length blocks] blocks))
                 ([], noStats\<lparr>crag_Total := length blocks\<rparr>))"

subsection \<open>Reordering\<close>

text \<open>The loop fills the result from both ends; \<open>zero\<close> is what \<open>make\<close> puts into every slot.\<close>

fun reorderLoop :: "nat \<Rightarrow> evidenceBlock list \<Rightarrow> evidenceBlock list \<Rightarrow> int \<Rightarrow> int \<Rightarrow> evidenceBlock list" where
  "reorderLoop i [] result left right = result"
| "reorderLoop i (b # bs) result left right =
     (if i mod 2 = 0
      then reorderLoop (i + 1) bs (result[nat left := b]) (left + 1) right
      else reorderLoop (i + 1) bs (result[nat right := b]) left (right - 1))"

definition zeroEvidence :: evidenceBlock where
  "zeroEvidence = \<lparr>eb_EvidenceID = [], eb_TenantID = [], eb_DocumentID = [], eb_DocumentVersion = 0,
     eb_ChunkID = [], eb_SourceTitle = [], eb_SourceURI = [], eb_Snippet = [], eb_Score = 0,
     eb_RerankScore = Finite 0, eb_PublishedAt = None, eb_CitationLabel = [],
     eb_PermissionsScope = []\<rparr>"

definition ReorderLostInTheMiddle :: "evidenceBlock list \<Rightarrow> evidenceBlock list" where
  "ReorderLostInTheMiddle blocks =
     (if length blocks \<le> 2 then blocks
      else reorderLoop 0 blocks (replicate (length blocks) zeroEvidence) 0 (int (length blocks) - 1))"

end
