(* ===== verification/Critic.thy ===== *)
theory Critic
  imports Planner_LLM Tools Retrieval
begin

text \<open>
  The critic (\<open>internal/agent/critic\<close>): the review by rules, the review by a language model with
  its prompt, parsing and validation, and the choice between the two.  Decoding the JSON reply is
  an argument; its numbers are rational.
\<close>

subsection \<open>Types\<close>

abbreviation (input) "VerdictApprove \<equiv> ''approve''"
abbreviation (input) "VerdictRevise \<equiv> ''revise''"
abbreviation (input) "VerdictPromoteWorkflow \<equiv> ''promote_workflow''"
abbreviation (input) "VerdictReject \<equiv> ''reject''"

abbreviation (input) "RiskLevelLow \<equiv> ''low''"
abbreviation (input) "RiskLevelMedium \<equiv> ''medium''"
abbreviation (input) "RiskLevelHigh \<equiv> ''high''"

abbreviation (input) "CriticSourceLLM \<equiv> ''llm''"
abbreviation (input) "CriticSourceRule \<equiv> ''rule''"
abbreviation (input) "CriticPromptVersion \<equiv> ''critic-v1''"

record criticInput =
  ci_Plan :: executionPlan
  ci_Retrieval :: "retrievalResult option"
  ci_ToolResults :: "toolResult list"
  ci_DraftAnswer :: string

record criticVerdict =
  cv_Verdict :: string
  cv_Groundedness :: rat
  cv_CitationCoverage :: rat
  cv_ToolConsistency :: rat
  cv_RiskLevel :: string
  cv_MissingItems :: "string list"
  cv_RevisionHints :: "string list"
  cv_BlockingReasons :: "string list"
  cv_Source :: string
  cv_PromptVersion :: string

record llmCriticResponse =
  lc_Verdict :: string
  lc_Groundedness :: rat
  lc_CitationCoverage :: rat
  lc_ToolConsistency :: rat
  lc_RiskLevel :: string
  lc_MissingItems :: "string list"
  lc_RevisionHints :: "string list"
  lc_BlockingReasons :: "string list"
  lc_Reasoning :: string

datatype criticError =
    CriticCallFailed string
  | CriticParseFailed string
  | InvalidVerdict string
  | InvalidRiskLevel string

subsection \<open>Review by rules\<close>

definition ruleVerdict :: criticVerdict where
  "ruleVerdict = \<lparr>cv_Verdict = [], cv_Groundedness = 1, cv_CitationCoverage = 1,
     cv_ToolConsistency = 1, cv_RiskLevel = RiskLevelLow, cv_MissingItems = [],
     cv_RevisionHints = [], cv_BlockingReasons = [], cv_Source = CriticSourceRule,
     cv_PromptVersion = []\<rparr>"

definition noteFailedTool :: "toolResult \<Rightarrow> criticVerdict \<Rightarrow> criticVerdict" where
  "noteFailedTool res v =
     (if tr_Status res = ToolFailed
      then v\<lparr>cv_Verdict := VerdictRevise, cv_RiskLevel := RiskLevelMedium,
             cv_ToolConsistency := 3 / 10,
             cv_RevisionHints := cv_RevisionHints v @ [''resolve failed tool execution'']\<rparr>
      else v)"

definition citationMatches :: "string \<Rightarrow> evidenceBlock list \<Rightarrow> nat" where
  "citationMatches draft blocks =
     length (filter (\<lambda>b. eb_CitationLabel b \<noteq> [] \<and> contains draft (eb_CitationLabel b)) blocks)"

definition evidenceOf :: "criticInput \<Rightarrow> evidenceBlock list" where
  "evidenceOf input = (case ci_Retrieval input of None \<Rightarrow> [] | Some r \<Rightarrow> rres_EvidenceBlocks r)"

definition reviewWithRules :: "criticInput \<Rightarrow> criticVerdict" where
  "reviewWithRules input =
     (let v = fold noteFailedTool (ci_ToolResults input) ruleVerdict;
          blocks = evidenceOf input;
          coverage = rat_of_nat (citationMatches (ci_DraftAnswer input) blocks) / rat_of_nat (length blocks);
          approved = (\<lambda>v. if cv_Verdict v = [] then v\<lparr>cv_Verdict := VerdictApprove\<rparr> else v)
      in if ep_RequiresRetrieval (ci_Plan input)
         then if blocks = []
              then v\<lparr>cv_Groundedness := 4 / 10, cv_CitationCoverage := 0, cv_Verdict := VerdictRevise,
                     cv_MissingItems := cv_MissingItems v @ [''retrieval_evidence''],
                     cv_RevisionHints := cv_RevisionHints v
                       @ [''add grounded evidence before answering'']\<rparr>
              else let v' = v\<lparr>cv_CitationCoverage := coverage\<rparr>
                   in if coverage < 80 / 100
                      then v'\<lparr>cv_Verdict := VerdictRevise,
                              cv_RevisionHints := cv_RevisionHints v'
                                @ [''add citations for supporting evidence'']\<rparr>
                      else approved v'
         else approved v)"

subsection \<open>Review by a language model\<close>

definition buildCriticUserMessage :: "criticInput \<Rightarrow> string" where
  "buildCriticUserMessage input =
     joinStrings
       ([''## Query Context'' @ newline @ ''Plan intent: '' @ ep_Intent (ci_Plan input)] @
        (if evidenceOf input \<noteq> []
         then (newline @ ''## Retrieved Evidence'')
              # map (\<lambda>b. ''- '' @ eb_CitationLabel b @ '' '' @ eb_SourceTitle b @ '': '' @ eb_Snippet b)
                  (evidenceOf input)
         else [newline @ ''## Retrieved Evidence'' @ newline @ ''No evidence was retrieved.'']) @
        (if ci_ToolResults input \<noteq> []
         then (newline @ ''## Tool Results'')
              # map (\<lambda>t. ''- '' @ tr_ToolName t @ '': status='' @ tr_Status t @ '' output='' @
                     tr_OutputSummary t) (ci_ToolResults input)
         else []) @
        [newline @ ''## Draft Answer'' @ newline @ ci_DraftAnswer input])
       newline"

definition backticks :: string where
  "backticks = replicate 3 (CHR 0x60)"

definition stripCodeFencesCritic :: "string \<Rightarrow> string" where
  "stripCodeFencesCritic s0 =
     (let s = trimSpace s0;
          s1 = (if hasPrefix s backticks
                then case indexOf s newline of None \<Rightarrow> s | Some i \<Rightarrow> drop (i + 1) s
                else s);
          s2 = (if hasSuffix s1 backticks then take (length s1 - 3) s1 else s1)
      in trimSpace s2)"

definition parseCriticResponse ::
    "(string \<Rightarrow> string + llmCriticResponse) \<Rightarrow> string \<Rightarrow> criticError + llmCriticResponse" where
  "parseCriticResponse unmarshal content =
     (case unmarshal (stripCodeFencesCritic content) of
        Inl err \<Rightarrow> Inl (CriticParseFailed err) | Inr resp \<Rightarrow> Inr resp)"

definition validateCriticResponse :: "llmCriticResponse \<Rightarrow> criticError option" where
  "validateCriticResponse resp =
     (if lc_Verdict resp \<notin> {VerdictApprove, VerdictRevise, VerdictPromoteWorkflow, VerdictReject}
      then Some (InvalidVerdict (lc_Verdict resp))
      else if lc_RiskLevel resp \<notin> {RiskLevelLow, RiskLevelMedium, RiskLevelHigh, []}
      then Some (InvalidRiskLevel (lc_RiskLevel resp))
      else None)"

definition clamp01 :: "rat \<Rightarrow> rat" where
  "clamp01 v = (if v < 0 then 0 else if v > 1 then 1 else v)"

definition toLLMVerdict :: "llmCriticResponse \<Rightarrow> criticVerdict" where
  "toLLMVerdict resp =
     \<lparr>cv_Verdict = lc_Verdict resp, cv_Groundedness = clamp01 (lc_Groundedness resp),
      cv_CitationCoverage = clamp01 (lc_CitationCoverage resp),
      cv_ToolConsistency = clamp01 (lc_ToolConsistency resp),
      cv_RiskLevel = (if lc_RiskLevel resp = [] then RiskLevelLow else lc_RiskLevel resp),
      cv_MissingItems = lc_MissingItems resp, cv_RevisionHints = lc_RevisionHints resp,
      cv_BlockingReasons = lc_BlockingReasons resp, cv_Source = CriticSourceLLM,
      cv_PromptVersion = CriticPromptVersion\<rparr>"

definition reviewWithLLM ::
    "(string \<Rightarrow> string + llmCriticResponse) \<Rightarrow> llmReply \<Rightarrow> criticError + criticVerdict" where
  "reviewWithLLM unmarshal reply =
     (case reply of
        Cancelled \<Rightarrow> Inl (CriticCallFailed ''context canceled'')
      | CallFailed err \<Rightarrow> Inl (CriticCallFailed err)
      | Reply content \<Rightarrow>
          (case parseCriticResponse unmarshal content of
             Inl err \<Rightarrow> Inl err
           | Inr resp \<Rightarrow>
               (case validateCriticResponse resp of
                  Some err \<Rightarrow> Inl err | None \<Rightarrow> Inr (toLLMVerdict resp))))"

definition approvalVerdict :: criticVerdict where
  "approvalVerdict = \<lparr>cv_Verdict = VerdictPromoteWorkflow, cv_Groundedness = 1,
     cv_CitationCoverage = 1, cv_ToolConsistency = 5 / 10, cv_RiskLevel = RiskLevelMedium,
     cv_MissingItems = [], cv_RevisionHints = [], cv_BlockingReasons = [''tool approval required''],
     cv_Source = CriticSourceRule, cv_PromptVersion = []\<rparr>"

definition Review ::
    "(string \<Rightarrow> string + llmCriticResponse) \<Rightarrow> llmProvider \<Rightarrow> criticInput \<Rightarrow> criticVerdict" where
  "Review unmarshal provider input =
     (if \<exists>res \<in> set (ci_ToolResults input). tr_Status res = ToolApprovalRequired
      then approvalVerdict
      else case provider of
             LiveProvider ask \<Rightarrow>
               (case reviewWithLLM unmarshal (ask ''critic'' 0 (buildCriticUserMessage input)) of
                  Inl _ \<Rightarrow> reviewWithRules input | Inr v \<Rightarrow> v)
           | _ \<Rightarrow> reviewWithRules input)"

subsection \<open>Soundness of the review\<close>

lemma fold_noteFailedTool:
  "cv_Verdict (fold noteFailedTool rs v) =
     (if \<exists>r \<in> set rs. tr_Status r = ToolFailed then VerdictRevise else cv_Verdict v)"
  "cv_RiskLevel (fold noteFailedTool rs v) =
     (if \<exists>r \<in> set rs. tr_Status r = ToolFailed then RiskLevelMedium else cv_RiskLevel v)"
  "cv_ToolConsistency (fold noteFailedTool rs v) =
     (if \<exists>r \<in> set rs. tr_Status r = ToolFailed then 3 / 10 else cv_ToolConsistency v)"
  "cv_Groundedness (fold noteFailedTool rs v) = cv_Groundedness v"
  "cv_CitationCoverage (fold noteFailedTool rs v) = cv_CitationCoverage v"
  by (induction rs arbitrary: v) (auto simp: noteFailedTool_def)

lemma citationMatches_le: "citationMatches draft blocks \<le> length blocks"
  by (simp add: citationMatches_def)

definition verdictOK :: "criticVerdict \<Rightarrow> bool" where
  "verdictOK v \<longleftrightarrow>
     cv_Verdict v \<in> {VerdictApprove, VerdictRevise, VerdictPromoteWorkflow, VerdictReject}
   \<and> cv_RiskLevel v \<in> {RiskLevelLow, RiskLevelMedium, RiskLevelHigh}
   \<and> {cv_Groundedness v, cv_CitationCoverage v, cv_ToolConsistency v} \<subseteq> {0..1}"

lemma coverage_range:
  "0 \<le> rat_of_nat (citationMatches d bs) / rat_of_nat (length bs)"
  "rat_of_nat (citationMatches d bs) / rat_of_nat (length bs) \<le> 1"
  using citationMatches_le [of d bs] by (auto simp: divide_le_eq_1)

lemma reviewWithRules_OK: "verdictOK (reviewWithRules input)"
  using coverage_range [of "ci_DraftAnswer input" "evidenceOf input"]
  by (auto simp: reviewWithRules_def Let_def verdictOK_def fold_noteFailedTool ruleVerdict_def)

lemma clamp01_range [simp]: "0 \<le> clamp01 v" "clamp01 v \<le> 1"
  by (simp_all add: clamp01_def)

lemma validateCriticResponse_None:
  "validateCriticResponse resp = None \<longleftrightarrow>
     lc_Verdict resp \<in> {VerdictApprove, VerdictRevise, VerdictPromoteWorkflow, VerdictReject}
   \<and> lc_RiskLevel resp \<in> {RiskLevelLow, RiskLevelMedium, RiskLevelHigh, []}"
  by (simp only: validateCriticResponse_def split: if_split) simp

lemma toLLMVerdict_OK:
  assumes "validateCriticResponse resp = None"
  shows "verdictOK (toLLMVerdict resp)"
proof -
  have v: "lc_Verdict resp \<in> {VerdictApprove, VerdictRevise, VerdictPromoteWorkflow, VerdictReject}"
    and r: "lc_RiskLevel resp \<in> {RiskLevelLow, RiskLevelMedium, RiskLevelHigh, []}"
    using assms validateCriticResponse_None by blast+
  from r have "cv_RiskLevel (toLLMVerdict resp) \<in> {RiskLevelLow, RiskLevelMedium, RiskLevelHigh}"
    by (auto simp: toLLMVerdict_def)
  with v show ?thesis by (simp add: toLLMVerdict_def verdictOK_def)
qed

lemma reviewWithLLM_OK:
  assumes "reviewWithLLM unmarshal r = Inr v"
  shows "verdictOK v"
proof -
  from assms obtain resp where "validateCriticResponse resp = None" "v = toLLMVerdict resp"
    by (auto simp: reviewWithLLM_def split: llmReply.splits sum.splits option.splits)
  then show ?thesis using toLLMVerdict_OK by simp
qed

lemma Review_OK: "verdictOK (Review unmarshal provider input)"
proof -
  have "verdictOK approvalVerdict" by (simp add: verdictOK_def approvalVerdict_def)
  then show ?thesis
    using reviewWithRules_OK reviewWithLLM_OK
    by (auto simp: Review_def split: llmProvider.splits sum.splits)
qed

lemma reviewWithRules_approves:
  "cv_Verdict (reviewWithRules input) = VerdictApprove \<longleftrightarrow>
     (\<forall>res \<in> set (ci_ToolResults input). tr_Status res \<noteq> ToolFailed)
   \<and> (ep_RequiresRetrieval (ci_Plan input) \<longrightarrow> evidenceOf input \<noteq> []
        \<and> 4 * length (evidenceOf input) \<le> 5 * citationMatches (ci_DraftAnswer input) (evidenceOf input))"
proof (cases "ep_RequiresRetrieval (ci_Plan input) \<and> evidenceOf input \<noteq> []")
  case True
  let ?n = "length (evidenceOf input)" and ?m = "citationMatches (ci_DraftAnswer input) (evidenceOf input)"
  have "rat_of_nat ?m / rat_of_nat ?n < 80 / 100 \<longleftrightarrow> 5 * rat_of_nat ?m < 4 * rat_of_nat ?n"
    using True by (simp add: divide_less_eq mult.commute)
  also have "\<dots> \<longleftrightarrow> 5 * ?m < 4 * ?n"
    by (metis (no_types, lifting) of_nat_less_iff of_nat_mult of_nat_numeral)
  finally show ?thesis
    using True by (auto simp: reviewWithRules_def Let_def fold_noteFailedTool ruleVerdict_def)
next
  case False
  then show ?thesis
    by (auto simp: reviewWithRules_def Let_def fold_noteFailedTool ruleVerdict_def)
qed

text \<open>
  Whatever the model answers, the review returns one of the four verdicts with a known risk
  level and scores between 0 and 1, and a draft with a tool call that waits for approval is
  always promoted and never approved.  Without a usable model a draft is approved exactly when
  no tool call waits for approval or failed and, if the plan asked for retrieval, at least four
  fifths of the evidence is cited.
\<close>

theorem Review_sound:
  "verdictOK (Review unmarshal provider input)
   \<and> ((\<exists>res \<in> set (ci_ToolResults input). tr_Status res = ToolApprovalRequired)
        \<longrightarrow> cv_Verdict (Review unmarshal provider input) = VerdictPromoteWorkflow)
   \<and> (provider = NoProvider \<or> provider = PlaceholderProvider
        \<or> (\<exists>ask. provider = LiveProvider ask \<and> (\<forall>i prompt. \<exists>e. ask ''critic'' i prompt = CallFailed e))
      \<longrightarrow> (cv_Verdict (Review unmarshal provider input) = VerdictApprove \<longleftrightarrow>
             (\<forall>res \<in> set (ci_ToolResults input).
                tr_Status res \<noteq> ToolApprovalRequired \<and> tr_Status res \<noteq> ToolFailed)
           \<and> (ep_RequiresRetrieval (ci_Plan input) \<longrightarrow> evidenceOf input \<noteq> []
                \<and> 4 * length (evidenceOf input)
                    \<le> 5 * citationMatches (ci_DraftAnswer input) (evidenceOf input))))"
proof -
  have rules: "Review unmarshal provider input = reviewWithRules input"
    if "\<not> (\<exists>res \<in> set (ci_ToolResults input). tr_Status res = ToolApprovalRequired)"
      "provider = NoProvider \<or> provider = PlaceholderProvider
        \<or> (\<exists>ask. provider = LiveProvider ask \<and> (\<forall>i prompt. \<exists>e. ask ''critic'' i prompt = CallFailed e))"
    using that by (auto simp: Review_def reviewWithLLM_def split: llmReply.splits)
      (metis llmReply.distinct(5) llmReply.simps(6))+
  show ?thesis
  proof (cases "\<exists>res \<in> set (ci_ToolResults input). tr_Status res = ToolApprovalRequired")
    case True
    then have "Review unmarshal provider input = approvalVerdict" by (simp add: Review_def)
    with True Review_OK [of unmarshal provider input] show ?thesis
      by (auto simp: approvalVerdict_def)
  next
    case False
    with rules Review_OK [of unmarshal provider input] reviewWithRules_approves [of input]
    show ?thesis by auto
  qed
qed

definition emptyPlan :: executionPlan where
  "emptyPlan = \<lparr>ep_PlanID = [], ep_Intent = [], ep_RequiresRetrieval = False, ep_RequiresTool = False,
     ep_RequiresWorkflow = False, ep_RequiresApproval = False, ep_MaxSteps = 0, ep_OutputSchema = [],
     ep_Steps = [], ep_PlannerReasoningShort = [], ep_Source = [], ep_PromptVersion = []\<rparr>"

definition demoReview :: "toolResult list \<Rightarrow> criticInput" where
  "demoReview results = \<lparr>ci_Plan = emptyPlan, ci_Retrieval = None, ci_ToolResults = results,
     ci_DraftAnswer = ''ok''\<rparr>"

lemma Review_sound_witness:
  "cv_Verdict (Review (\<lambda>_. Inl ''no JSON'') (LiveProvider (\<lambda>_ _ _. CallFailed ''down'')) (demoReview [])) = VerdictApprove"
  using Review_sound [of "\<lambda>_. Inl ''no JSON''" "LiveProvider (\<lambda>_ _ _. CallFailed ''down'')" "demoReview []"]
  by (simp add: demoReview_def emptyPlan_def)

end
