(* ===== verification/Sessions.thy ===== *)
theory Sessions
  imports Go_Store
begin

text \<open>
  Conversation sessions (\<open>internal/session\<close>): the memory store and the service.  The clock is an
  argument; the two package-level identifier sequences are part of the state.
\<close>

subsection \<open>State and operations\<close>

abbreviation (input) "RoleUser \<equiv> ''user''"
abbreviation (input) "RoleAssistant \<equiv> ''assistant''"

record session =
  se_ID :: string
  se_TenantID :: string
  se_UserID :: string
  se_CreatedAt :: time

record message =
  msg_ID :: string
  msg_SessionID :: string
  msg_Role :: string
  msg_Content :: string
  msg_CreatedAt :: time

datatype sessionError = SessionNotFound string

record sessionState =
  sst_sessions :: "string \<rightharpoonup> session"
  sst_messages :: "string \<rightharpoonup> message list"
  sst_sessionSeq :: u64
  sst_messageSeq :: u64

definition newSessionStore :: sessionState where
  "newSessionStore = \<lparr>sst_sessions = Map.empty, sst_messages = Map.empty,
     sst_sessionSeq = 0, sst_messageSeq = 0\<rparr>"

definition store_CreateSession :: "session \<Rightarrow> sessionState \<Rightarrow> session \<times> sessionState" where
  "store_CreateSession x s = (x, s\<lparr>sst_sessions := (sst_sessions s)(se_ID x \<mapsto> x)\<rparr>)"

definition CreateMessage ::
    "message \<Rightarrow> sessionState \<Rightarrow> (sessionError + message) \<times> sessionState" where
  "CreateMessage m s =
     (case sst_sessions s (msg_SessionID m) of
        None \<Rightarrow> (Inl (SessionNotFound (msg_SessionID m)), s)
      | Some _ \<Rightarrow> (Inr m, s\<lparr>sst_messages := appendEntry (sst_messages s) (msg_SessionID m) m\<rparr>))"

definition ListMessages :: "string \<Rightarrow> sessionState \<Rightarrow> sessionError + message list" where
  "ListMessages sessionID s =
     (case sst_sessions s sessionID of
        None \<Rightarrow> Inl (SessionNotFound sessionID)
      | Some _ \<Rightarrow> Inr (entries (sst_messages s) sessionID))"

definition newSessionID :: "time \<Rightarrow> u64 \<Rightarrow> string" where
  "newSessionID now n = sequencedID ''sess-'' now n"

definition newMessageID :: "time \<Rightarrow> u64 \<Rightarrow> string" where
  "newMessageID now n = sequencedID ''msg-'' now n"

definition CreateSession ::
    "time \<Rightarrow> string \<Rightarrow> string \<Rightarrow> sessionState \<Rightarrow> session \<times> sessionState" where
  "CreateSession now tenantID userID s =
     (let n = sst_sessionSeq s + 1
      in store_CreateSession
           \<lparr>se_ID = newSessionID now n, se_TenantID = tenantID, se_UserID = userID,
            se_CreatedAt = now\<rparr>
           (s\<lparr>sst_sessionSeq := n\<rparr>))"

definition AppendMessage ::
    "time \<Rightarrow> string \<Rightarrow> string \<Rightarrow> string \<Rightarrow> sessionState
     \<Rightarrow> (sessionError + message) \<times> sessionState" where
  "AppendMessage now sessionID role content s =
     (let n = sst_messageSeq s + 1
      in CreateMessage
           \<lparr>msg_ID = newMessageID now n, msg_SessionID = sessionID, msg_Role = role,
            msg_Content = content, msg_CreatedAt = now\<rparr>
           (s\<lparr>sst_messageSeq := n\<rparr>))"

subsection \<open>The log of a run\<close>

text \<open>
  Abstractly the service is the set of opened sessions and one log of the accepted messages;
  the messages of a session are its part of the log.
\<close>

datatype sessionOp = OpCreate time string string | OpAppend time string string string

fun sessionStep :: "sessionOp \<Rightarrow> sessionState \<times> message list \<Rightarrow> sessionState \<times> message list" where
  "sessionStep (OpCreate now tenantID userID) (s, log) = (snd (CreateSession now tenantID userID s), log)"
| "sessionStep (OpAppend now sessionID role content) (s, log) =
     (case AppendMessage now sessionID role content s of
        (Inl _, s') \<Rightarrow> (s', log)
      | (Inr m, s') \<Rightarrow> (s', log @ [m]))"

definition refinesLog :: "sessionState \<times> message list \<Rightarrow> bool" where
  "refinesLog = (\<lambda>(s, log).
     (\<forall>k. entries (sst_messages s) k = filter (\<lambda>m. msg_SessionID m = k) log)
     \<and> msg_SessionID ` set log \<subseteq> dom (sst_sessions s))"

lemma sessionStep_refines: "refinesLog st \<Longrightarrow> refinesLog (sessionStep op st)"
  by (cases st; cases op)
    (auto simp: refinesLog_def CreateSession_def store_CreateSession_def AppendMessage_def
      CreateMessage_def entries_appendEntry Let_def dom_def split: option.splits)

lemma sessionSteps_refine: "refinesLog st \<Longrightarrow> refinesLog (fold sessionStep ops st)"
  by (induction ops arbitrary: st) (simp_all add: sessionStep_refines)

lemma newSessionStore_refines: "refinesLog (newSessionStore, [])"
  by (simp add: refinesLog_def newSessionStore_def entries_def)

text \<open>
  After any sequence of calls a session lists exactly the messages that were accepted for
  it, in the order of their acceptance and whatever happened in other sessions; a session that
  was never opened lists nothing and accepts nothing.
\<close>

theorem ListMessages_log:
  assumes "fold sessionStep ops (newSessionStore, []) = (s, log)"
  shows "ListMessages k s =
      (if k \<in> dom (sst_sessions s) then Inr (filter (\<lambda>m. msg_SessionID m = k) log)
       else Inl (SessionNotFound k))
    \<and> (k \<notin> dom (sst_sessions s) \<longrightarrow> filter (\<lambda>m. msg_SessionID m = k) log = []
        \<and> fst (AppendMessage now k role content s) = Inl (SessionNotFound k))"
proof -
  have r: "refinesLog (s, log)"
    using sessionSteps_refine [OF newSessionStore_refines, of ops] assms by simp
  show ?thesis
  proof (cases "sst_sessions s k")
    case None
    with r have "k \<notin> msg_SessionID ` set log" by (auto simp: refinesLog_def)
    then have "filter (\<lambda>m. msg_SessionID m = k) log = []" by (auto simp: filter_empty_conv)
    with None show ?thesis
      by (simp add: ListMessages_def AppendMessage_def CreateMessage_def Let_def domIff)
  next
    case (Some x)
    with r show ?thesis by (auto simp: ListMessages_def refinesLog_def)
  qed
qed

lemma ListMessages_log_witness:
  "ListMessages ''ghost'' (fst (sessionStep (OpAppend 2 ''ghost'' RoleUser ''hi'')
     (sessionStep (OpCreate 1 ''acme'' ''ann'') (newSessionStore, [])))) = Inl (SessionNotFound ''ghost'')"
proof -
  let ?ops = "[OpCreate 1 ''acme'' ''ann'', OpAppend 2 ''ghost'' RoleUser ''hi'']"
  have "''ghost'' \<notin> dom (sst_sessions (fst (fold sessionStep ?ops (newSessionStore, []))))"
    by (simp add: CreateSession_def store_CreateSession_def AppendMessage_def CreateMessage_def
        newSessionStore_def newSessionID_def sequencedID_def Let_def)
  then show ?thesis
    using ListMessages_log [of ?ops _ _ "''ghost''", OF prod.collapse [symmetric]] by simp
qed

end
