(* ===== verification/Chat.thy ===== *)
theory Chat
  imports Critic Sessions Workflow_Tasks
begin

text \<open>
  The chat service (\<open>internal/app/chat\<close>): one request runs through session, context assembly,
  planning, retrieval, tool execution with at most one replanning, completion, review and
  promotion.

  The environment of a request holds what the service is built from: the model provider, the
  searcher, the tool registry and the JSON codecs.  A provider is asked at named stages; the
  second retrieval of a request asks under names of its own.  The clock readings of a request
  are an argument.  Metrics, tracing and logging are left out, and so is the callback of a
  streaming provider, which sees the tokens of the same reply.
\<close>

subsection \<open>Requests, results and the environment\<close>

definition PlaceholderAssistantResponse :: string where
  "PlaceholderAssistantResponse = ''Milestone 1 placeholder response.''"

record chatRequest =
  req_RequestID :: string
  req_TraceID :: string
  req_TenantID :: string
  req_UserID :: string
  req_SessionID :: string
  req_Mode :: string
  req_UserMessage :: string
  req_TenantPolicy :: tenantPolicy

record streamEvent =
  ev_Name :: string
  ev_Data :: "(string \<times> string) list"

record handleResult =
  hr_SessionID :: string
  hr_Context :: buildResult
  hr_Plan :: executionPlan
  hr_Retrieval :: retrievalResult
  hr_ToolResults :: "toolResult list"
  hr_Critic :: criticVerdict
  hr_PromotedTask :: "task option"
  hr_ReplanCount :: nat
  hr_Events :: "streamEvent list"

datatype chatError =
    ChatSessionError sessionError
  | ChatSearchError string
  | WriteToolNeedsArguments string
  | ChatToolError toolError
  | ChatPromoteError workflowError

record ('w, 'p) chatEnv =
  ce_Provider :: llmProvider
  ce_Search :: "retrievalRequest \<Rightarrow> string + retrievalResult"
  ce_Registry :: "('w, 'p) toolRegistry"
  ce_ToolOrder :: "string list"
  ce_MarshalTool :: "toolDescriptor \<Rightarrow> string"
  ce_UnmarshalPlan :: "string \<Rightarrow> string + llmPlanResponse"
  ce_UnmarshalCritic :: "string \<Rightarrow> string + llmCriticResponse"
  ce_ParseFloat :: "string \<Rightarrow> goFloat option"
  ce_MarshalPayload :: "'p \<Rightarrow> string + string"
  ce_MarshalObject :: "(string \<times> string) list \<Rightarrow> string"
  ce_Version :: "(string + string) option"
  ce_Starter :: "(task \<Rightarrow> string option) option"

record chatClock =
  ck_Created :: time
  ck_UserMessage :: time
  ck_Promoted :: time
  ck_StartFailed :: time
  ck_Assistant :: time

record 'w chatState =
  cst_Sessions :: sessionState
  cst_Workflows :: workflowService
  cst_World :: 'w

subsection \<open>Conversions\<close>

definition toTurns :: "message list \<Rightarrow> turn list" where
  "toTurns = map (\<lambda>m. \<lparr>tn_Role = msg_Role m, tn_Content = msg_Content m\<rparr>)"

definition toPlannerToolDescriptors :: "('w, 'p) toolDefinition list \<Rightarrow> toolDescriptor list" where
  "toPlannerToolDescriptors = map (\<lambda>d.
     \<lparr>td_Name = def_Name d, td_Description = def_Description d, td_ReadOnly = def_ReadOnly d,
      td_RequiresApproval = def_RequiresApproval d, td_AsyncOnly = def_AsyncOnly d,
      td_Parameters = map (\<lambda>p. \<lparr>tpd_Name = pd_Name p, tpd_Type = pd_Type p,
                             tpd_Required = pd_Required p, tpd_Description = pd_Description p\<rparr>)
                        (def_Parameters d)\<rparr>)"

definition actionClassForStep :: "planStep \<Rightarrow> string" where
  "actionClassForStep st = (if ps_ReadOnly st then ActionClassRead else ActionClassWrite)"

definition toEvidenceSnippets :: "evidenceBlock list \<Rightarrow> evidenceSnippet list" where
  "toEvidenceSnippets = map (\<lambda>b. \<lparr>es_SourceTitle = eb_SourceTitle b, es_Snippet = eb_Snippet b,
     es_CitationLabel = eb_CitationLabel b, es_Score = eb_Score b\<rparr>)"

definition toToolResultSnippets :: "toolResult list \<Rightarrow> toolResultSnippet list" where
  "toToolResultSnippets = map (\<lambda>r. \<lparr>trs_ToolName = tr_ToolName r, trs_Status = tr_Status r,
     trs_OutputSummary = tr_OutputSummary r\<rparr>)"

definition buildExecutedSteps :: "toolResult list \<Rightarrow> executedStep list" where
  "buildExecutedSteps = map (\<lambda>r. \<lparr>xs_StepID = tr_ToolCallID r, xs_Kind = StepKindTool,
     xs_ToolName = tr_ToolName r, xs_Status = tr_Status r, xs_Summary = tr_OutputSummary r\<rparr>)"

subsection \<open>Tool steps\<close>

definition buildToolArguments :: "((string \<times> string) list \<Rightarrow> string) \<Rightarrow> string \<Rightarrow> string \<Rightarrow> string" where
  "buildToolArguments object toolName userMessage =
     (if toolName = ''ticket_comment_create''
      then let ticketID = findTicketID userMessage
           in object ((''comment'', userMessage)
                # (if ticketID \<noteq> [] then [(''ticket_id'', ticketID)] else []))
      else object [(''query'', userMessage)])"

text \<open>
  \<open>strconv.Quote\<close>: quotation marks, backslashes and control characters are escaped, bytes from 128
  on are copied, as for printable runes.
\<close>

definition hexDigit :: "nat \<Rightarrow> char" where
  "hexDigit d = ''0123456789abcdef'' ! d"

definition quoteChar :: "char \<Rightarrow> string" where
  "quoteChar c =
     (let n = (of_char c :: nat); bs = CHR 0x5C in
      if n = 34 \<or> n = 92 then [bs, c]
      else if n = 7 then [bs, CHR ''a''] else if n = 8 then [bs, CHR ''b'']
      else if n = 9 then [bs, CHR ''t''] else if n = 10 then [bs, CHR ''n'']
      else if n = 11 then [bs, CHR ''v''] else if n = 12 then [bs, CHR ''f'']
      else if n = 13 then [bs, CHR ''r'']
      else if n < 32 \<or> n = 127 then [bs, CHR ''x'', hexDigit (n div 16), hexDigit (n mod 16)]
      else [c])"

definition goQuote :: "string \<Rightarrow> string" where
  "goQuote s = CHR 0x22 # concat (map quoteChar s) @ [CHR 0x22]"

definition toolErrorText :: "toolError \<Rightarrow> string" where
  "toolErrorText err =
     (case err of
        ToolNotFound name \<Rightarrow> ''tool '' @ goQuote name @ '' not found''
      | ToolExecutionFailed name e \<Rightarrow> ''execute '' @ name @ '': '' @ e
      | ToolMarshalFailed e \<Rightarrow> ''marshal tool response: '' @ e)"

definition stepArguments ::
    "('w, 'p) chatEnv \<Rightarrow> chatRequest \<Rightarrow> planStep \<Rightarrow> chatError + string" where
  "stepArguments env req st =
     (if ps_ToolArguments st \<noteq> [] then Inr (ps_ToolArguments st)
      else if \<not> ps_ReadOnly st then Inl (WriteToolNeedsArguments (ps_ToolName st))
      else Inr (buildToolArguments (ce_MarshalObject env) (ps_ToolName st) (req_UserMessage req)))"

definition invocationFor ::
    "chatRequest \<Rightarrow> string \<Rightarrow> string \<Rightarrow> planStep \<Rightarrow> string \<Rightarrow> toolInvocation" where
  "invocationFor req sessionID planID st args =
     \<lparr>inv_RequestID = req_RequestID req, inv_TraceID = req_TraceID req,
      inv_TenantID = req_TenantID req, inv_SessionID = sessionID, inv_TaskID = [],
      inv_PlanID = planID, inv_StepID = ps_StepID st, inv_ToolName = ps_ToolName st,
      inv_ActionClass = actionClassForStep st, inv_RequiresApproval = ps_NeedsApproval st,
      inv_ApprovalGranted = False, inv_Arguments = args, inv_DryRun = False\<rparr>"

fun runRevisedSteps ::
    "('w, 'p) chatEnv \<Rightarrow> chatRequest \<Rightarrow> string \<Rightarrow> string \<Rightarrow> planStep list
     \<Rightarrow> toolResult list \<Rightarrow> toolInvocation list \<Rightarrow> 'w
     \<Rightarrow> (chatError + toolResult list \<times> toolInvocation list) \<times> 'w" where
  "runRevisedSteps env req sid planID [] results ivks w = (Inr (results, ivks), w)"
| "runRevisedSteps env req sid planID (st # steps) results ivks w =
     (if ps_Kind st \<noteq> StepKindTool then runRevisedSteps env req sid planID steps results ivks w
      else case stepArguments env req st of
             Inl err \<Rightarrow> (Inl err, w)
           | Inr args \<Rightarrow>
               let ivk = invocationFor req sid planID st args
               in case Execute (ce_MarshalPayload env) (ce_Registry env) ivk w of
                    (Inl err, w') \<Rightarrow> (Inl (ChatToolError err), w')
                  | (Inr res, w') \<Rightarrow>
                      runRevisedSteps env req sid planID steps (results @ [res]) (ivks @ [ivk]) w')"

definition planInputFor ::
    "('w, 'p) chatEnv \<Rightarrow> chatRequest \<Rightarrow> string \<Rightarrow> string \<Rightarrow> block list \<Rightarrow> planInput" where
  "planInputFor env req traceID sid blocks =
     \<lparr>pin_RequestID = req_RequestID req, pin_TraceID = traceID, pin_TenantID = req_TenantID req,
      pin_SessionID = sid, pin_Mode = req_Mode req, pin_UserMessage = req_UserMessage req,
      pin_Context = blocks,
      pin_AvailableTools =
        toPlannerToolDescriptors (ListTools (ce_ToolOrder env) (ce_Registry env)),
      pin_TenantPolicy = req_TenantPolicy req, pin_UserPermissions = []\<rparr>"

text \<open>The planner drops the placeholder provider.\<close>

definition plannerLLM :: "llmProvider \<Rightarrow> string \<Rightarrow> (string \<Rightarrow> string + string) option" where
  "plannerLLM provider stage =
     (case provider of
        LiveProvider ask \<Rightarrow> Some (\<lambda>prompt. case ask stage 0 prompt of
            Reply content \<Rightarrow> Inr content
          | CallFailed err \<Rightarrow> Inl err
          | Cancelled \<Rightarrow> Inl ''context canceled'')
      | _ \<Rightarrow> None)"

definition failedResult :: "string \<Rightarrow> planStep \<Rightarrow> toolError \<Rightarrow> toolResult" where
  "failedResult planID st err =
     \<lparr>tr_ToolCallID = toolCallRef ''toolcall'' planID (ps_StepID st), tr_ToolName = ps_ToolName st,
      tr_Status = ToolFailed, tr_OutputSummary = toolErrorText err, tr_StructuredData = [],
      tr_ErrorCode = [], tr_ErrorMessage = [], tr_ApprovalRef = [],
      tr_AuditRef = toolCallRef ''audit'' planID (ps_StepID st)\<rparr>"

definition replanInputFor ::
    "('w, 'p) chatEnv \<Rightarrow> chatRequest \<Rightarrow> string \<Rightarrow> executionPlan \<Rightarrow> toolResult list
     \<Rightarrow> planStep \<Rightarrow> toolError \<Rightarrow> replanInput" where
  "replanInputFor env req sid plan results st err =
     \<lparr>rpi_OriginalPlan = plan,
      rpi_ExecutedSteps = buildExecutedSteps results @
        [\<lparr>xs_StepID = ps_StepID st, xs_Kind = ps_Kind st, xs_ToolName = ps_ToolName st,
          xs_Status = ToolFailed, xs_Summary = toolErrorText err\<rparr>],
      rpi_Input = planInputFor env req [] sid [],
      rpi_ReplanReason = ''tool '' @ ps_ToolName st @ '' failed: '' @ toolErrorText err\<rparr>"

text \<open>
  The replan count is zero whenever the loop reaches a step, because the branch that raises it
  leaves the loop; so the bound of one attempt needs no counter here.
\<close>

fun executeToolSteps ::
    "('w, 'p) chatEnv \<Rightarrow> chatRequest \<Rightarrow> string \<Rightarrow> executionPlan \<Rightarrow> planStep list
     \<Rightarrow> toolResult list \<Rightarrow> toolInvocation list \<Rightarrow> 'w
     \<Rightarrow> (chatError + toolResult list \<times> toolInvocation list \<times> nat \<times> executionPlan) \<times> 'w" where
  "executeToolSteps env req sid plan [] results ivks w = (Inr (results, ivks, 0, plan), w)"
| "executeToolSteps env req sid plan (st # steps) results ivks w =
     (if ps_Kind st \<noteq> StepKindTool then executeToolSteps env req sid plan steps results ivks w
      else case stepArguments env req st of
        Inl err \<Rightarrow> (Inl err, w)
      | Inr args \<Rightarrow>
          let ivk = invocationFor req sid (ep_PlanID plan) st args
          in case Execute (ce_MarshalPayload env) (ce_Registry env) ivk w of
               (Inr res, w') \<Rightarrow>
                 executeToolSteps env req sid plan steps (results @ [res]) (ivks @ [ivk]) w'
             | (Inl err, w') \<Rightarrow>
                 if ep_Source plan = PlanSourceKeyword then (Inl (ChatToolError err), w')
                 else case Replan (ce_MarshalTool env) (plannerLLM (ce_Provider env) ''replan'')
                             (ce_UnmarshalPlan env)
                             (replanInputFor env req sid plan results st err) of
                        Inl _ \<Rightarrow> (Inl (ChatToolError err), w')
                      | Inr revised \<Rightarrow>
                          (case runRevisedSteps env req sid (ep_PlanID revised) (ep_Steps revised)
                                  (results @ [failedResult (ep_PlanID plan) st err]) (ivks @ [ivk]) w' of
                             (Inl e, w'') \<Rightarrow> (Inl e, w'')
                           | (Inr (results', ivks'), w'') \<Rightarrow> (Inr (results', ivks', 1, revised), w'')))"

fun firstApprovalInvocation :: "toolInvocation list \<Rightarrow> toolResult list \<Rightarrow> toolInvocation option" where
  "firstApprovalInvocation [] results = None"
| "firstApprovalInvocation (ivk # ivks) results =
     (if \<exists>res \<in> set results. tr_ToolName res = inv_ToolName ivk \<and> tr_Status res = ToolApprovalRequired
      then Some ivk else firstApprovalInvocation ivks results)"

subsection \<open>Retrieval and completion\<close>

definition laterCalls :: "llmProvider \<Rightarrow> llmProvider" where
  "laterCalls provider =
     (case provider of LiveProvider ask \<Rightarrow> LiveProvider (\<lambda>stage. ask (''again-'' @ stage)) | p \<Rightarrow> p)"

definition emptyRetrieval :: retrievalResult where
  "emptyRetrieval = \<lparr>rres_RequestID = [], rres_PlanID = [], rres_QueryUsed = [],
     rres_EvidenceBlocks = [], rres_CoverageScore = 0, rres_MissingQuestions = []\<rparr>"

definition refineEvidence ::
    "('w, 'p) chatEnv \<Rightarrow> llmProvider \<Rightarrow> string \<Rightarrow> evidenceBlock list \<Rightarrow> evidenceBlock list" where
  "refineEvidence env provider message blocks =
     (let reranked = (case provider of
              LiveProvider _ \<Rightarrow> Rerank (ce_ParseFloat env) provider message blocks
            | _ \<Rightarrow> blocks);
          compressed = Compress provider message reranked;
          filtered = fst (CRAG_Filter provider message compressed)
      in ReorderLostInTheMiddle filtered)"

definition retrieveEvidence ::
    "('w, 'p) chatEnv \<Rightarrow> llmProvider \<Rightarrow> chatRequest \<Rightarrow> string \<Rightarrow> string \<Rightarrow> string + retrievalResult" where
  "retrieveEvidence env provider req sid planID =
     (let message = req_UserMessage req;
          rewritten = HyDE_Rewrite provider message;
          hydeQuery = (if rewritten \<noteq> [] then rewritten else message)
      in case ce_Search env
               \<lparr>rr_RequestID = req_RequestID req, rr_TraceID = req_TraceID req,
                rr_TenantID = req_TenantID req, rr_SessionID = sid, rr_PlanID = planID,
                rr_QueryText = message, rr_RewrittenQuery = hydeQuery,
                rr_PermissionsScope = [], rr_TopK = 0, rr_UseRerank = False\<rparr> of
           Inl err \<Rightarrow> Inl err
         | Inr res \<Rightarrow>
             Inr (res\<lparr>rres_EvidenceBlocks :=
               refineEvidence env provider message (rres_EvidenceBlocks res)\<rparr>))"

definition chatSystemPrompt :: string where
  "chatSystemPrompt = ''You are OpsPilot, an enterprise operations assistant. Answer the user's question based on the provided context. If retrieval evidence is available, cite it. If tool results are available, incorporate them. Be concise and accurate. If you don't have enough information to answer, say so clearly.''"

definition blockSection :: "block \<Rightarrow> string" where
  "blockSection b =
     (let gap = newline @ newline; kind = bk_Kind b in
      if kind = BlockKindRetrievalEvidence then gap @ ''Evidence: '' @ bk_Content b
      else if kind = BlockKindToolResult then gap @ ''Tool result: '' @ bk_Content b
      else if kind = BlockKindSessionSummary then gap @ ''Conversation summary: '' @ bk_Content b
      else if kind = BlockKindUserProfile then gap @ ''User context: '' @ bk_Content b
      else if kind = BlockKindTaskScratchpad then gap @ ''Task notes: '' @ bk_Content b
      else if kind = BlockKindRecentTurns
      then gap @ ''Recent conversation:'' @ newline @ bk_Content b
      else [])"

definition completionSystemPrompt :: "block list \<Rightarrow> string" where
  "completionSystemPrompt blocks = chatSystemPrompt @ concat (map blockSection blocks)"

text \<open>The system prompt and the user message reach the provider one after the other.\<close>

definition assistantContent :: "llmProvider \<Rightarrow> chatRequest \<Rightarrow> block list \<Rightarrow> string" where
  "assistantContent provider req blocks =
     (if provider = NoProvider then PlaceholderAssistantResponse
      else case Complete provider ''complete'' 0
                  (completionSystemPrompt blocks @ newline @ newline @ req_UserMessage req) of
             Reply content \<Rightarrow> if content \<noteq> [] then content else PlaceholderAssistantResponse
           | _ \<Rightarrow> PlaceholderAssistantResponse)"

subsection \<open>Events\<close>

definition streamEvent :: "string \<Rightarrow> (string \<times> string) list \<Rightarrow> streamEvent" where
  "streamEvent name data = \<lparr>ev_Name = name, ev_Data = data\<rparr>"

definition buildEvents ::
    "chatRequest \<Rightarrow> string \<Rightarrow> executionPlan \<Rightarrow> retrievalResult \<Rightarrow> toolResult list
     \<Rightarrow> task option \<Rightarrow> string \<Rightarrow> streamEvent list" where
  "buildEvents req sid plan retrieval results promoted content =
     [streamEvent ''meta'' [(''request_id'', req_RequestID req), (''trace_id'', req_TraceID req),
        (''session_id'', sid)],
      streamEvent ''plan'' [(''plan_id'', ep_PlanID plan), (''intent'', ep_Intent plan),
        (''requires_retrieval'', goBool (ep_RequiresRetrieval plan)),
        (''requires_tool'', goBool (ep_RequiresTool plan)),
        (''requires_workflow'', goBool (ep_RequiresWorkflow plan)),
        (''source'', ep_Source plan), (''prompt_version'', ep_PromptVersion plan)]] @
     (if ep_RequiresRetrieval plan
      then [streamEvent ''retrieval'' [(''query_used'', rres_QueryUsed retrieval),
              (''evidence_count'', showNat (length (rres_EvidenceBlocks retrieval)))]] else []) @
     map (\<lambda>r. streamEvent ''tool'' [(''tool_name'', tr_ToolName r), (''status'', tr_Status r)]) results @
     (case promoted of
        None \<Rightarrow> []
      | Some t \<Rightarrow> [streamEvent ''task_promoted'' [(''task_id'', task_ID t),
                   (''status'', task_Status t), (''reason'', task_Reason t)]]) @
     [streamEvent ''state'' [(''state'', ''completed'')],
      streamEvent ''done'' [(''session_id'', sid), (''content'', content)]]"

subsection \<open>Promotion\<close>

definition promoteRequestFor ::
    "chatRequest \<Rightarrow> string \<Rightarrow> criticVerdict \<Rightarrow> toolInvocation list \<Rightarrow> toolResult list
     \<Rightarrow> promoteRequest" where
  "promoteRequestFor req sid verdict ivks results =
     (let needs = cv_Verdict verdict = VerdictPromoteWorkflow;
          gated = (if needs then firstApprovalInvocation ivks results else None)
      in \<lparr>prq_RequestID = req_RequestID req, prq_TenantID = req_TenantID req,
          prq_SessionID = sid,
          prq_TaskType = (if needs then TaskTypeApprovedToolExecution else TaskTypeReportGeneration),
          prq_Reason = (if needs then PromotionReasonApprovalRequired
                        else PromotionReasonWorkflowRequired),
          prq_RequiresApproval = needs,
          prq_ToolName = (case gated of None \<Rightarrow> [] | Some i \<Rightarrow> inv_ToolName i),
          prq_ToolArguments = (case gated of None \<Rightarrow> [] | Some i \<Rightarrow> inv_Arguments i)\<rparr>)"

definition promotes :: "chatRequest \<Rightarrow> executionPlan \<Rightarrow> criticVerdict \<Rightarrow> bool" where
  "promotes req plan verdict \<longleftrightarrow>
     req_Mode req \<noteq> ''eval''
     \<and> (ep_RequiresWorkflow plan \<or> cv_Verdict verdict = VerdictPromoteWorkflow)"

subsection \<open>Handle\<close>

definition chatContexts :: contextService where
  "chatContexts = newContextService
     \<lparr>cc_MaxBlocks = 0, cc_Budget = 0, cc_PlannerBudget = 0, cc_RetrievalBudget = 0,
      cc_CriticBudget = 0, cc_SummaryTurnThreshold = 0\<rparr> None (Some KeywordScoreBlocks)"

definition buildInputFor ::
    "chatRequest \<Rightarrow> string \<Rightarrow> message list \<Rightarrow> evidenceBlock list \<Rightarrow> toolResult list \<Rightarrow> buildInput" where
  "buildInputFor req sid messages blocks results =
     \<lparr>bi_RequestID = req_RequestID req, bi_SessionID = sid, bi_TenantID = req_TenantID req,
      bi_UserID = req_UserID req, bi_Mode = req_Mode req, bi_UserMessage = req_UserMessage req,
      bi_RecentTurns = toTurns messages, bi_SessionSummary = [], bi_TaskScratchpad = [],
      bi_RetrievalResults = toEvidenceSnippets blocks,
      bi_ToolResults = toToolResultSnippets results\<rparr>"

text \<open>
  The part of a request between the recording of the user message and the promotion: planning,
  both retrievals, the tool steps, the completion and the review.  It touches nothing but the
  tool world.
\<close>

record draft =
  dr_Context :: buildResult
  dr_Plan :: executionPlan
  dr_Retrieval :: retrievalResult
  dr_ToolResults :: "toolResult list"
  dr_Invocations :: "toolInvocation list"
  dr_ReplanCount :: nat
  dr_Content :: string
  dr_Verdict :: criticVerdict

definition planFor ::
    "('w, 'p) chatEnv \<Rightarrow> chatRequest \<Rightarrow> string \<Rightarrow> message list \<Rightarrow> buildResult \<times> executionPlan" where
  "planFor env req sid messages =
     (let assembled = Build chatContexts (buildInputFor req sid messages [] [])
      in (assembled,
          Plan (ce_MarshalTool env) (plannerLLM (ce_Provider env) ''plan'') (ce_UnmarshalPlan env)
            (planInputFor env req (req_TraceID req) sid (br_Planner assembled))))"

definition firstRetrieval ::
    "('w, 'p) chatEnv \<Rightarrow> chatRequest \<Rightarrow> string \<Rightarrow> executionPlan \<Rightarrow> string + retrievalResult" where
  "firstRetrieval env req sid plan =
     (if ep_RequiresRetrieval plan
      then retrieveEvidence env (ce_Provider env) req sid (ep_PlanID plan)
      else Inr emptyRetrieval)"

definition secondRetrieval ::
    "('w, 'p) chatEnv \<Rightarrow> chatRequest \<Rightarrow> string \<Rightarrow> executionPlan \<Rightarrow> nat \<Rightarrow> retrievalResult
     \<Rightarrow> retrievalResult" where
  "secondRetrieval env req sid active replanCount retrieval =
     (if 0 < replanCount \<and> ep_RequiresRetrieval active \<and> rres_EvidenceBlocks retrieval = []
      then (case retrieveEvidence env (laterCalls (ce_Provider env)) req sid (ep_PlanID active) of
              Inl _ \<Rightarrow> emptyRetrieval | Inr r \<Rightarrow> r)
      else retrieval)"

definition draftAnswer ::
    "('w, 'p) chatEnv \<Rightarrow> chatRequest \<Rightarrow> string \<Rightarrow> message list \<Rightarrow> 'w \<Rightarrow> (chatError + draft) \<times> 'w" where
  "draftAnswer env req sid messages w =
     (let (assembled, plan) = planFor env req sid messages in
      case firstRetrieval env req sid plan of
        Inl err \<Rightarrow> (Inl (ChatSearchError err), w)
      | Inr retrieval0 \<Rightarrow>
          (case (if req_Mode req = ''eval'' then (Inr ([], [], 0, plan), w)
                 else executeToolSteps env req sid plan (ep_Steps plan) [] [] w) of
             (Inl err, w') \<Rightarrow> (Inl err, w')
           | (Inr (results, ivks, replanCount, active), w') \<Rightarrow>
               let retrieval = secondRetrieval env req sid active replanCount retrieval0;
                   completion = Build chatContexts
                     (buildInputFor req sid messages (rres_EvidenceBlocks retrieval) results);
                   content = assistantContent (ce_Provider env) req (br_Critic completion);
                   verdict = Review (ce_UnmarshalCritic env) (ce_Provider env)
                     \<lparr>ci_Plan = active, ci_Retrieval = Some retrieval, ci_ToolResults = results,
                      ci_DraftAnswer = content\<rparr>
               in (Inr \<lparr>dr_Context = assembled, dr_Plan = active, dr_Retrieval = retrieval,
                       dr_ToolResults = results, dr_Invocations = ivks,
                       dr_ReplanCount = replanCount, dr_Content = content,
                       dr_Verdict = verdict\<rparr>, w')))"

definition openSession ::
    "chatRequest \<Rightarrow> chatClock \<Rightarrow> sessionState \<Rightarrow> string \<times> sessionState" where
  "openSession req ck ss =
     (if req_SessionID req = []
      then (let (x, ss') = CreateSession (ck_Created ck) (req_TenantID req) (req_UserID req) ss
            in (se_ID x, ss'))
      else (req_SessionID req, ss))"

definition promoteDraft ::
    "('w, 'p) chatEnv \<Rightarrow> chatRequest \<Rightarrow> chatClock \<Rightarrow> string \<Rightarrow> draft \<Rightarrow> workflowService
     \<Rightarrow> (chatError + task option) \<times> workflowService" where
  "promoteDraft env req ck sid d flow =
     (if promotes req (dr_Plan d) (dr_Verdict d)
      then (case Promote (ce_Version env) (ce_Starter env) (ck_Promoted ck) (ck_StartFailed ck)
                   (promoteRequestFor req sid (dr_Verdict d) (dr_Invocations d) (dr_ToolResults d)) flow of
              (Inl err, flow') \<Rightarrow> (Inl (ChatPromoteError err), flow')
            | (Inr t, flow') \<Rightarrow> (Inr (Some t), flow'))
      else (Inr None, flow))"

definition handleResultFor ::
    "chatRequest \<Rightarrow> string \<Rightarrow> draft \<Rightarrow> task option \<Rightarrow> handleResult" where
  "handleResultFor req sid d promoted =
     \<lparr>hr_SessionID = sid, hr_Context = dr_Context d, hr_Plan = dr_Plan d,
      hr_Retrieval = dr_Retrieval d, hr_ToolResults = dr_ToolResults d,
      hr_Critic = dr_Verdict d, hr_PromotedTask = promoted, hr_ReplanCount = dr_ReplanCount d,
      hr_Events = buildEvents req sid (dr_Plan d) (dr_Retrieval d) (dr_ToolResults d) promoted
        (dr_Content d)\<rparr>"

definition Handle ::
    "('w, 'p) chatEnv \<Rightarrow> chatClock \<Rightarrow> chatRequest \<Rightarrow> 'w chatState
     \<Rightarrow> (chatError + handleResult) \<times> 'w chatState" where
  "Handle env ck req s =
     (let (sid, ss0) = openSession req ck (cst_Sessions s) in
      case AppendMessage (ck_UserMessage ck) sid RoleUser (req_UserMessage req) ss0 of
        (Inl err, ss1) \<Rightarrow> (Inl (ChatSessionError err), s\<lparr>cst_Sessions := ss1\<rparr>)
      | (Inr _, ss1) \<Rightarrow>
          (case ListMessages sid ss1 of
             Inl err \<Rightarrow> (Inl (ChatSessionError err), s\<lparr>cst_Sessions := ss1\<rparr>)
           | Inr messages \<Rightarrow>
               (case draftAnswer env req sid messages (cst_World s) of
                  (Inl err, w) \<Rightarrow> (Inl err, s\<lparr>cst_Sessions := ss1, cst_World := w\<rparr>)
                | (Inr d, w) \<Rightarrow>
                    (case promoteDraft env req ck sid d (cst_Workflows s) of
                       (Inl err, flow) \<Rightarrow>
                         (Inl err, s\<lparr>cst_Sessions := ss1, cst_Workflows := flow, cst_World := w\<rparr>)
                     | (Inr promoted, flow) \<Rightarrow>
                         (case AppendMessage (ck_Assistant ck) sid RoleAssistant (dr_Content d) ss1 of
                            (Inl err, ss2) \<Rightarrow>
                              (Inl (ChatSessionError err),
                               s\<lparr>cst_Sessions := ss2, cst_Workflows := flow, cst_World := w\<rparr>)
                          | (Inr _, ss2) \<Rightarrow>
                              (Inr (handleResultFor req sid d promoted),
                               s\<lparr>cst_Sessions := ss2, cst_Workflows := flow, cst_World := w\<rparr>))))))"

end
