(* ===== verification/Tool_Laws.thy ===== *)
theory Tool_Laws
  imports Tools
begin

text \<open>
  What the execution service guarantees about approval, and the correctness of the ticket
  pattern that both the ticket adapter and the chat service search for.
\<close>

subsection \<open>Execution\<close>

text \<open>
  A call that returns a result concerns a registered tool.  Without an approval a call of a
  gated tool acts on nothing, returns no data and carries a reference for the approval.  Every
  other call acts exactly as the executor of the tool does on the arguments, once, and returns
  its encoded payload.
\<close>

theorem Execute_gate:
  assumes "Execute marshal r ivk w = (Inr res, w')"
  shows "\<exists>def. Lookup (inv_ToolName ivk) r = Some def
     \<and> tr_ToolName res = inv_ToolName ivk
     \<and> (if \<not> inv_ApprovalGranted ivk \<and> needsApproval def (inv_RequiresApproval ivk)
        then w' = w \<and> tr_Status res = ToolApprovalRequired \<and> tr_StructuredData res = []
          \<and> tr_ApprovalRef res = ''approval-'' @ inv_PlanID ivk @ ''-'' @ inv_StepID ivk
        else tr_Status res = ToolSucceeded \<and> tr_ApprovalRef res = []
          \<and> (case def_Executor def of
               None \<Rightarrow> w' = w \<and> marshal (def_StubResponse def) = Inr (tr_StructuredData res)
             | Some f \<Rightarrow> \<exists>payload. f (inv_Arguments ivk) w = (Inr payload, w')
                 \<and> marshal payload = Inr (tr_StructuredData res)))"
proof (cases "Lookup (inv_ToolName ivk) r")
  case None
  with assms show ?thesis by (simp add: Execute_def)
next
  case (Some def)
  show ?thesis
  proof (cases "\<not> inv_ApprovalGranted ivk \<and> needsApproval def (inv_RequiresApproval ivk)")
    case True
    with assms Some show ?thesis by (auto simp: Execute_def baseResult_def toolCallRef_def)
  next
    case False
    with assms Some obtain payload summary data where run:
      "runTool def ivk w = (Inr (payload, summary), w')" "marshal payload = Inr data"
      "res = (baseResult ivk)\<lparr>tr_Status := ToolSucceeded, tr_OutputSummary := summary,
               tr_StructuredData := data\<rparr>"
      by (auto simp: Execute_def split: prod.splits sum.splits)
    from run(1,2) have "case def_Executor def of
         None \<Rightarrow> w' = w \<and> marshal (def_StubResponse def) = Inr data
       | Some f \<Rightarrow> \<exists>payload. f (inv_Arguments ivk) w = (Inr payload, w') \<and> marshal payload = Inr data"
      by (auto simp: runTool_def split: option.splits sum.splits prod.splits)
    moreover have "tr_ToolName res = inv_ToolName ivk" "tr_Status res = ToolSucceeded"
      "tr_StructuredData res = data" "tr_ApprovalRef res = []"
      unfolding run(3) by (simp_all add: baseResult_def)
    ultimately show ?thesis using Some False by (cases "def_Executor def") auto
  qed
qed

definition demoRegistry :: "(string list, ticketPayload) toolRegistry" where
  "demoRegistry = NewDefaultRegistry NoStub (SearchExecutor Inr)
     (\<lambda>args log. (Inr NoStub, log @ [args]))"

definition demoCall :: "bool \<Rightarrow> toolInvocation" where
  "demoCall granted = \<lparr>inv_RequestID = [], inv_TraceID = [], inv_TenantID = ''acme'',
     inv_SessionID = [], inv_TaskID = [], inv_PlanID = ''p'', inv_StepID = ''1'',
     inv_ToolName = ''ticket_comment_create'', inv_ActionClass = ActionClassWrite,
     inv_RequiresApproval = False, inv_ApprovalGranted = granted, inv_Arguments = ''{}'',
     inv_DryRun = False\<rparr>"

lemma Execute_gate_witness:
  "Execute (\<lambda>_. Inr ''ok'') demoRegistry (demoCall False) []
     = (Inr ((baseResult (demoCall False))
         \<lparr>tr_Status := ToolApprovalRequired,
          tr_OutputSummary := ''approval required before tool execution'',
          tr_ApprovalRef := ''approval-p-1''\<rparr>), [])
   \<and> (\<exists>def. Lookup ''ticket_comment_create'' demoRegistry = Some def \<and> needsApproval def False)"
proof -
  have run: "Execute (\<lambda>_. Inr ''ok'') demoRegistry (demoCall False) []
     = (Inr ((baseResult (demoCall False))
         \<lparr>tr_Status := ToolApprovalRequired,
          tr_OutputSummary := ''approval required before tool execution'',
          tr_ApprovalRef := ''approval-p-1''\<rparr>), [])"
    by (simp add: Execute_def demoRegistry_def NewDefaultRegistry_def Register_def Lookup_def
        demoCall_def needsApproval_def toolCallRef_def)
  from Execute_gate [OF this] show ?thesis
    using run by (auto simp: demoCall_def split: if_splits)
qed

subsection \<open>The ticket pattern\<close>

text \<open>The pattern as a language, and a match as a split of the text at word boundaries.\<close>

definition ticketText :: "string \<Rightarrow> bool" where
  "ticketText t \<longleftrightarrow>
     (\<exists>letters digits. t = letters @ CHR ''-'' # digits \<and> letters \<noteq> [] \<and> digits \<noteq> []
        \<and> list_all isLetter letters \<and> list_all isDigit digits)"

definition ticketMatch :: "string \<Rightarrow> string \<Rightarrow> string \<Rightarrow> string \<Rightarrow> bool" where
  "ticketMatch s pre t post \<longleftrightarrow>
     s = pre @ t @ post \<and> ticketText t \<and> (pre = [] \<or> \<not> isWordChar (last pre))
     \<and> (post = [] \<or> \<not> isWordChar (hd post))"

lemma hyphen [simp]: "\<not> isLetter CHR ''-''" "\<not> isWordChar CHR ''-''"
  by (simp_all add: isLetter_def isWordChar_def isDigit_def less_eq_char_def)

lemma word_parts: "isLetter c \<Longrightarrow> isWordChar c" "isDigit c \<Longrightarrow> isWordChar c"
  by (simp_all add: isWordChar_def)

lemma ticketText_nonempty: "ticketText t \<Longrightarrow> t \<noteq> [] \<and> isWordChar (hd t)"
  by (auto simp: ticketText_def word_parts hd_append list_all_iff)

lemma span_all:
  assumes "list_all P xs" "ys = [] \<or> \<not> P (hd ys)"
  shows "takeWhile P (xs @ ys) = xs" "dropWhile P (xs @ ys) = ys"
  using assms by (induction xs) (cases ys; auto)+

lemma ticketAt_iff:
  "ticketAt s = Some t \<longleftrightarrow>
     (\<exists>post. s = t @ post \<and> ticketText t \<and> (post = [] \<or> \<not> isWordChar (hd post)))"
proof
  assume a: "ticketAt s = Some t"
  let ?ls = "takeWhile isLetter s" and ?r = "dropWhile isLetter s"
  let ?ds = "takeWhile isDigit (tl ?r)" and ?post = "dropWhile isDigit (tl ?r)"
  from a have p: "?ls \<noteq> []" "?r \<noteq> []" "hd ?r = CHR ''-''" "?ds \<noteq> []"
    "?post = [] \<or> \<not> isWordChar (hd ?post)" "t = ?ls @ CHR ''-'' # ?ds"
    by (simp_all add: ticketAt_def Let_def split: if_splits)
  have "s = ?ls @ ?r" by simp
  also have "?r = CHR ''-'' # tl ?r" using p(2,3) by (metis list.collapse)
  also have "tl ?r = ?ds @ ?post" by simp
  finally have "s = t @ ?post" using p(6) by simp
  moreover have "ticketText t"
    unfolding ticketText_def using p(1,4,6)
    by (intro exI [of _ ?ls] exI [of _ ?ds]) (auto simp: list_all_iff dest: set_takeWhileD)
  ultimately show "\<exists>post. s = t @ post \<and> ticketText t \<and> (post = [] \<or> \<not> isWordChar (hd post))"
    using p(5) by blast
next
  assume "\<exists>post. s = t @ post \<and> ticketText t \<and> (post = [] \<or> \<not> isWordChar (hd post))"
  then obtain letters digits post where
    s: "s = letters @ CHR ''-'' # digits @ post" "t = letters @ CHR ''-'' # digits"
    and n: "letters \<noteq> []" "digits \<noteq> []" "list_all isLetter letters" "list_all isDigit digits"
    and post: "post = [] \<or> \<not> isWordChar (hd post)"
    by (auto simp: ticketText_def)
  have "takeWhile isLetter s = letters" "dropWhile isLetter s = CHR ''-'' # digits @ post"
    unfolding s(1) by (rule span_all; simp add: n)+
  moreover have "takeWhile isDigit (digits @ post) = digits" "dropWhile isDigit (digits @ post) = post"
    by (rule span_all; use n post word_parts in blast)+
  ultimately show "ticketAt s = Some t" using n post s(2) by (auto simp: ticketAt_def Let_def)
qed

lemma ticketMatch_Cons:
  assumes "s = c # cs"
  shows "ticketMatch s pre t post \<longleftrightarrow>
     (pre = [] \<and> ticketAt s = Some t \<and> s = t @ post)
   \<or> (\<exists>pre'. pre = c # pre' \<and> (pre' = [] \<longrightarrow> \<not> isWordChar c) \<and> ticketMatch cs pre' t post)"
  using assms by (cases pre) (auto simp: ticketMatch_def ticketAt_iff)

lemma findTicketFrom_spec:
  "if findTicketFrom inWord s = []
   then \<forall>pre t post. ticketMatch s pre t post \<longrightarrow> inWord \<and> pre = []
   else \<exists>pre post. ticketMatch s pre (findTicketFrom inWord s) post \<and> (pre = [] \<longrightarrow> \<not> inWord)
     \<and> (\<forall>pre' t' post'. ticketMatch s pre' t' post' \<longrightarrow> inWord \<and> pre' = [] \<or> length pre \<le> length pre')"
proof (induction s arbitrary: inWord)
  case Nil
  then show ?case by (auto simp: ticketMatch_def dest: ticketText_nonempty)
next
  case (Cons c cs)
  show ?case
  proof (cases "if inWord then None else ticketAt (c # cs)")
    case (Some t)
    then have t: "\<not> inWord" "ticketAt (c # cs) = Some t" by (auto split: if_splits)
    then obtain post where "c # cs = t @ post" "ticketText t" "post = [] \<or> \<not> isWordChar (hd post)"
      using ticketAt_iff by blast
    moreover from this have "ticketMatch (c # cs) [] t post" by (simp add: ticketMatch_def)
    moreover have "t \<noteq> []" using \<open>ticketText t\<close> ticketText_nonempty by blast
    moreover have "findTicketFrom inWord (c # cs) = t" using Some by simp
    ultimately show ?thesis using t(1) by (simp only: if_False) (intro exI [of _ "[]"] exI, force)
  next
    case None
    then have r: "findTicketFrom inWord (c # cs) = findTicketFrom (isWordChar c) cs" by simp
    have first: "inWord" if "ticketMatch (c # cs) [] t post" for t post
      using that None by (auto simp: ticketMatch_Cons [OF refl] split: if_splits)
    have later: "\<exists>pre'. pre = c # pre' \<and> ticketMatch cs pre' t post \<and> \<not> (isWordChar c \<and> pre' = [])"
      if "ticketMatch (c # cs) pre t post" "pre \<noteq> []" for pre t post
      using that by (auto simp: ticketMatch_Cons [OF refl])
    show ?thesis
    proof (cases "findTicketFrom (isWordChar c) cs = []")
      case True
      with Cons [of "isWordChar c"]
      have none: "\<forall>pre t post. ticketMatch cs pre t post \<longrightarrow> isWordChar c \<and> pre = []" by simp
      have "inWord \<and> pre = []" if "ticketMatch (c # cs) pre t post" for pre t post
        using that first later none by (cases "pre = []") blast+
      then show ?thesis using r True by simp
    next
      case False
      with Cons [of "isWordChar c"] obtain pre post where p:
        "ticketMatch cs pre (findTicketFrom (isWordChar c) cs) post" "pre = [] \<longrightarrow> \<not> isWordChar c"
        "\<forall>pre' t' post'. ticketMatch cs pre' t' post'
           \<longrightarrow> isWordChar c \<and> pre' = [] \<or> length pre \<le> length pre'" by auto
      have "ticketMatch (c # cs) (c # pre) (findTicketFrom (isWordChar c) cs) post"
        using p(1,2) by (simp add: ticketMatch_Cons [OF refl])
      moreover have "inWord \<and> pre' = [] \<or> length (c # pre) \<le> length pre'"
        if m: "ticketMatch (c # cs) pre' t' post'" for pre' t' post'
      proof (cases "pre' = []")
        case True
        with m first show ?thesis by blast
      next
        case False
        with later [OF m] obtain q where "pre' = c # q" "ticketMatch cs q t' post'"
          "\<not> (isWordChar c \<and> q = [])" by blast
        with p(3) show ?thesis by auto
      qed
      ultimately show ?thesis unfolding r using False
        by (simp only: if_False) (intro exI [of _ "c # pre"] exI [of _ post] conjI allI impI; blast)
    qed
  qed
qed

text \<open>
  The identifier that the ticket pattern finds is its leftmost match at word boundaries, and
  nothing is found exactly when there is no match.
\<close>

theorem findTicketID_leftmost:
  "if findTicketID s = [] then \<nexists>pre t post. ticketMatch s pre t post
   else \<exists>pre post. ticketMatch s pre (findTicketID s) post
     \<and> (\<forall>pre' t' post'. ticketMatch s pre' t' post' \<longrightarrow> length pre \<le> length pre')"
  using findTicketFrom_spec [of False s] by (auto simp: findTicketID_def split: if_splits)

lemma findTicketID_leftmost_witness:
  "\<exists>pre post. ticketMatch ''B-1x c-2'' pre ''c-2'' post"
proof -
  have "findTicketID ''B-1x c-2'' = ''c-2''" by code_simp
  then show ?thesis using findTicketID_leftmost [of "''B-1x c-2''"] by auto
qed

end
