(* ===== verification/Retrieval_Laws.thy ===== *)
theory Retrieval_Laws
  imports Retrieval "HOL-Library.Sublist"
begin

text \<open>
  Correctness of the retrieval stages: search, re-ranking, the relevance filter and the
  reordering.  The comparator of the search is an instance of \<open>weak_order\<close>; so is the comparator
  of the re-ranking as long as no score is NaN.
\<close>

subsection \<open>Search\<close>

interpretation evidence_order: weak_order evidenceLess
proof
  fix x y z :: evidenceBlock
  show "evidenceLess x y \<Longrightarrow> \<not> evidenceLess y x"
    by (auto simp: evidenceLess_def split: if_splits)
  show "evidenceLess x z \<Longrightarrow> evidenceLess x y \<or> evidenceLess y z"
    by (cases "eb_Score x" "eb_Score y" rule: linorder_cases;
        cases "eb_Score y" "eb_Score z" rule: linorder_cases)
      (auto simp: evidenceLess_def)
qed

lemma not_evidenceLess_score: "\<not> evidenceLess b a \<Longrightarrow> eb_Score b \<le> eb_Score a"
  by (auto simp: evidenceLess_def split: if_splits)

text \<open>A block without the two fields that the search fills in.\<close>

definition unlabelled :: "evidenceBlock \<Rightarrow> evidenceBlock" where
  "unlabelled b = b\<lparr>eb_CitationLabel := [], eb_PermissionsScope := []\<rparr>"

lemma unlabelled_labelled [simp]: "unlabelled (labelled t i b) = unlabelled b"
  by (simp add: unlabelled_def labelled_def)

lemma labelled_simps [simp]:
  "eb_Score (labelled t i b) = eb_Score b" "eb_TenantID (labelled t i b) = eb_TenantID b"
  "eb_EvidenceID (labelled t i b) = eb_EvidenceID b"
  "eb_CitationLabel (labelled t i b) \<noteq> []" "eb_PermissionsScope (labelled t i b) \<noteq> []"
  by (simp_all add: labelled_def)

lemma map_zip_index: "(\<And>i x. f (i, x) = g x) \<Longrightarrow> map f (zip [0..<length xs] xs) = map g xs"
  by (rule nth_equalityI) auto

lemma scoredHits_mem:
  "b \<in> set (scoredHits catalog req) \<Longrightarrow> eb_TenantID b = rr_TenantID req \<and> 0 < eb_Score b"
  by (auto simp: scoredHits_def Let_def split: if_splits)

lemma scoredHits_tenant:
  "scoredHits (filter (\<lambda>c. eb_TenantID c = rr_TenantID req) catalog) req = scoredHits catalog req"
  by (induction catalog) (simp_all add: scoredHits_def)

lemma Search_blocks:
  "rres_EvidenceBlocks (Search catalog req) =
     (let cut = take (normalizeTopK (rr_TopK req)) (goSort evidenceLess (scoredHits catalog req))
      in map (\<lambda>(i, b). labelled (rr_TenantID req) i b) (zip [0..<length cut] cut))"
  by (simp add: Search_def Let_def)

lemma set_map_labelled:
  "b \<in> set (map (\<lambda>(i, x). labelled t i x) (zip [0..<length xs] xs)) \<Longrightarrow> \<exists>i. \<exists>x \<in> set xs. b = labelled t i x"
  by (auto dest: set_zip_rightD)

text \<open>
  A search returns the best hits of the tenant up to the limit, which is at most twelve:
  the blocks come in descending order of their score, no hit that was left out scores higher,
  every block belongs to the tenant, matches the query and has a citation label and a scope.
  Documents of other tenants cannot influence the result at all.
\<close>

theorem Search_correct:
  assumes "bs = rres_EvidenceBlocks (Search catalog req)"
  shows "length bs = min (normalizeTopK (rr_TopK req)) (length (scoredHits catalog req))
    \<and> length bs \<le> 12
    \<and> (\<exists>rest. mset (map unlabelled bs) + mset (map unlabelled rest)
             = mset (map unlabelled (scoredHits catalog req))
         \<and> (\<forall>b \<in> set bs. \<forall>d \<in> set rest. eb_Score d \<le> eb_Score b))
    \<and> sorted_wrt (\<lambda>a b. eb_Score a \<ge> eb_Score b) bs
    \<and> (\<forall>b \<in> set bs. eb_TenantID b = rr_TenantID req \<and> 0 < eb_Score b
         \<and> eb_CitationLabel b \<noteq> [] \<and> eb_PermissionsScope b \<noteq> [])
    \<and> Search (filter (\<lambda>c. eb_TenantID c = rr_TenantID req) catalog) req = Search catalog req"
proof -
  let ?hits = "scoredHits catalog req" and ?n = "normalizeTopK (rr_TopK req)"
  let ?ranked = "goSort evidenceLess ?hits"
  let ?cut = "take ?n ?ranked" and ?rest = "drop ?n ?ranked"
  have bs: "bs = map (\<lambda>(i, b). labelled (rr_TenantID req) i b) (zip [0..<length ?cut] ?cut)"
    using assms by (simp add: Search_blocks Let_def)
  have n: "?n \<le> 12" by (auto simp: normalizeTopK_def)
  have len: "length bs = min ?n (length ?hits)" by (simp add: bs)
  have scores: "map eb_Score bs = map eb_Score ?cut" "map unlabelled bs = map unlabelled ?cut"
    unfolding bs map_map by (rule map_zip_index; simp)+
  have from_cut: "\<exists>i. \<exists>x \<in> set ?cut. b = labelled (rr_TenantID req) i x" if "b \<in> set bs" for b
    using that unfolding bs by (rule set_map_labelled)
  have "mset (map unlabelled bs) + mset (map unlabelled ?rest) = mset (map unlabelled ?hits)"
    unfolding scores(2) by (metis append_take_drop_id mset_append mset_goSort mset_map map_append)
  moreover have "eb_Score d \<le> eb_Score b" if m: "b \<in> set bs" "d \<in> set ?rest" for b d
  proof -
    obtain i x where x: "x \<in> set ?cut" "b = labelled (rr_TenantID req) i x"
      using from_cut [OF m(1)] by blast
    then have "\<not> evidenceLess d x" using evidence_order.goSort_split_weak m(2) by blast
    then show ?thesis using x(2) not_evidenceLess_score by simp
  qed
  ultimately have split: "\<exists>rest. mset (map unlabelled bs) + mset (map unlabelled rest)
        = mset (map unlabelled ?hits) \<and> (\<forall>b \<in> set bs. \<forall>d \<in> set rest. eb_Score d \<le> eb_Score b)"
    by blast
  have "sorted_wrt (\<lambda>a b. \<not> evidenceLess b a) ?cut"
    using evidence_order.goSort_weak by (rule sorted_wrt_take)
  then have "sorted_wrt (\<lambda>a b. a \<ge> b) (map eb_Score bs)"
    unfolding scores(1) sorted_wrt_map by (rule sorted_wrt_mono_rel [rotated]) (rule not_evidenceLess_score)
  then have sorted: "sorted_wrt (\<lambda>a b. eb_Score a \<ge> eb_Score b) bs" by (simp add: sorted_wrt_map)
  have fields: "eb_TenantID b = rr_TenantID req \<and> 0 < eb_Score b
      \<and> eb_CitationLabel b \<noteq> [] \<and> eb_PermissionsScope b \<noteq> []" if "b \<in> set bs" for b
    using from_cut [OF that] by (auto dest!: in_set_takeD scoredHits_mem)
  have "Search (filter (\<lambda>c. eb_TenantID c = rr_TenantID req) catalog) req = Search catalog req"
    by (simp add: Search_def scoredHits_tenant)
  with len n split sorted fields show ?thesis by auto
qed

definition demoEvidence :: "string \<Rightarrow> string \<Rightarrow> string \<Rightarrow> evidenceBlock" where
  "demoEvidence i tenant snippet = zeroEvidence\<lparr>eb_EvidenceID := i, eb_TenantID := tenant,
     eb_Snippet := snippet\<rparr>"

definition demoRequest :: retrievalRequest where
  "demoRequest = \<lparr>rr_RequestID = [], rr_TraceID = [], rr_TenantID = ''a'', rr_SessionID = [],
     rr_PlanID = [], rr_QueryText = ''vp'', rr_RewrittenQuery = [], rr_PermissionsScope = [],
     rr_TopK = 1, rr_UseRerank = False\<rparr>"

lemma Search_correct_witness:
  "list_all (\<lambda>b. eb_TenantID b = ''a'')
     (rres_EvidenceBlocks (Search [demoEvidence ''2'' ''b'' ''vp'', demoEvidence ''1'' ''a'' ''vp''] demoRequest))"
  using Search_correct [OF refl, of "[demoEvidence ''2'' ''b'' ''vp'', demoEvidence ''1'' ''a'' ''vp'']" demoRequest]
  by (simp add: demoRequest_def list_all_iff)

subsection \<open>Reordering\<close>

text \<open>The slot that receives the block of rank \<open>k\<close>, counted from zero.\<close>

definition slot :: "nat \<Rightarrow> nat \<Rightarrow> nat" where
  "slot n k = (if even k then k div 2 else n - 1 - k div 2)"

lemma slot_less: "k < n \<Longrightarrow> slot n k < n"
  by (auto simp: slot_def)

lemma slot_inj:
  assumes "j < k" "k < n"
  shows "slot n j \<noteq> slot n k"
  using assms by (auto simp: slot_def elim!: evenE oddE)

lemma slot_even: "even k \<Longrightarrow> (k + 1) div 2 = k div 2 \<and> slot n k = k div 2"
  by (auto simp: slot_def elim!: evenE)

lemma slot_odd: "odd k \<Longrightarrow> (k + 1) div 2 = k div 2 + 1 \<and> slot n k = n - 1 - k div 2"
  by (auto simp: slot_def elim!: oddE)

text \<open>The slots of the blocks read so far are filled; \<open>left\<close> and \<open>right\<close> are the next ones.\<close>

lemma reorderLoop_spec:
  assumes "blocks = pre @ bs" "n = length blocks" "i = length pre" "length result = n"
    and "left = int ((i + 1) div 2)" "right = int n - 1 - int (i div 2)"
    and "\<forall>k < i. result ! slot n k = blocks ! k"
  shows "length (reorderLoop i bs result left right) = n
    \<and> (\<forall>k < n. reorderLoop i bs result left right ! slot n k = blocks ! k)"
  using assms
proof (induction i bs result left right arbitrary: pre rule: reorderLoop.induct)
  case (1 i result left right)
  then show ?case by simp
next
  case (2 i b bs result left right)
  have i: "i < n" "blocks ! i = b" using "2.prems"(1-3) by auto
  have filled: "\<forall>k < i + 1. result[slot n i := b] ! slot n k = blocks ! k"
  proof (intro allI impI)
    fix k assume "k < i + 1"
    then consider "k = i" | "k < i" by linarith
    then show "result[slot n i := b] ! slot n k = blocks ! k"
      using i slot_less [OF i(1)] slot_inj [OF _ i(1), of k] "2.prems"(4,7) by cases simp_all
  qed
  have pre: "blocks = (pre @ [b]) @ bs" "i + 1 = length (pre @ [b])" using "2.prems"(1,3) by simp_all
  show ?case
  proof (cases "i mod 2 = 0")
    case True
    then have e: "even i" by presburger
    have sl: "nat left = slot n i" using slot_even [OF e, of n] "2.prems"(5) by simp
    have "length (reorderLoop (i + 1) bs (result[nat left := b]) (left + 1) right) = n
      \<and> (\<forall>k < n. reorderLoop (i + 1) bs (result[nat left := b]) (left + 1) right ! slot n k = blocks ! k)"
    proof (rule "2.IH"(1) [OF True pre(1) "2.prems"(2) pre(2)])
      show "left + 1 = int ((i + 1 + 1) div 2)" "right = int n - 1 - int ((i + 1) div 2)"
        using e "2.prems"(5,6) by (auto elim!: evenE)
    qed (use "2.prems"(4) filled sl in simp_all)
    with True show ?thesis by simp
  next
    case False
    then have o: "odd i" by presburger
    have "int (slot n i) = right" using slot_odd [OF o, of n] "2.prems"(6) i(1) by linarith
    then have sl: "nat right = slot n i" by simp
    have "length (reorderLoop (i + 1) bs (result[nat right := b]) left (right - 1)) = n
      \<and> (\<forall>k < n. reorderLoop (i + 1) bs (result[nat right := b]) left (right - 1) ! slot n k = blocks ! k)"
    proof (rule "2.IH"(2) [OF False pre(1) "2.prems"(2) pre(2)])
      show "left = int ((i + 1 + 1) div 2)" "right - 1 = int n - 1 - int ((i + 1) div 2)"
        using o "2.prems"(5,6) by (auto elim!: oddE)
    qed (use "2.prems"(4) filled sl in simp_all)
    with False show ?thesis by simp
  qed
qed

lemma mset_nth: "mset xs = image_mset ((!) xs) (mset_set {..<length xs})"
  by (metis atLeast0LessThan map_nth mset_map mset_upt)

lemma ReorderLostInTheMiddle_slots:
  assumes "n = length blocks" "out = ReorderLostInTheMiddle blocks"
  shows "length out = n \<and> mset out = mset blocks \<and> (\<forall>k < n. out ! slot n k = blocks ! k)"
proof -
  have small: "out ! slot n k = blocks ! k" if "length blocks \<le> 2" "k < n" for k
  proof -
    have "slot n k = k" using that assms(1) by (cases "k = 0") (auto simp: slot_def elim!: oddE)
    then show ?thesis using that assms by (simp add: ReorderLostInTheMiddle_def)
  qed
  have slots: "length out = n \<and> (\<forall>k < n. out ! slot n k = blocks ! k)"
  proof (cases "length blocks \<le> 2")
    case True
    then show ?thesis using small assms by (simp add: ReorderLostInTheMiddle_def)
  next
    case False
    then show ?thesis
      using reorderLoop_spec [of blocks "[]" blocks n 0 "replicate n zeroEvidence" 0 "int n - 1"] assms
      by (simp add: ReorderLostInTheMiddle_def)
  qed
  have inj: "inj_on (slot n) {..<n}"
    by (rule inj_onI) (metis lessThan_iff linorder_neqE_nat slot_inj)
  have surj: "slot n ` {..<n} = {..<n}"
    by (rule endo_inj_surj) (use inj slot_less in auto)
  have "mset out = image_mset ((!) out) (mset_set (slot n ` {..<n}))"
    using mset_nth [of out] slots surj by simp
  also have "\<dots> = image_mset (\<lambda>k. out ! slot n k) (mset_set {..<n})"
    by (simp add: image_mset_mset_set [OF inj, symmetric] image_mset.compositionality comp_def)
  also have "\<dots> = image_mset ((!) blocks) (mset_set {..<n})"
    by (rule image_mset_cong) (use slots in simp)
  also have "\<dots> = mset blocks" using mset_nth [of blocks] assms(1) by simp
  finally show ?thesis using slots by simp
qed

lemma mset_ReorderLostInTheMiddle [simp]: "mset (ReorderLostInTheMiddle blocks) = mset blocks"
  using ReorderLostInTheMiddle_slots [OF refl refl] by blast

text \<open>
  C28: Reordering moves the block of rank 1, 3, 5 and so on to the front in this order and the
  blocks of rank 2, 4, 6 to the end, the second one last; no block is lost or duplicated.
\<close>

theorem ReorderLostInTheMiddle_correct:
  assumes "n = length blocks" "out = ReorderLostInTheMiddle blocks"
  shows "length out = n \<and> mset out = mset blocks
    \<and> (\<forall>k < n. out ! (if even k then k div 2 else n - 1 - k div 2) = blocks ! k)"
  using ReorderLostInTheMiddle_slots [OF assms] unfolding slot_def .

lemma ReorderLostInTheMiddle_correct_witness:
  "ReorderLostInTheMiddle (map (\<lambda>i. demoEvidence i [] []) [''1'', ''2'', ''3'']) ! 1
     = demoEvidence ''3'' [] []"
  using ReorderLostInTheMiddle_correct [OF refl refl, of "map (\<lambda>i. demoEvidence i [] []) [''1'', ''2'', ''3'']"]
  by (auto dest: spec [of _ 2])

subsection \<open>Re-ranking\<close>

lemma insertRev_map: "insertRev lt (f x) (map f ys) = map f (insertRev (\<lambda>a b. lt (f a) (f b)) x ys)"
  by (induction ys) auto

lemma sortRev_map: "sortRev lt (map f xs) (map f acc) = map f (sortRev (\<lambda>a b. lt (f a) (f b)) xs acc)"
  by (induction xs arbitrary: acc) (simp_all add: insertRev_map)

lemma goSort_map: "goSort lt (map f xs) = map f (goSort (\<lambda>a b. lt (f a) (f b)) xs)"
  using sortRev_map [of lt f xs "[]"] by (simp add: goSort_def rev_map)

lemma goSort_ordered: "sorted_wrt (\<lambda>a b. \<not> lt b a) xs \<Longrightarrow> goSort lt xs = xs"
proof -
  have "sortRev lt ys (rev zs) = rev (zs @ ys)" if "sorted_wrt (\<lambda>a b. \<not> lt b a) (zs @ ys)" for ys zs
    using that
  proof (induction ys arbitrary: zs)
    case Nil
    then show ?case by simp
  next
    case (Cons y ys)
    have "insertRev lt y (rev zs) = y # rev zs"
      using Cons.prems by (cases "rev zs") (auto simp: sorted_wrt_append rev_eq_Cons_iff)
    then show ?case using Cons.IH [of "zs @ [y]"] Cons.prems by simp
  qed
  from this [of "[]" xs] show "sorted_wrt (\<lambda>a b. \<not> lt b a) xs \<Longrightarrow> goSort lt xs = xs"
    by (simp add: goSort_def)
qed

text \<open>Without NaN a parsed score is a number between 0 and 10.\<close>

fun finiteValue :: "goFloat \<Rightarrow> rat" where
  "finiteValue (Finite q) = q"
| "finiteValue x = 0"

definition scoreInRange :: "goFloat \<Rightarrow> bool" where
  "scoreInRange x \<longleftrightarrow> x = Finite (finiteValue x) \<and> 0 \<le> finiteValue x \<and> finiteValue x \<le> 10"

lemma parseRerankerScore_range:
  assumes "Some NotANumber \<notin> range parseFloat"
  shows "scoreInRange (parseRerankerScore parseFloat content)"
proof (cases "parseFloat (trimSpace content)")
  case None
  then show ?thesis by (simp add: parseRerankerScore_def neutralScore_def scoreInRange_def)
next
  case (Some x)
  then have "x \<noteq> NotANumber" using assms by (metis rangeI)
  then consider r where "x = Finite r" | "x = PosInf" | "x = NegInf" by (cases x) auto
  then show ?thesis
  proof cases
    case (1 r)
    then show ?thesis
      using Some by (cases "r < 0"; cases "10 < r") (simp_all add: parseRerankerScore_def scoreInRange_def)
  qed (simp_all add: Some parseRerankerScore_def scoreInRange_def)
qed

lemma scoreOf_range:
  "Some NotANumber \<notin> range parseFloat \<Longrightarrow> scoreInRange (scoreOf parseFloat r)"
  using parseRerankerScore_range
  by (cases r) (simp_all add: scoreOf_def neutralScore_def scoreInRange_def)

definition rankedLess :: "evidenceBlock \<times> rat \<Rightarrow> evidenceBlock \<times> rat \<Rightarrow> bool" where
  "rankedLess a b \<longleftrightarrow>
     snd a > snd b \<or> snd a = snd b \<and> eb_EvidenceID (fst a) < eb_EvidenceID (fst b)"

interpretation ranked_order: weak_order rankedLess
  by unfold_locales (auto simp: rankedLess_def)

lemma scoredLess_Finite: "scoredLess (b, Finite p) (c, Finite q) = rankedLess (b, p) (c, q)"
  by (auto simp: scoredLess_def rankedLess_def floatEq_def)

definition withRank :: "evidenceBlock \<times> rat \<Rightarrow> evidenceBlock" where
  "withRank x = (fst x)\<lparr>eb_RerankScore := Finite (snd x / 10)\<rparr>"

lemma Rerank_live:
  assumes "blocks \<noteq> []" "provider \<noteq> NoProvider" "Some NotANumber \<notin> range parseFloat"
  obtains scored where "map fst scored = take rerankMaxBlocks blocks"
    "\<forall>x \<in> set scored. 0 \<le> snd x \<and> snd x \<le> 10"
    "Rerank parseFloat provider query blocks = map withRank (goSort rankedLess scored)"
proof -
  let ?c = "take rerankMaxBlocks blocks"
  let ?score = "\<lambda>i b. scoreOf parseFloat (Complete provider ''rerank'' i (passagePrompt query b))"
  let ?q = "\<lambda>i b. finiteValue (?score i b)"
  have q: "?score i b = Finite (?q i b) \<and> 0 \<le> ?q i b \<and> ?q i b \<le> 10" for i b
    using scoreOf_range [OF assms(3)] unfolding scoreInRange_def .
  let ?scored = "map (\<lambda>(i, b). (b, ?q i b)) (zip [0..<length ?c] ?c)"
  let ?up = "\<lambda>(b, q). (b, Finite q)"
  let ?f = "\<lambda>(b, score). b\<lparr>eb_RerankScore := floatDiv10 score\<rparr>"
  have c: "map fst ?scored = ?c"
    unfolding map_map comp_def using map_zip_index [of _ "\<lambda>b. b" ?c] by (simp add: case_prod_beta)
  have up: "map (\<lambda>(i, b). (b, ?score i b)) (zip [0..<length ?c] ?c) = map ?up ?scored"
    unfolding map_map by (rule map_cong [OF refl]) (use q in \<open>simp add: case_prod_beta\<close>)
  have "Rerank parseFloat provider query blocks
      = map ?f (goSort scoredLess (map (\<lambda>(i, b). (b, ?score i b)) (zip [0..<length ?c] ?c)))"
    using assms(1,2) by (simp only: Rerank_def Let_def simp_thms if_False)
  also have "\<dots> = map ?f (map ?up (goSort rankedLess ?scored))"
    unfolding up goSort_map by (simp only: case_prod_beta scoredLess_Finite prod.collapse)
  also have "\<dots> = map withRank (goSort rankedLess ?scored)"
    by (simp add: withRank_def case_prod_beta)
  finally have res: "Rerank parseFloat provider query blocks = map withRank (goSort rankedLess ?scored)" .
  have "\<forall>x \<in> set ?scored. 0 \<le> snd x \<and> snd x \<le> 10" using q by auto
  from that [OF c this res] show thesis .
qed

text \<open>
  As long as no reply reads as NaN, re-ranking returns exactly the first fifteen blocks with
  nothing but their re-rank score changed, every score lies between 0 and 1, and the blocks are
  in descending order of it, ties by identifier; a failing call counts as the neutral score, so
  no block is lost to an error.
\<close>

theorem Rerank_correct:
  assumes "blocks \<noteq> []" "provider \<noteq> NoProvider" "Some NotANumber \<notin> range parseFloat"
    and "out = Rerank parseFloat provider query blocks"
  shows "mset (map (eb_RerankScore_update (\<lambda>_. Finite 0)) out)
      = mset (map (eb_RerankScore_update (\<lambda>_. Finite 0)) (take 15 blocks))
    \<and> (\<exists>scores. map eb_RerankScore out = map Finite scores
        \<and> sorted_wrt (\<lambda>(p, b) (q, c). p > q \<or> p = q \<and> eb_EvidenceID b \<le> eb_EvidenceID c) (zip scores out)
        \<and> (\<forall>p \<in> set scores. 0 \<le> p \<and> p \<le> 1))"
proof -
  obtain scored where sc: "map fst scored = take rerankMaxBlocks blocks"
    "\<forall>x \<in> set scored. 0 \<le> snd x \<and> snd x \<le> 10" "out = map withRank (goSort rankedLess scored)"
    using Rerank_live [OF assms(1-3)] assms(4) by metis
  let ?s = "goSort rankedLess scored"
  let ?clear = "eb_RerankScore_update (\<lambda>_. Finite 0)"
  have "map ?clear out = map (?clear \<circ> fst) ?s" by (simp add: sc(3) withRank_def)
  then have "mset (map ?clear out) = mset (map (?clear \<circ> fst) scored)" by (simp add: mset_map)
  also have "\<dots> = mset (map ?clear (take 15 blocks))"
    using sc(1) by (simp add: rerankMaxBlocks_def flip: map_map)
  finally have same: "mset (map ?clear out) = mset (map ?clear (take 15 blocks))" .
  let ?scores = "map (\<lambda>x. snd x / 10) ?s"
  have "map eb_RerankScore out = map Finite ?scores" by (simp add: sc(3) withRank_def)
  moreover have "sorted_wrt (\<lambda>(p, b) (q, c). p > q \<or> p = q \<and> eb_EvidenceID b \<le> eb_EvidenceID c)
      (zip ?scores out)"
  proof -
    have "zip ?scores out = map (\<lambda>x. (snd x / 10, withRank x)) ?s"
      by (simp add: sc(3) zip_map_map map_zip_map map_zip_map2 zip_same_conv_map)
    moreover have "sorted_wrt (\<lambda>x y. \<not> rankedLess y x) ?s" by (rule ranked_order.goSort_weak)
    ultimately show ?thesis
      by (auto simp: sorted_wrt_map rankedLess_def withRank_def not_less elim!: sorted_wrt_mono_rel [rotated])
  qed
  moreover have "\<forall>p \<in> set ?scores. 0 \<le> p \<and> p \<le> 1" using sc(2) by auto
  ultimately show ?thesis using same by blast
qed

definition demoParse :: "string \<Rightarrow> goFloat option" where
  "demoParse text = (if text = ''3'' then Some (Finite 3) else if text = ''9'' then Some (Finite 9)
     else None)"

lemma Rerank_correct_witness:
  "\<exists>scores. map eb_RerankScore (Rerank demoParse (LiveProvider (\<lambda>_ i _. Reply (if i = 0 then ''3'' else ''9'')))
      ''q'' [demoEvidence ''1'' [] [], demoEvidence ''2'' [] []]) = map Finite scores
    \<and> (\<forall>p \<in> set scores. 0 \<le> p \<and> p \<le> 1)"
proof -
  have "Some NotANumber \<notin> range demoParse" by (auto simp: demoParse_def)
  then show ?thesis
    using Rerank_correct [of "[demoEvidence ''1'' [] [], demoEvidence ''2'' [] []]"
        "LiveProvider (\<lambda>_ i _. Reply (if i = 0 then ''3'' else ''9''))" demoParse _ "''q''", OF _ _ _ refl]
    by blast
qed

text \<open>
  \<open>ParseFloat\<close> also reads \<open>nan\<close>, and no clamp catches it.  One such reply between two others
  keeps the best block behind the worst one, and a score that is no number reaches the caller.
\<close>

theorem Rerank_nan_unsorted:
  assumes "parseFloat ''nan'' = Some NotANumber" "parseFloat ''3'' = Some (Finite 3)"
    "parseFloat ''9'' = Some (Finite 9)"
  shows "\<exists>ask blocks. map eb_RerankScore (Rerank parseFloat (LiveProvider ask) query blocks)
    = [Finite (3 / 10), NotANumber, Finite (9 / 10)]"
proof -
  let ?ask = "\<lambda>stage i prompt. Reply ([''3'', ''nan'', ''9''] ! i)"
  let ?blocks = "[demoEvidence ''1'' [] [], demoEvidence ''2'' [] [], demoEvidence ''3'' [] []]"
  have trim: "trimSpace ''3'' = ''3''" "trimSpace ''9'' = ''9''" "trimSpace ''nan'' = ''nan''"
    by code_simp+
  have "map eb_RerankScore (Rerank parseFloat (LiveProvider ?ask) query ?blocks)
      = [Finite (3 / 10), NotANumber, Finite (9 / 10)]"
    by (simp add: Rerank_def rerankMaxBlocks_def Complete_def scoreOf_def parseRerankerScore_def
        trim assms goSort_def scoredLess_def floatEq_def demoEvidence_def)
  then show ?thesis by (intro exI)
qed

lemma Rerank_nan_unsorted_witness:
  "\<exists>ask blocks. map eb_RerankScore (Rerank (demoParse(''nan'' \<mapsto> NotANumber)) (LiveProvider ask) ''q'' blocks)
    = [Finite (3 / 10), NotANumber, Finite (9 / 10)]"
  using Rerank_nan_unsorted [of "demoParse(''nan'' \<mapsto> NotANumber)" "''q''"] by (simp add: demoParse_def)

subsection \<open>Relevance filter\<close>

text \<open>What one classified block contributes.\<close>

definition keptBlock :: "evidenceBlock \<Rightarrow> relevanceVerdict \<Rightarrow> evidenceBlock list" where
  "keptBlock b v = (case v of VerdictRelevant \<Rightarrow> [b]
     | VerdictAmbiguous \<Rightarrow> [b\<lparr>eb_Score := eb_Score b / 2\<rparr>] | VerdictIrrelevant \<Rightarrow> [])"

lemma keptBlock_mem:
  "x \<in> set (keptBlock b v) \<Longrightarrow> x = b \<or> x = b\<lparr>eb_Score := eb_Score b / 2\<rparr>"
  by (cases v) (simp_all add: keptBlock_def)

lemma fold_cragStep:
  assumes "fold cragStep xs (fs, st) = (fs', st')"
  shows "fs' = fs @ concat (map (\<lambda>(b, v, e). keptBlock b v) xs)
    \<and> crag_Total st' = crag_Total st
    \<and> crag_Relevant st' = crag_Relevant st + length (filter (\<lambda>(b, v, e). v = VerdictRelevant) xs)
    \<and> crag_Ambiguous st' = crag_Ambiguous st + length (filter (\<lambda>(b, v, e). v = VerdictAmbiguous) xs)
    \<and> crag_Irrelevant st' = crag_Irrelevant st + length (filter (\<lambda>(b, v, e). v = VerdictIrrelevant) xs)
    \<and> crag_Errors st' = crag_Errors st + length (filter (\<lambda>(b, v, e). e) xs)"
  using assms
proof (induction xs arbitrary: fs st)
  case Nil
  then show ?case by simp
next
  case (Cons x xs)
  obtain b v e where x: "x = (b, v, e)" by (cases x)
  obtain fs1 st1 where step: "cragStep x (fs, st) = (fs1, st1)" by force
  with Cons.prems have "fold cragStep xs (fs1, st1) = (fs', st')" by simp
  from Cons.IH [OF this] step show ?case
    by (cases v; cases e) (auto simp: x cragStep_def keptBlock_def)
qed

lemma length_verdicts:
  "length (filter (\<lambda>(b, v, e). v = VerdictRelevant) xs) + length (filter (\<lambda>(b, v, e). v = VerdictAmbiguous) xs)
   + length (filter (\<lambda>(b, v, e). v = VerdictIrrelevant) xs) = length xs"
  by (induction xs) (auto, metis relevanceVerdict.exhaust)

lemma length_kept:
  "length (concat (map (\<lambda>(b, v, e). keptBlock b v) xs)) =
     length (filter (\<lambda>(b, v, e). v = VerdictRelevant) xs) + length (filter (\<lambda>(b, v, e). v = VerdictAmbiguous) xs)"
  by (induction xs) (auto simp: keptBlock_def split: relevanceVerdict.splits)

lemma subseq_kept:
  "subseq (map eb_EvidenceID (concat (map (\<lambda>(b, v, e). keptBlock b v) xs)))
     (map eb_EvidenceID (map fst xs))"
  by (induction xs) (auto simp: keptBlock_def split: relevanceVerdict.splits)

lemma error_is_ambiguous: "(v, True) = classify r \<Longrightarrow> v = VerdictAmbiguous"
  by (auto simp: classify_def split: llmReply.splits)

lemma length_filter_le_imp:
  "(\<And>x. x \<in> set xs \<Longrightarrow> P x \<Longrightarrow> Q x) \<Longrightarrow> length (filter P xs) \<le> length (filter Q xs)"
  by (induction xs) (auto simp: le_SucI)

text \<open>
  The relevance filter keeps the order of the blocks, keeps a block unchanged or with half
  its score, and drops one only on a reply that reads as irrelevant; in particular it drops
  nothing when the model cannot be reached.  The statistics account for every block, and the
  failed calls are among the ambiguous ones.
\<close>

theorem CRAG_Filter_correct:
  assumes "blocks \<noteq> []" "CRAG_Filter (LiveProvider ask) query blocks = (out, st)"
  shows "subseq (map eb_EvidenceID out) (map eb_EvidenceID blocks)
    \<and> (\<forall>b \<in> set out. \<exists>c \<in> set blocks. b = c \<or> b = c\<lparr>eb_Score := eb_Score c / 2\<rparr>)
    \<and> crag_Total st = length blocks
    \<and> crag_Relevant st + crag_Ambiguous st + crag_Irrelevant st = crag_Total st
    \<and> crag_Relevant st + crag_Ambiguous st = length out
    \<and> crag_Errors st \<le> crag_Ambiguous st
    \<and> ((\<forall>i prompt content. ask ''crag'' i prompt = Reply content \<longrightarrow> parseVerdict content \<noteq> VerdictIrrelevant)
         \<longrightarrow> map eb_EvidenceID out = map eb_EvidenceID blocks)"
proof -
  let ?xs = "map (\<lambda>(i, b). (b, classify (ask ''crag'' i (passagePrompt query b))))
               (zip [0..<length blocks] blocks)"
  have "fold cragStep ?xs ([], noStats\<lparr>crag_Total := length blocks\<rparr>) = (out, st)"
    using assms by (simp add: CRAG_Filter_def)
  note f = fold_cragStep [OF this, simplified]
  have out: "out = concat (map (\<lambda>(b, v, e). keptBlock b v) ?xs)" using f by simp
  have fst: "map fst ?xs = blocks"
    unfolding map_map comp_def using map_zip_index [of _ "\<lambda>b. b" blocks] by (simp add: case_prod_beta)
  have sub: "subseq (map eb_EvidenceID out) (map eb_EvidenceID blocks)"
    using subseq_kept [of ?xs] by (simp only: out fst)
  have mem: "\<forall>b \<in> set out. \<exists>c \<in> set blocks. b = c \<or> b = c\<lparr>eb_Score := eb_Score c / 2\<rparr>"
    unfolding out by (auto dest!: keptBlock_mem dest: set_zip_rightD)
  have all: "map eb_EvidenceID out = map eb_EvidenceID blocks"
    if a: "\<forall>i prompt content. ask ''crag'' i prompt = Reply content \<longrightarrow> parseVerdict content \<noteq> VerdictIrrelevant"
  proof -
    have "fst (classify (ask ''crag'' i prompt)) \<noteq> VerdictIrrelevant" for i prompt
      using a by (auto simp: classify_def split: llmReply.splits)
    then have "classify (ask ''crag'' i prompt) \<noteq> (VerdictIrrelevant, e)" for i prompt e
      by (metis fst_conv)
    then have none: "filter (\<lambda>(b, v, e). v = VerdictIrrelevant) ?xs = []"
      by (auto simp: filter_empty_conv)
    have "length (concat (map (\<lambda>(b, v, e). keptBlock b v) ?xs)) = length ?xs"
      using length_verdicts [of ?xs] unfolding length_kept none by (simp only: list.size add_0_right)
    then have "length out = length blocks" unfolding out [symmetric] by simp
    then show ?thesis using sub by (metis length_map subseq_same_length)
  qed
  have "length (filter (\<lambda>(b, v, e). e) ?xs) \<le> length (filter (\<lambda>(b, v, e). v = VerdictAmbiguous) ?xs)"
    by (rule length_filter_le_imp) (auto dest!: error_is_ambiguous)
  moreover note length_verdicts [of ?xs] length_kept [of ?xs]
  ultimately show ?thesis
    using f sub mem all unfolding out [symmetric] by (simp add: noStats_def)
qed

lemma CRAG_Filter_correct_witness:
  "map eb_EvidenceID (fst (CRAG_Filter (LiveProvider (\<lambda>_ _ _. CallFailed ''down'')) ''q''
     [demoEvidence ''1'' [] [], demoEvidence ''2'' [] []])) = [''1'', ''2'']"
  using CRAG_Filter_correct [of "[demoEvidence ''1'' [] [], demoEvidence ''2'' [] []]"
      "\<lambda>_ _ _. CallFailed ''down''" "''q''", OF _ prod.collapse [symmetric]]
  by (simp add: demoEvidence_def)

end
