(* ===== verification/Chat_Laws.thy ===== *)
theory Chat_Laws
  imports Chat Tool_Laws Retrieval_Laws
begin

text \<open>
  What a chat request may do: which tools it runs, what it promotes, what it stores in the
  session and which evidence it shows.
\<close>

subsection \<open>Tools that need an approval\<close>

lemma invocationFor_simps [simp]:
  "\<not> inv_ApprovalGranted (invocationFor req sid planID st args)"
  "inv_ToolName (invocationFor req sid planID st args) = ps_ToolName st"
  "inv_Arguments (invocationFor req sid planID st args) = args"
  by (simp_all add: invocationFor_def)

lemma draftAnswer_world:
  "snd (draftAnswer env req sid messages w) = w
   \<or> req_Mode req \<noteq> ''eval'' \<and> (\<exists>plan. snd (draftAnswer env req sid messages w)
        = snd (executeToolSteps env req sid plan (ep_Steps plan) [] [] w))"
  by (auto simp: draftAnswer_def Let_def split: prod.splits sum.splits if_splits)
    (metis snd_conv)+

lemma Handle_world:
  "cst_World (snd (Handle env ck req s)) = cst_World s
   \<or> (\<exists>sid messages. cst_World (snd (Handle env ck req s))
        = snd (draftAnswer env req sid messages (cst_World s)))"
  by (auto simp: Handle_def split: prod.splits sum.splits) (metis snd_conv)+

text \<open>One turn of either loop, by what happens to the step.\<close>

lemma runRevisedSteps_Cons:
  "ps_Kind st \<noteq> StepKindTool \<Longrightarrow>
     runRevisedSteps env req sid planID (st # steps) results ivks w
       = runRevisedSteps env req sid planID steps results ivks w"
  "\<lbrakk>ps_Kind st = StepKindTool; stepArguments env req st = Inl e\<rbrakk> \<Longrightarrow>
     runRevisedSteps env req sid planID (st # steps) results ivks w = (Inl e, w)"
  "\<lbrakk>ps_Kind st = StepKindTool; stepArguments env req st = Inr args;
    Execute (ce_MarshalPayload env) (ce_Registry env) (invocationFor req sid planID st args) w = (x, w')\<rbrakk> \<Longrightarrow>
     runRevisedSteps env req sid planID (st # steps) results ivks w =
       (case x of Inl err \<Rightarrow> (Inl (ChatToolError err), w')
        | Inr res \<Rightarrow> runRevisedSteps env req sid planID steps (results @ [res])
                      (ivks @ [invocationFor req sid planID st args]) w')"
  by (auto split: sum.splits)

definition replanFor ::
    "('w, 'p) chatEnv \<Rightarrow> chatRequest \<Rightarrow> string \<Rightarrow> executionPlan \<Rightarrow> toolResult list \<Rightarrow> planStep
     \<Rightarrow> toolError \<Rightarrow> planError + executionPlan" where
  "replanFor env req sid plan results st err =
     Replan (ce_MarshalTool env) (plannerLLM (ce_Provider env) ''replan'') (ce_UnmarshalPlan env)
       (replanInputFor env req sid plan results st err)"

lemma executeToolSteps_Cons:
  "ps_Kind st \<noteq> StepKindTool \<Longrightarrow>
     executeToolSteps env req sid plan (st # steps) results ivks w
       = executeToolSteps env req sid plan steps results ivks w"
  "\<lbrakk>ps_Kind st = StepKindTool; stepArguments env req st = Inl e\<rbrakk> \<Longrightarrow>
     executeToolSteps env req sid plan (st # steps) results ivks w = (Inl e, w)"
  "\<lbrakk>ps_Kind st = StepKindTool; stepArguments env req st = Inr args;
    Execute (ce_MarshalPayload env) (ce_Registry env) (invocationFor req sid (ep_PlanID plan) st args) w
      = (Inr res, w')\<rbrakk> \<Longrightarrow>
     executeToolSteps env req sid plan (st # steps) results ivks w =
       executeToolSteps env req sid plan steps (results @ [res])
         (ivks @ [invocationFor req sid (ep_PlanID plan) st args]) w'"
  "\<lbrakk>ps_Kind st = StepKindTool; stepArguments env req st = Inr args;
    Execute (ce_MarshalPayload env) (ce_Registry env) (invocationFor req sid (ep_PlanID plan) st args) w
      = (Inl err, w')\<rbrakk> \<Longrightarrow>
     executeToolSteps env req sid plan (st # steps) results ivks w =
       (if ep_Source plan = PlanSourceKeyword then (Inl (ChatToolError err), w')
        else case replanFor env req sid plan results st err of
               Inl _ \<Rightarrow> (Inl (ChatToolError err), w')
             | Inr revised \<Rightarrow>
                 (case runRevisedSteps env req sid (ep_PlanID revised) (ep_Steps revised)
                         (results @ [failedResult (ep_PlanID plan) st err])
                         (ivks @ [invocationFor req sid (ep_PlanID plan) st args]) w' of
                    (Inl e, w'') \<Rightarrow> (Inl e, w'')
                  | (Inr (results', ivks'), w'') \<Rightarrow> (Inr (results', ivks', 1, revised), w'')))"
  by (simp_all add: replanFor_def)

declare runRevisedSteps.simps(2) [simp del] executeToolSteps.simps(2) [simp del]

context gated_tools
begin

lemma runRevisedSteps_keeps:
  assumes "ce_Registry env = r"
  shows "Keep w \<Longrightarrow> Keep (snd (runRevisedSteps env req sid planID steps results ivks w))"
proof (induction steps arbitrary: results ivks w)
  case Nil
  then show ?case by simp
next
  case (Cons st steps)
  show ?case
  proof (cases "ps_Kind st = StepKindTool")
    case tool: True
    show ?thesis
    proof (cases "stepArguments env req st")
      case (Inr args)
      let ?ivk = "invocationFor req sid planID st args"
      obtain x w' where ex: "Execute (ce_MarshalPayload env) (ce_Registry env) ?ivk w = (x, w')" by force
      have "Keep w'" using Execute_keeps [of ?ivk w "ce_MarshalPayload env"] Cons.prems ex assms by simp
      then show ?thesis
        using Cons.IH by (simp add: runRevisedSteps_Cons(3) [OF tool Inr ex] split: sum.splits)
    qed (simp add: tool runRevisedSteps_Cons Cons.prems)
  qed (simp add: runRevisedSteps_Cons Cons)
qed

lemma executeToolSteps_keeps:
  assumes "ce_Registry env = r"
  shows "Keep w \<Longrightarrow> Keep (snd (executeToolSteps env req sid plan steps results ivks w))"
proof (induction steps arbitrary: results ivks w)
  case Nil
  then show ?case by simp
next
  case (Cons st steps)
  show ?case
  proof (cases "ps_Kind st = StepKindTool")
    case tool: True
    show ?thesis
    proof (cases "stepArguments env req st")
      case (Inr args)
      let ?ivk = "invocationFor req sid (ep_PlanID plan) st args"
      obtain x w' where ex: "Execute (ce_MarshalPayload env) (ce_Registry env) ?ivk w = (x, w')" by force
      have k: "Keep w'" using Execute_keeps [of ?ivk w "ce_MarshalPayload env"] Cons.prems ex assms by simp
      show ?thesis
      proof (cases x)
        case res: (Inr res)
        show ?thesis
          using Cons.IH [OF k] executeToolSteps_Cons(3) [OF tool Inr ex [unfolded res]] by simp
      next
        case err: (Inl err)
        have rev: "Keep (snd (runRevisedSteps env req sid p ss rs is w'))" for p ss rs "is"
          using assms k by (rule runRevisedSteps_keeps)
        show ?thesis
          using k 
          by (auto simp: executeToolSteps_Cons(4) [OF tool Inr ex [unfolded err]]
              split: sum.splits prod.splits intro: rev) (metis rev snd_conv)+
      qed
    qed (simp add: tool executeToolSteps_Cons Cons.prems)
  qed (simp add: executeToolSteps_Cons Cons)
qed

lemma Handle_keeps:
  assumes "ce_Registry env = r" "Keep (cst_World s)"
  shows "Keep (cst_World (snd (Handle env ck req s)))"
proof -
  have "Keep (snd (draftAnswer env req sid messages (cst_World s)))" for sid messages
    using draftAnswer_world [of env req sid messages "cst_World s"] executeToolSteps_keeps [OF assms]
      assms(2) by auto
  with Handle_world [of env ck req s] assms(2) show ?thesis by auto
qed

end

text \<open>
  C3: A chat request never lets a tool act that needs an approval.  Whatever the language model
  plans and however often it plans anew, everything that the executors of the ungated tools keep
  of the outside world is still true after the request, on every path and also when the request
  fails.
\<close>

theorem chat_never_runs_gated_tools:
  assumes "\<And>name def f args w. \<lbrakk>ce_Registry env name = Some def; def_Executor def = Some f;
      \<not> needsApproval def False; Keep w\<rbrakk> \<Longrightarrow> Keep (snd (f args w))"
    and "Keep (cst_World s)"
  shows "Keep (cst_World (snd (Handle env ck req s)))"
proof -
  have "gated_tools (ce_Registry env) Keep" by (rule gated_tools.intro) (rule assms(1))
  then show ?thesis by (rule gated_tools.Handle_keeps) (rule refl, rule assms(2))
qed

text \<open>The default registry with a comment adapter that records what it is asked to write.\<close>

definition demoChat :: "llmProvider \<Rightarrow> (string \<Rightarrow> string + llmPlanResponse) \<Rightarrow> (string list, ticketPayload) chatEnv" where
  "demoChat provider unmarshal = \<lparr>ce_Provider = provider, ce_Search = (\<lambda>rq. Inr (Search [] rq)),
     ce_Registry = demoRegistry, ce_ToolOrder = [''ticket_search'', ''ticket_comment_create''],
     ce_MarshalTool = td_Name, ce_UnmarshalPlan = unmarshal, ce_UnmarshalCritic = (\<lambda>_. Inl ''no JSON''),
     ce_ParseFloat = demoParse, ce_MarshalPayload = (\<lambda>_. Inr ''ok''), ce_MarshalObject = concat \<circ> map snd,
     ce_Version = None, ce_Starter = None\<rparr>"

definition demoClock :: chatClock where
  "demoClock = \<lparr>ck_Created = 1, ck_UserMessage = 2, ck_Promoted = 3, ck_StartFailed = 4, ck_Assistant = 5\<rparr>"

definition demoChatRequest :: "string \<Rightarrow> string \<Rightarrow> chatRequest" where
  "demoChatRequest mode text = \<lparr>req_RequestID = ''r'', req_TraceID = [], req_TenantID = ''acme'',
     req_UserID = ''ann'', req_SessionID = [], req_Mode = mode, req_UserMessage = text,
     req_TenantPolicy = noPolicy\<rparr>"

definition demoChatState :: "string list chatState" where
  "demoChatState = \<lparr>cst_Sessions = newSessionStore,
     cst_Workflows = \<lparr>ws_store = NewMemoryStore, ws_seq = 0\<rparr>, cst_World = []\<rparr>"

lemma demoRegistry_ungated:
  "\<lbrakk>demoRegistry name = Some def; def_Executor def = Some f; \<not> needsApproval def False\<rbrakk>
   \<Longrightarrow> f = SearchExecutor Inr"
  unfolding demoRegistry_def by (drule (1) default_ungated) simp

lemma SearchExecutor_world [simp]: "snd (SearchExecutor decode args w) = w"
  by (auto simp: SearchExecutor_def Let_def split: sum.splits)

lemma chat_never_runs_gated_tools_witness:
  "cst_World (snd (Handle (demoChat NoProvider Inl) demoClock
     (demoChatRequest ''chat'' ''comment on INC-1'') demoChatState)) = []"
proof (rule chat_never_runs_gated_tools [where Keep = "\<lambda>w. w = []"])
  show "cst_World demoChatState = []" by (simp add: demoChatState_def)
next
  fix name def f args and w :: "string list"
  assume "ce_Registry (demoChat NoProvider Inl) name = Some def" "def_Executor def = Some f"
    "\<not> needsApproval def False" "w = []"
  then show "snd (f args w) = []" using demoRegistry_ungated [of name def f] by (auto simp: demoChat_def)
qed

subsection \<open>A successful request\<close>

lemma Handle_success:
  assumes "Handle env ck req s = (Inr r, s')"
  obtains sid ss0 m1 ss1 messages d w promoted flow m2 ss2 where
    "openSession req ck (cst_Sessions s) = (sid, ss0)"
    "AppendMessage (ck_UserMessage ck) sid RoleUser (req_UserMessage req) ss0 = (Inr m1, ss1)"
    "ListMessages sid ss1 = Inr messages"
    "draftAnswer env req sid messages (cst_World s) = (Inr d, w)"
    "promoteDraft env req ck sid d (cst_Workflows s) = (Inr promoted, flow)"
    "AppendMessage (ck_Assistant ck) sid RoleAssistant (dr_Content d) ss1 = (Inr m2, ss2)"
    "r = handleResultFor req sid d promoted"
    "s' = s\<lparr>cst_Sessions := ss2, cst_Workflows := flow, cst_World := w\<rparr>"
  using assms by (auto simp: Handle_def split: prod.splits sum.splits)

lemma draftAnswer_success:
  assumes "draftAnswer env req sid messages w = (Inr d, w')"
  obtains assembled plan retrieval where
    "planFor env req sid messages = (assembled, plan)"
    "firstRetrieval env req sid plan = Inr retrieval"
    "(Inr (dr_ToolResults d, dr_Invocations d, dr_ReplanCount d, dr_Plan d), w')
       = (if req_Mode req = ''eval'' then (Inr ([], [], 0, plan), w)
          else executeToolSteps env req sid plan (ep_Steps plan) [] [] w)"
    "dr_Retrieval d = secondRetrieval env req sid (dr_Plan d) (dr_ReplanCount d) retrieval"
    "dr_Verdict d = Review (ce_UnmarshalCritic env) (ce_Provider env)
       \<lparr>ci_Plan = dr_Plan d, ci_Retrieval = Some (dr_Retrieval d),
        ci_ToolResults = dr_ToolResults d, ci_DraftAnswer = dr_Content d\<rparr>"
  using assms by (auto simp: draftAnswer_def Let_def split: prod.splits sum.splits)

lemma handleResultFor_simps [simp]:
  "hr_SessionID (handleResultFor req sid d p) = sid" "hr_Plan (handleResultFor req sid d p) = dr_Plan d"
  "hr_Retrieval (handleResultFor req sid d p) = dr_Retrieval d"
  "hr_ToolResults (handleResultFor req sid d p) = dr_ToolResults d"
  "hr_Critic (handleResultFor req sid d p) = dr_Verdict d"
  "hr_PromotedTask (handleResultFor req sid d p) = p"
  "hr_ReplanCount (handleResultFor req sid d p) = dr_ReplanCount d"
  by (simp_all add: handleResultFor_def)

lemma promoteDraft_workflows:
  "\<not> promotes req (dr_Plan d) (dr_Verdict d)
   \<Longrightarrow> promoteDraft env req ck sid d flow = (Inr None, flow)"
  by (simp add: promoteDraft_def)

subsection \<open>Evaluation mode\<close>

lemma draftAnswer_eval:
  assumes "req_Mode req = ''eval''"
  shows "snd (draftAnswer env req sid messages w) = w"
  using draftAnswer_world [of env req sid messages w] assms by blast

lemma promoteDraft_eval:
  assumes "req_Mode req = ''eval''"
  shows "promoteDraft env req ck sid d flow = (Inr None, flow)"
  using assms by (intro promoteDraft_workflows) (simp add: promotes_def)

lemma Handle_eval_kept:
  assumes "req_Mode req = ''eval''"
  shows "cst_World (snd (Handle env ck req s)) = cst_World s"
    "cst_Workflows (snd (Handle env ck req s)) = cst_Workflows s"
proof -
  show "cst_World (snd (Handle env ck req s)) = cst_World s"
    using Handle_world [of env ck req s] draftAnswer_eval [OF assms] by auto
  show "cst_Workflows (snd (Handle env ck req s)) = cst_Workflows s"
    by (auto simp: Handle_def promoteDraft_eval [OF assms] split: prod.splits sum.splits)
qed

text \<open>
  A request in evaluation mode runs no tool, plans only once and promotes no task: the tool
  world and the workflow store are untouched on every path, the failing ones included.
\<close>

theorem eval_mode_has_no_effects:
  assumes "req_Mode req = ''eval''" "Handle env ck req s = (x, s')"
  shows "cst_World s' = cst_World s \<and> cst_Workflows s' = cst_Workflows s
    \<and> (\<forall>r. x = Inr r \<longrightarrow> hr_ToolResults r = [] \<and> hr_PromotedTask r = None \<and> hr_ReplanCount r = 0)"
proof -
  have world: "cst_World s' = cst_World s" and flow: "cst_Workflows s' = cst_Workflows s"
    using Handle_eval_kept [OF assms(1), of env ck s] assms(2) by simp_all
  have none: "promoteDraft env req ck sid d flow = (Inr None, flow)" for sid d flow
    by (rule promoteDraft_eval [OF assms(1)])
  have "hr_ToolResults r = [] \<and> hr_PromotedTask r = None \<and> hr_ReplanCount r = 0" if "x = Inr r" for r
  proof -
    have h: "Handle env ck req s = (Inr r, s')" using assms(2) that by simp
    obtain sid messages d w promoted flow' where
      d: "draftAnswer env req sid messages (cst_World s) = (Inr d, w)"
      "promoteDraft env req ck sid d (cst_Workflows s) = (Inr promoted, flow')"
      "r = handleResultFor req sid d promoted"
      by (rule Handle_success [OF h]) (rule that)
    obtain plan where
      "(Inr (dr_ToolResults d, dr_Invocations d, dr_ReplanCount d, dr_Plan d), w)
         = (if req_Mode req = ''eval'' then (Inr ([], [], 0, plan), cst_World s)
            else executeToolSteps env req sid plan (ep_Steps plan) [] [] (cst_World s))"
      by (rule draftAnswer_success [OF d(1)]) (rule that)
    then have "dr_ToolResults d = [] \<and> dr_ReplanCount d = 0" using assms(1) by simp
    with d(2,3) none show ?thesis by simp
  qed
  with world flow show ?thesis by blast
qed

lemma eval_mode_has_no_effects_witness:
  "cst_Workflows (snd (Handle (demoChat NoProvider Inl) demoClock
     (demoChatRequest ''eval'' ''report'') demoChatState)) = cst_Workflows demoChatState"
proof -
  have "req_Mode (demoChatRequest ''eval'' ''report'') = ''eval''" by (simp add: demoChatRequest_def)
  from eval_mode_has_no_effects [OF this prod.collapse [symmetric]] show ?thesis by blast
qed

subsection \<open>Promotion\<close>

lemma Promote_task:
  assumes "Promote version starter now later rq svc = (Inr t, svc')"
  obtains v n where "t = promotedTask v now n rq"
  | v n err where "t = startFailedTask err later (promotedTask v now n rq)" "prq_RequiresApproval rq"
      "starter \<noteq> None"
  using assms
  by (auto simp: Promote_def Let_def CreateTaskWithEvent_def UpdateTaskWithEvent_def
      shouldStartTaskOnPromote_def promotedTask_def
      split: option.splits sum.splits prod.splits if_splits)

text \<open>The outcome of a run belongs to its invocations.\<close>

definition resultsInvoked :: "toolInvocation list \<Rightarrow> toolResult list \<Rightarrow> bool" where
  "resultsInvoked ivks results \<longleftrightarrow> (\<forall>res \<in> set results. \<exists>i \<in> set ivks. inv_ToolName i = tr_ToolName res)"

lemma resultsInvoked_Nil [simp]: "resultsInvoked ivks []"
  by (simp add: resultsInvoked_def)

lemma resultsInvoked_snoc:
  "\<lbrakk>resultsInvoked ivks results; tr_ToolName res = inv_ToolName i\<rbrakk>
   \<Longrightarrow> resultsInvoked (ivks @ [i]) (results @ [res])"
  by (auto simp: resultsInvoked_def)

lemma Execute_toolName:
  "Execute marshal r ivk w = (Inr res, w') \<Longrightarrow> tr_ToolName res = inv_ToolName ivk"
  by (auto simp: Execute_def baseResult_def split: option.splits if_splits prod.splits sum.splits)

lemma runRevisedSteps_invoked:
  "\<lbrakk>runRevisedSteps env req sid planID steps results ivks w = (Inr (results', ivks'), w');
    resultsInvoked ivks results\<rbrakk> \<Longrightarrow> resultsInvoked ivks' results'"
proof (induction steps arbitrary: results ivks w)
  case Nil
  then show ?case by simp
next
  case (Cons st steps)
  show ?case
  proof (cases "ps_Kind st = StepKindTool")
    case tool: True
    show ?thesis
    proof (cases "stepArguments env req st")
      case (Inr args)
      let ?ivk = "invocationFor req sid planID st args"
      obtain x w1 where ex: "Execute (ce_MarshalPayload env) (ce_Registry env) ?ivk w = (x, w1)" by force
      with Cons.prems(1) obtain res where x: "x = Inr res"
        by (cases x) (auto simp: runRevisedSteps_Cons(3) [OF tool Inr ex])
      have "resultsInvoked (ivks @ [?ivk]) (results @ [res])"
        by (rule resultsInvoked_snoc [OF Cons.prems(2)]) (rule Execute_toolName [OF ex [unfolded x]])
      then show ?thesis
        using Cons.IH Cons.prems(1) runRevisedSteps_Cons(3) [OF tool Inr ex] x by simp
    qed (use tool Cons.prems in \<open>simp add: runRevisedSteps_Cons\<close>)
  qed (use Cons in \<open>simp add: runRevisedSteps_Cons\<close>)
qed

lemma failedResult_toolName [simp]: "tr_ToolName (failedResult p st err) = ps_ToolName st"
  by (simp add: failedResult_def)

lemma executeToolSteps_invoked:
  "\<lbrakk>executeToolSteps env req sid plan steps results ivks w = (Inr (results', ivks', n, active), w');
    resultsInvoked ivks results\<rbrakk> \<Longrightarrow> resultsInvoked ivks' results'"
proof (induction steps arbitrary: results ivks w)
  case Nil
  then show ?case by simp
next
  case (Cons st steps)
  show ?case
  proof (cases "ps_Kind st = StepKindTool")
    case tool: True
    show ?thesis
    proof (cases "stepArguments env req st")
      case (Inr args)
      let ?ivk = "invocationFor req sid (ep_PlanID plan) st args"
      obtain x w1 where ex: "Execute (ce_MarshalPayload env) (ce_Registry env) ?ivk w = (x, w1)" by force
      show ?thesis
      proof (cases x)
        case res: (Inr res)
        have "resultsInvoked (ivks @ [?ivk]) (results @ [res])"
          by (rule resultsInvoked_snoc [OF Cons.prems(2)]) (rule Execute_toolName [OF ex [unfolded res]])
        then show ?thesis
          using Cons.IH Cons.prems(1) executeToolSteps_Cons(3) [OF tool Inr ex [unfolded res]] by simp
      next
        case err: (Inl err)
        have start: "resultsInvoked (ivks @ [?ivk]) (results @ [failedResult (ep_PlanID plan) st err])"
          by (rule resultsInvoked_snoc [OF Cons.prems(2)]) simp
        from Cons.prems(1) have
          "runRevisedSteps env req sid (ep_PlanID active) (ep_Steps active)
             (results @ [failedResult (ep_PlanID plan) st err]) (ivks @ [?ivk]) w1 = (Inr (results', ivks'), w')"
          by (auto simp: executeToolSteps_Cons(4) [OF tool Inr ex [unfolded err]]
              split: if_splits sum.splits prod.splits)
        from runRevisedSteps_invoked [OF this start] show ?thesis .
      qed
    qed (use tool Cons.prems in \<open>simp add: executeToolSteps_Cons\<close>)
  qed (use Cons in \<open>simp add: executeToolSteps_Cons\<close>)
qed

lemma firstApprovalInvocation_Some:
  assumes "resultsInvoked ivks results" "res \<in> set results" "tr_Status res = ToolApprovalRequired"
  shows "\<exists>i. firstApprovalInvocation ivks results = Some i
     \<and> (\<exists>res' \<in> set results. tr_Status res' = ToolApprovalRequired \<and> tr_ToolName res' = inv_ToolName i)"
proof -
  from assms obtain j where "j \<in> set ivks" "inv_ToolName j = tr_ToolName res"
    by (auto simp: resultsInvoked_def)
  then show ?thesis
  proof (induction ivks)
    case Nil
    then show ?case by simp
  next
    case (Cons a ivks)
    show ?case
    proof (cases "\<exists>res \<in> set results. tr_ToolName res = inv_ToolName a \<and> tr_Status res = ToolApprovalRequired")
      case True
      then show ?thesis by auto
    next
      case False
      with assms(2,3) have "tr_ToolName res \<noteq> inv_ToolName a" by blast
      with Cons False show ?thesis by auto
    qed
  qed
qed

lemma Review_approval:
  "\<exists>res \<in> set (ci_ToolResults input). tr_Status res = ToolApprovalRequired
   \<Longrightarrow> cv_Verdict (Review unmarshal provider input) = VerdictPromoteWorkflow"
  by (simp add: Review_def approvalVerdict_def)

lemma draftAnswer_invoked:
  assumes "draftAnswer env req sid messages w = (Inr d, w')"
  shows "resultsInvoked (dr_Invocations d) (dr_ToolResults d)"
    "\<exists>res \<in> set (dr_ToolResults d). tr_Status res = ToolApprovalRequired
     \<Longrightarrow> cv_Verdict (dr_Verdict d) = VerdictPromoteWorkflow \<and> req_Mode req \<noteq> ''eval''"
proof -
  obtain plan where run:
    "(Inr (dr_ToolResults d, dr_Invocations d, dr_ReplanCount d, dr_Plan d), w')
       = (if req_Mode req = ''eval'' then (Inr ([], [], 0, plan), w)
          else executeToolSteps env req sid plan (ep_Steps plan) [] [] w)"
    and v: "dr_Verdict d = Review (ce_UnmarshalCritic env) (ce_Provider env)
       \<lparr>ci_Plan = dr_Plan d, ci_Retrieval = Some (dr_Retrieval d),
        ci_ToolResults = dr_ToolResults d, ci_DraftAnswer = dr_Content d\<rparr>"
    by (rule draftAnswer_success [OF assms]) (rule that)
  show "resultsInvoked (dr_Invocations d) (dr_ToolResults d)"
  proof (cases "req_Mode req = ''eval''")
    case True
    with run show ?thesis by simp
  next
    case False
    with run show ?thesis using executeToolSteps_invoked [OF _ resultsInvoked_Nil] by (metis (full_types))
  qed
  assume a: "\<exists>res \<in> set (dr_ToolResults d). tr_Status res = ToolApprovalRequired"
  then have "req_Mode req \<noteq> ''eval''" using run by auto
  moreover have "cv_Verdict (dr_Verdict d) = VerdictPromoteWorkflow"
    unfolding v by (rule Review_approval) (simp add: a)
  ultimately show "cv_Verdict (dr_Verdict d) = VerdictPromoteWorkflow \<and> req_Mode req \<noteq> ''eval''" by simp
qed

text \<open>
  C4: A request promotes a task exactly when it is not in evaluation mode and the plan asks for
  a workflow or the review does.  The task belongs to the tenant and the session of the request
  and requires an approval exactly when the review asked for promotion; then it is parked, or
  failed because the external start failed, but never queued.  As soon as one tool call needs an
  approval there is such a task, and it names a tool that waits for one.
\<close>

theorem Handle_promotion:
  assumes "Handle env ck req s = (Inr r, s')"
  shows "(hr_PromotedTask r = None \<longleftrightarrow> req_Mode req = ''eval''
        \<or> \<not> ep_RequiresWorkflow (hr_Plan r) \<and> cv_Verdict (hr_Critic r) \<noteq> VerdictPromoteWorkflow)
    \<and> (\<forall>t. hr_PromotedTask r = Some t \<longrightarrow> task_TenantID t = req_TenantID req
        \<and> task_SessionID t = hr_SessionID r
        \<and> (task_RequiresApproval t \<longleftrightarrow> cv_Verdict (hr_Critic r) = VerdictPromoteWorkflow)
        \<and> (task_RequiresApproval t \<longrightarrow> task_Status t = StatusWaitingApproval \<or> task_Status t = StatusFailed))
    \<and> ((\<exists>res \<in> set (hr_ToolResults r). tr_Status res = ToolApprovalRequired)
        \<longrightarrow> (\<exists>t. hr_PromotedTask r = Some t \<and> task_RequiresApproval t
              \<and> (\<exists>res \<in> set (hr_ToolResults r). tr_Status res = ToolApprovalRequired
                   \<and> task_ToolName t = tr_ToolName res)))"
proof -
  obtain sid messages d w promoted flow where
    d: "draftAnswer env req sid messages (cst_World s) = (Inr d, w)"
    and p: "promoteDraft env req ck sid d (cst_Workflows s) = (Inr promoted, flow)"
    and r: "r = handleResultFor req sid d promoted"
    by (rule Handle_success [OF assms]) (rule that)
  let ?rq = "promoteRequestFor req sid (dr_Verdict d) (dr_Invocations d) (dr_ToolResults d)"
  let ?needs = "cv_Verdict (dr_Verdict d) = VerdictPromoteWorkflow"
  have rq: "prq_TenantID ?rq = req_TenantID req" "prq_SessionID ?rq = sid" "prq_RequiresApproval ?rq = ?needs"
    by (simp_all add: promoteRequestFor_def Let_def)
  have none: "promoted = None \<longleftrightarrow> \<not> promotes req (dr_Plan d) (dr_Verdict d)"
    using p by (auto simp: promoteDraft_def split: if_splits prod.splits sum.splits)
  have task: "(\<exists>v n. t = promotedTask v (ck_Promoted ck) n ?rq)
      \<or> (\<exists>v n err. t = startFailedTask err (ck_StartFailed ck) (promotedTask v (ck_Promoted ck) n ?rq))"
    if "promoted = Some t" for t
  proof -
    from p that have "Promote (ce_Version env) (ce_Starter env) (ck_Promoted ck) (ck_StartFailed ck) ?rq
        (cst_Workflows s) = (Inr t, flow)"
      by (auto simp: promoteDraft_def split: if_splits prod.splits sum.splits)
    then show ?thesis by (rule Promote_task) blast+
  qed
  have fields: "task_TenantID t = req_TenantID req \<and> task_SessionID t = sid
      \<and> task_RequiresApproval t = ?needs \<and> task_ToolName t = prq_ToolName ?rq
      \<and> (?needs \<longrightarrow> task_Status t = StatusWaitingApproval \<or> task_Status t = StatusFailed)"
    if "promoted = Some t" for t
    using task [OF that] rq by (auto simp: promotedTask_def startFailedTask_def)
  have gated: "\<exists>t. promoted = Some t \<and> task_RequiresApproval t
      \<and> (\<exists>res \<in> set (dr_ToolResults d). tr_Status res = ToolApprovalRequired \<and> task_ToolName t = tr_ToolName res)"
    if a: "\<exists>res \<in> set (dr_ToolResults d). tr_Status res = ToolApprovalRequired"
  proof -
    note needs = draftAnswer_invoked(2) [OF d a]
    from a obtain res where "res \<in> set (dr_ToolResults d)" "tr_Status res = ToolApprovalRequired" by blast
    from firstApprovalInvocation_Some [OF draftAnswer_invoked(1) [OF d] this] obtain i where
      i: "firstApprovalInvocation (dr_Invocations d) (dr_ToolResults d) = Some i"
      "\<exists>res' \<in> set (dr_ToolResults d). tr_Status res' = ToolApprovalRequired \<and> tr_ToolName res' = inv_ToolName i"
      by blast
    then have name: "prq_ToolName ?rq = inv_ToolName i" using needs by (simp add: promoteRequestFor_def)
    from needs none obtain t where t: "promoted = Some t" by (auto simp: promotes_def)
    show ?thesis using fields [OF t] t needs name i(2) by auto
  qed
  show ?thesis using none fields gated unfolding r by (auto simp: promotes_def)
qed

subsection \<open>The transcript\<close>

lemma AppendMessage_entries:
  assumes "AppendMessage now sid role content ss = (Inr m, ss')"
  shows "msg_Role m = role" "msg_Content m = content" "msg_SessionID m = sid"
    "entries (sst_messages ss') k = entries (sst_messages ss) k @ (if k = sid then [m] else [])"
    "sst_sessions ss' = sst_sessions ss"
  using assms
  by (auto simp: AppendMessage_def CreateMessage_def Let_def entries_appendEntry split: option.splits)

lemma openSession_entries:
  "openSession req ck ss = (sid, ss0) \<Longrightarrow> sst_messages ss0 = sst_messages ss"
  by (auto simp: openSession_def CreateSession_def store_CreateSession_def Let_def split: if_splits prod.splits)

text \<open>
  A successful request adds exactly two messages to the log: the user's text and the answer
  that is shown, in this order and both in the session of the result; the messages of every
  other session stay as they are.
\<close>

theorem Handle_transcript:
  assumes "Handle env ck req s = (Inr r, s')"
  shows "\<exists>m1 m2. msg_Role m1 = RoleUser \<and> msg_Content m1 = req_UserMessage req \<and> msg_Role m2 = RoleAssistant
    \<and> streamEvent ''done'' [(''session_id'', hr_SessionID r), (''content'', msg_Content m2)] = last (hr_Events r)
    \<and> (\<forall>k. entries (sst_messages (cst_Sessions s')) k = entries (sst_messages (cst_Sessions s)) k
          @ (if k = hr_SessionID r then [m1, m2] else []))"
proof -
  obtain sid ss0 m1 ss1 d promoted m2 ss2 flow w where
    o: "openSession req ck (cst_Sessions s) = (sid, ss0)"
    and a1: "AppendMessage (ck_UserMessage ck) sid RoleUser (req_UserMessage req) ss0 = (Inr m1, ss1)"
    and a2: "AppendMessage (ck_Assistant ck) sid RoleAssistant (dr_Content d) ss1 = (Inr m2, ss2)"
    and r: "r = handleResultFor req sid d promoted"
    and s': "s' = s\<lparr>cst_Sessions := ss2, cst_Workflows := flow, cst_World := w\<rparr>"
    by (rule Handle_success [OF assms]) (rule that)
  have "entries (sst_messages (cst_Sessions s')) k = entries (sst_messages (cst_Sessions s)) k
      @ (if k = hr_SessionID r then [m1, m2] else [])" for k
    using AppendMessage_entries(4) [OF a1, of k] AppendMessage_entries(4) [OF a2, of k]
      openSession_entries [OF o] by (simp add: s' r)
  moreover have "last (hr_Events r) = streamEvent ''done'' [(''session_id'', sid), (''content'', dr_Content d)]"
    by (simp add: r handleResultFor_def buildEvents_def)
  ultimately show ?thesis
    using AppendMessage_entries(1-3) [OF a1] AppendMessage_entries(1-3) [OF a2] r
    by (intro exI [of _ m1] exI [of _ m2]) simp
qed

subsection \<open>Evidence\<close>

definition ofTenant :: "string \<Rightarrow> evidenceBlock list \<Rightarrow> bool" where
  "ofTenant tenant blocks \<longleftrightarrow> (\<forall>b \<in> set blocks. eb_TenantID b = tenant)"

lemma ofTenant_Nil [simp]: "ofTenant tenant []"
  by (simp add: ofTenant_def)

lemma set_zip_snd: "(i, b) \<in> set (zip [0..<n] xs) \<Longrightarrow> b \<in> set xs"
  by (rule set_zip_rightD)

lemma Rerank_tenant: "ofTenant tenant blocks \<Longrightarrow> ofTenant tenant (Rerank parseFloat provider query blocks)"
  by (auto simp: ofTenant_def Rerank_def Let_def dest!: set_zip_snd in_set_takeD)

lemma Compress_tenant: "ofTenant tenant blocks \<Longrightarrow> ofTenant tenant (Compress provider query blocks)"
  by (auto simp: ofTenant_def Compress_def map_filter_def compressOne_def Let_def dest!: set_zip_snd
      split: llmProvider.splits llmReply.splits if_splits)

lemma cragStep_tenant:
  assumes "ofTenant tenant (fst p)" "eb_TenantID (fst x) = tenant"
  shows "ofTenant tenant (fst (cragStep x p))"
proof -
  obtain b v e where x: "x = (b, v, e)" by (cases x)
  obtain fs st where p: "p = (fs, st)" by force
  show ?thesis using assms by (cases v) (simp_all add: x p cragStep_def Let_def ofTenant_def)
qed

lemma fold_cragStep_tenant:
  "\<lbrakk>ofTenant tenant (fst p); ofTenant tenant (map fst xs)\<rbrakk>
   \<Longrightarrow> ofTenant tenant (fst (fold cragStep xs p))"
proof (induction xs arbitrary: p)
  case Nil
  then show ?case by simp
next
  case (Cons x xs)
  have "eb_TenantID (fst x) = tenant" "ofTenant tenant (map fst xs)"
    using Cons.prems(2) by (simp_all add: ofTenant_def)
  with Cons.IH Cons.prems(1) show ?case by (simp add: cragStep_tenant)
qed

lemma CRAG_Filter_tenant:
  assumes "ofTenant tenant blocks"
  shows "ofTenant tenant (fst (CRAG_Filter provider query blocks))"
proof (cases provider)
  case (LiveProvider ask)
  have "ofTenant tenant (map fst (map (\<lambda>(i, b). (b, classify (ask ''crag'' i (passagePrompt query b))))
      (zip [0..<length blocks] blocks)))"
    using assms by (auto simp: ofTenant_def dest!: set_zip_snd)
  then show ?thesis
    using assms LiveProvider by (simp add: CRAG_Filter_def fold_cragStep_tenant del: map_map)
qed (use assms in \<open>simp_all add: CRAG_Filter_def\<close>)

lemma Reorder_tenant: "ofTenant tenant blocks \<Longrightarrow> ofTenant tenant (ReorderLostInTheMiddle blocks)"
  using mset_ReorderLostInTheMiddle [of blocks] by (metis ofTenant_def set_mset_mset)

lemma refineEvidence_tenant:
  "ofTenant tenant blocks \<Longrightarrow> ofTenant tenant (refineEvidence env provider text blocks)"
  unfolding refineEvidence_def Let_def
  by (intro Reorder_tenant CRAG_Filter_tenant Compress_tenant)
    (cases provider; simp add: Rerank_tenant)

text \<open>What a searcher owes its caller: it only returns evidence of the tenant that asks.\<close>

definition tenantSearcher :: "(retrievalRequest \<Rightarrow> string + retrievalResult) \<Rightarrow> bool" where
  "tenantSearcher search \<longleftrightarrow>
     (\<forall>rq res. search rq = Inr res \<longrightarrow> ofTenant (rr_TenantID rq) (rres_EvidenceBlocks res))"

lemma Search_tenantSearcher: "tenantSearcher (\<lambda>rq. Inr (Search catalog rq))"
  by (auto simp: tenantSearcher_def ofTenant_def Search_blocks Let_def
      dest!: set_zip_snd in_set_takeD scoredHits_mem)

lemma retrieveEvidence_tenant:
  assumes "tenantSearcher (ce_Search env)" "retrieveEvidence env provider req sid planID = Inr res"
  shows "ofTenant (req_TenantID req) (rres_EvidenceBlocks res)"
proof -
  let ?message = "req_UserMessage req"
  let ?query = "if HyDE_Rewrite provider ?message \<noteq> [] then HyDE_Rewrite provider ?message else ?message"
  let ?rq = "\<lparr>rr_RequestID = req_RequestID req, rr_TraceID = req_TraceID req,
                rr_TenantID = req_TenantID req, rr_SessionID = sid, rr_PlanID = planID,
                rr_QueryText = ?message, rr_RewrittenQuery = ?query,
                rr_PermissionsScope = [], rr_TopK = 0, rr_UseRerank = False\<rparr>"
  from assms(2) obtain res0 where
    "ce_Search env ?rq = Inr res0"
    "res = res0\<lparr>rres_EvidenceBlocks := refineEvidence env provider ?message (rres_EvidenceBlocks res0)\<rparr>"
    by (auto simp: retrieveEvidence_def Let_def split: sum.splits)
  moreover from this assms(1) have "ofTenant (rr_TenantID ?rq) (rres_EvidenceBlocks res0)"
    unfolding tenantSearcher_def by blast
  ultimately show ?thesis by (simp add: refineEvidence_tenant)
qed

text \<open>
  With a searcher that keeps tenants apart every piece of evidence in the result of a request
  belongs to the tenant of the request, through rewriting, re-ranking, compression, filtering and
  reordering, and also when replanning searches a second time.
\<close>

lemma Handle_evidence_tenant:
  assumes "tenantSearcher (ce_Search env)" "Handle env ck req s = (Inr r, s')"
  shows "\<forall>b \<in> set (rres_EvidenceBlocks (hr_Retrieval r)). eb_TenantID b = req_TenantID req"
proof -
  obtain sid messages d w promoted where
    d: "draftAnswer env req sid messages (cst_World s) = (Inr d, w)"
    and r: "r = handleResultFor req sid d promoted"
    by (rule Handle_success [OF assms(2)]) (rule that)
  obtain plan retrieval where
    first: "firstRetrieval env req sid plan = Inr retrieval"
    and second: "dr_Retrieval d = secondRetrieval env req sid (dr_Plan d) (dr_ReplanCount d) retrieval"
    by (rule draftAnswer_success [OF d]) (rule that)
  have "ofTenant (req_TenantID req) (rres_EvidenceBlocks retrieval)"
    using first retrieveEvidence_tenant [OF assms(1)]
    by (auto simp: firstRetrieval_def emptyRetrieval_def split: if_splits)
  then have "ofTenant (req_TenantID req) (rres_EvidenceBlocks (dr_Retrieval d))"
    unfolding second secondRetrieval_def using retrieveEvidence_tenant [OF assms(1)]
    by (auto simp: emptyRetrieval_def split: sum.splits)
  then show ?thesis by (simp add: r ofTenant_def)
qed

subsection \<open>Requests that succeed\<close>

lemma openSession_new:
  "req_SessionID req = [] \<Longrightarrow> \<exists>sid ss0. openSession req ck ss = (sid, ss0) \<and> sid \<in> dom (sst_sessions ss0)"
  by (simp add: openSession_def CreateSession_def store_CreateSession_def Let_def)

lemma AppendMessage_open:
  "sid \<in> dom (sst_sessions ss) \<Longrightarrow> \<exists>m ss'. AppendMessage now sid role content ss = (Inr m, ss')
     \<and> sst_sessions ss' = sst_sessions ss"
  by (auto simp: AppendMessage_def CreateMessage_def Let_def)

lemma ListMessages_open: "sid \<in> dom (sst_sessions ss) \<Longrightarrow> \<exists>ms. ListMessages sid ss = Inr ms"
  by (auto simp: ListMessages_def)

text \<open>Only the draft and the promotion of a request in a new session can fail.\<close>

lemma Handle_answers:
  assumes "req_SessionID req = []"
    and "\<And>sid messages. \<exists>d w. draftAnswer env req sid messages (cst_World s) = (Inr d, w)"
    and "\<And>sid d. \<exists>p flow. promoteDraft env req ck sid d (cst_Workflows s) = (Inr p, flow)"
  shows "\<exists>r s'. Handle env ck req s = (Inr r, s')"
proof -
  obtain sid ss0 where o: "openSession req ck (cst_Sessions s) = (sid, ss0)" "sid \<in> dom (sst_sessions ss0)"
    using openSession_new [OF assms(1)] by blast
  obtain m1 ss1 where a1: "AppendMessage (ck_UserMessage ck) sid RoleUser (req_UserMessage req) ss0 = (Inr m1, ss1)"
    "sst_sessions ss1 = sst_sessions ss0" using AppendMessage_open [OF o(2)] by blast
  then have open1: "sid \<in> dom (sst_sessions ss1)" using o(2) by simp
  obtain messages where l: "ListMessages sid ss1 = Inr messages" using ListMessages_open [OF open1] by blast
  obtain d w where d: "draftAnswer env req sid messages (cst_World s) = (Inr d, w)" using assms(2) by blast
  obtain p flow where p: "promoteDraft env req ck sid d (cst_Workflows s) = (Inr p, flow)" using assms(3) by blast
  obtain m2 ss2 where "AppendMessage (ck_Assistant ck) sid RoleAssistant (dr_Content d) ss1 = (Inr m2, ss2)"
    using AppendMessage_open [OF open1] by blast
  then show ?thesis by (simp add: Handle_def o(1) a1(1) l d p)
qed

lemma firstRetrieval_total:
  assumes "\<And>rq. \<exists>res. ce_Search env rq = Inr res"
  shows "\<exists>res. firstRetrieval env req sid plan = Inr res"
proof -
  from assms obtain f where "ce_Search env rq = Inr (f rq)" for rq by metis
  then show ?thesis by (simp add: firstRetrieval_def retrieveEvidence_def Let_def)
qed

lemma draftAnswer_total:
  assumes "\<And>rq. \<exists>res. ce_Search env rq = Inr res"
    and "\<And>plan. planFor env req sid messages = (assembled, plan) \<Longrightarrow> req_Mode req = ''eval''
       \<or> (\<exists>x w'. executeToolSteps env req sid plan (ep_Steps plan) [] [] w = (Inr x, w'))"
    and "fst (planFor env req sid messages) = assembled"
  shows "\<exists>d w'. draftAnswer env req sid messages w = (Inr d, w')"
proof -
  obtain plan where p: "planFor env req sid messages = (assembled, plan)" using assms(3) by (metis prod.collapse)
  obtain res where f: "firstRetrieval env req sid plan = Inr res"
    using firstRetrieval_total [OF assms(1)] by blast
  show ?thesis
  proof (cases "req_Mode req = ''eval''")
    case True
    then show ?thesis by (simp add: draftAnswer_def p f Let_def)
  next
    case False
    then obtain a b c e w' where "executeToolSteps env req sid plan (ep_Steps plan) [] [] w = (Inr (a, b, c, e), w')"
      using assms(2) [OF p] by (metis prod_cases4)
    then show ?thesis using False by (simp add: draftAnswer_def p f Let_def)
  qed
qed

text \<open>
  In evaluation mode a request in a new session always gets an answer as long as the
  searcher does: nothing that the language model replies, or fails to reply, makes it fail.
\<close>

theorem eval_mode_answers:
  assumes "req_Mode req = ''eval''" "req_SessionID req = []" "\<And>rq. \<exists>res. ce_Search env rq = Inr res"
  shows "\<exists>r s'. Handle env ck req s = (Inr r, s')"
proof (rule Handle_answers [OF assms(2)])
  show "\<exists>d w. draftAnswer env req sid messages (cst_World s) = (Inr d, w)" for sid messages
    by (rule draftAnswer_total [OF assms(3)]) (simp_all add: assms(1))
  show "\<exists>p flow. promoteDraft env req ck sid d (cst_Workflows s) = (Inr p, flow)" for sid d
    by (simp add: promoteDraft_def promotes_def assms(1))
qed

lemma eval_mode_answers_witness:
  "\<exists>r s'. Handle (demoChat (LiveProvider (\<lambda>_ _ _. Cancelled)) Inl) demoClock (demoChatRequest ''eval'' ''hi'')
     demoChatState = (Inr r, s')"
  by (rule eval_mode_answers) (simp_all add: demoChatRequest_def demoChat_def)

lemma executeToolSteps_noTool:
  "\<forall>st \<in> set steps. ps_Kind st \<noteq> StepKindTool
   \<Longrightarrow> executeToolSteps env req sid plan steps results ivks w = (Inr (results, ivks, 0, plan), w)"
  by (induction steps arbitrary: results ivks w) (simp_all add: executeToolSteps_Cons)

lemma keyword_plan_noTool:
  assumes "pin_AvailableTools input = []"
  shows "\<forall>st \<in> set (ep_Steps (planWithKeywords input planID)). ps_Kind st \<noteq> StepKindTool"
proof -
  have tool: "selectTool input = noTool" using assms by (simp add: selectTool_def Let_def)
  have "ps_Kind st \<noteq> StepKindTool" if "st \<in> set (buildSteps b noTool)" for st b
    using that by (auto simp: buildSteps_def noTool_def emptyStep_def Let_def split: if_splits)
  then show ?thesis
    by (auto simp: planWithKeywords_def tool noTool_def Let_def dest!: in_set_takeD split: if_splits)
qed

text \<open>A service without tools, whose model answers the completion and rejects the draft.\<close>

definition rejectingAsk :: "string \<Rightarrow> nat \<Rightarrow> string \<Rightarrow> llmReply" where
  "rejectingAsk stage i prompt =
     (if stage = ''critic'' then Reply ''{}'' else if stage = ''complete'' then Reply ''harmful''
      else CallFailed ''down'')"

definition rejectingChat :: "(string list, ticketPayload) chatEnv" where
  "rejectingChat = (demoChat (LiveProvider rejectingAsk) Inl)
     \<lparr>ce_Registry := newRegistry,
      ce_UnmarshalCritic := (\<lambda>_. Inr \<lparr>lc_Verdict = VerdictReject, lc_Groundedness = 0,
        lc_CitationCoverage = 0, lc_ToolConsistency = 0, lc_RiskLevel = RiskLevelHigh,
        lc_MissingItems = [], lc_RevisionHints = [], lc_BlockingReasons = [''policy''],
        lc_Reasoning = []\<rparr>)\<rparr>"

lemma ListTools_new [simp]: "ListTools ks newRegistry = []"
  by (simp add: ListTools_def newRegistry_def rangeVals_def map_filter_def)

lemma rejectingChat_plan:
  "planFor rejectingChat req sid messages = (assembled, plan) \<Longrightarrow>
     \<forall>st \<in> set (ep_Steps plan). ps_Kind st \<noteq> StepKindTool"
  by (auto simp: planFor_def Let_def rejectingChat_def demoChat_def plannerLLM_def rejectingAsk_def
      Plan_def planWithLLM_def acceptResponse_def planInputFor_def toPlannerToolDescriptors_def
      dest!: bspec [OF keyword_plan_noTool, rotated])

lemma promoteDraft_total:
  assumes "ce_Version env = None" "ce_Starter env = None"
  shows "\<exists>p flow'. promoteDraft env req ck sid d flow = (Inr p, flow')"
  using assms by (simp add: promoteDraft_def Promote_def Let_def split: prod.splits)

lemma rejectingChat_answers:
  assumes "req_SessionID req = []"
  shows "\<exists>r s'. Handle rejectingChat ck req s = (Inr r, s')"
proof (rule Handle_answers [OF assms])
  have fields: "ce_Version rejectingChat = None" "ce_Starter rejectingChat = None"
    "\<exists>res. ce_Search rejectingChat rq = Inr res" for rq
    by (simp_all add: rejectingChat_def demoChat_def)
  show "\<exists>p flow. promoteDraft rejectingChat req ck sid d (cst_Workflows s) = (Inr p, flow)" for sid d
    by (rule promoteDraft_total) (rule fields)+
  show "\<exists>d w. draftAnswer rejectingChat req sid messages (cst_World s) = (Inr d, w)" for sid messages
  proof (rule draftAnswer_total [OF fields(3) _ refl])
    fix plan assume "planFor rejectingChat req sid messages = (fst (planFor rejectingChat req sid messages), plan)"
    from executeToolSteps_noTool [OF rejectingChat_plan [OF this], of rejectingChat req sid plan "[]" "[]" "cst_World s"]
    show "req_Mode req = ''eval'' \<or>
      (\<exists>x w'. executeToolSteps rejectingChat req sid plan (ep_Steps plan) [] [] (cst_World s) = (Inr x, w'))"
      by blast
  qed
qed

text \<open>The three properties of a successful request at a concrete one.\<close>

lemma demo_answers:
  "\<exists>r s'. Handle rejectingChat demoClock (demoChatRequest ''chat'' ''hi'') demoChatState = (Inr r, s')"
  by (rule rejectingChat_answers) (simp add: demoChatRequest_def)

lemma Handle_promotion_witness:
  "\<exists>r s'. Handle rejectingChat demoClock (demoChatRequest ''chat'' ''hi'') demoChatState = (Inr r, s')
     \<and> (hr_PromotedTask r = None \<longleftrightarrow> \<not> ep_RequiresWorkflow (hr_Plan r)
          \<and> cv_Verdict (hr_Critic r) \<noteq> VerdictPromoteWorkflow)"
proof -
  obtain r s' where h: "Handle rejectingChat demoClock (demoChatRequest ''chat'' ''hi'') demoChatState = (Inr r, s')"
    using demo_answers by blast
  have "req_Mode (demoChatRequest ''chat'' ''hi'') \<noteq> ''eval''" by (simp add: demoChatRequest_def)
  with conjunct1 [OF Handle_promotion [OF h]]
  have "hr_PromotedTask r = None \<longleftrightarrow> \<not> ep_RequiresWorkflow (hr_Plan r)
      \<and> cv_Verdict (hr_Critic r) \<noteq> VerdictPromoteWorkflow" by simp
  with h show ?thesis by (intro exI conjI)
qed

lemma Handle_transcript_witness:
  "\<exists>r s' m1 m2. Handle rejectingChat demoClock (demoChatRequest ''chat'' ''hi'') demoChatState = (Inr r, s')
     \<and> msg_Content m1 = ''hi''
     \<and> entries (sst_messages (cst_Sessions s')) (hr_SessionID r) = [m1, m2]"
proof -
  obtain r s' where h: "Handle rejectingChat demoClock (demoChatRequest ''chat'' ''hi'') demoChatState = (Inr r, s')"
    using demo_answers by blast
  have empty: "entries (sst_messages (cst_Sessions demoChatState)) k = []" for k
    by (simp add: demoChatState_def newSessionStore_def entries_def)
  have message: "req_UserMessage (demoChatRequest ''chat'' ''hi'') = ''hi''" by (simp add: demoChatRequest_def)
  from Handle_transcript [OF h, unfolded empty message] h show ?thesis by fastforce
qed

text \<open>
  A draft that the review rejects is shown and stored all the same: nothing between the
  review and the answer looks at the verdict, except for promotion.
\<close>

theorem rejected_draft_is_delivered:
  "\<exists>env :: (string list, ticketPayload) chatEnv. \<exists>ck req s r s'.
     Handle env ck req s = (Inr r, s') \<and> req_Mode req = ''chat''
     \<and> cv_Verdict (hr_Critic r) = VerdictReject
     \<and> last (hr_Events r) = streamEvent ''done''
         [(''session_id'', hr_SessionID r), (''content'', ''harmful'')]"
proof -
  let ?req = "demoChatRequest ''chat'' ''hi''"
  have req: "req_SessionID ?req = []" "req_Mode ?req = ''chat''" by (simp_all add: demoChatRequest_def)
  obtain r s' where h: "Handle rejectingChat demoClock ?req demoChatState = (Inr r, s')"
    using rejectingChat_answers [OF req(1)] by blast
  obtain sid messages d w promoted flow where
    d: "draftAnswer rejectingChat ?req sid messages (cst_World demoChatState) = (Inr d, w)"
    and p: "promoteDraft rejectingChat ?req demoClock sid d (cst_Workflows demoChatState) = (Inr promoted, flow)"
    and r: "r = handleResultFor ?req sid d promoted"
    by (rule Handle_success [OF h]) (rule that)
  obtain assembled plan where pl: "planFor rejectingChat ?req sid messages = (assembled, plan)" by force
  note steps = executeToolSteps_noTool [OF rejectingChat_plan [OF pl],
      of rejectingChat ?req sid plan "[]" "[]" "cst_World demoChatState"]
  have content: "assistantContent (ce_Provider rejectingChat) ?req blocks = ''harmful''" for blocks
    by (simp add: assistantContent_def rejectingChat_def demoChat_def Complete_def rejectingAsk_def)
  have verdict: "cv_Verdict (Review (ce_UnmarshalCritic rejectingChat) (ce_Provider rejectingChat) input)
      = VerdictReject" if "ci_ToolResults input = []" for input
    using that by (simp add: Review_def rejectingChat_def demoChat_def rejectingAsk_def reviewWithLLM_def
        parseCriticResponse_def validateCriticResponse_def toLLMVerdict_def)
  have "\<exists>res. ce_Search rejectingChat rq = Inr res" for rq by (simp add: rejectingChat_def demoChat_def)
  from firstRetrieval_total [OF this] obtain res where "firstRetrieval rejectingChat ?req sid plan = Inr res"
    by blast
  with d pl steps req(2) have dd: "dr_Content d = ''harmful''" "cv_Verdict (dr_Verdict d) = VerdictReject"
    "dr_Plan d = plan"
    by (auto simp: draftAnswer_def Let_def content verdict)
  show ?thesis
    using h r dd req(2)
    by (intro exI [of _ rejectingChat] exI [of _ demoClock] exI [of _ ?req] exI [of _ demoChatState]
        exI [of _ r] exI [of _ s']) (simp add: handleResultFor_def buildEvents_def)
qed

text \<open>
  A reply with two searches, of which only the second asks for an approval; it passes both
  validators against the default registry.
\<close>

definition searchStep :: "string \<Rightarrow> string \<Rightarrow> bool \<Rightarrow> llmPlanStep" where
  "searchStep name args gated = \<lparr>ls_Kind = StepKindTool, ls_Name = name, ls_DependsOn = [],
     ls_ToolName = ''ticket_search'', ls_ToolArguments = args, ls_ReadOnly = True,
     ls_NeedsApproval = gated\<rparr>"

definition twoSearches :: llmPlanResponse where
  "twoSearches = \<lparr>lr_Intent = IntentIncidentAssist, lr_Reasoning = [], lr_RequiresRetrieval = False,
     lr_RequiresTool = True, lr_RequiresWorkflow = False, lr_RequiresApproval = True,
     lr_OutputSchema = [], lr_Steps = [searchStep ''a'' ''open'' False, searchStep ''b'' ''secret'' True]\<rparr>"

definition demoTools :: "toolDescriptor list" where
  "demoTools = toPlannerToolDescriptors (ListTools [''ticket_comment_create'', ''ticket_search''] demoRegistry)"

lemma toolNames_sorted: "\<not> ''ticket_search'' < ''ticket_comment_create''"
  by code_simp

lemma demoTools_eq:
  "map td_Name demoTools = [''ticket_comment_create'', ''ticket_search'']"
  "\<exists>d. toolMap demoTools ''ticket_search'' = Some d \<and> td_ReadOnly d \<and> \<not> td_RequiresApproval d \<and> \<not> td_AsyncOnly d"
  by (simp_all add: demoTools_def toPlannerToolDescriptors_def ListTools_def rangeVals_def map_filter_def
      demoRegistry_def NewDefaultRegistry_def Register_def toolMap_def goSort_def toolNames_sorted)

lemma twoSearches_valid:
  "validateLLMPlan twoSearches (map td_Name demoTools) = None"
  "validatePlanPolicy twoSearches (toolMap demoTools) noPolicy = None"
  using demoTools_eq(2)
  by (auto simp: validateLLMPlan_def twoSearches_def searchStep_def validIntents_def validKinds_def
      validatePlanPolicy_def checkTenantPolicy_def noPolicy_def demoTools_eq(1))

lemma search_step_runs:
  assumes "ps_ToolName st = ''ticket_search''" "ps_ToolArguments st = args" "trimSpace args = args" "args \<noteq> []"
  shows "Execute (ce_MarshalPayload (demoChat provider u)) (ce_Registry (demoChat provider u))
      (invocationFor req sid planID st args) w
    = (Inr ((baseResult (invocationFor req sid planID st args))
        \<lparr>tr_Status := (if ps_NeedsApproval st then ToolApprovalRequired else ToolSucceeded),
         tr_OutputSummary := (if ps_NeedsApproval st then ''approval required before tool execution''
                              else ''tool execution completed''),
         tr_StructuredData := (if ps_NeedsApproval st then [] else ''ok''),
         tr_ApprovalRef := (if ps_NeedsApproval st then toolCallRef ''approval'' planID (ps_StepID st) else [])\<rparr>), w)"
proof -
  have "inv_ApprovalGranted (invocationFor req sid planID st args) = False"
    "inv_ToolName (invocationFor req sid planID st args) = ''ticket_search''"
    "inv_RequiresApproval (invocationFor req sid planID st args) = ps_NeedsApproval st"
    "inv_PlanID (invocationFor req sid planID st args) = planID"
    "inv_StepID (invocationFor req sid planID st args) = ps_StepID st"
    using assms(1) by (simp_all add: invocationFor_def)
  then show ?thesis
    using assms(3,4)
    by (simp add: Execute_def demoChat_def demoRegistry_def NewDefaultRegistry_def Register_def Lookup_def
        needsApproval_def runTool_def SearchExecutor_def Let_def baseResult_def)
qed

text \<open>
  The invocation to be approved is found by the tool's name alone.  When a plan calls one
  tool twice and only the second call needs an approval, the promoted task gets the arguments of
  the first call, which has already run, and the call that waits is never looked at again.
\<close>

theorem approval_names_wrong_call:
  "\<exists>env :: (string list, ticketPayload) chatEnv. \<exists>req sid plan i j ra rb.
     validateLLMPlan twoSearches (map td_Name demoTools) = None
   \<and> validatePlanPolicy twoSearches (toolMap demoTools) noPolicy = None
   \<and> plan = toLLMPlanResponse ''p'' twoSearches
   \<and> executeToolSteps env req sid plan (ep_Steps plan) [] [] [] = (Inr ([ra, rb], [i, j], 0, plan), [])
   \<and> tr_Status ra = ToolSucceeded \<and> tr_Status rb = ToolApprovalRequired
   \<and> firstApprovalInvocation [i, j] [ra, rb] = Some i
   \<and> inv_Arguments i = ''open'' \<and> inv_Arguments j = ''secret''"
proof -
  let ?plan = "toLLMPlanResponse ''p'' twoSearches"
  let ?a = "toPlanStep 0 (searchStep ''a'' ''open'' False)"
  let ?b = "toPlanStep (Suc 0) (searchStep ''b'' ''secret'' True)"
  let ?req = "demoChatRequest ''chat'' ''hi''"
  let ?env = "demoChat NoProvider Inl"
  have steps: "ep_Steps ?plan = [?a, ?b]"
    by (simp add: toLLMPlanResponse_def twoSearches_def planMaxSteps_def)
  have fields: "ps_Kind ?a = StepKindTool" "ps_Kind ?b = StepKindTool" "ps_ToolName ?a = ''ticket_search''"
    "ps_ToolName ?b = ''ticket_search''" "ps_ToolArguments ?a = ''open''" "ps_ToolArguments ?b = ''secret''"
    "ps_NeedsApproval ?a = False" "ps_NeedsApproval ?b = True"
    by (simp_all add: toPlanStep_def searchStep_def)
  have args: "stepArguments ?env ?req ?a = Inr ''open''" "stepArguments ?env ?req ?b = Inr ''secret''"
    by (simp_all add: stepArguments_def fields)
  have trim: "trimSpace ''open'' = ''open''" "trimSpace ''secret'' = ''secret''" by code_simp+
  note ex = search_step_runs [OF fields(3,5) trim(1), of NoProvider Inl ?req "[]" "ep_PlanID ?plan" "[]"]
    search_step_runs [OF fields(4,6) trim(2), of NoProvider Inl ?req "[]" "ep_PlanID ?plan" "[]"]
  show ?thesis
    by (intro exI [of _ ?env] exI [of _ ?req] exI [of _ "[]"] exI [of _ ?plan] exI)
      (auto simp: twoSearches_valid steps executeToolSteps_Cons(3) [OF fields(1) args(1) ex(1)]
        executeToolSteps_Cons(3) [OF fields(2) args(2) ex(2)] fields baseResult_def)
qed

end
