(* ===== verification/Ingestion.thy ===== *)
theory Ingestion
  imports Retrieval
begin

text \<open>
  Ingestion of documents (\<open>internal/ingestion\<close>): a text is split into sentences, the sentences are
  grouped into chunks where neighbouring embeddings differ, every chunk gets a prefix that
  situates it, and chunks and sentences are written to a store.

  Texts are valid UTF-8, so a byte below 128 is a character and never a part of one.  Vectors hold
  exact numbers.  The embedder, the language model and the context's cancellation are arguments,
  and so are the two operations of the store.
\<close>

subsection \<open>Types\<close>

record document =
  doc_DocumentID :: string
  doc_TenantID :: string
  doc_DocumentVersion :: int
  doc_SourceTitle :: string
  doc_SourceURI :: string
  doc_Content :: string
  doc_PermissionsScope :: string
  doc_PublishedAt :: "time option"

record sentence =
  sn_Text :: string
  sn_Index :: nat
  sn_Embedding :: "rat list"

record chunk =
  chk_ChunkID :: string
  chk_Sentences :: "sentence list"
  chk_Text :: string
  chk_ContextPrefix :: string
  chk_IsParent :: bool

record ingestResult =
  ir_DocumentID :: string
  ir_TenantID :: string
  ir_ChunksStored :: nat
  ir_ParentChunks :: nat
  ir_ChildChunks :: nat

record chunkRecord =
  row_ID :: string
  row_TenantID :: string
  row_DocumentID :: string
  row_DocumentVersion :: int
  row_ChunkID :: string
  row_ParentChunkID :: "string option"
  row_SourceTitle :: string
  row_SourceURI :: string
  row_Snippet :: string
  row_ContextPrefix :: string
  row_Embedding :: "rat list"
  row_PermissionsScope :: string
  row_PublishedAt :: "time option"

datatype ingestError =
    MissingDocumentFields
  | EmbedSentenceFailed nat string
  | EmbedParentFailed nat string
  | UpsertParentFailed nat string
  | EmbedChildFailed nat nat string
  | UpsertChildFailed nat nat string
  | DeleteStaleFailed string
  | IngestCancelled string

type_synonym embedder = "string \<Rightarrow> string + rat list"

subsection \<open>Sentences\<close>

text \<open>\<open>strings.Split\<close> with a non-empty separator.\<close>

function splitOn :: "string \<Rightarrow> string \<Rightarrow> string list" where
  "splitOn sep s =
     (case indexOf s sep of
        None \<Rightarrow> [s]
      | Some i \<Rightarrow> if sep = [] then [s] else take i s # splitOn sep (drop (i + length sep) s))"
  by pat_completeness auto
termination
proof (relation "measure (\<lambda>(sep, s). length s)")
  fix sep s :: string and i
  assume "indexOf s sep = Some i" "sep \<noteq> []"
  then show "((sep, drop (i + length sep) s), sep, s) \<in> measure (\<lambda>(sep, s). length s)"
    by (cases s) (auto split: if_splits)
qed simp

declare splitOn.simps [simp del]

definition isSentenceEnd :: "char \<Rightarrow> string \<Rightarrow> bool" where
  "isSentenceEnd ch rest \<longleftrightarrow>
     (ch = CHR ''.'' \<or> ch = CHR ''?'' \<or> ch = CHR ''!'')
     \<and> (rest = [] \<or> hd rest = CHR '' '' \<or> hd rest = CHR 0x0A \<or> hd rest = CHR 0x0D \<or> hd rest = CHR 0x09)"

fun splitSentencesFrom :: "string \<Rightarrow> string \<Rightarrow> string list" where
  "splitSentencesFrom current [] = (if current \<noteq> [] then [current] else [])"
| "splitSentencesFrom current (c # cs) =
     (if isSentenceEnd c cs then (current @ [c]) # splitSentencesFrom [] cs
      else splitSentencesFrom (current @ [c]) cs)"

definition splitSentences :: "string \<Rightarrow> string list" where
  "splitSentences text = splitSentencesFrom [] text"

definition minSentenceLen :: "int \<Rightarrow> nat" where
  "minSentenceLen minLen = (if minLen \<le> 0 then 10 else nat minLen)"

definition paragraphSentences :: "nat \<Rightarrow> string \<Rightarrow> string list" where
  "paragraphSentences minLen para =
     (let trimmed = trimSpace para
      in if length trimmed < minLen then []
         else filter (\<lambda>part. minLen \<le> length part) (map trimSpace (splitSentences trimmed)))"

definition SplitText :: "int \<Rightarrow> string \<Rightarrow> sentence list" where
  "SplitText minLen text =
     (let texts = concat (map (paragraphSentences (minSentenceLen minLen))
                            (splitOn (newline @ newline) text))
      in map (\<lambda>(i, t). \<lparr>sn_Text = t, sn_Index = i, sn_Embedding = []\<rparr>) (zip [0..<length texts] texts))"

subsection \<open>Chunks\<close>

record chunkerOptions =
  co_Threshold :: real
  co_MinSentences :: int
  co_MaxSentences :: int

record semanticChunker =
  sc_threshold :: real
  sc_minSentences :: nat
  sc_maxSentences :: nat

definition NewSemanticChunker :: "chunkerOptions \<Rightarrow> semanticChunker" where
  "NewSemanticChunker opts =
     \<lparr>sc_threshold = (if co_Threshold opts \<le> 0 then 1 / 2 else co_Threshold opts),
      sc_minSentences = (if co_MinSentences opts \<le> 0 then 2 else nat (co_MinSentences opts)),
      sc_maxSentences = (if co_MaxSentences opts \<le> 0 then 15 else nat (co_MaxSentences opts))\<rparr>"

definition dotProduct :: "rat list \<Rightarrow> rat list \<Rightarrow> rat" where
  "dotProduct a b = sum_list (map2 (*) a b)"

definition cosineSimilarity :: "rat list \<Rightarrow> rat list \<Rightarrow> real" where
  "cosineSimilarity a b =
     (if length a \<noteq> length b \<or> a = [] then 0
      else let denom = sqrt (of_rat (dotProduct a a)) * sqrt (of_rat (dotProduct b b))
           in if denom = 0 then 0 else of_rat (dotProduct a b) / denom)"

fun embedSentences :: "embedder \<Rightarrow> nat \<Rightarrow> sentence list \<Rightarrow> ingestError + sentence list" where
  "embedSentences emb i [] = Inr []"
| "embedSentences emb i (s # ss) =
     (case emb (sn_Text s) of
        Inl err \<Rightarrow> Inl (EmbedSentenceFailed i err)
      | Inr vec \<Rightarrow>
          (case embedSentences emb (i + 1) ss of
             Inl err \<Rightarrow> Inl err
           | Inr rest \<Rightarrow> Inr (s\<lparr>sn_Embedding := vec\<rparr> # rest)))"

definition findBoundaries :: "real \<Rightarrow> rat list list \<Rightarrow> nat list" where
  "findBoundaries threshold embeddings =
     (let similarities = map2 cosineSimilarity embeddings (tl embeddings)
      in map Suc (filter (\<lambda>i. similarities ! i < threshold) [0..<length similarities]))"

fun splitFrom :: "'a list \<Rightarrow> nat \<Rightarrow> nat list \<Rightarrow> 'a list list" where
  "splitFrom xs prev [] = (if prev < length xs then [drop prev xs] else [])"
| "splitFrom xs prev (b # bs) =
     (if prev < b then [take (b - prev) (drop prev xs)] else []) @ splitFrom xs b bs"

definition splitAtBoundaries :: "'a list \<Rightarrow> nat list \<Rightarrow> 'a list list" where
  "splitAtBoundaries xs boundaries = (if boundaries = [] then [xs] else splitFrom xs 0 boundaries)"

text \<open>
  A group is a window of the sentences, and the group that a small one is merged with begins
  where it ends; so the \<open>append\<close> that grows a window in place writes what is already there, and
  lists are a faithful model of the windows.
\<close>

definition mergeStep :: "nat \<Rightarrow> 'a list \<Rightarrow> 'a list list \<Rightarrow> 'a list list" where
  "mergeStep minimum grp merged =
     (if merged \<noteq> [] \<and> length (last merged) < minimum
      then butlast merged @ [last merged @ grp] else merged @ [grp])"

definition mergeTrailing :: "nat \<Rightarrow> 'a list list \<Rightarrow> 'a list list" where
  "mergeTrailing minimum merged =
     (if 1 < length merged \<and> length (last merged) < minimum
      then butlast (butlast merged) @ [last (butlast merged) @ last merged] else merged)"

definition splitOversized :: "nat \<Rightarrow> 'a list \<Rightarrow> 'a list list" where
  "splitOversized maximum grp =
     (if length grp \<le> maximum then [grp]
      else [take (length grp div 2) grp, drop (length grp div 2) grp])"

definition enforceConstraints :: "semanticChunker \<Rightarrow> 'a list list \<Rightarrow> 'a list list" where
  "enforceConstraints c groups =
     concat (map (splitOversized (sc_maxSentences c))
       (mergeTrailing (sc_minSentences c) (fold (mergeStep (sc_minSentences c)) groups [])))"

definition chunkOf :: "nat \<Rightarrow> sentence list \<Rightarrow> chunk" where
  "chunkOf i grp =
     \<lparr>chk_ChunkID = ''chunk-'' @ showNat i, chk_Sentences = grp,
      chk_Text = joinStrings (map sn_Text grp) '' '', chk_ContextPrefix = [], chk_IsParent = True\<rparr>"

definition ChunkSentences :: "embedder \<Rightarrow> semanticChunker \<Rightarrow> sentence list \<Rightarrow> ingestError + chunk list" where
  "ChunkSentences emb c sentences =
     (if sentences = [] then Inr []
      else if length sentences = 1 then Inr [chunkOf 0 sentences]
      else case embedSentences emb 0 sentences of
             Inl err \<Rightarrow> Inl err
           | Inr embedded \<Rightarrow>
               let boundaries = findBoundaries (sc_threshold c) (map sn_Embedding embedded);
                   groups = enforceConstraints c (splitAtBoundaries embedded boundaries)
               in Inr (map (\<lambda>(i, grp). chunkOf i grp) (zip [0..<length groups] groups)))"

subsection \<open>Prefixes\<close>

definition documentContext :: "document \<Rightarrow> string" where
  "documentContext doc =
     (if length (doc_Content doc) > 8000
      then take 8000 (doc_Content doc) @ newline @ ''[...truncated]'' else doc_Content doc)"

definition plainPrefix :: "document \<Rightarrow> string" where
  "plainPrefix doc = ''This chunk is from document: '' @ doc_SourceTitle doc @ ''.''"

definition prefixPrompt :: "document \<Rightarrow> chunk \<Rightarrow> string" where
  "prefixPrompt doc c =
     ''Document:'' @ newline @ documentContext doc @ newline @ newline @ ''Chunk:'' @ newline @ chk_Text c"

definition prefixOne :: "document \<Rightarrow> llmReply \<Rightarrow> chunk \<Rightarrow> chunk" where
  "prefixOne doc reply c =
     (case reply of
        Cancelled \<Rightarrow> c
      | CallFailed _ \<Rightarrow> c\<lparr>chk_ContextPrefix := plainPrefix doc\<rparr>
      | Reply content \<Rightarrow> c\<lparr>chk_ContextPrefix := content\<rparr>)"

definition PrefixChunks :: "llmProvider \<Rightarrow> document \<Rightarrow> chunk list \<Rightarrow> chunk list" where
  "PrefixChunks provider doc chunks =
     (case provider of
        LiveProvider ask \<Rightarrow>
          map (\<lambda>(i, c). prefixOne doc (ask ''prefix'' i (prefixPrompt doc c)) c)
            (zip [0..<length chunks] chunks)
      | _ \<Rightarrow> map (\<lambda>c. c\<lparr>chk_ContextPrefix := plainPrefix doc\<rparr>) chunks)"

subsection \<open>Indexing\<close>

definition parentChunkID :: "document \<Rightarrow> nat \<Rightarrow> string" where
  "parentChunkID doc i = ''doc-'' @ doc_DocumentID doc @ ''-p'' @ showNat i"

definition childChunkID :: "document \<Rightarrow> nat \<Rightarrow> nat \<Rightarrow> string" where
  "childChunkID doc i j = parentChunkID doc i @ ''-c'' @ showNat j"

definition withPrefix :: "chunk \<Rightarrow> string \<Rightarrow> string" where
  "withPrefix c text = chk_ContextPrefix c @ newline @ newline @ text"

definition parentRecord :: "document \<Rightarrow> nat \<Rightarrow> chunk \<Rightarrow> rat list \<Rightarrow> chunkRecord" where
  "parentRecord doc i c vec =
     \<lparr>row_ID = ''rc-'' @ doc_DocumentID doc @ ''-p'' @ showNat i, row_TenantID = doc_TenantID doc,
      row_DocumentID = doc_DocumentID doc, row_DocumentVersion = doc_DocumentVersion doc,
      row_ChunkID = parentChunkID doc i, row_ParentChunkID = None,
      row_SourceTitle = doc_SourceTitle doc, row_SourceURI = doc_SourceURI doc,
      row_Snippet = chk_Text c, row_ContextPrefix = chk_ContextPrefix c, row_Embedding = vec,
      row_PermissionsScope = doc_PermissionsScope doc, row_PublishedAt = doc_PublishedAt doc\<rparr>"

definition childRecord :: "document \<Rightarrow> nat \<Rightarrow> chunk \<Rightarrow> nat \<Rightarrow> sentence \<Rightarrow> rat list \<Rightarrow> chunkRecord" where
  "childRecord doc i c j s vec =
     \<lparr>row_ID = ''rc-'' @ doc_DocumentID doc @ ''-p'' @ showNat i @ ''-c'' @ showNat j,
      row_TenantID = doc_TenantID doc, row_DocumentID = doc_DocumentID doc,
      row_DocumentVersion = doc_DocumentVersion doc, row_ChunkID = childChunkID doc i j,
      row_ParentChunkID = Some (parentChunkID doc i), row_SourceTitle = doc_SourceTitle doc,
      row_SourceURI = doc_SourceURI doc, row_Snippet = sn_Text s,
      row_ContextPrefix = chk_ContextPrefix c, row_Embedding = vec,
      row_PermissionsScope = doc_PermissionsScope doc, row_PublishedAt = doc_PublishedAt doc\<rparr>"

text \<open>
  What a store offers: both operations return an error or a result and the store they leave.
  \<open>cancelled i None\<close> is the error of the context before chunk \<open>i\<close>, \<open>cancelled i (Some j)\<close>
  before its sentence \<open>j\<close>.
\<close>

type_synonym 'w upsertOp = "chunkRecord \<Rightarrow> 'w \<Rightarrow> (string + chunkRecord) \<times> 'w"
type_synonym 'w deleteOp = "string \<Rightarrow> string \<Rightarrow> int \<Rightarrow> string list \<Rightarrow> 'w \<Rightarrow> (string + nat) \<times> 'w"
type_synonym cancellation = "nat \<Rightarrow> nat option \<Rightarrow> string option"

definition childEmbedding :: "embedder \<Rightarrow> chunk \<Rightarrow> sentence \<Rightarrow> string + rat list" where
  "childEmbedding emb c s =
     (if sn_Embedding s = [] then emb (withPrefix c (sn_Text s)) else Inr (sn_Embedding s))"

fun indexSentences ::
    "'w upsertOp \<Rightarrow> embedder \<Rightarrow> cancellation \<Rightarrow> document \<Rightarrow> nat \<Rightarrow> chunk \<Rightarrow> nat \<Rightarrow> sentence list
     \<Rightarrow> string list \<Rightarrow> 'w \<Rightarrow> (ingestError option \<times> nat \<times> string list) \<times> 'w" where
  "indexSentences upsert emb cancelled doc i c j [] ids w = ((None, j, ids), w)"
| "indexSentences upsert emb cancelled doc i c j (s # ss) ids w =
     (case cancelled i (Some j) of
        Some err \<Rightarrow> ((Some (IngestCancelled err), j, ids), w)
      | None \<Rightarrow>
          (case childEmbedding emb c s of
             Inl err \<Rightarrow> ((Some (EmbedChildFailed i j err), j, ids), w)
           | Inr vec \<Rightarrow>
               (case upsert (childRecord doc i c j s vec) w of
                  (Inl err, w') \<Rightarrow> ((Some (UpsertChildFailed i j err), j, ids), w')
                | (Inr _, w') \<Rightarrow>
                    indexSentences upsert emb cancelled doc i c (j + 1) ss
                      (ids @ [childChunkID doc i j]) w')))"

fun indexChunks ::
    "'w upsertOp \<Rightarrow> embedder \<Rightarrow> cancellation \<Rightarrow> document \<Rightarrow> nat \<Rightarrow> chunk list \<Rightarrow> nat
     \<Rightarrow> string list \<Rightarrow> 'w \<Rightarrow> (ingestError option \<times> nat \<times> nat \<times> string list) \<times> 'w" where
  "indexChunks upsert emb cancelled doc i [] children ids w = ((None, i, children, ids), w)"
| "indexChunks upsert emb cancelled doc i (c # cs) children ids w =
     (case cancelled i None of
        Some err \<Rightarrow> ((Some (IngestCancelled err), i, children, ids), w)
      | None \<Rightarrow>
          (case emb (withPrefix c (chk_Text c)) of
             Inl err \<Rightarrow> ((Some (EmbedParentFailed i err), i, children, ids), w)
           | Inr vec \<Rightarrow>
               (case upsert (parentRecord doc i c vec) w of
                  (Inl err, w') \<Rightarrow> ((Some (UpsertParentFailed i err), i, children, ids), w')
                | (Inr _, w') \<Rightarrow>
                    (case indexSentences upsert emb cancelled doc i c 0 (chk_Sentences c)
                            (ids @ [parentChunkID doc i]) w' of
                       ((Some err, n, ids'), w'') \<Rightarrow> ((Some err, i + 1, children + n, ids'), w'')
                     | ((None, n, ids'), w'') \<Rightarrow>
                         indexChunks upsert emb cancelled doc (i + 1) cs (children + n) ids' w''))))"

definition IndexDocument ::
    "'w upsertOp \<Rightarrow> 'w deleteOp \<Rightarrow> embedder \<Rightarrow> cancellation \<Rightarrow> document \<Rightarrow> chunk list \<Rightarrow> 'w
     \<Rightarrow> (ingestError option \<times> nat \<times> nat) \<times> 'w" where
  "IndexDocument upsert deleteStale emb cancelled doc chunks w =
     (case indexChunks upsert emb cancelled doc 0 chunks 0 [] w of
        ((Some err, parents, children, ids), w') \<Rightarrow> ((Some err, parents, children), w')
      | ((None, parents, children, ids), w') \<Rightarrow>
          if doc_DocumentVersion doc > 0
          then (case deleteStale (doc_TenantID doc) (doc_DocumentID doc) (doc_DocumentVersion doc) ids w' of
                  (Inl err, w'') \<Rightarrow> ((Some (DeleteStaleFailed err), parents, children), w'')
                | (Inr _, w'') \<Rightarrow> ((None, parents, children), w''))
          else ((None, parents, children), w'))"

subsection \<open>The pipeline\<close>

record 'w pipeline =
  pl_minLen :: int
  pl_chunker :: semanticChunker
  pl_provider :: llmProvider
  pl_embed :: embedder
  pl_upsert :: "'w upsertOp"
  pl_deleteStale :: "'w deleteOp"

definition Ingest :: "'w pipeline \<Rightarrow> cancellation \<Rightarrow> document \<Rightarrow> 'w \<Rightarrow> (ingestError + ingestResult) \<times> 'w" where
  "Ingest p cancelled doc w =
     (if doc_DocumentID doc = [] \<or> doc_TenantID doc = [] \<or> doc_Content doc = []
      then (Inl MissingDocumentFields, w)
      else
        let sentences = SplitText (pl_minLen p) (doc_Content doc);
            result = \<lparr>ir_DocumentID = doc_DocumentID doc, ir_TenantID = doc_TenantID doc,
                      ir_ChunksStored = 0, ir_ParentChunks = 0, ir_ChildChunks = 0\<rparr>
        in if sentences = [] then (Inr result, w)
           else case ChunkSentences (pl_embed p) (pl_chunker p) sentences of
                  Inl err \<Rightarrow> (Inl err, w)
                | Inr chunks \<Rightarrow>
                    (case IndexDocument (pl_upsert p) (pl_deleteStale p) (pl_embed p) cancelled doc
                            (PrefixChunks (pl_provider p) doc chunks) w of
                       ((Some err, _, _), w') \<Rightarrow> (Inl err, w')
                     | ((None, parents, children), w') \<Rightarrow>
                         (Inr (result\<lparr>ir_ChunksStored := parents + children, ir_ParentChunks := parents,
                                      ir_ChildChunks := children\<rparr>), w')))"

end
