(* ===== verification/Ingestion_Laws.thy ===== *)
theory Ingestion_Laws
  imports Ingestion "HOL-Library.Sublist"
begin

text \<open>
  What splitting and chunking keep of a text: sentences are taken from it in order and chunks
  partition them, and the similarity that decides the boundaries is a cosine.
\<close>

subsection \<open>Splitting at a separator\<close>

lemma indexOf_Some:
  "indexOf s sub = Some i \<Longrightarrow> s = take i s @ sub @ drop (i + length sub) s"
proof (induction s arbitrary: i)
  case Nil
  then show ?case by (simp split: if_splits)
next
  case (Cons c s)
  show ?case
  proof (cases "hasPrefix (c # s) sub")
    case True
    with Cons.prems have "i = 0" by simp
    then show ?thesis using True by (auto simp: hasPrefix_iff)
  next
    case False
    with Cons.prems obtain k where k: "indexOf s sub = Some k" "i = Suc k" by auto
    show ?thesis using Cons.IH [OF k(1)] by (simp add: k(2))
  qed
qed

lemma splitOn_nonempty [simp]: "splitOn sep s \<noteq> []"
  by (subst splitOn.simps) (simp split: option.splits)

lemma joinStrings_Cons: "ys \<noteq> [] \<Longrightarrow> joinStrings (y # ys) sep = y @ sep @ joinStrings ys sep"
  by (cases ys) simp_all

lemma joinStrings_splitOn: "joinStrings (splitOn sep s) sep = s"
proof (induction sep s rule: splitOn.induct)
  case (1 sep s)
  show ?case
  proof (cases "indexOf s sep")
    case None
    then show ?thesis by (simp add: splitOn.simps [of sep s])
  next
    case (Some i)
    show ?thesis
    proof (cases "sep = []")
      case True
      with Some have "splitOn sep s = [s]" by (subst splitOn.simps) simp
      then show ?thesis by simp
    next
      case False
      have "joinStrings (splitOn sep s) sep
          = take i s @ sep @ joinStrings (splitOn sep (drop (i + length sep) s)) sep"
        using Some False by (subst splitOn.simps) (simp add: joinStrings_Cons)
      also have "\<dots> = s" using "1" [OF Some False] indexOf_Some [OF Some] by simp
      finally show ?thesis .
    qed
  qed
qed

lemma subseq_concat_join: "subseq (concat xs) (joinStrings xs sep)"
  by (induction xs sep rule: joinStrings.induct) (auto intro: list_emb_append_mono list_emb_append2)

lemma subseq_concat_map:
  "(\<And>x. x \<in> set xs \<Longrightarrow> subseq (f x) x) \<Longrightarrow> subseq (concat (map f xs)) (concat xs)"
  by (induction xs) (auto intro: list_emb_append_mono)

lemma concat_concat_map: "concat (concat (map f xs)) = concat (map (\<lambda>x. concat (f x)) xs)"
  by (induction xs) auto

lemma subseq_concat_filter: "subseq (concat (filter p xs)) (concat xs)"
  by (induction xs) (auto intro: list_emb_append_mono list_emb_append2)

subsection \<open>Sentences\<close>

lemma concat_splitSentencesFrom: "concat (splitSentencesFrom current body) = current @ body"
  by (induction current body rule: splitSentencesFrom.induct) auto

text \<open>No sentence end lies inside a piece, and every piece but the last stops at one.\<close>

definition sentencePiece :: "string \<Rightarrow> string \<Rightarrow> bool" where
  "sentencePiece piece rest \<longleftrightarrow> piece \<noteq> []
     \<and> (rest \<noteq> [] \<longrightarrow> isSentenceEnd (last piece) rest)
     \<and> (\<forall>i < length piece - 1. \<not> isSentenceEnd (piece ! i) (drop (Suc i) piece @ rest))"

fun sentencePieces :: "string list \<Rightarrow> bool" where
  "sentencePieces [] = True"
| "sentencePieces (p # ps) = (sentencePiece p (concat ps) \<and> sentencePieces ps)"

lemma splitSentencesFrom_pieces:
  assumes "\<forall>i < length current. \<not> isSentenceEnd (current ! i) (drop (Suc i) current @ body)"
  shows "sentencePieces (splitSentencesFrom current body)"
  using assms
proof (induction current body rule: splitSentencesFrom.induct)
  case (1 current)
  then show ?case by (simp add: sentencePiece_def)
next
  case (2 current c cs)
  show ?case
  proof (cases "isSentenceEnd c cs")
    case True
    then have "sentencePieces (splitSentencesFrom [] cs)" using "2.IH"(1) by simp
    moreover have "sentencePiece (current @ [c]) cs"
      using "2.prems" True by (auto simp: sentencePiece_def nth_append)
    ultimately show ?thesis using True by (simp add: concat_splitSentencesFrom)
  next
    case False
    have "\<not> isSentenceEnd ((current @ [c]) ! i) (drop (Suc i) (current @ [c]) @ cs)"
      if "i < length (current @ [c])" for i
      using "2.prems" False that by (cases "i = length current") (auto simp: nth_append)
    then show ?thesis using "2.IH"(2) [OF False] False by simp
  qed
qed

lemma subseq_trimSpace: "subseq (trimSpace s) s"
proof -
  obtain p where p: "s = p @ trimLeft spaceEncodings s" using trimLeft_suffix by blast
  let ?l = "trimLeft spaceEncodings s"
  obtain q where q: "rev ?l = q @ trimLeft (map rev spaceEncodings) (rev ?l)" using trimLeft_suffix by blast
  then have "?l = trimSpace s @ rev q" by (metis rev_append rev_rev_ident trimSpace_def)
  then have "s = p @ trimSpace s @ rev q" using p by simp
  then show ?thesis by (metis list_emb_append2 list_emb_append_mono append_Nil2 list_emb_Nil subseq_order.refl)
qed

lemma paragraphSentences_subseq: "subseq (concat (paragraphSentences minLen para)) para"
proof (cases "length (trimSpace para) < minLen")
  case True
  then show ?thesis by (simp add: paragraphSentences_def Let_def)
next
  case False
  have "subseq (concat (paragraphSentences minLen para)) (concat (map trimSpace (splitSentences (trimSpace para))))"
    using False by (simp add: paragraphSentences_def Let_def subseq_concat_filter)
  also have "subseq \<dots> (concat (splitSentences (trimSpace para)))"
    by (rule subseq_concat_map) (rule subseq_trimSpace)
  also have "\<dots> = trimSpace para" by (simp add: splitSentences_def concat_splitSentencesFrom)
  also have "subseq \<dots> para" by (rule subseq_trimSpace)
  finally show ?thesis .
qed

lemma map_zip_snd: "map (\<lambda>(i, t). f t) (zip [0..<length ts] ts) = map f ts"
  by (rule nth_equalityI) auto

lemma SplitText_texts:
  "map sn_Text (SplitText minLen text)
     = concat (map (paragraphSentences (minSentenceLen minLen)) (splitOn (newline @ newline) text))"
  "map sn_Index (SplitText minLen text) = [0..<length (SplitText minLen text)]"
  by (rule nth_equalityI; simp add: SplitText_def Let_def)+

text \<open>What trimming removes is white space.\<close>

definition blank :: "string \<Rightarrow> bool" where
  "blank s \<longleftrightarrow> (\<exists>xs. set xs \<subseteq> set spaceEncodings \<and> s = concat xs)"

lemma trimLeft_removed: "\<exists>xs. set xs \<subseteq> set es \<and> s = concat xs @ trimLeft es s"
proof (induction es s rule: trimLeft.induct)
  case (1 es s)
  show ?case
  proof (cases "\<exists>r. stripOne es s = Some r \<and> trimLeft es s = trimLeft es r \<and> length r < length s")
    case True
    then obtain r where r: "stripOne es s = Some r" "trimLeft es s = trimLeft es r" "length r < length s" by blast
    then obtain e where e: "e \<in> set es" "s = e @ r" using stripOne_Some by blast
    obtain xs where "set xs \<subseteq> set es" "r = concat xs @ trimLeft es r" using 1 r by metis
    then show ?thesis using e r(2) by (intro exI [of _ "e # xs"]) simp
  next
    case False
    then have "trimLeft es s = s" using trimLeft_step [of es s] by (cases "stripOne es s") (auto simp: trimLeft.simps [of es s])
    then show ?thesis by (intro exI [of _ "[]"]) simp
  qed
qed

lemma trimSpace_blanks: "\<exists>p q. blank p \<and> blank q \<and> s = p @ trimSpace s @ q"
proof -
  obtain xs where xs: "set xs \<subseteq> set spaceEncodings" "s = concat xs @ trimLeft spaceEncodings s"
    using trimLeft_removed by blast
  let ?l = "trimLeft spaceEncodings s"
  obtain ys where ys: "set ys \<subseteq> rev ` set spaceEncodings" "rev ?l = concat ys @ trimLeft (map rev spaceEncodings) (rev ?l)"
    using trimLeft_removed [of "map rev spaceEncodings"] by (metis list.set_map)
  have "?l = trimSpace s @ rev (concat ys)" using arg_cong [OF ys(2), of rev] by (simp add: trimSpace_def)
  moreover have "blank (rev (concat ys))"
  proof -
    have "rev (concat ys) = concat (rev (map rev ys))" by (simp add: rev_concat rev_map)
    moreover have "set (rev (map rev ys)) \<subseteq> set spaceEncodings" using ys(1) by auto
    ultimately show ?thesis unfolding blank_def by blast
  qed
  moreover have "blank (concat xs)" using xs(1) unfolding blank_def by blast
  ultimately show ?thesis using xs(2) by metis
qed

text \<open>A paragraph that is too short has no long sentence, so skipping it loses nothing.\<close>

lemma length_trimSpace: "length (trimSpace s) \<le> length s"
  using subseq_trimSpace by (rule list_emb_length)

lemma paragraphSentences_filter:
  "paragraphSentences m para = filter (\<lambda>t. m \<le> length t) (map trimSpace (splitSentences (trimSpace para)))"
proof (cases "length (trimSpace para) < m")
  case True
  have "length (trimSpace x) < m" if "x \<in> set (splitSentences (trimSpace para))" for x
  proof -
    have "length x \<le> length (concat (splitSentences (trimSpace para)))"
      using split_list [OF that] by auto
    then show ?thesis
      using True length_trimSpace [of x] by (simp add: splitSentences_def concat_splitSentencesFrom)
  qed
  then show ?thesis using True by (auto simp: paragraphSentences_def Let_def filter_empty_conv not_le)
qed (simp add: paragraphSentences_def Let_def)

lemma concat_map_filter: "concat (map (\<lambda>x. filter p (f x)) xs) = filter p (concat (map f xs))"
  by (induction xs) simp_all

text \<open>
  C32: Splitting loses nothing but white space and short pieces: the paragraphs are the text, trimming
  removes white space only, the pieces of a paragraph concatenate to it and end exactly at its
  sentence ends, and the sentences of the text are all the trimmed pieces of all its paragraphs that
  have the minimal length, in order.  They are numbered from 0 and do not overlap in the text.
\<close>

theorem SplitText_sound:
  "concat (splitSentences para) = para \<and> sentencePieces (splitSentences para)
   \<and> (\<exists>p q. blank p \<and> blank q \<and> para = p @ trimSpace para @ q)
   \<and> joinStrings (splitOn (newline @ newline) text) (newline @ newline) = text
   \<and> map sn_Text (SplitText minLen text) = filter (\<lambda>t. minSentenceLen minLen \<le> length t)
       (map trimSpace (concat (map (splitSentences \<circ> trimSpace) (splitOn (newline @ newline) text))))
   \<and> map sn_Index (SplitText minLen text) = [0..<length (SplitText minLen text)]
   \<and> subseq (concat (map sn_Text (SplitText minLen text))) text
   \<and> list_all (\<lambda>s. trimSpace (sn_Text s) = sn_Text s \<and> minSentenceLen minLen \<le> length (sn_Text s))
       (SplitText minLen text)"
proof -
  let ?paras = "splitOn (newline @ newline) text"
  let ?split = "paragraphSentences (minSentenceLen minLen)"
  have "subseq (concat (concat (map ?split ?paras))) (concat ?paras)"
    unfolding concat_concat_map by (rule subseq_concat_map) (rule paragraphSentences_subseq)
  also have "subseq \<dots> (joinStrings ?paras (newline @ newline))" by (rule subseq_concat_join)
  finally have order: "subseq (concat (map sn_Text (SplitText minLen text))) text"
    by (simp add: SplitText_texts joinStrings_splitOn)
  have all: "map sn_Text (SplitText minLen text) = filter (\<lambda>t. minSentenceLen minLen \<le> length t)
       (map trimSpace (concat (map (splitSentences \<circ> trimSpace) ?paras)))"
    unfolding SplitText_texts(1) paragraphSentences_filter concat_map_filter by (simp add: map_concat comp_def)
  have "trimSpace t = t \<and> minSentenceLen minLen \<le> length t"
    if "t \<in> set (map sn_Text (SplitText minLen text))" for t
    using that unfolding all by auto
  then have "list_all (\<lambda>s. trimSpace (sn_Text s) = sn_Text s \<and> minSentenceLen minLen \<le> length (sn_Text s))
      (SplitText minLen text)" by (simp add: list_all_iff)
  then show ?thesis
    using order all splitSentencesFrom_pieces [of "[]" para] trimSpace_blanks [of para]
    by (simp add: splitSentences_def concat_splitSentencesFrom joinStrings_splitOn SplitText_texts(2))
qed

lemma SplitText_sound_witness:
  "map sn_Text (SplitText 0 (''Restart it twice. Then wait!'' @ newline @ newline @ ''ok '' @ newline @ newline
     @ '' Version 1.2 is fine? Yes, it is fine.''))
   = [''Restart it twice.'', ''Then wait!'', ''Version 1.2 is fine?'', ''Yes, it is fine.'']"
  (is "map sn_Text (SplitText 0 ?text) = _")
proof -
  have "map sn_Text (SplitText 0 ?text) = filter (\<lambda>t. minSentenceLen 0 \<le> length t)
      (map trimSpace (concat (map (splitSentences \<circ> trimSpace) (splitOn (newline @ newline) ?text))))"
    using SplitText_sound [of _ ?text 0] by blast
  also have "\<dots> = [''Restart it twice.'', ''Then wait!'', ''Version 1.2 is fine?'', ''Yes, it is fine.'']"
    by code_simp
  finally show ?thesis .
qed

subsection \<open>Boundaries\<close>

lemma splitFrom_concat:
  assumes "sorted bs" "\<forall>b \<in> set bs. prev \<le> b \<and> b \<le> length xs"
  shows "concat (splitFrom xs prev bs) = drop prev xs" "[] \<notin> set (splitFrom xs prev bs)"
proof -
  have "concat (splitFrom xs prev bs) = drop prev xs \<and> [] \<notin> set (splitFrom xs prev bs)"
    using assms
  proof (induction bs arbitrary: prev)
    case Nil
    then show ?case by simp
  next
    case (Cons b bs)
    have ih: "concat (splitFrom xs b bs) = drop b xs \<and> [] \<notin> set (splitFrom xs b bs)"
      using Cons.prems by (intro Cons.IH) auto
    have b: "prev \<le> b" "b \<le> length xs" using Cons.prems by auto
    have "take (b - prev) (drop prev xs) @ drop b xs = drop prev xs"
      using b by (metis append_take_drop_id drop_drop le_add_diff_inverse2)
    then show ?case using ih b by auto
  qed
  then show "concat (splitFrom xs prev bs) = drop prev xs" "[] \<notin> set (splitFrom xs prev bs)" by simp_all
qed

lemma findBoundaries_sorted:
  "sorted (findBoundaries thr vecs)" "b \<in> set (findBoundaries thr vecs) \<Longrightarrow> 0 < b \<and> b < length vecs"
  by (auto simp: findBoundaries_def Let_def sorted_map intro!: sorted_wrt_filter)

lemma splitAtBoundaries_concat:
  assumes "sorted bs" "\<forall>b \<in> set bs. b \<le> length xs" "xs \<noteq> []"
  shows "concat (splitAtBoundaries xs bs) = xs" "[] \<notin> set (splitAtBoundaries xs bs)"
  using splitFrom_concat [of bs 0 xs] assms by (auto simp: splitAtBoundaries_def)

subsection \<open>Size constraints\<close>

lemma mergeStep_concat: "concat (mergeStep m g merged) = concat merged @ g"
  by (cases merged rule: rev_cases) (simp_all add: mergeStep_def)

lemma fold_mergeStep_concat: "concat (fold (mergeStep m) gs merged) = concat merged @ concat gs"
  by (induction gs arbitrary: merged) (simp_all add: mergeStep_concat)

text \<open>All groups but the last are large enough, and no group is empty.\<close>

definition almostLarge :: "nat \<Rightarrow> 'a list list \<Rightarrow> bool" where
  "almostLarge m gs \<longleftrightarrow> (\<forall>g \<in> set (butlast gs). m \<le> length g) \<and> [] \<notin> set gs"

lemma mergeStep_almostLarge: "\<lbrakk>almostLarge m merged; g \<noteq> []\<rbrakk> \<Longrightarrow> almostLarge m (mergeStep m g merged)"
  by (cases merged rule: rev_cases) (auto simp: almostLarge_def mergeStep_def butlast_append)

lemma fold_mergeStep_almostLarge:
  "\<lbrakk>almostLarge m merged; [] \<notin> set gs\<rbrakk> \<Longrightarrow> almostLarge m (fold (mergeStep m) gs merged)"
  by (induction gs arbitrary: merged) (auto simp: mergeStep_almostLarge)

lemma mergeTrailing_spec:
  assumes "almostLarge m gs"
  shows "concat (mergeTrailing m gs) = concat gs" "[] \<notin> set (mergeTrailing m gs)"
    "m \<le> length (concat gs) \<Longrightarrow> \<forall>g \<in> set (mergeTrailing m gs). m \<le> length g"
proof -
  have "concat (mergeTrailing m gs) = concat gs \<and> [] \<notin> set (mergeTrailing m gs)
      \<and> (m \<le> length (concat gs) \<longrightarrow> (\<forall>g \<in> set (mergeTrailing m gs). m \<le> length g))"
  proof (cases gs rule: rev_cases)
    case Nil
    then show ?thesis by (simp add: mergeTrailing_def)
  next
    case (snoc hs z)
    show ?thesis
    proof (cases hs rule: rev_cases)
      case Nil
      then show ?thesis using snoc assms by (simp add: mergeTrailing_def almostLarge_def)
    next
      case (snoc hs' y)
      show ?thesis using \<open>gs = hs @ [z]\<close> snoc assms
        by (auto simp: mergeTrailing_def almostLarge_def butlast_append)
    qed
  qed
  then show "concat (mergeTrailing m gs) = concat gs" "[] \<notin> set (mergeTrailing m gs)"
    "m \<le> length (concat gs) \<Longrightarrow> \<forall>g \<in> set (mergeTrailing m gs). m \<le> length g" by simp_all
qed

lemma splitOversized_spec:
  "concat (splitOversized k g) = g"
  "\<lbrakk>0 < k; g \<noteq> []\<rbrakk> \<Longrightarrow> [] \<notin> set (splitOversized k g)"
  "h \<in> set (splitOversized k g) \<Longrightarrow> length h \<le> max k ((length g + 1) div 2)"
  "\<lbrakk>m \<le> length g; 2 * m \<le> k + 1; h \<in> set (splitOversized k g)\<rbrakk> \<Longrightarrow> m \<le> length h"
  by (auto simp: splitOversized_def split: if_splits)

lemma concat_map_splitOversized: "concat (concat (map (splitOversized k) gs)) = concat gs"
  by (induction gs) (simp_all add: splitOversized_spec(1))

text \<open>What the constraints make of any grouping: the same sentences, in groups of a bounded size.\<close>

lemma enforceConstraints_spec:
  assumes "[] \<notin> set gs" "0 < sc_maxSentences c"
  shows "concat (enforceConstraints c gs) = concat gs" "[] \<notin> set (enforceConstraints c gs)"
    "\<forall>h \<in> set (enforceConstraints c gs). length h \<le> max (sc_maxSentences c) ((length (concat gs) + 1) div 2)"
    "\<lbrakk>sc_minSentences c \<le> length (concat gs); 2 * sc_minSentences c \<le> sc_maxSentences c + 1\<rbrakk>
      \<Longrightarrow> \<forall>h \<in> set (enforceConstraints c gs). sc_minSentences c \<le> length h"
proof -
  let ?m = "sc_minSentences c" and ?k = "sc_maxSentences c"
  let ?merged = "fold (mergeStep ?m) gs []"
  have "almostLarge ?m ?merged" using assms(1) by (intro fold_mergeStep_almostLarge) (simp_all add: almostLarge_def)
  note t = mergeTrailing_spec [OF this, unfolded fold_mergeStep_concat, simplified]
  show "concat (enforceConstraints c gs) = concat gs"
    by (simp add: enforceConstraints_def concat_map_splitOversized t(1))
  show "[] \<notin> set (enforceConstraints c gs)"
  proof
    assume "[] \<in> set (enforceConstraints c gs)"
    then obtain g where "g \<in> set (mergeTrailing ?m ?merged)" "[] \<in> set (splitOversized ?k g)"
      by (auto simp: enforceConstraints_def)
    with t(2) splitOversized_spec(2) [OF assms(2), of g] show False by metis
  qed
  have size: "length g \<le> length (concat gs)" if "g \<in> set (mergeTrailing ?m ?merged)" for g
    using split_list [OF that] t(1) by (metis concat.simps(2) concat_append le_add1 le_add2 le_trans length_append)
  show "\<forall>h \<in> set (enforceConstraints c gs). length h \<le> max ?k ((length (concat gs) + 1) div 2)"
  proof
    fix h assume "h \<in> set (enforceConstraints c gs)"
    then obtain g where g: "g \<in> set (mergeTrailing ?m ?merged)" "h \<in> set (splitOversized ?k g)"
      by (auto simp: enforceConstraints_def)
    have "(length g + 1) div 2 \<le> (length (concat gs) + 1) div 2" using size [OF g(1)] by simp
    then show "length h \<le> max ?k ((length (concat gs) + 1) div 2)"
      using splitOversized_spec(3) [OF g(2)] by linarith
  qed
  show "\<lbrakk>?m \<le> length (concat gs); 2 * ?m \<le> ?k + 1\<rbrakk> \<Longrightarrow> \<forall>h \<in> set (enforceConstraints c gs). ?m \<le> length h"
    using t(3) splitOversized_spec(4) [of ?m _ ?k] by (auto simp: enforceConstraints_def)
qed

subsection \<open>Chunks\<close>

lemma embedSentences_keeps:
  "embedSentences emb i ss = Inr es \<Longrightarrow> length es = length ss \<and> map sn_Text es = map sn_Text ss
     \<and> map sn_Index es = map sn_Index ss \<and> (\<forall>s \<in> set es. emb (sn_Text s) = Inr (sn_Embedding s))"
  by (induction ss arbitrary: i es) (auto split: sum.splits)

lemma chunkOf_simps [simp]:
  "chk_Sentences (chunkOf i g) = g" "chk_ChunkID (chunkOf i g) = ''chunk-'' @ showNat i"
  "chk_Text (chunkOf i g) = joinStrings (map sn_Text g) '' ''"
  by (simp_all add: chunkOf_def)

lemma chunks_of_groups:
  assumes "chunks = map (\<lambda>(i, g). chunkOf i g) (zip [0..<length groups] groups)"
  shows "map chk_Sentences chunks = groups" "length chunks = length groups"
    "map chk_ChunkID chunks = map (\<lambda>i. ''chunk-'' @ showNat i) [0..<length chunks]"
    "\<forall>ch \<in> set chunks. chk_Text ch = joinStrings (map sn_Text (chk_Sentences ch)) '' ''"
  unfolding assms by (auto intro!: nth_equalityI simp: set_zip)

lemma NewSemanticChunker_pos: "0 < sc_minSentences (NewSemanticChunker opts)"
  "0 < sc_maxSentences (NewSemanticChunker opts)"
  by (simp_all add: NewSemanticChunker_def)

lemma ChunkSentences_cases:
  assumes "ChunkSentences emb c ss = Inr chunks"
  obtains (none) "ss = []" "chunks = []"
  | (one) s where "ss = [s]" "chunks = [chunkOf 0 [s]]"
  | (many) es groups where "embedSentences emb 0 ss = Inr es" "1 < length ss"
      "groups = enforceConstraints c (splitAtBoundaries es (findBoundaries (sc_threshold c) (map sn_Embedding es)))"
      "chunks = map (\<lambda>(i, g). chunkOf i g) (zip [0..<length groups] groups)"
proof -
  consider "ss = []" | s where "ss = [s]" | "1 < length ss"
    by (cases ss rule: remdups_adj.cases) auto
  then show thesis
  proof cases
    case 3
    then have "ss \<noteq> []" "length ss \<noteq> 1" by auto
    with assms many 3 show thesis by (auto simp: ChunkSentences_def Let_def split: sum.splits)
  qed (use assms none one in \<open>auto simp: ChunkSentences_def\<close>)
qed

text \<open>A chunk of \<open>n\<close> sentences in all: its text, and how many of them it has.\<close>

definition chunkFits :: "semanticChunker \<Rightarrow> nat \<Rightarrow> chunk \<Rightarrow> bool" where
  "chunkFits c n ch \<longleftrightarrow> chk_Sentences ch \<noteq> []
     \<and> chk_Text ch = joinStrings (map sn_Text (chk_Sentences ch)) '' ''
     \<and> length (chk_Sentences ch) \<le> max (sc_maxSentences c) ((n + 1) div 2)
     \<and> (sc_minSentences c \<le> n \<and> 2 * sc_minSentences c \<le> sc_maxSentences c + 1
         \<longrightarrow> sc_minSentences c \<le> length (chk_Sentences ch))"

lemma ChunkSentences_parts:
  assumes "c = NewSemanticChunker opts" "ChunkSentences emb c ss = Inr chunks"
  shows "map (\<lambda>s. (sn_Index s, sn_Text s)) (concat (map chk_Sentences chunks)) = map (\<lambda>s. (sn_Index s, sn_Text s)) ss
    \<and> map chk_ChunkID chunks = map (\<lambda>i. ''chunk-'' @ showNat i) [0..<length chunks]
    \<and> (\<forall>ch \<in> set chunks. chunkFits c (length ss) ch)
    \<and> (\<forall>s \<in> set (concat (map chk_Sentences chunks)). s \<in> set ss \<or> emb (sn_Text s) = Inr (sn_Embedding s))"
using assms(2)
proof (cases rule: ChunkSentences_cases)
  case (many es groups)
  note e = embedSentences_keeps [OF many(1)] and ch = chunks_of_groups [OF many(4)]
  let ?bs = "findBoundaries (sc_threshold c) (map sn_Embedding es)"
  have "\<forall>b \<in> set ?bs. b \<le> length es" "es \<noteq> []"
    using findBoundaries_sorted(2) [of _ "sc_threshold c" "map sn_Embedding es"] e many(2) by fastforce+
  note split = splitAtBoundaries_concat [OF findBoundaries_sorted(1) this]
  have pos: "0 < sc_maxSentences c" by (simp add: assms(1) NewSemanticChunker_pos)
  note en = enforceConstraints_spec [OF split(2) pos, folded many(3), unfolded split(1)]
  have texts: "map (\<lambda>s. (sn_Index s, sn_Text s)) es = map (\<lambda>s. (sn_Index s, sn_Text s)) ss"
    using e by (simp add: list_eq_iff_nth_eq)
  have each: "chk_Sentences x \<in> set groups" if "x \<in> set chunks" for x
    using that ch(1) by (metis imageI list.set_map)
  have "chunkFits c (length ss) x" if "x \<in> set chunks" for x
    unfolding chunkFits_def using each [OF that] bspec [OF en(3), OF each [OF that]] en(2,4) bspec [OF ch(4) that] e by metis
  moreover have "concat (map chk_Sentences chunks) = es" by (simp add: ch(1) en(1))
  ultimately show ?thesis using texts ch(3) e by (intro conjI ballI) simp_all
next
  case (one s)
  then show ?thesis by (auto simp: chunkFits_def le_max_iff_disj)
qed simp

text \<open>
  C31: Chunking partitions the sentences: the chunks hold them all, in order and each once, no
  chunk is empty, the chunks are numbered from 0 and carry the joined text of their sentences.
  When there are enough sentences and the limits leave room every chunk has the minimal number of
  them; the maximal number can be exceeded, but never by more than half of all sentences.
\<close>

theorem Chunk_partition:
  assumes "c = NewSemanticChunker opts" "ChunkSentences emb c ss = Inr chunks"
  shows "map (\<lambda>s. (sn_Index s, sn_Text s)) (concat (map chk_Sentences chunks)) = map (\<lambda>s. (sn_Index s, sn_Text s)) ss
    \<and> map chk_ChunkID chunks = map (\<lambda>i. ''chunk-'' @ showNat i) [0..<length chunks]
    \<and> (\<forall>ch \<in> set chunks. chk_Sentences ch \<noteq> []
        \<and> chk_Text ch = joinStrings (map sn_Text (chk_Sentences ch)) '' ''
        \<and> length (chk_Sentences ch) \<le> max (sc_maxSentences c) ((length ss + 1) div 2)
        \<and> (sc_minSentences c \<le> length ss \<and> 2 * sc_minSentences c \<le> sc_maxSentences c + 1
            \<longrightarrow> sc_minSentences c \<le> length (chk_Sentences ch)))"
  using ChunkSentences_parts [OF assms] unfolding chunkFits_def by blast

text \<open>Sentences whose embeddings are all alike: there is no boundary, so only the limits cut.\<close>

definition demoSentences :: "nat \<Rightarrow> sentence list" where
  "demoSentences n = map (\<lambda>i. \<lparr>sn_Text = showNat i, sn_Index = i, sn_Embedding = []\<rparr>) [0..<n]"

definition defaultChunker :: semanticChunker where
  "defaultChunker = NewSemanticChunker \<lparr>co_Threshold = 0, co_MinSentences = 0, co_MaxSentences = 0\<rparr>"

lemma defaultChunker_simps [simp]:
  "sc_threshold defaultChunker = 1 / 2" "sc_minSentences defaultChunker = 2" "sc_maxSentences defaultChunker = 15"
  by (simp_all add: defaultChunker_def NewSemanticChunker_def)

lemma embedSentences_const: "embedSentences (\<lambda>_. Inr v) i ss = Inr (map (\<lambda>s. s\<lparr>sn_Embedding := v\<rparr>) ss)"
  by (induction ss arbitrary: i) simp_all

lemma cosineSimilarity_unit: "cosineSimilarity [1] [1] = 1"
  by (simp add: cosineSimilarity_def dotProduct_def)

lemma findBoundaries_const: "thr \<le> 1 \<Longrightarrow> findBoundaries thr (replicate n [1]) = []"
proof -
  assume "thr \<le> 1"
  have "map2 cosineSimilarity (replicate n [1]) (tl (replicate n [1])) = replicate (n - 1) (1::real)"
    by (rule nth_equalityI) (simp_all add: nth_tl cosineSimilarity_unit)
  then show ?thesis using \<open>thr \<le> 1\<close> by (simp add: findBoundaries_def Let_def filter_empty_conv)
qed

lemma ChunkSentences_const:
  assumes "1 < n" "sc_threshold c \<le> 1"
  shows "\<exists>chunks. ChunkSentences (\<lambda>_. Inr [1]) c (demoSentences n) = Inr chunks
    \<and> map (\<lambda>ch. length (chk_Sentences ch)) chunks
        = (if n \<le> sc_maxSentences c then [n] else [n div 2, n - n div 2])"
proof -
  let ?es = "map (\<lambda>s. s\<lparr>sn_Embedding := [1]\<rparr>) (demoSentences n)"
  have len: "length (demoSentences n) = n" by (simp add: demoSentences_def)
  then have "demoSentences n \<noteq> []" "length (demoSentences n) \<noteq> 1" using assms(1) by auto
  moreover have "map sn_Embedding ?es = replicate n [1]" by (rule nth_equalityI) (simp_all add: len)
  moreover have "enforceConstraints c [?es] = splitOversized (sc_maxSentences c) ?es"
    by (simp add: enforceConstraints_def mergeStep_def mergeTrailing_def)
  ultimately show ?thesis using assms(2)
    by (auto simp: ChunkSentences_def embedSentences_const findBoundaries_const splitAtBoundaries_def
        splitOversized_def len chunkOf_def Let_def)
qed

lemma Chunk_partition_witness:
  "\<exists>chunks. ChunkSentences (\<lambda>_. Inr [1]) defaultChunker (demoSentences 20) = Inr chunks
     \<and> map sn_Index (concat (map chk_Sentences chunks)) = [0..<20]"
proof -
  obtain chunks where c: "ChunkSentences (\<lambda>_. Inr [1]) defaultChunker (demoSentences 20) = Inr chunks"
    using ChunkSentences_const [of 20 defaultChunker] by auto
  from Chunk_partition [OF defaultChunker_def c]
  have "map (\<lambda>s. (sn_Index s, sn_Text s)) (concat (map chk_Sentences chunks))
      = map (\<lambda>s. (sn_Index s, sn_Text s)) (demoSentences 20)" by (rule conjunct1)
  then have "map fst (map (\<lambda>s. (sn_Index s, sn_Text s)) (concat (map chk_Sentences chunks)))
      = map fst (map (\<lambda>s. (sn_Index s, sn_Text s)) (demoSentences 20))" by simp
  then have "map sn_Index (concat (map chk_Sentences chunks)) = [0..<20]"
    by (simp add: demoSentences_def comp_def)
  with c show ?thesis by blast
qed

text \<open>
  The maximal number of sentences is not kept: a group is halved once, so 32 sentences
  without a boundary give two chunks of 16 under the default limit of 15.
\<close>

theorem chunks_exceed_maximum:
  "sc_maxSentences defaultChunker = 15
   \<and> (\<exists>chunks. ChunkSentences (\<lambda>_. Inr [1]) defaultChunker (demoSentences 32) = Inr chunks
        \<and> map (\<lambda>ch. length (chk_Sentences ch)) chunks = [16, 16])"
  using ChunkSentences_const [of 32 defaultChunker] by simp

subsection \<open>The similarity\<close>

lemma dotProduct_Cons: "dotProduct (x # a) (y # b) = x * y + dotProduct a b"
  by (simp add: dotProduct_def)

lemma dotProduct_self_nonneg: "0 \<le> dotProduct a a"
  by (induction a) (simp_all add: dotProduct_Cons, simp add: dotProduct_def)

lemma dotProduct_commute: "dotProduct a b = dotProduct b a"
  by (induction a b rule: list_induct2') (simp_all add: dotProduct_Cons mult.commute, simp_all add: dotProduct_def)

lemma cross_term:
  fixes x y d p q :: rat
  assumes "d\<^sup>2 \<le> p * q" "0 \<le> p" "0 \<le> q"
  shows "2 * (x * y * d) \<le> x\<^sup>2 * q + y\<^sup>2 * p"
proof (rule power2_le_imp_le)
  have "(2 * (x * y * d))\<^sup>2 = 4 * (x * y)\<^sup>2 * d\<^sup>2" by (simp add: power2_eq_square algebra_simps)
  also have "\<dots> \<le> 4 * (x * y)\<^sup>2 * (p * q)" by (rule mult_left_mono [OF assms(1)]) simp
  also have "\<dots> \<le> (x\<^sup>2 * q + y\<^sup>2 * p)\<^sup>2"
    using zero_le_power2 [of "x\<^sup>2 * q - y\<^sup>2 * p"] by (simp add: power2_eq_square algebra_simps)
  finally show "(2 * (x * y * d))\<^sup>2 \<le> (x\<^sup>2 * q + y\<^sup>2 * p)\<^sup>2" .
qed (simp add: assms)

lemma cauchy_schwarz: "length a = length b \<Longrightarrow> (dotProduct a b)\<^sup>2 \<le> dotProduct a a * dotProduct b b"
proof (induction a b rule: list_induct2)
  case Nil
  then show ?case by (simp add: dotProduct_def)
next
  case (Cons x a y b)
  have "2 * (x * y * dotProduct a b) \<le> x\<^sup>2 * dotProduct b b + y\<^sup>2 * dotProduct a a"
    using Cons.IH by (rule cross_term) (rule dotProduct_self_nonneg)+
  with Cons.IH show ?case by (simp add: dotProduct_Cons power2_eq_square algebra_simps)
qed

lemma abs_le_sqrt:
  fixes d p q :: rat
  assumes "d\<^sup>2 \<le> p * q"
  shows "\<bar>of_rat d\<bar> \<le> sqrt (of_rat p) * sqrt (of_rat q)"
proof -
  have "(of_rat d :: real)\<^sup>2 \<le> of_rat p * of_rat q"
    using assms by (metis of_rat_less_eq of_rat_mult of_rat_power)
  then show ?thesis by (metis real_sqrt_abs real_sqrt_le_iff real_sqrt_mult)
qed

lemma quotient_bound: "\<lbrakk>\<bar>x\<bar> \<le> d; 0 \<le> d\<rbrakk> \<Longrightarrow> \<bar>x / d\<bar> \<le> (1::real)"
  by (cases "d = 0") (simp_all add: abs_divide)

text \<open>
  The similarity of two vectors lies between -1 and 1, does not depend on their order, and is
  1 for a vector that is not zero and itself.
\<close>

theorem cosineSimilarity_bounds:
  "\<bar>cosineSimilarity a b\<bar> \<le> 1 \<and> cosineSimilarity a b = cosineSimilarity b a
   \<and> cosineSimilarity a a = (if dotProduct a a = 0 then 0 else 1)"
proof (intro conjI)
  show "\<bar>cosineSimilarity a b\<bar> \<le> 1"
  proof (cases "length a \<noteq> length b \<or> a = []")
    case False
    then have "\<bar>of_rat (dotProduct a b)\<bar> \<le> sqrt (of_rat (dotProduct a a)) * sqrt (of_rat (dotProduct b b))"
      by (intro abs_le_sqrt cauchy_schwarz) simp
    then have "\<bar>of_rat (dotProduct a b) / (sqrt (of_rat (dotProduct a a)) * sqrt (of_rat (dotProduct b b)))\<bar> \<le> 1"
      by (rule quotient_bound) (simp add: dotProduct_self_nonneg)
    then show ?thesis using False by (auto simp: cosineSimilarity_def Let_def)
  qed (simp add: cosineSimilarity_def)
  show "cosineSimilarity a b = cosineSimilarity b a"
    by (auto simp: cosineSimilarity_def Let_def dotProduct_commute [of b a] mult.commute)
  show "cosineSimilarity a a = (if dotProduct a a = 0 then 0 else 1)"
    using dotProduct_self_nonneg [of a]
    by (auto simp: cosineSimilarity_def Let_def dotProduct_def)
qed

end
