(* ===== verification/Chunk_Store.thy ===== *)
theory Chunk_Store
  imports Ingestion_Laws
begin

text \<open>
  The table \<open>retrieval_chunks\<close> (\<open>storage/postgres/retrieval_chunks.go\<close>) as the ingestion pipeline
  writes it, and what a document leaves there.

  The table is the list of its rows in any order.  Its primary key is the identifier, and the
  pair of document and chunk is unique; an \<open>INSERT\<close> whose pair exists updates that row, one
  whose identifier exists elsewhere fails.  The vector column has a fixed dimension.  Failures of
  the database itself are not modelled.

  The locale \<open>chunk_store\<close> states what the pipeline relies on: after a write a lookup by document
  and chunk finds what was written, and a deletion removes the stale rows and no others.
\<close>

subsection \<open>The table\<close>

definition sameKey :: "chunkRecord \<Rightarrow> chunkRecord \<Rightarrow> bool" where
  "sameKey r r' \<longleftrightarrow> row_DocumentID r = row_DocumentID r' \<and> row_ChunkID r = row_ChunkID r'"

text \<open>\<open>RETURNING\<close> lists all columns but the embedding.\<close>

definition returned :: "chunkRecord \<Rightarrow> chunkRecord" where
  "returned r = r\<lparr>row_Embedding := []\<rparr>"

definition UpsertWithHybrid :: "nat \<Rightarrow> chunkRecord list upsertOp" where
  "UpsertWithHybrid vdim r table =
     (if length (row_Embedding r) \<noteq> vdim
      then (Inl ''upsert hybrid chunk: wrong number of dimensions'', table)
      else case find (sameKey r) table of
             Some old \<Rightarrow>
               (Inr (returned (r\<lparr>row_ID := row_ID old\<rparr>)),
                map (\<lambda>x. if sameKey r x then r\<lparr>row_ID := row_ID x\<rparr> else x) table)
           | None \<Rightarrow>
               if row_ID r \<in> row_ID ` set table
               then (Inl ''upsert hybrid chunk: duplicate key'', table)
               else (Inr (returned r), table @ [r]))"

definition isStale :: "string \<Rightarrow> string \<Rightarrow> int \<Rightarrow> string list \<Rightarrow> chunkRecord \<Rightarrow> bool" where
  "isStale tenantID documentID version ids r \<longleftrightarrow>
     row_TenantID r = tenantID \<and> row_DocumentID r = documentID
     \<and> (row_DocumentVersion r < version
        \<or> row_DocumentVersion r = version \<and> row_ChunkID r \<notin> set ids)"

definition DeleteStaleChunks :: "chunkRecord list deleteOp" where
  "DeleteStaleChunks tenantID documentID version ids table =
     (Inr (length (filter (isStale tenantID documentID version ids) table)),
      filter (\<lambda>r. \<not> isStale tenantID documentID version ids r) table)"

text \<open>A row up to its identifier, which the code never uses to find it.\<close>

definition lookupChunk :: "chunkRecord list \<Rightarrow> string \<times> string \<Rightarrow> chunkRecord option" where
  "lookupChunk table k =
     map_option (\<lambda>r. r\<lparr>row_ID := []\<rparr>) (find (\<lambda>r. (row_DocumentID r, row_ChunkID r) = k) table)"

definition tableOK :: "chunkRecord list \<Rightarrow> bool" where
  "tableOK table \<longleftrightarrow> distinct (map (\<lambda>r. (row_DocumentID r, row_ChunkID r)) table)"

subsection \<open>What the pipeline writes\<close>

text \<open>The rows of a document, or nothing when an embedding fails.\<close>

fun plannedSentences :: "embedder \<Rightarrow> document \<Rightarrow> nat \<Rightarrow> chunk \<Rightarrow> nat \<Rightarrow> sentence list \<Rightarrow> chunkRecord list option" where
  "plannedSentences emb doc i c j [] = Some []"
| "plannedSentences emb doc i c j (s # ss) =
     (case childEmbedding emb c s of
        Inl _ \<Rightarrow> None
      | Inr vec \<Rightarrow> map_option ((#) (childRecord doc i c j s vec)) (plannedSentences emb doc i c (j + 1) ss))"

fun plannedRows :: "embedder \<Rightarrow> document \<Rightarrow> nat \<Rightarrow> chunk list \<Rightarrow> chunkRecord list option" where
  "plannedRows emb doc i [] = Some []"
| "plannedRows emb doc i (c # cs) =
     (case emb (withPrefix c (chk_Text c)) of
        Inl _ \<Rightarrow> None
      | Inr vec \<Rightarrow>
          (case plannedSentences emb doc i c 0 (chk_Sentences c) of
             None \<Rightarrow> None
           | Some children \<Rightarrow>
               map_option (\<lambda>rest. parentRecord doc i c vec # children @ rest) (plannedRows emb doc (i + 1) cs)))"

text \<open>The chunk identifiers, which do not depend on the embeddings.\<close>

fun sentenceIDs :: "document \<Rightarrow> nat \<Rightarrow> nat \<Rightarrow> sentence list \<Rightarrow> string list" where
  "sentenceIDs doc i j [] = []"
| "sentenceIDs doc i j (s # ss) = childChunkID doc i j # sentenceIDs doc i (j + 1) ss"

fun chunkIDs :: "document \<Rightarrow> nat \<Rightarrow> chunk list \<Rightarrow> string list" where
  "chunkIDs doc i [] = []"
| "chunkIDs doc i (c # cs) =
     parentChunkID doc i # sentenceIDs doc i 0 (chk_Sentences c) @ chunkIDs doc (i + 1) cs"

lemma row_keys [simp]:
  "row_ChunkID (parentRecord doc i c vec) = parentChunkID doc i"
  "row_ChunkID (childRecord doc i c j s vec) = childChunkID doc i j"
  "row_DocumentID (parentRecord doc i c vec) = doc_DocumentID doc"
  "row_DocumentID (childRecord doc i c j s vec) = doc_DocumentID doc"
  "row_TenantID (parentRecord doc i c vec) = doc_TenantID doc"
  "row_TenantID (childRecord doc i c j s vec) = doc_TenantID doc"
  "row_DocumentVersion (parentRecord doc i c vec) = doc_DocumentVersion doc"
  "row_DocumentVersion (childRecord doc i c j s vec) = doc_DocumentVersion doc"
  "row_Embedding (parentRecord doc i c vec) = vec" "row_Embedding (childRecord doc i c j s vec) = vec"
  by (simp_all add: parentRecord_def childRecord_def)

lemma planned_IDs:
  "plannedSentences emb doc i c j ss = Some rows \<Longrightarrow> map row_ChunkID rows = sentenceIDs doc i j ss"
  "plannedRows emb doc i cs = Some rows' \<Longrightarrow> map row_ChunkID rows' = chunkIDs doc i cs"
proof -
  show s: "plannedSentences emb doc i c j ss = Some rows \<Longrightarrow> map row_ChunkID rows = sentenceIDs doc i j ss"
    for i c j ss rows
    by (induction ss arbitrary: j rows) (auto simp: childRecord_def split: sum.splits)
  show "plannedRows emb doc i cs = Some rows' \<Longrightarrow> map row_ChunkID rows' = chunkIDs doc i cs"
    by (induction cs arbitrary: i rows')
      (auto simp: parentRecord_def s split: sum.splits option.splits)
qed

lemma planned_fields:
  "plannedSentences emb doc i c j ss = Some rows \<Longrightarrow> r \<in> set rows
    \<Longrightarrow> row_TenantID r = doc_TenantID doc \<and> row_DocumentID r = doc_DocumentID doc
      \<and> row_DocumentVersion r = doc_DocumentVersion doc \<and> row_PermissionsScope r = doc_PermissionsScope doc"
  "plannedRows emb doc i cs = Some rows' \<Longrightarrow> r \<in> set rows'
    \<Longrightarrow> row_TenantID r = doc_TenantID doc \<and> row_DocumentID r = doc_DocumentID doc
      \<and> row_DocumentVersion r = doc_DocumentVersion doc \<and> row_PermissionsScope r = doc_PermissionsScope doc"
proof -
  show s: "plannedSentences emb doc i c j ss = Some rows \<Longrightarrow> r \<in> set rows
    \<Longrightarrow> row_TenantID r = doc_TenantID doc \<and> row_DocumentID r = doc_DocumentID doc
      \<and> row_DocumentVersion r = doc_DocumentVersion doc \<and> row_PermissionsScope r = doc_PermissionsScope doc"
    for i c j ss rows
    by (induction ss arbitrary: j rows) (auto simp: childRecord_def split: sum.splits)
  show "plannedRows emb doc i cs = Some rows' \<Longrightarrow> r \<in> set rows'
    \<Longrightarrow> row_TenantID r = doc_TenantID doc \<and> row_DocumentID r = doc_DocumentID doc
      \<and> row_DocumentVersion r = doc_DocumentVersion doc \<and> row_PermissionsScope r = doc_PermissionsScope doc"
    by (induction cs arbitrary: i rows')
      (auto simp: parentRecord_def s split: sum.splits option.splits)
qed

subsection \<open>Chunk identifiers\<close>

lemma split_at_dash:
  assumes "showNat i @ CHR ''-'' # x = showNat i' @ CHR ''-'' # x'"
  shows "i = i' \<and> x = x'"
proof -
  have "takeWhile (\<lambda>c. c \<noteq> CHR ''-'') (showNat n @ CHR ''-'' # y) = showNat n" for n y
    using showNat_no_dash [of n] by (subst takeWhile_append2) auto
  then have "showNat i = showNat i'" using assms by metis
  then show ?thesis using assms by simp
qed

lemma chunkID_eq [simp]:
  "parentChunkID doc i = parentChunkID doc i' \<longleftrightarrow> i = i'"
  "childChunkID doc i j = childChunkID doc i' j' \<longleftrightarrow> i = i' \<and> j = j'"
  "parentChunkID doc i \<noteq> childChunkID doc i' j'"
  "childChunkID doc i' j' \<noteq> parentChunkID doc i"
proof -
  show "parentChunkID doc i = parentChunkID doc i' \<longleftrightarrow> i = i'" by (simp add: parentChunkID_def)
  show "childChunkID doc i j = childChunkID doc i' j' \<longleftrightarrow> i = i' \<and> j = j'"
    by (auto simp: childChunkID_def parentChunkID_def dest!: split_at_dash)
  have "showNat i \<noteq> showNat i' @ ''-c'' @ showNat j'"
    using showNat_no_dash [of i] by (metis append_Cons in_set_conv_decomp)
  then show "parentChunkID doc i \<noteq> childChunkID doc i' j'" "childChunkID doc i' j' \<noteq> parentChunkID doc i"
    by (auto simp: childChunkID_def parentChunkID_def)
qed

lemma set_sentenceIDs: "x \<in> set (sentenceIDs doc i j ss) \<Longrightarrow> \<exists>k \<ge> j. x = childChunkID doc i k"
  by (induction ss arbitrary: j) force+

lemma distinct_sentenceIDs: "distinct (sentenceIDs doc i j ss)"
  by (induction ss arbitrary: j) (auto dest!: set_sentenceIDs)

lemma set_chunkIDs:
  "x \<in> set (chunkIDs doc i cs) \<Longrightarrow> \<exists>k \<ge> i. x = parentChunkID doc k \<or> (\<exists>j. x = childChunkID doc k j)"
proof (induction cs arbitrary: i)
  case Nil
  then show ?case by simp
next
  case (Cons c cs)
  consider "x = parentChunkID doc i" | "x \<in> set (sentenceIDs doc i 0 (chk_Sentences c))"
    | "x \<in> set (chunkIDs doc (i + 1) cs)"
    using Cons.prems by auto
  then show ?case
  proof cases
    case 3
    then obtain k where "k \<ge> i + 1" "x = parentChunkID doc k \<or> (\<exists>j. x = childChunkID doc k j)"
      using Cons.IH by blast
    moreover from this(1) have "i \<le> k" by simp
    ultimately show ?thesis by blast
  qed (auto dest: set_sentenceIDs)
qed

lemma distinct_chunkIDs: "distinct (chunkIDs doc i cs)"
proof (induction cs arbitrary: i)
  case Nil
  then show ?case by simp
next
  case (Cons c cs)
  have "x \<notin> set (chunkIDs doc (i + 1) cs)"
    if "x = parentChunkID doc i \<or> x \<in> set (sentenceIDs doc i 0 (chk_Sentences c))" for x
    using that by (auto dest!: set_sentenceIDs set_chunkIDs)
  moreover have "parentChunkID doc i \<notin> set (sentenceIDs doc i 0 (chk_Sentences c))"
    by (auto dest!: set_sentenceIDs)
  ultimately show ?case using Cons.IH by (simp add: distinct_sentenceIDs disjoint_iff)
qed

lemma row_ID_eq:
  "row_ID (parentRecord doc i c vec) \<noteq> row_ID (childRecord doc i' c' j s vec')"
  "doc_DocumentID doc = doc_DocumentID doc' \<Longrightarrow>
     (parentRecord doc i c vec)\<lparr>row_ID := row_ID (parentRecord doc' i c' vec')\<rparr> = parentRecord doc i c vec"
  "doc_DocumentID doc = doc_DocumentID doc' \<Longrightarrow>
     (childRecord doc i c j s vec)\<lparr>row_ID := row_ID (childRecord doc' i c' j s' vec')\<rparr> = childRecord doc i c j s vec"
proof -
  have "showNat i \<noteq> showNat i' @ ''-c'' @ showNat j" using showNat_no_dash [of i] by (metis append_Cons in_set_conv_decomp)
  then show "row_ID (parentRecord doc i c vec) \<noteq> row_ID (childRecord doc i' c' j s vec')"
    by (auto simp: parentRecord_def childRecord_def)
qed (simp_all add: parentRecord_def childRecord_def)

subsection \<open>The interface of a store\<close>

definition chunkKey :: "chunkRecord \<Rightarrow> string \<times> string" where
  "chunkKey r = (row_DocumentID r, row_ChunkID r)"

definition noID :: "chunkRecord \<Rightarrow> chunkRecord" where
  "noID r = r\<lparr>row_ID := []\<rparr>"

definition putRows ::
    "chunkRecord list \<Rightarrow> (string \<times> string \<rightharpoonup> chunkRecord) \<Rightarrow> (string \<times> string \<rightharpoonup> chunkRecord)" where
  "putRows rows m = fold (\<lambda>r m. m(chunkKey r \<mapsto> noID r)) rows m"

lemma putRows_simps [simp]:
  "putRows [] m = m" "putRows (r # rows) m = putRows rows (m(chunkKey r \<mapsto> noID r))"
  "putRows (rows @ rows') m = putRows rows' (putRows rows m)"
  by (simp_all add: putRows_def)

lemma putRows_other: "k \<notin> chunkKey ` set rows \<Longrightarrow> putRows rows m k = m k"
  by (induction rows arbitrary: m) auto

lemma putRows_mem: "\<lbrakk>distinct (map chunkKey rows); r \<in> set rows\<rbrakk> \<Longrightarrow> putRows rows m (chunkKey r) = Some (noID r)"
proof (induction rows arbitrary: m)
  case Nil
  then show ?case by simp
next
  case (Cons x rows)
  show ?case
  proof (cases "r = x")
    case True
    with Cons.prems have "chunkKey r \<notin> chunkKey ` set rows" by auto
    with True show ?thesis by (simp add: putRows_other)
  next
    case False
    with Cons show ?thesis by simp
  qed
qed

locale chunk_store =
  fixes upsert :: "'w upsertOp"
    and deleteStale :: "'w deleteOp"
    and look :: "'w \<Rightarrow> (string \<times> string \<rightharpoonup> chunkRecord)"
    and ok :: "'w \<Rightarrow> bool"
  assumes upsert_law: "\<lbrakk>ok w; upsert r w = (Inr x, w')\<rbrakk>
      \<Longrightarrow> ok w' \<and> look w' = (look w)(chunkKey r \<mapsto> noID r)"
    and delete_law: "\<lbrakk>ok w; deleteStale tenant doc version ids w = (Inr n, w')\<rbrakk>
      \<Longrightarrow> ok w' \<and> look w' k = (case look w k of None \<Rightarrow> None
            | Some r \<Rightarrow> if isStale tenant doc version ids r then None else Some r)"
begin

lemma indexSentences_success:
  "\<lbrakk>ok w; indexSentences upsert emb cancelled doc i c j ss ids w = ((None, n, ids'), w')\<rbrakk>
   \<Longrightarrow> \<exists>rows. plannedSentences emb doc i c j ss = Some rows \<and> n = j + length ss
     \<and> ids' = ids @ sentenceIDs doc i j ss \<and> ok w' \<and> look w' = putRows rows (look w)"
proof (induction ss arbitrary: j ids w)
  case Nil
  then show ?case by simp
next
  case (Cons s ss)
  from Cons.prems(2) obtain vec x w1 where vec: "childEmbedding emb c s = Inr vec"
    and up: "upsert (childRecord doc i c j s vec) w = (Inr x, w1)"
    and rest: "indexSentences upsert emb cancelled doc i c (j + 1) ss (ids @ [childChunkID doc i j]) w1
      = ((None, n, ids'), w')"
    by (auto split: option.splits sum.splits prod.splits)
  note put = upsert_law [OF Cons.prems(1) up]
  from Cons.IH [OF conjunct1 [OF put] rest] obtain rows where
    rows: "plannedSentences emb doc i c (j + 1) ss = Some rows" "n = j + 1 + length ss"
      "ids' = ids @ childChunkID doc i j # sentenceIDs doc i (j + 1) ss" "ok w'"
      "look w' = putRows rows (look w1)"
    by auto
  then show ?case using put vec by simp
qed

lemma indexChunks_success:
  "\<lbrakk>ok w; indexChunks upsert emb cancelled doc i cs children ids w = ((None, n, m, ids'), w')\<rbrakk>
   \<Longrightarrow> \<exists>rows. plannedRows emb doc i cs = Some rows \<and> n = i + length cs
     \<and> m = children + length (concat (map chk_Sentences cs))
     \<and> ids' = ids @ chunkIDs doc i cs \<and> ok w' \<and> look w' = putRows rows (look w)"
proof (induction cs arbitrary: i children ids w)
  case Nil
  then show ?case by simp
next
  case (Cons c cs)
  from Cons.prems(2) obtain vec x w1 k ids1 w2 where vec: "emb (withPrefix c (chk_Text c)) = Inr vec"
    and up: "upsert (parentRecord doc i c vec) w = (Inr x, w1)"
    and ss: "indexSentences upsert emb cancelled doc i c 0 (chk_Sentences c) (ids @ [parentChunkID doc i]) w1
      = ((None, k, ids1), w2)"
    and rest: "indexChunks upsert emb cancelled doc (i + 1) cs (children + k) ids1 w2 = ((None, n, m, ids'), w')"
    by (auto split: option.splits sum.splits prod.splits)
  note put = upsert_law [OF Cons.prems(1) up]
  from indexSentences_success [OF conjunct1 [OF put] ss] obtain rows where
    rows: "plannedSentences emb doc i c 0 (chk_Sentences c) = Some rows" "k = length (chk_Sentences c)"
      "ids1 = ids @ parentChunkID doc i # sentenceIDs doc i 0 (chk_Sentences c)" "ok w2"
      "look w2 = putRows rows (look w1)"
    by auto
  from Cons.IH [OF rows(4) rest] obtain rows' where
    "plannedRows emb doc (i + 1) cs = Some rows'" "n = i + 1 + length cs"
    "m = children + k + length (concat (map chk_Sentences cs))"
    "ids' = ids1 @ chunkIDs doc (i + 1) cs" "ok w'" "look w' = putRows rows' (look w2)"
    by blast
  then show ?case using put vec rows by simp
qed

text \<open>What a document leaves: its own rows, and of the old ones those that are not stale.\<close>

lemma IndexDocument_success:
  assumes "ok w" "0 < doc_DocumentVersion doc"
    and "IndexDocument upsert deleteStale emb cancelled doc chunks w = ((None, n, m), w')"
  shows "\<exists>rows. plannedRows emb doc 0 chunks = Some rows \<and> n = length chunks
    \<and> m = length (concat (map chk_Sentences chunks)) \<and> ok w'
    \<and> (\<forall>r \<in> set rows. look w' (chunkKey r) = Some (noID r))
    \<and> (\<forall>k. k \<notin> chunkKey ` set rows \<longrightarrow>
        look w' k = (case look w k of None \<Rightarrow> None
          | Some r \<Rightarrow> if isStale (doc_TenantID doc) (doc_DocumentID doc) (doc_DocumentVersion doc)
                          (chunkIDs doc 0 chunks) r then None else Some r))"
proof -
  from assms(2,3) obtain w1 ids x where
    a: "indexChunks upsert emb cancelled doc 0 chunks 0 [] w = ((None, n, m, ids), w1)"
    and d: "deleteStale (doc_TenantID doc) (doc_DocumentID doc) (doc_DocumentVersion doc) ids w1 = (Inr x, w')"
    by (auto simp: IndexDocument_def split: prod.splits option.splits sum.splits if_splits)
  from indexChunks_success [OF assms(1) a] obtain rows where
    rows: "plannedRows emb doc 0 chunks = Some rows" "n = length chunks"
      "m = length (concat (map chk_Sentences chunks))" "ids = chunkIDs doc 0 chunks" "ok w1"
      "look w1 = putRows rows (look w)"
    by auto
  note del = delete_law [OF rows(5) d]
  have ids: "map row_ChunkID rows = chunkIDs doc 0 chunks" using rows(1) by (rule planned_IDs(2))
  then have "distinct (map row_ChunkID rows)" by (simp add: distinct_chunkIDs)
  then have dist: "distinct (map chunkKey rows)"
    by (auto simp: chunkKey_def distinct_map inj_on_def)
  have "look w' (chunkKey r) = Some (noID r)" if "r \<in> set rows" for r
  proof -
    have "row_ChunkID r \<in> set ids" using that ids rows(4) by (metis imageI list.set_map)
    then have "\<not> isStale (doc_TenantID doc) (doc_DocumentID doc) (doc_DocumentVersion doc) ids (noID r)"
      using planned_fields(2) [OF rows(1) that] by (simp add: isStale_def noID_def)
    then show ?thesis using del rows(6) putRows_mem [OF dist that] by simp
  qed
  moreover have "look w' k = (case look w k of None \<Rightarrow> None
          | Some r \<Rightarrow> if isStale (doc_TenantID doc) (doc_DocumentID doc) (doc_DocumentVersion doc) ids r
                      then None else Some r)" if "k \<notin> chunkKey ` set rows" for k
    using del rows(6) putRows_other [OF that] by simp
  ultimately show ?thesis using rows del by blast
qed

end

subsection \<open>The table keeps the contract\<close>

lemma find_map_iff:
  "find p (map f xs) = map_option f (find (p \<circ> f) xs)"
  by (induction xs) auto

lemma find_append: "find p (xs @ ys) = (case find p xs of None \<Rightarrow> find p ys | Some x \<Rightarrow> Some x)"
  by (induction xs) auto

lemma find_distinct_filter:
  "distinct (map f xs) \<Longrightarrow> find (\<lambda>x. f x = k) (filter q xs)
     = (case find (\<lambda>x. f x = k) xs of None \<Rightarrow> None | Some x \<Rightarrow> if q x then Some x else None)"
  by (induction xs) (auto simp: find_ident_none split: option.splits)

lemma find_SomeD: "find p xs = Some x \<Longrightarrow> p x \<and> x \<in> set xs"
  by (induction xs) (auto split: if_splits)

lemma sameKey_chunkKey: "sameKey r x \<longleftrightarrow> chunkKey x = chunkKey r"
  by (auto simp: sameKey_def chunkKey_def)

lemma lookupChunk_key: "lookupChunk table k = map_option noID (find (\<lambda>r. chunkKey r = k) table)"
  by (simp add: lookupChunk_def chunkKey_def noID_def [abs_def])

lemma tableOK_key: "tableOK table \<longleftrightarrow> distinct (map chunkKey table)"
  by (simp add: tableOK_def chunkKey_def [abs_def])

lemma chunkKey_row_ID [simp]: "chunkKey (r\<lparr>row_ID := i\<rparr>) = chunkKey r" "noID (r\<lparr>row_ID := i\<rparr>) = noID r"
  by (simp_all add: chunkKey_def noID_def)

lemma UpsertWithHybrid_law:
  assumes "tableOK table" "UpsertWithHybrid vdim r table = (Inr x, table')"
  shows "tableOK table' \<and> lookupChunk table' = (lookupChunk table)(chunkKey r \<mapsto> noID r)"
proof (cases "find (sameKey r) table")
  case None
  then have new: "chunkKey r \<notin> chunkKey ` set table" by (auto simp: find_None_iff sameKey_chunkKey)
  have t: "table' = table @ [r]" using assms(2) None by (auto simp: UpsertWithHybrid_def split: if_splits)
  have "lookupChunk table' k = ((lookupChunk table)(chunkKey r \<mapsto> noID r)) k" for k
    using new find_ident_none [OF new]
    by (auto simp: lookupChunk_key t find_append split: option.splits)
  then show ?thesis using assms(1) new by (auto simp: tableOK_key t)
next
  case (Some old)
  let ?f = "\<lambda>x. if chunkKey x = chunkKey r then r\<lparr>row_ID := row_ID x\<rparr> else x"
  have t: "table' = map ?f table"
    using assms(2) Some by (auto simp: UpsertWithHybrid_def sameKey_chunkKey split: if_splits)
  have key: "chunkKey (?f x) = chunkKey x" for x by simp
  have old: "old \<in> set table" "chunkKey old = chunkKey r"
    using find_SomeD [OF Some] by (simp_all add: sameKey_chunkKey)
  then have hit: "find (\<lambda>x. chunkKey x = chunkKey r) table = Some old"
    using find_ident_once [of chunkKey table old] assms(1) by (simp add: tableOK_key)
  have "lookupChunk table' k = ((lookupChunk table)(chunkKey r \<mapsto> noID r)) k" for k
  proof -
    have "lookupChunk table' k = map_option (noID \<circ> ?f) (find (\<lambda>x. chunkKey x = k) table)"
      by (simp add: lookupChunk_key t find_map_iff comp_def option.map_comp key del: chunkKey_row_ID)
    then show ?thesis
      by (cases "k = chunkKey r"; cases "find (\<lambda>x. chunkKey x = k) table")
        (auto simp: lookupChunk_key hit old(2) dest: find_SomeD)
  qed
  moreover have "map chunkKey table' = map chunkKey table" by (simp add: t comp_def key)
  ultimately show ?thesis using assms(1) by (simp add: tableOK_key fun_eq_iff)
qed

lemma isStale_noID [simp]: "isStale tenant doc version ids (noID r) = isStale tenant doc version ids r"
  by (simp add: isStale_def noID_def)

lemma DeleteStaleChunks_law:
  assumes "tableOK table" "DeleteStaleChunks tenant doc version ids table = (Inr n, table')"
  shows "tableOK table' \<and> lookupChunk table' k = (case lookupChunk table k of None \<Rightarrow> None
           | Some r \<Rightarrow> if isStale tenant doc version ids r then None else Some r)"
  using assms
  by (auto simp: DeleteStaleChunks_def tableOK_key lookupChunk_key find_distinct_filter distinct_map_filter
      split: option.splits)

interpretation pg: chunk_store "UpsertWithHybrid vdim" DeleteStaleChunks lookupChunk tableOK
  by unfold_locales (rule UpsertWithHybrid_law DeleteStaleChunks_law; assumption)+

end
