(* ===== verification/Chunk_Laws.thy ===== *)
theory Chunk_Laws
  imports Chunk_Store
begin

text \<open>
  The ingestion of a document into the table: what it leaves there, that it always finishes, and
  whose rows it may take over.
\<close>

subsection \<open>Stores that always accept\<close>

text \<open>
  A store whose writes succeed on records that fit, as long as its rows are named the way the
  pipeline names them.
\<close>

definition totalEmbedder :: "embedder \<Rightarrow> (rat list \<Rightarrow> bool) \<Rightarrow> bool" where
  "totalEmbedder emb good \<longleftrightarrow> (\<forall>t. \<exists>vec. emb t = Inr vec \<and> good vec)"

definition recordsFit :: "(chunkRecord \<Rightarrow> bool) \<Rightarrow> (rat list \<Rightarrow> bool) \<Rightarrow> document \<Rightarrow> bool" where
  "recordsFit fits good doc \<longleftrightarrow> (\<forall>i c vec. good vec \<longrightarrow>
     fits (parentRecord doc i c vec) \<and> (\<forall>j s. fits (childRecord doc i c j s vec)))"

locale total_chunk_store = chunk_store +
  fixes named :: "'a \<Rightarrow> bool" and fits :: "chunkRecord \<Rightarrow> bool"
  assumes upsert_total: "\<lbrakk>ok w; named w; fits r\<rbrakk> \<Longrightarrow> \<exists>x w'. upsert r w = (Inr x, w') \<and> named w'"
    and delete_total: "\<lbrakk>ok w; named w\<rbrakk>
      \<Longrightarrow> \<exists>n w'. deleteStale tenant doc version ids w = (Inr n, w') \<and> named w'"
begin

lemma indexSentences_total:
  assumes "ok w" "named w"
    and "totalEmbedder emb good" "recordsFit fits good doc" "\<forall>s \<in> set ss. sn_Embedding s = [] \<or> good (sn_Embedding s)"
  shows "\<exists>n ids' w'. indexSentences upsert emb (\<lambda>_ _. None) doc i c j ss ids w = ((None, n, ids'), w')
    \<and> ok w' \<and> named w'"
  using assms(1,2,5)
proof (induction ss arbitrary: j ids w)
  case Nil
  then show ?case by simp
next
  case (Cons s ss)
  obtain vec where vec: "childEmbedding emb c s = Inr vec" "good vec"
    using assms(3) Cons.prems(3)
    by (cases "sn_Embedding s = []") (auto simp: childEmbedding_def totalEmbedder_def)
  obtain x w1 where up: "upsert (childRecord doc i c j s vec) w = (Inr x, w1)" "named w1"
    using upsert_total [OF Cons.prems(1,2)] assms(4) vec(2) unfolding recordsFit_def by blast
  have "ok w1" using upsert_law [OF Cons.prems(1) up(1)] by blast
  then show ?case using Cons.IH [of w1 "j + 1"] Cons.prems(3) up vec(1) by simp
qed

lemma indexChunks_total:
  assumes "ok w" "named w"
    and "totalEmbedder emb good" "recordsFit fits good doc"
    and "\<forall>s \<in> set (concat (map chk_Sentences cs)). sn_Embedding s = [] \<or> good (sn_Embedding s)"
  shows "\<exists>n m ids' w'. indexChunks upsert emb (\<lambda>_ _. None) doc i cs children ids w = ((None, n, m, ids'), w')
    \<and> ok w' \<and> named w'"
  using assms(1,2,5)
proof (induction cs arbitrary: i children ids w)
  case Nil
  then show ?case by simp
next
  case (Cons c cs)
  obtain vec where vec: "emb (withPrefix c (chk_Text c)) = Inr vec" "good vec"
    using assms(3) unfolding totalEmbedder_def by blast
  obtain x w1 where up: "upsert (parentRecord doc i c vec) w = (Inr x, w1)" "named w1"
    using upsert_total [OF Cons.prems(1,2)] assms(4) vec(2) unfolding recordsFit_def by blast
  have "ok w1" using upsert_law [OF Cons.prems(1) up(1)] by blast
  moreover have "\<forall>s \<in> set (chk_Sentences c). sn_Embedding s = [] \<or> good (sn_Embedding s)"
    using Cons.prems(3) by simp
  ultimately obtain n ids' w2 where
    ss: "indexSentences upsert emb (\<lambda>_ _. None) doc i c 0 (chk_Sentences c) (ids @ [parentChunkID doc i]) w1
      = ((None, n, ids'), w2)" "ok w2" "named w2"
    using indexSentences_total [OF _ up(2) assms(3,4)] by blast
  then show ?case using Cons.IH [of w2 "i + 1" "children + n" ids'] Cons.prems(3) up(1) vec(1) by simp
qed

lemma IndexDocument_total:
  assumes "ok w" "named w"
    and "totalEmbedder emb good" "recordsFit fits good doc"
    and "\<forall>s \<in> set (concat (map chk_Sentences cs)). sn_Embedding s = [] \<or> good (sn_Embedding s)"
  shows "\<exists>n m w'. IndexDocument upsert deleteStale emb (\<lambda>_ _. None) doc cs w = ((None, n, m), w') \<and> named w'"
proof -
  obtain n m ids' w1 where a: "indexChunks upsert emb (\<lambda>_ _. None) doc 0 cs 0 [] w = ((None, n, m, ids'), w1)"
    "ok w1" "named w1"
    using indexChunks_total [OF assms] by blast
  obtain k w2 where "deleteStale (doc_TenantID doc) (doc_DocumentID doc) (doc_DocumentVersion doc) ids' w1
      = (Inr k, w2)" "named w2"
    using delete_total [OF a(2,3)] by blast
  then show ?thesis using a by (simp add: IndexDocument_def)
qed

end

subsection \<open>Names of rows\<close>

text \<open>The part of an identifier behind its kind; it determines the document.\<close>

definition rowName :: "string \<Rightarrow> string \<Rightarrow> bool" where
  "rowName documentID t \<longleftrightarrow>
     (\<exists>i. t = documentID @ ''-p'' @ showNat i) \<or> (\<exists>i j. t = documentID @ ''-p'' @ showNat i @ ''-c'' @ showNat j)"

definition namedRow :: "chunkRecord \<Rightarrow> bool" where
  "namedRow r \<longleftrightarrow> (\<exists>t. rowName (row_DocumentID r) t \<and> row_ID r = ''rc-'' @ t \<and> row_ChunkID r = ''doc-'' @ t)"

lemma last_segment:
  assumes "a @ CHR ''-'' # k # showNat i = b @ CHR ''-'' # k' # showNat i'" "k \<noteq> CHR ''-''" "k' \<noteq> CHR ''-''"
  shows "a = b \<and> k = k' \<and> i = i'"
proof -
  have tw: "takeWhile (\<lambda>c. c \<noteq> CHR ''-'') (rev (a @ CHR ''-'' # k # showNat i)) = rev (k # showNat i)"
    if "k \<noteq> CHR ''-''" for a k i
    using that showNat_no_dash [of i] by (simp add: takeWhile_append2 takeWhile_tail)
      (subst takeWhile_append2; auto)
  have "rev (k # showNat i) = rev (k' # showNat i')" using tw assms by metis
  then have "k # showNat i = k' # showNat i'" by simp
  then show ?thesis using assms(1) by simp
qed

lemma rowName_document:
  assumes "rowName d t" "rowName d' t" shows "d = d'"
proof -
  have "d = d'" if "d @ ''-p'' @ showNat i = d' @ ''-p'' @ showNat i'" for i i'
    using last_segment [of d "CHR ''p''" i d' "CHR ''p''" i'] that by simp
  moreover have "d @ ''-p'' @ showNat i = d' @ ''-p'' @ showNat i'"
    if "d @ ''-p'' @ showNat i @ ''-c'' @ showNat j = d' @ ''-p'' @ showNat i' @ ''-c'' @ showNat j'" for i i' j j'
    using last_segment [of "d @ ''-p'' @ showNat i" "CHR ''c''" j "d' @ ''-p'' @ showNat i'" "CHR ''c''" j'] that
    by simp
  moreover have "d @ ''-p'' @ showNat i \<noteq> d' @ ''-p'' @ showNat i' @ ''-c'' @ showNat j'" for d d' i i' j'
    using last_segment [of d "CHR ''p''" i "d' @ ''-p'' @ showNat i'" "CHR ''c''" j'] by auto
  ultimately show ?thesis using assms unfolding rowName_def by metis
qed

lemma namedRow_clash: "\<lbrakk>namedRow r; namedRow x; row_ID x = row_ID r\<rbrakk> \<Longrightarrow> sameKey r x"
  by (auto simp: namedRow_def sameKey_def dest: rowName_document)

lemma namedRow_sameKey: "\<lbrakk>namedRow r; namedRow x; sameKey r x\<rbrakk> \<Longrightarrow> row_ID x = row_ID r"
  by (auto simp: namedRow_def sameKey_def)

lemma namedRow_records:
  "namedRow (parentRecord doc i c vec)" "namedRow (childRecord doc i c j s vec)"
  by (auto simp: namedRow_def rowName_def parentRecord_def childRecord_def parentChunkID_def childChunkID_def)

definition namedTable :: "chunkRecord list \<Rightarrow> bool" where
  "namedTable table \<longleftrightarrow> (\<forall>r \<in> set table. namedRow r)"

lemma UpsertWithHybrid_total:
  assumes "namedTable table" "namedRow r" "length (row_Embedding r) = vdim"
  shows "\<exists>x table'. UpsertWithHybrid vdim r table = (Inr x, table') \<and> namedTable table'"
proof (cases "find (sameKey r) table")
  case None
  then have "row_ID r \<notin> row_ID ` set table"
    using assms namedRow_clash by (fastforce simp: find_None_iff namedTable_def)
  then show ?thesis using assms None by (auto simp: UpsertWithHybrid_def namedTable_def)
next
  case (Some old)
  have "namedRow (r\<lparr>row_ID := row_ID x\<rparr>)" if "x \<in> set table" "sameKey r x" for x
  proof -
    have "row_ID x = row_ID r" using namedRow_sameKey that assms by (auto simp: namedTable_def)
    then show ?thesis using assms(2) by (simp add: namedRow_def)
  qed
  then show ?thesis using assms Some by (auto simp: UpsertWithHybrid_def namedTable_def)
qed

interpretation pgt: total_chunk_store "UpsertWithHybrid vdim" DeleteStaleChunks lookupChunk tableOK
    namedTable "\<lambda>r. namedRow r \<and> length (row_Embedding r) = vdim"
proof
  show "\<exists>x w'. UpsertWithHybrid vdim r w = (Inr x, w') \<and> namedTable w'"
    if "tableOK w" "namedTable w" "namedRow r \<and> length (row_Embedding r) = vdim" for w r
    using UpsertWithHybrid_total that by blast
qed (auto simp: DeleteStaleChunks_def namedTable_def)

subsection \<open>Documents\<close>

lemma PrefixChunks_sentences: "map chk_Sentences (PrefixChunks provider doc chunks) = map chk_Sentences chunks"
proof (cases provider)
  case (LiveProvider ask)
  have "chk_Sentences (prefixOne doc reply c) = chk_Sentences c" for reply c
    by (simp add: prefixOne_def split: llmReply.splits)
  then show ?thesis using LiveProvider
    by (intro nth_equalityI) (auto simp: PrefixChunks_def)
qed (simp_all add: PrefixChunks_def comp_def)


lemma ChunkSentences_embedded:
  assumes "ChunkSentences emb (NewSemanticChunker opts) ss = Inr chunks"
  shows "map sn_Text (concat (map chk_Sentences chunks)) = map sn_Text ss"
    "\<forall>s \<in> set (concat (map chk_Sentences chunks)). s \<in> set ss \<or> emb (sn_Text s) = Inr (sn_Embedding s)"
proof -
  have "map snd (map (\<lambda>s. (sn_Index s, sn_Text s)) (concat (map chk_Sentences chunks)))
      = map snd (map (\<lambda>s. (sn_Index s, sn_Text s)) ss)"
    using ChunkSentences_parts [OF refl assms] by simp
  then show "map sn_Text (concat (map chk_Sentences chunks)) = map sn_Text ss" by (simp add: comp_def)
  show "\<forall>s \<in> set (concat (map chk_Sentences chunks)). s \<in> set ss \<or> emb (sn_Text s) = Inr (sn_Embedding s)"
    using ChunkSentences_parts [OF refl assms] by blast
qed




text \<open>Embedding never fails and gives vectors of the dimension of the column.\<close>

lemma embedSentences_total:
  "totalEmbedder emb good \<Longrightarrow> \<exists>es. embedSentences emb i ss = Inr es"
proof (induction ss arbitrary: i)
  case Nil
  then show ?case by simp
next
  case (Cons s ss)
  then obtain vec es where "emb (sn_Text s) = Inr vec" "embedSentences emb (i + 1) ss = Inr es"
    unfolding totalEmbedder_def by blast
  then show ?case by simp
qed

lemma ChunkSentences_total:
  assumes "totalEmbedder emb good"
  shows "\<exists>chunks. ChunkSentences emb c ss = Inr chunks"
  using embedSentences_total [OF assms, of 0 ss] by (auto simp: ChunkSentences_def Let_def)

lemma records_fit: "recordsFit (\<lambda>r. namedRow r \<and> length (row_Embedding r) = vdim) (\<lambda>vec. length vec = vdim) doc"
  by (simp add: recordsFit_def namedRow_records)

lemma SplitText_embedding: "s \<in> set (SplitText minLen text) \<Longrightarrow> sn_Embedding s = []"
  by (auto simp: SplitText_def Let_def)

text \<open>
  A document always gets in when the embedder answers with vectors of the column's
  dimension and the context stays alive, on a table that only ingestion has written to; and the
  table stays such a table.
\<close>

theorem Ingest_succeeds:
  assumes "pl_upsert p = UpsertWithHybrid vdim" "pl_deleteStale p = DeleteStaleChunks"
    and "pl_chunker p = NewSemanticChunker opts" "totalEmbedder (pl_embed p) (\<lambda>vec. length vec = vdim)"
    and "tableOK table" "namedTable table"
    and "doc_DocumentID doc \<noteq> []" "doc_TenantID doc \<noteq> []" "doc_Content doc \<noteq> []"
  shows "\<exists>res table'. Ingest p (\<lambda>_ _. None) doc table = (Inr res, table') \<and> namedTable table'"
proof -
  let ?ss = "SplitText (pl_minLen p) (doc_Content doc)"
  obtain chunks where c: "ChunkSentences (pl_embed p) (pl_chunker p) ?ss = Inr chunks"
    using ChunkSentences_total [OF assms(4)] by blast
  let ?cs = "PrefixChunks (pl_provider p) doc chunks"
  have "length (sn_Embedding s) = vdim" if "pl_embed p (sn_Text s) = Inr (sn_Embedding s)" for s
    using that assms(4) unfolding totalEmbedder_def by (metis sum.inject(2))
  then have "\<forall>s \<in> set (concat (map chk_Sentences ?cs)). sn_Embedding s = [] \<or> length (sn_Embedding s) = vdim"
    using ChunkSentences_embedded(2) [OF c [unfolded assms(3)]] SplitText_embedding
    unfolding PrefixChunks_sentences by blast
  then obtain n m table' where
    "IndexDocument (UpsertWithHybrid vdim) DeleteStaleChunks (pl_embed p) (\<lambda>_ _. None) doc ?cs table
      = ((None, n, m), table')" "namedTable table'"
    using pgt.IndexDocument_total [OF assms(5,6,4) records_fit] by blast
  then show ?thesis using assms c by (simp add: Ingest_def Let_def)
qed

subsection \<open>Documents of two tenants\<close>

definition demoPipeline :: "chunkRecord list pipeline" where
  "demoPipeline = \<lparr>pl_minLen = 0, pl_chunker = defaultChunker, pl_provider = NoProvider,
     pl_embed = (\<lambda>_. Inr [1]), pl_upsert = UpsertWithHybrid 1, pl_deleteStale = DeleteStaleChunks\<rparr>"

definition demoDocument :: "string \<Rightarrow> document" where
  "demoDocument tenant = \<lparr>doc_DocumentID = ''d'', doc_TenantID = tenant, doc_DocumentVersion = 1,
     doc_SourceTitle = ''Guide'', doc_SourceURI = [], doc_Content = ''Restart it twice.'',
     doc_PermissionsScope = [], doc_PublishedAt = None\<rparr>"

lemma demo_split: "SplitText 0 ''Restart it twice.''
    = [\<lparr>sn_Text = ''Restart it twice.'', sn_Index = 0, sn_Embedding = []\<rparr>]"
  by code_simp

definition demoChunk :: chunk where
  "demoChunk = (chunkOf 0 [\<lparr>sn_Text = ''Restart it twice.'', sn_Index = 0, sn_Embedding = []\<rparr>])
     \<lparr>chk_ContextPrefix := ''This chunk is from document: Guide.''\<rparr>"

definition demoRows :: "string \<Rightarrow> chunkRecord list" where
  "demoRows tenant = [parentRecord (demoDocument tenant) 0 demoChunk [1],
     childRecord (demoDocument tenant) 0 demoChunk 0
       \<lparr>sn_Text = ''Restart it twice.'', sn_Index = 0, sn_Embedding = []\<rparr> [1]]"

definition demoIngested :: "string \<Rightarrow> ingestResult" where
  "demoIngested tenant = \<lparr>ir_DocumentID = ''d'', ir_TenantID = tenant, ir_ChunksStored = 2,
     ir_ParentChunks = 1, ir_ChildChunks = 1\<rparr>"

lemma demoChunk_simps [simp]:
  "chk_Sentences demoChunk = [\<lparr>sn_Text = ''Restart it twice.'', sn_Index = 0, sn_Embedding = []\<rparr>]"
  by (simp add: demoChunk_def)

lemma demo_pipeline_simps [simp]:
  "pl_upsert demoPipeline = UpsertWithHybrid 1" "pl_deleteStale demoPipeline = DeleteStaleChunks"
  "pl_chunker demoPipeline = defaultChunker" "pl_minLen demoPipeline = 0"
  "doc_Content (demoDocument tenant) = ''Restart it twice.''" "doc_DocumentVersion (demoDocument tenant) = 1"
  "doc_TenantID (demoDocument tenant) = tenant" "doc_DocumentID (demoDocument tenant) = ''d''"
  "pl_provider demoPipeline = NoProvider" "pl_embed demoPipeline = (\<lambda>_. Inr [1])"
  "doc_SourceTitle (demoDocument tenant) = ''Guide''"
  by (simp_all add: demoPipeline_def demoDocument_def)

lemma demo_chunks:
  "ChunkSentences emb c [\<lparr>sn_Text = ''Restart it twice.'', sn_Index = 0, sn_Embedding = []\<rparr>] = Inr [demoChunk\<lparr>chk_ContextPrefix := []\<rparr>]"
  "PrefixChunks NoProvider (demoDocument tenant) [demoChunk\<lparr>chk_ContextPrefix := []\<rparr>] = [demoChunk]"
  by (simp_all add: ChunkSentences_def PrefixChunks_def plainPrefix_def demoChunk_def chunkOf_def)

lemma Ingest_demo:
  "Ingest demoPipeline (\<lambda>_ _. None) (demoDocument tenant) table =
     (case IndexDocument (UpsertWithHybrid 1) DeleteStaleChunks (\<lambda>_. Inr [1]) (\<lambda>_ _. None)
             (demoDocument tenant) [demoChunk] table of
        ((Some err, _, _), w') \<Rightarrow> (Inl err, w')
      | ((None, parents, children), w') \<Rightarrow>
          (Inr \<lparr>ir_DocumentID = ''d'', ir_TenantID = tenant, ir_ChunksStored = parents + children,
             ir_ParentChunks = parents, ir_ChildChunks = children\<rparr>, w'))" if "tenant \<noteq> []"
  using that
  by (simp add: Ingest_def demo_split demo_chunks Let_def split: prod.splits option.splits)

lemma demo_IDs [simp]:
  "parentChunkID (demoDocument ''beta'') i = parentChunkID (demoDocument ''acme'') i"
  "childChunkID (demoDocument ''beta'') i j = childChunkID (demoDocument ''acme'') i j"
  by (simp_all add: parentChunkID_def childChunkID_def)

lemmas demo_index = IndexDocument_def UpsertWithHybrid_def DeleteStaleChunks_def sameKey_def isStale_def
  childEmbedding_def demoRows_def demoIngested_def

lemma demo_acme:
  "Ingest demoPipeline (\<lambda>_ _. None) (demoDocument ''acme'') [] = (Inr (demoIngested ''acme''), demoRows ''acme'')"
  by (simp add: Ingest_demo demo_index row_ID_eq row_ID_eq(1) [symmetric])

lemma demo_beta:
  "Ingest demoPipeline (\<lambda>_ _. None) (demoDocument ''beta'') (demoRows ''acme'')
     = (Inr (demoIngested ''beta''), demoRows ''beta'')"
  by (simp add: Ingest_demo demo_index row_ID_eq)


lemma Ingest_succeeds_witness:
  "\<exists>res table'. Ingest demoPipeline (\<lambda>_ _. None) (demoDocument ''beta'') [] = (Inr res, table') \<and> namedTable table'"
  by (rule Ingest_succeeds [OF demo_pipeline_simps(1,2) trans [OF demo_pipeline_simps(3) defaultChunker_def]])
    (simp_all add: totalEmbedder_def demoPipeline_def tableOK_def namedTable_def demoDocument_def)

text \<open>
  Rows are found by document and chunk, and the identifier of a chunk is made from that of the
  document; the tenant is no part of either.  So a second tenant that ingests a document with
  the same identifier takes over the rows of the first, whose evidence is gone.
\<close>

theorem ingest_takes_over_rows:
  "\<exists>table1 table2.
     Ingest demoPipeline (\<lambda>_ _. None) (demoDocument ''acme'') [] = (Inr (demoIngested ''acme''), table1)
   \<and> length (filter (\<lambda>r. row_TenantID r = ''acme'') table1) = 2
   \<and> Ingest demoPipeline (\<lambda>_ _. None) (demoDocument ''beta'') table1 = (Inr (demoIngested ''beta''), table2)
   \<and> length (filter (\<lambda>r. row_TenantID r = ''acme'') table2) = 0
   \<and> length (filter (\<lambda>r. row_TenantID r = ''beta'') table2) = 2"
  by (intro exI [of _ "demoRows ''acme''"] exI [of _ "demoRows ''beta''"])
    (simp add: demo_acme demo_beta, simp add: demoRows_def)

end
