(* ===== verification/Hybrid_Search.thy ===== *)
theory Hybrid_Search
  imports Chunk_Laws
begin

text \<open>
  The search over the table \<open>retrieval_chunks\<close> (\<open>storage/postgres/retrieval_chunks.go\<close>): a dense and
  a full-text query, the fusion of their ranks, and the expansion of sentences to their chunks.

  The distance of two vectors and the rank of a text are operations of the database and arguments
  here, as is the embedder.  Each of the four queries of a search receives the rows in an order
  of its own: \<open>scan n\<close> are the rows as query \<open>n\<close> meets them, so that any order among equals is
  covered.  Scores are exact numbers.
\<close>

subsection \<open>Queries\<close>

definition blockOf :: "rat \<Rightarrow> chunkRecord \<Rightarrow> evidenceBlock" where
  "blockOf score r =
     \<lparr>eb_EvidenceID = row_ID r, eb_TenantID = row_TenantID r, eb_DocumentID = row_DocumentID r,
      eb_DocumentVersion = row_DocumentVersion r, eb_ChunkID = row_ChunkID r,
      eb_SourceTitle = row_SourceTitle r, eb_SourceURI = row_SourceURI r, eb_Snippet = row_Snippet r,
      eb_Score = score, eb_RerankScore = Finite 0, eb_PublishedAt = row_PublishedAt r,
      eb_CitationLabel = [], eb_PermissionsScope = row_PermissionsScope r\<rparr>"

definition inScope :: "string \<Rightarrow> string \<Rightarrow> chunkRecord \<Rightarrow> bool" where
  "inScope tenantID permScope r \<longleftrightarrow>
     row_TenantID r = tenantID \<and> (permScope = [] \<or> row_PermissionsScope r = permScope)"

definition denseSearch ::
    "(rat list \<Rightarrow> rat) \<Rightarrow> string \<Rightarrow> string \<Rightarrow> nat \<Rightarrow> chunkRecord list \<Rightarrow> evidenceBlock list" where
  "denseSearch distance tenantID permScope limit rows =
     map (\<lambda>r. blockOf (1 - distance (row_Embedding r)) r)
       (take limit (goSort (\<lambda>a b. distance (row_Embedding a) < distance (row_Embedding b))
          (filter (inScope tenantID permScope) rows)))"

text \<open>\<open>textRank r\<close> is the rank of a row for the text of the query, or nothing without a match.\<close>

definition bm25Search ::
    "(chunkRecord \<Rightarrow> rat option) \<Rightarrow> string \<Rightarrow> string \<Rightarrow> nat \<Rightarrow> chunkRecord list \<Rightarrow> evidenceBlock list" where
  "bm25Search textRank tenantID permScope limit rows =
     map (\<lambda>r. blockOf (the (textRank r)) r)
       (take limit (goSort (\<lambda>a b. the (textRank b) < the (textRank a))
          (filter (\<lambda>r. inScope tenantID permScope r \<and> textRank r \<noteq> None) rows)))"

subsection \<open>Reciprocal rank fusion\<close>

definition rrfK :: nat where "rrfK = 60"

definition rankWeight :: "nat \<Rightarrow> rat" where
  "rankWeight rank = 1 / of_nat (rrfK + rank + 1)"

definition scoreIn :: "(string \<rightharpoonup> rat) \<Rightarrow> string \<Rightarrow> rat" where
  "scoreIn scores k = (case scores k of None \<Rightarrow> 0 | Some x \<Rightarrow> x)"

definition addRank :: "nat \<times> evidenceBlock \<Rightarrow> (string \<rightharpoonup> rat) \<Rightarrow> (string \<rightharpoonup> rat)" where
  "addRank = (\<lambda>(rank, b) scores.
     scores(eb_EvidenceID b \<mapsto> scoreIn scores (eb_EvidenceID b) + rankWeight rank))"

definition addRanks :: "evidenceBlock list \<Rightarrow> (string \<rightharpoonup> rat) \<Rightarrow> (string \<rightharpoonup> rat)" where
  "addRanks blocks = fold addRank (zip [0..<length blocks] blocks)"

definition putBlock :: "evidenceBlock \<Rightarrow> (string \<rightharpoonup> evidenceBlock) \<Rightarrow> (string \<rightharpoonup> evidenceBlock)" where
  "putBlock b m = m(eb_EvidenceID b \<mapsto> b)"

definition keepFirst :: "evidenceBlock \<Rightarrow> (string \<rightharpoonup> evidenceBlock) \<Rightarrow> (string \<rightharpoonup> evidenceBlock)" where
  "keepFirst b m = (if m (eb_EvidenceID b) = None then m(eb_EvidenceID b \<mapsto> b) else m)"

definition blockByID :: "evidenceBlock list \<Rightarrow> evidenceBlock list \<Rightarrow> (string \<rightharpoonup> evidenceBlock)" where
  "blockByID listA listB = fold keepFirst listB (fold putBlock listA Map.empty)"

definition fusedLess :: "string \<times> rat \<Rightarrow> string \<times> rat \<Rightarrow> bool" where
  "fusedLess a b \<longleftrightarrow> (if snd a \<noteq> snd b then snd b < snd a else fst a < fst b)"

definition maxRRF :: rat where "maxRRF = 2 / of_nat (rrfK + 1)"

definition fusedBlock :: "(string \<rightharpoonup> evidenceBlock) \<Rightarrow> string \<times> rat \<Rightarrow> evidenceBlock" where
  "fusedBlock blocks = (\<lambda>(k, score).
     let normalized = score / maxRRF
     in (the (blocks k))\<lparr>eb_Score := (if 1 < normalized then 1 else normalized), eb_RerankScore := Finite score\<rparr>)"

text \<open>\<open>ks\<close> is the order in which the loop over the map of scores visits its keys.\<close>

definition rankedScores :: "string list \<Rightarrow> (string \<rightharpoonup> rat) \<Rightarrow> (string \<times> rat) list" where
  "rankedScores ks scores = goSort fusedLess (rangeVals (\<lambda>k. map_option (Pair k) (scores k)) ks)"

definition reciprocalRankFusion ::
    "string list \<Rightarrow> evidenceBlock list \<Rightarrow> evidenceBlock list \<Rightarrow> nat \<Rightarrow> evidenceBlock list" where
  "reciprocalRankFusion ks listA listB topK =
     (let ranked = rankedScores ks (addRanks listB (addRanks listA Map.empty))
      in map (fusedBlock (blockByID listA listB)) (if length ranked > topK then take topK ranked else ranked))"

subsection \<open>Expansion to parents\<close>

definition childToParent :: "string \<Rightarrow> string list \<Rightarrow> chunkRecord list \<Rightarrow> (string \<rightharpoonup> string)" where
  "childToParent tenantID wanted rows =
     fold (\<lambda>r m. m(row_ChunkID r \<mapsto> the (row_ParentChunkID r)))
       (filter (\<lambda>r. row_TenantID r = tenantID \<and> row_ChunkID r \<in> set wanted \<and> row_ParentChunkID r \<noteq> None) rows)
       Map.empty"

definition parentByChunkID :: "string \<Rightarrow> string set \<Rightarrow> chunkRecord list \<Rightarrow> (string \<rightharpoonup> evidenceBlock)" where
  "parentByChunkID tenantID parentIDs rows =
     fold (\<lambda>r m. m(row_ChunkID r \<mapsto> blockOf 0 r))
       (filter (\<lambda>r. row_TenantID r = tenantID \<and> row_ChunkID r \<in> parentIDs) rows) Map.empty"

fun expandLoop ::
    "(string \<rightharpoonup> string) \<Rightarrow> (string \<rightharpoonup> evidenceBlock) \<Rightarrow> string list \<Rightarrow> evidenceBlock list \<Rightarrow> evidenceBlock list" where
  "expandLoop parentOf parents seen [] = []"
| "expandLoop parentOf parents seen (b # bs) =
     (let keep = (\<lambda>seen. if eb_ChunkID b \<in> set seen then expandLoop parentOf parents seen bs
                         else b # expandLoop parentOf parents (eb_ChunkID b # seen) bs)
      in case parentOf (eb_ChunkID b) of
           None \<Rightarrow> keep seen
         | Some p \<Rightarrow>
             if p \<in> set seen then expandLoop parentOf parents seen bs
             else (case parents p of
                     Some parent \<Rightarrow>
                       parent\<lparr>eb_Score := eb_Score b, eb_RerankScore := eb_RerankScore b\<rparr>
                         # expandLoop parentOf parents (p # seen) bs
                   | None \<Rightarrow> keep (p # seen)))"

definition expandToParents ::
    "chunkRecord list \<Rightarrow> chunkRecord list \<Rightarrow> string \<Rightarrow> evidenceBlock list \<Rightarrow> evidenceBlock list" where
  "expandToParents rows rows' tenantID blocks =
     (if blocks = [] then blocks
      else let parentOf = childToParent tenantID (map eb_ChunkID blocks) rows
           in if ran parentOf = {} then blocks
              else expandLoop parentOf (parentByChunkID tenantID (ran parentOf) rows') [] blocks)"

subsection \<open>The search\<close>

record chunkSearch =
  cs_embed :: embedder
  cs_distance :: "rat list \<Rightarrow> rat list \<Rightarrow> rat"
  cs_textRank :: "string \<Rightarrow> chunkRecord \<Rightarrow> rat option"

definition labelNext :: "nat \<Rightarrow> evidenceBlock \<Rightarrow> evidenceBlock" where
  "labelNext i b = b\<lparr>eb_CitationLabel := ''['' @ showNat (i + 1) @ '']''\<rparr>"

definition numberBlocks :: "evidenceBlock list \<Rightarrow> evidenceBlock list" where
  "numberBlocks blocks = map (\<lambda>(i, b). labelNext i b) (zip [0..<length blocks] blocks)"

definition requestedK :: "retrievalRequest \<Rightarrow> int" where
  "requestedK req = (if rr_TopK req \<le> 0 then 5 else rr_TopK req)"

definition candidateK :: "retrievalRequest \<Rightarrow> nat" where
  "candidateK req = (let k = goInt (requestedK req * 3) in if k < 20 then 20 else nat k)"

definition denseQueryText :: "retrievalRequest \<Rightarrow> string" where
  "denseQueryText req = (if rr_RewrittenQuery req \<noteq> [] then rr_RewrittenQuery req else rr_QueryText req)"

definition fusedHits ::
    "chunkSearch \<Rightarrow> string list \<Rightarrow> (nat \<Rightarrow> chunkRecord list) \<Rightarrow> retrievalRequest \<Rightarrow> rat list \<Rightarrow> evidenceBlock list" where
  "fusedHits c ks scan req vec =
     reciprocalRankFusion ks
       (denseSearch (cs_distance c vec) (rr_TenantID req) (rr_PermissionsScope req) (candidateK req) (scan 0))
       (bm25Search (cs_textRank c (rr_QueryText req)) (rr_TenantID req) (rr_PermissionsScope req)
          (candidateK req) (scan 1))
       (nat (requestedK req))"

definition coverageOf :: "evidenceBlock list \<Rightarrow> rat" where
  "coverageOf blocks = (if blocks = [] then 0 else sum_list (map eb_Score blocks) / of_nat (length blocks))"

definition hybrid_Search ::
    "chunkSearch \<Rightarrow> string list \<Rightarrow> (nat \<Rightarrow> chunkRecord list) \<Rightarrow> retrievalRequest \<Rightarrow> string + retrievalResult" where
  "hybrid_Search c ks scan req =
     (case cs_embed c (denseQueryText req) of
        Inl err \<Rightarrow> Inl (''embed query text: '' @ err)
      | Inr vec \<Rightarrow>
          let blocks = numberBlocks
                (expandToParents (scan 2) (scan 3) (rr_TenantID req) (fusedHits c ks scan req vec))
          in Inr \<lparr>rres_RequestID = rr_RequestID req, rres_PlanID = rr_PlanID req,
                  rres_QueryUsed = denseQueryText req, rres_EvidenceBlocks = blocks,
                  rres_CoverageScore = coverageOf blocks, rres_MissingQuestions = []\<rparr>)"

end
