(* ===== verification/Hybrid_Laws.thy ===== *)
theory Hybrid_Laws
  imports Hybrid_Search
begin

text \<open>
  What the search over the table returns: the fusion of two rankings is the best of both, and
  every piece of evidence is a stored row of the tenant, found once.
\<close>

subsection \<open>Scores\<close>

text \<open>What a ranking gives to an identifier.\<close>

definition contribution :: "evidenceBlock list \<Rightarrow> string \<Rightarrow> rat" where
  "contribution blocks k =
     sum_list (map (\<lambda>(rank, b). if eb_EvidenceID b = k then rankWeight rank else 0)
       (zip [0..<length blocks] blocks))"

definition evidenceIDs :: "evidenceBlock list \<Rightarrow> string set" where
  "evidenceIDs blocks = eb_EvidenceID ` set blocks"

definition rrfScore :: "evidenceBlock list \<Rightarrow> evidenceBlock list \<Rightarrow> string \<Rightarrow> rat" where
  "rrfScore listA listB k = contribution listA k + contribution listB k"

lemma rankWeight_pos [simp]: "0 < rankWeight rank"
  by (simp add: rankWeight_def)

lemma fold_addRank:
  "scoreIn (fold addRank rs scores) k
     = scoreIn scores k + sum_list (map (\<lambda>(rank, b). if eb_EvidenceID b = k then rankWeight rank else 0) rs)"
  "dom (fold addRank rs scores) = dom scores \<union> (\<lambda>(rank, b). eb_EvidenceID b) ` set rs"
  by (induction rs arbitrary: scores) (auto simp: addRank_def scoreIn_def)

lemma addRanks_spec:
  "scoreIn (addRanks blocks scores) k = scoreIn scores k + contribution blocks k"
  "dom (addRanks blocks scores) = dom scores \<union> evidenceIDs blocks"
proof -
  show "scoreIn (addRanks blocks scores) k = scoreIn scores k + contribution blocks k"
    by (simp add: addRanks_def contribution_def fold_addRank)
  have "(\<lambda>(rank, b). eb_EvidenceID b) ` set (zip [0..<length blocks] blocks) = eb_EvidenceID ` set blocks"
  proof -
    have "map (\<lambda>(rank, b). eb_EvidenceID b) (zip [0..<length blocks] blocks) = map eb_EvidenceID blocks"
      by (rule nth_equalityI) auto
    then show ?thesis by (metis list.set_map)
  qed
  then show "dom (addRanks blocks scores) = dom scores \<union> evidenceIDs blocks"
    by (simp add: addRanks_def fold_addRank evidenceIDs_def)
qed

lemma scores_spec:
  "addRanks listB (addRanks listA Map.empty) k
     = (if k \<in> evidenceIDs listA \<union> evidenceIDs listB then Some (rrfScore listA listB k) else None)"
proof -
  let ?m = "addRanks listB (addRanks listA Map.empty)"
  have "dom ?m = evidenceIDs listA \<union> evidenceIDs listB" by (simp add: addRanks_spec)
  moreover have "scoreIn ?m k = rrfScore listA listB k"
    by (simp add: addRanks_spec rrfScore_def) (simp add: scoreIn_def)
  ultimately show ?thesis by (auto simp: scoreIn_def split: option.splits)
qed

lemma contribution_nonneg: "0 \<le> contribution blocks k"
  unfolding contribution_def by (rule sum_list_nonneg) (auto simp: less_imp_le)

lemma contribution_Cons_last:
  "contribution (blocks @ [b]) k
     = contribution blocks k + (if eb_EvidenceID b = k then rankWeight (length blocks) else 0)"
  by (simp add: contribution_def)

lemma contribution_bounds:
  "distinct (map eb_EvidenceID blocks) \<Longrightarrow>
     (k \<notin> evidenceIDs blocks \<longrightarrow> contribution blocks k = 0)
   \<and> (k \<in> evidenceIDs blocks \<longrightarrow> 0 < contribution blocks k) \<and> contribution blocks k \<le> rankWeight 0"
proof (induction blocks rule: rev_induct)
  case Nil
  then show ?case by (simp add: contribution_def evidenceIDs_def less_imp_le)
next
  case (snoc b blocks)
  have "rankWeight (length blocks) \<le> rankWeight 0"
    by (simp add: rankWeight_def frac_le)
  then show ?case using snoc by (auto simp: contribution_Cons_last evidenceIDs_def)
qed

lemma contribution_pos: "k \<in> evidenceIDs blocks \<Longrightarrow> 0 < contribution blocks k"
proof (induction blocks rule: rev_induct)
  case Nil
  then show ?case by (simp add: evidenceIDs_def)
next
  case (snoc b blocks)
  then show ?case using contribution_nonneg [of blocks k]
    by (auto simp: contribution_Cons_last evidenceIDs_def add_nonneg_pos)
qed

lemma rrfScore_pos: "k \<in> evidenceIDs listA \<union> evidenceIDs listB \<Longrightarrow> 0 < rrfScore listA listB k"
  using contribution_pos contribution_nonneg unfolding rrfScore_def
  by (metis UnE add_nonneg_pos add_pos_nonneg)

subsection \<open>Fusion\<close>

interpretation ranked: record_order fusedLess fst "\<lambda>_. True"
  by unfold_locales (auto simp: fusedLess_def split: if_splits)

lemma fold_putBlock:
  "fold putBlock xs m k = (case find (\<lambda>b. eb_EvidenceID b = k) (rev xs) of None \<Rightarrow> m k | Some b \<Rightarrow> Some b)"
  by (induction xs arbitrary: m) (auto simp: putBlock_def find_append split: option.splits)

lemma fold_keepFirst:
  "fold keepFirst xs m k = (case m k of None \<Rightarrow> find (\<lambda>b. eb_EvidenceID b = k) xs | Some b \<Rightarrow> Some b)"
  by (induction xs arbitrary: m) (auto simp: keepFirst_def split: option.splits)

lemma blockByID_eq: "blockByID listA listB k = find (\<lambda>b. eb_EvidenceID b = k) (rev listA @ listB)"
  by (simp add: blockByID_def fold_keepFirst fold_putBlock find_append split: option.splits)

lemma blockByID_Some:
  assumes "k \<in> evidenceIDs listA \<union> evidenceIDs listB"
  shows "\<exists>b \<in> set listA \<union> set listB. blockByID listA listB k = Some b \<and> eb_EvidenceID b = k"
proof (cases "find (\<lambda>b. eb_EvidenceID b = k) (rev listA @ listB)")
  case None
  with assms show ?thesis by (auto simp: find_None_iff evidenceIDs_def)
next
  case (Some b)
  with find_SomeD [OF Some] show ?thesis by (auto simp: blockByID_eq)
qed

lemma fusedBlock_fields:
  assumes "k \<in> evidenceIDs listA \<union> evidenceIDs listB"
  obtains b where "b \<in> set listA \<union> set listB" "eb_EvidenceID b = k"
    "fusedBlock (blockByID listA listB) (k, score)
       = b\<lparr>eb_Score := min 1 (score / maxRRF), eb_RerankScore := Finite score\<rparr>"
  using blockByID_Some [OF assms] by (fastforce simp: fusedBlock_def Let_def min_def)

lemma rankedScores_spec:
  assumes "iterOrder scores ks"
  shows "sorted_wrt fusedLess (rankedScores ks scores)" "distinct (map fst (rankedScores ks scores))"
    "set (rankedScores ks scores) = {(k, x). scores k = Some x}"
    "length (rankedScores ks scores) = card (dom scores)"
proof -
  let ?m = "\<lambda>k. map_option (Pair k) (scores k)"
  have m: "keyedBy fst ?m" "iterOrder ?m ks"
    using assms by (auto simp: keyedBy_def iterOrder_def)
  have d: "distinct (map fst (rangeVals ?m ks))" by (rule distinct_idents_rangeVals [OF m])
  show "sorted_wrt fusedLess (rankedScores ks scores)"
    unfolding rankedScores_def by (rule ranked.goSort_sorted) (simp_all add: d)
  show "distinct (map fst (rankedScores ks scores))" by (simp add: rankedScores_def d)
  show "set (rankedScores ks scores) = {(k, x). scores k = Some x}"
    using set_rangeVals [OF m(2)] by (auto simp: rankedScores_def ran_def)
  have "map fst (rangeVals ?m ks) = ks" using m by (intro idents_rangeVals) (simp_all add: iterOrder_def)
  then have "length (rangeVals ?m ks) = length ks" by (metis length_map)
  also have "\<dots> = card (dom scores)" using assms by (metis distinct_card iterOrder_def)
  finally show "length (rankedScores ks scores) = card (dom scores)" by (simp add: rankedScores_def)
qed

lemma fusion_take:
  "reciprocalRankFusion ks listA listB topK
     = map (fusedBlock (blockByID listA listB)) (take topK (rankedScores ks (addRanks listB (addRanks listA Map.empty))))"
  by (simp add: reciprocalRankFusion_def Let_def)

text \<open>Blocks of the fusion without a word about the order in which the map is visited.\<close>

lemma fusion_mem:
  assumes "b \<in> set (reciprocalRankFusion ks listA listB topK)"
  obtains b0 where "b0 \<in> set listA \<union> set listB"
    "b = b0\<lparr>eb_Score := min 1 (rrfScore listA listB (eb_EvidenceID b0) / maxRRF),
           eb_RerankScore := Finite (rrfScore listA listB (eb_EvidenceID b0))\<rparr>"
proof -
  let ?m = "addRanks listB (addRanks listA Map.empty)"
  from assms obtain k x where kx: "(k, x) \<in> set (rankedScores ks ?m)"
    and b: "b = fusedBlock (blockByID listA listB) (k, x)"
    unfolding fusion_take by (auto dest!: in_set_takeD)
  then obtain j where "map_option (Pair j) (?m j) = Some (k, x)"
    unfolding rankedScores_def by (auto dest!: set_rangeVals_subset)
  then have k: "k \<in> evidenceIDs listA \<union> evidenceIDs listB" "x = rrfScore listA listB k"
    by (auto simp: scores_spec split: if_splits)
  obtain b0 where "b0 \<in> set listA \<union> set listB" "eb_EvidenceID b0 = k"
    "fusedBlock (blockByID listA listB) (k, x) = b0\<lparr>eb_Score := min 1 (x / maxRRF), eb_RerankScore := Finite x\<rparr>"
    by (rule fusedBlock_fields [OF k(1)]) (rule that)
  with b k(2) show thesis by (intro that [of b0]) auto
qed

lemma fusedBlock_ID:
  "k \<in> evidenceIDs listA \<union> evidenceIDs listB
   \<Longrightarrow> eb_EvidenceID (fusedBlock (blockByID listA listB) (k, x)) = k"
  by (rule fusedBlock_fields [of k listA listB x]) auto

lemma rrfScore_le: "\<lbrakk>distinct (map eb_EvidenceID listA); distinct (map eb_EvidenceID listB)\<rbrakk>
  \<Longrightarrow> rrfScore listA listB k \<le> maxRRF"
  using contribution_bounds [of listA k] contribution_bounds [of listB k]
  by (simp add: rrfScore_def maxRRF_def rankWeight_def)

lemma maxRRF_pos [simp]: "0 < maxRRF"
  by (simp add: maxRRF_def)

text \<open>
  The fusion of two rankings without repetitions contains each identifier once and is the
  best of their union up to the limit: it is ordered by the sum of the reciprocal ranks, ties by
  identifier, nothing left out is better than what is in, and the scores are that sum,
  normalised into (0, 1]; in whatever order the map of scores is visited.
\<close>

theorem reciprocalRankFusion_best:
  assumes "distinct (map eb_EvidenceID listA)" "distinct (map eb_EvidenceID listB)"
    and "iterOrder (addRanks listB (addRanks listA Map.empty)) ks"
    and "out = reciprocalRankFusion ks listA listB topK"
  shows "length out = min topK (card (evidenceIDs listA \<union> evidenceIDs listB))
    \<and> distinct (map eb_EvidenceID out)
    \<and> sorted_wrt fusedLess (map (\<lambda>b. (eb_EvidenceID b, rrfScore listA listB (eb_EvidenceID b))) out)
    \<and> (\<forall>b \<in> set out. eb_EvidenceID b \<in> evidenceIDs listA \<union> evidenceIDs listB
        \<and> eb_Score b = rrfScore listA listB (eb_EvidenceID b) / maxRRF \<and> 0 < eb_Score b \<and> eb_Score b \<le> 1)
    \<and> (\<forall>b \<in> set out. \<forall>k \<in> evidenceIDs listA \<union> evidenceIDs listB. k \<notin> evidenceIDs out \<longrightarrow>
        fusedLess (eb_EvidenceID b, rrfScore listA listB (eb_EvidenceID b)) (k, rrfScore listA listB k))"
proof -
  let ?ids = "evidenceIDs listA \<union> evidenceIDs listB" and ?score = "rrfScore listA listB"
  let ?m = "addRanks listB (addRanks listA Map.empty)"
  let ?R = "rankedScores ks ?m" and ?f = "fusedBlock (blockByID listA listB)"
  have mem: "(k, x) \<in> set ?R \<longleftrightarrow> k \<in> ?ids \<and> x = ?score k" for k x
    by (auto simp: rankedScores_spec(3) [OF assms(3)] scores_spec)
  have pair: "(eb_EvidenceID (?f p), ?score (eb_EvidenceID (?f p))) = p" if p: "p \<in> set ?R" for p
  proof -
    obtain k x where kx: "p = (k, x)" by force
    with p mem have "k \<in> ?ids" "x = ?score k" by blast+
    then show ?thesis by (simp add: kx fusedBlock_ID)
  qed
  have pairs: "map (\<lambda>b. (eb_EvidenceID b, ?score (eb_EvidenceID b))) out = take topK ?R"
    unfolding assms(4) fusion_take list.map_comp
    by (rule map_idI) (simp only: comp_def pair in_set_takeD)
  then have keys: "map eb_EvidenceID out = map fst (take topK ?R)"
    by (simp add: comp_def flip: pairs)
  have dist: "distinct (map fst ?R)" by (rule rankedScores_spec [OF assms(3)])
  have "dom ?m = ?ids" by (auto simp: scores_spec split: if_splits)
  then have len: "length out = min topK (card ?ids)"
    using rankedScores_spec(4) [OF assms(3)] by (simp add: assms(4) fusion_take min.commute)
  have fields: "eb_EvidenceID b \<in> ?ids \<and> eb_Score b = ?score (eb_EvidenceID b) / maxRRF
      \<and> 0 < eb_Score b \<and> eb_Score b \<le> 1" if b: "b \<in> set out" for b
  proof -
    obtain b0 where "b0 \<in> set listA \<union> set listB"
      "b = b0\<lparr>eb_Score := min 1 (?score (eb_EvidenceID b0) / maxRRF),
              eb_RerankScore := Finite (?score (eb_EvidenceID b0))\<rparr>"
      by (rule fusion_mem [OF b [unfolded assms(4)]]) (rule that)
    moreover from this have "eb_EvidenceID b0 \<in> ?ids" by (auto simp: evidenceIDs_def)
    moreover have "?score k / maxRRF \<le> 1" for k
      using rrfScore_le [OF assms(1,2)] by (simp add: divide_le_eq)
    ultimately show ?thesis using rrfScore_pos by (simp add: min_absorb2)
  qed
  have better: "fusedLess (eb_EvidenceID b, ?score (eb_EvidenceID b)) (k, ?score k)"
    if "b \<in> set out" "k \<in> ?ids" "k \<notin> evidenceIDs out" for b k
  proof -
    have "(eb_EvidenceID b, ?score (eb_EvidenceID b)) \<in> set (take topK ?R)"
      using that(1) by (auto simp flip: pairs)
    moreover have "(k, ?score k) \<notin> set (take topK ?R)"
      using that(3) by (auto simp: evidenceIDs_def simp flip: pairs)
    then have "(k, ?score k) \<in> set (drop topK ?R)"
      using that(2) mem by (metis Un_iff append_take_drop_id set_append)
    moreover have "sorted_wrt fusedLess (take topK ?R @ drop topK ?R)"
      using rankedScores_spec(1) [OF assms(3)] by simp
    ultimately show ?thesis unfolding sorted_wrt_append by blast
  qed
  have "sorted_wrt fusedLess (take topK ?R)"
    by (rule sorted_wrt_take) (rule rankedScores_spec [OF assms(3)])
  moreover have "distinct (map eb_EvidenceID out)" using dist by (simp add: keys flip: take_map)
  ultimately show ?thesis unfolding pairs using len fields better by blast
qed

lemma fusion_distinct:
  assumes "distinct ks"
  shows "distinct (map eb_EvidenceID (reciprocalRankFusion ks listA listB topK))"
proof -
  let ?m = "addRanks listB (addRanks listA Map.empty)"
  let ?R = "rankedScores ks ?m" and ?f = "fusedBlock (blockByID listA listB)"
  have keys: "rangeVals (\<lambda>k. map_option (Pair k) (m k)) ks = map (\<lambda>k. (k, the (m k))) (filter (\<lambda>k. m k \<noteq> None) ks)"
    for m :: "string \<rightharpoonup> rat" by (induction ks) auto
  have "distinct (map fst ?R)"
    using assms by (simp add: rankedScores_def keys comp_def)
  moreover have "eb_EvidenceID (?f p) = fst p" if "p \<in> set ?R" for p
    using that by (auto simp: rankedScores_def keys scores_spec fusedBlock_ID split: if_splits)
  then have "map (\<lambda>p. eb_EvidenceID (?f p)) (take topK ?R) = map fst (take topK ?R)"
    by (intro map_cong) (auto dest: in_set_takeD)
  ultimately show ?thesis unfolding fusion_take by (simp add: comp_def flip: take_map)
qed

subsection \<open>Stored evidence\<close>

text \<open>A block shows a row of the tenant, with a score of its own.\<close>

definition showsRow :: "chunkRecord list \<Rightarrow> string \<Rightarrow> evidenceBlock \<Rightarrow> bool" where
  "showsRow table tenantID b \<longleftrightarrow> (\<exists>r \<in> set table. row_TenantID r = tenantID
     \<and> b\<lparr>eb_Score := 0, eb_RerankScore := Finite 0, eb_CitationLabel := []\<rparr> = blockOf 0 r)
     \<and> 0 < eb_Score b \<and> eb_Score b \<le> 1"

lemma denseSearch_mem:
  "b \<in> set (denseSearch distance tenantID permScope limit rows) \<Longrightarrow>
     \<exists>r \<in> set rows. inScope tenantID permScope r \<and> (\<exists>score. b = blockOf score r)"
  by (auto simp: denseSearch_def dest!: in_set_takeD)

lemma bm25Search_mem:
  "b \<in> set (bm25Search textRank tenantID permScope limit rows) \<Longrightarrow>
     \<exists>r \<in> set rows. inScope tenantID permScope r \<and> (\<exists>score. b = blockOf score r)"
  by (auto simp: bm25Search_def dest!: in_set_takeD)

lemma search_rows:
  assumes "set rows \<subseteq> set table"
  shows "b \<in> set (denseSearch distance tenantID permScope limit rows) \<Longrightarrow>
      \<exists>r \<in> set table. row_TenantID r = tenantID \<and> (\<exists>score. b = blockOf score r)"
    "b \<in> set (bm25Search textRank tenantID permScope limit rows) \<Longrightarrow>
      \<exists>r \<in> set table. row_TenantID r = tenantID \<and> (\<exists>score. b = blockOf score r)"
  using assms denseSearch_mem bm25Search_mem unfolding inScope_def by blast+

lemma fusion_shows:
  assumes "\<forall>b \<in> set listA \<union> set listB. \<exists>r \<in> set table. row_TenantID r = tenantID \<and> (\<exists>score. b = blockOf score r)"
    and "b \<in> set (reciprocalRankFusion ks listA listB topK)"
  shows "showsRow table tenantID b"
proof -
  obtain b0 where b0: "b0 \<in> set listA \<union> set listB"
    and b: "b = b0\<lparr>eb_Score := min 1 (rrfScore listA listB (eb_EvidenceID b0) / maxRRF),
                  eb_RerankScore := Finite (rrfScore listA listB (eb_EvidenceID b0))\<rparr>"
    by (rule fusion_mem [OF assms(2)]) (rule that)
  obtain r score where r: "r \<in> set table" "row_TenantID r = tenantID" "b0 = blockOf score r"
    using assms(1) b0 by blast
  have "0 < rrfScore listA listB (eb_EvidenceID b0)"
    using b0 by (intro rrfScore_pos) (auto simp: evidenceIDs_def)
  then have "0 < eb_Score b" "eb_Score b \<le> 1" by (simp_all add: b)
  moreover have "b\<lparr>eb_Score := 0, eb_RerankScore := Finite 0, eb_CitationLabel := []\<rparr> = blockOf 0 r"
    by (simp add: b r(3) blockOf_def)
  ultimately show ?thesis using r(1,2) by (auto simp: showsRow_def)
qed

lemma fusedHits_shows:
  assumes "set (scan 0) \<subseteq> set table" "set (scan 1) \<subseteq> set table"
  shows "\<forall>b \<in> set (fusedHits c ks scan req vec). showsRow table (rr_TenantID req) b"
  unfolding fusedHits_def
  by (intro ballI, rule fusion_shows) (use search_rows(1) [OF assms(1)] search_rows(2) [OF assms(2)] in blast)+

lemma fold_upd_Some:
  "fold (\<lambda>r m. m(f r \<mapsto> g r)) rs m k = Some y \<Longrightarrow> m k = Some y \<or> (\<exists>r \<in> set rs. f r = k \<and> g r = y)"
  by (induction rs arbitrary: m) (fastforce split: if_splits)+

lemma parentByChunkID_Some:
  "parentByChunkID tenantID ids rows p = Some b \<Longrightarrow>
     \<exists>r \<in> set rows. row_TenantID r = tenantID \<and> row_ChunkID r = p \<and> b = blockOf 0 r"
  unfolding parentByChunkID_def by (drule fold_upd_Some) auto

lemma expandLoop_shows:
  assumes "\<forall>b \<in> set blocks. showsRow table tenantID b"
    and "\<And>p b. parents p = Some b \<Longrightarrow> \<exists>r \<in> set table. row_TenantID r = tenantID \<and> b = blockOf 0 r"
  shows "\<forall>b \<in> set (expandLoop parentOf parents seen blocks). showsRow table tenantID b"
  using assms(1)
proof (induction blocks arbitrary: seen)
  case Nil
  then show ?case by simp
next
  case (Cons b bs)
  have rest: "\<forall>x \<in> set (expandLoop parentOf parents seen bs). showsRow table tenantID x" for seen
    using Cons by simp
  have b: "showsRow table tenantID b" using Cons.prems by simp
  have "showsRow table tenantID (parent\<lparr>eb_Score := eb_Score b, eb_RerankScore := eb_RerankScore b\<rparr>)"
    if p: "parents p = Some parent" for p parent
  proof -
    obtain r where "r \<in> set table" "row_TenantID r = tenantID" "parent = blockOf 0 r" using assms(2) [OF p] by blast
    then show ?thesis using b by (auto simp: showsRow_def blockOf_def)
  qed
  then show ?case using rest b by (auto simp: Let_def split: option.splits)
qed

lemma expandLoop_distinct:
  assumes "\<And>p b. parents p = Some b \<Longrightarrow> eb_ChunkID b = p"
  shows "distinct (map eb_ChunkID (expandLoop parentOf parents seen blocks))
    \<and> set seen \<inter> eb_ChunkID ` set (expandLoop parentOf parents seen blocks) = {}
    \<and> length (expandLoop parentOf parents seen blocks) \<le> length blocks"
proof (induction blocks arbitrary: seen)
  case Nil
  then show ?case by simp
next
  case (Cons b bs)
  note ih = Cons.IH [of seen] Cons.IH [of "eb_ChunkID b # seen"]
  show ?case
  proof (cases "parentOf (eb_ChunkID b)")
    case None
    then show ?thesis using ih by (auto simp: Let_def)
  next
    case (Some p)
    note ih' = Cons.IH [of "p # seen"] Cons.IH [of "eb_ChunkID b # p # seen"]
    show ?thesis
    proof (cases "parents p")
      case None
      then show ?thesis using Some ih ih' by (auto simp: Let_def)
    next
      case (Some parent)
      then show ?thesis using \<open>parentOf (eb_ChunkID b) = Some p\<close> ih ih' assms [OF Some]
        by (auto simp: Let_def)
    qed
  qed
qed

lemma namedRow_ID: "\<lbrakk>namedRow r; namedRow r'; row_ChunkID r = row_ChunkID r'\<rbrakk> \<Longrightarrow> row_ID r = row_ID r'"
  by (auto simp: namedRow_def)

lemma showsRow_chunk:
  assumes "namedTable table" "showsRow table tenantID b" "showsRow table tenantID b'" "eb_ChunkID b = eb_ChunkID b'"
  shows "eb_EvidenceID b = eb_EvidenceID b'"
proof -
  have "\<exists>r \<in> set table. eb_ChunkID x = row_ChunkID r \<and> eb_EvidenceID x = row_ID r"
    if x: "showsRow table tenantID x" for x
  proof -
    obtain r where "r \<in> set table"
      "x\<lparr>eb_Score := 0, eb_RerankScore := Finite 0, eb_CitationLabel := []\<rparr> = blockOf 0 r"
      using x unfolding showsRow_def by blast
    then show ?thesis by (cases x) (auto simp: blockOf_def)
  qed
  then obtain r r' where "r \<in> set table" "r' \<in> set table" "eb_ChunkID b = row_ChunkID r"
    "eb_EvidenceID b = row_ID r" "eb_ChunkID b' = row_ChunkID r'" "eb_EvidenceID b' = row_ID r'"
    using assms(2,3) by meson
  then show ?thesis using assms(1,4) namedRow_ID by (auto simp: namedTable_def)
qed

lemma labelNext_shows [simp]:
  "showsRow table tenantID (labelNext i b) = showsRow table tenantID b"
  "eb_ChunkID (labelNext i b) = eb_ChunkID b" "eb_Score (labelNext i b) = eb_Score b"
  "eb_CitationLabel (labelNext i b) = ''['' @ showNat (i + 1) @ '']''"
  "eb_TenantID (labelNext i b) = eb_TenantID b" "eb_PermissionsScope (labelNext i b) = eb_PermissionsScope b"
  by (simp_all add: showsRow_def labelNext_def)

lemma numbered_blocks:
  "length (numberBlocks blocks) = length blocks"
  "map eb_ChunkID (numberBlocks blocks) = map eb_ChunkID blocks"
  "map eb_CitationLabel (numberBlocks blocks) = map (\<lambda>i. ''['' @ showNat (i + 1) @ '']'') [0..<length blocks]"
  "(\<forall>b \<in> set (numberBlocks blocks). showsRow table tenantID b) \<longleftrightarrow> (\<forall>b \<in> set blocks. showsRow table tenantID b)"
  unfolding numberBlocks_def by (auto intro!: nth_equalityI simp: all_set_conv_all_nth)

lemma expandToParents_shows:
  assumes "\<forall>b \<in> set blocks. showsRow table tenantID b" "set rows' \<subseteq> set table"
    and "distinct (map eb_EvidenceID blocks)" "namedTable table"
    and "out = expandToParents rows rows' tenantID blocks"
  shows "(\<forall>b \<in> set out. showsRow table tenantID b) \<and> distinct (map eb_ChunkID out) \<and> length out \<le> length blocks"
proof -
  let ?c = "childToParent tenantID (map eb_ChunkID blocks) rows"
  let ?p = "parentByChunkID tenantID (ran ?c) rows'"
  have "inj_on eb_ChunkID (set blocks)"
  proof (rule inj_onI)
    fix b b' assume "b \<in> set blocks" "b' \<in> set blocks" "eb_ChunkID b = eb_ChunkID b'"
    moreover from this have "eb_EvidenceID b = eb_EvidenceID b'"
      using showsRow_chunk [OF assms(4)] assms(1) by blast
    ultimately show "b = b'" using assms(3) by (meson distinct_map inj_onD)
  qed
  then have plain: "distinct (map eb_ChunkID blocks)" using assms(3) by (simp add: distinct_map)
  have parent: "\<exists>r \<in> set table. row_TenantID r = tenantID \<and> b = blockOf 0 r" "eb_ChunkID b = p"
    if "?p p = Some b" for p b
    using parentByChunkID_Some [OF that] assms(2) by (auto simp: blockOf_def)
  show ?thesis
  proof (cases "blocks = [] \<or> ran ?c = {}")
    case True
    then have "out = blocks" unfolding assms(5) expandToParents_def Let_def by (simp only: if_True if_cancel split: if_split) blast
    then show ?thesis using plain assms(1) by simp
  next
    case False
    then have "out = expandLoop ?c ?p [] blocks" by (simp add: assms(5) expandToParents_def Let_def)
    then show ?thesis
      using expandLoop_shows [OF assms(1) parent(1)] expandLoop_distinct [OF parent(2)] by simp
  qed
qed

lemma mean_bounds:
  fixes xs :: "rat list"
  assumes "\<forall>x \<in> set xs. 0 < x \<and> x \<le> 1" "xs \<noteq> []"
  shows "0 < sum_list xs / of_nat (length xs) \<and> sum_list xs / of_nat (length xs) \<le> 1"
proof -
  have "sum_list xs \<le> of_nat (length xs)" "xs \<noteq> [] \<longrightarrow> 0 < sum_list xs"
    using assms(1) by (induction xs) (auto intro: add_pos_nonneg sum_list_nonneg less_imp_le)
  then show ?thesis using assms(2) by (simp add: divide_le_eq)
qed

text \<open>
  C30: On a table written by ingestion a search returns rows of the tenant that asks, each chunk
  at most once and no more than asked for (five when nothing is asked), labelled in order, with
  scores and coverage between 0 and 1 and a coverage of 0 exactly for an empty answer.
\<close>

theorem hybrid_Search_correct:
  assumes "namedTable table" "\<forall>n. set (scan n) \<subseteq> set table" "distinct ks"
    and "hybrid_Search c ks scan req = Inr res" "blocks = rres_EvidenceBlocks res"
  shows "(\<forall>b \<in> set blocks. showsRow table (rr_TenantID req) b) \<and> distinct (map eb_ChunkID blocks)
    \<and> int (length blocks) \<le> (if rr_TopK req \<le> 0 then 5 else rr_TopK req)
    \<and> map eb_CitationLabel blocks = map (\<lambda>i. ''['' @ showNat (i + 1) @ '']'') [0..<length blocks]
    \<and> 0 \<le> rres_CoverageScore res \<and> rres_CoverageScore res \<le> 1
    \<and> (rres_CoverageScore res = 0 \<longleftrightarrow> blocks = [])"
proof -
  let ?tenant = "rr_TenantID req"
  from assms(4) obtain vec where vec: "cs_embed c (denseQueryText req) = Inr vec"
    by (auto simp: hybrid_Search_def split: sum.splits)
  let ?fused = "fusedHits c ks scan req vec"
  let ?expanded = "expandToParents (scan 2) (scan 3) ?tenant ?fused"
  have blocks: "blocks = numberBlocks ?expanded" and coverage: "rres_CoverageScore res = coverageOf blocks"
    using assms(4,5) vec by (auto simp: hybrid_Search_def Let_def)
  have sub: "set (scan n) \<subseteq> set table" for n using assms(2) by blast
  have len: "length ?fused \<le> nat (requestedK req)" by (simp add: fusedHits_def fusion_take)
  have "\<forall>b \<in> set ?fused. showsRow table ?tenant b" by (rule fusedHits_shows) (rule sub)+
  moreover have "distinct (map eb_EvidenceID ?fused)" unfolding fusedHits_def by (rule fusion_distinct [OF assms(3)])
  ultimately have ex: "(\<forall>b \<in> set ?expanded. showsRow table ?tenant b) \<and> distinct (map eb_ChunkID ?expanded)
      \<and> length ?expanded \<le> length ?fused"
    using expandToParents_shows [OF _ sub _ assms(1) refl] by blast
  note num = numbered_blocks [of ?expanded, folded blocks]
  have rows: "\<forall>b \<in> set blocks. showsRow table ?tenant b" using ex num(4) by blast
  have "0 \<le> coverageOf blocks \<and> coverageOf blocks \<le> 1 \<and> (coverageOf blocks = 0 \<longleftrightarrow> blocks = [])"
  proof (cases "blocks = []")
    case False
    have "\<forall>x \<in> set (map eb_Score blocks). 0 < x \<and> x \<le> 1" using rows by (auto simp: showsRow_def)
    from mean_bounds [OF this] False show ?thesis by (auto simp: coverageOf_def)
  qed (simp add: coverageOf_def)
  moreover have "int (length blocks) \<le> requestedK req" using ex len num(1) by (auto simp: requestedK_def)
  ultimately show ?thesis using rows ex num(1-3) unfolding coverage requestedK_def by simp
qed

text \<open>The tenant needs no assumption about the table.\<close>

lemma hybrid_Search_tenant:
  assumes "hybrid_Search c ks scan req = Inr res" "b \<in> set (rres_EvidenceBlocks res)"
  shows "eb_TenantID b = rr_TenantID req"
proof -
  let ?table = "scan 0 @ scan 1 @ scan 2 @ scan 3" and ?tenant = "rr_TenantID req"
  from assms(1) obtain vec where vec: "cs_embed c (denseQueryText req) = Inr vec"
    by (auto simp: hybrid_Search_def split: sum.splits)
  let ?fused = "fusedHits c ks scan req vec"
  have fused: "\<forall>b \<in> set ?fused. showsRow ?table ?tenant b"
    by (rule fusedHits_shows) auto
  have parent: "\<exists>r \<in> set ?table. row_TenantID r = ?tenant \<and> b = blockOf 0 r"
    if "parentByChunkID ?tenant ids (scan 3) p = Some b" for ids p b
    using parentByChunkID_Some [OF that] by auto
  have "\<forall>b \<in> set (expandToParents (scan 2) (scan 3) ?tenant ?fused). showsRow ?table ?tenant b"
    using fused expandLoop_shows [OF fused parent] unfolding expandToParents_def Let_def
    by (simp del: set_append split: if_split)
  then have shown: "\<forall>x \<in> set (numberBlocks (expandToParents (scan 2) (scan 3) ?tenant ?fused)). showsRow ?table ?tenant x"
    unfolding numbered_blocks(4) .
  have "rres_EvidenceBlocks res = numberBlocks (expandToParents (scan 2) (scan 3) ?tenant ?fused)"
    using assms(1) vec by (auto simp: hybrid_Search_def Let_def)
  with assms(2) have "b \<in> set (numberBlocks (expandToParents (scan 2) (scan 3) ?tenant ?fused))" by simp
  with shown have "showsRow ?table ?tenant b" by blast
  then obtain r where "row_TenantID r = ?tenant"
    "b\<lparr>eb_Score := 0, eb_RerankScore := Finite 0, eb_CitationLabel := []\<rparr> = blockOf 0 r"
    unfolding showsRow_def by blast
  then show ?thesis by (cases b) (simp add: blockOf_def)
qed

subsection \<open>Concrete searches\<close>

definition demoHit :: "string \<Rightarrow> evidenceBlock" where
  "demoHit k = zeroEvidence\<lparr>eb_EvidenceID := k\<rparr>"

lemma demoHit_ID [simp]: "eb_EvidenceID (demoHit k) = k"
  by (simp add: demoHit_def)

lemma reciprocalRankFusion_best_witness:
  "length (reciprocalRankFusion [''a'', ''b'', ''c''] (map demoHit [''a'', ''b'']) (map demoHit [''b'', ''c'']) 2) = 2"
proof -
  have "iterOrder (addRanks (map demoHit [''b'', ''c'']) (addRanks (map demoHit [''a'', ''b'']) Map.empty)) [''a'', ''b'', ''c'']"
    by (auto simp: iterOrder_def dom_def scores_spec evidenceIDs_def)
  from reciprocalRankFusion_best [OF _ _ this refl, of 2] show ?thesis by (simp add: evidenceIDs_def insert_commute)
qed

definition demoSearch :: chunkSearch where
  "demoSearch = \<lparr>cs_embed = (\<lambda>_. Inr [1]), cs_distance = (\<lambda>_ _. 0), cs_textRank = (\<lambda>_ _. None)\<rparr>"

definition scopeRequest :: "string \<Rightarrow> retrievalRequest" where
  "scopeRequest scope = \<lparr>rr_RequestID = ''r'', rr_TraceID = [], rr_TenantID = ''acme'', rr_SessionID = [],
     rr_PlanID = [], rr_QueryText = ''restart'', rr_RewrittenQuery = [], rr_PermissionsScope = scope,
     rr_TopK = 0, rr_UseRerank = False\<rparr>"

text \<open>A document whose scope is tightened; the second ingestion is interrupted after the chunk.\<close>

definition scopedDocument :: "string \<Rightarrow> document" where
  "scopedDocument scope = (demoDocument ''acme'')\<lparr>doc_PermissionsScope := scope\<rparr>"

definition interrupted :: cancellation where
  "interrupted i jo = (case jo of None \<Rightarrow> None | Some _ \<Rightarrow> Some ''context canceled'')"

definition scopedParent :: "string \<Rightarrow> chunkRecord" where
  "scopedParent scope = parentRecord (scopedDocument scope) 0 demoChunk [1]"

definition scopedChild :: "string \<Rightarrow> chunkRecord" where
  "scopedChild scope = childRecord (scopedDocument scope) 0 demoChunk 0
     \<lparr>sn_Text = ''Restart it twice.'', sn_Index = 0, sn_Embedding = []\<rparr> [1]"

lemma scoped_simps [simp]:
  "doc_DocumentID (scopedDocument scope) = ''d''" "doc_TenantID (scopedDocument scope) = ''acme''"
  "doc_Content (scopedDocument scope) = ''Restart it twice.''" "doc_DocumentVersion (scopedDocument scope) = 1"
  "parentChunkID (scopedDocument scope) i = parentChunkID (demoDocument ''acme'') i"
  "childChunkID (scopedDocument scope) i j = childChunkID (demoDocument ''acme'') i j"
  "PrefixChunks NoProvider (scopedDocument scope) [demoChunk\<lparr>chk_ContextPrefix := []\<rparr>] = [demoChunk]"
  using demo_chunks(2)
  by (simp_all add: scopedDocument_def parentChunkID_def childChunkID_def PrefixChunks_def plainPrefix_def)

lemma scoped_rows [simp]:
  "row_TenantID (scopedParent scope) = ''acme''" "row_TenantID (scopedChild scope) = ''acme''"
  "row_ChunkID (scopedParent scope) = parentChunkID (demoDocument ''acme'') 0"
  "row_ChunkID (scopedChild scope) = childChunkID (demoDocument ''acme'') 0 0"
  "row_PermissionsScope (scopedParent scope) = scope" "row_PermissionsScope (scopedChild scope) = scope"
  "row_ParentChunkID (scopedParent scope) = None"
  "row_ParentChunkID (scopedChild scope) = Some (parentChunkID (demoDocument ''acme'') 0)"
  by (simp_all add: scopedParent_def scopedChild_def parentRecord_def childRecord_def)
    (simp_all add: scopedDocument_def)

lemma ingest_scoped:
  "Ingest demoPipeline (\<lambda>_ _. None) (scopedDocument scope) []
     = (Inr (demoIngested ''acme''), [scopedParent scope, scopedChild scope])"
  "Ingest demoPipeline interrupted (scopedDocument scope') [scopedParent scope, scopedChild scope]
     = (Inl (IngestCancelled ''context canceled''), [scopedParent scope', scopedChild scope])"
  by (simp_all add: Ingest_def demo_split demo_chunks(1) Let_def demo_index interrupted_def row_ID_eq
      row_ID_eq(1) [symmetric] scopedParent_def scopedChild_def)

text \<open>
  A search that both queries contribute to: the sentence is found by its text as well, so that it
  ranks first, and is expanded to its chunk, which is also found on its own and shown once.
\<close>

definition textSearch :: chunkSearch where
  "textSearch = \<lparr>cs_embed = (\<lambda>_. Inr [1]), cs_distance = (\<lambda>_ _. 0),
     cs_textRank = (\<lambda>_ r. if row_ParentChunkID r = None then None else Some 1)\<rparr>"

definition publicTable :: "chunkRecord list" where
  "publicTable = [scopedChild ''public'', scopedParent ''public'']"

definition publicKeys :: "string list" where
  "publicKeys = [row_ID (scopedParent ''public''), row_ID (scopedChild ''public'')]"

definition publicHit :: evidenceBlock where
  "publicHit = (blockOf 0 (scopedParent ''public''))
     \<lparr>eb_Score := 1, eb_RerankScore := Finite (2 / 61), eb_CitationLabel := ''['' @ showNat 1 @ '']''\<rparr>"

lemma scoped_named: "namedRow (scopedChild s)" "namedRow (scopedParent s)"
  by (simp_all add: scopedParent_def scopedChild_def namedRow_records)

lemma scoped_keys: "row_ChunkID (scopedChild s) \<noteq> row_ChunkID (scopedParent t)"
  by (simp add: parentChunkID_def childChunkID_def demoDocument_def)

lemma scoped_IDs: "row_ID (scopedChild s) \<noteq> row_ID (scopedParent t)"
  using namedRow_clash [OF scoped_named(2,1)] scoped_keys by (metis sameKey_def)

lemma search_public:
  assumes "rr_TenantID req = ''acme''" "rr_PermissionsScope req = []" "rr_TopK req = 0"
  shows "\<exists>res. hybrid_Search textSearch publicKeys (\<lambda>_. publicTable) req = Inr res
    \<and> rres_EvidenceBlocks res = [publicHit] \<and> rres_CoverageScore res = 1"
proof -
  have fused: "fusedHits textSearch publicKeys (\<lambda>_. publicTable) req [1]
      = [(blockOf 0 (scopedChild ''public''))\<lparr>eb_Score := 1, eb_RerankScore := Finite (2 / 61)\<rparr>,
         (blockOf 0 (scopedParent ''public''))\<lparr>eb_Score := 61 / 124, eb_RerankScore := Finite (1 / 62)\<rparr>]"
    using scoped_IDs [of "''public''" "''public''"]
    by (simp add: assms fusedHits_def textSearch_def publicTable_def publicKeys_def denseSearch_def bm25Search_def
        inScope_def candidateK_def requestedK_def goSort_def fusion_take rankedScores_def addRanks_def addRank_def
        scoreIn_def rankWeight_def rrfK_def blockByID_eq fusedBlock_def maxRRF_def blockOf_def fusedLess_def Let_def)
  have expanded: "expandToParents publicTable publicTable ''acme''
      [(blockOf 0 (scopedChild ''public''))\<lparr>eb_Score := 1, eb_RerankScore := Finite (2 / 61)\<rparr>,
       (blockOf 0 (scopedParent ''public''))\<lparr>eb_Score := 61 / 124, eb_RerankScore := Finite (1 / 62)\<rparr>]
      = [(blockOf 0 (scopedParent ''public''))\<lparr>eb_Score := 1, eb_RerankScore := Finite (2 / 61)\<rparr>]"
    using scoped_keys [of "''public''" "''public''"]
    by (simp add: publicTable_def expandToParents_def childToParent_def parentByChunkID_def blockOf_def Let_def)
  show ?thesis
    using fused expanded assms(1)
    by (simp add: hybrid_Search_def textSearch_def numberBlocks_def labelNext_def publicHit_def coverageOf_def Let_def)
qed

lemma publicHit_row: "eb_ChunkID publicHit = row_ChunkID (scopedParent ''public'')" "eb_TenantID publicHit = ''acme''"
  "eb_Score publicHit = 1"
  by (simp_all add: publicHit_def) (simp_all add: blockOf_def)

lemma hybrid_Search_correct_witness:
  "\<exists>res b. hybrid_Search textSearch publicKeys (\<lambda>_. publicTable) (scopeRequest []) = Inr res
     \<and> rres_EvidenceBlocks res = [b] \<and> showsRow publicTable ''acme'' b
     \<and> eb_ChunkID b = parentChunkID (demoDocument ''acme'') 0 \<and> rres_CoverageScore res = 1"
proof -
  have req: "rr_TenantID (scopeRequest []) = ''acme''" "rr_PermissionsScope (scopeRequest []) = []"
    "rr_TopK (scopeRequest []) = 0" by (simp_all add: scopeRequest_def)
  obtain res where res: "hybrid_Search textSearch publicKeys (\<lambda>_. publicTable) (scopeRequest []) = Inr res"
      "rres_EvidenceBlocks res = [publicHit]" "rres_CoverageScore res = 1"
    using search_public [OF req] by blast
  have "namedTable publicTable" by (simp add: namedTable_def publicTable_def scoped_named)
  moreover have "distinct publicKeys" using scoped_IDs by (simp add: publicKeys_def eq_commute)
  ultimately have "showsRow publicTable ''acme'' publicHit"
    using hybrid_Search_correct [OF _ _ _ res(1) refl, of publicTable] res(2) req(1) by simp
  with res show ?thesis by (intro exI conjI) (assumption | simp add: publicHit_row)+
qed

definition secretHit :: evidenceBlock where
  "secretHit = (blockOf 0 (scopedParent ''secret''))
     \<lparr>eb_Score := 1 / 2, eb_RerankScore := Finite (1 / 61), eb_CitationLabel := ''['' @ showNat 1 @ '']''\<rparr>"

lemma demo_search_simps:
  "cs_embed demoSearch q = Inr [1]" "denseQueryText (scopeRequest scope) = ''restart''"
  "rr_RequestID (scopeRequest scope) = ''r''" "rr_PlanID (scopeRequest scope) = []"
  "rr_TenantID (scopeRequest scope) = ''acme''" "rr_PermissionsScope (scopeRequest scope) = scope"
  by (simp_all add: demoSearch_def scopeRequest_def denseQueryText_def)

lemma search_scoped:
  "hybrid_Search demoSearch [row_ID (scopedChild ''public'')]
     (\<lambda>_. [scopedParent ''secret'', scopedChild ''public'']) (scopeRequest ''public'')
   = Inr \<lparr>rres_RequestID = ''r'', rres_PlanID = [], rres_QueryUsed = ''restart'',
       rres_EvidenceBlocks = [secretHit], rres_CoverageScore = 1 / 2, rres_MissingQuestions = []\<rparr>"
proof -
  let ?table = "[scopedParent ''secret'', scopedChild ''public'']"
  have fused: "fusedHits demoSearch [row_ID (scopedChild ''public'')] (\<lambda>_. ?table) (scopeRequest ''public'') [1]
      = [(blockOf 0 (scopedChild ''public''))\<lparr>eb_Score := 1 / 2, eb_RerankScore := Finite (1 / 61)\<rparr>]"
    by (simp add: fusedHits_def demoSearch_def scopeRequest_def denseSearch_def bm25Search_def inScope_def
        candidateK_def requestedK_def goSort_def fusion_take rankedScores_def addRanks_def addRank_def
        scoreIn_def rankWeight_def rrfK_def blockByID_eq fusedBlock_def maxRRF_def blockOf_def Let_def)
  have "expandToParents ?table ?table ''acme''
      [(blockOf 0 (scopedChild ''public''))\<lparr>eb_Score := 1 / 2, eb_RerankScore := Finite (1 / 61)\<rparr>]
      = [(blockOf 0 (scopedParent ''secret''))\<lparr>eb_Score := 1 / 2, eb_RerankScore := Finite (1 / 61)\<rparr>]"
    by (simp add: expandToParents_def childToParent_def parentByChunkID_def blockOf_def Let_def)
  then show ?thesis
    using fused
    by (simp add: hybrid_Search_def numberBlocks_def labelNext_def secretHit_def coverageOf_def Let_def
        demo_search_simps)
qed

lemma secretHit_scope: "eb_PermissionsScope secretHit = ''secret''"
  by (simp add: secretHit_def) (simp add: blockOf_def)

text \<open>
  The scope of a request does not bind the chunks that sentences are expanded to: when an
  interrupted ingestion has raised the scope of a chunk and not yet that of its sentences, a
  search in the old scope returns the chunk with its new one.
\<close>

theorem expansion_ignores_scope:
  "\<exists>table1 table2 ks res b.
     Ingest demoPipeline (\<lambda>_ _. None) (scopedDocument ''public'') [] = (Inr (demoIngested ''acme''), table1)
   \<and> Ingest demoPipeline interrupted (scopedDocument ''secret'') table1
       = (Inl (IngestCancelled ''context canceled''), table2)
   \<and> hybrid_Search demoSearch ks (\<lambda>_. table2) (scopeRequest ''public'') = Inr res
   \<and> rr_PermissionsScope (scopeRequest ''public'') = ''public''
   \<and> rres_EvidenceBlocks res = [b] \<and> eb_PermissionsScope b = ''secret''"
  by (intro exI conjI, rule ingest_scoped, rule ingest_scoped, rule search_scoped, rule demo_search_simps,
      rule retrievalResult.select_convs, rule secretHit_scope)

end
