(* ===== verification/Temporal_Work.thy ===== *)
theory Temporal_Work
  imports Workflow_Runner Tools Sessions Context_Engine Retrieval
begin

text \<open>
  The work behind the executors: \<open>workflow/temporal_report_runtime.go\<close>, the two Temporal
  workflows, their activities and the runners that start and signal them.

  The Temporal client and the workflow engine are external: the fields of \<open>temporalClient\<close> and
  \<open>workflowEngine\<close>.  A workflow function handed to the client and an activity handed to the
  engine are functions on the world.  JSON decoders and the formatting of a number with two
  decimals are arguments.  Timeouts are the engine's.
\<close>

subsection \<open>Types\<close>

record reportWorkflowInput =
  rwi_TaskID :: string
  rwi_TenantID :: string
  rwi_SessionID :: string

record approvedToolInput =
  ati_TaskID :: string
  ati_TenantID :: string
  ati_SessionID :: string
  ati_ToolName :: string
  ati_Arguments :: string

record approvedToolSignal =
  sig_Action :: string
  sig_Actor :: string

text \<open>Of the start options the timeouts are constants; \<open>so_FailedOnly\<close> is the reuse policy of a retry.\<close>

record startOptions =
  so_ID :: string
  so_TaskQueue :: string
  so_FailedOnly :: bool

text \<open>An error of an activity, and whether the engine may run the activity again.\<close>

datatype activityError = Retryable string | NonRetryable string

type_synonym 'w activity = "'w \<Rightarrow> (activityError + string) \<times> 'w"
type_synonym 'w workflowFun = "'w \<Rightarrow> (string + string) \<times> 'w"

record 'w workflowEngine =
  eng_ExecuteActivity :: "nat \<Rightarrow> 'w activity \<Rightarrow> 'w workflowFun"
  eng_ReceiveSignal :: "'w \<Rightarrow> approvedToolSignal \<times> 'w"

type_synonym workflowRun = "string \<times> string"

record 'w temporalClient =
  tcl_ExecuteWorkflow :: "startOptions \<Rightarrow> 'w workflowFun \<Rightarrow> 'w \<Rightarrow> (string + workflowRun) \<times> 'w"
  tcl_SignalWithStart ::
    "string \<Rightarrow> string \<Rightarrow> approvedToolSignal \<Rightarrow> startOptions \<Rightarrow> 'w workflowFun \<Rightarrow> 'w \<Rightarrow> (string + workflowRun) \<times> 'w"
  tcl_Get :: "workflowRun \<Rightarrow> 'w workflowFun"

subsection \<open>References and signals\<close>

definition formatTemporalAuditRef :: "string \<Rightarrow> string \<Rightarrow> string" where
  "formatTemporalAuditRef workflowID runID = ''temporal:workflow:'' @ workflowID @ ''/'' @ runID"

definition approvedToolSignalAction :: "task \<Rightarrow> string" where
  "approvedToolSignalAction t = (if hasPrefix (task_AuditRef t) ''retry:'' then ''retry'' else ''approve'')"

definition signalActorFromAuditRef :: "string \<Rightarrow> string" where
  "signalActorFromAuditRef auditRef =
     (case indexOf auditRef '':'' of
        Some idx \<Rightarrow> if idx + 1 < length auditRef then drop (idx + 1) auditRef else []
      | None \<Rightarrow> [])"

definition approvedToolStartWorkflowOptions :: "task \<Rightarrow> string \<Rightarrow> startOptions" where
  "approvedToolStartWorkflowOptions t taskQueue =
     \<lparr>so_ID = task_ID t, so_TaskQueue = taskQueue, so_FailedOnly = hasPrefix (task_AuditRef t) ''retry:''\<rparr>"

subsection \<open>The report activity\<close>

text \<open>Every dependency may be missing; \<open>ra_showFixed\<close> formats a number with two decimals.\<close>

record reportActivities =
  ra_sessions :: "(string \<Rightarrow> string + message list) option"
  ra_contexts :: "contextService option"
  ra_retrieval :: "(retrievalRequest \<Rightarrow> string + retrievalResult) option"
  ra_showFixed :: "rat \<Rightarrow> string"

definition loadSession ::
    "reportActivities \<Rightarrow> reportWorkflowInput \<Rightarrow> string + message list \<times> string" where
  "loadSession a i =
     (case ra_sessions a of
        None \<Rightarrow> Inr ([], ''Session: unavailable'')
      | Some listMessages \<Rightarrow>
          if rwi_SessionID i = [] then Inr ([], ''Session: unavailable'')
          else (case listMessages (rwi_SessionID i) of
                  Inl err \<Rightarrow> Inl (''load session messages: '' @ err)
                | Inr ms \<Rightarrow> Inr (ms, ''Session: '' @ showNat (length ms) @ '' messages loaded'')))"

definition latestUserMessage :: "message list \<Rightarrow> string" where
  "latestUserMessage ms =
     (case find (\<lambda>m. msg_Role m = ''user'') (rev ms) of None \<Rightarrow> [] | Some m \<Rightarrow> msg_Content m)"

definition reportContextInput :: "reportWorkflowInput \<Rightarrow> message list \<Rightarrow> buildInput" where
  "reportContextInput i ms =
     \<lparr>bi_RequestID = rwi_TaskID i, bi_SessionID = rwi_SessionID i, bi_TenantID = rwi_TenantID i,
      bi_UserID = [], bi_Mode = [], bi_UserMessage = [],
      bi_RecentTurns = map (\<lambda>m. \<lparr>tn_Role = msg_Role m, tn_Content = msg_Content m\<rparr>) ms,
      bi_SessionSummary = [], bi_TaskScratchpad = [], bi_RetrievalResults = [], bi_ToolResults = []\<rparr>"

definition contextSection :: "reportActivities \<Rightarrow> reportWorkflowInput \<Rightarrow> message list \<Rightarrow> string list" where
  "contextSection a i ms =
     (case ra_contexts a of
        None \<Rightarrow> []
      | Some c \<Rightarrow>
          [''Context: '' @ showNat (length (br_Planner (Build c (reportContextInput i ms)))) @ '' blocks assembled''])"

definition reportSearch :: "reportWorkflowInput \<Rightarrow> string \<Rightarrow> retrievalRequest" where
  "reportSearch i query =
     \<lparr>rr_RequestID = rwi_TaskID i, rr_TraceID = [], rr_TenantID = rwi_TenantID i,
      rr_SessionID = rwi_SessionID i, rr_PlanID = [], rr_QueryText = query, rr_RewrittenQuery = [],
      rr_PermissionsScope = [], rr_TopK = 0, rr_UseRerank = False\<rparr>"

definition evidenceLine :: "reportActivities \<Rightarrow> evidenceBlock \<Rightarrow> string" where
  "evidenceLine a b =
     ''  ['' @ eb_CitationLabel b @ ''] '' @ eb_SourceTitle b @ '' (score='' @ ra_showFixed a (eb_Score b) @ '')''"

definition retrievalSections :: "reportActivities \<Rightarrow> reportWorkflowInput \<Rightarrow> string \<Rightarrow> string + string list" where
  "retrievalSections a i query =
     (case ra_retrieval a of
        None \<Rightarrow> Inr [''Retrieval: skipped (no query text)'']
      | Some search \<Rightarrow>
          if query = [] then Inr [''Retrieval: skipped (no query text)'']
          else (case search (reportSearch i query) of
                  Inl err \<Rightarrow> Inl (''retrieval search: '' @ err)
                | Inr res \<Rightarrow>
                    Inr ((''Retrieval: '' @ showNat (length (rres_EvidenceBlocks res)) @ '' evidence blocks, coverage '' @
                          ra_showFixed a (rres_CoverageScore res))
                         # map (evidenceLine a) (rres_EvidenceBlocks res))))"

definition GenerateReport :: "reportActivities \<Rightarrow> reportWorkflowInput \<Rightarrow> string + string" where
  "GenerateReport a i =
     (case loadSession a i of
        Inl err \<Rightarrow> Inl err
      | Inr (ms, section) \<Rightarrow>
          (case retrievalSections a i (latestUserMessage ms) of
             Inl err \<Rightarrow> Inl err
           | Inr sections \<Rightarrow> Inr (joinStrings ([section] @ contextSection a i ms @ sections) newline)))"

definition ReportGenerationWorkflow ::
    "'w workflowEngine \<Rightarrow> reportActivities \<Rightarrow> reportWorkflowInput \<Rightarrow> 'w workflowFun" where
  "ReportGenerationWorkflow eng a i =
     eng_ExecuteActivity eng 3 (\<lambda>w. (case GenerateReport a i of Inl err \<Rightarrow> Inl (Retryable err) | Inr r \<Rightarrow> Inr r, w))"

definition RunReportWorkflow ::
    "'w temporalClient \<Rightarrow> string \<Rightarrow> 'w workflowEngine \<Rightarrow> reportActivities \<Rightarrow> 'w executor" where
  "RunReportWorkflow c taskQueue eng a t w =
     (case tcl_ExecuteWorkflow c \<lparr>so_ID = task_ID t, so_TaskQueue = taskQueue, so_FailedOnly = False\<rparr>
        (ReportGenerationWorkflow eng a
           \<lparr>rwi_TaskID = task_ID t, rwi_TenantID = task_TenantID t, rwi_SessionID = task_SessionID t\<rparr>) w of
        (Inl err, w1) \<Rightarrow>
          ((\<lparr>er_AuditRef = [], er_Detail = []\<rparr>, Some (''execute temporal report workflow: '' @ err)), w1)
      | (Inr run, w1) \<Rightarrow>
          (let ref = formatTemporalAuditRef (fst run) (snd run) in
           case tcl_Get c run w1 of
             (Inl err, w2) \<Rightarrow>
               ((\<lparr>er_AuditRef = ref, er_Detail = []\<rparr>, Some (''get temporal report workflow result: '' @ err)), w2)
           | (Inr generated, w2) \<Rightarrow> ((\<lparr>er_AuditRef = ref, er_Detail = generated\<rparr>, None), w2)))"

subsection \<open>The approved tool\<close>

text \<open>
  \<open>rd_comment\<close> decodes ticket identifier and status of a comment, \<open>rd_matches\<close> the number of
  matches of a search.
\<close>

record resultDecoder =
  rd_comment :: "string \<Rightarrow> (string \<times> string) option"
  rd_matches :: "string \<Rightarrow> nat option"

definition summarizeApprovedToolResult :: "resultDecoder \<Rightarrow> string \<Rightarrow> string \<Rightarrow> string" where
  "summarizeApprovedToolResult d toolName structuredData =
     (let fallback = toolName @ '' completed'' in
      if toolName = ''ticket_comment_create'' then
        (case rd_comment d structuredData of
           Some (ticketID, status) \<Rightarrow>
             if ticketID \<noteq> [] \<and> status \<noteq> []
             then toolName @ '' '' @ status @ '' for '' @ toUpper ticketID else fallback
         | None \<Rightarrow> fallback)
      else if toolName = ''ticket_search'' then
        (case rd_matches d structuredData of
           Some n \<Rightarrow> toolName @ '' returned '' @ showNat n @ '' matches''
         | None \<Rightarrow> fallback)
      else fallback)"

text \<open>The tool service is its registry with the encoder; the text of its errors is an argument.\<close>

record ('w, 'p) toolActivities =
  ta_FailOnApprove :: bool
  ta_registry :: "('w, 'p) toolRegistry"
  ta_marshal :: "'p \<Rightarrow> string + string"
  ta_errorText :: "toolError \<Rightarrow> string"
  ta_decoder :: resultDecoder

definition approvedInvocation :: "approvedToolInput \<Rightarrow> toolInvocation" where
  "approvedInvocation i =
     \<lparr>inv_RequestID = [], inv_TraceID = [], inv_TenantID = ati_TenantID i, inv_SessionID = ati_SessionID i,
      inv_TaskID = ati_TaskID i, inv_PlanID = ''workflow-'' @ ati_TaskID i, inv_StepID = ''approved-tool'',
      inv_ToolName = ati_ToolName i, inv_ActionClass = ActionClassWrite, inv_RequiresApproval = True,
      inv_ApprovalGranted = True, inv_Arguments = ati_Arguments i, inv_DryRun = False\<rparr>"

definition ExecuteApprovedTool ::
    "('w, 'p) toolActivities \<Rightarrow> approvedToolInput \<Rightarrow> approvedToolSignal \<Rightarrow> 'w activity" where
  "ExecuteApprovedTool a i signal w =
     (if ta_FailOnApprove a \<and> sig_Action signal = ''approve''
      then (Inl (NonRetryable (''fault injection: approved tool failed on '' @ sig_Action signal @ '' for '' @ ati_TaskID i)), w)
      else if ati_ToolName i = [] then (Inr (''approved-tool:'' @ ati_TaskID i), w)
      else (case Execute (ta_marshal a) (ta_registry a) (approvedInvocation i) w of
              (Inl err, w1) \<Rightarrow> (Inl (Retryable (ta_errorText a err)), w1)
            | (Inr res, w1) \<Rightarrow>
                if tr_Status res \<noteq> ToolSucceeded
                then (Inl (Retryable (''approved tool execution returned '' @ tr_Status res)), w1)
                else (Inr (summarizeApprovedToolResult (ta_decoder a) (ati_ToolName i) (tr_StructuredData res)), w1)))"

definition ApprovedToolExecutionWorkflow ::
    "'w workflowEngine \<Rightarrow> ('w, 'p) toolActivities \<Rightarrow> approvedToolInput \<Rightarrow> 'w workflowFun" where
  "ApprovedToolExecutionWorkflow eng a i w =
     (let (signal, w1) = eng_ReceiveSignal eng w
      in eng_ExecuteActivity eng 3 (ExecuteApprovedTool a i signal) w1)"

definition approvedToolInputOf :: "task \<Rightarrow> approvedToolInput" where
  "approvedToolInputOf t =
     \<lparr>ati_TaskID = task_ID t, ati_TenantID = task_TenantID t, ati_SessionID = task_SessionID t,
      ati_ToolName = task_ToolName t, ati_Arguments = task_ToolArguments t\<rparr>"

definition StartTask ::
    "'w temporalClient \<Rightarrow> string \<Rightarrow> 'w workflowEngine \<Rightarrow> ('w, 'p) toolActivities \<Rightarrow> task \<Rightarrow> 'w \<Rightarrow> string option \<times> 'w" where
  "StartTask c taskQueue eng a t w =
     (case tcl_ExecuteWorkflow c (approvedToolStartWorkflowOptions t taskQueue)
        (ApprovedToolExecutionWorkflow eng a (approvedToolInputOf t)) w of
        (Inl err, w1) \<Rightarrow> (Some (''execute temporal approved tool workflow: '' @ err), w1)
      | (Inr _, w1) \<Rightarrow> (None, w1))"

definition ContinueApprovedToolWorkflow ::
    "'w temporalClient \<Rightarrow> string \<Rightarrow> 'w workflowEngine \<Rightarrow> ('w, 'p) toolActivities \<Rightarrow> 'w executor" where
  "ContinueApprovedToolWorkflow c taskQueue eng a t w =
     (case tcl_SignalWithStart c (task_ID t) ''approved-tool-continue''
        \<lparr>sig_Action = approvedToolSignalAction t, sig_Actor = signalActorFromAuditRef (task_AuditRef t)\<rparr>
        (approvedToolStartWorkflowOptions t taskQueue)
        (ApprovedToolExecutionWorkflow eng a (approvedToolInputOf t)) w of
        (Inl err, w1) \<Rightarrow>
          ((\<lparr>er_AuditRef = [], er_Detail = []\<rparr>, Some (''signal approved tool workflow: '' @ err)), w1)
      | (Inr run, w1) \<Rightarrow>
          (let ref = formatTemporalAuditRef (fst run) (snd run) in
           case tcl_Get c run w1 of
             (Inl err, w2) \<Rightarrow>
               ((\<lparr>er_AuditRef = ref, er_Detail = []\<rparr>, Some (''get approved tool workflow result: '' @ err)), w2)
           | (Inr executed, w2) \<Rightarrow> ((\<lparr>er_AuditRef = ref, er_Detail = executed\<rparr>, None), w2)))"

end
