(* ===== verification/Versions.thy ===== *)
theory Versions
  imports Go_Store
begin

text \<open>
  The registry of runtime versions: \<open>version/types.go\<close>, the memory store of
  \<open>version/memory_store.go\<close> and the service of \<open>version/service.go\<close>.  The built-in version is
  created on first use; the only error the memory store has is a missing record.
\<close>

subsection \<open>Types\<close>

abbreviation (input) "DefaultVersionID \<equiv> ''version-skeleton-2026-03-24''"

record runtimeVersion =
  ver_ID :: string
  ver_RuntimeVersion :: string
  ver_Provider :: string
  ver_Model :: string
  ver_PromptBundle :: string
  ver_PlannerVersion :: string
  ver_RetrievalVersion :: string
  ver_ToolRegistryVersion :: string
  ver_CriticVersion :: string
  ver_WorkflowVersion :: string
  ver_Notes :: string
  ver_CreatedAt :: time

record versionFilter =
  vf_Limit :: int
  vf_Offset :: int

datatype versionError = ErrVersionNotFound string

type_synonym versionStore = "string \<rightharpoonup> runtimeVersion"

subsection \<open>The memory store\<close>

definition newVersionStore :: versionStore where
  "newVersionStore = Map.empty"

definition version_Save :: "runtimeVersion \<Rightarrow> versionStore \<Rightarrow> runtimeVersion \<times> versionStore" where
  "version_Save item s = (item, s(ver_ID item \<mapsto> item))"

definition version_Get :: "string \<Rightarrow> versionStore \<Rightarrow> versionError + runtimeVersion" where
  "version_Get versionID s =
     (case s versionID of None \<Rightarrow> Inl (ErrVersionNotFound versionID) | Some item \<Rightarrow> Inr item)"

definition versionSortsBefore :: "runtimeVersion \<Rightarrow> runtimeVersion \<Rightarrow> bool" where
  "versionSortsBefore a b \<longleftrightarrow>
     (if ver_CreatedAt a = ver_CreatedAt b then ver_ID b < ver_ID a
      else ver_CreatedAt b < ver_CreatedAt a)"

definition version_List ::
    "string list \<Rightarrow> versionFilter \<Rightarrow> versionStore \<Rightarrow> runtimeVersion listPage option" where
  "version_List ks f s =
     pageWindow (vf_Limit f) (vf_Offset f) (goSort versionSortsBefore (rangeVals s ks))"

subsection \<open>The service\<close>

text \<open>The creation time is 24 March 2026, 00:00 UTC.\<close>

definition defaultVersion :: runtimeVersion where
  "defaultVersion =
     \<lparr>ver_ID = DefaultVersionID, ver_RuntimeVersion = ''runtime-skeleton-v1'', ver_Provider = [],
      ver_Model = [], ver_PromptBundle = ''prompt-skeleton-v1'',
      ver_PlannerVersion = ''planner-skeleton-v1'', ver_RetrievalVersion = ''retrieval-skeleton-v1'',
      ver_ToolRegistryVersion = ''ticket-http-adapters-v1'', ver_CriticVersion = ''critic-skeleton-v1'',
      ver_WorkflowVersion = ''temporal-bridge-v1'',
      ver_Notes = ''Default runtime version for the current local skeleton.'',
      ver_CreatedAt = 63909907200000000000\<rparr>"

definition ensureCurrentVersion :: "versionStore \<Rightarrow> runtimeVersion \<times> versionStore" where
  "ensureCurrentVersion s =
     (case version_Get DefaultVersionID s of
        Inr item \<Rightarrow> (item, s)
      | Inl (ErrVersionNotFound _) \<Rightarrow> version_Save defaultVersion s)"

definition CurrentVersionID :: "versionStore \<Rightarrow> string \<times> versionStore" where
  "CurrentVersionID s = (let (item, s') = ensureCurrentVersion s in (ver_ID item, s'))"

definition GetVersion :: "string \<Rightarrow> versionStore \<Rightarrow> (versionError + runtimeVersion) \<times> versionStore" where
  "GetVersion versionID s =
     (if versionID = DefaultVersionID
      then (let (item, s') = ensureCurrentVersion s in (Inr item, s'))
      else (version_Get versionID s, s))"

text \<open>The map order is that of the store after the built-in version is in it.\<close>

definition ListVersions ::
    "string list \<Rightarrow> versionFilter \<Rightarrow> versionStore \<Rightarrow> runtimeVersion listPage option \<times> versionStore" where
  "ListVersions ks f s =
     (let (_, s') = ensureCurrentVersion s;
          f' = (if vf_Limit f \<le> 0 then f\<lparr>vf_Limit := 20\<rparr> else f)
      in (version_List ks f' s', s'))"

subsection \<open>Laws\<close>

interpretation version_store: keyed_store "\<lambda>s k. s k" "\<lambda>s v. snd (version_Save v s)" ver_ID
  by unfold_locales (simp add: version_Save_def)

interpretation version_order: record_order versionSortsBefore ver_ID "\<lambda>_. True"
  by unfold_locales (auto simp: versionSortsBefore_def split: if_splits)

lemma defaultVersion_ID [simp]: "ver_ID defaultVersion = DefaultVersionID"
  by (simp add: defaultVersion_def)

lemma ensureCurrentVersion_eq:
  "ensureCurrentVersion s =
     (case s DefaultVersionID of
        Some item \<Rightarrow> (item, s)
      | None \<Rightarrow> (defaultVersion, s(DefaultVersionID \<mapsto> defaultVersion)))"
  by (simp add: ensureCurrentVersion_def version_Get_def version_Save_def
      split: option.splits versionError.splits)

lemma ensureCurrentVersion_present: "s DefaultVersionID = Some v \<Longrightarrow> ensureCurrentVersion s = (v, s)"
  by (simp add: ensureCurrentVersion_eq)

lemma ensureCurrentVersion_stores:
  "ensureCurrentVersion s = (v, s') \<Longrightarrow> s' = s(DefaultVersionID \<mapsto> v)"
  by (auto simp: ensureCurrentVersion_eq fun_upd_idem_iff split: option.splits)

lemma keyedBy_ensured:
  "keyedBy ver_ID s \<Longrightarrow> ensureCurrentVersion s = (v, s') \<Longrightarrow> keyedBy ver_ID s' \<and> ver_ID v = DefaultVersionID"
  by (auto simp: ensureCurrentVersion_eq keyedBy_def split: option.splits if_splits)

text \<open>
  The current version is stable: asking for it creates it at most once, never changes a stored
  version, and every later way of asking gives the same record.
\<close>

theorem current_version_stable:
  assumes "keyedBy ver_ID s" "ensureCurrentVersion s = (v, s')"
  shows "ver_ID v = DefaultVersionID \<and> keyedBy ver_ID s' \<and> s \<subseteq>\<^sub>m s' \<and> dom s' = insert DefaultVersionID (dom s)
    \<and> ensureCurrentVersion s' = (v, s') \<and> GetVersion DefaultVersionID s' = (Inr v, s')
    \<and> CurrentVersionID s' = (DefaultVersionID, s')"
proof -
  have s': "s' = s(DefaultVersionID \<mapsto> v)" by (rule ensureCurrentVersion_stores [OF assms(2)])
  moreover have "s \<subseteq>\<^sub>m s'"
    using assms(2) by (auto simp: ensureCurrentVersion_eq map_le_def split: option.splits)
  ultimately show ?thesis using keyedBy_ensured [OF assms]
    by (auto simp: ensureCurrentVersion_present GetVersion_def CurrentVersionID_def)
qed

text \<open>
  The pages of the version list, followed from the first, hold the built-in version and every
  stored one exactly once, newest first.
\<close>

theorem ListVersions_walk:
  assumes "keyedBy ver_ID s" "s' = snd (ensureCurrentVersion s)" "\<And>off. iterOrder s' (order off)"
    and "0 < limit" "int (card (dom s')) + limit < 2 ^ 63"
  shows "\<exists>rows. walkPages (Suc (length rows))
        (\<lambda>off. fst (ListVersions (order off) \<lparr>vf_Limit = limit, vf_Offset = off\<rparr> s)) 0 = Some rows
    \<and> sorted_wrt versionSortsBefore rows \<and> distinct (map ver_ID rows)
    \<and> set rows = insert (fst (ensureCurrentVersion s)) (ran s)"
proof -
  obtain v where v: "ensureCurrentVersion s = (v, s')" using assms(2) by (cases "ensureCurrentVersion s") simp
  have keyed: "keyedBy ver_ID s'" using keyedBy_ensured [OF assms(1) v] by simp
  have "{x. s' (ver_ID x) = Some x} = ran s'" using keyed by (auto simp: ran_def keyedBy_def)
  also have "\<dots> = insert v (ran s)"
    using v by (cases "s DefaultVersionID") (auto simp: ensureCurrentVersion_eq insert_absorb ranI)
  finally have "{x. s' (ver_ID x) = Some x} = insert v (ran s)" .
  moreover have "fst (ListVersions (order off) \<lparr>vf_Limit = limit, vf_Offset = off\<rparr> s)
      = pageWindow limit off (goSort versionSortsBefore (filter (\<lambda>_. True) (rangeVals s' (order off))))" for off
    using assms(4) v by (simp add: ListVersions_def version_List_def)
  moreover have "pageWindow limit off xs = cutPage limit off xs" if "0 \<le> off" for off and xs :: "runtimeVersion list"
    using assms(4) that by (simp add: pageWindow_def)
  ultimately show ?thesis
    using version_order.walk_rows [OF keyed _ assms(3-5), where window = "pageWindow limit" and p = "\<lambda>_. True"] v
    by (simp del: walkPages.simps filter_True)
qed

end
