(* ===== verification/Reports.thy ===== *)
theory Reports
  imports Workflow_Runner Versions
begin

text \<open>
  The reports of finished tasks: \<open>report/types.go\<close>, the memory store of \<open>report/memory_store.go\<close>
  and the service of \<open>report/service.go\<close>, with the runner's recorder the service implements.

  The store behind the writing half of the service is an interface; its operations act on a world
  of type \<open>'w\<close>, like the clock and the version source, and \<open>workerEnv\<close> below puts the memory
  stores in.  Encoding and decoding JSON and formatting a time are arguments; raw JSON is a
  string.  Errors that are only passed on are texts.
\<close>

subsection \<open>Types\<close>

abbreviation (input) "TypeWorkflowSummary \<equiv> ''workflow_summary''"
abbreviation (input) "StatusReady \<equiv> ''ready''"

record reportRec =
  rpt_ID :: string
  rpt_TenantID :: string
  rpt_SourceTaskID :: string
  rpt_VersionID :: string
  rpt_ReportType :: string
  rpt_Status :: string
  rpt_Title :: string
  rpt_Summary :: string
  rpt_ContentURI :: string
  rpt_MetadataJSON :: string
  rpt_CreatedBy :: string
  rpt_CreatedAt :: time
  rpt_ReadyAt :: "time option"

record reportFilter =
  rf_TenantID :: string
  rf_Status :: string
  rf_ReportType :: string
  rf_SourceTaskID :: string
  rf_Limit :: int
  rf_Offset :: int

record comparisonSummary =
  cmp_SameTenant :: bool
  cmp_SameReportType :: bool
  cmp_VersionChanged :: bool
  cmp_SourceTaskChanged :: bool
  cmp_TitleChanged :: bool
  cmp_SummaryChanged :: bool
  cmp_ContentURIChanged :: bool
  cmp_MetadataChanged :: bool
  cmp_CreatedAtChanged :: bool
  cmp_ReadyAtChanged :: bool
  cmp_ReadyAtDeltaSecond :: int

record comparison =
  cmp_Left :: reportRec
  cmp_Right :: reportRec
  cmp_Summary :: comparisonSummary

datatype reportError = ErrReportNotFound string | ErrLeftRequired | ErrRightRequired

definition reportErrorText :: "reportError \<Rightarrow> string" where
  "reportErrorText err =
     (case err of ErrReportNotFound i \<Rightarrow> ''report not found: '' @ i
                | ErrLeftRequired \<Rightarrow> ''left_report_id is required''
                | ErrRightRequired \<Rightarrow> ''right_report_id is required'')"

type_synonym reportStore = "string \<rightharpoonup> reportRec"

subsection \<open>The memory store\<close>

definition newReportStore :: reportStore where
  "newReportStore = Map.empty"

definition report_Save :: "reportRec \<Rightarrow> reportStore \<Rightarrow> reportRec \<times> reportStore" where
  "report_Save item s = (item, s(rpt_ID item \<mapsto> item))"

definition report_Get :: "string \<Rightarrow> reportStore \<Rightarrow> reportError + reportRec" where
  "report_Get reportID s =
     (case s reportID of None \<Rightarrow> Inl (ErrReportNotFound reportID) | Some item \<Rightarrow> Inr item)"

definition reportMatches :: "reportFilter \<Rightarrow> reportRec \<Rightarrow> bool" where
  "reportMatches f item \<longleftrightarrow>
     \<not> (rf_TenantID f \<noteq> [] \<and> rpt_TenantID item \<noteq> rf_TenantID f)
   \<and> \<not> (rf_Status f \<noteq> [] \<and> rpt_Status item \<noteq> rf_Status f)
   \<and> \<not> (rf_ReportType f \<noteq> [] \<and> rpt_ReportType item \<noteq> rf_ReportType f)
   \<and> \<not> (rf_SourceTaskID f \<noteq> [] \<and> rpt_SourceTaskID item \<noteq> rf_SourceTaskID f)"

definition readyTime :: "reportRec \<Rightarrow> time" where
  "readyTime r = (case rpt_ReadyAt r of None \<Rightarrow> rpt_CreatedAt r | Some t \<Rightarrow> t)"

definition reportSortsBefore :: "reportRec \<Rightarrow> reportRec \<Rightarrow> bool" where
  "reportSortsBefore left right \<longleftrightarrow>
     (if readyTime left \<noteq> readyTime right then readyTime right < readyTime left
      else if rpt_CreatedAt left \<noteq> rpt_CreatedAt right then rpt_CreatedAt right < rpt_CreatedAt left
      else rpt_ID right < rpt_ID left)"

definition report_List :: "string list \<Rightarrow> reportFilter \<Rightarrow> reportStore \<Rightarrow> reportRec listPage option" where
  "report_List ks f s =
     cutPage (if rf_Limit f \<le> 0 then 20 else rf_Limit f) (rf_Offset f)
       (goSort reportSortsBefore (filter (reportMatches f) (rangeVals s ks)))"

subsection \<open>Comparing two reports\<close>

text \<open>\<open>t.Sub(u)\<close> saturates at the limits of a 64-bit number of nanoseconds.\<close>

definition timeSub :: "time \<Rightarrow> time \<Rightarrow> int" where
  "timeSub t u = (let d = t - u in if d < - (2 ^ 63) then - (2 ^ 63) else if d > 2 ^ 63 - 1 then 2 ^ 63 - 1 else d)"

text \<open>
  \<open>int64(d.Seconds())\<close> truncates towards zero.  The code goes through a \<open>float64\<close>, which for
  durations of more than 97 days may round the last nanoseconds before a full second up to it.
\<close>

definition wholeSeconds :: "int \<Rightarrow> int" where
  "wholeSeconds d = (if d < 0 then - ((- d) div 1000000000) else d div 1000000000)"

definition deltaSeconds :: "time option \<Rightarrow> time option \<Rightarrow> int" where
  "deltaSeconds left right =
     (case (left, right) of (Some l, Some r) \<Rightarrow> wholeSeconds (timeSub r l) | _ \<Rightarrow> 0)"

definition equalOptionalTimes :: "time option \<Rightarrow> time option \<Rightarrow> bool" where
  "equalOptionalTimes left right =
     (case (left, right) of
        (None, None) \<Rightarrow> True
      | (Some l, Some r) \<Rightarrow> l = r
      | _ \<Rightarrow> False)"

text \<open>\<open>parse\<close> decodes any JSON value, \<open>None\<close> is an error.\<close>

definition equalJSON :: "(string \<Rightarrow> 'j option) \<Rightarrow> string \<Rightarrow> string \<Rightarrow> bool" where
  "equalJSON parse left right =
     (if left = [] \<and> right = [] then True
      else case parse left of
             None \<Rightarrow> left = right
           | Some l \<Rightarrow> (case parse right of None \<Rightarrow> left = right | Some r \<Rightarrow> l = r))"

definition buildComparisonSummary ::
    "(string \<Rightarrow> 'j option) \<Rightarrow> reportRec \<Rightarrow> reportRec \<Rightarrow> comparisonSummary" where
  "buildComparisonSummary parse left right =
     \<lparr>cmp_SameTenant = (rpt_TenantID left = rpt_TenantID right),
      cmp_SameReportType = (rpt_ReportType left = rpt_ReportType right),
      cmp_VersionChanged = (rpt_VersionID left \<noteq> rpt_VersionID right),
      cmp_SourceTaskChanged = (rpt_SourceTaskID left \<noteq> rpt_SourceTaskID right),
      cmp_TitleChanged = (rpt_Title left \<noteq> rpt_Title right),
      cmp_SummaryChanged = (rpt_Summary left \<noteq> rpt_Summary right),
      cmp_ContentURIChanged = (rpt_ContentURI left \<noteq> rpt_ContentURI right),
      cmp_MetadataChanged = (\<not> equalJSON parse (rpt_MetadataJSON left) (rpt_MetadataJSON right)),
      cmp_CreatedAtChanged = (rpt_CreatedAt left \<noteq> rpt_CreatedAt right),
      cmp_ReadyAtChanged = (\<not> equalOptionalTimes (rpt_ReadyAt left) (rpt_ReadyAt right)),
      cmp_ReadyAtDeltaSecond = deltaSeconds (rpt_ReadyAt left) (rpt_ReadyAt right)\<rparr>"

definition CompareReports ::
    "(string \<Rightarrow> 'j option) \<Rightarrow> string \<Rightarrow> string \<Rightarrow> reportStore \<Rightarrow> reportError + comparison" where
  "CompareReports parse leftID rightID s =
     (if leftID = [] then Inl ErrLeftRequired
      else if rightID = [] then Inl ErrRightRequired
      else case report_Get leftID s of
             Inl err \<Rightarrow> Inl err
           | Inr left \<Rightarrow>
               (case report_Get rightID s of
                  Inl err \<Rightarrow> Inl err
                | Inr right \<Rightarrow>
                    Inr \<lparr>cmp_Left = left, cmp_Right = right,
                         cmp_Summary = buildComparisonSummary parse left right\<rparr>))"

definition ListReports :: "string list \<Rightarrow> reportFilter \<Rightarrow> reportStore \<Rightarrow> reportRec listPage option" where
  "ListReports ks f s = report_List ks (if rf_Limit f \<le> 0 then f\<lparr>rf_Limit := 20\<rparr> else f) s"

subsection \<open>Recording a report\<close>

text \<open>
  The dependencies of the service.  The finalizer writes report, task and event in one storage
  operation, so it acts on the task store as well; the memory store has none.
\<close>

record 'w reportService =
  rsv_save :: "reportRec \<Rightarrow> 'w \<Rightarrow> (string + reportRec) \<times> 'w"
  rsv_finalizer :: "(task \<Rightarrow> auditEvent \<Rightarrow> reportRec \<Rightarrow> taskStore \<Rightarrow> 'w
                     \<Rightarrow> (string + reportRec \<times> task) \<times> taskStore \<times> 'w) option"
  rsv_currentVersion :: "('w \<Rightarrow> (string + string) \<times> 'w) option"
  rsv_now :: "'w \<Rightarrow> time \<times> 'w"
  rsv_marshal :: "(string \<times> string) list \<Rightarrow> string option"
  rsv_formatTime :: "time \<Rightarrow> string"

definition ReportIDFromTaskID :: "string \<Rightarrow> string" where
  "ReportIDFromTaskID taskID = ''report-'' @ taskID"

text \<open>The encoder writes the keys of a map in alphabetical order.\<close>

definition buildMetadata :: "'w reportService \<Rightarrow> task \<Rightarrow> executionResult \<Rightarrow> time \<Rightarrow> string \<Rightarrow> string" where
  "buildMetadata svc t result readyAt versionID =
     (case rsv_marshal svc
        [(''audit_ref'', task_AuditRef t), (''execution_summary'', er_Detail result),
         (''ready_at'', rsv_formatTime svc readyAt), (''reason'', task_Reason t),
         (''request_id'', task_RequestID t), (''session_id'', task_SessionID t),
         (''task_id'', task_ID t), (''task_type'', task_TaskType t), (''version_id'', versionID)] of
        None \<Rightarrow> ''{}''
      | Some payload \<Rightarrow> payload)"

definition reportVersion :: "'w reportService \<Rightarrow> task \<Rightarrow> 'w \<Rightarrow> (string + string) \<times> 'w" where
  "reportVersion svc t w =
     (if task_VersionID t = []
      then (case rsv_currentVersion svc of None \<Rightarrow> (Inr [], w) | Some current \<Rightarrow> current w)
      else (Inr (task_VersionID t), w))"

definition generatedReport ::
    "'w reportService \<Rightarrow> task \<Rightarrow> executionResult \<Rightarrow> string \<Rightarrow> time \<Rightarrow> reportRec" where
  "generatedReport svc t result versionID now =
     \<lparr>rpt_ID = ReportIDFromTaskID (task_ID t), rpt_TenantID = task_TenantID t,
      rpt_SourceTaskID = task_ID t, rpt_VersionID = versionID, rpt_ReportType = TypeWorkflowSummary,
      rpt_Status = StatusReady, rpt_Title = ''Report for '' @ task_ID t,
      rpt_Summary = fallbackString (er_Detail result) (''Generated report from task '' @ task_ID t),
      rpt_ContentURI = [], rpt_MetadataJSON = buildMetadata svc t result now versionID,
      rpt_CreatedBy = ''worker'',
      rpt_CreatedAt = (if task_CreatedAt t = zeroTime then now else task_CreatedAt t),
      rpt_ReadyAt = Some now\<rparr>"

definition buildGeneratedReport ::
    "'w reportService \<Rightarrow> task \<Rightarrow> executionResult \<Rightarrow> 'w \<Rightarrow> (string + reportRec) \<times> 'w" where
  "buildGeneratedReport svc t result w =
     (case reportVersion svc t w of
        (Inl err, w1) \<Rightarrow> (Inl err, w1)
      | (Inr versionID, w1) \<Rightarrow>
          (let (now, w2) = (if task_UpdatedAt t = zeroTime then rsv_now svc w1 else (task_UpdatedAt t, w1))
           in (Inr (generatedReport svc t result versionID now), w2)))"

definition RecordGeneratedReport ::
    "'w reportService \<Rightarrow> task \<Rightarrow> executionResult \<Rightarrow> 'w \<Rightarrow> (string + string) \<times> 'w" where
  "RecordGeneratedReport svc t result w =
     (case buildGeneratedReport svc t result w of
        (Inl err, w1) \<Rightarrow> (Inl err, w1)
      | (Inr item, w1) \<Rightarrow>
          (case rsv_save svc item w1 of
             (Inl err, w2) \<Rightarrow> (Inl err, w2)
           | (Inr saved, w2) \<Rightarrow> (Inr (rpt_ID saved), w2)))"

definition FinalizeGeneratedReportTask ::
    "'w reportService \<Rightarrow> task \<Rightarrow> executionResult \<Rightarrow> auditEvent \<Rightarrow> taskStore \<Rightarrow> 'w
     \<Rightarrow> (string + task \<times> string) \<times> taskStore \<times> 'w" where
  "FinalizeGeneratedReportTask svc t result event s w =
     (case buildGeneratedReport svc t result w of
        (Inl err, w1) \<Rightarrow> (Inl err, s, w1)
      | (Inr item, w1) \<Rightarrow>
          (case rsv_finalizer svc of
             None \<Rightarrow> (Inl ''report store does not support atomic task finalization'', s, w1)
           | Some finalize \<Rightarrow>
               (let t' = (if task_VersionID t = [] \<and> rpt_VersionID item \<noteq> []
                          then t\<lparr>task_VersionID := rpt_VersionID item\<rparr> else t)
                in case finalize t' event item s w1 of
                     (Inl err, s', w2) \<Rightarrow> (Inl err, s', w2)
                   | (Inr (saved, updated), s', w2) \<Rightarrow> (Inr (updated, rpt_ID saved), s', w2))))"

definition SupportsAtomicFinalization :: "'w reportService \<Rightarrow> bool" where
  "SupportsAtomicFinalization svc \<longleftrightarrow> rsv_finalizer svc \<noteq> None"

text \<open>The service as the recorder of the task runner, which only looks at the error.\<close>

definition reportsOf :: "'w reportService \<Rightarrow> 'w reportRecorder" where
  "reportsOf svc =
     \<lparr>rec_atomic = SupportsAtomicFinalization svc,
      rec_record = RecordGeneratedReport svc,
      rec_finalize = (\<lambda>t result event s w.
        case FinalizeGeneratedReportTask svc t result event s w of
          (Inl err, s', w') \<Rightarrow> (Some err, s', w')
        | (Inr _, s', w') \<Rightarrow> (None, s', w'))\<rparr>"

end
