(* ===== verification/Report_Laws.thy ===== *)
theory Report_Laws
  imports Reports
begin

text \<open>
  Properties of the reports: the list of reports, the comparison, and the worker of
  \<open>Workflow_Runner\<close> running on the memory stores of tasks, reports and versions.
\<close>

subsection \<open>The store\<close>

interpretation report_store: keyed_store "\<lambda>s k. s k" "\<lambda>s r. snd (report_Save r s)" rpt_ID
  by unfold_locales (simp add: report_Save_def)

interpretation report_order: record_order reportSortsBefore rpt_ID "\<lambda>_. True"
  by unfold_locales (auto simp: reportSortsBefore_def split: if_splits)

lemma ReportIDFromTaskID_inj [simp]: "ReportIDFromTaskID a = ReportIDFromTaskID b \<longleftrightarrow> a = b"
  by (simp add: ReportIDFromTaskID_def)

text \<open>
  Following \<open>NextOffset\<close> from the first page of the reports gives every report that the filter
  accepts exactly once, the most recently finished first.
\<close>

theorem ListReports_walk:
  assumes "keyedBy rpt_ID s" "\<And>off. iterOrder s (order off)" "0 < rf_Limit f"
    and "int (card (dom s)) + rf_Limit f < 2 ^ 63"
  shows "\<exists>rows. walkPages (Suc (length rows)) (\<lambda>off. ListReports (order off) (f\<lparr>rf_Offset := off\<rparr>) s) 0 = Some rows
    \<and> sorted_wrt reportSortsBefore rows \<and> distinct (map rpt_ID rows)
    \<and> set rows = {r. s (rpt_ID r) = Some r \<and> reportMatches f r}"
proof -
  have "ListReports (order off) (f\<lparr>rf_Offset := off\<rparr>) s
      = cutPage (rf_Limit f) off (goSort reportSortsBefore (filter (reportMatches f) (rangeVals s (order off))))" for off
    using assms(3) by (simp add: ListReports_def report_List_def reportMatches_def [abs_def])
  then show ?thesis
    using report_order.walk_rows [OF assms(1) _ assms(2-4), where window = "cutPage (rf_Limit f)" and p = "reportMatches f"]
    by (simp del: walkPages.simps)
qed

text \<open>
  Unlike the other lists this one does not check the offset: a negative one makes the slice
  expression panic.
\<close>

lemma ListReports_negative_offset:
  assumes "rf_Offset f < 0"
  shows "ListReports ks f s = None"
  using assms by (auto simp: ListReports_def report_List_def cutPage_def sliceRange_def Let_def)

subsection \<open>Comparisons\<close>

lemma timeSub_swap_seconds: "wholeSeconds (timeSub a b) = - wholeSeconds (timeSub b a)"
  by (auto simp: wholeSeconds_def timeSub_def Let_def)

lemma wholeSeconds_bound: "\<bar>wholeSeconds (timeSub a b)\<bar> \<le> 9223372036"
proof -
  have b: "- (2 ^ 63) \<le> timeSub a b" "timeSub a b \<le> 2 ^ 63 - 1" by (auto simp: timeSub_def Let_def)
  show ?thesis
  proof (cases "timeSub a b < 0")
    case True
    have "(- timeSub a b) div 1000000000 \<le> 2 ^ 63 div 1000000000" using b by (intro zdiv_mono1) auto
    with True show ?thesis by (simp add: wholeSeconds_def pos_imp_zdiv_nonneg_iff)
  next
    case False
    have "timeSub a b div 1000000000 \<le> (2 ^ 63 - 1) div 1000000000" using b by (intro zdiv_mono1) auto
    with False show ?thesis by (simp add: wholeSeconds_def pos_imp_zdiv_nonneg_iff)
  qed
qed

definition reversedSummary :: "comparisonSummary \<Rightarrow> comparisonSummary" where
  "reversedSummary c = c\<lparr>cmp_ReadyAtDeltaSecond := - cmp_ReadyAtDeltaSecond c\<rparr>"

lemma equalJSON_symmetric: "equalJSON parse a b = equalJSON parse b a"
  by (auto simp: equalJSON_def split: option.splits)

lemma equalJSON_reflexive [simp]: "equalJSON parse a a"
  by (auto simp: equalJSON_def split: option.splits)

lemma deltaSeconds_swap: "deltaSeconds r l = - deltaSeconds l r"
  by (simp add: deltaSeconds_def split: option.split) (blast intro: timeSub_swap_seconds)

lemma equalOptionalTimes_eq [simp]: "equalOptionalTimes a b \<longleftrightarrow> a = b"
  by (simp add: equalOptionalTimes_def split: option.split)

lemma buildComparisonSummary_swap:
  "buildComparisonSummary parse r l = reversedSummary (buildComparisonSummary parse l r)"
  unfolding buildComparisonSummary_def reversedSummary_def
  using equalJSON_symmetric [of parse "rpt_MetadataJSON r"] deltaSeconds_swap [of "rpt_ReadyAt r"] by auto

text \<open>
  The comparison does not depend on the order of the reports but for the sign of the time
  between them, finds no difference between a report and itself, and reports the time within the
  range of a duration, however far apart the reports are.
\<close>

theorem CompareReports_symmetric:
  "map_sum (\<lambda>e. ()) (\<lambda>c. (cmp_Left c, cmp_Right c, cmp_Summary c)) (CompareReports parse b a s)
     = map_sum (\<lambda>e. ()) (\<lambda>c. (cmp_Right c, cmp_Left c, reversedSummary (cmp_Summary c))) (CompareReports parse a b s)
   \<and> \<bar>cmp_ReadyAtDeltaSecond (buildComparisonSummary parse l r)\<bar> \<le> 9223372036
   \<and> buildComparisonSummary parse l l = \<lparr>cmp_SameTenant = True, cmp_SameReportType = True,
       cmp_VersionChanged = False, cmp_SourceTaskChanged = False, cmp_TitleChanged = False,
       cmp_SummaryChanged = False, cmp_ContentURIChanged = False, cmp_MetadataChanged = False,
       cmp_CreatedAtChanged = False, cmp_ReadyAtChanged = False, cmp_ReadyAtDeltaSecond = 0\<rparr>"
proof (intro conjI)
  show "map_sum (\<lambda>e. ()) (\<lambda>c. (cmp_Left c, cmp_Right c, cmp_Summary c)) (CompareReports parse b a s)
     = map_sum (\<lambda>e. ()) (\<lambda>c. (cmp_Right c, cmp_Left c, reversedSummary (cmp_Summary c))) (CompareReports parse a b s)"
    by (simp add: CompareReports_def report_Get_def split: option.split)
      (blast intro: buildComparisonSummary_swap)
  show "\<bar>cmp_ReadyAtDeltaSecond (buildComparisonSummary parse l r)\<bar> \<le> 9223372036"
    by (simp add: buildComparisonSummary_def deltaSeconds_def wholeSeconds_bound split: option.split)
  have "deltaSeconds x x = 0" for x
    by (simp add: deltaSeconds_def wholeSeconds_def timeSub_def split: option.split)
  then show "buildComparisonSummary parse l l = \<lparr>cmp_SameTenant = True, cmp_SameReportType = True,
       cmp_VersionChanged = False, cmp_SourceTaskChanged = False, cmp_TitleChanged = False,
       cmp_SummaryChanged = False, cmp_ContentURIChanged = False, cmp_MetadataChanged = False,
       cmp_CreatedAtChanged = False, cmp_ReadyAtChanged = False, cmp_ReadyAtDeltaSecond = 0\<rparr>"
    by (simp add: buildComparisonSummary_def)
qed

subsection \<open>The worker on the memory stores\<close>

text \<open>
  A world with a clock, the reports and the versions.  The clock is any function of the number of
  times it was read.
\<close>

record memWorld =
  mw_tick :: nat
  mw_reports :: reportStore
  mw_versions :: versionStore

definition memNow :: "(nat \<Rightarrow> time) \<Rightarrow> memWorld \<Rightarrow> time \<times> memWorld" where
  "memNow clock w = (clock (mw_tick w), w\<lparr>mw_tick := mw_tick w + 1\<rparr>)"

definition memVersion :: "memWorld \<Rightarrow> (string + string) \<times> memWorld" where
  "memVersion w = (let (v, s) = CurrentVersionID (mw_versions w) in (Inr v, w\<lparr>mw_versions := s\<rparr>))"

definition memReports ::
    "(nat \<Rightarrow> time) \<Rightarrow> ((string \<times> string) list \<Rightarrow> string option) \<Rightarrow> (time \<Rightarrow> string) \<Rightarrow> memWorld reportService" where
  "memReports clock marshal formatTime =
     \<lparr>rsv_save = (\<lambda>r w. let (r', s) = report_Save r (mw_reports w) in (Inr r', w\<lparr>mw_reports := s\<rparr>)),
      rsv_finalizer = None, rsv_currentVersion = Some memVersion, rsv_now = memNow clock,
      rsv_marshal = marshal, rsv_formatTime = formatTime\<rparr>"

definition memWorker :: "(nat \<Rightarrow> time) \<Rightarrow> memWorld executor \<Rightarrow> memWorld reportService \<Rightarrow> memWorld runnerEnv" where
  "memWorker clock exec svc =
     \<lparr>env_now = memNow clock, env_execute = exec, env_version = Some memVersion,
      env_reports = Some (reportsOf svc)\<rparr>"

text \<open>What the worker relies on of an executor: it does not write reports or versions.\<close>

definition keepsRecords :: "memWorld executor \<Rightarrow> bool" where
  "keepsRecords exec \<longleftrightarrow>
     (\<forall>t w. mw_reports (snd (exec t w)) = mw_reports w \<and> mw_versions (snd (exec t w)) = mw_versions w)"

definition reportedAs :: "reportRec \<Rightarrow> task \<Rightarrow> bool" where
  "reportedAs r t \<longleftrightarrow>
     rpt_ID r = ReportIDFromTaskID (task_ID t) \<and> rpt_SourceTaskID r = task_ID t
   \<and> rpt_TenantID r = task_TenantID t \<and> rpt_VersionID r = task_VersionID t \<and> rpt_VersionID r \<noteq> []
   \<and> rpt_Status r = StatusReady \<and> rpt_ReportType r = TypeWorkflowSummary \<and> rpt_Summary r \<noteq> []"

text \<open>One report task, from the store and the world before it to those after it.\<close>

definition reportStep :: "task \<Rightarrow> taskStore \<Rightarrow> memWorld \<Rightarrow> taskStore \<Rightarrow> memWorld \<Rightarrow> bool" where
  "reportStep t s w s' w' \<longleftrightarrow>
     (\<exists>t'. ts_tasks s' = (ts_tasks s)(task_ID t \<mapsto> t') \<and> sameRequest t t' \<and> keyedBy ver_ID (mw_versions w')
      \<and> (if task_TaskType t = TaskTypeReportGeneration \<and> task_Status t' = StatusSucceeded
         then \<exists>r. mw_reports w' = (mw_reports w)(ReportIDFromTaskID (task_ID t) \<mapsto> r) \<and> reportedAs r t'
         else mw_reports w' = mw_reports w))"

lemma memVersion_eq:
  assumes "keyedBy ver_ID (mw_versions w)"
  shows "\<exists>s. memVersion w = (Inr DefaultVersionID, w\<lparr>mw_versions := s\<rparr>) \<and> keyedBy ver_ID s"
  using keyedBy_ensured [OF assms]
  by (cases "ensureCurrentVersion (mw_versions w)") (auto simp: memVersion_def CurrentVersionID_def)

lemma generatedReport_ID [simp]:
  "rpt_ID (generatedReport svc t result v now) = ReportIDFromTaskID (task_ID t)"
  by (simp add: generatedReport_def)

lemma generatedReport_reportedAs:
  "task_VersionID t \<noteq> [] \<Longrightarrow> reportedAs (generatedReport svc t result (task_VersionID t) now) t"
  by (simp add: reportedAs_def generatedReport_def)

lemma build_memReports:
  assumes "task_VersionID t \<noteq> []"
  shows "\<exists>now w1. buildGeneratedReport (memReports clock marshal fmt) t result w
      = (Inr (generatedReport (memReports clock marshal fmt) t result (task_VersionID t) now), w1)
    \<and> mw_reports w1 = mw_reports w \<and> mw_versions w1 = mw_versions w"
proof -
  have "rsv_now (memReports clock marshal fmt) = memNow clock" by (simp add: memReports_def)
  then show ?thesis using assms by (auto simp: buildGeneratedReport_def reportVersion_def memNow_def)
qed

lemma record_memReports:
  assumes "task_VersionID t \<noteq> []"
  shows "\<exists>r w'. rec_record (reportsOf (memReports clock marshal fmt)) t result w = (Inr (rpt_ID r), w')
    \<and> mw_reports w' = (mw_reports w)(ReportIDFromTaskID (task_ID t) \<mapsto> r)
    \<and> mw_versions w' = mw_versions w \<and> reportedAs r t"
proof -
  let ?svc = "memReports clock marshal fmt"
  obtain now w1 where b: "buildGeneratedReport ?svc t result w = (Inr (generatedReport ?svc t result (task_VersionID t) now), w1)"
      "mw_reports w1 = mw_reports w" "mw_versions w1 = mw_versions w"
    using build_memReports [OF assms] by blast
  have save: "rsv_save ?svc r w = (Inr r, w\<lparr>mw_reports := (mw_reports w)(rpt_ID r \<mapsto> r)\<rparr>)" for r w
    by (simp add: memReports_def report_Save_def)
  have "rec_record (reportsOf ?svc) t result w = RecordGeneratedReport ?svc t result w" by (simp add: reportsOf_def)
  then show ?thesis using generatedReport_reportedAs [OF assms, of ?svc result now]
    by (intro exI [of _ "generatedReport ?svc t result (task_VersionID t) now"]) (simp add: RecordGeneratedReport_def b save)
qed

lemma recordReport_mem:
  assumes "ts_tasks s (task_ID t) \<noteq> None" "task_VersionID t \<noteq> []"
  shows "\<exists>w' r. recordReport env (reportsOf (memReports clock marshal fmt)) result t action s w
      = (None, snd (UpdateTaskWithEvent t (workerEvent action result (task_ErrorReason t) t) s), w')
    \<and> mw_reports w' = (mw_reports w)(ReportIDFromTaskID (task_ID t) \<mapsto> r)
    \<and> mw_versions w' = mw_versions w \<and> reportedAs r t"
proof -
  have "\<not> rec_atomic (reportsOf (memReports clock marshal fmt))"
    by (simp add: reportsOf_def SupportsAtomicFinalization_def memReports_def)
  moreover have "fst (UpdateTaskWithEvent t (workerEvent action result (task_ErrorReason t) t) s) = Inr t"
    using assms(1) UpdateTaskWithEvent_present by (metis fst_conv not_Some_eq)
  ultimately show ?thesis
    using record_memReports [OF assms(2), of clock marshal fmt result w]
    by (fastforce simp: recordReport_def finishTask_def split: prod.split)
qed

lemma finishTask_mem:
  assumes "ts_tasks s (task_ID t) \<noteq> None"
  shows "\<exists>s'. finishTask action result t s = (None, s') \<and> ts_tasks s' = (ts_tasks s)(task_ID t \<mapsto> t)"
  using assms by (auto simp: finishTask_def UpdateTaskWithEvent_def)

lemma recordReport_stored:
  assumes "ts_tasks s (task_ID t) \<noteq> None" "task_VersionID t \<noteq> []"
  shows "\<exists>s' w' r. recordReport env (reportsOf (memReports clock marshal fmt)) result t action s w = (None, s', w')
    \<and> ts_tasks s' = (ts_tasks s)(task_ID t \<mapsto> t)
    \<and> mw_reports w' = (mw_reports w)(ReportIDFromTaskID (task_ID t) \<mapsto> r)
    \<and> mw_versions w' = mw_versions w \<and> reportedAs r t"
proof -
  have "ts_tasks (snd (UpdateTaskWithEvent t e s)) = (ts_tasks s)(task_ID t \<mapsto> t)" for e
    using assms(1) by (auto simp: UpdateTaskWithEvent_def)
  then show ?thesis using recordReport_mem [OF assms] by metis
qed

lemma resolveVersion_mem:
  assumes "keyedBy ver_ID (mw_versions w)"
  shows "\<exists>v w'. resolveVersion (memWorker clock exec svc) result t w = ((t\<lparr>task_VersionID := v\<rparr>, AuditActionSucceeded), w')
    \<and> v \<noteq> [] \<and> mw_reports w' = mw_reports w \<and> keyedBy ver_ID (mw_versions w')"
proof (cases "task_VersionID t = []")
  case True
  obtain vs where "memVersion w = (Inr DefaultVersionID, w\<lparr>mw_versions := vs\<rparr>)" "keyedBy ver_ID vs"
    using memVersion_eq [OF assms] by blast
  with True show ?thesis
    by (intro exI [of _ DefaultVersionID] exI [of _ "w\<lparr>mw_versions := vs\<rparr>"]) (simp add: resolveVersion_def memWorker_def)
next
  case False
  with assms show ?thesis
    by (intro exI [of _ "task_VersionID t"] exI [of _ w]) (simp add: resolveVersion_def)
qed

lemma processTask_reports:
  assumes "ts_tasks s (task_ID t) \<noteq> None" "keepsRecords exec" "keyedBy ver_ID (mw_versions w)"
  shows "\<exists>s' w'. processTask (memWorker clock exec (memReports clock marshal fmt)) t s w = (None, s', w')
    \<and> reportStep t s w s' w'"
proof -
  let ?env = "memWorker clock exec (memReports clock marshal fmt)"
  obtain result execErr w1 where ex: "exec t w = ((result, execErr), w1)" by (metis surj_pair)
  have w1: "mw_reports w1 = mw_reports w" "mw_versions w1 = mw_versions w"
    using assms(2) ex unfolding keepsRecords_def by (metis snd_conv)+
  define w2 where "w2 = w1\<lparr>mw_tick := mw_tick w1 + 1\<rparr>"
  have now: "env_now ?env w1 = (clock (mw_tick w1), w2)" by (simp add: memWorker_def memNow_def w2_def)
  have exe: "env_execute ?env t w = ((result, execErr), w1)"
    and rep: "env_reports ?env = Some (reportsOf (memReports clock marshal fmt))" by (simp_all add: memWorker_def ex)
  have w2: "mw_reports w2 = mw_reports w" "keyedBy ver_ID (mw_versions w2)" using w1 assms(3) by (simp_all add: w2_def)
  define ended where "ended status err = t\<lparr>task_Status := status, task_ErrorReason := err,
      task_AuditRef := fallbackAuditRef (er_AuditRef result) (''worker:placeholder_'' @ status),
      task_UpdatedAt := clock (mw_tick w1)\<rparr>" for status err
  have stored: "ts_tasks s (task_ID (ended status err)) \<noteq> None" "sameRequest t (ended status err)" for status err
    using assms(1) by (simp_all add: ended_def sameRequest_def)
  show ?thesis
  proof (cases "execErr = None \<and> task_TaskType t = TaskTypeReportGeneration")
    case False
    then obtain action status err where "processTask ?env t s w
        = (let (e, s') = finishTask action result (ended status err) s in (e, s', w2))"
        and "execErr \<noteq> None \<Longrightarrow> status = StatusFailed"
      by (cases execErr) (auto simp: processTask_def exe now rep ended_def Let_def)
    moreover obtain s' where "finishTask action result (ended status err) s = (None, s')"
        "ts_tasks s' = (ts_tasks s)(task_ID (ended status err) \<mapsto> ended status err)"
      using finishTask_mem [OF stored(1)] by blast
    ultimately show ?thesis using w2 False stored(2) [of status err]
      by (auto simp: reportStep_def ended_def)
  next
    case True
    let ?t2 = "ended StatusSucceeded []"
    obtain v w3 where v: "resolveVersion ?env result ?t2 w2 = ((?t2\<lparr>task_VersionID := v\<rparr>, AuditActionSucceeded), w3)"
        "v \<noteq> []" "mw_reports w3 = mw_reports w2" "keyedBy ver_ID (mw_versions w3)"
      using resolveVersion_mem [OF w2(2)] by blast
    let ?t3 = "?t2\<lparr>task_VersionID := v\<rparr>"
    have "ts_tasks s (task_ID ?t3) \<noteq> None" "task_VersionID ?t3 \<noteq> []" using stored v(2) by simp_all
    then obtain s' w4 r where
      "recordReport ?env (reportsOf (memReports clock marshal fmt)) result ?t3 AuditActionSucceeded s w3 = (None, s', w4)"
      "ts_tasks s' = (ts_tasks s)(task_ID ?t3 \<mapsto> ?t3)"
      "mw_reports w4 = (mw_reports w3)(ReportIDFromTaskID (task_ID ?t3) \<mapsto> r)"
      "mw_versions w4 = mw_versions w3" "reportedAs r ?t3"
      using recordReport_stored by blast
    moreover from this(1) have "processTask ?env t s w = (None, s', w4)"
      using True v(1) by (simp add: processTask_def exe now rep ended_def Let_def)
    ultimately show ?thesis using True w2 v(3,4)
      by (auto simp: reportStep_def ended_def sameRequest_def)
  qed
qed

lemma reportStep_elim:
  assumes "reportStep t s w s' w'"
  shows "keyedBy ver_ID (mw_versions w')"
    and "k \<noteq> task_ID t \<Longrightarrow> ts_tasks s' k = ts_tasks s k"
    and "k \<noteq> ReportIDFromTaskID (task_ID t) \<Longrightarrow> mw_reports w' k = mw_reports w k"
  using assms by (auto simp: reportStep_def split: if_splits)

text \<open>The same for a list of tasks: what each leaves behind is still there at the end.\<close>

definition reportKept :: "task \<Rightarrow> taskStore \<Rightarrow> reportStore \<Rightarrow> reportStore \<Rightarrow> bool" where
  "reportKept t s' m m' \<longleftrightarrow>
     (\<exists>t'. ts_tasks s' (task_ID t) = Some t' \<and> sameRequest t t'
        \<and> (if task_TaskType t = TaskTypeReportGeneration \<and> task_Status t' = StatusSucceeded
           then \<exists>r. m' (ReportIDFromTaskID (task_ID t)) = Some r \<and> reportedAs r t'
           else m' (ReportIDFromTaskID (task_ID t)) = m (ReportIDFromTaskID (task_ID t))))"

definition reportsWritten :: "task list \<Rightarrow> taskStore \<Rightarrow> reportStore \<Rightarrow> reportStore \<Rightarrow> bool" where
  "reportsWritten ts s' m m' \<longleftrightarrow>
     (\<forall>t \<in> set ts. reportKept t s' m m')
   \<and> (\<forall>k. k \<notin> (\<lambda>t. ReportIDFromTaskID (task_ID t)) ` set ts \<longrightarrow> m' k = m k)"

lemma reportKept_cong:
  assumes "ts_tasks s1 (task_ID t) = ts_tasks s2 (task_ID t)"
    and "m1 (ReportIDFromTaskID (task_ID t)) = m2 (ReportIDFromTaskID (task_ID t))"
    and "m1' (ReportIDFromTaskID (task_ID t)) = m2' (ReportIDFromTaskID (task_ID t))"
  shows "reportKept t s1 m1 m1' = reportKept t s2 m2 m2'"
  using assms by (simp add: reportKept_def)

lemma reportStep_kept:
  assumes "reportStep t s w s' w'"
  shows "reportKept t s' (mw_reports w) (mw_reports w')"
proof -
  obtain t' where "ts_tasks s' = (ts_tasks s)(task_ID t \<mapsto> t')" "sameRequest t t'"
      "if task_TaskType t = TaskTypeReportGeneration \<and> task_Status t' = StatusSucceeded
       then \<exists>r. mw_reports w' = (mw_reports w)(ReportIDFromTaskID (task_ID t) \<mapsto> r) \<and> reportedAs r t'
       else mw_reports w' = mw_reports w"
    using assms unfolding reportStep_def by blast
  then show ?thesis unfolding reportKept_def by (intro exI [of _ t']) (auto split: if_splits)
qed

lemma processTasks_reports:
  assumes "distinct (map task_ID ts)" "\<forall>t \<in> set ts. ts_tasks s (task_ID t) \<noteq> None"
    and "keepsRecords exec" "keyedBy ver_ID (mw_versions w)"
  shows "\<exists>s' w'. processTasks (memWorker clock exec (memReports clock marshal fmt)) ts s w = (None, s', w')
    \<and> reportsWritten ts s' (mw_reports w) (mw_reports w') \<and> (\<forall>k. k \<notin> task_ID ` set ts \<longrightarrow> ts_tasks s' k = ts_tasks s k)"
  using assms(1,2,4)
proof (induction ts arbitrary: s w)
  case Nil
  then show ?case by (simp add: reportsWritten_def)
next
  case (Cons t ts)
  let ?env = "memWorker clock exec (memReports clock marshal fmt)"
  obtain s1 w1 where one: "processTask ?env t s w = (None, s1, w1)" "reportStep t s w s1 w1"
    using processTask_reports [OF _ assms(3) Cons.prems(3)] Cons.prems(2) by (metis list.set_intros(1))
  note step = reportStep_elim [OF one(2)]
  have new: "task_ID t \<notin> task_ID ` set ts" "distinct (map task_ID ts)" using Cons.prems(1) by auto
  then have other: "\<forall>u \<in> set ts. task_ID u \<noteq> task_ID t" by (metis image_eqI)
  then have "\<forall>u \<in> set ts. ts_tasks s1 (task_ID u) \<noteq> None" using Cons.prems(2) step(2) by simp
  from Cons.IH [OF new(2) this step(1)] obtain s2 w2 where
    two: "processTasks ?env ts s1 w1 = (None, s2, w2)" "reportsWritten ts s2 (mw_reports w1) (mw_reports w2)"
      "\<forall>k. k \<notin> task_ID ` set ts \<longrightarrow> ts_tasks s2 k = ts_tasks s1 k" by blast
  have "processTasks ?env (t # ts) s w = (None, s2, w2)" using one(1) two(1) by simp
  moreover have "ts_tasks s2 k = ts_tasks s k" if "k \<notin> task_ID ` set (t # ts)" for k
    using that two(3) step(2) by auto
  moreover have "reportsWritten (t # ts) s2 (mw_reports w) (mw_reports w2)"
  proof -
    let ?id = "\<lambda>t. ReportIDFromTaskID (task_ID t)"
    have kept: "\<forall>u \<in> set ts. reportKept u s2 (mw_reports w1) (mw_reports w2)"
      and rest: "\<forall>k. k \<notin> ?id ` set ts \<longrightarrow> mw_reports w2 k = mw_reports w1 k"
      using two(2) by (simp_all add: reportsWritten_def)
    have "mw_reports w2 (?id t) = mw_reports w1 (?id t)" using rest new(1) by (auto simp: image_iff)
    moreover have "ts_tasks s2 (task_ID t) = ts_tasks s1 (task_ID t)" using two(3) new(1) by blast
    ultimately have "reportKept t s2 (mw_reports w) (mw_reports w2)"
      using reportStep_kept [OF one(2)] reportKept_cong by metis
    moreover have "reportKept u s2 (mw_reports w) (mw_reports w2)" if "u \<in> set ts" for u
    proof -
      have "mw_reports w (?id u) = mw_reports w1 (?id u)" using that other step(3) by simp
      then have "reportKept u s2 (mw_reports w) (mw_reports w2) = reportKept u s2 (mw_reports w1) (mw_reports w2)"
        by (intro reportKept_cong refl)
      then show ?thesis using kept that by blast
    qed
    moreover have "mw_reports w2 k = mw_reports w k" if "k \<notin> ?id ` set (t # ts)" for k
      using that rest step(3) by simp
    ultimately show ?thesis by (simp add: reportsWritten_def)
  qed
  ultimately show ?case by blast
qed

text \<open>
  A batch of the worker on the memory stores never fails and keeps tasks and reports in step: a
  claimed report task that ends as succeeded has its report, with the tenant, the version and the
  summary; and no report is written or changed for anything else.
\<close>

theorem batch_reports:
  assumes "taskStoreOK s" "iterOrder (ts_tasks s) ks" "0 < limit" "keepsRecords exec"
    and "keyedBy ver_ID (mw_versions w)" "claimed = fst (ClaimQueuedTasks ks (clock (mw_tick w)) limit s)"
  shows "\<exists>s' w'. ProcessNextBatch (memWorker clock exec (memReports clock marshal fmt)) ks limit s w
        = (Inr (int (length claimed)), s', w')
    \<and> (\<forall>t \<in> set claimed. \<exists>t'. ts_tasks s' (task_ID t) = Some t' \<and> sameRequest t t'
        \<and> (task_TaskType t = TaskTypeReportGeneration \<and> task_Status t' = StatusSucceeded
           \<longrightarrow> (\<exists>r. mw_reports w' (ReportIDFromTaskID (task_ID t)) = Some r \<and> reportedAs r t')))
    \<and> (\<forall>k. mw_reports w' k \<noteq> mw_reports w k \<longrightarrow>
        (\<exists>t \<in> set claimed. k = ReportIDFromTaskID (task_ID t) \<and> task_TaskType t = TaskTypeReportGeneration
           \<and> map_option task_Status (ts_tasks s' (task_ID t)) = Some StatusSucceeded))"
proof -
  obtain s1 where claim: "ClaimQueuedTasks ks (clock (mw_tick w)) limit s = (claimed, s1)"
    using assms(6) by (metis prod.collapse)
  let ?env = "memWorker clock exec (memReports clock marshal fmt)"
  let ?w1 = "w\<lparr>mw_tick := mw_tick w + 1\<rparr>"
  note eq = ClaimQueuedTasks_eq [OF assms(3) claim]
  have dist: "distinct (map task_ID claimed)"
    using distinct_queuedTasks [OF assms(2) taskStoreOK_keyed [OF assms(1)] assms(3)] eq(3) by simp
  have "ts_tasks s1 (task_ID c) = Some c" if "c \<in> set claimed" for c
    using fold_claimOne_task [OF dist, of "clock (mw_tick w)" s "task_ID c"] find_ident_once [OF dist that] eq(2)
    by simp
  then have "\<forall>t \<in> set claimed. ts_tasks s1 (task_ID t) \<noteq> None" by simp
  from processTasks_reports [OF dist this assms(4), of ?w1 clock marshal fmt] assms(5) obtain s' w' where
    run: "processTasks ?env claimed s1 ?w1 = (None, s', w')" and out: "reportsWritten claimed s' (mw_reports w) (mw_reports w')" by auto
  have "ProcessNextBatch ?env ks limit s w = (Inr (int (length claimed)), s', w')"
    using claim run by (simp add: ProcessNextBatch_def memWorker_def memNow_def)
  moreover have "\<exists>t \<in> set claimed. k = ReportIDFromTaskID (task_ID t) \<and> task_TaskType t = TaskTypeReportGeneration
           \<and> map_option task_Status (ts_tasks s' (task_ID t)) = Some StatusSucceeded"
    if "mw_reports w' k \<noteq> mw_reports w k" for k
    using that out unfolding reportsWritten_def reportKept_def by (fastforce split: if_splits)
  moreover have "\<exists>t'. ts_tasks s' (task_ID t) = Some t' \<and> sameRequest t t'
        \<and> (task_TaskType t = TaskTypeReportGeneration \<and> task_Status t' = StatusSucceeded
           \<longrightarrow> (\<exists>r. mw_reports w' (ReportIDFromTaskID (task_ID t)) = Some r \<and> reportedAs r t'))" if "t \<in> set claimed" for t
    using that out unfolding reportsWritten_def reportKept_def by (fastforce split: if_splits)
  ultimately show ?thesis by blast
qed

definition demoWorld :: memWorld where
  "demoWorld = \<lparr>mw_tick = 9, mw_reports = newReportStore, mw_versions = newVersionStore\<rparr>"

lemma batch_reports_witness:
  "fst (ProcessNextBatch (memWorker int PlaceholderExecute (memReports int (\<lambda>_. None) showInt))
       [''b'', ''c'', ''a''] 5 demoStore demoWorld) = Inr 2"
proof -
  have "keepsRecords PlaceholderExecute"
    by (auto simp: keepsRecords_def PlaceholderExecute_def)
  moreover have "keyedBy ver_ID (mw_versions demoWorld)" "int (mw_tick demoWorld) = 9"
    by (simp_all add: demoWorld_def keyedBy_def newVersionStore_def)
  moreover have "length (fst (ClaimQueuedTasks [''b'', ''c'', ''a''] 9 5 demoStore)) = 2"
    by (simp add: ClaimQueuedTasks_def queuedTasks_def goSort_def demoStore_def demoTask_def)
  moreover have "0 < (5::int)" by simp
  ultimately show ?thesis
    using batch_reports [OF demoStore_ok demoStore_order, of 5 PlaceholderExecute demoWorld _ int "\<lambda>_. None" showInt, OF _ _ _ refl]
    by (elim meta_impE) (assumption | simp del: showNat.simps | elim exE conjE)+
qed

end
