(* ===== verification/Task_Views.thy ===== *)
theory Task_Views
  imports Report_Laws Cases
begin

text \<open>
  The read models for operators: the task board of \<open>app/admin/taskboard/service.go\<close> and the trace
  details of \<open>observability/tracedetail/service.go\<close>, which join tasks, reports and cases.

  The readers of the trace service are interfaces; an error is its text.  Decoding the metadata
  of a report is an argument: the members of the object that are strings, \<open>None\<close> for an error.
\<close>

subsection \<open>The task board\<close>

record taskItem =
  ti_TaskID :: string
  ti_RequestID :: string
  ti_TenantID :: string
  ti_SessionID :: string
  ti_TaskType :: string
  ti_Status :: string
  ti_Reason :: string
  ti_ErrorReason :: string
  ti_AuditRef :: string
  ti_RequiresApproval :: bool
  ti_CreatedAt :: time
  ti_UpdatedAt :: time

record statusCounts =
  sc_Queued :: int
  sc_Running :: int
  sc_Succeeded :: int
  sc_Failed :: int
  sc_WaitingApproval :: int

record reasonCounts =
  rc_WorkflowRequired :: int
  rc_ApprovalRequired :: int

record taskTypeCounts =
  tc_ReportGeneration :: int
  tc_ApprovedToolExecution :: int

record boardSummary =
  bs_VisibleCount :: int
  bs_RequiresApprovalCount :: int
  bs_StatusCounts :: statusCounts
  bs_ReasonCounts :: reasonCounts
  bs_TaskTypeCounts :: taskTypeCounts
  bs_LatestUpdatedAt :: "time option"
  bs_LatestFailureReason :: string

record taskBoard =
  tb_Items :: "taskItem list"
  tb_HasMore :: bool
  tb_NextOffset :: "int option"
  tb_Summary :: boardSummary

definition taskItemOf :: "task \<Rightarrow> taskItem" where
  "taskItemOf t =
     \<lparr>ti_TaskID = task_ID t, ti_RequestID = task_RequestID t, ti_TenantID = task_TenantID t,
      ti_SessionID = task_SessionID t, ti_TaskType = task_TaskType t, ti_Status = task_Status t,
      ti_Reason = task_Reason t, ti_ErrorReason = task_ErrorReason t, ti_AuditRef = task_AuditRef t,
      ti_RequiresApproval = task_RequiresApproval t, ti_CreatedAt = task_CreatedAt t,
      ti_UpdatedAt = task_UpdatedAt t\<rparr>"

definition emptySummary :: "int \<Rightarrow> boardSummary" where
  "emptySummary n =
     \<lparr>bs_VisibleCount = n, bs_RequiresApprovalCount = 0,
      bs_StatusCounts = \<lparr>sc_Queued = 0, sc_Running = 0, sc_Succeeded = 0, sc_Failed = 0, sc_WaitingApproval = 0\<rparr>,
      bs_ReasonCounts = \<lparr>rc_WorkflowRequired = 0, rc_ApprovalRequired = 0\<rparr>,
      bs_TaskTypeCounts = \<lparr>tc_ReportGeneration = 0, tc_ApprovedToolExecution = 0\<rparr>,
      bs_LatestUpdatedAt = None, bs_LatestFailureReason = []\<rparr>"

definition countStatus :: "task \<Rightarrow> statusCounts \<Rightarrow> statusCounts" where
  "countStatus t c =
     (if task_Status t = StatusQueued then c\<lparr>sc_Queued := sc_Queued c + 1\<rparr>
      else if task_Status t = StatusRunning then c\<lparr>sc_Running := sc_Running c + 1\<rparr>
      else if task_Status t = StatusSucceeded then c\<lparr>sc_Succeeded := sc_Succeeded c + 1\<rparr>
      else if task_Status t = StatusFailed then c\<lparr>sc_Failed := sc_Failed c + 1\<rparr>
      else if task_Status t = StatusWaitingApproval then c\<lparr>sc_WaitingApproval := sc_WaitingApproval c + 1\<rparr>
      else c)"

definition countReason :: "task \<Rightarrow> reasonCounts \<Rightarrow> reasonCounts" where
  "countReason t c =
     (if task_Reason t = PromotionReasonWorkflowRequired then c\<lparr>rc_WorkflowRequired := rc_WorkflowRequired c + 1\<rparr>
      else if task_Reason t = PromotionReasonApprovalRequired then c\<lparr>rc_ApprovalRequired := rc_ApprovalRequired c + 1\<rparr>
      else c)"

definition countType :: "task \<Rightarrow> taskTypeCounts \<Rightarrow> taskTypeCounts" where
  "countType t c =
     (if task_TaskType t = TaskTypeReportGeneration then c\<lparr>tc_ReportGeneration := tc_ReportGeneration c + 1\<rparr>
      else if task_TaskType t = TaskTypeApprovedToolExecution
      then c\<lparr>tc_ApprovedToolExecution := tc_ApprovedToolExecution c + 1\<rparr>
      else c)"

definition laterTime :: "task \<Rightarrow> time option \<Rightarrow> time option" where
  "laterTime t best =
     (case best of None \<Rightarrow> Some (task_UpdatedAt t)
                 | Some b \<Rightarrow> if task_UpdatedAt t > b then Some (task_UpdatedAt t) else Some b)"

definition countTask :: "task \<Rightarrow> boardSummary \<Rightarrow> boardSummary" where
  "countTask t s =
     s\<lparr>bs_RequiresApprovalCount := bs_RequiresApprovalCount s + (if task_RequiresApproval t then 1 else 0),
       bs_StatusCounts := countStatus t (bs_StatusCounts s),
       bs_LatestFailureReason :=
         (if task_Status t = StatusFailed \<and> bs_LatestFailureReason s = [] then task_ErrorReason t
          else bs_LatestFailureReason s),
       bs_ReasonCounts := countReason t (bs_ReasonCounts s),
       bs_TaskTypeCounts := countType t (bs_TaskTypeCounts s),
       bs_LatestUpdatedAt := laterTime t (bs_LatestUpdatedAt s)\<rparr>"

definition boardOf :: "task listPage \<Rightarrow> taskBoard" where
  "boardOf page =
     \<lparr>tb_Items = map taskItemOf (pageItems page), tb_HasMore = pageHasMore page,
      tb_NextOffset = (if pageHasMore page then Some (pageNextOffset page) else None),
      tb_Summary = fold countTask (pageItems page) (emptySummary (int (length (pageItems page))))\<rparr>"

text \<open>The board over the task store; \<open>None\<close> is the panic of the task list.\<close>

definition board_List :: "string list \<Rightarrow> taskListFilter \<Rightarrow> taskStore \<Rightarrow> taskBoard option" where
  "board_List ks f s = map_option boardOf (ListTasks ks f s)"

text \<open>
  The numbers of a board are the numbers of its rows: each counter counts the rows of its kind,
  the latest change is the latest of a row, and the latest failure is the first reason given by
  a failed row in the order of the board, which is newest first.
\<close>

definition countWhere :: "('a \<Rightarrow> bool) \<Rightarrow> 'a list \<Rightarrow> int" where
  "countWhere p xs = int (length (filter p xs))"

lemma countWhere_simps [simp]:
  "countWhere p [] = 0" "countWhere p (x # xs) = (if p x then 1 else 0) + countWhere p xs"
  by (simp_all add: countWhere_def)

lemma fold_countTask_fields:
  fixes s :: boardSummary
  defines "r \<equiv> \<lambda>ts. fold countTask ts s"
  shows "bs_VisibleCount (r ts) = bs_VisibleCount s"
    and "bs_RequiresApprovalCount (r ts) = bs_RequiresApprovalCount s + countWhere task_RequiresApproval ts"
    and "bs_StatusCounts (r ts) = fold countStatus ts (bs_StatusCounts s)"
    and "bs_ReasonCounts (r ts) = fold countReason ts (bs_ReasonCounts s)"
    and "bs_TaskTypeCounts (r ts) = fold countType ts (bs_TaskTypeCounts s)"
    and "bs_LatestUpdatedAt (r ts) = fold laterTime ts (bs_LatestUpdatedAt s)"
    and "bs_LatestFailureReason (r ts) =
      (if bs_LatestFailureReason s \<noteq> [] then bs_LatestFailureReason s
       else case filter (\<lambda>e. e \<noteq> []) (map task_ErrorReason (filter (\<lambda>t. task_Status t = StatusFailed) ts)) of
              [] \<Rightarrow> [] | e # _ \<Rightarrow> e)"
  unfolding r_def by (induction ts arbitrary: s) (auto simp: countTask_def)

lemma fold_countStatus:
  "fold countStatus ts c = c
     \<lparr>sc_Queued := sc_Queued c + countWhere (\<lambda>t. task_Status t = StatusQueued) ts,
      sc_Running := sc_Running c + countWhere (\<lambda>t. task_Status t = StatusRunning) ts,
      sc_Succeeded := sc_Succeeded c + countWhere (\<lambda>t. task_Status t = StatusSucceeded) ts,
      sc_Failed := sc_Failed c + countWhere (\<lambda>t. task_Status t = StatusFailed) ts,
      sc_WaitingApproval := sc_WaitingApproval c + countWhere (\<lambda>t. task_Status t = StatusWaitingApproval) ts\<rparr>"
  by (induction ts arbitrary: c) (auto simp: countStatus_def)

lemma fold_countReason:
  "fold countReason ts c = c
     \<lparr>rc_WorkflowRequired := rc_WorkflowRequired c + countWhere (\<lambda>t. task_Reason t = PromotionReasonWorkflowRequired) ts,
      rc_ApprovalRequired := rc_ApprovalRequired c + countWhere (\<lambda>t. task_Reason t = PromotionReasonApprovalRequired) ts\<rparr>"
  by (induction ts arbitrary: c) (auto simp: countReason_def)

lemma fold_countType:
  "fold countType ts c = c
     \<lparr>tc_ReportGeneration := tc_ReportGeneration c + countWhere (\<lambda>t. task_TaskType t = TaskTypeReportGeneration) ts,
      tc_ApprovedToolExecution :=
        tc_ApprovedToolExecution c + countWhere (\<lambda>t. task_TaskType t = TaskTypeApprovedToolExecution) ts\<rparr>"
  by (induction ts arbitrary: c) (auto simp: countType_def)

lemma fold_laterTime:
  "fold laterTime ts (Some b) = Some (Max (insert b (task_UpdatedAt ` set ts)))"
proof (induction ts arbitrary: b)
  case (Cons t ts)
  have "laterTime t (Some b) = Some (max (task_UpdatedAt t) b)" by (auto simp: laterTime_def)
  then have "fold laterTime (t # ts) (Some b) = Some (Max (insert (max (task_UpdatedAt t) b) (task_UpdatedAt ` set ts)))"
    using Cons.IH by simp
  also have "Max (insert (max (task_UpdatedAt t) b) (task_UpdatedAt ` set ts))
      = Max (insert b (task_UpdatedAt ` set (t # ts)))"
    by (cases "ts = []") (simp_all add: max.assoc max.left_commute max.commute)
  finally show ?case .
qed simp

lemma latest_time:
  "fold laterTime ts None = (if ts = [] then None else Some (Max (task_UpdatedAt ` set ts)))"
  by (cases ts) (simp_all add: laterTime_def fold_laterTime)

theorem board_counts:
  assumes "board_List ks f s = Some board"
  shows "\<exists>page. ListTasks ks f s = Some page \<and> tb_Items board = map taskItemOf (pageItems page)
    \<and> (tb_NextOffset board = (if pageHasMore page then Some (pageNextOffset page) else None))
    \<and> (let rows = pageItems page; sum = tb_Summary board in
        bs_VisibleCount sum = int (length rows)
      \<and> bs_RequiresApprovalCount sum = countWhere task_RequiresApproval rows
      \<and> bs_StatusCounts sum =
          \<lparr>sc_Queued = countWhere (\<lambda>t. task_Status t = StatusQueued) rows,
           sc_Running = countWhere (\<lambda>t. task_Status t = StatusRunning) rows,
           sc_Succeeded = countWhere (\<lambda>t. task_Status t = StatusSucceeded) rows,
           sc_Failed = countWhere (\<lambda>t. task_Status t = StatusFailed) rows,
           sc_WaitingApproval = countWhere (\<lambda>t. task_Status t = StatusWaitingApproval) rows\<rparr>
      \<and> bs_LatestUpdatedAt sum = (if rows = [] then None else Some (Max (task_UpdatedAt ` set rows)))
      \<and> bs_LatestFailureReason sum =
          (case filter (\<lambda>e. e \<noteq> []) (map task_ErrorReason (filter (\<lambda>t. task_Status t = StatusFailed) rows)) of
             [] \<Rightarrow> [] | e # _ \<Rightarrow> e))"
proof -
  obtain page where "ListTasks ks f s = Some page" "board = boardOf page"
    using assms by (auto simp: board_List_def)
  then show ?thesis
    by (auto simp: boardOf_def Let_def fold_countTask_fields emptySummary_def fold_countStatus latest_time)
qed

lemma board_counts_witness:
  "bs_VisibleCount (tb_Summary (the (board_List [] \<lparr>tlf_TenantID = [], tlf_Status = [], tlf_TaskType = [],
      tlf_Reason = [], tlf_RequiresApproval = None, tlf_CreatedAfter = None, tlf_CreatedBefore = None,
      tlf_UpdatedAfter = None, tlf_UpdatedBefore = None, tlf_Limit = 5, tlf_Offset = 0\<rparr> NewMemoryStore))) = 0"
proof -
  let ?f = "\<lparr>tlf_TenantID = [], tlf_Status = [], tlf_TaskType = [],
      tlf_Reason = [], tlf_RequiresApproval = None, tlf_CreatedAfter = None, tlf_CreatedBefore = None,
      tlf_UpdatedAfter = None, tlf_UpdatedBefore = None, tlf_Limit = 5, tlf_Offset = 0\<rparr>"
  have page: "ListTasks [] ?f NewMemoryStore = Some \<lparr>pageItems = [], pageHasMore = False, pageNextOffset = 0\<rparr>"
    by (simp add: ListTasks_def pageWindow_def cutPage_def)
  then obtain board where "board_List [] ?f NewMemoryStore = Some board" by (simp add: board_List_def)
  from this board_counts [OF this] page show ?thesis by (auto simp: Let_def)
qed

subsection \<open>Trace details\<close>

abbreviation (input) "SubjectTask \<equiv> ''task''"
abbreviation (input) "SubjectReport \<equiv> ''report''"
abbreviation (input) "SubjectCase \<equiv> ''case''"

record lookupInput =
  li_TaskID :: string
  li_ReportID :: string
  li_CaseID :: string

record traceSubject =
  su_Kind :: string
  su_ID :: string
  su_TenantID :: string

record lineage =
  ln_TaskID :: string
  ln_ReportID :: string
  ln_CaseID :: string

record traceResult =
  trc_Subject :: traceSubject
  trc_Lineage :: lineage
  trc_VersionID :: string
  trc_RequestID :: string
  trc_SessionID :: string
  trc_TraceID :: string
  trc_AuditRef :: string
  trc_TaskStatus :: string
  trc_ReportType :: string
  trc_ReportStatus :: string
  trc_CaseStatus :: string
  trc_Temporal :: "(string \<times> string) option"
  trc_Warnings :: "string list"

datatype traceError = ErrInvalidLookup | ErrReader string

record traceReaders =
  trd_GetTask :: "string \<Rightarrow> string + task"
  trd_GetReport :: "string \<Rightarrow> string + reportRec"
  trd_GetCase :: "string \<Rightarrow> string + caseRec"
  trd_parse :: "string \<Rightarrow> (string \<rightharpoonup> string) option"

definition emptyTrace :: "string \<Rightarrow> string \<Rightarrow> string \<Rightarrow> traceResult" where
  "emptyTrace kind ident tenant =
     \<lparr>trc_Subject = \<lparr>su_Kind = kind, su_ID = ident, su_TenantID = tenant\<rparr>,
      trc_Lineage = \<lparr>ln_TaskID = [], ln_ReportID = [], ln_CaseID = []\<rparr>, trc_VersionID = [], trc_RequestID = [],
      trc_SessionID = [], trc_TraceID = [], trc_AuditRef = [], trc_TaskStatus = [], trc_ReportType = [],
      trc_ReportStatus = [], trc_CaseStatus = [], trc_Temporal = None, trc_Warnings = []\<rparr>"

definition warn :: "string \<Rightarrow> traceResult \<Rightarrow> traceResult" where
  "warn text r = r\<lparr>trc_Warnings := trc_Warnings r @ [text]\<rparr>"

definition applyTask :: "task \<Rightarrow> traceResult \<Rightarrow> traceResult" where
  "applyTask t r =
     r\<lparr>trc_Lineage := (trc_Lineage r)\<lparr>ln_TaskID := task_ID t\<rparr>,
       trc_VersionID := (if trc_VersionID r = [] then task_VersionID t else trc_VersionID r),
       trc_RequestID := task_RequestID t, trc_SessionID := task_SessionID t,
       trc_AuditRef := task_AuditRef t, trc_TaskStatus := task_Status t\<rparr>"

definition metadataText :: "(string \<rightharpoonup> string) \<Rightarrow> string \<Rightarrow> string \<Rightarrow> string" where
  "metadataText m key old = (if old = [] then (case m key of None \<Rightarrow> [] | Some v \<Rightarrow> v) else old)"

definition applyReportMetadata :: "traceReaders \<Rightarrow> reportRec \<Rightarrow> traceResult \<Rightarrow> traceResult" where
  "applyReportMetadata rd item r0 =
     (let r = r0\<lparr>trc_Lineage := (trc_Lineage r0)\<lparr>ln_ReportID := rpt_ID item\<rparr>,
                 trc_VersionID := (if trc_VersionID r0 = [] then rpt_VersionID item else trc_VersionID r0),
                 trc_ReportType := rpt_ReportType item, trc_ReportStatus := rpt_Status item\<rparr>
      in if trc_AuditRef r = [] \<or> trc_RequestID r = [] \<or> trc_SessionID r = []
         then (case trd_parse rd (rpt_MetadataJSON item) of
                 None \<Rightarrow> r
               | Some m \<Rightarrow>
                   r\<lparr>trc_RequestID := metadataText m ''request_id'' (trc_RequestID r),
                     trc_SessionID := metadataText m ''session_id'' (trc_SessionID r),
                     trc_AuditRef := metadataText m ''audit_ref'' (trc_AuditRef r),
                     trc_TraceID := metadataText m ''trace_id'' (trc_TraceID r)\<rparr>)
         else r)"

definition temporalPrefix :: string where "temporalPrefix = ''temporal:workflow:''"

definition parseTemporalRef :: "string \<Rightarrow> (string \<times> string) option" where
  "parseTemporalRef auditRef =
     (if \<not> hasPrefix auditRef temporalPrefix then None
      else let payload = trimPrefix auditRef temporalPrefix
           in case indexOf payload ''/'' of
                None \<Rightarrow> None
              | Some i \<Rightarrow>
                  (let workflowID = take i payload; runID = drop (i + 1) payload
                   in if workflowID = [] \<or> runID = [] then None else Some (workflowID, runID)))"

definition applyTemporalRef :: "traceResult \<Rightarrow> traceResult" where
  "applyTemporalRef r =
     (case parseTemporalRef (trc_AuditRef r) of
        Some ref \<Rightarrow> r\<lparr>trc_Temporal := Some ref\<rparr>
      | None \<Rightarrow>
          if trc_AuditRef r \<noteq> [] then warn ''audit_ref does not point at a Temporal workflow run'' r else r)"

definition addTraceWarning :: "traceResult \<Rightarrow> traceResult" where
  "addTraceWarning r =
     (if trc_TraceID r = [] then warn ''trace_id is unavailable in the current skeleton'' r else r)"

definition lookupTask :: "traceReaders \<Rightarrow> string \<Rightarrow> traceError + traceResult" where
  "lookupTask rd taskID =
     (case trd_GetTask rd taskID of
        Inl err \<Rightarrow> Inl (ErrReader err)
      | Inr t \<Rightarrow>
          Inr (addTraceWarning (applyTemporalRef ((emptyTrace SubjectTask (task_ID t) (task_TenantID t))
            \<lparr>trc_Lineage := \<lparr>ln_TaskID = task_ID t, ln_ReportID = [], ln_CaseID = []\<rparr>,
             trc_VersionID := task_VersionID t, trc_RequestID := task_RequestID t,
             trc_SessionID := task_SessionID t, trc_AuditRef := task_AuditRef t,
             trc_TaskStatus := task_Status t\<rparr>))))"

definition applySourceTask :: "traceReaders \<Rightarrow> string \<Rightarrow> traceResult \<Rightarrow> traceResult" where
  "applySourceTask rd taskID r =
     (if taskID = [] then r
      else case trd_GetTask rd taskID of
             Inr t \<Rightarrow> applyTask t r
           | Inl err \<Rightarrow> warn (''source task lookup failed: '' @ err) r)"

definition lookupReport :: "traceReaders \<Rightarrow> string \<Rightarrow> traceError + traceResult" where
  "lookupReport rd reportID =
     (case trd_GetReport rd reportID of
        Inl err \<Rightarrow> Inl (ErrReader err)
      | Inr item \<Rightarrow>
          (let r1 = (emptyTrace SubjectReport (rpt_ID item) (rpt_TenantID item))
                 \<lparr>trc_Lineage := \<lparr>ln_TaskID = rpt_SourceTaskID item, ln_ReportID = rpt_ID item, ln_CaseID = []\<rparr>,
                  trc_ReportType := rpt_ReportType item, trc_ReportStatus := rpt_Status item\<rparr>;
               r2 = applySourceTask rd (rpt_SourceTaskID item) (applyReportMetadata rd item r1)
           in Inr (addTraceWarning (applyTemporalRef r2))))"

definition applySourceReport :: "traceReaders \<Rightarrow> string \<Rightarrow> traceResult \<Rightarrow> traceResult" where
  "applySourceReport rd reportID r =
     (if reportID = [] then r
      else case trd_GetReport rd reportID of
             Inr item \<Rightarrow>
               (let r1 = (applyReportMetadata rd item r)\<lparr>trc_ReportType := rpt_ReportType item, trc_ReportStatus := rpt_Status item\<rparr>
                in if ln_TaskID (trc_Lineage r1) = []
                   then r1\<lparr>trc_Lineage := (trc_Lineage r1)\<lparr>ln_TaskID := rpt_SourceTaskID item\<rparr>\<rparr> else r1)
           | Inl err \<Rightarrow> warn (''source report lookup failed: '' @ err) r)"

definition lookupCase :: "traceReaders \<Rightarrow> string \<Rightarrow> traceError + traceResult" where
  "lookupCase rd caseID =
     (case trd_GetCase rd caseID of
        Inl err \<Rightarrow> Inl (ErrReader err)
      | Inr item \<Rightarrow>
          (let r1 = (emptyTrace SubjectCase (cs_ID item) (cs_TenantID item))
                 \<lparr>trc_Lineage := \<lparr>ln_TaskID = cs_SourceTaskID item, ln_ReportID = cs_SourceReportID item,
                                 ln_CaseID = cs_ID item\<rparr>,
                  trc_CaseStatus := cs_Status item\<rparr>;
               r2 = applySourceReport rd (cs_SourceReportID item) r1;
               r3 = applySourceTask rd (ln_TaskID (trc_Lineage r2)) r2
           in Inr (addTraceWarning (applyTemporalRef r3))))"

definition trace_Lookup :: "traceReaders \<Rightarrow> lookupInput \<Rightarrow> traceError + traceResult" where
  "trace_Lookup rd i =
     (if length (filter (\<lambda>x. x \<noteq> []) [li_TaskID i, li_ReportID i, li_CaseID i]) \<noteq> 1 then Inl ErrInvalidLookup
      else if li_TaskID i \<noteq> [] then lookupTask rd (li_TaskID i)
      else if li_ReportID i \<noteq> [] then lookupReport rd (li_ReportID i)
      else lookupCase rd (li_CaseID i))"

end
