(* ===== verification/Temporal_Laws.thy ===== *)
theory Temporal_Laws
  imports Temporal_Work Task_Views
begin

text \<open>
  Properties of the Temporal workflows and of the trace details that read their references:
  the audit reference and the signal survive the way from the writer to the reader, an approved
  task runs nothing but its own tool call, and the three ways to look up a trace agree.
\<close>

subsection \<open>Splitting at a character\<close>

lemma indexOf_char_append [simp]: "c \<notin> set p \<Longrightarrow> indexOf (p @ c # s) [c] = Some (length p)"
  by (induction p) (auto simp: hasPrefix_def)

lemma indexOf_char_split:
  "indexOf s [c] = Some i \<Longrightarrow> s = take i s @ c # drop (i + 1) s \<and> c \<notin> set (take i s)"
  by (induction s arbitrary: i) (auto simp: hasPrefix_def split: if_splits)

subsection \<open>References and signals\<close>

text \<open>
  The audit reference of a workflow run is read back as exactly the two identifiers it was made
  from; and the reader accepts nothing else: the first identifier has no slash and neither is
  empty.
\<close>

theorem temporal_reference_roundtrip:
  "parseTemporalRef s = Some (workflowID, runID) \<longleftrightarrow>
     s = formatTemporalAuditRef workflowID runID \<and> CHR ''/'' \<notin> set workflowID \<and> workflowID \<noteq> [] \<and> runID \<noteq> []"
proof
  assume a: "parseTemporalRef s = Some (workflowID, runID)"
  then obtain i where pre: "hasPrefix s temporalPrefix"
    and i: "indexOf (trimPrefix s temporalPrefix) ''/'' = Some i"
    and ids: "workflowID = take i (trimPrefix s temporalPrefix)" "runID = drop (i + 1) (trimPrefix s temporalPrefix)"
      "workflowID \<noteq> []" "runID \<noteq> []"
    by (auto simp: parseTemporalRef_def Let_def split: if_splits option.splits)
  from pre obtain payload where payload: "s = temporalPrefix @ payload" by (auto simp: hasPrefix_iff)
  then have "trimPrefix s temporalPrefix = payload" by simp
  with indexOf_char_split [OF i] ids payload
  show "s = formatTemporalAuditRef workflowID runID \<and> CHR ''/'' \<notin> set workflowID \<and> workflowID \<noteq> [] \<and> runID \<noteq> []"
    by (auto simp: formatTemporalAuditRef_def temporalPrefix_def)
next
  assume a: "s = formatTemporalAuditRef workflowID runID \<and> CHR ''/'' \<notin> set workflowID \<and> workflowID \<noteq> [] \<and> runID \<noteq> []"
  then have "s = temporalPrefix @ (workflowID @ ''/'' @ runID)"
    by (simp add: formatTemporalAuditRef_def temporalPrefix_def)
  moreover have "parseTemporalRef (temporalPrefix @ (workflowID @ ''/'' @ runID)) = Some (workflowID, runID)"
    using a by (simp add: parseTemporalRef_def Let_def)
  ultimately show "parseTemporalRef s = Some (workflowID, runID)" by simp
qed

text \<open>
  The signal that continues a workflow carries the action and the operator that the approval or
  the retry recorded on the task.
\<close>

lemma signalActor_recorded:
  "signalActorFromAuditRef (''approval:'' @ actor) = actor"
  "signalActorFromAuditRef (''retry:'' @ actor) = actor"
  using indexOf_char_append [of "CHR '':''" "''approval''" actor] indexOf_char_append [of "CHR '':''" "''retry''" actor]
  by (simp_all add: signalActorFromAuditRef_def del: indexOf.simps)

theorem signal_names_operator:
  "(\<forall>t s'. ApproveTask now taskID by s = (Inr t, s') \<longrightarrow>
      approvedToolSignalAction t = ''approve'' \<and> signalActorFromAuditRef (task_AuditRef t) = by
      \<and> \<not> so_FailedOnly (approvedToolStartWorkflowOptions t queue))
   \<and> (\<forall>t s'. RetryTask now taskID by s = (Inr t, s') \<longrightarrow>
      approvedToolSignalAction t = ''retry'' \<and> signalActorFromAuditRef (task_AuditRef t) = by
      \<and> so_FailedOnly (approvedToolStartWorkflowOptions t queue))"
proof -
  have "hasPrefix (''retry:'' @ by) ''retry:''" "\<not> hasPrefix (''approval:'' @ by) ''retry:''"
    by (simp_all add: hasPrefix_def)
  then show ?thesis
    using signalActor_recorded
    by (auto simp: ApproveTask_def RetryTask_def UpdateTaskWithEvent_def approvedToolSignalAction_def
        approvedToolStartWorkflowOptions_def Let_def split: if_splits sum.splits option.splits)
qed

subsection \<open>The approved tool\<close>

text \<open>
  What the model needs of engine and client: whatever they do, they touch the tools' world only
  by running the activity and the workflow they were given.
\<close>

definition engineKeeps :: "'w workflowEngine \<Rightarrow> ('w \<Rightarrow> bool) \<Rightarrow> bool" where
  "engineKeeps eng Keep \<longleftrightarrow>
     (\<forall>w. Keep w \<longrightarrow> Keep (snd (eng_ReceiveSignal eng w)))
   \<and> (\<forall>n f w. (\<forall>v. Keep v \<longrightarrow> Keep (snd (f v))) \<and> Keep w \<longrightarrow> Keep (snd (eng_ExecuteActivity eng n f w)))"

definition clientKeeps :: "'w temporalClient \<Rightarrow> ('w \<Rightarrow> bool) \<Rightarrow> bool" where
  "clientKeeps c Keep \<longleftrightarrow>
     (\<forall>opts f w. (\<forall>v. Keep v \<longrightarrow> Keep (snd (f v))) \<and> Keep w \<longrightarrow> Keep (snd (tcl_ExecuteWorkflow c opts f w)))
   \<and> (\<forall>k name sig opts f w. (\<forall>v. Keep v \<longrightarrow> Keep (snd (f v))) \<and> Keep w
        \<longrightarrow> Keep (snd (tcl_SignalWithStart c k name sig opts f w)))
   \<and> (\<forall>run w. Keep w \<longrightarrow> Keep (snd (tcl_Get c run w)))"

definition toolKeeps :: "('w, 'p) toolRegistry \<Rightarrow> string \<Rightarrow> string \<Rightarrow> ('w \<Rightarrow> bool) \<Rightarrow> bool" where
  "toolKeeps r toolName args Keep \<longleftrightarrow>
     (\<forall>def f w. Lookup toolName r = Some def \<and> def_Executor def = Some f \<and> Keep w \<longrightarrow> Keep (snd (f args w)))"

lemma runTool_keeps:
  assumes "toolKeeps r (inv_ToolName ivk) (inv_Arguments ivk) Keep" "Lookup (inv_ToolName ivk) r = Some def" "Keep w"
  shows "Keep (snd (runTool def ivk w))"
proof (cases "def_Executor def")
  case None
  with assms(3) show ?thesis by (simp add: runTool_def)
next
  case (Some f)
  with assms have "Keep (snd (f (inv_Arguments ivk) w))" unfolding toolKeeps_def by blast
  with Some show ?thesis by (auto simp: runTool_def split: prod.split sum.split)
qed

lemma Execute_tool_keeps:
  assumes "toolKeeps r (inv_ToolName ivk) (inv_Arguments ivk) Keep" "Keep w"
  shows "Keep (snd (Execute marshal r ivk w))"
proof (cases "Lookup (inv_ToolName ivk) r")
  case None
  with assms(2) show ?thesis by (simp add: Execute_def)
next
  case (Some def)
  obtain res w1 where run: "runTool def ivk w = (res, w1)" by force
  then have "Keep w1" using runTool_keeps [OF assms(1) Some assms(2)] by simp
  with Some run assms(2) show ?thesis by (simp add: Execute_def split: sum.split)
qed

lemma ExecuteApprovedTool_keeps:
  assumes "toolKeeps (ta_registry a) (ati_ToolName i) (ati_Arguments i) Keep" "Keep w"
  shows "Keep (snd (ExecuteApprovedTool a i signal w))"
proof -
  obtain res w1 where run: "Execute (ta_marshal a) (ta_registry a) (approvedInvocation i) w = (res, w1)" by force
  moreover have "Keep (snd (Execute (ta_marshal a) (ta_registry a) (approvedInvocation i) w))"
    using assms by (simp add: Execute_tool_keeps [where Keep = Keep] approvedInvocation_def)
  ultimately have w1: "Keep w1" by simp
  have "snd (ExecuteApprovedTool a i signal w) = w \<or> snd (ExecuteApprovedTool a i signal w) = w1"
    by (cases res) (simp_all add: ExecuteApprovedTool_def run)
  with w1 assms(2) show ?thesis by metis
qed

lemma ApprovedToolExecutionWorkflow_keeps:
  assumes "toolKeeps (ta_registry a) (ati_ToolName i) (ati_Arguments i) Keep" "engineKeeps eng Keep" "Keep w"
  shows "Keep (snd (ApprovedToolExecutionWorkflow eng a i w))"
proof -
  obtain signal w1 where w1: "eng_ReceiveSignal eng w = (signal, w1)" by force
  then have "Keep w1" using assms(2,3) unfolding engineKeeps_def by (metis snd_conv)
  moreover have "\<forall>v. Keep v \<longrightarrow> Keep (snd (ExecuteApprovedTool a i signal v))"
    using ExecuteApprovedTool_keeps [OF assms(1)] by blast
  ultimately have "Keep (snd (eng_ExecuteActivity eng 3 (ExecuteApprovedTool a i signal) w1))"
    using assms(2) unfolding engineKeeps_def by blast
  then show ?thesis by (simp add: ApprovedToolExecutionWorkflow_def w1)
qed

text \<open>
  C7: Starting and continuing an approved task changes the world of the tools only as the task's own
  tool does on the task's own arguments: what that call keeps is kept, whatever engine and client
  do in between, how often they repeat the activity, and whatever other tools are registered.
\<close>

theorem approved_task_runs_its_tool:
  assumes "engineKeeps eng Keep" "clientKeeps c Keep" "Keep w"
    and "toolKeeps (ta_registry a) (task_ToolName t) (task_ToolArguments t) Keep"
  shows "Keep (snd (ContinueApprovedToolWorkflow c queue eng a t w)) \<and> Keep (snd (StartTask c queue eng a t w))"
proof -
  have wf: "Keep (snd (ApprovedToolExecutionWorkflow eng a (approvedToolInputOf t) v))" if "Keep v" for v
    using assms(1,4) that
    by (simp add: ApprovedToolExecutionWorkflow_keeps [where Keep = Keep] approvedToolInputOf_def)
  let ?f = "ApprovedToolExecutionWorkflow eng a (approvedToolInputOf t)"
  have wf': "\<forall>v. Keep v \<longrightarrow> Keep (snd (?f v))" using wf by blast
  have start: "Keep (snd (tcl_ExecuteWorkflow c opts ?f w))" for opts
    using assms(2) [unfolded clientKeeps_def, THEN conjunct1] wf' assms(3) by blast
  have signal: "Keep (snd (tcl_SignalWithStart c k name sig opts ?f w))" for k name sig opts
    using assms(2) [unfolded clientKeeps_def, THEN conjunct2, THEN conjunct1] wf' assms(3) by blast
  have get: "Keep v \<Longrightarrow> Keep (snd (tcl_Get c run v))" for run v
    using assms(2) [unfolded clientKeeps_def, THEN conjunct2, THEN conjunct2] by blast
  let ?sw = "tcl_SignalWithStart c (task_ID t) ''approved-tool-continue''
        \<lparr>sig_Action = approvedToolSignalAction t, sig_Actor = signalActorFromAuditRef (task_AuditRef t)\<rparr>
        (approvedToolStartWorkflowOptions t queue) (ApprovedToolExecutionWorkflow eng a (approvedToolInputOf t)) w"
  obtain res w1 where sw: "?sw = (res, w1)" by force
  then have "Keep w1" using signal by (metis snd_conv)
  then have "Keep (snd (tcl_Get c run w1))" for run by (rule get)
  then have "Keep (snd (ContinueApprovedToolWorkflow c queue eng a t w))"
    using \<open>Keep w1\<close> by (simp add: ContinueApprovedToolWorkflow_def sw Let_def split: sum.split prod.split) (metis snd_conv)
  moreover have "Keep (snd (StartTask c queue eng a t w))"
    using start [of "approvedToolStartWorkflowOptions t queue"]
    by (auto simp: StartTask_def split: prod.split sum.split)
  ultimately show ?thesis ..
qed

text \<open>
  For the concrete instances: an engine that runs an activity once and always has an approval
  waiting, and a client that runs a workflow at once and keeps its result.
\<close>

definition onceEngine :: "'w workflowEngine" where
  "onceEngine = \<lparr>eng_ExecuteActivity = (\<lambda>n f w. case f w of
       (Inl (Retryable err), w') \<Rightarrow> (Inl err, w') | (Inl (NonRetryable err), w') \<Rightarrow> (Inl err, w') | (Inr r, w') \<Rightarrow> (Inr r, w')),
     eng_ReceiveSignal = (\<lambda>w. (\<lparr>sig_Action = ''approve'', sig_Actor = ''ann''\<rparr>, w))\<rparr>"

definition onceClient :: "'w temporalClient" where
  "onceClient = \<lparr>tcl_ExecuteWorkflow = (\<lambda>opts f w. (Inr (so_ID opts, ''run-1''), snd (f w))),
     tcl_SignalWithStart = (\<lambda>k name sig opts f w. (Inr (k, ''run-1''), snd (f w))),
     tcl_Get = (\<lambda>run w. (Inr ''ran'', w))\<rparr>"

lemma once_keeps: "engineKeeps onceEngine Keep" "clientKeeps onceClient Keep"
  by (auto simp: engineKeeps_def clientKeeps_def onceEngine_def onceClient_def split: prod.split sum.split activityError.split)

definition demoToolTask :: task where
  "demoToolTask = \<lparr>task_ID = ''task-1'', task_RequestID = ''r'', task_TenantID = ''acme'', task_SessionID = ''s'',
     task_TaskType = TaskTypeApprovedToolExecution, task_VersionID = [], task_ToolName = ''ticket_search'',
     task_ToolArguments = ''q'', task_Status = StatusRunning, task_Reason = [], task_ErrorReason = [],
     task_AuditRef = ''approval:ann'', task_RequiresApproval = True, task_CreatedAt = 1, task_UpdatedAt = 1\<rparr>"

definition demoToolActivities :: "(string list, ticketPayload) toolActivities" where
  "demoToolActivities = \<lparr>ta_FailOnApprove = False,
     ta_registry = NewDefaultRegistry NoStub (SearchExecutor Inr) (\<lambda>args log. (Inr NoStub, log @ [args])),
     ta_marshal = (\<lambda>_. Inr ''{}''), ta_errorText = (\<lambda>_. ''failed''),
     ta_decoder = \<lparr>rd_comment = (\<lambda>_. None), rd_matches = (\<lambda>_. Some 0)\<rparr>\<rparr>"

lemma approved_task_runs_its_tool_witness:
  "snd (ContinueApprovedToolWorkflow onceClient ''q'' onceEngine demoToolActivities demoToolTask []) = []"
proof -
  have "toolKeeps (ta_registry demoToolActivities) (task_ToolName demoToolTask) (task_ToolArguments demoToolTask) (\<lambda>w. w = [])"
    by (auto simp: toolKeeps_def demoToolActivities_def demoToolTask_def SearchExecutor_def Let_def
        dest!: default_search split: sum.split)
  then show ?thesis
    using approved_task_runs_its_tool [OF once_keeps, of "\<lambda>w. w = []" "[]" demoToolActivities demoToolTask "''q''"] by blast
qed

subsection \<open>Traces\<close>

text \<open>The readers on the memory stores; a case store reports nothing but a missing case here.\<close>

definition memReaders ::
    "(string \<Rightarrow> (string \<rightharpoonup> string) option) \<Rightarrow> taskStore \<Rightarrow> reportStore \<Rightarrow> caseState \<Rightarrow> traceReaders" where
  "memReaders parse tasks reports cases =
     \<lparr>trd_GetTask = (\<lambda>k. map_sum workflowErrorText (\<lambda>t. t) (GetTask k tasks)),
      trd_GetReport = (\<lambda>k. map_sum reportErrorText (\<lambda>r. r) (report_Get k reports)),
      trd_GetCase = (\<lambda>k. map_sum (\<lambda>_. ''case not found: '' @ k) (\<lambda>c. c) (case_Get k cases)),
      trd_parse = parse\<rparr>"

definition traceFacts :: "traceResult \<Rightarrow> string \<times> string \<times> string \<times> string \<times> string \<times> (string \<times> string) option" where
  "traceFacts r = (trc_VersionID r, trc_RequestID r, trc_SessionID r, trc_AuditRef r, trc_TaskStatus r, trc_Temporal r)"

lemma trace_marks [simp]:
  "traceFacts (addTraceWarning r) = traceFacts r" "trc_Lineage (addTraceWarning r) = trc_Lineage r"
  "trc_Lineage (applyTemporalRef r) = trc_Lineage r"
  by (simp_all add: traceFacts_def addTraceWarning_def applyTemporalRef_def warn_def split: option.split)

lemma traceFacts_temporal:
  "trc_Temporal r = None \<Longrightarrow> traceFacts (applyTemporalRef r)
     = (trc_VersionID r, trc_RequestID r, trc_SessionID r, trc_AuditRef r, trc_TaskStatus r, parseTemporalRef (trc_AuditRef r))"
  by (simp add: traceFacts_def applyTemporalRef_def warn_def split: option.split)

lemma emptyTrace_fields [simp]:
  "trc_Temporal (emptyTrace kind k tenant) = None" "trc_VersionID (emptyTrace kind k tenant) = []"
  by (simp_all add: emptyTrace_def)

lemma applyTask_fields [simp]:
  "trc_VersionID (applyTask t r) = (if trc_VersionID r = [] then task_VersionID t else trc_VersionID r)"
  "trc_RequestID (applyTask t r) = task_RequestID t" "trc_SessionID (applyTask t r) = task_SessionID t"
  "trc_AuditRef (applyTask t r) = task_AuditRef t" "trc_TaskStatus (applyTask t r) = task_Status t"
  "trc_Temporal (applyTask t r) = trc_Temporal r"
  "trc_Lineage (applyTask t r) = (trc_Lineage r)\<lparr>ln_TaskID := task_ID t\<rparr>"
  by (simp_all add: applyTask_def)

lemma applyReportMetadata_fields [simp]:
  "trc_VersionID (applyReportMetadata rd item r) = (if trc_VersionID r = [] then rpt_VersionID item else trc_VersionID r)"
  "trc_Temporal (applyReportMetadata rd item r) = trc_Temporal r"
  "trc_Lineage (applyReportMetadata rd item r) = (trc_Lineage r)\<lparr>ln_ReportID := rpt_ID item\<rparr>"
  by (simp_all add: applyReportMetadata_def Let_def split: option.split)

text \<open>
  The report of a task, a case opened on that report and the task itself lead to the same trace:
  the same version, request, session, audit reference, status and Temporal run, all of them the
  task's, whatever the metadata of the report says; and the lineage names all the records on the
  way.
\<close>

theorem trace_lookups_agree:
  assumes "ts_tasks tasks (task_ID t) = Some t" "reports (rpt_ID r) = Some r" "reportedAs r t"
    and "cst_records cases (cs_ID c) = Some c" "cs_SourceReportID c = rpt_ID r" "cs_SourceTaskID c \<in> {[], task_ID t}"
    and "task_ID t \<noteq> []" "cs_ID c \<noteq> []" "rd = memReaders parse tasks reports cases"
  shows "\<exists>a b d. trace_Lookup rd \<lparr>li_TaskID = task_ID t, li_ReportID = [], li_CaseID = []\<rparr> = Inr a
    \<and> trace_Lookup rd \<lparr>li_TaskID = [], li_ReportID = rpt_ID r, li_CaseID = []\<rparr> = Inr b
    \<and> trace_Lookup rd \<lparr>li_TaskID = [], li_ReportID = [], li_CaseID = cs_ID c\<rparr> = Inr d
    \<and> traceFacts a = (task_VersionID t, task_RequestID t, task_SessionID t, task_AuditRef t, task_Status t,
        parseTemporalRef (task_AuditRef t))
    \<and> traceFacts b = traceFacts a \<and> traceFacts d = traceFacts a
    \<and> trc_Lineage b = \<lparr>ln_TaskID = task_ID t, ln_ReportID = rpt_ID r, ln_CaseID = []\<rparr>
    \<and> trc_Lineage d = \<lparr>ln_TaskID = task_ID t, ln_ReportID = rpt_ID r, ln_CaseID = cs_ID c\<rparr>"
proof -
  have rd: "trd_GetTask rd (task_ID t) = Inr t" "trd_GetReport rd (rpt_ID r) = Inr r" "trd_GetCase rd (cs_ID c) = Inr c"
    using assms(1,2,4,9) by (simp_all add: memReaders_def GetTask_def report_Get_def case_Get_def)
  have r: "rpt_ID r \<noteq> []" "rpt_SourceTaskID r = task_ID t" "rpt_VersionID r = task_VersionID t" "task_VersionID t \<noteq> []"
    using assms(3) by (auto simp: reportedAs_def ReportIDFromTaskID_def)
  have "\<exists>a. lookupTask rd (task_ID t) = Inr a \<and> traceFacts a = (task_VersionID t, task_RequestID t, task_SessionID t,
      task_AuditRef t, task_Status t, parseTemporalRef (task_AuditRef t))"
    by (simp add: lookupTask_def rd traceFacts_temporal)
  moreover have "\<exists>b. lookupReport rd (rpt_ID r) = Inr b \<and> traceFacts b = (task_VersionID t, task_RequestID t, task_SessionID t,
      task_AuditRef t, task_Status t, parseTemporalRef (task_AuditRef t))
      \<and> trc_Lineage b = \<lparr>ln_TaskID = task_ID t, ln_ReportID = rpt_ID r, ln_CaseID = []\<rparr>"
    using r assms(7) by (simp add: lookupReport_def rd applySourceTask_def traceFacts_temporal Let_def)
  moreover have "\<exists>d. lookupCase rd (cs_ID c) = Inr d \<and> traceFacts d = (task_VersionID t, task_RequestID t, task_SessionID t,
      task_AuditRef t, task_Status t, parseTemporalRef (task_AuditRef t))
      \<and> trc_Lineage d = \<lparr>ln_TaskID = task_ID t, ln_ReportID = rpt_ID r, ln_CaseID = cs_ID c\<rparr>"
    using r assms(5-8)
    by (auto simp: lookupCase_def rd applySourceReport_def applySourceTask_def traceFacts_temporal Let_def)
  ultimately show ?thesis using r(1) assms(7,8) by (simp add: trace_Lookup_def) fastforce
qed

definition demoTraceTask :: task where
  "demoTraceTask = demoToolTask\<lparr>task_VersionID := ''v1'', task_AuditRef := ''temporal:workflow:task-1/run-1''\<rparr>"

definition demoTraceReport :: reportRec where
  "demoTraceReport = generatedReport (memReports int (\<lambda>_. None) showInt) demoTraceTask
     \<lparr>er_AuditRef = [], er_Detail = ''done''\<rparr> ''v1'' 7"

definition demoTraceCase :: caseRec where
  "demoTraceCase = \<lparr>cs_ID = ''case-1'', cs_TenantID = ''acme'', cs_Status = CaseStatusOpen, cs_Title = ''t'', cs_Summary = [],
     cs_SourceTaskID = [], cs_SourceReportID = ''report-task-1'', cs_SourceEvalReportID = [], cs_SourceEvalCaseID = [],
     cs_SourceEvalRunID = [],
     cs_CompareOrigin = \<lparr>co_LeftEvalReportID = [], co_RightEvalReportID = [], co_SelectedSide = []\<rparr>,
     cs_CreatedBy = ''ann'', cs_AssignedTo = [], cs_AssignedAt = 0, cs_ClosedBy = [], cs_CreatedAt = 8, cs_UpdatedAt = 8\<rparr>"

lemma trace_lookups_agree_witness:
  "\<exists>d. trace_Lookup (memReaders (\<lambda>_. None) (NewMemoryStore\<lparr>ts_tasks := [''task-1'' \<mapsto> demoTraceTask]\<rparr>)
        [''report-task-1'' \<mapsto> demoTraceReport] (newCaseStore\<lparr>cst_records := [''case-1'' \<mapsto> demoTraceCase]\<rparr>))
      \<lparr>li_TaskID = [], li_ReportID = [], li_CaseID = ''case-1''\<rparr> = Inr d
    \<and> trc_Temporal d = Some (''task-1'', ''run-1'')"
proof -
  have ids: "task_ID demoTraceTask = ''task-1''" "rpt_ID demoTraceReport = ''report-task-1''" "cs_ID demoTraceCase = ''case-1''"
    by (simp_all add: demoTraceTask_def demoToolTask_def demoTraceReport_def ReportIDFromTaskID_def demoTraceCase_def)
  have "task_VersionID demoTraceTask = ''v1''" by (simp add: demoTraceTask_def)
  then have "reportedAs demoTraceReport demoTraceTask"
    unfolding demoTraceReport_def using generatedReport_reportedAs by (metis list.distinct(1))
  moreover have "parseTemporalRef (task_AuditRef demoTraceTask) = Some (''task-1'', ''run-1'')"
    by (simp add: demoTraceTask_def parseTemporalRef_def temporalPrefix_def hasPrefix_def trimPrefix_def)
  ultimately show ?thesis
    using trace_lookups_agree [of "NewMemoryStore\<lparr>ts_tasks := [''task-1'' \<mapsto> demoTraceTask]\<rparr>" demoTraceTask
        "[''report-task-1'' \<mapsto> demoTraceReport]" demoTraceReport
        "newCaseStore\<lparr>cst_records := [''case-1'' \<mapsto> demoTraceCase]\<rparr>" demoTraceCase _ "\<lambda>_. None", OF _ _ _ _ _ _ _ _ refl]
    by (simp add: ids) (auto simp: traceFacts_def demoTraceCase_def)
qed

end
