(* ===== verification/Eval_Store.thy ===== *)
theory Eval_Store
  imports Go_Store Complex_Main
begin

text \<open>
  The records of evaluations and their memory store: \<open>eval/types.go\<close> and \<open>eval/memory_store.go\<close>.

  One store holds the promoted eval cases, the datasets built from them, the runs over a dataset
  with their event history and per-item results, and the reports of finished runs.  A score is a
  real number; raw JSON is a string.  Slices that the store copies on the way in and out are
  plain lists.
\<close>

subsection \<open>Types\<close>

abbreviation (input) "DatasetStatusDraft \<equiv> ''draft''"
abbreviation (input) "DatasetStatusPublished \<equiv> ''published''"

abbreviation (input) "RunStatusQueued \<equiv> ''queued''"
abbreviation (input) "RunStatusRunning \<equiv> ''running''"
abbreviation (input) "RunStatusSucceeded \<equiv> ''succeeded''"
abbreviation (input) "RunStatusFailed \<equiv> ''failed''"

abbreviation (input) "RunEventCreated \<equiv> ''created''"
abbreviation (input) "RunEventClaimed \<equiv> ''claimed''"
abbreviation (input) "RunEventSucceeded \<equiv> ''succeeded''"
abbreviation (input) "RunEventFailed \<equiv> ''failed''"
abbreviation (input) "RunEventRetried \<equiv> ''retried''"

abbreviation (input) "RunItemResultSucceeded \<equiv> ''succeeded''"
abbreviation (input) "RunItemResultFailed \<equiv> ''failed''"

abbreviation (input) "RunItemVerdictPass \<equiv> ''pass''"
abbreviation (input) "RunItemVerdictFail \<equiv> ''fail''"
abbreviation (input) "PlaceholderJudgeKind \<equiv> ''placeholder''"
abbreviation (input) "PlaceholderJudgeVersion \<equiv> ''placeholder-v1''"
abbreviation (input) "EvalReportStatusReady \<equiv> ''ready''"

text \<open>A missing dataset or case is reported with the identifier or, by some checks, without.\<close>

datatype evalError =
    ErrEvalCaseNotFound "string option"
  | ErrInvalidSource
  | ErrEvalCaseExists string
  | ErrEvalDatasetNotFound "string option"
  | ErrInvalidEvalDataset
  | ErrInvalidEvalDatasetState
  | ErrEvalRunNotFound string
  | ErrInvalidEvalRunState
  | ErrEvalReportNotFound string
  | EvalOther string

record evalCase =
  evc_ID :: string
  evc_TenantID :: string
  evc_SourceCaseID :: string
  evc_SourceTaskID :: string
  evc_SourceReportID :: string
  evc_FollowUpCaseCount :: int
  evc_OpenFollowUpCaseCount :: int
  evc_LatestFollowUpCaseID :: string
  evc_LatestFollowUpCaseStatus :: string
  evc_TraceID :: string
  evc_VersionID :: string
  evc_Title :: string
  evc_Summary :: string
  evc_OperatorNote :: string
  evc_CreatedBy :: string
  evc_CreatedAt :: time

record evalCaseFilter =
  ecf_TenantID :: string
  ecf_SourceCaseID :: string
  ecf_SourceTaskID :: string
  ecf_SourceReportID :: string
  ecf_VersionID :: string
  ecf_NeedsFollowUp :: "bool option"
  ecf_Limit :: int
  ecf_Offset :: int

record datasetItem =
  edi_EvalCaseID :: string
  edi_Title :: string
  edi_SourceCaseID :: string
  edi_SourceTaskID :: string
  edi_SourceReportID :: string
  edi_TraceID :: string
  edi_VersionID :: string

record evalDataset =
  eds_ID :: string
  eds_TenantID :: string
  eds_Name :: string
  eds_Description :: string
  eds_Status :: string
  eds_CreatedBy :: string
  eds_CreatedAt :: time
  eds_UpdatedAt :: time
  eds_PublishedBy :: string
  eds_PublishedAt :: time
  eds_Items :: "datasetItem list"

record datasetSummary =
  dsm_ID :: string
  dsm_TenantID :: string
  dsm_Name :: string
  dsm_Status :: string
  dsm_CreatedBy :: string
  dsm_CreatedAt :: time
  dsm_UpdatedAt :: time
  dsm_ItemCount :: int

record datasetFilter =
  dsf_TenantID :: string
  dsf_Status :: string
  dsf_CreatedBy :: string
  dsf_Limit :: int
  dsf_Offset :: int

record runSummary =
  rsm_TotalItems :: int
  rsm_RecordedResults :: int
  rsm_SucceededItems :: int
  rsm_FailedItems :: int
  rsm_MissingResults :: int

record evalRun =
  run_ID :: string
  run_TenantID :: string
  run_DatasetID :: string
  run_DatasetName :: string
  run_DatasetItemCount :: int
  run_ResultSummary :: "runSummary option"
  run_Status :: string
  run_CreatedBy :: string
  run_ErrorReason :: string
  run_CreatedAt :: time
  run_UpdatedAt :: time
  run_StartedAt :: time
  run_FinishedAt :: time

record runEvent =
  rve_ID :: int
  rve_RunID :: string
  rve_Action :: string
  rve_Actor :: string
  rve_Detail :: string
  rve_CreatedAt :: time

record runItem =
  rit_EvalCaseID :: string
  rit_Title :: string
  rit_SourceCaseID :: string
  rit_SourceTaskID :: string
  rit_SourceReportID :: string
  rit_TraceID :: string
  rit_VersionID :: string

record itemResult =
  irs_EvalCaseID :: string
  irs_Status :: string
  irs_Verdict :: string
  irs_Detail :: string
  irs_Score :: real
  irs_JudgeVersion :: string
  irs_JudgeOutput :: string
  irs_UpdatedAt :: time

record runDetail =
  rdt_Run :: evalRun
  rdt_Events :: "runEvent list"
  rdt_Items :: "runItem list"
  rdt_ItemResults :: "itemResult list"

record badCase =
  bad_EvalCaseID :: string
  bad_Title :: string
  bad_SourceCaseID :: string
  bad_SourceTaskID :: string
  bad_SourceReportID :: string
  bad_TraceID :: string
  bad_VersionID :: string
  bad_Verdict :: string
  bad_Detail :: string
  bad_Score :: real

record evalReport =
  erp_ID :: string
  erp_TenantID :: string
  erp_RunID :: string
  erp_DatasetID :: string
  erp_DatasetName :: string
  erp_RunStatus :: string
  erp_Status :: string
  erp_Summary :: string
  erp_TotalItems :: int
  erp_RecordedResults :: int
  erp_PassedItems :: int
  erp_FailedItems :: int
  erp_MissingResults :: int
  erp_AverageScore :: real
  erp_JudgeVersion :: string
  erp_MetadataJSON :: string
  erp_BadCases :: "badCase list"
  erp_CreatedAt :: time
  erp_UpdatedAt :: time
  erp_ReadyAt :: time

record evalReportFilter =
  erf_ReportID :: string
  erf_TenantID :: string
  erf_DatasetID :: string
  erf_RunStatus :: string
  erf_Status :: string
  erf_Limit :: int
  erf_Offset :: int

record runFilter =
  rnf_TenantID :: string
  rnf_DatasetID :: string
  rnf_Status :: string
  rnf_Limit :: int
  rnf_Offset :: int

definition EvalReportIDFromRunID :: "string \<Rightarrow> string" where
  "EvalReportIDFromRunID runID = ''eval-report-'' @ runID"

subsection \<open>The memory store\<close>

record evalStore =
  est_byID :: "string \<rightharpoonup> evalCase"
  est_bySourceCase :: "string \<rightharpoonup> string"
  est_datasets :: "string \<rightharpoonup> evalDataset"
  est_runs :: "string \<rightharpoonup> evalRun"
  est_runEvents :: "string \<rightharpoonup> runEvent list"
  est_runItems :: "string \<rightharpoonup> runItem list"
  est_runItemResults :: "string \<rightharpoonup> itemResult list"
  est_evalReports :: "string \<rightharpoonup> evalReport"
  est_nextRunEvent :: int

definition newMemoryStore :: evalStore where
  "newMemoryStore =
     \<lparr>est_byID = Map.empty, est_bySourceCase = Map.empty, est_datasets = Map.empty,
      est_runs = Map.empty, est_runEvents = Map.empty, est_runItems = Map.empty,
      est_runItemResults = Map.empty, est_evalReports = Map.empty, est_nextRunEvent = 0\<rparr>"

text \<open>The page that the list operations cut out of their sorted rows; \<open>None\<close> is a panic.\<close>

definition evalWindow :: "int \<Rightarrow> int \<Rightarrow> 'a list \<Rightarrow> 'a listPage option" where
  "evalWindow limit offset items =
     (let start = (if offset > int (length items) then int (length items) else offset);
          stop = goInt (start + limit);
          more = stop < int (length items)
      in map_option
           (\<lambda>xs. \<lparr>pageItems = xs, pageHasMore = more, pageNextOffset = (if more then stop else 0)\<rparr>)
           (sliceRange start (if more then stop else int (length items)) items))"

subsubsection \<open>Eval cases\<close>

definition eval_Save :: "evalCase \<Rightarrow> evalStore \<Rightarrow> (evalError + evalCase) \<times> evalStore" where
  "eval_Save item s =
     (if (case est_bySourceCase s (evc_SourceCaseID item) of
            None \<Rightarrow> False | Some existingID \<Rightarrow> existingID \<noteq> evc_ID item)
      then (Inl (ErrEvalCaseExists (evc_SourceCaseID item)), s)
      else (Inr item,
            s\<lparr>est_byID := (est_byID s)(evc_ID item \<mapsto> item),
              est_bySourceCase := (est_bySourceCase s)(evc_SourceCaseID item \<mapsto> evc_ID item)\<rparr>))"

definition eval_Get :: "string \<Rightarrow> evalStore \<Rightarrow> evalError + evalCase" where
  "eval_Get evalCaseID s =
     (case est_byID s evalCaseID of
        None \<Rightarrow> Inl (ErrEvalCaseNotFound (Some evalCaseID))
      | Some item \<Rightarrow> Inr item)"

text \<open>A missing key of a map reads as the zero value of its element type.\<close>

definition zeroEvalCase :: evalCase where
  "zeroEvalCase =
     \<lparr>evc_ID = [], evc_TenantID = [], evc_SourceCaseID = [], evc_SourceTaskID = [],
      evc_SourceReportID = [], evc_FollowUpCaseCount = 0, evc_OpenFollowUpCaseCount = 0,
      evc_LatestFollowUpCaseID = [], evc_LatestFollowUpCaseStatus = [], evc_TraceID = [],
      evc_VersionID = [], evc_Title = [], evc_Summary = [], evc_OperatorNote = [],
      evc_CreatedBy = [], evc_CreatedAt = zeroTime\<rparr>"

definition eval_GetBySourceCase :: "string \<Rightarrow> evalStore \<Rightarrow> evalError + evalCase" where
  "eval_GetBySourceCase sourceCaseID s =
     (case est_bySourceCase s sourceCaseID of
        None \<Rightarrow> Inl (ErrEvalCaseNotFound (Some sourceCaseID))
      | Some evalCaseID \<Rightarrow>
          Inr (case est_byID s evalCaseID of None \<Rightarrow> zeroEvalCase | Some item \<Rightarrow> item))"

definition evalCaseMatches :: "evalCaseFilter \<Rightarrow> evalCase \<Rightarrow> bool" where
  "evalCaseMatches f item \<longleftrightarrow>
     \<not> (ecf_TenantID f \<noteq> [] \<and> evc_TenantID item \<noteq> ecf_TenantID f)
   \<and> \<not> (ecf_SourceCaseID f \<noteq> [] \<and> evc_SourceCaseID item \<noteq> ecf_SourceCaseID f)
   \<and> \<not> (ecf_SourceTaskID f \<noteq> [] \<and> evc_SourceTaskID item \<noteq> ecf_SourceTaskID f)
   \<and> \<not> (ecf_SourceReportID f \<noteq> [] \<and> evc_SourceReportID item \<noteq> ecf_SourceReportID f)
   \<and> \<not> (ecf_VersionID f \<noteq> [] \<and> evc_VersionID item \<noteq> ecf_VersionID f)"

definition evalCaseSortsBefore :: "evalCase \<Rightarrow> evalCase \<Rightarrow> bool" where
  "evalCaseSortsBefore a b \<longleftrightarrow>
     (if evc_CreatedAt a \<noteq> evc_CreatedAt b then evc_CreatedAt b < evc_CreatedAt a
      else evc_ID b < evc_ID a)"

definition eval_List :: "string list \<Rightarrow> evalCaseFilter \<Rightarrow> evalStore \<Rightarrow> evalCase listPage option" where
  "eval_List ks f s =
     evalWindow (ecf_Limit f) (ecf_Offset f)
       (goSort evalCaseSortsBefore (filter (evalCaseMatches f) (rangeVals (est_byID s) ks)))"

subsubsection \<open>Datasets\<close>

definition eval_CreateDataset :: "evalDataset \<Rightarrow> evalStore \<Rightarrow> evalDataset \<times> evalStore" where
  "eval_CreateDataset item s = (item, s\<lparr>est_datasets := (est_datasets s)(eds_ID item \<mapsto> item)\<rparr>)"

definition eval_GetDataset :: "string \<Rightarrow> evalStore \<Rightarrow> evalError + evalDataset" where
  "eval_GetDataset datasetID s =
     (case est_datasets s datasetID of
        None \<Rightarrow> Inl (ErrEvalDatasetNotFound (Some datasetID))
      | Some item \<Rightarrow> Inr item)"

definition datasetMatches :: "datasetFilter \<Rightarrow> evalDataset \<Rightarrow> bool" where
  "datasetMatches f item \<longleftrightarrow>
     \<not> (dsf_TenantID f \<noteq> [] \<and> eds_TenantID item \<noteq> dsf_TenantID f)
   \<and> \<not> (dsf_Status f \<noteq> [] \<and> eds_Status item \<noteq> dsf_Status f)
   \<and> \<not> (dsf_CreatedBy f \<noteq> [] \<and> eds_CreatedBy item \<noteq> dsf_CreatedBy f)"

definition datasetSummaryOf :: "evalDataset \<Rightarrow> datasetSummary" where
  "datasetSummaryOf item =
     \<lparr>dsm_ID = eds_ID item, dsm_TenantID = eds_TenantID item, dsm_Name = eds_Name item,
      dsm_Status = eds_Status item, dsm_CreatedBy = eds_CreatedBy item,
      dsm_CreatedAt = eds_CreatedAt item, dsm_UpdatedAt = eds_UpdatedAt item,
      dsm_ItemCount = int (length (eds_Items item))\<rparr>"

definition datasetSortsBefore :: "datasetSummary \<Rightarrow> datasetSummary \<Rightarrow> bool" where
  "datasetSortsBefore a b \<longleftrightarrow>
     (if dsm_UpdatedAt a \<noteq> dsm_UpdatedAt b then dsm_UpdatedAt b < dsm_UpdatedAt a
      else dsm_ID b < dsm_ID a)"

definition eval_ListDatasets ::
    "string list \<Rightarrow> datasetFilter \<Rightarrow> evalStore \<Rightarrow> datasetSummary listPage option" where
  "eval_ListDatasets ks f s =
     evalWindow (dsf_Limit f) (dsf_Offset f)
       (goSort datasetSortsBefore
          (map datasetSummaryOf (filter (datasetMatches f) (rangeVals (est_datasets s) ks))))"

definition eval_AddDatasetItem ::
    "string \<Rightarrow> datasetItem \<Rightarrow> time \<Rightarrow> evalStore \<Rightarrow> (evalError + evalDataset) \<times> evalStore" where
  "eval_AddDatasetItem datasetID item updatedAt s =
     (case est_datasets s datasetID of
        None \<Rightarrow> (Inl (ErrEvalDatasetNotFound (Some datasetID)), s)
      | Some dataset \<Rightarrow>
          if \<exists>existing \<in> set (eds_Items dataset). edi_EvalCaseID existing = edi_EvalCaseID item
          then (Inr dataset, s)
          else
            let dataset' = dataset\<lparr>eds_Items := eds_Items dataset @ [item], eds_UpdatedAt := updatedAt\<rparr>
            in (Inr dataset', s\<lparr>est_datasets := (est_datasets s)(datasetID \<mapsto> dataset')\<rparr>))"

definition eval_PublishDataset ::
    "string \<Rightarrow> string \<Rightarrow> time \<Rightarrow> evalStore \<Rightarrow> (evalError + evalDataset) \<times> evalStore" where
  "eval_PublishDataset datasetID publishedBy publishedAt s =
     (case est_datasets s datasetID of
        None \<Rightarrow> (Inl (ErrEvalDatasetNotFound (Some datasetID)), s)
      | Some dataset \<Rightarrow>
          if eds_Status dataset \<noteq> DatasetStatusDraft then (Inl ErrInvalidEvalDatasetState, s)
          else
            let dataset' = dataset\<lparr>eds_Status := DatasetStatusPublished, eds_PublishedBy := publishedBy,
                                   eds_PublishedAt := publishedAt, eds_UpdatedAt := publishedAt\<rparr>
            in (Inr dataset', s\<lparr>est_datasets := (est_datasets s)(datasetID \<mapsto> dataset')\<rparr>))"

subsubsection \<open>Runs\<close>

definition summarizeRunResultsForTotal :: "int \<Rightarrow> itemResult list \<Rightarrow> runSummary option" where
  "summarizeRunResultsForTotal totalItems results =
     (if results = [] then None
      else
        let recorded = int (length results);
            total = (if totalItems = 0 then recorded else totalItems)
        in Some \<lparr>rsm_TotalItems = total, rsm_RecordedResults = recorded,
             rsm_SucceededItems = int (length (filter (\<lambda>r. irs_Status r = RunItemResultSucceeded) results)),
             rsm_FailedItems = int (length (filter (\<lambda>r. irs_Status r = RunItemResultFailed) results)),
             rsm_MissingResults = (if total > recorded then total - recorded else 0)\<rparr>)"

definition withRunResultSummary :: "evalRun \<Rightarrow> itemResult list \<Rightarrow> evalRun" where
  "withRunResultSummary item results =
     item\<lparr>run_ResultSummary := summarizeRunResultsForTotal (run_DatasetItemCount item) results\<rparr>"

definition appendRunEventLocked :: "runEvent \<Rightarrow> evalStore \<Rightarrow> evalStore" where
  "appendRunEventLocked e s =
     (let n = est_nextRunEvent s + 1 in
      s\<lparr>est_nextRunEvent := n,
        est_runEvents := appendEntry (est_runEvents s) (rve_RunID e) (e\<lparr>rve_ID := n\<rparr>)\<rparr>)"

definition runEventFor :: "string \<Rightarrow> string \<Rightarrow> string \<Rightarrow> string \<Rightarrow> time \<Rightarrow> runEvent" where
  "runEventFor runID action actor detail created =
     \<lparr>rve_ID = 0, rve_RunID = runID, rve_Action = action, rve_Actor = actor, rve_Detail = detail,
      rve_CreatedAt = created\<rparr>"

definition putRun :: "evalRun \<Rightarrow> evalStore \<Rightarrow> evalStore" where
  "putRun item s = s\<lparr>est_runs := (est_runs s)(run_ID item \<mapsto> item)\<rparr>"

definition eval_CreateRun :: "evalRun \<Rightarrow> runItem list \<Rightarrow> evalStore \<Rightarrow> evalRun \<times> evalStore" where
  "eval_CreateRun item items s =
     (item,
      appendRunEventLocked
        (runEventFor (run_ID item) RunEventCreated (run_CreatedBy item) (run_Status item) (run_CreatedAt item))
        ((putRun item s)\<lparr>est_runItems := (est_runItems s)(run_ID item \<mapsto> items)\<rparr>))"

definition eval_GetRun :: "string \<Rightarrow> evalStore \<Rightarrow> evalError + evalRun" where
  "eval_GetRun runID s =
     (case est_runs s runID of
        None \<Rightarrow> Inl (ErrEvalRunNotFound runID)
      | Some item \<Rightarrow> Inr (withRunResultSummary item (entries (est_runItemResults s) runID)))"

definition eval_GetRunDetail :: "string \<Rightarrow> evalStore \<Rightarrow> evalError + runDetail" where
  "eval_GetRunDetail runID s =
     (case est_runs s runID of
        None \<Rightarrow> Inl (ErrEvalRunNotFound runID)
      | Some item \<Rightarrow>
          let results = entries (est_runItemResults s) runID
          in Inr \<lparr>rdt_Run = withRunResultSummary item results,
                  rdt_Events = entries (est_runEvents s) runID,
                  rdt_Items = entries (est_runItems s) runID, rdt_ItemResults = results\<rparr>)"

definition runMatches :: "runFilter \<Rightarrow> evalRun \<Rightarrow> bool" where
  "runMatches f item \<longleftrightarrow>
     \<not> (rnf_TenantID f \<noteq> [] \<and> run_TenantID item \<noteq> rnf_TenantID f)
   \<and> \<not> (rnf_DatasetID f \<noteq> [] \<and> run_DatasetID item \<noteq> rnf_DatasetID f)
   \<and> \<not> (rnf_Status f \<noteq> [] \<and> run_Status item \<noteq> rnf_Status f)"

definition runSortsBefore :: "evalRun \<Rightarrow> evalRun \<Rightarrow> bool" where
  "runSortsBefore a b \<longleftrightarrow>
     (if run_UpdatedAt a \<noteq> run_UpdatedAt b then run_UpdatedAt b < run_UpdatedAt a
      else run_ID b < run_ID a)"

definition eval_ListRuns :: "string list \<Rightarrow> runFilter \<Rightarrow> evalStore \<Rightarrow> evalRun listPage option" where
  "eval_ListRuns ks f s =
     evalWindow (rnf_Limit f) (rnf_Offset f)
       (goSort runSortsBefore
          (map (\<lambda>item. withRunResultSummary item (entries (est_runItemResults s) (run_ID item)))
             (filter (runMatches f) (rangeVals (est_runs s) ks))))"

definition eval_ListRunEvents :: "string \<Rightarrow> evalStore \<Rightarrow> evalError + runEvent list" where
  "eval_ListRunEvents runID s =
     (case est_runs s runID of
        None \<Rightarrow> Inl (ErrEvalRunNotFound runID)
      | Some _ \<Rightarrow> Inr (entries (est_runEvents s) runID))"

definition runClaimedBefore :: "evalRun \<Rightarrow> evalRun \<Rightarrow> bool" where
  "runClaimedBefore a b \<longleftrightarrow>
     (if run_CreatedAt a \<noteq> run_CreatedAt b then run_CreatedAt a < run_CreatedAt b
      else run_ID a < run_ID b)"

definition claimedRun :: "time \<Rightarrow> evalRun \<Rightarrow> evalRun" where
  "claimedRun startedAt item =
     item\<lparr>run_Status := RunStatusRunning, run_ErrorReason := [], run_UpdatedAt := startedAt,
          run_StartedAt := (if run_StartedAt item = zeroTime then startedAt else run_StartedAt item)\<rparr>"

definition claimRun :: "time \<Rightarrow> evalRun \<Rightarrow> evalStore \<Rightarrow> evalStore" where
  "claimRun startedAt item s =
     appendRunEventLocked
       (runEventFor (run_ID item) RunEventClaimed ''worker'' (run_Status item) startedAt) (putRun item s)"

text \<open>A negative limit, which the service never passes, makes the slice expression panic.\<close>

definition eval_ClaimQueuedRuns ::
    "string list \<Rightarrow> int \<Rightarrow> time \<Rightarrow> evalStore \<Rightarrow> (evalRun list \<times> evalStore) option" where
  "eval_ClaimQueuedRuns ks limit startedAt s =
     (let items = goSort runClaimedBefore
                    (filter (\<lambda>item. run_Status item = RunStatusQueued) (rangeVals (est_runs s) ks));
          limit' = (if limit > int (length items) then int (length items) else limit)
      in if limit' < 0 then None
         else let claimed = map (claimedRun startedAt) (take (nat limit') items)
              in Some (claimed, fold (claimRun startedAt) claimed s))"

definition eval_UpdateRun :: "evalRun \<Rightarrow> evalStore \<Rightarrow> (evalError + evalRun) \<times> evalStore" where
  "eval_UpdateRun item s =
     (case est_runs s (run_ID item) of
        None \<Rightarrow> (Inl (ErrEvalRunNotFound (run_ID item)), s)
      | Some _ \<Rightarrow> (Inr item, putRun item s))"

definition eval_RetryRun :: "string \<Rightarrow> time \<Rightarrow> evalStore \<Rightarrow> (evalError + evalRun) \<times> evalStore" where
  "eval_RetryRun runID updatedAt s =
     (case est_runs s runID of
        None \<Rightarrow> (Inl (ErrEvalRunNotFound runID), s)
      | Some item \<Rightarrow>
          if run_Status item \<noteq> RunStatusFailed then (Inl ErrInvalidEvalRunState, s)
          else
            let item' = item\<lparr>run_Status := RunStatusQueued, run_ErrorReason := [],
                             run_UpdatedAt := updatedAt, run_StartedAt := zeroTime,
                             run_FinishedAt := zeroTime\<rparr>
            in (Inr item',
                appendRunEventLocked
                  (runEventFor (run_ID item') RunEventRetried ''operator'' (run_Status item') updatedAt)
                  (s\<lparr>est_runs := (est_runs s)(runID \<mapsto> item'),
                     est_runItemResults := (est_runItemResults s)(runID := None)\<rparr>)))"

text \<open>What the two ways to finish a run have in common.\<close>

definition finishRun ::
    "evalRun \<Rightarrow> string \<Rightarrow> string \<Rightarrow> string \<Rightarrow> itemResult list \<Rightarrow> evalStore \<Rightarrow> evalStore" where
  "finishRun item runID action detail results s =
     appendRunEventLocked
       (runEventFor (run_ID item) action ''worker'' detail (run_FinishedAt item))
       (s\<lparr>est_runs := (est_runs s)(runID \<mapsto> item),
          est_runItemResults := (est_runItemResults s)(runID \<mapsto> results)\<rparr>)"

definition eval_MarkRunSucceeded ::
    "string \<Rightarrow> time \<Rightarrow> itemResult list \<Rightarrow> evalStore \<Rightarrow> (evalError + evalRun) \<times> evalStore" where
  "eval_MarkRunSucceeded runID finishedAt results s =
     (case est_runs s runID of
        None \<Rightarrow> (Inl (ErrEvalRunNotFound runID), s)
      | Some item \<Rightarrow>
          if run_Status item \<noteq> RunStatusRunning then (Inl ErrInvalidEvalRunState, s)
          else
            let item' = item\<lparr>run_Status := RunStatusSucceeded, run_ErrorReason := [],
                             run_UpdatedAt := finishedAt, run_FinishedAt := finishedAt\<rparr>
            in (Inr item', finishRun item' runID RunEventSucceeded (run_Status item') results s))"

definition eval_MarkRunFailed ::
    "string \<Rightarrow> string \<Rightarrow> time \<Rightarrow> itemResult list \<Rightarrow> evalStore \<Rightarrow> (evalError + evalRun) \<times> evalStore" where
  "eval_MarkRunFailed runID reason finishedAt results s =
     (case est_runs s runID of
        None \<Rightarrow> (Inl (ErrEvalRunNotFound runID), s)
      | Some item \<Rightarrow>
          if run_Status item \<noteq> RunStatusRunning then (Inl ErrInvalidEvalRunState, s)
          else
            let item' = item\<lparr>run_Status := RunStatusFailed, run_ErrorReason := reason,
                             run_UpdatedAt := finishedAt, run_FinishedAt := finishedAt\<rparr>
            in (Inr item', finishRun item' runID RunEventFailed reason results s))"

subsubsection \<open>Reports\<close>

definition eval_SaveEvalReport :: "evalReport \<Rightarrow> evalStore \<Rightarrow> evalReport \<times> evalStore" where
  "eval_SaveEvalReport item s = (item, s\<lparr>est_evalReports := (est_evalReports s)(erp_ID item \<mapsto> item)\<rparr>)"

definition eval_GetEvalReport :: "string \<Rightarrow> evalStore \<Rightarrow> evalError + evalReport" where
  "eval_GetEvalReport reportID s =
     (case est_evalReports s reportID of
        None \<Rightarrow> Inl (ErrEvalReportNotFound reportID)
      | Some item \<Rightarrow> Inr item)"

definition evalReportMatches :: "evalReportFilter \<Rightarrow> evalReport \<Rightarrow> bool" where
  "evalReportMatches f item \<longleftrightarrow>
     \<not> (erf_ReportID f \<noteq> [] \<and> erp_ID item \<noteq> erf_ReportID f)
   \<and> \<not> (erf_TenantID f \<noteq> [] \<and> erp_TenantID item \<noteq> erf_TenantID f)
   \<and> \<not> (erf_DatasetID f \<noteq> [] \<and> erp_DatasetID item \<noteq> erf_DatasetID f)
   \<and> \<not> (erf_RunStatus f \<noteq> [] \<and> erp_RunStatus item \<noteq> erf_RunStatus f)
   \<and> \<not> (erf_Status f \<noteq> [] \<and> erp_Status item \<noteq> erf_Status f)"

definition evalReportSortsBefore :: "evalReport \<Rightarrow> evalReport \<Rightarrow> bool" where
  "evalReportSortsBefore a b \<longleftrightarrow>
     (if erp_UpdatedAt a \<noteq> erp_UpdatedAt b then erp_UpdatedAt b < erp_UpdatedAt a
      else erp_ID b < erp_ID a)"

definition eval_ListEvalReports ::
    "string list \<Rightarrow> evalReportFilter \<Rightarrow> evalStore \<Rightarrow> evalReport listPage option" where
  "eval_ListEvalReports ks f s =
     evalWindow (erf_Limit f) (erf_Offset f)
       (goSort evalReportSortsBefore (filter (evalReportMatches f) (rangeVals (est_evalReports s) ks)))"

subsection \<open>The interfaces of the store\<close>

interpretation run_store: audited_store
  "\<lambda>s k. est_runs s k" "\<lambda>s r. putRun r s" run_ID
  "\<lambda>s e. appendRunEventLocked e s" "\<lambda>s k. entries (est_runEvents s) k" est_nextRunEvent rve_ID rve_RunID
  "\<lambda>n e. e\<lparr>rve_ID := n\<rparr>"
  by unfold_locales (auto simp: putRun_def appendRunEventLocked_def Let_def)

interpretation dataset_store: keyed_store "\<lambda>s k. est_datasets s k" "\<lambda>s d. snd (eval_CreateDataset d s)" eds_ID
  by unfold_locales (simp add: eval_CreateDataset_def)

interpretation eval_report_store: keyed_store
  "\<lambda>s k. est_evalReports s k" "\<lambda>s r. snd (eval_SaveEvalReport r s)" erp_ID
  by unfold_locales (simp add: eval_SaveEvalReport_def)

interpretation eval_case_order: record_order evalCaseSortsBefore evc_ID "\<lambda>_. True"
  by unfold_locales (auto simp: evalCaseSortsBefore_def split: if_splits)

interpretation dataset_order: record_order datasetSortsBefore dsm_ID "\<lambda>_. True"
  by unfold_locales (auto simp: datasetSortsBefore_def split: if_splits)

interpretation run_order: record_order runSortsBefore run_ID "\<lambda>_. True"
  by unfold_locales (auto simp: runSortsBefore_def split: if_splits)

interpretation run_claim_order: record_order runClaimedBefore run_ID "\<lambda>_. True"
  by unfold_locales (auto simp: runClaimedBefore_def split: if_splits)

interpretation eval_report_order: record_order evalReportSortsBefore erp_ID "\<lambda>_. True"
  by unfold_locales (auto simp: evalReportSortsBefore_def split: if_splits)

lemma evalWindow_cutPage:
  assumes "0 \<le> offset" "0 < limit" "int (length xs) + limit < 2 ^ 63"
  shows "evalWindow limit offset xs = cutPage limit offset xs"
proof (cases "offset < int (length xs)")
  case True
  with assms have "goInt (offset + limit) = offset + limit" by (intro goInt_small) auto
  with True assms show ?thesis
    by (auto simp: evalWindow_def cutPage_def sliceRange_def Let_def)
next
  case False
  with assms have "goInt (int (length xs) + limit) = int (length xs) + limit" by (intro goInt_small) auto
  with False assms show ?thesis by (auto simp: evalWindow_def cutPage_def sliceRange_def Let_def)
qed

end
