(* ===== verification/Eval_Cases.thy ===== *)
theory Eval_Cases
  imports Eval_Store Task_Views Case_Laws
begin

text \<open>
  Promoting operator cases to eval cases and listing them: \<open>eval/service.go\<close>.

  The service reads operator cases, summaries of the cases that follow an eval case up, and
  traces.  \<open>applyFollowUpSummaries\<close> asks for one tenant only; the locale \<open>follow_up_source\<close> is
  what the list relies on of the summaries, and the case store of \<open>Cases\<close> provides it.
\<close>

subsection \<open>The service\<close>

record evalCaseDeps =
  evd_GetCase :: "string \<Rightarrow> string + caseRec"
  evd_Summaries :: "(string \<Rightarrow> string list \<Rightarrow> string + (string \<rightharpoonup> followUpSummary)) option"
  evd_Traces :: "(lookupInput \<Rightarrow> traceError + traceResult) option"

record evalCaseInput =
  eci_TenantID :: string
  eci_SourceCaseID :: string
  eci_OperatorNote :: string
  eci_CreatedBy :: string

record evalState =
  evl_Store :: evalStore
  evl_CaseSeq :: u64
  evl_DatasetSeq :: u64
  evl_RunSeq :: u64

definition newEvalCaseID :: "time \<Rightarrow> u64 \<Rightarrow> string" where
  "newEvalCaseID now n = sequencedID ''eval-case-'' now n"

definition withFollowUps :: "followUpSummary \<Rightarrow> evalCase \<Rightarrow> evalCase" where
  "withFollowUps summary item =
     item\<lparr>evc_FollowUpCaseCount := fus_CaseCount summary,
          evc_OpenFollowUpCaseCount := fus_OpenCaseCount summary,
          evc_LatestFollowUpCaseID := fus_LatestCaseID summary,
          evc_LatestFollowUpCaseStatus := fus_LatestCaseStatus summary\<rparr>"

definition summaryAt :: "(string \<rightharpoonup> followUpSummary) \<Rightarrow> string \<Rightarrow> followUpSummary" where
  "summaryAt m k = (case m k of None \<Rightarrow> zeroSummary | Some x \<Rightarrow> x)"

definition applyFollowUpSummaries ::
    "evalCaseDeps \<Rightarrow> evalCase list \<Rightarrow> evalError + evalCase list" where
  "applyFollowUpSummaries deps items =
     (case (items, evd_Summaries deps) of
        (first # _, Some summarize) \<Rightarrow>
          (let tenantID = evc_TenantID first;
               evalCaseIDs = map evc_ID (filter (\<lambda>item. \<not> (evc_ID item = [] \<or> evc_TenantID item \<noteq> tenantID)) items)
           in if evalCaseIDs = [] then Inr items
              else case summarize tenantID evalCaseIDs of
                     Inl err \<Rightarrow> Inl (EvalOther err)
                   | Inr m \<Rightarrow> Inr (map (\<lambda>item. withFollowUps (summaryAt m (evc_ID item)) item) items))
      | _ \<Rightarrow> Inr items)"

definition enrichEvalCase :: "evalCaseDeps \<Rightarrow> evalCase \<Rightarrow> evalError + evalCase" where
  "enrichEvalCase deps item = map_sum id hd (applyFollowUpSummaries deps [item])"

definition GetEvalCase :: "evalCaseDeps \<Rightarrow> string \<Rightarrow> evalStore \<Rightarrow> evalError + evalCase" where
  "GetEvalCase deps evalCaseID s =
     (case eval_Get evalCaseID s of Inl err \<Rightarrow> Inl err | Inr item \<Rightarrow> enrichEvalCase deps item)"

text \<open>The eval case made from an operator case; a failed trace lookup is ignored.\<close>

definition promotedEvalCase ::
    "evalCaseDeps \<Rightarrow> string \<Rightarrow> time \<Rightarrow> evalCaseInput \<Rightarrow> caseRec \<Rightarrow> evalCase" where
  "promotedEvalCase deps evalCaseID created input source =
     (let item = zeroEvalCase
            \<lparr>evc_ID := evalCaseID, evc_TenantID := eci_TenantID input, evc_SourceCaseID := cs_ID source,
             evc_SourceTaskID := cs_SourceTaskID source, evc_SourceReportID := cs_SourceReportID source,
             evc_Title := cs_Title source,
             evc_Summary := (if cs_Summary source = [] then ''Promoted from case '' @ cs_ID source
                             else cs_Summary source),
             evc_OperatorNote := trimSpace (eci_OperatorNote input),
             evc_CreatedBy := fallbackString (trimSpace (eci_CreatedBy input)) ''operator'',
             evc_CreatedAt := created\<rparr>
      in case evd_Traces deps of
           None \<Rightarrow> item
         | Some look \<Rightarrow>
             (case look \<lparr>li_TaskID = [], li_ReportID = [], li_CaseID = cs_ID source\<rparr> of
                Inl _ \<Rightarrow> item
              | Inr found \<Rightarrow>
                  item\<lparr>evc_SourceTaskID := fallbackString (evc_SourceTaskID item) (ln_TaskID (trc_Lineage found)),
                       evc_SourceReportID := fallbackString (evc_SourceReportID item) (ln_ReportID (trc_Lineage found)),
                       evc_TraceID := trc_TraceID found, evc_VersionID := trc_VersionID found\<rparr>))"

text \<open>
  \<open>others\<close> is what other requests do to the store between the lookup and the save of this one;
  it is the identity where none comes in between.  The two clock readings are arguments.
\<close>

definition promoteNewCase ::
    "evalCaseDeps \<Rightarrow> time \<Rightarrow> time \<Rightarrow> (evalStore \<Rightarrow> evalStore) \<Rightarrow> evalCaseInput \<Rightarrow> caseRec \<Rightarrow> evalState
     \<Rightarrow> (evalError + evalCase \<times> bool) \<times> evalState" where
  "promoteNewCase deps now created others input source st =
     (let n = evl_CaseSeq st + 1;
          item = promotedEvalCase deps (newEvalCaseID now n) created input source;
          (saved, s) = eval_Save item (others (evl_Store st));
          st' = st\<lparr>evl_Store := s, evl_CaseSeq := n\<rparr>
      in case saved of
           Inr x \<Rightarrow> (map_sum id (\<lambda>e. (e, True)) (enrichEvalCase deps x), st')
         | Inl (ErrEvalCaseExists _) \<Rightarrow>
             (case eval_GetBySourceCase (eci_SourceCaseID input) s of
                Inl err \<Rightarrow> (Inl err, st')
              | Inr x \<Rightarrow> (map_sum id (\<lambda>e. (e, False)) (enrichEvalCase deps x), st'))
         | Inl err \<Rightarrow> (Inl err, st'))"

definition PromoteCase ::
    "evalCaseDeps \<Rightarrow> time \<Rightarrow> time \<Rightarrow> (evalStore \<Rightarrow> evalStore) \<Rightarrow> evalCaseInput \<Rightarrow> evalState
     \<Rightarrow> (evalError + evalCase \<times> bool) \<times> evalState" where
  "PromoteCase deps now created others input st =
     (case evd_GetCase deps (eci_SourceCaseID input) of
        Inl err \<Rightarrow> (Inl (EvalOther err), st)
      | Inr source \<Rightarrow>
          if cs_TenantID source \<noteq> eci_TenantID input then (Inl ErrInvalidSource, st)
          else
            case eval_GetBySourceCase (eci_SourceCaseID input) (evl_Store st) of
              Inr existing \<Rightarrow> (map_sum id (\<lambda>e. (e, False)) (enrichEvalCase deps existing), st)
            | Inl (ErrEvalCaseNotFound _) \<Rightarrow> promoteNewCase deps now created others input source st
            | Inl err \<Rightarrow> (Inl err, st))"

subsection \<open>Listing\<close>

text \<open>
  The inner loop over one batch: rows that do not match are passed over, matching rows before
  the offset are counted, the next ones collected; one more matching row ends the search.
\<close>

fun collectFollowUps ::
    "bool \<Rightarrow> int \<Rightarrow> int \<Rightarrow> evalCase list \<Rightarrow> evalCase list \<times> int
     \<Rightarrow> evalCase listPage + (evalCase list \<times> int)" where
  "collectFollowUps wanted offset limit [] acc = Inr acc"
| "collectFollowUps wanted offset limit (item # rest) (page, matchedCount) =
     (if (evc_OpenFollowUpCaseCount item > 0) \<noteq> wanted
      then collectFollowUps wanted offset limit rest (page, matchedCount)
      else if matchedCount < offset
      then collectFollowUps wanted offset limit rest (page, matchedCount + 1)
      else if int (length page) < limit
      then collectFollowUps wanted offset limit rest (page @ [item], matchedCount + 1)
      else Inl \<lparr>pageItems = page, pageHasMore = True,
                pageNextOffset = goInt (offset + int (length page))\<rparr>)"

text \<open>
  The outer loop fetches batches until one has no rows or no successor.  It may run forever where
  the store never says so: a loop that does not return, and one that panics, is \<open>None\<close>.
\<close>

partial_function (option) followUpLoop ::
    "(int \<Rightarrow> evalCase listPage option) \<Rightarrow> (evalCase list \<Rightarrow> evalError + evalCase list)
     \<Rightarrow> bool \<Rightarrow> int \<Rightarrow> int \<Rightarrow> int \<Rightarrow> evalCase list \<times> int \<Rightarrow> (evalError + evalCase listPage) option" where
  "followUpLoop fetch enrich wanted offset limit rawOffset acc =
     Option.bind (fetch rawOffset) (\<lambda>rawPage.
       if pageItems rawPage = []
       then Some (Inr \<lparr>pageItems = fst acc, pageHasMore = False, pageNextOffset = 0\<rparr>)
       else case enrich (pageItems rawPage) of
              Inl err \<Rightarrow> Some (Inl err)
            | Inr enriched \<Rightarrow>
                (case collectFollowUps wanted offset limit enriched acc of
                   Inl page \<Rightarrow> Some (Inr page)
                 | Inr acc' \<Rightarrow>
                     if \<not> pageHasMore rawPage
                     then Some (Inr \<lparr>pageItems = fst acc', pageHasMore = False, pageNextOffset = 0\<rparr>)
                     else followUpLoop fetch enrich wanted offset limit (pageNextOffset rawPage) acc'))"

text \<open>
  The slice of the page is made with the limit as its capacity, which panics beyond \<open>maxCap\<close>, the
  largest one \<open>make\<close> accepts for eval cases.  The map order at each call of the store is that of the
  offset it is called with.
\<close>

definition listEvalCasesWithFollowUpFilter ::
    "int \<Rightarrow> evalCaseDeps \<Rightarrow> (int \<Rightarrow> string list) \<Rightarrow> evalCaseFilter \<Rightarrow> bool \<Rightarrow> evalStore
     \<Rightarrow> (evalError + evalCase listPage) option" where
  "listEvalCasesWithFollowUpFilter maxCap deps order f wanted s =
     (let batchSize = (if ecf_Limit f < 20 then 20 else ecf_Limit f);
          baseFilter = f\<lparr>ecf_NeedsFollowUp := None, ecf_Offset := 0, ecf_Limit := batchSize\<rparr>
      in if ecf_Limit f < 0 \<or> maxCap < ecf_Limit f then None
         else followUpLoop (\<lambda>off. eval_List (order off) (baseFilter\<lparr>ecf_Offset := off\<rparr>) s)
           (applyFollowUpSummaries deps) wanted (ecf_Offset f) (ecf_Limit f) 0 ([], 0))"

definition ListEvalCases ::
    "int \<Rightarrow> evalCaseDeps \<Rightarrow> (int \<Rightarrow> string list) \<Rightarrow> evalCaseFilter \<Rightarrow> evalStore
     \<Rightarrow> (evalError + evalCase listPage) option" where
  "ListEvalCases maxCap deps order f0 s =
     (let f = (if ecf_Limit f0 \<le> 0 then f0\<lparr>ecf_Limit := 20\<rparr> else f0)
      in case ecf_NeedsFollowUp f of
           Some wanted \<Rightarrow> listEvalCasesWithFollowUpFilter maxCap deps order f wanted s
         | None \<Rightarrow>
             Option.bind (eval_List (order (ecf_Offset f)) f s) (\<lambda>page.
               case applyFollowUpSummaries deps (pageItems page) of
                 Inl err \<Rightarrow> Some (Inl err)
               | Inr items \<Rightarrow> Some (Inr (page\<lparr>pageItems := items\<rparr>))))"

subsection \<open>One eval case per source case\<close>

interpretation eval_case_ids: id_source newEvalCaseID sequenceOf
  by unfold_locales (simp add: newEvalCaseID_def)

text \<open>
  The index by source case and the eval cases agree: every entry of the index points at the
  stored eval case of that source, and every stored one is in the index.
\<close>

definition caseIndexOK :: "evalStore \<Rightarrow> bool" where
  "caseIndexOK s \<longleftrightarrow>
     keyedBy evc_ID (est_byID s)
   \<and> (\<forall>src i. est_bySourceCase s src = Some i \<longleftrightarrow> (\<exists>e. est_byID s i = Some e \<and> evc_SourceCaseID e = src))"

lemma caseIndexOK_unique:
  "\<lbrakk>caseIndexOK s; est_byID s (evc_ID a) = Some a; est_byID s (evc_ID b) = Some b;
    evc_SourceCaseID a = evc_SourceCaseID b\<rbrakk> \<Longrightarrow> a = b"
  unfolding caseIndexOK_def by (metis option.inject)

lemma caseIndexOK_new [simp]: "caseIndexOK newMemoryStore"
  by (simp add: caseIndexOK_def newMemoryStore_def)

lemma caseIndexOK_save:
  assumes "caseIndexOK s" "est_byID s (evc_ID item) = None" "est_bySourceCase s (evc_SourceCaseID item) = None"
  shows "caseIndexOK (s\<lparr>est_byID := (est_byID s)(evc_ID item \<mapsto> item),
      est_bySourceCase := (est_bySourceCase s)(evc_SourceCaseID item \<mapsto> evc_ID item)\<rparr>)"
proof -
  have old: "est_bySourceCase s src = Some i \<longleftrightarrow> (\<exists>e. est_byID s i = Some e \<and> evc_SourceCaseID e = src)" for src i
    using assms(1) by (simp add: caseIndexOK_def)
  have "((est_bySourceCase s)(evc_SourceCaseID item \<mapsto> evc_ID item)) src = Some i
      \<longleftrightarrow> (\<exists>e. ((est_byID s)(evc_ID item \<mapsto> item)) i = Some e \<and> evc_SourceCaseID e = src)" for src i
    using old [of src i] old [of src "evc_ID item"] assms(2,3)
    by (cases "i = evc_ID item") (cases "src = evc_SourceCaseID item"; simp)+
  moreover have "keyedBy evc_ID ((est_byID s)(evc_ID item \<mapsto> item))"
    using assms(1) unfolding caseIndexOK_def by (blast intro: keyedBy_upd)
  ultimately show ?thesis unfolding caseIndexOK_def by simp
qed

lemma eval_Save_cases:
  "eval_Save item s =
     (case est_bySourceCase s (evc_SourceCaseID item) of
        Some i \<Rightarrow> if i \<noteq> evc_ID item then (Inl (ErrEvalCaseExists (evc_SourceCaseID item)), s)
                 else (Inr item, s\<lparr>est_byID := (est_byID s)(evc_ID item \<mapsto> item),
                   est_bySourceCase := (est_bySourceCase s)(evc_SourceCaseID item \<mapsto> evc_ID item)\<rparr>)
      | None \<Rightarrow> (Inr item, s\<lparr>est_byID := (est_byID s)(evc_ID item \<mapsto> item),
                   est_bySourceCase := (est_bySourceCase s)(evc_SourceCaseID item \<mapsto> evc_ID item)\<rparr>))"
  by (simp add: eval_Save_def split: option.split)

text \<open>An eval case as it is shown: the stored record with counts of its follow-up cases.\<close>

definition shownAs :: "evalCase \<Rightarrow> evalCase \<Rightarrow> bool" where
  "shownAs x e \<longleftrightarrow> e = x \<or> (\<exists>summary. e = withFollowUps summary x)"

lemma shownAs_refl [simp]: "shownAs x x"
  unfolding shownAs_def by (rule disjI1) (rule refl)

lemma shownAs_with [simp]: "shownAs x (withFollowUps summary x)"
  unfolding shownAs_def by (rule disjI2) (rule exI, rule refl)

lemma shownAs_fields [simp]:
  "shownAs x e \<Longrightarrow> evc_ID e = evc_ID x" "shownAs x e \<Longrightarrow> evc_SourceCaseID e = evc_SourceCaseID x"
  "shownAs x e \<Longrightarrow> evc_TenantID e = evc_TenantID x"
  by (auto simp: shownAs_def withFollowUps_def)

lemma enrichEvalCase_eq:
  "enrichEvalCase deps x =
     (case evd_Summaries deps of
        None \<Rightarrow> Inr x
      | Some summarize \<Rightarrow>
          if evc_ID x = [] then Inr x
          else case summarize (evc_TenantID x) [evc_ID x] of
                 Inl err \<Rightarrow> Inl (EvalOther err)
               | Inr m \<Rightarrow> Inr (withFollowUps (summaryAt m (evc_ID x)) x))"
  by (cases "evd_Summaries deps") (simp_all add: enrichEvalCase_def applyFollowUpSummaries_def split: sum.split)

lemma enrichEvalCase_shown: "enrichEvalCase deps x = Inr e \<Longrightarrow> shownAs x e"
  by (auto simp: enrichEvalCase_eq split: option.splits sum.splits if_splits)

lemma promotedEvalCase_fields [simp]:
  "evc_ID (promotedEvalCase deps i created input source) = i"
  "evc_SourceCaseID (promotedEvalCase deps i created input source) = cs_ID source"
  "evc_TenantID (promotedEvalCase deps i created input source) = eci_TenantID input"
  by (simp_all add: promotedEvalCase_def Let_def split: option.split sum.split)

lemma indexed_lookup:
  assumes "caseIndexOK s" "est_bySourceCase s src = Some i"
  shows "\<exists>x. est_byID s i = Some x \<and> evc_ID x = i \<and> evc_SourceCaseID x = src \<and> eval_GetBySourceCase src s = Inr x"
proof -
  obtain x where "est_byID s i = Some x" "evc_SourceCaseID x = src"
    using assms unfolding caseIndexOK_def by blast
  moreover have "evc_ID x = i" using assms(1) calculation(1) keyedByD unfolding caseIndexOK_def by metis
  ultimately show ?thesis using assms(2) by (simp add: eval_GetBySourceCase_def)
qed

text \<open>
  What a promotion that succeeds has done to the store \<open>s0\<close> it acted on: it either found the
  eval case of the source or added the one it returns, and nothing else.
\<close>

definition promotedFrom :: "evalCaseInput \<Rightarrow> evalStore \<Rightarrow> evalCase \<Rightarrow> bool \<Rightarrow> evalStore \<Rightarrow> bool" where
  "promotedFrom input s0 e new s \<longleftrightarrow>
     (\<exists>x. est_byID s (evc_ID e) = Some x \<and> shownAs x e \<and> evc_SourceCaseID x = eci_SourceCaseID input
      \<and> est_bySourceCase s (eci_SourceCaseID input) = Some (evc_ID e)
      \<and> (if new then est_bySourceCase s0 (eci_SourceCaseID input) = None \<and> evc_TenantID x = eci_TenantID input
              \<and> s = s0\<lparr>est_byID := (est_byID s0)(evc_ID e \<mapsto> x),
                       est_bySourceCase := (est_bySourceCase s0)(eci_SourceCaseID input \<mapsto> evc_ID e)\<rparr>
         else s = s0))"

lemma promotedFrom_existing:
  assumes "caseIndexOK s" "est_bySourceCase s (eci_SourceCaseID input) = Some i"
    and "eval_GetBySourceCase (eci_SourceCaseID input) s = Inr x" "enrichEvalCase deps x = Inr e"
  shows "promotedFrom input s e False s"
proof -
  obtain y where y: "est_byID s i = Some y" "evc_ID y = i" "evc_SourceCaseID y = eci_SourceCaseID input"
      "eval_GetBySourceCase (eci_SourceCaseID input) s = Inr y"
    using indexed_lookup [OF assms(1,2)] by blast
  then have "x = y" using assms(3) by simp
  then show ?thesis using y assms(2) enrichEvalCase_shown [OF assms(4)] by (auto simp: promotedFrom_def)
qed

lemma promoteNewCase_correct:
  assumes "caseIndexOK (others (evl_Store st))" "cs_ID source = eci_SourceCaseID input"
    and "newEvalCaseID now (evl_CaseSeq st + 1) \<notin> dom (est_byID (others (evl_Store st)))"
    and "promoteNewCase deps now created others input source st = (Inr (e, new), st')"
  shows "caseIndexOK (evl_Store st') \<and> promotedFrom input (others (evl_Store st)) e new (evl_Store st')"
proof -
  let ?s = "others (evl_Store st)"
  let ?i = "newEvalCaseID now (evl_CaseSeq st + 1)"
  let ?item = "promotedEvalCase deps ?i created input source"
  show ?thesis
  proof (cases "est_bySourceCase ?s (eci_SourceCaseID input)")
    case None
    let ?t = "?s\<lparr>est_byID := (est_byID ?s)(?i \<mapsto> ?item),
        est_bySourceCase := (est_bySourceCase ?s)(eci_SourceCaseID input \<mapsto> ?i)\<rparr>"
    have "eval_Save ?item ?s = (Inr ?item, ?t)" using None assms(2) by (simp add: eval_Save_cases)
    then have r: "enrichEvalCase deps ?item = Inr e" "new" "evl_Store st' = ?t"
      using assms(4) by (auto simp: promoteNewCase_def Let_def map_sum_def split: sum.splits)
    have "caseIndexOK ?t"
      using caseIndexOK_save [OF assms(1), of ?item] assms(2,3) None by (auto simp: domIff)
    moreover have "promotedFrom input ?s e True ?t"
      using enrichEvalCase_shown [OF r(1)] None assms(2) by (auto simp: promotedFrom_def)
    ultimately show ?thesis using r by simp
  next
    case (Some i)
    obtain x where x: "est_byID ?s i = Some x" "eval_GetBySourceCase (eci_SourceCaseID input) ?s = Inr x"
      using indexed_lookup [OF assms(1) Some] by blast
    then have "i \<noteq> ?i" using assms(3) by auto
    then have "eval_Save ?item ?s = (Inl (ErrEvalCaseExists (eci_SourceCaseID input)), ?s)"
      using Some assms(2) by (simp add: eval_Save_cases)
    then have r: "enrichEvalCase deps x = Inr e" "\<not> new" "evl_Store st' = ?s"
      using assms(4) x(2) by (auto simp: promoteNewCase_def Let_def map_sum_def split: sum.splits)
    show ?thesis using promotedFrom_existing [OF assms(1) Some x(2) r(1)] r assms(1) by simp
  qed
qed

text \<open>
  Promoting a case keeps the index of the eval cases intact, so that a source case has one eval
  case at most, and returns that one.  It is made by this request only if no request before it,
  nor any that came between its lookup and its save, had made one.
\<close>

theorem PromoteCase_once:
  assumes "caseIndexOK (evl_Store st)" "caseIndexOK (others (evl_Store st))"
    and "newEvalCaseID now (evl_CaseSeq st + 1) \<notin> dom (est_byID (others (evl_Store st)))"
    and "evd_GetCase deps (eci_SourceCaseID input) = Inr source" "cs_ID source = eci_SourceCaseID input"
    and "PromoteCase deps now created others input st = (Inr (e, new), st')"
  shows "caseIndexOK (evl_Store st') \<and> cs_TenantID source = eci_TenantID input
    \<and> promotedFrom input
         (if est_bySourceCase (evl_Store st) (eci_SourceCaseID input) = None
          then others (evl_Store st) else evl_Store st) e new (evl_Store st')"
proof (cases "est_bySourceCase (evl_Store st) (eci_SourceCaseID input)")
  case None
  then have "eval_GetBySourceCase (eci_SourceCaseID input) (evl_Store st)
      = Inl (ErrEvalCaseNotFound (Some (eci_SourceCaseID input)))" by (simp add: eval_GetBySourceCase_def)
  then have "cs_TenantID source = eci_TenantID input"
      "promoteNewCase deps now created others input source st = (Inr (e, new), st')"
    using assms(4,6) by (auto simp: PromoteCase_def split: if_splits)
  with None promoteNewCase_correct [where others = others and st = st, OF assms(2,5,3)] show ?thesis by simp
next
  case (Some i)
  obtain x where x: "eval_GetBySourceCase (eci_SourceCaseID input) (evl_Store st) = Inr x"
    using indexed_lookup [OF assms(1) Some] by blast
  then have r: "cs_TenantID source = eci_TenantID input" "enrichEvalCase deps x = Inr e" "\<not> new" "st' = st"
    using assms(4,6) by (auto simp: PromoteCase_def map_sum_def split: if_splits sum.splits)
  show ?thesis using promotedFrom_existing [OF assms(1) Some x r(2)] r assms(1) Some by simp
qed

end
