(* ===== verification/Eval_Services.thy ===== *)
theory Eval_Services
  imports Eval_Cases Chat
begin

text \<open>
  Datasets, runs and judges: \<open>eval/dataset_service.go\<close>, \<open>eval/run_service.go\<close>, \<open>eval/judge.go\<close> and
  \<open>eval/judge_provider_http.go\<close>.

  A service call is several store calls; where another request can come in between them, its
  effect on the store is the argument \<open>others\<close>.  Encoding and decoding JSON, the HTTP transport
  and the search for the prompt file are parameters.  The judge and the clock act on a world \<open>'w\<close>.
\<close>

subsection \<open>Error texts\<close>

definition evalErrorText :: "evalError \<Rightarrow> string" where
  "evalErrorText err =
     (let detail = (\<lambda>text i. text @ (case i of None \<Rightarrow> [] | Some x \<Rightarrow> '': '' @ x)) in
      case err of
        ErrEvalCaseNotFound i \<Rightarrow> detail ''eval case not found'' i
      | ErrInvalidSource \<Rightarrow> ''invalid eval source''
      | ErrEvalCaseExists i \<Rightarrow> detail ''eval case already exists'' (Some i)
      | ErrEvalDatasetNotFound i \<Rightarrow> detail ''eval dataset not found'' i
      | ErrInvalidEvalDataset \<Rightarrow> ''invalid eval dataset''
      | ErrInvalidEvalDatasetState \<Rightarrow> ''invalid eval dataset state''
      | ErrEvalRunNotFound i \<Rightarrow> detail ''eval run not found'' (Some i)
      | ErrInvalidEvalRunState \<Rightarrow> ''invalid eval run state''
      | ErrEvalReportNotFound i \<Rightarrow> detail ''eval report not found'' (Some i)
      | EvalOther text \<Rightarrow> text)"

subsection \<open>Datasets\<close>

record datasetInput =
  cdi_TenantID :: string
  cdi_Name :: string
  cdi_Description :: string
  cdi_EvalCaseIDs :: "string list"
  cdi_CreatedBy :: string

record addItemInput =
  adi_TenantID :: string
  adi_EvalCaseID :: string

record publishInput =
  pbi_TenantID :: string
  pbi_PublishedBy :: string

definition newEvalDatasetID :: "time \<Rightarrow> u64 \<Rightarrow> string" where
  "newEvalDatasetID now n = sequencedID ''eval-dataset-'' now n"

definition datasetItemOf :: "evalCase \<Rightarrow> datasetItem" where
  "datasetItemOf item =
     \<lparr>edi_EvalCaseID = evc_ID item, edi_Title = evc_Title item, edi_SourceCaseID = evc_SourceCaseID item,
      edi_SourceTaskID = evc_SourceTaskID item, edi_SourceReportID = evc_SourceReportID item,
      edi_TraceID = evc_TraceID item, edi_VersionID = evc_VersionID item\<rparr>"

text \<open>The loop over the requested identifiers, with the trimmed ones already seen.\<close>

fun datasetItemsFor ::
    "(string \<Rightarrow> evalError + evalCase) \<Rightarrow> string \<Rightarrow> string list \<Rightarrow> string list \<Rightarrow> evalError + datasetItem list" where
  "datasetItemsFor getCase tenantID seen [] = Inr []"
| "datasetItemsFor getCase tenantID seen (evalCaseID # rest) =
     (let trimmed = trimSpace evalCaseID in
      if trimmed = [] then Inl ErrInvalidEvalDataset
      else if trimmed \<in> set seen then Inl ErrInvalidEvalDataset
      else case getCase trimmed of
             Inl err \<Rightarrow> Inl err
           | Inr item \<Rightarrow>
               if evc_TenantID item \<noteq> tenantID then Inl ErrInvalidEvalDataset
               else map_sum id (\<lambda>items. datasetItemOf item # items)
                      (datasetItemsFor getCase tenantID (trimmed # seen) rest))"

definition CreateDataset ::
    "(string \<Rightarrow> evalError + evalCase) \<Rightarrow> time \<Rightarrow> datasetInput \<Rightarrow> evalState
     \<Rightarrow> (evalError + evalDataset) \<times> evalState" where
  "CreateDataset getCase now input st =
     (if trimSpace (cdi_TenantID input) = [] \<or> cdi_EvalCaseIDs input = [] then (Inl ErrInvalidEvalDataset, st)
      else case datasetItemsFor getCase (cdi_TenantID input) [] (cdi_EvalCaseIDs input) of
             Inl err \<Rightarrow> (Inl err, st)
           | Inr items \<Rightarrow>
               let n = evl_DatasetSeq st + 1;
                   name = fallbackString (trimSpace (cdi_Name input))
                     (''Dataset seeded from '' @ edi_EvalCaseID (hd items));
                   (created, s) = eval_CreateDataset
                     \<lparr>eds_ID = newEvalDatasetID now n, eds_TenantID = cdi_TenantID input, eds_Name = name,
                      eds_Description = trimSpace (cdi_Description input), eds_Status = DatasetStatusDraft,
                      eds_CreatedBy = fallbackString (trimSpace (cdi_CreatedBy input)) ''operator'',
                      eds_CreatedAt = now, eds_UpdatedAt = now, eds_PublishedBy = [],
                      eds_PublishedAt = zeroTime, eds_Items = items\<rparr> (evl_Store st)
               in (Inr created, st\<lparr>evl_Store := s, evl_DatasetSeq := n\<rparr>))"

definition ListDatasets ::
    "string list \<Rightarrow> datasetFilter \<Rightarrow> evalStore \<Rightarrow> datasetSummary listPage option" where
  "ListDatasets ks f s = eval_ListDatasets ks (if dsf_Limit f \<le> 0 then f\<lparr>dsf_Limit := 20\<rparr> else f) s"

definition AddDatasetItem ::
    "(string \<Rightarrow> evalError + evalCase) \<Rightarrow> time \<Rightarrow> (evalStore \<Rightarrow> evalStore) \<Rightarrow> string \<Rightarrow> addItemInput
     \<Rightarrow> evalStore \<Rightarrow> (evalError + evalDataset) \<times> evalStore" where
  "AddDatasetItem getCase now others datasetID input s =
     (if trimSpace (adi_TenantID input) = [] \<or> trimSpace (adi_EvalCaseID input) = []
      then (Inl ErrInvalidEvalDataset, s)
      else case eval_GetDataset datasetID s of
             Inl err \<Rightarrow> (Inl err, s)
           | Inr dataset \<Rightarrow>
               if eds_TenantID dataset \<noteq> trimSpace (adi_TenantID input)
               then (Inl (ErrEvalDatasetNotFound None), s)
               else if eds_Status dataset \<noteq> DatasetStatusDraft then (Inl ErrInvalidEvalDatasetState, s)
               else case getCase (trimSpace (adi_EvalCaseID input)) of
                      Inl err \<Rightarrow> (Inl err, s)
                    | Inr item \<Rightarrow>
                        if evc_TenantID item \<noteq> eds_TenantID dataset
                        then (Inl (ErrEvalCaseNotFound None), s)
                        else if \<exists>member \<in> set (eds_Items dataset). edi_EvalCaseID member = evc_ID item
                        then (Inr dataset, s)
                        else eval_AddDatasetItem (eds_ID dataset) (datasetItemOf item) now (others s))"

definition PublishDataset ::
    "time \<Rightarrow> (evalStore \<Rightarrow> evalStore) \<Rightarrow> string \<Rightarrow> publishInput \<Rightarrow> evalStore
     \<Rightarrow> (evalError + evalDataset) \<times> evalStore" where
  "PublishDataset now others datasetID input s =
     (if trimSpace (pbi_TenantID input) = [] then (Inl ErrInvalidEvalDataset, s)
      else case eval_GetDataset datasetID s of
             Inl err \<Rightarrow> (Inl err, s)
           | Inr dataset \<Rightarrow>
               if eds_TenantID dataset \<noteq> trimSpace (pbi_TenantID input)
               then (Inl (ErrEvalDatasetNotFound None), s)
               else if eds_Status dataset \<noteq> DatasetStatusDraft then (Inl ErrInvalidEvalDatasetState, s)
               else eval_PublishDataset (eds_ID dataset)
                      (fallbackString (trimSpace (pbi_PublishedBy input)) ''operator'') now (others s))"

subsection \<open>Judges\<close>

text \<open>The values that the evaluation code hands to the JSON encoder.\<close>

datatype jsonValue =
    JText string
  | JInt int
  | JReal real
  | JTexts "string list"
  | JRaw string
  | JCounts runSummary

type_synonym jsonEncoder = "(string \<times> jsonValue) list \<Rightarrow> string option"

record 'w judge =
  jdg_Build :: "runItem list \<Rightarrow> string \<Rightarrow> string \<Rightarrow> time \<Rightarrow> 'w \<Rightarrow> (string + itemResult list) \<times> 'w"
  jdg_Version :: string
  jdg_PromptPath :: string

definition PlaceholderJudgePromptPath :: string where
  "PlaceholderJudgePromptPath = ''eval/prompts/placeholder-eval-judge-v1.md''"

definition placeholderJudgeOutput :: "jsonEncoder \<Rightarrow> string \<Rightarrow> real \<Rightarrow> string \<Rightarrow> string" where
  "placeholderJudgeOutput encode verdict score rationale =
     (case encode [(''judge_kind'', JText PlaceholderJudgeKind), (''judge_version'', JText PlaceholderJudgeVersion),
                   (''judge_prompt_path'', JText PlaceholderJudgePromptPath), (''verdict'', JText verdict),
                   (''score'', JReal score), (''rationale'', JText rationale)] of
        None \<Rightarrow> ''{}'' | Some payload \<Rightarrow> payload)"

definition placeholderItemResult ::
    "jsonEncoder \<Rightarrow> string \<Rightarrow> string \<Rightarrow> string \<Rightarrow> time \<Rightarrow> itemResult" where
  "placeholderItemResult encode evalCaseID status detail updatedAt =
     (let verdict = (if status = RunItemResultSucceeded then RunItemVerdictPass else RunItemVerdictFail);
          score = (if status = RunItemResultSucceeded then 1 else 0)
      in \<lparr>irs_EvalCaseID = evalCaseID, irs_Status = status, irs_Verdict = verdict, irs_Detail = detail,
          irs_Score = score, irs_JudgeVersion = PlaceholderJudgeVersion,
          irs_JudgeOutput = placeholderJudgeOutput encode verdict score detail, irs_UpdatedAt = updatedAt\<rparr>)"

definition PlaceholderJudge :: "jsonEncoder \<Rightarrow> 'w judge" where
  "PlaceholderJudge encode =
     \<lparr>jdg_Build = (\<lambda>items status detail updatedAt w.
        (Inr (map (\<lambda>item. placeholderItemResult encode (rit_EvalCaseID item) status detail updatedAt) items), w)),
      jdg_Version = PlaceholderJudgeVersion, jdg_PromptPath = PlaceholderJudgePromptPath\<rparr>"

subsubsection \<open>The HTTP judge\<close>

abbreviation (input) "HTTPJSONJudgeKind \<equiv> ''http_json''"
abbreviation (input) "PlaceholderJudgeProvider \<equiv> ''placeholder''"

record judgeOptions =
  jop_Provider :: string
  jop_BaseURL :: string
  jop_APIKey :: string
  jop_Model :: string
  jop_PromptPath :: string

record httpJudge =
  hjd_baseURL :: string
  hjd_apiKey :: string
  hjd_model :: string
  hjd_promptPath :: string

record judgeRequest =
  jrq_Model :: string
  jrq_PromptPath :: string
  jrq_Prompt :: string
  jrq_RunStatus :: string
  jrq_RunDetail :: string
  jrq_Item :: runItem

record judgeDecision =
  jdc_Verdict :: string
  jdc_Score :: real
  jdc_Rationale :: string

record judgeCall =
  jcl_URL :: string
  jcl_Headers :: "(string \<times> string) list"
  jcl_Body :: string

text \<open>
  What the judge uses of packages outside the repository: the transport returns an error or the
  status with the outcome of reading the body.
\<close>

record 'w judgeIO =
  jio_ReadPrompt :: "string \<Rightarrow> string + string"
  jio_EncodeRequest :: "judgeRequest \<Rightarrow> string + string"
  jio_NewRequest :: "string \<Rightarrow> string option"
  jio_Do :: "judgeCall \<Rightarrow> 'w \<Rightarrow> (string + int \<times> (string + string)) \<times> 'w"
  jio_Decode :: "string \<Rightarrow> string + judgeDecision"
  jio_Encode :: jsonEncoder

definition trimRightSlashes :: "string \<Rightarrow> string" where
  "trimRightSlashes s = rev (dropWhile (\<lambda>c. c = CHR ''/'') (rev s))"

text \<open>\<open>path.Base\<close> and \<open>path.Ext\<close>.\<close>

definition pathBase :: "string \<Rightarrow> string" where
  "pathBase p =
     (if p = [] then ''.''
      else let q = trimRightSlashes p
           in if q = [] then ''/'' else rev (takeWhile (\<lambda>c. c \<noteq> CHR ''/'') (rev q)))"

definition pathExt :: "string \<Rightarrow> string" where
  "pathExt p =
     (let name = rev (takeWhile (\<lambda>c. c \<noteq> CHR ''/'') (rev p))
      in case lastIndexOf name ''.'' of None \<Rightarrow> [] | Some i \<Rightarrow> drop i name)"

definition NewHTTPJSONJudge :: "judgeOptions \<Rightarrow> httpJudge" where
  "NewHTTPJSONJudge options =
     \<lparr>hjd_baseURL = trimRightSlashes (trimSpace (jop_BaseURL options)),
      hjd_apiKey = trimSpace (jop_APIKey options), hjd_model = trimSpace (jop_Model options),
      hjd_promptPath = fallbackString (trimSpace (jop_PromptPath options)) PlaceholderJudgePromptPath\<rparr>"

definition httpJudgeVersion :: "httpJudge \<Rightarrow> string" where
  "httpJudgeVersion j =
     HTTPJSONJudgeKind @ ''/'' @ fallbackString (hjd_model j) ''default-model'' @ ''/''
     @ trimSuffix (pathBase (hjd_promptPath j)) (pathExt (hjd_promptPath j))"

definition checkDecision :: "judgeDecision \<Rightarrow> string option" where
  "checkDecision decision =
     (if jdc_Verdict decision \<noteq> RunItemVerdictPass \<and> jdc_Verdict decision \<noteq> RunItemVerdictFail
      then Some (''invalid verdict '' @ goQuote (jdc_Verdict decision))
      else if jdc_Rationale decision = [] then Some ''missing rationale'' else None)"

definition evaluateItem ::
    "'w judgeIO \<Rightarrow> httpJudge \<Rightarrow> string \<Rightarrow> runItem \<Rightarrow> string \<Rightarrow> string \<Rightarrow> 'w
     \<Rightarrow> (string + judgeDecision \<times> string) \<times> 'w" where
  "evaluateItem io j prompt item status detail w =
     (case jio_EncodeRequest io
             \<lparr>jrq_Model = hjd_model j, jrq_PromptPath = hjd_promptPath j, jrq_Prompt = prompt,
              jrq_RunStatus = status, jrq_RunDetail = detail, jrq_Item = item\<rparr> of
        Inl err \<Rightarrow> (Inl (''marshal request: '' @ err), w)
      | Inr payload \<Rightarrow>
          (let url = hjd_baseURL j @ ''/judge'' in
           case jio_NewRequest io url of
             Some err \<Rightarrow> (Inl (''build request: '' @ err), w)
           | None \<Rightarrow>
               (let headers = (''Content-Type'', ''application/json'')
                      # (if hjd_apiKey j \<noteq> [] then [(''Authorization'', ''Bearer '' @ hjd_apiKey j)] else []);
                    (response, w') = jio_Do io \<lparr>jcl_URL = url, jcl_Headers = headers, jcl_Body = payload\<rparr> w
                in case response of
                     Inl err \<Rightarrow> (Inl (''request provider: '' @ err), w')
                   | Inr (_, Inl err) \<Rightarrow> (Inl (''read provider response: '' @ err), w')
                   | Inr (code, Inr body) \<Rightarrow>
                       if code < 200 \<or> 300 \<le> code
                       then (Inl (''provider status '' @ showInt code @ '': '' @ trimSpace body), w')
                       else case jio_Decode io body of
                              Inl err \<Rightarrow> (Inl (''decode provider response: '' @ err), w')
                            | Inr decision \<Rightarrow>
                                (case checkDecision decision of
                                   Some err \<Rightarrow> (Inl err, w')
                                 | None \<Rightarrow> (Inr (decision, body), w')))))"

definition httpJudgeOutput :: "jsonEncoder \<Rightarrow> httpJudge \<Rightarrow> judgeDecision \<Rightarrow> string \<Rightarrow> string" where
  "httpJudgeOutput encode j decision rawResponse =
     (case encode [(''judge_kind'', JText HTTPJSONJudgeKind), (''judge_version'', JText (httpJudgeVersion j)),
                   (''judge_prompt_path'', JText (hjd_promptPath j)), (''verdict'', JText (jdc_Verdict decision)),
                   (''score'', JReal (jdc_Score decision)), (''rationale'', JText (jdc_Rationale decision)),
                   (''provider_response'', JRaw rawResponse)] of
        None \<Rightarrow> ''{}'' | Some payload \<Rightarrow> payload)"

definition judgedResult ::
    "'w judgeIO \<Rightarrow> httpJudge \<Rightarrow> runItem \<Rightarrow> string \<Rightarrow> judgeDecision \<times> string \<Rightarrow> time \<Rightarrow> itemResult" where
  "judgedResult io j item status judged updatedAt =
     \<lparr>irs_EvalCaseID = rit_EvalCaseID item, irs_Status = status, irs_Verdict = jdc_Verdict (fst judged),
      irs_Detail = jdc_Rationale (fst judged), irs_Score = jdc_Score (fst judged),
      irs_JudgeVersion = httpJudgeVersion j,
      irs_JudgeOutput = httpJudgeOutput (jio_Encode io) j (fst judged) (snd judged), irs_UpdatedAt = updatedAt\<rparr>"

fun judgeItems ::
    "'w judgeIO \<Rightarrow> httpJudge \<Rightarrow> string \<Rightarrow> runItem list \<Rightarrow> string \<Rightarrow> string \<Rightarrow> time \<Rightarrow> 'w
     \<Rightarrow> (string + itemResult list) \<times> 'w" where
  "judgeItems io j prompt [] status detail updatedAt w = (Inr [], w)"
| "judgeItems io j prompt (item # rest) status detail updatedAt w =
     (case evaluateItem io j prompt item status detail w of
        (Inl err, w1) \<Rightarrow> (Inl (''evaluate item '' @ rit_EvalCaseID item @ '': '' @ err), w1)
      | (Inr judged, w1) \<Rightarrow>
          (case judgeItems io j prompt rest status detail updatedAt w1 of
             (Inl err, w2) \<Rightarrow> (Inl err, w2)
           | (Inr results, w2) \<Rightarrow> (Inr (judgedResult io j item status judged updatedAt # results), w2)))"

definition HTTPJSONJudge :: "'w judgeIO \<Rightarrow> httpJudge \<Rightarrow> 'w judge" where
  "HTTPJSONJudge io j =
     \<lparr>jdg_Build = (\<lambda>items status detail updatedAt w.
        case jio_ReadPrompt io (hjd_promptPath j) of
          Inl err \<Rightarrow> (Inl (''read judge prompt artifact: '' @ err), w)
        | Inr prompt \<Rightarrow> judgeItems io j prompt items status detail updatedAt w),
      jdg_Version = httpJudgeVersion j, jdg_PromptPath = hjd_promptPath j\<rparr>"

definition NewConfiguredJudge :: "'w judgeIO \<Rightarrow> judgeOptions \<Rightarrow> string + 'w judge" where
  "NewConfiguredJudge io options =
     (let provider = trimSpace (jop_Provider options) in
      if provider = [] \<or> provider = PlaceholderJudgeProvider then Inr (PlaceholderJudge (jio_Encode io))
      else if provider = HTTPJSONJudgeKind
      then if trimSpace (jop_BaseURL options) = [] then Inl ''http_json judge requires base URL''
           else if trimSpace (jop_Model options) = [] then Inl ''http_json judge requires model''
           else Inr (HTTPJSONJudge io (NewHTTPJSONJudge (options\<lparr>jop_PromptPath :=
                  fallbackString (trimSpace (jop_PromptPath options)) PlaceholderJudgePromptPath\<rparr>)))
      else Inl (''unsupported eval judge provider '' @ goQuote (jop_Provider options)))"

subsection \<open>Runs\<close>

record runInput =
  cri_TenantID :: string
  cri_DatasetID :: string
  cri_CreatedBy :: string

record 'w runService =
  rsn_Judge :: "'w judge"
  rsn_Fallback :: "'w judge"
  rsn_Now :: "'w \<Rightarrow> time \<times> 'w"

definition newEvalRunID :: "time \<Rightarrow> u64 \<Rightarrow> string" where
  "newEvalRunID now n = sequencedID ''eval-run-'' now n"

definition runItemOf :: "datasetItem \<Rightarrow> runItem" where
  "runItemOf item =
     \<lparr>rit_EvalCaseID = edi_EvalCaseID item, rit_Title = edi_Title item, rit_SourceCaseID = edi_SourceCaseID item,
      rit_SourceTaskID = edi_SourceTaskID item, rit_SourceReportID = edi_SourceReportID item,
      rit_TraceID = edi_TraceID item, rit_VersionID = edi_VersionID item\<rparr>"

definition CreateRun ::
    "(string \<Rightarrow> evalError + evalDataset) \<Rightarrow> time \<Rightarrow> runInput \<Rightarrow> evalState \<Rightarrow> (evalError + evalRun) \<times> evalState" where
  "CreateRun getDataset now input st =
     (if trimSpace (cri_TenantID input) = [] \<or> trimSpace (cri_DatasetID input) = []
      then (Inl ErrInvalidEvalDataset, st)
      else case getDataset (trimSpace (cri_DatasetID input)) of
             Inl err \<Rightarrow> (Inl err, st)
           | Inr dataset \<Rightarrow>
               if eds_TenantID dataset \<noteq> trimSpace (cri_TenantID input)
               then (Inl (ErrEvalDatasetNotFound None), st)
               else if eds_Status dataset \<noteq> DatasetStatusPublished then (Inl ErrInvalidEvalDatasetState, st)
               else
                 let n = evl_RunSeq st + 1;
                     (created, s) = eval_CreateRun
                       \<lparr>run_ID = newEvalRunID now n, run_TenantID = eds_TenantID dataset,
                        run_DatasetID = eds_ID dataset, run_DatasetName = eds_Name dataset,
                        run_DatasetItemCount = int (length (eds_Items dataset)), run_ResultSummary = None,
                        run_Status = RunStatusQueued,
                        run_CreatedBy = fallbackString (trimSpace (cri_CreatedBy input)) ''operator'',
                        run_ErrorReason = [], run_CreatedAt = now, run_UpdatedAt = now,
                        run_StartedAt = zeroTime, run_FinishedAt = zeroTime\<rparr>
                       (map runItemOf (eds_Items dataset)) (evl_Store st)
                 in (Inr created, st\<lparr>evl_Store := s, evl_RunSeq := n\<rparr>))"

definition ListRuns :: "string list \<Rightarrow> runFilter \<Rightarrow> evalStore \<Rightarrow> evalRun listPage option" where
  "ListRuns ks f s = eval_ListRuns ks (if rnf_Limit f \<le> 0 then f\<lparr>rnf_Limit := 20\<rparr> else f) s"

definition ClaimQueuedRuns ::
    "'w runService \<Rightarrow> string list \<Rightarrow> int \<Rightarrow> evalStore \<Rightarrow> 'w \<Rightarrow> (evalRun list \<times> evalStore \<times> 'w) option" where
  "ClaimQueuedRuns svc ks limit s w =
     (let (now, w') = rsn_Now svc w
      in map_option (\<lambda>(runs, s'). (runs, s', w'))
           (eval_ClaimQueuedRuns ks (if limit \<le> 0 then 10 else limit) now s))"

definition MarkRunSucceeded ::
    "'w runService \<Rightarrow> string \<Rightarrow> evalStore \<Rightarrow> 'w \<Rightarrow> (evalError + evalRun) \<times> evalStore \<times> 'w" where
  "MarkRunSucceeded svc runID s w =
     (case eval_GetRunDetail runID s of
        Inl err \<Rightarrow> (Inl err, s, w)
      | Inr detail \<Rightarrow>
          (let (finishedAt, w1) = rsn_Now svc w in
           case jdg_Build (rsn_Judge svc) (rdt_Items detail) RunItemResultSucceeded ''placeholder eval passed'' finishedAt w1 of
             (Inl err, w2) \<Rightarrow> (Inl (EvalOther (''build succeeded item results: '' @ err)), s, w2)
           | (Inr results, w2) \<Rightarrow>
               (let (r, s') = eval_MarkRunSucceeded runID finishedAt results s in (r, s', w2))))"

text \<open>The two ways to fail a run differ in the judge and the error text.\<close>

definition failRunWith ::
    "'w judge \<Rightarrow> string \<Rightarrow> 'w runService \<Rightarrow> string \<Rightarrow> string \<Rightarrow> evalStore \<Rightarrow> 'w
     \<Rightarrow> (evalError + evalRun) \<times> evalStore \<times> 'w" where
  "failRunWith judge context svc runID reason s w =
     (case eval_GetRunDetail runID s of
        Inl err \<Rightarrow> (Inl err, s, w)
      | Inr detail \<Rightarrow>
          (let summarized = trimSpace reason;
               (finishedAt, w1) = rsn_Now svc w
           in case jdg_Build judge (rdt_Items detail) RunItemResultFailed summarized finishedAt w1 of
                (Inl err, w2) \<Rightarrow> (Inl (EvalOther (context @ err)), s, w2)
              | (Inr results, w2) \<Rightarrow>
                  (let (r, s') = eval_MarkRunFailed runID summarized finishedAt results s in (r, s', w2))))"

definition MarkRunFailed ::
    "'w runService \<Rightarrow> string \<Rightarrow> string \<Rightarrow> evalStore \<Rightarrow> 'w \<Rightarrow> (evalError + evalRun) \<times> evalStore \<times> 'w" where
  "MarkRunFailed svc = failRunWith (rsn_Judge svc) ''build failed item results: '' svc"

definition MarkRunFailedWithFallback ::
    "'w runService \<Rightarrow> string \<Rightarrow> string \<Rightarrow> evalStore \<Rightarrow> 'w \<Rightarrow> (evalError + evalRun) \<times> evalStore \<times> 'w" where
  "MarkRunFailedWithFallback svc =
     failRunWith (rsn_Fallback svc) ''build fallback failed item results: '' svc"

definition RetryRun ::
    "'w runService \<Rightarrow> string \<Rightarrow> evalStore \<Rightarrow> 'w \<Rightarrow> (evalError + evalRun) \<times> evalStore \<times> 'w" where
  "RetryRun svc runID s w =
     (let (now, w') = rsn_Now svc w; (r, s') = eval_RetryRun runID now s in (r, s', w'))"

definition NewRunService :: "jsonEncoder \<Rightarrow> ('w \<Rightarrow> time \<times> 'w) \<Rightarrow> 'w judge option \<Rightarrow> 'w runService" where
  "NewRunService encode now judge =
     \<lparr>rsn_Judge = (case judge of None \<Rightarrow> PlaceholderJudge encode | Some j \<Rightarrow> j),
      rsn_Fallback = PlaceholderJudge encode, rsn_Now = now\<rparr>"

subsection \<open>The interfaces\<close>

interpretation dataset_ids: id_source newEvalDatasetID sequenceOf
  by unfold_locales (simp add: newEvalDatasetID_def)

interpretation run_ids: id_source newEvalRunID sequenceOf
  by unfold_locales (simp add: newEvalRunID_def)

text \<open>
  What a run relies on of its judge: a judgement that succeeds has one result per item, for that
  item, with the status it was asked for and a verdict that is one of the two.
\<close>

definition judgedFor :: "runItem list \<Rightarrow> string \<Rightarrow> itemResult list \<Rightarrow> bool" where
  "judgedFor items status results \<longleftrightarrow>
     map irs_EvalCaseID results = map rit_EvalCaseID items
   \<and> (\<forall>r \<in> set results. irs_Status r = status \<and> irs_Verdict r \<in> {RunItemVerdictPass, RunItemVerdictFail})"

locale run_judge =
  fixes judge :: "'w judge"
  assumes build_judged: "fst (jdg_Build judge items status detail updatedAt w) = Inr results
    \<Longrightarrow> judgedFor items status results"
begin

lemma build_length:
  assumes "fst (jdg_Build judge items status detail updatedAt w) = Inr results"
  shows "length results = length items"
  using build_judged [OF assms] by (metis judgedFor_def length_map)

end

interpretation placeholder_judge: run_judge "PlaceholderJudge encode"
  by unfold_locales (auto simp: PlaceholderJudge_def judgedFor_def placeholderItemResult_def Let_def)

lemma evaluateItem_verdict:
  assumes "evaluateItem io j prompt item status detail w = (Inr judged, w')"
  shows "checkDecision (fst judged) = None"
  using assms by (auto simp: evaluateItem_def Let_def split: sum.splits option.splits prod.splits if_splits)

lemma judgeItems_judged:
  "judgeItems io j prompt items status detail updatedAt w = (Inr results, w') \<Longrightarrow> judgedFor items status results"
proof (induction items arbitrary: w w' results)
  case Nil
  then show ?case by (simp add: judgedFor_def)
next
  case (Cons item rest)
  then obtain judged w1 rs where one: "evaluateItem io j prompt item status detail w = (Inr judged, w1)"
    and rest: "judgeItems io j prompt rest status detail updatedAt w1 = (Inr rs, w')"
    and results: "results = judgedResult io j item status judged updatedAt # rs"
    by (auto split: sum.splits prod.splits)
  have "jdc_Verdict (fst judged) \<in> {RunItemVerdictPass, RunItemVerdictFail}"
    using evaluateItem_verdict [OF one] by (auto simp: checkDecision_def split: if_splits)
  then show ?case using Cons.IH [OF rest] results by (simp add: judgedFor_def judgedResult_def)
qed

interpretation http_judge: run_judge "HTTPJSONJudge io j"
proof
  fix items status detail updatedAt w results
  assume "fst (jdg_Build (HTTPJSONJudge io j) items status detail updatedAt w) = Inr results"
  then obtain prompt where "fst (judgeItems io j prompt items status detail updatedAt w) = Inr results"
    by (auto simp: HTTPJSONJudge_def split: sum.splits)
  then show "judgedFor items status results" by (metis judgeItems_judged prod.collapse)
qed

end
