(* ===== verification/Eval_Runner.thy ===== *)
theory Eval_Runner
  imports Eval_Services
begin

text \<open>
  The reports of eval runs, the worker that executes runs, and the executor that sends the cases
  of a run through the chat: \<open>eval/report_service.go\<close>, \<open>eval/runner.go\<close> and
  \<open>eval/chat_executor.go\<close>.

  JSON, the formatting of times and of scores with three decimals are parameters.  The sum of the
  scores is a real number.  The worker hands a context with a deadline to the calls that finish a
  run; of it the model keeps whether it was cancelled before the call, and what a report store
  that respects its context then answers.
\<close>

subsection \<open>Building a report\<close>

record reportEnv =
  ren_Encode :: "(string \<times> jsonValue) list \<Rightarrow> string + string"
  ren_DecodeTexts :: "string \<Rightarrow> (string \<rightharpoonup> string) option"
  ren_FormatTime :: "time \<Rightarrow> string"
  ren_FormatScore :: "real \<Rightarrow> string"

definition appendIfMissing :: "string list \<Rightarrow> string \<Rightarrow> string list" where
  "appendIfMissing values candidate =
     (if candidate = [] \<or> candidate \<in> set values then values else values @ [candidate])"

definition collapseSingle :: "string list \<Rightarrow> string" where
  "collapseSingle values = (case values of [x] \<Rightarrow> x | _ \<Rightarrow> [])"

text \<open>The decoder keeps the keys of the object whose values are strings.\<close>

definition judgePromptPathFromOutput :: "reportEnv \<Rightarrow> string \<Rightarrow> string" where
  "judgePromptPathFromOutput env raw =
     (if raw = [] then []
      else case ren_DecodeTexts env raw of
             None \<Rightarrow> []
           | Some payload \<Rightarrow> (case payload ''judge_prompt_path'' of None \<Rightarrow> [] | Some p \<Rightarrow> p))"

definition badCaseOf :: "runItem \<Rightarrow> itemResult \<Rightarrow> badCase" where
  "badCaseOf item r =
     \<lparr>bad_EvalCaseID = irs_EvalCaseID r, bad_Title = rit_Title item, bad_SourceCaseID = rit_SourceCaseID item,
      bad_SourceTaskID = rit_SourceTaskID item, bad_SourceReportID = rit_SourceReportID item,
      bad_TraceID = rit_TraceID item, bad_VersionID = rit_VersionID item, bad_Verdict = irs_Verdict r,
      bad_Detail = irs_Detail r, bad_Score = irs_Score r\<rparr>"

text \<open>The map from case to item: a later item with the same case replaces an earlier one.\<close>

definition itemByCaseID :: "runItem list \<Rightarrow> string \<rightharpoonup> runItem" where
  "itemByCaseID items = map_of (rev (map (\<lambda>item. (rit_EvalCaseID item, item)) items))"

definition isBad :: "itemResult \<Rightarrow> bool" where
  "isBad r \<longleftrightarrow> irs_Verdict r = RunItemVerdictFail \<or> irs_Status r = RunItemResultFailed"

record reportTally =
  tly_BadCases :: "badCase list"
  tly_JudgeVersions :: "string list"
  tly_PromptPaths :: "string list"
  tly_VersionIDs :: "string list"
  tly_TotalScore :: real

definition tallyResult :: "reportEnv \<Rightarrow> (string \<rightharpoonup> runItem) \<Rightarrow> itemResult \<Rightarrow> reportTally \<Rightarrow> reportTally" where
  "tallyResult env items r t =
     (let t1 = t\<lparr>tly_TotalScore := tly_TotalScore t + irs_Score r,
                tly_JudgeVersions := appendIfMissing (tly_JudgeVersions t) (irs_JudgeVersion r),
                tly_PromptPaths := appendIfMissing (tly_PromptPaths t) (judgePromptPathFromOutput env (irs_JudgeOutput r))\<rparr>
      in case items (irs_EvalCaseID r) of
           None \<Rightarrow> t1
         | Some item \<Rightarrow>
             t1\<lparr>tly_VersionIDs := appendIfMissing (tly_VersionIDs t1) (rit_VersionID item),
                tly_BadCases := (if isBad r then tly_BadCases t1 @ [badCaseOf item r] else tly_BadCases t1)\<rparr>)"

definition buildEvalReportSummary :: "reportEnv \<Rightarrow> runSummary \<Rightarrow> real \<Rightarrow> string" where
  "buildEvalReportSummary env summary averageScore =
     showInt (rsm_FailedItems summary) @ '' failed / '' @ showInt (rsm_SucceededItems summary) @ '' passed / ''
     @ showInt (rsm_TotalItems summary) @ '' total (avg score '' @ ren_FormatScore env averageScore @ '')''"

definition reportMetadata :: "reportEnv \<Rightarrow> evalRun \<Rightarrow> runSummary \<Rightarrow> reportTally \<Rightarrow> time \<Rightarrow> (string \<times> jsonValue) list" where
  "reportMetadata env run summary tally readyAt =
     [(''bad_case_count'', JInt (int (length (tly_BadCases tally)))),
      (''dataset_item_count'', JInt (run_DatasetItemCount run)),
      (''judge_prompt_paths'', JTexts (tly_PromptPaths tally)),
      (''judge_versions'', JTexts (tly_JudgeVersions tally)),
      (''ready_at'', JText (ren_FormatTime env readyAt)),
      (''recorded_results'', JInt (rsm_RecordedResults summary)),
      (''result_summary'', JCounts summary), (''run_status'', JText (run_Status run)),
      (''version_ids'', JTexts (tly_VersionIDs tally))]"

definition reportFrom :: "reportEnv \<Rightarrow> evalRun \<Rightarrow> runSummary \<Rightarrow> reportTally \<Rightarrow> time \<Rightarrow> string \<Rightarrow> evalReport" where
  "reportFrom env run summary tally readyAt metadata =
     (let averageScore = (if rsm_RecordedResults summary > 0
                          then tly_TotalScore tally / real_of_int (rsm_RecordedResults summary) else 0)
      in \<lparr>erp_ID = EvalReportIDFromRunID (run_ID run), erp_TenantID = run_TenantID run, erp_RunID = run_ID run,
          erp_DatasetID = run_DatasetID run, erp_DatasetName = run_DatasetName run, erp_RunStatus = run_Status run,
          erp_Status = EvalReportStatusReady, erp_Summary = buildEvalReportSummary env summary averageScore,
          erp_TotalItems = rsm_TotalItems summary, erp_RecordedResults = rsm_RecordedResults summary,
          erp_PassedItems = rsm_SucceededItems summary, erp_FailedItems = rsm_FailedItems summary,
          erp_MissingResults = rsm_MissingResults summary, erp_AverageScore = averageScore,
          erp_JudgeVersion = collapseSingle (tly_JudgeVersions tally), erp_MetadataJSON = metadata,
          erp_BadCases = tly_BadCases tally, erp_CreatedAt = run_CreatedAt run, erp_UpdatedAt = readyAt,
          erp_ReadyAt = readyAt\<rparr>)"

definition buildEvalReport :: "reportEnv \<Rightarrow> runDetail \<Rightarrow> evalError + evalReport" where
  "buildEvalReport env detail =
     (let run = rdt_Run detail in
      if run_Status run \<noteq> RunStatusSucceeded \<and> run_Status run \<noteq> RunStatusFailed
      then Inl (EvalOther ''eval report requires terminal run state'')
      else
        case (case run_ResultSummary run of
                Some summary \<Rightarrow> Some summary
              | None \<Rightarrow> summarizeRunResultsForTotal (run_DatasetItemCount run) (rdt_ItemResults detail)) of
          None \<Rightarrow> Inl (EvalOther ''eval report requires item results'')
        | Some summary \<Rightarrow>
            let tally = fold (tallyResult env (itemByCaseID (rdt_Items detail))) (rdt_ItemResults detail)
                  \<lparr>tly_BadCases = [], tly_JudgeVersions = [], tly_PromptPaths = [], tly_VersionIDs = [],
                   tly_TotalScore = 0\<rparr>;
                readyAt = (if run_FinishedAt run = zeroTime then run_UpdatedAt run else run_FinishedAt run)
            in case ren_Encode env (reportMetadata env run summary tally readyAt) of
                 Inl err \<Rightarrow> Inl (EvalOther (''marshal eval report metadata: '' @ err))
               | Inr metadata \<Rightarrow> Inr (reportFrom env run summary tally readyAt metadata))"

definition MaterializeRunReport ::
    "reportEnv \<Rightarrow> string \<Rightarrow> evalStore \<Rightarrow> (evalError + evalReport) \<times> evalStore" where
  "MaterializeRunReport env runID s =
     (case eval_GetRunDetail runID s of
        Inl err \<Rightarrow> (Inl err, s)
      | Inr detail \<Rightarrow>
          (case buildEvalReport env detail of
             Inl err \<Rightarrow> (Inl err, s)
           | Inr report \<Rightarrow> (let (saved, s') = eval_SaveEvalReport report s in (Inr saved, s'))))"

definition ListEvalReports ::
    "string list \<Rightarrow> evalReportFilter \<Rightarrow> evalStore \<Rightarrow> evalReport listPage option" where
  "ListEvalReports ks f s = eval_ListEvalReports ks (if erf_Limit f \<le> 0 then f\<lparr>erf_Limit := 20\<rparr> else f) s"

subsection \<open>Comparing reports\<close>

record evalComparisonSummary =
  ecm_SameTenant :: bool
  ecm_SameDataset :: bool
  ecm_SameRunStatus :: bool
  ecm_JudgeVersionChanged :: bool
  ecm_MetadataChanged :: bool
  ecm_TotalItemsDelta :: int
  ecm_RecordedResultsDelta :: int
  ecm_PassedItemsDelta :: int
  ecm_FailedItemsDelta :: int
  ecm_MissingResultsDelta :: int
  ecm_AverageScoreDelta :: real
  ecm_BadCaseCountDelta :: int
  ecm_BadCaseOverlapCount :: int
  ecm_ReadyAtDeltaSecond :: int

record evalComparison =
  ecm_Left :: evalReport
  ecm_Right :: evalReport
  ecm_Summary :: evalComparisonSummary

definition badIDs :: "badCase list \<Rightarrow> string set" where
  "badIDs cases = set (map bad_EvalCaseID cases)"

definition overlapEvalBadCases :: "badCase list \<Rightarrow> badCase list \<Rightarrow> int" where
  "overlapEvalBadCases left right = int (length (filter (\<lambda>b. bad_EvalCaseID b \<in> badIDs left) right))"

definition buildEvalReportComparisonSummary ::
    "(string \<Rightarrow> 'j option) \<Rightarrow> evalReport \<Rightarrow> evalReport \<Rightarrow> evalComparisonSummary" where
  "buildEvalReportComparisonSummary parse left right =
     \<lparr>ecm_SameTenant = (erp_TenantID left = erp_TenantID right),
      ecm_SameDataset = (erp_DatasetID left = erp_DatasetID right),
      ecm_SameRunStatus = (erp_RunStatus left = erp_RunStatus right),
      ecm_JudgeVersionChanged = (erp_JudgeVersion left \<noteq> erp_JudgeVersion right),
      ecm_MetadataChanged = (\<not> equalJSON parse (erp_MetadataJSON left) (erp_MetadataJSON right)),
      ecm_TotalItemsDelta = erp_TotalItems right - erp_TotalItems left,
      ecm_RecordedResultsDelta = erp_RecordedResults right - erp_RecordedResults left,
      ecm_PassedItemsDelta = erp_PassedItems right - erp_PassedItems left,
      ecm_FailedItemsDelta = erp_FailedItems right - erp_FailedItems left,
      ecm_MissingResultsDelta = erp_MissingResults right - erp_MissingResults left,
      ecm_AverageScoreDelta = erp_AverageScore right - erp_AverageScore left,
      ecm_BadCaseCountDelta = int (length (erp_BadCases right)) - int (length (erp_BadCases left)),
      ecm_BadCaseOverlapCount = overlapEvalBadCases (erp_BadCases left) (erp_BadCases right),
      ecm_ReadyAtDeltaSecond = wholeSeconds (timeSub (erp_ReadyAt right) (erp_ReadyAt left))\<rparr>"

definition CompareEvalReports ::
    "(string \<Rightarrow> 'j option) \<Rightarrow> string \<Rightarrow> string \<Rightarrow> evalStore \<Rightarrow> evalError + evalComparison" where
  "CompareEvalReports parse leftID rightID s =
     (if leftID = [] then Inl (EvalOther ''left_report_id is required'')
      else if rightID = [] then Inl (EvalOther ''right_report_id is required'')
      else case eval_GetEvalReport leftID s of
             Inl err \<Rightarrow> Inl err
           | Inr left \<Rightarrow>
               (case eval_GetEvalReport rightID s of
                  Inl err \<Rightarrow> Inl err
                | Inr right \<Rightarrow>
                    Inr \<lparr>ecm_Left = left, ecm_Right = right,
                         ecm_Summary = buildEvalReportComparisonSummary parse left right\<rparr>))"

subsection \<open>Regressions\<close>

abbreviation (input) "RegressionVerdictRegression \<equiv> ''regression''"
abbreviation (input) "RegressionVerdictImprovement \<equiv> ''improvement''"
abbreviation (input) "RegressionVerdictStable \<equiv> ''stable''"

record regressionThresholds =
  thr_ScoreDrop :: real
  thr_NewFailedCasesMax :: int

definition DefaultRegressionThresholds :: regressionThresholds where
  "DefaultRegressionThresholds = \<lparr>thr_ScoreDrop = 5 / 100, thr_NewFailedCasesMax = 0\<rparr>"

record regressionResult =
  reg_BaselineReportID :: string
  reg_CandidateReportID :: string
  reg_Verdict :: string
  reg_AverageScoreDelta :: real
  reg_PassedItemsDelta :: int
  reg_FailedItemsDelta :: int
  reg_NewBadCases :: "badCase list"
  reg_ResolvedBadCases :: "badCase list"
  reg_Thresholds :: regressionThresholds

definition diffBadCases :: "badCase list \<Rightarrow> badCase list \<Rightarrow> badCase list" where
  "diffBadCases reference target = filter (\<lambda>b. bad_EvalCaseID b \<notin> badIDs reference) target"

definition classifyRegression :: "real \<Rightarrow> int \<Rightarrow> regressionThresholds \<Rightarrow> string" where
  "classifyRegression scoreDelta newBadCaseCount thresholds =
     (if (thr_ScoreDrop thresholds > 0 \<and> scoreDelta \<le> - thr_ScoreDrop thresholds)
         \<or> newBadCaseCount > thr_NewFailedCasesMax thresholds
      then RegressionVerdictRegression
      else if scoreDelta > thr_ScoreDrop thresholds \<and> newBadCaseCount = 0
      then RegressionVerdictImprovement else RegressionVerdictStable)"

definition DetectRegression ::
    "string \<Rightarrow> string \<Rightarrow> regressionThresholds \<Rightarrow> evalStore \<Rightarrow> evalError + regressionResult" where
  "DetectRegression baselineID candidateID thresholds s =
     (if baselineID = [] then Inl (EvalOther ''baseline_report_id is required'')
      else if candidateID = [] then Inl (EvalOther ''candidate_report_id is required'')
      else case eval_GetEvalReport baselineID s of
             Inl err \<Rightarrow> Inl (EvalOther (''load baseline report: '' @ evalErrorText err))
           | Inr baseline \<Rightarrow>
               (case eval_GetEvalReport candidateID s of
                  Inl err \<Rightarrow> Inl (EvalOther (''load candidate report: '' @ evalErrorText err))
                | Inr candidate \<Rightarrow>
                    let newBad = diffBadCases (erp_BadCases baseline) (erp_BadCases candidate);
                        scoreDelta = erp_AverageScore candidate - erp_AverageScore baseline
                    in Inr \<lparr>reg_BaselineReportID = baselineID, reg_CandidateReportID = candidateID,
                         reg_Verdict = classifyRegression scoreDelta (int (length newBad)) thresholds,
                         reg_AverageScoreDelta = scoreDelta,
                         reg_PassedItemsDelta = erp_PassedItems candidate - erp_PassedItems baseline,
                         reg_FailedItemsDelta = erp_FailedItems candidate - erp_FailedItems baseline,
                         reg_NewBadCases = newBad,
                         reg_ResolvedBadCases = diffBadCases (erp_BadCases candidate) (erp_BadCases baseline),
                         reg_Thresholds = thresholds\<rparr>))"

record regressionCase =
  rgc_TenantID :: string
  rgc_Title :: string
  rgc_Summary :: string
  rgc_SourceEvalReportID :: string
  rgc_SourceEvalCaseID :: string
  rgc_SourceEvalRunID :: string
  rgc_CreatedBy :: string

definition regressionCaseFor ::
    "(real \<Rightarrow> string) \<Rightarrow> regressionResult \<Rightarrow> string \<Rightarrow> string \<Rightarrow> badCase \<Rightarrow> regressionCase" where
  "regressionCaseFor fmt result tenantID createdBy bc =
     \<lparr>rgc_TenantID = tenantID, rgc_Title = ''Regression: '' @ bad_Title bc,
      rgc_Summary = ''New bad case detected in regression check (score='' @ fmt (bad_Score bc) @ '', verdict=''
        @ bad_Verdict bc @ ''). Baseline: '' @ reg_BaselineReportID result @ '', Candidate: ''
        @ reg_CandidateReportID result,
      rgc_SourceEvalReportID = reg_CandidateReportID result, rgc_SourceEvalCaseID = bad_EvalCaseID bc,
      rgc_SourceEvalRunID = [], rgc_CreatedBy = createdBy\<rparr>"

text \<open>A case that cannot be created is logged and passed over.\<close>

fun promoteBadCases ::
    "(regressionCase \<Rightarrow> 'w \<Rightarrow> string option \<times> 'w) \<Rightarrow> regressionCase list \<Rightarrow> 'w \<Rightarrow> int \<times> 'w" where
  "promoteBadCases create [] w = (0, w)"
| "promoteBadCases create (c # cs) w =
     (let (err, w1) = create c w; (n, w2) = promoteBadCases create cs w1
      in (if err = None then n + 1 else n, w2))"

definition PromoteRegressionCases ::
    "(regressionCase \<Rightarrow> 'w \<Rightarrow> string option \<times> 'w) option \<Rightarrow> (real \<Rightarrow> string) \<Rightarrow> regressionResult
     \<Rightarrow> string \<Rightarrow> string \<Rightarrow> 'w \<Rightarrow> (evalError + int) \<times> 'w" where
  "PromoteRegressionCases creator fmt result tenantID createdBy w =
     (case creator of
        None \<Rightarrow> (Inl (EvalOther ''case creator not configured''), w)
      | Some create \<Rightarrow>
          if reg_Verdict result \<noteq> RegressionVerdictRegression then (Inr 0, w)
          else let (n, w') = promoteBadCases create
                 (map (regressionCaseFor fmt result tenantID createdBy) (reg_NewBadCases result)) w
               in (Inr n, w'))"

subsection \<open>The worker\<close>

text \<open>
  \<open>evr_OnCancelled\<close> is the error with which a report store that respects its context answers once
  the context is cancelled; the memory store ignores it.
\<close>

type_synonym 'w runExecutor = "evalStore \<Rightarrow> evalRun \<Rightarrow> 'w \<Rightarrow> string option \<times> 'w"

record 'w evalRunner =
  evr_Service :: "'w runService"
  evr_Executor :: "'w runExecutor"
  evr_Reports :: "reportEnv option"
  evr_OnCancelled :: "string option"

definition PlaceholderExecuteRun :: "bool \<Rightarrow> 'w runExecutor" where
  "PlaceholderExecuteRun failAll s run w =
     (if failAll then Some (''fault injection: eval run failed for '' @ run_ID run) else None, w)"

definition summarizeRunJudgeFailure :: "string \<Rightarrow> string \<Rightarrow> string" where
  "summarizeRunJudgeFailure reason err =
     (let summary = trimSpace reason in if summary = [] then err else summary @ '': '' @ err)"

definition materializeRunReport ::
    "'w evalRunner \<Rightarrow> bool \<Rightarrow> string \<Rightarrow> evalStore \<Rightarrow> evalError option \<times> evalStore" where
  "materializeRunReport r cancelled runID s =
     (case evr_Reports r of
        None \<Rightarrow> (None, s)
      | Some env \<Rightarrow>
          (case (if cancelled then evr_OnCancelled r else None) of
             Some err \<Rightarrow> (Some (EvalOther (''materialize eval report: '' @ err)), s)
           | None \<Rightarrow>
               (case MaterializeRunReport env runID s of
                  (Inl err, s') \<Rightarrow> (Some (EvalOther (''materialize eval report: '' @ evalErrorText err)), s')
                | (Inr _, s') \<Rightarrow> (None, s'))))"

text \<open>
  One claimed run.  On the two ways through a failed run the context is cancelled before the
  report is materialized.  The result is the error that ends the batch.
\<close>

definition failClaimedRun ::
    "'w evalRunner \<Rightarrow> evalRun \<Rightarrow> string \<Rightarrow> evalStore \<Rightarrow> 'w \<Rightarrow> evalError option \<times> evalStore \<times> 'w" where
  "failClaimedRun r run reason s w =
     (case MarkRunFailed (evr_Service r) (run_ID run) reason s w of
        (Inr _, s1, w1) \<Rightarrow> (let (e, s2) = materializeRunReport r True (run_ID run) s1 in (e, s2, w1))
      | (Inl markErr, s1, w1) \<Rightarrow>
          (case MarkRunFailedWithFallback (evr_Service r) (run_ID run)
                  (summarizeRunJudgeFailure reason (evalErrorText markErr)) s1 w1 of
             (Inl err, s2, w2) \<Rightarrow> (Some err, s2, w2)
           | (Inr _, s2, w2) \<Rightarrow> (let (e, s3) = materializeRunReport r True (run_ID run) s2 in (e, s3, w2))))"

definition succeedClaimedRun ::
    "'w evalRunner \<Rightarrow> evalRun \<Rightarrow> evalStore \<Rightarrow> 'w \<Rightarrow> evalError option \<times> evalStore \<times> 'w" where
  "succeedClaimedRun r run s w =
     (case MarkRunSucceeded (evr_Service r) (run_ID run) s w of
        (Inr _, s1, w1) \<Rightarrow> (let (e, s2) = materializeRunReport r False (run_ID run) s1 in (e, s2, w1))
      | (Inl err, s1, w1) \<Rightarrow>
          (case MarkRunFailedWithFallback (evr_Service r) (run_ID run)
                  (summarizeRunJudgeFailure ''eval judge failed after successful execution'' (evalErrorText err)) s1 w1 of
             (Inl fallbackErr, s2, w2) \<Rightarrow> (Some fallbackErr, s2, w2)
           | (Inr _, s2, w2) \<Rightarrow> (let (e, s3) = materializeRunReport r True (run_ID run) s2 in (e, s3, w2))))"

definition processRun ::
    "'w evalRunner \<Rightarrow> evalRun \<Rightarrow> evalStore \<Rightarrow> 'w \<Rightarrow> evalError option \<times> evalStore \<times> 'w" where
  "processRun r run s w =
     (case evr_Executor r s run w of
        (Some reason, w1) \<Rightarrow> failClaimedRun r run reason s w1
      | (None, w1) \<Rightarrow> succeedClaimedRun r run s w1)"

fun processRuns ::
    "'w evalRunner \<Rightarrow> evalRun list \<Rightarrow> evalStore \<Rightarrow> 'w \<Rightarrow> evalError option \<times> evalStore \<times> 'w" where
  "processRuns r [] s w = (None, s, w)"
| "processRuns r (run # runs) s w =
     (case processRun r run s w of
        (Some err, s1, w1) \<Rightarrow> (Some err, s1, w1)
      | (None, s1, w1) \<Rightarrow> processRuns r runs s1 w1)"

definition eval_ProcessNextBatch ::
    "'w evalRunner \<Rightarrow> string list \<Rightarrow> int \<Rightarrow> evalStore \<Rightarrow> 'w \<Rightarrow> ((evalError + int) \<times> evalStore \<times> 'w) option" where
  "eval_ProcessNextBatch r ks limit s w =
     map_option (\<lambda>(runs, s1, w1).
         case processRuns r runs s1 w1 of
           (Some err, s2, w2) \<Rightarrow> (Inl err, s2, w2)
         | (None, s2, w2) \<Rightarrow> (Inr (int (length runs)), s2, w2))
       (ClaimQueuedRuns (evr_Service r) ks limit s w)"

subsection \<open>The chat executor\<close>

text \<open>
  The world of the executor is the chat with the number of clock readings; \<open>clock\<close> gives the
  readings of one request and \<open>ctxErr\<close> the error of the context before it.  A request that fails
  is logged and passed over.
\<close>

type_synonym 'w chatWorld = "'w chatState \<times> nat"

definition evalRequestFor :: "evalRun \<Rightarrow> runItem \<Rightarrow> chatRequest" where
  "evalRequestFor run item =
     (let name = ''eval-'' @ run_ID run @ ''-'' @ rit_EvalCaseID item in
      \<lparr>req_RequestID = name, req_TraceID = name, req_TenantID = run_TenantID run,
       req_UserID = ''eval-runner'', req_SessionID = [], req_Mode = ''eval'',
       req_UserMessage = (if rit_Title item = [] then ''Evaluate case '' @ rit_EvalCaseID item else rit_Title item),
       req_TenantPolicy = noPolicy\<rparr>)"

fun executeItems ::
    "('w, 'p) chatEnv \<Rightarrow> (nat \<Rightarrow> chatClock) \<Rightarrow> (nat \<Rightarrow> string option) \<Rightarrow> evalRun \<Rightarrow> runItem list
     \<Rightarrow> 'w chatWorld \<Rightarrow> string option \<times> 'w chatWorld" where
  "executeItems env clock ctxErr run [] w = (None, w)"
| "executeItems env clock ctxErr run (item # rest) (chat, n) =
     (case ctxErr n of
        Some err \<Rightarrow> (Some err, (chat, n))
      | None \<Rightarrow>
          executeItems env clock ctxErr run rest
            (snd (Handle env (clock n) (evalRequestFor run item) chat), n + 1))"

definition ChatExecuteRun ::
    "('w, 'p) chatEnv \<Rightarrow> (nat \<Rightarrow> chatClock) \<Rightarrow> (nat \<Rightarrow> string option) \<Rightarrow> 'w chatWorld runExecutor" where
  "ChatExecuteRun env clock ctxErr s run w =
     (case eval_GetRunDetail (run_ID run) s of
        Inl err \<Rightarrow> (Some (''get run detail: '' @ evalErrorText err), w)
      | Inr detail \<Rightarrow> executeItems env clock ctxErr run (rdt_Items detail) w)"

end
