(* ===== verification/Eval_Laws.thy ===== *)
theory Eval_Laws
  imports Eval_Runner
begin

text \<open>
  The life of an eval run.  The event history of a run is a path of the automaton
  \<open>nextRunStatus\<close> that ends in the status of the run; results are recorded exactly while it is
  finished.  The invariant is kept by every operation of the services, and a batch of the worker
  finishes and reports every run it claims.
\<close>

subsection \<open>The automaton and the invariant\<close>

fun nextRunStatus :: "string option \<Rightarrow> string \<Rightarrow> string option" where
  "nextRunStatus None action = (if action = RunEventCreated then Some RunStatusQueued else None)"
| "nextRunStatus (Some status) action =
     (if status = RunStatusQueued \<and> action = RunEventClaimed then Some RunStatusRunning
      else if status = RunStatusRunning \<and> action = RunEventSucceeded then Some RunStatusSucceeded
      else if status = RunStatusRunning \<and> action = RunEventFailed then Some RunStatusFailed
      else if status = RunStatusFailed \<and> action = RunEventRetried then Some RunStatusQueued
      else None)"

fun replayRun :: "string option \<Rightarrow> string list \<Rightarrow> string option" where
  "replayRun status [] = status"
| "replayRun status (action # rest) =
     (case nextRunStatus status action of None \<Rightarrow> None | Some next' \<Rightarrow> replayRun (Some next') rest)"

abbreviation runHistory :: "evalStore \<Rightarrow> string \<Rightarrow> runEvent list" where
  "runHistory s k \<equiv> entries (est_runEvents s) k"

abbreviation itemsOf :: "evalStore \<Rightarrow> string \<Rightarrow> runItem list" where
  "itemsOf s k \<equiv> entries (est_runItems s) k"

definition finishedStatus :: "string \<Rightarrow> bool" where
  "finishedStatus status \<longleftrightarrow> status = RunStatusSucceeded \<or> status = RunStatusFailed"

text \<open>The status of a finished run is also the status of each of its results.\<close>

definition runRecordOK ::
    "evalRun option \<Rightarrow> string list \<Rightarrow> runItem list \<Rightarrow> itemResult list option \<Rightarrow> bool" where
  "runRecordOK run actions items results \<longleftrightarrow>
     (case run of
        None \<Rightarrow> actions = [] \<and> results = None
      | Some r \<Rightarrow>
          replayRun None actions = Some (run_Status r)
        \<and> items \<noteq> [] \<and> distinct (map rit_EvalCaseID items) \<and> run_DatasetItemCount r = int (length items)
        \<and> (if finishedStatus (run_Status r)
           then \<exists>rs. results = Some rs \<and> judgedFor items (run_Status r) rs else results = None))"

definition runOK :: "evalStore \<Rightarrow> string \<Rightarrow> bool" where
  "runOK s k \<longleftrightarrow>
     runRecordOK (est_runs s k) (map rve_Action (runHistory s k)) (itemsOf s k) (est_runItemResults s k)"

definition runStoreOK :: "evalStore \<Rightarrow> bool" where
  "runStoreOK s \<longleftrightarrow>
     keyedBy run_ID (est_runs s) \<and> numbered (\<lambda>s k. runHistory s k) est_nextRunEvent rve_ID s \<and> (\<forall>k. runOK s k)"

lemma runStoreOK_keyed: "runStoreOK s \<Longrightarrow> est_runs s k = Some r \<Longrightarrow> run_ID r = k"
  unfolding runStoreOK_def by (blast dest: keyedByD)

lemma replayRun_append:
  "replayRun (Some x) (xs @ [a]) = (case replayRun (Some x) xs of None \<Rightarrow> None | Some y \<Rightarrow> nextRunStatus (Some y) a)"
  by (induction xs arbitrary: x) (simp_all del: nextRunStatus.simps split: option.split)

lemma replayRun_snoc:
  assumes "replayRun None xs = Some x"
  shows "replayRun None (xs @ [a]) = nextRunStatus (Some x) a"
proof (cases xs)
  case (Cons y ys)
  then obtain z where "nextRunStatus None y = Some z" using assms by (cases "nextRunStatus None y") auto
  then show ?thesis using assms Cons by (simp add: replayRun_append del: nextRunStatus.simps)
qed (use assms in simp)

text \<open>Every operation on a run that exists writes the run, its results and one event.\<close>

definition moveRun :: "string \<Rightarrow> evalRun \<Rightarrow> itemResult list option \<Rightarrow> runEvent \<Rightarrow> evalStore \<Rightarrow> evalStore" where
  "moveRun k r res e s =
     appendRunEventLocked e
       (s\<lparr>est_runs := (est_runs s)(k \<mapsto> r), est_runItemResults := (est_runItemResults s)(k := res)\<rparr>)"

lemma runEventFor_simps [simp]:
  "rve_RunID (runEventFor k a b c t) = k" "rve_Action (runEventFor k a b c t) = a"
  by (simp_all add: runEventFor_def)

lemma moveRun_simps [simp]:
  "est_runs (moveRun k r res e s) = (est_runs s)(k \<mapsto> r)"
  "est_runItemResults (moveRun k r res e s) = (est_runItemResults s)(k := res)"
  "est_runItems (moveRun k r res e s) = est_runItems s"
  "est_evalReports (moveRun k r res e s) = est_evalReports s"
  "est_datasets (moveRun k r res e s) = est_datasets s"
  "est_byID (moveRun k r res e s) = est_byID s"
  "est_bySourceCase (moveRun k r res e s) = est_bySourceCase s"
  by (simp_all add: moveRun_def appendRunEventLocked_def Let_def)

lemma moveRun_history:
  "rve_RunID e = k \<Longrightarrow> map rve_Action (runHistory (moveRun k r res e s) k')
     = map rve_Action (runHistory s k') @ (if k' = k then [rve_Action e] else [])"
  by (simp add: moveRun_def appendRunEventLocked_def Let_def)

lemma numbered_moveRun:
  "numbered (\<lambda>s k. runHistory s k) est_nextRunEvent rve_ID s
   \<Longrightarrow> numbered (\<lambda>s k. runHistory s k) est_nextRunEvent rve_ID (moveRun k r res e s)"
  unfolding moveRun_def by (rule run_store.numbered_addEvent) (simp add: numbered_def)

lemma runOK_other: "\<lbrakk>runOK s k'; k' \<noteq> k; rve_RunID e = k\<rbrakk> \<Longrightarrow> runOK (moveRun k r res e s) k'"
  by (simp add: runOK_def moveRun_history)

text \<open>A move along the automaton with the results that belong to the new status.\<close>

lemma runStoreOK_move:
  assumes "runStoreOK s" "est_runs s k = Some r" "rve_RunID e = k" "run_ID r' = k"
    and "nextRunStatus (Some (run_Status r)) (rve_Action e) = Some (run_Status r')"
    and "run_DatasetItemCount r' = run_DatasetItemCount r"
    and "if finishedStatus (run_Status r')
         then \<exists>rs. res = Some rs \<and> judgedFor (itemsOf s k) (run_Status r') rs else res = None"
  shows "runStoreOK (moveRun k r' res e s)"
proof -
  have ok: "runOK s k" "keyedBy run_ID (est_runs s)" "numbered (\<lambda>s k. runHistory s k) est_nextRunEvent rve_ID s"
    using assms(1) by (simp_all add: runStoreOK_def)
  have "runOK (moveRun k r' res e s) k"
    using ok(1) assms(2-)
    by (simp add: runOK_def runRecordOK_def moveRun_history replayRun_snoc del: nextRunStatus.simps)
  then have "runOK (moveRun k r' res e s) k'" for k'
    using runOK_other [OF _ _ assms(3)] assms(1) unfolding runStoreOK_def by metis
  then show ?thesis
    using ok(2,3) assms(4) by (simp add: runStoreOK_def keyedBy_upd numbered_moveRun)
qed

subsection \<open>The operations of the store\<close>

lemma claimRun_move:
  "claimRun t item s = moveRun (run_ID item) item (est_runItemResults s (run_ID item))
     (runEventFor (run_ID item) RunEventClaimed ''worker'' (run_Status item) t) s"
  by (simp add: claimRun_def moveRun_def putRun_def)

text \<open>What no operation on an existing run changes.\<close>

definition sameRun :: "evalRun \<Rightarrow> evalRun \<Rightarrow> bool" where
  "sameRun a b \<longleftrightarrow>
     run_ID b = run_ID a \<and> run_TenantID b = run_TenantID a \<and> run_DatasetID b = run_DatasetID a
   \<and> run_DatasetName b = run_DatasetName a \<and> run_DatasetItemCount b = run_DatasetItemCount a
   \<and> run_CreatedBy b = run_CreatedBy a \<and> run_CreatedAt b = run_CreatedAt a"

lemma sameRun_refl [simp]: "sameRun a a"
  by (simp add: sameRun_def)

lemma sameRun_trans: "sameRun a b \<Longrightarrow> sameRun b c \<Longrightarrow> sameRun a c"
  by (simp add: sameRun_def)

definition legalRunMove :: "evalStore \<Rightarrow> string \<Rightarrow> evalRun \<Rightarrow> itemResult list option \<Rightarrow> runEvent \<Rightarrow> bool" where
  "legalRunMove s k r' res e \<longleftrightarrow>
     (\<exists>r. est_runs s k = Some r \<and> sameRun r r' \<and> rve_RunID e = k
      \<and> nextRunStatus (Some (run_Status r)) (rve_Action e) = Some (run_Status r')
      \<and> (if finishedStatus (run_Status r')
         then \<exists>rs. res = Some rs \<and> judgedFor (itemsOf s k) (run_Status r') rs else res = None))"

inductive runMoves :: "evalStore \<Rightarrow> evalStore \<Rightarrow> bool" where
  unmoved: "runMoves s s"
| moved: "\<lbrakk>runMoves s s1; legalRunMove s1 k r res e\<rbrakk> \<Longrightarrow> runMoves s (moveRun k r res e s1)"
| reported: "runMoves s s1 \<Longrightarrow> runMoves s (snd (eval_SaveEvalReport report s1))"

lemma runMoves_trans: "runMoves s2 s3 \<Longrightarrow> runMoves s1 s2 \<Longrightarrow> runMoves s1 s3"
  by (induction rule: runMoves.induct) (auto intro: runMoves.intros)

lemma runMoves_one: "legalRunMove s k r res e \<Longrightarrow> runMoves s (moveRun k r res e s)"
  by (blast intro: runMoves.intros)

lemma SaveEvalReport_simps [simp]:
  "est_runs (snd (eval_SaveEvalReport report s)) = est_runs s"
  "est_runEvents (snd (eval_SaveEvalReport report s)) = est_runEvents s"
  "est_nextRunEvent (snd (eval_SaveEvalReport report s)) = est_nextRunEvent s"
  "est_runItems (snd (eval_SaveEvalReport report s)) = est_runItems s"
  "est_runItemResults (snd (eval_SaveEvalReport report s)) = est_runItemResults s"
  "est_datasets (snd (eval_SaveEvalReport report s)) = est_datasets s"
  "est_byID (snd (eval_SaveEvalReport report s)) = est_byID s"
  "est_bySourceCase (snd (eval_SaveEvalReport report s)) = est_bySourceCase s"
  "est_evalReports (snd (eval_SaveEvalReport report s)) = (est_evalReports s)(erp_ID report \<mapsto> report)"
  by (simp_all add: eval_SaveEvalReport_def)

lemma runStoreOK_cong:
  assumes "est_runs t = est_runs s" "est_runEvents t = est_runEvents s" "est_nextRunEvent t = est_nextRunEvent s"
    "est_runItems t = est_runItems s" "est_runItemResults t = est_runItemResults s"
  shows "runStoreOK t = runStoreOK s"
  using assms by (simp add: runStoreOK_def numbered_def runOK_def)

text \<open>What moves of runs keep.\<close>

definition runsKept :: "evalStore \<Rightarrow> evalStore \<Rightarrow> bool" where
  "runsKept s t \<longleftrightarrow>
     est_datasets t = est_datasets s \<and> est_byID t = est_byID s \<and> est_bySourceCase t = est_bySourceCase s
   \<and> est_runItems t = est_runItems s \<and> (\<forall>k. rel_option sameRun (est_runs s k) (est_runs t k))"

lemma runMoves_kept: "runMoves s t \<Longrightarrow> runsKept s t"
proof (induction rule: runMoves.induct)
  case (unmoved s)
  then show ?case by (simp add: runsKept_def option.rel_refl)
next
  case (moved s s1 k r res e)
  then obtain r1 where r1: "est_runs s1 k = Some r1" "sameRun r1 r" by (auto simp: legalRunMove_def)
  have "rel_option sameRun (est_runs s k') (est_runs (moveRun k r res e s1) k')" for k'
  proof (cases "k' = k")
    case True
    with moved.IH r1 obtain r0 where "est_runs s k = Some r0" "sameRun r0 r1"
      unfolding runsKept_def by (metis option_rel_Some2)
    then show ?thesis using True r1(2) by (auto intro: sameRun_trans)
  next
    case False
    then show ?thesis using moved.IH by (simp add: runsKept_def)
  qed
  then show ?case using moved.IH by (simp add: runsKept_def)
next
  case (reported s s1 report)
  then show ?case by (simp add: runsKept_def)
qed

lemma runMoves_OK: "runMoves s t \<Longrightarrow> runStoreOK s \<Longrightarrow> runStoreOK t"
proof (induction rule: runMoves.induct)
  case (moved s s1 k r' res e)
  then obtain r where r: "est_runs s1 k = Some r" "sameRun r r'" "rve_RunID e = k"
      "nextRunStatus (Some (run_Status r)) (rve_Action e) = Some (run_Status r')"
      "if finishedStatus (run_Status r')
       then \<exists>rs. res = Some rs \<and> judgedFor (itemsOf s1 k) (run_Status r') rs else res = None"
    by (auto simp: legalRunMove_def)
  have ok: "runStoreOK s1" using moved by blast
  have "run_ID r' = k" "run_DatasetItemCount r' = run_DatasetItemCount r"
    using r(2) runStoreOK_keyed [OF ok r(1)] by (simp_all add: sameRun_def)
  then show ?case using runStoreOK_move [OF ok r(1,3)] r(4,5) by blast
next
  case (reported s s1 report)
  then show ?case using runStoreOK_cong [of "snd (eval_SaveEvalReport report s1)" s1] by simp
qed

lemma retry_moves:
  assumes "runStoreOK s"
  shows "runMoves s (snd (eval_RetryRun k t s))"
proof (cases "\<exists>r. est_runs s k = Some r \<and> run_Status r = RunStatusFailed")
  case True
  then obtain r where r: "est_runs s k = Some r" "run_Status r = RunStatusFailed" by blast
  let ?r = "r\<lparr>run_Status := RunStatusQueued, run_ErrorReason := [], run_UpdatedAt := t,
      run_StartedAt := zeroTime, run_FinishedAt := zeroTime\<rparr>"
  let ?e = "runEventFor k RunEventRetried ''operator'' RunStatusQueued t"
  have "snd (eval_RetryRun k t s) = moveRun k ?r None ?e s"
    using r runStoreOK_keyed [OF assms r(1)] by (simp add: eval_RetryRun_def moveRun_def Let_def)
  moreover have "legalRunMove s k ?r None ?e"
    using r by (simp add: legalRunMove_def sameRun_def finishedStatus_def)
  ultimately show ?thesis by (metis runMoves_one)
next
  case False
  then have "snd (eval_RetryRun k t s) = s" by (auto simp: eval_RetryRun_def Let_def split: option.split)
  then show ?thesis by (simp add: unmoved)
qed

text \<open>A running run is finished with the results the judge gives for its items.\<close>

definition finishedRun :: "string \<Rightarrow> string \<Rightarrow> time \<Rightarrow> evalRun \<Rightarrow> evalRun" where
  "finishedRun status reason t r =
     r\<lparr>run_Status := status, run_ErrorReason := reason, run_UpdatedAt := t, run_FinishedAt := t\<rparr>"

lemma finishedRun_simps [simp]:
  "run_Status (finishedRun status reason t r) = status" "run_ID (finishedRun status reason t r) = run_ID r"
  "sameRun r (finishedRun status reason t r)"
  "run_FinishedAt (finishedRun status reason t r) = t" "run_ErrorReason (finishedRun status reason t r) = reason"
  by (simp_all add: finishedRun_def sameRun_def)

lemma markSucceeded_running:
  assumes "est_runs s k = Some r" "run_Status r = RunStatusRunning" "run_ID r = k"
  shows "eval_MarkRunSucceeded k t rs s
    = (Inr (finishedRun RunStatusSucceeded [] t r),
       moveRun k (finishedRun RunStatusSucceeded [] t r) (Some rs)
         (runEventFor k RunEventSucceeded ''worker'' RunStatusSucceeded t) s)"
  using assms by (simp add: eval_MarkRunSucceeded_def finishRun_def finishedRun_def moveRun_def Let_def)

lemma markFailed_running:
  assumes "est_runs s k = Some r" "run_Status r = RunStatusRunning" "run_ID r = k"
  shows "eval_MarkRunFailed k reason t rs s
    = (Inr (finishedRun RunStatusFailed reason t r),
       moveRun k (finishedRun RunStatusFailed reason t r) (Some rs)
         (runEventFor k RunEventFailed ''worker'' reason t) s)"
  using assms by (simp add: eval_MarkRunFailed_def finishRun_def finishedRun_def moveRun_def Let_def)

lemma mark_not_running:
  assumes "\<nexists>r. est_runs s k = Some r \<and> run_Status r = RunStatusRunning"
  shows "snd (eval_MarkRunSucceeded k t rs s) = s" "snd (eval_MarkRunFailed k reason t rs s) = s"
  using assms by (auto simp: eval_MarkRunSucceeded_def eval_MarkRunFailed_def Let_def split: option.split)

lemma legal_succeeded:
  assumes "est_runs s k = Some r" "run_Status r = RunStatusRunning" "judgedFor (itemsOf s k) RunStatusSucceeded rs"
  shows "legalRunMove s k (finishedRun RunStatusSucceeded [] t r) (Some rs)
    (runEventFor k RunEventSucceeded ''worker'' RunStatusSucceeded t)"
  using assms by (auto simp: legalRunMove_def finishedStatus_def)

lemma legal_failed:
  assumes "est_runs s k = Some r" "run_Status r = RunStatusRunning" "judgedFor (itemsOf s k) RunStatusFailed rs"
  shows "legalRunMove s k (finishedRun RunStatusFailed reason t r) (Some rs)
    (runEventFor k RunEventFailed ''worker'' reason t)"
  using assms by (auto simp: legalRunMove_def finishedStatus_def)

text \<open>Two stores that agree on one run.\<close>

definition sameAt :: "evalStore \<Rightarrow> evalStore \<Rightarrow> string \<Rightarrow> bool" where
  "sameAt s t k \<longleftrightarrow>
     est_runs t k = est_runs s k \<and> est_runItemResults t k = est_runItemResults s k
   \<and> itemsOf t k = itemsOf s k \<and> runHistory t k = runHistory s k"

lemma sameAt_refl [simp]: "sameAt s s k"
  by (simp add: sameAt_def)

lemma sameAt_trans: "sameAt s1 s2 k \<Longrightarrow> sameAt s2 s3 k \<Longrightarrow> sameAt s1 s3 k"
  by (simp add: sameAt_def)

lemma sameAt_move [simp]: "k' \<noteq> k \<Longrightarrow> sameAt s (moveRun k r res (runEventFor k a b c t) s) k'"
  by (simp add: sameAt_def) (simp add: moveRun_def appendRunEventLocked_def Let_def)

lemma sameAt_report [simp]: "sameAt s (snd (eval_SaveEvalReport rep s)) k"
  by (simp add: sameAt_def)

subsection \<open>Claiming\<close>

lemma claim_legal:
  assumes "runStoreOK s" "est_runs s k = Some q" "run_Status q = RunStatusQueued"
  shows "legalRunMove s k (claimedRun t q) (est_runItemResults s k)
    (runEventFor k RunEventClaimed ''worker'' RunStatusRunning t)"
proof -
  have "runRecordOK (Some q) (map rve_Action (runHistory s k)) (itemsOf s k) (est_runItemResults s k)"
    using assms(1,2) by (metis runStoreOK_def runOK_def)
  then show ?thesis using assms(2,3)
    by (simp add: legalRunMove_def claimedRun_def sameRun_def finishedStatus_def runRecordOK_def)
qed

lemma claimedRun_simps [simp]:
  "run_ID (claimedRun t q) = run_ID q" "run_Status (claimedRun t q) = RunStatusRunning" "sameRun q (claimedRun t q)"
  by (simp_all add: claimedRun_def sameRun_def)

lemma fold_claimRun:
  assumes "distinct (map run_ID qs)" "\<forall>q \<in> set qs. est_runs s (run_ID q) = Some q \<and> run_Status q = RunStatusQueued"
    and "runStoreOK s"
  shows "runMoves s (fold (claimRun t) (map (claimedRun t) qs) s)
    \<and> (\<forall>q \<in> set qs. est_runs (fold (claimRun t) (map (claimedRun t) qs) s) (run_ID q) = Some (claimedRun t q))
    \<and> (\<forall>k. k \<notin> run_ID ` set qs \<longrightarrow> sameAt s (fold (claimRun t) (map (claimedRun t) qs) s) k)
    \<and> est_evalReports (fold (claimRun t) (map (claimedRun t) qs) s) = est_evalReports s"
  using assms
proof (induction qs arbitrary: s)
  case Nil
  then show ?case by (simp add: unmoved)
next
  case (Cons q qs)
  let ?s1 = "claimRun t (claimedRun t q) s"
  have q: "est_runs s (run_ID q) = Some q" "run_Status q = RunStatusQueued" using Cons.prems(2) by simp_all
  have s1: "?s1 = moveRun (run_ID q) (claimedRun t q) (est_runItemResults s (run_ID q))
      (runEventFor (run_ID q) RunEventClaimed ''worker'' RunStatusRunning t) s"
    by (simp add: claimRun_move)
  have step: "runMoves s ?s1" unfolding s1 by (rule runMoves_one [OF claim_legal [OF Cons.prems(3) q]])
  have "\<forall>x \<in> set qs. run_ID x \<noteq> run_ID q" using Cons.prems(1) by (metis distinct.simps(2) image_eqI list.simps(9) set_map)
  then have "\<forall>x \<in> set qs. est_runs ?s1 (run_ID x) = Some x \<and> run_Status x = RunStatusQueued"
    using Cons.prems(2) by (simp add: s1)
  with Cons.IH [of ?s1] Cons.prems(1) runMoves_OK [OF step Cons.prems(3)]
  have rest: "runMoves ?s1 (fold (claimRun t) (map (claimedRun t) qs) ?s1)"
    "\<forall>x \<in> set qs. est_runs (fold (claimRun t) (map (claimedRun t) qs) ?s1) (run_ID x) = Some (claimedRun t x)"
    "\<forall>k. k \<notin> run_ID ` set qs \<longrightarrow> sameAt ?s1 (fold (claimRun t) (map (claimedRun t) qs) ?s1) k"
    "est_evalReports (fold (claimRun t) (map (claimedRun t) qs) ?s1) = est_evalReports ?s1"
    by auto
  have old: "est_evalReports ?s1 = est_evalReports s" "\<forall>k. k \<noteq> run_ID q \<longrightarrow> sameAt s ?s1 k"
    and new: "est_runs ?s1 (run_ID q) = Some (claimedRun t q)"
    by (simp_all add: s1)
  have "run_ID q \<notin> run_ID ` set qs" using Cons.prems(1) by simp
  then have "est_runs (fold (claimRun t) (map (claimedRun t) qs) ?s1) (run_ID q) = Some (claimedRun t q)"
    using rest(3) new by (simp add: sameAt_def)
  moreover have "sameAt s (fold (claimRun t) (map (claimedRun t) qs) ?s1) k" if "k \<notin> run_ID ` set (q # qs)" for k
    using that rest(3) old(2) sameAt_trans by (metis image_eqI insertCI list.simps(15) image_insert)
  ultimately show ?case using rest(2,4) old(1) runMoves_trans [OF rest(1) step] by simp
qed

text \<open>The oldest queued runs, as the claim sees them.\<close>

definition queuedRuns :: "string list \<Rightarrow> evalStore \<Rightarrow> evalRun list" where
  "queuedRuns ks s =
     goSort runClaimedBefore (filter (\<lambda>item. run_Status item = RunStatusQueued) (rangeVals (est_runs s) ks))"

lemma queuedRuns_facts:
  assumes "runStoreOK s" "iterOrder (est_runs s) ks"
  shows "distinct (map run_ID (queuedRuns ks s))"
    and "q \<in> set (queuedRuns ks s) \<longleftrightarrow> est_runs s (run_ID q) = Some q \<and> run_Status q = RunStatusQueued"
    and "sorted_wrt runClaimedBefore (queuedRuns ks s)"
proof -
  have k: "keyedBy run_ID (est_runs s)" using assms(1) by (simp add: runStoreOK_def)
  show "distinct (map run_ID (queuedRuns ks s))"
    using distinct_idents_rangeVals [OF k assms(2)] by (simp add: queuedRuns_def distinct_map_filter)
  show "q \<in> set (queuedRuns ks s) \<longleftrightarrow> est_runs s (run_ID q) = Some q \<and> run_Status q = RunStatusQueued"
    using mem_rangeVals [OF assms(2) k] by (auto simp: queuedRuns_def)
  show "sorted_wrt runClaimedBefore (queuedRuns ks s)"
    unfolding queuedRuns_def by (rule run_claim_order.goSort_range_sorted [OF k assms(2)]) simp
qed

lemma claim_runs:
  assumes "runStoreOK s" "iterOrder (est_runs s) ks" "0 < limit"
  defines "qs \<equiv> take (nat limit) (queuedRuns ks s)"
  shows "\<exists>s'. eval_ClaimQueuedRuns ks limit t s = Some (map (claimedRun t) qs, s') \<and> runMoves s s'
    \<and> (\<forall>q \<in> set qs. est_runs s' (run_ID q) = Some (claimedRun t q))
    \<and> (\<forall>k. k \<notin> run_ID ` set qs \<longrightarrow> sameAt s s' k) \<and> est_evalReports s' = est_evalReports s"
proof -
  let ?n = "if limit > int (length (queuedRuns ks s)) then int (length (queuedRuns ks s)) else limit"
  have "take (nat ?n) (queuedRuns ks s) = qs" using assms(3) by (simp add: qs_def)
  moreover have "\<not> ?n < 0" using assms(3) by simp
  ultimately have "eval_ClaimQueuedRuns ks limit t s
      = Some (map (claimedRun t) qs, fold (claimRun t) (map (claimedRun t) qs) s)"
    unfolding eval_ClaimQueuedRuns_def queuedRuns_def [symmetric] Let_def by metis
  moreover have "distinct (map run_ID qs)"
    using queuedRuns_facts(1) [OF assms(1,2)] by (simp add: qs_def take_map [symmetric])
  moreover have "\<forall>q \<in> set qs. est_runs s (run_ID q) = Some q \<and> run_Status q = RunStatusQueued"
    using queuedRuns_facts(2) [OF assms(1,2)] by (auto simp: qs_def dest: in_set_takeD)
  ultimately show ?thesis using fold_claimRun [OF _ _ assms(1), of qs t] by blast
qed

subsection \<open>Reports of finished runs\<close>

definition reportsRun :: "evalStore \<Rightarrow> string \<Rightarrow> evalReport \<Rightarrow> bool" where
  "reportsRun s k rep \<longleftrightarrow>
     (\<exists>r rs. est_runs s k = Some r \<and> est_runItemResults s k = Some rs
      \<and> erp_ID rep = EvalReportIDFromRunID k \<and> erp_RunID rep = k \<and> erp_TenantID rep = run_TenantID r
      \<and> erp_DatasetID rep = run_DatasetID r \<and> erp_RunStatus rep = run_Status r \<and> erp_Status rep = EvalReportStatusReady
      \<and> erp_TotalItems rep = int (length (itemsOf s k)) \<and> erp_RecordedResults rep = int (length (itemsOf s k))
      \<and> erp_MissingResults rep = 0
      \<and> erp_PassedItems rep = (if run_Status r = RunStatusSucceeded then int (length (itemsOf s k)) else 0)
      \<and> erp_FailedItems rep = (if run_Status r = RunStatusSucceeded then 0 else int (length (itemsOf s k)))
      \<and> erp_AverageScore rep = sum_list (map irs_Score rs) / real (length rs)
      \<and> map bad_EvalCaseID (erp_BadCases rep) = map irs_EvalCaseID (filter isBad rs)
      \<and> (\<forall>b \<in> set (erp_BadCases rep). \<exists>it \<in> set (itemsOf s k). \<exists>x \<in> set rs.
           rit_EvalCaseID it = irs_EvalCaseID x \<and> b = badCaseOf it x))"

lemma tallyResult_simps:
  "tly_TotalScore (tallyResult env m r t) = tly_TotalScore t + irs_Score r"
  "tly_BadCases (tallyResult env m r t) = tly_BadCases t @
     (case m (irs_EvalCaseID r) of None \<Rightarrow> [] | Some item \<Rightarrow> if isBad r then [badCaseOf item r] else [])"
  by (simp_all add: tallyResult_def Let_def split: option.split)

lemma fold_tally:
  assumes "\<forall>r \<in> set rs. m (irs_EvalCaseID r) = Some (f r)"
  shows "tly_TotalScore (fold (tallyResult env m) rs t) = tly_TotalScore t + sum_list (map irs_Score rs)
    \<and> tly_BadCases (fold (tallyResult env m) rs t) = tly_BadCases t @ map (\<lambda>r. badCaseOf (f r) r) (filter isBad rs)"
  using assms by (induction rs arbitrary: t) (simp_all add: tallyResult_simps)

lemma itemByCaseID_mem:
  "distinct (map rit_EvalCaseID items) \<Longrightarrow> it \<in> set items \<Longrightarrow> itemByCaseID items (rit_EvalCaseID it) = Some it"
  by (simp add: itemByCaseID_def map_of_eq_Some_iff rev_map [symmetric] o_def)

lemma finished_report:
  assumes "runStoreOK s" "est_runs s k = Some r" "finishedStatus (run_Status r)"
    and "\<And>m. \<exists>json. ren_Encode env m = Inr json"
  shows "\<exists>rep. MaterializeRunReport env k s = (Inr rep, snd (eval_SaveEvalReport rep s)) \<and> reportsRun s k rep"
proof -
  have "runRecordOK (Some r) (map rve_Action (runHistory s k)) (itemsOf s k) (est_runItemResults s k)"
    using assms(1,2) by (metis runStoreOK_def runOK_def)
  then obtain rs where rs: "est_runItemResults s k = Some rs" "judgedFor (itemsOf s k) (run_Status r) rs"
    and items: "itemsOf s k \<noteq> []" "distinct (map rit_EvalCaseID (itemsOf s k))"
      "run_DatasetItemCount r = int (length (itemsOf s k))"
    using assms(3) by (auto simp: runRecordOK_def)
  have ids: "map irs_EvalCaseID rs = map rit_EvalCaseID (itemsOf s k)" "\<forall>x \<in> set rs. irs_Status x = run_Status r"
    using rs(2) by (simp_all add: judgedFor_def)
  then have len: "length rs = length (itemsOf s k)" by (metis length_map)
  have "\<forall>x \<in> set rs. \<exists>it \<in> set (itemsOf s k). rit_EvalCaseID it = irs_EvalCaseID x"
    using ids(1) by (metis (no_types, lifting) imageE image_eqI list.set_map)
  then obtain f where f: "\<forall>x \<in> set rs. f x \<in> set (itemsOf s k) \<and> rit_EvalCaseID (f x) = irs_EvalCaseID x" by metis
  then have m: "\<forall>x \<in> set rs. itemByCaseID (itemsOf s k) (irs_EvalCaseID x) = Some (f x)"
    using itemByCaseID_mem [OF items(2)] by metis
  define summary where "summary = \<lparr>rsm_TotalItems = int (length rs), rsm_RecordedResults = int (length rs),
      rsm_SucceededItems = int (length (filter (\<lambda>x. irs_Status x = RunItemResultSucceeded) rs)),
      rsm_FailedItems = int (length (filter (\<lambda>x. irs_Status x = RunItemResultFailed) rs)), rsm_MissingResults = 0\<rparr>"
  let ?run = "withRunResultSummary r rs"
  have sum: "run_ResultSummary ?run = Some summary"
    using items(1,3) len by (auto simp: withRunResultSummary_def summarizeRunResultsForTotal_def summary_def Let_def)
  have run: "run_Status ?run = run_Status r" "run_ID ?run = run_ID r" "run_TenantID ?run = run_TenantID r"
      "run_DatasetID ?run = run_DatasetID r"
    by (simp_all add: withRunResultSummary_def)
  define tally where "tally = fold (tallyResult env (itemByCaseID (itemsOf s k))) rs
      \<lparr>tly_BadCases = [], tly_JudgeVersions = [], tly_PromptPaths = [], tly_VersionIDs = [], tly_TotalScore = 0\<rparr>"
  define readyAt where "readyAt = (if run_FinishedAt ?run = zeroTime then run_UpdatedAt ?run else run_FinishedAt ?run)"
  obtain json where enc: "ren_Encode env (reportMetadata env ?run summary tally readyAt) = Inr json"
    using assms(4) by blast
  let ?rep = "reportFrom env ?run summary tally readyAt json"
  have "eval_GetRunDetail k s = Inr \<lparr>rdt_Run = ?run, rdt_Events = runHistory s k, rdt_Items = itemsOf s k, rdt_ItemResults = rs\<rparr>"
    using assms(2) rs(1) by (simp add: eval_GetRunDetail_def entries_def [of "est_runItemResults s"])
  moreover have "buildEvalReport env \<lparr>rdt_Run = ?run, rdt_Events = runHistory s k, rdt_Items = itemsOf s k, rdt_ItemResults = rs\<rparr>
      = Inr ?rep"
    using assms(3) sum run(1) enc
    by (simp add: buildEvalReport_def finishedStatus_def Let_def tally_def [symmetric] readyAt_def [symmetric])
  ultimately have made: "MaterializeRunReport env k s = (Inr ?rep, snd (eval_SaveEvalReport ?rep s))"
    by (simp add: MaterializeRunReport_def eval_SaveEvalReport_def)
  have tly: "tly_TotalScore tally = sum_list (map irs_Score rs)"
      "tly_BadCases tally = map (\<lambda>x. badCaseOf (f x) x) (filter isBad rs)"
    using fold_tally [OF m, of env] by (simp_all add: tally_def)
  have counts: "rsm_SucceededItems summary = (if run_Status r = RunStatusSucceeded then int (length rs) else 0)"
      "rsm_FailedItems summary = (if run_Status r = RunStatusSucceeded then 0 else int (length rs))"
    using ids(2) assms(3) by (auto simp: summary_def finishedStatus_def filter_empty_conv)
  have "0 < length rs" using items(1) len by simp
  then have "reportsRun s k ?rep"
    unfolding reportsRun_def using assms(2) rs(1) run len tly counts f runStoreOK_keyed [OF assms(1,2)]
    by (auto simp: reportFrom_def Let_def summary_def badCaseOf_def o_def)
  with made show ?thesis by blast
qed

subsection \<open>Finishing one run\<close>

lemma failRunWith_moves:
  assumes "run_judge judge" "runStoreOK s" "failRunWith judge context svc k reason s w = (res, s', w')"
  shows "runMoves s s'"
proof (cases "\<exists>r. est_runs s k = Some r \<and> run_Status r = RunStatusRunning")
  case True
  then obtain r where r: "est_runs s k = Some r" "run_Status r = RunStatusRunning" by blast
  note k = runStoreOK_keyed [OF assms(2) r(1)]
  obtain t w1 where t: "rsn_Now svc w = (t, w1)" by force
  obtain out w2 where out: "jdg_Build judge (itemsOf s k) RunItemResultFailed (trimSpace reason) t w1 = (out, w2)" by force
  show ?thesis
  proof (cases out)
    case (Inl err)
    then have "s' = s" using assms(3) r(1) t out by (simp add: failRunWith_def eval_GetRunDetail_def Let_def)
    then show ?thesis by (simp add: unmoved)
  next
    case (Inr rs)
    then have "judgedFor (itemsOf s k) RunItemResultFailed rs"
      using run_judge.build_judged [OF assms(1)] out by (metis fst_conv)
    moreover have "s' = moveRun k (finishedRun RunStatusFailed (trimSpace reason) t r) (Some rs)
        (runEventFor k RunEventFailed ''worker'' (trimSpace reason) t) s"
      using assms(3) r(1) t out Inr by (simp add: failRunWith_def eval_GetRunDetail_def Let_def markFailed_running [OF r k])
    ultimately show ?thesis using runMoves_one [OF legal_failed [OF r]] by simp
  qed
next
  case False
  have "s' = s" using assms(3) mark_not_running(2) [OF False]
    by (auto simp: failRunWith_def Let_def split: sum.splits prod.splits) (metis snd_conv)
  then show ?thesis by (simp add: unmoved)
qed

lemma MarkRunSucceeded_moves:
  assumes "run_judge (rsn_Judge svc)" "runStoreOK s" "MarkRunSucceeded svc k s w = (res, s', w')"
  shows "runMoves s s'"
proof (cases "\<exists>r. est_runs s k = Some r \<and> run_Status r = RunStatusRunning")
  case True
  then obtain r where r: "est_runs s k = Some r" "run_Status r = RunStatusRunning" by blast
  note k = runStoreOK_keyed [OF assms(2) r(1)]
  obtain t w1 where t: "rsn_Now svc w = (t, w1)" by force
  obtain out w2 where out: "jdg_Build (rsn_Judge svc) (itemsOf s k) RunItemResultSucceeded ''placeholder eval passed'' t w1 = (out, w2)"
    by force
  show ?thesis
  proof (cases out)
    case (Inl err)
    then have "s' = s" using assms(3) r(1) t out by (simp add: MarkRunSucceeded_def eval_GetRunDetail_def Let_def)
    then show ?thesis by (simp add: unmoved)
  next
    case (Inr rs)
    then have "judgedFor (itemsOf s k) RunItemResultSucceeded rs"
      using run_judge.build_judged [OF assms(1)] out by (metis fst_conv)
    moreover have "s' = moveRun k (finishedRun RunStatusSucceeded [] t r) (Some rs)
        (runEventFor k RunEventSucceeded ''worker'' RunStatusSucceeded t) s"
      using assms(3) r(1) t out Inr by (simp add: MarkRunSucceeded_def eval_GetRunDetail_def Let_def markSucceeded_running [OF r k])
    ultimately show ?thesis using runMoves_one [OF legal_succeeded [OF r]] by simp
  qed
next
  case False
  have "s' = s" using assms(3) mark_not_running(1) [OF False]
    by (auto simp: MarkRunSucceeded_def Let_def split: sum.splits prod.splits) (metis snd_conv)
  then show ?thesis by (simp add: unmoved)
qed

lemma MaterializeRunReport_moves: "runMoves s (snd (MaterializeRunReport env k s))"
proof -
  have "snd (MaterializeRunReport env k s) = s \<or> (\<exists>rep. snd (MaterializeRunReport env k s) = snd (eval_SaveEvalReport rep s))"
    by (auto simp: MaterializeRunReport_def Let_def split: sum.split prod.split) (metis snd_conv)
  then show ?thesis by (metis runMoves.intros)
qed

text \<open>
  What the calls that finish the claimed run \<open>k\<close> leave of the store: the run is in the status and
  with results, and nothing but its own record, results, events and report is written.
\<close>

definition finishedOnly :: "evalStore \<Rightarrow> string \<Rightarrow> string \<Rightarrow> evalStore \<Rightarrow> bool" where
  "finishedOnly s k status s' \<longleftrightarrow>
     runMoves s s' \<and> map_option run_Status (est_runs s' k) = Some status \<and> finishedStatus status
   \<and> (\<forall>k'. k' \<noteq> k \<longrightarrow> sameAt s s' k') \<and> est_evalReports s' = est_evalReports s"

lemma failRunWith_running:
  assumes "run_judge judge" "runStoreOK s" "est_runs s k = Some r" "run_Status r = RunStatusRunning"
    and "failRunWith judge context svc k reason s w = (res, s', w')"
  shows "(\<exists>err. res = Inl err \<and> s' = s) \<or> (\<exists>r'. res = Inr r' \<and> finishedOnly s k RunStatusFailed s')"
proof -
  note k = runStoreOK_keyed [OF assms(2,3)]
  obtain t w1 where t: "rsn_Now svc w = (t, w1)" by force
  obtain out w2 where out: "jdg_Build judge (itemsOf s k) RunItemResultFailed (trimSpace reason) t w1 = (out, w2)" by force
  show ?thesis
  proof (cases out)
    case (Inl err)
    then show ?thesis using assms(3,5) t out by (auto simp: failRunWith_def eval_GetRunDetail_def Let_def)
  next
    case (Inr rs)
    then have "res = Inr (finishedRun RunStatusFailed (trimSpace reason) t r)"
      "s' = moveRun k (finishedRun RunStatusFailed (trimSpace reason) t r) (Some rs)
        (runEventFor k RunEventFailed ''worker'' (trimSpace reason) t) s"
      using assms(3,5) t out
      by (simp_all add: failRunWith_def eval_GetRunDetail_def Let_def markFailed_running [OF assms(3,4) k])
    then show ?thesis using failRunWith_moves [OF assms(1,2,5)] by (simp add: finishedOnly_def finishedStatus_def)
  qed
qed

lemma MarkRunSucceeded_running:
  assumes "run_judge (rsn_Judge svc)" "runStoreOK s" "est_runs s k = Some r" "run_Status r = RunStatusRunning"
    and "MarkRunSucceeded svc k s w = (res, s', w')"
  shows "(\<exists>err. res = Inl err \<and> s' = s) \<or> (\<exists>r'. res = Inr r' \<and> finishedOnly s k RunStatusSucceeded s')"
proof -
  note k = runStoreOK_keyed [OF assms(2,3)]
  obtain t w1 where t: "rsn_Now svc w = (t, w1)" by force
  obtain out w2 where out: "jdg_Build (rsn_Judge svc) (itemsOf s k) RunItemResultSucceeded ''placeholder eval passed'' t w1 = (out, w2)"
    by force
  show ?thesis
  proof (cases out)
    case (Inl err)
    then show ?thesis using assms(3,5) t out by (auto simp: MarkRunSucceeded_def eval_GetRunDetail_def Let_def)
  next
    case (Inr rs)
    then have "res = Inr (finishedRun RunStatusSucceeded [] t r)"
      "s' = moveRun k (finishedRun RunStatusSucceeded [] t r) (Some rs)
        (runEventFor k RunEventSucceeded ''worker'' RunStatusSucceeded t) s"
      using assms(3,5) t out
      by (simp_all add: MarkRunSucceeded_def eval_GetRunDetail_def Let_def markSucceeded_running [OF assms(3,4) k])
    then show ?thesis using MarkRunSucceeded_moves [OF assms(1,2,5)] by (simp add: finishedOnly_def finishedStatus_def)
  qed
qed

lemma placeholder_never_fails:
  assumes "est_runs s k = Some r" "run_Status r = RunStatusRunning" "run_ID r = k"
  shows "\<exists>r' s' w'. failRunWith (PlaceholderJudge encode) context svc k reason s w = (Inr r', s', w')"
  using assms
  by (auto simp: failRunWith_def eval_GetRunDetail_def PlaceholderJudge_def Let_def markFailed_running split: prod.split)

subsection \<open>A batch\<close>

text \<open>What the worker relies on of its services.\<close>

definition workerOK :: "'w evalRunner \<Rightarrow> bool" where
  "workerOK r \<longleftrightarrow>
     run_judge (rsn_Judge (evr_Service r)) \<and> (\<exists>encode. rsn_Fallback (evr_Service r) = PlaceholderJudge encode)
   \<and> (\<forall>env. evr_Reports r = Some env \<longrightarrow> (\<forall>m. \<exists>json. ren_Encode env m = Inr json))"

definition runDone :: "'w evalRunner \<Rightarrow> evalStore \<Rightarrow> string \<Rightarrow> evalStore \<Rightarrow> bool" where
  "runDone r s k s' \<longleftrightarrow>
     runMoves s s' \<and> (\<exists>x. est_runs s' k = Some x \<and> finishedStatus (run_Status x)) \<and> (\<forall>k'. k' \<noteq> k \<longrightarrow> sameAt s s' k')
   \<and> (case evr_Reports r of
        None \<Rightarrow> est_evalReports s' = est_evalReports s
      | Some _ \<Rightarrow> \<exists>rep. est_evalReports s' = (est_evalReports s)(EvalReportIDFromRunID k \<mapsto> rep) \<and> reportsRun s' k rep)"

lemma reportsRun_cong: "sameAt s t k \<Longrightarrow> reportsRun s k rep \<Longrightarrow> reportsRun t k rep"
  unfolding sameAt_def reportsRun_def by (elim conjE) (simp only:)

lemma materialize_done:
  assumes "workerOK r" "runStoreOK s" "finishedOnly s k status s1" "\<not> cancelled \<or> evr_OnCancelled r = None"
  shows "\<exists>s2. materializeRunReport r cancelled k s1 = (None, s2) \<and> runDone r s k s2"
proof -
  have f: "runMoves s s1" "\<forall>k'. k' \<noteq> k \<longrightarrow> sameAt s s1 k'" "est_evalReports s1 = est_evalReports s"
    using assms(3) by (simp_all add: finishedOnly_def)
  obtain x where x: "est_runs s1 k = Some x" "finishedStatus (run_Status x)"
    using assms(3) by (auto simp: finishedOnly_def)
  show ?thesis
  proof (cases "evr_Reports r")
    case None
    then show ?thesis using f x by (auto simp: materializeRunReport_def runDone_def)
  next
    case (Some env)
    have enc: "\<And>m. \<exists>json. ren_Encode env m = Inr json" using assms(1) Some by (simp add: workerOK_def)
    obtain rep where rep: "MaterializeRunReport env k s1 = (Inr rep, snd (eval_SaveEvalReport rep s1))" "reportsRun s1 k rep"
      using finished_report [OF runMoves_OK [OF f(1) assms(2)] x enc] by blast
    let ?s2 = "snd (eval_SaveEvalReport rep s1)"
    have "materializeRunReport r cancelled k s1 = (None, ?s2)"
      using Some rep(1) assms(4) by (auto simp: materializeRunReport_def)
    moreover have "reportsRun ?s2 k rep" by (rule reportsRun_cong [OF sameAt_report rep(2)])
    moreover have "erp_ID rep = EvalReportIDFromRunID k" using rep(2) by (auto simp: reportsRun_def)
    moreover have "\<forall>k'. k' \<noteq> k \<longrightarrow> sameAt s ?s2 k'" using f(2) sameAt_trans sameAt_report by blast
    ultimately have "runDone r s k ?s2" using Some x f(3) runMoves.reported [OF f(1)] by (auto simp: runDone_def)
    with \<open>materializeRunReport r cancelled k s1 = (None, ?s2)\<close> show ?thesis by blast
  qed
qed

lemma fallback_finishes:
  assumes "workerOK r" "runStoreOK s" "est_runs s k = Some c" "run_Status c = RunStatusRunning"
  shows "\<exists>r' s' w'. MarkRunFailedWithFallback (evr_Service r) k reason s w = (Inr r', s', w')
    \<and> finishedOnly s k RunStatusFailed s'"
proof -
  obtain encode where e: "rsn_Fallback (evr_Service r) = PlaceholderJudge encode" using assms(1) by (auto simp: workerOK_def)
  obtain r' s' w' where m: "failRunWith (PlaceholderJudge encode) ''build fallback failed item results: '' (evr_Service r) k reason s w = (Inr r', s', w')"
    using placeholder_never_fails [OF assms(3,4) runStoreOK_keyed [OF assms(2,3)],
        where encode = encode and svc = "evr_Service r" and reason = reason and w = w] by metis
  then have "finishedOnly s k RunStatusFailed s'"
    using failRunWith_running [OF placeholder_judge.run_judge_axioms assms(2-4) m] by simp
  with m e show ?thesis by (simp add: MarkRunFailedWithFallback_def)
qed

text \<open>Failing the run: the judge is asked first, the fallback judge when it does not answer.\<close>

lemma failClaimedRun_finishes:
  assumes "workerOK r" "runStoreOK s" "est_runs s (run_ID c) = Some c" "run_Status c = RunStatusRunning"
  shows "\<exists>s1 w1. finishedOnly s (run_ID c) RunStatusFailed s1
    \<and> failClaimedRun r c reason s w = (let (e, s2) = materializeRunReport r True (run_ID c) s1 in (e, s2, w1))"
proof -
  have j: "run_judge (rsn_Judge (evr_Service r))" using assms(1) by (simp add: workerOK_def)
  obtain res s1 w1 where m: "MarkRunFailed (evr_Service r) (run_ID c) reason s w = (res, s1, w1)" by (metis surj_pair)
  then consider (fails) err where "res = Inl err" "s1 = s" | (done') r' where "res = Inr r'" "finishedOnly s (run_ID c) RunStatusFailed s1"
    using failRunWith_running [OF j assms(2-4)] unfolding MarkRunFailed_def by metis
  then show ?thesis
  proof cases
    case fails
    obtain r' s2 w2 where "MarkRunFailedWithFallback (evr_Service r) (run_ID c)
        (summarizeRunJudgeFailure reason (evalErrorText err)) s w1 = (Inr r', s2, w2)" "finishedOnly s (run_ID c) RunStatusFailed s2"
      using fallback_finishes [OF assms] by blast
    then show ?thesis using m fails by (auto simp: failClaimedRun_def)
  next
    case done'
    then show ?thesis using m by (auto simp: failClaimedRun_def)
  qed
qed

lemma succeedClaimedRun_finishes:
  assumes "workerOK r" "runStoreOK s" "est_runs s (run_ID c) = Some c" "run_Status c = RunStatusRunning"
  shows "\<exists>s1 w1 status cancelled. finishedOnly s (run_ID c) status s1
    \<and> succeedClaimedRun r c s w = (let (e, s2) = materializeRunReport r cancelled (run_ID c) s1 in (e, s2, w1))"
proof -
  have j: "run_judge (rsn_Judge (evr_Service r))" using assms(1) by (simp add: workerOK_def)
  obtain res s1 w1 where m: "MarkRunSucceeded (evr_Service r) (run_ID c) s w = (res, s1, w1)" by (metis surj_pair)
  then consider (fails) err where "res = Inl err" "s1 = s" | (done') r' where "res = Inr r'" "finishedOnly s (run_ID c) RunStatusSucceeded s1"
    using MarkRunSucceeded_running [OF j assms(2-4)] by metis
  then show ?thesis
  proof cases
    case fails
    obtain r' s2 w2 where "MarkRunFailedWithFallback (evr_Service r) (run_ID c)
        (summarizeRunJudgeFailure ''eval judge failed after successful execution'' (evalErrorText err)) s w1 = (Inr r', s2, w2)"
        "finishedOnly s (run_ID c) RunStatusFailed s2"
      using fallback_finishes [OF assms] by blast
    then show ?thesis using m fails by (auto simp: succeedClaimedRun_def)
  next
    case done'
    then show ?thesis using m by (auto simp: succeedClaimedRun_def)
  qed
qed

lemma processRun_done:
  assumes "workerOK r" "evr_OnCancelled r = None" "runStoreOK s" "est_runs s (run_ID c) = Some c" "run_Status c = RunStatusRunning"
  shows "\<exists>s' w'. processRun r c s w = (None, s', w') \<and> runDone r s (run_ID c) s'"
proof -
  obtain out w1 where ex: "evr_Executor r s c w = (out, w1)" by force
  have "\<exists>s1 w2 status cancelled. finishedOnly s (run_ID c) status s1
      \<and> processRun r c s w = (let (e, s2) = materializeRunReport r cancelled (run_ID c) s1 in (e, s2, w2))"
  proof (cases out)
    case None
    then show ?thesis using succeedClaimedRun_finishes [OF assms(1,3-5), of w1] ex by (simp add: processRun_def)
  next
    case (Some reason)
    then show ?thesis using failClaimedRun_finishes [OF assms(1,3-5), of reason w1] ex by (simp add: processRun_def) blast
  qed
  then obtain s1 w2 status cancelled where p: "finishedOnly s (run_ID c) status s1"
      "processRun r c s w = (let (e, s2) = materializeRunReport r cancelled (run_ID c) s1 in (e, s2, w2))" by blast
  then show ?thesis using materialize_done [OF assms(1,3) p(1), of cancelled] assms(2) by auto
qed

lemma EvalReportIDFromRunID_inj [simp]: "EvalReportIDFromRunID a = EvalReportIDFromRunID b \<longleftrightarrow> a = b"
  by (simp add: EvalReportIDFromRunID_def)

text \<open>A finished run with its report, where reports are configured.\<close>

definition settledRun :: "'w evalRunner \<Rightarrow> evalStore \<Rightarrow> string \<Rightarrow> bool" where
  "settledRun r s k \<longleftrightarrow>
     (\<exists>x. est_runs s k = Some x \<and> finishedStatus (run_Status x))
   \<and> (evr_Reports r \<noteq> None \<longrightarrow> (\<exists>rep. est_evalReports s (EvalReportIDFromRunID k) = Some rep \<and> reportsRun s k rep))"

lemma runDone_settled: "runDone r s k s' \<Longrightarrow> settledRun r s' k"
  by (auto simp: runDone_def settledRun_def)

lemma settledRun_kept: "settledRun r s k \<Longrightarrow> runDone r s k' s' \<Longrightarrow> k' \<noteq> k \<Longrightarrow> settledRun r s' k"
proof -
  assume a: "settledRun r s k" "runDone r s k' s'" "k' \<noteq> k"
  then have same: "sameAt s s' k" by (auto simp: runDone_def)
  have "est_evalReports s' (EvalReportIDFromRunID k) = est_evalReports s (EvalReportIDFromRunID k)"
    using a(2,3) by (auto simp: runDone_def split: option.splits)
  then show ?thesis using a(1) same reportsRun_cong [OF same] by (auto simp: settledRun_def sameAt_def)
qed

lemma processRuns_done:
  assumes "workerOK r" "evr_OnCancelled r = None" "runStoreOK s" "distinct (map run_ID cs)"
    and "\<forall>c \<in> set cs. est_runs s (run_ID c) = Some c \<and> run_Status c = RunStatusRunning"
  shows "\<exists>s' w'. processRuns r cs s w = (None, s', w') \<and> runMoves s s'
    \<and> (\<forall>k. settledRun r s k \<and> k \<notin> run_ID ` set cs \<longrightarrow> settledRun r s' k)
    \<and> (\<forall>c \<in> set cs. settledRun r s' (run_ID c)) \<and> (\<forall>k. k \<notin> run_ID ` set cs \<longrightarrow> sameAt s s' k)"
  using assms(3-5)
proof (induction cs arbitrary: s w)
  case Nil
  then show ?case by (auto intro: unmoved)
next
  case (Cons c cs)
  obtain s1 w1 where one: "processRun r c s w = (None, s1, w1)" "runDone r s (run_ID c) s1"
    using processRun_done [OF assms(1,2) Cons.prems(1)] Cons.prems(3) by fastforce
  have moves: "runMoves s s1" and same: "\<forall>k. k \<noteq> run_ID c \<longrightarrow> sameAt s s1 k"
    using one(2) by (auto simp: runDone_def)
  have new: "run_ID c \<notin> run_ID ` set cs" "distinct (map run_ID cs)" using Cons.prems(2) by auto
  then have other: "\<forall>x \<in> set cs. run_ID x \<noteq> run_ID c" by (metis image_eqI)
  then have "\<forall>x \<in> set cs. est_runs s1 (run_ID x) = Some x \<and> run_Status x = RunStatusRunning"
    using Cons.prems(3) same by (simp add: sameAt_def)
  from Cons.IH [OF runMoves_OK [OF moves Cons.prems(1)] new(2) this, of w1] obtain s2 w2 where
    rest: "processRuns r cs s1 w1 = (None, s2, w2)" "runMoves s1 s2"
      "\<forall>k. settledRun r s1 k \<and> k \<notin> run_ID ` set cs \<longrightarrow> settledRun r s2 k"
      "\<forall>c \<in> set cs. settledRun r s2 (run_ID c)" "\<forall>k. k \<notin> run_ID ` set cs \<longrightarrow> sameAt s1 s2 k" by blast
  have "settledRun r s2 (run_ID c)" using rest(3) new(1) runDone_settled [OF one(2)] by blast
  moreover have "settledRun r s2 k" if "settledRun r s k" "k \<notin> run_ID ` set (c # cs)" for k
    using that rest(3) settledRun_kept [OF that(1) one(2)] by auto
  moreover have "sameAt s s2 k" if "k \<notin> run_ID ` set (c # cs)" for k
    using that same rest(5) sameAt_trans by auto
  ultimately show ?case using one(1) rest(1,4) runMoves_trans [OF rest(2) moves] by auto
qed

text \<open>
  C13: A batch of the worker on a store that does not mind cancelled contexts always returns, and
  finishes exactly the oldest queued runs, as many as it may claim: each ends as succeeded or
  failed with a result for each of its items, whatever the executor and the judge do, and its
  report, where reports are configured, says so.  No other run is touched.
\<close>

theorem eval_batch_settles:
  assumes "runStoreOK s" "iterOrder (est_runs s) ks" "workerOK r" "evr_OnCancelled r = None" "0 < limit"
    and "qs = take (nat limit) (queuedRuns ks s)"
  shows "\<exists>s' w'. eval_ProcessNextBatch r ks limit s w = Some (Inr (int (length qs)), s', w')
    \<and> runStoreOK s' \<and> runsKept s s' \<and> sorted_wrt runClaimedBefore (queuedRuns ks s)
    \<and> (\<forall>q \<in> set qs. settledRun r s' (run_ID q)) \<and> (\<forall>k. k \<notin> run_ID ` set qs \<longrightarrow> sameAt s s' k)"
proof -
  obtain t w1 where t: "rsn_Now (evr_Service r) w = (t, w1)" by force
  let ?cs = "map (claimedRun t) qs"
  obtain s1 where claim: "eval_ClaimQueuedRuns ks limit t s = Some (?cs, s1)" "runMoves s s1"
      "\<forall>q \<in> set qs. est_runs s1 (run_ID q) = Some (claimedRun t q)"
      "\<forall>k. k \<notin> run_ID ` set qs \<longrightarrow> sameAt s s1 k"
    using claim_runs [OF assms(1,2,5), of t] assms(6) by blast
  have ids: "run_ID ` set ?cs = run_ID ` set qs" by (simp add: image_image)
  have "distinct (map run_ID qs)"
    using queuedRuns_facts(1) [OF assms(1,2)] by (simp add: assms(6) take_map [symmetric])
  then have dist: "distinct (map run_ID ?cs)" by (simp add: o_def)
  have "\<forall>c \<in> set ?cs. est_runs s1 (run_ID c) = Some c \<and> run_Status c = RunStatusRunning" using claim(3) by simp
  from processRuns_done [OF assms(3,4) runMoves_OK [OF claim(2) assms(1)] dist this, of w1] obtain s2 w2 where
    run: "processRuns r ?cs s1 w1 = (None, s2, w2)" "runMoves s1 s2"
      "\<forall>c \<in> set ?cs. settledRun r s2 (run_ID c)" "\<forall>k. k \<notin> run_ID ` set ?cs \<longrightarrow> sameAt s1 s2 k" by blast
  note moves = runMoves_trans [OF run(2) claim(2)]
  have "eval_ProcessNextBatch r ks limit s w = Some (Inr (int (length qs)), s2, w2)"
    using t claim(1) run(1) assms(5) by (simp add: eval_ProcessNextBatch_def ClaimQueuedRuns_def)
  moreover have "\<forall>q \<in> set qs. settledRun r s2 (run_ID q)" using run(3) by simp
  moreover have "\<forall>k. k \<notin> run_ID ` set qs \<longrightarrow> sameAt s s2 k"
    using run(4) claim(4) sameAt_trans unfolding ids by blast
  moreover note runMoves_OK [OF moves assms(1)] runMoves_kept [OF moves] queuedRuns_facts(3) [OF assms(1,2)]
  ultimately show ?thesis by blast
qed

text \<open>
  C38: With a report store that respects its context a failed run loses its report: the context is
  cancelled before the report is made, so the batch ends with an error although the run was
  failed in order, and the runs it had claimed behind that one stay in the status running.
\<close>

theorem failed_run_strands_batch:
  assumes "runStoreOK s" "iterOrder (est_runs s) ks" "workerOK r" "0 < limit"
    and "evr_Reports r = Some env" "evr_OnCancelled r = Some err"
    and "queuedRuns ks s = q # qs" "\<And>s c w. run_ID c = run_ID q \<Longrightarrow> fst (evr_Executor r s c w) \<noteq> None"
  shows "\<exists>s' w'. eval_ProcessNextBatch r ks limit s w
      = Some (Inl (EvalOther (''materialize eval report: '' @ err)), s', w')
    \<and> map_option run_Status (est_runs s' (run_ID q)) = Some RunStatusFailed
    \<and> est_evalReports s' = est_evalReports s
    \<and> (\<forall>x \<in> set (take (nat limit - 1) qs). map_option run_Status (est_runs s' (run_ID x)) = Some RunStatusRunning)"
proof -
  obtain t w1 where t: "rsn_Now (evr_Service r) w = (t, w1)" by force
  let ?qs = "take (nat limit) (q # qs)"
  let ?rest = "take (nat limit - 1) qs"
  have qs: "?qs = q # ?rest" using assms(4) by (cases "nat limit") simp_all
  obtain s1 where claim: "eval_ClaimQueuedRuns ks limit t s = Some (map (claimedRun t) ?qs, s1)" "runMoves s s1"
      "\<forall>x \<in> set ?qs. est_runs s1 (run_ID x) = Some (claimedRun t x)" "est_evalReports s1 = est_evalReports s"
    using claim_runs [OF assms(1,2,4), of t] assms(7) by auto
  let ?c = "claimedRun t q"
  have ok: "runStoreOK s1" using runMoves_OK [OF claim(2) assms(1)] .
  have c: "est_runs s1 (run_ID ?c) = Some ?c" "run_Status ?c = RunStatusRunning" using claim(3) qs by simp_all
  obtain reason w2 where ex: "evr_Executor r s1 ?c w1 = (Some reason, w2)"
    using assms(8) [of ?c s1 w1] by (cases "evr_Executor r s1 ?c w1") auto
  obtain s2 w3 where f: "finishedOnly s1 (run_ID ?c) RunStatusFailed s2"
      "failClaimedRun r ?c reason s1 w2 = (let (e, s3) = materializeRunReport r True (run_ID ?c) s2 in (e, s3, w3))"
    using failClaimedRun_finishes [OF assms(3) ok c] by blast
  have "materializeRunReport r True (run_ID ?c) s2 = (Some (EvalOther (''materialize eval report: '' @ err)), s2)"
    using assms(5,6) by (simp add: materializeRunReport_def)
  then have "processRun r ?c s1 w1 = (Some (EvalOther (''materialize eval report: '' @ err)), s2, w3)"
    using ex f(2) by (simp add: processRun_def)
  then have "eval_ProcessNextBatch r ks limit s w = Some (Inl (EvalOther (''materialize eval report: '' @ err)), s2, w3)"
    using t claim(1) qs assms(4) by (simp add: eval_ProcessNextBatch_def ClaimQueuedRuns_def)
  moreover have "map_option run_Status (est_runs s2 (run_ID q)) = Some RunStatusFailed" "est_evalReports s2 = est_evalReports s"
    using f(1) claim(4) by (simp_all add: finishedOnly_def)
  moreover have "map_option run_Status (est_runs s2 (run_ID x)) = Some RunStatusRunning" if "x \<in> set ?rest" for x
  proof -
    have "distinct (map run_ID (q # qs))" using queuedRuns_facts(1) [OF assms(1,2)] assms(7) by simp
    moreover have "x \<in> set qs" using that by (rule in_set_takeD)
    ultimately have "run_ID x \<noteq> run_ID q" by (metis distinct.simps(2) image_eqI list.simps(9) set_map)
    then have "est_runs s2 (run_ID x) = est_runs s1 (run_ID x)" using f(1) by (simp add: finishedOnly_def sameAt_def)
    then show ?thesis using claim(3) that qs by simp
  qed
  ultimately show ?thesis by blast
qed

end
