(* ===== verification/Eval_Lifecycle.thy ===== *)
theory Eval_Lifecycle
  imports Eval_Laws
begin

text \<open>
  The evaluation services together: promotions, datasets, runs and reports in any order, each
  call as one step.  The invariant relates the cases, the datasets and the runs of the store; the
  steps never change a published dataset, an eval case or what a run evaluates.
\<close>

subsection \<open>The invariant\<close>

definition mintedBy :: "(time \<Rightarrow> u64 \<Rightarrow> string) \<Rightarrow> (string \<rightharpoonup> 'a) \<Rightarrow> u64 \<Rightarrow> bool" where
  "mintedBy mk m n \<longleftrightarrow> (\<forall>k \<in> dom m. \<exists>t w. k = mk t w \<and> w \<le> n)"

lemma mintedBy_mono:
  assumes "mintedBy mk m n" "n < - 1"
  shows "mintedBy mk m (n + 1)"
proof -
  have "\<exists>t w. k = mk t w \<and> w \<le> n + 1" if k: "k \<in> dom m" for k
  proof -
    obtain t w where "k = mk t w" "w \<le> n" using assms(1) k unfolding mintedBy_def by metis
    moreover have "w \<le> n + 1" using calculation(2) counter_grows [OF assms(2)] by simp
    ultimately show ?thesis by blast
  qed
  then show ?thesis by (simp add: mintedBy_def)
qed

lemma mintedBy_upd:
  assumes "mintedBy mk m n" "n < - 1"
  shows "mintedBy mk (m(mk t (n + 1) \<mapsto> x)) (n + 1)"
  using mintedBy_mono [OF assms] unfolding mintedBy_def by auto

definition datasetOK :: "evalDataset \<Rightarrow> bool" where
  "datasetOK d \<longleftrightarrow>
     eds_Items d \<noteq> [] \<and> distinct (map edi_EvalCaseID (eds_Items d))
   \<and> (eds_Status d = DatasetStatusDraft \<or> eds_Status d = DatasetStatusPublished)"

definition datasetsOK :: "evalStore \<Rightarrow> bool" where
  "datasetsOK s \<longleftrightarrow> keyedBy eds_ID (est_datasets s) \<and> (\<forall>k d. est_datasets s k = Some d \<longrightarrow> datasetOK d)"

text \<open>A run evaluates the items of its dataset, which is published.\<close>

definition snapshotOK :: "evalStore \<Rightarrow> string \<Rightarrow> evalRun \<Rightarrow> bool" where
  "snapshotOK s k r \<longleftrightarrow>
     (\<exists>d. est_datasets s (run_DatasetID r) = Some d \<and> eds_Status d = DatasetStatusPublished
        \<and> run_TenantID r = eds_TenantID d \<and> itemsOf s k = map runItemOf (eds_Items d))"

definition evalInv :: "evalState \<Rightarrow> bool" where
  "evalInv st \<longleftrightarrow>
     (let s = evl_Store st in
        caseIndexOK s \<and> mintedBy newEvalCaseID (est_byID s) (evl_CaseSeq st)
      \<and> datasetsOK s \<and> mintedBy newEvalDatasetID (est_datasets s) (evl_DatasetSeq st)
      \<and> runStoreOK s \<and> mintedBy newEvalRunID (est_runs s) (evl_RunSeq st)
      \<and> (\<forall>k r. est_runs s k = Some r \<longrightarrow> snapshotOK s k r))"

lemma evalInvD:
  assumes "evalInv st"
  shows "caseIndexOK (evl_Store st)" "mintedBy newEvalCaseID (est_byID (evl_Store st)) (evl_CaseSeq st)"
    "datasetsOK (evl_Store st)" "mintedBy newEvalDatasetID (est_datasets (evl_Store st)) (evl_DatasetSeq st)"
    "runStoreOK (evl_Store st)" "mintedBy newEvalRunID (est_runs (evl_Store st)) (evl_RunSeq st)"
    "est_runs (evl_Store st) k = Some r \<Longrightarrow> snapshotOK (evl_Store st) k r"
  using assms unfolding evalInv_def Let_def by blast+

lemma evalInvI:
  assumes "caseIndexOK (evl_Store st)" "mintedBy newEvalCaseID (est_byID (evl_Store st)) (evl_CaseSeq st)"
    "datasetsOK (evl_Store st)" "mintedBy newEvalDatasetID (est_datasets (evl_Store st)) (evl_DatasetSeq st)"
    "runStoreOK (evl_Store st)" "mintedBy newEvalRunID (est_runs (evl_Store st)) (evl_RunSeq st)"
    "\<And>k r. est_runs (evl_Store st) k = Some r \<Longrightarrow> snapshotOK (evl_Store st) k r"
  shows "evalInv st"
  using assms unfolding evalInv_def Let_def by blast

lemma caseIndexOK_cong:
  "est_byID t = est_byID s \<Longrightarrow> est_bySourceCase t = est_bySourceCase s \<Longrightarrow> caseIndexOK t = caseIndexOK s"
  unfolding caseIndexOK_def by (simp only:)

definition newEvalState :: evalState where
  "newEvalState = \<lparr>evl_Store = newMemoryStore, evl_CaseSeq = 0, evl_DatasetSeq = 0, evl_RunSeq = 0\<rparr>"

lemma evalInv_new [simp]: "evalInv newEvalState"
  by (simp add: evalInv_def newEvalState_def)
    (simp add: newMemoryStore_def mintedBy_def datasetsOK_def runStoreOK_def numbered_def runOK_def runRecordOK_def)

subsection \<open>What the steps keep\<close>

text \<open>Records that later steps may not change.\<close>

definition recordsKept :: "evalStore \<Rightarrow> evalStore \<Rightarrow> bool" where
  "recordsKept s t \<longleftrightarrow>
     est_byID s \<subseteq>\<^sub>m est_byID t
   \<and> (\<forall>k d. est_datasets s k = Some d \<and> eds_Status d = DatasetStatusPublished \<longrightarrow> est_datasets t k = Some d)
   \<and> (\<forall>k r. est_runs s k = Some r \<longrightarrow> itemsOf t k = itemsOf s k \<and> (\<exists>r'. est_runs t k = Some r' \<and> sameRun r r'))
   \<and> (\<forall>k. \<exists>es. runHistory t k = runHistory s k @ es)"

lemma recordsKept_refl [simp]: "recordsKept s s"
  by (simp add: recordsKept_def)

lemma recordsKept_trans:
  assumes "recordsKept s t" "recordsKept t u"
  shows "recordsKept s u"
proof -
  have "est_byID s \<subseteq>\<^sub>m est_byID u" using assms map_le_trans unfolding recordsKept_def by blast
  moreover have "itemsOf u k = itemsOf s k \<and> (\<exists>r'. est_runs u k = Some r' \<and> sameRun r r')"
    if "est_runs s k = Some r" for k r
    using that assms sameRun_trans unfolding recordsKept_def by metis
  moreover have "\<exists>es. runHistory u k = runHistory s k @ es" for k
    using assms append_assoc unfolding recordsKept_def by metis
  ultimately show ?thesis using assms unfolding recordsKept_def by blast
qed

lemma runMoves_history: "runMoves s t \<Longrightarrow> \<exists>es. runHistory t k = runHistory s k @ es"
proof (induction rule: runMoves.induct)
  case (moved s s1 k' r res e)
  have "\<exists>es. runHistory (moveRun k' r res e s1) k = runHistory s1 k @ es"
    by (simp add: moveRun_def appendRunEventLocked_def Let_def)
  then show ?case using moved.IH by (metis append_assoc)
qed (simp_all add: eval_SaveEvalReport_def)

lemma runMoves_recordsKept: "runMoves s t \<Longrightarrow> recordsKept s t"
  using runMoves_kept [of s t] runMoves_history [of s t]
  by (simp add: recordsKept_def runsKept_def map_le_def) (metis option_rel_Some1)

lemma evalInv_moves:
  assumes "evalInv st" "runMoves (evl_Store st) t"
  shows "evalInv (st\<lparr>evl_Store := t\<rparr>)"
proof -
  let ?s = "evl_Store st"
  have kept: "est_datasets t = est_datasets ?s" "est_byID t = est_byID ?s" "est_bySourceCase t = est_bySourceCase ?s"
      "est_runItems t = est_runItems ?s" "\<forall>k. rel_option sameRun (est_runs ?s k) (est_runs t k)"
    using runMoves_kept [OF assms(2)] by (simp_all add: runsKept_def)
  have "est_runs t k = None \<longleftrightarrow> est_runs ?s k = None" for k
    using kept(5) [rule_format, of k] by (cases "est_runs ?s k"; cases "est_runs t k") simp_all
  then have "dom (est_runs t) = dom (est_runs ?s)" by (simp add: dom_def)
  moreover have "snapshotOK t k r" if run: "est_runs t k = Some r" for k r
  proof -
    obtain r0 where "est_runs ?s k = Some r0" "sameRun r0 r"
      using kept(5) [rule_format, of k] run by (cases "est_runs ?s k") simp_all
    moreover from this(1) have "snapshotOK ?s k r0" by (rule evalInvD(7) [OF assms(1)])
    ultimately show ?thesis unfolding snapshotOK_def sameRun_def kept(1,4) by metis
  qed
  moreover have "datasetsOK t" using evalInvD(3) [OF assms(1)] kept(1) by (simp add: datasetsOK_def)
  ultimately show ?thesis
    using caseIndexOK_cong [OF kept(2,3)] evalInvD(1-6) [OF assms(1)] runMoves_OK [OF assms(2)] kept(1,2)
    by (intro evalInvI) (simp_all add: mintedBy_def)
qed

text \<open>Writing a dataset that is new or was a draft.\<close>

lemma evalInv_dataset:
  assumes "evalInv st" "datasetOK d" "eds_ID d = k"
    and "\<And>d0. est_datasets (evl_Store st) k = Some d0 \<Longrightarrow> eds_Status d0 = DatasetStatusDraft"
    and "mintedBy newEvalDatasetID ((est_datasets (evl_Store st))(k \<mapsto> d)) n"
  shows "evalInv (st\<lparr>evl_Store := (evl_Store st)\<lparr>est_datasets := (est_datasets (evl_Store st))(k \<mapsto> d)\<rparr>, evl_DatasetSeq := n\<rparr>)"
    and "recordsKept (evl_Store st) ((evl_Store st)\<lparr>est_datasets := (est_datasets (evl_Store st))(k \<mapsto> d)\<rparr>)"
proof -
  let ?s = "evl_Store st"
  let ?t = "?s\<lparr>est_datasets := (est_datasets ?s)(k \<mapsto> d)\<rparr>"
  have snap: "snapshotOK ?t i r" if "est_runs ?s i = Some r" for i r
  proof -
    have "snapshotOK ?s i r" using that by (rule evalInvD(7) [OF assms(1)])
    then show ?thesis using assms(4) by (force simp: snapshotOK_def)
  qed
  have "datasetsOK ?t"
    using evalInvD(3) [OF assms(1)] assms(2,3) by (simp add: datasetsOK_def keyedBy_upd)
  moreover have "runStoreOK ?t = runStoreOK ?s" by (rule runStoreOK_cong) simp_all
  moreover have "caseIndexOK ?t = caseIndexOK ?s" by (rule caseIndexOK_cong) simp_all
  ultimately show "evalInv (st\<lparr>evl_Store := ?t, evl_DatasetSeq := n\<rparr>)"
    using evalInvD(1-6) [OF assms(1)] assms(5) snap by (intro evalInvI) simp_all
  show "recordsKept ?s ?t" using assms(4) by (force simp: recordsKept_def)
qed

subsection \<open>The steps\<close>

text \<open>
  One call of a service at a time; the counters are below their maximum.  \<open>deps\<close> are the readers
  of the case service, \<open>svc\<close> holds the judge and the clock of the runs, \<open>env\<close> is what reports use.
\<close>

inductive evalStep ::
    "evalCaseDeps \<Rightarrow> 'w runService \<Rightarrow> reportEnv \<Rightarrow> evalState \<Rightarrow> evalState \<Rightarrow> bool" for deps svc env where
  promotes_case: "\<lbrakk>evl_CaseSeq st < - 1; PromoteCase deps now created id input st = (res, st')\<rbrakk>
    \<Longrightarrow> evalStep deps svc env st st'"
| creates_dataset: "\<lbrakk>evl_DatasetSeq st < - 1;
      CreateDataset (\<lambda>i. GetEvalCase deps i (evl_Store st)) now dinput st = (dres, st')\<rbrakk>
    \<Longrightarrow> evalStep deps svc env st st'"
| adds_item: "AddDatasetItem (\<lambda>i. GetEvalCase deps i (evl_Store st)) now id k ainput (evl_Store st) = (dres, s')
    \<Longrightarrow> evalStep deps svc env st (st\<lparr>evl_Store := s'\<rparr>)"
| publishes: "PublishDataset now id k pinput (evl_Store st) = (dres, s')
    \<Longrightarrow> evalStep deps svc env st (st\<lparr>evl_Store := s'\<rparr>)"
| creates_run: "\<lbrakk>evl_RunSeq st < - 1;
      CreateRun (\<lambda>i. eval_GetDataset i (evl_Store st)) now rinput st = (rres, st')\<rbrakk>
    \<Longrightarrow> evalStep deps svc env st st'"
| claims: "\<lbrakk>iterOrder (est_runs (evl_Store st)) ks;
      ClaimQueuedRuns svc ks limit (evl_Store st) w = Some (runs, s', w')\<rbrakk>
    \<Longrightarrow> evalStep deps svc env st (st\<lparr>evl_Store := s'\<rparr>)"
| succeeds: "MarkRunSucceeded svc k (evl_Store st) w = (rres, s', w')
    \<Longrightarrow> evalStep deps svc env st (st\<lparr>evl_Store := s'\<rparr>)"
| fails: "MarkRunFailed svc k reason (evl_Store st) w = (rres, s', w')
    \<Longrightarrow> evalStep deps svc env st (st\<lparr>evl_Store := s'\<rparr>)"
| falls_back: "MarkRunFailedWithFallback svc k reason (evl_Store st) w = (rres, s', w')
    \<Longrightarrow> evalStep deps svc env st (st\<lparr>evl_Store := s'\<rparr>)"
| retries: "RetryRun svc k (evl_Store st) w = (rres, s', w')
    \<Longrightarrow> evalStep deps svc env st (st\<lparr>evl_Store := s'\<rparr>)"
| reports: "MaterializeRunReport env k (evl_Store st) = (pres, s')
    \<Longrightarrow> evalStep deps svc env st (st\<lparr>evl_Store := s'\<rparr>)"

abbreviation evalSteps ::
    "evalCaseDeps \<Rightarrow> 'w runService \<Rightarrow> reportEnv \<Rightarrow> evalState \<Rightarrow> evalState \<Rightarrow> bool" where
  "evalSteps deps svc env \<equiv> (evalStep deps svc env)\<^sup>*\<^sup>*"

text \<open>What the steps rely on: readers that answer for the case asked for, and judges.\<close>

definition servicesOK :: "evalCaseDeps \<Rightarrow> 'w runService \<Rightarrow> bool" where
  "servicesOK deps svc \<longleftrightarrow>
     (\<forall>i c. evd_GetCase deps i = Inr c \<longrightarrow> cs_ID c = i)
   \<and> run_judge (rsn_Judge svc) \<and> run_judge (rsn_Fallback svc)"

definition stepOK :: "evalState \<Rightarrow> evalState \<Rightarrow> bool" where
  "stepOK st st' \<longleftrightarrow> evalInv st' \<and> recordsKept (evl_Store st) (evl_Store st')"

lemma stepOK_moves: "evalInv st \<Longrightarrow> runMoves (evl_Store st) t \<Longrightarrow> stepOK st (st\<lparr>evl_Store := t\<rparr>)"
  by (simp add: stepOK_def evalInv_moves runMoves_recordsKept)

lemma stepOK_refl: "evalInv st \<Longrightarrow> stepOK st st"
  by (simp add: stepOK_def)

lemma evalState_same [simp]: "st\<lparr>evl_Store := evl_Store st\<rparr> = st"
  by simp

subsubsection \<open>Datasets\<close>

lemma GetEvalCase_ID:
  assumes "caseIndexOK s" "GetEvalCase deps i s = Inr e"
  shows "evc_ID e = i"
proof -
  obtain x where "est_byID s i = Some x" "enrichEvalCase deps x = Inr e"
    using assms(2) by (auto simp: GetEvalCase_def eval_Get_def split: option.splits)
  moreover from this(1) have "evc_ID x = i" using assms(1) keyedByD unfolding caseIndexOK_def by metis
  ultimately show ?thesis using enrichEvalCase_shown shownAs_fields(1) by metis
qed

lemma datasetItemOf_ID [simp]: "edi_EvalCaseID (datasetItemOf e) = evc_ID e"
  by (simp add: datasetItemOf_def)

lemma datasetItemsFor_IDs:
  assumes "\<And>i e. getCase i = Inr e \<Longrightarrow> evc_ID e = i"
  shows "datasetItemsFor getCase t seen ids = Inr items \<Longrightarrow>
    map edi_EvalCaseID items = map trimSpace ids \<and> distinct (map trimSpace ids)
    \<and> (\<forall>i \<in> set ids. trimSpace i \<notin> set seen)"
proof (induction ids arbitrary: seen items)
  case Nil
  then show ?case by simp
next
  case (Cons i ids)
  then obtain e rest where step: "trimSpace i \<notin> set seen" "getCase (trimSpace i) = Inr e" "items = datasetItemOf e # rest"
      "datasetItemsFor getCase t (trimSpace i # seen) ids = Inr rest"
    by (auto simp: Let_def map_sum_def split: if_splits sum.splits)
  have "map edi_EvalCaseID rest = map trimSpace ids \<and> distinct (map trimSpace ids)
      \<and> (\<forall>j \<in> set ids. trimSpace j \<notin> set (trimSpace i # seen))" by (rule Cons.IH [OF step(4)])
  moreover have "evc_ID e = trimSpace i" by (rule assms [OF step(2)])
  moreover from calculation(1) have "trimSpace i \<notin> set (map trimSpace ids)" "\<forall>j \<in> set ids. trimSpace j \<notin> set seen"
    by fastforce+
  ultimately show ?case using step(1,3) by (simp del: set_map)
qed

lemma CreateDataset_step:
  assumes "evalInv st" "evl_DatasetSeq st < - 1"
    and "CreateDataset (\<lambda>i. GetEvalCase deps i (evl_Store st)) now input st = (res, st')"
  shows "stepOK st st'"
proof (cases res)
  case (Inl err)
  then have "st' = st" using assms(3)
    by (auto simp: CreateDataset_def eval_CreateDataset_def Let_def split: if_splits sum.splits)
  then show ?thesis using stepOK_refl [OF assms(1)] by simp
next
  case (Inr d)
  let ?k = "newEvalDatasetID now (evl_DatasetSeq st + 1)"
  obtain items where items: "datasetItemsFor (\<lambda>i. GetEvalCase deps i (evl_Store st)) (cdi_TenantID input) [] (cdi_EvalCaseIDs input) = Inr items"
    and ids: "cdi_EvalCaseIDs input \<noteq> []"
    and d: "eds_ID d = ?k" "eds_Items d = items" "eds_Status d = DatasetStatusDraft"
    and st': "st' = st\<lparr>evl_Store := (evl_Store st)\<lparr>est_datasets := (est_datasets (evl_Store st))(?k \<mapsto> d)\<rparr>,
        evl_DatasetSeq := evl_DatasetSeq st + 1\<rparr>"
    using assms(3) Inr
    by (auto simp: CreateDataset_def eval_CreateDataset_def Let_def split: if_splits sum.splits)
  have "map edi_EvalCaseID items = map trimSpace (cdi_EvalCaseIDs input) \<and> distinct (map trimSpace (cdi_EvalCaseIDs input))"
    using datasetItemsFor_IDs [OF _ items] GetEvalCase_ID [OF evalInvD(1) [OF assms(1)]] by blast
  then have "datasetOK d" using ids d by (auto simp: datasetOK_def)
  moreover have "?k \<notin> dom (est_datasets (evl_Store st))"
    using dataset_ids.mkID_fresh [OF _ counter_grows [OF assms(2)]] evalInvD(4) [OF assms(1)] unfolding mintedBy_def by metis
  then have "est_datasets (evl_Store st) ?k = None" by (simp add: domIff)
  moreover note mintedBy_upd [OF evalInvD(4) [OF assms(1)] assms(2), of now d]
  ultimately show ?thesis using evalInv_dataset [OF assms(1) _ d(1)] st' by (simp add: stepOK_def)
qed

text \<open>A write of a dataset by an operation that keeps its identifier and found it a draft.\<close>

lemma dataset_write_step:
  assumes "evalInv st" "est_datasets (evl_Store st) k = Some d0" "eds_Status d0 = DatasetStatusDraft"
    and "datasetOK d" "eds_ID d = k"
    and "s' = (evl_Store st)\<lparr>est_datasets := (est_datasets (evl_Store st))(k \<mapsto> d)\<rparr>"
  shows "stepOK st (st\<lparr>evl_Store := s'\<rparr>)"
proof -
  have "mintedBy newEvalDatasetID ((est_datasets (evl_Store st))(k \<mapsto> d)) (evl_DatasetSeq st)"
    using evalInvD(4) [OF assms(1)] assms(2) unfolding mintedBy_def by auto
  then show ?thesis
    using evalInv_dataset [OF assms(1,4,5), where n = "evl_DatasetSeq st"] assms(2,3,6) by (simp add: stepOK_def)
qed

lemma stored_dataset:
  assumes "evalInv st" "est_datasets (evl_Store st) k = Some d"
  shows "eds_ID d = k" "datasetOK d"
  using evalInvD(3) [OF assms(1)] assms(2) unfolding datasetsOK_def by (blast dest: keyedByD)+

lemma AddDatasetItem_step:
  assumes "evalInv st" "AddDatasetItem getCase now id k input (evl_Store st) = (res, s')"
  shows "stepOK st (st\<lparr>evl_Store := s'\<rparr>)"
proof (cases "s' = evl_Store st")
  case True
  then show ?thesis using stepOK_refl [OF assms(1)] by simp
next
  case False
  then obtain d e where d: "est_datasets (evl_Store st) k = Some d" "eds_Status d = DatasetStatusDraft"
      "\<not> (\<exists>m \<in> set (eds_Items d). edi_EvalCaseID m = evc_ID e)"
    and add: "eval_AddDatasetItem (eds_ID d) (datasetItemOf e) now (evl_Store st) = (res, s')"
    using assms(2) unfolding AddDatasetItem_def eval_GetDataset_def
    by (auto split: if_splits sum.splits option.splits)
  note k = stored_dataset [OF assms(1) d(1)]
  let ?d = "d\<lparr>eds_Items := eds_Items d @ [datasetItemOf e], eds_UpdatedAt := now\<rparr>"
  have "s' = (evl_Store st)\<lparr>est_datasets := (est_datasets (evl_Store st))(k \<mapsto> ?d)\<rparr>"
    using add d(1,3) k(1) by (simp add: eval_AddDatasetItem_def Let_def)
  moreover have "datasetOK ?d" using k(2) d(3) by (auto simp: datasetOK_def)
  ultimately show ?thesis using dataset_write_step [OF assms(1) d(1,2)] k(1) by simp
qed

lemma PublishDataset_step:
  assumes "evalInv st" "PublishDataset now id k input (evl_Store st) = (res, s')"
  shows "stepOK st (st\<lparr>evl_Store := s'\<rparr>)"
proof (cases "s' = evl_Store st")
  case True
  then show ?thesis using stepOK_refl [OF assms(1)] by simp
next
  case False
  then obtain d where d: "est_datasets (evl_Store st) k = Some d" "eds_Status d = DatasetStatusDraft"
    and publish: "eval_PublishDataset (eds_ID d) (fallbackString (trimSpace (pbi_PublishedBy input)) ''operator'') now (evl_Store st) = (res, s')"
    using assms(2) unfolding PublishDataset_def eval_GetDataset_def
    by (auto split: if_splits sum.splits option.splits)
  note k = stored_dataset [OF assms(1) d(1)]
  let ?d = "d\<lparr>eds_Status := DatasetStatusPublished, eds_PublishedBy := fallbackString (trimSpace (pbi_PublishedBy input)) ''operator'',
      eds_PublishedAt := now, eds_UpdatedAt := now\<rparr>"
  have "s' = (evl_Store st)\<lparr>est_datasets := (est_datasets (evl_Store st))(k \<mapsto> ?d)\<rparr>"
    using publish d k(1) by (simp add: eval_PublishDataset_def Let_def)
  moreover have "datasetOK ?d" using k(2) by (auto simp: datasetOK_def)
  ultimately show ?thesis using dataset_write_step [OF assms(1) d] k(1) by simp
qed

subsubsection \<open>Runs\<close>

lemma created_history:
  "runHistory (snd (eval_CreateRun r items s)) k = runHistory s k @
     (if k = run_ID r then [(runEventFor (run_ID r) RunEventCreated (run_CreatedBy r) (run_Status r) (run_CreatedAt r))
        \<lparr>rve_ID := est_nextRunEvent s + 1\<rparr>] else [])"
  by (simp add: eval_CreateRun_def appendRunEventLocked_def putRun_def Let_def)

lemma created_simps:
  "est_runs (snd (eval_CreateRun r items s)) = (est_runs s)(run_ID r \<mapsto> r)"
  "est_runItems (snd (eval_CreateRun r items s)) = (est_runItems s)(run_ID r \<mapsto> items)"
  "est_runItemResults (snd (eval_CreateRun r items s)) = est_runItemResults s"
  "est_datasets (snd (eval_CreateRun r items s)) = est_datasets s"
  "est_byID (snd (eval_CreateRun r items s)) = est_byID s"
  "est_bySourceCase (snd (eval_CreateRun r items s)) = est_bySourceCase s"
  by (simp_all add: eval_CreateRun_def appendRunEventLocked_def putRun_def Let_def)

lemma numbered_created:
  assumes "numbered (\<lambda>s k. runHistory s k) est_nextRunEvent rve_ID s"
  shows "numbered (\<lambda>s k. runHistory s k) est_nextRunEvent rve_ID (snd (eval_CreateRun r items s))"
  unfolding eval_CreateRun_def snd_conv
  by (rule run_store.numbered_addEvent) (use assms in \<open>simp add: numbered_def putRun_def\<close>)

lemma entries_upd: "entries (m(k \<mapsto> xs)) k' = (if k' = k then xs else entries m k')"
  by (simp add: entries_def)

lemma runStoreOK_created:
  assumes "runStoreOK s" "est_runs s (run_ID r) = None" "run_Status r = RunStatusQueued"
    and "items \<noteq> []" "distinct (map rit_EvalCaseID items)" "run_DatasetItemCount r = int (length items)"
  shows "runStoreOK (snd (eval_CreateRun r items s))"
proof -
  have "runRecordOK None (map rve_Action (runHistory s (run_ID r))) (itemsOf s (run_ID r)) (est_runItemResults s (run_ID r))"
    using assms(1,2) by (metis runStoreOK_def runOK_def)
  then have "runHistory s (run_ID r) = []" "est_runItemResults s (run_ID r) = None" by (simp_all add: runRecordOK_def)
  then have "runOK (snd (eval_CreateRun r items s)) (run_ID r)"
    using assms(3-6)
    by (simp add: runOK_def runRecordOK_def created_simps created_history entries_upd finishedStatus_def)
  moreover have "runOK (snd (eval_CreateRun r items s)) k" if "k \<noteq> run_ID r" for k
    using assms(1) that by (simp add: runStoreOK_def runOK_def created_simps created_history entries_upd)
  ultimately have "\<forall>k. runOK (snd (eval_CreateRun r items s)) k" by metis
  then show ?thesis
    using assms(1) numbered_created by (simp add: runStoreOK_def created_simps keyedBy_upd)
qed

lemma runItemOf_ID [simp]: "rit_EvalCaseID (runItemOf x) = edi_EvalCaseID x"
  by (simp add: runItemOf_def)

lemma CreateRun_step:
  assumes "evalInv st" "evl_RunSeq st < - 1"
    and "CreateRun (\<lambda>i. eval_GetDataset i (evl_Store st)) now input st = (res, st')"
  shows "stepOK st st'"
proof (cases res)
  case (Inl err)
  then have "st' = st" using assms(3)
    by (auto simp: CreateRun_def eval_CreateRun_def Let_def split: if_splits sum.splits)
  then show ?thesis using stepOK_refl [OF assms(1)] by simp
next
  case (Inr r)
  let ?s = "evl_Store st"
  let ?k = "newEvalRunID now (evl_RunSeq st + 1)"
  obtain d where d: "est_datasets ?s (trimSpace (cri_DatasetID input)) = Some d" "eds_Status d = DatasetStatusPublished"
    and r: "run_ID r = ?k" "run_DatasetID r = eds_ID d" "run_TenantID r = eds_TenantID d"
      "run_DatasetItemCount r = int (length (eds_Items d))" "run_Status r = RunStatusQueued"
    and st': "st' = st\<lparr>evl_Store := snd (eval_CreateRun r (map runItemOf (eds_Items d)) ?s), evl_RunSeq := evl_RunSeq st + 1\<rparr>"
    using assms(3) Inr
    by (auto simp: CreateRun_def eval_GetDataset_def eval_CreateRun_def Let_def split: if_splits option.splits sum.splits)
  note ds = stored_dataset [OF assms(1) d(1)]
  let ?t = "snd (eval_CreateRun r (map runItemOf (eds_Items d)) ?s)"
  have "?k \<notin> dom (est_runs ?s)"
    using run_ids.mkID_fresh [OF _ counter_grows [OF assms(2)]] evalInvD(6) [OF assms(1)] unfolding mintedBy_def by metis
  then have new: "est_runs ?s (run_ID r) = None" using r(1) by (simp add: domIff)
  have ids: "map (rit_EvalCaseID \<circ> runItemOf) (eds_Items d) = map edi_EvalCaseID (eds_Items d)" by (rule map_cong) simp_all
  have ok: "runStoreOK ?t"
    using runStoreOK_created [OF evalInvD(5) [OF assms(1)] new r(5), of "map runItemOf (eds_Items d)"] ds(2) r(4)
    by (simp add: datasetOK_def ids)
  have snap: "snapshotOK ?t k x" if "est_runs ?t k = Some x" for k x
  proof (cases "k = ?k")
    case True
    then have "x = r" using that r(1) by (simp add: created_simps)
    then show ?thesis using True r d ds(1) by (simp add: snapshotOK_def created_simps entries_upd)
  next
    case False
    then have "snapshotOK ?s k x" using that r(1) evalInvD(7) [OF assms(1)] by (simp add: created_simps)
    then show ?thesis using False r(1) by (simp add: snapshotOK_def created_simps entries_upd)
  qed
  have m: "mintedBy newEvalRunID (est_runs ?t) (evl_RunSeq st + 1)"
    unfolding created_simps r(1) by (rule mintedBy_upd [OF evalInvD(6) [OF assms(1)] assms(2)])
  have "caseIndexOK ?t = caseIndexOK ?s" by (rule caseIndexOK_cong) (simp_all add: created_simps)
  then have "evalInv st'" unfolding st'
    using evalInvD(1-4) [OF assms(1)] ok m snap by (intro evalInvI) (simp_all add: created_simps datasetsOK_def)
  moreover have "recordsKept ?s ?t"
    using new by (auto simp: recordsKept_def created_simps created_history entries_upd)
  ultimately show ?thesis by (simp add: stepOK_def st')
qed

subsubsection \<open>Eval cases\<close>

lemma promoteNewCase_state:
  assumes "promoteNewCase deps now created id input source st = (res, st')" "cs_ID source = eci_SourceCaseID input"
    and "est_bySourceCase (evl_Store st) (eci_SourceCaseID input) = None"
  defines "item \<equiv> promotedEvalCase deps (newEvalCaseID now (evl_CaseSeq st + 1)) created input source"
  shows "st' = st\<lparr>evl_Store := (evl_Store st)\<lparr>est_byID := (est_byID (evl_Store st))(evc_ID item \<mapsto> item),
        est_bySourceCase := (est_bySourceCase (evl_Store st))(evc_SourceCaseID item \<mapsto> evc_ID item)\<rparr>,
      evl_CaseSeq := evl_CaseSeq st + 1\<rparr>"
  using assms by (simp add: promoteNewCase_def eval_Save_cases Let_def)

lemma PromoteCase_step:
  assumes "evalInv st" "evl_CaseSeq st < - 1" "\<And>i c. evd_GetCase deps i = Inr c \<Longrightarrow> cs_ID c = i"
    and "PromoteCase deps now created id input st = (res, st')"
  shows "stepOK st st'"
proof (cases "\<exists>source. evd_GetCase deps (eci_SourceCaseID input) = Inr source
    \<and> est_bySourceCase (evl_Store st) (eci_SourceCaseID input) = None \<and> cs_TenantID source = eci_TenantID input")
  case False
  then have "st' = st" using assms(4)
    by (auto simp: PromoteCase_def eval_GetBySourceCase_def split: sum.splits option.splits if_splits)
  then show ?thesis using stepOK_refl [OF assms(1)] by simp
next
  case True
  then obtain source where source: "evd_GetCase deps (eci_SourceCaseID input) = Inr source"
      "est_bySourceCase (evl_Store st) (eci_SourceCaseID input) = None" "cs_TenantID source = eci_TenantID input" by blast
  let ?s = "evl_Store st"
  let ?k = "newEvalCaseID now (evl_CaseSeq st + 1)"
  define item where "item = promotedEvalCase deps ?k created input source"
  have item: "evc_ID item = ?k" "evc_SourceCaseID item = eci_SourceCaseID input"
    using assms(3) [OF source(1)] by (simp_all add: item_def)
  let ?t = "?s\<lparr>est_byID := (est_byID ?s)(evc_ID item \<mapsto> item),
      est_bySourceCase := (est_bySourceCase ?s)(evc_SourceCaseID item \<mapsto> evc_ID item)\<rparr>"
  have "promoteNewCase deps now created id input source st = (res, st')"
    using assms(4) source by (simp add: PromoteCase_def eval_GetBySourceCase_def)
  then have st': "st' = st\<lparr>evl_Store := ?t, evl_CaseSeq := evl_CaseSeq st + 1\<rparr>"
    using promoteNewCase_state [OF _ assms(3) [OF source(1)] source(2)] unfolding item_def by blast
  have "?k \<notin> dom (est_byID ?s)"
    using eval_case_ids.mkID_fresh [OF _ counter_grows [OF assms(2)]] evalInvD(2) [OF assms(1)] unfolding mintedBy_def by metis
  then have new: "est_byID ?s (evc_ID item) = None" using item(1) by (simp add: domIff)
  have "est_bySourceCase ?s (evc_SourceCaseID item) = None" using source(2) item(2) by simp
  then have "caseIndexOK ?t" by (rule caseIndexOK_save [OF evalInvD(1) [OF assms(1)] new])
  moreover have "mintedBy newEvalCaseID (est_byID ?t) (evl_CaseSeq st + 1)"
    using mintedBy_upd [OF evalInvD(2) [OF assms(1)] assms(2)] item(1) by simp
  moreover have "runStoreOK ?t = runStoreOK ?s" by (rule runStoreOK_cong) simp_all
  moreover have "snapshotOK ?t k r" if "est_runs ?s k = Some r" for k r
    using evalInvD(7) [OF assms(1) that] by (simp add: snapshotOK_def)
  ultimately have "evalInv st'" unfolding st'
    using evalInvD(3-6) [OF assms(1)] by (intro evalInvI) (simp_all add: datasetsOK_def)
  moreover have "recordsKept ?s ?t" using new by (auto simp: recordsKept_def map_le_def)
  ultimately show ?thesis by (simp add: stepOK_def st')
qed

subsection \<open>Every step\<close>

lemma MarkFailed_moves:
  assumes "servicesOK deps svc" "runStoreOK s"
  shows "MarkRunFailed svc k reason s w = (res, s', w') \<Longrightarrow> runMoves s s'"
    and "MarkRunFailedWithFallback svc k reason s w = (res, s', w') \<Longrightarrow> runMoves s s'"
  using assms failRunWith_moves unfolding servicesOK_def MarkRunFailed_def MarkRunFailedWithFallback_def by metis+

lemma claim_moves:
  assumes "runStoreOK s" "iterOrder (est_runs s) ks" "ClaimQueuedRuns svc ks limit s w = Some (runs, s', w')"
  shows "runMoves s s'"
proof -
  obtain t w1 where t: "rsn_Now svc w = (t, w1)" by force
  let ?limit = "if limit \<le> 0 then 10 else limit"
  have "0 < ?limit" by simp
  then obtain s1 where "eval_ClaimQueuedRuns ks ?limit t s
      = Some (map (claimedRun t) (take (nat ?limit) (queuedRuns ks s)), s1)" "runMoves s s1"
    using claim_runs [OF assms(1,2), of ?limit t] by blast
  then show ?thesis using assms(3) t by (auto simp: ClaimQueuedRuns_def)
qed

lemma evalStep_OK:
  assumes "evalStep deps svc env st st'" "evalInv st" "servicesOK deps svc"
  shows "stepOK st st'"
  using assms(1)
proof cases
  case (promotes_case now created input res)
  then show ?thesis using PromoteCase_step [OF assms(2)] assms(3) unfolding servicesOK_def by blast
next
  case (creates_dataset now dinput dres)
  then show ?thesis using CreateDataset_step [OF assms(2)] by blast
next
  case (adds_item now k ainput dres s')
  then show ?thesis using AddDatasetItem_step [OF assms(2)] by blast
next
  case (publishes now k pinput dres s')
  then show ?thesis using PublishDataset_step [OF assms(2)] by blast
next
  case (creates_run now rinput rres)
  then show ?thesis using CreateRun_step [OF assms(2)] by blast
next
  case (claims ks limit w runs s' w')
  have "runMoves (evl_Store st) s'" by (rule claim_moves [OF evalInvD(5) [OF assms(2)] claims(2,3)])
  then show ?thesis unfolding claims(1) by (rule stepOK_moves [OF assms(2)])
next
  case (succeeds k w rres s' w')
  have "run_judge (rsn_Judge svc)" using assms(3) by (simp add: servicesOK_def)
  then have "runMoves (evl_Store st) s'"
    using MarkRunSucceeded_moves [OF _ evalInvD(5) [OF assms(2)] succeeds(2)] by blast
  then show ?thesis unfolding succeeds(1) by (rule stepOK_moves [OF assms(2)])
next
  case (fails k reason w rres s' w')
  have "runMoves (evl_Store st) s'" by (rule MarkFailed_moves(1) [OF assms(3) evalInvD(5) [OF assms(2)] fails(2)])
  then show ?thesis unfolding fails(1) by (rule stepOK_moves [OF assms(2)])
next
  case (falls_back k reason w rres s' w')
  have "runMoves (evl_Store st) s'" by (rule MarkFailed_moves(2) [OF assms(3) evalInvD(5) [OF assms(2)] falls_back(2)])
  then show ?thesis unfolding falls_back(1) by (rule stepOK_moves [OF assms(2)])
next
  case (retries k w rres s' w')
  obtain t w1 where "rsn_Now svc w = (t, w1)" by force
  then have "s' = snd (eval_RetryRun k t (evl_Store st))" using retries(2) by (auto simp: RetryRun_def split: prod.splits)
  then show ?thesis using retries(1) stepOK_moves [OF assms(2)] retry_moves [OF evalInvD(5) [OF assms(2)]] by simp
next
  case (reports k pres s')
  then show ?thesis using stepOK_moves [OF assms(2)] MaterializeRunReport_moves by (metis snd_conv)
qed

lemma evalSteps_OK:
  assumes "evalSteps deps svc env st st'" "evalInv st" "servicesOK deps svc"
  shows "stepOK st st'"
  using assms(1)
proof (induction rule: rtranclp_induct)
  case base
  then show ?case by (rule stepOK_refl [OF assms(2)])
next
  case (step st1 st2)
  then have "evalInv st1" by (simp add: stepOK_def)
  then have "stepOK st1 st2" using evalStep_OK [OF step.hyps(2)] assms(3) by blast
  then show ?case using step.IH recordsKept_trans by (auto simp: stepOK_def)
qed

end
