(* ===== verification/Eval_Case_Laws.thy ===== *)
theory Eval_Case_Laws
  imports Eval_Cases
begin

text \<open>
  The list of eval cases filtered by their follow-up cases.  The loop over batches of
  \<open>eval/service.go\<close> is shown to return, and to return the page that filtering all the rows and
  cutting the page out of the result would give.
\<close>

subsection \<open>The interface to the follow-up summaries\<close>

text \<open>
  \<open>summarize\<close> answers for a list of eval cases at once; what it says of one of them does not
  depend on the others in the list.
\<close>

locale follow_up_source =
  fixes valid :: "'s \<Rightarrow> bool"
    and summarize :: "'s \<Rightarrow> string \<Rightarrow> string list \<Rightarrow> string + (string \<rightharpoonup> followUpSummary)"
    and view :: "'s \<Rightarrow> string \<Rightarrow> string \<Rightarrow> followUpSummary"
  assumes summarize_view:
    "valid s \<Longrightarrow> \<exists>m. summarize s t ids = Inr m \<and> (\<forall>i \<in> set ids. i \<noteq> [] \<longrightarrow> summaryAt m i = view s t i)"
begin

lemma apply_view:
  assumes "valid s" "evd_Summaries deps = Some (summarize s)"
    and "\<forall>item \<in> set items. evc_ID item \<noteq> [] \<and> evc_TenantID item = t"
  shows "applyFollowUpSummaries deps items
    = Inr (map (\<lambda>item. withFollowUps (view s t (evc_ID item)) item) items)"
proof (cases items)
  case Nil
  then show ?thesis by (simp add: applyFollowUpSummaries_def)
next
  case (Cons x xs)
  have same: "filter (\<lambda>item. \<not> (evc_ID item = [] \<or> evc_TenantID item \<noteq> t)) items = items"
    using assms(3) by (simp add: filter_id_conv)
  obtain m where m: "summarize s t (map evc_ID items) = Inr m"
      "\<forall>i \<in> set (map evc_ID items). i \<noteq> [] \<longrightarrow> summaryAt m i = view s t i"
    using summarize_view [OF assms(1)] by blast
  have "map (\<lambda>item. withFollowUps (summaryAt m (evc_ID item)) item) items
      = map (\<lambda>item. withFollowUps (view s t (evc_ID item)) item) items"
    using m(2) assms(3) by (intro map_cong) auto
  moreover have "evc_TenantID x = t" "items \<noteq> []" using assms(3) Cons by auto
  ultimately show ?thesis using assms(2) m(1) same Cons
    by (simp add: applyFollowUpSummaries_def Let_def)
qed

end

subsection \<open>The case store provides it\<close>

text \<open>The cases and the order of their map at each call.\<close>

type_synonym caseView = "caseState \<times> (string \<Rightarrow> string list \<Rightarrow> string list)"

definition caseViewOK :: "caseView \<Rightarrow> bool" where
  "caseViewOK v \<longleftrightarrow> caseStateOK (fst v) \<and> (\<forall>t ids. iterOrder (cst_records (fst v)) (snd v t ids))"

definition summarizeCases :: "caseView \<Rightarrow> string \<Rightarrow> string list \<Rightarrow> string + (string \<rightharpoonup> followUpSummary)" where
  "summarizeCases v t ids = Inr (SummarizeBySourceEvalCaseIDs (snd v t ids) t ids (fst v))"

definition followUpsOf :: "caseView \<Rightarrow> string \<Rightarrow> string \<Rightarrow> followUpSummary" where
  "followUpsOf v t i = summaryAt (SummarizeBySourceEvalCaseIDs (snd v t [i]) t [i] (fst v)) i"

lemma isLatest_unique:
  assumes "isLatest C a" "isLatest C b" "\<forall>c \<in> C. hasSuffixID c"
  shows "a = b"
proof (rule ccontr)
  assume "a \<noteq> b"
  then have "caseSortsAfter a b" "caseSortsAfter b a" "a \<in> C" "b \<in> C"
    using assms(1,2) unfolding isLatest_def by metis+
  then show False using assms(3) case_order.lt_asym by blast
qed

lemma summaryCorrect_unique:
  fixes y z :: followUpSummary
  assumes "caseStateOK s" "summaryCorrect key eligible s k y" "summaryCorrect key eligible s k z"
  shows "y = z"
proof -
  define C where "C = {c. cst_records s (cs_ID c) = Some c \<and> eligible c \<and> key c = k}"
  have "\<forall>c \<in> C. hasSuffixID c" using caseStateOK_suffix(1) [OF assms(1)] by (auto simp: C_def)
  then have "\<And>a b. isLatest C a \<Longrightarrow> isLatest C b \<Longrightarrow> a = b" using isLatest_unique by blast
  then have "fus_LatestCaseID y = fus_LatestCaseID z \<and> fus_LatestCaseStatus y = fus_LatestCaseStatus z"
    using assms(2,3) unfolding summaryCorrect_def Let_def C_def [symmetric] by (cases "C = {}") (simp, metis)
  then show ?thesis using assms(2,3) unfolding summaryCorrect_def Let_def by simp
qed

lemma summarized_case:
  assumes "caseViewOK v" "i \<in> set ids" "i \<noteq> []"
  shows "summaryCorrect cs_SourceEvalCaseID (\<lambda>c. cs_TenantID c = t) (fst v) i
      (summaryAt (SummarizeBySourceEvalCaseIDs (snd v t ids') t ids (fst v)) i)"
proof -
  have ok: "caseStateOK (fst v)" "iterOrder (cst_records (fst v)) (snd v t ids')"
    using assms(1) by (auto simp: caseViewOK_def)
  have "ids \<noteq> []" using assms(2) by auto
  moreover have m: "marks (\<lambda>_ x. x)" by (simp add: marks_def)
  moreover have z: "fus_CaseCount zeroSummary = 0" "fus_OpenCaseCount zeroSummary = 0"
      "fus_LatestCaseID zeroSummary = []" "fus_LatestCaseStatus zeroSummary = []"
    by (simp_all add: zeroSummary_def)
  ultimately show ?thesis
    using summarizeBy_correct [OF ok m z, where key = cs_SourceEvalCaseID
        and eligible = "\<lambda>c. cs_TenantID c = t" and ids = ids and k = i] assms(2,3)
    by (simp add: SummarizeBySourceEvalCaseIDs_def summaryAt_def split: option.splits)
qed

interpretation case_follow_ups: follow_up_source caseViewOK summarizeCases followUpsOf
proof
  fix v t ids
  assume v: "caseViewOK v"
  let ?m = "SummarizeBySourceEvalCaseIDs (snd v t ids) t ids (fst v)"
  have "summaryAt ?m i = followUpsOf v t i" if "i \<in> set ids" "i \<noteq> []" for i
    unfolding followUpsOf_def
    using v summaryCorrect_unique [OF _ summarized_case [OF v that] summarized_case [OF v _ that(2), of "[i]"]]
    by (simp add: caseViewOK_def)
  then show "\<exists>m. summarizeCases v t ids = Inr m \<and> (\<forall>i \<in> set ids. i \<noteq> [] \<longrightarrow> summaryAt m i = followUpsOf v t i)"
    by (auto simp: summarizeCases_def)
qed

text \<open>An eval case is open for follow-up when an open case of its tenant names it as its source.\<close>

definition hasOpenFollowUp :: "caseState \<Rightarrow> evalCase \<Rightarrow> bool" where
  "hasOpenFollowUp s e \<longleftrightarrow>
     (\<exists>c. cst_records s (cs_ID c) = Some c \<and> cs_TenantID c = evc_TenantID e
        \<and> cs_SourceEvalCaseID c = evc_ID e \<and> cs_Status c = CaseStatusOpen)"

definition followedUp :: "caseView \<Rightarrow> evalCase \<Rightarrow> evalCase" where
  "followedUp v e = withFollowUps (followUpsOf v (evc_TenantID e) (evc_ID e)) e"

lemma summaryCorrect_open:
  assumes "summaryCorrect key eligible s k y"
  shows "fus_OpenCaseCount y = int (card {c \<in> {c. cst_records s (cs_ID c) = Some c \<and> eligible c \<and> key c = k}.
      cs_Status c = CaseStatusOpen})"
  using assms unfolding summaryCorrect_def Let_def by (elim conjE)

lemma followedUp_open:
  assumes "caseViewOK v" "evc_ID e \<noteq> []"
  shows "0 < evc_OpenFollowUpCaseCount (followedUp v e) \<longleftrightarrow> hasOpenFollowUp (fst v) e"
proof -
  let ?C = "{c. cst_records (fst v) (cs_ID c) = Some c \<and> cs_TenantID c = evc_TenantID e
      \<and> cs_SourceEvalCaseID c = evc_ID e}"
  have "?C \<subseteq> ran (cst_records (fst v))" by (auto simp: ran_def)
  moreover have "finite (ran (cst_records (fst v)))"
    using assms(1) set_rangeVals [of "cst_records (fst v)"] unfolding caseViewOK_def by (metis List.finite_set)
  ultimately have fin: "finite {c \<in> ?C. cs_Status c = CaseStatusOpen}"
    by (auto intro: finite_subset)
  have "fus_OpenCaseCount (followUpsOf v (evc_TenantID e) (evc_ID e))
      = int (card {c \<in> ?C. cs_Status c = CaseStatusOpen})"
    using summaryCorrect_open [OF summarized_case [OF assms(1) _ assms(2), of "[evc_ID e]" "evc_TenantID e" "[evc_ID e]"]]
    by (simp add: followUpsOf_def)
  then have "0 < evc_OpenFollowUpCaseCount (followedUp v e) \<longleftrightarrow> {c \<in> ?C. cs_Status c = CaseStatusOpen} \<noteq> {}"
    using fin by (simp add: followedUp_def withFollowUps_def card_gt_0_iff)
  then show ?thesis by (auto simp: hasOpenFollowUp_def)
qed

subsection \<open>The loops\<close>

lemma collectFollowUps_append:
  "collectFollowUps w off lmt (xs @ ys) acc =
     (case collectFollowUps w off lmt xs acc of
        Inl p \<Rightarrow> Inl p | Inr acc' \<Rightarrow> collectFollowUps w off lmt ys acc')"
  by (induction w off lmt xs acc rule: collectFollowUps.induct) auto

lemma collectFollowUps_spec:
  fixes w :: bool
  assumes "0 \<le> off" "0 < lmt"
  defines "M \<equiv> \<lambda>xs. filter (\<lambda>e. (0 < evc_OpenFollowUpCaseCount e) = w) xs"
  shows "collectFollowUps w off lmt xs ([], 0) =
    (if off + lmt < int (length (M xs))
     then Inl \<lparr>pageItems = take (nat lmt) (drop (nat off) (M xs)), pageHasMore = True,
               pageNextOffset = goInt (off + lmt)\<rparr>
     else Inr (take (nat lmt) (drop (nat off) (M xs)), int (length (M xs))))"
proof (induction xs rule: rev_induct)
  case Nil
  then show ?case using assms(1,2) by (simp add: M_def)
next
  case (snoc x xs)
  show ?case
  proof (cases "(0 < evc_OpenFollowUpCaseCount x) = w \<and> \<not> off + lmt < int (length (M xs))")
    case False
    show ?thesis
    proof (cases "off + lmt < int (length (M xs))")
      case True
      then have "nat off + nat lmt \<le> length (M xs)" using assms(1,2) by linarith
      then have "take (nat lmt) (drop (nat off) (M xs @ ys)) = take (nat lmt) (drop (nat off) (M xs))" for ys
        by simp
      moreover have "\<exists>ys. M (xs @ [x]) = M xs @ ys" by (simp add: M_def)
      moreover have "length (M xs) \<le> length (M (xs @ [x]))" by (simp add: M_def)
      ultimately show ?thesis using snoc True by (auto simp: collectFollowUps_append)
    next
      case False
      then have "(0 < evc_OpenFollowUpCaseCount x) \<noteq> w" using \<open>\<not> (_ \<and> _)\<close> by blast
      moreover from this have "M (xs @ [x]) = M xs" by (auto simp: M_def)
      ultimately show ?thesis using snoc False by (simp add: collectFollowUps_append)
    qed
  next
    case True
    then have Mx: "M (xs @ [x]) = M xs @ [x]" by (simp add: M_def)
    let ?n = "length (M xs)"
    have step: "collectFollowUps w off lmt (xs @ [x]) ([], 0)
        = collectFollowUps w off lmt [x] (take (nat lmt) (drop (nat off) (M xs)), int ?n)"
      using snoc True by (simp add: collectFollowUps_append)
    consider "int ?n < off" | "off \<le> int ?n" "int ?n < off + lmt" | "int ?n = off + lmt"
      using True by linarith
    then show ?thesis
    proof cases
      case 1
      then show ?thesis unfolding step Mx using True assms(1,2) by simp
    next
      case 2
      then have "nat off \<le> ?n" "?n - nat off < nat lmt" using assms(1,2) by linarith+
      then show ?thesis unfolding step Mx using True 2 assms(1,2) by simp
    next
      case 3
      then have "nat off + nat lmt = ?n" using assms(1,2) by linarith
      moreover from this have "length (take (nat lmt) (drop (nat off) (M xs))) = nat lmt" by simp
      ultimately show ?thesis unfolding step Mx using True 3 assms(1,2) by simp
    qed
  qed
qed

text \<open>What the outer loop makes of the outcome of the inner one on all the rows.\<close>

definition collectedPage :: "evalCase listPage + (evalCase list \<times> int) \<Rightarrow> evalCase listPage" where
  "collectedPage r =
     (case r of Inl page \<Rightarrow> page
              | Inr acc \<Rightarrow> \<lparr>pageItems = fst acc, pageHasMore = False, pageNextOffset = 0\<rparr>)"

lemma collectFollowUps_page:
  assumes "0 \<le> off" "0 < lmt" "off + lmt < 2 ^ 63" "int (length xs) + lmt < 2 ^ 63"
  shows "evalWindow lmt off (filter (\<lambda>e. (0 < evc_OpenFollowUpCaseCount e) = w) xs)
    = Some (collectedPage (collectFollowUps w off lmt xs ([], 0)))"
proof -
  have "int (length (filter (\<lambda>e. (0 < evc_OpenFollowUpCaseCount e) = w) xs)) + lmt < 2 ^ 63"
    using assms(4) length_filter_le [of "\<lambda>e. (0 < evc_OpenFollowUpCaseCount e) = w" xs] by linarith
  then show ?thesis using assms
    by (simp add: collectFollowUps_spec evalWindow_cutPage cutPage_in_range collectedPage_def)
qed

lemma followUpLoop_rows:
  assumes "0 < batch" "int (length rows) + batch < 2 ^ 63"
    and fetch: "\<And>off. 0 \<le> off \<Longrightarrow> fetch off = evalWindow batch off rows"
    and enrich: "\<And>xs. set xs \<subseteq> set rows \<Longrightarrow> enrich xs = Inr (map e xs)"
  shows "\<lbrakk>0 \<le> raw; nat raw \<le> length rows;
      collectFollowUps w off lmt (map e (take (nat raw) rows)) ([], 0) = Inr acc\<rbrakk>
    \<Longrightarrow> followUpLoop fetch enrich w off lmt raw acc
      = Some (Inr (collectedPage (collectFollowUps w off lmt (map e rows) ([], 0))))"
proof (induction "length rows - nat raw" arbitrary: raw acc rule: less_induct)
  case less
  let ?xs = "take (nat batch) (drop (nat raw) rows)"
  have "raw + batch < 2 ^ 63" using less.prems assms(2) by linarith
  then have page: "fetch raw = Some \<lparr>pageItems = ?xs, pageHasMore = (raw + batch < int (length rows)),
      pageNextOffset = (if raw + batch < int (length rows) then raw + batch else 0)\<rparr>"
    using less.prems assms by (simp add: fetch evalWindow_cutPage cutPage_in_range)
  have split: "take (nat (raw + batch)) rows = take (nat raw) rows @ ?xs"
    using less.prems assms(1) by (simp add: nat_add_distrib take_add)
  have "set ?xs \<subseteq> set rows" by (meson set_drop_subset set_take_subset subset_trans)
  note enriched = enrich [OF this]
  show ?case
  proof (cases "?xs = []")
    case True
    then have "take (nat raw) rows = rows" using assms(1) by simp
    then show ?thesis using True page less.prems
      by (subst followUpLoop.simps) (simp add: collectedPage_def)
  next
    case False
    have nxt: "collectFollowUps w off lmt (map e (take (nat (raw + batch)) rows)) ([], 0)
        = collectFollowUps w off lmt (map e ?xs) acc"
      unfolding split using less.prems(3) by (simp add: collectFollowUps_append)
    show ?thesis
    proof (cases "collectFollowUps w off lmt (map e ?xs) acc")
      case (Inl p)
      have "map e rows = map e (take (nat (raw + batch)) rows) @ map e (drop (nat (raw + batch)) rows)"
        by (metis append_take_drop_id map_append)
      then have "collectFollowUps w off lmt (map e rows) ([], 0) = Inl p"
        using Inl nxt by (simp add: collectFollowUps_append)
      then show ?thesis using False page enriched Inl
        by (subst followUpLoop.simps) (simp add: collectedPage_def)
    next
      case (Inr acc')
      show ?thesis
      proof (cases "raw + batch < int (length rows)")
        case True
        then have "followUpLoop fetch enrich w off lmt (raw + batch) acc'
            = Some (Inr (collectedPage (collectFollowUps w off lmt (map e rows) ([], 0))))"
          using less.prems assms(1) Inr nxt by (intro less.hyps) auto
        then show ?thesis using False page enriched Inr True by (subst followUpLoop.simps) simp
      next
        case last: False
        then have "take (nat (raw + batch)) rows = rows" using less.prems by simp
        then have "collectFollowUps w off lmt (map e rows) ([], 0) = Inr acc'" using Inr nxt by simp
        then show ?thesis using False page enriched Inr last
          by (subst followUpLoop.simps) (simp add: collectedPage_def)
      qed
    qed
  qed
qed

subsection \<open>The filtered list\<close>

text \<open>
  C27: The list of eval cases with or without open follow-up cases, asked for a page that \<open>make\<close> has
  room for, returns, and returns the page that would be cut out of all the rows with that property, however the rows fall into
  batches and in whatever order the maps are iterated at each call.  It relies on all the rows
  being of one tenant, as a summary is asked for one tenant only.
\<close>

theorem ListEvalCases_follow_up:
  assumes "caseViewOK v" "evd_Summaries deps = Some (summarizeCases v)"
    and "keyedBy evc_ID (est_byID s)" "[] \<notin> dom (est_byID s)" "\<And>off. iterOrder (est_byID s) (order off)"
    and "ecf_NeedsFollowUp f = Some wanted" "ecf_TenantID f \<noteq> []" "0 < ecf_Limit f" "ecf_Limit f \<le> maxCap" "0 \<le> ecf_Offset f"
    and "int (card (dom (est_byID s))) + 20 + ecf_Limit f < 2 ^ 63" "ecf_Offset f + ecf_Limit f < 2 ^ 63"
  shows "\<exists>rows page. ListEvalCases maxCap deps order f s = Some (Inr page)
    \<and> evalWindow (ecf_Limit f) (ecf_Offset f) (map (followedUp v) rows) = Some page
    \<and> sorted_wrt evalCaseSortsBefore rows \<and> distinct (map evc_ID rows)
    \<and> set rows = {e. est_byID s (evc_ID e) = Some e \<and> evalCaseMatches f e \<and> hasOpenFollowUp (fst v) e = wanted}"
proof -
  define all where "all = goSort evalCaseSortsBefore (filter (evalCaseMatches f) (rangeVals (est_byID s) (order 0)))"
  define batch where "batch = (if ecf_Limit f < 20 then 20 else ecf_Limit f)"
  let ?open = "\<lambda>e. hasOpenFollowUp (fst v) e = wanted"
  have members: "e \<in> set all \<longleftrightarrow> est_byID s (evc_ID e) = Some e \<and> evalCaseMatches f e" for e
    using mem_rangeVals [OF assms(5,3)] by (simp add: all_def)
  have named: "evc_ID e \<noteq> [] \<and> evc_TenantID e = ecf_TenantID f" if "e \<in> set all" for e
    using that members assms(4,7) by (force simp: evalCaseMatches_def)
  have "length all \<le> length (rangeVals (est_byID s) (order 0))" by (simp add: all_def)
  also have "\<dots> = card (dom (est_byID s))"
    using card_filter_rangeVals [OF assms(5,3), of "\<lambda>_. True" 0] by (simp add: dom_def)
  finally have len: "length all \<le> card (dom (est_byID s))" .
  have fetch: "eval_List (order off) (f\<lparr>ecf_NeedsFollowUp := None, ecf_Offset := 0, ecf_Limit := batch, ecf_Offset := off\<rparr>) s
      = evalWindow batch off all" for off
  proof -
    have "evalCaseMatches (f\<lparr>ecf_NeedsFollowUp := None, ecf_Limit := batch, ecf_Offset := off\<rparr>) = evalCaseMatches f"
      by (rule ext) (simp add: evalCaseMatches_def)
    then show ?thesis
      using eval_case_order.goSort_range [OF assms(3) assms(5) [of off] assms(5) [of 0], of "evalCaseMatches f"]
      by (simp add: eval_List_def all_def)
  qed
  have enrich: "applyFollowUpSummaries deps xs = Inr (map (followedUp v) xs)" if "set xs \<subseteq> set all" for xs
  proof -
    have one: "\<forall>x \<in> set xs. evc_ID x \<noteq> [] \<and> evc_TenantID x = ecf_TenantID f" using that named by blast
    then have "map (\<lambda>x. withFollowUps (followUpsOf v (ecf_TenantID f) (evc_ID x)) x) xs = map (followedUp v) xs"
      by (intro map_cong) (auto simp: followedUp_def)
    then show ?thesis using case_follow_ups.apply_view [OF assms(1,2) one] by simp
  qed
  have listed: "ListEvalCases maxCap deps order f s
      = Some (Inr (collectedPage (collectFollowUps wanted (ecf_Offset f) (ecf_Limit f) (map (followedUp v) all) ([], 0))))"
    unfolding ListEvalCases_def listEvalCasesWithFollowUpFilter_def Let_def
    using assms(6,8,9) followUpLoop_rows [where rows = all and batch = batch and e = "followedUp v" and raw = 0
        and acc = "([], 0)" and w = wanted and off = "ecf_Offset f" and lmt = "ecf_Limit f"
        and enrich = "applyFollowUpSummaries deps", OF _ _ fetch enrich] len assms(11)
    by (simp add: batch_def [symmetric]) (auto simp: batch_def)
  have "filter (\<lambda>e. (0 < evc_OpenFollowUpCaseCount e) = wanted) (map (followedUp v) all)
      = map (followedUp v) (filter ?open all)"
    unfolding filter_map o_def
    using followedUp_open [OF assms(1)] named by (intro arg_cong [of _ _ "map (followedUp v)"] filter_cong) auto
  then have cut: "evalWindow (ecf_Limit f) (ecf_Offset f) (map (followedUp v) (filter ?open all))
      = Some (collectedPage (collectFollowUps wanted (ecf_Offset f) (ecf_Limit f) (map (followedUp v) all) ([], 0)))"
    using collectFollowUps_page [of "ecf_Offset f" "ecf_Limit f" "map (followedUp v) all" wanted] assms(8,10-12) len by simp
  have "sorted_wrt evalCaseSortsBefore (filter ?open all)"
    unfolding all_def
    by (intro sorted_wrt_filter eval_case_order.goSort_range_sorted [OF assms(3,5)]) simp
  moreover have "distinct (map evc_ID (filter ?open all))"
    using distinct_idents_rangeVals [OF assms(3,5)] by (simp add: all_def distinct_map_filter)
  moreover have "set (filter ?open all)
      = {e. est_byID s (evc_ID e) = Some e \<and> evalCaseMatches f e \<and> hasOpenFollowUp (fst v) e = wanted}"
    using members by auto
  ultimately show ?thesis using listed cut by blast
qed

definition demoEvalCase :: evalCase where
  "demoEvalCase = zeroEvalCase\<lparr>evc_ID := ''e1'', evc_TenantID := ''acme'', evc_SourceCaseID := ''c1''\<rparr>"

definition demoEvalStore :: evalStore where
  "demoEvalStore = snd (eval_Save demoEvalCase newMemoryStore)"

definition demoEvalDeps :: evalCaseDeps where
  "demoEvalDeps =
     \<lparr>evd_GetCase = (\<lambda>i. if i = cs_ID (demoCase 1 ''open'' [] 5) then Inr (demoCase 1 ''open'' [] 5) else Inl ''missing''),
      evd_Summaries = Some (summarizeCases (demoCases, \<lambda>_ _. [newCaseID 0 2, newCaseID 0 1])), evd_Traces = None\<rparr>"

lemma demoEvalStore_byID: "est_byID demoEvalStore = [''e1'' \<mapsto> demoEvalCase]"
  by (simp add: demoEvalStore_def eval_Save_def newMemoryStore_def demoEvalCase_def)

lemma ListEvalCases_follow_up_witness:
  "\<exists>page. ListEvalCases 1000 demoEvalDeps (\<lambda>_. [''e1''])
      \<lparr>ecf_TenantID = ''acme'', ecf_SourceCaseID = [], ecf_SourceTaskID = [], ecf_SourceReportID = [],
       ecf_VersionID = [], ecf_NeedsFollowUp = Some False, ecf_Limit = 5, ecf_Offset = 0\<rparr> demoEvalStore
    = Some (Inr page)"
proof -
  let ?v = "(demoCases, \<lambda>_ _. [newCaseID 0 2, newCaseID 0 1])"
  have v: "caseViewOK ?v" using demoCases_ok demoCases_order by (simp add: caseViewOK_def)
  have d: "evd_Summaries demoEvalDeps = Some (summarizeCases ?v)" by (simp add: demoEvalDeps_def)
  have k: "keyedBy evc_ID (est_byID demoEvalStore)" "[] \<notin> dom (est_byID demoEvalStore)"
      "\<And>off::int. iterOrder (est_byID demoEvalStore) [''e1'']"
    by (auto simp: demoEvalStore_byID keyedBy_def demoEvalCase_def iterOrder_def)
  show ?thesis
    using ListEvalCases_follow_up [OF v d k, where wanted = False and maxCap = 1000 and f =
      "\<lparr>ecf_TenantID = ''acme'', ecf_SourceCaseID = [], ecf_SourceTaskID = [], ecf_SourceReportID = [],
       ecf_VersionID = [], ecf_NeedsFollowUp = Some False, ecf_Limit = 5, ecf_Offset = 0\<rparr>"]
    by (simp add: demoEvalStore_byID) blast
qed

definition demoPromotion :: evalCaseInput where
  "demoPromotion = \<lparr>eci_TenantID = ''acme'', eci_SourceCaseID = cs_ID (demoCase 1 ''open'' [] 5),
     eci_OperatorNote = [], eci_CreatedBy = []\<rparr>"

lemma PromoteCase_once_witness:
  "\<exists>e new st'. PromoteCase (demoEvalDeps\<lparr>evd_Summaries := None\<rparr>) 0 0 id demoPromotion
      \<lparr>evl_Store = newMemoryStore, evl_CaseSeq = 0, evl_DatasetSeq = 0, evl_RunSeq = 0\<rparr> = (Inr (e, new), st')
    \<and> caseIndexOK (evl_Store st')"
proof -
  let ?deps = "demoEvalDeps\<lparr>evd_Summaries := None\<rparr>"
  let ?st = "\<lparr>evl_Store = newMemoryStore, evl_CaseSeq = 0, evl_DatasetSeq = 0, evl_RunSeq = 0\<rparr>"
  have g: "evd_GetCase ?deps (eci_SourceCaseID demoPromotion) = Inr (demoCase 1 ''open'' [] 5)"
    by (simp add: demoEvalDeps_def demoPromotion_def)
  have t: "cs_TenantID (demoCase 1 ''open'' [] 5) = eci_TenantID demoPromotion"
    by (simp add: demoCase_def demoPromotion_def)
  obtain e new st' where r: "PromoteCase ?deps 0 0 id demoPromotion ?st = (Inr (e, new), st')"
    using g t by (simp add: PromoteCase_def promoteNewCase_def eval_GetBySourceCase_def eval_Save_def
        newMemoryStore_def enrichEvalCase_eq demoEvalDeps_def Let_def)
  have "cs_ID (demoCase 1 ''open'' [] 5) = eci_SourceCaseID demoPromotion" by (simp add: demoPromotion_def)
  moreover have "newEvalCaseID 0 (evl_CaseSeq ?st + 1) \<notin> dom (est_byID (id (evl_Store ?st)))"
    by (simp add: newMemoryStore_def)
  ultimately have "caseIndexOK (evl_Store st')"
    using PromoteCase_once [OF _ _ _ g _ r] by simp
  with r show ?thesis by blast
qed

end
