(* ===== verification/Eval_Contracts.thy ===== *)
theory Eval_Contracts
  imports Eval_Lifecycle Eval_Case_Laws Chat_Laws
begin

text \<open>
  What the evaluation services promise across any sequence of their calls, and where they do not:
  the states they reach, the records that stay as they are, the regressions they report, and the
  requests that an eval run sends through the chat.
\<close>

subsection \<open>Replaying histories\<close>

abbreviation (input) "runStatuses \<equiv> {RunStatusQueued, RunStatusRunning, RunStatusSucceeded, RunStatusFailed}"

abbreviation (input) "runActions \<equiv>
  {RunEventCreated, RunEventClaimed, RunEventSucceeded, RunEventFailed, RunEventRetried}"

lemma nextRunStatus_typed: "nextRunStatus x a = Some y \<Longrightarrow> y \<in> runStatuses \<and> a \<in> runActions"
  by (cases x) (simp_all split: if_splits)

lemma replayRun_typed:
  "replayRun x as = Some y \<Longrightarrow> set as \<subseteq> runActions \<and> (x \<noteq> Some y \<longrightarrow> y \<in> runStatuses)"
proof (induction as arbitrary: x)
  case (Cons a as)
  then obtain z where z: "nextRunStatus x a = Some z" "replayRun (Some z) as = Some y"
    by (auto simp del: nextRunStatus.simps split: option.splits)
  have "z \<in> runStatuses \<and> a \<in> runActions" by (rule nextRunStatus_typed [OF z(1)])
  moreover have "set as \<subseteq> runActions \<and> (Some z \<noteq> Some y \<longrightarrow> y \<in> runStatuses)" by (rule Cons.IH [OF z(2)])
  ultimately show ?case by (cases "z = y") simp_all
qed simp

lemma replayRun_continue: "replayRun x as = Some y \<Longrightarrow> replayRun x (as @ bs) = replayRun (Some y) bs"
  by (induction as arbitrary: x) (auto split: option.splits)

lemma replayRun_final: "replayRun (Some RunStatusSucceeded) as = Some y \<Longrightarrow> as = []"
  by (cases as) simp_all

lemma runRecord_facts:
  assumes "runStoreOK s" "est_runs s k = Some r"
  shows "replayRun None (map rve_Action (runHistory s k)) = Some (run_Status r)"
    "run_DatasetItemCount r = int (length (itemsOf s k))"
    "if finishedStatus (run_Status r)
     then \<exists>rs. est_runItemResults s k = Some rs \<and> judgedFor (itemsOf s k) (run_Status r) rs
     else est_runItemResults s k = None"
proof -
  have "runOK s k" using assms(1) by (simp only: runStoreOK_def)
  then have "replayRun None (map rve_Action (runHistory s k)) = Some (run_Status r)
    \<and> itemsOf s k \<noteq> [] \<and> distinct (map rit_EvalCaseID (itemsOf s k)) \<and> run_DatasetItemCount r = int (length (itemsOf s k))
    \<and> (if finishedStatus (run_Status r)
       then \<exists>rs. est_runItemResults s k = Some rs \<and> judgedFor (itemsOf s k) (run_Status r) rs
       else est_runItemResults s k = None)"
    unfolding runOK_def runRecordOK_def assms(2) option.case .
  then show "replayRun None (map rve_Action (runHistory s k)) = Some (run_Status r)"
    "run_DatasetItemCount r = int (length (itemsOf s k))"
    "if finishedStatus (run_Status r)
     then \<exists>rs. est_runItemResults s k = Some rs \<and> judgedFor (itemsOf s k) (run_Status r) rs
     else est_runItemResults s k = None" by blast+
qed

lemma no_run_no_record:
  assumes "runStoreOK s" "est_runs s k = None"
  shows "runHistory s k = []" "est_runItemResults s k = None"
proof -
  have "runOK s k" using assms(1) by (simp only: runStoreOK_def)
  then have "map rve_Action (runHistory s k) = [] \<and> est_runItemResults s k = None"
    unfolding runOK_def runRecordOK_def assms(2) option.case .
  then show "runHistory s k = []" "est_runItemResults s k = None" by simp_all
qed

lemma evalSteps_from_new:
  assumes "evalSteps deps svc env newEvalState st" "servicesOK deps svc"
  shows "evalInv st"
  using evalSteps_OK [OF assms(1) evalInv_new assms(2)] by (simp add: stepOK_def)

lemma evalInv_run:
  assumes ok: "evalInv st" and "est_runs (evl_Store st) k = Some r"
  shows "\<exists>d. est_datasets (evl_Store st) (run_DatasetID r) = Some d \<and> eds_Status d = DatasetStatusPublished
    \<and> run_TenantID r = eds_TenantID d \<and> itemsOf (evl_Store st) k = map runItemOf (eds_Items d)
    \<and> run_DatasetItemCount r = int (length (eds_Items d))
    \<and> replayRun None (map rve_Action (runHistory (evl_Store st) k)) = Some (run_Status r)
    \<and> (if finishedStatus (run_Status r)
       then \<exists>rs. est_runItemResults (evl_Store st) k = Some rs
              \<and> judgedFor (map runItemOf (eds_Items d)) (run_Status r) rs
       else est_runItemResults (evl_Store st) k = None)"
proof -
  obtain d where d: "est_datasets (evl_Store st) (run_DatasetID r) = Some d" "eds_Status d = DatasetStatusPublished"
      "run_TenantID r = eds_TenantID d" "itemsOf (evl_Store st) k = map runItemOf (eds_Items d)"
    using evalInvD(7) [OF ok assms(2)] by (auto simp: snapshotOK_def)
  note facts = runRecord_facts [OF evalInvD(5) [OF ok] assms(2), unfolded d(4)]
  have "run_DatasetItemCount r = int (length (eds_Items d))" using facts(2) by simp
  then show ?thesis using d facts(1,3) by blast
qed

lemma stepOK_run:
  assumes ok: "evalInv st" and "stepOK st st'" and r: "est_runs (evl_Store st) k = Some r"
  shows "itemsOf (evl_Store st') k = itemsOf (evl_Store st) k
    \<and> (\<exists>r' es. est_runs (evl_Store st') k = Some r' \<and> sameRun r r'
      \<and> runHistory (evl_Store st') k = runHistory (evl_Store st) k @ es
      \<and> (run_Status r = RunStatusSucceeded \<longrightarrow> run_Status r' = RunStatusSucceeded \<and> es = []))"
proof -
  let ?s = "evl_Store st" and ?s' = "evl_Store st'"
  have ok': "evalInv st'" and kept: "recordsKept ?s ?s'" using assms(2) by (simp_all only: stepOK_def)
  obtain r' es where r': "itemsOf ?s' k = itemsOf ?s k" "est_runs ?s' k = Some r'" "sameRun r r'"
      "runHistory ?s' k = runHistory ?s k @ es"
    using kept r unfolding recordsKept_def by metis
  note old = runRecord_facts(1) [OF evalInvD(5) [OF ok] r]
  note new = runRecord_facts(1) [OF evalInvD(5) [OF ok'] r'(2)]
  have replay: "replayRun (Some (run_Status r)) (map rve_Action es) = Some (run_Status r')"
    using new replayRun_continue [OF old, of "map rve_Action es"] by (simp add: r'(4))
  have "run_Status r' = RunStatusSucceeded \<and> es = []" if "run_Status r = RunStatusSucceeded"
    using replay replayRun_final [of "map rve_Action es"] unfolding that by auto
  then show ?thesis using r' by blast
qed

subsection \<open>Any sequence of calls\<close>

text \<open>
  C14: After any sequence of calls every run evaluates the items of a published dataset of its tenant,
  its event history replays to its status, and it has one result per item, with its own status,
  exactly while it is finished.
\<close>

theorem runs_follow_their_dataset:
  assumes "evalSteps deps svc env newEvalState st" "servicesOK deps svc" "est_runs (evl_Store st) k = Some r"
  shows "\<exists>d. est_datasets (evl_Store st) (run_DatasetID r) = Some d \<and> eds_Status d = DatasetStatusPublished
    \<and> run_TenantID r = eds_TenantID d \<and> itemsOf (evl_Store st) k = map runItemOf (eds_Items d)
    \<and> run_DatasetItemCount r = int (length (eds_Items d))
    \<and> replayRun None (map rve_Action (runHistory (evl_Store st) k)) = Some (run_Status r)
    \<and> (if finishedStatus (run_Status r)
       then \<exists>rs. est_runItemResults (evl_Store st) k = Some rs
              \<and> judgedFor (map runItemOf (eds_Items d)) (run_Status r) rs
       else est_runItemResults (evl_Store st) k = None)"
  by (rule evalInv_run [OF evalSteps_from_new [OF assms(1,2)] assms(3)])

text \<open>Only a report that is materialised changes the reports, and it is made of a finished run.\<close>

definition reportTyped :: "evalReport \<Rightarrow> bool" where
  "reportTyped rep \<longleftrightarrow> erp_Status rep = EvalReportStatusReady
     \<and> erp_RunStatus rep \<in> {RunStatusSucceeded, RunStatusFailed}
     \<and> (\<forall>b \<in> set (erp_BadCases rep). bad_Verdict b \<in> {RunItemVerdictPass, RunItemVerdictFail})"

lemma tally_verdicts:
  assumes "\<forall>x \<in> set rs. irs_Verdict x \<in> V" "\<forall>b \<in> set (tly_BadCases t). bad_Verdict b \<in> V"
  shows "\<forall>b \<in> set (tly_BadCases (fold (tallyResult env items) rs t)). bad_Verdict b \<in> V"
  using assms
proof (induction rs arbitrary: t)
  case (Cons x rs)
  have "\<forall>b \<in> set (tly_BadCases (tallyResult env items x t)). bad_Verdict b \<in> V"
    using Cons.prems by (auto simp: tallyResult_def badCaseOf_def Let_def split: option.splits)
  then show ?case using Cons.IH Cons.prems(1) by simp
qed simp

lemma MaterializeRunReport_typed:
  assumes "evalInv st" "MaterializeRunReport env k (evl_Store st) = (res, s')"
  shows "est_evalReports s' = est_evalReports (evl_Store st)
    \<or> (\<exists>rep. est_evalReports s' = (est_evalReports (evl_Store st))(erp_ID rep \<mapsto> rep) \<and> reportTyped rep)"
proof (cases "est_runs (evl_Store st) k")
  case None
  then show ?thesis using assms(2) by (simp add: MaterializeRunReport_def eval_GetRunDetail_def)
next
  case (Some r)
  let ?s = "evl_Store st"
  have results: "\<forall>x \<in> set (entries (est_runItemResults ?s) k). irs_Verdict x \<in> {RunItemVerdictPass, RunItemVerdictFail}"
    using runRecord_facts(3) [OF evalInvD(5) [OF assms(1)] Some]
    by (auto simp: entries_def judgedFor_def finishedStatus_def split: if_splits)
  have "reportTyped rep" if "buildEvalReport env detail = Inr rep" "eval_GetRunDetail k ?s = Inr detail" for detail rep
    using that tally_verdicts [OF results, of "\<lparr>tly_BadCases = [], tly_JudgeVersions = [], tly_PromptPaths = [],
        tly_VersionIDs = [], tly_TotalScore = 0\<rparr>" env "itemByCaseID (entries (est_runItems ?s) k)"] Some
    by (auto simp: reportTyped_def buildEvalReport_def eval_GetRunDetail_def reportFrom_def Let_def
        split: if_splits option.splits sum.splits)
  then show ?thesis
    using assms(2) by (auto simp: MaterializeRunReport_def eval_SaveEvalReport_def split: sum.splits)
qed

lemma run_calls_keep_reports:
  "CreateRun getDataset now rinput st = (rres, st') \<Longrightarrow> est_evalReports (evl_Store st') = est_evalReports (evl_Store st)"
  "MarkRunSucceeded svc k s w = (res, s', w') \<Longrightarrow> est_evalReports s' = est_evalReports s"
  "failRunWith j msg svc k reason s w = (res, s', w') \<Longrightarrow> est_evalReports s' = est_evalReports s"
  "RetryRun svc k s w = (res, s', w') \<Longrightarrow> est_evalReports s' = est_evalReports s"
  by (auto simp: CreateRun_def eval_CreateRun_def MarkRunSucceeded_def eval_MarkRunSucceeded_def failRunWith_def
      eval_MarkRunFailed_def RetryRun_def eval_RetryRun_def finishRun_def appendRunEventLocked_def putRun_def Let_def
      split: if_splits sum.splits option.splits prod.splits)

lemma ClaimQueuedRuns_keeps_reports:
  assumes "evalInv st" "iterOrder (est_runs (evl_Store st)) ks" "ClaimQueuedRuns svc ks limit (evl_Store st) w = Some (runs, s', w')"
  shows "est_evalReports s' = est_evalReports (evl_Store st)"
proof -
  obtain t w1 where now: "rsn_Now svc w = (t, w1)" by force
  have "0 < (if limit \<le> 0 then 10 else limit)" by simp
  from claim_runs [OF evalInvD(5) [OF assms(1)] assms(2) this, of t] assms(3) now show ?thesis
    by (auto simp: ClaimQueuedRuns_def)
qed

lemma dataset_calls_keep_reports:
  "PromoteCase deps now created id input st = (pres, st') \<Longrightarrow> est_evalReports (evl_Store st') = est_evalReports (evl_Store st)"
  "CreateDataset getCase now dinput st = (dres, st') \<Longrightarrow> est_evalReports (evl_Store st') = est_evalReports (evl_Store st)"
  "AddDatasetItem getCase now id k ainput s = (dres, s') \<Longrightarrow> est_evalReports s' = est_evalReports s"
  "PublishDataset now id k pinput s = (dres, s') \<Longrightarrow> est_evalReports s' = est_evalReports s"
  by (auto simp: PromoteCase_def promoteNewCase_def eval_Save_def CreateDataset_def eval_CreateDataset_def AddDatasetItem_def
      eval_AddDatasetItem_def PublishDataset_def eval_PublishDataset_def eval_GetDataset_def Let_def
      split: if_splits sum.splits option.splits prod.splits evalError.splits)

lemma evalStep_reports:
  assumes "evalStep deps svc env st st'" "evalInv st"
  shows "est_evalReports (evl_Store st') = est_evalReports (evl_Store st)
    \<or> (\<exists>rep. est_evalReports (evl_Store st') = (est_evalReports (evl_Store st))(erp_ID rep \<mapsto> rep) \<and> reportTyped rep)"
  using assms(1)
proof cases
  case (claims ks limit w runs s' w')
  then show ?thesis using ClaimQueuedRuns_keeps_reports [OF assms(2) claims(2,3)] by simp
next
  case (reports k pres s')
  then show ?thesis using MaterializeRunReport_typed [OF assms(2)] by simp
qed (auto dest: dataset_calls_keep_reports run_calls_keep_reports simp: MarkRunFailed_def MarkRunFailedWithFallback_def)

lemma reports_typed:
  assumes "evalSteps deps svc env newEvalState st" "servicesOK deps svc" "est_evalReports (evl_Store st) k = Some rep"
  shows "reportTyped rep"
proof -
  have "\<forall>k rep. est_evalReports (evl_Store st) k = Some rep \<longrightarrow> reportTyped rep"
    using assms(1)
  proof (induction rule: rtranclp_induct)
    case base
    then show ?case by (simp add: newEvalState_def newMemoryStore_def)
  next
    case (step y z)
    from evalStep_reports [OF step.hyps(2) evalSteps_from_new [OF step.hyps(1) assms(2)]] step.IH
    show ?case by (auto split: if_splits)
  qed
  then show ?thesis using assms(3) by blast
qed

text \<open>
  C26: Every status, action and verdict of a dataset, a run, an event, a result, a report and a bad
  case in the store is one of its type's constants.
\<close>

theorem evaluation_states_typed:
  assumes "evalSteps deps svc env newEvalState st" "servicesOK deps svc"
  shows "(\<forall>d \<in> ran (est_datasets (evl_Store st)). eds_Items d \<noteq> []
        \<and> eds_Status d \<in> {DatasetStatusDraft, DatasetStatusPublished})
    \<and> (\<forall>r \<in> ran (est_runs (evl_Store st)). run_Status r \<in> runStatuses)
    \<and> (\<forall>k. \<forall>e \<in> set (runHistory (evl_Store st) k). rve_Action e \<in> runActions)
    \<and> (\<forall>rs \<in> ran (est_runItemResults (evl_Store st)). \<forall>x \<in> set rs.
         irs_Status x \<in> {RunItemResultSucceeded, RunItemResultFailed}
       \<and> irs_Verdict x \<in> {RunItemVerdictPass, RunItemVerdictFail})
    \<and> (\<forall>rep \<in> ran (est_evalReports (evl_Store st)). erp_Status rep = EvalReportStatusReady
       \<and> erp_RunStatus rep \<in> {RunStatusSucceeded, RunStatusFailed}
       \<and> (\<forall>b \<in> set (erp_BadCases rep). bad_Verdict b \<in> {RunItemVerdictPass, RunItemVerdictFail}))"
proof -
  let ?s = "evl_Store st"
  have reports: "reportTyped rep" if "rep \<in> ran (est_evalReports ?s)" for rep
    using that reports_typed [OF assms] by (auto simp: ran_def)
  note ok = evalSteps_from_new [OF assms]
  note store = evalInvD(5) [OF ok]
  have datasets: "eds_Items d \<noteq> [] \<and> eds_Status d \<in> {DatasetStatusDraft, DatasetStatusPublished}"
    if "d \<in> ran (est_datasets ?s)" for d
    using evalInvD(3) [OF ok] that by (auto simp: datasetsOK_def datasetOK_def ran_def)
  have replayed: "run_Status r \<in> runStatuses \<and> rve_Action ` set (runHistory ?s k) \<subseteq> runActions"
    if "est_runs ?s k = Some r" for k r
    using replayRun_typed [OF runRecord_facts(1) [OF store that]] by simp
  have actions: "rve_Action e \<in> runActions" if "e \<in> set (runHistory ?s k)" for k e
  proof (cases "est_runs ?s k")
    case None
    then show ?thesis using that no_run_no_record(1) [OF store] by simp
  next
    case (Some r)
    then show ?thesis using that replayed by blast
  qed
  have results: "irs_Status x \<in> {RunItemResultSucceeded, RunItemResultFailed}
      \<and> irs_Verdict x \<in> {RunItemVerdictPass, RunItemVerdictFail}"
    if rs: "est_runItemResults ?s k = Some rs" and x: "x \<in> set rs" for k rs x
  proof (cases "est_runs ?s k")
    case None
    then show ?thesis using rs no_run_no_record(2) [OF store] by simp
  next
    case (Some r)
    then have "finishedStatus (run_Status r)" "judgedFor (itemsOf ?s k) (run_Status r) rs"
      using runRecord_facts(3) [OF store Some] rs by (auto split: if_splits)
    then show ?thesis using x by (auto simp: judgedFor_def finishedStatus_def)
  qed
  show ?thesis
  proof (intro conjI ballI allI)
    fix r assume "r \<in> ran (est_runs ?s)"
    then show "run_Status r \<in> runStatuses" using replayed by (auto simp: ran_def)
  next
    fix rs x assume "rs \<in> ran (est_runItemResults ?s)" "x \<in> set rs"
    then show "irs_Status x \<in> {RunItemResultSucceeded, RunItemResultFailed}"
      "irs_Verdict x \<in> {RunItemVerdictPass, RunItemVerdictFail}" using results by (auto simp: ran_def)
  next
    fix rep assume "rep \<in> ran (est_evalReports ?s)"
    note rep = reports [OF this, unfolded reportTyped_def]
    show "erp_Status rep = EvalReportStatusReady" "erp_RunStatus rep \<in> {RunStatusSucceeded, RunStatusFailed}"
      by (simp_all only: rep)
    fix b assume "b \<in> set (erp_BadCases rep)"
    with rep show "bad_Verdict b \<in> {RunItemVerdictPass, RunItemVerdictFail}" by blast
  qed (use datasets actions in blast)+
qed

text \<open>
  No sequence of calls changes an eval case or a published dataset, or the tenant, dataset and
  items of a run; event histories only grow, and a run that succeeded stays as it is.
\<close>

theorem evaluation_records_stable:
  assumes "evalSteps deps svc env newEvalState st" "evalSteps deps svc env st st'" "servicesOK deps svc"
  shows "est_byID (evl_Store st) \<subseteq>\<^sub>m est_byID (evl_Store st')
    \<and> (\<forall>k d. est_datasets (evl_Store st) k = Some d \<and> eds_Status d = DatasetStatusPublished
         \<longrightarrow> est_datasets (evl_Store st') k = Some d)
    \<and> (\<forall>k r. est_runs (evl_Store st) k = Some r \<longrightarrow>
         itemsOf (evl_Store st') k = itemsOf (evl_Store st) k
       \<and> (\<exists>r' es. est_runs (evl_Store st') k = Some r' \<and> sameRun r r'
            \<and> runHistory (evl_Store st') k = runHistory (evl_Store st) k @ es
            \<and> (run_Status r = RunStatusSucceeded \<longrightarrow> run_Status r' = RunStatusSucceeded \<and> es = [])))"
proof -
  let ?s = "evl_Store st" and ?s' = "evl_Store st'"
  note ok = evalSteps_from_new [OF assms(1,3)]
  have "stepOK st st'" by (rule evalSteps_OK [OF assms(2) ok assms(3)])
  then have kept: "recordsKept ?s ?s'" by (simp only: stepOK_def)
  note run = stepOK_run [OF ok \<open>stepOK st st'\<close>]
  show ?thesis using kept run unfolding recordsKept_def by blast
qed

subsection \<open>Where a published dataset changes\<close>

text \<open>
  The services check that a dataset is a draft before they add to it, the store does not: an item
  whose request was checked before another request publishes the dataset is added to the
  published dataset.
\<close>

theorem published_dataset_changes:
  assumes "est_datasets s k = Some d" "eds_ID d = k" "eds_Status d = DatasetStatusDraft" "eds_TenantID d \<noteq> []"
    and "trimSpace (pbi_TenantID pinput) = eds_TenantID d" "trimSpace (adi_TenantID input) = eds_TenantID d"
    and "trimSpace (adi_EvalCaseID input) \<noteq> []" "getCase (trimSpace (adi_EvalCaseID input)) = Inr e"
    and "evc_TenantID e = eds_TenantID d" "evc_ID e \<notin> edi_EvalCaseID ` set (eds_Items d)"
    and "publish = (\<lambda>s. snd (PublishDataset t id k pinput s))"
  shows "\<exists>dp d' s'. est_datasets (publish s) k = Some dp \<and> eds_Status dp = DatasetStatusPublished
    \<and> eds_Items dp = eds_Items d
    \<and> AddDatasetItem getCase now publish k input s = (Inr d', s') \<and> est_datasets s' k = Some d'
    \<and> eds_Status d' = DatasetStatusPublished \<and> eds_Items d' = eds_Items dp @ [datasetItemOf e]"
proof -
  let ?by = "fallbackString (trimSpace (pbi_PublishedBy pinput)) ''operator''"
  let ?dp = "d\<lparr>eds_Status := DatasetStatusPublished, eds_PublishedBy := ?by, eds_PublishedAt := t, eds_UpdatedAt := t\<rparr>"
  let ?d = "?dp\<lparr>eds_Items := eds_Items d @ [datasetItemOf e], eds_UpdatedAt := now\<rparr>"
  have p: "publish s = s\<lparr>est_datasets := (est_datasets s)(k \<mapsto> ?dp)\<rparr>"
    using assms(1-5) by (simp add: assms(11) PublishDataset_def eval_GetDataset_def eval_PublishDataset_def Let_def)
  have new: "\<not> (\<exists>m \<in> set (eds_Items d). edi_EvalCaseID m = evc_ID e)" using assms(10) by (metis imageI)
  have "AddDatasetItem getCase now publish k input s = eval_AddDatasetItem k (datasetItemOf e) now (publish s)"
    using assms(1-4,6-9) new by (simp add: AddDatasetItem_def eval_GetDataset_def)
  also have "\<dots> = (Inr ?d, s\<lparr>est_datasets := (est_datasets s)(k \<mapsto> ?d)\<rparr>)"
    unfolding p using new by (simp add: eval_AddDatasetItem_def Let_def)
  finally show ?thesis unfolding p by simp
qed

subsection \<open>Reports and regressions\<close>

text \<open>
  The report of a run that succeeded counts every item as passed, also the ones that the judge
  failed: these are its bad cases at the same time.
\<close>

theorem passed_items_include_bad_cases:
  assumes "runStoreOK s" "est_runs s k = Some r" "run_Status r = RunStatusSucceeded"
    and "\<And>m. \<exists>json. ren_Encode env m = Inr json"
  shows "\<exists>rep rs. fst (MaterializeRunReport env k s) = Inr rep \<and> est_runItemResults s k = Some rs
    \<and> erp_PassedItems rep = int (length (itemsOf s k)) \<and> erp_FailedItems rep = 0
    \<and> map bad_EvalCaseID (erp_BadCases rep) = map irs_EvalCaseID (filter (\<lambda>x. irs_Verdict x = RunItemVerdictFail) rs)"
proof -
  have fin: "finishedStatus (run_Status r)" using assms(3) by (simp add: finishedStatus_def)
  obtain rep where rep: "MaterializeRunReport env k s = (Inr rep, snd (eval_SaveEvalReport rep s))" "reportsRun s k rep"
    using finished_report [OF assms(1,2) fin assms(4)] by blast
  obtain rs where rs: "est_runItemResults s k = Some rs" "judgedFor (itemsOf s k) RunStatusSucceeded rs"
    using runRecord_facts(3) [OF assms(1,2)] fin assms(3) by auto
  have "filter isBad rs = filter (\<lambda>x. irs_Verdict x = RunItemVerdictFail) rs"
    by (rule filter_cong) (use rs(2) in \<open>auto simp: isBad_def judgedFor_def\<close>)
  then show ?thesis using rep rs(1) assms(2,3) by (auto simp: reportsRun_def)
qed

text \<open>
  A regression check compares two stored reports: the new bad cases are those of the candidate
  whose eval case is not bad in the baseline, the resolved ones the converse, and the verdict is
  a regression exactly when the score drops by the threshold or too many cases are new.  A report
  is stable against itself.
\<close>

theorem DetectRegression_correct:
  assumes "b \<noteq> []" "c \<noteq> []" "est_evalReports s b = Some base" "est_evalReports s c = Some cand"
  shows "\<exists>r. DetectRegression b c t s = Inr r
    \<and> set (reg_NewBadCases r) = {x \<in> set (erp_BadCases cand). bad_EvalCaseID x \<notin> bad_EvalCaseID ` set (erp_BadCases base)}
    \<and> set (reg_ResolvedBadCases r) = {x \<in> set (erp_BadCases base). bad_EvalCaseID x \<notin> bad_EvalCaseID ` set (erp_BadCases cand)}
    \<and> (reg_Verdict r = RegressionVerdictRegression \<longleftrightarrow>
         0 < thr_ScoreDrop t \<and> thr_ScoreDrop t \<le> erp_AverageScore base - erp_AverageScore cand
       \<or> thr_NewFailedCasesMax t < int (length (reg_NewBadCases r)))
    \<and> (reg_Verdict r = RegressionVerdictImprovement \<longleftrightarrow> reg_Verdict r \<noteq> RegressionVerdictRegression
       \<and> thr_ScoreDrop t < erp_AverageScore cand - erp_AverageScore base \<and> reg_NewBadCases r = [])
    \<and> (b = c \<and> 0 \<le> thr_ScoreDrop t \<and> 0 \<le> thr_NewFailedCasesMax t \<longrightarrow> reg_Verdict r = RegressionVerdictStable)"
proof -
  let ?new = "diffBadCases (erp_BadCases base) (erp_BadCases cand)"
  let ?gone = "diffBadCases (erp_BadCases cand) (erp_BadCases base)"
  let ?delta = "erp_AverageScore cand - erp_AverageScore base"
  obtain r where r: "DetectRegression b c t s = Inr r" "reg_NewBadCases r = ?new" "reg_ResolvedBadCases r = ?gone"
      "reg_Verdict r = classifyRegression ?delta (int (length ?new)) t"
    using assms by (simp add: DetectRegression_def eval_GetEvalReport_def Let_def)
  have sets: "set ?new = {x \<in> set (erp_BadCases cand). bad_EvalCaseID x \<notin> bad_EvalCaseID ` set (erp_BadCases base)}"
      "set ?gone = {x \<in> set (erp_BadCases base). bad_EvalCaseID x \<notin> bad_EvalCaseID ` set (erp_BadCases cand)}"
    by (simp_all add: diffBadCases_def badIDs_def)
  have verdict: "reg_Verdict r = RegressionVerdictRegression \<longleftrightarrow>
         0 < thr_ScoreDrop t \<and> thr_ScoreDrop t \<le> erp_AverageScore base - erp_AverageScore cand
       \<or> thr_NewFailedCasesMax t < int (length (reg_NewBadCases r))"
    unfolding r(2,4) by (auto simp: classifyRegression_def)
  have better: "reg_Verdict r = RegressionVerdictImprovement \<longleftrightarrow> reg_Verdict r \<noteq> RegressionVerdictRegression
       \<and> thr_ScoreDrop t < erp_AverageScore cand - erp_AverageScore base \<and> reg_NewBadCases r = []"
    unfolding r(2,4) by (auto simp: classifyRegression_def)
  have "reg_Verdict r = RegressionVerdictStable" if "b = c" "0 \<le> thr_ScoreDrop t" "0 \<le> thr_NewFailedCasesMax t"
  proof -
    have "?new = []" using assms(3,4) that(1) by (auto simp: diffBadCases_def badIDs_def filter_empty_conv)
    then show ?thesis using assms(3,4) that unfolding r(4) by (auto simp: classifyRegression_def)
  qed
  with r(1) sets verdict better show ?thesis unfolding r(2,3) [symmetric] by blast
qed

subsection \<open>Executing a run through the chat\<close>

lemma executeItems_kept:
  "cst_World (fst (snd (executeItems env clock ctxErr run items (chat, n)))) = cst_World chat
   \<and> cst_Workflows (fst (snd (executeItems env clock ctxErr run items (chat, n)))) = cst_Workflows chat
   \<and> n \<le> snd (snd (executeItems env clock ctxErr run items (chat, n)))
   \<and> snd (snd (executeItems env clock ctxErr run items (chat, n))) \<le> n + length items"
proof (induction items arbitrary: chat n)
  case (Cons item rest)
  show ?case
  proof (cases "ctxErr n")
    case None
    let ?req = "evalRequestFor run item"
    have "req_Mode ?req = ''eval''" by (simp add: evalRequestFor_def Let_def)
    note kept = Handle_eval_kept [OF this, of env "clock n" chat]
    show ?thesis using Cons.IH [of "snd (Handle env (clock n) ?req chat)" "n + 1"] kept None by simp
  qed simp
qed simp

text \<open>
  Executing an eval run sends each of its items through the chat at most once and leaves no trace
  outside the sessions: no tool acts, no task is promoted, whatever the planner answers.
\<close>

theorem eval_run_has_no_effects:
  "cst_World (fst (snd (ChatExecuteRun env clock ctxErr s run w))) = cst_World (fst w)
   \<and> cst_Workflows (fst (snd (ChatExecuteRun env clock ctxErr s run w))) = cst_Workflows (fst w)
   \<and> snd (snd (ChatExecuteRun env clock ctxErr s run w)) - snd w \<le> length (itemsOf s (run_ID run))"
proof (cases "est_runs s (run_ID run)")
  case None
  then show ?thesis by (simp add: ChatExecuteRun_def eval_GetRunDetail_def)
next
  case (Some r)
  then have "ChatExecuteRun env clock ctxErr s run w
      = executeItems env clock ctxErr run (itemsOf s (run_ID run)) (fst w, snd w)"
    by (simp add: ChatExecuteRun_def eval_GetRunDetail_def Let_def)
  then show ?thesis using executeItems_kept [of env clock ctxErr run "itemsOf s (run_ID run)" "fst w" "snd w"] by auto
qed

subsection \<open>A promotion that ends in a run\<close>

text \<open>The identifiers the services mint are read back as they are.\<close>

lemma trimSpace_id:
  "stripOne spaceEncodings s = None \<Longrightarrow> stripOne (map rev spaceEncodings) (rev s) = None \<Longrightarrow> trimSpace s = s"
  by (simp add: trimSpace_def trimLeft_fix)

lemma showNat_ends: "\<exists>xs. showNat n = xs @ [digitChar (n mod 10)]"
  by (subst showNat.simps) simp

lemma stripOne_head:
  "list_all (\<lambda>p. p \<noteq> [] \<and> hd p \<notin> S) ps \<Longrightarrow> c \<in> S \<Longrightarrow> stripOne ps (c # xs) = None"
  by (induction ps) (auto simp: hasPrefix_iff Cons_eq_append_conv)

lemma digit_no_space:
  assumes "n < 10"
  shows "stripOne (map rev spaceEncodings) (digitChar n # xs) = None"
proof (rule stripOne_head)
  show "list_all (\<lambda>p. p \<noteq> [] \<and> hd p \<notin> set ''0123456789'') (map rev spaceEncodings)"
    by (simp add: spaceEncodings_def)
  show "digitChar n \<in> set ''0123456789''" unfolding digitChar_def by (rule nth_mem) (use assms in simp)
qed

lemma trimSpace_mint:
  assumes "stripOne spaceEncodings (sequencedID p now n) = None"
  shows "trimSpace (sequencedID p now n) = sequencedID p now n"
proof (rule trimSpace_id [OF assms])
  obtain xs where "showNat (unat n) = xs @ [digitChar (unat n mod 10)]" using showNat_ends by blast
  then have "rev (sequencedID p now n) = digitChar (unat n mod 10) # rev (p @ showInt (unixNano now) @ ''-'' @ xs)"
    by (simp add: sequencedID_def)
  then show "stripOne (map rev spaceEncodings) (rev (sequencedID p now n)) = None" by (simp only: digit_no_space mod_less_divisor zero_less_numeral)
qed

lemma trimSpace_evalIDs [simp]:
  "trimSpace (newEvalCaseID now n) = newEvalCaseID now n"
  "trimSpace (newEvalDatasetID now n) = newEvalDatasetID now n"
  "trimSpace (newEvalRunID now n) = newEvalRunID now n"
  unfolding newEvalCaseID_def newEvalDatasetID_def newEvalRunID_def
  by (rule trimSpace_mint, simp add: stripOne_None spaceEncodings_def hasPrefix_iff sequencedID_def)+
definition demoRunDeps :: evalCaseDeps where
  "demoRunDeps = \<lparr>evd_GetCase = (\<lambda>i. Inr ((demoCase 1 ''open'' [] 5)\<lparr>cs_ID := i\<rparr>)),
     evd_Summaries = None, evd_Traces = None\<rparr>"

definition demoRunService :: "unit runService" where
  "demoRunService = NewRunService (\<lambda>_. None) (\<lambda>w. (5, w)) None"

definition demoReportEnv :: reportEnv where
  "demoReportEnv = \<lparr>ren_Encode = (\<lambda>_. Inr ''{}''), ren_DecodeTexts = (\<lambda>_. None),
     ren_FormatTime = (\<lambda>_. []), ren_FormatScore = (\<lambda>_. [])\<rparr>"

lemma demo_servicesOK: "servicesOK demoRunDeps demoRunService"
  using placeholder_judge.run_judge_axioms by (simp add: servicesOK_def demoRunDeps_def demoRunService_def NewRunService_def)

abbreviation (input) "demoE \<equiv> newEvalCaseID 0 1"
abbreviation (input) "demoD \<equiv> newEvalDatasetID 0 1"
abbreviation (input) "demoR \<equiv> newEvalRunID 0 1"

definition demoPromoted :: evalState where
  "demoPromoted = snd (PromoteCase demoRunDeps 0 0 id
     \<lparr>eci_TenantID = ''acme'', eci_SourceCaseID = ''c1'', eci_OperatorNote = [], eci_CreatedBy = []\<rparr> newEvalState)"

definition demoDrafted :: evalState where
  "demoDrafted = snd (CreateDataset (\<lambda>i. GetEvalCase demoRunDeps i (evl_Store demoPromoted)) 0
     \<lparr>cdi_TenantID = ''acme'', cdi_Name = [], cdi_Description = [], cdi_EvalCaseIDs = [demoE], cdi_CreatedBy = []\<rparr>
     demoPromoted)"

definition demoPublished :: evalState where
  "demoPublished = demoDrafted\<lparr>evl_Store := snd (PublishDataset 0 id demoD
     \<lparr>pbi_TenantID = ''acme'', pbi_PublishedBy = []\<rparr> (evl_Store demoDrafted))\<rparr>"

definition demoQueued :: evalState where
  "demoQueued = snd (CreateRun (\<lambda>i. eval_GetDataset i (evl_Store demoPublished)) 0
     \<lparr>cri_TenantID = ''acme'', cri_DatasetID = demoD, cri_CreatedBy = []\<rparr> demoPublished)"

lemma trimSpace_acme [simp]: "trimSpace ''acme'' = ''acme''" "trimSpace [] = []"
  by code_simp+

lemma demoPromoted_facts:
  "evl_DatasetSeq demoPromoted = 0" "evl_RunSeq demoPromoted = 0"
  "est_datasets (evl_Store demoPromoted) = Map.empty" "est_runs (evl_Store demoPromoted) = Map.empty"
  "\<exists>e. est_byID (evl_Store demoPromoted) demoE = Some e \<and> evc_ID e = demoE \<and> evc_TenantID e = ''acme''"
  by (simp_all add: demoPromoted_def newEvalState_def PromoteCase_def promoteNewCase_def demoRunDeps_def
      eval_GetBySourceCase_def eval_Save_def newMemoryStore_def demoCase_def promotedEvalCase_def Let_def)

lemma demo_GetEvalCase: "GetEvalCase demoRunDeps i s = eval_Get i s"
  by (simp add: GetEvalCase_def enrichEvalCase_def applyFollowUpSummaries_def demoRunDeps_def split: sum.split list.split)

lemma map_one_eq: "[k \<mapsto> x] = [k \<mapsto> y] \<longleftrightarrow> x = y"
  by (metis map_upd_Some_unfold)

lemma evalIDs_nonempty [simp]: "newEvalCaseID t n \<noteq> []" "newEvalDatasetID t n \<noteq> []" "newEvalRunID t n \<noteq> []"
  by (simp_all add: newEvalCaseID_def newEvalDatasetID_def newEvalRunID_def sequencedID_def)

lemma demoDrafted_facts:
  "evl_RunSeq demoDrafted = 0" "est_runs (evl_Store demoDrafted) = Map.empty"
  "\<exists>d. est_datasets (evl_Store demoDrafted) = [demoD \<mapsto> d] \<and> eds_ID d = demoD \<and> eds_TenantID d = ''acme''
     \<and> eds_Status d = DatasetStatusDraft \<and> map edi_EvalCaseID (eds_Items d) = [demoE]"
proof -
  obtain e where "est_byID (evl_Store demoPromoted) demoE = Some e" "evc_ID e = demoE" "evc_TenantID e = ''acme''"
    using demoPromoted_facts(5) by (elim exE conjE)
  then show "evl_RunSeq demoDrafted = 0" "est_runs (evl_Store demoDrafted) = Map.empty"
    "\<exists>d. est_datasets (evl_Store demoDrafted) = [demoD \<mapsto> d] \<and> eds_ID d = demoD \<and> eds_TenantID d = ''acme''
     \<and> eds_Status d = DatasetStatusDraft \<and> map edi_EvalCaseID (eds_Items d) = [demoE]"
    using demoPromoted_facts(1-4)
    by (simp_all add: demoDrafted_def CreateDataset_def demo_GetEvalCase eval_Get_def eval_CreateDataset_def
        datasetItemOf_def Let_def map_one_eq)
qed

lemma demoPublished_facts:
  "evl_RunSeq demoPublished = 0" "est_runs (evl_Store demoPublished) = Map.empty"
  "\<exists>d. est_datasets (evl_Store demoPublished) = [demoD \<mapsto> d] \<and> eds_ID d = demoD \<and> eds_TenantID d = ''acme''
     \<and> eds_Status d = DatasetStatusPublished \<and> map edi_EvalCaseID (eds_Items d) = [demoE]"
proof -
  obtain d where "est_datasets (evl_Store demoDrafted) = [demoD \<mapsto> d]" "eds_ID d = demoD" "eds_TenantID d = ''acme''"
      "eds_Status d = DatasetStatusDraft" "map edi_EvalCaseID (eds_Items d) = [demoE]"
    using demoDrafted_facts(3) by (elim exE conjE)
  then show "evl_RunSeq demoPublished = 0" "est_runs (evl_Store demoPublished) = Map.empty"
    "\<exists>d. est_datasets (evl_Store demoPublished) = [demoD \<mapsto> d] \<and> eds_ID d = demoD \<and> eds_TenantID d = ''acme''
     \<and> eds_Status d = DatasetStatusPublished \<and> map edi_EvalCaseID (eds_Items d) = [demoE]"
    using demoDrafted_facts(1,2)
    by (simp_all add: demoPublished_def PublishDataset_def eval_GetDataset_def eval_PublishDataset_def Let_def map_one_eq)
qed

lemma demoQueued_facts:
  "\<exists>r. est_runs (evl_Store demoQueued) = [demoR \<mapsto> r] \<and> run_ID r = demoR \<and> run_Status r = RunStatusQueued"
proof -
  obtain d where "est_datasets (evl_Store demoPublished) = [demoD \<mapsto> d]" "eds_ID d = demoD" "eds_TenantID d = ''acme''"
      "eds_Status d = DatasetStatusPublished"
    using demoPublished_facts(3) by (elim exE conjE)
  then show ?thesis using demoPublished_facts(1,2)
    by (simp add: demoQueued_def CreateRun_def eval_GetDataset_def created_simps Let_def split_def map_one_eq)
qed

lemma demo_steps: "evalSteps demoRunDeps demoRunService demoReportEnv newEvalState demoPublished"
    "evalSteps demoRunDeps demoRunService demoReportEnv demoPublished demoQueued"
proof -
  let ?step = "evalStep demoRunDeps demoRunService demoReportEnv"
  have seqs: "evl_CaseSeq newEvalState < - 1" "evl_DatasetSeq demoPromoted < - 1" "evl_RunSeq demoPublished < - 1"
    using demoPromoted_facts(1) demoPublished_facts(1) by (simp_all add: newEvalState_def word_gt_0)
  have promoted: "?step newEvalState demoPromoted"
    unfolding demoPromoted_def by (rule evalStep.promotes_case [OF seqs(1) prod.collapse [symmetric]])
  have drafted: "?step demoPromoted demoDrafted"
    unfolding demoDrafted_def by (rule evalStep.creates_dataset [OF seqs(2) prod.collapse [symmetric]])
  have published: "?step demoDrafted demoPublished"
    unfolding demoPublished_def by (rule evalStep.publishes [OF prod.collapse [symmetric]])
  show "?step\<^sup>*\<^sup>* newEvalState demoPublished"
    by (rule rtranclp.rtrancl_into_rtrancl [OF rtranclp.rtrancl_into_rtrancl [OF
          r_into_rtranclp [of ?step, OF promoted] drafted] published])
  have queued: "?step demoPublished demoQueued"
    unfolding demoQueued_def by (rule evalStep.creates_run [OF seqs(3) prod.collapse [symmetric]])
  show "?step\<^sup>*\<^sup>* demoPublished demoQueued" by (rule r_into_rtranclp [of ?step, OF queued])
qed

lemma demo_steps_queued: "evalSteps demoRunDeps demoRunService demoReportEnv newEvalState demoQueued"
  using demo_steps by (rule rtranclp_trans)

lemma demo_runs_ok: "evalInv demoQueued" "runStoreOK (evl_Store demoQueued)" "iterOrder (est_runs (evl_Store demoQueued)) [demoR]"
proof -
  show "evalInv demoQueued" by (rule evalSteps_from_new [OF demo_steps_queued demo_servicesOK])
  then show "runStoreOK (evl_Store demoQueued)" by (rule evalInvD)
  show "iterOrder (est_runs (evl_Store demoQueued)) [demoR]" using demoQueued_facts by (elim exE conjE) (simp add: iterOrder_def)
qed

subsubsection \<open>The theorems at work\<close>

lemma runs_follow_their_dataset_witness:
  "\<exists>r d. est_runs (evl_Store demoQueued) demoR = Some r
     \<and> est_datasets (evl_Store demoQueued) (run_DatasetID r) = Some d
     \<and> itemsOf (evl_Store demoQueued) demoR = map runItemOf (eds_Items d)"
proof -
  obtain r where r: "est_runs (evl_Store demoQueued) demoR = Some r" using demoQueued_facts by auto
  from runs_follow_their_dataset [OF demo_steps_queued demo_servicesOK r] r show ?thesis by blast
qed

lemma evaluation_states_typed_witness:
  "\<exists>r. est_runs (evl_Store demoQueued) demoR = Some r \<and> run_Status r \<in> runStatuses"
proof -
  obtain r where r: "est_runs (evl_Store demoQueued) demoR = Some r" using demoQueued_facts by auto
  with evaluation_states_typed [OF demo_steps_queued demo_servicesOK] have "run_Status r \<in> runStatuses"
    by (auto simp: ran_def)
  with r show ?thesis by (intro exI conjI)
qed

lemma evaluation_records_stable_witness:
  "\<exists>d. est_datasets (evl_Store demoQueued) demoD = Some d \<and> eds_Status d = DatasetStatusPublished"
proof -
  obtain d where d: "est_datasets (evl_Store demoPublished) = [demoD \<mapsto> d]" "eds_Status d = DatasetStatusPublished"
    using demoPublished_facts(3) by (elim exE conjE)
  then have "est_datasets (evl_Store demoPublished) demoD = Some d" by simp
  with evaluation_records_stable [OF demo_steps demo_servicesOK] d(2) show ?thesis by blast
qed

lemma published_dataset_changes_witness:
  "\<exists>d' s'. AddDatasetItem (\<lambda>i. Inr (zeroEvalCase\<lparr>evc_ID := i, evc_TenantID := ''acme''\<rparr>)) 0
      (\<lambda>s. snd (PublishDataset 0 id demoD \<lparr>pbi_TenantID = ''acme'', pbi_PublishedBy = []\<rparr> s)) demoD
      \<lparr>adi_TenantID = ''acme'', adi_EvalCaseID = ''acme''\<rparr> (evl_Store demoDrafted) = (Inr d', s')
    \<and> eds_Status d' = DatasetStatusPublished"
proof -
  obtain d where d: "est_datasets (evl_Store demoDrafted) = [demoD \<mapsto> d]" "eds_ID d = demoD" "eds_TenantID d = ''acme''"
      "eds_Status d = DatasetStatusDraft" "map edi_EvalCaseID (eds_Items d) = [demoE]"
    using demoDrafted_facts(3) by (elim exE conjE)
  have "edi_EvalCaseID ` set (eds_Items d) = {demoE}" using d(5) by (metis list.simps(15) list.set(1) set_map)
  moreover have "''acme'' \<noteq> demoE" by (simp add: newEvalCaseID_def sequencedID_def)
  ultimately have new: "''acme'' \<notin> edi_EvalCaseID ` set (eds_Items d)" by simp
  have at: "est_datasets (evl_Store demoDrafted) demoD = Some d" using d(1) by simp
  show ?thesis
    using published_dataset_changes [OF at d(2,4), where pinput = "\<lparr>pbi_TenantID = ''acme'', pbi_PublishedBy = []\<rparr>"
        and input = "\<lparr>adi_TenantID = ''acme'', adi_EvalCaseID = ''acme''\<rparr>" and t = 0 and now = 0
        and getCase = "\<lambda>i. Inr (zeroEvalCase\<lparr>evc_ID := i, evc_TenantID := ''acme''\<rparr>)"
        and e = "zeroEvalCase\<lparr>evc_ID := ''acme'', evc_TenantID := ''acme''\<rparr>"] d(3) new
    by (simp add: zeroEvalCase_def) blast
qed

definition demoEvalWorker :: "bool \<Rightarrow> string option \<Rightarrow> unit evalRunner" where
  "demoEvalWorker failAll onCancelled = \<lparr>evr_Service = demoRunService, evr_Executor = PlaceholderExecuteRun failAll,
     evr_Reports = Some demoReportEnv, evr_OnCancelled = onCancelled\<rparr>"

lemma demo_workerOK: "workerOK (demoEvalWorker failAll onCancelled)"
  using placeholder_judge.run_judge_axioms
  by (auto simp: workerOK_def demoEvalWorker_def demoRunService_def NewRunService_def demoReportEnv_def)

lemma demo_queued: "\<exists>q. queuedRuns [demoR] (evl_Store demoQueued) = [q] \<and> run_ID q = demoR"
proof -
  obtain r where r: "est_runs (evl_Store demoQueued) = [demoR \<mapsto> r]" "run_ID r = demoR" "run_Status r = RunStatusQueued"
    using demoQueued_facts by (elim exE conjE)
  then have "queuedRuns [demoR] (evl_Store demoQueued) = [r]" by (simp add: queuedRuns_def rangeVals_def goSort_def)
  with r(2) show ?thesis by blast
qed

lemma eval_batch_settles_witness:
  "\<exists>s' w'. eval_ProcessNextBatch (demoEvalWorker False None) [demoR] 1 (evl_Store demoQueued) () = Some (Inr 1, s', w')
    \<and> settledRun (demoEvalWorker False None) s' demoR"
proof -
  obtain q where q: "queuedRuns [demoR] (evl_Store demoQueued) = [q]" "run_ID q = demoR" using demo_queued by blast
  have none: "evr_OnCancelled (demoEvalWorker False None) = None" by (simp add: demoEvalWorker_def)
  have "[q] = take (nat 1) (queuedRuns [demoR] (evl_Store demoQueued))" using q(1) by simp
  from eval_batch_settles [OF demo_runs_ok(2,3) demo_workerOK none _ this, of "()"] q(2) show ?thesis by auto
qed

lemma failed_run_strands_batch_witness:
  "\<exists>s' w'. eval_ProcessNextBatch (demoEvalWorker True (Some ''context canceled'')) [demoR] 1 (evl_Store demoQueued) ()
    = Some (Inl (EvalOther ''materialize eval report: context canceled''), s', w')"
proof -
  let ?r = "demoEvalWorker True (Some ''context canceled'')"
  obtain q where q: "queuedRuns [demoR] (evl_Store demoQueued) = q # []" using demo_queued by blast
  have r: "evr_Reports ?r = Some demoReportEnv" "evr_OnCancelled ?r = Some ''context canceled''"
      "\<And>s c w. fst (evr_Executor ?r s c w) \<noteq> None"
    by (simp_all add: demoEvalWorker_def PlaceholderExecuteRun_def)
  from failed_run_strands_batch [OF demo_runs_ok(2,3) demo_workerOK _ r(1,2) q r(3), of 1 "()"]
  show ?thesis by auto
qed

definition demoReport :: "string \<Rightarrow> real \<Rightarrow> badCase list \<Rightarrow> evalReport" where
  "demoReport i score bad =
     \<lparr>erp_ID = i, erp_TenantID = ''acme'', erp_RunID = [], erp_DatasetID = [], erp_DatasetName = [],
      erp_RunStatus = RunStatusSucceeded, erp_Status = EvalReportStatusReady, erp_Summary = [], erp_TotalItems = 2,
      erp_RecordedResults = 2, erp_PassedItems = 2, erp_FailedItems = 0, erp_MissingResults = 0,
      erp_AverageScore = score, erp_JudgeVersion = [], erp_MetadataJSON = ''{}'', erp_BadCases = bad,
      erp_CreatedAt = 0, erp_UpdatedAt = 0, erp_ReadyAt = 0\<rparr>"

definition demoBad :: "string \<Rightarrow> badCase" where
  "demoBad i = \<lparr>bad_EvalCaseID = i, bad_Title = [], bad_SourceCaseID = [], bad_SourceTaskID = [],
     bad_SourceReportID = [], bad_TraceID = [], bad_VersionID = [], bad_Verdict = RunItemVerdictFail,
     bad_Detail = [], bad_Score = 0\<rparr>"

lemma DetectRegression_correct_witness:
  "\<exists>r. DetectRegression ''b'' ''c'' DefaultRegressionThresholds
      (newMemoryStore\<lparr>est_evalReports := [''b'' \<mapsto> demoReport ''b'' 1 [], ''c'' \<mapsto> demoReport ''c'' 1 [demoBad ''e'']]\<rparr>) = Inr r
    \<and> set (reg_NewBadCases r) = {demoBad ''e''} \<and> reg_Verdict r = RegressionVerdictRegression"
proof -
  let ?s = "newMemoryStore\<lparr>est_evalReports := [''b'' \<mapsto> demoReport ''b'' 1 [], ''c'' \<mapsto> demoReport ''c'' 1 [demoBad ''e'']]\<rparr>"
  have ids: "''b'' \<noteq> []" "''c'' \<noteq> []" by simp_all
  have reports: "est_evalReports ?s ''b'' = Some (demoReport ''b'' 1 [])"
      "est_evalReports ?s ''c'' = Some (demoReport ''c'' 1 [demoBad ''e''])" by simp_all
  obtain r where r: "DetectRegression ''b'' ''c'' DefaultRegressionThresholds ?s = Inr r"
      "set (reg_NewBadCases r) = {x \<in> set (erp_BadCases (demoReport ''c'' 1 [demoBad ''e''])).
         bad_EvalCaseID x \<notin> bad_EvalCaseID ` set (erp_BadCases (demoReport ''b'' 1 []))}"
      "thr_NewFailedCasesMax DefaultRegressionThresholds < int (length (reg_NewBadCases r))
         \<Longrightarrow> reg_Verdict r = RegressionVerdictRegression"
    using DetectRegression_correct [OF ids reports, of DefaultRegressionThresholds] by blast
  have new: "set (reg_NewBadCases r) = {demoBad ''e''}" unfolding r(2) by (auto simp: demoReport_def)
  then have "0 < length (reg_NewBadCases r)" by (metis empty_not_insert length_greater_0_conv list.set(1))
  then have "reg_Verdict r = RegressionVerdictRegression" by (intro r(3)) (simp add: DefaultRegressionThresholds_def)
  with r(1) new show ?thesis by blast
qed

lemma demo_succeeded:
  "\<exists>s r. runStoreOK s \<and> est_runs s demoR = Some r \<and> run_Status r = RunStatusSucceeded"
proof -
  obtain q where q: "queuedRuns [demoR] (evl_Store demoQueued) = [q]" "run_ID q = demoR" using demo_queued by blast
  obtain s1 where s1: "runMoves (evl_Store demoQueued) s1" "est_runs s1 demoR = Some (claimedRun 5 q)"
    using claim_runs [OF demo_runs_ok(2,3), of 1 5] q by auto
  have ok: "runStoreOK s1" by (rule runMoves_OK [OF s1(1) demo_runs_ok(2)])
  have run: "run_Status (claimedRun 5 q) = RunStatusRunning" "run_ID (claimedRun 5 q) = demoR" using q(2) by simp_all
  obtain rs where "jdg_Build (PlaceholderJudge (\<lambda>_. None)) (itemsOf s1 demoR) RunItemResultSucceeded [] 5 () = (Inr rs, ())"
    by (simp add: PlaceholderJudge_def)
  then have "judgedFor (itemsOf s1 demoR) RunItemResultSucceeded rs"
    using placeholder_judge.build_judged by (metis fst_conv)
  from legal_succeeded [OF s1(2) run(1) this, of 5]
  have moved: "runMoves s1 (moveRun demoR (finishedRun RunStatusSucceeded [] 5 (claimedRun 5 q)) (Some rs)
      (runEventFor demoR RunEventSucceeded ''worker'' RunStatusSucceeded 5) s1)" (is "runMoves s1 ?s2")
    by (rule runMoves_one)
  have "est_runs ?s2 demoR = Some (finishedRun RunStatusSucceeded [] 5 (claimedRun 5 q))" by simp
  then show ?thesis using runMoves_OK [OF moved ok] finishedRun_simps(1) by blast
qed

lemma passed_items_include_bad_cases_witness:
  "\<exists>s rep. fst (MaterializeRunReport demoReportEnv demoR s) = Inr rep
     \<and> erp_PassedItems rep = int (length (itemsOf s demoR)) \<and> erp_FailedItems rep = 0"
proof -
  obtain s r where s: "runStoreOK s" "est_runs s demoR = Some r" "run_Status r = RunStatusSucceeded"
    using demo_succeeded by (elim exE conjE)
  have "\<And>m. \<exists>json. ren_Encode demoReportEnv m = Inr json" by (simp add: demoReportEnv_def)
  from passed_items_include_bad_cases [OF s this] show ?thesis by blast
qed

end
