(* ===== verification/Http_Core.thy ===== *)
theory Http_Core
  imports Eval_Runner Ingestion
begin

text \<open>
  What the handlers of the HTTP API (\<open>app/httpapi\<close>) share: the request as they see it, the reply,
  the request and trace identifiers of \<open>middleware.go\<close>, the parsing of query parameters and path
  segments, the body of a list reply, and the loops that read a list page by page.

  The decoding of JSON bodies and the textual form of times are parameters of the handlers.  A
  reply is the status with the value that is encoded; a handler that panics gives \<open>None\<close>, and the
  server of \<open>net/http\<close> then drops the connection.
\<close>

subsection \<open>Requests and replies\<close>

text \<open>
  \<open>hrq_Query\<close> is \<open>r.URL.Query().Get\<close>, empty for a missing parameter, and \<open>hrq_Header\<close> is
  \<open>r.Header.Get\<close>.  The identifiers of the context are empty before the middleware has run.
\<close>

record httpRequest =
  hrq_Method :: string
  hrq_Path :: string
  hrq_Query :: "string \<Rightarrow> string"
  hrq_Header :: "string \<Rightarrow> string"
  hrq_Body :: string
  hrq_CtxRequestID :: string
  hrq_CtxTraceID :: string

datatype 'b httpReply = ReplyJSON int 'b | ReplyError int string string

fun replyStatus :: "'b httpReply \<Rightarrow> int" where
  "replyStatus (ReplyJSON status body) = status"
| "replyStatus (ReplyError status code message) = status"

abbreviation (input) "MethodGet \<equiv> ''GET''"
abbreviation (input) "MethodPost \<equiv> ''POST''"
abbreviation (input) StatusOK :: int where "StatusOK \<equiv> 200"
abbreviation (input) StatusCreated :: int where "StatusCreated \<equiv> 201"
abbreviation (input) StatusBadRequest :: int where "StatusBadRequest \<equiv> 400"
abbreviation (input) StatusNotFound :: int where "StatusNotFound \<equiv> 404"
abbreviation (input) StatusMethodNotAllowed :: int where "StatusMethodNotAllowed \<equiv> 405"
abbreviation (input) StatusConflict :: int where "StatusConflict \<equiv> 409"
abbreviation (input) StatusInternalServerError :: int where "StatusInternalServerError \<equiv> 500"
abbreviation (input) StatusServiceUnavailable :: int where "StatusServiceUnavailable \<equiv> 503"

abbreviation (input) methodNotAllowed :: "'b httpReply" where
  "methodNotAllowed \<equiv> ReplyError StatusMethodNotAllowed ''method_not_allowed'' ''method not allowed''"

abbreviation (input) notFound :: "'b httpReply" where
  "notFound \<equiv> ReplyError StatusNotFound ''not_found'' ''not found''"

abbreviation (input) invalidJSON :: "'b httpReply" where
  "invalidJSON \<equiv> ReplyError StatusBadRequest ''invalid_json'' ''invalid json body''"

abbreviation (input) invalidQuery :: "string \<Rightarrow> 'b httpReply" where
  "invalidQuery message \<equiv> ReplyError StatusBadRequest ''invalid_query'' message"

subsection \<open>Identifiers of a request\<close>

abbreviation (input) "requestIDHeader \<equiv> ''X-Request-Id''"
abbreviation (input) "traceIDHeader \<equiv> ''X-Trace-Id''"

text \<open>\<open>fresh\<close> is the identifier that \<open>newID\<close> draws at random.\<close>

definition withRequestContext :: "string \<Rightarrow> httpRequest \<Rightarrow> httpRequest" where
  "withRequestContext fresh r =
     (let requestID = (if hrq_Header r requestIDHeader = [] then fresh else hrq_Header r requestIDHeader);
          traceID = (if hrq_Header r traceIDHeader = [] then requestID else hrq_Header r traceIDHeader)
      in r\<lparr>hrq_Header := (hrq_Header r)(requestIDHeader := requestID, traceIDHeader := traceID),
           hrq_CtxRequestID := requestID, hrq_CtxTraceID := traceID\<rparr>)"

definition requestIDFromRequest :: "httpRequest \<Rightarrow> string" where
  "requestIDFromRequest r =
     (if hrq_CtxRequestID r \<noteq> [] then hrq_CtxRequestID r else hrq_Header r requestIDHeader)"

definition traceIDFromRequest :: "httpRequest \<Rightarrow> string" where
  "traceIDFromRequest r =
     (if hrq_CtxTraceID r \<noteq> [] then hrq_CtxTraceID r else hrq_Header r traceIDHeader)"

lemma request_ids_present:
  assumes "fresh \<noteq> []"
  shows "requestIDFromRequest (withRequestContext fresh r) \<noteq> []"
    "traceIDFromRequest (withRequestContext fresh r) \<noteq> []"
  using assms by (simp_all add: withRequestContext_def requestIDFromRequest_def traceIDFromRequest_def Let_def)

subsection \<open>Parameters\<close>

text \<open>\<open>strconv.Atoi\<close>: an optional sign and decimal digits, an error outside of 64 bits.\<close>

definition atoi :: "string \<Rightarrow> int option" where
  "atoi s =
     (let signed = s \<noteq> [] \<and> (hd s = CHR ''-'' \<or> hd s = CHR ''+'');
          digits = (if signed then tl s else s)
      in if digits = [] then None
         else case parseDigits 0 digits of
                None \<Rightarrow> None
              | Some n \<Rightarrow>
                  (let v = (if signed \<and> hd s = CHR ''-'' then - int n else int n)
                   in if - (2 ^ 63) \<le> v \<and> v < 2 ^ 63 then Some v else None))"

lemma atoi_range: "atoi s = Some v \<Longrightarrow> - (2 ^ 63) \<le> v \<and> v < 2 ^ 63"
  by (auto simp: atoi_def Let_def split: if_splits option.splits)

definition parseBool :: "string \<Rightarrow> bool option" where
  "parseBool s =
     (if s \<in> {''1'', ''t'', ''T'', ''true'', ''TRUE'', ''True''} then Some True
      else if s \<in> {''0'', ''f'', ''F'', ''false'', ''FALSE'', ''False''} then Some False
      else None)"

text \<open>Parameters are read one after the other; the first that is malformed ends the parsing.\<close>

definition andThen :: "'e + 'a \<Rightarrow> ('a \<Rightarrow> 'e + 'b) \<Rightarrow> 'e + 'b" where
  "andThen r f = (case r of Inl e \<Rightarrow> Inl e | Inr x \<Rightarrow> f x)"

lemma andThen_simps [simp]: "andThen (Inl e) f = Inl e" "andThen (Inr x) f = f x"
  by (simp_all add: andThen_def)

lemma andThen_Inr: "andThen r f = Inr y \<longleftrightarrow> (\<exists>x. r = Inr x \<and> f x = Inr y)"
  by (cases r) auto

definition limitFrom :: "string \<Rightarrow> string + int" where
  "limitFrom raw =
     (if raw = [] then Inr 20
      else case atoi raw of
             None \<Rightarrow> Inl ''limit must be a positive integer''
           | Some limit \<Rightarrow> if limit \<le> 0 then Inl ''limit must be a positive integer'' else Inr limit)"

definition offsetFrom :: "string \<Rightarrow> string + int" where
  "offsetFrom raw =
     (if raw = [] then Inr 0
      else case atoi raw of
             None \<Rightarrow> Inl ''offset must be a non-negative integer''
           | Some offset \<Rightarrow> if offset < 0 then Inl ''offset must be a non-negative integer'' else Inr offset)"

text \<open>The endpoints of the evaluation trim the parameters, the others take them as they are.\<close>

definition parseLimit :: "httpRequest \<Rightarrow> string + int" where
  "parseLimit r = limitFrom (hrq_Query r ''limit'')"

definition parseOffset :: "httpRequest \<Rightarrow> string + int" where
  "parseOffset r = offsetFrom (hrq_Query r ''offset'')"

definition queryParam :: "httpRequest \<Rightarrow> string \<Rightarrow> string" where
  "queryParam r name = trimSpace (hrq_Query r name)"

text \<open>A flag that is absent is \<open>None\<close>.\<close>

definition parseFlag :: "httpRequest \<Rightarrow> string \<Rightarrow> string + bool option" where
  "parseFlag r name =
     (let raw = hrq_Query r name in
      if raw = [] then Inr None
      else case parseBool raw of None \<Rightarrow> Inl (name @ '' must be a boolean'') | Some v \<Rightarrow> Inr (Some v))"

definition parseSwitch :: "httpRequest \<Rightarrow> string \<Rightarrow> string + bool" where
  "parseSwitch r name = andThen (parseFlag r name) (\<lambda>v. Inr (v = Some True))"

lemma limitFrom_range: "limitFrom raw = Inr n \<Longrightarrow> 0 < n \<and> n < 2 ^ 63"
  by (auto simp: limitFrom_def dest: atoi_range split: if_splits option.splits)

lemma offsetFrom_range: "offsetFrom raw = Inr n \<Longrightarrow> 0 \<le> n \<and> n < 2 ^ 63"
  by (auto simp: offsetFrom_def dest: atoi_range split: if_splits option.splits)

lemma parseLimit_range: "parseLimit r = Inr n \<Longrightarrow> 0 < n \<and> n < 2 ^ 63"
  using limitFrom_range by (simp add: parseLimit_def)

lemma parseOffset_range: "parseOffset r = Inr n \<Longrightarrow> 0 \<le> n \<and> n < 2 ^ 63"
  using offsetFrom_range by (simp add: parseOffset_def)

text \<open>A path segment that names a record; \<open>None\<close> is answered with 404.\<close>

definition pathID :: "string \<Rightarrow> string option" where
  "pathID s = (if s = [] \<or> contains s ''/'' then None else Some s)"

text \<open>An identifier with an optional action behind it, below a prefix.\<close>

definition parseActionPath :: "string \<Rightarrow> string \<Rightarrow> (string \<times> string) option" where
  "parseActionPath base path =
     (let trimmed = trimPrefix path base in
      if trimmed = [] then None
      else case splitOn ''/'' trimmed of
             [x] \<Rightarrow> if x = [] then None else Some (x, [])
           | [x, y] \<Rightarrow> if x = [] \<or> y = [] then None else Some (x, y)
           | _ \<Rightarrow> None)"

subsection \<open>Lists\<close>

record 'b listBody =
  lbd_Items :: "'b list"
  lbd_HasMore :: bool
  lbd_NextOffset :: "int option"

definition listBodyOf :: "('a \<Rightarrow> 'b) \<Rightarrow> 'a listPage \<Rightarrow> 'b listBody" where
  "listBodyOf f page =
     \<lparr>lbd_Items = map f (pageItems page), lbd_HasMore = pageHasMore page,
      lbd_NextOffset = (if pageHasMore page then Some (pageNextOffset page) else None)\<rparr>"

definition emptyListBody :: "'b listBody" where
  "emptyListBody = \<lparr>lbd_Items = [], lbd_HasMore = False, lbd_NextOffset = None\<rparr>"

text \<open>
  A handler that needs all rows follows \<open>NextOffset\<close> until there are no more and treats row after
  row with \<open>g\<close>.
\<close>

partial_function (option) foldPages ::
    "(int \<Rightarrow> 'a listPage option) \<Rightarrow> ('a \<Rightarrow> 'c \<Rightarrow> 'c) \<Rightarrow> 'c \<Rightarrow> int \<Rightarrow> 'c option" where
  "foldPages fetch g acc off =
     (case fetch off of
        None \<Rightarrow> None
      | Some page \<Rightarrow>
          if pageHasMore page then foldPages fetch g (fold g (pageItems page) acc) (pageNextOffset page)
          else Some (fold g (pageItems page) acc))"

lemma foldPages_walk:
  "walkPages n fetch off = Some rows \<Longrightarrow> foldPages fetch g acc off = Some (fold g rows acc)"
proof (induction n arbitrary: off acc rows)
  case (Suc n)
  then show ?case
    by (subst foldPages.simps) (auto split: option.splits if_splits)
qed simp

end
