(* ===== verification/Http_Tasks.thy ===== *)
theory Http_Tasks
  imports Http_Core
begin

text \<open>
  The endpoints of tasks and of the task board (\<open>app/httpapi/tasks.go\<close>, \<open>admin_taskboard.go\<close>).

  The clock, the version source and the task starter of the workflow service, the order of the map
  at a list, the JSON decoders and the two directions of the RFC 3339 form of a time are
  parameters.  The memory stores have no errors besides the ones below.
\<close>

subsection \<open>Tasks\<close>

record createTaskRequest =
  ctr_TenantID :: string
  ctr_SessionID :: string
  ctr_TaskType :: string
  ctr_Reason :: string
  ctr_RequiresApproval :: bool

record auditEventResponse =
  aer_ID :: int
  aer_Action :: string
  aer_Actor :: string
  aer_Detail :: string
  aer_CreatedAt :: string

record taskResponse =
  tsr_TaskID :: string
  tsr_RequestID :: string
  tsr_TenantID :: string
  tsr_SessionID :: string
  tsr_TaskType :: string
  tsr_VersionID :: string
  tsr_Status :: string
  tsr_Reason :: string
  tsr_ErrorReason :: string
  tsr_AuditRef :: string
  tsr_RequiresApproval :: bool
  tsr_CreatedAt :: string
  tsr_UpdatedAt :: string
  tsr_AuditEvents :: "auditEventResponse list"

datatype tasksBody = TaskBody taskResponse | TasksBody "taskResponse listBody"

record taskApiEnv =
  tae_Now :: time
  tae_Later :: time
  tae_FormatTime :: "time \<Rightarrow> string"
  tae_ParseTime :: "string \<Rightarrow> time option"
  tae_Keys :: "string list"
  tae_Version :: "(string + string) option"
  tae_Starter :: "(task \<Rightarrow> string option) option"
  tae_DecodeCreate :: "string \<Rightarrow> createTaskRequest option"
  tae_DecodeApprove :: "string \<Rightarrow> string option"
  tae_DecodeRetry :: "string \<Rightarrow> string option"

definition validTaskTypes :: "string set" where
  "validTaskTypes = {TaskTypeReportGeneration, TaskTypeApprovedToolExecution}"

definition validPromotionReasons :: "string set" where
  "validPromotionReasons = {PromotionReasonWorkflowRequired, PromotionReasonApprovalRequired}"

definition newTaskResponse :: "(time \<Rightarrow> string) \<Rightarrow> task \<Rightarrow> taskResponse" where
  "newTaskResponse formatTime t =
     \<lparr>tsr_TaskID = task_ID t, tsr_RequestID = task_RequestID t, tsr_TenantID = task_TenantID t,
      tsr_SessionID = task_SessionID t, tsr_TaskType = task_TaskType t, tsr_VersionID = task_VersionID t,
      tsr_Status = task_Status t, tsr_Reason = task_Reason t, tsr_ErrorReason = task_ErrorReason t,
      tsr_AuditRef = task_AuditRef t, tsr_RequiresApproval = task_RequiresApproval t,
      tsr_CreatedAt = formatTime (task_CreatedAt t), tsr_UpdatedAt = formatTime (task_UpdatedAt t),
      tsr_AuditEvents = []\<rparr>"

definition toAuditEventResponses :: "(time \<Rightarrow> string) \<Rightarrow> auditEvent list \<Rightarrow> auditEventResponse list" where
  "toAuditEventResponses formatTime =
     map (\<lambda>e. \<lparr>aer_ID = aev_ID e, aer_Action = aev_Action e, aer_Actor = aev_Actor e,
               aer_Detail = aev_Detail e, aer_CreatedAt = formatTime (aev_CreatedAt e)\<rparr>)"

definition writeTaskResponse ::
    "taskApiEnv \<Rightarrow> int \<Rightarrow> task \<Rightarrow> workflowService \<Rightarrow> tasksBody httpReply" where
  "writeTaskResponse env status t svc =
     ReplyJSON status (TaskBody ((newTaskResponse (tae_FormatTime env) t)
       \<lparr>tsr_AuditEvents := toAuditEventResponses (tae_FormatTime env) (ListTaskEvents (task_ID t) (ws_store svc))\<rparr>))"

definition createPromoteRequest :: "httpRequest \<Rightarrow> createTaskRequest \<Rightarrow> promoteRequest" where
  "createPromoteRequest r req =
     \<lparr>prq_RequestID = requestIDFromRequest r, prq_TenantID = ctr_TenantID req,
      prq_SessionID = ctr_SessionID req, prq_TaskType = ctr_TaskType req,
      prq_Reason = ctr_Reason req, prq_RequiresApproval = ctr_RequiresApproval req,
      prq_ToolName = [], prq_ToolArguments = []\<rparr>"

definition handleCreateTask ::
    "taskApiEnv \<Rightarrow> httpRequest \<Rightarrow> workflowService \<Rightarrow> tasksBody httpReply \<times> workflowService" where
  "handleCreateTask env r svc =
     (case tae_DecodeCreate env (hrq_Body r) of
        None \<Rightarrow> (invalidJSON, svc)
      | Some req \<Rightarrow>
          if trimSpace (ctr_TenantID req) = []
          then (ReplyError StatusBadRequest ''invalid_task'' ''tenant_id is required'', svc)
          else if ctr_TaskType req \<notin> validTaskTypes
          then (ReplyError StatusBadRequest ''invalid_task''
                  ''task_type must be one of: report_generation, approved_tool_execution'', svc)
          else if ctr_Reason req \<notin> validPromotionReasons
          then (ReplyError StatusBadRequest ''invalid_task''
                  ''reason must be one of: workflow_required, approval_required'', svc)
          else
            (case Promote (tae_Version env) (tae_Starter env) (tae_Now env) (tae_Later env)
                    (createPromoteRequest r req) svc of
               (Inl err, svc') \<Rightarrow>
                 (ReplyError StatusInternalServerError ''task_create_failed'' (workflowErrorText err), svc')
             | (Inr t, svc') \<Rightarrow> (writeTaskResponse env StatusCreated t svc', svc')))"

text \<open>A bound on a time; absent, malformed or given.\<close>

definition parseTimeBound :: "taskApiEnv \<Rightarrow> httpRequest \<Rightarrow> string \<Rightarrow> string + time option" where
  "parseTimeBound env r name =
     (let raw = hrq_Query r name in
      if raw = [] then Inr None
      else case tae_ParseTime env raw of
             None \<Rightarrow> Inl (name @ '' must be an RFC3339 timestamp'')
           | Some t \<Rightarrow> Inr (Some t))"

definition parseTaskListFilter :: "taskApiEnv \<Rightarrow> httpRequest \<Rightarrow> string + taskListFilter" where
  "parseTaskListFilter env r =
     andThen (parseLimit r) (\<lambda>limit.
     andThen (parseOffset r) (\<lambda>offset.
     andThen (parseFlag r ''requires_approval'') (\<lambda>requiresApproval.
     andThen (parseTimeBound env r ''created_after'') (\<lambda>createdAfter.
     andThen (parseTimeBound env r ''created_before'') (\<lambda>createdBefore.
     andThen (parseTimeBound env r ''updated_after'') (\<lambda>updatedAfter.
     andThen (parseTimeBound env r ''updated_before'') (\<lambda>updatedBefore.
       Inr \<lparr>tlf_TenantID = hrq_Query r ''tenant_id'', tlf_Status = hrq_Query r ''status'',
            tlf_TaskType = hrq_Query r ''task_type'', tlf_Reason = hrq_Query r ''reason'',
            tlf_RequiresApproval = requiresApproval, tlf_CreatedAfter = createdAfter,
            tlf_CreatedBefore = createdBefore, tlf_UpdatedAfter = updatedAfter,
            tlf_UpdatedBefore = updatedBefore, tlf_Limit = limit, tlf_Offset = offset\<rparr>)))))))"

definition handleListTasks :: "taskApiEnv \<Rightarrow> httpRequest \<Rightarrow> workflowService \<Rightarrow> tasksBody httpReply option" where
  "handleListTasks env r svc =
     (case parseTaskListFilter env r of
        Inl message \<Rightarrow> Some (invalidQuery message)
      | Inr f \<Rightarrow>
          map_option (\<lambda>page. ReplyJSON StatusOK (TasksBody (listBodyOf (newTaskResponse (tae_FormatTime env)) page)))
            (ListTasks (tae_Keys env) f (ws_store svc)))"

definition handleTasks ::
    "taskApiEnv \<Rightarrow> httpRequest \<Rightarrow> workflowService \<Rightarrow> tasksBody httpReply option \<times> workflowService" where
  "handleTasks env r svc =
     (if hrq_Method r = MethodGet then (handleListTasks env r svc, svc)
      else if hrq_Method r = MethodPost
      then (let (reply, svc') = handleCreateTask env r svc in (Some reply, svc'))
      else (Some methodNotAllowed, svc))"

abbreviation (input) taskNotFound :: "'b httpReply" where
  "taskNotFound \<equiv> ReplyError StatusNotFound ''task_not_found'' ''task not found''"

definition handleGetTask :: "taskApiEnv \<Rightarrow> string \<Rightarrow> workflowService \<Rightarrow> tasksBody httpReply" where
  "handleGetTask env taskID svc =
     (case GetTask taskID (ws_store svc) of
        Inl err \<Rightarrow> taskNotFound
      | Inr t \<Rightarrow> writeTaskResponse env StatusOK t svc)"

definition writeTaskActionError :: "workflowError \<Rightarrow> 'b httpReply" where
  "writeTaskActionError err =
     (case err of
        ErrTaskNotFound _ \<Rightarrow> taskNotFound
      | ErrApproveFrom _ \<Rightarrow> ReplyError StatusConflict ''invalid_task_state'' (workflowErrorText err)
      | ErrRetryFrom _ \<Rightarrow> ReplyError StatusConflict ''invalid_task_state'' (workflowErrorText err)
      | ErrVersionSource _ \<Rightarrow> ReplyError StatusInternalServerError ''task_update_failed'' (workflowErrorText err))"

text \<open>How approval and retry end.\<close>

definition taskOutcome ::
    "taskApiEnv \<Rightarrow> workflowService \<Rightarrow> (workflowError + task) \<times> taskStore
     \<Rightarrow> tasksBody httpReply \<times> workflowService" where
  "taskOutcome env svc outcome =
     (case outcome of
        (Inl err, s) \<Rightarrow> (writeTaskActionError err, svc\<lparr>ws_store := s\<rparr>)
      | (Inr t, s) \<Rightarrow> (writeTaskResponse env StatusOK t (svc\<lparr>ws_store := s\<rparr>), svc\<lparr>ws_store := s\<rparr>))"

definition handleApproveTask ::
    "taskApiEnv \<Rightarrow> httpRequest \<Rightarrow> string \<Rightarrow> workflowService \<Rightarrow> tasksBody httpReply \<times> workflowService" where
  "handleApproveTask env r taskID svc =
     (case tae_DecodeApprove env (hrq_Body r) of
        None \<Rightarrow> (invalidJSON, svc)
      | Some approvedBy \<Rightarrow> taskOutcome env svc (ApproveTask (tae_Now env) taskID approvedBy (ws_store svc)))"

definition handleRetryTask ::
    "taskApiEnv \<Rightarrow> httpRequest \<Rightarrow> string \<Rightarrow> workflowService \<Rightarrow> tasksBody httpReply \<times> workflowService" where
  "handleRetryTask env r taskID svc =
     (case tae_DecodeRetry env (hrq_Body r) of
        None \<Rightarrow> (invalidJSON, svc)
      | Some retriedBy \<Rightarrow> taskOutcome env svc (RetryTask (tae_Now env) taskID retriedBy (ws_store svc)))"

definition parseTaskPath :: "string \<Rightarrow> (string \<times> string) option" where
  "parseTaskPath path = parseActionPath ''/api/v1/tasks/'' path"

definition handleTaskByID ::
    "taskApiEnv \<Rightarrow> httpRequest \<Rightarrow> workflowService \<Rightarrow> tasksBody httpReply \<times> workflowService" where
  "handleTaskByID env r svc =
     (case parseTaskPath (hrq_Path r) of
        None \<Rightarrow> (notFound, svc)
      | Some (taskID, action) \<Rightarrow>
          if action = []
          then (if hrq_Method r \<noteq> MethodGet then (methodNotAllowed, svc) else (handleGetTask env taskID svc, svc))
          else if hrq_Method r \<noteq> MethodPost then (methodNotAllowed, svc)
          else if action = ''approve'' then handleApproveTask env r taskID svc
          else if action = ''retry'' then handleRetryTask env r taskID svc
          else (notFound, svc))"

subsection \<open>The task board\<close>

record boardItemResponse =
  bir_TaskID :: string
  bir_RequestID :: string
  bir_TenantID :: string
  bir_SessionID :: string
  bir_TaskType :: string
  bir_Status :: string
  bir_Reason :: string
  bir_ErrorReason :: string
  bir_AuditRef :: string
  bir_RequiresApproval :: bool
  bir_CreatedAt :: string
  bir_UpdatedAt :: string

record boardSummaryResponse =
  bsr_VisibleCount :: int
  bsr_RequiresApprovalCount :: int
  bsr_LatestUpdatedAt :: string
  bsr_LatestFailureReason :: string
  bsr_StatusCounts :: statusCounts
  bsr_ReasonCounts :: reasonCounts
  bsr_TaskTypeCounts :: taskTypeCounts

record boardResponse =
  brd_Items :: "boardItemResponse list"
  brd_HasMore :: bool
  brd_NextOffset :: "int option"
  brd_Summary :: boardSummaryResponse

definition boardItemResponseOf :: "(time \<Rightarrow> string) \<Rightarrow> taskItem \<Rightarrow> boardItemResponse" where
  "boardItemResponseOf formatTime item =
     \<lparr>bir_TaskID = ti_TaskID item, bir_RequestID = ti_RequestID item, bir_TenantID = ti_TenantID item,
      bir_SessionID = ti_SessionID item, bir_TaskType = ti_TaskType item, bir_Status = ti_Status item,
      bir_Reason = ti_Reason item, bir_ErrorReason = ti_ErrorReason item, bir_AuditRef = ti_AuditRef item,
      bir_RequiresApproval = ti_RequiresApproval item, bir_CreatedAt = formatTime (ti_CreatedAt item),
      bir_UpdatedAt = formatTime (ti_UpdatedAt item)\<rparr>"

definition boardResponseOf :: "(time \<Rightarrow> string) \<Rightarrow> taskBoard \<Rightarrow> boardResponse" where
  "boardResponseOf formatTime board =
     (let sm = tb_Summary board in
      \<lparr>brd_Items = map (boardItemResponseOf formatTime) (tb_Items board), brd_HasMore = tb_HasMore board,
       brd_NextOffset = tb_NextOffset board,
       brd_Summary = \<lparr>bsr_VisibleCount = bs_VisibleCount sm, bsr_RequiresApprovalCount = bs_RequiresApprovalCount sm,
         bsr_LatestUpdatedAt = (case bs_LatestUpdatedAt sm of None \<Rightarrow> [] | Some t \<Rightarrow> formatTime t),
         bsr_LatestFailureReason = bs_LatestFailureReason sm, bsr_StatusCounts = bs_StatusCounts sm,
         bsr_ReasonCounts = bs_ReasonCounts sm, bsr_TaskTypeCounts = bs_TaskTypeCounts sm\<rparr>\<rparr>)"

definition handleAdminTaskBoard ::
    "taskApiEnv \<Rightarrow> httpRequest \<Rightarrow> workflowService \<Rightarrow> boardResponse httpReply option" where
  "handleAdminTaskBoard env r svc =
     (if hrq_Method r \<noteq> MethodGet then Some methodNotAllowed
      else case parseTaskListFilter env r of
             Inl message \<Rightarrow> Some (invalidQuery message)
           | Inr f \<Rightarrow>
               map_option (\<lambda>board. ReplyJSON StatusOK (boardResponseOf (tae_FormatTime env) board))
                 (board_List (tae_Keys env) f (ws_store svc)))"

end
