(* ===== verification/Http_Chat.thy ===== *)
theory Http_Chat
  imports Http_Tasks Chat_Laws
begin

text \<open>
  The endpoints of sessions, the chat stream and documents (\<open>app/httpapi/sessions.go\<close>,
  \<open>documents.go\<close>).

  The reply of the chat stream is its list of events; the \<open>token\<close> events that a streaming model
  adds in front of them while the request runs are left out.  The JSON decoders and the loader of
  policies are parameters.
\<close>

subsection \<open>Sessions\<close>

record createSessionRequest =
  cse_TenantID :: string
  cse_UserID :: string

record messageResponse =
  mre_ID :: string
  mre_Role :: string
  mre_Content :: string

datatype sessionsBody = SessionBody string | MessagesBody "messageResponse list"

definition handleSessions ::
    "time \<Rightarrow> (string \<Rightarrow> createSessionRequest option) \<Rightarrow> httpRequest \<Rightarrow> sessionState
     \<Rightarrow> sessionsBody httpReply \<times> sessionState" where
  "handleSessions now decode r s =
     (if hrq_Method r \<noteq> MethodPost then (methodNotAllowed, s)
      else case decode (hrq_Body r) of
             None \<Rightarrow> (invalidJSON, s)
           | Some req \<Rightarrow>
               (let (created, s') = CreateSession now (cse_TenantID req) (cse_UserID req) s
                in (ReplyJSON StatusCreated (SessionBody (se_ID created)), s')))"

abbreviation (input) sessionNotFound :: "'b httpReply" where
  "sessionNotFound \<equiv> ReplyError StatusNotFound ''session_not_found'' ''session not found''"

definition handleSessionMessages :: "httpRequest \<Rightarrow> sessionState \<Rightarrow> sessionsBody httpReply" where
  "handleSessionMessages r s =
     (let sessionID = trimSuffix (trimPrefix (hrq_Path r) ''/api/v1/sessions/'') ''/messages'' in
      if hrq_Method r \<noteq> MethodGet then methodNotAllowed
      else if sessionID = [] \<or> \<not> hasSuffix (hrq_Path r) ''/messages'' then notFound
      else case ListMessages sessionID s of
             Inl err \<Rightarrow> sessionNotFound
           | Inr messages \<Rightarrow>
               ReplyJSON StatusOK (MessagesBody
                 (map (\<lambda>m. \<lparr>mre_ID = msg_ID m, mre_Role = msg_Role m, mre_Content = msg_Content m\<rparr>) messages)))"

subsection \<open>The chat stream\<close>

record chatStreamRequest =
  csq_OrgID :: string
  csq_TenantID :: string
  csq_UserID :: string
  csq_SessionID :: string
  csq_Mode :: string
  csq_UserMessage :: string
  csq_AttachmentRefs :: "string list"
  csq_ClientRequestID :: string

datatype streamReply = StreamRefused int string string | StreamEvents "streamEvent list"

text \<open>
  \<open>sae_Flushes\<close> says whether the writer can flush, \<open>sae_LoadPolicy\<close> is the policy of an
  organisation, a tenant and a user.
\<close>

record streamApiEnv =
  sae_Flushes :: bool
  sae_Decode :: "string \<Rightarrow> chatStreamRequest option"
  sae_LoadPolicy :: "string \<Rightarrow> string \<Rightarrow> string \<Rightarrow> tenantPolicy"

definition chatErrorText :: "chatError \<Rightarrow> string" where
  "chatErrorText err =
     (case err of
        ChatSessionError (SessionNotFound i) \<Rightarrow> ''session '' @ goQuote i @ '' not found''
      | ChatSearchError text \<Rightarrow> text
      | WriteToolNeedsArguments name \<Rightarrow>
          ''write tool '' @ goQuote name @ '' requires structured tool_arguments from planner''
      | ChatToolError e \<Rightarrow> toolErrorText e
      | ChatPromoteError e \<Rightarrow> workflowErrorText e)"

text \<open>The code and message of an error event, chosen by words in the text of the error.\<close>

definition classifyChatError :: "string \<Rightarrow> string \<times> string" where
  "classifyChatError errStr =
     (if contains errStr ''session'' \<and> contains errStr ''not found''
      then (''session_not_found'', ''session not found'')
      else if contains errStr ''requires structured tool_arguments''
      then (''tool_arguments_required'', ''write tool requires structured arguments from planner'')
      else if contains errStr ''tool'' \<and> contains errStr ''not found''
      then (''tool_not_found'', ''tool not found'')
      else (''chat_handle_failed'', ''chat handle failed''))"

definition chatRequestFor :: "streamApiEnv \<Rightarrow> httpRequest \<Rightarrow> chatStreamRequest \<Rightarrow> chatRequest" where
  "chatRequestFor api r req =
     \<lparr>req_RequestID = requestIDFromRequest r, req_TraceID = traceIDFromRequest r,
      req_TenantID = csq_TenantID req, req_UserID = csq_UserID req, req_SessionID = csq_SessionID req,
      req_Mode = csq_Mode req, req_UserMessage = csq_UserMessage req,
      req_TenantPolicy = sae_LoadPolicy api (csq_OrgID req) (csq_TenantID req) (csq_UserID req)\<rparr>"

definition chatErrorEvent :: "chatError \<Rightarrow> streamEvent" where
  "chatErrorEvent err =
     (let (code, message) = classifyChatError (chatErrorText err)
      in \<lparr>ev_Name = ''error'', ev_Data = [(''code'', code), (''message'', message)]\<rparr>)"

definition handleChatStream ::
    "streamApiEnv \<Rightarrow> ('w, 'p) chatEnv \<Rightarrow> chatClock \<Rightarrow> httpRequest \<Rightarrow> 'w chatState
     \<Rightarrow> streamReply \<times> 'w chatState" where
  "handleChatStream api env ck r s =
     (if hrq_Method r \<noteq> MethodPost
      then (StreamRefused StatusMethodNotAllowed ''method_not_allowed'' ''method not allowed'', s)
      else if \<not> sae_Flushes api
      then (StreamRefused StatusInternalServerError ''stream_unsupported'' ''streaming unsupported'', s)
      else case sae_Decode api (hrq_Body r) of
        None \<Rightarrow> (StreamRefused StatusBadRequest ''invalid_json'' ''invalid json body'', s)
      | Some req \<Rightarrow>
          if trimSpace (csq_TenantID req) = [] \<or> trimSpace (csq_UserMessage req) = []
          then (StreamRefused StatusBadRequest ''invalid_chat_request'' ''tenant_id and user_message are required'', s)
          else if csq_SessionID req \<noteq> [] \<and> isl (ListMessages (csq_SessionID req) (cst_Sessions s))
          then (StreamRefused StatusNotFound ''session_not_found'' ''session not found'', s)
          else
            (case Handle env ck (chatRequestFor api r req) s of
               (Inl err, s') \<Rightarrow> (StreamEvents [chatErrorEvent err], s')
             | (Inr result, s') \<Rightarrow> (StreamEvents (hr_Events result), s')))"

subsection \<open>Documents\<close>

record ingestDocumentRequest =
  idr_TenantID :: string
  idr_DocumentID :: string
  idr_DocumentVersion :: int
  idr_SourceTitle :: string
  idr_SourceURI :: string
  idr_Content :: string
  idr_PermissionsScope :: string

definition maxBodyBytes :: nat where
  "maxBodyBytes = 10 * 1024 * 1024"

text \<open>
  The decoder gets the bytes within the limit and whether there are more, at which point the
  reader fails.
\<close>

definition handleDocuments ::
    "(string \<Rightarrow> bool \<Rightarrow> ingestDocumentRequest option) \<Rightarrow> 'w pipeline option \<Rightarrow> cancellation
     \<Rightarrow> httpRequest \<Rightarrow> 'w \<Rightarrow> ingestResult httpReply \<times> 'w" where
  "handleDocuments decode ingestion cancelled r w =
     (if hrq_Method r \<noteq> MethodPost then (methodNotAllowed, w)
      else case ingestion of
        None \<Rightarrow> (ReplyError StatusServiceUnavailable ''ingestion_unavailable'' ''ingestion pipeline not configured'', w)
      | Some p \<Rightarrow>
        (case decode (take maxBodyBytes (hrq_Body r)) (maxBodyBytes < length (hrq_Body r)) of
           None \<Rightarrow> (invalidJSON, w)
         | Some req \<Rightarrow>
             if trimSpace (idr_TenantID req) = [] \<or> trimSpace (idr_DocumentID req) = []
                \<or> trimSpace (idr_Content req) = []
             then (ReplyError StatusBadRequest ''invalid_document''
                     ''tenant_id, document_id, and content are required'', w)
             else if idr_DocumentVersion req < 1
             then (ReplyError StatusBadRequest ''invalid_document'' ''document_version must be >= 1'', w)
             else
               (case Ingest p cancelled
                       \<lparr>doc_DocumentID = trimSpace (idr_DocumentID req), doc_TenantID = trimSpace (idr_TenantID req),
                        doc_DocumentVersion = idr_DocumentVersion req, doc_SourceTitle = idr_SourceTitle req,
                        doc_SourceURI = idr_SourceURI req, doc_Content = idr_Content req,
                        doc_PermissionsScope = idr_PermissionsScope req, doc_PublishedAt = None\<rparr> w of
                  (Inl err, w') \<Rightarrow>
                    (ReplyError StatusInternalServerError ''ingestion_failed'' ''document ingestion failed'', w')
                | (Inr result, w') \<Rightarrow> (ReplyJSON StatusCreated result, w'))))"

end
