(* ===== verification/Http_Task_Laws.thy ===== *)
theory Http_Task_Laws
  imports Http_Chat Workflow_Safety Temporal_Work
begin

text \<open>
  The endpoints that reach the tasks, those of the tasks themselves and the chat stream, and the
  workers as one system: every request makes at most one call of the workflow service, so a server
  that handles one request at a time is the system of \<open>Workflow_Safety\<close> and keeps its invariants
  (\<open>Workflow_Races\<close> has the calls that overlap).  And what the endpoints of tasks and chats do not
  check.
\<close>

subsection \<open>Requests as steps\<close>

lemma taskOutcome_service: "snd (taskOutcome env svc outcome) = svc\<lparr>ws_store := snd outcome\<rparr>"
  by (auto simp: taskOutcome_def split: prod.split sum.split)

text \<open>What a request to the task endpoints can do to the service.\<close>

definition serviceCall :: "taskApiEnv \<Rightarrow> workflowService \<Rightarrow> workflowService \<Rightarrow> bool" where
  "serviceCall api svc svc' \<longleftrightarrow>
     svc' = svc
   \<or> (\<exists>req. svc' = snd (Promote (tae_Version api) (tae_Starter api) (tae_Now api) (tae_Later api) req svc))
   \<or> (\<exists>i who. svc' = svc\<lparr>ws_store := snd (ApproveTask (tae_Now api) i who (ws_store svc))\<rparr>)
   \<or> (\<exists>i who. svc' = svc\<lparr>ws_store := snd (RetryTask (tae_Now api) i who (ws_store svc))\<rparr>)"

lemma handleTaskByID_call: "serviceCall api svc (snd (handleTaskByID api r svc))"
  by (auto simp: handleTaskByID_def handleApproveTask_def handleRetryTask_def serviceCall_def taskOutcome_service
      split: option.split)

lemma handleTasks_call: "serviceCall api svc (snd (handleTasks api r svc))"
proof -
  have "serviceCall api svc (snd (handleCreateTask api r svc))"
  proof (cases "tae_DecodeCreate api (hrq_Body r)")
    case (Some req)
    obtain x svc' where x: "Promote (tae_Version api) (tae_Starter api) (tae_Now api) (tae_Later api)
        (createPromoteRequest r req) svc = (x, svc')"
      by fastforce
    then have "serviceCall api svc svc'" unfolding serviceCall_def by (metis snd_conv)
    with Some x show ?thesis
      by (cases x) (simp_all add: handleCreateTask_def serviceCall_def)
  qed (simp add: handleCreateTask_def serviceCall_def)
  moreover have "serviceCall api svc svc" by (simp add: serviceCall_def)
  ultimately show ?thesis
    by (cases "handleCreateTask api r svc") (simp add: handleTasks_def)
qed

text \<open>A chat request does no more than promote one task.\<close>

lemma Handle_call:
  "cst_Workflows (snd (Handle env ck req s)) = cst_Workflows s
   \<or> (\<exists>preq. cst_Workflows (snd (Handle env ck req s))
        = snd (Promote (ce_Version env) (ce_Starter env) (ck_Promoted ck) (ck_StartFailed ck) preq (cst_Workflows s)))"
proof -
  have draft: "snd (promoteDraft env req ck sid d flow) = flow
      \<or> (\<exists>preq. snd (promoteDraft env req ck sid d flow)
           = snd (Promote (ce_Version env) (ce_Starter env) (ck_Promoted ck) (ck_StartFailed ck) preq flow))" for sid d flow
  proof (cases "promotes req (dr_Plan d) (dr_Verdict d)")
    case True
    then show ?thesis by (auto simp: promoteDraft_def split: prod.split sum.split) (metis snd_conv)+
  qed (simp add: promoteDraft_def)
  have "cst_Workflows (snd (Handle env ck req s)) = cst_Workflows s
      \<or> (\<exists>sid d. cst_Workflows (snd (Handle env ck req s)) = snd (promoteDraft env req ck sid d (cst_Workflows s)))"
    by (auto simp: Handle_def Let_def split: prod.split sum.split) (metis snd_conv)+
  then show ?thesis using draft by metis
qed

lemma handleChatStream_call:
  "cst_Workflows (snd (handleChatStream api env ck r s)) = cst_Workflows s
   \<or> (\<exists>preq. cst_Workflows (snd (handleChatStream api env ck r s))
        = snd (Promote (ce_Version env) (ce_Starter env) (ck_Promoted ck) (ck_StartFailed ck) preq (cst_Workflows s)))"
proof -
  have "snd (handleChatStream api env ck r s) = s
      \<or> (\<exists>req. snd (handleChatStream api env ck r s) = snd (Handle env ck (chatRequestFor api r req) s))"
    by (auto simp: handleChatStream_def split: option.split prod.split sum.split) (metis snd_conv)+
  then show ?thesis using Handle_call by metis
qed

lemma serviceCall_step:
  assumes "serviceCall api (sy_svc y) svc'" "mayFail \<or> neverFails (tae_Starter api)" "ws_seq (sy_svc y) < - 1"
  shows "svc' = sy_svc y \<or> wfStep env mayFail y (y\<lparr>sy_svc := svc'\<rparr>)"
proof -
  have store: "y\<lparr>sy_svc := (sy_svc y)\<lparr>ws_store := st\<rparr>\<rparr> = withStore st y" for st
    by (simp add: withStore_def)
  from assms(1) show ?thesis unfolding serviceCall_def
  proof (elim disjE exE)
    fix req assume "svc' = snd (Promote (tae_Version api) (tae_Starter api) (tae_Now api) (tae_Later api) req (sy_svc y))"
    then show ?thesis using wfStep.promote [OF _ assms(2,3)] by (metis prod.collapse)
  next
    fix i who assume "svc' = (sy_svc y)\<lparr>ws_store := snd (ApproveTask (tae_Now api) i who (sy_store y))\<rparr>"
    then show ?thesis unfolding store using wfStep.approve by (metis prod.collapse store)
  next
    fix i who assume "svc' = (sy_svc y)\<lparr>ws_store := snd (RetryTask (tae_Now api) i who (sy_store y))\<rparr>"
    then show ?thesis unfolding store using wfStep.retry by (metis prod.collapse store)
  qed simp
qed

text \<open>
  A server that handles its requests one at a time: requests to the tasks and to the chat stream with
  any method, path and body, each with its own clock and orders, and workers that claim and finish
  tasks in between.  \<open>chats\<close> are the environments of the chats: models, tools, searches.
\<close>

inductive serverReach :: "'w runnerEnv \<Rightarrow> ('v, 'p) chatEnv set \<Rightarrow> bool \<Rightarrow> wfSystem \<Rightarrow> bool"
  for env :: "'w runnerEnv" and chats :: "('v, 'p) chatEnv set" and mayFail :: bool where
  boot: "serverReach env chats mayFail initSystem"
| tasks: "\<lbrakk>serverReach env chats mayFail y; mayFail \<or> neverFails (tae_Starter api); ws_seq (sy_svc y) < - 1;
    handleTasks api r (sy_svc y) = (reply, svc')\<rbrakk> \<Longrightarrow> serverReach env chats mayFail (y\<lparr>sy_svc := svc'\<rparr>)"
| oneTask: "\<lbrakk>serverReach env chats mayFail y; mayFail \<or> neverFails (tae_Starter api); ws_seq (sy_svc y) < - 1;
    handleTaskByID api r (sy_svc y) = (answer, svc')\<rbrakk> \<Longrightarrow> serverReach env chats mayFail (y\<lparr>sy_svc := svc'\<rparr>)"
| chat: "\<lbrakk>serverReach env chats mayFail y; cenv \<in> chats; mayFail \<or> neverFails (ce_Starter cenv);
    ws_seq (sy_svc y) < - 1; cst_Workflows s = sy_svc y; handleChatStream sapi cenv ck r s = (stream, s')\<rbrakk>
    \<Longrightarrow> serverReach env chats mayFail (y\<lparr>sy_svc := cst_Workflows s'\<rparr>)"
| claim: "\<lbrakk>serverReach env chats mayFail y; iterOrder (ts_tasks (sy_store y)) ks;
    ClaimQueuedTasks ks now limit (sy_store y) = (claimed, st)\<rbrakk>
    \<Longrightarrow> serverReach env chats mayFail ((withStore st y)\<lparr>sy_inflight := sy_inflight y @ claimed\<rparr>)"
| finish: "\<lbrakk>serverReach env chats mayFail y; t \<in> set (sy_inflight y); processTask env t (sy_store y) w = (res, st, w')\<rbrakk>
    \<Longrightarrow> serverReach env chats mayFail ((withStore st y)\<lparr>sy_inflight := remove1 t (sy_inflight y)\<rparr>)"

lemma serverReach_wfReach: "serverReach env chats mayFail y \<Longrightarrow> wfReach env mayFail y"
proof (induction rule: serverReach.induct)
  case boot
  show ?case by (rule wfReach.start)
next
  case (tasks y api r reply svc')
  then have "serviceCall api (sy_svc y) svc'" using handleTasks_call [of api "sy_svc y" r] by simp
  from serviceCall_step [OF this tasks(2,3)] tasks(5) show ?case by (metis wfReach.step wfSystem.surjective wfSystem.update_convs(1))
next
  case (oneTask y api r answer svc')
  then have "serviceCall api (sy_svc y) svc'" using handleTaskByID_call [of api "sy_svc y" r] by simp
  from serviceCall_step [OF this oneTask(2,3)] oneTask(5) show ?case by (metis wfReach.step wfSystem.surjective wfSystem.update_convs(1))
next
  case (chat y cenv s sapi ck r stream s')
  from handleChatStream_call [of sapi cenv ck r s] chat(5,6)
  consider "cst_Workflows s' = sy_svc y"
    | preq where "Promote (ce_Version cenv) (ce_Starter cenv) (ck_Promoted ck) (ck_StartFailed ck) preq (sy_svc y)
        = (fst (Promote (ce_Version cenv) (ce_Starter cenv) (ck_Promoted ck) (ck_StartFailed ck) preq (sy_svc y)),
           cst_Workflows s')"
    by (auto simp: prod_eq_iff)
  then show ?case
  proof cases
    case 1
    then show ?thesis using chat(7) by simp
  next
    case 2
    show ?thesis by (rule wfReach.step [OF chat(7) wfStep.promote [OF 2 chat(3,4)]])
  qed
next
  case (claim y ks now limit claimed st)
  then show ?case by (intro wfReach.step [OF claim(4)] wfStep.claim)
next
  case (finish y t w res st w')
  then show ?case by (intro wfReach.step [OF finish(4)] wfStep.finish)
qed

text \<open>
  C9: The approval gate at the API.  Whatever requests to the tasks and to the chat stream a server
  handles, one at a time and between the steps of its workers, and as long as the external start of
  approval workflows does not fail, a task that requires approval is never queued, executed or
  finished without an approval in its log.
\<close>

theorem server_approval_gate:
  assumes "serverReach env chats False y" "envOK env"
    and "ts_tasks (sy_store y) k = Some t" "task_RequiresApproval t" "task_Status t \<noteq> StatusWaitingApproval"
  shows "\<exists>e \<in> set (ListTaskEvents k (sy_store y)). aev_Action e = AuditActionApproved"
proof -
  note inv = wfInv_reach [OF serverReach_wfReach [OF assms(1)] assms(2)]
  have "task_ID t = k" using wfInvD(1) [OF inv] assms(3) taskStoreOK_keyed keyedByD by metis
  with wfInvD(4) [OF inv assms(3)] assms(4,5) show ?thesis by (simp add: taskOK_def approvedIn_def)
qed

subsection \<open>What is not checked\<close>

text \<open>
  A request that creates a task for an approved tool has no field for the tool: the task is
  stored without one, and once it is approved and executed it succeeds without running any tool.
\<close>

theorem created_tool_task_runs_nothing:
  assumes "handleCreateTask api r svc = (ReplyJSON StatusCreated (TaskBody b), svc')"
    and "tae_Starter api = None" "\<not> ta_FailOnApprove a"
  shows "\<exists>t. ts_tasks (ws_store svc') (tsr_TaskID b) = Some t
    \<and> ExecuteApprovedTool a (approvedToolInputOf t) signal w = (Inr (''approved-tool:'' @ tsr_TaskID b), w)"
proof -
  obtain req where req: "tae_DecodeCreate api (hrq_Body r) = Some req"
    using assms(1) by (auto simp: handleCreateTask_def split: option.splits)
  define x where x: "x = Promote (tae_Version api) (tae_Starter api) (tae_Now api) (tae_Later api)
      (createPromoteRequest r req) svc"
  have created: "(case x of
        (Inl err, s) \<Rightarrow> (ReplyError StatusInternalServerError ''task_create_failed'' (workflowErrorText err), s)
      | (Inr t, s) \<Rightarrow> (writeTaskResponse api StatusCreated t s, s)) = (ReplyJSON StatusCreated (TaskBody b), svc')"
    using assms(1) req by (simp add: handleCreateTask_def x split: if_splits)
  obtain t where t: "x = (Inr t, svc')" "tsr_TaskID b = task_ID t"
    using created by (auto simp: writeTaskResponse_def newTaskResponse_def split: prod.splits sum.splits)
  have "ts_tasks (ws_store svc') (task_ID t) = Some t" "task_ToolName t = []"
    using x t(1) assms(2)
    by (auto simp: Promote_def createPromoteRequest_def CreateTaskWithEvent_def promotedTask_def logTaskEvent_def Let_def
        split: option.splits sum.splits prod.splits if_splits)
  then show ?thesis using t(2) assms(3)
    by (simp add: ExecuteApprovedTool_def approvedToolInputOf_def)
qed

text \<open>
  C33: The tenant of a session is never compared with that of a chat request: a request of any
  tenant that names an existing session is accepted and its text is added to that session's
  messages.
\<close>

theorem chat_joins_any_session:
  assumes "hrq_Method r = MethodPost" "sae_Flushes api" "sae_Decode api (hrq_Body r) = Some req"
    and "trimSpace (csq_TenantID req) \<noteq> []" "trimSpace (csq_UserMessage req) \<noteq> []" "csq_SessionID req \<noteq> []"
    and "sst_sessions (cst_Sessions s) (csq_SessionID req) = Some x"
  shows "\<exists>events s' m rest. handleChatStream api env ck r s = (StreamEvents events, s')
    \<and> entries (sst_messages (cst_Sessions s')) (csq_SessionID req)
      = entries (sst_messages (cst_Sessions s)) (csq_SessionID req) @ m # rest
    \<and> msg_Role m = RoleUser \<and> msg_Content m = csq_UserMessage req"
proof -
  let ?q = "chatRequestFor api r req" and ?sid = "csq_SessionID req"
  obtain m ss1 where a: "AppendMessage (ck_UserMessage ck) ?sid RoleUser (csq_UserMessage req) (cst_Sessions s) = (Inr m, ss1)"
    using assms(7) by (auto simp: AppendMessage_def CreateMessage_def Let_def)
  note e1 = AppendMessage_entries [OF a]
  have open_session: "openSession ?q ck (cst_Sessions s) = (?sid, cst_Sessions s)"
    using assms(6) by (simp add: openSession_def chatRequestFor_def)
  have user: "req_UserMessage ?q = csq_UserMessage req" by (simp add: chatRequestFor_def)
  have later: "\<exists>rest. entries (sst_messages (cst_Sessions (snd (Handle env ck ?q s)))) ?sid
      = entries (sst_messages ss1) ?sid @ rest"
  proof -
    have append: "\<exists>rest. entries (sst_messages (snd (AppendMessage now sid role content ss1))) ?sid
        = entries (sst_messages ss1) ?sid @ rest" for now sid role content
      by (auto simp: AppendMessage_def CreateMessage_def Let_def split: option.split)
    show ?thesis
      unfolding Handle_def open_session user Let_def prod.case a sum.case
      using append [of "ck_Assistant ck" ?sid RoleAssistant]
      by (auto split: sum.split prod.split) (metis snd_conv)+
  qed
  have "entries (sst_messages ss1) ?sid = entries (sst_messages (cst_Sessions s)) ?sid @ [m]"
    using e1 by simp
  with later obtain rest where "entries (sst_messages (cst_Sessions (snd (Handle env ck ?q s)))) ?sid
      = entries (sst_messages (cst_Sessions s)) ?sid @ m # rest" by auto
  moreover have "\<exists>events. handleChatStream api env ck r s = (StreamEvents events, snd (Handle env ck ?q s))"
    using assms by (auto simp: handleChatStream_def ListMessages_def split: prod.split sum.split)
  ultimately show ?thesis using e1 by blast
qed

lemma contains_iff: "contains s t \<longleftrightarrow> (\<exists>p q. s = p @ t @ q)"
proof (induction s)
  case Nil
  then show ?case by (auto simp: hasPrefix_iff)
next
  case (Cons c s)
  have "hasPrefix (c # s) t \<longleftrightarrow> (\<exists>q. c # s = t @ q)" by (rule hasPrefix_iff)
  moreover have "(\<exists>p q. c # s = p @ t @ q) \<longleftrightarrow> (\<exists>q. c # s = t @ q) \<or> (\<exists>p q. s = p @ t @ q)"
    by (metis append_Cons append_Nil append_eq_Cons_conv list.sel(3))
  ultimately show ?case using Cons.IH by simp
qed

text \<open>
  The error event of a stream is chosen by words in the error text: a missing tool whose name
  has \<open>session\<close> in it is reported as a missing session.
\<close>

theorem missing_tool_reported_as_session:
  assumes "contains name ''session''"
  shows "chatErrorEvent (ChatToolError (ToolNotFound name))
    = \<lparr>ev_Name = ''error'', ev_Data = [(''code'', ''session_not_found''), (''message'', ''session not found'')]\<rparr>"
proof -
  obtain p q where "name = p @ ''session'' @ q" using assms by (auto simp: contains_iff)
  then have "goQuote name = (CHR 0x22 # concat (map quoteChar p)) @ ''session'' @ concat (map quoteChar q) @ [CHR 0x22]"
    by (simp add: goQuote_def quoteChar_def)
  then have "chatErrorText (ChatToolError (ToolNotFound name))
      = (''tool '' @ CHR 0x22 # concat (map quoteChar p)) @ ''session'' @ (concat (map quoteChar q) @ [CHR 0x22] @ '' not found'')"
    and "chatErrorText (ChatToolError (ToolNotFound name)) = (''tool '' @ goQuote name @ '' '') @ ''not found'' @ []"
    by (simp_all add: chatErrorText_def toolErrorText_def)
  then have "contains (chatErrorText (ChatToolError (ToolNotFound name))) ''session''"
    "contains (chatErrorText (ChatToolError (ToolNotFound name))) ''not found''"
    unfolding contains_iff by blast+
  then show ?thesis by (simp add: chatErrorEvent_def classifyChatError_def)
qed

subsection \<open>The theorems at work\<close>

definition demoTaskApi :: taskApiEnv where
  "demoTaskApi = \<lparr>tae_Now = 62135596800000000005, tae_Later = 62135596800000000006, tae_FormatTime = (\<lambda>_. ''now''),
     tae_ParseTime = (\<lambda>_. None), tae_Keys = [], tae_Version = None, tae_Starter = None,
     tae_DecodeCreate = (\<lambda>_. Some \<lparr>ctr_TenantID = ''acme'', ctr_SessionID = [],
        ctr_TaskType = TaskTypeApprovedToolExecution, ctr_Reason = PromotionReasonApprovalRequired,
        ctr_RequiresApproval = True\<rparr>),
     tae_DecodeApprove = (\<lambda>_. Some ''ops''), tae_DecodeRetry = (\<lambda>_. Some ''ops'')\<rparr>"

definition demoPost :: "string \<Rightarrow> httpRequest" where
  "demoPost path = \<lparr>hrq_Method = MethodPost, hrq_Path = path, hrq_Query = (\<lambda>_. []), hrq_Header = (\<lambda>_. []),
     hrq_Body = [], hrq_CtxRequestID = ''r'', hrq_CtxTraceID = ''r''\<rparr>"

abbreviation demoApproval :: httpRequest where
  "demoApproval \<equiv> demoPost ''/api/v1/tasks/task-5-1/approve''"

definition demoCreated :: wfSystem where
  "demoCreated = initSystem\<lparr>sy_svc := snd (handleTasks demoTaskApi (demoPost []) (sy_svc initSystem))\<rparr>"

definition demoApproved :: wfSystem where
  "demoApproved = demoCreated\<lparr>sy_svc := snd (handleTaskByID demoTaskApi demoApproval (sy_svc demoCreated))\<rparr>"

lemma demo_evals: "newTaskID 62135596800000000005 1 = ''task-5-1''" "trimSpace ''acme'' = ''acme''" "trimSpace ''hi'' = ''hi''"
    "parseActionPath ''/api/v1/tasks/'' ''/api/v1/tasks/task-5-1/approve'' = Some (''task-5-1'', ''approve'')"
  by code_simp+

lemma demo_reply:
  "\<exists>b. handleCreateTask demoTaskApi (demoPost []) (sy_svc initSystem)
     = (ReplyJSON StatusCreated (TaskBody b), sy_svc demoCreated)"
  by (simp add: demoCreated_def handleTasks_def handleCreateTask_def demoTaskApi_def demoPost_def demo_evals
      validTaskTypes_def validPromotionReasons_def createPromoteRequest_def requestIDFromRequest_def
      writeTaskResponse_def Promote_def shouldStartTaskOnPromote_def Let_def split: prod.split)

lemma demo_server:
  "serverReach env chats mayFail demoApproved" "ws_seq (sy_svc demoCreated) = 1"
  "\<exists>t. ts_tasks (sy_store demoApproved) ''task-5-1'' = Some t \<and> task_RequiresApproval t \<and> task_Status t = StatusQueued"
proof -
  have created: "sy_svc demoCreated = snd (handleCreateTask demoTaskApi (demoPost []) (sy_svc initSystem))"
    by (simp add: demoCreated_def handleTasks_def demoPost_def split: prod.split)
  show seq: "ws_seq (sy_svc demoCreated) = 1"
    by (simp add: created handleCreateTask_def demoTaskApi_def demo_evals validTaskTypes_def
        validPromotionReasons_def createPromoteRequest_def requestIDFromRequest_def demoPost_def runDefs)
  have quiet: "mayFail \<or> neverFails (tae_Starter demoTaskApi)" by (simp add: neverFails_def demoTaskApi_def)
  have "serverReach env chats mayFail demoCreated"
    unfolding demoCreated_def
    by (rule serverReach.tasks [OF serverReach.boot quiet _ prod.collapse [symmetric]])
      (simp add: initSystem_def word_gt_0)
  then show "serverReach env chats mayFail demoApproved"
    unfolding demoApproved_def
    by (rule serverReach.oneTask [OF _ quiet _ prod.collapse [symmetric]]) (unfold seq, code_simp)
  show "\<exists>t. ts_tasks (sy_store demoApproved) ''task-5-1'' = Some t \<and> task_RequiresApproval t \<and> task_Status t = StatusQueued"
    by (simp add: demoApproved_def created handleTaskByID_def handleApproveTask_def taskOutcome_service parseTaskPath_def
        demo_evals demoPost_def)
      (simp add: taskOutcome_service handleCreateTask_def demoTaskApi_def demo_evals validTaskTypes_def
        validPromotionReasons_def createPromoteRequest_def requestIDFromRequest_def runDefs)
qed

lemma server_approval_gate_witness:
  "\<exists>e \<in> set (ListTaskEvents ''task-5-1'' (sy_store demoApproved)). aev_Action e = AuditActionApproved"
proof -
  obtain t where "ts_tasks (sy_store demoApproved) ''task-5-1'' = Some t" "task_RequiresApproval t"
      "task_Status t = StatusQueued"
    using demo_server(3) by (elim exE conjE)
  then show ?thesis
    using server_approval_gate [OF demo_server(1) [of demoEnv "{rejectingChat}" False] demoEnv_ok(2)] by simp
qed

definition demoActivities :: "(nat, string) toolActivities" where
  "demoActivities = \<lparr>ta_FailOnApprove = False, ta_registry = Map.empty, ta_marshal = (\<lambda>_. Inr []),
     ta_errorText = (\<lambda>_. []), ta_decoder = \<lparr>rd_comment = (\<lambda>_. None), rd_matches = (\<lambda>_. Some 0)\<rparr>\<rparr>"

lemma created_tool_task_runs_nothing_witness:
  "\<exists>b t. handleCreateTask demoTaskApi (demoPost []) (sy_svc initSystem)
      = (ReplyJSON StatusCreated (TaskBody b), sy_svc demoCreated)
    \<and> ts_tasks (sy_store demoCreated) (tsr_TaskID b) = Some t
    \<and> ExecuteApprovedTool demoActivities (approvedToolInputOf t) \<lparr>sig_Action = ''approve'', sig_Actor = ''ops''\<rparr> 0
      = (Inr (''approved-tool:'' @ tsr_TaskID b), 0)"
proof -
  obtain b where b: "handleCreateTask demoTaskApi (demoPost []) (sy_svc initSystem)
      = (ReplyJSON StatusCreated (TaskBody b), sy_svc demoCreated)"
    using demo_reply by (elim exE)
  have env: "tae_Starter demoTaskApi = None" "\<not> ta_FailOnApprove demoActivities"
    by (simp_all add: demoTaskApi_def demoActivities_def)
  have "\<exists>t. ts_tasks (sy_store demoCreated) (tsr_TaskID b) = Some t
      \<and> ExecuteApprovedTool demoActivities (approvedToolInputOf t) \<lparr>sig_Action = ''approve'', sig_Actor = ''ops''\<rparr> 0
        = (Inr (''approved-tool:'' @ tsr_TaskID b), 0)"
    by (rule created_tool_task_runs_nothing [OF b env])
  with b show ?thesis by blast
qed

definition demoStream :: "chatStreamRequest \<Rightarrow> streamApiEnv" where
  "demoStream req = \<lparr>sae_Flushes = True, sae_Decode = (\<lambda>_. Some req), sae_LoadPolicy = (\<lambda>_ _ _. noPolicy)\<rparr>"

definition demoStreamRequest :: chatStreamRequest where
  "demoStreamRequest = \<lparr>csq_OrgID = [], csq_TenantID = ''acme'', csq_UserID = [], csq_SessionID = ''s'', csq_Mode = ''chat'',
     csq_UserMessage = ''hi'', csq_AttachmentRefs = [], csq_ClientRequestID = []\<rparr>"

text \<open>A session of another tenant.\<close>

definition demoForeignState :: "string list chatState" where
  "demoForeignState = demoChatState\<lparr>cst_Sessions := newSessionStore
     \<lparr>sst_sessions := [''s'' \<mapsto> \<lparr>se_ID = ''s'', se_TenantID = ''globex'', se_UserID = [], se_CreatedAt = 0\<rparr>]\<rparr>\<rparr>"

lemma chat_joins_any_session_witness:
  "\<exists>events s' m. handleChatStream (demoStream demoStreamRequest) rejectingChat demoClock (demoPost []) demoForeignState
      = (StreamEvents events, s')
    \<and> m \<in> set (entries (sst_messages (cst_Sessions s')) ''s'') \<and> msg_Content m = ''hi''"
proof -
  have h: "hrq_Method (demoPost []) = MethodPost" "sae_Flushes (demoStream demoStreamRequest)"
    "sae_Decode (demoStream demoStreamRequest) (hrq_Body (demoPost [])) = Some demoStreamRequest"
    "trimSpace (csq_TenantID demoStreamRequest) \<noteq> []" "trimSpace (csq_UserMessage demoStreamRequest) \<noteq> []"
    "csq_SessionID demoStreamRequest \<noteq> []"
    "sst_sessions (cst_Sessions demoForeignState) (csq_SessionID demoStreamRequest)
      = Some \<lparr>se_ID = ''s'', se_TenantID = ''globex'', se_UserID = [], se_CreatedAt = 0\<rparr>"
    by (simp_all add: demoPost_def demoStream_def demoStreamRequest_def demoForeignState_def demo_evals)
  obtain events s' m rest where "handleChatStream (demoStream demoStreamRequest) rejectingChat demoClock (demoPost [])
      demoForeignState = (StreamEvents events, s')"
    "entries (sst_messages (cst_Sessions s')) (csq_SessionID demoStreamRequest)
      = entries (sst_messages (cst_Sessions demoForeignState)) (csq_SessionID demoStreamRequest) @ m # rest"
    "msg_Content m = csq_UserMessage demoStreamRequest"
    using chat_joins_any_session [OF h, of rejectingChat demoClock] by (elim exE conjE)
  then show ?thesis by (intro exI [of _ events] exI [of _ s'] exI [of _ m]) (simp add: demoStreamRequest_def)
qed

lemma missing_tool_reported_as_session_witness:
  "chatErrorEvent (ChatToolError (ToolNotFound ''session_lookup''))
    = \<lparr>ev_Name = ''error'', ev_Data = [(''code'', ''session_not_found''), (''message'', ''session not found'')]\<rparr>"
  by (rule missing_tool_reported_as_session) code_simp

end
