(* ===== verification/Http_Cases.thy ===== *)
theory Http_Cases
  imports Http_Core
begin

text \<open>
  The case endpoints of the HTTP API (\<open>app/httpapi/cases.go\<close>): creating a case with the checks of
  its sources, listing, reading, and the operations on one case.

  A handler takes the stores of the services and returns them with the reply.  Two parameters
  stand for what happens around it: \<open>cae_CaseKeys\<close> and \<open>cae_ReportKeys\<close> are the orders of the
  iterations over the maps, and \<open>cae_Others\<close> is what other requests do to the cases between the
  lookup and the change of this one.  The memory stores have no errors besides the ones below, so
  the branches for other errors of a store do not occur.
\<close>

subsection \<open>Stores and bodies\<close>

record apiStores =
  api_Cases :: caseState
  api_Workflows :: workflowService
  api_Reports :: reportStore
  api_Evals :: evalState

record createCaseRequest =
  ccr_TenantID :: string
  ccr_Title :: string
  ccr_Summary :: string
  ccr_SourceTaskID :: string
  ccr_SourceReportID :: string
  ccr_SourceEvalReportID :: string
  ccr_SourceEvalCaseID :: string
  ccr_SourceEvalRunID :: string
  ccr_CompareOrigin :: "compareOrigin option"
  ccr_CreatedBy :: string

record createCaseNoteRequest =
  cnr_Body :: string
  cnr_CreatedBy :: string

record caseApiEnv =
  cae_Now :: time
  cae_FormatTime :: "time \<Rightarrow> string"
  cae_CaseKeys :: "string \<Rightarrow> string list"
  cae_ReportKeys :: "int \<Rightarrow> string list"
  cae_Others :: "caseState \<Rightarrow> caseState"
  cae_DecodeCreate :: "string \<Rightarrow> createCaseRequest option"
  cae_DecodeClose :: "string \<Rightarrow> string option"
  cae_DecodeAssign :: "string \<Rightarrow> string option"
  cae_DecodeUnassign :: "string \<Rightarrow> string option"
  cae_DecodeReopen :: "string \<Rightarrow> string option"
  cae_DecodeNote :: "string \<Rightarrow> createCaseNoteRequest option"

text \<open>A link of the console: its mode, and the identifier it opens.\<close>

record modeLink =
  lnk_Mode :: string
  lnk_ID :: string

record caseCompareAction =
  cca_Mode :: string
  cca_LeftEvalReportID :: string
  cca_RightEvalReportID :: string

record caseNoteResponse =
  cno_NoteID :: string
  cno_CaseID :: string
  cno_TenantID :: string
  cno_Body :: string
  cno_CreatedBy :: string
  cno_CreatedAt :: string

record caseResponse =
  csr_CaseID :: string
  csr_TenantID :: string
  csr_Status :: string
  csr_Title :: string
  csr_Summary :: string
  csr_SourceTaskID :: string
  csr_SourceReportID :: string
  csr_SourceEvalReportID :: string
  csr_SourceEvalCaseID :: string
  csr_SourceEvalRunID :: string
  csr_CompareOrigin :: "compareOrigin option"
  csr_PreferredSourceTaskProvenance :: modeLink
  csr_PreferredSourceReportProvenance :: modeLink
  csr_PreferredEvalReportProvenance :: modeLink
  csr_PreferredEvalCaseProvenance :: modeLink
  csr_PreferredEvalRunProvenance :: modeLink
  csr_PreferredTraceDetailAction :: modeLink
  csr_PreferredCompareAction :: caseCompareAction
  csr_CreatedBy :: string
  csr_AssignedTo :: string
  csr_AssignedAt :: string
  csr_ClosedBy :: string
  csr_Notes :: "caseNoteResponse list"
  csr_CreatedAt :: string
  csr_UpdatedAt :: string

datatype casesBody =
    CaseBody caseResponse
  | CasesBody "caseResponse listBody"
  | CaseNoteBody caseNoteResponse

subsection \<open>The response of a case\<close>

definition newCaseCompareOriginModel :: "compareOrigin option \<Rightarrow> compareOrigin" where
  "newCaseCompareOriginModel req =
     (case req of
        None \<Rightarrow> \<lparr>co_LeftEvalReportID = [], co_RightEvalReportID = [], co_SelectedSide = []\<rparr>
      | Some origin \<Rightarrow> origin)"

definition newCaseCompareOriginResponse :: "compareOrigin \<Rightarrow> compareOrigin option" where
  "newCaseCompareOriginResponse item =
     (if co_LeftEvalReportID item = [] \<and> co_RightEvalReportID item = [] \<and> co_SelectedSide item = []
      then None else Some item)"

definition newCaseSourceTaskProvenance :: "string \<Rightarrow> modeLink" where
  "newCaseSourceTaskProvenance taskID =
     (if taskID \<noteq> [] then \<lparr>lnk_Mode = ''open'', lnk_ID = taskID\<rparr> else \<lparr>lnk_Mode = ''none'', lnk_ID = []\<rparr>)"

definition newCaseSourceReportProvenance :: "string \<Rightarrow> modeLink" where
  "newCaseSourceReportProvenance reportID =
     (if reportID \<noteq> [] then \<lparr>lnk_Mode = ''open'', lnk_ID = reportID\<rparr> else \<lparr>lnk_Mode = ''none'', lnk_ID = []\<rparr>)"

definition newCaseEvalReportProvenance :: "string \<Rightarrow> modeLink" where
  "newCaseEvalReportProvenance reportID =
     (if reportID \<noteq> [] then \<lparr>lnk_Mode = ''open'', lnk_ID = reportID\<rparr> else \<lparr>lnk_Mode = ''none'', lnk_ID = []\<rparr>)"

definition newCaseEvalCaseProvenance :: "string \<Rightarrow> modeLink" where
  "newCaseEvalCaseProvenance evalCaseID =
     (if evalCaseID \<noteq> [] then \<lparr>lnk_Mode = ''open'', lnk_ID = evalCaseID\<rparr> else \<lparr>lnk_Mode = ''none'', lnk_ID = []\<rparr>)"

definition newCaseEvalRunProvenance :: "string \<Rightarrow> modeLink" where
  "newCaseEvalRunProvenance runID =
     (if runID \<noteq> [] then \<lparr>lnk_Mode = ''open'', lnk_ID = runID\<rparr> else \<lparr>lnk_Mode = ''none'', lnk_ID = []\<rparr>)"

definition newCaseTraceDetailAction :: "string \<Rightarrow> modeLink" where
  "newCaseTraceDetailAction caseID =
     (if caseID \<noteq> [] then \<lparr>lnk_Mode = ''open'', lnk_ID = caseID\<rparr> else \<lparr>lnk_Mode = ''none'', lnk_ID = []\<rparr>)"

definition newCaseCompareAction :: "compareOrigin \<Rightarrow> caseCompareAction" where
  "newCaseCompareAction origin =
     (if co_LeftEvalReportID origin \<noteq> [] \<and> co_RightEvalReportID origin \<noteq> []
      then \<lparr>cca_Mode = ''open'', cca_LeftEvalReportID = co_LeftEvalReportID origin,
            cca_RightEvalReportID = co_RightEvalReportID origin\<rparr>
      else \<lparr>cca_Mode = ''none'', cca_LeftEvalReportID = [], cca_RightEvalReportID = []\<rparr>)"

definition newCaseNoteResponse :: "(time \<Rightarrow> string) \<Rightarrow> caseNote \<Rightarrow> caseNoteResponse" where
  "newCaseNoteResponse formatTime n =
     \<lparr>cno_NoteID = cn_ID n, cno_CaseID = cn_CaseID n, cno_TenantID = cn_TenantID n, cno_Body = cn_Body n,
      cno_CreatedBy = cn_CreatedBy n, cno_CreatedAt = formatTime (cn_CreatedAt n)\<rparr>"

definition formatOptionalTime :: "(time \<Rightarrow> string) \<Rightarrow> time \<Rightarrow> string" where
  "formatOptionalTime formatTime t = (if t = zeroTime then [] else formatTime t)"

definition newCaseResponse :: "(time \<Rightarrow> string) \<Rightarrow> caseRec \<Rightarrow> caseNote list \<Rightarrow> caseResponse" where
  "newCaseResponse formatTime item notes =
     \<lparr>csr_CaseID = cs_ID item, csr_TenantID = cs_TenantID item, csr_Status = cs_Status item,
      csr_Title = cs_Title item, csr_Summary = cs_Summary item, csr_SourceTaskID = cs_SourceTaskID item,
      csr_SourceReportID = cs_SourceReportID item, csr_SourceEvalReportID = cs_SourceEvalReportID item,
      csr_SourceEvalCaseID = cs_SourceEvalCaseID item, csr_SourceEvalRunID = cs_SourceEvalRunID item,
      csr_CompareOrigin = newCaseCompareOriginResponse (cs_CompareOrigin item),
      csr_PreferredSourceTaskProvenance = newCaseSourceTaskProvenance (cs_SourceTaskID item),
      csr_PreferredSourceReportProvenance = newCaseSourceReportProvenance (cs_SourceReportID item),
      csr_PreferredEvalReportProvenance = newCaseEvalReportProvenance (cs_SourceEvalReportID item),
      csr_PreferredEvalCaseProvenance = newCaseEvalCaseProvenance (cs_SourceEvalCaseID item),
      csr_PreferredEvalRunProvenance = newCaseEvalRunProvenance (cs_SourceEvalRunID item),
      csr_PreferredTraceDetailAction = newCaseTraceDetailAction (cs_ID item),
      csr_PreferredCompareAction = newCaseCompareAction (cs_CompareOrigin item),
      csr_CreatedBy = cs_CreatedBy item, csr_AssignedTo = cs_AssignedTo item,
      csr_AssignedAt = formatOptionalTime formatTime (cs_AssignedAt item), csr_ClosedBy = cs_ClosedBy item,
      csr_Notes = map (newCaseNoteResponse formatTime) notes,
      csr_CreatedAt = formatTime (cs_CreatedAt item), csr_UpdatedAt = formatTime (cs_UpdatedAt item)\<rparr>"

abbreviation (input) caseReply :: "caseApiEnv \<Rightarrow> int \<Rightarrow> caseRec \<Rightarrow> casesBody httpReply" where
  "caseReply env status item \<equiv> ReplyJSON status (CaseBody (newCaseResponse (cae_FormatTime env) item []))"

subsection \<open>The sources of a new case\<close>

text \<open>The error text of a request body that is not acceptable.\<close>

definition validateCreateCaseRequest :: "createCaseRequest \<Rightarrow> string option" where
  "validateCreateCaseRequest req =
     (if ccr_TenantID req = [] then Some ''tenant_id is required''
      else if ccr_Title req = [] then Some ''title is required''
      else case ccr_CompareOrigin req of
        None \<Rightarrow> None
      | Some origin \<Rightarrow>
          if co_LeftEvalReportID origin = [] \<or> co_RightEvalReportID origin = []
          then Some ''compare_origin.left_eval_report_id and compare_origin.right_eval_report_id are required''
          else if ccr_SourceTaskID req \<noteq> [] \<or> ccr_SourceReportID req \<noteq> []
               \<or> ccr_SourceEvalCaseID req \<noteq> [] \<or> ccr_SourceEvalRunID req \<noteq> []
          then Some (''compare_origin cannot be combined with source_task_id, source_report_id, ''
                     @ ''source_eval_case_id, or source_eval_run_id'')
          else if co_SelectedSide origin \<noteq> ''left'' \<and> co_SelectedSide origin \<noteq> ''right''
          then Some ''compare_origin.selected_side must be left or right''
          else if ccr_SourceEvalReportID req
                  \<noteq> (if co_SelectedSide origin = ''right'' then co_RightEvalReportID origin
                     else co_LeftEvalReportID origin)
          then Some ''source_eval_report_id must match compare_origin.selected_side''
          else None)"

definition evalReportContainsBadCase :: "string \<Rightarrow> evalReport \<Rightarrow> bool" where
  "evalReportContainsBadCase evalCaseID item = list_ex (\<lambda>b. bad_EvalCaseID b = evalCaseID) (erp_BadCases item)"

definition evalReportContainsTaskID :: "string \<Rightarrow> evalReport \<Rightarrow> bool" where
  "evalReportContainsTaskID taskID item = list_ex (\<lambda>b. bad_SourceTaskID b = taskID) (erp_BadCases item)"

definition datasetContainsEvalCase :: "string \<Rightarrow> evalDataset \<Rightarrow> bool" where
  "datasetContainsEvalCase evalCaseID dataset = list_ex (\<lambda>i. edi_EvalCaseID i = evalCaseID) (eds_Items dataset)"

datatype caseSourceError =
    SourceTaskError workflowError
  | SourceReportError reportError
  | SourceEvalError evalError
  | ErrInvalidCaseSource
  | ErrInvalidEvalCaseSource
  | ErrInvalidEvalRunLineage
  | ErrInvalidEvalReportTaskLineage
  | ErrInvalidEvalCaseRunLineage

definition checkSourceTask :: "createCaseRequest \<Rightarrow> apiStores \<Rightarrow> caseSourceError + unit" where
  "checkSourceTask req s =
     (if ccr_SourceTaskID req = [] then Inr ()
      else case GetTask (ccr_SourceTaskID req) (ws_store (api_Workflows s)) of
             Inl err \<Rightarrow> Inl (SourceTaskError err)
           | Inr t \<Rightarrow> if task_TenantID t \<noteq> ccr_TenantID req then Inl ErrInvalidCaseSource else Inr ())"

text \<open>The eval report, where the request names one.\<close>

definition checkSourceEvalReport ::
    "createCaseRequest \<Rightarrow> apiStores \<Rightarrow> caseSourceError + evalReport option" where
  "checkSourceEvalReport req s =
     (if ccr_SourceEvalReportID req = [] then Inr None
      else case eval_GetEvalReport (ccr_SourceEvalReportID req) (evl_Store (api_Evals s)) of
             Inl err \<Rightarrow> Inl (SourceEvalError err)
           | Inr item \<Rightarrow>
               if erp_TenantID item \<noteq> ccr_TenantID req then Inl ErrInvalidCaseSource
               else if ccr_SourceTaskID req \<noteq> [] \<and> \<not> evalReportContainsTaskID (ccr_SourceTaskID req) item
               then Inl ErrInvalidEvalReportTaskLineage
               else Inr (Some item))"

text \<open>
  Of an eval case the check reads the tenant; the follow-up summary that \<open>GetEvalCase\<close> adds does
  not change it, and the summaries of a memory store do not fail.
\<close>

definition checkSourceEvalCase ::
    "createCaseRequest \<Rightarrow> evalReport option \<Rightarrow> apiStores \<Rightarrow> caseSourceError + unit" where
  "checkSourceEvalCase req evalReportItem s =
     (if ccr_SourceEvalCaseID req = [] then Inr ()
      else case eval_Get (ccr_SourceEvalCaseID req) (evl_Store (api_Evals s)) of
             Inl err \<Rightarrow> Inl (SourceEvalError err)
           | Inr item \<Rightarrow>
               if evc_TenantID item \<noteq> ccr_TenantID req then Inl ErrInvalidCaseSource
               else case evalReportItem of
                      Some rep \<Rightarrow>
                        if evalReportContainsBadCase (ccr_SourceEvalCaseID req) rep then Inr ()
                        else Inl ErrInvalidEvalCaseSource
                    | None \<Rightarrow> Inr ())"

definition checkSourceEvalRun ::
    "createCaseRequest \<Rightarrow> evalReport option \<Rightarrow> apiStores \<Rightarrow> caseSourceError + unit" where
  "checkSourceEvalRun req evalReportItem s =
     (if ccr_SourceEvalRunID req = [] then Inr ()
      else case eval_GetRun (ccr_SourceEvalRunID req) (evl_Store (api_Evals s)) of
             Inl err \<Rightarrow> Inl (SourceEvalError err)
           | Inr runItem \<Rightarrow>
               if run_TenantID runItem \<noteq> ccr_TenantID req then Inl ErrInvalidCaseSource
               else case evalReportItem of
                      Some rep \<Rightarrow>
                        if erp_RunID rep \<noteq> run_ID runItem then Inl ErrInvalidEvalRunLineage else Inr ()
                    | None \<Rightarrow>
                        if ccr_SourceEvalCaseID req = [] then Inr ()
                        else case eval_GetDataset (run_DatasetID runItem) (evl_Store (api_Evals s)) of
                               Inl err \<Rightarrow> Inl (SourceEvalError err)
                             | Inr dataset \<Rightarrow>
                                 if datasetContainsEvalCase (ccr_SourceEvalCaseID req) dataset then Inr ()
                                 else Inl ErrInvalidEvalCaseRunLineage)"

fun checkCompareReports :: "string \<Rightarrow> apiStores \<Rightarrow> string list \<Rightarrow> caseSourceError + unit" where
  "checkCompareReports tenantID s [] = Inr ()"
| "checkCompareReports tenantID s (reportID # rest) =
     (case eval_GetEvalReport reportID (evl_Store (api_Evals s)) of
        Inl err \<Rightarrow> Inl (SourceEvalError err)
      | Inr item \<Rightarrow>
          if erp_TenantID item \<noteq> tenantID then Inl ErrInvalidCaseSource
          else checkCompareReports tenantID s rest)"

definition checkCompareOrigin :: "createCaseRequest \<Rightarrow> apiStores \<Rightarrow> caseSourceError + unit" where
  "checkCompareOrigin req s =
     (case ccr_CompareOrigin req of
        None \<Rightarrow> Inr ()
      | Some origin \<Rightarrow>
          checkCompareReports (ccr_TenantID req) s [co_LeftEvalReportID origin, co_RightEvalReportID origin])"

text \<open>
  The report is returned where the request names one, and then the sources behind it are not
  looked at.
\<close>

definition validateCaseSources ::
    "createCaseRequest \<Rightarrow> apiStores \<Rightarrow> caseSourceError + reportRec option" where
  "validateCaseSources req s =
     andThen (checkSourceTask req s) (\<lambda>_.
       if ccr_SourceReportID req \<noteq> []
       then (case report_Get (ccr_SourceReportID req) (api_Reports s) of
               Inl err \<Rightarrow> Inl (SourceReportError err)
             | Inr item \<Rightarrow>
                 if rpt_TenantID item \<noteq> ccr_TenantID req then Inl ErrInvalidCaseSource else Inr (Some item))
       else
         andThen (checkSourceEvalReport req s) (\<lambda>evalReportItem.
         andThen (checkSourceEvalCase req evalReportItem s) (\<lambda>_.
         andThen (checkSourceEvalRun req evalReportItem s) (\<lambda>_.
         andThen (checkCompareOrigin req s) (\<lambda>_. Inr None)))))"

definition writeCaseSourceError :: "caseSourceError \<Rightarrow> 'b httpReply" where
  "writeCaseSourceError err =
     (case err of
        SourceTaskError _ \<Rightarrow> ReplyError StatusNotFound ''task_not_found'' ''task not found''
      | SourceReportError _ \<Rightarrow> ReplyError StatusNotFound ''report_not_found'' ''report not found''
      | SourceEvalError (ErrEvalReportNotFound _) \<Rightarrow>
          ReplyError StatusNotFound ''eval_report_not_found'' ''eval report not found''
      | SourceEvalError (ErrEvalCaseNotFound _) \<Rightarrow>
          ReplyError StatusNotFound ''eval_case_not_found'' ''eval case not found''
      | SourceEvalError (ErrEvalRunNotFound _) \<Rightarrow>
          ReplyError StatusNotFound ''eval_run_not_found'' ''eval run not found''
      | ErrInvalidCaseSource \<Rightarrow> ReplyError StatusConflict ''invalid_case_source'' ''case source tenant mismatch''
      | ErrInvalidEvalCaseSource \<Rightarrow>
          ReplyError StatusConflict ''invalid_case_source'' ''source eval case does not belong to source eval report''
      | ErrInvalidEvalRunLineage \<Rightarrow>
          ReplyError StatusConflict ''invalid_case_source'' ''source eval run does not match source eval report lineage''
      | ErrInvalidEvalReportTaskLineage \<Rightarrow>
          ReplyError StatusConflict ''invalid_case_source'' ''source eval report has no bad-case lineage to source task''
      | ErrInvalidEvalCaseRunLineage \<Rightarrow>
          ReplyError StatusConflict ''invalid_case_source'' ''source eval case does not belong to source eval run's dataset''
      | SourceEvalError other \<Rightarrow>
          ReplyError StatusInternalServerError ''case_source_lookup_failed'' (evalErrorText other))"

subsection \<open>Creating a case\<close>

definition caseInputOf :: "createCaseRequest \<Rightarrow> caseInput" where
  "caseInputOf req =
     \<lparr>cin_TenantID = ccr_TenantID req, cin_Title = ccr_Title req, cin_Summary = ccr_Summary req,
      cin_SourceTaskID = ccr_SourceTaskID req, cin_SourceReportID = ccr_SourceReportID req,
      cin_SourceEvalReportID = ccr_SourceEvalReportID req, cin_SourceEvalCaseID = ccr_SourceEvalCaseID req,
      cin_SourceEvalRunID = ccr_SourceEvalRunID req,
      cin_CompareOrigin = newCaseCompareOriginModel (ccr_CompareOrigin req), cin_CreatedBy = ccr_CreatedBy req\<rparr>"

text \<open>
  The open case that the request would repeat.  The outer option is a panic of the list, the
  inner one says whether there is such a case.
\<close>

definition findRepeatedCase ::
    "(string \<Rightarrow> string list) \<Rightarrow> createCaseRequest \<Rightarrow> caseState \<Rightarrow> caseRec option option" where
  "findRepeatedCase keys req s =
     (let tenantID = ccr_TenantID req;
          byCase = (if ccr_SourceEvalCaseID req \<noteq> []
            then FindOpenCaseBySourceEvalCase (keys ''eval case'') tenantID (ccr_SourceEvalCaseID req) s
            else Some None);
          byOrigin = (if ccr_SourceEvalReportID req \<noteq> [] \<and> ccr_CompareOrigin req \<noteq> None
            then FindOpenByCompareOrigin (keys ''compare origin'') tenantID (ccr_SourceEvalReportID req)
                   (newCaseCompareOriginModel (ccr_CompareOrigin req)) s
            else None);
          byReport = (if ccr_SourceEvalReportID req \<noteq> [] \<and> ccr_SourceEvalCaseID req = []
                         \<and> ccr_CompareOrigin req = None
            then FindOpenCaseBySourceEvalReport (keys ''eval report'') tenantID (ccr_SourceEvalReportID req) s
            else Some None)
      in case byCase of
           None \<Rightarrow> None
         | Some (Some c) \<Rightarrow> Some (Some c)
         | Some None \<Rightarrow> (case byOrigin of Some c \<Rightarrow> Some (Some c) | None \<Rightarrow> byReport))"

definition handleCreateCase ::
    "caseApiEnv \<Rightarrow> httpRequest \<Rightarrow> apiStores \<Rightarrow> casesBody httpReply option \<times> apiStores" where
  "handleCreateCase env r s =
     (case cae_DecodeCreate env (hrq_Body r) of
        None \<Rightarrow> (Some invalidJSON, s)
      | Some req \<Rightarrow>
        (case validateCreateCaseRequest req of
           Some message \<Rightarrow> (Some (ReplyError StatusBadRequest ''invalid_case'' message), s)
         | None \<Rightarrow>
           (case validateCaseSources req s of
              Inl err \<Rightarrow> (Some (writeCaseSourceError err), s)
            | Inr reportItem \<Rightarrow>
                if (case reportItem of
                      None \<Rightarrow> False
                    | Some item \<Rightarrow> rpt_ID item \<noteq> [] \<and> ccr_SourceTaskID req \<noteq> []
                        \<and> rpt_SourceTaskID item \<noteq> ccr_SourceTaskID req)
                then (Some (ReplyError StatusConflict ''invalid_case_source''
                              ''source report does not belong to source task''), s)
                else
                  (case findRepeatedCase (cae_CaseKeys env) req (api_Cases s) of
                     None \<Rightarrow> (None, s)
                   | Some (Some existing) \<Rightarrow> (Some (caseReply env StatusOK existing), s)
                   | Some None \<Rightarrow>
                       let ((item, created), cases) = CreateCaseWithOutcome (cae_CaseKeys env ''create'')
                             (cae_Now env) (caseInputOf req) (cae_Others env (api_Cases s))
                       in (Some (caseReply env (if created then StatusCreated else StatusOK) item),
                           s\<lparr>api_Cases := cases\<rparr>)))))"

subsection \<open>Listing cases\<close>

definition parseCaseListFilter :: "httpRequest \<Rightarrow> string + caseFilter \<times> string" where
  "parseCaseListFilter r =
     (let q = hrq_Query r;
          f = emptyCaseFilter
            \<lparr>cf_TenantID := q ''tenant_id'', cf_Status := q ''status'', cf_AssignedTo := q ''assigned_to'',
             cf_SourceTaskID := q ''source_task_id'', cf_SourceReportID := q ''source_report_id'',
             cf_SourceEvalReportID := q ''source_eval_report_id'',
             cf_SourceEvalCaseID := q ''source_eval_case_id'', cf_SourceEvalRunID := q ''source_eval_run_id''\<rparr>
      in if trimSpace (cf_TenantID f) = [] then Inl ''tenant_id is required''
         else
           andThen (parseSwitch r ''unassigned_only'') (\<lambda>unassigned.
           andThen (parseSwitch r ''eval_backed_only'') (\<lambda>evalBacked.
           andThen (parseSwitch r ''run_backed_only'') (\<lambda>runBacked.
           andThen (parseSwitch r ''compare_origin_only'') (\<lambda>compareOnly.
           andThen (parseLimit r) (\<lambda>limit.
           andThen (parseOffset r) (\<lambda>offset.
             Inr (f\<lparr>cf_UnassignedOnly := unassigned, cf_EvalBackedOnly := evalBacked,
                    cf_RunBackedOnly := runBacked, cf_CompareOriginOnly := compareOnly,
                    cf_Limit := limit, cf_Offset := offset\<rparr>,
                  trimSpace (q ''source_eval_dataset_id'')))))))))"

text \<open>An identifier is added once, in the order of the reports.\<close>

definition addReportID :: "evalReport \<Rightarrow> string list \<Rightarrow> string list" where
  "addReportID item reportIDs =
     (if erp_ID item = [] \<or> erp_ID item \<in> set reportIDs then reportIDs else reportIDs @ [erp_ID item])"

definition collectEvalReportIDsForDataset ::
    "(int \<Rightarrow> string list) \<Rightarrow> string \<Rightarrow> string \<Rightarrow> evalStore \<Rightarrow> string list option" where
  "collectEvalReportIDsForDataset keys tenantID datasetID s =
     (if datasetID = [] then Some []
      else foldPages
             (\<lambda>offset. ListEvalReports (keys offset)
                \<lparr>erf_ReportID = [], erf_TenantID = tenantID, erf_DatasetID = datasetID, erf_RunStatus = [],
                 erf_Status = [], erf_Limit = 100, erf_Offset = offset\<rparr> s)
             addReportID [] 0)"

definition writeCaseList ::
    "caseApiEnv \<Rightarrow> caseFilter \<Rightarrow> apiStores \<Rightarrow> casesBody httpReply option" where
  "writeCaseList env f s =
     map_option
       (\<lambda>page. ReplyJSON StatusOK
          (CasesBody (listBodyOf (\<lambda>item. newCaseResponse (cae_FormatTime env) item []) page)))
       (case_List (cae_CaseKeys env ''list'') f (api_Cases s))"

definition handleListCases ::
    "caseApiEnv \<Rightarrow> httpRequest \<Rightarrow> apiStores \<Rightarrow> casesBody httpReply option \<times> apiStores" where
  "handleListCases env r s =
     (case parseCaseListFilter r of
        Inl message \<Rightarrow> (Some (invalidQuery message), s)
      | Inr (f, sourceEvalDatasetID) \<Rightarrow>
          if sourceEvalDatasetID = [] then (writeCaseList env f s, s)
          else
            (case collectEvalReportIDsForDataset (cae_ReportKeys env) (cf_TenantID f) sourceEvalDatasetID
                    (evl_Store (api_Evals s)) of
               None \<Rightarrow> (None, s)
             | Some reportIDs \<Rightarrow>
                 if reportIDs = [] then (Some (ReplyJSON StatusOK (CasesBody emptyListBody)), s)
                 else (writeCaseList env (f\<lparr>cf_SourceEvalReportIDs := reportIDs\<rparr>) s, s)))"

definition handleCases ::
    "caseApiEnv \<Rightarrow> httpRequest \<Rightarrow> apiStores \<Rightarrow> casesBody httpReply option \<times> apiStores" where
  "handleCases env r s =
     (if hrq_Method r = MethodGet then handleListCases env r s
      else if hrq_Method r = MethodPost then handleCreateCase env r s
      else (Some methodNotAllowed, s))"

subsection \<open>One case\<close>

abbreviation (input) caseNotFound :: "'b httpReply" where
  "caseNotFound \<equiv> ReplyError StatusNotFound ''case_not_found'' ''case not found''"

text \<open>The case of the tenant that the request names; a case of another tenant is not found.\<close>

definition tenantCase :: "httpRequest \<Rightarrow> string \<Rightarrow> caseState \<Rightarrow> 'b httpReply + caseRec" where
  "tenantCase r caseID s =
     (let tenantID = trimSpace (hrq_Query r ''tenant_id'') in
      if tenantID = [] then Inl (invalidQuery ''tenant_id is required'')
      else case case_Get caseID s of
             Inl err \<Rightarrow> Inl caseNotFound
           | Inr item \<Rightarrow> if cs_TenantID item \<noteq> tenantID then Inl caseNotFound else Inr item)"

text \<open>How the handlers of the five operations begin.\<close>

definition openCaseAction :: "httpRequest \<Rightarrow> string \<Rightarrow> caseState \<Rightarrow> 'b httpReply + caseRec" where
  "openCaseAction r caseID s =
     (if hrq_Method r \<noteq> MethodPost then Inl methodNotAllowed
      else if pathID caseID = None then Inl notFound
      else tenantCase r caseID s)"

definition caseStateError :: "string \<Rightarrow> caseError \<Rightarrow> 'b httpReply" where
  "caseStateError operation err =
     (case err of
        ErrCaseNotFound _ \<Rightarrow> caseNotFound
      | ErrCaseConflict \<Rightarrow> ReplyError StatusConflict ''case_conflict'' ''case assignment is stale; reload and retry''
      | ErrInvalidCaseState \<Rightarrow>
          ReplyError StatusConflict ''invalid_case_state'' (''case is not in a valid state for '' @ operation)
      | ErrInvalidNote \<Rightarrow> ReplyError StatusBadRequest ''invalid_note'' ''body is required'')"

text \<open>The end of four of the handlers: the outcome of the service call.\<close>

definition caseOutcome ::
    "caseApiEnv \<Rightarrow> string \<Rightarrow> apiStores \<Rightarrow> (caseError + caseRec) \<times> caseState
     \<Rightarrow> casesBody httpReply option \<times> apiStores" where
  "caseOutcome env operation s outcome =
     (case outcome of
        (Inl err, cases) \<Rightarrow> (Some (caseStateError operation err), s\<lparr>api_Cases := cases\<rparr>)
      | (Inr item, cases) \<Rightarrow> (Some (caseReply env StatusOK item), s\<lparr>api_Cases := cases\<rparr>))"

definition handleCloseCase ::
    "caseApiEnv \<Rightarrow> httpRequest \<Rightarrow> string \<Rightarrow> apiStores \<Rightarrow> casesBody httpReply option \<times> apiStores" where
  "handleCloseCase env r caseID s =
     (case openCaseAction r caseID (api_Cases s) of
        Inl reply \<Rightarrow> (Some reply, s)
      | Inr item \<Rightarrow>
        (case cae_DecodeClose env (hrq_Body r) of
           None \<Rightarrow> (Some invalidJSON, s)
         | Some closedBy \<Rightarrow>
             caseOutcome env ''close'' s
               (CloseCase (cae_Now env) caseID closedBy (cae_Others env (api_Cases s)))))"

definition handleAssignCase ::
    "caseApiEnv \<Rightarrow> httpRequest \<Rightarrow> string \<Rightarrow> apiStores \<Rightarrow> casesBody httpReply option \<times> apiStores" where
  "handleAssignCase env r caseID s =
     (case openCaseAction r caseID (api_Cases s) of
        Inl reply \<Rightarrow> (Some reply, s)
      | Inr item \<Rightarrow>
        (case cae_DecodeAssign env (hrq_Body r) of
           None \<Rightarrow> (Some invalidJSON, s)
         | Some assignedTo \<Rightarrow>
             if trimSpace assignedTo = []
             then (Some (ReplyError StatusBadRequest ''invalid_case'' ''assigned_to is required''), s)
             else caseOutcome env ''assign'' s
                    (AssignCase (cae_Now env) item assignedTo (cae_Others env (api_Cases s)))))"

definition handleUnassignCase ::
    "caseApiEnv \<Rightarrow> httpRequest \<Rightarrow> string \<Rightarrow> apiStores \<Rightarrow> casesBody httpReply option \<times> apiStores" where
  "handleUnassignCase env r caseID s =
     (case openCaseAction r caseID (api_Cases s) of
        Inl reply \<Rightarrow> (Some reply, s)
      | Inr item \<Rightarrow>
        (case cae_DecodeUnassign env (hrq_Body r) of
           None \<Rightarrow> (Some invalidJSON, s)
         | Some unassignedBy \<Rightarrow>
             caseOutcome env ''unassign'' s
               (UnassignCase (cae_Now env) item unassignedBy (cae_Others env (api_Cases s)))))"

definition handleReopenCase ::
    "caseApiEnv \<Rightarrow> httpRequest \<Rightarrow> string \<Rightarrow> apiStores \<Rightarrow> casesBody httpReply option \<times> apiStores" where
  "handleReopenCase env r caseID s =
     (case openCaseAction r caseID (api_Cases s) of
        Inl reply \<Rightarrow> (Some reply, s)
      | Inr item \<Rightarrow>
        (case cae_DecodeReopen env (hrq_Body r) of
           None \<Rightarrow> (Some invalidJSON, s)
         | Some reopenedBy \<Rightarrow>
             caseOutcome env ''reopen'' s
               (ReopenCase (cae_Now env) caseID reopenedBy (cae_Others env (api_Cases s)))))"

definition handleAddCaseNote ::
    "caseApiEnv \<Rightarrow> httpRequest \<Rightarrow> string \<Rightarrow> apiStores \<Rightarrow> casesBody httpReply option \<times> apiStores" where
  "handleAddCaseNote env r caseID s =
     (case openCaseAction r caseID (api_Cases s) of
        Inl reply \<Rightarrow> (Some reply, s)
      | Inr item \<Rightarrow>
        (case cae_DecodeNote env (hrq_Body r) of
           None \<Rightarrow> (Some invalidJSON, s)
         | Some req \<Rightarrow>
           (case AddNote (cae_Now env) item (cnr_Body req) (cnr_CreatedBy req) (cae_Others env (api_Cases s)) of
              (Inl err, cases) \<Rightarrow> (Some (caseStateError ''note'' err), s\<lparr>api_Cases := cases\<rparr>)
            | (Inr n, cases) \<Rightarrow>
                (Some (ReplyJSON StatusCreated (CaseNoteBody (newCaseNoteResponse (cae_FormatTime env) n))),
                 s\<lparr>api_Cases := cases\<rparr>))))"

definition handleGetCase ::
    "caseApiEnv \<Rightarrow> httpRequest \<Rightarrow> string \<Rightarrow> apiStores \<Rightarrow> casesBody httpReply option \<times> apiStores" where
  "handleGetCase env r caseID s =
     (if hrq_Method r \<noteq> MethodGet then (Some methodNotAllowed, s)
      else if pathID caseID = None then (Some notFound, s)
      else case tenantCase r caseID (api_Cases s) of
             Inl reply \<Rightarrow> (Some reply, s)
           | Inr item \<Rightarrow>
             (case ListNotes caseID 20 (api_Cases s) of
                Inl err \<Rightarrow>
                  (Some (ReplyError StatusInternalServerError ''case_notes_failed''
                           (''case not found: '' @ caseID)), s)
              | Inr notes \<Rightarrow>
                  (Some (ReplyJSON StatusOK (CaseBody (newCaseResponse (cae_FormatTime env) item notes))), s)))"

text \<open>The identifier in front of an action.\<close>

definition caseIDBefore :: "string \<Rightarrow> string \<Rightarrow> string" where
  "caseIDBefore action path = trimSuffix (trimSuffix path action) ''/''"

definition handleCaseByID ::
    "caseApiEnv \<Rightarrow> httpRequest \<Rightarrow> apiStores \<Rightarrow> casesBody httpReply option \<times> apiStores" where
  "handleCaseByID env r s =
     (let path = trimPrefix (hrq_Path r) ''/api/v1/cases/'' in
      if path = [] then (Some notFound, s)
      else if hasSuffix path ''/close'' then handleCloseCase env r (caseIDBefore ''/close'' path) s
      else if hasSuffix path ''/assign'' then handleAssignCase env r (caseIDBefore ''/assign'' path) s
      else if hasSuffix path ''/unassign'' then handleUnassignCase env r (caseIDBefore ''/unassign'' path) s
      else if hasSuffix path ''/reopen'' then handleReopenCase env r (caseIDBefore ''/reopen'' path) s
      else if hasSuffix path ''/notes'' then handleAddCaseNote env r (caseIDBefore ''/notes'' path) s
      else handleGetCase env r path s)"

end
