(* ===== verification/Http_Views.thy ===== *)
theory Http_Views
  imports Http_Cases Http_Tasks
begin

text \<open>
  The endpoints that show reports, versions and traces (\<open>app/httpapi/reports.go\<close>, \<open>versions.go\<close>,
  \<open>traces.go\<close>).  \<open>vae_Keys\<close> is the order of the map that a list iterates over, \<open>vae_ParseJSON\<close>
  compares metadata and \<open>vae_MetadataTexts\<close> reads the string members of a metadata object.
\<close>

record 'j viewApiEnv =
  vae_FormatTime :: "time \<Rightarrow> string"
  vae_Keys :: "string list"
  vae_ParseJSON :: "string \<Rightarrow> 'j option"
  vae_MetadataTexts :: "string \<Rightarrow> (string \<rightharpoonup> string) option"

subsection \<open>Reports\<close>

record reportResponse =
  rrs_ReportID :: string
  rrs_TenantID :: string
  rrs_SourceTaskID :: string
  rrs_VersionID :: string
  rrs_ReportType :: string
  rrs_Status :: string
  rrs_Title :: string
  rrs_Summary :: string
  rrs_ContentURI :: string
  rrs_Metadata :: string
  rrs_CreatedBy :: string
  rrs_CreatedAt :: string
  rrs_ReadyAt :: string

record reportComparisonResponse =
  rcr_Left :: reportResponse
  rcr_Right :: reportResponse
  rcr_Summary :: comparisonSummary

datatype reportsBody =
    ReportBody reportResponse
  | ReportsBody "reportResponse listBody"
  | ReportComparisonBody reportComparisonResponse

definition newReportResponse :: "(time \<Rightarrow> string) \<Rightarrow> reportRec \<Rightarrow> reportResponse" where
  "newReportResponse formatTime item =
     \<lparr>rrs_ReportID = rpt_ID item, rrs_TenantID = rpt_TenantID item, rrs_SourceTaskID = rpt_SourceTaskID item,
      rrs_VersionID = rpt_VersionID item, rrs_ReportType = rpt_ReportType item, rrs_Status = rpt_Status item,
      rrs_Title = rpt_Title item, rrs_Summary = rpt_Summary item, rrs_ContentURI = rpt_ContentURI item,
      rrs_Metadata = rpt_MetadataJSON item, rrs_CreatedBy = rpt_CreatedBy item,
      rrs_CreatedAt = formatTime (rpt_CreatedAt item),
      rrs_ReadyAt = (case rpt_ReadyAt item of None \<Rightarrow> [] | Some t \<Rightarrow> formatTime t)\<rparr>"

definition parseReportListFilter :: "httpRequest \<Rightarrow> string + reportFilter" where
  "parseReportListFilter r =
     andThen (parseLimit r) (\<lambda>limit.
     andThen (parseOffset r) (\<lambda>offset.
       let status = hrq_Query r ''status''; reportType = hrq_Query r ''report_type'' in
       if status \<noteq> [] \<and> status \<noteq> StatusReady then Inl ''status must be ready''
       else if reportType \<noteq> [] \<and> reportType \<noteq> TypeWorkflowSummary
       then Inl ''report_type must be workflow_summary''
       else Inr \<lparr>rf_TenantID = hrq_Query r ''tenant_id'', rf_Status = status, rf_ReportType = reportType,
                 rf_SourceTaskID = hrq_Query r ''source_task_id'', rf_Limit = limit, rf_Offset = offset\<rparr>))"

definition handleReports :: "'j viewApiEnv \<Rightarrow> httpRequest \<Rightarrow> reportStore \<Rightarrow> reportsBody httpReply option" where
  "handleReports env r s =
     (if hrq_Method r \<noteq> MethodGet then Some methodNotAllowed
      else case parseReportListFilter r of
             Inl message \<Rightarrow> Some (invalidQuery message)
           | Inr f \<Rightarrow>
               map_option (\<lambda>page. ReplyJSON StatusOK (ReportsBody (listBodyOf (newReportResponse (vae_FormatTime env)) page)))
                 (ListReports (vae_Keys env) f s))"

abbreviation (input) reportNotFound :: "'b httpReply" where
  "reportNotFound \<equiv> ReplyError StatusNotFound ''report_not_found'' ''report not found''"

definition handleReportCompare :: "'j viewApiEnv \<Rightarrow> httpRequest \<Rightarrow> reportStore \<Rightarrow> reportsBody httpReply" where
  "handleReportCompare env r s =
     (let left = hrq_Query r ''left_report_id''; right = hrq_Query r ''right_report_id'' in
      if hrq_Method r \<noteq> MethodGet then methodNotAllowed
      else if left = [] then invalidQuery ''left_report_id is required''
      else if right = [] then invalidQuery ''right_report_id is required''
      else case CompareReports (vae_ParseJSON env) left right s of
             Inl (ErrReportNotFound _) \<Rightarrow> reportNotFound
           | Inl ErrLeftRequired \<Rightarrow>
               ReplyError StatusInternalServerError ''report_compare_failed'' ''left_report_id is required''
           | Inl ErrRightRequired \<Rightarrow>
               ReplyError StatusInternalServerError ''report_compare_failed'' ''right_report_id is required''
           | Inr c \<Rightarrow>
               ReplyJSON StatusOK (ReportComparisonBody
                 \<lparr>rcr_Left = newReportResponse (vae_FormatTime env) (cmp_Left c),
                  rcr_Right = newReportResponse (vae_FormatTime env) (cmp_Right c), rcr_Summary = cmp_Summary c\<rparr>))"

definition handleReportByID :: "'j viewApiEnv \<Rightarrow> httpRequest \<Rightarrow> reportStore \<Rightarrow> reportsBody httpReply" where
  "handleReportByID env r s =
     (if hrq_Method r \<noteq> MethodGet then methodNotAllowed
      else case pathID (trimPrefix (hrq_Path r) ''/api/v1/reports/'') of
             None \<Rightarrow> notFound
           | Some reportID \<Rightarrow>
               (case report_Get reportID s of
                  Inl err \<Rightarrow> reportNotFound
                | Inr item \<Rightarrow> ReplyJSON StatusOK (ReportBody (newReportResponse (vae_FormatTime env) item))))"

subsection \<open>Versions\<close>

record versionResponse =
  vrs_VersionID :: string
  vrs_RuntimeVersion :: string
  vrs_Provider :: string
  vrs_Model :: string
  vrs_PromptBundle :: string
  vrs_PlannerVersion :: string
  vrs_RetrievalVersion :: string
  vrs_ToolRegistryVersion :: string
  vrs_CriticVersion :: string
  vrs_WorkflowVersion :: string
  vrs_Notes :: string
  vrs_CreatedAt :: string

datatype versionsBody = VersionBody versionResponse | VersionsBody "versionResponse listBody"

definition newVersionResponse :: "(time \<Rightarrow> string) \<Rightarrow> runtimeVersion \<Rightarrow> versionResponse" where
  "newVersionResponse formatTime item =
     \<lparr>vrs_VersionID = ver_ID item, vrs_RuntimeVersion = ver_RuntimeVersion item, vrs_Provider = ver_Provider item,
      vrs_Model = ver_Model item, vrs_PromptBundle = ver_PromptBundle item,
      vrs_PlannerVersion = ver_PlannerVersion item, vrs_RetrievalVersion = ver_RetrievalVersion item,
      vrs_ToolRegistryVersion = ver_ToolRegistryVersion item, vrs_CriticVersion = ver_CriticVersion item,
      vrs_WorkflowVersion = ver_WorkflowVersion item, vrs_Notes = ver_Notes item,
      vrs_CreatedAt = formatTime (ver_CreatedAt item)\<rparr>"

definition parseVersionListFilter :: "httpRequest \<Rightarrow> string + versionFilter" where
  "parseVersionListFilter r =
     andThen (parseLimit r) (\<lambda>limit.
     andThen (parseOffset r) (\<lambda>offset. Inr \<lparr>vf_Limit = limit, vf_Offset = offset\<rparr>))"

text \<open>Listing and reading put the built-in version into the store.\<close>

definition handleVersions ::
    "'j viewApiEnv \<Rightarrow> httpRequest \<Rightarrow> versionStore \<Rightarrow> versionsBody httpReply option \<times> versionStore" where
  "handleVersions env r s =
     (if hrq_Method r \<noteq> MethodGet then (Some methodNotAllowed, s)
      else case parseVersionListFilter r of
             Inl message \<Rightarrow> (Some (invalidQuery message), s)
           | Inr f \<Rightarrow>
               (let (page, s') = ListVersions (vae_Keys env) f s
                in (map_option (\<lambda>p. ReplyJSON StatusOK (VersionsBody (listBodyOf (newVersionResponse (vae_FormatTime env)) p)))
                      page, s')))"

definition handleVersionByID ::
    "'j viewApiEnv \<Rightarrow> httpRequest \<Rightarrow> versionStore \<Rightarrow> versionsBody httpReply \<times> versionStore" where
  "handleVersionByID env r s =
     (if hrq_Method r \<noteq> MethodGet then (methodNotAllowed, s)
      else case pathID (trimPrefix (hrq_Path r) ''/api/v1/versions/'') of
             None \<Rightarrow> (notFound, s)
           | Some versionID \<Rightarrow>
               (case GetVersion versionID s of
                  (Inl err, s') \<Rightarrow> (ReplyError StatusNotFound ''version_not_found'' ''version not found'', s')
                | (Inr item, s') \<Rightarrow>
                    (ReplyJSON StatusOK (VersionBody (newVersionResponse (vae_FormatTime env) item)), s')))"

subsection \<open>Traces\<close>

definition caseErrorText :: "caseError \<Rightarrow> string" where
  "caseErrorText err =
     (case err of ErrCaseNotFound i \<Rightarrow> ''case not found: '' @ i
                | ErrInvalidCaseState \<Rightarrow> ''invalid case state''
                | ErrCaseConflict \<Rightarrow> ''case conflict''
                | ErrInvalidNote \<Rightarrow> ''invalid case note'')"

text \<open>The trace lookups over the stores of the API.\<close>

definition traceReadersOf :: "(string \<Rightarrow> (string \<rightharpoonup> string) option) \<Rightarrow> apiStores \<Rightarrow> traceReaders" where
  "traceReadersOf metadataTexts s =
     \<lparr>trd_GetTask = (\<lambda>i. map_sum workflowErrorText id (GetTask i (ws_store (api_Workflows s)))),
      trd_GetReport = (\<lambda>i. map_sum reportErrorText id (report_Get i (api_Reports s))),
      trd_GetCase = (\<lambda>i. map_sum caseErrorText id (case_Get i (api_Cases s))),
      trd_parse = metadataTexts\<rparr>"

text \<open>
  The body of the reply has the members of the result.  The readers fail only where a record is
  missing.
\<close>

definition handleTraceDrilldown :: "'j viewApiEnv \<Rightarrow> httpRequest \<Rightarrow> apiStores \<Rightarrow> traceResult httpReply" where
  "handleTraceDrilldown env r s =
     (if hrq_Method r \<noteq> MethodGet then methodNotAllowed
      else case trace_Lookup (traceReadersOf (vae_MetadataTexts env) s)
                  \<lparr>li_TaskID = hrq_Query r ''task_id'', li_ReportID = hrq_Query r ''report_id'',
                   li_CaseID = hrq_Query r ''case_id''\<rparr> of
             Inl ErrInvalidLookup \<Rightarrow>
               invalidQuery ''invalid trace drill-down lookup: exactly one of task_id, report_id, case_id is required''
           | Inl (ErrReader _) \<Rightarrow> ReplyError StatusNotFound ''trace_subject_not_found'' ''trace subject not found''
           | Inr result \<Rightarrow> ReplyJSON StatusOK result)"

end
