(* ===== verification/Http_Evals.thy ===== *)
theory Http_Evals
  imports Http_Views
begin

text \<open>
  The endpoints of eval cases (\<open>app/httpapi/eval_cases.go\<close>), and what the endpoints of the
  evaluation share: their environment and the actions that a reply offers for the cases that
  follow an eval case up.

  JSON, the two directions of textual times and numbers, the clock and what other requests do in
  between are parameters.  The map orders carry a label that names the call.  The memory stores
  have no errors besides the ones below.
\<close>

subsection \<open>The environment\<close>

record createEvalCaseRequest =
  cec_TenantID :: string
  cec_SourceCaseID :: string
  cec_OperatorNote :: string
  cec_CreatedBy :: string

record createEvalDatasetRequest =
  ced_TenantID :: string
  ced_Name :: string
  ced_Description :: string
  ced_EvalCaseIDs :: "string list"
  ced_CreatedBy :: string

record addEvalDatasetItemRequest =
  aed_TenantID :: string
  aed_EvalCaseID :: string

record publishEvalDatasetRequest =
  ped_TenantID :: string
  ped_PublishedBy :: string

record createEvalRunRequest =
  cer_TenantID :: string
  cer_DatasetID :: string
  cer_CreatedBy :: string

text \<open>
  \<open>eae_MaxCap\<close> is the largest capacity that \<open>make\<close> accepts for a slice of rows and
  \<open>eae_EvalCaseCap\<close> for one of eval cases, \<open>eae_VersionIDs\<close>
  the array \<open>version_ids\<close> of a JSON object with the elements that are strings.
\<close>

record 'j evalApiEnv =
  eae_Now :: time
  eae_Created :: time
  eae_FormatTime :: "time \<Rightarrow> string"
  eae_FormatScore :: "real \<Rightarrow> string"
  eae_ParseFloat :: "string \<Rightarrow> real option"
  eae_ParseJSON :: "string \<Rightarrow> 'j option"
  eae_ParseTexts :: "string \<Rightarrow> (string \<rightharpoonup> string) option"
  eae_VersionIDs :: "string \<Rightarrow> string option list"
  eae_CaseKeys :: "string \<Rightarrow> string list"
  eae_EvalKeys :: "string \<Rightarrow> int \<Rightarrow> string list"
  eae_Others :: "evalStore \<Rightarrow> evalStore"
  eae_Runs :: "unit runService"
  eae_MaxCap :: int
  eae_EvalCaseCap :: int
  eae_DecodeEvalCase :: "string \<Rightarrow> createEvalCaseRequest option"
  eae_DecodeDataset :: "string \<Rightarrow> createEvalDatasetRequest option"
  eae_DecodeItem :: "string \<Rightarrow> addEvalDatasetItemRequest option"
  eae_DecodePublish :: "string \<Rightarrow> publishEvalDatasetRequest option"
  eae_DecodeRun :: "string \<Rightarrow> createEvalRunRequest option"

text \<open>The readers that the eval case service gets of the case service and the traces.\<close>

definition evalDepsOf :: "'j evalApiEnv \<Rightarrow> apiStores \<Rightarrow> evalCaseDeps" where
  "evalDepsOf env s =
     \<lparr>evd_GetCase = (\<lambda>i. map_sum caseErrorText id (case_Get i (api_Cases s))),
      evd_Summaries = Some (\<lambda>tenantID ids.
        Inr (SummarizeBySourceEvalCaseIDs (eae_CaseKeys env ''eval cases'') tenantID ids (api_Cases s))),
      evd_Traces = Some (\<lambda>input. trace_Lookup (traceReadersOf (eae_ParseTexts env) s) input)\<rparr>"

abbreviation (input) evalStoreOf :: "apiStores \<Rightarrow> evalStore" where
  "evalStoreOf s \<equiv> evl_Store (api_Evals s)"

abbreviation (input) withEvalStore :: "evalStore \<Rightarrow> apiStores \<Rightarrow> apiStores" where
  "withEvalStore st s \<equiv> s\<lparr>api_Evals := (api_Evals s)\<lparr>evl_Store := st\<rparr>\<rparr>"

text \<open>A flag that must be written out, and one that is parsed; an absent flag is \<open>None\<close>.\<close>

definition parseStrictFlag :: "httpRequest \<Rightarrow> string \<Rightarrow> string + bool option" where
  "parseStrictFlag r name =
     (let raw = queryParam r name in
      if raw = [] then Inr None
      else if raw = ''true'' then Inr (Some True)
      else if raw = ''false'' then Inr (Some False)
      else Inl (name @ '' must be true or false''))"

definition parseLooseFlag :: "httpRequest \<Rightarrow> string \<Rightarrow> string \<Rightarrow> string + bool option" where
  "parseLooseFlag r name message =
     (let raw = queryParam r name in
      if raw = [] then Inr None
      else case parseBool raw of None \<Rightarrow> Inl (name @ message) | Some v \<Rightarrow> Inr (Some v))"

subsection \<open>The actions of an eval case\<close>

record evalCaseAction =
  eca_Mode :: string
  eca_CaseID :: string
  eca_SourceEvalCaseID :: string

text \<open>The summary of the cases behind an action.\<close>

record linkedCases =
  lks_TotalCaseCount :: int
  lks_OpenCaseCount :: int
  lks_LatestCaseID :: string
  lks_LatestCaseStatus :: string
  lks_LatestAssignedTo :: string

definition newEvalCaseLinkedCaseActionFromSummary ::
    "string \<Rightarrow> int \<Rightarrow> int \<Rightarrow> string \<Rightarrow> string \<Rightarrow> evalCaseAction" where
  "newEvalCaseLinkedCaseActionFromSummary evalCaseID caseCount openCount latestID latestStatus =
     (let action = \<lparr>eca_Mode = ''none'', eca_CaseID = [], eca_SourceEvalCaseID = evalCaseID\<rparr> in
      if caseCount \<le> 0 then action
      else if openCount > 0 \<and> latestID \<noteq> [] \<and> latestStatus = CaseStatusOpen
      then action\<lparr>eca_Mode := ''open_existing_case'', eca_CaseID := latestID\<rparr>
      else action\<lparr>eca_Mode := ''open_existing_queue''\<rparr>)"

definition newEvalCaseFollowUpActionFromSummary :: "string \<Rightarrow> int \<Rightarrow> string \<Rightarrow> evalCaseAction" where
  "newEvalCaseFollowUpActionFromSummary evalCaseID openCount latestID =
     (let action = \<lparr>eca_Mode = ''create'', eca_CaseID = [], eca_SourceEvalCaseID = evalCaseID\<rparr> in
      if openCount \<le> 0 then action
      else if latestID \<noteq> [] then action\<lparr>eca_Mode := ''open_existing_case'', eca_CaseID := latestID\<rparr>
      else action\<lparr>eca_Mode := ''open_existing_queue''\<rparr>)"

definition newEvalCaseFollowUpAction :: "evalCase \<Rightarrow> evalCaseAction" where
  "newEvalCaseFollowUpAction item =
     newEvalCaseFollowUpActionFromSummary (evc_ID item) (evc_OpenFollowUpCaseCount item)
       (evc_LatestFollowUpCaseID item)"

definition newEvalCaseLinkedCaseAction :: "evalCase \<Rightarrow> evalCaseAction" where
  "newEvalCaseLinkedCaseAction item =
     newEvalCaseLinkedCaseActionFromSummary (evc_ID item) (evc_FollowUpCaseCount item)
       (evc_OpenFollowUpCaseCount item) (evc_LatestFollowUpCaseID item) (evc_LatestFollowUpCaseStatus item)"

definition newEvalCasePrimaryAction :: "evalCase \<Rightarrow> evalCaseAction" where
  "newEvalCasePrimaryAction item =
     (let linkedAction = newEvalCaseLinkedCaseAction item in
      if eca_Mode linkedAction \<noteq> ''none'' then linkedAction else newEvalCaseFollowUpAction item)"

text \<open>A link to a record where its identifier is known.\<close>

definition linkTo :: "string \<Rightarrow> string \<Rightarrow> modeLink" where
  "linkTo mode i = (if i \<noteq> [] then \<lparr>lnk_Mode = mode, lnk_ID = i\<rparr> else \<lparr>lnk_Mode = ''none'', lnk_ID = []\<rparr>)"

definition evalCaseSourceCaseProvenance :: "string \<Rightarrow> modeLink" where
  "evalCaseSourceCaseProvenance i = linkTo ''open'' i"

definition evalCaseSourceReportProvenance :: "string \<Rightarrow> modeLink" where
  "evalCaseSourceReportProvenance i = linkTo ''open_api'' i"

definition evalCaseSourceTaskProvenance :: "string \<Rightarrow> modeLink" where
  "evalCaseSourceTaskProvenance i = linkTo ''open_api'' i"

definition evalCaseTraceProvenance :: "string \<Rightarrow> modeLink" where
  "evalCaseTraceProvenance i = linkTo ''open'' i"

definition evalCaseVersionProvenance :: "string \<Rightarrow> modeLink" where
  "evalCaseVersionProvenance i = linkTo ''open'' i"

definition evalCaseFollowUpSliceAction :: "string \<Rightarrow> modeLink" where
  "evalCaseFollowUpSliceAction i = linkTo ''open'' i"

subsection \<open>The response of an eval case\<close>

record evalCaseResponse =
  ecr_EvalCaseID :: string
  ecr_TenantID :: string
  ecr_SourceCaseID :: string
  ecr_SourceTaskID :: string
  ecr_SourceReportID :: string
  ecr_FollowUpCaseCount :: int
  ecr_OpenFollowUpCaseCount :: int
  ecr_LatestFollowUpCaseID :: string
  ecr_LatestFollowUpCaseStatus :: string
  ecr_LinkedCaseSummary :: linkedCases
  ecr_PreferredFollowUpAction :: evalCaseAction
  ecr_PreferredPrimaryAction :: evalCaseAction
  ecr_PreferredLinkedCaseAction :: evalCaseAction
  ecr_PreferredSourceCaseProvenance :: modeLink
  ecr_PreferredSourceReportProvenance :: modeLink
  ecr_PreferredSourceTaskProvenance :: modeLink
  ecr_PreferredTraceProvenance :: modeLink
  ecr_PreferredVersionProvenance :: modeLink
  ecr_PreferredFollowUpSliceAction :: modeLink
  ecr_TraceID :: string
  ecr_VersionID :: string
  ecr_Title :: string
  ecr_Summary :: string
  ecr_OperatorNote :: string
  ecr_CreatedBy :: string
  ecr_CreatedAt :: string

datatype evalCasesBody = EvalCaseBody evalCaseResponse | EvalCasesBody "evalCaseResponse listBody"

definition newEvalCaseResponse :: "(time \<Rightarrow> string) \<Rightarrow> evalCase \<Rightarrow> evalCaseResponse" where
  "newEvalCaseResponse formatTime item =
     \<lparr>ecr_EvalCaseID = evc_ID item, ecr_TenantID = evc_TenantID item, ecr_SourceCaseID = evc_SourceCaseID item,
      ecr_SourceTaskID = evc_SourceTaskID item, ecr_SourceReportID = evc_SourceReportID item,
      ecr_FollowUpCaseCount = evc_FollowUpCaseCount item,
      ecr_OpenFollowUpCaseCount = evc_OpenFollowUpCaseCount item,
      ecr_LatestFollowUpCaseID = evc_LatestFollowUpCaseID item,
      ecr_LatestFollowUpCaseStatus = evc_LatestFollowUpCaseStatus item,
      ecr_LinkedCaseSummary = \<lparr>lks_TotalCaseCount = evc_FollowUpCaseCount item,
        lks_OpenCaseCount = evc_OpenFollowUpCaseCount item, lks_LatestCaseID = evc_LatestFollowUpCaseID item,
        lks_LatestCaseStatus = evc_LatestFollowUpCaseStatus item, lks_LatestAssignedTo = []\<rparr>,
      ecr_PreferredFollowUpAction = newEvalCaseFollowUpAction item,
      ecr_PreferredPrimaryAction = newEvalCasePrimaryAction item,
      ecr_PreferredLinkedCaseAction = newEvalCaseLinkedCaseAction item,
      ecr_PreferredSourceCaseProvenance = evalCaseSourceCaseProvenance (evc_SourceCaseID item),
      ecr_PreferredSourceReportProvenance = evalCaseSourceReportProvenance (evc_SourceReportID item),
      ecr_PreferredSourceTaskProvenance = evalCaseSourceTaskProvenance (evc_SourceTaskID item),
      ecr_PreferredTraceProvenance = evalCaseTraceProvenance (evc_TraceID item),
      ecr_PreferredVersionProvenance = evalCaseVersionProvenance (evc_VersionID item),
      ecr_PreferredFollowUpSliceAction = evalCaseFollowUpSliceAction (evc_ID item),
      ecr_TraceID = evc_TraceID item, ecr_VersionID = evc_VersionID item, ecr_Title = evc_Title item,
      ecr_Summary = evc_Summary item, ecr_OperatorNote = evc_OperatorNote item,
      ecr_CreatedBy = evc_CreatedBy item, ecr_CreatedAt = formatTime (evc_CreatedAt item)\<rparr>"

subsection \<open>The handlers\<close>

definition parseEvalCaseListFilter :: "httpRequest \<Rightarrow> string + evalCaseFilter" where
  "parseEvalCaseListFilter r =
     (if queryParam r ''tenant_id'' = [] then Inl ''tenant_id is required''
      else
        andThen (limitFrom (queryParam r ''limit'')) (\<lambda>limit.
        andThen (offsetFrom (queryParam r ''offset'')) (\<lambda>offset.
        andThen (parseLooseFlag r ''needs_follow_up'' '' must be a boolean'') (\<lambda>needsFollowUp.
          Inr \<lparr>ecf_TenantID = queryParam r ''tenant_id'', ecf_SourceCaseID = queryParam r ''source_case_id'',
               ecf_SourceTaskID = queryParam r ''source_task_id'',
               ecf_SourceReportID = queryParam r ''source_report_id'', ecf_VersionID = queryParam r ''version_id'',
               ecf_NeedsFollowUp = needsFollowUp, ecf_Limit = limit, ecf_Offset = offset\<rparr>))))"

text \<open>A list that panics, or a loop over its pages that does not return, is \<open>None\<close>.\<close>

definition handleListEvalCases ::
    "'j evalApiEnv \<Rightarrow> httpRequest \<Rightarrow> apiStores \<Rightarrow> evalCasesBody httpReply option" where
  "handleListEvalCases env r s =
     (case parseEvalCaseListFilter r of
        Inl message \<Rightarrow> Some (invalidQuery message)
      | Inr f \<Rightarrow>
          map_option (\<lambda>result.
            case result of
              Inl err \<Rightarrow> ReplyError StatusInternalServerError ''eval_case_list_failed'' (evalErrorText err)
            | Inr page \<Rightarrow>
                ReplyJSON StatusOK (EvalCasesBody (listBodyOf (newEvalCaseResponse (eae_FormatTime env)) page)))
            (ListEvalCases (eae_EvalCaseCap env) (evalDepsOf env s) (eae_EvalKeys env ''eval cases'') f (evalStoreOf s)))"

text \<open>
  The error of a promotion that is not one of the eval store comes from the lookup of the source
  case, which fails only for a missing case.
\<close>

definition handleCreateEvalCase ::
    "'j evalApiEnv \<Rightarrow> httpRequest \<Rightarrow> apiStores \<Rightarrow> evalCasesBody httpReply \<times> apiStores" where
  "handleCreateEvalCase env r s =
     (case eae_DecodeEvalCase env (hrq_Body r) of
        None \<Rightarrow> (invalidJSON, s)
      | Some req \<Rightarrow>
          if trimSpace (cec_TenantID req) = [] \<or> trimSpace (cec_SourceCaseID req) = []
          then (ReplyError StatusBadRequest ''invalid_eval_case'' ''tenant_id and source_case_id are required'', s)
          else
            let (result, st) = PromoteCase (evalDepsOf env s) (eae_Now env) (eae_Created env) (eae_Others env)
                  \<lparr>eci_TenantID = trimSpace (cec_TenantID req), eci_SourceCaseID = trimSpace (cec_SourceCaseID req),
                   eci_OperatorNote = cec_OperatorNote req, eci_CreatedBy = cec_CreatedBy req\<rparr> (api_Evals s)
            in ((case result of
                   Inl ErrInvalidSource \<Rightarrow>
                     ReplyError StatusConflict ''invalid_eval_case_source'' ''source case does not belong to tenant scope''
                 | Inl (EvalOther _) \<Rightarrow> ReplyError StatusNotFound ''case_not_found'' ''case not found''
                 | Inl err \<Rightarrow> ReplyError StatusInternalServerError ''eval_case_create_failed'' (evalErrorText err)
                 | Inr (item, created) \<Rightarrow>
                     ReplyJSON (if created then StatusCreated else StatusOK)
                       (EvalCaseBody (newEvalCaseResponse (eae_FormatTime env) item))),
                s\<lparr>api_Evals := st\<rparr>))"

definition handleEvalCases ::
    "'j evalApiEnv \<Rightarrow> httpRequest \<Rightarrow> apiStores \<Rightarrow> evalCasesBody httpReply option \<times> apiStores" where
  "handleEvalCases env r s =
     (if hrq_Method r = MethodGet then (handleListEvalCases env r s, s)
      else if hrq_Method r = MethodPost
      then (let (reply, s') = handleCreateEvalCase env r s in (Some reply, s'))
      else (Some methodNotAllowed, s))"

abbreviation (input) evalCaseNotFound :: "'b httpReply" where
  "evalCaseNotFound \<equiv> ReplyError StatusNotFound ''eval_case_not_found'' ''eval case not found''"

definition handleEvalCaseByID :: "'j evalApiEnv \<Rightarrow> httpRequest \<Rightarrow> apiStores \<Rightarrow> evalCasesBody httpReply" where
  "handleEvalCaseByID env r s =
     (if hrq_Method r \<noteq> MethodGet then methodNotAllowed
      else case pathID (trimPrefix (hrq_Path r) ''/api/v1/eval-cases/'') of
        None \<Rightarrow> notFound
      | Some evalCaseID \<Rightarrow>
          if queryParam r ''tenant_id'' = [] then invalidQuery ''tenant_id is required''
          else
            (case GetEvalCase (evalDepsOf env s) evalCaseID (evalStoreOf s) of
               Inl (ErrEvalCaseNotFound _) \<Rightarrow> evalCaseNotFound
             | Inl err \<Rightarrow> ReplyError StatusInternalServerError ''eval_case_lookup_failed'' (evalErrorText err)
             | Inr item \<Rightarrow>
                 if evc_TenantID item \<noteq> queryParam r ''tenant_id'' then evalCaseNotFound
                 else ReplyJSON StatusOK (EvalCaseBody (newEvalCaseResponse (eae_FormatTime env) item))))"

end
