(* ===== verification/Http_Eval_Runs.thy ===== *)
theory Http_Eval_Runs
  imports Http_Evals
begin

text \<open>
  The endpoints of eval runs (\<open>app/httpapi/eval_runs.go\<close>): a run with its items, its results and the
  cases that follow them up, the list with its filter on open follow-ups, creation and retry.
\<close>

subsection \<open>Responses\<close>

record runAction =
  rac_Mode :: string
  rac_CaseID :: string
  rac_RunID :: string
  rac_ReportID :: string

record runLinkedAction =
  rla_Mode :: string
  rla_CaseID :: string
  rla_RunID :: string

record evalRunEventResponse =
  rer_ID :: int
  rer_Action :: string
  rer_Actor :: string
  rer_Detail :: string
  rer_CreatedAt :: string

text \<open>What an item and a result say of the cases behind their eval case, and where it comes from.\<close>

record itemLinks =
  ilk_LatestFollowUpCaseID :: string
  ilk_LinkedCaseSummary :: linkedCases
  ilk_PreferredFollowUpAction :: evalCaseAction
  ilk_PreferredPrimaryAction :: evalCaseAction
  ilk_PreferredLinkedCaseAction :: evalCaseAction
  ilk_PreferredSourceCaseProvenance :: modeLink
  ilk_PreferredSourceReportProvenance :: modeLink
  ilk_PreferredSourceTaskProvenance :: modeLink
  ilk_PreferredTraceProvenance :: modeLink
  ilk_PreferredVersionProvenance :: modeLink
  ilk_PreferredEvalProvenance :: modeLink
  ilk_PreferredFollowUpSliceAction :: modeLink

record evalRunItemResponse =
  rir_EvalCaseID :: string
  rir_Title :: string
  rir_SourceCaseID :: string
  rir_SourceTaskID :: string
  rir_SourceReportID :: string
  rir_TraceID :: string
  rir_VersionID :: string
  rir_Links :: itemLinks

record evalRunItemResultResponse =
  rrr_EvalCaseID :: string
  rrr_Status :: string
  rrr_Verdict :: string
  rrr_Detail :: string
  rrr_Score :: real
  rrr_JudgeVersion :: string
  rrr_JudgeOutput :: string
  rrr_UpdatedAt :: string
  rrr_Links :: itemLinks

record runReportSummary =
  rrs_ReportID :: string
  rrs_ReportStatus :: string

record evalRunResponse =
  rnr_RunID :: string
  rnr_TenantID :: string
  rnr_DatasetID :: string
  rnr_DatasetName :: string
  rnr_DatasetItemCount :: int
  rnr_ResultSummary :: "runSummary option"
  rnr_ItemWithoutOpenFollowUpCount :: int
  rnr_NeedsFollowUp :: bool
  rnr_LinkedCaseSummary :: linkedCases
  rnr_PreferredPrimaryAction :: runAction
  rnr_PreferredLinkedCaseAction :: runLinkedAction
  rnr_PreferredReportLaneAction :: modeLink
  rnr_PreferredDatasetLaneAction :: modeLink
  rnr_ReportID :: string
  rnr_ReportStatus :: string
  rnr_Status :: string
  rnr_CreatedBy :: string
  rnr_ErrorReason :: string
  rnr_CreatedAt :: string
  rnr_UpdatedAt :: string
  rnr_StartedAt :: string
  rnr_FinishedAt :: string
  rnr_Events :: "evalRunEventResponse list"
  rnr_Items :: "evalRunItemResponse list"
  rnr_ItemResults :: "evalRunItemResultResponse list"

datatype evalRunsBody = EvalRunBody evalRunResponse | EvalRunsBody "evalRunResponse listBody"

subsection \<open>Actions\<close>

definition evalCaseLinkedCaseSummary :: "followUpSummary \<Rightarrow> linkedCases" where
  "evalCaseLinkedCaseSummary sm =
     \<lparr>lks_TotalCaseCount = fus_CaseCount sm, lks_OpenCaseCount = fus_OpenCaseCount sm,
      lks_LatestCaseID = fus_LatestCaseID sm, lks_LatestCaseStatus = fus_LatestCaseStatus sm,
      lks_LatestAssignedTo = []\<rparr>"

definition evalRunLinkedCaseSummary :: "runFollowUpSummary \<Rightarrow> linkedCases" where
  "evalRunLinkedCaseSummary sm =
     \<lparr>lks_TotalCaseCount = fus_CaseCount sm, lks_OpenCaseCount = fus_OpenCaseCount sm,
      lks_LatestCaseID = fus_LatestCaseID sm, lks_LatestCaseStatus = fus_LatestCaseStatus sm,
      lks_LatestAssignedTo = fus_LatestAssignedTo sm\<rparr>"

definition noLinkedCases :: linkedCases where
  "noLinkedCases =
     \<lparr>lks_TotalCaseCount = 0, lks_OpenCaseCount = 0, lks_LatestCaseID = [], lks_LatestCaseStatus = [],
      lks_LatestAssignedTo = []\<rparr>"

definition newEvalRunLinkedCaseAction :: "string \<Rightarrow> linkedCases \<Rightarrow> runLinkedAction" where
  "newEvalRunLinkedCaseAction runID linked =
     (if lks_LatestCaseID linked \<noteq> [] \<and> lks_LatestCaseStatus linked = CaseStatusOpen
      then \<lparr>rla_Mode = ''open_existing_case'', rla_CaseID = lks_LatestCaseID linked, rla_RunID = []\<rparr>
      else if runID \<noteq> [] \<and> lks_TotalCaseCount linked > 0
      then \<lparr>rla_Mode = ''open_existing_queue'', rla_CaseID = [], rla_RunID = runID\<rparr>
      else \<lparr>rla_Mode = ''none'', rla_CaseID = [], rla_RunID = []\<rparr>)"

definition newEvalRunListPrimaryAction :: "string \<Rightarrow> linkedCases \<Rightarrow> runReportSummary \<Rightarrow> runAction" where
  "newEvalRunListPrimaryAction runID linked rep =
     (let action = \<lparr>rac_Mode = ''none'', rac_CaseID = [], rac_RunID = runID, rac_ReportID = []\<rparr>;
          linkedAction = newEvalRunLinkedCaseAction runID linked
      in if rla_Mode linkedAction = ''open_existing_case'' \<and> rla_CaseID linkedAction \<noteq> []
         then action\<lparr>rac_Mode := ''open_existing_case'', rac_CaseID := rla_CaseID linkedAction\<rparr>
         else if rla_Mode linkedAction = ''open_existing_queue''
         then action\<lparr>rac_Mode := ''open_existing_queue''\<rparr>
         else if rrs_ReportID rep \<noteq> []
         then action\<lparr>rac_Mode := ''open_report'', rac_ReportID := rrs_ReportID rep\<rparr>
         else if runID \<noteq> [] then action\<lparr>rac_Mode := ''open_run''\<rparr>
         else action)"

definition newEvalRunPrimaryAction :: "string \<Rightarrow> followUpSummary \<Rightarrow> evalCaseAction" where
  "newEvalRunPrimaryAction evalCaseID sm =
     (let linkedAction = newEvalCaseLinkedCaseActionFromSummary evalCaseID (fus_CaseCount sm)
            (fus_OpenCaseCount sm) (fus_LatestCaseID sm) (fus_LatestCaseStatus sm)
      in if eca_Mode linkedAction \<noteq> ''none'' then linkedAction
         else newEvalCaseFollowUpActionFromSummary evalCaseID (fus_OpenCaseCount sm) (fus_LatestCaseID sm))"

definition runItemSourceCaseProvenance :: "string \<Rightarrow> modeLink" where
  "runItemSourceCaseProvenance i = linkTo ''open'' i"

definition runItemSourceReportProvenance :: "string \<Rightarrow> modeLink" where
  "runItemSourceReportProvenance i = linkTo ''open_api'' i"

definition runItemSourceTaskProvenance :: "string \<Rightarrow> modeLink" where
  "runItemSourceTaskProvenance i = linkTo ''open_api'' i"

definition runItemTraceProvenance :: "string \<Rightarrow> modeLink" where
  "runItemTraceProvenance i = linkTo ''open'' i"

definition runItemVersionProvenance :: "string \<Rightarrow> modeLink" where
  "runItemVersionProvenance i = linkTo ''open'' i"

definition runItemEvalProvenance :: "string \<Rightarrow> modeLink" where
  "runItemEvalProvenance i = linkTo ''open'' i"

definition runItemFollowUpSliceAction :: "string \<Rightarrow> modeLink" where
  "runItemFollowUpSliceAction i = linkTo ''open'' i"

text \<open>The lanes of reports and datasets, which \<open>eval_reports.go\<close> defines.\<close>

definition newEvalReportLaneAction :: "string \<Rightarrow> modeLink" where
  "newEvalReportLaneAction reportID = \<lparr>lnk_Mode = ''open_report'', lnk_ID = reportID\<rparr>"

definition newEvalReportLaneActionFromOptional :: "string \<Rightarrow> modeLink" where
  "newEvalReportLaneActionFromOptional reportID =
     (if reportID = [] then \<lparr>lnk_Mode = ''none'', lnk_ID = []\<rparr> else newEvalReportLaneAction reportID)"

definition newEvalDatasetLaneAction :: "string \<Rightarrow> modeLink" where
  "newEvalDatasetLaneAction datasetID = \<lparr>lnk_Mode = ''open_dataset'', lnk_ID = datasetID\<rparr>"

subsection \<open>The response of a run\<close>

definition zeroRunItem :: runItem where
  "zeroRunItem =
     \<lparr>rit_EvalCaseID = [], rit_Title = [], rit_SourceCaseID = [], rit_SourceTaskID = [],
      rit_SourceReportID = [], rit_TraceID = [], rit_VersionID = []\<rparr>"

text \<open>\<open>item\<close> gives the provenance of the eval case.\<close>

definition runItemLinks :: "string \<Rightarrow> runItem \<Rightarrow> followUpSummary \<Rightarrow> itemLinks" where
  "runItemLinks evalCaseID item sm =
     \<lparr>ilk_LatestFollowUpCaseID = fus_LatestCaseID sm,
      ilk_LinkedCaseSummary = evalCaseLinkedCaseSummary sm,
      ilk_PreferredFollowUpAction =
        newEvalCaseFollowUpActionFromSummary evalCaseID (fus_OpenCaseCount sm) (fus_LatestCaseID sm),
      ilk_PreferredPrimaryAction = newEvalRunPrimaryAction evalCaseID sm,
      ilk_PreferredLinkedCaseAction = newEvalCaseLinkedCaseActionFromSummary evalCaseID (fus_CaseCount sm)
        (fus_OpenCaseCount sm) (fus_LatestCaseID sm) (fus_LatestCaseStatus sm),
      ilk_PreferredSourceCaseProvenance = runItemSourceCaseProvenance (rit_SourceCaseID item),
      ilk_PreferredSourceReportProvenance = runItemSourceReportProvenance (rit_SourceReportID item),
      ilk_PreferredSourceTaskProvenance = runItemSourceTaskProvenance (rit_SourceTaskID item),
      ilk_PreferredTraceProvenance = runItemTraceProvenance (rit_TraceID item),
      ilk_PreferredVersionProvenance = runItemVersionProvenance (rit_VersionID item),
      ilk_PreferredEvalProvenance = runItemEvalProvenance evalCaseID,
      ilk_PreferredFollowUpSliceAction = runItemFollowUpSliceAction evalCaseID\<rparr>"

definition newEvalRunItemResponse :: "(string \<rightharpoonup> followUpSummary) \<Rightarrow> runItem \<Rightarrow> evalRunItemResponse" where
  "newEvalRunItemResponse summaries item =
     \<lparr>rir_EvalCaseID = rit_EvalCaseID item, rir_Title = rit_Title item, rir_SourceCaseID = rit_SourceCaseID item,
      rir_SourceTaskID = rit_SourceTaskID item, rir_SourceReportID = rit_SourceReportID item,
      rir_TraceID = rit_TraceID item, rir_VersionID = rit_VersionID item,
      rir_Links = runItemLinks (rit_EvalCaseID item) item (summaryAt summaries (rit_EvalCaseID item))\<rparr>"

definition newEvalRunItemResultResponse ::
    "(time \<Rightarrow> string) \<Rightarrow> (string \<rightharpoonup> followUpSummary) \<Rightarrow> (string \<rightharpoonup> runItem) \<Rightarrow> itemResult
     \<Rightarrow> evalRunItemResultResponse" where
  "newEvalRunItemResultResponse formatTime summaries items res =
     \<lparr>rrr_EvalCaseID = irs_EvalCaseID res, rrr_Status = irs_Status res, rrr_Verdict = irs_Verdict res,
      rrr_Detail = irs_Detail res, rrr_Score = irs_Score res, rrr_JudgeVersion = irs_JudgeVersion res,
      rrr_JudgeOutput = irs_JudgeOutput res, rrr_UpdatedAt = formatTime (irs_UpdatedAt res),
      rrr_Links = runItemLinks (irs_EvalCaseID res)
        (case items (irs_EvalCaseID res) of None \<Rightarrow> zeroRunItem | Some item \<Rightarrow> item)
        (summaryAt summaries (irs_EvalCaseID res))\<rparr>"

definition newEvalRunResponse ::
    "(time \<Rightarrow> string) \<Rightarrow> evalRun \<Rightarrow> runEvent list \<Rightarrow> runItem list \<Rightarrow> itemResult list
     \<Rightarrow> (string \<rightharpoonup> followUpSummary) \<Rightarrow> linkedCases \<Rightarrow> runReportSummary \<Rightarrow> int \<Rightarrow> evalRunResponse" where
  "newEvalRunResponse formatTime item events items results summaries linked rep withoutOpen =
     \<lparr>rnr_RunID = run_ID item, rnr_TenantID = run_TenantID item, rnr_DatasetID = run_DatasetID item,
      rnr_DatasetName = run_DatasetName item, rnr_DatasetItemCount = run_DatasetItemCount item,
      rnr_ResultSummary = run_ResultSummary item, rnr_ItemWithoutOpenFollowUpCount = withoutOpen,
      rnr_NeedsFollowUp = (withoutOpen > 0), rnr_LinkedCaseSummary = linked,
      rnr_PreferredPrimaryAction = newEvalRunListPrimaryAction (run_ID item) linked rep,
      rnr_PreferredLinkedCaseAction = newEvalRunLinkedCaseAction (run_ID item) linked,
      rnr_PreferredReportLaneAction = newEvalReportLaneActionFromOptional (rrs_ReportID rep),
      rnr_PreferredDatasetLaneAction = newEvalDatasetLaneAction (run_DatasetID item),
      rnr_ReportID = rrs_ReportID rep, rnr_ReportStatus = rrs_ReportStatus rep, rnr_Status = run_Status item,
      rnr_CreatedBy = run_CreatedBy item, rnr_ErrorReason = run_ErrorReason item,
      rnr_CreatedAt = formatTime (run_CreatedAt item), rnr_UpdatedAt = formatTime (run_UpdatedAt item),
      rnr_StartedAt = formatOptionalTime formatTime (run_StartedAt item),
      rnr_FinishedAt = formatOptionalTime formatTime (run_FinishedAt item),
      rnr_Events = map (\<lambda>e. \<lparr>rer_ID = rve_ID e, rer_Action = rve_Action e, rer_Actor = rve_Actor e,
        rer_Detail = rve_Detail e, rer_CreatedAt = formatTime (rve_CreatedAt e)\<rparr>) events,
      rnr_Items = map (newEvalRunItemResponse summaries) items,
      rnr_ItemResults = map (newEvalRunItemResultResponse formatTime summaries (itemByCaseID items)) results\<rparr>"

definition noReport :: runReportSummary where
  "noReport = \<lparr>rrs_ReportID = [], rrs_ReportStatus = []\<rparr>"

abbreviation (input) plainRunReply :: "'j evalApiEnv \<Rightarrow> int \<Rightarrow> evalRun \<Rightarrow> evalRunsBody httpReply" where
  "plainRunReply env status item \<equiv>
     ReplyJSON status (EvalRunBody
       (newEvalRunResponse (eae_FormatTime env) item [] [] [] Map.empty noLinkedCases noReport 0))"

subsection \<open>The cases behind a run\<close>

record runFollowUps =
  rfu_PerEvalCase :: "string \<rightharpoonup> followUpSummary"
  rfu_Run :: runFollowUpSummary
  rfu_WithoutOpen :: int

definition runSummaryAt :: "(string \<rightharpoonup> runFollowUpSummary) \<Rightarrow> string \<Rightarrow> runFollowUpSummary" where
  "runSummaryAt m k = (case m k of None \<Rightarrow> zeroRunSummary | Some x \<Rightarrow> x)"

definition failedItem :: "itemResult \<Rightarrow> bool" where
  "failedItem res \<longleftrightarrow> \<not> (irs_Status res \<noteq> RunItemResultFailed \<or> irs_EvalCaseID res = [])"

definition countWithoutOpen :: "(string \<rightharpoonup> followUpSummary) \<Rightarrow> itemResult list \<Rightarrow> int" where
  "countWithoutOpen summaries results =
     int (length (filter (\<lambda>res. failedItem res
        \<and> fus_OpenCaseCount (summaryAt summaries (irs_EvalCaseID res)) \<le> 0) results))"

definition evalRunFollowUpSummary ::
    "'j evalApiEnv \<Rightarrow> string \<Rightarrow> string \<Rightarrow> apiStores \<Rightarrow> evalError + runFollowUps" where
  "evalRunFollowUpSummary env runID tenantID s =
     (case eval_GetRunDetail runID (evalStoreOf s) of
        Inl err \<Rightarrow> Inl err
      | Inr detail \<Rightarrow>
          let results = rdt_ItemResults detail;
              evalCaseIDs = fold (\<lambda>res ids. if failedItem res then appendIfMissing ids (irs_EvalCaseID res) else ids)
                results [];
              runSummaries = SummarizeBySourceEvalRunIDs (eae_CaseKeys env (''run '' @ runID)) tenantID [runID] (api_Cases s);
              perCase = (if evalCaseIDs = [] then Map.empty
                else SummarizeBySourceEvalCaseIDs (eae_CaseKeys env (''items '' @ runID)) tenantID evalCaseIDs (api_Cases s))
          in Inr \<lparr>rfu_PerEvalCase = perCase, rfu_Run = runSummaryAt runSummaries runID,
               rfu_WithoutOpen = (if evalCaseIDs = [] then 0 else countWithoutOpen perCase results)\<rparr>)"

definition evalRunReportSummary :: "evalRun \<Rightarrow> apiStores \<Rightarrow> runReportSummary" where
  "evalRunReportSummary item s =
     (if run_Status item \<noteq> RunStatusSucceeded \<and> run_Status item \<noteq> RunStatusFailed then noReport
      else case eval_GetEvalReport (EvalReportIDFromRunID (run_ID item)) (evalStoreOf s) of
             Inl err \<Rightarrow> noReport
           | Inr rep \<Rightarrow>
               if erp_TenantID rep \<noteq> run_TenantID item then noReport
               else \<lparr>rrs_ReportID = erp_ID rep, rrs_ReportStatus = erp_Status rep\<rparr>)"

definition evalRunListRow :: "'j evalApiEnv \<Rightarrow> apiStores \<Rightarrow> evalRun \<Rightarrow> evalError + evalRunResponse" where
  "evalRunListRow env s item =
     andThen (evalRunFollowUpSummary env (run_ID item) (run_TenantID item) s) (\<lambda>sm.
       Inr (newEvalRunResponse (eae_FormatTime env) item [] [] [] Map.empty
              (evalRunLinkedCaseSummary (rfu_Run sm)) (evalRunReportSummary item s) (rfu_WithoutOpen sm)))"

fun buildEvalRunListRows :: "'j evalApiEnv \<Rightarrow> apiStores \<Rightarrow> evalRun list \<Rightarrow> evalError + evalRunResponse list" where
  "buildEvalRunListRows env s [] = Inr []"
| "buildEvalRunListRows env s (item # items) =
     andThen (evalRunListRow env s item) (\<lambda>row.
     andThen (buildEvalRunListRows env s items) (\<lambda>rows. Inr (row # rows)))"

subsection \<open>The list\<close>

definition parseEvalRunListFilter :: "httpRequest \<Rightarrow> string + runFilter \<times> bool option" where
  "parseEvalRunListFilter r =
     (let status = queryParam r ''status'' in
      if queryParam r ''tenant_id'' = [] then Inl ''tenant_id is required''
      else if status \<noteq> [] \<and> status \<noteq> RunStatusQueued \<and> status \<noteq> RunStatusRunning
           \<and> status \<noteq> RunStatusSucceeded \<and> status \<noteq> RunStatusFailed
      then Inl ''status must be queued, running, succeeded, or failed''
      else
        andThen (limitFrom (queryParam r ''limit'')) (\<lambda>limit.
        andThen (offsetFrom (queryParam r ''offset'')) (\<lambda>offset.
        andThen (parseStrictFlag r ''needs_follow_up'') (\<lambda>needsFollowUp.
          Inr (\<lparr>rnf_TenantID = queryParam r ''tenant_id'', rnf_DatasetID = queryParam r ''dataset_id'',
                rnf_Status = status, rnf_Limit = limit, rnf_Offset = offset\<rparr>, needsFollowUp)))))"

text \<open>The rows of one page: those that match are counted up to the offset and collected behind it.\<close>

fun collectRuns ::
    "bool \<Rightarrow> int \<Rightarrow> int \<Rightarrow> evalRunResponse list \<Rightarrow> int \<times> evalRunResponse list
     \<Rightarrow> (int \<times> evalRunResponse list) \<times> bool" where
  "collectRuns wanted offset limit [] acc = (acc, False)"
| "collectRuns wanted offset limit (row # rows) (matched, collected) =
     (if rnr_NeedsFollowUp row \<noteq> wanted then collectRuns wanted offset limit rows (matched, collected)
      else if matched < offset then collectRuns wanted offset limit rows (matched + 1, collected)
      else if int (length (collected @ [row])) > limit then ((matched, collected @ [row]), True)
      else collectRuns wanted offset limit rows (matched, collected @ [row]))"

partial_function (option) runScanLoop ::
    "(int \<Rightarrow> evalRun listPage option) \<Rightarrow> (evalRun list \<Rightarrow> evalError + evalRunResponse list)
     \<Rightarrow> bool \<Rightarrow> int \<Rightarrow> int \<Rightarrow> int \<Rightarrow> int \<times> evalRunResponse list
     \<Rightarrow> (evalError + (int \<times> evalRunResponse list) \<times> bool) option" where
  "runScanLoop fetch build wanted offset limit off acc =
     Option.bind (fetch off) (\<lambda>page.
       if pageItems page = [] then Some (Inr (acc, False))
       else case build (pageItems page) of
              Inl err \<Rightarrow> Some (Inl err)
            | Inr rows \<Rightarrow>
                (let (acc', more) = collectRuns wanted offset limit rows acc in
                 if more \<or> \<not> pageHasMore page then Some (Inr (acc', more))
                 else runScanLoop fetch build wanted offset limit (pageNextOffset page) acc'))"

text \<open>The slice of the collected rows is made with one place more than the limit.\<close>

definition listEvalRunsResponse ::
    "'j evalApiEnv \<Rightarrow> runFilter \<Rightarrow> bool option \<Rightarrow> apiStores
     \<Rightarrow> (evalError + evalRunResponse listBody) option" where
  "listEvalRunsResponse env f needsFollowUp s =
     (case needsFollowUp of
        None \<Rightarrow>
          map_option (\<lambda>page. map_sum id (\<lambda>rows. \<lparr>lbd_Items = rows, lbd_HasMore = pageHasMore page,
                lbd_NextOffset = (if pageHasMore page then Some (pageNextOffset page) else None)\<rparr>)
              (buildEvalRunListRows env s (pageItems page)))
            (ListRuns (eae_EvalKeys env ''runs'' (rnf_Offset f)) f (evalStoreOf s))
      | Some wanted \<Rightarrow>
          let scan = f\<lparr>rnf_Offset := 0, rnf_Limit := (if rnf_Limit f < 50 then 50 else rnf_Limit f)\<rparr>;
              capacity = goInt (rnf_Limit f + 1)
          in if capacity < 0 \<or> eae_MaxCap env < capacity then None
             else map_option (map_sum id (\<lambda>((matched, collected), more).
                    \<lparr>lbd_Items = (if int (length collected) > rnf_Limit f then take (nat (rnf_Limit f)) collected else collected),
                     lbd_HasMore = more,
                     lbd_NextOffset = (if more then Some (goInt (rnf_Offset f + rnf_Limit f)) else None)\<rparr>))
                  (runScanLoop (\<lambda>off. ListRuns (eae_EvalKeys env ''runs'' off) (scan\<lparr>rnf_Offset := off\<rparr>) (evalStoreOf s))
                     (buildEvalRunListRows env s) wanted (rnf_Offset f) (rnf_Limit f) 0 (0, [])))"

definition handleListEvalRuns :: "'j evalApiEnv \<Rightarrow> httpRequest \<Rightarrow> apiStores \<Rightarrow> evalRunsBody httpReply option" where
  "handleListEvalRuns env r s =
     (case parseEvalRunListFilter r of
        Inl message \<Rightarrow> Some (invalidQuery message)
      | Inr (f, needsFollowUp) \<Rightarrow>
          map_option (\<lambda>result.
            case result of
              Inl err \<Rightarrow> ReplyError StatusInternalServerError ''eval_run_list_failed'' (evalErrorText err)
            | Inr body \<Rightarrow> ReplyJSON StatusOK (EvalRunsBody body))
            (listEvalRunsResponse env f needsFollowUp s))"

subsection \<open>One run\<close>

abbreviation (input) evalRunNotFound :: "'b httpReply" where
  "evalRunNotFound \<equiv> ReplyError StatusNotFound ''eval_run_not_found'' ''eval run not found''"

definition writeEvalRunDetailResponse ::
    "'j evalApiEnv \<Rightarrow> string \<Rightarrow> string \<Rightarrow> int \<Rightarrow> apiStores \<Rightarrow> evalRunsBody httpReply" where
  "writeEvalRunDetailResponse env runID tenantID status s =
     (case eval_GetRunDetail runID (evalStoreOf s) of
        Inl err \<Rightarrow> evalRunNotFound
      | Inr detail \<Rightarrow>
          if run_TenantID (rdt_Run detail) \<noteq> tenantID then evalRunNotFound
          else
            let evalCaseIDs = fold (\<lambda>item ids. appendIfMissing ids (rit_EvalCaseID item)) (rdt_Items detail) [];
                summaries = (if evalCaseIDs = [] then Map.empty
                  else SummarizeBySourceEvalCaseIDs (eae_CaseKeys env ''detail'') tenantID evalCaseIDs (api_Cases s));
                runSummaries = SummarizeBySourceEvalRunIDs (eae_CaseKeys env ''detail run'') tenantID [runID] (api_Cases s)
            in ReplyJSON status (EvalRunBody
                 (newEvalRunResponse (eae_FormatTime env) (rdt_Run detail) (rdt_Events detail) (rdt_Items detail)
                    (rdt_ItemResults detail) summaries (evalRunLinkedCaseSummary (runSummaryAt runSummaries runID))
                    (evalRunReportSummary (rdt_Run detail) s) (countWithoutOpen summaries (rdt_ItemResults detail)))))"

definition handleGetEvalRun :: "'j evalApiEnv \<Rightarrow> httpRequest \<Rightarrow> string \<Rightarrow> apiStores \<Rightarrow> evalRunsBody httpReply" where
  "handleGetEvalRun env r runID s =
     (if queryParam r ''tenant_id'' = [] then invalidQuery ''tenant_id is required''
      else writeEvalRunDetailResponse env runID (queryParam r ''tenant_id'') StatusOK s)"

definition handleRetryEvalRun ::
    "'j evalApiEnv \<Rightarrow> httpRequest \<Rightarrow> string \<Rightarrow> apiStores \<Rightarrow> evalRunsBody httpReply \<times> apiStores" where
  "handleRetryEvalRun env r runID s =
     (let tenantID = queryParam r ''tenant_id'' in
      if tenantID = [] then (invalidQuery ''tenant_id is required'', s)
      else case eval_GetRun runID (evalStoreOf s) of
        Inl err \<Rightarrow> (evalRunNotFound, s)
      | Inr item \<Rightarrow>
          if run_TenantID item \<noteq> tenantID then (evalRunNotFound, s)
          else
            let (result, st, _) = RetryRun (eae_Runs env) runID (eae_Others env (evalStoreOf s)) ()
            in ((case result of
                   Inl (ErrEvalRunNotFound _) \<Rightarrow> evalRunNotFound
                 | Inl ErrInvalidEvalRunState \<Rightarrow>
                     ReplyError StatusConflict ''invalid_eval_run_state'' (evalErrorText ErrInvalidEvalRunState)
                 | Inl err \<Rightarrow> ReplyError StatusInternalServerError ''eval_run_retry_failed'' (evalErrorText err)
                 | Inr retried \<Rightarrow> plainRunReply env StatusOK retried),
                withEvalStore st s))"

definition handleCreateEvalRun ::
    "'j evalApiEnv \<Rightarrow> httpRequest \<Rightarrow> apiStores \<Rightarrow> evalRunsBody httpReply \<times> apiStores" where
  "handleCreateEvalRun env r s =
     (case eae_DecodeRun env (hrq_Body r) of
        None \<Rightarrow> (invalidJSON, s)
      | Some req \<Rightarrow>
          if trimSpace (cer_TenantID req) = [] \<or> trimSpace (cer_DatasetID req) = []
          then (ReplyError StatusBadRequest ''invalid_eval_run'' ''tenant_id and dataset_id are required'', s)
          else
            let (result, st) = CreateRun (\<lambda>i. eval_GetDataset i (evalStoreOf s)) (eae_Now env)
                  \<lparr>cri_TenantID = trimSpace (cer_TenantID req), cri_DatasetID = trimSpace (cer_DatasetID req),
                   cri_CreatedBy = trimSpace (cer_CreatedBy req)\<rparr> (api_Evals s)
            in ((case result of
                   Inl (ErrEvalDatasetNotFound _) \<Rightarrow>
                     ReplyError StatusNotFound ''eval_dataset_not_found'' ''eval dataset not found''
                 | Inl ErrInvalidEvalDatasetState \<Rightarrow>
                     ReplyError StatusConflict ''invalid_eval_dataset_state''
                       ''eval dataset is not in a valid state for run kickoff''
                 | Inl ErrInvalidEvalDataset \<Rightarrow>
                     ReplyError StatusConflict ''invalid_eval_run''
                       ''eval run request is invalid for the current tenant scope''
                 | Inl err \<Rightarrow> ReplyError StatusInternalServerError ''eval_run_create_failed'' (evalErrorText err)
                 | Inr item \<Rightarrow> plainRunReply env StatusCreated item),
                s\<lparr>api_Evals := st\<rparr>))"

definition handleEvalRuns ::
    "'j evalApiEnv \<Rightarrow> httpRequest \<Rightarrow> apiStores \<Rightarrow> evalRunsBody httpReply option \<times> apiStores" where
  "handleEvalRuns env r s =
     (if hrq_Method r = MethodGet then (handleListEvalRuns env r s, s)
      else if hrq_Method r = MethodPost
      then (let (reply, s') = handleCreateEvalRun env r s in (Some reply, s'))
      else (Some methodNotAllowed, s))"

definition parseEvalRunPath :: "string \<Rightarrow> (string \<times> string) option" where
  "parseEvalRunPath path = parseActionPath ''/api/v1/eval-runs/'' path"

definition handleEvalRunByID ::
    "'j evalApiEnv \<Rightarrow> httpRequest \<Rightarrow> apiStores \<Rightarrow> evalRunsBody httpReply \<times> apiStores" where
  "handleEvalRunByID env r s =
     (case parseEvalRunPath (hrq_Path r) of
        None \<Rightarrow> (notFound, s)
      | Some (runID, action) \<Rightarrow>
          if action = []
          then (if hrq_Method r \<noteq> MethodGet then (methodNotAllowed, s) else (handleGetEvalRun env r runID s, s))
          else if hrq_Method r \<noteq> MethodPost then (methodNotAllowed, s)
          else if action = ''retry'' then handleRetryEvalRun env r runID s
          else (notFound, s))"

end
