(* ===== verification/Http_Eval_Reports.thy ===== *)
theory Http_Eval_Reports
  imports Http_Eval_Runs
begin

text \<open>
  The endpoints of eval reports (\<open>app/httpapi/eval_reports.go\<close>): one report with its bad cases, the
  list with its two filters, the comparison of two reports, and the regression check.

  A threshold is a real number, so the values NaN and infinity, which the parser of the code also
  accepts, are left out.
\<close>

subsection \<open>Responses\<close>

record reportAction =
  rpa_Mode :: string
  rpa_CaseID :: string
  rpa_SourceEvalReportID :: string

record badCaseProvenanceAction =
  bpa_Mode :: string
  bpa_CaseID :: string
  bpa_EvalCaseID :: string
  bpa_TraceID :: string
  bpa_VersionID :: string

record runLaneAction =
  rln_Mode :: string
  rln_RunID :: string
  rln_DatasetID :: string

record evalReportBadCaseResponse =
  ebr_EvalCaseID :: string
  ebr_Title :: string
  ebr_SourceCaseID :: string
  ebr_SourceTaskID :: string
  ebr_SourceReportID :: string
  ebr_TraceID :: string
  ebr_VersionID :: string
  ebr_Verdict :: string
  ebr_Detail :: string
  ebr_Score :: real
  ebr_FollowUpCaseCount :: int
  ebr_OpenFollowUpCaseCount :: int
  ebr_LatestFollowUpCaseID :: string
  ebr_LatestFollowUpCaseStatus :: string
  ebr_PreferredFollowUpAction :: evalCaseAction
  ebr_PreferredFollowUpLaneAction :: evalCaseAction
  ebr_PreferredPrimaryAction :: evalCaseAction
  ebr_PreferredCaseSummaryAction :: evalCaseAction
  ebr_PreferredLinkedCaseAction :: evalCaseAction
  ebr_PreferredProvenanceAction :: badCaseProvenanceAction
  ebr_PreferredSourceCaseProvenance :: modeLink
  ebr_PreferredSourceReportProvenance :: modeLink
  ebr_PreferredSourceTaskProvenance :: modeLink
  ebr_PreferredTraceProvenance :: modeLink
  ebr_PreferredVersionProvenance :: modeLink
  ebr_PreferredEvalProvenance :: modeLink
  ebr_PreferredFollowUpSliceAction :: modeLink

text \<open>What the response of a report and an item of a comparison have in common.\<close>

record evalReportFacts =
  rfc_ReportID :: string
  rfc_TenantID :: string
  rfc_RunID :: string
  rfc_DatasetID :: string
  rfc_DatasetName :: string
  rfc_RunStatus :: string
  rfc_Status :: string
  rfc_Summary :: string
  rfc_TotalItems :: int
  rfc_RecordedResults :: int
  rfc_PassedItems :: int
  rfc_FailedItems :: int
  rfc_MissingResults :: int
  rfc_AverageScore :: real
  rfc_JudgeVersion :: string
  rfc_BadCaseCount :: int
  rfc_BadCaseWithoutOpenFollowUpCount :: int
  rfc_FollowUpCaseCount :: int
  rfc_OpenFollowUpCaseCount :: int
  rfc_LatestFollowUpCaseID :: string
  rfc_LatestFollowUpCaseStatus :: string
  rfc_PreferredPrimaryAction :: reportAction
  rfc_PreferredBadCaseQueueAction :: modeLink
  rfc_CompareFollowUpCaseCount :: int
  rfc_OpenCompareFollowUpCaseCount :: int
  rfc_LatestCompareFollowUpCaseID :: string
  rfc_LatestCompareFollowUpCaseStatus :: string
  rfc_PreferredCompareFollowUpAction :: modeLink
  rfc_LinkedCaseSummary :: "linkedCases option"
  rfc_PreferredLinkedCaseAction :: reportAction
  rfc_PreferredReportLaneAction :: modeLink
  rfc_PreferredDatasetLaneAction :: modeLink
  rfc_PreferredEvalLaneAction :: modeLink
  rfc_PreferredRunLaneAction :: runLaneAction
  rfc_PreferredTraceDetailAction :: modeLink
  rfc_PreferredVersionDetailAction :: modeLink
  rfc_CreatedAt :: string
  rfc_UpdatedAt :: string
  rfc_ReadyAt :: string

record evalReportResponse = evalReportFacts +
  ert_PreferredFollowUpAction :: reportAction
  ert_Metadata :: string
  ert_BadCases :: "evalReportBadCaseResponse list"

record evalReportComparisonItem = evalReportFacts +
  eri_VersionID :: string

record evalReportComparisonResponse =
  ecs_Left :: evalReportComparisonItem
  ecs_Right :: evalReportComparisonItem
  ecs_Summary :: evalComparisonSummary

record regressionBadCaseItem =
  rbi_EvalCaseID :: string
  rbi_Title :: string
  rbi_Verdict :: string
  rbi_Score :: real

record regressionCheckResponse =
  rcr_BaselineReportID :: string
  rcr_CandidateReportID :: string
  rcr_Verdict :: string
  rcr_AverageScoreDelta :: real
  rcr_PassedItemsDelta :: int
  rcr_FailedItemsDelta :: int
  rcr_NewBadCaseCount :: int
  rcr_ResolvedCaseCount :: int
  rcr_PromotedCaseCount :: int
  rcr_NewBadCases :: "regressionBadCaseItem list"
  rcr_ResolvedBadCases :: "regressionBadCaseItem list"
  rcr_Thresholds :: regressionThresholds

datatype evalReportsBody =
    EvalReportBody evalReportResponse
  | EvalReportsBody "evalReportResponse listBody"
  | EvalReportComparisonBody evalReportComparisonResponse
  | RegressionBody regressionCheckResponse

subsection \<open>Actions of a report\<close>

definition newEvalReportFollowUpAction :: "string \<Rightarrow> followUpSummary \<Rightarrow> reportAction" where
  "newEvalReportFollowUpAction reportID sm =
     (let action = \<lparr>rpa_Mode = ''create'', rpa_CaseID = [], rpa_SourceEvalReportID = reportID\<rparr> in
      if fus_OpenCaseCount sm \<le> 0 then action
      else if fus_LatestCaseID sm \<noteq> []
      then action\<lparr>rpa_Mode := ''open_existing_case'', rpa_CaseID := fus_LatestCaseID sm\<rparr>
      else action\<lparr>rpa_Mode := ''open_existing_queue''\<rparr>)"

definition newEvalReportLinkedCaseAction :: "string \<Rightarrow> linkedCases option \<Rightarrow> reportAction" where
  "newEvalReportLinkedCaseAction reportID linked =
     (let action = \<lparr>rpa_Mode = ''none'', rpa_CaseID = [], rpa_SourceEvalReportID = reportID\<rparr> in
      case linked of
        None \<Rightarrow> action
      | Some l \<Rightarrow>
          if lks_TotalCaseCount l \<le> 0 then action
          else if lks_OpenCaseCount l > 0 \<and> lks_LatestCaseID l \<noteq> [] \<and> lks_LatestCaseStatus l = CaseStatusOpen
          then action\<lparr>rpa_Mode := ''open_existing_case'', rpa_CaseID := lks_LatestCaseID l\<rparr>
          else action\<lparr>rpa_Mode := ''open_existing_queue''\<rparr>)"

definition newEvalReportPrimaryAction :: "string \<Rightarrow> followUpSummary \<Rightarrow> linkedCases option \<Rightarrow> reportAction" where
  "newEvalReportPrimaryAction reportID sm linked =
     (let linkedAction = newEvalReportLinkedCaseAction reportID linked in
      if rpa_Mode linkedAction \<noteq> ''none'' then linkedAction else newEvalReportFollowUpAction reportID sm)"

definition newEvalReportBadCaseQueueAction :: "string \<Rightarrow> int \<Rightarrow> modeLink" where
  "newEvalReportBadCaseQueueAction reportID withoutOpen =
     \<lparr>lnk_Mode = (if withoutOpen > 0 then ''open_existing_queue'' else ''none''), lnk_ID = reportID\<rparr>"

definition newEvalReportCompareQueueAction :: "string \<Rightarrow> followUpSummary \<Rightarrow> modeLink" where
  "newEvalReportCompareQueueAction reportID compare =
     \<lparr>lnk_Mode = (if fus_OpenCaseCount compare \<le> 0 then ''none'' else ''open_existing_queue''), lnk_ID = reportID\<rparr>"

definition newEvalReportCompareFollowUpAction :: "string \<Rightarrow> followUpSummary \<Rightarrow> modeLink" where
  "newEvalReportCompareFollowUpAction reportID compare =
     \<lparr>lnk_Mode = (if fus_OpenCaseCount compare > 0 then ''open_existing_queue'' else ''create''), lnk_ID = reportID\<rparr>"

definition newEvalReportComparePrimaryAction ::
    "string \<Rightarrow> linkedCases option \<Rightarrow> followUpSummary \<Rightarrow> reportAction" where
  "newEvalReportComparePrimaryAction reportID linked compare =
     (let linkedAction = newEvalReportLinkedCaseAction reportID linked;
          compareAction = newEvalReportCompareFollowUpAction reportID compare
      in if rpa_Mode linkedAction \<noteq> ''none'' then linkedAction
         else \<lparr>rpa_Mode = lnk_Mode compareAction, rpa_CaseID = [], rpa_SourceEvalReportID = lnk_ID compareAction\<rparr>)"

definition newEvalLaneAction :: "string \<Rightarrow> modeLink" where
  "newEvalLaneAction reportID = \<lparr>lnk_Mode = ''open_eval'', lnk_ID = reportID\<rparr>"

definition newEvalRunLaneAction :: "string \<Rightarrow> string \<Rightarrow> runLaneAction" where
  "newEvalRunLaneAction runID datasetID =
     \<lparr>rln_Mode = ''open_run'', rln_RunID = runID, rln_DatasetID = datasetID\<rparr>"

definition newVersionDetailAction :: "string \<Rightarrow> modeLink" where
  "newVersionDetailAction versionID = linkTo ''open_version'' versionID"

definition newTraceDetailAction :: "string \<Rightarrow> modeLink" where
  "newTraceDetailAction reportID = linkTo ''open_trace'' reportID"

definition firstEvalReportVersionID :: "'j evalApiEnv \<Rightarrow> string \<Rightarrow> string" where
  "firstEvalReportVersionID env raw =
     (if raw = [] then []
      else case eae_VersionIDs env raw of Some versionID # _ \<Rightarrow> versionID | _ \<Rightarrow> [])"

subsection \<open>Actions of a bad case\<close>

definition newEvalReportBadCaseFollowUpAction :: "string \<Rightarrow> followUpSummary \<Rightarrow> evalCaseAction" where
  "newEvalReportBadCaseFollowUpAction evalCaseID sm =
     (let action = \<lparr>eca_Mode = ''create'', eca_CaseID = [], eca_SourceEvalCaseID = evalCaseID\<rparr> in
      if fus_OpenCaseCount sm \<le> 0 then action
      else if fus_LatestCaseID sm \<noteq> []
      then action\<lparr>eca_Mode := ''open_existing_case'', eca_CaseID := fus_LatestCaseID sm\<rparr>
      else action\<lparr>eca_Mode := ''open_existing_queue''\<rparr>)"

definition newEvalReportBadCaseLinkedCaseAction :: "string \<Rightarrow> followUpSummary \<Rightarrow> evalCaseAction" where
  "newEvalReportBadCaseLinkedCaseAction evalCaseID sm =
     (let action = \<lparr>eca_Mode = ''create'', eca_CaseID = [], eca_SourceEvalCaseID = evalCaseID\<rparr> in
      if fus_CaseCount sm \<le> 0 then action
      else if fus_OpenCaseCount sm > 0 \<and> fus_LatestCaseID sm \<noteq> [] \<and> fus_LatestCaseStatus sm = CaseStatusOpen
      then action\<lparr>eca_Mode := ''open_existing_case'', eca_CaseID := fus_LatestCaseID sm\<rparr>
      else action\<lparr>eca_Mode := ''open_existing_queue''\<rparr>)"

definition newEvalReportBadCasePrimaryAction :: "string \<Rightarrow> followUpSummary \<Rightarrow> evalCaseAction" where
  "newEvalReportBadCasePrimaryAction evalCaseID sm =
     (let linkedAction = newEvalReportBadCaseLinkedCaseAction evalCaseID sm in
      if eca_Mode linkedAction \<noteq> ''none'' then linkedAction else newEvalReportBadCaseFollowUpAction evalCaseID sm)"

definition newEvalReportBadCaseCaseSummaryAction :: "string \<Rightarrow> followUpSummary \<Rightarrow> evalCaseAction" where
  "newEvalReportBadCaseCaseSummaryAction evalCaseID sm =
     (let action = \<lparr>eca_Mode = ''none'', eca_CaseID = [], eca_SourceEvalCaseID = evalCaseID\<rparr> in
      if fus_LatestCaseID sm = [] then action
      else action\<lparr>eca_Mode := ''open_existing_case'', eca_CaseID := fus_LatestCaseID sm\<rparr>)"

definition newEvalReportBadCaseProvenanceAction :: "badCase \<Rightarrow> badCaseProvenanceAction" where
  "newEvalReportBadCaseProvenanceAction b =
     (let action = \<lparr>bpa_Mode = ''none'', bpa_CaseID = [], bpa_EvalCaseID = [], bpa_TraceID = [], bpa_VersionID = []\<rparr> in
      if bad_SourceCaseID b \<noteq> []
      then action\<lparr>bpa_Mode := ''open_source_case'', bpa_CaseID := bad_SourceCaseID b, bpa_EvalCaseID := bad_EvalCaseID b\<rparr>
      else if bad_TraceID b \<noteq> []
      then action\<lparr>bpa_Mode := ''open_trace'', bpa_EvalCaseID := bad_EvalCaseID b, bpa_TraceID := bad_TraceID b\<rparr>
      else if bad_VersionID b \<noteq> []
      then action\<lparr>bpa_Mode := ''open_version'', bpa_EvalCaseID := bad_EvalCaseID b, bpa_VersionID := bad_VersionID b\<rparr>
      else if bad_EvalCaseID b \<noteq> []
      then action\<lparr>bpa_Mode := ''open_eval'', bpa_EvalCaseID := bad_EvalCaseID b\<rparr>
      else action)"

definition newBadCaseSourceCaseProvenance :: "badCase \<Rightarrow> modeLink" where
  "newBadCaseSourceCaseProvenance b = linkTo ''open'' (bad_SourceCaseID b)"

definition newBadCaseSourceReportProvenance :: "badCase \<Rightarrow> modeLink" where
  "newBadCaseSourceReportProvenance b = linkTo ''open_api'' (bad_SourceReportID b)"

definition newBadCaseSourceTaskProvenance :: "badCase \<Rightarrow> modeLink" where
  "newBadCaseSourceTaskProvenance b = linkTo ''open_api'' (bad_SourceTaskID b)"

definition newBadCaseTraceProvenance :: "badCase \<Rightarrow> modeLink" where
  "newBadCaseTraceProvenance b = linkTo ''open'' (bad_TraceID b)"

definition newBadCaseVersionProvenance :: "badCase \<Rightarrow> modeLink" where
  "newBadCaseVersionProvenance b = linkTo ''open'' (bad_VersionID b)"

definition newBadCaseEvalProvenance :: "badCase \<Rightarrow> modeLink" where
  "newBadCaseEvalProvenance b = linkTo ''open'' (bad_EvalCaseID b)"

definition newBadCaseFollowUpSliceAction :: "badCase \<Rightarrow> modeLink" where
  "newBadCaseFollowUpSliceAction b = linkTo ''open'' (bad_EvalCaseID b)"

definition newBadCaseResponse :: "badCase \<Rightarrow> followUpSummary \<Rightarrow> evalReportBadCaseResponse" where
  "newBadCaseResponse b sm =
     (let i = bad_EvalCaseID b in
      \<lparr>ebr_EvalCaseID = i, ebr_Title = bad_Title b, ebr_SourceCaseID = bad_SourceCaseID b,
       ebr_SourceTaskID = bad_SourceTaskID b, ebr_SourceReportID = bad_SourceReportID b,
       ebr_TraceID = bad_TraceID b, ebr_VersionID = bad_VersionID b, ebr_Verdict = bad_Verdict b,
       ebr_Detail = bad_Detail b, ebr_Score = bad_Score b, ebr_FollowUpCaseCount = fus_CaseCount sm,
       ebr_OpenFollowUpCaseCount = fus_OpenCaseCount sm, ebr_LatestFollowUpCaseID = fus_LatestCaseID sm,
       ebr_LatestFollowUpCaseStatus = fus_LatestCaseStatus sm,
       ebr_PreferredFollowUpAction = newEvalReportBadCaseFollowUpAction i sm,
       ebr_PreferredFollowUpLaneAction = newEvalReportBadCaseFollowUpAction i sm,
       ebr_PreferredPrimaryAction = newEvalReportBadCasePrimaryAction i sm,
       ebr_PreferredCaseSummaryAction = newEvalReportBadCaseCaseSummaryAction i sm,
       ebr_PreferredLinkedCaseAction = newEvalReportBadCaseLinkedCaseAction i sm,
       ebr_PreferredProvenanceAction = newEvalReportBadCaseProvenanceAction b,
       ebr_PreferredSourceCaseProvenance = newBadCaseSourceCaseProvenance b,
       ebr_PreferredSourceReportProvenance = newBadCaseSourceReportProvenance b,
       ebr_PreferredSourceTaskProvenance = newBadCaseSourceTaskProvenance b,
       ebr_PreferredTraceProvenance = newBadCaseTraceProvenance b,
       ebr_PreferredVersionProvenance = newBadCaseVersionProvenance b,
       ebr_PreferredEvalProvenance = newBadCaseEvalProvenance b,
       ebr_PreferredFollowUpSliceAction = newBadCaseFollowUpSliceAction b\<rparr>)"

subsection \<open>The response of a report\<close>

text \<open>The bad cases and the metadata are shown with one report and left out of a list.\<close>

definition newEvalReportResponse ::
    "'j evalApiEnv \<Rightarrow> evalReport \<Rightarrow> bool \<Rightarrow> followUpSummary \<Rightarrow> followUpSummary \<Rightarrow> linkedCases option
     \<Rightarrow> (string \<rightharpoonup> followUpSummary) \<Rightarrow> int \<Rightarrow> int \<Rightarrow> evalReportResponse" where
  "newEvalReportResponse env item includeHeavy sm compare linked badCaseSummaries badCaseCount0 withoutOpen =
     (let badCaseCount = (if badCaseCount0 < 0 then int (length (erp_BadCases item)) else badCaseCount0) in
     \<lparr>rfc_ReportID = erp_ID item, rfc_TenantID = erp_TenantID item, rfc_RunID = erp_RunID item,
      rfc_DatasetID = erp_DatasetID item, rfc_DatasetName = erp_DatasetName item, rfc_RunStatus = erp_RunStatus item,
      rfc_Status = erp_Status item, rfc_Summary = erp_Summary item, rfc_TotalItems = erp_TotalItems item,
      rfc_RecordedResults = erp_RecordedResults item, rfc_PassedItems = erp_PassedItems item, rfc_FailedItems = erp_FailedItems item,
      rfc_MissingResults = erp_MissingResults item, rfc_AverageScore = erp_AverageScore item, rfc_JudgeVersion = erp_JudgeVersion item,
      rfc_BadCaseCount = badCaseCount, rfc_BadCaseWithoutOpenFollowUpCount = withoutOpen,
      rfc_FollowUpCaseCount = fus_CaseCount sm, rfc_OpenFollowUpCaseCount = fus_OpenCaseCount sm,
      rfc_LatestFollowUpCaseID = fus_LatestCaseID sm, rfc_LatestFollowUpCaseStatus = fus_LatestCaseStatus sm,
      rfc_PreferredPrimaryAction = newEvalReportPrimaryAction (erp_ID item) sm linked,
      rfc_PreferredBadCaseQueueAction = newEvalReportBadCaseQueueAction (erp_ID item) withoutOpen,
      rfc_CompareFollowUpCaseCount = fus_CaseCount compare, rfc_OpenCompareFollowUpCaseCount = fus_OpenCaseCount compare,
      rfc_LatestCompareFollowUpCaseID = fus_LatestCaseID compare,
      rfc_LatestCompareFollowUpCaseStatus = fus_LatestCaseStatus compare,
      rfc_PreferredCompareFollowUpAction = newEvalReportCompareQueueAction (erp_ID item) compare,
      rfc_LinkedCaseSummary = linked, rfc_PreferredLinkedCaseAction = newEvalReportLinkedCaseAction (erp_ID item) linked,
      rfc_PreferredReportLaneAction = newEvalReportLaneAction (erp_ID item),
      rfc_PreferredDatasetLaneAction = newEvalDatasetLaneAction (erp_DatasetID item),
      rfc_PreferredEvalLaneAction = newEvalLaneAction (erp_ID item),
      rfc_PreferredRunLaneAction = newEvalRunLaneAction (erp_RunID item) (erp_DatasetID item),
      rfc_PreferredTraceDetailAction = newTraceDetailAction (erp_ID item),
      rfc_PreferredVersionDetailAction = newVersionDetailAction (firstEvalReportVersionID env (erp_MetadataJSON item)),
      rfc_CreatedAt = eae_FormatTime env (erp_CreatedAt item), rfc_UpdatedAt = eae_FormatTime env (erp_UpdatedAt item),
      rfc_ReadyAt = eae_FormatTime env (erp_ReadyAt item),
      ert_PreferredFollowUpAction = newEvalReportFollowUpAction (erp_ID item) sm,
      ert_Metadata = (if includeHeavy then erp_MetadataJSON item else []),
      ert_BadCases = (if includeHeavy
        then map (\<lambda>b. newBadCaseResponse b (summaryAt badCaseSummaries (bad_EvalCaseID b))) (erp_BadCases item)
        else [])\<rparr>)"

definition newEvalReportComparisonItem ::
    "'j evalApiEnv \<Rightarrow> evalReport \<Rightarrow> followUpSummary \<Rightarrow> linkedCases option \<Rightarrow> followUpSummary \<Rightarrow> int
     \<Rightarrow> evalReportComparisonItem" where
  "newEvalReportComparisonItem env item sm linked compare withoutOpen =
     (let badCaseCount = int (length (erp_BadCases item)) in
     \<lparr>rfc_ReportID = erp_ID item, rfc_TenantID = erp_TenantID item, rfc_RunID = erp_RunID item,
      rfc_DatasetID = erp_DatasetID item, rfc_DatasetName = erp_DatasetName item, rfc_RunStatus = erp_RunStatus item,
      rfc_Status = erp_Status item, rfc_Summary = erp_Summary item, rfc_TotalItems = erp_TotalItems item,
      rfc_RecordedResults = erp_RecordedResults item, rfc_PassedItems = erp_PassedItems item, rfc_FailedItems = erp_FailedItems item,
      rfc_MissingResults = erp_MissingResults item, rfc_AverageScore = erp_AverageScore item, rfc_JudgeVersion = erp_JudgeVersion item,
      rfc_BadCaseCount = badCaseCount, rfc_BadCaseWithoutOpenFollowUpCount = withoutOpen,
      rfc_FollowUpCaseCount = fus_CaseCount sm, rfc_OpenFollowUpCaseCount = fus_OpenCaseCount sm,
      rfc_LatestFollowUpCaseID = fus_LatestCaseID sm, rfc_LatestFollowUpCaseStatus = fus_LatestCaseStatus sm,
      rfc_PreferredPrimaryAction = newEvalReportComparePrimaryAction (erp_ID item) linked compare,
      rfc_PreferredBadCaseQueueAction = newEvalReportBadCaseQueueAction (erp_ID item) withoutOpen,
      rfc_CompareFollowUpCaseCount = fus_CaseCount compare, rfc_OpenCompareFollowUpCaseCount = fus_OpenCaseCount compare,
      rfc_LatestCompareFollowUpCaseID = fus_LatestCaseID compare,
      rfc_LatestCompareFollowUpCaseStatus = fus_LatestCaseStatus compare,
      rfc_PreferredCompareFollowUpAction = newEvalReportCompareFollowUpAction (erp_ID item) compare,
      rfc_LinkedCaseSummary = linked, rfc_PreferredLinkedCaseAction = newEvalReportLinkedCaseAction (erp_ID item) linked,
      rfc_PreferredReportLaneAction = newEvalReportLaneAction (erp_ID item),
      rfc_PreferredDatasetLaneAction = newEvalDatasetLaneAction (erp_DatasetID item),
      rfc_PreferredEvalLaneAction = newEvalLaneAction (erp_ID item),
      rfc_PreferredRunLaneAction = newEvalRunLaneAction (erp_RunID item) (erp_DatasetID item),
      rfc_PreferredTraceDetailAction = newTraceDetailAction (erp_ID item),
      rfc_PreferredVersionDetailAction = newVersionDetailAction (firstEvalReportVersionID env (erp_MetadataJSON item)),
      rfc_CreatedAt = eae_FormatTime env (erp_CreatedAt item), rfc_UpdatedAt = eae_FormatTime env (erp_UpdatedAt item),
      rfc_ReadyAt = eae_FormatTime env (erp_ReadyAt item),
      eri_VersionID = firstEvalReportVersionID env (erp_MetadataJSON item)\<rparr>)"

subsection \<open>The cases behind a report\<close>

text \<open>The assignee is that of the latest case, if it is one of this tenant and report.\<close>

definition evalReportLinkedCaseSummary ::
    "string \<Rightarrow> string \<Rightarrow> followUpSummary \<Rightarrow> caseState \<Rightarrow> linkedCases" where
  "evalReportLinkedCaseSummary tenantID reportID sm cases =
     (let linked = evalCaseLinkedCaseSummary sm in
      if tenantID = [] \<or> fus_LatestCaseID sm = [] then linked
      else case case_Get (fus_LatestCaseID sm) cases of
             Inl err \<Rightarrow> linked
           | Inr newestCase \<Rightarrow>
               if cs_TenantID newestCase \<noteq> tenantID \<or> cs_SourceEvalReportID newestCase \<noteq> reportID then linked
               else linked\<lparr>lks_LatestAssignedTo := cs_AssignedTo newestCase\<rparr>)"

definition evalCaseFollowUpSummaries ::
    "string list \<Rightarrow> string \<Rightarrow> badCase list \<Rightarrow> caseState \<Rightarrow> string \<rightharpoonup> followUpSummary" where
  "evalCaseFollowUpSummaries keys tenantID badCases cases =
     (let evalCaseIDs = fold (\<lambda>b ids. appendIfMissing ids (bad_EvalCaseID b)) badCases [] in
      if evalCaseIDs = [] then Map.empty
      else SummarizeBySourceEvalCaseIDs keys tenantID evalCaseIDs cases)"

definition countEvalReportBadCasesWithoutOpenFollowUp ::
    "badCase list \<Rightarrow> (string \<rightharpoonup> followUpSummary) \<Rightarrow> int" where
  "countEvalReportBadCasesWithoutOpenFollowUp badCases summaries =
     int (length (filter (\<lambda>b. fus_OpenCaseCount (summaryAt summaries (bad_EvalCaseID b)) = 0) badCases))"

definition evalReportBadCaseWithoutOpenFollowUpCounts ::
    "string list \<Rightarrow> string \<Rightarrow> evalReport list \<Rightarrow> caseState \<Rightarrow> string \<rightharpoonup> int" where
  "evalReportBadCaseWithoutOpenFollowUpCounts keys tenantID reports cases =
     (let summaries = evalCaseFollowUpSummaries keys tenantID (concat (map erp_BadCases reports)) cases
      in fold (\<lambda>rep counts. counts(erp_ID rep \<mapsto>
            countEvalReportBadCasesWithoutOpenFollowUp (erp_BadCases rep) summaries)) reports Map.empty)"

definition countAt :: "(string \<rightharpoonup> int) \<Rightarrow> string \<Rightarrow> int" where
  "countAt m k = (case m k of None \<Rightarrow> 0 | Some n \<Rightarrow> n)"

definition filterEvalReportBadCasesByNeedsFollowUp ::
    "badCase list \<Rightarrow> (string \<rightharpoonup> followUpSummary) \<Rightarrow> bool \<Rightarrow> badCase list" where
  "filterEvalReportBadCasesByNeedsFollowUp badCases summaries needsFollowUp =
     filter (\<lambda>b. (fus_OpenCaseCount (summaryAt summaries (bad_EvalCaseID b)) > 0) = needsFollowUp) badCases"

subsection \<open>The list\<close>

definition parseEvalReportListFilter :: "httpRequest \<Rightarrow> string + evalReportFilter" where
  "parseEvalReportListFilter r =
     (let runStatus = queryParam r ''run_status''; status = queryParam r ''status'' in
      if queryParam r ''tenant_id'' = [] then Inl ''tenant_id is required''
      else if runStatus \<noteq> [] \<and> runStatus \<noteq> RunStatusSucceeded \<and> runStatus \<noteq> RunStatusFailed
      then Inl ''run_status must be succeeded or failed''
      else if status \<noteq> [] \<and> status \<noteq> EvalReportStatusReady then Inl ''status must be ready''
      else
        andThen (limitFrom (queryParam r ''limit'')) (\<lambda>limit.
        andThen (offsetFrom (queryParam r ''offset'')) (\<lambda>offset.
          Inr \<lparr>erf_ReportID = queryParam r ''report_id'', erf_TenantID = queryParam r ''tenant_id'',
               erf_DatasetID = queryParam r ''dataset_id'', erf_RunStatus = runStatus, erf_Status = status,
               erf_Limit = limit, erf_Offset = offset\<rparr>)))"

definition parseEvalReportNeedsFollowUpFilter :: "httpRequest \<Rightarrow> string + bool option" where
  "parseEvalReportNeedsFollowUpFilter r = parseLooseFlag r ''needs_follow_up'' '' must be true or false''"

definition parseEvalReportBadCaseNeedsFollowUpFilter :: "httpRequest \<Rightarrow> string + bool option" where
  "parseEvalReportBadCaseNeedsFollowUpFilter r =
     parseLooseFlag r ''bad_case_needs_follow_up'' '' must be true or false''"

definition buildEvalReportListRows :: "'j evalApiEnv \<Rightarrow> string \<Rightarrow> apiStores \<Rightarrow> evalReport list \<Rightarrow> evalReportResponse list" where
  "buildEvalReportListRows env tenantID s reports =
     (let reportIDs = map erp_ID reports;
          followUps = SummarizeBySourceEvalReportIDs (eae_CaseKeys env ''reports'') tenantID reportIDs (api_Cases s);
          compares = SummarizeCompareOriginBySourceEvalReportIDs (eae_CaseKeys env ''compares'') tenantID reportIDs (api_Cases s);
          counts = evalReportBadCaseWithoutOpenFollowUpCounts (eae_CaseKeys env ''bad cases'') tenantID reports (api_Cases s)
      in map (\<lambda>item. newEvalReportResponse env item False (summaryAt followUps (erp_ID item))
                (summaryAt compares (erp_ID item))
                (Some (evalReportLinkedCaseSummary tenantID (erp_ID item) (summaryAt followUps (erp_ID item)) (api_Cases s)))
                Map.empty (int (length (erp_BadCases item))) (countAt counts (erp_ID item))) reports)"

definition reportRowMatches :: "bool option \<Rightarrow> bool option \<Rightarrow> evalReportResponse \<Rightarrow> bool" where
  "reportRowMatches needsFollowUp badCaseNeedsFollowUp row \<longleftrightarrow>
     \<not> (\<exists>wanted. needsFollowUp = Some wanted \<and> (rfc_OpenFollowUpCaseCount row > 0) \<noteq> wanted)
   \<and> \<not> (\<exists>wanted. badCaseNeedsFollowUp = Some wanted \<and> (rfc_BadCaseWithoutOpenFollowUpCount row > 0) \<noteq> wanted)"

text \<open>The rows of one page.  A row that matches once the limit is reached ends the search.\<close>

fun collectRows ::
    "('r \<Rightarrow> bool) \<Rightarrow> int \<Rightarrow> int \<Rightarrow> 'r list \<Rightarrow> int \<times> 'r list \<Rightarrow> 'r list + (int \<times> 'r list)" where
  "collectRows keep offset limit [] acc = Inr acc"
| "collectRows keep offset limit (row # rows) (matched, collected) =
     (if \<not> keep row then collectRows keep offset limit rows (matched, collected)
      else if matched < offset then collectRows keep offset limit rows (matched + 1, collected)
      else if int (length collected) < limit
      then collectRows keep offset limit rows (matched + 1, collected @ [row])
      else Inl collected)"

partial_function (option) reportScanLoop ::
    "(int \<Rightarrow> 'a listPage option) \<Rightarrow> ('a list \<Rightarrow> 'r list) \<Rightarrow> ('r \<Rightarrow> bool) \<Rightarrow> int \<Rightarrow> int \<Rightarrow> int
     \<Rightarrow> int \<times> 'r list \<Rightarrow> ('r list \<times> bool) option" where
  "reportScanLoop fetch build keep offset limit off acc =
     Option.bind (fetch off) (\<lambda>page.
       case collectRows keep offset limit (build (pageItems page)) acc of
         Inl collected \<Rightarrow> Some (collected, True)
       | Inr acc' \<Rightarrow>
           if \<not> pageHasMore page then Some (snd acc', False)
           else reportScanLoop fetch build keep offset limit (pageNextOffset page) acc')"

definition listEvalReportsResponse ::
    "'j evalApiEnv \<Rightarrow> evalReportFilter \<Rightarrow> bool option \<Rightarrow> bool option \<Rightarrow> apiStores
     \<Rightarrow> evalReportResponse listBody option" where
  "listEvalReportsResponse env f needsFollowUp badCaseNeedsFollowUp s =
     (if needsFollowUp = None \<and> badCaseNeedsFollowUp = None
      then map_option (\<lambda>page.
             \<lparr>lbd_Items = buildEvalReportListRows env (erf_TenantID f) s (pageItems page),
              lbd_HasMore = pageHasMore page,
              lbd_NextOffset = (if pageHasMore page then Some (pageNextOffset page) else None)\<rparr>)
           (ListEvalReports (eae_EvalKeys env ''reports'' (erf_Offset f)) f (evalStoreOf s))
      else
        let atLeast = (if erf_Limit f < 50 then 50 else erf_Limit f);
            reach = goInt (goInt (erf_Offset f + erf_Limit f) + 1);
            base = f\<lparr>erf_Offset := 0, erf_Limit := (if atLeast < reach then reach else atLeast)\<rparr>
        in if eae_MaxCap env < erf_Limit f then None
           else map_option (\<lambda>(collected, more).
                  \<lparr>lbd_Items = collected, lbd_HasMore = more,
                   lbd_NextOffset = (if more then Some (goInt (erf_Offset f + erf_Limit f)) else None)\<rparr>)
                (reportScanLoop
                   (\<lambda>off. ListEvalReports (eae_EvalKeys env ''reports'' off) (base\<lparr>erf_Offset := off\<rparr>) (evalStoreOf s))
                   (buildEvalReportListRows env (erf_TenantID f) s)
                   (reportRowMatches needsFollowUp badCaseNeedsFollowUp) (erf_Offset f) (erf_Limit f) 0 (0, [])))"

definition handleEvalReports :: "'j evalApiEnv \<Rightarrow> httpRequest \<Rightarrow> apiStores \<Rightarrow> evalReportsBody httpReply option" where
  "handleEvalReports env r s =
     (if hrq_Method r \<noteq> MethodGet then Some methodNotAllowed
      else
        case andThen (parseEvalReportListFilter r) (\<lambda>f.
             andThen (parseEvalReportNeedsFollowUpFilter r) (\<lambda>needs.
             andThen (parseEvalReportBadCaseNeedsFollowUpFilter r) (\<lambda>bad. Inr (f, needs, bad)))) of
          Inl message \<Rightarrow> Some (invalidQuery message)
        | Inr (f, needs, bad) \<Rightarrow>
            map_option (\<lambda>body. ReplyJSON StatusOK (EvalReportsBody body)) (listEvalReportsResponse env f needs bad s))"

subsection \<open>One report and two reports\<close>

abbreviation (input) evalReportNotFound :: "'b httpReply" where
  "evalReportNotFound \<equiv> ReplyError StatusNotFound ''eval_report_not_found'' ''eval report not found''"

definition handleEvalReportByID :: "'j evalApiEnv \<Rightarrow> httpRequest \<Rightarrow> apiStores \<Rightarrow> evalReportsBody httpReply" where
  "handleEvalReportByID env r s =
     (let tenantID = queryParam r ''tenant_id'' in
      if hrq_Method r \<noteq> MethodGet then methodNotAllowed
      else if tenantID = [] then invalidQuery ''tenant_id is required''
      else case pathID (trimPrefix (hrq_Path r) ''/api/v1/eval-reports/'') of
        None \<Rightarrow> notFound
      | Some reportID \<Rightarrow>
        (case parseEvalReportBadCaseNeedsFollowUpFilter r of
           Inl message \<Rightarrow> invalidQuery message
         | Inr badCaseNeedsFollowUp \<Rightarrow>
           (case eval_GetEvalReport reportID (evalStoreOf s) of
              Inl err \<Rightarrow> evalReportNotFound
            | Inr item \<Rightarrow>
                if erp_TenantID item \<noteq> tenantID then evalReportNotFound
                else
                  let followUp = summaryAt (SummarizeBySourceEvalReportIDs (eae_CaseKeys env ''report'')
                        tenantID [reportID] (api_Cases s)) reportID;
                      compare = summaryAt (SummarizeCompareOriginBySourceEvalReportIDs (eae_CaseKeys env ''compare'')
                        tenantID [reportID] (api_Cases s)) reportID;
                      linked = evalReportLinkedCaseSummary tenantID reportID followUp (api_Cases s);
                      summaries = evalCaseFollowUpSummaries (eae_CaseKeys env ''bad cases'') tenantID
                        (erp_BadCases item) (api_Cases s);
                      withoutOpen = countEvalReportBadCasesWithoutOpenFollowUp (erp_BadCases item) summaries;
                      shown = (case badCaseNeedsFollowUp of
                          None \<Rightarrow> item
                        | Some wanted \<Rightarrow>
                            item\<lparr>erp_BadCases := filterEvalReportBadCasesByNeedsFollowUp (erp_BadCases item) summaries wanted\<rparr>)
                  in ReplyJSON StatusOK (EvalReportBody
                       (newEvalReportResponse env shown True followUp compare (Some linked) summaries
                          (int (length (erp_BadCases item))) withoutOpen)))))"

definition handleEvalReportCompare :: "'j evalApiEnv \<Rightarrow> httpRequest \<Rightarrow> apiStores \<Rightarrow> evalReportsBody httpReply" where
  "handleEvalReportCompare env r s =
     (let tenantID = queryParam r ''tenant_id'';
          leftID = queryParam r ''left_report_id'';
          rightID = queryParam r ''right_report_id''
      in if hrq_Method r \<noteq> MethodGet then methodNotAllowed
         else if tenantID = [] then invalidQuery ''tenant_id is required''
         else if leftID = [] then invalidQuery ''left_report_id is required''
         else if rightID = [] then invalidQuery ''right_report_id is required''
         else case CompareEvalReports (eae_ParseJSON env) leftID rightID (evalStoreOf s) of
           Inl (ErrEvalReportNotFound _) \<Rightarrow> evalReportNotFound
         | Inl err \<Rightarrow> ReplyError StatusInternalServerError ''eval_report_compare_failed'' (evalErrorText err)
         | Inr cmp \<Rightarrow>
             if erp_TenantID (ecm_Left cmp) \<noteq> tenantID \<or> erp_TenantID (ecm_Right cmp) \<noteq> tenantID
             then evalReportNotFound
             else
               let ids = [erp_ID (ecm_Left cmp), erp_ID (ecm_Right cmp)];
                   followUps = SummarizeBySourceEvalReportIDs (eae_CaseKeys env ''reports'') tenantID ids (api_Cases s);
                   compares = SummarizeCompareOriginBySourceEvalReportIDs (eae_CaseKeys env ''compares'') tenantID ids (api_Cases s);
                   counts = evalReportBadCaseWithoutOpenFollowUpCounts (eae_CaseKeys env ''bad cases'') tenantID
                     [ecm_Left cmp, ecm_Right cmp] (api_Cases s);
                   side = (\<lambda>item. newEvalReportComparisonItem env item (summaryAt followUps (erp_ID item))
                     (Some (evalReportLinkedCaseSummary tenantID (erp_ID item) (summaryAt followUps (erp_ID item)) (api_Cases s)))
                     (summaryAt compares (erp_ID item)) (countAt counts (erp_ID item)))
               in ReplyJSON StatusOK (EvalReportComparisonBody
                    \<lparr>ecs_Left = side (ecm_Left cmp), ecs_Right = side (ecm_Right cmp), ecs_Summary = ecm_Summary cmp\<rparr>))"

subsection \<open>The regression check\<close>

definition regressionBadCaseItemOf :: "badCase \<Rightarrow> regressionBadCaseItem" where
  "regressionBadCaseItemOf b =
     \<lparr>rbi_EvalCaseID = bad_EvalCaseID b, rbi_Title = bad_Title b, rbi_Verdict = bad_Verdict b, rbi_Score = bad_Score b\<rparr>"

definition parseThresholds :: "'j evalApiEnv \<Rightarrow> httpRequest \<Rightarrow> string + regressionThresholds" where
  "parseThresholds env r =
     (let score = hrq_Query r ''score_threshold''; failed = hrq_Query r ''new_failed_max'';
          badScore = Inl ''score_threshold must be a non-negative number'';
          badFailed = Inl ''new_failed_max must be a non-negative integer''
      in andThen
           (if score = [] then Inr DefaultRegressionThresholds
            else case eae_ParseFloat env score of
                   None \<Rightarrow> badScore
                 | Some x \<Rightarrow> if x < 0 then badScore else Inr (DefaultRegressionThresholds\<lparr>thr_ScoreDrop := x\<rparr>))
           (\<lambda>t. if failed = [] then Inr t
                else case atoi failed of
                       None \<Rightarrow> badFailed
                     | Some n \<Rightarrow> if n < 0 then badFailed else Inr (t\<lparr>thr_NewFailedCasesMax := n\<rparr>)))"

definition newRegressionCheckResponse :: "regressionResult \<Rightarrow> int \<Rightarrow> regressionCheckResponse" where
  "newRegressionCheckResponse result promoted =
     \<lparr>rcr_BaselineReportID = reg_BaselineReportID result, rcr_CandidateReportID = reg_CandidateReportID result,
      rcr_Verdict = reg_Verdict result, rcr_AverageScoreDelta = reg_AverageScoreDelta result,
      rcr_PassedItemsDelta = reg_PassedItemsDelta result, rcr_FailedItemsDelta = reg_FailedItemsDelta result,
      rcr_NewBadCaseCount = int (length (reg_NewBadCases result)),
      rcr_ResolvedCaseCount = int (length (reg_ResolvedBadCases result)), rcr_PromotedCaseCount = promoted,
      rcr_NewBadCases = map regressionBadCaseItemOf (reg_NewBadCases result),
      rcr_ResolvedBadCases = map regressionBadCaseItemOf (reg_ResolvedBadCases result),
      rcr_Thresholds = reg_Thresholds result\<rparr>"

text \<open>
  \<open>creator\<close> is the creator of cases that the report service was made with, if any, and acts on the
  world \<open>'w\<close>.  With both identifiers present the detection fails only for a missing report.
\<close>

definition handleEvalRegressionCheck ::
    "'j evalApiEnv \<Rightarrow> (regressionCase \<Rightarrow> 'w \<Rightarrow> string option \<times> 'w) option \<Rightarrow> httpRequest \<Rightarrow> apiStores \<Rightarrow> 'w
     \<Rightarrow> evalReportsBody httpReply \<times> 'w" where
  "handleEvalRegressionCheck env creator r s w =
     (let tenantID = queryParam r ''tenant_id'';
          baselineID = queryParam r ''baseline_report_id'';
          candidateID = queryParam r ''candidate_report_id'';
          failed = ReplyError StatusInternalServerError ''regression_check_failed'' ''regression check failed''
      in if hrq_Method r \<noteq> MethodGet \<and> hrq_Method r \<noteq> MethodPost then (methodNotAllowed, w)
         else if tenantID = [] then (invalidQuery ''tenant_id is required'', w)
         else if baselineID = [] then (invalidQuery ''baseline_report_id is required'', w)
         else if candidateID = [] then (invalidQuery ''candidate_report_id is required'', w)
         else case parseThresholds env r of
           Inl message \<Rightarrow> (invalidQuery message, w)
         | Inr thresholds \<Rightarrow>
           (case DetectRegression baselineID candidateID thresholds (evalStoreOf s) of
              Inl err \<Rightarrow> (evalReportNotFound, w)
            | Inr result \<Rightarrow>
              (case (eval_GetEvalReport baselineID (evalStoreOf s), eval_GetEvalReport candidateID (evalStoreOf s)) of
                 (Inr baseline, Inr candidate) \<Rightarrow>
                   if erp_TenantID baseline \<noteq> tenantID \<or> erp_TenantID candidate \<noteq> tenantID
                   then (evalReportNotFound, w)
                   else
                     let (promoted, w') =
                           (if hrq_Method r = MethodPost \<and> hrq_Query r ''auto_promote'' = ''true''
                               \<and> reg_Verdict result = RegressionVerdictRegression
                            then
                              (let (outcome, w1) = PromoteRegressionCases creator (eae_FormatScore env) result tenantID
                                     (fallbackString (queryParam r ''created_by'') ''regression-auto'') w
                               in ((case outcome of Inl err \<Rightarrow> 0 | Inr n \<Rightarrow> n), w1))
                            else (0, w))
                     in (ReplyJSON StatusOK (RegressionBody (newRegressionCheckResponse result promoted)), w')
               | _ \<Rightarrow> (failed, w))))"

end
