(* ===== verification/Http_Eval_Datasets.thy ===== *)
theory Http_Eval_Datasets
  imports Http_Eval_Reports
begin

text \<open>
  The endpoints of eval datasets (\<open>app/httpapi/eval_datasets.go\<close>): datasets with their latest run,
  its report and the cases behind them, the list with its filter, and the changes of a dataset.

  Maps keyed by dataset are only looked up, so the order in which the code fills them does not
  matter; the model goes through the datasets in their order in the list.  The prefixes that
  \<open>fmt.Errorf\<close> puts before an inner error are left out of the reply.
\<close>

subsection \<open>Responses\<close>

record datasetFollowUpAction =
  dfa_Mode :: string
  dfa_SourceDatasetID :: string
  dfa_RunID :: string
  dfa_ReportID :: string

record caseQueueAction =
  cqa_Mode :: string
  cqa_CaseID :: string
  cqa_SourceEvalDatasetID :: string
  cqa_SourceEvalReportID :: string
  cqa_SourceEvalRunID :: string

record followUpCases =
  fcs_FollowUpCaseCount :: int
  fcs_OpenFollowUpCaseCount :: int
  fcs_ClosedFollowUpCaseCount :: int
  fcs_LatestFollowUpCaseID :: string
  fcs_LatestFollowUpCaseStatus :: string

record latestRunSummary =
  lrn_LatestRunID :: string
  lrn_LatestRunStatus :: string
  lrn_LatestReportID :: string
  lrn_LatestReportStatus :: string
  lrn_UnresolvedFollowUpCount :: int
  lrn_NeedsFollowUp :: bool
  lrn_FollowUpCaseCount :: int
  lrn_OpenFollowUpCaseCount :: int
  lrn_LatestFollowUpCaseID :: string
  lrn_LatestFollowUpCaseStatus :: string
  lrn_DatasetFollowUpCaseCount :: int
  lrn_DatasetOpenFollowUpCaseCount :: int
  lrn_DatasetLatestFollowUpCaseID :: string
  lrn_DatasetLatestFollowUpCaseStatus :: string
  lrn_DatasetLatestFollowUpCaseOwner :: string

record recentRunResponse =
  rcn_RunID :: string
  rcn_Status :: string
  rcn_CreatedAt :: string
  rcn_UpdatedAt :: string
  rcn_FinishedAt :: string
  rcn_ItemWithoutOpenFollowUpCount :: int
  rcn_NeedsFollowUp :: bool
  rcn_ReportID :: string
  rcn_ReportStatus :: string
  rcn_PreferredPrimaryAction :: runAction
  rcn_PreferredFollowUpAction :: datasetFollowUpAction
  rcn_LinkedCaseSummary :: linkedCases
  rcn_PreferredCaseAction :: caseQueueAction

record datasetItemResponse =
  dir_EvalCaseID :: string
  dir_Title :: string
  dir_SourceCaseID :: string
  dir_SourceTaskID :: string
  dir_SourceReportID :: string
  dir_TraceID :: string
  dir_VersionID :: string
  dir_LinkedCaseSummary :: linkedCases
  dir_PreferredFollowUpAction :: evalCaseAction
  dir_PreferredPrimaryAction :: evalCaseAction
  dir_PreferredLinkedCaseAction :: evalCaseAction
  dir_PreferredSourceCaseProvenance :: modeLink
  dir_PreferredSourceReportProvenance :: modeLink
  dir_PreferredSourceTaskProvenance :: modeLink
  dir_PreferredTraceProvenance :: modeLink
  dir_PreferredVersionProvenance :: modeLink
  dir_PreferredEvalProvenance :: modeLink
  dir_PreferredFollowUpSliceAction :: modeLink

text \<open>The part of a response that is made from the summary of the latest run.\<close>

record datasetActivity =
  dac_LatestRunID :: string
  dac_LatestRunStatus :: string
  dac_LatestReportID :: string
  dac_LatestReportStatus :: string
  dac_PreferredLatestActivityAction :: runAction
  dac_UnresolvedFollowUpCount :: int
  dac_NeedsFollowUp :: bool
  dac_PreferredFollowUpAction :: datasetFollowUpAction
  dac_LinkedCaseSummary :: linkedCases
  dac_RunBackedCaseSummary :: linkedCases
  dac_PreferredRunBackedCaseAction :: caseQueueAction
  dac_OpenFollowUpCaseCount :: int
  dac_PreferredCaseQueueAction :: caseQueueAction
  dac_DatasetFollowUpCaseSummary :: followUpCases
  dac_DatasetOpenFollowUpCaseCount :: int
  dac_PreferredDatasetCaseQueueAction :: caseQueueAction
  dac_PreferredCaseHandoffAction :: caseQueueAction

record datasetResponse =
  edr_DatasetID :: string
  edr_TenantID :: string
  edr_Name :: string
  edr_Description :: string
  edr_Status :: string
  edr_CreatedBy :: string
  edr_CreatedAt :: string
  edr_UpdatedAt :: string
  edr_PublishedBy :: string
  edr_PublishedAt :: string
  edr_Activity :: datasetActivity
  edr_FollowUpCaseSummary :: followUpCases
  edr_RecentRuns :: "recentRunResponse list"
  edr_Items :: "datasetItemResponse list"

record datasetSummaryResponse =
  dsr_DatasetID :: string
  dsr_TenantID :: string
  dsr_Name :: string
  dsr_Status :: string
  dsr_CreatedBy :: string
  dsr_CreatedAt :: string
  dsr_UpdatedAt :: string
  dsr_ItemCount :: int
  dsr_Activity :: datasetActivity
  dsr_PreferredPrimaryAction :: runAction

datatype evalDatasetsBody = DatasetBody datasetResponse | DatasetsBody "datasetSummaryResponse listBody"

subsection \<open>Actions\<close>

text \<open>An open case of the summary is opened, otherwise the queue it stands for.\<close>

definition openCaseOrQueue :: "int \<Rightarrow> string \<Rightarrow> string \<Rightarrow> caseQueueAction \<Rightarrow> caseQueueAction" where
  "openCaseOrQueue openCount latestID latestStatus target =
     (if openCount \<le> 0
      then \<lparr>cqa_Mode = ''none'', cqa_CaseID = [], cqa_SourceEvalDatasetID = [], cqa_SourceEvalReportID = [],
            cqa_SourceEvalRunID = []\<rparr>
      else if latestID \<noteq> [] \<and> latestStatus = CaseStatusOpen
      then target\<lparr>cqa_Mode := ''open_existing_case'', cqa_CaseID := latestID\<rparr>
      else target\<lparr>cqa_Mode := ''open_existing_queue''\<rparr>)"

definition noQueue :: caseQueueAction where
  "noQueue =
     \<lparr>cqa_Mode = ''none'', cqa_CaseID = [], cqa_SourceEvalDatasetID = [], cqa_SourceEvalReportID = [],
      cqa_SourceEvalRunID = []\<rparr>"

definition newEvalDatasetCaseQueueAction :: "latestRunSummary \<Rightarrow> caseQueueAction" where
  "newEvalDatasetCaseQueueAction latest =
     (if lrn_LatestReportID latest = [] then noQueue
      else openCaseOrQueue (lrn_OpenFollowUpCaseCount latest) (lrn_LatestFollowUpCaseID latest)
             (lrn_LatestFollowUpCaseStatus latest) (noQueue\<lparr>cqa_SourceEvalReportID := lrn_LatestReportID latest\<rparr>))"

definition newEvalDatasetDatasetCaseQueueAction :: "string \<Rightarrow> latestRunSummary \<Rightarrow> caseQueueAction" where
  "newEvalDatasetDatasetCaseQueueAction datasetID latest =
     (if datasetID = [] then noQueue
      else openCaseOrQueue (lrn_DatasetOpenFollowUpCaseCount latest) (lrn_DatasetLatestFollowUpCaseID latest)
             (lrn_DatasetLatestFollowUpCaseStatus latest) (noQueue\<lparr>cqa_SourceEvalDatasetID := datasetID\<rparr>))"

definition newEvalDatasetPreferredCaseHandoffAction :: "string \<Rightarrow> latestRunSummary \<Rightarrow> caseQueueAction" where
  "newEvalDatasetPreferredCaseHandoffAction datasetID latest =
     (let datasetAction = newEvalDatasetDatasetCaseQueueAction datasetID latest in
      if cqa_Mode datasetAction \<noteq> ''none'' then datasetAction else newEvalDatasetCaseQueueAction latest)"

definition newEvalDatasetRunBackedCaseAction :: "latestRunSummary \<Rightarrow> linkedCases \<Rightarrow> caseQueueAction" where
  "newEvalDatasetRunBackedCaseAction latest linked =
     (if lrn_LatestRunID latest = [] then noQueue
      else openCaseOrQueue (lks_OpenCaseCount linked) (lks_LatestCaseID linked) (lks_LatestCaseStatus linked)
             (noQueue\<lparr>cqa_SourceEvalRunID := lrn_LatestRunID latest\<rparr>))"

definition newEvalDatasetRecentRunCaseAction :: "string \<Rightarrow> linkedCases \<Rightarrow> caseQueueAction" where
  "newEvalDatasetRecentRunCaseAction runID linked =
     (if runID = [] then noQueue
      else openCaseOrQueue (lks_OpenCaseCount linked) (lks_LatestCaseID linked) (lks_LatestCaseStatus linked)
             (noQueue\<lparr>cqa_SourceEvalRunID := runID\<rparr>))"

definition newEvalDatasetFollowUpAction :: "string \<Rightarrow> latestRunSummary \<Rightarrow> datasetFollowUpAction" where
  "newEvalDatasetFollowUpAction datasetID latest =
     (let action = \<lparr>dfa_Mode = ''none'', dfa_SourceDatasetID = datasetID, dfa_RunID = [], dfa_ReportID = []\<rparr> in
      if \<not> lrn_NeedsFollowUp latest then action
      else if lrn_LatestReportID latest \<noteq> []
      then action\<lparr>dfa_Mode := ''open_latest_report_queue'', dfa_ReportID := lrn_LatestReportID latest\<rparr>
      else if lrn_LatestRunID latest \<noteq> []
      then action\<lparr>dfa_Mode := ''open_latest_run_queue'', dfa_RunID := lrn_LatestRunID latest\<rparr>
      else action)"

definition newEvalDatasetRecentRunFollowUpAction :: "string \<Rightarrow> string \<Rightarrow> bool \<Rightarrow> datasetFollowUpAction" where
  "newEvalDatasetRecentRunFollowUpAction runID reportID needsFollowUp =
     (let action = \<lparr>dfa_Mode = ''none'', dfa_SourceDatasetID = [], dfa_RunID = [], dfa_ReportID = []\<rparr> in
      if \<not> needsFollowUp then action
      else if reportID \<noteq> [] then action\<lparr>dfa_Mode := ''open_latest_report_queue'', dfa_ReportID := reportID\<rparr>
      else if runID \<noteq> [] then action\<lparr>dfa_Mode := ''open_latest_run_queue'', dfa_RunID := runID\<rparr>
      else action)"

text \<open>The order in which both primary actions choose: a case, an unresolved queue, a report, the run.\<close>

definition chooseRunAction ::
    "string \<Rightarrow> string \<Rightarrow> caseQueueAction \<Rightarrow> datasetFollowUpAction \<Rightarrow> runAction" where
  "chooseRunAction runID reportID caseAction followUpAction =
     (let action = \<lparr>rac_Mode = ''none'', rac_CaseID = [], rac_RunID = runID, rac_ReportID = []\<rparr> in
      if cqa_Mode caseAction = ''open_existing_case'' \<and> cqa_CaseID caseAction \<noteq> []
      then action\<lparr>rac_Mode := ''open_existing_case'', rac_CaseID := cqa_CaseID caseAction\<rparr>
      else if cqa_Mode caseAction = ''open_existing_queue'' then action\<lparr>rac_Mode := ''open_existing_queue''\<rparr>
      else if dfa_Mode followUpAction = ''open_latest_report_queue''
      then action\<lparr>rac_Mode := ''open_latest_report_queue'', rac_ReportID := dfa_ReportID followUpAction\<rparr>
      else if dfa_Mode followUpAction = ''open_latest_run_queue'' then action\<lparr>rac_Mode := ''open_latest_run_queue''\<rparr>
      else if reportID \<noteq> [] then action\<lparr>rac_Mode := ''open_report'', rac_ReportID := reportID\<rparr>
      else if runID \<noteq> [] then action\<lparr>rac_Mode := ''open_run''\<rparr>
      else action)"

definition newEvalDatasetPrimaryAction :: "string \<Rightarrow> latestRunSummary \<Rightarrow> runAction" where
  "newEvalDatasetPrimaryAction datasetID latest =
     chooseRunAction (lrn_LatestRunID latest) (lrn_LatestReportID latest)
       (newEvalDatasetPreferredCaseHandoffAction datasetID latest) (newEvalDatasetFollowUpAction datasetID latest)"

definition newEvalDatasetRecentRunPrimaryAction ::
    "string \<Rightarrow> string \<Rightarrow> caseQueueAction \<Rightarrow> datasetFollowUpAction \<Rightarrow> runAction" where
  "newEvalDatasetRecentRunPrimaryAction = chooseRunAction"

definition newEvalDatasetLatestActivityAction :: "latestRunSummary \<Rightarrow> runAction" where
  "newEvalDatasetLatestActivityAction latest =
     (let action = \<lparr>rac_Mode = ''none'', rac_CaseID = [], rac_RunID = lrn_LatestRunID latest, rac_ReportID = []\<rparr> in
      if lrn_LatestReportID latest \<noteq> []
      then action\<lparr>rac_Mode := ''open_report'', rac_ReportID := lrn_LatestReportID latest\<rparr>
      else if lrn_LatestRunID latest \<noteq> [] then action\<lparr>rac_Mode := ''open_run''\<rparr>
      else action)"

definition closedCount :: "int \<Rightarrow> int \<Rightarrow> int" where
  "closedCount caseCount openCount = (if caseCount - openCount < 0 then 0 else caseCount - openCount)"

definition newEvalDatasetFollowUpCaseSummary :: "latestRunSummary \<Rightarrow> followUpCases" where
  "newEvalDatasetFollowUpCaseSummary latest =
     \<lparr>fcs_FollowUpCaseCount = lrn_FollowUpCaseCount latest,
      fcs_OpenFollowUpCaseCount = lrn_OpenFollowUpCaseCount latest,
      fcs_ClosedFollowUpCaseCount = closedCount (lrn_FollowUpCaseCount latest) (lrn_OpenFollowUpCaseCount latest),
      fcs_LatestFollowUpCaseID = lrn_LatestFollowUpCaseID latest,
      fcs_LatestFollowUpCaseStatus = lrn_LatestFollowUpCaseStatus latest\<rparr>"

definition newEvalDatasetDatasetFollowUpCaseSummary :: "latestRunSummary \<Rightarrow> followUpCases" where
  "newEvalDatasetDatasetFollowUpCaseSummary latest =
     \<lparr>fcs_FollowUpCaseCount = lrn_DatasetFollowUpCaseCount latest,
      fcs_OpenFollowUpCaseCount = lrn_DatasetOpenFollowUpCaseCount latest,
      fcs_ClosedFollowUpCaseCount =
        closedCount (lrn_DatasetFollowUpCaseCount latest) (lrn_DatasetOpenFollowUpCaseCount latest),
      fcs_LatestFollowUpCaseID = lrn_DatasetLatestFollowUpCaseID latest,
      fcs_LatestFollowUpCaseStatus = lrn_DatasetLatestFollowUpCaseStatus latest\<rparr>"

definition newEvalDatasetLinkedCaseSummary :: "latestRunSummary \<Rightarrow> linkedCases" where
  "newEvalDatasetLinkedCaseSummary latest =
     \<lparr>lks_TotalCaseCount = lrn_DatasetFollowUpCaseCount latest,
      lks_OpenCaseCount = lrn_DatasetOpenFollowUpCaseCount latest,
      lks_LatestCaseID = lrn_DatasetLatestFollowUpCaseID latest,
      lks_LatestCaseStatus = lrn_DatasetLatestFollowUpCaseStatus latest,
      lks_LatestAssignedTo = lrn_DatasetLatestFollowUpCaseOwner latest\<rparr>"

definition datasetItemSourceCaseProvenance :: "string \<Rightarrow> modeLink" where
  "datasetItemSourceCaseProvenance i = linkTo ''open'' i"

definition datasetItemSourceReportProvenance :: "string \<Rightarrow> modeLink" where
  "datasetItemSourceReportProvenance i = linkTo ''open_api'' i"

definition datasetItemSourceTaskProvenance :: "string \<Rightarrow> modeLink" where
  "datasetItemSourceTaskProvenance i = linkTo ''open_api'' i"

definition datasetItemTraceProvenance :: "string \<Rightarrow> modeLink" where
  "datasetItemTraceProvenance i = linkTo ''open'' i"

definition datasetItemVersionProvenance :: "string \<Rightarrow> modeLink" where
  "datasetItemVersionProvenance i = linkTo ''open'' i"

definition datasetItemEvalProvenance :: "string \<Rightarrow> modeLink" where
  "datasetItemEvalProvenance i = linkTo ''open'' i"

definition datasetItemFollowUpSliceAction :: "string \<Rightarrow> modeLink" where
  "datasetItemFollowUpSliceAction i = linkTo ''open'' i"

definition newEvalDatasetItemPrimaryAction :: "string \<Rightarrow> followUpSummary \<Rightarrow> evalCaseAction" where
  "newEvalDatasetItemPrimaryAction evalCaseID sm =
     (let linkedAction = newEvalCaseLinkedCaseActionFromSummary evalCaseID (fus_CaseCount sm)
            (fus_OpenCaseCount sm) (fus_LatestCaseID sm) (fus_LatestCaseStatus sm)
      in if eca_Mode linkedAction \<noteq> ''none'' then linkedAction
         else newEvalCaseFollowUpActionFromSummary evalCaseID (fus_OpenCaseCount sm) (fus_LatestCaseID sm))"

subsection \<open>The response of a dataset\<close>

definition newDatasetItemResponse :: "(string \<rightharpoonup> followUpSummary) \<Rightarrow> datasetItem \<Rightarrow> datasetItemResponse" where
  "newDatasetItemResponse summaries member =
     (let i = edi_EvalCaseID member; sm = summaryAt summaries i in
      \<lparr>dir_EvalCaseID = i, dir_Title = edi_Title member, dir_SourceCaseID = edi_SourceCaseID member,
       dir_SourceTaskID = edi_SourceTaskID member, dir_SourceReportID = edi_SourceReportID member,
       dir_TraceID = edi_TraceID member, dir_VersionID = edi_VersionID member,
       dir_LinkedCaseSummary = evalCaseLinkedCaseSummary sm,
       dir_PreferredFollowUpAction =
         newEvalCaseFollowUpActionFromSummary i (fus_OpenCaseCount sm) (fus_LatestCaseID sm),
       dir_PreferredPrimaryAction = newEvalDatasetItemPrimaryAction i sm,
       dir_PreferredLinkedCaseAction = newEvalCaseLinkedCaseActionFromSummary i (fus_CaseCount sm)
         (fus_OpenCaseCount sm) (fus_LatestCaseID sm) (fus_LatestCaseStatus sm),
       dir_PreferredSourceCaseProvenance = datasetItemSourceCaseProvenance (edi_SourceCaseID member),
       dir_PreferredSourceReportProvenance = datasetItemSourceReportProvenance (edi_SourceReportID member),
       dir_PreferredSourceTaskProvenance = datasetItemSourceTaskProvenance (edi_SourceTaskID member),
       dir_PreferredTraceProvenance = datasetItemTraceProvenance (edi_TraceID member),
       dir_PreferredVersionProvenance = datasetItemVersionProvenance (edi_VersionID member),
       dir_PreferredEvalProvenance = datasetItemEvalProvenance i,
       dir_PreferredFollowUpSliceAction = datasetItemFollowUpSliceAction i\<rparr>)"

definition datasetActivityOf :: "string \<Rightarrow> latestRunSummary \<Rightarrow> linkedCases \<Rightarrow> linkedCases \<Rightarrow> datasetActivity" where
  "datasetActivityOf datasetID latest linked runBacked =
     \<lparr>dac_LatestRunID = lrn_LatestRunID latest, dac_LatestRunStatus = lrn_LatestRunStatus latest,
      dac_LatestReportID = lrn_LatestReportID latest, dac_LatestReportStatus = lrn_LatestReportStatus latest,
      dac_PreferredLatestActivityAction = newEvalDatasetLatestActivityAction latest,
      dac_UnresolvedFollowUpCount = lrn_UnresolvedFollowUpCount latest,
      dac_NeedsFollowUp = lrn_NeedsFollowUp latest,
      dac_PreferredFollowUpAction = newEvalDatasetFollowUpAction datasetID latest,
      dac_LinkedCaseSummary = linked, dac_RunBackedCaseSummary = runBacked,
      dac_PreferredRunBackedCaseAction = newEvalDatasetRunBackedCaseAction latest runBacked,
      dac_OpenFollowUpCaseCount = lrn_OpenFollowUpCaseCount latest,
      dac_PreferredCaseQueueAction = newEvalDatasetCaseQueueAction latest,
      dac_DatasetFollowUpCaseSummary = newEvalDatasetDatasetFollowUpCaseSummary latest,
      dac_DatasetOpenFollowUpCaseCount = lrn_DatasetOpenFollowUpCaseCount latest,
      dac_PreferredDatasetCaseQueueAction = newEvalDatasetDatasetCaseQueueAction datasetID latest,
      dac_PreferredCaseHandoffAction = newEvalDatasetPreferredCaseHandoffAction datasetID latest\<rparr>"

definition newEvalDatasetResponse ::
    "(time \<Rightarrow> string) \<Rightarrow> evalDataset \<Rightarrow> latestRunSummary \<Rightarrow> linkedCases \<Rightarrow> linkedCases
     \<Rightarrow> recentRunResponse list \<Rightarrow> (string \<rightharpoonup> followUpSummary) \<Rightarrow> datasetResponse" where
  "newEvalDatasetResponse formatTime item latest linked runBacked recentRuns itemSummaries =
     \<lparr>edr_DatasetID = eds_ID item, edr_TenantID = eds_TenantID item, edr_Name = eds_Name item,
      edr_Description = eds_Description item, edr_Status = eds_Status item, edr_CreatedBy = eds_CreatedBy item,
      edr_CreatedAt = formatTime (eds_CreatedAt item), edr_UpdatedAt = formatTime (eds_UpdatedAt item),
      edr_PublishedBy = eds_PublishedBy item, edr_PublishedAt = formatOptionalTime formatTime (eds_PublishedAt item),
      edr_Activity = datasetActivityOf (eds_ID item) latest linked runBacked,
      edr_FollowUpCaseSummary = newEvalDatasetFollowUpCaseSummary latest, edr_RecentRuns = recentRuns,
      edr_Items = map (newDatasetItemResponse itemSummaries) (eds_Items item)\<rparr>"

definition newEvalDatasetSummaryResponse ::
    "(time \<Rightarrow> string) \<Rightarrow> datasetSummary \<Rightarrow> latestRunSummary \<Rightarrow> linkedCases \<Rightarrow> linkedCases
     \<Rightarrow> datasetSummaryResponse" where
  "newEvalDatasetSummaryResponse formatTime item latest linked runBacked =
     \<lparr>dsr_DatasetID = dsm_ID item, dsr_TenantID = dsm_TenantID item, dsr_Name = dsm_Name item,
      dsr_Status = dsm_Status item, dsr_CreatedBy = dsm_CreatedBy item,
      dsr_CreatedAt = formatTime (dsm_CreatedAt item), dsr_UpdatedAt = formatTime (dsm_UpdatedAt item),
      dsr_ItemCount = dsm_ItemCount item, dsr_Activity = datasetActivityOf (dsm_ID item) latest linked runBacked,
      dsr_PreferredPrimaryAction = newEvalDatasetPrimaryAction (dsm_ID item) latest\<rparr>"

definition zeroLatestRun :: latestRunSummary where
  "zeroLatestRun =
     \<lparr>lrn_LatestRunID = [], lrn_LatestRunStatus = [], lrn_LatestReportID = [], lrn_LatestReportStatus = [],
      lrn_UnresolvedFollowUpCount = 0, lrn_NeedsFollowUp = False, lrn_FollowUpCaseCount = 0,
      lrn_OpenFollowUpCaseCount = 0, lrn_LatestFollowUpCaseID = [], lrn_LatestFollowUpCaseStatus = [],
      lrn_DatasetFollowUpCaseCount = 0, lrn_DatasetOpenFollowUpCaseCount = 0,
      lrn_DatasetLatestFollowUpCaseID = [], lrn_DatasetLatestFollowUpCaseStatus = [],
      lrn_DatasetLatestFollowUpCaseOwner = []\<rparr>"

subsection \<open>The latest run of a dataset\<close>

text \<open>The newest run of each dataset that is asked for; the search ends once all are found.\<close>

fun addLatestRuns ::
    "string list \<Rightarrow> evalRun list \<Rightarrow> (string \<rightharpoonup> evalRun) \<Rightarrow> (string \<rightharpoonup> evalRun) \<times> bool" where
  "addLatestRuns targets [] latest = (latest, False)"
| "addLatestRuns targets (item # items) latest =
     (if run_DatasetID item \<notin> set targets \<or> latest (run_DatasetID item) \<noteq> None
      then addLatestRuns targets items latest
      else
        let latest' = latest(run_DatasetID item \<mapsto> item) in
        if list_all (\<lambda>d. latest' d \<noteq> None) targets then (latest', True)
        else addLatestRuns targets items latest')"

partial_function (option) latestRunsLoop ::
    "(int \<Rightarrow> evalRun listPage option) \<Rightarrow> string list \<Rightarrow> int \<Rightarrow> (string \<rightharpoonup> evalRun) \<Rightarrow> (string \<rightharpoonup> evalRun) option" where
  "latestRunsLoop fetch targets off latest =
     Option.bind (fetch off) (\<lambda>page.
       let (latest', complete) = addLatestRuns targets (pageItems page) latest in
       if complete \<or> \<not> pageHasMore page then Some latest'
       else latestRunsLoop fetch targets (pageNextOffset page) latest')"

definition collectLatestEvalRunsByDataset ::
    "(int \<Rightarrow> string list) \<Rightarrow> string \<Rightarrow> string list \<Rightarrow> evalStore \<Rightarrow> (string \<rightharpoonup> evalRun) option" where
  "collectLatestEvalRunsByDataset keys tenantID targets s =
     (if targets = [] then Some Map.empty
      else latestRunsLoop
             (\<lambda>off. ListRuns (keys off) \<lparr>rnf_TenantID = tenantID, rnf_DatasetID = [], rnf_Status = [],
                rnf_Limit = 100, rnf_Offset = off\<rparr> s)
             targets 0 Map.empty)"

text \<open>The report of a finished run, if it is one of the tenant, and whether there is none at all.\<close>

definition latestRunReport :: "string \<Rightarrow> evalRun \<Rightarrow> evalStore \<Rightarrow> evalReport option \<times> bool" where
  "latestRunReport tenantID run s =
     (if run_Status run = RunStatusSucceeded \<or> run_Status run = RunStatusFailed
      then (case eval_GetEvalReport (EvalReportIDFromRunID (run_ID run)) s of
              Inr rep \<Rightarrow> if erp_TenantID rep = tenantID then (Some rep, False) else (None, False)
            | Inl err \<Rightarrow> (None, True))
      else (None, False))"

text \<open>\<open>counts\<close> and \<open>followUps\<close> are those of the reports of all datasets that are shown.\<close>

definition latestRunSummaryOf ::
    "'j evalApiEnv \<Rightarrow> string \<Rightarrow> (string \<rightharpoonup> int) \<Rightarrow> (string \<rightharpoonup> followUpSummary) \<Rightarrow> apiStores
     \<Rightarrow> evalRun option \<Rightarrow> evalError + latestRunSummary" where
  "latestRunSummaryOf env tenantID counts followUps s latest =
     (case latest of
        None \<Rightarrow> Inr zeroLatestRun
      | Some run \<Rightarrow>
          let base = zeroLatestRun\<lparr>lrn_LatestRunID := run_ID run, lrn_LatestRunStatus := run_Status run\<rparr> in
          case latestRunReport tenantID run (evalStoreOf s) of
            (Some rep, _) \<Rightarrow>
              (let unresolved = countAt counts (erp_ID rep); sm = summaryAt followUps (erp_ID rep) in
               Inr (base\<lparr>lrn_LatestReportID := erp_ID rep, lrn_LatestReportStatus := erp_Status rep,
                 lrn_UnresolvedFollowUpCount := unresolved, lrn_NeedsFollowUp := unresolved > 0,
                 lrn_FollowUpCaseCount := fus_CaseCount sm, lrn_OpenFollowUpCaseCount := fus_OpenCaseCount sm,
                 lrn_LatestFollowUpCaseID := fus_LatestCaseID sm,
                 lrn_LatestFollowUpCaseStatus := fus_LatestCaseStatus sm\<rparr>))
          | (None, True) \<Rightarrow>
              andThen (evalRunFollowUpSummary env (run_ID run) tenantID s) (\<lambda>sm.
                Inr (base\<lparr>lrn_UnresolvedFollowUpCount := rfu_WithoutOpen sm,
                          lrn_NeedsFollowUp := rfu_WithoutOpen sm > 0\<rparr>))
          | (None, False) \<Rightarrow> Inr base)"

fun collectAll :: "('a \<Rightarrow> 'e + 'b) \<Rightarrow> 'a list \<Rightarrow> 'e + 'b list" where
  "collectAll f [] = Inr []"
| "collectAll f (x # xs) = andThen (f x) (\<lambda>y. andThen (collectAll f xs) (\<lambda>ys. Inr (y # ys)))"

subsection \<open>The cases of a dataset\<close>

definition addReportOfDataset :: "string list \<Rightarrow> evalReport \<Rightarrow> (string \<rightharpoonup> string list) \<Rightarrow> (string \<rightharpoonup> string list)" where
  "addReportOfDataset targets item ids =
     (if erp_DatasetID item \<notin> set targets then ids else appendEntry ids (erp_DatasetID item) (erp_ID item))"

definition collectEvalReportIDsByDataset ::
    "(int \<Rightarrow> string list) \<Rightarrow> string \<Rightarrow> string list \<Rightarrow> evalStore \<Rightarrow> (string \<rightharpoonup> string list) option" where
  "collectEvalReportIDsByDataset keys tenantID targets s =
     (if targets = [] then Some Map.empty
      else foldPages
             (\<lambda>off. ListEvalReports (keys off) \<lparr>erf_ReportID = [], erf_TenantID = tenantID, erf_DatasetID = [],
                erf_RunStatus = [], erf_Status = [], erf_Limit = 100, erf_Offset = off\<rparr> s)
             (addReportOfDataset targets) Map.empty 0)"

text \<open>The queue of one dataset: the cases of all its reports, and the latest of them.\<close>

definition datasetQueue ::
    "string list \<Rightarrow> string \<Rightarrow> string list \<Rightarrow> (string \<rightharpoonup> followUpSummary) \<Rightarrow> caseState \<Rightarrow> followUpCases option" where
  "datasetQueue keys tenantID reportIDs summaries cases =
     (let caseCount = sum_list (map (\<lambda>i. fus_CaseCount (summaryAt summaries i)) reportIDs);
          openCount = sum_list (map (\<lambda>i. fus_OpenCaseCount (summaryAt summaries i)) reportIDs);
          queue = \<lparr>fcs_FollowUpCaseCount = caseCount, fcs_OpenFollowUpCaseCount = openCount,
            fcs_ClosedFollowUpCaseCount = closedCount caseCount openCount,
            fcs_LatestFollowUpCaseID = [], fcs_LatestFollowUpCaseStatus = []\<rparr>
      in if reportIDs = [] then Some queue
         else map_option (\<lambda>page. case pageItems page of
                  [] \<Rightarrow> queue
                | c # _ \<Rightarrow> queue\<lparr>fcs_LatestFollowUpCaseID := cs_ID c, fcs_LatestFollowUpCaseStatus := cs_Status c\<rparr>)
                (case_List keys
                   (emptyCaseFilter\<lparr>cf_TenantID := tenantID, cf_SourceEvalReportIDs := reportIDs, cf_Limit := 1\<rparr>) cases))"

fun datasetQueues ::
    "(string \<Rightarrow> followUpCases option) \<Rightarrow> string list \<Rightarrow> (string \<rightharpoonup> followUpCases) option" where
  "datasetQueues queue [] = Some Map.empty"
| "datasetQueues queue (d # ds) =
     Option.bind (queue d) (\<lambda>q. map_option (\<lambda>m. m(d \<mapsto> q)) (datasetQueues queue ds))"

definition evalDatasetCaseQueueSummaries ::
    "'j evalApiEnv \<Rightarrow> string \<Rightarrow> string list \<Rightarrow> apiStores \<Rightarrow> (string \<rightharpoonup> followUpCases) option" where
  "evalDatasetCaseQueueSummaries env tenantID targets s =
     (if targets = [] then Some Map.empty
      else Option.bind (collectEvalReportIDsByDataset (eae_EvalKeys env ''dataset reports'') tenantID targets (evalStoreOf s))
        (\<lambda>ids.
          let allIDs = remdups (concat (map (entries ids) targets));
              summaries = SummarizeBySourceEvalReportIDs (eae_CaseKeys env ''dataset reports'') tenantID allIDs (api_Cases s)
          in datasetQueues
               (\<lambda>d. datasetQueue (eae_CaseKeys env (''queue '' @ d)) tenantID (entries ids d) summaries (api_Cases s)) targets))"

definition withQueue :: "followUpCases \<Rightarrow> latestRunSummary \<Rightarrow> latestRunSummary" where
  "withQueue queue latest =
     latest\<lparr>lrn_DatasetFollowUpCaseCount := fcs_FollowUpCaseCount queue,
            lrn_DatasetOpenFollowUpCaseCount := fcs_OpenFollowUpCaseCount queue,
            lrn_DatasetLatestFollowUpCaseID := fcs_LatestFollowUpCaseID queue,
            lrn_DatasetLatestFollowUpCaseStatus := fcs_LatestFollowUpCaseStatus queue\<rparr>"

definition evalDatasetLatestRunSummaries ::
    "'j evalApiEnv \<Rightarrow> string \<Rightarrow> string list \<Rightarrow> apiStores \<Rightarrow> (evalError + (string \<rightharpoonup> latestRunSummary)) option" where
  "evalDatasetLatestRunSummaries env tenantID targets s =
     (if targets = [] then Some (Inr Map.empty)
      else Option.bind (collectLatestEvalRunsByDataset (eae_EvalKeys env ''latest runs'') tenantID targets (evalStoreOf s))
        (\<lambda>latest.
          let reports = List.map_filter (\<lambda>d. Option.bind (latest d)
                (\<lambda>run. fst (latestRunReport tenantID run (evalStoreOf s)))) targets;
              counts = evalReportBadCaseWithoutOpenFollowUpCounts (eae_CaseKeys env ''latest bad cases'') tenantID reports
                (api_Cases s);
              followUps = SummarizeBySourceEvalReportIDs (eae_CaseKeys env ''latest reports'') tenantID
                (map erp_ID reports) (api_Cases s)
          in case collectAll (\<lambda>d. latestRunSummaryOf env tenantID counts followUps s (latest d)) targets of
               Inl err \<Rightarrow> Some (Inl err)
             | Inr summaries \<Rightarrow>
                 map_option (\<lambda>queues. Inr (\<lambda>d. map_option
                     (\<lambda>latestRun. case queues d of None \<Rightarrow> latestRun | Some queue \<Rightarrow> withQueue queue latestRun)
                     (map_of (zip targets summaries) d)))
                   (evalDatasetCaseQueueSummaries env tenantID targets s)))"

definition latestRunAt :: "(string \<rightharpoonup> latestRunSummary) \<Rightarrow> string \<Rightarrow> latestRunSummary" where
  "latestRunAt m d = (case m d of None \<Rightarrow> zeroLatestRun | Some x \<Rightarrow> x)"

definition evalDatasetLinkedCaseSummary :: "string \<Rightarrow> latestRunSummary \<Rightarrow> caseState \<Rightarrow> linkedCases" where
  "evalDatasetLinkedCaseSummary tenantID latest cases =
     (let linked = newEvalDatasetLinkedCaseSummary latest in
      if tenantID = [] \<or> lrn_DatasetLatestFollowUpCaseID latest = [] then linked
      else case case_Get (lrn_DatasetLatestFollowUpCaseID latest) cases of
             Inl err \<Rightarrow> linked
           | Inr newestCase \<Rightarrow>
               if cs_TenantID newestCase \<noteq> tenantID then linked
               else linked\<lparr>lks_LatestAssignedTo := cs_AssignedTo newestCase\<rparr>)"

definition evalDatasetRunBackedCaseSummary ::
    "string list \<Rightarrow> string \<Rightarrow> latestRunSummary \<Rightarrow> caseState \<Rightarrow> linkedCases" where
  "evalDatasetRunBackedCaseSummary keys tenantID latest cases =
     (let runID = lrn_LatestRunID latest in
      if tenantID = [] \<or> runID = [] then noLinkedCases
      else evalRunLinkedCaseSummary (runSummaryAt (SummarizeBySourceEvalRunIDs keys tenantID [runID] cases) runID))"

text \<open>For a list one call summarises the runs of all rows.\<close>

definition evalDatasetRunBackedCaseSummaries ::
    "string list \<Rightarrow> string \<Rightarrow> latestRunSummary list \<Rightarrow> caseState \<Rightarrow> latestRunSummary \<Rightarrow> linkedCases" where
  "evalDatasetRunBackedCaseSummaries keys tenantID latestRuns cases latest =
     (let runIDs = fold (\<lambda>l ids. appendIfMissing ids (lrn_LatestRunID l)) latestRuns [] in
      if tenantID = [] \<or> runIDs = [] then noLinkedCases
      else evalRunLinkedCaseSummary
             (runSummaryAt (SummarizeBySourceEvalRunIDs keys tenantID runIDs cases) (lrn_LatestRunID latest)))"

definition recentRunRow :: "'j evalApiEnv \<Rightarrow> string \<Rightarrow> apiStores \<Rightarrow> evalRun \<Rightarrow> evalError + recentRunResponse" where
  "recentRunRow env tenantID s run =
     (let finished = (run_Status run = RunStatusSucceeded \<or> run_Status run = RunStatusFailed);
          plain = \<lparr>rcn_RunID = run_ID run, rcn_Status = run_Status run,
            rcn_CreatedAt = eae_FormatTime env (run_CreatedAt run), rcn_UpdatedAt = eae_FormatTime env (run_UpdatedAt run),
            rcn_FinishedAt = formatOptionalTime (eae_FormatTime env) (run_FinishedAt run),
            rcn_ItemWithoutOpenFollowUpCount = 0, rcn_NeedsFollowUp = False, rcn_ReportID = [], rcn_ReportStatus = [],
            rcn_PreferredPrimaryAction = \<lparr>rac_Mode = [], rac_CaseID = [], rac_RunID = [], rac_ReportID = []\<rparr>,
            rcn_PreferredFollowUpAction = \<lparr>dfa_Mode = [], dfa_SourceDatasetID = [], dfa_RunID = [], dfa_ReportID = []\<rparr>,
            rcn_LinkedCaseSummary = noLinkedCases, rcn_PreferredCaseAction = noQueue\<lparr>cqa_Mode := []\<rparr>\<rparr>;
          withPrimary = (\<lambda>row. row\<lparr>rcn_PreferredPrimaryAction := newEvalDatasetRecentRunPrimaryAction (run_ID run)
            (rcn_ReportID row) (rcn_PreferredCaseAction row) (rcn_PreferredFollowUpAction row)\<rparr>)
      in if \<not> finished then Inr (withPrimary plain)
         else
           andThen (evalRunFollowUpSummary env (run_ID run) tenantID s) (\<lambda>sm.
             let rep = (case latestRunReport tenantID run (evalStoreOf s) of
                   (Some r, _) \<Rightarrow> \<lparr>rrs_ReportID = erp_ID r, rrs_ReportStatus = erp_Status r\<rparr> | _ \<Rightarrow> noReport);
                 needs = rfu_WithoutOpen sm > 0;
                 linked = evalRunLinkedCaseSummary (rfu_Run sm)
             in Inr (withPrimary (plain\<lparr>rcn_ItemWithoutOpenFollowUpCount := rfu_WithoutOpen sm, rcn_NeedsFollowUp := needs,
                  rcn_LinkedCaseSummary := linked,
                  rcn_PreferredCaseAction := newEvalDatasetRecentRunCaseAction (run_ID run) linked,
                  rcn_ReportID := rrs_ReportID rep, rcn_ReportStatus := rrs_ReportStatus rep,
                  rcn_PreferredFollowUpAction :=
                    newEvalDatasetRecentRunFollowUpAction (run_ID run) (rrs_ReportID rep) needs\<rparr>))))"

definition evalDatasetRecentRuns ::
    "'j evalApiEnv \<Rightarrow> string \<Rightarrow> string \<Rightarrow> int \<Rightarrow> apiStores \<Rightarrow> (evalError + recentRunResponse list) option" where
  "evalDatasetRecentRuns env tenantID datasetID limit s =
     (if limit \<le> 0 then Some (Inr [])
      else map_option (\<lambda>page. collectAll (recentRunRow env tenantID s) (pageItems page))
             (ListRuns (eae_EvalKeys env ''recent runs'' 0) \<lparr>rnf_TenantID = tenantID, rnf_DatasetID = datasetID,
                rnf_Status = [], rnf_Limit = limit, rnf_Offset = 0\<rparr> (evalStoreOf s)))"

definition evalDatasetItemFollowUpSummaries ::
    "string list \<Rightarrow> string \<Rightarrow> evalDataset \<Rightarrow> caseState \<Rightarrow> string \<rightharpoonup> followUpSummary" where
  "evalDatasetItemFollowUpSummaries keys tenantID item cases =
     (let evalCaseIDs = fold (\<lambda>member ids. appendIfMissing ids (edi_EvalCaseID member)) (eds_Items item) [] in
      if evalCaseIDs = [] then Map.empty else SummarizeBySourceEvalCaseIDs keys tenantID evalCaseIDs cases)"


subsection \<open>The list\<close>

definition parseEvalDatasetListFilter :: "httpRequest \<Rightarrow> string + datasetFilter \<times> bool option" where
  "parseEvalDatasetListFilter r =
     (if queryParam r ''tenant_id'' = [] then Inl ''tenant_id is required''
      else
        andThen (limitFrom (queryParam r ''limit'')) (\<lambda>limit.
        andThen (offsetFrom (queryParam r ''offset'')) (\<lambda>offset.
        andThen (parseStrictFlag r ''needs_follow_up'') (\<lambda>needsFollowUp.
          Inr (\<lparr>dsf_TenantID = queryParam r ''tenant_id'', dsf_Status = queryParam r ''status'',
                dsf_CreatedBy = queryParam r ''created_by'', dsf_Limit = limit, dsf_Offset = offset\<rparr>,
               needsFollowUp)))))"

text \<open>The rows of the datasets, with the latest run of each and the cases behind it.\<close>

definition buildEvalDatasetListRows ::
    "(time \<Rightarrow> string) \<Rightarrow> datasetSummary list \<Rightarrow> (string \<Rightarrow> latestRunSummary) \<Rightarrow> (latestRunSummary \<Rightarrow> linkedCases)
     \<Rightarrow> (latestRunSummary \<Rightarrow> linkedCases) \<Rightarrow> datasetSummaryResponse list" where
  "buildEvalDatasetListRows formatTime items latestOf linkedOf runBackedOf =
     map (\<lambda>item. let latest = latestOf (dsm_ID item) in
            newEvalDatasetSummaryResponse formatTime item latest (linkedOf latest) (runBackedOf latest)) items"

definition datasetRows ::
    "'j evalApiEnv \<Rightarrow> string \<Rightarrow> apiStores \<Rightarrow> datasetSummary list
     \<Rightarrow> (evalError + datasetSummaryResponse list) option" where
  "datasetRows env tenantID s items =
     map_option (map_sum id (\<lambda>latestRuns.
         buildEvalDatasetListRows (eae_FormatTime env) items (latestRunAt latestRuns)
           (\<lambda>latest. evalDatasetLinkedCaseSummary tenantID latest (api_Cases s))
           (evalDatasetRunBackedCaseSummaries (eae_CaseKeys env ''run cases'') tenantID
             (map (\<lambda>item. latestRunAt latestRuns (dsm_ID item)) items) (api_Cases s))))
       (evalDatasetLatestRunSummaries env tenantID (map dsm_ID items) s)"

text \<open>With a filter, every dataset of the tenant is read before the first row is chosen.\<close>

definition listEvalDatasetsResponse ::
    "'j evalApiEnv \<Rightarrow> datasetFilter \<Rightarrow> bool option \<Rightarrow> apiStores
     \<Rightarrow> (evalError + datasetSummaryResponse listBody) option" where
  "listEvalDatasetsResponse env f needsFollowUp s =
     (case needsFollowUp of
        None \<Rightarrow>
          Option.bind (ListDatasets (eae_EvalKeys env ''datasets'' (dsf_Offset f)) f (evalStoreOf s)) (\<lambda>page.
            map_option (map_sum id (\<lambda>rows. \<lparr>lbd_Items = rows, lbd_HasMore = pageHasMore page,
                lbd_NextOffset = (if pageHasMore page then Some (pageNextOffset page) else None)\<rparr>))
              (datasetRows env (dsf_TenantID f) s (pageItems page)))
      | Some wanted \<Rightarrow>
          let scan = f\<lparr>dsf_Limit := (if dsf_Limit f < 50 then 50 else dsf_Limit f)\<rparr> in
          Option.bind (foldPages
              (\<lambda>off. ListDatasets (eae_EvalKeys env ''datasets'' off) (scan\<lparr>dsf_Offset := off\<rparr>) (evalStoreOf s))
              (\<lambda>item items. items @ [item]) [] 0) (\<lambda>candidates.
          Option.bind (datasetRows env (dsf_TenantID f) s candidates) (\<lambda>result.
            case result of
              Inl err \<Rightarrow> Some (Inl err)
            | Inr rows \<Rightarrow>
                if eae_MaxCap env < dsf_Limit f then None
                else Some (Inr
                  (case collectRows (\<lambda>row. dac_NeedsFollowUp (dsr_Activity row) = wanted) (dsf_Offset f) (dsf_Limit f)
                          rows (0, []) of
                     Inl collected \<Rightarrow> \<lparr>lbd_Items = collected, lbd_HasMore = True,
                       lbd_NextOffset = Some (goInt (dsf_Offset f + dsf_Limit f))\<rparr>
                   | Inr (_, collected) \<Rightarrow> \<lparr>lbd_Items = collected, lbd_HasMore = False, lbd_NextOffset = None\<rparr>)))))"

definition handleListEvalDatasets ::
    "'j evalApiEnv \<Rightarrow> httpRequest \<Rightarrow> apiStores \<Rightarrow> evalDatasetsBody httpReply option" where
  "handleListEvalDatasets env r s =
     (case parseEvalDatasetListFilter r of
        Inl message \<Rightarrow> Some (invalidQuery message)
      | Inr (f, needsFollowUp) \<Rightarrow>
          map_option (\<lambda>result.
            case result of
              Inl err \<Rightarrow> ReplyError StatusInternalServerError ''eval_dataset_list_failed'' (evalErrorText err)
            | Inr body \<Rightarrow> ReplyJSON StatusOK (DatasetsBody body))
            (listEvalDatasetsResponse env f needsFollowUp s))"

subsection \<open>One dataset\<close>

abbreviation (input) evalDatasetNotFound :: "'b httpReply" where
  "evalDatasetNotFound \<equiv> ReplyError StatusNotFound ''eval_dataset_not_found'' ''eval dataset not found''"

text \<open>A dataset that was just changed is shown without its runs.\<close>

definition plainDatasetReply :: "'j evalApiEnv \<Rightarrow> int \<Rightarrow> evalDataset \<Rightarrow> evalDatasetsBody httpReply" where
  "plainDatasetReply env status item =
     ReplyJSON status (DatasetBody (newEvalDatasetResponse (eae_FormatTime env) item zeroLatestRun noLinkedCases
       noLinkedCases [] Map.empty))"

definition handleCreateEvalDataset ::
    "'j evalApiEnv \<Rightarrow> httpRequest \<Rightarrow> apiStores \<Rightarrow> evalDatasetsBody httpReply \<times> apiStores" where
  "handleCreateEvalDataset env r s =
     (case eae_DecodeDataset env (hrq_Body r) of
        None \<Rightarrow> (invalidJSON, s)
      | Some req \<Rightarrow>
          if trimSpace (ced_TenantID req) = [] \<or> ced_EvalCaseIDs req = []
          then (ReplyError StatusBadRequest ''invalid_eval_dataset'' ''tenant_id and eval_case_ids are required'', s)
          else
            let (result, st) = CreateDataset (\<lambda>i. GetEvalCase (evalDepsOf env s) i (evalStoreOf s)) (eae_Now env)
                  \<lparr>cdi_TenantID = trimSpace (ced_TenantID req), cdi_Name = trimSpace (ced_Name req),
                   cdi_Description = trimSpace (ced_Description req), cdi_EvalCaseIDs = ced_EvalCaseIDs req,
                   cdi_CreatedBy = trimSpace (ced_CreatedBy req)\<rparr> (api_Evals s)
            in ((case result of
                   Inl (ErrEvalCaseNotFound _) \<Rightarrow>
                     ReplyError StatusNotFound ''eval_case_not_found'' ''eval case not found''
                 | Inl ErrInvalidEvalDataset \<Rightarrow>
                     ReplyError StatusConflict ''invalid_eval_dataset''
                       ''eval dataset request is invalid for the current tenant scope''
                 | Inl err \<Rightarrow> ReplyError StatusInternalServerError ''eval_dataset_create_failed'' (evalErrorText err)
                 | Inr item \<Rightarrow> plainDatasetReply env StatusCreated item),
                s\<lparr>api_Evals := st\<rparr>))"

definition handleGetEvalDataset ::
    "'j evalApiEnv \<Rightarrow> httpRequest \<Rightarrow> string \<Rightarrow> apiStores \<Rightarrow> evalDatasetsBody httpReply option" where
  "handleGetEvalDataset env r datasetID s =
     (let tenantID = queryParam r ''tenant_id'' in
      if tenantID = [] then Some (invalidQuery ''tenant_id is required'')
      else case eval_GetDataset datasetID (evalStoreOf s) of
        Inl err \<Rightarrow> Some evalDatasetNotFound
      | Inr item \<Rightarrow>
          if eds_TenantID item \<noteq> tenantID then Some evalDatasetNotFound
          else
            Option.bind (evalDatasetLatestRunSummaries env tenantID [eds_ID item] s) (\<lambda>summaries.
              case summaries of
                Inl err \<Rightarrow>
                  Some (ReplyError StatusInternalServerError ''eval_dataset_latest_run_summary_failed'' (evalErrorText err))
              | Inr latestRuns \<Rightarrow>
                  let latest = latestRunAt latestRuns (eds_ID item);
                      linked = evalDatasetLinkedCaseSummary tenantID latest (api_Cases s);
                      runBacked = evalDatasetRunBackedCaseSummary (eae_CaseKeys env ''run cases'') tenantID latest (api_Cases s)
                  in map_option (\<lambda>recent.
                       case recent of
                         Inl err \<Rightarrow>
                           ReplyError StatusInternalServerError ''eval_dataset_recent_runs_failed'' (evalErrorText err)
                       | Inr rows \<Rightarrow>
                           ReplyJSON StatusOK (DatasetBody
                             (newEvalDatasetResponse (eae_FormatTime env) item latest linked runBacked rows
                               (evalDatasetItemFollowUpSummaries (eae_CaseKeys env ''items'') tenantID item (api_Cases s)))))
                       (evalDatasetRecentRuns env tenantID (eds_ID item) 5 s)))"

definition handleAddEvalDatasetItem ::
    "'j evalApiEnv \<Rightarrow> httpRequest \<Rightarrow> string \<Rightarrow> apiStores \<Rightarrow> evalDatasetsBody httpReply \<times> apiStores" where
  "handleAddEvalDatasetItem env r datasetID s =
     (case eae_DecodeItem env (hrq_Body r) of
        None \<Rightarrow> (invalidJSON, s)
      | Some req \<Rightarrow>
          if trimSpace (aed_TenantID req) = [] \<or> trimSpace (aed_EvalCaseID req) = []
          then (ReplyError StatusBadRequest ''invalid_eval_dataset'' ''tenant_id and eval_case_id are required'', s)
          else
            let (result, st) = AddDatasetItem (\<lambda>i. GetEvalCase (evalDepsOf env s) i (evalStoreOf s)) (eae_Now env)
                  (eae_Others env) datasetID
                  \<lparr>adi_TenantID = trimSpace (aed_TenantID req), adi_EvalCaseID = trimSpace (aed_EvalCaseID req)\<rparr>
                  (evalStoreOf s)
            in ((case result of
                   Inl (ErrEvalDatasetNotFound _) \<Rightarrow> evalDatasetNotFound
                 | Inl (ErrEvalCaseNotFound _) \<Rightarrow>
                     ReplyError StatusNotFound ''eval_case_not_found'' ''eval case not found''
                 | Inl ErrInvalidEvalDatasetState \<Rightarrow>
                     ReplyError StatusConflict ''invalid_eval_dataset_state''
                       ''eval dataset is not in a valid state for append''
                 | Inl ErrInvalidEvalDataset \<Rightarrow>
                     ReplyError StatusConflict ''invalid_eval_dataset''
                       ''eval dataset request is invalid for the current tenant scope''
                 | Inl err \<Rightarrow> ReplyError StatusInternalServerError ''eval_dataset_update_failed'' (evalErrorText err)
                 | Inr item \<Rightarrow> plainDatasetReply env StatusOK item),
                withEvalStore st s))"

definition handlePublishEvalDataset ::
    "'j evalApiEnv \<Rightarrow> httpRequest \<Rightarrow> string \<Rightarrow> apiStores \<Rightarrow> evalDatasetsBody httpReply \<times> apiStores" where
  "handlePublishEvalDataset env r datasetID s =
     (case eae_DecodePublish env (hrq_Body r) of
        None \<Rightarrow> (invalidJSON, s)
      | Some req \<Rightarrow>
          if trimSpace (ped_TenantID req) = []
          then (ReplyError StatusBadRequest ''invalid_eval_dataset'' ''tenant_id is required'', s)
          else
            let (result, st) = PublishDataset (eae_Now env) (eae_Others env) datasetID
                  \<lparr>pbi_TenantID = trimSpace (ped_TenantID req), pbi_PublishedBy = trimSpace (ped_PublishedBy req)\<rparr>
                  (evalStoreOf s)
            in ((case result of
                   Inl (ErrEvalDatasetNotFound _) \<Rightarrow> evalDatasetNotFound
                 | Inl ErrInvalidEvalDatasetState \<Rightarrow>
                     ReplyError StatusConflict ''invalid_eval_dataset_state''
                       ''eval dataset is not in a valid state for publish''
                 | Inl ErrInvalidEvalDataset \<Rightarrow>
                     ReplyError StatusConflict ''invalid_eval_dataset''
                       ''eval dataset request is invalid for the current tenant scope''
                 | Inl err \<Rightarrow> ReplyError StatusInternalServerError ''eval_dataset_publish_failed'' (evalErrorText err)
                 | Inr item \<Rightarrow> plainDatasetReply env StatusOK item),
                withEvalStore st s))"

definition handleEvalDatasets ::
    "'j evalApiEnv \<Rightarrow> httpRequest \<Rightarrow> apiStores \<Rightarrow> evalDatasetsBody httpReply option \<times> apiStores" where
  "handleEvalDatasets env r s =
     (if hrq_Method r = MethodGet then (handleListEvalDatasets env r s, s)
      else if hrq_Method r = MethodPost
      then (let (reply, s') = handleCreateEvalDataset env r s in (Some reply, s'))
      else (Some methodNotAllowed, s))"

definition parseEvalDatasetPath :: "string \<Rightarrow> (string \<times> string) option" where
  "parseEvalDatasetPath path = parseActionPath ''/api/v1/eval-datasets/'' path"

definition handleEvalDatasetByID ::
    "'j evalApiEnv \<Rightarrow> httpRequest \<Rightarrow> apiStores \<Rightarrow> evalDatasetsBody httpReply option \<times> apiStores" where
  "handleEvalDatasetByID env r s =
     (case parseEvalDatasetPath (hrq_Path r) of
        None \<Rightarrow> (Some notFound, s)
      | Some (datasetID, action) \<Rightarrow>
          if action = []
          then (if hrq_Method r \<noteq> MethodGet then (Some methodNotAllowed, s) else (handleGetEvalDataset env r datasetID s, s))
          else if action = ''items''
          then (if hrq_Method r \<noteq> MethodPost then (Some methodNotAllowed, s)
                else (let (reply, s') = handleAddEvalDatasetItem env r datasetID s in (Some reply, s')))
          else if action = ''publish''
          then (if hrq_Method r \<noteq> MethodPost then (Some methodNotAllowed, s)
                else (let (reply, s') = handlePublishEvalDataset env r datasetID s in (Some reply, s')))
          else (Some notFound, s))"

end
