(* ===== verification/Http_Case_Laws.thy ===== *)
theory Http_Case_Laws
  imports Http_Cases Case_Lifecycle
begin

text \<open>
  What the case endpoints guarantee: a request reads and changes cases of the tenant it names
  only, a request to create a case for evaluation sources is answered with the newest open case of
  these sources where there is one, and a new case has the sources it names, but for those behind a
  report.
\<close>

subsection \<open>Operations on one case touch no other\<close>

definition touchesOnly :: "string \<Rightarrow> caseState \<Rightarrow> caseState \<Rightarrow> bool" where
  "touchesOnly i s s' \<longleftrightarrow>
     (\<forall>k. k \<noteq> i \<longrightarrow> cst_records s' k = cst_records s k \<and> entries (cst_notes s') k = entries (cst_notes s) k)"

definition sameTenantAs :: "string \<Rightarrow> caseState \<Rightarrow> caseRec \<Rightarrow> bool" where
  "sameTenantAs i s c \<longleftrightarrow> (\<exists>d. cst_records s i = Some d \<and> cs_TenantID c = cs_TenantID d)"

lemma touchesOnly_refl [simp]: "touchesOnly i s s"
  by (simp add: touchesOnly_def)

lemma sameTenantAs_eq: "sameTenantAs i s c \<Longrightarrow> cst_records s i = Some d \<Longrightarrow> cs_TenantID c = cs_TenantID d"
  by (simp add: sameTenantAs_def)

lemma case_service_touches:
  assumes "caseStateOK s"
  shows "CloseCase now i who s = (r, s') \<Longrightarrow> touchesOnly i s s' \<and> (\<forall>c. r = Inr c \<longrightarrow> sameTenantAs i s c)"
    and "ReopenCase now i who s = (r, s') \<Longrightarrow> touchesOnly i s s' \<and> (\<forall>c. r = Inr c \<longrightarrow> sameTenantAs i s c)"
    and "AssignCase now item who s = (r, s')
      \<Longrightarrow> touchesOnly (cs_ID item) s s' \<and> (\<forall>c. r = Inr c \<longrightarrow> sameTenantAs (cs_ID item) s c)"
    and "UnassignCase now item who s = (r, s')
      \<Longrightarrow> touchesOnly (cs_ID item) s s' \<and> (\<forall>c. r = Inr c \<longrightarrow> sameTenantAs (cs_ID item) s c)"
    and "AddNote now item body who s = (r', s')
      \<Longrightarrow> touchesOnly (cs_ID item) s s' \<and> (\<forall>n. r' = Inr n \<longrightarrow> cn_TenantID n = cs_TenantID item)"
proof -
  have id: "cst_records s k = Some c \<Longrightarrow> cs_ID c = k" for k c
    using caseStateOK_suffix(2) [OF assms] by blast
  show "CloseCase now i who s = (r, s') \<Longrightarrow> touchesOnly i s s' \<and> (\<forall>c. r = Inr c \<longrightarrow> sameTenantAs i s c)"
    by (auto simp: CloseCase_def case_Close_def touchesOnly_def sameTenantAs_def Let_def
        split: option.splits if_splits)
  show "ReopenCase now i who s = (r, s') \<Longrightarrow> touchesOnly i s s' \<and> (\<forall>c. r = Inr c \<longrightarrow> sameTenantAs i s c)"
    by (auto simp: ReopenCase_def case_Reopen_def touchesOnly_def sameTenantAs_def Let_def id
        split: option.splits if_splits)
  show "AssignCase now item who s = (r, s')
      \<Longrightarrow> touchesOnly (cs_ID item) s s' \<and> (\<forall>c. r = Inr c \<longrightarrow> sameTenantAs (cs_ID item) s c)"
    by (auto simp: AssignCase_def case_Assign_def touchesOnly_def sameTenantAs_def Let_def
        split: option.splits if_splits)
  show "UnassignCase now item who s = (r, s')
      \<Longrightarrow> touchesOnly (cs_ID item) s s' \<and> (\<forall>c. r = Inr c \<longrightarrow> sameTenantAs (cs_ID item) s c)"
    by (auto simp: UnassignCase_def case_Unassign_def touchesOnly_def sameTenantAs_def Let_def id
        split: option.splits if_splits)
  show "AddNote now item body who s = (r', s')
      \<Longrightarrow> touchesOnly (cs_ID item) s s' \<and> (\<forall>n. r' = Inr n \<longrightarrow> cn_TenantID n = cs_TenantID item)"
    by (auto simp: AddNote_def AppendNote_def touchesOnly_def Let_def split: option.splits if_splits)
qed

text \<open>What other requests do leaves the tenant of a case as it is.\<close>

lemma caseStep_keeps_tenant:
  assumes "caseStep m s s'" "caseStateOK s"
  shows "caseStateOK s' \<and> (\<forall>k c. cst_records s k = Some c \<longrightarrow> sameTenantAs k s' c)"
  using step_updates [OF assms(1)]
proof (elim disjE exE conjE)
  assume u: "updatesOne m s s'"
  have "sameTenantAs k s' c" if "cst_records s k = Some c" for k c
  proof (cases "cst_records s' = cst_records s")
    case True
    with that show ?thesis by (simp add: sameTenantAs_def)
  next
    case False
    obtain i d d' where "cst_records s i = Some d" "cst_records s' = (cst_records s)(i \<mapsto> d')" "sameSource d d'"
      using updatesOneE [OF u False] by blast
    with that show ?thesis by (auto simp: sameTenantAs_def dest: sameSource_fields)
  qed
  with updatesOne_OK [OF u assms(2)] show ?thesis by blast
next
  fix ks now input r
  assume a: "iterOrder (cst_records s) ks" "cst_caseSeq s < - 1" "CreateCaseWithOutcome ks now input s = (r, s')"
  have "sameTenantAs k s' c" if k: "cst_records s k = Some c" for k c
    using create_cases [OF a(3) assms(2) a(1)]
  proof (elim disjE exE conjE)
    fix d assume "s' = s\<lparr>cst_caseSeq := cst_caseSeq s + 1\<rparr>"
    with k show ?thesis by (simp add: sameTenantAs_def)
  next
    fix d assume d: "cs_ID d = newCaseID now (cst_caseSeq s + 1)"
      "s' = s\<lparr>cst_caseSeq := cst_caseSeq s + 1, cst_records := (cst_records s)(cs_ID d \<mapsto> d)\<rparr>"
    obtain t w where w: "k = newCaseID t w" "w \<le> cst_caseSeq s"
      using assms(2) k unfolding caseStateOK_def by blast
    moreover have "w \<noteq> cst_caseSeq s + 1" using w(2) counter_grows [OF a(2)] by auto
    ultimately have "k \<noteq> cs_ID d" using d(1) case_ids.mkID_distinct by metis
    with k d(2) show ?thesis by (simp add: sameTenantAs_def)
  qed
  with create_invariant(1) [OF a(3) assms(2) a(1,2)] show ?thesis by blast
qed

lemma caseSteps_keep_tenant:
  assumes "(caseStep m)\<^sup>*\<^sup>* s s'" "caseStateOK s"
  shows "caseStateOK s' \<and> (\<forall>k c. cst_records s k = Some c \<longrightarrow> sameTenantAs k s' c)"
  using assms(1)
proof (induction rule: rtranclp_induct)
  case base
  with assms(2) show ?case by (auto simp: sameTenantAs_def)
next
  case (step y z)
  then show ?case using caseStep_keeps_tenant [OF step(2)] by (auto simp: sameTenantAs_def; fastforce)
qed

subsection \<open>A request stays with its tenant\<close>

fun bodyTenant :: "casesBody \<Rightarrow> string option" where
  "bodyTenant (CaseBody c) = Some (csr_TenantID c)"
| "bodyTenant (CaseNoteBody n) = Some (cno_TenantID n)"
| "bodyTenant (CasesBody list) = None"

definition requestTenant :: "httpRequest \<Rightarrow> string" where
  "requestTenant r = trimSpace (hrq_Query r ''tenant_id'')"

definition staysIn ::
    "string \<Rightarrow> caseState \<Rightarrow> apiStores \<Rightarrow> casesBody httpReply option \<times> apiStores \<Rightarrow> bool" where
  "staysIn T base s out \<longleftrightarrow>
     snd out = s\<lparr>api_Cases := api_Cases (snd out)\<rparr>
   \<and> (\<forall>k c. cst_records base k = Some c \<and> cs_TenantID c \<noteq> T \<longrightarrow>
        cst_records (api_Cases (snd out)) k = Some c
        \<and> entries (cst_notes (api_Cases (snd out))) k = entries (cst_notes base) k)
   \<and> (\<exists>reply. fst out = Some reply
        \<and> (\<forall>status body. reply = ReplyJSON status body \<longrightarrow> bodyTenant body = Some T))"

lemma staysIn_refused [simp]: "staysIn T (api_Cases s) s (Some (ReplyError status code message), s)"
  by (simp add: staysIn_def)

lemma newCaseResponse_tenant [simp]: "csr_TenantID (newCaseResponse f c notes) = cs_TenantID c"
  by (simp add: newCaseResponse_def)

lemma tenantCase_Inl: "tenantCase r k s = Inl reply \<Longrightarrow> \<exists>status code message. reply = ReplyError status code message"
  by (auto simp: tenantCase_def Let_def split: if_splits sum.splits)

lemma tenantCase_Inr:
  "tenantCase r k s = Inr item \<Longrightarrow> cst_records s k = Some item \<and> cs_TenantID item = requestTenant r"
  by (auto simp: tenantCase_def case_Get_def requestTenant_def Let_def split: if_splits option.splits)

lemma openCaseAction_Inl:
  "openCaseAction r k s = Inl reply \<Longrightarrow> \<exists>status code message. reply = ReplyError status code message"
  by (auto simp: openCaseAction_def dest: tenantCase_Inl split: if_splits)

lemma openCaseAction_Inr:
  "openCaseAction r k s = Inr item \<Longrightarrow> cst_records s k = Some item \<and> cs_TenantID item = requestTenant r"
  by (auto simp: openCaseAction_def dest: tenantCase_Inr split: if_splits)

lemma caseStateError_error [simp]: "caseStateError operation err \<noteq> ReplyJSON status body"
  by (cases err) (simp_all add: caseStateError_def)

lemma staysIn_touched:
  assumes "touchesOnly k base (api_Cases s')" "s' = s\<lparr>api_Cases := api_Cases s'\<rparr>"
    and "cst_records base k = Some d" "cs_TenantID d = T"
    and "\<And>status body. reply = ReplyJSON status body \<Longrightarrow> bodyTenant body = Some T"
  shows "staysIn T base s (Some reply, s')"
proof -
  have "k' \<noteq> k" if "cst_records base k' = Some c" "cs_TenantID c \<noteq> T" for k' c
    using that assms(3,4) by auto
  then have "cst_records (api_Cases s') k' = Some c
      \<and> entries (cst_notes (api_Cases s')) k' = entries (cst_notes base) k'"
    if "cst_records base k' = Some c" "cs_TenantID c \<noteq> T" for k' c
    using that assms(1) unfolding touchesOnly_def by metis
  with assms(2,5) show ?thesis unfolding staysIn_def by simp
qed

lemma staysIn_outcome:
  assumes "touchesOnly k base (snd outcome)" "\<And>c. fst outcome = Inr c \<Longrightarrow> sameTenantAs k base c"
    and "cst_records base k = Some d" "cs_TenantID d = T"
  shows "staysIn T base s (caseOutcome env operation s outcome)"
proof (cases outcome)
  case (Pair r cases)
  with assms show ?thesis
    by (auto simp: caseOutcome_def split: sum.splits intro!: staysIn_touched [where k = k and d = d]
        dest: sameTenantAs_eq)
qed

lemma staysIn_action:
  assumes "\<And>reply. openCaseAction r k (api_Cases s) = Inl reply \<Longrightarrow> out = (Some reply, s)"
    and "\<And>item. openCaseAction r k (api_Cases s) = (Inr item :: casesBody httpReply + caseRec)
      \<Longrightarrow> staysIn T (api_Cases s) s out \<or> staysIn T b s out"
  shows "\<exists>base \<in> {api_Cases s, b}. staysIn T base s out"
proof (cases "openCaseAction r k (api_Cases s) :: casesBody httpReply + caseRec")
  case (Inl reply)
  with assms(1) [OF Inl] openCaseAction_Inl [OF Inl] show ?thesis by auto
next
  case (Inr item)
  with assms(2) [OF Inr] show ?thesis by blast
qed

text \<open>The other requests act through the service.\<close>

definition quietCases :: "caseApiEnv \<Rightarrow> apiStores \<Rightarrow> bool" where
  "quietCases env s \<longleftrightarrow>
     caseStateOK (api_Cases s) \<and> (caseStep True)\<^sup>*\<^sup>* (api_Cases s) (cae_Others env (api_Cases s))"

lemma later_ok: "quietCases env s \<Longrightarrow> caseStateOK (cae_Others env (api_Cases s))"
  using caseSteps_keep_tenant by (auto simp: quietCases_def)

lemma opened:
  assumes "quietCases env s" "openCaseAction r k (api_Cases s) = (Inr item :: casesBody httpReply + caseRec)"
  shows "\<exists>d. cst_records (cae_Others env (api_Cases s)) k = Some d \<and> cs_TenantID d = requestTenant r"
    "cs_ID item = k" "cs_TenantID item = requestTenant r"
proof -
  note found = openCaseAction_Inr [OF assms(2)]
  show "cs_ID item = k" "cs_TenantID item = requestTenant r"
    using found caseStateOK_suffix(2) assms(1) unfolding quietCases_def by blast+
  show "\<exists>d. cst_records (cae_Others env (api_Cases s)) k = Some d \<and> cs_TenantID d = requestTenant r"
    using caseSteps_keep_tenant found assms(1) unfolding quietCases_def sameTenantAs_def by metis
qed

text \<open>An operation through the service, with the outcome \<open>outcome k'\<close> on the case found.\<close>

lemma outcome_stays:
  assumes "quietCases env s" "openCaseAction r k (api_Cases s) = (Inr item :: casesBody httpReply + caseRec)"
    and "touchesOnly k (cae_Others env (api_Cases s)) s'
       \<and> (\<forall>c. res = Inr c \<longrightarrow> sameTenantAs k (cae_Others env (api_Cases s)) c)"
  shows "staysIn (requestTenant r) (cae_Others env (api_Cases s)) s (caseOutcome env operation s (res, s'))"
proof -
  obtain d where "cst_records (cae_Others env (api_Cases s)) k = Some d" "cs_TenantID d = requestTenant r"
    using opened(1) [OF assms(1,2)] by blast
  then show ?thesis using assms(3) by (intro staysIn_outcome) auto
qed

lemma outcome_stays_service:
  assumes "quietCases env s" "openCaseAction r k (api_Cases s) = (Inr item :: casesBody httpReply + caseRec)"
  shows "staysIn (requestTenant r) (cae_Others env (api_Cases s)) s
      (caseOutcome env operation s (CloseCase now k who (cae_Others env (api_Cases s))))"
    "staysIn (requestTenant r) (cae_Others env (api_Cases s)) s
      (caseOutcome env operation s (ReopenCase now k who (cae_Others env (api_Cases s))))"
    "staysIn (requestTenant r) (cae_Others env (api_Cases s)) s
      (caseOutcome env operation s (AssignCase now item who (cae_Others env (api_Cases s))))"
    "staysIn (requestTenant r) (cae_Others env (api_Cases s)) s
      (caseOutcome env operation s (UnassignCase now item who (cae_Others env (api_Cases s))))"
proof -
  let ?b = "cae_Others env (api_Cases s)"
  note touched = case_service_touches [OF later_ok [OF assms(1)]] and id = opened(2) [OF assms]
  show "staysIn (requestTenant r) ?b s (caseOutcome env operation s (CloseCase now k who ?b))"
    by (cases "CloseCase now k who ?b") (auto intro!: outcome_stays [OF assms] dest: touched(1))
  show "staysIn (requestTenant r) ?b s (caseOutcome env operation s (ReopenCase now k who ?b))"
    by (cases "ReopenCase now k who ?b") (auto intro!: outcome_stays [OF assms] dest: touched(2))
  show "staysIn (requestTenant r) ?b s (caseOutcome env operation s (AssignCase now item who ?b))"
    using id by (cases "AssignCase now item who ?b") (auto intro!: outcome_stays [OF assms] dest: touched(3))
  show "staysIn (requestTenant r) ?b s (caseOutcome env operation s (UnassignCase now item who ?b))"
    using id by (cases "UnassignCase now item who ?b") (auto intro!: outcome_stays [OF assms] dest: touched(4))
qed

lemma note_stays_service:
  assumes "quietCases env s" "openCaseAction r k (api_Cases s) = (Inr item :: casesBody httpReply + caseRec)"
    and "AddNote now item body who (cae_Others env (api_Cases s)) = (res, s')"
    and "\<And>status b. reply = ReplyJSON status b \<Longrightarrow> \<exists>n. res = Inr n \<and> b = CaseNoteBody (newCaseNoteResponse f n)"
  shows "staysIn (requestTenant r) (cae_Others env (api_Cases s)) s (Some reply, s\<lparr>api_Cases := s'\<rparr>)"
proof -
  note touched = case_service_touches(5) [OF later_ok [OF assms(1)] assms(3)]
    and found = opened [OF assms(1,2)]
  obtain d where d: "cst_records (cae_Others env (api_Cases s)) k = Some d" "cs_TenantID d = requestTenant r"
    using found(1) by blast
  show ?thesis
  proof (rule staysIn_touched [OF _ _ d])
    show "touchesOnly k (cae_Others env (api_Cases s)) (api_Cases (s\<lparr>api_Cases := s'\<rparr>))"
      using touched found(2) by simp
    show "bodyTenant b = Some (requestTenant r)" if "reply = ReplyJSON status b" for status b
      using assms(4) [OF that] touched found(3) by (auto simp: newCaseNoteResponse_def)
  qed simp
qed

definition requestStays ::
    "caseApiEnv \<Rightarrow> httpRequest \<Rightarrow> apiStores \<Rightarrow> casesBody httpReply option \<times> apiStores \<Rightarrow> bool" where
  "requestStays env r s out \<longleftrightarrow>
     (\<exists>base \<in> {api_Cases s, cae_Others env (api_Cases s)}. staysIn (requestTenant r) base s out)"

lemma actions_stay:
  assumes "quietCases env s"
  shows "requestStays env r s (handleCloseCase env r k s)" "requestStays env r s (handleReopenCase env r k s)"
    "requestStays env r s (handleAssignCase env r k s)" "requestStays env r s (handleUnassignCase env r k s)"
    "requestStays env r s (handleAddCaseNote env r k s)"
proof -
  note service = outcome_stays_service [OF assms(1)]
  show "requestStays env r s (handleCloseCase env r k s)" unfolding requestStays_def
    by (rule staysIn_action [where r = r and k = k]) (auto simp: handleCloseCase_def split: option.splits intro!: disjI2 service)
  show "requestStays env r s (handleReopenCase env r k s)" unfolding requestStays_def
    by (rule staysIn_action [where r = r and k = k]) (auto simp: handleReopenCase_def split: option.splits intro!: disjI2 service)
  show "requestStays env r s (handleAssignCase env r k s)" unfolding requestStays_def
    by (rule staysIn_action [where r = r and k = k]) (auto simp: handleAssignCase_def split: option.splits intro!: disjI2 service)
  show "requestStays env r s (handleUnassignCase env r k s)" unfolding requestStays_def
    by (rule staysIn_action [where r = r and k = k]) (auto simp: handleUnassignCase_def split: option.splits intro!: disjI2 service)
  show "requestStays env r s (handleAddCaseNote env r k s)" unfolding requestStays_def
  proof (rule staysIn_action [where r = r and k = k])
    fix item assume o: "openCaseAction r k (api_Cases s) = (Inr item :: casesBody httpReply + caseRec)"
    show "staysIn (requestTenant r) (api_Cases s) s (handleAddCaseNote env r k s)
      \<or> staysIn (requestTenant r) (cae_Others env (api_Cases s)) s (handleAddCaseNote env r k s)"
    proof (cases "cae_DecodeNote env (hrq_Body r)")
      case (Some req)
      then show ?thesis using o
        by (auto simp: handleAddCaseNote_def split: prod.split sum.split
            intro!: disjI2 note_stays_service [OF assms(1) o, where f = "cae_FormatTime env"])
    qed (simp add: handleAddCaseNote_def o)
  qed (simp add: handleAddCaseNote_def)
qed

lemma requestStays_refused: "requestStays env r s (Some (ReplyError status code message), s)"
  by (simp add: requestStays_def)

lemma get_stays: "requestStays env r s (handleGetCase env r k s)"
  unfolding requestStays_def
  by (rule bexI [of _ "api_Cases s"])
    (auto simp: handleGetCase_def staysIn_def dest: tenantCase_Inl tenantCase_Inr split: sum.splits)

text \<open>
  C10: A request for one case, whatever its path, its body and the other requests meanwhile, reads
  and changes cases of the tenant it names only: a case of another tenant keeps its record and its
  notes, and every case or note in a reply belongs to that tenant.
\<close>

theorem case_requests_stay_in_tenant:
  assumes "quietCases env s"
  shows "requestStays env r s (handleCaseByID env r s)"
  using actions_stay [OF assms, where r = r] get_stays [of env r s] requestStays_refused [of env r s]
  unfolding handleCaseByID_def Let_def by (auto split: if_splits)

text \<open>
  The tenant of a request is trimmed before it is compared and that of a new case is not: no
  request ever reaches a case that was created for a tenant with surrounding white space.
\<close>

theorem untrimmed_tenant_unreachable:
  assumes "cst_records (api_Cases s) k = Some c" "trimSpace (cs_TenantID c) \<noteq> cs_TenantID c"
  shows "\<forall>handle \<in> {handleGetCase, handleCloseCase, handleAssignCase, handleUnassignCase, handleReopenCase,
      handleAddCaseNote}. \<exists>status code message. handle env r k s = (Some (ReplyError status code message), s)"
proof -
  have no: "\<exists>status code message. tenantCase r k (api_Cases s)
      = (Inl (ReplyError status code message) :: casesBody httpReply + caseRec)"
  proof (cases "tenantCase r k (api_Cases s) :: casesBody httpReply + caseRec")
    case (Inl reply)
    then show ?thesis using tenantCase_Inl [OF Inl] by (auto simp: tenantCase_def case_Get_def Let_def split: if_splits option.splits)
  next
    case (Inr item)
    with tenantCase_Inr [OF Inr] assms have False by (auto simp: requestTenant_def)
    then show ?thesis ..
  qed
  have "\<exists>status code message. openCaseAction r k (api_Cases s)
      = (Inl (ReplyError status code message) :: casesBody httpReply + caseRec)"
    using no by (auto simp: openCaseAction_def)
  then show ?thesis using no
    by (auto simp: handleGetCase_def handleCloseCase_def handleAssignCase_def handleUnassignCase_def
        handleReopenCase_def handleAddCaseNote_def)
qed

subsection \<open>Creating a case\<close>

lemma created_case:
  assumes "CreateCaseWithOutcome ks now input s = ((c, created), s')"
  shows "created \<Longrightarrow> c = \<lparr>cs_ID = newCaseID now (cst_caseSeq s + 1), cs_TenantID = cin_TenantID input,
      cs_Status = CaseStatusOpen, cs_Title = cin_Title input, cs_Summary = cin_Summary input,
      cs_SourceTaskID = cin_SourceTaskID input, cs_SourceReportID = cin_SourceReportID input,
      cs_SourceEvalReportID = cin_SourceEvalReportID input, cs_SourceEvalCaseID = cin_SourceEvalCaseID input,
      cs_SourceEvalRunID = cin_SourceEvalRunID input, cs_CompareOrigin = cin_CompareOrigin input,
      cs_CreatedBy = fallbackString (cin_CreatedBy input) ''operator'', cs_AssignedTo = [],
      cs_AssignedAt = zeroTime, cs_ClosedBy = [], cs_CreatedAt = now, cs_UpdatedAt = now\<rparr>"
    and "created \<Longrightarrow> cst_records s' = (cst_records s)(cs_ID c \<mapsto> c)"
  using assms
  by (auto simp: CreateCaseWithOutcome_def SaveOrReuseOpenEvalRunCase_def case_Save_def Let_def
      split: option.splits if_splits)

lemma handleCreateCase_new:
  assumes "cae_DecodeCreate env (hrq_Body r) = Some req" "validateCreateCaseRequest req = None"
    and "validateCaseSources req s = Inr reportItem"
    and "\<not> (case reportItem of None \<Rightarrow> False | Some item \<Rightarrow> rpt_ID item \<noteq> [] \<and> ccr_SourceTaskID req \<noteq> []
      \<and> rpt_SourceTaskID item \<noteq> ccr_SourceTaskID req)"
    and "findRepeatedCase (cae_CaseKeys env) req (api_Cases s) = Some None"
    and "CreateCaseWithOutcome (cae_CaseKeys env ''create'') (cae_Now env) (caseInputOf req)
      (cae_Others env (api_Cases s)) = ((c, created), cases)"
  shows "handleCreateCase env r s
    = (Some (caseReply env (if created then StatusCreated else StatusOK) c), s\<lparr>api_Cases := cases\<rparr>)"
  using assms(4) unfolding handleCreateCase_def assms(1-3,5,6) option.case sum.case if_False Let_def prod.case
  by simp

text \<open>How a request ends that creates a case.\<close>

lemma handleCreateCase_created:
  assumes "handleCreateCase env r s = (Some (ReplyJSON StatusCreated body), s')"
  shows "\<exists>req reportItem c. cae_DecodeCreate env (hrq_Body r) = Some req
    \<and> validateCreateCaseRequest req = None \<and> validateCaseSources req s = Inr reportItem
    \<and> (\<forall>item. reportItem = Some item \<longrightarrow> rpt_ID item = [] \<or> ccr_SourceTaskID req = []
         \<or> rpt_SourceTaskID item = ccr_SourceTaskID req)
    \<and> findRepeatedCase (cae_CaseKeys env) req (api_Cases s) = Some None
    \<and> CreateCaseWithOutcome (cae_CaseKeys env ''create'') (cae_Now env) (caseInputOf req)
        (cae_Others env (api_Cases s)) = ((c, True), api_Cases s')
    \<and> s' = s\<lparr>api_Cases := api_Cases s'\<rparr>
    \<and> body = CaseBody (newCaseResponse (cae_FormatTime env) c [])"
proof -
  obtain req where req: "cae_DecodeCreate env (hrq_Body r) = Some req"
    using assms by (auto simp: handleCreateCase_def split: option.splits)
  with assms have valid: "validateCreateCaseRequest req = None"
    by (auto simp: handleCreateCase_def split: option.splits)
  obtain reportItem where item: "validateCaseSources req s = Inr reportItem"
    using assms req valid by (cases "validateCaseSources req s")
      (auto simp: handleCreateCase_def writeCaseSourceError_def split: caseSourceError.splits evalError.splits)
  have own: "\<not> (case reportItem of None \<Rightarrow> False | Some item \<Rightarrow> rpt_ID item \<noteq> [] \<and> ccr_SourceTaskID req \<noteq> []
      \<and> rpt_SourceTaskID item \<noteq> ccr_SourceTaskID req)" (is "\<not> ?other")
  proof
    assume ?other
    with assms req valid item show False by (simp add: handleCreateCase_def)
  qed
  have new: "findRepeatedCase (cae_CaseKeys env) req (api_Cases s) = Some None"
    using assms own unfolding handleCreateCase_def req option.case valid item sum.case if_False
    by (auto split: option.splits)
  obtain c created cases where c: "CreateCaseWithOutcome (cae_CaseKeys env ''create'') (cae_Now env)
      (caseInputOf req) (cae_Others env (api_Cases s)) = ((c, created), cases)"
    by (metis prod.collapse)
  have "created" "s' = s\<lparr>api_Cases := cases\<rparr>"
      "body = CaseBody (newCaseResponse (cae_FormatTime env) c [])"
    using assms handleCreateCase_new [OF req valid item own new c] by (auto split: if_splits)
  with c req valid item own new show ?thesis by (intro exI conjI) (auto split: option.splits)
qed

lemma validateCaseSources_cases [simp]:
  "validateCaseSources req (s\<lparr>api_Cases := x\<rparr>) = validateCaseSources req s"
proof -
  have "checkCompareReports t (s\<lparr>api_Cases := x\<rparr>) ids = checkCompareReports t s ids" for t ids
    by (induction ids) (simp_all split: sum.split)
  then have "checkCompareOrigin req (s\<lparr>api_Cases := x\<rparr>) = checkCompareOrigin req s"
    by (simp add: checkCompareOrigin_def del: checkCompareReports.simps split: option.split)
  moreover have "checkSourceTask req (s\<lparr>api_Cases := x\<rparr>) = checkSourceTask req s"
    "checkSourceEvalReport req (s\<lparr>api_Cases := x\<rparr>) = checkSourceEvalReport req s"
    "checkSourceEvalCase req e (s\<lparr>api_Cases := x\<rparr>) = checkSourceEvalCase req e s"
    "checkSourceEvalRun req e (s\<lparr>api_Cases := x\<rparr>) = checkSourceEvalRun req e s" for e
    by (simp_all add: checkSourceTask_def checkSourceEvalReport_def checkSourceEvalCase_def
        checkSourceEvalRun_def split: sum.split option.split)
  ultimately show ?thesis by (simp add: validateCaseSources_def)
qed

lemma only_one:
  assumes "set xs = {c}" "distinct (map f xs)"
  shows "xs = [c]"
proof (cases xs)
  case (Cons x ys)
  then have "ys = []" using assms by (cases ys) auto
  with Cons assms(1) show ?thesis by simp
qed (use assms(1) in simp)

lemma firstOfPage_rows:
  assumes "cf_Limit f = 1" "cf_Offset f = 0"
  shows "firstOfPage (case_List ks f s) = Some (case caseRows ks f s of [] \<Rightarrow> None | c # _ \<Rightarrow> Some c)"
proof -
  have "pageWindow 1 0 xs = cutPage 1 0 xs" for xs :: "caseRec list" by (simp add: pageWindow_def)
  then show ?thesis using assms
    by (simp add: case_List_rows firstOfPage_def cutPage_in_range split: list.split)
qed

lemma new_case_rows:
  assumes "caseStateOK s'" "iterOrder (cst_records s) ks" "iterOrder (cst_records s') ks'" "caseStateOK s"
    and "cst_records s' = (cst_records s)(cs_ID c \<mapsto> c)" "filter p (rangeVals (cst_records s) ks) = []" "p c"
  shows "filter p (rangeVals (cst_records s') ks') = [c]"
proof (rule only_one)
  have mem: "d \<in> set (rangeVals (cst_records s') ks') \<longleftrightarrow> cst_records s' (cs_ID d) = Some d" for d
    using mem_rangeVals [OF assms(3) caseStateOK_keyed [OF assms(1)]] .
  have old: "\<not> p d" if "cst_records s (cs_ID d) = Some d" for d
    using that assms(6) mem_rangeVals [OF assms(2) caseStateOK_keyed [OF assms(4)]]
    by (auto simp: filter_empty_conv)
  show "set (filter p (rangeVals (cst_records s') ks')) = {c}"
    using mem old assms(5,7) by (auto split: if_splits)
  show "distinct (map cs_ID (filter p (rangeVals (cst_records s') ks')))"
    using assms(1,3) by (simp add: distinct_idents_rangeVals distinct_map_filter caseStateOK_keyed)
qed

lemma find_first_then_new:
  assumes "caseStateOK s'" "iterOrder (cst_records s) ks" "iterOrder (cst_records s') ks'" "caseStateOK s"
    and "cst_records s' = (cst_records s)(cs_ID c \<mapsto> c)" "cf_Limit f = 1" "cf_Offset f = 0"
    and "firstOfPage (case_List ks f s) = Some None" "caseMatches f c"
  shows "firstOfPage (case_List ks' f s') = Some (Some c)"
proof -
  have "caseRows ks f s = []" using assms(8) by (simp add: firstOfPage_rows assms(6,7) split: list.splits)
  then have "filter (caseMatches f) (rangeVals (cst_records s) ks) = []"
    unfolding caseRows_def by (metis length_0_conv length_goSort)
  from new_case_rows [OF assms(1-5) this assms(9)] have "caseRows ks' f s' = [c]"
    by (simp add: caseRows_def goSort_def)
  then show ?thesis by (simp add: firstOfPage_rows assms(6,7))
qed

definition repeats :: "createCaseRequest \<Rightarrow> bool" where
  "repeats req \<longleftrightarrow> ccr_SourceEvalCaseID req \<noteq> [] \<or> ccr_SourceEvalReportID req \<noteq> []"

text \<open>The open cases of the tenant that have the evaluation source of a request.\<close>

definition openFor :: "createCaseRequest \<Rightarrow> caseState \<Rightarrow> caseRec set" where
  "openFor req s = {c. cst_records s (cs_ID c) = Some c \<and> cs_TenantID c = ccr_TenantID req \<and> cs_Status c = CaseStatusOpen
     \<and> (if ccr_SourceEvalCaseID req \<noteq> []
        then cs_SourceEvalCaseID c = ccr_SourceEvalCaseID req \<and> co_SelectedSide (cs_CompareOrigin c) = []
        else cs_SourceEvalReportID c = ccr_SourceEvalReportID req
           \<and> (case ccr_CompareOrigin req of
                Some origin \<Rightarrow> cs_CompareOrigin c = origin
              | None \<Rightarrow> cs_SourceEvalCaseID c = [] \<and> co_SelectedSide (cs_CompareOrigin c) = []))}"

text \<open>What a lookup returns: nothing when there is no case, and the latest one otherwise.\<close>

definition findsLatest :: "caseRec set \<Rightarrow> caseRec option \<Rightarrow> bool" where
  "findsLatest C found \<longleftrightarrow> (case found of None \<Rightarrow> C = {} | Some c \<Rightarrow> isLatest C c)"

lemma firstOfPage_latest:
  assumes "caseStateOK s" "iterOrder (cst_records s) ks" "cf_Limit f = 1" "cf_Offset f = 0"
    and "\<And>c. cst_records s (cs_ID c) = Some c \<and> caseMatches f c \<longleftrightarrow> c \<in> C"
  shows "\<exists>found. firstOfPage (case_List ks f s) = Some found \<and> findsLatest C found"
proof -
  have "set (caseRows ks f s) = C" using caseRows_spec(3) [OF assms(1,2)] assms(5) by auto
  moreover have "sorted_wrt caseSortsAfter (caseRows ks f s)" by (rule caseRows_spec(1) [OF assms(1,2)])
  ultimately show ?thesis
    by (cases "caseRows ks f s") (auto simp: firstOfPage_rows [OF assms(3,4)] findsLatest_def isLatest_def)
qed

lemma findRepeatedCase_latest:
  assumes "caseStateOK s" "\<And>label. iterOrder (cst_records s) (keys label)"
    and "validateCreateCaseRequest req = None" "repeats req"
  shows "\<exists>found. findRepeatedCase keys req s = Some found \<and> findsLatest (openFor req s) found"
proof -
  note latest = firstOfPage_latest [OF assms(1,2)]
  consider (evalCase) "ccr_SourceEvalCaseID req \<noteq> []" "ccr_CompareOrigin req = None"
    | (origin) origin where "ccr_SourceEvalCaseID req = []" "ccr_SourceEvalReportID req \<noteq> []" "ccr_CompareOrigin req = Some origin"
    | (report) "ccr_SourceEvalCaseID req = []" "ccr_SourceEvalReportID req \<noteq> []" "ccr_CompareOrigin req = None"
    using assms(3,4) by (auto simp: repeats_def validateCreateCaseRequest_def split: if_splits option.splits)
  then show ?thesis
  proof cases
    case evalCase
    have "\<exists>found. FindOpenCaseBySourceEvalCase (keys ''eval case'') (ccr_TenantID req) (ccr_SourceEvalCaseID req) s
        = Some found \<and> findsLatest (openFor req s) found"
      unfolding FindOpenCaseBySourceEvalCase_def using evalCase assms(3)
      by (intro latest) (auto simp: caseMatches_def emptyCaseFilter_def openFor_def validateCreateCaseRequest_def split: if_splits)
    then show ?thesis using evalCase by (auto simp: findRepeatedCase_def split: option.split)
  next
    case (origin origin)
    have "openFor req s = openWithOrigin s (ccr_TenantID req) (ccr_SourceEvalReportID req) origin"
      using origin by (auto simp: openFor_def openWithOrigin_def)
    then have "findsLatest (openFor req s) (FindOpenByCompareOrigin (keys ''compare origin'') (ccr_TenantID req)
        (ccr_SourceEvalReportID req) origin s)"
      using FindOpenByCompareOrigin_latest [OF assms(1,2), of "ccr_TenantID req" "ccr_SourceEvalReportID req" origin]
      by (simp add: findsLatest_def)
    then show ?thesis using origin
      by (cases "FindOpenByCompareOrigin (keys ''compare origin'') (ccr_TenantID req) (ccr_SourceEvalReportID req) origin s")
        (simp_all add: findRepeatedCase_def newCaseCompareOriginModel_def)
  next
    case report
    have "\<exists>found. FindOpenCaseBySourceEvalReport (keys ''eval report'') (ccr_TenantID req) (ccr_SourceEvalReportID req) s
        = Some found \<and> findsLatest (openFor req s) found"
      unfolding FindOpenCaseBySourceEvalReport_def using report assms(3)
      by (intro latest) (auto simp: caseMatches_def emptyCaseFilter_def openFor_def validateCreateCaseRequest_def split: if_splits)
    then show ?thesis using report by (auto simp: findRepeatedCase_def)
  qed
qed

text \<open>
  C17: A valid request to create a case for an eval case, an eval report or a comparison is answered
  with the latest open case of the tenant that has this source when there is one, and then nothing
  changes; only when there is none does the request reach the creation of a case.
\<close>

theorem create_reuses_open_case:
  assumes "caseStateOK (api_Cases s)" "\<And>label. iterOrder (cst_records (api_Cases s)) (cae_CaseKeys env label)"
    and "cae_DecodeCreate env (hrq_Body r) = Some req" "validateCreateCaseRequest req = None" "repeats req"
    and "validateCaseSources req s = Inr reportItem"
    and "\<And>item. reportItem = Some item \<Longrightarrow> rpt_ID item = [] \<or> ccr_SourceTaskID req = []
      \<or> rpt_SourceTaskID item = ccr_SourceTaskID req"
  shows "if openFor req (api_Cases s) = {}
    then \<exists>c created cases. CreateCaseWithOutcome (cae_CaseKeys env ''create'') (cae_Now env) (caseInputOf req)
           (cae_Others env (api_Cases s)) = ((c, created), cases)
      \<and> handleCreateCase env r s = (Some (caseReply env (if created then StatusCreated else StatusOK) c), s\<lparr>api_Cases := cases\<rparr>)
    else \<exists>c. isLatest (openFor req (api_Cases s)) c \<and> handleCreateCase env r s = (Some (caseReply env StatusOK c), s)"
proof -
  have own: "\<not> (case reportItem of None \<Rightarrow> False | Some item \<Rightarrow> rpt_ID item \<noteq> [] \<and> ccr_SourceTaskID req \<noteq> []
      \<and> rpt_SourceTaskID item \<noteq> ccr_SourceTaskID req)"
    using assms(7) by (auto split: option.splits)
  obtain found where found: "findRepeatedCase (cae_CaseKeys env) req (api_Cases s) = Some found"
      "findsLatest (openFor req (api_Cases s)) found"
    using findRepeatedCase_latest [where keys = "cae_CaseKeys env", OF assms(1,2,4,5)] by blast
  show ?thesis
  proof (cases found)
    case None
    obtain c created cases where c: "CreateCaseWithOutcome (cae_CaseKeys env ''create'') (cae_Now env) (caseInputOf req)
        (cae_Others env (api_Cases s)) = ((c, created), cases)"
      by (metis prod.collapse)
    from handleCreateCase_new [OF assms(3,4,6) own _ c] found None c show ?thesis
      by (simp add: findsLatest_def del: if_split_asm)
  next
    case (Some c)
    then have "isLatest (openFor req (api_Cases s)) c" "openFor req (api_Cases s) \<noteq> {}"
      using found(2) by (auto simp: findsLatest_def isLatest_def)
    moreover have "handleCreateCase env r s = (Some (caseReply env StatusOK c), s)"
      using found(1) Some unfolding handleCreateCase_def assms(3,4,6) option.case sum.case if_not_P [OF own]
      by simp
    ultimately show ?thesis by auto
  qed
qed

lemma findRepeatedCase_new:
  assumes "caseStateOK s" "caseStateOK s'" "\<And>label. iterOrder (cst_records s) (keys label)"
    "\<And>label. iterOrder (cst_records s') (keys' label)"
    and new: "cst_records s' = (cst_records s)(cs_ID c \<mapsto> c)" "cs_Status c = CaseStatusOpen"
      "cs_TenantID c = ccr_TenantID req" "cs_SourceEvalReportID c = ccr_SourceEvalReportID req"
      "cs_SourceEvalCaseID c = ccr_SourceEvalCaseID req"
      "cs_CompareOrigin c = newCaseCompareOriginModel (ccr_CompareOrigin req)"
    and "validateCreateCaseRequest req = None" "repeats req" "findRepeatedCase keys req s = Some None"
  shows "findRepeatedCase keys' req s' = Some (Some c)"
proof -
  note found = find_first_then_new [OF assms(2,3,4,1) new(1)]
  consider (evalCase) "ccr_SourceEvalCaseID req \<noteq> []" "ccr_CompareOrigin req = None"
    | (origin) "ccr_SourceEvalCaseID req = []" "ccr_SourceEvalReportID req \<noteq> []" "ccr_CompareOrigin req \<noteq> None"
    | (report) "ccr_SourceEvalCaseID req = []" "ccr_SourceEvalReportID req \<noteq> []" "ccr_CompareOrigin req = None"
    using assms(11,12) by (auto simp: repeats_def validateCreateCaseRequest_def split: if_splits option.splits)
  then show ?thesis
  proof cases
    case evalCase
    with assms(13) have "FindOpenCaseBySourceEvalCase (keys ''eval case'') (ccr_TenantID req)
        (ccr_SourceEvalCaseID req) s = Some None"
      by (simp add: findRepeatedCase_def Let_def split: option.splits)
    then have "FindOpenCaseBySourceEvalCase (keys' ''eval case'') (ccr_TenantID req)
        (ccr_SourceEvalCaseID req) s' = Some (Some c)"
      unfolding FindOpenCaseBySourceEvalCase_def
      by (intro found) (simp_all add: caseMatches_def emptyCaseFilter_def new newCaseCompareOriginModel_def evalCase)
    with evalCase show ?thesis by (simp add: findRepeatedCase_def)
  next
    case origin
    let ?p = "\<lambda>item. cs_TenantID item = ccr_TenantID req \<and> cs_Status item = CaseStatusOpen
      \<and> cs_SourceEvalReportID item = ccr_SourceEvalReportID req
      \<and> co_LeftEvalReportID (cs_CompareOrigin item) = co_LeftEvalReportID (cs_CompareOrigin c)
      \<and> co_RightEvalReportID (cs_CompareOrigin item) = co_RightEvalReportID (cs_CompareOrigin c)
      \<and> co_SelectedSide (cs_CompareOrigin item) = co_SelectedSide (cs_CompareOrigin c)"
    from origin assms(13) have "FindOpenByCompareOrigin (keys ''compare origin'') (ccr_TenantID req)
        (ccr_SourceEvalReportID req) (cs_CompareOrigin c) s = None"
      by (simp add: findRepeatedCase_def Let_def new(6) split: option.splits if_splits)
    then have "filter ?p (rangeVals (cst_records s) (keys ''compare origin'')) = []"
      unfolding FindOpenByCompareOrigin_def fold_latestCase_none .
    from new_case_rows [OF assms(2,3,4,1) new(1) this] new(2-4)
    have "filter ?p (rangeVals (cst_records s') (keys' ''compare origin'')) = [c]" by simp
    then have "FindOpenByCompareOrigin (keys' ''compare origin'') (ccr_TenantID req)
        (ccr_SourceEvalReportID req) (cs_CompareOrigin c) s' = Some c"
      unfolding FindOpenByCompareOrigin_def by simp
    with origin show ?thesis by (simp add: findRepeatedCase_def new(6))
  next
    case report
    with assms(13) have "FindOpenCaseBySourceEvalReport (keys ''eval report'') (ccr_TenantID req)
        (ccr_SourceEvalReportID req) s = Some None"
      by (simp add: findRepeatedCase_def)
    then have "FindOpenCaseBySourceEvalReport (keys' ''eval report'') (ccr_TenantID req)
        (ccr_SourceEvalReportID req) s' = Some (Some c)"
      unfolding FindOpenCaseBySourceEvalReport_def
      by (intro found) (simp_all add: caseMatches_def emptyCaseFilter_def new newCaseCompareOriginModel_def report)
    with report show ?thesis by (simp add: findRepeatedCase_def)
  qed
qed

text \<open>
  Sent twice in a row, a request for an eval case, an eval report or a comparison is answered with
  the same case, and the second one creates none.
\<close>

theorem repeated_create_finds_the_case:
  assumes "caseStateOK (api_Cases s)" "cst_caseSeq (api_Cases s) < - 1" "cae_Others env = id"
    and "\<And>label. iterOrder (cst_records (api_Cases s)) (cae_CaseKeys env label)"
    and "\<And>label. iterOrder (cst_records (api_Cases s')) (keys label)"
    and "cae_DecodeCreate env (hrq_Body r) = Some req" "repeats req"
    and "handleCreateCase env r s = (Some (ReplyJSON StatusCreated body), s')"
  shows "handleCreateCase (env\<lparr>cae_Now := later, cae_CaseKeys := keys\<rparr>) r s'
    = (Some (ReplyJSON StatusOK body), s')"
proof -
  obtain reportItem c where c: "validateCreateCaseRequest req = None" "validateCaseSources req s = Inr reportItem"
      "\<forall>item. reportItem = Some item \<longrightarrow> rpt_ID item = [] \<or> ccr_SourceTaskID req = []
         \<or> rpt_SourceTaskID item = ccr_SourceTaskID req"
      "findRepeatedCase (cae_CaseKeys env) req (api_Cases s) = Some None"
      "CreateCaseWithOutcome (cae_CaseKeys env ''create'') (cae_Now env) (caseInputOf req) (api_Cases s)
        = ((c, True), api_Cases s')"
      "s' = s\<lparr>api_Cases := api_Cases s'\<rparr>" "body = CaseBody (newCaseResponse (cae_FormatTime env) c [])"
    using handleCreateCase_created [OF assms(8)] assms(3,6) by auto
  note fields = created_case [OF c(5) TrueI]
  have ok: "caseStateOK (api_Cases s')" using create_invariant(1) [OF c(5) assms(1,4,2)] .
  have "findRepeatedCase keys req (api_Cases s') = Some (Some c)"
    by (rule findRepeatedCase_new [OF assms(1) ok assms(4,5) fields(2) _ _ _ _ _ c(1) assms(7) c(4)])
      (simp_all add: fields(1) caseInputOf_def)
  moreover have "validateCaseSources req s' = Inr reportItem"
    using c(2) validateCaseSources_cases [where req = req and s = s and x = "api_Cases s'"] c(6) by simp
  ultimately show ?thesis using c(1,3,7) assms(6)
    by (auto simp: handleCreateCase_def split: option.splits)
qed

subsection \<open>The sources of a new case\<close>

text \<open>
  The sources that a response names are stored for its tenant.  An eval report shows the task and
  the eval case and was made from the run; without one, the dataset of the run has the eval case,
  and a task without one is related to no other source.
\<close>

definition taskOwned :: "apiStores \<Rightarrow> caseResponse \<Rightarrow> bool" where
  "taskOwned s b \<longleftrightarrow> csr_SourceTaskID b = []
     \<or> (\<exists>t. ts_tasks (ws_store (api_Workflows s)) (csr_SourceTaskID b) = Some t \<and> task_TenantID t = csr_TenantID b)"

definition evalReportOwned :: "apiStores \<Rightarrow> caseResponse \<Rightarrow> bool" where
  "evalReportOwned s b \<longleftrightarrow> csr_SourceEvalReportID b = []
     \<or> (\<exists>rep. est_evalReports (evl_Store (api_Evals s)) (csr_SourceEvalReportID b) = Some rep
          \<and> erp_TenantID rep = csr_TenantID b
          \<and> (csr_SourceTaskID b = [] \<or> csr_SourceTaskID b \<in> bad_SourceTaskID ` set (erp_BadCases rep))
          \<and> (csr_SourceEvalCaseID b = [] \<or> csr_SourceEvalCaseID b \<in> bad_EvalCaseID ` set (erp_BadCases rep))
          \<and> (csr_SourceEvalRunID b = []
             \<or> (\<exists>run. est_runs (evl_Store (api_Evals s)) (csr_SourceEvalRunID b) = Some run
                  \<and> erp_RunID rep = run_ID run)))"

definition evalCaseOwned :: "apiStores \<Rightarrow> caseResponse \<Rightarrow> bool" where
  "evalCaseOwned s b \<longleftrightarrow> csr_SourceEvalCaseID b = []
     \<or> (\<exists>e. est_byID (evl_Store (api_Evals s)) (csr_SourceEvalCaseID b) = Some e \<and> evc_TenantID e = csr_TenantID b)"

definition evalRunOwned :: "apiStores \<Rightarrow> caseResponse \<Rightarrow> bool" where
  "evalRunOwned s b \<longleftrightarrow> csr_SourceEvalRunID b = []
     \<or> (\<exists>run. est_runs (evl_Store (api_Evals s)) (csr_SourceEvalRunID b) = Some run
          \<and> run_TenantID run = csr_TenantID b
          \<and> (csr_SourceEvalReportID b \<noteq> [] \<or> csr_SourceEvalCaseID b = []
             \<or> (\<exists>d. est_datasets (evl_Store (api_Evals s)) (run_DatasetID run) = Some d
                  \<and> csr_SourceEvalCaseID b \<in> edi_EvalCaseID ` set (eds_Items d))))"

definition comparisonOwned :: "apiStores \<Rightarrow> caseResponse \<Rightarrow> bool" where
  "comparisonOwned s b \<longleftrightarrow> (case csr_CompareOrigin b of None \<Rightarrow> True | Some origin \<Rightarrow>
     (\<forall>k \<in> {co_LeftEvalReportID origin, co_RightEvalReportID origin}.
        \<exists>rep. est_evalReports (evl_Store (api_Evals s)) k = Some rep \<and> erp_TenantID rep = csr_TenantID b)
   \<and> csr_SourceEvalReportID b = (if co_SelectedSide origin = ''right'' then co_RightEvalReportID origin
        else co_LeftEvalReportID origin))"

lemma checkCompareReports_passed:
  "checkCompareReports t s ids = Inr u \<Longrightarrow> k \<in> set ids
     \<Longrightarrow> \<exists>rep. est_evalReports (evl_Store (api_Evals s)) k = Some rep \<and> erp_TenantID rep = t"
  by (induction ids) (auto simp: eval_GetEvalReport_def split: option.splits if_splits)

lemma checks_passed:
  shows "checkSourceTask req s = Inr u \<Longrightarrow> ccr_SourceTaskID req = []
      \<or> (\<exists>t. ts_tasks (ws_store (api_Workflows s)) (ccr_SourceTaskID req) = Some t
           \<and> task_TenantID t = ccr_TenantID req)"
    and "checkSourceEvalReport req s = Inr e \<Longrightarrow> (ccr_SourceEvalReportID req = [] \<and> e = None)
      \<or> (\<exists>rep. e = Some rep \<and> est_evalReports (evl_Store (api_Evals s)) (ccr_SourceEvalReportID req) = Some rep
          \<and> ccr_SourceEvalReportID req \<noteq> [] \<and> erp_TenantID rep = ccr_TenantID req
          \<and> (ccr_SourceTaskID req = [] \<or> ccr_SourceTaskID req \<in> bad_SourceTaskID ` set (erp_BadCases rep)))"
    and "checkSourceEvalCase req e s = Inr u \<Longrightarrow> ccr_SourceEvalCaseID req = []
      \<or> ((\<exists>x. est_byID (evl_Store (api_Evals s)) (ccr_SourceEvalCaseID req) = Some x
            \<and> evc_TenantID x = ccr_TenantID req)
         \<and> (\<forall>rep. e = Some rep \<longrightarrow> ccr_SourceEvalCaseID req \<in> bad_EvalCaseID ` set (erp_BadCases rep)))"
    and "checkSourceEvalRun req e s = Inr u \<Longrightarrow> ccr_SourceEvalRunID req = []
      \<or> (\<exists>run. est_runs (evl_Store (api_Evals s)) (ccr_SourceEvalRunID req) = Some run
           \<and> run_TenantID run = ccr_TenantID req \<and> (\<forall>rep. e = Some rep \<longrightarrow> erp_RunID rep = run_ID run)
           \<and> (e = None \<longrightarrow> ccr_SourceEvalCaseID req = []
              \<or> (\<exists>d. est_datasets (evl_Store (api_Evals s)) (run_DatasetID run) = Some d
                   \<and> ccr_SourceEvalCaseID req \<in> edi_EvalCaseID ` set (eds_Items d))))"
proof -
  show "checkSourceTask req s = Inr u \<Longrightarrow> ccr_SourceTaskID req = []
      \<or> (\<exists>t. ts_tasks (ws_store (api_Workflows s)) (ccr_SourceTaskID req) = Some t
           \<and> task_TenantID t = ccr_TenantID req)"
    by (auto simp: checkSourceTask_def GetTask_def split: if_splits option.splits)
  show "checkSourceEvalReport req s = Inr e \<Longrightarrow> (ccr_SourceEvalReportID req = [] \<and> e = None)
      \<or> (\<exists>rep. e = Some rep \<and> est_evalReports (evl_Store (api_Evals s)) (ccr_SourceEvalReportID req) = Some rep
          \<and> ccr_SourceEvalReportID req \<noteq> [] \<and> erp_TenantID rep = ccr_TenantID req
          \<and> (ccr_SourceTaskID req = [] \<or> ccr_SourceTaskID req \<in> bad_SourceTaskID ` set (erp_BadCases rep)))"
    by (auto simp: checkSourceEvalReport_def eval_GetEvalReport_def evalReportContainsTaskID_def list_ex_iff
        split: if_splits option.splits) (metis image_eqI)
  show "checkSourceEvalCase req e s = Inr u \<Longrightarrow> ccr_SourceEvalCaseID req = []
      \<or> ((\<exists>x. est_byID (evl_Store (api_Evals s)) (ccr_SourceEvalCaseID req) = Some x
            \<and> evc_TenantID x = ccr_TenantID req)
         \<and> (\<forall>rep. e = Some rep \<longrightarrow> ccr_SourceEvalCaseID req \<in> bad_EvalCaseID ` set (erp_BadCases rep)))"
    by (auto simp: checkSourceEvalCase_def eval_Get_def evalReportContainsBadCase_def list_ex_iff
        split: if_splits option.splits) (metis image_eqI)+
  show "checkSourceEvalRun req e s = Inr u \<Longrightarrow> ccr_SourceEvalRunID req = []
      \<or> (\<exists>run. est_runs (evl_Store (api_Evals s)) (ccr_SourceEvalRunID req) = Some run
           \<and> run_TenantID run = ccr_TenantID req \<and> (\<forall>rep. e = Some rep \<longrightarrow> erp_RunID rep = run_ID run)
           \<and> (e = None \<longrightarrow> ccr_SourceEvalCaseID req = []
              \<or> (\<exists>d. est_datasets (evl_Store (api_Evals s)) (run_DatasetID run) = Some d
                   \<and> ccr_SourceEvalCaseID req \<in> edi_EvalCaseID ` set (eds_Items d))))"
    by (auto simp: checkSourceEvalRun_def eval_GetRun_def withRunResultSummary_def eval_GetDataset_def datasetContainsEvalCase_def list_ex_iff
        split: if_splits option.splits) (metis image_eqI)+
qed

text \<open>
  C18: A case that a request creates without naming a report has sources of its own tenant only: the
  task, the eval report, the eval case, the run and both reports of the comparison.  An eval report it
  names shows the task and the eval case and was made from the run, where the case has them, and is
  the selected side of the comparison; without one, the dataset of the run has the eval case.
\<close>

theorem created_case_sources:
  assumes "handleCreateCase env r s = (Some (ReplyJSON StatusCreated (CaseBody b)), s')" "csr_SourceReportID b = []"
  shows "taskOwned s b \<and> evalReportOwned s b \<and> evalCaseOwned s b \<and> evalRunOwned s b \<and> comparisonOwned s b"
proof -
  obtain req reportItem c where c: "validateCaseSources req s = Inr reportItem"
      "CreateCaseWithOutcome (cae_CaseKeys env ''create'') (cae_Now env) (caseInputOf req)
        (cae_Others env (api_Cases s)) = ((c, True), api_Cases s')"
      "b = newCaseResponse (cae_FormatTime env) c []" "validateCreateCaseRequest req = None"
    using handleCreateCase_created [OF assms(1)] by (elim exE conjE) simp
  note fields = created_case(1) [OF c(2) TrueI]
  have b: "csr_TenantID b = ccr_TenantID req" "csr_SourceTaskID b = ccr_SourceTaskID req"
      "csr_SourceReportID b = ccr_SourceReportID req" "csr_SourceEvalReportID b = ccr_SourceEvalReportID req"
      "csr_SourceEvalCaseID b = ccr_SourceEvalCaseID req" "csr_SourceEvalRunID b = ccr_SourceEvalRunID req"
      "csr_CompareOrigin b = newCaseCompareOriginResponse (newCaseCompareOriginModel (ccr_CompareOrigin req))"
    by (simp_all add: c(3) newCaseResponse_def fields caseInputOf_def)
  obtain u e v w where checks: "checkSourceTask req s = Inr u" "checkSourceEvalReport req s = Inr e"
      "checkSourceEvalCase req e s = Inr v" "checkSourceEvalRun req e s = Inr w"
      "checkCompareOrigin req s = Inr ()"
    using c(1) assms(2) b(3) by (auto simp: validateCaseSources_def andThen_Inr)
  note passed = checks_passed(1) [OF checks(1)] checks_passed(2) [OF checks(2)]
    checks_passed(3) [OF checks(3)] checks_passed(4) [OF checks(4)]
  have "taskOwned s b" using passed(1) by (simp add: taskOwned_def b)
  moreover have "evalCaseOwned s b" using passed(3) by (auto simp: evalCaseOwned_def b)
  moreover have "evalRunOwned s b" using passed(2,4) by (auto simp: evalRunOwned_def b)
  moreover have "evalReportOwned s b" using passed(2-4) by (auto simp: evalReportOwned_def b)
  moreover have "comparisonOwned s b"
  proof (cases "ccr_CompareOrigin req")
    case None
    then show ?thesis by (simp add: comparisonOwned_def b newCaseCompareOriginModel_def newCaseCompareOriginResponse_def)
  next
    case (Some origin)
    have "csr_SourceEvalReportID b
        = (if co_SelectedSide origin = ''right'' then co_RightEvalReportID origin else co_LeftEvalReportID origin)"
      using c(4) Some by (simp add: validateCreateCaseRequest_def b split: if_splits)
    moreover have "csr_CompareOrigin b \<in> {None, Some origin}"
      using Some by (simp add: b newCaseCompareOriginModel_def newCaseCompareOriginResponse_def)
    ultimately show ?thesis
      using checkCompareReports_passed [of "ccr_TenantID req" s] checks(5) Some
      by (auto simp: comparisonOwned_def checkCompareOrigin_def b(1) simp del: checkCompareReports.simps split: option.splits)
  qed
  ultimately show ?thesis by blast
qed

text \<open>Concrete requests and stores.\<close>

definition demoCreate :: "string \<Rightarrow> createCaseRequest" where
  "demoCreate tenantID = \<lparr>ccr_TenantID = tenantID, ccr_Title = ''t'', ccr_Summary = [], ccr_SourceTaskID = [],
     ccr_SourceReportID = [], ccr_SourceEvalReportID = [], ccr_SourceEvalCaseID = [], ccr_SourceEvalRunID = [],
     ccr_CompareOrigin = None, ccr_CreatedBy = []\<rparr>"

definition demoCaseEnv :: "createCaseRequest \<Rightarrow> caseApiEnv" where
  "demoCaseEnv req = \<lparr>cae_Now = 7, cae_FormatTime = (\<lambda>_. ''now''), cae_CaseKeys = (\<lambda>_. []),
     cae_ReportKeys = (\<lambda>_. []), cae_Others = id, cae_DecodeCreate = (\<lambda>_. Some req),
     cae_DecodeClose = (\<lambda>_. Some []), cae_DecodeAssign = (\<lambda>_. Some ''ann''), cae_DecodeUnassign = (\<lambda>_. Some []),
     cae_DecodeReopen = (\<lambda>_. Some []), cae_DecodeNote = (\<lambda>_. None)\<rparr>"

definition demoHttp :: "string \<Rightarrow> string \<Rightarrow> httpRequest" where
  "demoHttp verb path = \<lparr>hrq_Method = verb, hrq_Path = path, hrq_Query = (\<lambda>_. []), hrq_Header = (\<lambda>_. []),
     hrq_Body = [], hrq_CtxRequestID = [], hrq_CtxTraceID = []\<rparr>"

definition demoSummaryReport :: reportRec where
  "demoSummaryReport = \<lparr>rpt_ID = ''rep'', rpt_TenantID = ''acme'', rpt_SourceTaskID = [], rpt_VersionID = [],
     rpt_ReportType = [], rpt_Status = [], rpt_Title = [], rpt_Summary = [], rpt_ContentURI = [],
     rpt_MetadataJSON = [], rpt_CreatedBy = [], rpt_CreatedAt = 0, rpt_ReadyAt = None\<rparr>"

text \<open>A report of one tenant and an eval case of another.\<close>

definition demoStores :: apiStores where
  "demoStores = \<lparr>api_Cases = newCaseStore, api_Workflows = \<lparr>ws_store = NewMemoryStore, ws_seq = 0\<rparr>,
     api_Reports = [''rep'' \<mapsto> demoSummaryReport],
     api_Evals = \<lparr>evl_Store = newMemoryStore
       \<lparr>est_byID := [''e'' \<mapsto> zeroEvalCase\<lparr>evc_ID := ''e'', evc_TenantID := ''globex''\<rparr>,
                     ''f'' \<mapsto> zeroEvalCase\<lparr>evc_ID := ''f'', evc_TenantID := ''acme''\<rparr>]\<rparr>,
       evl_CaseSeq = 0, evl_DatasetSeq = 0, evl_RunSeq = 0\<rparr>\<rparr>"

lemmas demo_http = demoCreate_def demoCaseEnv_def demoHttp_def demoStores_def newMemoryStore_def
  newCaseStore_def

text \<open>
  The sources behind a report are not checked: a request that names a report of its tenant may
  name an eval case of another tenant as well, and the case is created with both.
\<close>

theorem sources_behind_report_unchecked:
  "\<exists>env r s b s' e. handleCreateCase env r s = (Some (ReplyJSON StatusCreated (CaseBody b)), s')
     \<and> csr_SourceReportID b \<noteq> [] \<and> est_byID (evl_Store (api_Evals s)) (csr_SourceEvalCaseID b) = Some e
     \<and> evc_TenantID e \<noteq> csr_TenantID b"
proof -
  let ?req = "(demoCreate ''acme'')\<lparr>ccr_SourceReportID := ''rep'', ccr_SourceEvalCaseID := ''e''\<rparr>"
  have valid: "validateCreateCaseRequest ?req = None" by (simp add: validateCreateCaseRequest_def demoCreate_def)
  have sources: "validateCaseSources ?req demoStores = Inr (Some demoSummaryReport)"
    by (simp add: validateCaseSources_def checkSourceTask_def report_Get_def demo_http demoSummaryReport_def)
  have found: "findRepeatedCase (\<lambda>_. []) ?req newCaseStore = Some None"
    by (simp add: findRepeatedCase_def FindOpenCaseBySourceEvalCase_def firstOfPage_rows emptyCaseFilter_def
        caseRows_def rangeVals_def demoCreate_def)
  obtain c s' where c: "CreateCaseWithOutcome [] 7 (caseInputOf ?req) newCaseStore = ((c, True), s')"
    by (simp add: CreateCaseWithOutcome_def case_Save_def caseInputOf_def Let_def demoCreate_def)
  have created: "handleCreateCase (demoCaseEnv ?req) (demoHttp ''POST'' []) demoStores
      = (Some (ReplyJSON StatusCreated (CaseBody (newCaseResponse (\<lambda>_. ''now'') c []))), demoStores\<lparr>api_Cases := s'\<rparr>)"
    using handleCreateCase_new [where env = "demoCaseEnv ?req" and s = demoStores and r = "demoHttp ''POST'' []",
        OF _ valid sources, of c True s'] found c
    by (simp add: demoCaseEnv_def demoStores_def demoCreate_def)
  have fields: "cs_SourceReportID c = ''rep''" "cs_SourceEvalCaseID c = ''e''" "cs_TenantID c = ''acme''"
    by (simp_all add: created_case(1) [OF c TrueI] caseInputOf_def demoCreate_def)
  show ?thesis
    by (rule exI [of _ "demoCaseEnv ?req"], rule exI [of _ "demoHttp ''POST'' []"], rule exI [of _ demoStores],
        rule exI [of _ "newCaseResponse (\<lambda>_. ''now'') c []"], rule exI [of _ "demoStores\<lparr>api_Cases := s'\<rparr>"],
        rule exI [of _ "zeroEvalCase\<lparr>evc_ID := ''e'', evc_TenantID := ''globex''\<rparr>"])
      (simp add: created newCaseResponse_def fields, simp add: demo_http)
qed

subsection \<open>The cases of a dataset\<close>

lemma evalReportMatches_offset: "evalReportMatches (f\<lparr>erf_Offset := off\<rparr>) = evalReportMatches f"
  by (simp add: evalReportMatches_def fun_eq_iff)

lemma fold_addReportID:
  "distinct (map erp_ID rows) \<Longrightarrow> [] \<notin> erp_ID ` set rows \<Longrightarrow> set acc \<inter> erp_ID ` set rows = {}
     \<Longrightarrow> fold addReportID rows acc = acc @ map erp_ID rows"
  by (induction rows arbitrary: acc) (auto simp: addReportID_def)

text \<open>
  C19: The list of cases of a dataset first collects the eval reports of the dataset page by page:
  the loop returns, whatever the order of the map at each page, with exactly the identifiers of
  the reports of that tenant and dataset, each once.
\<close>

theorem collectEvalReportIDsForDataset_correct:
  assumes "keyedBy erp_ID (est_evalReports s)" "\<And>off. iterOrder (est_evalReports s) (keys off)"
    and "int (card (dom (est_evalReports s))) + 100 < 2 ^ 63"
    and "datasetID \<noteq> []" "tenantID \<noteq> []" "est_evalReports s [] = None"
  shows "\<exists>ids. collectEvalReportIDsForDataset keys tenantID datasetID s = Some ids \<and> distinct ids
    \<and> set ids = {k. \<exists>rep. est_evalReports s k = Some rep \<and> erp_TenantID rep = tenantID \<and> erp_DatasetID rep = datasetID}"
proof -
  let ?f = "\<lparr>erf_ReportID = [], erf_TenantID = tenantID, erf_DatasetID = datasetID, erf_RunStatus = [],
      erf_Status = [], erf_Limit = 100, erf_Offset = 0\<rparr>"
  let ?fetch = "\<lambda>off. evalWindow 100 off
      (goSort evalReportSortsBefore (filter (evalReportMatches ?f) (rangeVals (est_evalReports s) (keys off))))"
  have fetch: "ListEvalReports (keys off) (?f\<lparr>erf_Offset := off\<rparr>) s = ?fetch off" for off
    using evalReportMatches_offset [where f = ?f and off = off] by (simp add: ListEvalReports_def eval_ListEvalReports_def)
  have window: "evalWindow 100 off xs = cutPage 100 off xs"
    if "0 \<le> off" "length xs \<le> card (dom (est_evalReports s))" for off and xs :: "evalReport list"
    using that assms(3) by (intro evalWindow_cutPage) auto
  have "\<exists>rows. walkPages (Suc (length rows)) ?fetch 0 = Some rows \<and> sorted_wrt evalReportSortsBefore rows
      \<and> distinct (map erp_ID rows) \<and> set rows = {v. est_evalReports s (erp_ID v) = Some v \<and> evalReportMatches ?f v}"
    by (rule eval_report_order.walk_rows [where limit = 100, OF assms(1) _ assms(2) _ assms(3) window]) simp_all
  then obtain rows where rows: "walkPages (Suc (length rows)) ?fetch 0 = Some rows" "distinct (map erp_ID rows)"
      "set rows = {v. est_evalReports s (erp_ID v) = Some v \<and> evalReportMatches ?f v}"
    by (elim exE conjE)
  have "foldPages ?fetch addReportID [] 0 = Some (fold addReportID rows [])"
    by (rule foldPages_walk) (rule rows(1))
  also have "fold addReportID rows [] = map erp_ID rows"
    using rows(2,3) assms(6) by (subst fold_addReportID) auto
  finally have ids: "collectEvalReportIDsForDataset keys tenantID datasetID s = Some (map erp_ID rows)"
    using assms(4) fetch by (simp add: collectEvalReportIDsForDataset_def)
  have "set (map erp_ID rows)
      = {k. \<exists>rep. est_evalReports s k = Some rep \<and> erp_TenantID rep = tenantID \<and> erp_DatasetID rep = datasetID}"
    using rows(3) assms(1,4,5) by (auto simp: evalReportMatches_def image_iff dest: keyedByD)
  with ids rows(2) show ?thesis by blast
qed

subsection \<open>Large limits\<close>

lemma parseCaseListFilter_range:
  "parseCaseListFilter r = Inr (f, d) \<Longrightarrow> 0 < cf_Limit f \<and> cf_Limit f < 2 ^ 63 \<and> 0 \<le> cf_Offset f \<and> cf_Offset f < 2 ^ 63"
  by (auto simp: parseCaseListFilter_def Let_def andThen_Inr dest: parseLimit_range parseOffset_range split: if_splits)

text \<open>
  C34: The list of cases accepts any positive limit, and the end of the page is computed without a
  check: the request makes the handler panic exactly if the offset is between the first and the
  last row and the sum of limit and offset does not fit into 64 bits.
\<close>

theorem list_cases_panic_iff:
  assumes "hrq_Method r = MethodGet" "parseCaseListFilter r = Inr (f, [])"
    and "int (length (caseRows (cae_CaseKeys env ''list'') f (api_Cases s))) + 20 < 2 ^ 63"
  shows "fst (handleCases env r s) = None \<longleftrightarrow> 0 < cf_Offset f
    \<and> cf_Offset f < int (length (caseRows (cae_CaseKeys env ''list'') f (api_Cases s)))
    \<and> 2 ^ 63 \<le> cf_Offset f + cf_Limit f"
  using parseCaseListFilter_range [OF assms(2)] assms
  by (simp add: handleCases_def handleListCases_def writeCaseList_def case_List_rows pageWindow_None_iff)

subsection \<open>The theorems at work\<close>

lemma demoStores_cases [simp]: "api_Cases demoStores = newCaseStore" "cae_Others (demoCaseEnv req) = id"
  by (simp_all add: demoStores_def demoCaseEnv_def)

lemma case_requests_stay_in_tenant_witness:
  "requestStays (demoCaseEnv (demoCreate ''acme'')) (demoHttp ''GET'' ''/api/v1/cases/c'')
     (demoStores\<lparr>api_Cases := demoCases\<rparr>)
     (handleCaseByID (demoCaseEnv (demoCreate ''acme'')) (demoHttp ''GET'' ''/api/v1/cases/c'')
       (demoStores\<lparr>api_Cases := demoCases\<rparr>))"
  by (rule case_requests_stay_in_tenant) (simp add: quietCases_def)

lemma trimSpace_demo: "trimSpace '' x'' = ''x''" "trimSpace ''acme'' = ''acme''" "trimSpace [] = []"
  by code_simp+

lemma untrimmed_tenant_unreachable_witness:
  "\<exists>status code message. handleGetCase (demoCaseEnv (demoCreate '' x'')) (demoHttp ''GET'' ''/api/v1/cases/c'') ''c''
      (demoStores\<lparr>api_Cases := newCaseStore\<lparr>cst_records := [''c'' \<mapsto> (demoCase 1 ''open'' [] 5)\<lparr>cs_TenantID := '' x''\<rparr>]\<rparr>\<rparr>)
    = (Some (ReplyError status code message), demoStores\<lparr>api_Cases := newCaseStore
         \<lparr>cst_records := [''c'' \<mapsto> (demoCase 1 ''open'' [] 5)\<lparr>cs_TenantID := '' x''\<rparr>]\<rparr>\<rparr>)"
proof -
  let ?c = "(demoCase 1 ''open'' [] 5)\<lparr>cs_TenantID := '' x''\<rparr>"
  let ?s = "demoStores\<lparr>api_Cases := newCaseStore\<lparr>cst_records := [''c'' \<mapsto> ?c]\<rparr>\<rparr>"
  have "cst_records (api_Cases ?s) ''c'' = Some ?c" "trimSpace (cs_TenantID ?c) \<noteq> cs_TenantID ?c"
    by (simp_all add: trimSpace_demo)
  from untrimmed_tenant_unreachable [OF this, of "demoCaseEnv (demoCreate '' x'')"
      "demoHttp ''GET'' ''/api/v1/cases/c''"] show ?thesis by simp
qed

text \<open>A case for an eval case of the tenant.\<close>

abbreviation demoFollowUp :: createCaseRequest where
  "demoFollowUp \<equiv> (demoCreate ''acme'')\<lparr>ccr_SourceEvalCaseID := ''f''\<rparr>"

lemma demo_follow_up:
  "\<exists>c s'. CreateCaseWithOutcome [] 7 (caseInputOf demoFollowUp) newCaseStore = ((c, True), s')
     \<and> handleCreateCase (demoCaseEnv demoFollowUp) (demoHttp ''POST'' []) demoStores
       = (Some (ReplyJSON StatusCreated (CaseBody (newCaseResponse (\<lambda>_. ''now'') c []))),
          demoStores\<lparr>api_Cases := s'\<rparr>)"
proof -
  have valid: "validateCreateCaseRequest demoFollowUp = None"
    by (simp add: validateCreateCaseRequest_def demoCreate_def)
  have sources: "validateCaseSources demoFollowUp demoStores = Inr None"
    by (simp add: validateCaseSources_def checkSourceTask_def checkSourceEvalReport_def checkSourceEvalCase_def
        checkSourceEvalRun_def checkCompareOrigin_def eval_Get_def demo_http)
  have found: "findRepeatedCase (\<lambda>_. []) demoFollowUp newCaseStore = Some None"
    by (simp add: findRepeatedCase_def FindOpenCaseBySourceEvalCase_def firstOfPage_rows emptyCaseFilter_def
        caseRows_def rangeVals_def demoCreate_def)
  obtain c s' where c: "CreateCaseWithOutcome [] 7 (caseInputOf demoFollowUp) newCaseStore = ((c, True), s')"
    by (simp add: CreateCaseWithOutcome_def case_Save_def caseInputOf_def Let_def demoCreate_def)
  have "handleCreateCase (demoCaseEnv demoFollowUp) (demoHttp ''POST'' []) demoStores
      = (Some (ReplyJSON StatusCreated (CaseBody (newCaseResponse (\<lambda>_. ''now'') c []))), demoStores\<lparr>api_Cases := s'\<rparr>)"
    using handleCreateCase_new [where env = "demoCaseEnv demoFollowUp" and s = demoStores
        and r = "demoHttp ''POST'' []", OF _ valid sources, of c True s'] found c
    by (simp add: demoCaseEnv_def)
  with c show ?thesis by (intro exI conjI)
qed

lemma created_case_sources_witness:
  "\<exists>b s'. handleCreateCase (demoCaseEnv demoFollowUp) (demoHttp ''POST'' []) demoStores
      = (Some (ReplyJSON StatusCreated (CaseBody b)), s') \<and> evalCaseOwned demoStores b"
proof -
  obtain c s' where c: "CreateCaseWithOutcome [] 7 (caseInputOf demoFollowUp) newCaseStore = ((c, True), s')"
    "handleCreateCase (demoCaseEnv demoFollowUp) (demoHttp ''POST'' []) demoStores
       = (Some (ReplyJSON StatusCreated (CaseBody (newCaseResponse (\<lambda>_. ''now'') c []))),
          demoStores\<lparr>api_Cases := s'\<rparr>)"
    using demo_follow_up by (elim exE conjE)
  have "csr_SourceReportID (newCaseResponse (\<lambda>_. ''now'') c []) = []"
    by (simp add: newCaseResponse_def created_case(1) [OF c(1) TrueI] caseInputOf_def demoCreate_def)
  from created_case_sources [OF c(2) this] have "evalCaseOwned demoStores (newCaseResponse (\<lambda>_. ''now'') c [])"
    by (elim conjE)
  with c(2) show ?thesis by (intro exI conjI)
qed

lemma create_reuses_open_case_witness:
  "\<exists>c s'. handleCreateCase (demoCaseEnv demoFollowUp) (demoHttp ''POST'' []) demoStores
      = (Some (caseReply (demoCaseEnv demoFollowUp) StatusCreated c), s')
    \<and> openFor demoFollowUp (api_Cases s') = {c}
    \<and> handleCreateCase ((demoCaseEnv demoFollowUp)\<lparr>cae_CaseKeys := \<lambda>_. [newCaseID 7 1]\<rparr>) (demoHttp ''POST'' []) s'
      = (Some (caseReply (demoCaseEnv demoFollowUp) StatusOK c), s')"
proof -
  obtain c s' where c: "CreateCaseWithOutcome [] 7 (caseInputOf demoFollowUp) newCaseStore = ((c, True), s')"
    "handleCreateCase (demoCaseEnv demoFollowUp) (demoHttp ''POST'' []) demoStores
       = (Some (ReplyJSON StatusCreated (CaseBody (newCaseResponse (\<lambda>_. ''now'') c []))),
          demoStores\<lparr>api_Cases := s'\<rparr>)"
    using demo_follow_up by (elim exE conjE)
  note made = created_case [OF c(1) TrueI]
  have records: "cst_records s' = [newCaseID 7 1 \<mapsto> c]" using made by (simp add: newCaseStore_def)
  have "cst_caseSeq newCaseStore < - 1" by (simp add: newCaseStore_def) code_simp
  then have ok: "caseStateOK s'" using create_invariant(1) [OF c(1) caseStateOK_new] by (simp add: iterOrder_def newCaseStore_def)
  have one: "openFor demoFollowUp s' = {c}"
    by (auto simp: openFor_def records made(1) caseInputOf_def demoCreate_def newCaseStore_def newCaseCompareOriginModel_def
        split: if_splits)
  let ?env = "(demoCaseEnv demoFollowUp)\<lparr>cae_CaseKeys := \<lambda>_. [newCaseID 7 1]\<rparr>"
  have valid: "validateCreateCaseRequest demoFollowUp = None" by (simp add: validateCreateCaseRequest_def demoCreate_def)
  have sources: "validateCaseSources demoFollowUp (demoStores\<lparr>api_Cases := s'\<rparr>) = Inr None"
    by (simp add: validateCaseSources_def checkSourceTask_def checkSourceEvalReport_def checkSourceEvalCase_def
        checkSourceEvalRun_def checkCompareOrigin_def eval_Get_def demo_http)
  have "\<exists>d. isLatest (openFor demoFollowUp (api_Cases (demoStores\<lparr>api_Cases := s'\<rparr>))) d
      \<and> handleCreateCase ?env (demoHttp ''POST'' []) (demoStores\<lparr>api_Cases := s'\<rparr>)
        = (Some (caseReply ?env StatusOK d), demoStores\<lparr>api_Cases := s'\<rparr>)"
    using create_reuses_open_case [where env = ?env and s = "demoStores\<lparr>api_Cases := s'\<rparr>" and req = demoFollowUp
        and r = "demoHttp ''POST'' []", OF _ _ _ valid _ sources] ok one
    by (simp add: iterOrder_def records demoCaseEnv_def repeats_def)
  with c(2) one show ?thesis by (auto simp: isLatest_def demoCaseEnv_def)
qed

lemma repeated_create_finds_the_case_witness:
  "\<exists>body s'. handleCreateCase (demoCaseEnv demoFollowUp) (demoHttp ''POST'' []) demoStores
      = (Some (ReplyJSON StatusCreated body), s')
    \<and> handleCreateCase ((demoCaseEnv demoFollowUp)\<lparr>cae_Now := 9, cae_CaseKeys := \<lambda>_. [newCaseID 7 1]\<rparr>)
        (demoHttp ''POST'' []) s' = (Some (ReplyJSON StatusOK body), s')"
proof -
  obtain c s' where c: "CreateCaseWithOutcome [] 7 (caseInputOf demoFollowUp) newCaseStore = ((c, True), s')"
    "handleCreateCase (demoCaseEnv demoFollowUp) (demoHttp ''POST'' []) demoStores
       = (Some (ReplyJSON StatusCreated (CaseBody (newCaseResponse (\<lambda>_. ''now'') c []))),
          demoStores\<lparr>api_Cases := s'\<rparr>)"
    using demo_follow_up by (elim exE conjE)
  have records: "cst_records s' = [newCaseID 7 1 \<mapsto> c]"
    using created_case [OF c(1) TrueI] by (simp add: newCaseStore_def)
  have "handleCreateCase ((demoCaseEnv demoFollowUp)\<lparr>cae_Now := 9, cae_CaseKeys := \<lambda>_. [newCaseID 7 1]\<rparr>)
      (demoHttp ''POST'' []) (demoStores\<lparr>api_Cases := s'\<rparr>)
    = (Some (ReplyJSON StatusOK (CaseBody (newCaseResponse (\<lambda>_. ''now'') c []))), demoStores\<lparr>api_Cases := s'\<rparr>)"
  proof (rule repeated_create_finds_the_case [OF _ _ _ _ _ _ _ c(2)])
    show "cst_caseSeq (api_Cases demoStores) < - 1" by (simp add: newCaseStore_def) code_simp
    show "repeats demoFollowUp" by (simp add: repeats_def)
    show "cae_DecodeCreate (demoCaseEnv demoFollowUp) (hrq_Body (demoHttp ''POST'' [])) = Some demoFollowUp"
      by (simp add: demoCaseEnv_def)
    show "iterOrder (cst_records (api_Cases demoStores)) (cae_CaseKeys (demoCaseEnv demoFollowUp) label)" for label
      by (simp add: demoCaseEnv_def iterOrder_def newCaseStore_def)
    show "iterOrder (cst_records (api_Cases (demoStores\<lparr>api_Cases := s'\<rparr>))) [newCaseID 7 1]" for label :: string
      by (simp add: iterOrder_def records)
  qed simp_all
  with c(2) show ?thesis by (intro exI conjI)
qed

text \<open>A store with 250 reports of a dataset, which fill three pages, and one of another.\<close>

definition plainReport :: "string \<Rightarrow> string \<Rightarrow> evalReport" where
  "plainReport k d = \<lparr>erp_ID = k, erp_TenantID = ''acme'', erp_RunID = [], erp_DatasetID = d, erp_DatasetName = [],
     erp_RunStatus = [], erp_Status = [], erp_Summary = [], erp_TotalItems = 0, erp_RecordedResults = 0,
     erp_PassedItems = 0, erp_FailedItems = 0, erp_MissingResults = 0, erp_AverageScore = 0, erp_JudgeVersion = [],
     erp_MetadataJSON = [], erp_BadCases = [], erp_CreatedAt = 0, erp_UpdatedAt = 0, erp_ReadyAt = 0\<rparr>"

definition reportNames :: "string list" where
  "reportNames = map (\<lambda>i. CHR ''r'' # showNat i) [0..<250]"

definition manyReports :: evalStore where
  "manyReports = newMemoryStore\<lparr>est_evalReports := (\<lambda>k.
     if k \<in> set reportNames then Some (plainReport k ''d'') else if k = ''other'' then Some (plainReport k ''x'') else None)\<rparr>"

lemma reportNames_distinct: "distinct reportNames" "length reportNames = 250" "''other'' \<notin> set reportNames" "[] \<notin> set reportNames"
  by (auto simp: reportNames_def distinct_map inj_on_def)

lemma collectEvalReportIDsForDataset_correct_witness:
  "\<exists>ids. collectEvalReportIDsForDataset (\<lambda>_. ''other'' # reportNames) ''acme'' ''d'' manyReports = Some ids
     \<and> length ids = 250 \<and> set ids = set reportNames"
proof -
  have dom: "dom (est_evalReports manyReports) = insert ''other'' (set reportNames)"
    by (auto simp: manyReports_def dom_def split: if_splits)
  have keyed: "keyedBy erp_ID (est_evalReports manyReports)"
    by (auto simp: keyedBy_def manyReports_def plainReport_def split: if_splits)
  have order: "iterOrder (est_evalReports manyReports) (''other'' # reportNames)"
    using reportNames_distinct by (simp add: iterOrder_def dom)
  have "card (dom (est_evalReports manyReports)) = 251"
    using reportNames_distinct by (simp add: dom distinct_card)
  then have bound: "int (card (dom (est_evalReports manyReports))) + 100 < 2 ^ 63" by simp
  have "est_evalReports manyReports [] = None" using reportNames_distinct(4) by (simp add: manyReports_def)
  from collectEvalReportIDsForDataset_correct [OF keyed order bound _ _ this, of "''d''" "''acme''"]
  obtain ids where ids: "collectEvalReportIDsForDataset (\<lambda>_. ''other'' # reportNames) ''acme'' ''d'' manyReports = Some ids"
      "distinct ids" "set ids = {k. \<exists>rep. est_evalReports manyReports k = Some rep \<and> erp_TenantID rep = ''acme''
         \<and> erp_DatasetID rep = ''d''}"
    by auto
  have "set ids = set reportNames" unfolding ids(3) by (auto simp: manyReports_def plainReport_def)
  moreover from this have "length ids = 250" using ids(2) reportNames_distinct by (metis distinct_card)
  ultimately show ?thesis using ids(1) by blast
qed

lemma list_cases_panic_iff_witness:
  "fst (handleCases ((demoCaseEnv (demoCreate ''acme''))\<lparr>cae_CaseKeys := \<lambda>_. [newCaseID 0 2, newCaseID 0 1]\<rparr>)
      ((demoHttp ''GET'' [])\<lparr>hrq_Query := (\<lambda>_. [])(''tenant_id'' := ''acme'', ''offset'' := ''1'',
          ''limit'' := ''9223372036854775807'')\<rparr>)
      (demoStores\<lparr>api_Cases := demoCases\<rparr>)) = None"
proof -
  let ?r = "(demoHttp ''GET'' [])\<lparr>hrq_Query := (\<lambda>_. [])(''tenant_id'' := ''acme'', ''offset'' := ''1'',
          ''limit'' := ''9223372036854775807'')\<rparr>"
  let ?f = "emptyCaseFilter\<lparr>cf_TenantID := ''acme'', cf_Offset := 1, cf_Limit := 9223372036854775807\<rparr>"
  have parsed: "parseCaseListFilter ?r = Inr (?f, [])"
    by (simp add: parseCaseListFilter_def parseSwitch_def parseFlag_def parseLimit_def parseOffset_def limitFrom_def offsetFrom_def atoi_def
        digitVal_def Let_def emptyCaseFilter_def trimSpace_demo)
  have rows: "length (caseRows [newCaseID 0 2, newCaseID 0 1] ?f demoCases) = 2"
    by (simp add: caseRows_def rangeVals_def demoCases_def newCaseStore_def caseMatches_def emptyCaseFilter_def demoCase_def)
  show ?thesis
    using list_cases_panic_iff [where env = "(demoCaseEnv (demoCreate ''acme''))
        \<lparr>cae_CaseKeys := \<lambda>_. [newCaseID 0 2, newCaseID 0 1]\<rparr>" and s = "demoStores\<lparr>api_Cases := demoCases\<rparr>", OF _ parsed] rows
    by (simp add: demoHttp_def)
qed

end
