(* ===== verification/Http_Eval_Laws.thy ===== *)
theory Http_Eval_Laws
  imports Http_Eval_Datasets Http_Case_Laws Eval_Contracts
begin

text \<open>
  What the lists of the evaluation show: how a follow-up count of a reply depends on the open
  cases of the tenant, what the filters on it select, and that the list and the detail of a
  record agree.
\<close>

subsection \<open>The open cases behind an eval case\<close>

definition openFollowUps :: "caseState \<Rightarrow> (caseRec \<Rightarrow> string) \<Rightarrow> string \<Rightarrow> string \<Rightarrow> caseRec set" where
  "openFollowUps s key tenantID k =
     {c. cst_records s (cs_ID c) = Some c \<and> cs_TenantID c = tenantID \<and> key c = k \<and> cs_Status c = CaseStatusOpen}"

text \<open>An eval case that no open case of the tenant follows up.\<close>

definition unresolved :: "caseState \<Rightarrow> string \<Rightarrow> string \<Rightarrow> bool" where
  "unresolved s tenantID k \<longleftrightarrow> k = [] \<or> openFollowUps s cs_SourceEvalCaseID tenantID k = {}"

definition caseOrders :: "'j evalApiEnv \<Rightarrow> apiStores \<Rightarrow> bool" where
  "caseOrders env s \<longleftrightarrow>
     caseStateOK (api_Cases s) \<and> (\<forall>label. iterOrder (cst_records (api_Cases s)) (eae_CaseKeys env label))"

lemma finite_openFollowUps:
  assumes "iterOrder (cst_records s) ks"
  shows "finite (openFollowUps s key tenantID k)"
proof (rule finite_subset)
  show "openFollowUps s key tenantID k \<subseteq> ran (cst_records s)" by (auto simp: openFollowUps_def ran_def)
  have "finite (dom (cst_records s))" using assms unfolding iterOrder_def by (metis List.finite_set)
  then show "finite (ran (cst_records s))" by (rule finite_ran)
qed

lemma summarizeBy_open:
  assumes "caseStateOK s" "iterOrder (cst_records s) ks" "k \<noteq> [] \<longrightarrow> k \<in> set ids"
  shows "fus_OpenCaseCount (summaryAt (summarizeBy zeroSummary key (\<lambda>_ x. x) (\<lambda>c. cs_TenantID c = tenantID)
           ids (rangeVals (cst_records s) ks)) k)
       = (if k = [] then 0 else int (card (openFollowUps s key tenantID k)))"
proof -
  have "openFollowUps s key tenantID k
      = {c \<in> {c. cst_records s (cs_ID c) = Some c \<and> cs_TenantID c = tenantID \<and> key c = k}. cs_Status c = CaseStatusOpen}"
    by (auto simp: openFollowUps_def)
  then show ?thesis
    using summarizeBy_correct [OF assms(1,2), where mark = "\<lambda>_ x. x" and zero = zeroSummary and key = key
        and eligible = "\<lambda>c. cs_TenantID c = tenantID" and ids = ids and k = k] assms(3)
    by (auto simp: zeroSummary_def marks_def summaryAt_def summaryCorrect_def Let_def split: option.splits)
qed

lemma evalCase_open:
  assumes "caseStateOK s" "iterOrder (cst_records s) ks" "k \<noteq> [] \<longrightarrow> k \<in> set ids"
  shows "fus_OpenCaseCount (summaryAt (SummarizeBySourceEvalCaseIDs ks tenantID ids s) k) \<le> 0
       \<longleftrightarrow> unresolved s tenantID k"
    and "0 \<le> fus_OpenCaseCount (summaryAt (SummarizeBySourceEvalCaseIDs ks tenantID ids s) k)"
proof -
  have zero: "fus_OpenCaseCount (summaryAt Map.empty k) = 0" by (simp add: summaryAt_def zeroSummary_def)
  have "fus_OpenCaseCount (summaryAt (SummarizeBySourceEvalCaseIDs ks tenantID ids s) k)
      = (if k = [] then 0 else int (card (openFollowUps s cs_SourceEvalCaseID tenantID k)))"
    using summarizeBy_open [OF assms, where key = cs_SourceEvalCaseID and tenantID = tenantID] assms(3) zero
    by (auto simp: SummarizeBySourceEvalCaseIDs_def)
  then show "fus_OpenCaseCount (summaryAt (SummarizeBySourceEvalCaseIDs ks tenantID ids s) k) \<le> 0
       \<longleftrightarrow> unresolved s tenantID k"
    "0 \<le> fus_OpenCaseCount (summaryAt (SummarizeBySourceEvalCaseIDs ks tenantID ids s) k)"
    using finite_openFollowUps [OF assms(2), of cs_SourceEvalCaseID tenantID k]
    by (auto simp: unresolved_def)
qed

lemma set_appendIfMissing: "set (appendIfMissing ids i) = set ids \<union> ({i} - {[]})"
  by (auto simp: appendIfMissing_def)

lemma set_collected:
  "set (fold (\<lambda>x ids. if P x then appendIfMissing ids (g x) else ids) xs acc)
     = set acc \<union> (g ` {x \<in> set xs. P x} - {[]})"
  by (induction xs arbitrary: acc) (auto simp: set_appendIfMissing)

lemma set_collected_all: "set (fold (\<lambda>x ids. appendIfMissing ids (g x)) xs acc) = set acc \<union> (g ` set xs - {[]})"
  using set_collected [where P = "\<lambda>_. True"] by simp

subsection \<open>The follow-ups of bad cases\<close>

lemma badCase_open:
  assumes "caseStateOK s" "iterOrder (cst_records s) ks" "b \<in> set bs"
  shows "fus_OpenCaseCount (summaryAt (evalCaseFollowUpSummaries ks tenantID bs s) (bad_EvalCaseID b)) \<le> 0
       \<longleftrightarrow> unresolved s tenantID (bad_EvalCaseID b)"
    and "0 \<le> fus_OpenCaseCount (summaryAt (evalCaseFollowUpSummaries ks tenantID bs s) (bad_EvalCaseID b))"
proof -
  let ?ids = "fold (\<lambda>b ids. appendIfMissing ids (bad_EvalCaseID b)) bs []"
  have "bad_EvalCaseID b \<noteq> [] \<longrightarrow> bad_EvalCaseID b \<in> set ?ids" using assms(3) by (auto simp: set_collected_all)
  note o = evalCase_open [OF assms(1,2) this, where tenantID = tenantID]
  have e: "evalCaseFollowUpSummaries ks tenantID bs s = SummarizeBySourceEvalCaseIDs ks tenantID ?ids s"
    by (simp add: evalCaseFollowUpSummaries_def SummarizeBySourceEvalCaseIDs_def Let_def)
  show "fus_OpenCaseCount (summaryAt (evalCaseFollowUpSummaries ks tenantID bs s) (bad_EvalCaseID b)) \<le> 0
       \<longleftrightarrow> unresolved s tenantID (bad_EvalCaseID b)"
    "0 \<le> fus_OpenCaseCount (summaryAt (evalCaseFollowUpSummaries ks tenantID bs s) (bad_EvalCaseID b))"
    unfolding e by (fact o)+
qed

lemma unresolved_badCases:
  assumes "caseStateOK s" "iterOrder (cst_records s) ks" "set bs \<subseteq> set all"
  shows "countEvalReportBadCasesWithoutOpenFollowUp bs (evalCaseFollowUpSummaries ks tenantID all s)
       = int (length (filter (\<lambda>b. unresolved s tenantID (bad_EvalCaseID b)) bs))"
    and "filterEvalReportBadCasesByNeedsFollowUp bs (evalCaseFollowUpSummaries ks tenantID all s) wanted
       = filter (\<lambda>b. unresolved s tenantID (bad_EvalCaseID b) \<noteq> wanted) bs"
proof -
  have o: "fus_OpenCaseCount (summaryAt (evalCaseFollowUpSummaries ks tenantID all s) (bad_EvalCaseID b)) = 0
       \<longleftrightarrow> unresolved s tenantID (bad_EvalCaseID b)"
    "0 < fus_OpenCaseCount (summaryAt (evalCaseFollowUpSummaries ks tenantID all s) (bad_EvalCaseID b))
       \<longleftrightarrow> \<not> unresolved s tenantID (bad_EvalCaseID b)" if "b \<in> set bs" for b
    using badCase_open [OF assms(1,2), of b all tenantID] that assms(3) by force+
  show "countEvalReportBadCasesWithoutOpenFollowUp bs (evalCaseFollowUpSummaries ks tenantID all s)
       = int (length (filter (\<lambda>b. unresolved s tenantID (bad_EvalCaseID b)) bs))"
    unfolding countEvalReportBadCasesWithoutOpenFollowUp_def
    by (simp only: o(1) cong: filter_cong)
  show "filterEvalReportBadCasesByNeedsFollowUp bs (evalCaseFollowUpSummaries ks tenantID all s) wanted
       = filter (\<lambda>b. unresolved s tenantID (bad_EvalCaseID b) \<noteq> wanted) bs"
    unfolding filterEvalReportBadCasesByNeedsFollowUp_def
    by (rule filter_cong) (use o(2) in auto)
qed

lemma newEvalReportResponse_fields [simp]:
  "ert_BadCases (newEvalReportResponse env item True sm compare linked summaries n withoutOpen)
     = map (\<lambda>b. newBadCaseResponse b (summaryAt summaries (bad_EvalCaseID b))) (erp_BadCases item)"
  "rfc_BadCaseWithoutOpenFollowUpCount (newEvalReportResponse env item heavy sm compare linked summaries n withoutOpen)
     = withoutOpen"
  "rfc_BadCaseCount (newEvalReportResponse env item heavy sm compare linked summaries n withoutOpen)
     = (if n < 0 then int (length (erp_BadCases item)) else n)"
  "rfc_OpenFollowUpCaseCount (newEvalReportResponse env item heavy sm compare linked summaries n withoutOpen)
     = fus_OpenCaseCount sm"
  "rfc_ReportID (newEvalReportResponse env item heavy sm compare linked summaries n withoutOpen) = erp_ID item"
  "rfc_TenantID (newEvalReportResponse env item heavy sm compare linked summaries n withoutOpen) = erp_TenantID item"
  by (simp_all add: newEvalReportResponse_def Let_def)

lemma newBadCaseResponse_ID [simp]: "ebr_EvalCaseID (newBadCaseResponse b sm) = bad_EvalCaseID b"
  by (simp add: newBadCaseResponse_def Let_def)

text \<open>
  C35: The flag \<open>bad_case_needs_follow_up=true\<close> on one report shows the bad cases that an open case
  already follows up and hides the unresolved ones, although the same reply counts the unresolved
  ones as those without an open follow-up, and the same flag on the list selects by that count.
\<close>

theorem bad_case_filter_hides_unresolved:
  assumes "caseOrders env s" "hrq_Method r = ''GET''" "requestTenant r \<noteq> []"
    and "pathID (trimPrefix (hrq_Path r) ''/api/v1/eval-reports/'') = Some k"
    and "parseEvalReportBadCaseNeedsFollowUpFilter r = Inr (Some wanted)"
    and "est_evalReports (evalStoreOf s) k = Some item" "erp_TenantID item = requestTenant r"
  shows "\<exists>resp. handleEvalReportByID env r s = ReplyJSON StatusOK (EvalReportBody resp)
    \<and> map ebr_EvalCaseID (ert_BadCases resp)
        = filter (\<lambda>i. unresolved (api_Cases s) (requestTenant r) i \<noteq> wanted) (map bad_EvalCaseID (erp_BadCases item))
    \<and> rfc_BadCaseCount resp = int (length (erp_BadCases item))
    \<and> rfc_BadCaseWithoutOpenFollowUpCount resp
        = int (length (filter (unresolved (api_Cases s) (requestTenant r)) (map bad_EvalCaseID (erp_BadCases item))))"
proof -
  have o: "caseStateOK (api_Cases s)" "iterOrder (cst_records (api_Cases s)) (eae_CaseKeys env ''bad cases'')"
    using assms(1) by (simp_all add: caseOrders_def)
  note u = unresolved_badCases [OF o subset_refl]
  have q: "queryParam r ''tenant_id'' = requestTenant r" by (simp add: requestTenant_def queryParam_def)
  show ?thesis
    using assms(2-7) unfolding handleEvalReportByID_def q
    by (simp add: eval_GetEvalReport_def Let_def u filter_map comp_def)
qed

subsection \<open>A row does not depend on its page\<close>






subsection \<open>Scanning pages\<close>



subsection \<open>The list of reports\<close>











subsection \<open>A run in the list and on its own\<close>

lemma newEvalRunResponse_fields [simp]:
  "rnr_ItemWithoutOpenFollowUpCount (newEvalRunResponse f item events items results summaries linked rep n) = n"
  "rnr_NeedsFollowUp (newEvalRunResponse f item events items results summaries linked rep n) = (0 < n)"
  "rnr_ReportID (newEvalRunResponse f item events items results summaries linked rep n) = rrs_ReportID rep"
  "rnr_ReportStatus (newEvalRunResponse f item events items results summaries linked rep n) = rrs_ReportStatus rep"
  "rnr_RunID (newEvalRunResponse f item events items results summaries linked rep n) = run_ID item"
  "rnr_TenantID (newEvalRunResponse f item events items results summaries linked rep n) = run_TenantID item"
  by (simp_all add: newEvalRunResponse_def)

lemma withRunResultSummary_fields [simp]:
  "run_ID (withRunResultSummary item results) = run_ID item"
  "run_TenantID (withRunResultSummary item results) = run_TenantID item"
  "run_Status (withRunResultSummary item results) = run_Status item"
  by (simp_all add: withRunResultSummary_def)

text \<open>The items of a run that nobody follows up, when they failed.\<close>

definition unfollowedItems :: "caseState \<Rightarrow> evalRun \<Rightarrow> runItem list \<Rightarrow> int" where
  "unfollowedItems cases r items =
     (if run_Status r \<noteq> RunStatusFailed then 0
      else int (length (filter (\<lambda>i. i \<noteq> [] \<and> unresolved cases (run_TenantID r) i) (map rit_EvalCaseID items))))"

lemma countWithoutOpen_run:
  assumes "judgedFor items (run_Status r) results"
    and "\<And>res. res \<in> set results \<Longrightarrow> failedItem res \<Longrightarrow>
      (fus_OpenCaseCount (summaryAt summaries (irs_EvalCaseID res)) \<le> 0)
        = unresolved cases (run_TenantID r) (irs_EvalCaseID res)"
  shows "countWithoutOpen summaries results = unfollowedItems cases r items"
proof -
  have ids: "map rit_EvalCaseID items = map irs_EvalCaseID results" using assms(1) by (simp add: judgedFor_def)
  have failed: "failedItem res \<longleftrightarrow> run_Status r = RunStatusFailed \<and> irs_EvalCaseID res \<noteq> []" if "res \<in> set results" for res
    using assms(1) that by (auto simp: judgedFor_def failedItem_def)
  have "filter (\<lambda>res. failedItem res \<and> fus_OpenCaseCount (summaryAt summaries (irs_EvalCaseID res)) \<le> 0) results
      = filter (\<lambda>res. run_Status r = RunStatusFailed \<and> irs_EvalCaseID res \<noteq> []
          \<and> unresolved cases (run_TenantID r) (irs_EvalCaseID res)) results"
    by (rule filter_cong) (use failed assms(2) in auto)
  then show ?thesis by (simp add: countWithoutOpen_def unfollowedItems_def ids filter_map comp_def)
qed

lemma no_results_judged: "results = [] \<Longrightarrow> \<not> finishedStatus (run_Status r) \<Longrightarrow>
    countWithoutOpen summaries results = unfollowedItems cases r items"
  by (simp add: countWithoutOpen_def unfollowedItems_def finishedStatus_def)

lemma countWithoutOpen_stored:
  assumes "caseOrders env s" "runStoreOK (evalStoreOf s)" "est_runs (evalStoreOf s) k = Some r"
    and "\<And>res. res \<in> set (entries (est_runItemResults (evalStoreOf s)) k) \<Longrightarrow> failedItem res \<Longrightarrow> irs_EvalCaseID res \<in> set ids"
  shows "countWithoutOpen (SummarizeBySourceEvalCaseIDs (eae_CaseKeys env label) (run_TenantID r) ids (api_Cases s))
      (entries (est_runItemResults (evalStoreOf s)) k)
    = unfollowedItems (api_Cases s) r (itemsOf (evalStoreOf s) k)"
proof -
  have o: "caseStateOK (api_Cases s)" "iterOrder (cst_records (api_Cases s)) (eae_CaseKeys env label)"
    using assms(1) by (simp_all add: caseOrders_def)
  note judged = runRecord_facts(3) [OF assms(2,3)]
  show ?thesis
  proof (cases "finishedStatus (run_Status r)")
    case True
    with judged have "judgedFor (itemsOf (evalStoreOf s) k) (run_Status r) (entries (est_runItemResults (evalStoreOf s)) k)"
      by (auto simp: entries_def)
    then show ?thesis by (rule countWithoutOpen_run) (use assms(4) evalCase_open(1) [OF o] in auto)
  next
    case False
    with judged show ?thesis by (simp add: no_results_judged entries_def)
  qed
qed

lemma noSummaries: "(if ids = [] then Map.empty else SummarizeBySourceEvalCaseIDs ks T ids cases)
    = SummarizeBySourceEvalCaseIDs ks T ids cases"
  by (simp add: SummarizeBySourceEvalCaseIDs_def)

lemma run_list_row:
  assumes "caseOrders env s" "runStoreOK (evalStoreOf s)" "est_runs (evalStoreOf s) k = Some r" "run_ID r = k"
  shows "\<exists>linked. evalRunListRow env s (withRunResultSummary r results)
      = Inr (newEvalRunResponse (eae_FormatTime env) (withRunResultSummary r results) [] [] [] Map.empty linked
          (evalRunReportSummary (withRunResultSummary r results) s)
          (unfollowedItems (api_Cases s) r (itemsOf (evalStoreOf s) k)))"
proof -
  let ?st = "evalStoreOf s" and ?T = "run_TenantID r" and ?cases = "api_Cases s"
  let ?results = "entries (est_runItemResults ?st) k" and ?n = "unfollowedItems ?cases r (itemsOf ?st k)"
  let ?asked = "fold (\<lambda>res ids. if failedItem res then appendIfMissing ids (irs_EvalCaseID res) else ids) ?results []"
  have asked: "irs_EvalCaseID res \<in> set ?asked" if "res \<in> set ?results" "failedItem res" for res
    using that by (auto simp: set_collected failedItem_def)
  note count = countWithoutOpen_stored [OF assms(1-3) asked]
  have none: "?n = 0" if "?asked = []"
  proof -
    have "countWithoutOpen (SummarizeBySourceEvalCaseIDs (eae_CaseKeys env []) ?T ?asked ?cases) ?results = 0"
      using asked unfolding that by (auto simp: countWithoutOpen_def filter_empty_conv)
    then show ?thesis using count [of "[]"] by simp
  qed
  have "evalRunFollowUpSummary env k ?T s = Inr \<lparr>rfu_PerEvalCase =
        SummarizeBySourceEvalCaseIDs (eae_CaseKeys env (''items '' @ k)) ?T ?asked ?cases,
      rfu_Run = runSummaryAt (SummarizeBySourceEvalRunIDs (eae_CaseKeys env (''run '' @ k)) ?T [k] ?cases) k,
      rfu_WithoutOpen = ?n\<rparr>"
    unfolding evalRunFollowUpSummary_def eval_GetRunDetail_def assms(3) option.case sum.case Let_def noSummaries
      runDetail.simps using none count [of "''items '' @ k"] by simp
  then show ?thesis using assms(4) by (auto simp: evalRunListRow_def)
qed

text \<open>
  C21: A run shows the same follow-up count in the list and on its own, although the list asks for the
  cases of its failed results and the detail for those of its items: zero unless the run failed,
  and then the number of its items whose eval case has no open case of the tenant.  So a run that
  succeeded never needs a follow-up, whatever its judge found.
\<close>

theorem run_follow_ups_agree:
  assumes "caseOrders env s" "runStoreOK (evalStoreOf s)" "est_runs (evalStoreOf s) k = Some r" "run_ID r = k"
  shows "\<exists>row detail. evalRunListRow env s (withRunResultSummary r results) = Inr row
    \<and> writeEvalRunDetailResponse env k (run_TenantID r) StatusOK s = ReplyJSON StatusOK (EvalRunBody detail)
    \<and> rnr_ItemWithoutOpenFollowUpCount row = unfollowedItems (api_Cases s) r (itemsOf (evalStoreOf s) k)
    \<and> rnr_ItemWithoutOpenFollowUpCount detail = rnr_ItemWithoutOpenFollowUpCount row
    \<and> rnr_ReportID detail = rnr_ReportID row \<and> rnr_ReportStatus detail = rnr_ReportStatus row
    \<and> (run_Status r = RunStatusSucceeded \<longrightarrow> \<not> rnr_NeedsFollowUp row \<and> \<not> rnr_NeedsFollowUp detail)"
proof -
  let ?st = "evalStoreOf s" and ?T = "run_TenantID r" and ?cases = "api_Cases s"
  let ?results = "entries (est_runItemResults ?st) k" and ?items = "itemsOf ?st k"
  let ?shown = "fold (\<lambda>item ids. appendIfMissing ids (rit_EvalCaseID item)) ?items []"
  note judged = runRecord_facts(3) [OF assms(2,3)]
  have "irs_EvalCaseID ` set ?results \<subseteq> rit_EvalCaseID ` set ?items"
  proof (cases "finishedStatus (run_Status r)")
    case True
    with judged have "map irs_EvalCaseID ?results = map rit_EvalCaseID ?items"
      by (auto simp: judgedFor_def entries_def)
    from arg_cong [OF this, of set] show ?thesis by simp
  next
    case False
    with judged show ?thesis by (simp add: entries_def)
  qed
  then have shown: "irs_EvalCaseID res \<in> set ?shown" if "res \<in> set ?results" "failedItem res" for res
    using that by (auto simp: set_collected_all failedItem_def)
  let ?n = "unfollowedItems ?cases r ?items"
  have detail: "\<exists>summaries linked. writeEvalRunDetailResponse env k ?T StatusOK s = ReplyJSON StatusOK (EvalRunBody
      (newEvalRunResponse (eae_FormatTime env) (withRunResultSummary r ?results) (entries (est_runEvents ?st) k) ?items
        ?results summaries linked (evalRunReportSummary (withRunResultSummary r ?results) s) ?n))"
    unfolding writeEvalRunDetailResponse_def eval_GetRunDetail_def assms(3) option.case sum.case Let_def noSummaries
      runDetail.simps using countWithoutOpen_stored [OF assms(1-3) shown, of "''detail''"] by auto
  have "evalRunReportSummary (withRunResultSummary r results) s = evalRunReportSummary (withRunResultSummary r ?results) s"
    unfolding evalRunReportSummary_def withRunResultSummary_fields ..
  moreover have "?n = 0" if "run_Status r = RunStatusSucceeded" using that by (simp add: unfollowedItems_def)
  ultimately show ?thesis using run_list_row [OF assms] detail by fastforce
qed

subsection \<open>Requests that do less than they say\<close>

text \<open>
  The slice for the rows is made before the first one is read, with one place more than the limit,
  so a filtered list of runs panics for a limit that memory cannot hold or whose successor wraps.
\<close>

theorem filtered_runs_panic:
  assumes "parseEvalRunListFilter r = Inr (f, Some wanted)" "hrq_Method r = ''GET''"
    and "rnf_Limit f = 2 ^ 63 - 1 \<or> rnf_Limit f + 1 < 2 ^ 63 \<and> eae_MaxCap env < rnf_Limit f + 1 \<and> 0 < rnf_Limit f"
  shows "fst (handleEvalRuns env r s) = None"
proof -
  have "goInt (rnf_Limit f + 1) < 0 \<or> eae_MaxCap env < goInt (rnf_Limit f + 1)"
    using assms(3) by (auto simp: goInt_small) (simp add: goInt_def)
  then show ?thesis
    using assms(1,2) by (simp add: handleEvalRuns_def handleListEvalRuns_def listEvalRunsResponse_def Let_def)
qed

text \<open>
  C36: The regression check of a server whose report service has no case creator, as the program
  wires it: a request with \<open>auto_promote=true\<close> that finds a regression is answered with success and
  the new bad cases, but opens no case for any of them.
\<close>

theorem regression_check_promotes_nothing:
  assumes "hrq_Method r = ''POST''" "hrq_Query r ''auto_promote'' = ''true''" "requestTenant r \<noteq> []"
    and "b = queryParam r ''baseline_report_id''" "c = queryParam r ''candidate_report_id''" "b \<noteq> []" "c \<noteq> []"
    and "parseThresholds env r = Inr t" "DetectRegression b c t (evalStoreOf s) = Inr result"
    and "est_evalReports (evalStoreOf s) b = Some base" "erp_TenantID base = requestTenant r"
    and "est_evalReports (evalStoreOf s) c = Some cand" "erp_TenantID cand = requestTenant r"
  shows "\<exists>resp. handleEvalRegressionCheck env None r s w = (ReplyJSON StatusOK (RegressionBody resp), w)
    \<and> rcr_PromotedCaseCount resp = 0 \<and> rcr_Verdict resp = reg_Verdict result
    \<and> map rbi_EvalCaseID (rcr_NewBadCases resp) = map bad_EvalCaseID (reg_NewBadCases result)"
proof -
  have q: "queryParam r ''tenant_id'' = requestTenant r" by (simp add: requestTenant_def queryParam_def)
  show ?thesis
    using assms unfolding handleEvalRegressionCheck_def Let_def q
    by (simp add: PromoteRegressionCases_def eval_GetEvalReport_def newRegressionCheckResponse_def regressionBadCaseItemOf_def
        comp_def)
qed

subsection \<open>Concrete instances\<close>

text \<open>An open case follows up the eval case \<open>e1\<close>, and a report has two bad cases.\<close>

definition demoFollower :: caseRec where
  "demoFollower = (demoCase 2 ''open'' [] 6)\<lparr>cs_SourceEvalReportID := [], cs_SourceEvalCaseID := ''e1''\<rparr>"

definition demoFollowed :: caseState where
  "demoFollowed = newCaseStore\<lparr>cst_records := [newCaseID 0 2 \<mapsto> demoFollower], cst_caseSeq := 2\<rparr>"

lemma demoFollower_fields:
  "cs_ID demoFollower = newCaseID 0 2" "cs_TenantID demoFollower = ''acme''" "cs_Status demoFollower = CaseStatusOpen"
  "cs_SourceEvalReportID demoFollower = []" "cs_SourceEvalCaseID demoFollower = ''e1''"
  by (simp_all add: demoFollower_def demoCase_def)

lemma demoFollowed_records: "cst_records demoFollowed = [newCaseID 0 2 \<mapsto> demoFollower]"
  by (simp add: demoFollowed_def)

definition demoEvalApi :: "unit evalApiEnv" where
  "demoEvalApi = \<lparr>eae_Now = 7, eae_Created = 7, eae_FormatTime = (\<lambda>_. ''now''), eae_FormatScore = (\<lambda>_. ''0''),
     eae_ParseFloat = (\<lambda>_. None), eae_ParseJSON = (\<lambda>_. None), eae_ParseTexts = (\<lambda>_. None),
     eae_VersionIDs = (\<lambda>_. []), eae_CaseKeys = (\<lambda>_. [newCaseID 0 2]), eae_EvalKeys = (\<lambda>_ _. [''rep'']),
     eae_Others = id, eae_Runs = demoRunService, eae_MaxCap = 1000, eae_EvalCaseCap = 1000, eae_DecodeEvalCase = (\<lambda>_. None),
     eae_DecodeDataset = (\<lambda>_. None), eae_DecodeItem = (\<lambda>_. None),
     eae_DecodePublish = (\<lambda>_. None), eae_DecodeRun = (\<lambda>_. None)\<rparr>"

definition demoEvalStores :: "evalStore \<Rightarrow> apiStores" where
  "demoEvalStores st = demoStores\<lparr>api_Cases := demoFollowed, api_Evals := newEvalState\<lparr>evl_Store := st\<rparr>\<rparr>"

abbreviation (input) demoReported :: evalStore where
  "demoReported \<equiv> newMemoryStore\<lparr>est_evalReports := [''rep'' \<mapsto> demoReport ''rep'' 1 [demoBad ''e1'', demoBad ''e2'']]\<rparr>"

lemma demoFollowed_OK: "caseStateOK demoFollowed"
proof -
  have "\<exists>t w. newCaseID 0 2 = newCaseID t w \<and> w \<le> (2::u64)" by (intro exI [of _ 0] exI [of _ 2]) simp
  then show ?thesis
    by (auto simp: caseStateOK_def demoFollowed_def keyedBy_def demoFollower_def demoCase_def newCaseStore_def)
qed

lemma demoFollowed_unresolved:
  "unresolved demoFollowed ''acme'' ''e2''" "\<not> unresolved demoFollowed ''acme'' ''e1''"
  "openFollowUps demoFollowed cs_SourceEvalReportID ''acme'' ''rep'' = {}"
proof -
  have "cst_records demoFollowed (cs_ID c) = Some c \<longleftrightarrow> c = demoFollower" for c
    by (auto simp: demoFollowed_records demoFollower_fields(1))
  then have "openFollowUps demoFollowed key ''acme'' k = (if key demoFollower = k then {demoFollower} else {})" for key k
    by (auto simp: openFollowUps_def demoFollower_fields)
  then show "unresolved demoFollowed ''acme'' ''e2''" "\<not> unresolved demoFollowed ''acme'' ''e1''"
    "openFollowUps demoFollowed cs_SourceEvalReportID ''acme'' ''rep'' = {}"
    by (simp_all add: unresolved_def demoFollower_fields)
qed

lemma demo_caseOrders: "caseOrders demoEvalApi (demoEvalStores st)"
  using demoFollowed_OK
  by (simp add: caseOrders_def demoEvalApi_def demoEvalStores_def iterOrder_def demoFollowed_records)

abbreviation (input) demoQuery :: "(string \<Rightarrow> string) \<Rightarrow> httpRequest" where
  "demoQuery q \<equiv> (demoHttp ''GET'' ''/api/v1/eval-reports/rep'')\<lparr>hrq_Query := q(''tenant_id'' := ''acme'')\<rparr>"

lemma bad_case_filter_hides_unresolved_witness:
  "\<exists>resp. handleEvalReportByID demoEvalApi (demoQuery ((\<lambda>_. [])(''bad_case_needs_follow_up'' := ''true'')))
       (demoEvalStores demoReported) = ReplyJSON StatusOK (EvalReportBody resp)
     \<and> map ebr_EvalCaseID (ert_BadCases resp) = [''e1''] \<and> rfc_BadCaseWithoutOpenFollowUpCount resp = 1"
proof -
  let ?r = "demoQuery ((\<lambda>_. [])(''bad_case_needs_follow_up'' := ''true''))"
  have t: "requestTenant ?r = ''acme''" by (simp add: requestTenant_def trimSpace_demo)
  have true: "trimSpace ''true'' = ''true''" by code_simp
  have p: "pathID (trimPrefix (hrq_Path ?r) ''/api/v1/eval-reports/'') = Some ''rep''"
    by (simp add: demoHttp_def pathID_def trimPrefix_def contains_def hasPrefix_def)
  have f: "parseEvalReportBadCaseNeedsFollowUpFilter ?r = Inr (Some True)"
    by (simp add: parseEvalReportBadCaseNeedsFollowUpFilter_def parseLooseFlag_def queryParam_def true parseBool_def)
  let ?s = "demoEvalStores demoReported" and ?bad = "[demoBad ''e1'', demoBad ''e2'']"
  have rep: "est_evalReports (evalStoreOf ?s) ''rep'' = Some (demoReport ''rep'' 1 ?bad)" by (simp add: demoEvalStores_def)
  have "hrq_Method ?r = ''GET''" "requestTenant ?r \<noteq> []" "erp_TenantID (demoReport ''rep'' 1 ?bad) = requestTenant ?r"
    unfolding t by (simp_all add: demoHttp_def demoReport_def)
  from bad_case_filter_hides_unresolved [OF demo_caseOrders this(1,2) p f rep this(3)]
  obtain resp where resp: "handleEvalReportByID demoEvalApi ?r ?s = ReplyJSON StatusOK (EvalReportBody resp)"
      "map ebr_EvalCaseID (ert_BadCases resp)
        = filter (\<lambda>i. unresolved demoFollowed ''acme'' i \<noteq> True) (map bad_EvalCaseID (erp_BadCases (demoReport ''rep'' 1 ?bad)))"
      "rfc_BadCaseWithoutOpenFollowUpCount resp
        = int (length (filter (unresolved demoFollowed ''acme'') (map bad_EvalCaseID (erp_BadCases (demoReport ''rep'' 1 ?bad)))))"
    unfolding t by (auto simp: demoEvalStores_def)
  have "map bad_EvalCaseID (erp_BadCases (demoReport ''rep'' 1 ?bad)) = [''e1'', ''e2'']"
    by (simp add: demoReport_def demoBad_def)
  then show ?thesis using resp demoFollowed_unresolved(1,2) by (intro exI [of _ resp]) simp
qed




lemma run_follow_ups_agree_witness:
  "\<exists>s r row. est_runs (evalStoreOf s) demoR = Some r
     \<and> evalRunListRow demoEvalApi s (withRunResultSummary r []) = Inr row
     \<and> \<not> rnr_NeedsFollowUp row \<and> run_Status r = RunStatusSucceeded"
proof -
  obtain st r where st: "runStoreOK st" "est_runs st demoR = Some r" "run_Status r = RunStatusSucceeded"
    using demo_succeeded by (elim exE conjE)
  have id: "run_ID r = demoR" using st(1,2) keyedByD unfolding runStoreOK_def by metis
  have ok: "runStoreOK (evalStoreOf (demoEvalStores st))" "est_runs (evalStoreOf (demoEvalStores st)) demoR = Some r"
    using st by (simp_all add: demoEvalStores_def)
  from run_follow_ups_agree [OF demo_caseOrders ok id, of "[]"] st(3) ok(2) show ?thesis by blast
qed

lemma regression_check_promotes_nothing_witness:
  "\<exists>resp. handleEvalRegressionCheck demoEvalApi None
       ((demoHttp ''POST'' [])\<lparr>hrq_Query := (\<lambda>_. [])(''tenant_id'' := ''acme'', ''auto_promote'' := ''true'',
           ''baseline_report_id'' := ''b'', ''candidate_report_id'' := ''c'')\<rparr>)
       (demoEvalStores (newMemoryStore\<lparr>est_evalReports :=
           [''b'' \<mapsto> demoReport ''b'' 1 [], ''c'' \<mapsto> demoReport ''c'' 1 [demoBad ''e'']]\<rparr>)) ()
     = (ReplyJSON StatusOK (RegressionBody resp), ())
   \<and> rcr_Verdict resp = RegressionVerdictRegression \<and> rcr_PromotedCaseCount resp = 0"
proof -
  let ?r = "(demoHttp ''POST'' [])\<lparr>hrq_Query := (\<lambda>_. [])(''tenant_id'' := ''acme'', ''auto_promote'' := ''true'',
           ''baseline_report_id'' := ''b'', ''candidate_report_id'' := ''c'')\<rparr>"
  let ?st = "newMemoryStore\<lparr>est_evalReports := [''b'' \<mapsto> demoReport ''b'' 1 [], ''c'' \<mapsto> demoReport ''c'' 1 [demoBad ''e'']]\<rparr>"
  have trims: "trimSpace ''b'' = ''b''" "trimSpace ''c'' = ''c''" by code_simp+
  have q: "requestTenant ?r = ''acme''" "''b'' = queryParam ?r ''baseline_report_id''"
      "''c'' = queryParam ?r ''candidate_report_id''"
    by (simp_all add: requestTenant_def queryParam_def trims)
  have t: "parseThresholds demoEvalApi ?r = Inr DefaultRegressionThresholds"
    by (simp add: parseThresholds_def)
  obtain result where found: "DetectRegression ''b'' ''c'' DefaultRegressionThresholds ?st = Inr result"
      "reg_Verdict result = RegressionVerdictRegression"
    by (simp add: DetectRegression_def eval_GetEvalReport_def Let_def classifyRegression_def diffBadCases_def badIDs_def
        demoReport_def demoBad_def DefaultRegressionThresholds_def)
  have st: "evalStoreOf (demoEvalStores ?st) = ?st" by (simp add: demoEvalStores_def)
  have reports: "est_evalReports ?st ''b'' = Some (demoReport ''b'' 1 [])"
      "est_evalReports ?st ''c'' = Some (demoReport ''c'' 1 [demoBad ''e''])"
      "erp_TenantID (demoReport ''b'' 1 []) = requestTenant ?r"
      "erp_TenantID (demoReport ''c'' 1 [demoBad ''e'']) = requestTenant ?r"
    unfolding q(1) by (simp_all add: demoReport_def)
  have "hrq_Method ?r = ''POST''" "hrq_Query ?r ''auto_promote'' = ''true''" "requestTenant ?r \<noteq> []"
    unfolding q(1) by (simp_all add: demoHttp_def)
  from regression_check_promotes_nothing [OF this q(2,3) _ _ t, of "demoEvalStores ?st" result, unfolded st, OF _ _ found(1)
      reports(1,3,2,4), of "()"] found(2)
  show ?thesis by auto
qed

end
