(* ===== verification/Http_Eval_Safety.thy ===== *)
theory Http_Eval_Safety
  imports Http_Eval_Laws
begin

text \<open>
  What a server that runs the evaluation endpoints keeps: every request makes at most one step of the
  evaluation services, so what these promise holds whatever requests a server gets between the
  steps of its worker and of the components that own the cases.
\<close>

subsection \<open>A request is a step\<close>

text \<open>Nothing happens within a request, and judges are judges.\<close>

definition evalEnvOK :: "'j evalApiEnv \<Rightarrow> bool" where
  "evalEnvOK env \<longleftrightarrow> eae_Others env = id
     \<and> run_judge (rsn_Judge (eae_Runs env)) \<and> run_judge (rsn_Fallback (eae_Runs env))"

text \<open>The counters of a state are below their maximum.\<close>

definition countersLow :: "evalState \<Rightarrow> bool" where
  "countersLow st \<longleftrightarrow> evl_CaseSeq st < - 1 \<and> evl_DatasetSeq st < - 1 \<and> evl_RunSeq st < - 1"

definition evalActs :: "'j evalApiEnv \<Rightarrow> reportEnv \<Rightarrow> apiStores \<Rightarrow> apiStores \<Rightarrow> bool" where
  "evalActs env renv s s' \<longleftrightarrow> s' = s\<lparr>api_Evals := api_Evals s'\<rparr>
     \<and> (api_Evals s' = api_Evals s \<or> evalStep (evalDepsOf env s) (eae_Runs env) renv (api_Evals s) (api_Evals s'))"

lemma evalActs_refl [simp]: "evalActs env renv s s"
  by (simp add: evalActs_def)

lemma evalActs_step:
  "evalStep (evalDepsOf env s) (eae_Runs env) renv (api_Evals s) st \<Longrightarrow> evalActs env renv s (s\<lparr>api_Evals := st\<rparr>)"
  by (simp add: evalActs_def)

lemma create_requests_act:
  assumes "evalEnvOK env" "countersLow (api_Evals s)"
  shows "evalActs env renv s (snd (handleCreateEvalCase env r s))"
    "evalActs env renv s (snd (handleCreateEvalDataset env r s))"
    "evalActs env renv s (snd (handleCreateEvalRun env r s))"
  using assms
  by (auto simp: handleCreateEvalCase_def handleCreateEvalDataset_def handleCreateEvalRun_def evalEnvOK_def countersLow_def
      Let_def split: option.splits prod.splits intro!: evalActs_step
      intro: evalStep.promotes_case evalStep.creates_dataset evalStep.creates_run)

lemma changing_requests_act:
  assumes "evalEnvOK env"
  shows "evalActs env renv s (snd (handleAddEvalDatasetItem env r k s))"
    "evalActs env renv s (snd (handlePublishEvalDataset env r k s))"
    "evalActs env renv s (snd (handleRetryEvalRun env r k s))"
  using assms
  by (auto simp: handleAddEvalDatasetItem_def handlePublishEvalDataset_def handleRetryEvalRun_def evalEnvOK_def
      Let_def split: option.splits prod.splits sum.splits intro!: evalActs_step
      intro: evalStep.adds_item evalStep.publishes evalStep.retries)

lemma requests_act:
  assumes "evalEnvOK env" "countersLow (api_Evals s)"
  shows "evalActs env renv s (snd (handleEvalCases env r s))"
    "evalActs env renv s (snd (handleEvalDatasets env r s))"
    "evalActs env renv s (snd (handleEvalDatasetByID env r s))"
    "evalActs env renv s (snd (handleEvalRuns env r s))"
    "evalActs env renv s (snd (handleEvalRunByID env r s))"
proof -
  note acts = create_requests_act [OF assms, of renv r] changing_requests_act [OF assms(1), of renv s r]
  show "evalActs env renv s (snd (handleEvalCases env r s))"
    "evalActs env renv s (snd (handleEvalDatasets env r s))"
    "evalActs env renv s (snd (handleEvalRuns env r s))"
    by (simp_all add: handleEvalCases_def handleEvalDatasets_def handleEvalRuns_def case_prod_unfold Let_def acts)
  show "evalActs env renv s (snd (handleEvalDatasetByID env r s))"
    "evalActs env renv s (snd (handleEvalRunByID env r s))"
    by (simp_all add: handleEvalDatasetByID_def handleEvalRunByID_def case_prod_unfold Let_def acts split: option.split)
qed

subsection \<open>Any requests\<close>

text \<open>
  A server: requests in the environments \<open>E\<close>, steps of the evaluation worker and of the judges, and
  whatever else leaves the evaluation alone and the cases well-formed.
\<close>

inductive evalServed ::
    "'j evalApiEnv set \<Rightarrow> evalCaseDeps \<Rightarrow> 'w runService \<Rightarrow> reportEnv \<Rightarrow> apiStores \<Rightarrow> apiStores \<Rightarrow> bool"
  for E deps svc renv where
  on_cases: "\<lbrakk>env \<in> E; countersLow (api_Evals s); handleEvalCases env r s = (reply1, s')\<rbrakk>
    \<Longrightarrow> evalServed E deps svc renv s s'"
| on_datasets: "\<lbrakk>env \<in> E; countersLow (api_Evals s); handleEvalDatasets env r s = (reply2, s')\<rbrakk>
    \<Longrightarrow> evalServed E deps svc renv s s'"
| on_dataset: "\<lbrakk>env \<in> E; countersLow (api_Evals s); handleEvalDatasetByID env r s = (reply2, s')\<rbrakk>
    \<Longrightarrow> evalServed E deps svc renv s s'"
| on_runs: "\<lbrakk>env \<in> E; countersLow (api_Evals s); handleEvalRuns env r s = (reply3, s')\<rbrakk>
    \<Longrightarrow> evalServed E deps svc renv s s'"
| on_run: "\<lbrakk>env \<in> E; countersLow (api_Evals s); handleEvalRunByID env r s = (reply4, s')\<rbrakk>
    \<Longrightarrow> evalServed E deps svc renv s s'"
| worker: "evalStep deps svc renv (api_Evals s) st \<Longrightarrow> evalServed E deps svc renv s (s\<lparr>api_Evals := st\<rparr>)"
| others: "\<lbrakk>api_Evals s' = api_Evals s; caseStateOK (api_Cases s')\<rbrakk> \<Longrightarrow> evalServed E deps svc renv s s'"

lemma request_stepOK:
  assumes "evalActs env renv s s'" "evalEnvOK env" "caseStateOK (api_Cases s)" "evalInv (api_Evals s)"
  shows "stepOK (api_Evals s) (api_Evals s')" "caseStateOK (api_Cases s')"
proof -
  have "servicesOK (evalDepsOf env s) (eae_Runs env)"
    using assms(2) caseStateOK_suffix(2) [OF assms(3)]
    by (auto simp: servicesOK_def evalEnvOK_def evalDepsOf_def case_Get_def split: option.splits)
  then show "stepOK (api_Evals s) (api_Evals s')"
    using assms(1,4) evalStep_OK stepOK_refl unfolding evalActs_def by metis
  show "caseStateOK (api_Cases s')"
    using assms(1,3) unfolding evalActs_def by (metis apiStores.select_convs(1) apiStores.surjective apiStores.update_convs)
qed

lemma evalServed_OK:
  assumes "evalServed E deps svc renv s s'" "\<And>env. env \<in> E \<Longrightarrow> evalEnvOK env" "servicesOK deps svc"
    and "caseStateOK (api_Cases s)" "evalInv (api_Evals s)"
  shows "stepOK (api_Evals s) (api_Evals s') \<and> caseStateOK (api_Cases s')"
  using assms(1)
proof cases
  case (on_cases env r reply1)
  then show ?thesis using requests_act(1) [OF assms(2), of env s renv r] request_stepOK assms(2,4,5) by (metis snd_conv)
next
  case (on_datasets env r reply2)
  then show ?thesis using requests_act(2) [OF assms(2), of env s renv r] request_stepOK assms(2,4,5) by (metis snd_conv)
next
  case (on_dataset env r reply2)
  then show ?thesis using requests_act(3) [OF assms(2), of env s renv r] request_stepOK assms(2,4,5) by (metis snd_conv)
next
  case (on_runs env r reply3)
  then show ?thesis using requests_act(4) [OF assms(2), of env s renv r] request_stepOK assms(2,4,5) by (metis snd_conv)
next
  case (on_run env r reply4)
  then show ?thesis using requests_act(5) [OF assms(2), of env s renv r] request_stepOK assms(2,4,5) by (metis snd_conv)
next
  case (worker st)
  then show ?thesis using evalStep_OK assms(3-5) by simp
next
  case others
  then show ?thesis using stepOK_refl assms(5) by simp
qed

lemma evalServed_steps_OK:
  assumes "(evalServed E deps svc renv)\<^sup>*\<^sup>* s s'" "\<And>env. env \<in> E \<Longrightarrow> evalEnvOK env" "servicesOK deps svc"
    and "caseStateOK (api_Cases s)" "evalInv (api_Evals s)"
  shows "stepOK (api_Evals s) (api_Evals s') \<and> caseStateOK (api_Cases s')"
  using assms(1)
proof (induction rule: rtranclp_induct)
  case base
  then show ?case using assms(4,5) by (simp add: stepOK_refl)
next
  case (step y z)
  have "evalInv (api_Evals y)" using step.IH by (simp add: stepOK_def)
  then have "stepOK (api_Evals y) (api_Evals z) \<and> caseStateOK (api_Cases z)"
    using evalServed_OK [OF step.hyps(2) assms(2,3)] step.IH by blast
  then show ?case using step.IH recordsKept_trans unfolding stepOK_def by blast
qed

text \<open>
  C15: Whatever requests a server gets, one at a time, between the steps of its evaluation worker: no
  eval case and no published dataset changes, and every run still evaluates the items it was created with, those of
  a published dataset of its tenant.  Its history replays to its status and only grows, it has
  results exactly while it is finished, and once it succeeded it stays so.
\<close>

theorem served_evaluations_stable:
  assumes "(evalServed E deps svc renv)\<^sup>*\<^sup>* s s'" "\<And>env. env \<in> E \<Longrightarrow> evalEnvOK env" "servicesOK deps svc"
    and "caseStateOK (api_Cases s)" "evalInv (api_Evals s)"
  shows "est_byID (evalStoreOf s) \<subseteq>\<^sub>m est_byID (evalStoreOf s')
    \<and> (\<forall>k d. est_datasets (evalStoreOf s) k = Some d \<and> eds_Status d = DatasetStatusPublished
         \<longrightarrow> est_datasets (evalStoreOf s') k = Some d)
    \<and> (\<forall>k r. est_runs (evalStoreOf s) k = Some r \<longrightarrow>
         (\<exists>r' es d. est_runs (evalStoreOf s') k = Some r' \<and> sameRun r r'
            \<and> itemsOf (evalStoreOf s') k = itemsOf (evalStoreOf s) k
            \<and> est_datasets (evalStoreOf s') (run_DatasetID r') = Some d \<and> eds_Status d = DatasetStatusPublished
            \<and> run_TenantID r' = eds_TenantID d \<and> itemsOf (evalStoreOf s') k = map runItemOf (eds_Items d)
            \<and> runHistory (evalStoreOf s') k = runHistory (evalStoreOf s) k @ es
            \<and> replayRun None (map rve_Action (runHistory (evalStoreOf s') k)) = Some (run_Status r')
            \<and> (finishedStatus (run_Status r') \<longleftrightarrow> est_runItemResults (evalStoreOf s') k \<noteq> None)
            \<and> (run_Status r = RunStatusSucceeded \<longrightarrow> run_Status r' = RunStatusSucceeded \<and> es = [])))"
proof -
  have ok: "stepOK (api_Evals s) (api_Evals s')" using evalServed_steps_OK [OF assms] by (rule conjunct1)
  then have ok': "evalInv (api_Evals s')" and kept: "recordsKept (evalStoreOf s) (evalStoreOf s')"
    by (simp_all only: stepOK_def)
  have "\<exists>r' es d. est_runs (evalStoreOf s') k = Some r' \<and> sameRun r r'
            \<and> itemsOf (evalStoreOf s') k = itemsOf (evalStoreOf s) k
            \<and> est_datasets (evalStoreOf s') (run_DatasetID r') = Some d \<and> eds_Status d = DatasetStatusPublished
            \<and> run_TenantID r' = eds_TenantID d \<and> itemsOf (evalStoreOf s') k = map runItemOf (eds_Items d)
            \<and> runHistory (evalStoreOf s') k = runHistory (evalStoreOf s) k @ es
            \<and> replayRun None (map rve_Action (runHistory (evalStoreOf s') k)) = Some (run_Status r')
            \<and> (finishedStatus (run_Status r') \<longleftrightarrow> est_runItemResults (evalStoreOf s') k \<noteq> None)
            \<and> (run_Status r = RunStatusSucceeded \<longrightarrow> run_Status r' = RunStatusSucceeded \<and> es = [])"
    if r: "est_runs (evalStoreOf s) k = Some r" for k r
  proof -
    obtain r' es where run: "itemsOf (evalStoreOf s') k = itemsOf (evalStoreOf s) k"
        "est_runs (evalStoreOf s') k = Some r'" "sameRun r r'"
        "runHistory (evalStoreOf s') k = runHistory (evalStoreOf s) k @ es"
        "run_Status r = RunStatusSucceeded \<longrightarrow> run_Status r' = RunStatusSucceeded \<and> es = []"
      using stepOK_run [OF assms(5) ok r] by (elim conjE exE)
    obtain d where d: "est_datasets (evalStoreOf s') (run_DatasetID r') = Some d" "eds_Status d = DatasetStatusPublished"
        "run_TenantID r' = eds_TenantID d" "itemsOf (evalStoreOf s') k = map runItemOf (eds_Items d)"
        "replayRun None (map rve_Action (runHistory (evalStoreOf s') k)) = Some (run_Status r')"
        "if finishedStatus (run_Status r')
         then \<exists>rs. est_runItemResults (evalStoreOf s') k = Some rs
                \<and> judgedFor (map runItemOf (eds_Items d)) (run_Status r') rs
         else est_runItemResults (evalStoreOf s') k = None"
      using evalInv_run [OF ok' run(2)] by (elim exE conjE)
    have "finishedStatus (run_Status r') \<longleftrightarrow> est_runItemResults (evalStoreOf s') k \<noteq> None"
      using d(6) by (auto split: if_splits)
    then show ?thesis using run d(1-5) by blast
  qed
  then show ?thesis using kept unfolding recordsKept_def by blast
qed

subsection \<open>A request stays with its tenant\<close>

text \<open>The draft and published datasets and the runs of all tenants but one, and all reports.\<close>

definition othersKept :: "string \<Rightarrow> evalStore \<Rightarrow> evalStore \<Rightarrow> bool" where
  "othersKept T s t \<longleftrightarrow>
     (\<forall>k d. est_datasets s k = Some d \<and> eds_TenantID d \<noteq> T \<longrightarrow> est_datasets t k = Some d)
   \<and> (\<forall>k r. est_runs s k = Some r \<and> run_TenantID r \<noteq> T \<longrightarrow>
        est_runs t k = Some r \<and> itemsOf t k = itemsOf s k \<and> runHistory t k = runHistory s k
        \<and> est_runItemResults t k = est_runItemResults s k)
   \<and> est_evalReports t = est_evalReports s"

lemma othersKept_refl [simp]: "othersKept T s s"
  by (simp add: othersKept_def)

lemma othersKept_dataset:
  assumes "\<And>d0. est_datasets s k = Some d0 \<Longrightarrow> eds_TenantID d0 = T"
  shows "othersKept T s (s\<lparr>est_datasets := (est_datasets s)(k \<mapsto> d)\<rparr>)"
  using assms by (auto simp: othersKept_def)

lemma PromoteCase_othersKept:
  "PromoteCase deps now created id input st = (res, st') \<Longrightarrow> othersKept T (evl_Store st) (evl_Store st')"
  by (auto simp: PromoteCase_def promoteNewCase_def eval_Save_def othersKept_def Let_def
      split: sum.splits evalError.splits if_splits prod.splits option.splits)

lemma CreateDataset_othersKept:
  assumes "evalInv st" "evl_DatasetSeq st < - 1" "CreateDataset getCase now input st = (res, st')"
  shows "othersKept T (evl_Store st) (evl_Store st') \<and> (\<forall>d. res = Inr d \<longrightarrow> eds_TenantID d = cdi_TenantID input)"
proof -
  let ?k = "newEvalDatasetID now (evl_DatasetSeq st + 1)"
  have "?k \<notin> dom (est_datasets (evl_Store st))"
    using dataset_ids.mkID_fresh [OF _ counter_grows [OF assms(2)]] evalInvD(4) [OF assms(1)] unfolding mintedBy_def by metis
  then have fresh: "est_datasets (evl_Store st) ?k = None" by (simp add: domIff)
  show ?thesis
    using assms(3) fresh
    by (auto simp: CreateDataset_def eval_CreateDataset_def Let_def split: if_splits sum.splits intro!: othersKept_dataset)
qed

lemma AddDatasetItem_othersKept:
  assumes "evalInv st" "AddDatasetItem getCase now id k input (evl_Store st) = (res, s')"
  shows "othersKept (trimSpace (adi_TenantID input)) (evl_Store st) s'
    \<and> (\<forall>d. res = Inr d \<longrightarrow> eds_TenantID d = trimSpace (adi_TenantID input))"
proof -
  have "eds_ID d = k" if "est_datasets (evl_Store st) k = Some d" for d
    by (rule stored_dataset(1) [OF assms(1) that])
  then show ?thesis
    using assms(2) unfolding AddDatasetItem_def eval_GetDataset_def eval_AddDatasetItem_def Let_def
    by (auto split: if_splits sum.splits option.splits intro!: othersKept_dataset)
qed

lemma PublishDataset_othersKept:
  assumes "evalInv st" "PublishDataset now id k input (evl_Store st) = (res, s')"
  shows "othersKept (trimSpace (pbi_TenantID input)) (evl_Store st) s'
    \<and> (\<forall>d. res = Inr d \<longrightarrow> eds_TenantID d = trimSpace (pbi_TenantID input))"
proof -
  have "eds_ID d = k" if "est_datasets (evl_Store st) k = Some d" for d
    by (rule stored_dataset(1) [OF assms(1) that])
  then show ?thesis
    using assms(2) unfolding PublishDataset_def eval_GetDataset_def eval_PublishDataset_def Let_def
    by (auto split: if_splits sum.splits option.splits intro!: othersKept_dataset)
qed

lemma CreateRun_othersKept:
  assumes "evalInv st" "evl_RunSeq st < - 1" "CreateRun getDataset now input st = (res, st')"
  shows "othersKept T (evl_Store st) (evl_Store st')
    \<and> (\<forall>r. res = Inr r \<longrightarrow> run_TenantID r = trimSpace (cri_TenantID input))"
proof -
  let ?k = "newEvalRunID now (evl_RunSeq st + 1)"
  have "?k \<notin> dom (est_runs (evl_Store st))"
    using run_ids.mkID_fresh [OF _ counter_grows [OF assms(2)]] evalInvD(6) [OF assms(1)] unfolding mintedBy_def by metis
  then have fresh: "est_runs (evl_Store st) ?k = None" by (simp add: domIff)
  show ?thesis
    using assms(3) fresh
    by (auto simp: CreateRun_def eval_CreateRun_def appendRunEventLocked_def putRun_def othersKept_def entries_upd Let_def
        runEventFor_def split: if_splits sum.splits)
qed

lemma RetryRun_othersKept:
  assumes "evalInv st" "est_runs (evl_Store st) k = Some r" "RetryRun svc k (evl_Store st) w = (res, s', w')"
  shows "othersKept (run_TenantID r) (evl_Store st) s' \<and> (\<forall>r'. res = Inr r' \<longrightarrow> run_TenantID r' = run_TenantID r)"
proof -
  have "run_ID r = k" using evalInvD(5) [OF assms(1)] assms(2) keyedByD unfolding runStoreOK_def by metis
  then show ?thesis
    using assms(2,3)
    by (auto simp: RetryRun_def eval_RetryRun_def appendRunEventLocked_def othersKept_def entries_upd Let_def runEventFor_def
        split: if_splits prod.splits)
qed

text \<open>The tenants of what a reply shows.\<close>

fun shownRunTenants :: "evalRunsBody httpReply \<Rightarrow> string list" where
  "shownRunTenants (ReplyJSON status (EvalRunBody b)) = [rnr_TenantID b]"
| "shownRunTenants (ReplyJSON status (EvalRunsBody l)) = map rnr_TenantID (lbd_Items l)"
| "shownRunTenants (ReplyError status code message) = []"

fun shownDatasetTenants :: "evalDatasetsBody httpReply \<Rightarrow> string list" where
  "shownDatasetTenants (ReplyJSON status (DatasetBody b)) = [edr_TenantID b]"
| "shownDatasetTenants (ReplyJSON status (DatasetsBody l)) = map dsr_TenantID (lbd_Items l)"
| "shownDatasetTenants (ReplyError status code message) = []"

definition evalStaysIn :: "string \<Rightarrow> string list \<Rightarrow> apiStores \<Rightarrow> apiStores \<Rightarrow> bool" where
  "evalStaysIn T shown s s' \<longleftrightarrow>
     s' = s\<lparr>api_Evals := api_Evals s'\<rparr> \<and> set shown \<subseteq> {T} \<and> othersKept T (evalStoreOf s) (evalStoreOf s')"

text \<open>The tenant that a request names: in the query, or in the body where it has one.\<close>

definition namesTenant :: "'j evalApiEnv \<Rightarrow> httpRequest \<Rightarrow> string \<Rightarrow> bool" where
  "namesTenant env r T \<longleftrightarrow> T = requestTenant r
     \<or> (\<exists>req. eae_DecodeDataset env (hrq_Body r) = Some req \<and> T = trimSpace (ced_TenantID req))
     \<or> (\<exists>req. eae_DecodeItem env (hrq_Body r) = Some req \<and> T = trimSpace (aed_TenantID req))
     \<or> (\<exists>req. eae_DecodePublish env (hrq_Body r) = Some req \<and> T = trimSpace (ped_TenantID req))
     \<or> (\<exists>req. eae_DecodeRun env (hrq_Body r) = Some req \<and> T = trimSpace (cer_TenantID req))"

lemma newEvalDatasetResponse_tenant [simp]:
  "edr_TenantID (newEvalDatasetResponse f item latest linked runBacked recent summaries) = eds_TenantID item"
  by (simp add: newEvalDatasetResponse_def)

lemma evalStaysIn_refl [simp]: "set shown \<subseteq> {T} \<Longrightarrow> evalStaysIn T shown s s"
  by (simp add: evalStaysIn_def)

lemma requestTenant_query [simp]: "queryParam r ''tenant_id'' = requestTenant r"
  by (simp add: requestTenant_def queryParam_def)

lemma create_dataset_stays:
  assumes "evalInv (api_Evals s)" "countersLow (api_Evals s)" "eae_DecodeDataset env (hrq_Body r) = Some req"
  shows "evalStaysIn (trimSpace (ced_TenantID req)) (shownDatasetTenants (fst (handleCreateEvalDataset env r s)))
    s (snd (handleCreateEvalDataset env r s))"
  using assms CreateDataset_othersKept [OF assms(1)]
  by (auto simp: handleCreateEvalDataset_def plainDatasetReply_def evalStaysIn_def countersLow_def Let_def
      split: prod.splits sum.splits evalError.splits)

lemma create_run_stays:
  assumes "evalInv (api_Evals s)" "countersLow (api_Evals s)" "eae_DecodeRun env (hrq_Body r) = Some req"
  shows "evalStaysIn (trimSpace (cer_TenantID req)) (shownRunTenants (fst (handleCreateEvalRun env r s)))
    s (snd (handleCreateEvalRun env r s))"
  using assms
  by (auto simp: handleCreateEvalRun_def evalStaysIn_def countersLow_def Let_def
      split: prod.splits sum.splits evalError.splits
      dest!: CreateRun_othersKept [OF assms(1), where T = "trimSpace (cer_TenantID req)", rotated])

lemma add_item_stays:
  assumes "evalEnvOK env" "evalInv (api_Evals s)" "eae_DecodeItem env (hrq_Body r) = Some req"
  shows "evalStaysIn (trimSpace (aed_TenantID req)) (shownDatasetTenants (fst (handleAddEvalDatasetItem env r k s)))
    s (snd (handleAddEvalDatasetItem env r k s))"
  using assms
  by (auto simp: handleAddEvalDatasetItem_def plainDatasetReply_def evalStaysIn_def evalEnvOK_def Let_def
      split: prod.splits sum.splits evalError.splits dest!: AddDatasetItem_othersKept [OF assms(2)])

lemma publish_stays:
  assumes "evalEnvOK env" "evalInv (api_Evals s)" "eae_DecodePublish env (hrq_Body r) = Some req"
  shows "evalStaysIn (trimSpace (ped_TenantID req)) (shownDatasetTenants (fst (handlePublishEvalDataset env r k s)))
    s (snd (handlePublishEvalDataset env r k s))"
  using assms
  by (auto simp: handlePublishEvalDataset_def plainDatasetReply_def evalStaysIn_def evalEnvOK_def Let_def
      split: prod.splits sum.splits evalError.splits dest!: PublishDataset_othersKept [OF assms(2)])

lemma retry_stays:
  assumes "evalEnvOK env" "evalInv (api_Evals s)"
  shows "evalStaysIn (requestTenant r) (shownRunTenants (fst (handleRetryEvalRun env r k s)))
    s (snd (handleRetryEvalRun env r k s))"
proof (cases "\<exists>item. est_runs (evalStoreOf s) k = Some item \<and> run_TenantID item = requestTenant r")
  case True
  then obtain item where item: "est_runs (evalStoreOf s) k = Some item" "run_TenantID item = requestTenant r" by blast
  obtain res st w where retried: "RetryRun (eae_Runs env) k (evalStoreOf s) () = (res, st, w)" by (metis prod_cases3)
  have "othersKept (requestTenant r) (evalStoreOf s) st \<and> (\<forall>r'. res = Inr r' \<longrightarrow> run_TenantID r' = requestTenant r)"
    using RetryRun_othersKept [OF assms(2) item(1) retried] item(2) by simp
  then show ?thesis
    using assms(1) item retried
    by (auto simp: handleRetryEvalRun_def evalStaysIn_def evalEnvOK_def eval_GetRun_def Let_def
        split: sum.splits evalError.splits)
next
  case False
  then show ?thesis
    by (auto simp: handleRetryEvalRun_def eval_GetRun_def Let_def split: option.splits)
qed

lemma get_run_shows: "set (shownRunTenants (handleGetEvalRun env r k s)) \<subseteq> {requestTenant r}"
  by (simp add: handleGetEvalRun_def writeEvalRunDetailResponse_def Let_def split: sum.split)

lemma get_dataset_shows:
  "handleGetEvalDataset env r k s = Some reply \<Longrightarrow> set (shownDatasetTenants reply) \<subseteq> {requestTenant r}"
  by (auto simp: handleGetEvalDataset_def eval_GetDataset_def Let_def map_option_case
      split: Option.bind_splits if_splits sum.splits option.splits)

abbreviation (input) shownBy :: "('b \<Rightarrow> string list) \<Rightarrow> 'b option \<Rightarrow> string list" where
  "shownBy f reply \<equiv> (case reply of None \<Rightarrow> [] | Some x \<Rightarrow> f x)"

lemma run_request_stays:
  assumes "evalEnvOK env" "evalInv (api_Evals s)"
  shows "evalStaysIn (requestTenant r) (shownRunTenants (fst (handleEvalRunByID env r s))) s (snd (handleEvalRunByID env r s))"
  using retry_stays [OF assms] get_run_shows [of env r _ s]
  by (auto simp: handleEvalRunByID_def intro!: evalStaysIn_refl split: option.split prod.split)

lemma refused_stays: "evalStaysIn T (shownRunTenants (ReplyError a b c)) s s"
  "evalStaysIn T (shownDatasetTenants (ReplyError a b c)) s s"
  by simp_all

lemma dataset_item_request_stays:
  assumes "evalEnvOK env" "evalInv (api_Evals s)"
  shows "\<exists>T. namesTenant env r T \<and> evalStaysIn T (shownDatasetTenants (fst (handleAddEvalDatasetItem env r k s))) s
      (snd (handleAddEvalDatasetItem env r k s))"
    "\<exists>T. namesTenant env r T \<and> evalStaysIn T (shownDatasetTenants (fst (handlePublishEvalDataset env r k s))) s
      (snd (handlePublishEvalDataset env r k s))"
proof -
  have named: "namesTenant env r (requestTenant r)" by (simp add: namesTenant_def)
  show "\<exists>T. namesTenant env r T \<and> evalStaysIn T (shownDatasetTenants (fst (handleAddEvalDatasetItem env r k s))) s
      (snd (handleAddEvalDatasetItem env r k s))"
  proof (cases "eae_DecodeItem env (hrq_Body r)")
    case None
    with named show ?thesis by (intro exI [of _ "requestTenant r"]) (simp add: handleAddEvalDatasetItem_def)
  next
    case (Some req)
    then have "namesTenant env r (trimSpace (aed_TenantID req))" by (simp add: namesTenant_def)
    with add_item_stays [OF assms Some] show ?thesis by blast
  qed
  show "\<exists>T. namesTenant env r T \<and> evalStaysIn T (shownDatasetTenants (fst (handlePublishEvalDataset env r k s))) s
      (snd (handlePublishEvalDataset env r k s))"
  proof (cases "eae_DecodePublish env (hrq_Body r)")
    case None
    with named show ?thesis by (intro exI [of _ "requestTenant r"]) (simp add: handlePublishEvalDataset_def)
  next
    case (Some req)
    then have "namesTenant env r (trimSpace (ped_TenantID req))" by (simp add: namesTenant_def)
    with publish_stays [OF assms Some] show ?thesis by blast
  qed
qed

lemma dataset_request_stays:
  assumes "evalEnvOK env" "evalInv (api_Evals s)"
  shows "\<exists>T. namesTenant env r T \<and> evalStaysIn T (shownBy shownDatasetTenants (fst (handleEvalDatasetByID env r s))) s
      (snd (handleEvalDatasetByID env r s))"
proof -
  have named: "namesTenant env r (requestTenant r)" by (simp add: namesTenant_def)
  have shown: "handleGetEvalDataset env r k s = Some reply \<Longrightarrow> evalStaysIn (requestTenant r) (shownDatasetTenants reply) s s"
    for k reply using get_dataset_shows [of env r k s reply] by simp
  show ?thesis
    unfolding handleEvalDatasetByID_def
    using named dataset_item_request_stays [OF assms, of r]
    by (auto simp: case_prod_unfold Let_def shown intro!: exI [of _ "requestTenant r"] split: option.split)
qed

lemma collection_post_stays:
  assumes "evalInv (api_Evals s)" "countersLow (api_Evals s)"
  shows "\<exists>T. namesTenant env r T \<and> evalStaysIn T (shownDatasetTenants (fst (handleCreateEvalDataset env r s))) s
      (snd (handleCreateEvalDataset env r s))"
    "\<exists>T. namesTenant env r T \<and> evalStaysIn T (shownRunTenants (fst (handleCreateEvalRun env r s))) s
      (snd (handleCreateEvalRun env r s))"
proof -
  have named: "namesTenant env r (requestTenant r)" by (simp add: namesTenant_def)
  show "\<exists>T. namesTenant env r T \<and> evalStaysIn T (shownDatasetTenants (fst (handleCreateEvalDataset env r s))) s
      (snd (handleCreateEvalDataset env r s))"
  proof (cases "eae_DecodeDataset env (hrq_Body r)")
    case None
    with named show ?thesis by (intro exI [of _ "requestTenant r"]) (simp add: handleCreateEvalDataset_def)
  next
    case (Some req)
    then have "namesTenant env r (trimSpace (ced_TenantID req))" by (simp add: namesTenant_def)
    with create_dataset_stays [OF assms Some] show ?thesis by blast
  qed
  show "\<exists>T. namesTenant env r T \<and> evalStaysIn T (shownRunTenants (fst (handleCreateEvalRun env r s))) s
      (snd (handleCreateEvalRun env r s))"
  proof (cases "eae_DecodeRun env (hrq_Body r)")
    case None
    with named show ?thesis by (intro exI [of _ "requestTenant r"]) (simp add: handleCreateEvalRun_def)
  next
    case (Some req)
    then have "namesTenant env r (trimSpace (cer_TenantID req))" by (simp add: namesTenant_def)
    with create_run_stays [OF assms Some] show ?thesis by blast
  qed
qed

text \<open>The lists: every row is one of a page, and every page holds records of the tenant of the filter.\<close>

lemma evalWindow_items: "evalWindow limit off xs = Some page \<Longrightarrow> set (pageItems page) \<subseteq> set xs"
  by (auto simp: evalWindow_def sliceRange_def Let_def dest!: in_set_takeD in_set_dropD split: if_splits)

lemma ListRuns_tenant:
  assumes "ListRuns ks f s = Some page" "rnf_TenantID f \<noteq> []" "item \<in> set (pageItems page)"
  shows "run_TenantID item = rnf_TenantID f"
  using assms(2,3) evalWindow_items [OF assms(1) [unfolded ListRuns_def eval_ListRuns_def]]
  by (auto simp: runMatches_def withRunResultSummary_def split: if_splits)

lemma ListDatasets_tenant:
  assumes "ListDatasets ks f s = Some page" "dsf_TenantID f \<noteq> []" "item \<in> set (pageItems page)"
  shows "dsm_TenantID item = dsf_TenantID f"
  using assms(2,3) evalWindow_items [OF assms(1) [unfolded ListDatasets_def eval_ListDatasets_def]]
  by (auto simp: datasetMatches_def datasetSummaryOf_def split: if_splits)

lemma buildEvalRunListRows_tenants:
  "buildEvalRunListRows env s items = Inr rows \<Longrightarrow> map rnr_TenantID rows = map run_TenantID items"
proof (induction items arbitrary: rows)
  case (Cons item items)
  then show ?case by (auto simp: andThen_Inr evalRunListRow_def newEvalRunResponse_def Let_def)
qed simp

lemma collectRuns_rows: "set (snd (fst (collectRuns wanted off limit rows acc))) \<subseteq> set (snd acc) \<union> set rows"
proof (induction rows arbitrary: acc)
  case (Cons row rows)
  obtain matched collected where acc: "acc = (matched, collected)" by (cases acc)
  show ?case
    using Cons.IH [of "(matched, collected)"] Cons.IH [of "(matched + 1, collected)"] Cons.IH [of "(matched, collected @ [row])"]
    unfolding acc by auto
qed simp

lemma runScanLoop_rows:
  assumes "runScanLoop fetch build wanted offset limit off acc = Some (Inr (acc', stop))"
    and "\<And>off page rows row. fetch off = Some page \<Longrightarrow> build (pageItems page) = Inr rows \<Longrightarrow> row \<in> set rows \<Longrightarrow> Q row"
    and "\<And>row. row \<in> set (snd acc) \<Longrightarrow> Q row"
  shows "row \<in> set (snd acc') \<Longrightarrow> Q row"
proof -
  have "(\<forall>off page rows row. fetch off = Some page \<longrightarrow> build (pageItems page) = Inr rows \<longrightarrow> row \<in> set rows \<longrightarrow> Q row)
      \<longrightarrow> (\<forall>row \<in> set (snd acc). Q row) \<longrightarrow> (\<forall>acc' stop. y = Inr (acc', stop) \<longrightarrow> (\<forall>row \<in> set (snd acc'). Q row))"
    if "runScanLoop fetch build wanted offset limit off acc = Some y" for y
  proof (rule runScanLoop.raw_induct [where P = "\<lambda>fetch build wanted offset limit off acc y.
      (\<forall>off page rows row. fetch off = Some page \<longrightarrow> build (pageItems page) = Inr rows \<longrightarrow> row \<in> set rows \<longrightarrow> Q row)
      \<longrightarrow> (\<forall>row \<in> set (snd acc). Q row) \<longrightarrow> (\<forall>acc' stop. y = Inr (acc', stop) \<longrightarrow> (\<forall>row \<in> set (snd acc'). Q row))", OF _ that])
    fix loop fetch build wanted offset limit off acc y
    assume IH: "\<And>fetch build wanted offset limit off acc y. loop fetch build wanted offset limit off acc = Some y \<Longrightarrow>
        (\<forall>off page rows row. fetch off = Some page \<longrightarrow> build (pageItems page) = Inr rows \<longrightarrow> row \<in> set rows \<longrightarrow> Q row)
      \<longrightarrow> (\<forall>row \<in> set (snd acc). Q row) \<longrightarrow> (\<forall>acc' stop. y = Inr (acc', stop) \<longrightarrow> (\<forall>row \<in> set (snd acc'). Q row))"
      and eq: "Option.bind (fetch off) (\<lambda>page.
       if pageItems page = [] then Some (Inr (acc, False))
       else case build (pageItems page) of
              Inl err \<Rightarrow> Some (Inl err)
            | Inr rows \<Rightarrow>
                (let (acc', stop) = collectRuns wanted offset limit rows acc in
                 if stop \<or> \<not> pageHasMore page then Some (Inr (acc', stop))
                 else loop fetch build wanted offset limit (pageNextOffset page) acc')) = Some y"
    show "(\<forall>off page rows row. fetch off = Some page \<longrightarrow> build (pageItems page) = Inr rows \<longrightarrow> row \<in> set rows \<longrightarrow> Q row)
      \<longrightarrow> (\<forall>row \<in> set (snd acc). Q row) \<longrightarrow> (\<forall>acc' stop. y = Inr (acc', stop) \<longrightarrow> (\<forall>row \<in> set (snd acc'). Q row))"
    proof (intro impI)
      assume fetched: "\<forall>off page rows row. fetch off = Some page \<longrightarrow> build (pageItems page) = Inr rows
          \<longrightarrow> row \<in> set rows \<longrightarrow> Q row"
        and acc: "\<forall>row \<in> set (snd acc). Q row"
      obtain page where page: "fetch off = Some page" using eq by (cases "fetch off") auto
      show "\<forall>acc' stop. y = Inr (acc', stop) \<longrightarrow> (\<forall>row \<in> set (snd acc'). Q row)"
      proof (cases "pageItems page = [] \<or> isl (build (pageItems page))")
        case True
        then show ?thesis using eq page acc by (auto split: if_splits sum.splits)
      next
        case False
        then obtain rows where rows: "build (pageItems page) = Inr rows" "pageItems page \<noteq> []"
          by (cases "build (pageItems page)") auto
        obtain acc' stop where c: "collectRuns wanted offset limit rows acc = (acc', stop)" by fastforce
        have "\<forall>row \<in> set (snd acc'). Q row"
          using collectRuns_rows [of wanted offset limit rows acc] fetched page rows acc c by fastforce
        then show ?thesis
          using eq page rows c fetched IH [of fetch build wanted offset limit "pageNextOffset page" acc' y]
          by (auto split: if_splits)
      qed
    qed
  qed
  then show "row \<in> set (snd acc') \<Longrightarrow> Q row" using assms by blast
qed

lemma fold_append_items: "fold (\<lambda>item items. items @ [item]) xs ys = ys @ xs"
  by (induction xs arbitrary: ys) simp_all

lemma foldPages_items:
  assumes "foldPages fetch (\<lambda>item items. items @ [item]) acc off = Some items"
    and "\<And>off page item. fetch off = Some page \<Longrightarrow> item \<in> set (pageItems page) \<Longrightarrow> Q item"
    and "\<And>item. item \<in> set acc \<Longrightarrow> Q item"
  shows "item \<in> set items \<Longrightarrow> Q item"
proof -
  have "g = (\<lambda>item items. items @ [item])
      \<longrightarrow> (\<forall>off page item. fetch off = Some page \<longrightarrow> item \<in> set (pageItems page) \<longrightarrow> Q item)
      \<longrightarrow> (\<forall>item \<in> set acc. Q item) \<longrightarrow> (\<forall>item \<in> set items. Q item)"
    if "foldPages fetch g acc off = Some items" for g
  proof (rule foldPages.raw_induct [where P = "\<lambda>fetch g acc off items. g = (\<lambda>item items. items @ [item])
      \<longrightarrow> (\<forall>off page item. fetch off = Some page \<longrightarrow> item \<in> set (pageItems page) \<longrightarrow> Q item)
      \<longrightarrow> (\<forall>item \<in> set acc. Q item) \<longrightarrow> (\<forall>item \<in> set items. Q item)", OF _ that])
    fix loop fetch g acc off items
    assume IH: "\<And>fetch g acc off items. loop fetch g acc off = Some items \<Longrightarrow>
        g = (\<lambda>item items. items @ [item])
      \<longrightarrow> (\<forall>off page item. fetch off = Some page \<longrightarrow> item \<in> set (pageItems page) \<longrightarrow> Q item)
      \<longrightarrow> (\<forall>item \<in> set acc. Q item) \<longrightarrow> (\<forall>item \<in> set items. Q item)"
      and eq: "(case fetch off of None \<Rightarrow> None
        | Some page \<Rightarrow> if pageHasMore page then loop fetch g (fold g (pageItems page) acc) (pageNextOffset page)
            else Some (fold g (pageItems page) acc)) = Some items"
    show "g = (\<lambda>item items. items @ [item])
      \<longrightarrow> (\<forall>off page item. fetch off = Some page \<longrightarrow> item \<in> set (pageItems page) \<longrightarrow> Q item)
      \<longrightarrow> (\<forall>item \<in> set acc. Q item) \<longrightarrow> (\<forall>item \<in> set items. Q item)"
    proof (intro impI)
      assume g: "g = (\<lambda>item items. items @ [item])"
        and fetched: "\<forall>off page item. fetch off = Some page \<longrightarrow> item \<in> set (pageItems page) \<longrightarrow> Q item"
        and acc: "\<forall>item \<in> set acc. Q item"
      obtain page where page: "fetch off = Some page" using eq by (cases "fetch off") auto
      have "\<forall>item \<in> set (fold g (pageItems page) acc). Q item"
        using fetched page acc by (auto simp: g fold_append_items)
      then show "\<forall>item \<in> set items. Q item"
        using eq page g fetched IH [of fetch g "fold g (pageItems page) acc" "pageNextOffset page" items]
        by (auto split: if_splits)
    qed
  qed
  then show "item \<in> set items \<Longrightarrow> Q item" using assms by blast
qed

lemma collectRows_rows:
  "(case collectRows keep off limit rows acc of Inl found \<Rightarrow> set found | Inr acc' \<Rightarrow> set (snd acc'))
     \<subseteq> set (snd acc) \<union> set rows"
proof (induction rows arbitrary: acc)
  case (Cons row rows)
  obtain matched collected where acc: "acc = (matched, collected)" by (cases acc)
  show ?case
    using Cons.IH [of "(matched, collected)"] Cons.IH [of "(matched + 1, collected)"]
      Cons.IH [of "(matched + 1, collected @ [row])"]
    unfolding acc by (auto split: sum.splits)
qed simp

lemma map_sum_Inr: "map_sum id f x = Inr y \<longleftrightarrow> (\<exists>z. x = Inr z \<and> y = f z)"
  by (cases x) auto

lemma list_runs_shows:
  assumes "handleListEvalRuns env r s = Some reply"
  shows "set (shownRunTenants reply) \<subseteq> {requestTenant r}"
proof (cases "parseEvalRunListFilter r")
  case (Inl message)
  then show ?thesis using assms by (auto simp: handleListEvalRuns_def)
next
  case (Inr p)
  obtain f needs where f: "parseEvalRunListFilter r = Inr (f, needs)" using Inr by (cases p) auto
  then have tenant: "rnf_TenantID f = requestTenant r" "requestTenant r \<noteq> []"
    by (auto simp: parseEvalRunListFilter_def requestTenant_def queryParam_def Let_def andThen_Inr split: if_splits)
  have built: "rnr_TenantID row = requestTenant r"
    if "ListRuns ks g (evalStoreOf s) = Some page" "rnf_TenantID g = requestTenant r"
      "buildEvalRunListRows env s (pageItems page) = Inr rows" "row \<in> set rows" for ks g page rows row
  proof -
    have "rnr_TenantID row \<in> set (map rnr_TenantID rows)" using that(4) by simp
    then show ?thesis
      unfolding buildEvalRunListRows_tenants [OF that(3)] using ListRuns_tenant [OF that(1)] that(2) tenant(2) by auto
  qed
  have "rnr_TenantID row = requestTenant r"
    if shown: "listEvalRunsResponse env f needs s = Some (Inr body)" "row \<in> set (lbd_Items body)" for body row
  proof (cases needs)
    case None
    then show ?thesis
      using shown built tenant(1) by (auto simp: listEvalRunsResponse_def map_sum_Inr)
  next
    case (Some wanted)
    let ?scan = "f\<lparr>rnf_Offset := 0, rnf_Limit := (if rnf_Limit f < 50 then 50 else rnf_Limit f)\<rparr>"
    obtain acc stop where scan: "runScanLoop (\<lambda>off. ListRuns (eae_EvalKeys env ''runs'' off) (?scan\<lparr>rnf_Offset := off\<rparr>)
          (evalStoreOf s)) (buildEvalRunListRows env s) wanted (rnf_Offset f) (rnf_Limit f) 0 (0, []) = Some (Inr (acc, stop))"
        "row \<in> set (snd acc)"
      using shown Some
      by (auto simp: listEvalRunsResponse_def Let_def map_sum_Inr case_prod_unfold split: if_splits
          dest!: in_set_takeD)
    show ?thesis
      by (rule runScanLoop_rows [OF scan(1) _ _ scan(2), of "\<lambda>row. rnr_TenantID row = requestTenant r"])
        (use built tenant(1) in auto)
  qed
  note shown = this
  obtain result where "listEvalRunsResponse env f needs s = Some result"
      "reply = (case result of Inl err \<Rightarrow> ReplyError StatusInternalServerError ''eval_run_list_failed'' (evalErrorText err)
         | Inr body \<Rightarrow> ReplyJSON StatusOK (EvalRunsBody body))"
    using assms f by (auto simp: handleListEvalRuns_def)
  then show ?thesis by (cases result) (auto simp: shown)
qed

lemma list_datasets_shows:
  assumes "handleListEvalDatasets env r s = Some reply"
  shows "set (shownDatasetTenants reply) \<subseteq> {requestTenant r}"
proof (cases "parseEvalDatasetListFilter r")
  case (Inl message)
  then show ?thesis using assms by (auto simp: handleListEvalDatasets_def)
next
  case (Inr p)
  obtain f needs where f: "parseEvalDatasetListFilter r = Inr (f, needs)" using Inr by (cases p) auto
  then have tenant: "dsf_TenantID f = requestTenant r" "requestTenant r \<noteq> []"
    by (auto simp: parseEvalDatasetListFilter_def requestTenant_def queryParam_def Let_def andThen_Inr split: if_splits)
  have rows: "dsr_TenantID row = requestTenant r"
    if "datasetRows env T s items = Some (Inr rows)" "row \<in> set rows"
      "\<And>item. item \<in> set items \<Longrightarrow> dsm_TenantID item = requestTenant r" for T items rows row
    using that by (auto simp: datasetRows_def map_sum_Inr buildEvalDatasetListRows_def newEvalDatasetSummaryResponse_def
        Let_def)
  have "dsr_TenantID row = requestTenant r"
    if shown: "listEvalDatasetsResponse env f needs s = Some (Inr body)" "row \<in> set (lbd_Items body)" for body row
  proof (cases needs)
    case None
    obtain page found where page: "ListDatasets (eae_EvalKeys env ''datasets'' (dsf_Offset f)) f (evalStoreOf s) = Some page"
        "datasetRows env (dsf_TenantID f) s (pageItems page) = Some (Inr found)" "row \<in> set found"
      using shown None by (auto simp: listEvalDatasetsResponse_def map_sum_Inr split: Option.bind_splits)
    show ?thesis
      by (rule rows [OF page(2,3)]) (use ListDatasets_tenant [OF page(1)] tenant in simp)
  next
    case (Some wanted)
    let ?scan = "f\<lparr>dsf_Limit := (if dsf_Limit f < 50 then 50 else dsf_Limit f)\<rparr>"
    let ?keep = "\<lambda>row. dac_NeedsFollowUp (dsr_Activity row) = wanted"
    obtain items found where scan: "foldPages (\<lambda>off. ListDatasets (eae_EvalKeys env ''datasets'' off)
          (?scan\<lparr>dsf_Offset := off\<rparr>) (evalStoreOf s)) (\<lambda>item items. items @ [item]) [] 0 = Some items"
        "datasetRows env (dsf_TenantID f) s items = Some (Inr found)"
        "row \<in> (case collectRows ?keep (dsf_Offset f) (dsf_Limit f) found (0, []) of Inl xs \<Rightarrow> set xs | Inr a \<Rightarrow> set (snd a))"
      using shown Some
      by (auto simp: listEvalDatasetsResponse_def Let_def case_prod_unfold
          split: Option.bind_splits if_splits sum.splits)
    have "row \<in> set found" using scan(3) collectRows_rows [of ?keep "dsf_Offset f" "dsf_Limit f" found "(0, [])"] by auto
    moreover have "dsm_TenantID item = requestTenant r" if "item \<in> set items" for item
      by (rule foldPages_items [OF scan(1) _ _ that, of "\<lambda>item. dsm_TenantID item = requestTenant r"])
        (use ListDatasets_tenant tenant in \<open>force+\<close>)
    ultimately show ?thesis by (rule rows [OF scan(2)])
  qed
  note shown = this
  obtain result where "listEvalDatasetsResponse env f needs s = Some result"
      "reply = (case result of Inl err \<Rightarrow> ReplyError StatusInternalServerError ''eval_dataset_list_failed'' (evalErrorText err)
         | Inr body \<Rightarrow> ReplyJSON StatusOK (DatasetsBody body))"
    using assms f by (auto simp: handleListEvalDatasets_def)
  then show ?thesis by (cases result) (auto simp: shown)
qed

lemma collection_stays:
  assumes "evalInv (api_Evals s)" "countersLow (api_Evals s)"
  shows "\<exists>T. namesTenant env r T \<and> evalStaysIn T (shownBy shownDatasetTenants (fst (handleEvalDatasets env r s))) s
      (snd (handleEvalDatasets env r s))"
    "\<exists>T. namesTenant env r T \<and> evalStaysIn T (shownBy shownRunTenants (fst (handleEvalRuns env r s))) s
      (snd (handleEvalRuns env r s))"
proof -
  have named: "namesTenant env r (requestTenant r)" by (simp add: namesTenant_def)
  show "\<exists>T. namesTenant env r T \<and> evalStaysIn T (shownBy shownDatasetTenants (fst (handleEvalDatasets env r s))) s
      (snd (handleEvalDatasets env r s))"
    using named collection_post_stays(1) [OF assms, of env r] list_datasets_shows [of env r s]
    by (auto simp: handleEvalDatasets_def case_prod_unfold Let_def intro!: exI [of _ "requestTenant r"] split: option.split)
  show "\<exists>T. namesTenant env r T \<and> evalStaysIn T (shownBy shownRunTenants (fst (handleEvalRuns env r s))) s
      (snd (handleEvalRuns env r s))"
    using named collection_post_stays(2) [OF assms, of env r] list_runs_shows [of env r s]
    by (auto simp: handleEvalRuns_def case_prod_unfold Let_def intro!: exI [of _ "requestTenant r"] split: option.split)
qed

text \<open>
  C11: A request that lists, creates, reads or changes datasets or runs shows records of one tenant
  only, the one it names, and leaves the datasets, runs and results of all other tenants and every
  report as they are, whatever method, path, parameters and body it has; a request to the eval cases
  changes none of them.
\<close>

theorem eval_requests_stay_in_tenant:
  assumes "evalEnvOK env" "evalInv (api_Evals s)" "countersLow (api_Evals s)"
  shows "(\<exists>T. namesTenant env r T \<and> evalStaysIn T (shownBy shownDatasetTenants (fst (handleEvalDatasets env r s))) s
          (snd (handleEvalDatasets env r s)))
    \<and> (\<exists>T. namesTenant env r T \<and> evalStaysIn T (shownBy shownRunTenants (fst (handleEvalRuns env r s))) s
          (snd (handleEvalRuns env r s)))
    \<and> evalStaysIn T [] s (snd (handleEvalCases env r s))
    \<and> (\<exists>T. namesTenant env r T \<and> evalStaysIn T (shownBy shownDatasetTenants (fst (handleEvalDatasetByID env r s))) s
          (snd (handleEvalDatasetByID env r s)))
    \<and> evalStaysIn (requestTenant r) (shownRunTenants (fst (handleEvalRunByID env r s))) s
          (snd (handleEvalRunByID env r s))"
proof -
  have "evalStaysIn T [] s (snd (handleCreateEvalCase env r s))"
    using assms(1) by (auto simp: handleCreateEvalCase_def evalStaysIn_def evalEnvOK_def Let_def
        split: option.split prod.splits dest: PromoteCase_othersKept)
  then have "evalStaysIn T [] s (snd (handleEvalCases env r s))"
    by (simp add: handleEvalCases_def case_prod_unfold Let_def)
  then show ?thesis
    using collection_stays [OF assms(2,3), of env r] dataset_request_stays [OF assms(1,2), of r]
      run_request_stays [OF assms(1,2), of r] by blast
qed

subsection \<open>Concrete instances\<close>

text \<open>A request that starts a run of a published dataset.\<close>

definition demoRunApi :: "unit evalApiEnv" where
  "demoRunApi = demoEvalApi\<lparr>eae_DecodeRun := (\<lambda>_. Some
     \<lparr>cer_TenantID = ''acme'', cer_DatasetID = demoD, cer_CreatedBy = []\<rparr>)\<rparr>"

abbreviation (input) demoServer :: apiStores where
  "demoServer \<equiv> demoStores\<lparr>api_Cases := demoFollowed, api_Evals := demoPublished\<rparr>"

lemma demoPublished_inv: "evalInv demoPublished" "countersLow demoDrafted" "countersLow demoPublished"
proof -
  show "evalInv demoPublished" by (rule evalSteps_from_new [OF demo_steps(1) demo_servicesOK])
  have "evl_CaseSeq demoPromoted = 1"
    by (simp add: demoPromoted_def newEvalState_def PromoteCase_def promoteNewCase_def demoRunDeps_def
        eval_GetBySourceCase_def eval_Save_def newMemoryStore_def demoCase_def promotedEvalCase_def Let_def)
  moreover have "evl_CaseSeq (snd (CreateDataset getCase now input st)) = evl_CaseSeq st"
    "evl_DatasetSeq (snd (CreateDataset getCase now input st)) \<in> {evl_DatasetSeq st, evl_DatasetSeq st + 1}"
    for getCase now input and st :: evalState
    by (auto simp: CreateDataset_def eval_CreateDataset_def Let_def split: sum.split)
  ultimately have "evl_CaseSeq demoDrafted = 1" "evl_DatasetSeq demoDrafted \<in> {0, 1}"
    using demoPromoted_facts(1) unfolding demoDrafted_def by (metis add_0)+
  moreover have "(1::u64) < - 1" by code_simp
  ultimately show "countersLow demoDrafted" "countersLow demoPublished"
    using demoDrafted_facts(1) by (auto simp: countersLow_def demoPublished_def word_gt_0)
qed

lemma demoRunApi_OK: "evalEnvOK demoRunApi"
  using demo_servicesOK by (simp add: evalEnvOK_def servicesOK_def demoRunApi_def demoEvalApi_def)

lemma served_evaluations_stable_witness:
  "\<exists>s' d. evalServed {demoRunApi} demoRunDeps demoRunService demoReportEnv demoServer s'
     \<and> s' = snd (handleEvalRuns demoRunApi (demoHttp ''POST'' []) demoServer)
     \<and> est_datasets (evalStoreOf s') demoD = Some d \<and> eds_Status d = DatasetStatusPublished"
proof -
  let ?s' = "snd (handleEvalRuns demoRunApi (demoHttp ''POST'' []) demoServer)"
  obtain d where d: "est_datasets (evl_Store demoPublished) demoD = Some d" "eds_Status d = DatasetStatusPublished"
    using demoPublished_facts(3) by auto
  have low: "countersLow (api_Evals demoServer)" using demoPublished_inv(3) by simp
  have step: "evalServed {demoRunApi} demoRunDeps demoRunService demoReportEnv demoServer ?s'"
    by (rule evalServed.on_runs [OF insertI1 low prod.collapse [symmetric]])
  have ok: "\<And>env. env \<in> {demoRunApi} \<Longrightarrow> evalEnvOK env" "caseStateOK (api_Cases demoServer)" "evalInv (api_Evals demoServer)"
    using demoRunApi_OK demoFollowed_OK demoPublished_inv(1) by simp_all
  from served_evaluations_stable [OF r_into_rtranclp [of "evalServed {demoRunApi} demoRunDeps demoRunService demoReportEnv",
        OF step] ok(1) demo_servicesOK ok(2,3)] d step
  show ?thesis by auto
qed

text \<open>A request that lists the runs of a tenant, when one is queued.\<close>

definition demoListApi :: "unit evalApiEnv" where
  "demoListApi = demoRunApi\<lparr>eae_EvalKeys := (\<lambda>_ _. [demoR])\<rparr>"

definition demoListRequest :: httpRequest where
  "demoListRequest = (demoHttp ''GET'' [])\<lparr>hrq_Query := (\<lambda>p. if p = ''tenant_id'' then ''acme'' else [])\<rparr>"

definition demoQueuedServer :: apiStores where
  "demoQueuedServer = demoStores\<lparr>api_Cases := demoFollowed, api_Evals := demoQueued\<rparr>"

lemma demoQueued_low: "countersLow demoQueued"
proof -
  have "evl_CaseSeq demoQueued = evl_CaseSeq demoPublished" "evl_DatasetSeq demoQueued = evl_DatasetSeq demoPublished"
    "evl_RunSeq demoQueued \<in> {0, 1}"
    using demoPublished_facts(1) by (auto simp: demoQueued_def CreateRun_def Let_def split: sum.split prod.split)
  moreover have "(1::u64) < - 1" by code_simp
  ultimately show ?thesis using demoPublished_inv(3) by (auto simp: countersLow_def word_gt_0)
qed

lemma goSort_one: "goSort before [x] = [x]"
  by (simp add: goSort_def)

lemma demoListed:
  "\<exists>reply. fst (handleEvalRuns demoListApi demoListRequest demoQueuedServer) = Some reply \<and> shownRunTenants reply = [''acme'']"
proof -
  obtain d where d: "est_datasets (evl_Store demoPublished) = [demoD \<mapsto> d]" "eds_ID d = demoD" "eds_TenantID d = ''acme''"
      "eds_Status d = DatasetStatusPublished"
    using demoPublished_facts(3) by (elim exE conjE)
  obtain r where r: "est_runs (evl_Store demoQueued) = [demoR \<mapsto> r]" "run_ID r = demoR" "run_TenantID r = ''acme''"
    using d demoPublished_facts(1,2)
    by (simp add: demoQueued_def CreateRun_def eval_GetDataset_def created_simps Let_def split_def map_one_eq)
  let ?f = "\<lparr>rnf_TenantID = ''acme'', rnf_DatasetID = [], rnf_Status = [], rnf_Limit = 20, rnf_Offset = 0\<rparr>"
  have parsed: "parseEvalRunListFilter demoListRequest = Inr (?f, None)"
    by (simp add: parseEvalRunListFilter_def queryParam_def demoListRequest_def demoHttp_def limitFrom_def offsetFrom_def
        parseStrictFlag_def Let_def)
  obtain page where page: "ListRuns [demoR] ?f (evl_Store demoQueued) = Some page" "map run_TenantID (pageItems page) = [''acme'']"
    "map run_ID (pageItems page) = [demoR]"
    using r by (auto simp: ListRuns_def eval_ListRuns_def rangeVals_def runMatches_def withRunResultSummary_def
        evalWindow_def sliceRange_def Let_def goSort_one)
  then obtain item where item: "pageItems page = [item]" "run_TenantID item = ''acme''" "run_ID item = demoR" by auto
  have "\<exists>row. evalRunListRow demoListApi demoQueuedServer item = Inr row \<and> rnr_TenantID row = ''acme''"
    using r item by (simp add: evalRunListRow_def evalRunFollowUpSummary_def eval_GetRunDetail_def demoQueuedServer_def
        newEvalRunResponse_def Let_def)
  then obtain row where row: "buildEvalRunListRows demoListApi demoQueuedServer [item] = Inr [row]" "rnr_TenantID row = ''acme''"
    by auto
  have "ListRuns (eae_EvalKeys demoListApi ''runs'' 0) ?f (evalStoreOf demoQueuedServer) = Some page"
    using page(1) by (simp add: demoListApi_def demoQueuedServer_def)
  then show ?thesis
    using row by (simp add: handleEvalRuns_def handleListEvalRuns_def parsed listEvalRunsResponse_def item(1))
      (simp add: demoListRequest_def demoHttp_def)
qed

lemma eval_requests_stay_in_tenant_witness:
  "\<exists>reply. fst (handleEvalRuns demoListApi demoListRequest demoQueuedServer) = Some reply \<and> shownRunTenants reply = [''acme'']
     \<and> evalStaysIn ''acme'' [''acme''] demoQueuedServer (snd (handleEvalRuns demoListApi demoListRequest demoQueuedServer))"
proof -
  obtain reply where reply: "fst (handleEvalRuns demoListApi demoListRequest demoQueuedServer) = Some reply"
      "shownRunTenants reply = [''acme'']"
    using demoListed by blast
  have ok: "evalEnvOK demoListApi" "evalInv (api_Evals demoQueuedServer)" "countersLow (api_Evals demoQueuedServer)"
    using demoRunApi_OK demo_runs_ok(1) demoQueued_low by (simp_all add: evalEnvOK_def demoListApi_def demoQueuedServer_def)
  obtain T where "evalStaysIn T (shownBy shownRunTenants (fst (handleEvalRuns demoListApi demoListRequest demoQueuedServer)))
      demoQueuedServer (snd (handleEvalRuns demoListApi demoListRequest demoQueuedServer))"
    using eval_requests_stay_in_tenant [OF ok, of demoListRequest] by blast
  then have stays: "evalStaysIn T [''acme''] demoQueuedServer (snd (handleEvalRuns demoListApi demoListRequest demoQueuedServer))"
    using reply by simp
  then have "T = ''acme''" by (simp add: evalStaysIn_def)
  with stays reply show ?thesis by blast
qed

end
