(* ===== verification/Http_Eval_Lists.thy ===== *)
theory Http_Eval_Lists
  imports Http_Eval_Laws
begin

text \<open>
  The searches of the evaluation endpoints that read the runs of a tenant page after page: the list
  of the runs that need a follow-up (\<open>eval_runs.go\<close>), and the newest run of each dataset that a list
  of datasets shows (\<open>eval_datasets.go\<close>).  Both loops return, whatever the map orders.
\<close>

subsection \<open>The pages of the list of runs\<close>

text \<open>A run as the list shows it: with the counts of its results.\<close>

definition shownRun :: "evalStore \<Rightarrow> evalRun \<Rightarrow> evalRun" where
  "shownRun s r = withRunResultSummary r (entries (est_runItemResults s) (run_ID r))"

definition shownRuns :: "evalStore \<Rightarrow> string \<rightharpoonup> evalRun" where
  "shownRuns s k = map_option (shownRun s) (est_runs s k)"

lemma shownRun_fields [simp]:
  "run_ID (shownRun s r) = run_ID r" "run_TenantID (shownRun s r) = run_TenantID r"
  "run_Status (shownRun s r) = run_Status r" "run_DatasetID (shownRun s r) = run_DatasetID r"
  by (simp_all add: shownRun_def) (simp add: withRunResultSummary_def)

lemma runMatches_shown [simp]: "runMatches f (shownRun s r) = runMatches f r"
  by (simp add: runMatches_def)

lemma runMatches_offset [simp]: "runMatches (f\<lparr>rnf_Offset := off\<rparr>) = runMatches f"
  by (simp add: runMatches_def fun_eq_iff)

lemma shownRuns_dom [simp]: "dom (shownRuns s) = dom (est_runs s)"
  by (auto simp: shownRuns_def dom_def)

lemma rangeVals_shown: "rangeVals (shownRuns s) ks = map (shownRun s) (rangeVals (est_runs s) ks)"
  by (induction ks) (auto simp: shownRuns_def split: option.split)

lemma rangeVals_ran: "v \<in> set (rangeVals m ks) \<Longrightarrow> v \<in> ran m"
  by (meson ranI set_rangeVals_subset)

lemma runs_walk:
  assumes "keyedBy run_ID (est_runs s)" "\<And>off. iterOrder (est_runs s) (keys off)"
    and "0 < rnf_Limit f" "int (card (dom (est_runs s))) + rnf_Limit f < 2 ^ 63"
  shows "\<exists>rows. walkPages (Suc (length rows)) (\<lambda>off. ListRuns (keys off) (f\<lparr>rnf_Offset := off\<rparr>) s) 0 = Some rows
      \<and> sorted_wrt runSortsBefore rows \<and> distinct (map run_ID rows)
      \<and> set rows = {v. shownRuns s (run_ID v) = Some v \<and> runMatches f v}"
    and "ListRuns (keys off) (f\<lparr>rnf_Offset := off\<rparr>) s = Some page \<Longrightarrow> set (pageItems page) \<subseteq> ran (shownRuns s)"
    and "ListRuns (keys off) (f\<lparr>rnf_Offset := off\<rparr>) s = Some page \<Longrightarrow> pageItems page = [] \<Longrightarrow> \<not> pageHasMore page"
proof -
  let ?m = "shownRuns s"
  let ?fetch = "\<lambda>off. evalWindow (rnf_Limit f) off (goSort runSortsBefore (filter (runMatches f) (rangeVals ?m (keys off))))"
  have fetch: "ListRuns (keys off) (f\<lparr>rnf_Offset := off\<rparr>) s = ?fetch off" for off
    using assms(3) by (simp add: ListRuns_def eval_ListRuns_def rangeVals_shown filter_map comp_def shownRun_def
        flip: shownRun_def)
  have keyed: "keyedBy run_ID ?m" using assms(1) by (auto simp: keyedBy_def shownRuns_def)
  have order: "iterOrder ?m (keys off)" for off using assms(2) by (simp add: iterOrder_def)
  have window: "evalWindow (rnf_Limit f) off xs = cutPage (rnf_Limit f) off xs"
    if "0 \<le> off" "length xs \<le> card (dom ?m)" for off and xs :: "evalRun list"
    using that assms(3,4) by (intro evalWindow_cutPage) auto
  show "\<exists>rows. walkPages (Suc (length rows)) (\<lambda>off. ListRuns (keys off) (f\<lparr>rnf_Offset := off\<rparr>) s) 0 = Some rows
      \<and> sorted_wrt runSortsBefore rows \<and> distinct (map run_ID rows)
      \<and> set rows = {v. shownRuns s (run_ID v) = Some v \<and> runMatches f v}"
    unfolding fetch
    by (rule run_order.walk_rows [where limit = "rnf_Limit f", OF keyed _ order assms(3) _ window]) (use assms(4) in simp_all)
  show "set (pageItems page) \<subseteq> ran ?m" if "ListRuns (keys off) (f\<lparr>rnf_Offset := off\<rparr>) s = Some page"
  proof -
    have "set (pageItems page) \<subseteq> set (filter (runMatches f) (rangeVals ?m (keys off)))"
      using that unfolding fetch
      by (auto simp: evalWindow_def sliceRange_def Let_def dest!: in_set_takeD in_set_dropD split: if_splits)
    then show ?thesis using rangeVals_ran [of _ ?m "keys off"] by auto
  qed
  show "\<not> pageHasMore page" if "ListRuns (keys off) (f\<lparr>rnf_Offset := off\<rparr>) s = Some page" "pageItems page = []"
  proof -
    have "length (goSort runSortsBefore (filter (runMatches f) (rangeVals ?m (keys off)))) \<le> length (rangeVals ?m (keys off))"
      by simp
    also have "\<dots> = card (dom ?m)"
      using card_filter_rangeVals [OF order keyed, of "\<lambda>_. True"] by (simp add: dom_def)
    finally have "int (length (goSort runSortsBefore (filter (runMatches f) (rangeVals ?m (keys off))))) + rnf_Limit f < 2 ^ 63"
      using assms(4) by simp
    then show ?thesis
      using that assms(3) unfolding fetch
      by (auto simp: evalWindow_def sliceRange_def Let_def goInt_small split: if_splits)
  qed
qed

subsection \<open>The runs that need a follow-up\<close>

text \<open>What the search has collected, and whether it stopped, once it has found these rows.\<close>

definition scanned :: "nat \<Rightarrow> nat \<Rightarrow> 'r list \<Rightarrow> (int \<times> 'r list) \<times> bool" where
  "scanned offset limit found =
     (if length found \<le> offset + limit then ((int (min offset (length found)), drop offset found), False)
      else ((int offset, take (Suc limit) (drop offset found)), True))"

lemma collectRuns_correct:
  "length seen \<le> o' + l \<Longrightarrow>
     collectRuns wanted (int o') (int l) rows (int (min o' (length seen)), drop o' seen)
   = scanned o' l (seen @ filter (\<lambda>row. rnr_NeedsFollowUp row = wanted) rows)"
proof (induction rows arbitrary: seen)
  case (Cons row rows)
  show ?case
  proof (cases "rnr_NeedsFollowUp row = wanted")
    case keep: True
    have step: "length (seen @ [row]) \<le> o' + l \<Longrightarrow>
        collectRuns wanted (int o') (int l) rows (int (min o' (length (seen @ [row]))), drop o' (seen @ [row]))
      = scanned o' l (seen @ filter (\<lambda>row. rnr_NeedsFollowUp row = wanted) (row # rows))"
      using Cons.IH [of "seen @ [row]"] keep by simp
    consider "length seen < o'" | "o' \<le> length seen" "length seen < o' + l" | "length seen = o' + l"
      using Cons.prems by linarith
    then show ?thesis
    proof cases
      case 1
      then have "min o' (length (seen @ [row])) = Suc (length seen)" "min o' (length seen) = length seen" by simp_all
      then show ?thesis using step 1 keep by (simp add: add.commute)
    next
      case 2
      then have "min o' (length (seen @ [row])) = o'" "min o' (length seen) = o'" by simp_all
      then show ?thesis using step 2 keep by simp
    next
      case 3
      then show ?thesis using keep by (simp add: scanned_def)
    qed
  next
    case False
    then show ?thesis using Cons.IH [OF Cons.prems] by simp
  qed
qed (simp add: scanned_def)

lemma scanned_more: "snd (scanned o' l found) \<longleftrightarrow> o' + l < length found"
  by (auto simp: scanned_def)

lemma scanned_stays: "o' + l < length found \<Longrightarrow> scanned o' l (found @ rest) = scanned o' l found"
  by (simp add: scanned_def)

lemma runScanLoop_correct:
  assumes "\<And>off page. fetch off = Some page \<Longrightarrow> build (pageItems page) = Inr (map row (pageItems page))"
    and "\<And>off page. fetch off = Some page \<Longrightarrow> pageItems page = [] \<Longrightarrow> \<not> pageHasMore page"
  shows "walkPages n fetch off = Some items \<Longrightarrow> length seen \<le> o' + l \<Longrightarrow>
    runScanLoop fetch build wanted (int o') (int l) off (int (min o' (length seen)), drop o' seen)
      = Some (Inr (scanned o' l (seen @ filter (\<lambda>row. rnr_NeedsFollowUp row = wanted) (map row items))))"
proof (induction n arbitrary: off items seen)
  case (Suc n)
  obtain page where page: "fetch off = Some page" using Suc.prems(1) by (auto split: option.splits)
  let ?found = "seen @ filter (\<lambda>row. rnr_NeedsFollowUp row = wanted) (map row (pageItems page))"
  note collected = collectRuns_correct [OF Suc.prems(2), of wanted "map row (pageItems page)"]
  have "\<exists>rest. items = pageItems page @ rest \<and> (\<not> pageHasMore page \<longrightarrow> rest = [])"
    using Suc.prems(1) page by (auto split: if_splits)
  then obtain rest where rest: "items = pageItems page @ rest" "\<not> pageHasMore page \<longrightarrow> rest = []" by blast
  show ?case
  proof (cases "pageHasMore page \<and> length ?found \<le> o' + l")
    case True
    then have walk: "walkPages n fetch (pageNextOffset page) = Some rest" and "pageItems page \<noteq> []"
      using Suc.prems(1) page rest(1) assms(2) [OF page] by auto
    moreover have "scanned o' l ?found = ((int (min o' (length ?found)), drop o' ?found), False)"
      using True by (simp add: scanned_def)
    ultimately show ?thesis
      using page assms(1) [OF page] collected Suc.IH [OF walk, of ?found] True rest(1)
      by (subst runScanLoop.simps) simp
  next
    case False
    have same: "scanned o' l (seen @ filter (\<lambda>row. rnr_NeedsFollowUp row = wanted) (map row items)) = scanned o' l ?found"
      using False rest scanned_stays [of o' l ?found] by (cases "rest = []") auto
    have stop: "snd (scanned o' l ?found) \<or> \<not> pageHasMore page" using False by (auto simp: scanned_more)
    show ?thesis
    proof (cases "pageItems page = []")
      case True
      then have "items = []" using rest assms(2) [OF page] by simp
      then show ?thesis using page True Suc.prems(2) by (subst runScanLoop.simps) (simp add: scanned_def)
    next
      case rows: False
      show ?thesis
        unfolding same using page assms(1) [OF page] collected stop rows
        by (subst runScanLoop.simps) (simp add: case_prod_unfold)
    qed
  qed
qed simp

text \<open>A run that the list shows with a follow-up to do: it failed, and an item has no open case.\<close>

definition needsRun :: "apiStores \<Rightarrow> evalRun \<Rightarrow> bool" where
  "needsRun s r \<longleftrightarrow> 0 < unfollowedItems (api_Cases s) r (itemsOf (evalStoreOf s) (run_ID r))"

definition runRow :: "'j evalApiEnv \<Rightarrow> apiStores \<Rightarrow> evalRun \<Rightarrow> evalRunResponse" where
  "runRow env s r = (case evalRunListRow env s r of Inr row \<Rightarrow> row)"

lemma needsRun_shown [simp]: "needsRun s (shownRun t r) = needsRun s r"
  by (simp add: needsRun_def unfollowedItems_def)

lemma listed_run_row:
  assumes "caseOrders env s" "runStoreOK (evalStoreOf s)" "v \<in> ran (shownRuns (evalStoreOf s))"
  shows "evalRunListRow env s v = Inr (runRow env s v)" "rnr_NeedsFollowUp (runRow env s v) = needsRun s v"
proof -
  obtain k r where r: "est_runs (evalStoreOf s) k = Some r" "v = shownRun (evalStoreOf s) r"
    using assms(3) by (auto simp: ran_def shownRuns_def)
  have id: "run_ID r = k" by (rule runStoreOK_keyed [OF assms(2) r(1)])
  obtain linked where row: "evalRunListRow env s v = Inr (newEvalRunResponse (eae_FormatTime env) v [] [] [] Map.empty
      linked (evalRunReportSummary v s) (unfollowedItems (api_Cases s) r (itemsOf (evalStoreOf s) k)))"
    using run_list_row [OF assms(1,2) r(1) id] unfolding r(2) shownRun_def by blast
  show "evalRunListRow env s v = Inr (runRow env s v)" unfolding runRow_def row by simp
  show "rnr_NeedsFollowUp (runRow env s v) = needsRun s v"
    unfolding runRow_def row using id by (simp add: r(2)) (simp add: needsRun_def)
qed

lemma buildEvalRunListRows_map:
  assumes "caseOrders env s" "runStoreOK (evalStoreOf s)"
  shows "set runs \<subseteq> ran (shownRuns (evalStoreOf s)) \<Longrightarrow> buildEvalRunListRows env s runs = Inr (map (runRow env s) runs)"
  by (induction runs) (simp_all add: listed_run_row(1) [OF assms])

text \<open>
  With the flag the list of runs reads page after page until it has found its rows.  The loop returns,
  whatever the map orders, and replies with the requested page of exactly the runs of the filter
  that need (do not need) a follow-up, newest first; it says there are more exactly when there are.
\<close>

theorem filtered_runs_correct:
  assumes "caseOrders env s" "runStoreOK (evalStoreOf s)"
    and "\<And>off. iterOrder (est_runs (evalStoreOf s)) (eae_EvalKeys env ''runs'' off)"
    and "0 < rnf_Limit f" "0 \<le> rnf_Offset f" "rnf_Limit f < eae_MaxCap env"
    and "int (card (dom (est_runs (evalStoreOf s)))) + rnf_Offset f + rnf_Limit f + 50 < 2 ^ 63"
  shows "\<exists>rows. set rows = {v. shownRuns (evalStoreOf s) (run_ID v) = Some v \<and> runMatches f v \<and> needsRun s v = wanted}
    \<and> sorted_wrt runSortsBefore rows \<and> distinct (map run_ID rows)
    \<and> listEvalRunsResponse env f (Some wanted) s = Some (Inr
        \<lparr>lbd_Items = map (runRow env s) (take (nat (rnf_Limit f)) (drop (nat (rnf_Offset f)) rows)),
         lbd_HasMore = (nat (rnf_Offset f + rnf_Limit f) < length rows),
         lbd_NextOffset = (if nat (rnf_Offset f + rnf_Limit f) < length rows
           then Some (rnf_Offset f + rnf_Limit f) else None)\<rparr>)"
proof -
  let ?st = "evalStoreOf s" and ?row = "runRow env s" and ?o = "nat (rnf_Offset f)" and ?l = "nat (rnf_Limit f)"
  let ?base = "f\<lparr>rnf_Offset := 0, rnf_Limit := (if rnf_Limit f < 50 then 50 else rnf_Limit f)\<rparr>"
  let ?fetch = "\<lambda>off. ListRuns (eae_EvalKeys env ''runs'' off) (?base\<lparr>rnf_Offset := off\<rparr>) ?st"
  have keyed: "keyedBy run_ID (est_runs ?st)" using assms(2) unfolding runStoreOK_def by blast
  have limit: "0 < rnf_Limit ?base" "int (card (dom (est_runs ?st))) + rnf_Limit ?base < 2 ^ 63"
    using assms(4,5,7) by simp_all
  have small: "goInt (rnf_Limit f + 1) = rnf_Limit f + 1" "goInt (rnf_Offset f + rnf_Limit f) = rnf_Offset f + rnf_Limit f"
    using assms(4,5,7) by (simp_all add: goInt_small)
  have matches: "runMatches ?base = runMatches f" by (simp add: runMatches_def fun_eq_iff)
  note walk = runs_walk [where s = ?st and f = ?base and keys = "eae_EvalKeys env ''runs''", OF keyed assms(3) limit]
  obtain all where all: "walkPages (Suc (length all)) ?fetch 0 = Some all" "sorted_wrt runSortsBefore all"
      "distinct (map run_ID all)" "set all = {v. shownRuns ?st (run_ID v) = Some v \<and> runMatches f v}"
    using walk(1) unfolding matches by (elim exE conjE)
  have build: "buildEvalRunListRows env s (pageItems page) = Inr (map ?row (pageItems page))"
    if "?fetch off = Some page" for off page
    by (rule buildEvalRunListRows_map [OF assms(1,2) walk(2) [OF that]])
  let ?rows = "filter (\<lambda>v. needsRun s v = wanted) all"
  have "rnr_NeedsFollowUp (?row v) = needsRun s v" if "v \<in> set all" for v
    by (rule listed_run_row(2) [OF assms(1,2)]) (use that all(4) in \<open>auto intro: ranI\<close>)
  then have found: "filter (\<lambda>row. rnr_NeedsFollowUp row = wanted) (map ?row all) = map ?row ?rows"
    by (simp add: filter_map comp_def cong: filter_cong)
  have scan: "runScanLoop ?fetch (buildEvalRunListRows env s) wanted (rnf_Offset f) (rnf_Limit f) 0 (0, [])
      = Some (Inr (scanned ?o ?l (map ?row ?rows)))"
    using runScanLoop_correct [where fetch = ?fetch and build = "buildEvalRunListRows env s" and row = ?row and seen = "[]"
        and wanted = wanted and o' = ?o and l = ?l, OF build walk(3) all(1)] assms(4,5) by (simp add: found)
  have cap: "\<not> (rnf_Limit f + 1 < 0 \<or> eae_MaxCap env < rnf_Limit f + 1)" using assms(4,6) by simp
  have "listEvalRunsResponse env f (Some wanted) s = Some (Inr
        \<lparr>lbd_Items = map ?row (take ?l (drop ?o ?rows)),
         lbd_HasMore = (nat (rnf_Offset f + rnf_Limit f) < length ?rows),
         lbd_NextOffset = (if nat (rnf_Offset f + rnf_Limit f) < length ?rows
           then Some (rnf_Offset f + rnf_Limit f) else None)\<rparr>)"
    unfolding listEvalRunsResponse_def option.case Let_def small if_not_P [OF cap] scan
    using assms(4,5) by (auto simp: scanned_def nat_add_distrib take_map drop_map)
  moreover have "set ?rows = {v. shownRuns ?st (run_ID v) = Some v \<and> runMatches f v \<and> needsRun s v = wanted}"
    using all(4) by auto
  ultimately show ?thesis using all(2,3) sorted_wrt_filter distinct_map_filter by blast
qed

subsection \<open>The newest run of each dataset\<close>

text \<open>What the search knows once it has seen these runs, newest first.\<close>

definition newestOf :: "string list \<Rightarrow> evalRun list \<Rightarrow> string \<rightharpoonup> evalRun" where
  "newestOf targets seen d = (if d \<in> set targets then find (\<lambda>r. run_DatasetID r = d) seen else None)"

lemma find_later: "find P (xs @ ys) = (case find P xs of None \<Rightarrow> find P ys | Some x \<Rightarrow> Some x)"
  by (induction xs) auto

lemma newestOf_found:
  "list_all (\<lambda>d. newestOf targets xs d \<noteq> None) targets \<Longrightarrow> newestOf targets (xs @ ys) = newestOf targets xs"
  by (auto simp: newestOf_def fun_eq_iff list_all_iff find_later split: option.split)

lemma newestOf_skip:
  "run_DatasetID x \<notin> set targets \<or> newestOf targets xs (run_DatasetID x) \<noteq> None
    \<Longrightarrow> newestOf targets (xs @ [x]) = newestOf targets xs"
  by (auto simp: newestOf_def fun_eq_iff find_later split: option.split if_splits)

lemma newestOf_new:
  "run_DatasetID x \<in> set targets \<Longrightarrow> newestOf targets xs (run_DatasetID x) = None
    \<Longrightarrow> newestOf targets (xs @ [x]) = (newestOf targets xs)(run_DatasetID x \<mapsto> x)"
  by (auto simp: newestOf_def fun_eq_iff find_later split: option.split)

lemma addLatestRuns_correct:
  "\<exists>complete. addLatestRuns targets items (newestOf targets seen) = (newestOf targets (seen @ items), complete)
     \<and> (complete \<longrightarrow> list_all (\<lambda>d. newestOf targets (seen @ items) d \<noteq> None) targets)"
proof (induction items arbitrary: seen)
  case (Cons x items)
  note IH = Cons.IH [of "seen @ [x]", simplified]
  show ?case
  proof (cases "run_DatasetID x \<notin> set targets \<or> newestOf targets seen (run_DatasetID x) \<noteq> None")
    case True
    then show ?thesis using IH unfolding newestOf_skip [OF True] by simp
  next
    case False
    then have new: "newestOf targets (seen @ [x]) = (newestOf targets seen)(run_DatasetID x \<mapsto> x)"
      by (intro newestOf_new) auto
    show ?thesis
    proof (cases "list_all (\<lambda>d. newestOf targets (seen @ [x]) d \<noteq> None) targets")
      case True
      then show ?thesis
        using False True newestOf_found [OF True, of items]
        by (intro exI [of _ True]) (simp add: Let_def flip: new)
    next
      case more: False
      then show ?thesis using False IH by (simp add: Let_def flip: new)
    qed
  qed
next
  case Nil
  show ?case by (intro exI [of _ False]) simp
qed

lemma latestRunsLoop_correct:
  "walkPages n fetch off = Some items \<Longrightarrow>
     latestRunsLoop fetch targets off (newestOf targets seen) = Some (newestOf targets (seen @ items))"
proof (induction n arbitrary: off items seen)
  case (Suc n)
  obtain page where page: "fetch off = Some page" using Suc.prems by (auto split: option.splits)
  obtain complete where added: "addLatestRuns targets (pageItems page) (newestOf targets seen)
        = (newestOf targets (seen @ pageItems page), complete)"
      "complete \<longrightarrow> list_all (\<lambda>d. newestOf targets (seen @ pageItems page) d \<noteq> None) targets"
    using addLatestRuns_correct by blast
  have "\<exists>rest. items = pageItems page @ rest \<and> (\<not> pageHasMore page \<longrightarrow> rest = [])"
    using Suc.prems page by (auto split: if_splits)
  then obtain rest where rest: "items = pageItems page @ rest" "\<not> pageHasMore page \<longrightarrow> rest = []" by blast
  show ?case
  proof (cases "complete \<or> \<not> pageHasMore page")
    case True
    then have "newestOf targets (seen @ items) = newestOf targets (seen @ pageItems page)"
      using added(2) rest newestOf_found [of targets "seen @ pageItems page" rest] by auto
    then show ?thesis using True page added(1) by (subst latestRunsLoop.simps) simp
  next
    case False
    then have "walkPages n fetch (pageNextOffset page) = Some rest" using Suc.prems page rest(1) by auto
    from Suc.IH [OF this, of "seen @ pageItems page"] show ?thesis
      using False page added(1) rest(1) by (subst latestRunsLoop.simps) simp
  qed
qed simp

definition newestRun :: "evalStore \<Rightarrow> string \<Rightarrow> string \<Rightarrow> evalRun \<Rightarrow> bool" where
  "newestRun s tenantID datasetID r \<longleftrightarrow>
     (let runs = {v. shownRuns s (run_ID v) = Some v \<and> run_TenantID v = tenantID \<and> run_DatasetID v = datasetID}
      in r \<in> runs \<and> (\<forall>v \<in> runs. v \<noteq> r \<longrightarrow> runSortsBefore r v))"

lemma find_sorted:
  assumes "sorted_wrt lt xs" "\<And>x y. lt x y \<Longrightarrow> \<not> lt y x"
  shows "find P xs = Some r \<longleftrightarrow> r \<in> set xs \<and> P r \<and> (\<forall>v \<in> set xs. P v \<and> v \<noteq> r \<longrightarrow> lt r v)"
  using assms(1) by (induction xs) (auto dest: assms(2))

text \<open>
  The list of datasets shows the newest run of each.  The search over the pages of the runs of the
  tenant, which ends early once it has found one for every dataset, returns exactly these, whatever
  the map orders.
\<close>

theorem latest_runs_correct:
  assumes "keyedBy run_ID (est_runs s)" "\<And>off. iterOrder (est_runs s) (keys off)" "T \<noteq> []"
    and "int (card (dom (est_runs s))) + 100 < 2 ^ 63"
  shows "\<exists>latest. collectLatestEvalRunsByDataset keys T targets s = Some latest
    \<and> (\<forall>d r. latest d = Some r \<longleftrightarrow> d \<in> set targets \<and> newestRun s T d r)"
proof -
  let ?f = "\<lparr>rnf_TenantID = T, rnf_DatasetID = [], rnf_Status = [], rnf_Limit = 100, rnf_Offset = 0\<rparr>"
  have limit: "0 < rnf_Limit ?f" "int (card (dom (est_runs s))) + rnf_Limit ?f < 2 ^ 63" using assms(4) by simp_all
  have matches: "runMatches ?f v \<longleftrightarrow> run_TenantID v = T" for v using assms(3) by (simp add: runMatches_def)
  obtain rows where rows: "walkPages (Suc (length rows)) (\<lambda>off. ListRuns (keys off) (?f\<lparr>rnf_Offset := off\<rparr>) s) 0 = Some rows"
      "sorted_wrt runSortsBefore rows" "set rows = {v. shownRuns s (run_ID v) = Some v \<and> run_TenantID v = T}"
    using runs_walk(1) [where keys = keys and f = ?f, OF assms(1,2) limit] unfolding matches by (elim exE conjE)
  have "newestOf targets [] = Map.empty" by (simp add: newestOf_def fun_eq_iff)
  with latestRunsLoop_correct [OF rows(1), of targets "[]"]
  have found: "collectLatestEvalRunsByDataset keys T targets s = Some (newestOf targets rows)"
    by (simp add: collectLatestEvalRunsByDataset_def newestOf_def fun_eq_iff)
  have "runSortsBefore x y \<Longrightarrow> \<not> runSortsBefore y x" for x y
    by (auto simp: runSortsBefore_def split: if_splits)
  note first = find_sorted [OF rows(2) this]
  have "newestOf targets rows d = Some r \<longleftrightarrow> d \<in> set targets \<and> newestRun s T d r" for d r
    by (cases "d \<in> set targets") (simp_all add: newestOf_def newestRun_def first rows(3), blast?)
  then show ?thesis using found by (intro exI [of _ "newestOf targets rows"] conjI allI)
qed

end
