(* ===== verification/Workflow_Races.thy ===== *)
theory Workflow_Races
  imports Workflow_Safety
begin

text \<open>
  Calls that overlap.  \<open>ApproveTask\<close> and \<open>RetryTask\<close> (\<open>workflow/service.go\<close>) read the task, check its
  status and write the changed copy back in a second transaction; a promotion whose external start
  fails also writes a second time.  Here every transaction is a step of its own, so any other step
  may come in between.  What still holds then, what holds as long as no update is lost, and what
  two overlapping approvals do.
\<close>

subsection \<open>The two halves of a call\<close>

text \<open>A call between its read and its write holds the copy it has read.\<close>

datatype heldCall = Approval string task | Retrial string task | StartFailure string task

fun heldTask :: "heldCall \<Rightarrow> task" where
  "heldTask (Approval by t) = t"
| "heldTask (Retrial by t) = t"
| "heldTask (StartFailure err t) = t"

definition beginApprove :: "string \<Rightarrow> string \<Rightarrow> taskStore \<Rightarrow> workflowError + heldCall" where
  "beginApprove taskID approvedBy s =
     (case GetTask taskID s of
        Inl err \<Rightarrow> Inl err
      | Inr t \<Rightarrow>
          if task_Status t \<noteq> StatusWaitingApproval then Inl (ErrApproveFrom (task_Status t))
          else Inr (Approval approvedBy t))"

definition beginRetry :: "string \<Rightarrow> string \<Rightarrow> taskStore \<Rightarrow> workflowError + heldCall" where
  "beginRetry taskID retriedBy s =
     (case GetTask taskID s of
        Inl err \<Rightarrow> Inl err
      | Inr t \<Rightarrow>
          if task_Status t \<noteq> StatusFailed then Inl (ErrRetryFrom (task_Status t))
          else Inr (Retrial retriedBy t))"

definition requeued :: "string \<Rightarrow> time \<Rightarrow> task \<Rightarrow> task" where
  "requeued ref now t =
     t\<lparr>task_Status := StatusQueued, task_ErrorReason := [], task_AuditRef := ref, task_UpdatedAt := now\<rparr>"

definition callEvent :: "string \<Rightarrow> string \<Rightarrow> task \<Rightarrow> auditEvent" where
  "callEvent action actor t =
     \<lparr>aev_ID = 0, aev_TaskID = task_ID t, aev_Action = action, aev_Actor = actor,
      aev_Detail = task_Status t, aev_CreatedAt = task_UpdatedAt t\<rparr>"

fun writtenBy :: "time \<Rightarrow> heldCall \<Rightarrow> task \<times> auditEvent" where
  "writtenBy now (Approval by t) =
     (let t' = requeued (''approval:'' @ by) now t in (t', callEvent AuditActionApproved by t'))"
| "writtenBy now (Retrial by t) =
     (let t' = requeued (''retry:'' @ by) now t in (t', callEvent AuditActionRetried by t'))"
| "writtenBy now (StartFailure err t) =
     (let t' = startFailedTask err now t in (t', startFailedEvent t'))"

definition endCall :: "time \<Rightarrow> heldCall \<Rightarrow> taskStore \<Rightarrow> (workflowError + task) \<times> taskStore" where
  "endCall now c s = (let (t, e) = writtenBy now c in UpdateTaskWithEvent t e s)"

text \<open>Nothing in between, these are the calls of the service.\<close>

lemma ApproveTask_halves:
  "ApproveTask now i by s = (case beginApprove i by s of Inl err \<Rightarrow> (Inl err, s) | Inr c \<Rightarrow> endCall now c s)"
  by (simp add: ApproveTask_def beginApprove_def endCall_def requeued_def callEvent_def Let_def split: sum.split)

lemma RetryTask_halves:
  "RetryTask now i by s = (case beginRetry i by s of Inl err \<Rightarrow> (Inl err, s) | Inr c \<Rightarrow> endCall now c s)"
  by (simp add: RetryTask_def beginRetry_def endCall_def requeued_def callEvent_def Let_def split: sum.split)

lemma Promote_halves:
  "Promote version starter now later req svc =
     (case Promote version None now later req svc of
        (Inl err, svc1) \<Rightarrow> (Inl err, svc1)
      | (Inr t, svc1) \<Rightarrow>
          (case (if shouldStartTaskOnPromote t then Option.bind starter (\<lambda>start. start t) else None) of
             None \<Rightarrow> (Inr t, svc1)
           | Some err \<Rightarrow> (let (r, s) = endCall later (StartFailure err t) (ws_store svc1)
                          in (r, svc1\<lparr>ws_store := s\<rparr>))))"
  by (auto simp: Promote_def endCall_def CreateTaskWithEvent_def Let_def split: option.splits sum.splits prod.splits)

subsection \<open>The system\<close>

record racingSystem =
  rc_svc :: workflowService
  rc_inflight :: "task list"
  rc_held :: "heldCall list"

abbreviation rc_store :: "racingSystem \<Rightarrow> taskStore" where
  "rc_store y \<equiv> ws_store (rc_svc y)"

definition initRacing :: racingSystem where
  "initRacing = \<lparr>rc_svc = sy_svc initSystem, rc_inflight = [], rc_held = []\<rparr>"

definition withTasks :: "taskStore \<Rightarrow> racingSystem \<Rightarrow> racingSystem" where
  "withTasks st y = y\<lparr>rc_svc := (rc_svc y)\<lparr>ws_store := st\<rparr>\<rparr>"

text \<open>
  \<open>mayFail\<close> says whether an external start can fail, \<open>mayRace\<close> whether a call may write a task back
  that has changed since it was read.  A read that is refused changes nothing.
\<close>

inductive raceStep :: "'w runnerEnv \<Rightarrow> bool \<Rightarrow> bool \<Rightarrow> racingSystem \<Rightarrow> racingSystem \<Rightarrow> bool"
  for env :: "'w runnerEnv" and mayFail mayRace :: bool where
  create: "\<lbrakk>Promote version None now now req (rc_svc y) = (r, svc'); ws_seq (rc_svc y) < - 1\<rbrakk>
    \<Longrightarrow> raceStep env mayFail mayRace y (y\<lparr>rc_svc := svc'\<rparr>)"
| createFailing: "\<lbrakk>Promote version None now now req (rc_svc y) = (Inr t, svc'); ws_seq (rc_svc y) < - 1;
      shouldStartTaskOnPromote t; mayFail\<rbrakk>
    \<Longrightarrow> raceStep env mayFail mayRace y (y\<lparr>rc_svc := svc', rc_held := StartFailure err t # rc_held y\<rparr>)"
| readApprove: "beginApprove i by (rc_store y) = Inr c
    \<Longrightarrow> raceStep env mayFail mayRace y (y\<lparr>rc_held := c # rc_held y\<rparr>)"
| readRetry: "beginRetry i by (rc_store y) = Inr c
    \<Longrightarrow> raceStep env mayFail mayRace y (y\<lparr>rc_held := c # rc_held y\<rparr>)"
| writeBack: "\<lbrakk>c \<in> set (rc_held y);
      mayRace \<or> ts_tasks (rc_store y) (task_ID (heldTask c)) = Some (heldTask c);
      endCall now c (rc_store y) = (r, st)\<rbrakk>
    \<Longrightarrow> raceStep env mayFail mayRace y ((withTasks st y)\<lparr>rc_held := remove1 c (rc_held y)\<rparr>)"
| claim: "\<lbrakk>iterOrder (ts_tasks (rc_store y)) ks;
      ClaimQueuedTasks ks now limit (rc_store y) = (claimed, st)\<rbrakk>
    \<Longrightarrow> raceStep env mayFail mayRace y ((withTasks st y)\<lparr>rc_inflight := rc_inflight y @ claimed\<rparr>)"
| finish: "\<lbrakk>t \<in> set (rc_inflight y); processTask env t (rc_store y) w = (r', st, w')\<rbrakk>
    \<Longrightarrow> raceStep env mayFail mayRace y ((withTasks st y)\<lparr>rc_inflight := remove1 t (rc_inflight y)\<rparr>)"

inductive raceReach :: "'w runnerEnv \<Rightarrow> bool \<Rightarrow> bool \<Rightarrow> racingSystem \<Rightarrow> bool"
  for env :: "'w runnerEnv" and mayFail mayRace :: bool where
  start: "raceReach env mayFail mayRace initRacing"
| step: "raceReach env mayFail mayRace y \<Longrightarrow> raceStep env mayFail mayRace y y'
    \<Longrightarrow> raceReach env mayFail mayRace y'"

subsection \<open>What every step keeps\<close>

text \<open>The store is one of the sequential system, with some list of running rows.\<close>

definition storeInv :: "bool \<Rightarrow> workflowService \<Rightarrow> bool" where
  "storeInv mf svc \<longleftrightarrow> (\<exists>fl. wfInv mf \<lparr>sy_svc = svc, sy_inflight = fl\<rparr>)"

definition copyOK :: "bool \<Rightarrow> taskStore \<Rightarrow> task \<Rightarrow> bool" where
  "copyOK mf s t \<longleftrightarrow> task_ID t \<in> dom (ts_tasks s) \<and> taskOK mf s t"

fun heldOK :: "bool \<Rightarrow> heldCall \<Rightarrow> bool" where
  "heldOK mf (Approval by t) \<longleftrightarrow> task_Status t = StatusWaitingApproval"
| "heldOK mf (Retrial by t) \<longleftrightarrow> task_Status t = StatusFailed"
| "heldOK mf (StartFailure err t) \<longleftrightarrow> task_Status t = StatusWaitingApproval \<and> mf"

definition raceInv :: "bool \<Rightarrow> racingSystem \<Rightarrow> bool" where
  "raceInv mf y \<longleftrightarrow> storeInv mf (rc_svc y)
     \<and> (\<forall>t \<in> set (rc_inflight y). copyOK mf (rc_store y) t \<and> task_Status t = StatusRunning)
     \<and> (\<forall>c \<in> set (rc_held y). copyOK mf (rc_store y) (heldTask c) \<and> heldOK mf c)"

text \<open>A store that keeps every row and every log, rows possibly changed and logs possibly longer.\<close>

definition grows :: "taskStore \<Rightarrow> taskStore \<Rightarrow> bool" where
  "grows s s' \<longleftrightarrow> dom (ts_tasks s) \<subseteq> dom (ts_tasks s')
     \<and> (\<forall>k. \<exists>es. ListTaskEvents k s' = ListTaskEvents k s @ es)"

lemma grows_refl [simp]: "grows s s"
  by (simp add: grows_def)

lemma grows_writes: "writes t e s s' \<Longrightarrow> grows s s'"
  by (auto simp: grows_def writes_store dom_def)

lemma taskOK_grows:
  assumes "grows s s'" "taskOK mf s t"
  shows "taskOK mf s' t"
proof -
  obtain es where "ListTaskEvents (task_ID t) s' = ListTaskEvents (task_ID t) s @ es"
    using assms(1) unfolding grows_def by blast
  then show ?thesis using assms(2) by (auto simp: taskOK_def)
qed

lemma copyOK_grows: "grows s s' \<Longrightarrow> copyOK mf s t \<Longrightarrow> copyOK mf s' t"
  using taskOK_grows by (auto simp: copyOK_def grows_def)

lemma storeInvD:
  assumes "storeInv mf svc"
  shows "taskStoreOK (ws_store svc)"
    and "ts_tasks (ws_store svc) k = Some t \<Longrightarrow> task_ID t = k"
    and "ts_tasks (ws_store svc) k = Some t \<Longrightarrow> copyOK mf (ws_store svc) t"
proof -
  obtain fl where inv: "wfInv mf \<lparr>sy_svc = svc, sy_inflight = fl\<rparr>" using assms by (auto simp: storeInv_def)
  note d = wfInvD [OF inv, simplified]
  show ok: "taskStoreOK (ws_store svc)" by (rule d(1))
  show id: "ts_tasks (ws_store svc) k = Some t \<Longrightarrow> task_ID t = k"
    using ok taskStoreOK_keyed keyedByD by metis
  show "ts_tasks (ws_store svc) k = Some t \<Longrightarrow> copyOK mf (ws_store svc) t"
    using d(4) [of k t] id by (auto simp: copyOK_def)
qed

text \<open>Overwriting any row with a task that is not running.\<close>

lemma wfInv_overwrite:
  assumes inv: "wfInv mf y" and old: "task_ID t' \<in> dom (ts_tasks (sy_store y))"
    and quiet: "task_Status t' \<noteq> StatusRunning"
    and w: "writes t' e (sy_store y) st" and ok: "taskOK mf st t'"
  shows "wfInv mf ((withStore st y)\<lparr>sy_inflight := filter (\<lambda>u. task_ID u \<noteq> task_ID t') (sy_inflight y)\<rparr>)"
proof -
  note d = wfInvD [OF inv]
  note w1 = writes_store [OF w]
  have k: "taskOK mf st u" if "ts_tasks st k = Some u" for k u
  proof (cases "k = task_ID t'")
    case True
    with that w1 ok show ?thesis by simp
  next
    case False
    with that have u: "ts_tasks (sy_store y) k = Some u" by (simp add: w1)
    show ?thesis by (rule taskOK_grows [OF grows_writes [OF w] d(4) [OF u]])
  qed
  have dom: "dom (ts_tasks st) = dom (ts_tasks (sy_store y))" using old by (auto simp: w1 dom_def)
  show ?thesis
    unfolding wfInv_def withStore_def
    using writes_ok [OF w d(1)] d(2,3,5,6) k old quiet
    by (auto simp: dom w1 distinct_map_filter)
qed

lemma storeInv_overwrite:
  assumes "storeInv mf svc" "task_ID t' \<in> dom (ts_tasks (ws_store svc))" "task_Status t' \<noteq> StatusRunning"
    and "writes t' e (ws_store svc) st" "taskOK mf st t'"
  shows "storeInv mf (svc\<lparr>ws_store := st\<rparr>)"
proof -
  obtain fl where inv: "wfInv mf \<lparr>sy_svc = svc, sy_inflight = fl\<rparr>" using assms(1) by (auto simp: storeInv_def)
  show ?thesis
    unfolding storeInv_def using wfInv_overwrite [OF inv _ assms(3) _ assms(5), of e] assms(2,4)
    by (auto simp: withStore_def)
qed

lemma UpdateTaskWithEvent_writes:
  "task_ID t \<in> dom (ts_tasks s) \<Longrightarrow> aev_TaskID e = task_ID t \<Longrightarrow> writes t e s (snd (UpdateTaskWithEvent t e s))"
  by (auto simp: writes_def UpdateTaskWithEvent_present CreateTaskWithEvent_def)

lemma endCall_writes:
  assumes "heldOK mf c" "copyOK mf s (heldTask c)" "endCall now c s = (r, st)"
  shows "\<exists>t' e. writes t' e s st \<and> task_ID t' = task_ID (heldTask c) \<and> taskOK mf st t'
    \<and> (task_Status (heldTask c), task_Status t')
        \<in> {(StatusWaitingApproval, StatusQueued), (StatusFailed, StatusQueued), (StatusWaitingApproval, StatusFailed)}"
proof -
  obtain t' e where w: "writtenBy now c = (t', e)" by fastforce
  have id: "task_ID t' = task_ID (heldTask c)"
    using w by (cases c) (auto simp: requeued_def worker Let_def)
  have event: "aev_TaskID e = task_ID t'"
    using w by (cases c) (auto simp: requeued_def callEvent_def worker Let_def)
  have st: "writes t' e s st"
    using UpdateTaskWithEvent_writes [of t' s e] assms(2,3) id event w by (simp add: endCall_def copyOK_def)
  have ok: "taskOK mf s (heldTask c)" using assms(2) by (simp add: copyOK_def)
  have "taskOK mf st t'"
  proof (cases c)
    case (StartFailure err t)
    then show ?thesis
      using taskOK_grows [OF grows_writes [OF st] ok] w assms(1)
      by (auto simp: taskOK_def worker writes_store [OF st] startFailedIn_def Let_def)
  next
    case (Approval who t)
    then have "sameRequest (heldTask c) t'" "legalStatus (task_Status t')" "aev_Action e = AuditActionApproved"
      using w by (auto simp: requeued_def callEvent_def sameRequest_def Let_def)
    then show ?thesis by (intro taskOK_requeued [OF ok st]) simp_all
  next
    case (Retrial who t)
    then have "sameRequest (heldTask c) t'" "legalStatus (task_Status t')" "task_Status (heldTask c) \<noteq> StatusWaitingApproval"
      using w assms(1) by (auto simp: requeued_def callEvent_def sameRequest_def Let_def)
    then show ?thesis by (intro taskOK_requeued [OF ok st]) simp_all
  qed
  moreover have "(task_Status (heldTask c), task_Status t')
      \<in> {(StatusWaitingApproval, StatusQueued), (StatusFailed, StatusQueued), (StatusWaitingApproval, StatusFailed)}"
    using w assms(1) by (cases c) (auto simp: requeued_def worker Let_def)
  ultimately show ?thesis using st id by blast
qed

text \<open>A task that is created is stored as returned.\<close>

lemma create_facts:
  assumes "storeInv mf svc" "Promote version None now now req svc = (r, svc')" "ws_seq svc < - 1"
  shows "storeInv mf svc'" "grows (ws_store svc) (ws_store svc')"
    and "\<And>k. statusOf (ws_store svc') k = statusOf (ws_store svc) k
      \<or> statusOf (ws_store svc) k = None \<and> statusOf (ws_store svc') k \<in> {Some StatusQueued, Some StatusWaitingApproval}"
    and "r = Inr t \<Longrightarrow> ts_tasks (ws_store svc') (task_ID t) = Some t
      \<and> (task_RequiresApproval t \<longrightarrow> task_Status t = StatusWaitingApproval)"
proof -
  obtain fl where inv: "wfInv mf \<lparr>sy_svc = svc, sy_inflight = fl\<rparr>" using assms(1) by (auto simp: storeInv_def)
  show "storeInv mf svc'"
    unfolding storeInv_def using wfInv_promote [OF inv, of version None now now req r svc'] assms(2,3)
    by (auto simp: neverFails_def)
  have made: "svc' = svc \<or> (\<exists>t e. writes t e (ws_store svc) (ws_store svc') \<and> task_ID t = newTaskID now (ws_seq svc + 1)
      \<and> task_Status t = (if task_RequiresApproval t then StatusWaitingApproval else StatusQueued))"
    using Promote_store [OF assms(2)] by (auto simp: neverFails_def)
  then show "grows (ws_store svc) (ws_store svc')" using grows_writes by auto
  have "newTaskID now (ws_seq svc + 1) \<notin> dom (ts_tasks (ws_store svc))"
    using fresh_task_ID [OF inv, of now] assms(3) by simp
  with made show "statusOf (ws_store svc') k = statusOf (ws_store svc) k
      \<or> statusOf (ws_store svc) k = None \<and> statusOf (ws_store svc') k \<in> {Some StatusQueued, Some StatusWaitingApproval}" for k
    by (auto simp: statusOf_def writes_store domIff split: if_splits)
  show "ts_tasks (ws_store svc') (task_ID t) = Some t
      \<and> (task_RequiresApproval t \<longrightarrow> task_Status t = StatusWaitingApproval)" if "r = Inr t"
    using assms(2) that
    by (auto simp: Promote_def CreateTaskWithEvent_def logTaskEvent_def promotedTask_def Let_def
        split: option.splits sum.splits)
qed

lemma claim_grows:
  assumes "taskStoreOK s" "iterOrder (ts_tasks s) ks" "ClaimQueuedTasks ks now limit s = (claimed, s')"
  shows "grows s s'"
    and "c \<in> set claimed \<Longrightarrow> ts_tasks s' (task_ID c) = Some c \<and> task_Status c = StatusRunning"
    and "statusOf s' k = statusOf s k \<or> statusOf s k = Some StatusQueued \<and> statusOf s' k = Some StatusRunning"
proof -
  have all: "grows s s' \<and> (c \<in> set claimed \<longrightarrow> ts_tasks s' (task_ID c) = Some c \<and> task_Status c = StatusRunning)
    \<and> (statusOf s' k = statusOf s k \<or> statusOf s k = Some StatusQueued \<and> statusOf s' k = Some StatusRunning)"
  proof (cases "0 < limit")
    case False
    with assms(3) show ?thesis by (auto simp: ClaimQueuedTasks_def)
  next
    case True
    note c = claim_facts [OF assms(1,2) True assms(3)]
    have "k \<in> dom (ts_tasks s')" if "k \<in> dom (ts_tasks s)" for k
      using that c(3,4) by (cases "k \<in> task_ID ` set claimed") (auto simp: domIff)
    then have "grows s s'" using c(5) unfolding grows_def by blast
    moreover have "statusOf s' k = statusOf s k \<or> statusOf s k = Some StatusQueued \<and> statusOf s' k = Some StatusRunning"
    proof (cases "k \<in> task_ID ` set claimed")
      case True
      then obtain v where v: "v \<in> set claimed" "k = task_ID v" by blast
      then show ?thesis using c(2,3) [OF v(1)] by (auto simp: statusOf_def)
    qed (simp add: statusOf_def c(4))
    moreover have "task_Status v = StatusRunning" if "v \<in> set claimed" for v using c(2) [OF that] by auto
    ultimately show ?thesis using c(3) by blast
  qed
  show "grows s s'" using all by blast
  show "c \<in> set claimed \<Longrightarrow> ts_tasks s' (task_ID c) = Some c \<and> task_Status c = StatusRunning" using all by blast
  show "statusOf s' k = statusOf s k \<or> statusOf s k = Some StatusQueued \<and> statusOf s' k = Some StatusRunning"
    using all by blast
qed

lemma storeInv_claim:
  assumes "storeInv mf svc" "iterOrder (ts_tasks (ws_store svc)) ks"
    and "ClaimQueuedTasks ks now limit (ws_store svc) = (claimed, st)"
  shows "storeInv mf (svc\<lparr>ws_store := st\<rparr>)"
proof -
  obtain fl where "wfInv mf \<lparr>sy_svc = svc, sy_inflight = fl\<rparr>" using assms(1) by (auto simp: storeInv_def)
  from wfInv_claim [OF this, of ks now limit claimed st] assms(2,3) show ?thesis
    by (auto simp: storeInv_def withStore_def)
qed

lemma finish_facts:
  assumes "storeInv mf svc" "copyOK mf (ws_store svc) t" "task_Status t = StatusRunning" "envOK env"
    and "processTask env t (ws_store svc) w = (r, st, w')"
  shows "storeInv mf (svc\<lparr>ws_store := st\<rparr>)" "grows (ws_store svc) st" "workerOutcome t (ws_store svc) st"
    and "\<exists>t' e. writes t' e (ws_store svc) st \<and> task_ID t' = task_ID t \<and> terminal t'"
proof -
  obtain t0 where "ts_tasks (ws_store svc) (task_ID t) = Some t0" using assms(2) by (auto simp: copyOK_def)
  from processTask_outcome [OF this assms(4), of w] assms(5)
  show out: "workerOutcome t (ws_store svc) st" by auto
  then obtain t' e where t': "sameRequest t t'" "terminal t'" "writes t' e (ws_store svc) st" "task_ID t' = task_ID t"
    by (auto simp: workerOutcome_def writes_def sameRequest_ID)
  then have "taskOK mf st t'"
    using taskOK_requeued [OF _ t'(3,1)] assms(2,3) by (auto simp: copyOK_def terminal_def)
  then show "storeInv mf (svc\<lparr>ws_store := st\<rparr>)"
    using storeInv_overwrite [OF assms(1) _ _ t'(3)] t'(2,4) assms(2) by (auto simp: terminal_def copyOK_def)
  show "grows (ws_store svc) st" by (rule grows_writes [OF t'(3)])
  show "\<exists>t' e. writes t' e (ws_store svc) st \<and> task_ID t' = task_ID t \<and> terminal t'" using t' by blast
qed

subsection \<open>Steps\<close>

text \<open>The state machine of a task whose writes are transactions of their own.\<close>

definition taskMove :: "string option \<Rightarrow> string option \<Rightarrow> bool" where
  "taskMove a b \<longleftrightarrow> a = b \<or>
     (a, b) \<in> {(None, Some StatusQueued), (None, Some StatusWaitingApproval),
               (Some StatusWaitingApproval, Some StatusQueued), (Some StatusWaitingApproval, Some StatusFailed),
               (Some StatusFailed, Some StatusQueued), (Some StatusQueued, Some StatusRunning),
               (Some StatusRunning, Some StatusSucceeded), (Some StatusRunning, Some StatusFailed)}"

text \<open>A worker or a call holds a copy of the task that is no longer its row.\<close>

definition staleCopy :: "racingSystem \<Rightarrow> string \<Rightarrow> bool" where
  "staleCopy y k \<longleftrightarrow>
     (\<exists>t \<in> set (rc_inflight y) \<union> heldTask ` set (rc_held y). task_ID t = k \<and> ts_tasks (rc_store y) k \<noteq> Some t)"

definition moves :: "racingSystem \<Rightarrow> racingSystem \<Rightarrow> bool" where
  "moves y y' \<longleftrightarrow> grows (rc_store y) (rc_store y')
     \<and> (\<forall>k. taskMove (statusOf (rc_store y) k) (statusOf (rc_store y') k) \<or> staleCopy y k)"

lemma raceInv_next:
  assumes "raceInv mf y" "storeInv mf (rc_svc y')" "grows (rc_store y) (rc_store y')"
    and "\<And>t. t \<in> set (rc_inflight y') \<Longrightarrow>
      t \<in> set (rc_inflight y) \<or> copyOK mf (rc_store y') t \<and> task_Status t = StatusRunning"
    and "\<And>c. c \<in> set (rc_held y') \<Longrightarrow>
      c \<in> set (rc_held y) \<or> copyOK mf (rc_store y') (heldTask c) \<and> heldOK mf c"
  shows "raceInv mf y'"
  using assms copyOK_grows [OF assms(3)] unfolding raceInv_def by blast

lemma write_moves:
  assumes "writes t' e (rc_store y) st" "task_ID t' = task_ID t" "t \<in> set (rc_inflight y) \<union> heldTask ` set (rc_held y)"
    and "taskMove (Some (task_Status t)) (Some (task_Status t'))"
  shows "taskMove (statusOf (rc_store y) k) (statusOf st k) \<or> staleCopy y k"
proof (cases "k = task_ID t \<and> ts_tasks (rc_store y) k = Some t")
  case True
  then show ?thesis using assms(2,4) by (auto simp: statusOf_def writes_store(1) [OF assms(1)])
next
  case False
  then show ?thesis
    using assms(2,3) by (cases "k = task_ID t") (auto simp: statusOf_def writes_store(1) [OF assms(1)] staleCopy_def taskMove_def)
qed

lemma begin_copy:
  assumes "storeInv mf svc"
  shows "beginApprove i who (ws_store svc) = Inr c \<Longrightarrow> copyOK mf (ws_store svc) (heldTask c) \<and> heldOK mf c"
    and "beginRetry i who (ws_store svc) = Inr c \<Longrightarrow> copyOK mf (ws_store svc) (heldTask c) \<and> heldOK mf c"
  using storeInvD(3) [OF assms]
  by (auto simp: beginApprove_def beginRetry_def GetTask_def split: option.splits if_splits)

lemma raceStep_OK:
  assumes "raceInv mf y" "raceStep env mf mayRace y y'" "envOK env"
  shows "raceInv mf y' \<and> moves y y'"
proof -
  have store: "storeInv mf (rc_svc y)" using assms(1) by (simp add: raceInv_def)
  note next_inv = raceInv_next [OF assms(1)]
  have same: "taskMove a a" for a by (simp add: taskMove_def)
  from assms(2) show ?thesis
  proof cases
    case (create version now req r svc')
    note made = create_facts [OF store create(2,3)]
    have "raceInv mf y'" by (rule next_inv) (use create(1) made in auto)
    moreover have "taskMove (statusOf (rc_store y) k) (statusOf (ws_store svc') k)" for k
      using made(3) [of k] by (auto simp: taskMove_def)
    then have "moves y y'" using create(1) made(2) by (simp add: moves_def)
    ultimately show ?thesis ..
  next
    case (createFailing version now req t svc' err)
    note made = create_facts [OF store createFailing(2,3)]
    have row: "ts_tasks (ws_store svc') (task_ID t) = Some t" "task_Status t = StatusWaitingApproval"
      using made(4) [OF refl] createFailing(4) by (auto simp: shouldStartTaskOnPromote_def)
    have "raceInv mf y'"
      by (rule next_inv) (use createFailing(1,5) made(1,2) row storeInvD(3) [OF made(1) row(1)] in auto)
    moreover have "taskMove (statusOf (rc_store y) k) (statusOf (ws_store svc') k)" for k
      using made(3) [of k] by (auto simp: taskMove_def)
    then have "moves y y'" using createFailing(1) made(2) by (simp add: moves_def)
    ultimately show ?thesis ..
  next
    case (readApprove i who c)
    have "raceInv mf y'" by (rule next_inv) (use readApprove store begin_copy(1) [OF store] in auto)
    then show ?thesis using readApprove(1) by (simp add: moves_def same)
  next
    case (readRetry i who c)
    have "raceInv mf y'" by (rule next_inv) (use readRetry store begin_copy(2) [OF store] in auto)
    then show ?thesis using readRetry(1) by (simp add: moves_def same)
  next
    case (writeBack c now r st)
    have held: "copyOK mf (rc_store y) (heldTask c)" "heldOK mf c"
      using assms(1) writeBack(2) by (auto simp: raceInv_def)
    obtain t' e where t': "writes t' e (rc_store y) st" "task_ID t' = task_ID (heldTask c)" "taskOK mf st t'"
      "(task_Status (heldTask c), task_Status t')
        \<in> {(StatusWaitingApproval, StatusQueued), (StatusFailed, StatusQueued), (StatusWaitingApproval, StatusFailed)}"
      using endCall_writes [OF held(2,1) writeBack(4)] by blast
    have "storeInv mf ((rc_svc y)\<lparr>ws_store := st\<rparr>)"
      using storeInv_overwrite [OF store _ _ t'(1,3)] t'(2,4) held(1) by (auto simp: copyOK_def)
    then have "raceInv mf y'"
      by (intro next_inv) (use writeBack(1) grows_writes [OF t'(1)] notin_set_remove1 in \<open>auto simp: withTasks_def\<close>)
    moreover have "taskMove (Some (task_Status (heldTask c))) (Some (task_Status t'))" using t'(4) by (auto simp: taskMove_def)
    then have "moves y y'"
      using write_moves [OF t'(1,2)] writeBack(1,2) grows_writes [OF t'(1)] by (simp add: moves_def withTasks_def)
    ultimately show ?thesis ..
  next
    case (claim ks now limit claimed st)
    note c = claim_grows [OF storeInvD(1) [OF store] claim(2,3)]
    have new: "storeInv mf ((rc_svc y)\<lparr>ws_store := st\<rparr>)" by (rule storeInv_claim [OF store claim(2,3)])
    have "raceInv mf y'"
      by (rule next_inv) (use claim(1) new c(1,2) storeInvD(3) [OF new] in \<open>auto simp: withTasks_def\<close>)
    moreover have "taskMove (statusOf (rc_store y) k) (statusOf st k)" for k
      using c(3) [of k] by (auto simp: taskMove_def)
    then have "moves y y'" using claim(1) c(1) by (simp add: moves_def withTasks_def)
    ultimately show ?thesis ..
  next
    case (finish t w r' st w')
    have copy: "copyOK mf (rc_store y) t" "task_Status t = StatusRunning"
      using assms(1) finish(2) by (auto simp: raceInv_def)
    note f = finish_facts [OF store copy assms(3) finish(3)]
    obtain t' e where t': "writes t' e (rc_store y) st" "task_ID t' = task_ID t" "terminal t'" using f(4) by blast
    have "raceInv mf y'"
      by (rule next_inv) (use finish(1) f(1,2) notin_set_remove1 in \<open>auto simp: withTasks_def\<close>)
    moreover have "taskMove (Some (task_Status t)) (Some (task_Status t'))"
      using copy(2) t'(3) by (auto simp: taskMove_def terminal_def)
    then have "moves y y'" using write_moves [OF t'(1,2)] finish(1,2) f(2) by (simp add: moves_def withTasks_def)
    ultimately show ?thesis ..
  qed
qed

lemma raceInv_reach:
  assumes "raceReach env mf mayRace y" "envOK env"
  shows "raceInv mf y"
  using assms(1)
proof induction
  case start
  show ?case using wfInv_init by (auto simp: raceInv_def storeInv_def initRacing_def initSystem_def)
next
  case (step y y')
  then show ?case using raceStep_OK assms(2) by blast
qed

lemma raceInv_store: "raceInv mf y \<Longrightarrow> taskStoreOK (rc_store y)"
  using storeInvD(1) [of mf "rc_svc y"] by (simp add: raceInv_def)

subsection \<open>What overlapping calls cannot break\<close>

text \<open>
  C5: Calls that overlap.  In every step the log of a task is only appended to, with event numbers
  that grow, and its status follows the state machine, unless a call or a worker holds a copy of
  the task that is no longer its row.
\<close>

theorem racing_transitions:
  assumes "raceReach env mayFail mayRace y" "envOK env" "raceStep env mayFail mayRace y y'"
  shows "(taskMove (statusOf (rc_store y) k) (statusOf (rc_store y') k) \<or> staleCopy y k)
    \<and> (\<exists>es. ListTaskEvents k (rc_store y') = ListTaskEvents k (rc_store y) @ es)
    \<and> sorted_wrt (<) (map aev_ID (ListTaskEvents k (rc_store y')))"
proof -
  have next_state: "raceInv mayFail y' \<and> moves y y'" using raceStep_OK [OF raceInv_reach [OF assms(1,2)] assms(3,2)] .
  then have "taskStoreOK (rc_store y')" using raceInv_store by blast
  then have "sorted_wrt (<) (map aev_ID (ListTaskEvents k (rc_store y')))"
    by (simp add: taskStoreOK_def numbered_def)
  then show ?thesis using next_state by (simp add: moves_def grows_def)
qed

text \<open>
  C37: However calls overlap, and as long as the external start of approval workflows does not fail,
  a task that requires approval is never queued, executed or finished without an approval event
  in its log, and no worker holds such a task.
\<close>

theorem overlapping_approval_gate:
  assumes "raceReach env False mayRace y" "envOK env" "task_RequiresApproval t"
    and "ts_tasks (rc_store y) (task_ID t) = Some t \<and> task_Status t \<noteq> StatusWaitingApproval
      \<or> t \<in> set (rc_inflight y)"
  shows "\<exists>e \<in> set (ListTaskEvents (task_ID t) (rc_store y)). aev_Action e = AuditActionApproved"
proof -
  have inv: "raceInv False y" by (rule raceInv_reach [OF assms(1,2)])
  then have "copyOK False (rc_store y) t \<and> task_Status t \<noteq> StatusWaitingApproval"
    using assms(4) storeInvD(3) [of False "rc_svc y"] by (auto simp: raceInv_def)
  then show ?thesis using assms(3) by (simp add: copyOK_def taskOK_def approvedIn_def)
qed

subsection \<open>Without lost updates\<close>

lemma no_lost_update_reach:
  assumes "raceReach env mf False y" "envOK env"
  shows "wfInv mf \<lparr>sy_svc = rc_svc y, sy_inflight = rc_inflight y\<rparr>"
  using assms(1)
proof induction
  case start
  show ?case using wfInv_init by (simp add: initRacing_def initSystem_def)
next
  case (step y y')
  have inv: "raceInv mf y" by (rule raceInv_reach [OF step(1) assms(2)])
  note core = step(3)
  from step(2) show ?case
  proof cases
    case (create version now req r svc')
    then show ?thesis using wfInv_promote [OF core, of version None now now req r svc'] by (simp add: neverFails_def)
  next
    case (createFailing version now req t svc' err)
    then show ?thesis using wfInv_promote [OF core, of version None now now req "Inr t" svc'] by (simp add: neverFails_def)
  next
    case (writeBack c now r st)
    have held: "copyOK mf (rc_store y) (heldTask c)" "heldOK mf c" using inv writeBack(2) by (auto simp: raceInv_def)
    obtain t' e where t': "writes t' e (rc_store y) st" "task_ID t' = task_ID (heldTask c)" "taskOK mf st t'"
      "(task_Status (heldTask c), task_Status t')
        \<in> {(StatusWaitingApproval, StatusQueued), (StatusFailed, StatusQueued), (StatusWaitingApproval, StatusFailed)}"
      using endCall_writes [OF held(2,1) writeBack(4)] by blast
    then show ?thesis
      using wfInv_rewrite [OF core, of t' "heldTask c" e st] writeBack(1,3) by (auto simp: withTasks_def withStore_def)
  next
    case (claim ks now limit claimed st)
    then show ?thesis
      using wfInv_claim [OF core, of ks now limit claimed st] by (simp add: withTasks_def withStore_def)
  next
    case (finish t w r' st w')
    have "storeInv mf (rc_svc y)" "copyOK mf (rc_store y) t" "task_Status t = StatusRunning"
      using inv finish(2) by (auto simp: raceInv_def)
    note out = finish_facts(3) [OF this assms(2) finish(3)]
    then show ?thesis
      using wfInv_finish [OF core, of t st] out finish(1,2) by (simp add: withTasks_def withStore_def)
  qed (use core in simp_all)
qed

text \<open>
  C6: As long as no call writes back a task that has changed since it was read, however calls and
  workers interleave otherwise, the copies the workers hold are exactly the running tasks of the
  store, each held once and each equal to its row.  So what a worker writes back never overwrites
  an update it has not seen.
\<close>

theorem inflight_unless_lost_update:
  assumes "raceReach env mayFail False y" "envOK env"
  shows "distinct (map task_ID (rc_inflight y)) \<and>
    (\<forall>t. t \<in> set (rc_inflight y) \<longleftrightarrow>
       ts_tasks (rc_store y) (task_ID t) = Some t \<and> task_Status t = StatusRunning)"
  using wfInvD(5,6) [OF no_lost_update_reach [OF assms]] by simp

subsection \<open>Two approvals at once\<close>

lemma claims_all:
  assumes "taskStoreOK s" "iterOrder (ts_tasks s) ks" "ts_tasks s k = Some t" "task_Status t = StatusQueued"
    and "ClaimQueuedTasks ks now (int (length ks) + 1) s = (claimed, s')"
  shows "k \<in> task_ID ` set claimed" "dom (ts_tasks s') = dom (ts_tasks s)"
proof -
  let ?limit = "int (length ks) + 1"
  have keyed: "keyedBy task_ID (ts_tasks s)" using assms(1) by (rule taskStoreOK_keyed)
  let ?queued = "filter (\<lambda>t. task_Status t = StatusQueued) (rangeVals (ts_tasks s) ks)"
  have "map task_ID (rangeVals (ts_tasks s) ks) = ks"
    using idents_rangeVals [OF keyed] assms(2) by (simp add: iterOrder_def)
  then have "length (rangeVals (ts_tasks s) ks) = length ks" by (metis length_map)
  moreover have "length ?queued \<le> length (rangeVals (ts_tasks s) ks)" by (rule length_filter_le)
  ultimately have "set (queuedTasks ks ?limit s) = set ?queued" by (simp add: queuedTasks_take)
  moreover have "t \<in> set ?queued" using assms(2-4) by (auto simp: set_rangeVals ran_def)
  moreover have "task_ID t = k" using keyed assms(3) by (rule keyedByD)
  moreover have lim: "0 < ?limit" by simp
  have "task_ID ` set claimed = task_ID ` set (queuedTasks ks ?limit s)"
    using arg_cong [OF ClaimQueuedTasks_eq(3) [OF lim assms(5)], of set] by simp
  ultimately show "k \<in> task_ID ` set claimed" by auto
  note c = claim_facts [OF assms(1,2) lim assms(5)]
  have "j \<in> dom (ts_tasks s') \<longleftrightarrow> j \<in> dom (ts_tasks s)" for j
    using c(2-4) by (cases "j \<in> task_ID ` set claimed") (auto simp: domIff)
  then show "dom (ts_tasks s') = dom (ts_tasks s)" by blast
qed

text \<open>One call writes its copy back, stale or not, and a worker then claims the task.\<close>

lemma write_and_claim:
  assumes "raceReach env mf True y" "envOK env" "iterOrder (ts_tasks (rc_store y)) ks"
    and "Approval who t \<in> set (rc_held y)" "task_ID t = k"
  shows "\<exists>z xs. raceReach env mf True z \<and> iterOrder (ts_tasks (rc_store z)) ks
    \<and> rc_inflight z = rc_inflight y @ xs \<and> k \<in> task_ID ` set xs
    \<and> rc_held z = remove1 (Approval who t) (rc_held y)"
proof -
  let ?c = "Approval who t"
  obtain r st where w: "endCall 0 ?c (rc_store y) = (r, st)" by fastforce
  let ?y1 = "(withTasks st y)\<lparr>rc_held := remove1 ?c (rc_held y)\<rparr>"
  have "raceStep env mf True y ?y1" by (rule raceStep.writeBack [OF assms(4) disjI1 w]) simp
  then have r1: "raceReach env mf True ?y1" by (rule raceReach.step [OF assms(1)])
  have inv: "raceInv mf y" by (rule raceInv_reach [OF assms(1,2)])
  then have "copyOK mf (rc_store y) t" using assms(4) by (auto simp: raceInv_def)
  then have st: "st = snd (UpdateTaskWithEvent (requeued (''approval:'' @ who) 0 t)
      (callEvent AuditActionApproved who (requeued (''approval:'' @ who) 0 t)) (rc_store y))"
      and dom: "k \<in> dom (ts_tasks (rc_store y))"
    using w assms(5) by (auto simp: endCall_def copyOK_def Let_def)
  have "writes (requeued (''approval:'' @ who) 0 t) (callEvent AuditActionApproved who (requeued (''approval:'' @ who) 0 t))
      (rc_store y) st"
    unfolding st using dom assms(5) by (intro UpdateTaskWithEvent_writes) (auto simp: requeued_def callEvent_def)
  note row = writes_store(1) [OF this]
  have order: "iterOrder (ts_tasks st) ks"
    using assms(3,5) dom by (auto simp: iterOrder_def row requeued_def dom_def)
  have queued: "ts_tasks st k = Some (requeued (''approval:'' @ who) 0 t)"
    using assms(5) by (simp add: row) (simp add: requeued_def)
  obtain claimed st' where c: "ClaimQueuedTasks ks 0 (int (length ks) + 1) st = (claimed, st')" by fastforce
  have ok: "taskStoreOK st" using raceInv_store [OF raceInv_reach [OF r1 assms(2)]] by (simp add: withTasks_def)
  note all = claims_all [OF ok order queued _ c]
  let ?z = "(withTasks st' ?y1)\<lparr>rc_inflight := rc_inflight ?y1 @ claimed\<rparr>"
  have "raceStep env mf True ?y1 ?z"
    by (rule raceStep.claim [of _ ks 0 "int (length ks) + 1"]) (simp_all add: order c withTasks_def)
  then have "raceReach env mf True ?z" by (rule raceReach.step [OF r1])
  moreover have "k \<in> task_ID ` set claimed" "iterOrder (ts_tasks st') ks"
    using all order by (simp_all add: requeued_def iterOrder_def)
  ultimately show ?thesis
    by (intro exI [of _ ?z] exI [of _ claimed]) (simp add: withTasks_def)
qed

text \<open>
  C39: Two approvals of one task that overlap both succeed: from every state in which a task waits for
  its approval the server can get into one in which two workers hold it, each about to run its tool.
\<close>

theorem overlapping_approvals_run_twice:
  assumes "raceReach env mayFail True y" "envOK env" "iterOrder (ts_tasks (rc_store y)) ks"
    and "ts_tasks (rc_store y) k = Some t" "task_Status t = StatusWaitingApproval"
  shows "\<exists>z xs ys. raceReach env mayFail True z \<and> rc_inflight z = rc_inflight y @ xs @ ys
    \<and> k \<in> task_ID ` set xs \<and> k \<in> task_ID ` set ys"
proof -
  let ?a = "Approval ''a'' t" and ?b = "Approval ''b'' t"
  let ?y1 = "y\<lparr>rc_held := ?a # rc_held y\<rparr>"
  let ?y2 = "?y1\<lparr>rc_held := ?b # rc_held ?y1\<rparr>"
  have reads: "beginApprove k who (rc_store y) = Inr (Approval who t)" for who
    using assms(4,5) by (simp add: beginApprove_def GetTask_def)
  have "raceStep env mayFail True y ?y1" by (rule raceStep.readApprove [OF reads])
  then have r1: "raceReach env mayFail True ?y1" by (rule raceReach.step [OF assms(1)])
  have "raceStep env mayFail True ?y1 ?y2" using reads by (intro raceStep.readApprove) simp
  then have r2: "raceReach env mayFail True ?y2" by (rule raceReach.step [OF r1])
  have id: "task_ID t = k"
    using raceInv_reach [OF assms(1,2)] storeInvD(2) assms(4) unfolding raceInv_def by blast
  have held: "?a \<in> set (rc_held ?y2)" "iterOrder (ts_tasks (rc_store ?y2)) ks" using assms(3) by simp_all
  from write_and_claim [OF r2 assms(2) held(2,1) id] obtain z xs where
    z: "raceReach env mayFail True z" "iterOrder (ts_tasks (rc_store z)) ks" "rc_inflight z = rc_inflight y @ xs"
      "k \<in> task_ID ` set xs" "?b \<in> set (rc_held z)" by auto
  from write_and_claim [OF z(1) assms(2) z(2,5) id] z(3,4) show ?thesis by auto
qed

subsection \<open>Concrete runs\<close>

text \<open>A task is created, approved and claimed.\<close>

definition raceCreated :: racingSystem where
  "raceCreated = initRacing\<lparr>rc_svc := snd (Promote None None 5 5 demoRequest (sy_svc initSystem))\<rparr>"

definition raceWaiting :: task where
  "raceWaiting = promotedTask [] 5 1 demoRequest"

abbreviation (input) raceApproval :: heldCall where
  "raceApproval \<equiv> Approval ''ops'' raceWaiting"

definition raceRead :: racingSystem where
  "raceRead = raceCreated\<lparr>rc_held := [raceApproval]\<rparr>"

definition raceApproved :: racingSystem where
  "raceApproved = (withTasks (snd (endCall 7 raceApproval (rc_store raceRead))) raceRead)\<lparr>rc_held := []\<rparr>"

definition raceBusy :: racingSystem where
  "raceBusy = (let (claimed, st) = ClaimQueuedTasks [demoID] 8 1 (rc_store raceApproved)
     in (withTasks st raceApproved)\<lparr>rc_inflight := claimed\<rparr>)"

lemmas raceDefs = raceBusy_def raceApproved_def raceRead_def raceCreated_def raceWaiting_def initRacing_def withTasks_def
  endCall_def requeued_def callEvent_def runDefs

lemma race_rows:
  "ts_tasks (rc_store raceCreated) = [demoID \<mapsto> raceWaiting]" "task_Status raceWaiting = StatusWaitingApproval"
  "task_ID raceWaiting = demoID" "rc_inflight raceCreated = []" "rc_inflight raceApproved = []"
  "dom (ts_tasks (rc_store raceApproved)) = {demoID}" "statusOf (rc_store raceApproved) demoID = Some StatusQueued"
  "statusOf (rc_store raceBusy) demoID = Some StatusRunning" "map task_ID (rc_inflight raceBusy) = [demoID]"
  "map task_RequiresApproval (rc_inflight raceBusy) = [True]"
  by (simp_all add: raceDefs statusOf_def)

lemma race_created: "raceReach env mf mr raceCreated"
proof -
  obtain r svc' where p: "Promote None None 5 5 demoRequest (sy_svc initSystem) = (r, svc')" by force
  have "raceStep env mf mr initRacing (initRacing\<lparr>rc_svc := svc'\<rparr>)"
    by (rule raceStep.create [of None 5 demoRequest _ r]) (use p in \<open>auto simp: initRacing_def initSystem_def word_gt_0\<close>)
  with raceReach.start have "raceReach env mf mr (initRacing\<lparr>rc_svc := svc'\<rparr>)" by (rule raceReach.step)
  then show ?thesis using p by (simp add: raceCreated_def)
qed

lemma race_approved: "raceReach env mf mr raceApproved"
proof -
  have "beginApprove demoID ''ops'' (rc_store raceCreated) = Inr raceApproval"
    by (simp add: beginApprove_def GetTask_def race_rows(1,2))
  then have "raceStep env mf mr raceCreated raceRead"
    using raceStep.readApprove [of demoID "''ops''" raceCreated raceApproval env mf mr]
    by (simp add: raceRead_def raceCreated_def initRacing_def)
  then have r: "raceReach env mf mr raceRead" by (rule raceReach.step [OF race_created])
  obtain res st where e: "endCall 7 raceApproval (rc_store raceRead) = (res, st)" by fastforce
  have held: "rc_held raceRead = [raceApproval]" "rc_store raceRead = rc_store raceCreated" by (simp_all add: raceRead_def)
  have "raceStep env mf mr raceRead ((withTasks st raceRead)\<lparr>rc_held := remove1 raceApproval (rc_held raceRead)\<rparr>)"
    by (rule raceStep.writeBack [OF _ _ e]) (simp_all add: held race_rows(1,3))
  then have "raceStep env mf mr raceRead raceApproved" using e by (simp add: raceApproved_def held)
  then show ?thesis by (rule raceReach.step [OF r])
qed

lemma race_claim: "raceStep env mf mr raceApproved raceBusy"
proof -
  obtain claimed st where c: "ClaimQueuedTasks [demoID] 8 1 (rc_store raceApproved) = (claimed, st)" by force
  have "raceStep env mf mr raceApproved
      ((withTasks st raceApproved)\<lparr>rc_inflight := rc_inflight raceApproved @ claimed\<rparr>)"
    by (rule raceStep.claim [OF _ c]) (simp add: iterOrder_def race_rows(6))
  then show ?thesis using c by (simp add: raceBusy_def race_rows(5))
qed

lemma racing_transitions_witness:
  "statusOf (rc_store raceApproved) demoID = Some StatusQueued \<and> statusOf (rc_store raceBusy) demoID = Some StatusRunning
   \<and> (\<exists>es. ListTaskEvents demoID (rc_store raceBusy) = ListTaskEvents demoID (rc_store raceApproved) @ es)"
  using racing_transitions [OF race_approved [of demoEnv False True] demoEnv_ok(2) race_claim, of demoID] race_rows(7,8)
  by blast

lemma race_busy: "raceReach env mf mr raceBusy"
  by (rule raceReach.step [OF race_approved race_claim])

lemma overlapping_approval_gate_witness:
  "\<exists>e \<in> set (ListTaskEvents demoID (rc_store raceBusy)). aev_Action e = AuditActionApproved"
proof -
  obtain t where t: "rc_inflight raceBusy = [t]" "task_ID t = demoID" "task_RequiresApproval t"
    using race_rows(9,10) by (auto simp: map_eq_Cons_conv)
  from overlapping_approval_gate [OF race_busy [of demoEnv False True] demoEnv_ok(2) t(3)] t(1,2) show ?thesis by simp
qed

lemma inflight_unless_lost_update_witness:
  "\<exists>t. rc_inflight raceBusy = [t] \<and> ts_tasks (rc_store raceBusy) demoID = Some t \<and> task_Status t = StatusRunning"
proof -
  obtain t where t: "rc_inflight raceBusy = [t]" "task_ID t = demoID"
    using race_rows(9) by (auto simp: map_eq_Cons_conv)
  from inflight_unless_lost_update [OF race_busy [of demoEnv False False] demoEnv_ok(2)]
  have "t \<in> set (rc_inflight raceBusy) \<longleftrightarrow>
      ts_tasks (rc_store raceBusy) (task_ID t) = Some t \<and> task_Status t = StatusRunning" by blast
  with t show ?thesis by simp
qed

lemma overlapping_approvals_run_twice_witness:
  "\<exists>z xs ys. raceReach demoEnv False True z \<and> rc_inflight z = xs @ ys \<and> demoID \<in> task_ID ` set xs
     \<and> demoID \<in> task_ID ` set ys"
  using overlapping_approvals_run_twice [OF race_created [of demoEnv False True] demoEnv_ok(2),
      of "[demoID]" demoID raceWaiting]
  by (simp add: race_rows iterOrder_def)

end
