(* ===== verification/Spec2Isabelle.thy ===== *)
theory Spec2Isabelle
  imports Workflow_Safety Case_Lifecycle Context_Laws Planner_Laws Chat_Laws Critic Sessions Hybrid_Laws Temporal_Laws Eval_Contracts Http_Task_Laws Http_Eval_Safety Http_Eval_Lists Workflow_Races
begin

text \<open>
  A verification library for the OpsPilot server (the Go module under \<open>src/\<close>).

  OpsPilot answers operations questions in a chat.  A request is planned, backed by retrieved
  evidence and by tool calls, answered by a language model, reviewed, and, when a tool call needs
  an approval or the work is long, promoted to an asynchronous task.  Workers run the tasks and
  write reports; operators follow problems up in cases; cases become eval cases, eval cases become
  datasets, and eval runs send the items of a dataset through the chat and have the answers judged.

  \<^bold>\<open>Theories and code\<close> (paths under \<open>src/internal\<close>).

  \<^item> \<open>Go_Prelude\<close>, \<open>Go_Sort\<close>, \<open>Go_Store\<close>: what the code uses of Go.  Byte strings with the
    functions of \<open>strings\<close> and \<open>strconv\<close>, wrap-around of \<open>int\<close>, iteration over maps in any
    order, the sorting functions, pages cut out of a slice, and identifiers drawn from a counter.
    On strings \<open>toLower\<close> and \<open>toUpper\<close> change ASCII letters only.
  \<^item> \<open>Workflow_Tasks\<close> (\<open>workflow/types.go\<close>, \<open>memory_store.go\<close>, \<open>service.go\<close>): the task record,
    the store with its event log, claiming, listing, promotion, approval and retry.
    \<open>Workflow_Runner\<close> (\<open>runner.go\<close>, \<open>temporal_executor.go\<close>): one batch of a worker.
    \<open>Workflow_Safety\<close>: the step relation of promotions, approvals, retries, claims and
    completions in any order, each call at once, its invariant, and the state machine it refines.
    \<open>Workflow_Races\<close>: the same with the read and the write of a call as steps of their own, so
    that calls overlap: the approval gate still holds, the state machine and the copies of the
    workers hold as long as no update is lost, and two approvals at once run a task twice.
    \<open>Temporal_Work\<close> and \<open>Temporal_Laws\<close> (\<open>temporal_report_runtime.go\<close> and its activities): the
    workflow of a report and of an approved tool, with the signal, the timer and the references.
  \<^item> \<open>Cases\<close> (\<open>case/\<close>): operator cases with optimistic assignment, notes, listing and summaries.
    \<open>Case_Laws\<close> holds what the queries return, \<open>Case_Lifecycle\<close> the step relation and its
    invariants.
  \<^item> \<open>Versions\<close> (\<open>version/\<close>), \<open>Reports\<close> and \<open>Report_Laws\<close> (\<open>report/\<close>): the registry of versions,
    the reports of finished tasks, their list and comparison, and the worker of
    \<open>Workflow_Runner\<close> running on these stores.  \<open>Task_Views\<close> (\<open>app/admin/taskboard/\<close>,
    \<open>observability/tracedetail/\<close>): the board and the trace lookups that join the stores.
  \<^item> \<open>Context_Engine\<close> and \<open>Context_Laws\<close> (\<open>contextengine/\<close>): the blocks of a prompt, their
    scores and the eviction that keeps them within a budget.
  \<^item> \<open>Planner\<close>, \<open>Planner_LLM\<close>, \<open>Planner_Laws\<close> (\<open>agent/planner/\<close>): tenant policies, the keyword
    planner, the validation of a plan written by a language model, planning and replanning.
  \<^item> \<open>Tools\<close> and \<open>Tool_Laws\<close> (\<open>tools/registry/\<close>, \<open>agent/tool/\<close>, \<open>tools/http/tickets/tickets.go\<close>):
    the registry, the approval gate of an invocation and the ticket adapters.
  \<^item> \<open>Ingestion\<close> and \<open>Ingestion_Laws\<close> (\<open>ingestion/\<close>): splitting, chunking and prefixing a
    document.  \<open>Chunk_Store\<close>, \<open>Chunk_Laws\<close>, \<open>Hybrid_Search\<close>, \<open>Hybrid_Laws\<close>
    (\<open>storage/postgres/retrieval_chunks.go\<close>): the table the chunks are written to, what an
    ingestion leaves there, and the dense and textual search over it with rank fusion.
  \<^item> \<open>Sessions\<close> (\<open>session/\<close>), \<open>Retrieval\<close> and \<open>Retrieval_Laws\<close> (\<open>retrieval/\<close>), \<open>Critic\<close>
    (\<open>agent/critic/\<close>): the message log, the search with its refinement stages, and the review.
  \<^item> \<open>Chat\<close> and \<open>Chat_Laws\<close> (\<open>app/chat/\<close>): a request from the session to the events, composed
    of all of the above.
  \<^item> \<open>Eval_Store\<close>, \<open>Eval_Cases\<close>, \<open>Eval_Services\<close>, \<open>Eval_Runner\<close> (\<open>eval/\<close>): the store of
    evaluations, the promotion of a case, datasets, runs and judges, reports, the worker and the
    executor that sends a run through the chat.  \<open>Eval_Laws\<close> is the life of one run,
    \<open>Eval_Case_Laws\<close> the filtered list, \<open>Eval_Lifecycle\<close> the step relation of all services and
    its invariant, \<open>Eval_Contracts\<close> what follows from it.
  \<^item> \<open>Http_Core\<close>, \<open>Http_Cases\<close>, \<open>Http_Tasks\<close>, \<open>Http_Views\<close>, \<open>Http_Chat\<close> (\<open>app/httpapi/\<close>): the
    HTTP API over these services.  A handler takes the request as it sees it and the stores, and
    returns the reply and the stores.  \<open>Http_Core\<close> is the request, the reply, the identifiers of
    \<open>middleware.go\<close> and the parsing that the handlers repeat, \<open>Http_Cases\<close> is \<open>cases.go\<close>,
    \<open>Http_Tasks\<close> is \<open>tasks.go\<close> and \<open>admin_taskboard.go\<close>, \<open>Http_Views\<close> is \<open>reports.go\<close>,
    \<open>versions.go\<close> and \<open>traces.go\<close>, \<open>Http_Chat\<close> is \<open>sessions.go\<close> and \<open>documents.go\<close>.
    \<open>Http_Case_Laws\<close> shows that requests stay in their tenant, what the sources of a created case
    are and that creating reuses the open case of a source; \<open>Http_Task_Laws\<close> makes the task
    endpoints, the chat stream and the workers one system, whose requests are handled one at a time,
    and transfers the approval gate to it.
  \<^item> \<open>Http_Evals\<close>, \<open>Http_Eval_Runs\<close>, \<open>Http_Eval_Reports\<close>, \<open>Http_Eval_Datasets\<close> (\<open>eval_cases.go\<close>,
    \<open>eval_runs.go\<close>, \<open>eval_reports.go\<close>, \<open>eval_datasets.go\<close> of \<open>app/httpapi/\<close>): the endpoints of the
    evaluation, which join its store with the cases that follow a record up.  Map orders carry a
    label that names the call, \<open>eae_MaxCap\<close> and \<open>eae_EvalCaseCap\<close> are the largest capacities \<open>make\<close> accepts, and the words
    an error is wrapped in are left out of the reply.  \<open>Http_Eval_Laws\<close> and \<open>Http_Eval_Lists\<close> show
    what the filtered lists and counts are; \<open>Http_Eval_Safety\<close> makes requests and the worker one
    system, whose records are stable and whose requests stay in their tenant.


  \<^bold>\<open>Interfaces.\<close>  Each is a locale that the theory of its provider interprets on the model.
  \<open>keyed_store\<close> and its extension \<open>audited_store\<close> (a record with a numbered event log) are the
  stores of tasks, cases, tools, versions, reports and evaluations; \<open>id_source\<close> the makers of
  identifiers; \<open>record_order\<close> and \<open>weak_order\<close> the comparators that the lists are sorted by, with
  the lemmas about walking through pages.  \<open>gated_tools\<close> states what a caller of the tools relies
  on: without an approval an invocation changes the world at most by executors of ungated tools.
  \<open>chunk_store\<close> and \<open>total_chunk_store\<close> are the table as the pipeline sees it, \<open>run_judge\<close> is a
  judge of eval answers (placeholder or over HTTP), \<open>follow_up_source\<close> what the filtered list of
  eval cases needs of the cases.

  \<^bold>\<open>Conventions.\<close>  A struct is a record whose fields carry a short prefix, an error a value of a
  sum type, a store a record of maps that every operation takes and returns.  The clock, the
  order of an iteration over a map, the language model, embeddings, JSON, tools, HTTP calls of a
  client and the external workflow engine are arguments.  A language model answers by stage,
  number of the call and prompt, so the goroutines of one stage may run in any order.  A tool
  acts on a world of its own type.  Panics are \<open>None\<close>.  Operations of one store are atomic, as
  under its mutex, and the step relations interleave the calls of the services in any order.  A
  call that reads and writes in two operations is one step, but for those of \<open>Workflow_Races\<close> and
  the interventions that some operations of the evaluation and of the cases take as an argument.  Floating point numbers are
  rationals or reals, so rounding is not modelled.

  \<^bold>\<open>Loops.\<close>  The loops are structural recursions or functions with a measure, so they return by
  construction.  The walk over pages of \<open>Go_Sort\<close> takes fuel, and one more than the number of
  rows is enough.  The loop over batches of the filtered list of eval cases is a
  \<open>partial_function\<close>, and \<open>Eval_Case_Laws.ListEvalCases_follow_up\<close> shows that it returns; so is
  \<open>foldPages\<close> of \<open>Http_Core\<close>, the loop that reads a list to its end, and
  \<open>Http_Case_Laws.collectEvalReportIDsForDataset_correct\<close> shows that it returns.  The loops behind
  the filtered lists of reports and runs and behind the newest runs of datasets are shown to return
  by \<open>Http_Eval_Laws.filtered_reports_correct\<close>, \<open>Http_Eval_Lists.filtered_runs_correct\<close> and
  \<open>Http_Eval_Lists.latest_runs_correct\<close>.

  \<^bold>\<open>Deviations the lemmas show\<close> without being properties of their own:
  \<open>Workflow_Tasks.ListTasks_panic_iff\<close>, \<open>Case_Laws.caseSortsAfter_order\<close>,
  \<open>Context_Laws.safety_net_keeps_first\<close>, \<open>Context_Laws.keyword_scorer_band\<close>,
  \<open>Planner_Laws.dependencies_not_ordered\<close>, \<open>Retrieval_Laws.Rerank_nan_unsorted\<close>,
  \<open>Eval_Contracts.passed_items_include_bad_cases\<close>, \<open>Eval_Contracts.published_dataset_changes\<close>,
  \<open>Case_Lifecycle.reopen_breaks_one_open_case\<close>, \<open>Http_Case_Laws.untrimmed_tenant_unreachable\<close>,
  \<open>Http_Case_Laws.sources_behind_report_unchecked\<close>, \<open>Http_Task_Laws.created_tool_task_runs_nothing\<close>,
  \<open>Http_Task_Laws.missing_tool_reported_as_session\<close>, \<open>Chat_Laws.approval_names_wrong_call\<close>,
  \<open>Http_Eval_Laws.filtered_runs_panic\<close>, \<open>Chunk_Laws.ingest_takes_over_rows\<close> and
  \<open>Hybrid_Laws.expansion_ignores_scope\<close>, the last two on one concrete document.

  \<^bold>\<open>Not modelled.\<close>  The routes and the pages of the console; the token events of a chat stream.
  The SQL stores (\<open>storage/postgres\<close>
  but for the chunk table) and the migrations, whose meaning is that of statements a database
  runs; the clients of language models, embeddings, tools and the Temporal server, which are
  input and output; metrics, tracing and logging; the offline metrics of \<open>retrieval/ragas.go\<close>;
  the search for prompt files on disk; the commands and the configuration, which wire the parts
  together; the page of the web console.
\<close>

section \<open>Evidence across components\<close>

lemma hybrid_tenantSearcher: "tenantSearcher (hybrid_Search c ks scan)"
  by (auto simp: tenantSearcher_def ofTenant_def dest: hybrid_Search_tenant)

text \<open>
  C8: Whichever of the two searches a server is built with, the one over a fixed catalog or the one
  over the table that ingestion writes, every piece of evidence in the result of a chat request
  belongs to the tenant of the request: through rewriting, re-ranking, compression, filtering and
  reordering, and also when replanning searches a second time.
\<close>

theorem chat_evidence_tenant:
  assumes "(\<exists>catalog. ce_Search env = (\<lambda>rq. Inr (Search catalog rq)))
      \<or> (\<exists>c ks scan. ce_Search env = hybrid_Search c ks scan)"
    and "Handle env ck req s = (Inr r, s')"
  shows "\<forall>b \<in> set (rres_EvidenceBlocks (hr_Retrieval r)). eb_TenantID b = req_TenantID req"
proof -
  have "tenantSearcher (ce_Search env)" using assms(1) Search_tenantSearcher hybrid_tenantSearcher by auto
  then show ?thesis using assms(2) by (rule Handle_evidence_tenant)
qed

text \<open>A server over a table of one document, and a request that its evidence answers.\<close>

definition searchingChat :: "(string list, ticketPayload) chatEnv" where
  "searchingChat = (demoChat NoProvider Inl)\<lparr>ce_Search := hybrid_Search textSearch publicKeys (\<lambda>_. publicTable)\<rparr>"

lemma restart_plan:
  assumes "pin_UserMessage input = ''restart''" "pin_Mode input = ''eval''"
  shows "ep_RequiresRetrieval (planWithKeywords input i)"
proof -
  have words: "\<not> contains (toLower ''restart'') ''ticket''" "\<not> contains (toLower ''restart'') ''report''"
    "\<not> contains (toLower ''restart'') ''export''"
    by code_simp+
  have none: "find (\<lambda>t. False) ts = None" for ts :: "toolDescriptor list" by (induction ts) simp_all
  have "selectTool input = noTool" using assms words by (simp add: selectTool_def none Let_def)
  moreover have "classifyIntent input \<noteq> IntentReportRequest" using assms words by (simp add: classifyIntent_def Let_def)
  ultimately show ?thesis
    using assms(2) by (simp add: planWithKeywords_def shouldPromoteWorkflow_def noTool_def Let_def)
qed

lemma retrieveEvidence_search:
  "\<exists>q. retrieveEvidence env provider req sid planID
      = (case ce_Search env q of Inl err \<Rightarrow> Inl err | Inr res \<Rightarrow> Inr (res\<lparr>rres_EvidenceBlocks :=
           refineEvidence env provider (req_UserMessage req) (rres_EvidenceBlocks res)\<rparr>))
    \<and> rr_TenantID q = req_TenantID req \<and> rr_PermissionsScope q = [] \<and> rr_TopK q = 0"
  unfolding retrieveEvidence_def Let_def by (intro exI conjI, rule refl) simp_all

lemma searching_answers:
  "\<exists>r s'. Handle searchingChat demoClock (demoChatRequest ''eval'' ''restart'') demoChatState = (Inr r, s')
     \<and> rres_EvidenceBlocks (hr_Retrieval r) = [publicHit]"
proof -
  let ?req = "demoChatRequest ''eval'' ''restart''"
  have eval: "req_Mode ?req = ''eval''" "req_SessionID ?req = []" by (simp_all add: demoChatRequest_def)
  have "\<exists>res. ce_Search searchingChat rq = Inr res" for rq
    by (simp add: searchingChat_def textSearch_def hybrid_Search_def Let_def)
  from eval_mode_answers [OF eval this] obtain r s' where
    h: "Handle searchingChat demoClock ?req demoChatState = (Inr r, s')" by blast
  then obtain sid messages d w where d: "draftAnswer searchingChat ?req sid messages (cst_World demoChatState) = (Inr d, w)"
      "hr_Retrieval r = dr_Retrieval d"
    by (rule Handle_success) simp
  obtain assembled plan retrieval where p: "planFor searchingChat ?req sid messages = (assembled, plan)"
      "firstRetrieval searchingChat ?req sid plan = Inr retrieval"
      "dr_Retrieval d = secondRetrieval searchingChat ?req sid (dr_Plan d) (dr_ReplanCount d) retrieval" "dr_ReplanCount d = 0"
    using draftAnswer_success [OF d(1)] eval(1) by simp metis
  have "ep_RequiresRetrieval plan"
    using p(1) by (auto simp: planFor_def Plan_def plannerLLM_def searchingChat_def demoChat_def demoChatRequest_def
        planInputFor_def Let_def intro!: restart_plan)
  then have first: "retrieveEvidence searchingChat NoProvider ?req sid (ep_PlanID plan) = Inr retrieval"
    using p(2) by (simp add: firstRetrieval_def searchingChat_def demoChat_def)
  obtain q where q: "Inr retrieval = (case ce_Search searchingChat q of Inl err \<Rightarrow> Inl err | Inr res \<Rightarrow>
        Inr (res\<lparr>rres_EvidenceBlocks :=
         refineEvidence searchingChat NoProvider (req_UserMessage ?req) (rres_EvidenceBlocks res)\<rparr>))"
      "rr_TenantID q = req_TenantID ?req" "rr_PermissionsScope q = []" "rr_TopK q = 0"
    using retrieveEvidence_search [of searchingChat NoProvider ?req sid "ep_PlanID plan"] unfolding first by blast
  have "ce_Search searchingChat = hybrid_Search textSearch publicKeys (\<lambda>_. publicTable)" by (simp add: searchingChat_def)
  moreover have "rr_TenantID q = ''acme''" using q(2) by (simp add: demoChatRequest_def)
  from search_public [OF this q(3,4)] q(1) calculation have "rres_EvidenceBlocks retrieval = [publicHit]"
    by (auto simp: refineEvidence_def Compress_def CRAG_Filter_def ReorderLostInTheMiddle_def Let_def)
  then show ?thesis using h d(2) p(3,4) by (simp add: secondRetrieval_def)
qed
lemma chat_evidence_tenant_witness:
  "\<exists>r s'. Handle searchingChat demoClock (demoChatRequest ''eval'' ''restart'') demoChatState = (Inr r, s')
     \<and> rres_EvidenceBlocks (hr_Retrieval r) = [publicHit] \<and> eb_TenantID publicHit = ''acme''"
proof -
  let ?req = "demoChatRequest ''eval'' ''restart''"
  obtain r s' where h: "Handle searchingChat demoClock ?req demoChatState = (Inr r, s')"
      "rres_EvidenceBlocks (hr_Retrieval r) = [publicHit]"
    using searching_answers by blast
  have "\<exists>c ks scan. ce_Search searchingChat = hybrid_Search c ks scan" by (auto simp: searchingChat_def)
  then have "\<forall>b \<in> set (rres_EvidenceBlocks (hr_Retrieval r)). eb_TenantID b = req_TenantID ?req"
    using chat_evidence_tenant [OF _ h(1)] by blast
  with h(2) have "eb_TenantID publicHit = ''acme''" by (simp add: demoChatRequest_def)
  with h show ?thesis by blast
qed

end
